(* ===== verification/Prelude.thy ===== *)
theory Prelude
  imports Complex_Main "HOL-Library.AList" "HOL-Library.Char_ord" "HOL-Library.List_Lexorder"
begin

text \<open>
  Shared vocabulary of the development: Python dictionaries as association lists in
  insertion order, the string methods the code uses, Python's \<open>int(str)\<close>, slices, the
  stable \<open>sorted(key=...)\<close>, and the contracts (locales) that several components share.
  Timestamps (\<open>time.time()\<close>, \<open>time.monotonic()\<close>) are real numbers: the rounding of
  binary floating point is not modelled.
\<close>

named_theorems dict_simps \<open>lookup, keys and size after an update or a deletion\<close>

type_synonym time = real

subsection \<open>Python dictionaries\<close>

text \<open>
  A \<open>dict\<close> keeps its keys in insertion order and \<open>d[k] = v\<close> on a present key keeps
  the key's place: this is \<open>AList.update\<close>; \<open>del d[k]\<close> is \<open>AList.delete\<close>. A dict
  never has a key twice: \<open>dict_ok\<close>.
\<close>

type_synonym ('k, 'v) dict = "('k \<times> 'v) list"

abbreviation dget :: "('k, 'v) dict \<Rightarrow> 'k \<Rightarrow> 'v option" where
  "dget \<equiv> map_of"

abbreviation dput :: "'k \<Rightarrow> 'v \<Rightarrow> ('k, 'v) dict \<Rightarrow> ('k, 'v) dict" where
  "dput \<equiv> AList.update"

abbreviation ddel :: "'k \<Rightarrow> ('k, 'v) dict \<Rightarrow> ('k, 'v) dict" where
  "ddel \<equiv> AList.delete"

abbreviation dkeys :: "('k, 'v) dict \<Rightarrow> 'k list" where
  "dkeys d \<equiv> map fst d"

definition dvals :: "('k, 'v) dict \<Rightarrow> 'v list" where
  "dvals d = map snd d"

abbreviation dict_ok :: "('k, 'v) dict \<Rightarrow> bool" where
  "dict_ok d \<equiv> distinct (dkeys d)"

text \<open>\<open>for k in ks: del d[k]\<close>\<close>

definition ddel_all :: "'k list \<Rightarrow> ('k, 'v) dict \<Rightarrow> ('k, 'v) dict" where
  "ddel_all ks d = fold AList.delete ks d"

lemma ddel_filter: "ddel k d = filter (\<lambda>p. fst p \<noteq> k) d"
  by (induction d) auto

lemma ddel_all_filter [dict_simps]: "ddel_all ks d = filter (\<lambda>p. fst p \<notin> set ks) d"
  by (induction ks arbitrary: d) (auto simp: ddel_all_def ddel_filter intro!: filter_cong)

lemma dget_dput [dict_simps]: "dget (dput k v d) k' = (if k' = k then Some v else dget d k')"
  by (simp add: AList.update_conv')

lemma dget_ddel [dict_simps]: "dget (ddel k d) k' = (if k' = k then None else dget d k')"
  by (simp add: AList.delete_conv')

lemma dget_filter_key: "dget (filter (\<lambda>p. P (fst p)) d) k = (if P k then dget d k else None)"
  by (induction d) auto

lemma dget_filter_notin: "dget (filter (\<lambda>p. fst p \<notin> A) d) k = (if k \<in> A then None else dget d k)"
  using dget_filter_key [of "\<lambda>x. x \<notin> A" d k] by simp

lemma dget_ddel_all [dict_simps]: "dget (ddel_all ks d) k = (if k \<in> set ks then None else dget d k)"
  by (simp only: ddel_all_filter dget_filter_notin)

lemma dict_ok_dput [dict_simps, intro]: "dict_ok d \<Longrightarrow> dict_ok (dput k v d)"
  by (rule AList.distinct_update)

lemma dict_ok_filter [dict_simps, intro]: "dict_ok d \<Longrightarrow> dict_ok (filter P d)"
  by (rule distinct_map_filter)

lemma dict_ok_fold_dput: "dict_ok d \<Longrightarrow> dict_ok (fold (\<lambda>(k, v). dput k v) xs d)"
  by (induction xs arbitrary: d) (auto simp: dict_simps)

lemma dict_ok_ddel [dict_simps, intro]: "dict_ok d \<Longrightarrow> dict_ok (ddel k d)"
  by (rule AList.distinct_delete)

lemma dict_ok_ddel_all [dict_simps, intro]: "dict_ok d \<Longrightarrow> dict_ok (ddel_all ks d)"
  by (simp add: ddel_all_filter dict_ok_filter)

lemma dkeys_dput_mem [dict_simps]: "dget d k \<noteq> None \<Longrightarrow> dkeys (dput k v d) = dkeys d"
  by (simp add: AList.update_keys map_of_eq_None_iff)

lemma length_dput [dict_simps]:
  "length (dput k v d) = (if dget d k = None then Suc (length d) else length d)"
proof -
  have "length (dput k v d) = length (dkeys (dput k v d))" by simp
  also have "\<dots> = (if dget d k = None then Suc (length d) else length d)"
    by (simp only: AList.update_keys map_of_eq_None_iff) auto
  finally show ?thesis .
qed

lemma length_dput_le: "length (dput k v d) \<le> Suc (length d)"
  by (simp add: length_dput)

lemma dget_in: "dget d k = Some v \<Longrightarrow> (k, v) \<in> set d"
  by (rule map_of_SomeD)

lemma dget_iff: "dict_ok d \<Longrightarrow> dget d k = Some v \<longleftrightarrow> (k, v) \<in> set d"
  by (simp add: map_of_eq_Some_iff)

lemma dput_new: "dget d k = None \<Longrightarrow> dput k v d = d @ [(k, v)]"
  by (induction d) (auto split: if_splits)

lemma set_dput: "dict_ok d \<Longrightarrow> set (dput k v d) = insert (k, v) {p \<in> set d. fst p \<noteq> k}"
  by (induction d) (auto simp: rev_image_eqI)

lemma set_ddel: "set (ddel k d) = {p \<in> set d. fst p \<noteq> k}"
  by (auto simp: ddel_filter)

text \<open>
  Rewriting every value in place (\<open>for v in d.values(): mutate v\<close>) and dropping the
  entries that a test on key and value selects.
\<close>

definition dmap :: "('v \<Rightarrow> 'w) \<Rightarrow> ('k, 'v) dict \<Rightarrow> ('k, 'w) dict" where
  "dmap f d = map (\<lambda>(k, v). (k, f v)) d"

lemma dget_dmap [dict_simps]: "dget (dmap f d) k = map_option f (dget d k)"
  by (induction d) (auto simp: dmap_def)

lemma dkeys_dmap [dict_simps]: "dkeys (dmap f d) = dkeys d"
  by (simp add: dmap_def split_def)

lemma length_dmap [dict_simps]: "length (dmap f d) = length d"
  by (simp add: dmap_def)

lemma dvals_dmap [dict_simps]: "dvals (dmap f d) = map f (dvals d)"
  by (simp add: dmap_def dvals_def split_def)

lemma dvals_simps [simp]: "dvals [] = []" "dvals (p # d) = snd p # dvals d"
  by (simp_all add: dvals_def)

lemma length_dvals [simp]: "length (dvals d) = length d"
  by (simp add: dvals_def)

lemma dget_filter: "dict_ok d \<Longrightarrow>
  dget (filter P d) k = (case dget d k of None \<Rightarrow> None | Some v \<Rightarrow> if P (k, v) then Some v else None)"
  by (induction d) (auto simp: map_of_eq_None_iff rev_image_eqI split: option.splits)

lemma ddel_all_matching: "dict_ok d \<Longrightarrow>
  ddel_all (dkeys (filter P d)) d = filter (\<lambda>p. \<not> P p) d"
proof -
  assume ok: "dict_ok d"
  have "fst p \<in> set (dkeys (filter P d)) \<longleftrightarrow> P p" if "p \<in> set d" for p
    using that ok by (auto simp: distinct_map dest: inj_onD)
  then show ?thesis by (auto simp: ddel_all_filter intro!: filter_cong)
qed

text \<open>
  \<open>for x in xs: d[key(x)] = f(x)\<close> or \<open>del d[key(x)]\<close>, with pairwise different keys:
  what is found under a key afterwards.
\<close>

definition dupd :: "'k \<Rightarrow> 'v option \<Rightarrow> ('k, 'v) dict \<Rightarrow> ('k, 'v) dict" where
  "dupd k v d = (case v of None \<Rightarrow> ddel k d | Some w \<Rightarrow> dput k w d)"

lemma dget_dupd [dict_simps]: "dget (dupd k v d) k' = (if k' = k then v else dget d k')"
  by (simp add: dupd_def dict_simps split: option.split)

lemma dict_ok_dupd [dict_simps, intro]: "dict_ok d \<Longrightarrow> dict_ok (dupd k v d)"
  by (auto simp: dupd_def split: option.split)

lemma dget_fold_dupd_notin:
  "k \<notin> key ` set xs \<Longrightarrow> dget (fold (\<lambda>x. dupd (key x) (f x)) xs d) k = dget d k"
  by (induction xs arbitrary: d) (auto simp: dict_simps)

lemma dget_fold_dupd_in:
  "distinct (map key xs) \<Longrightarrow> x \<in> set xs \<Longrightarrow> dget (fold (\<lambda>x. dupd (key x) (f x)) xs d) (key x) = f x"
proof (induction xs arbitrary: d)
  case (Cons y xs)
  then show ?case by (cases "x = y") (auto simp: dget_fold_dupd_notin dict_simps)
qed simp

lemma dict_ok_fold_dupd: "dict_ok d \<Longrightarrow> dict_ok (fold (\<lambda>x. dupd (key x) (f x)) xs d)"
  by (induction xs arbitrary: d) (auto simp: dict_simps)

text \<open>A dict whose values carry their own key: \<open>own_keys\<close>.\<close>

definition own_keys :: "('v \<Rightarrow> 'k) \<Rightarrow> ('k, 'v) dict \<Rightarrow> bool" where
  "own_keys key d \<longleftrightarrow> dict_ok d \<and> (\<forall>(k, v) \<in> set d. key v = k)"

lemma own_keys_dict_ok: "own_keys key d \<Longrightarrow> dict_ok d"
  by (simp add: own_keys_def)

lemma own_keysD: "own_keys key d \<Longrightarrow> dget d k = Some v \<Longrightarrow> key v = k"
  by (auto simp: own_keys_def dest: dget_in)

lemma own_keys_vals: "own_keys key d \<Longrightarrow> map key (dvals d) = dkeys d"
  by (auto simp: own_keys_def dvals_def split_def)

lemma own_keys_distinct: "own_keys key d \<Longrightarrow> distinct (map key (dvals d))"
  by (metis own_keys_vals own_keys_dict_ok)

lemma own_keys_dget: "own_keys key d \<Longrightarrow> v \<in> set (dvals d) \<longleftrightarrow> dget d (key v) = Some v"
  by (force simp: own_keys_def dvals_def dget_iff)

lemma own_keys_dput [intro]: "own_keys key d \<Longrightarrow> key v = k \<Longrightarrow> own_keys key (dput k v d)"
  by (auto simp: own_keys_def set_dput dict_simps)

lemma own_keys_filter [intro]: "own_keys key d \<Longrightarrow> own_keys key (filter P d)"
  by (auto simp: own_keys_def dict_simps)

lemma own_keys_ddel [intro]: "own_keys key d \<Longrightarrow> own_keys key (ddel k d)"
  by (auto simp: own_keys_def set_ddel dict_simps)

lemma own_keys_dupd [intro]:
  "own_keys key d \<Longrightarrow> (\<And>w. v = Some w \<Longrightarrow> key w = k) \<Longrightarrow> own_keys key (dupd k v d)"
  by (cases v) (auto simp: dupd_def)

lemma own_keys_fold_dupd:
  "own_keys key d \<Longrightarrow> (\<And>x w. x \<in> set xs \<Longrightarrow> f x = Some w \<Longrightarrow> key w = pk x) \<Longrightarrow>
   own_keys key (fold (\<lambda>x. dupd (pk x) (f x)) xs d)"
  by (induction xs arbitrary: d) (simp_all add: own_keys_dupd)

lemma own_keys_Nil [simp]: "own_keys key []"
  by (simp add: own_keys_def)

lemma length_ddel: "dict_ok d \<Longrightarrow> dget d k \<noteq> None \<Longrightarrow> length d = Suc (length (ddel k d))"
proof (induction d)
  case (Cons p d)
  then show ?case by (cases "fst p = k") (auto simp: rev_image_eqI)
qed simp

lemma length_ddel_all:
  "dict_ok d \<Longrightarrow> distinct ks \<Longrightarrow> (\<forall>k \<in> set ks. dget d k \<noteq> None) \<Longrightarrow> length d = length (ddel_all ks d) + length ks"
proof (induction ks arbitrary: d)
  case (Cons k ks)
  have "length d = Suc (length (ddel k d))" using Cons.prems by (intro length_ddel) auto
  moreover have "length (ddel k d) = length (ddel_all ks (ddel k d)) + length ks"
    using Cons.prems by (intro Cons.IH) (auto simp: dict_simps)
  ultimately show ?case by (simp add: ddel_all_def)
qed (simp add: ddel_all_def)

lemma dict_ok_size: "dict_ok d \<Longrightarrow> length d = card (dom (dget d))"
  using distinct_card [of "dkeys d"] by (simp add: dom_map_of_conv_image_fst)

subsection \<open>Python strings\<close>

text \<open>
  Strings are lists of characters with the ASCII reading of \<open>lower\<close>, \<open>strip\<close> and
  the character classes; characters above 127 are left alone by all of them.
\<close>

definition is_space :: "char \<Rightarrow> bool" where
  "is_space c \<longleftrightarrow> (let n = (of_char c :: nat) in (9 \<le> n \<and> n \<le> 13) \<or> (28 \<le> n \<and> n \<le> 32))"

definition is_digit :: "char \<Rightarrow> bool" where
  "is_digit c \<longleftrightarrow> (let n = (of_char c :: nat) in 48 \<le> n \<and> n \<le> 57)"

definition is_upper :: "char \<Rightarrow> bool" where
  "is_upper c \<longleftrightarrow> (let n = (of_char c :: nat) in 65 \<le> n \<and> n \<le> 90)"

definition is_lower :: "char \<Rightarrow> bool" where
  "is_lower c \<longleftrightarrow> (let n = (of_char c :: nat) in 97 \<le> n \<and> n \<le> 122)"

definition is_alnum :: "char \<Rightarrow> bool" where
  "is_alnum c \<longleftrightarrow> is_digit c \<or> is_upper c \<or> is_lower c"

definition lower_char :: "char \<Rightarrow> char" where
  "lower_char c = (if is_upper c then char_of ((of_char c :: nat) + 32) else c)"

definition py_lower :: "string \<Rightarrow> string" where
  "py_lower s = map lower_char s"

definition py_strip :: "string \<Rightarrow> string" where
  "py_strip s = rev (dropWhile is_space (rev (dropWhile is_space s)))"

definition starts_with :: "string \<Rightarrow> string \<Rightarrow> bool" where
  "starts_with p s \<longleftrightarrow> take (length p) s = p"

fun has_sub :: "string \<Rightarrow> string \<Rightarrow> bool" where
  "has_sub p [] = (p = [])"
| "has_sub p (c # s) = (starts_with p (c # s) \<or> has_sub p s)"

lemma of_char_lower [simp]:
  "(of_char (lower_char c) :: nat) = (if is_upper c then of_char c + 32 else of_char c)"
  by (auto simp: lower_char_def is_upper_def Let_def of_char_of take_bit_eq_mod)

lemma lower_char_idem [simp]: "lower_char (lower_char c) = lower_char c"
  unfolding lower_char_def [of "lower_char c"]
  by (simp add: is_upper_def Let_def) (simp add: is_upper_def Let_def lower_char_def)

lemma is_space_lower [simp]: "is_space (lower_char c) = is_space c"
  by (auto simp: is_space_def is_upper_def Let_def)

lemma py_lower_idem [simp]: "py_lower (py_lower s) = py_lower s"
  by (simp add: py_lower_def)

lemma py_lower_eq_Nil [simp]: "py_lower s = [] \<longleftrightarrow> s = []"
  by (simp add: py_lower_def)

lemma dropWhile_space_lower: "dropWhile is_space (map lower_char s) = map lower_char (dropWhile is_space s)"
  by (induction s) auto

lemma py_strip_lower: "py_strip (py_lower s) = py_lower (py_strip s)"
  unfolding py_strip_def py_lower_def
  by (metis dropWhile_space_lower rev_map)

lemma py_strip_idem [simp]: "py_strip (py_strip s) = py_strip s"
proof -
  define u where "u = dropWhile is_space s"
  define t where "t = rev (dropWhile is_space (rev u))"
  have u: "u = [] \<or> \<not> is_space (hd u)"
    unfolding u_def using hd_dropWhile by blast
  have split: "rev u = takeWhile is_space (rev u) @ dropWhile is_space (rev u)" by simp
  have ut: "u = t @ rev (takeWhile is_space (rev u))"
    unfolding t_def by (metis rev_append rev_rev_ident split)
  have "t = [] \<or> \<not> is_space (hd t)" using u ut by (metis append_is_Nil_conv hd_append2)
  then have "dropWhile is_space t = t" by (simp add: dropWhile_eq_self_iff)
  moreover have "dropWhile is_space (rev t) = rev t" by (simp add: t_def dropWhile_idem)
  ultimately show ?thesis by (simp add: py_strip_def t_def u_def)
qed

subsection \<open>Numbers and text\<close>

text \<open>
  Decimal rendering, and \<open>int(str)\<close>: surrounding blanks, one sign, digits that single
  underscores may separate; \<open>None\<close> is \<open>ValueError\<close>.
\<close>

fun nat_str :: "nat \<Rightarrow> string" where
  "nat_str n = (if n < 10 then [char_of (48 + n)] else nat_str (n div 10) @ [char_of (48 + n mod 10)])"

declare nat_str.simps [simp del]

definition int_str :: "int \<Rightarrow> string" where
  "int_str i = (if i < 0 then CHR ''-'' # nat_str (nat (- i)) else nat_str (nat i))"

fun digits_val :: "nat \<Rightarrow> string \<Rightarrow> nat option" where
  "digits_val acc [] = None"
| "digits_val acc [c] = (if is_digit c then Some (acc * 10 + (of_char c - 48)) else None)"
| "digits_val acc (c # d # s) =
     (if \<not> is_digit c then None
      else if d = CHR ''_'' then digits_val (acc * 10 + (of_char c - 48)) s
      else digits_val (acc * 10 + (of_char c - 48)) (d # s))"

definition py_int :: "string \<Rightarrow> int option" where
  "py_int s = (case py_strip s of
       [] \<Rightarrow> None
     | c # t \<Rightarrow> if c = CHR ''-'' then map_option (\<lambda>n. - int n) (digits_val 0 t)
                else if c = CHR ''+'' then map_option int (digits_val 0 t)
                else map_option int (digits_val 0 (c # t)))"

subsection \<open>Slices, clamps, sorting\<close>

text \<open>\<open>xs[:n]\<close> for a possibly negative \<open>n\<close>.\<close>

definition py_take :: "int \<Rightarrow> 'a list \<Rightarrow> 'a list" where
  "py_take n xs = (if 0 \<le> n then take (nat n) xs else take (length xs - nat (- n)) xs)"

text \<open>\<open>xs[-n:]\<close> for \<open>n > 0\<close>: the last \<open>n\<close> elements.\<close>

definition take_last :: "nat \<Rightarrow> 'a list \<Rightarrow> 'a list" where
  "take_last n xs = drop (length xs - n) xs"

lemma length_take_last [simp]: "length (take_last n xs) = min n (length xs)"
  by (simp add: take_last_def)

lemma take_last_all: "length xs \<le> n \<Longrightarrow> take_last n xs = xs"
  by (simp add: take_last_def)

lemma set_take_last: "set (take_last n xs) \<subseteq> set xs"
  by (simp add: take_last_def set_drop_subset)

lemma take_last_snoc: "0 < n \<Longrightarrow> take_last n (xs @ [x]) = take_last (n - 1) xs @ [x]"
  by (cases n) (auto simp: take_last_def)

lemma take_last_take_last: "take_last n (take_last m xs) = take_last (min n m) xs"
proof -
  have "length (take_last m xs) - n + (length xs - m) = length xs - min n m" by simp
  then show ?thesis by (simp add: take_last_def)
qed

definition clamp :: "'a::linorder \<Rightarrow> 'a \<Rightarrow> 'a \<Rightarrow> 'a" where
  "clamp lo hi x = max lo (min x hi)"

lemma clamp_bounds: "lo \<le> hi \<Longrightarrow> lo \<le> clamp lo hi x \<and> clamp lo hi x \<le> hi"
  by (auto simp: clamp_def)

lemma clamp_id: "lo \<le> x \<Longrightarrow> x \<le> hi \<Longrightarrow> clamp lo hi x = x"
  by (auto simp: clamp_def)

text \<open>\<open>sorted(xs, key=f)\<close> is stable, as \<open>sort_key\<close> is.\<close>

lemma set_sort_key [simp]: "set (sort_key f xs) = set xs"
  by (rule set_sort)

lemma sort_key_sorted: "sorted (map f (sort_key f xs))"
  by simp

lemma dget_sort_key: "dict_ok d \<Longrightarrow> dget (sort_key f d) k = dget d k"
proof -
  assume ok: "dict_ok d"
  then have "dict_ok (sort_key f d)" by (metis distinct_map distinct_sort inj_on_subset set_sort_key subset_refl)
  then show ?thesis using ok by (metis dget_iff not_None_eq set_sort_key)
qed

subsection \<open>Splitting and joining text\<close>

text \<open>\<open>s.split(c)\<close>, \<open>c.join(xs)\<close>, \<open>c in s\<close>, \<open>s.endswith(q)\<close>.\<close>

fun split_on :: "char \<Rightarrow> string \<Rightarrow> string list" where
  "split_on c [] = [[]]"
| "split_on c (x # xs) = (if x = c then [] # split_on c xs
     else (case split_on c xs of [] \<Rightarrow> [[x]] | y # ys \<Rightarrow> (x # y) # ys))"

fun join_with :: "char \<Rightarrow> string list \<Rightarrow> string" where
  "join_with c [] = []"
| "join_with c [x] = x"
| "join_with c (x # y # ys) = x @ c # join_with c (y # ys)"

definition has_char :: "char \<Rightarrow> string \<Rightarrow> bool" where
  "has_char c s \<longleftrightarrow> c \<in> set s"

definition ends_with :: "string \<Rightarrow> string \<Rightarrow> bool" where
  "ends_with q s \<longleftrightarrow> starts_with (rev q) (rev s)"

lemma split_on_pieces: "x \<in> set (split_on c s) \<Longrightarrow> c \<notin> set x \<and> set x \<subseteq> set s"
proof (induction s arbitrary: x)
  case (Cons a s)
  then show ?case by (cases "split_on c s") (fastforce split: if_splits)+
qed simp

lemma split_join: "p \<noteq> [] \<Longrightarrow> \<forall>x \<in> set p. c \<notin> set x \<Longrightarrow> split_on c (join_with c p) = p"
proof (induction c p rule: join_with.induct)
  case (2 c x)
  have "split_on c x = [x]" if "c \<notin> set x" for x using that by (induction x) auto
  then show ?case using 2 by simp
next
  case (3 c x y ys)
  have "split_on c (x @ c # s) = x # split_on c s" if "c \<notin> set x" for x s using that by (induction x) auto
  then show ?case using 3 by simp
qed simp

lemma split_on_not_Nil [simp]: "split_on c s \<noteq> []"
  by (induction s) (auto split: list.split)

lemma split_on_append: "split_on c (a @ c # b) = split_on c a @ split_on c b"
proof (induction a)
  case (Cons x a)
  then show ?case using split_on_not_Nil [of c a] by (cases "split_on c a") auto
qed simp

lemma split_on_single [simp]: "c \<notin> set x \<Longrightarrow> split_on c x = [x]"
  by (induction x) auto

text \<open>What begins and ends with no blank is left alone by \<open>strip\<close>.\<close>

lemma py_strip_id: "s \<noteq> [] \<Longrightarrow> \<not> is_space (hd s) \<Longrightarrow> \<not> is_space (last s) \<Longrightarrow> py_strip s = s"
proof -
  assume s: "s \<noteq> []" "\<not> is_space (hd s)" "\<not> is_space (last s)"
  then have "dropWhile is_space s = s" and "dropWhile is_space (rev s) = rev s"
    by (auto simp: dropWhile_eq_self_iff hd_rev)
  then show ?thesis by (simp add: py_strip_def)
qed

lemma append_at_first:
  "c \<notin> set a \<Longrightarrow> c \<notin> set b \<Longrightarrow> a @ c # x = b @ c # y \<longleftrightarrow> a = b \<and> x = y"
proof (induction a arbitrary: b)
  case Nil
  then show ?case by (cases b) auto
next
  case (Cons d a)
  then show ?case by (cases b) auto
qed

end
