(* ===== verification/Targets.thy ===== *)
theory Targets
  imports Prelude
begin

text \<open>
  \<open>services/chatops/targets.py\<close> (with the types of \<open>transport_contract.py\<close>): the
  identifiers a chat message may be delivered to. The compiled patterns are anchored by
  \<open>^\<close> and \<open>$\<close> and applied with \<open>match\<close>, and \<open>$\<close> also matches before a
  newline that ends the text: \<open>match_end\<close>.
\<close>

datatype transport_type = WEBHOOK | DISCORD | SLACK | TELEGRAM | CUSTOM

definition transport_value :: "transport_type \<Rightarrow> string" where
  "transport_value t = (case t of WEBHOOK \<Rightarrow> ''webhook'' | DISCORD \<Rightarrow> ''discord'' | SLACK \<Rightarrow> ''slack''
     | TELEGRAM \<Rightarrow> ''telegram'' | CUSTOM \<Rightarrow> ''custom'')"

text \<open>\<open>TransportType(s)\<close>; \<open>None\<close> is \<open>ValueError\<close>\<close>

definition transport_of :: "string \<Rightarrow> transport_type option" where
  "transport_of s = (if s = ''webhook'' then Some WEBHOOK else if s = ''discord'' then Some DISCORD
     else if s = ''slack'' then Some SLACK else if s = ''telegram'' then Some TELEGRAM
     else if s = ''custom'' then Some CUSTOM else None)"

record delivery_target =
  dt_transport :: transport_type
  dt_target_id :: string
  dt_thread_id :: "string option"
  dt_mode :: string

datatype target_error = Empty_target | Invalid_target | Empty_thread | Invalid_thread
  | Invalid_mode string | Empty_target_string | Invalid_target_format | Unknown_transport string

definition match_end :: "(string \<Rightarrow> bool) \<Rightarrow> string \<Rightarrow> bool" where
  "match_end P s \<longleftrightarrow> P s \<or> (s \<noteq> [] \<and> last s = CHR 0x0A \<and> P (butlast s))"

text \<open>A character class repeated between two bounds.\<close>

definition rep_class :: "(char \<Rightarrow> bool) \<Rightarrow> nat \<Rightarrow> nat \<Rightarrow> string \<Rightarrow> bool" where
  "rep_class C lo hi s \<longleftrightarrow> list_all C s \<and> lo \<le> length s \<and> length s \<le> hi"

definition alnum_or :: "char list \<Rightarrow> char \<Rightarrow> bool" where
  "alnum_or cs c \<longleftrightarrow> is_alnum c \<or> c \<in> set cs"

definition telegram_target :: "string \<Rightarrow> bool" where
  "telegram_target s = (case s of [] \<Rightarrow> False
     | c # t \<Rightarrow> if c = CHR ''-'' then rep_class is_digit 1 15 t else rep_class is_digit 1 15 s)"

definition url_target :: "string \<Rightarrow> bool" where
  "url_target s \<longleftrightarrow>
     (\<exists>p \<in> set [''http://'', ''https://'']. starts_with p s \<and> drop (length p) s \<noteq> []
        \<and> list_all (alnum_or ''_./-'') (drop (length p) s))"

definition slack_thread :: "string \<Rightarrow> bool" where
  "slack_thread s \<longleftrightarrow>
     (let a = takeWhile is_digit s; b = dropWhile is_digit s in
      10 \<le> length a \<and> length a \<le> 13 \<and> b \<noteq> [] \<and> hd b = CHR ''.'' \<and> rep_class is_digit 6 6 (tl b))"

definition target_pattern :: "transport_type \<Rightarrow> string \<Rightarrow> bool" where
  "target_pattern t = (case t of
       DISCORD \<Rightarrow> rep_class is_digit 17 20
     | SLACK \<Rightarrow> rep_class (\<lambda>c. is_upper c \<or> is_digit c) 9 12
     | TELEGRAM \<Rightarrow> telegram_target
     | WEBHOOK \<Rightarrow> (\<lambda>s. url_target s \<or> rep_class (alnum_or ''_-'') 1 64 s)
     | CUSTOM \<Rightarrow> rep_class (alnum_or ''_.-'') 1 128)"

definition thread_pattern :: "transport_type \<Rightarrow> string \<Rightarrow> bool" where
  "thread_pattern t = (case t of
       DISCORD \<Rightarrow> rep_class is_digit 17 20
     | SLACK \<Rightarrow> slack_thread
     | TELEGRAM \<Rightarrow> rep_class is_digit 1 10
     | WEBHOOK \<Rightarrow> rep_class (alnum_or ''_-'') 1 64
     | CUSTOM \<Rightarrow> rep_class (alnum_or ''_.-'') 1 128)"

definition VALID_MODES :: "string list" where
  "VALID_MODES = [''reply'', ''new_thread'', ''dm'', ''broadcast'']"

definition validate_target_id :: "transport_type \<Rightarrow> string \<Rightarrow> target_error + bool" where
  "validate_target_id transport target_id =
     (if target_id = [] then Inl Empty_target
      else if \<not> match_end (target_pattern transport) target_id then Inl Invalid_target
      else Inr True)"

definition validate_thread_id :: "transport_type \<Rightarrow> string \<Rightarrow> target_error + bool" where
  "validate_thread_id transport thread_id =
     (if thread_id = [] then Inl Empty_thread
      else if \<not> match_end (thread_pattern transport) thread_id then Inl Invalid_thread
      else Inr True)"

definition parse_target :: "transport_type \<Rightarrow> string \<Rightarrow> string option \<Rightarrow> string \<Rightarrow> target_error + delivery_target" where
  "parse_target transport target_id thread_id mode =
    (case validate_target_id transport target_id of
       Inl e \<Rightarrow> Inl e
     | Inr _ \<Rightarrow>
         (case (case thread_id of Some (c # cs) \<Rightarrow> validate_thread_id transport (c # cs) | _ \<Rightarrow> Inr True) of
            Inl e \<Rightarrow> Inl e
          | Inr _ \<Rightarrow>
              if mode \<notin> set VALID_MODES then Inl (Invalid_mode mode)
              else Inr \<lparr>dt_transport = transport, dt_target_id = target_id,
                        dt_thread_id = thread_id, dt_mode = mode\<rparr>))"

text \<open>\<open>s.split(c, 1)\<close> and \<open>s.rsplit(c, 1)\<close> where \<open>c\<close> occurs in \<open>s\<close>\<close>

definition split1 :: "char \<Rightarrow> string \<Rightarrow> string \<times> string" where
  "split1 c s = (takeWhile (\<lambda>x. x \<noteq> c) s, tl (dropWhile (\<lambda>x. x \<noteq> c) s))"

definition rsplit1 :: "char \<Rightarrow> string \<Rightarrow> string \<times> string" where
  "rsplit1 c s = (let (b, a) = split1 c (rev s) in (rev a, rev b))"

definition parse_target_string :: "string \<Rightarrow> target_error + delivery_target" where
  "parse_target_string target_str =
    (if target_str = [] then Inl Empty_target_string
     else
       let (target_str, mode) = (if CHR ''@'' \<in> set target_str then rsplit1 CHR ''@'' target_str
                                 else (target_str, ''reply'')) in
       if CHR '':'' \<notin> set target_str then Inl Invalid_target_format
       else
         let (transport_str, rest) = split1 CHR '':'' target_str in
         (case transport_of transport_str of
            None \<Rightarrow> Inl (Unknown_transport transport_str)
          | Some transport \<Rightarrow>
              if transport = WEBHOOK \<and> has_sub ''://'' rest then parse_target transport rest None mode
              else if CHR '':'' \<in> set rest then
                (let (target_id, thread_id) = split1 CHR '':'' rest
                 in parse_target transport target_id (Some thread_id) mode)
              else parse_target transport rest None mode))"

subsection \<open>Facts\<close>

lemma transport_of_value [simp]: "transport_of (transport_value t) = Some t"
  by (cases t) (simp_all add: transport_of_def transport_value_def)

lemma split1_mid: "c \<notin> set a \<Longrightarrow> split1 c (a @ c # b) = (a, b)"
  unfolding split1_def by (subst takeWhile_append2, blast, subst dropWhile_append2) auto

lemma rsplit1_mid: "c \<notin> set b \<Longrightarrow> rsplit1 c (a @ c # b) = (a, b)"
  unfolding rsplit1_def using split1_mid [of c "rev b" "rev a"] by simp

lemma rep_class_set: "rep_class C lo hi s \<Longrightarrow> \<forall>c \<in> set s. C c"
  by (simp add: rep_class_def list_all_iff)

text \<open>
  The characters a pattern admits, for every transport: no pattern admits \<open>@\<close>, and only
  URLs contain a colon.
\<close>

lemma alnum_not_sep: "is_alnum c \<Longrightarrow> c \<noteq> CHR ''@'' \<and> c \<noteq> CHR '':'' \<and> c \<noteq> CHR 0x0A"
  by (auto simp: is_alnum_def is_digit_def is_upper_def is_lower_def Let_def)


definition plain_chars :: "string \<Rightarrow> bool" where
  "plain_chars s \<longleftrightarrow> (\<forall>c \<in> set s. c \<noteq> CHR ''@'' \<and> c \<noteq> CHR '':'' \<and> c \<noteq> CHR ''/'')"

lemma alnum_plain: "is_alnum c \<Longrightarrow> c \<noteq> CHR ''/''" "is_digit c \<Longrightarrow> is_alnum c" "is_upper c \<Longrightarrow> is_alnum c"
  by (auto simp: is_alnum_def is_digit_def is_upper_def is_lower_def Let_def)

lemma plain_alnum_or:
  "rep_class (alnum_or cs) lo hi s \<Longrightarrow> CHR ''@'' \<notin> set cs \<Longrightarrow> CHR '':'' \<notin> set cs \<Longrightarrow> CHR ''/'' \<notin> set cs \<Longrightarrow> plain_chars s"
  by (fastforce simp: plain_chars_def alnum_or_def dest: rep_class_set alnum_not_sep alnum_plain(1))

lemma plain_rep:
  assumes "rep_class C lo hi s" and "\<And>c. C c \<Longrightarrow> is_alnum c"
  shows "plain_chars s"
  using rep_class_set [OF assms(1)] assms(2) alnum_not_sep alnum_plain(1) unfolding plain_chars_def by blast

lemma plain_append [simp]: "plain_chars (a @ b) \<longleftrightarrow> plain_chars a \<and> plain_chars b"
  by (auto simp: plain_chars_def)

lemma plain_Cons [simp]:
  "plain_chars (c # s) \<longleftrightarrow> c \<noteq> CHR ''@'' \<and> c \<noteq> CHR '':'' \<and> c \<noteq> CHR ''/'' \<and> plain_chars s"
  by (auto simp: plain_chars_def)

lemma slack_thread_plain: "slack_thread s \<Longrightarrow> plain_chars s \<and> s \<noteq> []"
proof -
  assume st: "slack_thread s"
  obtain c b where b: "dropWhile is_digit s = c # b" using st by (cases "dropWhile is_digit s") (auto simp: slack_thread_def)
  have cb: "c = CHR ''.''" "rep_class is_digit 6 6 b" using st b by (auto simp: slack_thread_def Let_def)
  have s: "s = takeWhile is_digit s @ CHR ''.'' # b" using b cb(1) by (metis takeWhile_dropWhile_id)
  have "plain_chars b" using cb(2) by (rule plain_rep) (rule alnum_plain(2))
  moreover have "plain_chars (takeWhile is_digit s)"
    by (rule plain_rep [of is_digit 0 "length s"])
      (auto simp: rep_class_def list_all_iff length_takeWhile_le alnum_plain dest: set_takeWhileD)
  ultimately show ?thesis by (subst s, subst (2) s) simp
qed

lemma thread_plain: "thread_pattern t s \<Longrightarrow> plain_chars s \<and> s \<noteq> []"
proof (cases t)
  case SLACK
  assume "thread_pattern t s"
  then show ?thesis by (simp add: SLACK thread_pattern_def slack_thread_plain)
next
  case WEBHOOK
  assume "thread_pattern t s"
  then show ?thesis using plain_alnum_or [of "''_-''" 1 64 s] by (auto simp: WEBHOOK thread_pattern_def rep_class_def)
next
  case CUSTOM
  assume "thread_pattern t s"
  then show ?thesis using plain_alnum_or [of "''_.-''" 1 128 s] by (auto simp: CUSTOM thread_pattern_def rep_class_def)
next
  case DISCORD
  assume "thread_pattern t s"
  then show ?thesis using plain_rep [of is_digit 17 20 s] alnum_plain(2) by (auto simp: DISCORD thread_pattern_def rep_class_def)
next
  case TELEGRAM
  assume "thread_pattern t s"
  then show ?thesis using plain_rep [of is_digit 1 10 s] alnum_plain(2) by (auto simp: TELEGRAM thread_pattern_def rep_class_def)
qed

lemma target_plain: "target_pattern t s \<Longrightarrow> (t = WEBHOOK \<and> url_target s) \<or> plain_chars s"
proof (cases t)
  case WEBHOOK
  assume "target_pattern t s"
  then show ?thesis using plain_alnum_or [of "''_-''" 1 64 s] by (auto simp: WEBHOOK target_pattern_def)
next
  case CUSTOM
  assume "target_pattern t s"
  then show ?thesis using plain_alnum_or [of "''_.-''" 1 128 s] by (auto simp: CUSTOM target_pattern_def)
next
  case SLACK
  assume "target_pattern t s"
  then show ?thesis using plain_rep [of "\<lambda>c. is_upper c \<or> is_digit c" 9 12 s] alnum_plain
    by (auto simp: SLACK target_pattern_def)
next
  case DISCORD
  assume "target_pattern t s"
  then show ?thesis using plain_rep [of is_digit 17 20 s] alnum_plain by (auto simp: DISCORD target_pattern_def)
next
  case TELEGRAM
  assume "target_pattern t s"
  then have "telegram_target s" by (simp add: TELEGRAM target_pattern_def)
  then show ?thesis using plain_rep [of is_digit 1 15] alnum_plain(2)
    by (cases s) (auto simp: telegram_target_def plain_chars_def split: if_splits)
qed

lemma starts_with_append [simp]: "starts_with p (p @ r)"
  by (simp add: starts_with_def)

lemma has_sub_set: "has_sub p s \<Longrightarrow> set p \<subseteq> set s"
proof (induction s)
  case (Cons c s)
  have "set p \<subseteq> set (c # s)" if "starts_with p (c # s)"
    using that set_take_subset [of "length p" "c # s"] by (simp only: starts_with_def)
  with Cons show ?case by auto
qed simp

lemma url_rest_no_at: "list_all (alnum_or ''_./-'') r \<Longrightarrow> CHR ''@'' \<notin> set r"
  using alnum_not_sep by (auto simp: list_all_iff alnum_or_def)

lemma url_target_sep: "url_target s \<Longrightarrow> has_sub ''://'' s \<and> CHR ''@'' \<notin> set s"
proof -
  assume "url_target s"
  then obtain p where p: "p \<in> set [''http://'', ''https://'']" "starts_with p s"
    "list_all (alnum_or ''_./-'') (drop (length p) s)"
    unfolding url_target_def by blast
  define r where "r = drop (length p) s"
  have s: "s = p @ r" using p(2) by (metis append_take_drop_id r_def starts_with_def)
  have noat: "CHR ''@'' \<notin> set r" using p(3) by (simp add: r_def url_rest_no_at)
  consider "p = ''http://''" | "p = ''https://''" using p(1) by auto
  then show ?thesis by cases (simp_all add: s noat starts_with_def)
qed

text \<open>The text form the parser reads.\<close>

definition render_target :: "delivery_target \<Rightarrow> string" where
  "render_target d = transport_value (dt_transport d) @ '':'' @ dt_target_id d
     @ (case dt_thread_id d of None \<Rightarrow> [] | Some th \<Rightarrow> '':'' @ th) @ ''@'' @ dt_mode d"

text \<open>
  Every valid delivery target has a text form that parses to itself; a thread goes with
  every target but a URL.
\<close>

theorem target_round_trip:
  assumes "target_pattern (dt_transport d) (dt_target_id d)" and "dt_target_id d \<noteq> []"
    and "dt_mode d \<in> set VALID_MODES"
    and "\<forall>th. dt_thread_id d = Some th \<longrightarrow> thread_pattern (dt_transport d) th \<and> plain_chars (dt_target_id d)"
  shows "parse_target_string (render_target d) = Inr d"
proof -
  obtain t tid th m where d: "d = \<lparr>dt_transport = t, dt_target_id = tid, dt_thread_id = th, dt_mode = m\<rparr>" by (cases d)
  define rest where "rest = tid @ (case th of None \<Rightarrow> [] | Some x \<Rightarrow> '':'' @ x)"
  have shape: "render_target d = (transport_value t @ CHR '':'' # rest) @ CHR ''@'' # m"
    by (simp add: render_target_def d rest_def)
  have m: "m \<in> set VALID_MODES" "CHR ''@'' \<notin> set m" using assms(3) by (auto simp: d VALID_MODES_def)
  have tv: "CHR '':'' \<notin> set (transport_value t)" by (cases t) (simp_all add: transport_value_def)
  have tid: "target_pattern t tid" "tid \<noteq> []" using assms(1,2) by (simp_all add: d)
  have th: "thread_pattern t x \<and> plain_chars x \<and> x \<noteq> [] \<and> plain_chars tid" if "th = Some x" for x
    using assms(4) that thread_plain by (auto simp: d)
  have valid: "parse_target t tid th m = Inr d"
    using tid m(1) th by (cases th) (auto simp: parse_target_def validate_target_id_def validate_thread_id_def match_end_def d
        split: list.split)
  have parse: "parse_target_string (render_target d) =
    (if t = WEBHOOK \<and> has_sub ''://'' rest then parse_target t rest None m
     else if CHR '':'' \<in> set rest then (let (a, b) = split1 CHR '':'' rest in parse_target t a (Some b) m)
     else parse_target t rest None m)"
  proof -
    define h where "h = transport_value t @ CHR '':'' # rest"
    have "rsplit1 CHR ''@'' (h @ CHR ''@'' # m) = (h, m)" "split1 CHR '':'' h = (transport_value t, rest)" "CHR '':'' \<in> set h"
      unfolding h_def by (rule rsplit1_mid [OF m(2)], rule split1_mid [OF tv], simp)
    then show ?thesis unfolding parse_target_string_def shape h_def [symmetric] by simp
  qed
  show ?thesis
  proof (cases "t = WEBHOOK \<and> url_target tid")
    case True
    have "has_sub ''://'' tid" using True url_target_sep by blast
    then have "CHR '':'' \<in> set tid" using has_sub_set [of "''://''" tid] by auto
    then have "th = None" using th by (cases th) (auto simp: plain_chars_def)
    then show ?thesis using parse valid True url_target_sep by (simp add: rest_def)
  next
    case False
    then have p: "plain_chars tid" using target_plain [OF tid(1)] by blast
    have "CHR ''/'' \<notin> set rest" using p th by (cases th) (auto simp: rest_def plain_chars_def)
    then have "\<not> has_sub ''://'' rest" using has_sub_set [of "''://''" rest] by auto
    moreover have "CHR '':'' \<notin> set tid" using p by (auto simp: plain_chars_def)
    ultimately show ?thesis using parse valid split1_mid [of "CHR '':''" tid]
      by (cases th) (simp_all add: rest_def)
  qed
qed

theorem target_round_trip_witness:
  "parse_target_string (render_target \<lparr>dt_transport = SLACK, dt_target_id = ''C01234567'',
     dt_thread_id = Some ''1700000000.123456'', dt_mode = ''reply''\<rparr>) =
   Inr \<lparr>dt_transport = SLACK, dt_target_id = ''C01234567'', dt_thread_id = Some ''1700000000.123456'', dt_mode = ''reply''\<rparr>"
  by (rule target_round_trip)
    (simp_all add: target_pattern_def rep_class_def is_upper_def is_digit_def VALID_MODES_def thread_pattern_def
      slack_thread_def plain_chars_def Let_def)

text \<open>A newline at the end of an identifier passes validation.\<close>

lemma newline_accepted: "validate_target_id DISCORD (''12345678901234567'' @ [CHR 0x0A]) = Inr True"
  by code_simp

end
