(* ===== verification/Env_Aliases.thy ===== *)
theory Env_Aliases
  imports Prelude
begin

text \<open>
  \<open>services/env_aliases.py\<close>: the environment-alias registry and the lookup of a
  canonical key through its ordered legacy aliases. The process environment is a partial
  map; the process-wide set of already reported legacy keys is passed and returned.
\<close>

type_synonym env = "string \<rightharpoonup> string"

datatype env_lookup_mode = PRESENCE | NONEMPTY | TRUTHY_ANY

record env_alias_spec =
  eas_canonical :: string
  eas_aliases :: "string list"
  eas_sensitive :: bool

record env_resolution =
  er_value :: "string option"
  er_selected_key :: "string option"
  er_used_legacy :: bool

definition LEGACY_MOLTBOT_ENV_KEYS :: "string list" where
  "LEGACY_MOLTBOT_ENV_KEYS =
    [''MOLTBOT_1PASSWORD_ALLOWED_COMMANDS'',
     ''MOLTBOT_1PASSWORD_CMD'',
     ''MOLTBOT_1PASSWORD_ENABLED'',
     ''MOLTBOT_1PASSWORD_FIELD'',
     ''MOLTBOT_1PASSWORD_ITEM_TEMPLATE'',
     ''MOLTBOT_1PASSWORD_TIMEOUT_SEC'',
     ''MOLTBOT_1PASSWORD_VAULT'',
     ''MOLTBOT_ADMIN_TOKEN'',
     ''MOLTBOT_ALLOW_ANY_PUBLIC_LLM_HOST'',
     ''MOLTBOT_ALLOW_CUSTOM_BASE_URL'',
     ''MOLTBOT_ALLOW_INSECURE_BASE_URL'',
     ''MOLTBOT_ALLOW_REMOTE_ADMIN'',
     ''MOLTBOT_ANTHROPIC_API_KEY'',
     ''MOLTBOT_APPROVAL_TTL_SEC'',
     ''MOLTBOT_AUDIT_CHAIN_KEY'',
     ''MOLTBOT_AUDIT_CHAIN_KEY_PATH'',
     ''MOLTBOT_AUDIT_LOG_PATH'',
     ''MOLTBOT_AUDIT_MAX_BACKUPS'',
     ''MOLTBOT_AUDIT_MAX_BYTES'',
     ''MOLTBOT_BRIDGE_ALLOWED_DEVICE_IDS'',
     ''MOLTBOT_BRIDGE_CALLBACK_HOST_ALLOWLIST'',
     ''MOLTBOT_BRIDGE_DEVICE_TOKEN'',
     ''MOLTBOT_BRIDGE_ENABLED'',
     ''MOLTBOT_CALLBACK_ALLOWLIST'',
     ''MOLTBOT_CALLBACK_ALLOW_HOSTS'',
     ''MOLTBOT_CALLBACK_MAX_RETRIES'',
     ''MOLTBOT_CALLBACK_TIMEOUT_SEC'',
     ''MOLTBOT_COMFYUI_URL'',
     ''MOLTBOT_CUSTOM_API_KEY'',
     ''MOLTBOT_DEBUG_REASONING_REVEAL'',
     ''MOLTBOT_DEEPSEEK_API_KEY'',
     ''MOLTBOT_DEV_MODE'',
     ''MOLTBOT_DIAGNOSTICS'',
     ''MOLTBOT_FALLBACK_MODELS'',
     ''MOLTBOT_FALLBACK_PROVIDERS'',
     ''MOLTBOT_GEMINI_API_KEY'',
     ''MOLTBOT_GROQ_API_KEY'',
     ''MOLTBOT_IO_EXECUTOR_WORKERS'',
     ''MOLTBOT_LLM_ALLOWED_HOSTS'',
     ''MOLTBOT_LLM_ALLOW_PRIVATE_NETWORK'',
     ''MOLTBOT_LLM_API_KEY'',
     ''MOLTBOT_LLM_BASE_URL'',
     ''MOLTBOT_LLM_EXECUTOR_WORKERS'',
     ''MOLTBOT_LLM_MAX_RETRIES'',
     ''MOLTBOT_LLM_MODEL'',
     ''MOLTBOT_LLM_PROVIDER'',
     ''MOLTBOT_LLM_TIMEOUT'',
     ''MOLTBOT_LOG_FORMAT'',
     ''MOLTBOT_LOG_TRUNCATE_ON_START'',
     ''MOLTBOT_MAX_FAILOVER_CANDIDATES'',
     ''MOLTBOT_MODEL_DOWNLOAD_ALLOW_ANY_PUBLIC'',
     ''MOLTBOT_MODEL_DOWNLOAD_ALLOW_HOSTS'',
     ''MOLTBOT_MODEL_DOWNLOAD_ALLOW_LOOPBACK_HOSTS'',
     ''MOLTBOT_MODEL_DOWNLOAD_MAX_ACTIVE'',
     ''MOLTBOT_MODEL_DOWNLOAD_MAX_CONCURRENCY'',
     ''MOLTBOT_MODEL_DOWNLOAD_RECOVERY_REPLAY_LIMIT'',
     ''MOLTBOT_MODEL_DOWNLOAD_TIMEOUT_SEC'',
     ''MOLTBOT_MODEL_INSTALL_ROOT'',
     ''MOLTBOT_MULTI_TENANT_ALLOW_CONFIG_FALLBACK'',
     ''MOLTBOT_MULTI_TENANT_ALLOW_DEFAULT_FALLBACK'',
     ''MOLTBOT_MULTI_TENANT_ALLOW_LEGACY_SECRET_FALLBACK'',
     ''MOLTBOT_MULTI_TENANT_ENABLED'',
     ''MOLTBOT_OBSERVABILITY_TOKEN'',
     ''MOLTBOT_OPENAI_API_KEY'',
     ''MOLTBOT_OPENROUTER_API_KEY'',
     ''MOLTBOT_PRESETS_PUBLIC_READ'',
     ''MOLTBOT_PUBLIC_SHARED_SURFACE_BOUNDARY_ACK'',
     ''MOLTBOT_REDACTION_TAG_KEY'',
     ''MOLTBOT_REQUIRE_APPROVAL_FOR_TRIGGERS'',
     ''MOLTBOT_SECURITY_DANGEROUS_BIND_OVERRIDE'',
     ''MOLTBOT_STARTUP_WARMUP_TIMEOUT_SEC'',
     ''MOLTBOT_STATE_DIR'',
     ''MOLTBOT_STRICT_LOCALHOST_AUTH'',
     ''MOLTBOT_STRUCTURED_LOGS'',
     ''MOLTBOT_TELEMETRY_OPT_OUT'',
     ''MOLTBOT_TENANT_HEADER'',
     ''MOLTBOT_THREAD_POOL_WORKERS'',
     ''MOLTBOT_TOOL_SANDBOX_DIR'',
     ''MOLTBOT_TRUSTED_PROXIES'',
     ''MOLTBOT_TRUST_X_FORWARDED_FOR'',
     ''MOLTBOT_WEBHOOK_AUTH_MODE'',
     ''MOLTBOT_WEBHOOK_BEARER_TOKEN'',
     ''MOLTBOT_WEBHOOK_HMAC_SECRET'',
     ''MOLTBOT_WEBHOOK_REQUIRE_REPLAY_PROTECTION'',
     ''MOLTBOT_WEBHOOK_SECRET'',
     ''MOLTBOT_XAI_API_KEY'']"

definition SUPPORTED_CLAWDBOT_ENV_KEYS :: "string list" where
  "SUPPORTED_CLAWDBOT_ENV_KEYS = [''CLAWDBOT_LLM_API_KEY'']"

definition SUPPORTED_DYNAMIC_MOLTBOT_ENV_KEYS :: "string list" where
  "SUPPORTED_DYNAMIC_MOLTBOT_ENV_KEYS =
    [''MOLTBOT_RATE_LIMIT_ADMIN_DAILY_CAP'',
     ''MOLTBOT_RATE_LIMIT_BRIDGE_DAILY_CAP'',
     ''MOLTBOT_RATE_LIMIT_CONNECTOR_DAILY_CAP'',
     ''MOLTBOT_RATE_LIMIT_EVENTS_DAILY_CAP'',
     ''MOLTBOT_RATE_LIMIT_TRIGGER_DAILY_CAP'',
     ''MOLTBOT_RATE_LIMIT_WEBHOOK_DAILY_CAP'']"

definition REJECTED_LEGACY_ENV_KEYS :: "string list" where
  "REJECTED_LEGACY_ENV_KEYS = [''CLAWDBOT_GATEWAY_TOKEN'']"

definition SUPPORTED_LEGACY_ENV_KEYS :: "string list" where
  "SUPPORTED_LEGACY_ENV_KEYS =
     LEGACY_MOLTBOT_ENV_KEYS @ SUPPORTED_CLAWDBOT_ENV_KEYS @ SUPPORTED_DYNAMIC_MOLTBOT_ENV_KEYS"

definition TRUTHY_VALUES :: "string list" where
  "TRUTHY_VALUES = [''1'', ''true'', ''yes'', ''on'']"

text \<open>\<open>str.removeprefix\<close>\<close>

definition remove_prefix :: "string \<Rightarrow> string \<Rightarrow> string" where
  "remove_prefix p s = (if starts_with p s then drop (length p) s else s)"

definition canonical_for_moltbot :: "string \<Rightarrow> string" where
  "canonical_for_moltbot legacy = ''OPENCLAW_'' @ remove_prefix ''MOLTBOT_'' legacy"

definition is_sensitive_key :: "string \<Rightarrow> bool" where
  "is_sensitive_key key \<longleftrightarrow>
     (\<exists>part \<in> set [''TOKEN'', ''API_KEY'', ''SECRET'', ''PASSWORD'', ''CERT'']. has_sub part key)"

definition registry_spec :: "string \<Rightarrow> env_alias_spec" where
  "registry_spec legacy = (let canonical = canonical_for_moltbot legacy in
     \<lparr>eas_canonical = canonical,
      eas_aliases = (if canonical = ''OPENCLAW_LLM_API_KEY''
        then [legacy, ''CLAWDBOT_LLM_API_KEY''] else [legacy]),
      eas_sensitive = is_sensitive_key canonical\<rparr>)"

definition build_registry :: "(string, env_alias_spec) dict" where
  "build_registry = fold (\<lambda>legacy specs. dput (canonical_for_moltbot legacy) (registry_spec legacy) specs)
     (sort LEGACY_MOLTBOT_ENV_KEYS) []"

fun select_value :: "env \<Rightarrow> string list \<Rightarrow> env_lookup_mode \<Rightarrow> string option \<times> string option" where
  "select_value env [] mode = (None, None)"
| "select_value env (key # keys) mode = (case env key of
       None \<Rightarrow> select_value env keys mode
     | Some value \<Rightarrow>
         if mode = PRESENCE then (Some value, Some key)
         else if mode = NONEMPTY \<and> value \<noteq> [] then (Some value, Some key)
         else if mode = TRUTHY_ANY \<and> py_lower (py_strip value) \<in> set TRUTHY_VALUES
           then (Some value, Some key)
         else select_value env keys mode)"

text \<open>
  \<open>_warn_legacy_once\<close>: whether a warning is logged now, and the new set of keys.
\<close>

definition warn_legacy_once :: "string \<Rightarrow> string list \<Rightarrow> bool \<times> string list" where
  "warn_legacy_once legacy warned =
     (if legacy \<in> set warned then (False, warned) else (True, legacy # warned))"

datatype env_error = UnsupportedLegacyAlias string

definition resolve_env ::
  "bool \<Rightarrow> env \<Rightarrow> string \<Rightarrow> string list option \<Rightarrow> env_lookup_mode \<Rightarrow> string option \<Rightarrow> bool option \<Rightarrow>
   string list \<Rightarrow> env_error + env_resolution \<times> string list" where
  "resolve_env process_environment env canonical aliases mode dflt warn_legacy warned =
    (let ordered_aliases = (case aliases of Some as \<Rightarrow> as
           | None \<Rightarrow> (case dget build_registry canonical of Some spec \<Rightarrow> eas_aliases spec | None \<Rightarrow> []));
         rejected = filter (\<lambda>a. a \<in> set REJECTED_LEGACY_ENV_KEYS) ordered_aliases;
         unknown_legacy = filter (\<lambda>a. (starts_with ''MOLTBOT_'' a \<or> starts_with ''CLAWDBOT_'' a)
             \<and> a \<notin> set SUPPORTED_LEGACY_ENV_KEYS \<and> a \<notin> set REJECTED_LEGACY_ENV_KEYS) ordered_aliases
     in case rejected @ unknown_legacy of
          invalid # _ \<Rightarrow> Inl (UnsupportedLegacyAlias invalid)
        | [] \<Rightarrow> (case select_value env (canonical # ordered_aliases) mode of
              (value, None) \<Rightarrow>
                Inr (\<lparr>er_value = dflt, er_selected_key = None, er_used_legacy = False\<rparr>, warned)
            | (value, Some selected_key) \<Rightarrow>
                let used_legacy = selected_key \<noteq> canonical;
                    should_warn = (case warn_legacy of None \<Rightarrow> process_environment | Some b \<Rightarrow> b);
                    warned' = (if used_legacy \<and> should_warn
                      then snd (warn_legacy_once selected_key warned) else warned)
                in Inr (\<lparr>er_value = value, er_selected_key = Some selected_key,
                         er_used_legacy = used_legacy\<rparr>, warned')))"

text \<open>
  \<open>get_env_value\<close> as the rest of the code calls it: the process environment, the default
  mode. Its only effect is the warning log.
\<close>

definition get_env_value :: "env \<Rightarrow> string \<Rightarrow> string list option \<Rightarrow> string option \<Rightarrow> env_error + string option" where
  "get_env_value env canonical aliases dflt =
     (case resolve_env True env canonical aliases NONEMPTY dflt None [] of
        Inl e \<Rightarrow> Inl e | Inr (res, _) \<Rightarrow> Inr (er_value res))"

text \<open>
  The call with the registry's own aliases, which \<open>resolve_env_registry_not_Inl\<close> shows
  never raises.
\<close>

definition env_value :: "env \<Rightarrow> string \<Rightarrow> string option \<Rightarrow> string option" where
  "env_value env canonical dflt =
     (case get_env_value env canonical None dflt of Inl _ \<Rightarrow> None | Inr v \<Rightarrow> v)"

subsection \<open>The registry\<close>

lemma legacy_not_rejected: "a \<in> set LEGACY_MOLTBOT_ENV_KEYS \<Longrightarrow> a \<notin> set REJECTED_LEGACY_ENV_KEYS"
  by (auto simp: LEGACY_MOLTBOT_ENV_KEYS_def REJECTED_LEGACY_ENV_KEYS_def)

lemma dget_fold_dput:
  "dget (fold (\<lambda>x. dput (f x) (g x)) xs d) k = Some v \<Longrightarrow>
   (\<exists>x \<in> set xs. k = f x \<and> v = g x) \<or> dget d k = Some v"
proof (induction xs arbitrary: d)
  case Nil
  then show ?case by simp
next
  case (Cons x xs)
  then have "(\<exists>y \<in> set xs. k = f y \<and> v = g y) \<or> dget (dput (f x) (g x) d) k = Some v" by simp
  then show ?case by (auto simp: dict_simps split: if_splits)
qed

lemma registry_aliases:
  assumes "dget build_registry canonical = Some spec" and "a \<in> set (eas_aliases spec)"
  shows "a \<in> set SUPPORTED_LEGACY_ENV_KEYS \<and> a \<notin> set REJECTED_LEGACY_ENV_KEYS"
proof -
  obtain legacy where "legacy \<in> set LEGACY_MOLTBOT_ENV_KEYS" and "spec = registry_spec legacy"
    using assms(1) dget_fold_dput [of canonical_for_moltbot registry_spec]
    unfolding build_registry_def by fastforce
  with assms(2) consider "a \<in> set LEGACY_MOLTBOT_ENV_KEYS" | "a = ''CLAWDBOT_LLM_API_KEY''"
    by (auto simp: registry_spec_def Let_def split: if_splits)
  then show ?thesis
    by cases (auto dest: legacy_not_rejected simp: SUPPORTED_LEGACY_ENV_KEYS_def
        SUPPORTED_CLAWDBOT_ENV_KEYS_def REJECTED_LEGACY_ENV_KEYS_def)
qed

lemma resolve_env_registry_not_Inl:
  "\<exists>r. resolve_env p env canonical None mode dflt w warned = Inr r"
proof -
  define as where "as = (case dget build_registry canonical of Some spec \<Rightarrow> eas_aliases spec | None \<Rightarrow> [])"
  have ok: "\<forall>a \<in> set as. a \<in> set SUPPORTED_LEGACY_ENV_KEYS \<and> a \<notin> set REJECTED_LEGACY_ENV_KEYS"
    unfolding as_def by (cases "dget build_registry canonical") (simp_all add: registry_aliases)
  have "filter (\<lambda>a. a \<in> set REJECTED_LEGACY_ENV_KEYS) as = []"
    using ok by (auto simp: filter_empty_conv)
  moreover have "filter (\<lambda>a. (starts_with ''MOLTBOT_'' a \<or> starts_with ''CLAWDBOT_'' a)
             \<and> a \<notin> set SUPPORTED_LEGACY_ENV_KEYS \<and> a \<notin> set REJECTED_LEGACY_ENV_KEYS) as = []"
    using ok by (auto simp: filter_empty_conv)
  ultimately show ?thesis
    by (auto simp: resolve_env_def Let_def as_def [symmetric] split: prod.split option.split)
qed

subsection \<open>Lookup order\<close>

lemma select_value_key:
  "select_value env keys mode = (v, Some k) \<Longrightarrow> k \<in> set keys \<and> env k = v \<and> v \<noteq> None"
proof (induction env keys mode rule: select_value.induct)
  case (2 env key keys mode)
  show ?case
  proof (cases "env key")
    case None
    with "2" show ?thesis by simp
  next
    case (Some w)
    with "2" show ?thesis by (simp split: if_splits) (metis option.distinct(1))+
  qed
qed simp

lemma select_value_canonical_first:
  "env k = Some v \<Longrightarrow> v \<noteq> [] \<Longrightarrow> select_value env (k # ks) NONEMPTY = (Some v, Some k)"
  by simp

lemma select_value_none:
  "select_value env keys NONEMPTY = (v, None) \<longleftrightarrow> v = None \<and> (\<forall>k \<in> set keys. env k = None \<or> env k = Some [])"
  by (induction env keys NONEMPTY rule: select_value.induct) (auto split: option.splits)


subsection \<open>Lookups with the registry's aliases\<close>

definition registry_aliases_of :: "string \<Rightarrow> string list" where
  "registry_aliases_of canonical = (case dget build_registry canonical of Some spec \<Rightarrow> eas_aliases spec | None \<Rightarrow> [])"

lemma registry_aliases_of_legacy: "a \<in> set (registry_aliases_of k) \<Longrightarrow> a \<notin> set REJECTED_LEGACY_ENV_KEYS"
  by (cases "dget build_registry k") (auto simp: registry_aliases_of_def dest: registry_aliases)

text \<open>A lookup is the ordered selection over the name and its aliases, with the default.\<close>

definition selected_or :: "string option \<times> string option \<Rightarrow> string option \<Rightarrow> string option" where
  "selected_or r dflt = (case r of (v, None) \<Rightarrow> dflt | (v, Some _) \<Rightarrow> v)"

lemma get_env_value_registry:
  "get_env_value env k None dflt = Inr (selected_or (select_value env (k # registry_aliases_of k) NONEMPTY) dflt)"
proof -
  obtain r where r: "resolve_env True env k None NONEMPTY dflt None [] = Inr r"
    using resolve_env_registry_not_Inl by blast
  obtain v sel where sel: "select_value env (k # registry_aliases_of k) NONEMPTY = (v, sel)"
    by (cases "select_value env (k # registry_aliases_of k) NONEMPTY")
  from r have "er_value (fst r) = selected_or (v, sel) dflt"
    unfolding resolve_env_def Let_def option.case
    by (auto simp: registry_aliases_of_def [symmetric] sel selected_or_def split: list.splits option.splits if_splits
        simp del: select_value.simps)
  then show ?thesis by (simp add: get_env_value_def r sel split_def del: select_value.simps)
qed

lemma env_value_canonical: "env k = Some v \<Longrightarrow> v \<noteq> [] \<Longrightarrow> env_value env k dflt = Some v"
  by (simp add: env_value_def get_env_value_registry selected_or_def)

lemma env_value_empty: "env_value (\<lambda>_. None) k dflt = dflt"
proof -
  have "select_value (\<lambda>_. None) ks m = (None, None)" for ks m
    by (induction ks) auto
  then show ?thesis by (simp add: env_value_def get_env_value_registry selected_or_def del: select_value.simps)
qed

lemma select_value_cong: "\<forall>k \<in> set ks. env' k = env k \<Longrightarrow> select_value env' ks m = select_value env ks m"
  by (induction ks) (auto split: option.split)

text \<open>
  A lookup through the registry never raises. It answers the canonical variable when
  that is set and not empty, the default when neither it nor an alias is, and a rejected
  legacy variable has no influence on any other name.
\<close>

theorem env_lookup_sound:
  "\<exists>v. get_env_value env k None dflt = Inr v
    \<and> (\<forall>w. env k = Some w \<and> w \<noteq> [] \<longrightarrow> v = Some w)
    \<and> ((\<forall>a \<in> set (k # registry_aliases_of k). env a = None \<or> env a = Some []) \<longrightarrow> v = dflt)
    \<and> (\<forall>r x. r \<in> set REJECTED_LEGACY_ENV_KEYS \<and> r \<noteq> k \<longrightarrow> get_env_value (env(r := x)) k None dflt = Inr v)"
proof -
  define v where "v = selected_or (select_value env (k # registry_aliases_of k) NONEMPTY) dflt"
  have "get_env_value env k None dflt = Inr v" by (simp only: get_env_value_registry v_def)
  moreover have "v = Some w" if "env k = Some w" "w \<noteq> []" for w
    using that by (simp add: v_def selected_or_def)
  moreover have "v = dflt" if "\<forall>a \<in> set (k # registry_aliases_of k). env a = None \<or> env a = Some []"
  proof -
    have "select_value env (k # registry_aliases_of k) NONEMPTY = (None, None)"
      using that select_value_none [of env "k # registry_aliases_of k" None] by blast
    then show ?thesis by (simp only: v_def selected_or_def split option.case)
  qed
  moreover have "get_env_value (env(r := x)) k None dflt = Inr v"
    if "r \<in> set REJECTED_LEGACY_ENV_KEYS" "r \<noteq> k" for r x
  proof -
    have "\<forall>a \<in> set (k # registry_aliases_of k). (env(r := x)) a = env a"
      using that registry_aliases_of_legacy by auto
    then show ?thesis by (simp only: get_env_value_registry v_def select_value_cong)
  qed
  ultimately show ?thesis by blast
qed

theorem env_lookup_sound_witness:
  "get_env_value [''OPENCLAW_LLM_API_KEY'' \<mapsto> ''k''] ''OPENCLAW_LLM_API_KEY'' None None = Inr (Some ''k'')"
  using env_lookup_sound [of "[''OPENCLAW_LLM_API_KEY'' \<mapsto> ''k'']" "''OPENCLAW_LLM_API_KEY''" None] by auto

end
