(* ===== verification/Tenant.thy ===== *)
theory Tenant
  imports Env_Aliases
begin

text \<open>
  \<open>services/tenant_context.py\<close>: the tenant boundary. Tenant ids are normalised, the
  token's and the request's tenant are reconciled (a mismatch is an error), and the current
  tenant is a context variable that a scope sets and restores.
\<close>

definition DEFAULT_TENANT_ID :: string where
  "DEFAULT_TENANT_ID = ''default''"

datatype tenant_error = Tenant_invalid | Tenant_mismatch | Tenant_required

record tenant_context =
  tc_tenant_id :: string
  tc_source :: string
  tc_multi_tenant :: bool

definition is_truthy :: "string option \<Rightarrow> bool" where
  "is_truthy v = (case v of None \<Rightarrow> False | Some s \<Rightarrow> py_lower (py_strip s) \<in> set TRUTHY_VALUES)"

definition is_multi_tenant_enabled :: "env \<Rightarrow> bool" where
  "is_multi_tenant_enabled env =
     is_truthy (env_value env ''OPENCLAW_MULTI_TENANT_ENABLED'' (Some ''0''))"

definition allow_default_tenant_fallback :: "env \<Rightarrow> bool" where
  "allow_default_tenant_fallback env =
     is_truthy (env_value env ''OPENCLAW_MULTI_TENANT_ALLOW_DEFAULT_FALLBACK'' (Some ''0''))"

text \<open>\<open>TENANT_ID_RE.fullmatch\<close>: \<open>[a-z0-9][a-z0-9._-]{0,63}\<close>\<close>

definition tenant_head :: "char \<Rightarrow> bool" where
  "tenant_head c \<longleftrightarrow> is_lower c \<or> is_digit c"

definition tenant_tail :: "char \<Rightarrow> bool" where
  "tenant_tail c \<longleftrightarrow> is_lower c \<or> is_digit c \<or> c \<in> {CHR ''.'', CHR ''_'', CHR ''-''}"

definition tenant_id_re :: "string \<Rightarrow> bool" where
  "tenant_id_re s = (case s of [] \<Rightarrow> False
     | c # t \<Rightarrow> tenant_head c \<and> length t \<le> 63 \<and> list_all tenant_tail t)"

text \<open>The argument is the text of the id; \<open>None\<close> and the empty text are falsy alike.\<close>

definition normalize_tenant_id :: "string \<Rightarrow> tenant_error + string" where
  "normalize_tenant_id tenant_id =
     (let text = py_lower (py_strip tenant_id) in
      if text = [] then Inl Tenant_invalid
      else if \<not> tenant_id_re text then Inl Tenant_invalid
      else Inr text)"

text \<open>\<open>dict.fromkeys\<close> keeps the first of equal names.\<close>

definition get_tenant_header_names :: "env \<Rightarrow> string list" where
  "get_tenant_header_names env =
    (let v = (case env_value env ''OPENCLAW_TENANT_HEADER'' (Some ''X-OpenClaw-Tenant-Id'') of
                None \<Rightarrow> [] | Some s \<Rightarrow> s);
         configured = py_strip (if v = [] then ''X-OpenClaw-Tenant-Id'' else v)
     in dkeys (fold (\<lambda>k. dput k ()) [configured, ''X-OpenClaw-Tenant-Id'', ''X-Moltbot-Tenant-Id''] []))"

text \<open>Header values are given by their text (\<open>str(raw)\<close>).\<close>

fun first_header :: "string list \<Rightarrow> (string \<rightharpoonup> string) \<Rightarrow> tenant_error + string option" where
  "first_header [] headers = Inr None"
| "first_header (key # keys) headers = (case headers key of
       None \<Rightarrow> first_header keys headers
     | Some raw \<Rightarrow>
         (let v = py_strip raw in
          if v \<noteq> [] then map_sum id Some (normalize_tenant_id v) else first_header keys headers))"

definition extract_tenant_from_headers :: "env \<Rightarrow> (string \<rightharpoonup> string) \<Rightarrow> tenant_error + string option" where
  "extract_tenant_from_headers env headers = first_header (get_tenant_header_names env) headers"

text \<open>
  The request is given by its headers (\<open>None\<close>: no request, or one without headers), the
  token by its \<open>tenant_id\<close> attribute (\<open>None\<close>: no token; the empty text is falsy).
\<close>

definition resolve_tenant_context ::
  "env \<Rightarrow> (string \<rightharpoonup> string) option \<Rightarrow> string option \<Rightarrow> bool \<Rightarrow> tenant_error + tenant_context" where
  "resolve_tenant_context env headers token_tenant_id allow_default_when_missing =
    (if \<not> is_multi_tenant_enabled env then
       Inr \<lparr>tc_tenant_id = DEFAULT_TENANT_ID, tc_source = ''single_tenant_mode'', tc_multi_tenant = False\<rparr>
     else
       let token_res = (case token_tenant_id of
             None \<Rightarrow> Inr None
           | Some t \<Rightarrow> if t = [] then Inr None else map_sum id Some (normalize_tenant_id t))
       in case token_res of Inl e \<Rightarrow> Inl e | Inr token_tenant \<Rightarrow>
       (let header_res = (case headers of None \<Rightarrow> Inr None | Some h \<Rightarrow> extract_tenant_from_headers env h)
        in case header_res of Inl e \<Rightarrow> Inl e | Inr header_tenant \<Rightarrow>
          (case (token_tenant, header_tenant) of
             (Some t, Some h) \<Rightarrow>
               if t \<noteq> h then Inl Tenant_mismatch
               else Inr \<lparr>tc_tenant_id = t, tc_source = ''token'', tc_multi_tenant = True\<rparr>
           | (Some t, None) \<Rightarrow> Inr \<lparr>tc_tenant_id = t, tc_source = ''token'', tc_multi_tenant = True\<rparr>
           | (None, Some h) \<Rightarrow> Inr \<lparr>tc_tenant_id = h, tc_source = ''header'', tc_multi_tenant = True\<rparr>
           | (None, None) \<Rightarrow>
               if allow_default_when_missing \<or> allow_default_tenant_fallback env then
                 Inr \<lparr>tc_tenant_id = DEFAULT_TENANT_ID, tc_source = ''default_fallback'', tc_multi_tenant = True\<rparr>
               else Inl Tenant_required)))"

text \<open>The context variable is the last argument.\<close>

definition get_current_tenant_id :: "env \<Rightarrow> string \<Rightarrow> string" where
  "get_current_tenant_id env current =
     (if \<not> is_multi_tenant_enabled env then DEFAULT_TENANT_ID
      else if current = [] then DEFAULT_TENANT_ID else current)"

text \<open>
  A \<open>with\<close> block: its body runs with the variable set and may itself change it; the
  token of \<open>ContextVar.set\<close> restores the old value on every exit.
\<close>

definition tenant_scope :: "string \<Rightarrow> (string \<Rightarrow> string \<Rightarrow> 'a \<times> string) \<Rightarrow> string \<Rightarrow> (tenant_error + 'a) \<times> string" where
  "tenant_scope tenant_id body current = (case normalize_tenant_id tenant_id of
       Inl e \<Rightarrow> (Inl e, current)
     | Inr normalized \<Rightarrow> (let (a, _) = body normalized normalized in (Inr a, current)))"

definition request_tenant_scope ::
  "env \<Rightarrow> (string \<rightharpoonup> string) option \<Rightarrow> string option \<Rightarrow> bool \<Rightarrow>
   (tenant_context \<Rightarrow> string \<Rightarrow> 'a \<times> string) \<Rightarrow> string \<Rightarrow> (tenant_error + 'a) \<times> string" where
  "request_tenant_scope env headers token_tenant_id allow body current =
     (case resolve_tenant_context env headers token_tenant_id allow of
        Inl e \<Rightarrow> (Inl e, current)
      | Inr ctx \<Rightarrow> (let (a, _) = body ctx (tc_tenant_id ctx) in (Inr a, current)))"

subsection \<open>Normalisation\<close>

lemma tenant_tail_not_space: "tenant_tail c \<Longrightarrow> \<not> is_space c \<and> \<not> is_upper c"
  by (auto simp: tenant_tail_def is_space_def is_upper_def is_lower_def is_digit_def Let_def)

lemma tenant_head_tail: "tenant_head c \<Longrightarrow> tenant_tail c"
  by (auto simp: tenant_head_def tenant_tail_def)

lemma tenant_id_re_all: "tenant_id_re s \<Longrightarrow> s \<noteq> [] \<and> (\<forall>c \<in> set s. tenant_tail c)"
  by (auto simp: tenant_id_re_def list_all_iff tenant_head_tail split: list.splits)

lemma py_strip_no_space: "\<forall>c \<in> set s. \<not> is_space c \<Longrightarrow> py_strip s = s"
proof -
  assume ns: "\<forall>c \<in> set s. \<not> is_space c"
  have "dropWhile is_space t = t" if "set t = set s" for t
    using ns that by (cases t) auto
  from this [of s] this [of "rev s"] show ?thesis by (simp add: py_strip_def)
qed

lemma py_lower_no_upper: "\<forall>c \<in> set s. \<not> is_upper c \<Longrightarrow> py_lower s = s"
  by (simp add: py_lower_def lower_char_def map_idI)

lemma normalize_tenant_idD:
  assumes "normalize_tenant_id t = Inr u"
  shows "tenant_id_re u" and "u \<noteq> []" and "length u \<le> 64" and "normalize_tenant_id u = Inr u"
proof -
  show re: "tenant_id_re u" using assms by (auto simp: normalize_tenant_id_def Let_def split: if_splits)
  then show ne: "u \<noteq> []" by (simp add: tenant_id_re_all)
  show "length u \<le> 64" using re by (auto simp: tenant_id_re_def split: list.splits)
  have "py_strip u = u" using tenant_id_re_all [OF re] tenant_tail_not_space by (intro py_strip_no_space) blast
  moreover have "py_lower u = u" using tenant_id_re_all [OF re] tenant_tail_not_space by (intro py_lower_no_upper) blast
  ultimately show "normalize_tenant_id u = Inr u" using re ne by (simp add: normalize_tenant_id_def)
qed

lemma first_header_normalized: "first_header ks h = Inr (Some u) \<Longrightarrow> normalize_tenant_id u = Inr u"
  by (induction ks h rule: first_header.induct)
    (auto simp: Let_def normalize_tenant_idD map_sum_def split: option.splits if_splits sum.splits)

lemma default_tenant_normalized: "normalize_tenant_id DEFAULT_TENANT_ID = Inr DEFAULT_TENANT_ID"
  by (simp add: normalize_tenant_id_def DEFAULT_TENANT_ID_def py_strip_def py_lower_def lower_char_def
      is_space_def is_upper_def tenant_id_re_def tenant_head_def tenant_tail_def is_lower_def is_digit_def Let_def)


subsection \<open>Properties\<close>

lemma map_sum_Some_Inr: "map_sum id Some r = Inr x \<longleftrightarrow> (\<exists>y. r = Inr y \<and> x = Some y)"
  by (cases r) auto

definition token_result :: "string option \<Rightarrow> tenant_error + string option" where
  "token_result token = (case token of None \<Rightarrow> Inr None
     | Some t \<Rightarrow> if t = [] then Inr None else map_sum id Some (normalize_tenant_id t))"

definition header_result :: "env \<Rightarrow> (string \<rightharpoonup> string) option \<Rightarrow> tenant_error + string option" where
  "header_result env headers = (case headers of None \<Rightarrow> Inr None | Some h \<Rightarrow> extract_tenant_from_headers env h)"

lemma token_result_Some: "token_result token = Inr (Some u) \<longleftrightarrow> (\<exists>t. token = Some t \<and> t \<noteq> [] \<and> normalize_tenant_id t = Inr u)"
  by (auto simp: token_result_def map_sum_Some_Inr split: option.splits if_splits)

lemma token_result_None: "token_result token = Inr None \<longleftrightarrow> token = None \<or> token = Some []"
  by (auto simp: token_result_def map_sum_Some_Inr split: option.splits if_splits)

lemma header_result_Some:
  "header_result env headers = Inr (Some u) \<longleftrightarrow> (\<exists>h. headers = Some h \<and> extract_tenant_from_headers env h = Inr (Some u))"
  by (auto simp: header_result_def split: option.splits)

lemma header_result_None:
  "header_result env headers = Inr None \<longleftrightarrow> headers = None \<or> (\<exists>h. headers = Some h \<and> extract_tenant_from_headers env h = Inr None)"
  by (auto simp: header_result_def split: option.splits)

lemma resolve_tenant_cases:
  assumes "is_multi_tenant_enabled env" and "resolve_tenant_context env headers token allow = Inr ctx"
  obtains (named) u where "tc_tenant_id ctx = u"
      "token_result token = Inr (Some u) \<and> (header_result env headers = Inr None \<or> header_result env headers = Inr (Some u))
       \<or> token_result token = Inr None \<and> header_result env headers = Inr (Some u)"
  | (fallback) "token_result token = Inr None" "header_result env headers = Inr None"
      "tc_tenant_id ctx = DEFAULT_TENANT_ID" "allow \<or> allow_default_tenant_fallback env"
proof -
  from assms have r: "(case token_result token of Inl e \<Rightarrow> Inl e | Inr tt \<Rightarrow>
     (case header_result env headers of Inl e \<Rightarrow> Inl e | Inr ht \<Rightarrow>
      (case (tt, ht) of
         (Some t, Some h) \<Rightarrow> if t \<noteq> h then Inl Tenant_mismatch
           else Inr \<lparr>tc_tenant_id = t, tc_source = ''token'', tc_multi_tenant = True\<rparr>
       | (Some t, None) \<Rightarrow> Inr \<lparr>tc_tenant_id = t, tc_source = ''token'', tc_multi_tenant = True\<rparr>
       | (None, Some h) \<Rightarrow> Inr \<lparr>tc_tenant_id = h, tc_source = ''header'', tc_multi_tenant = True\<rparr>
       | (None, None) \<Rightarrow> if allow \<or> allow_default_tenant_fallback env then
           Inr \<lparr>tc_tenant_id = DEFAULT_TENANT_ID, tc_source = ''default_fallback'', tc_multi_tenant = True\<rparr>
         else Inl Tenant_required))) = Inr ctx"
    unfolding resolve_tenant_context_def token_result_def header_result_def Let_def by simp
  obtain tt where tt: "token_result token = Inr tt" using r by (cases "token_result token") auto
  obtain ht where ht: "header_result env headers = Inr ht" using r tt by (cases "header_result env headers") auto
  consider t h where "tt = Some t" "ht = Some h" | t where "tt = Some t" "ht = None"
    | h where "tt = None" "ht = Some h" | "tt = None" "ht = None" by (cases tt; cases ht) blast+
  then show ?thesis
  proof cases
    case (1 t h)
    then have "t = h \<and> tc_tenant_id ctx = t" using r tt ht by (auto split: if_splits)
    then show ?thesis using named [of t] tt ht 1 by simp
  next
    case (2 t)
    then have "tc_tenant_id ctx = t" using r tt ht by auto
    then show ?thesis using named [of t] tt ht 2 by simp
  next
    case (3 h)
    then have "tc_tenant_id ctx = h" using r tt ht by auto
    then show ?thesis using named [of h] tt ht 3 by simp
  next
    case 4
    then have "tc_tenant_id ctx = DEFAULT_TENANT_ID" "allow \<or> allow_default_tenant_fallback env"
      using r tt ht by (auto split: if_splits)
    then show ?thesis using fallback tt ht 4 by simp
  qed
qed

text \<open>
  Tenant resolution fails closed: with multi-tenancy on, a resolved tenant is a
  well-formed identifier that the token or a header named, both if both are given (a
  mismatch never resolves), and without either it resolves only to the default and only
  where the fallback is allowed.
\<close>

theorem tenant_fail_closed:
  assumes "is_multi_tenant_enabled env" and "resolve_tenant_context env headers token allow = Inr ctx"
  shows "normalize_tenant_id (tc_tenant_id ctx) = Inr (tc_tenant_id ctx)
    \<and> (\<forall>t. token = Some t \<and> t \<noteq> [] \<longrightarrow> normalize_tenant_id t = Inr (tc_tenant_id ctx))
    \<and> (\<forall>h u. headers = Some h \<and> extract_tenant_from_headers env h = Inr (Some u) \<longrightarrow> u = tc_tenant_id ctx)
    \<and> ((token = None \<or> token = Some []) \<and> (headers = None \<or> (\<exists>h. headers = Some h \<and> extract_tenant_from_headers env h = Inr None))
        \<longrightarrow> tc_tenant_id ctx = DEFAULT_TENANT_ID \<and> (allow \<or> allow_default_tenant_fallback env))"
  using assms
proof (cases rule: resolve_tenant_cases)
  case (named u)
  have "normalize_tenant_id u = Inr u"
    using named(2) first_header_normalized normalize_tenant_idD(4)
    unfolding token_result_Some header_result_Some extract_tenant_from_headers_def by blast
  then show ?thesis using named
    unfolding token_result_Some header_result_Some token_result_None header_result_None by auto
next
  case fallback
  then show ?thesis using default_tenant_normalized
    unfolding token_result_None header_result_None by auto
qed

theorem tenant_fail_closed_witness:
  "resolve_tenant_context [''OPENCLAW_MULTI_TENANT_ENABLED'' \<mapsto> ''1''] None (Some ''Acme'') False =
      Inr \<lparr>tc_tenant_id = ''acme'', tc_source = ''token'', tc_multi_tenant = True\<rparr> \<and> normalize_tenant_id ''Acme'' = Inr ''acme''"
proof -
  have on: "is_multi_tenant_enabled [''OPENCLAW_MULTI_TENANT_ENABLED'' \<mapsto> ''1'']"
    unfolding is_multi_tenant_enabled_def
    by (subst env_value_canonical [of _ _ "''1''"]) (simp_all add: is_truthy_def TRUTHY_VALUES_def, code_simp)
  have n: "normalize_tenant_id ''Acme'' = Inr ''acme''" by code_simp
  have "resolve_tenant_context [''OPENCLAW_MULTI_TENANT_ENABLED'' \<mapsto> ''1''] None (Some ''Acme'') False =
      Inr \<lparr>tc_tenant_id = ''acme'', tc_source = ''token'', tc_multi_tenant = True\<rparr>"
    using on by (simp add: resolve_tenant_context_def n)
  with tenant_fail_closed [OF on this] show ?thesis by simp
qed

text \<open>A scope restores the tenant whatever its body does, and runs it for a well-formed tenant only.\<close>

lemma tenant_scope_restores: "snd (tenant_scope t body cur) = cur"
  "(\<And>n s. normalize_tenant_id n = Inr n \<Longrightarrow> fst (body n s) = f n) \<Longrightarrow> fst (tenant_scope t body cur) = Inr a \<Longrightarrow>
   \<exists>n. normalize_tenant_id t = Inr n \<and> a = f n"
  by (auto simp: tenant_scope_def split_def Let_def dest: normalize_tenant_idD(4) split: sum.splits)

end
