(* ===== verification/Delivery_Contract.thy ===== *)
theory Delivery_Contract
  imports Targets
begin

text \<open>
  \<open>services/scheduler/delivery_contract.py\<close>: the canonical form of a schedule's delivery
  target. A JSON value other than null, booleans, integers and strings is represented by
  its \<open>str()\<close> text (\<open>J_other\<close>), the only thing this code reads of it.
\<close>

datatype jval = J_null | J_bool bool | J_int int | J_str string | J_other string

type_synonym jobject = "(string, jval) dict"

datatype delivery_arg = D_none | D_other | D_dict jobject

datatype delivery_error = Delivery_malformed | Delivery_ambiguous | Delivery_unsupported

definition SUPPORTED_PLATFORMS :: "string list" where
  "SUPPORTED_PLATFORMS = [''custom'', ''discord'', ''feishu'', ''lark'', ''slack'', ''telegram'', ''webhook'']"

definition safe_id_pattern :: "string \<Rightarrow> bool" where
  "safe_id_pattern = rep_class (alnum_or ''_.:@/-'') 1 200"

definition feishu_target_pattern :: "string \<Rightarrow> bool" where
  "feishu_target_pattern = rep_class (alnum_or ''_-'') 1 128"

definition feishu_thread_pattern :: "string \<Rightarrow> bool" where
  "feishu_thread_pattern = rep_class (alnum_or ''_.-'') 1 128"

definition webhook_safe_target_pattern :: "string \<Rightarrow> bool" where
  "webhook_safe_target_pattern = rep_class (alnum_or ''_.-'') 1 128"

definition is_explicit_no_delivery :: "jobject \<Rightarrow> bool" where
  "is_explicit_no_delivery raw \<longleftrightarrow>
     dget raw ''enabled'' = Some (J_bool False) \<or>
     (case dget raw ''mode'' of Some (J_str m) \<Rightarrow> py_lower (py_strip m) = ''none'' | _ \<Rightarrow> False)"

text \<open>The present, usable aliases with their stripped text, in the order of the aliases.\<close>

fun alias_values :: "jobject \<Rightarrow> string list \<Rightarrow> delivery_error + (string \<times> string) list" where
  "alias_values raw [] = Inr []"
| "alias_values raw (key # keys) =
     (let keep = (\<lambda>s. let text = py_strip s in
            if text = [] then alias_values raw keys
            else (case alias_values raw keys of Inl e \<Rightarrow> Inl e | Inr vs \<Rightarrow> Inr ((key, text) # vs)))
      in case dget raw key of
           None \<Rightarrow> alias_values raw keys
         | Some J_null \<Rightarrow> alias_values raw keys
         | Some (J_bool b) \<Rightarrow> Inl Delivery_malformed
         | Some (J_int i) \<Rightarrow> keep (int_str i)
         | Some (J_str s) \<Rightarrow> keep s
         | Some (J_other s) \<Rightarrow> keep s)"

definition resolve_alias :: "jobject \<Rightarrow> string list \<Rightarrow> delivery_error + string option" where
  "resolve_alias raw aliases = (case alias_values raw aliases of
       Inl e \<Rightarrow> Inl e
     | Inr values \<Rightarrow>
         if 1 < length (remdups (map snd values)) then Inl Delivery_ambiguous
         else (case values of [] \<Rightarrow> Inr None | (k, text) # _ \<Rightarrow> Inr (Some text)))"

definition resolve_platform :: "jobject \<Rightarrow> delivery_error + string" where
  "resolve_platform raw = (case resolve_alias raw [''platform'', ''transport''] of
       Inl e \<Rightarrow> Inl e
     | Inr p \<Rightarrow>
         (let platform = (if p = None \<and> dget raw ''url'' \<noteq> None then Some ''webhook'' else p) in
          case platform of
            None \<Rightarrow> Inl Delivery_malformed
          | Some platform \<Rightarrow>
              (let platform = py_lower platform in
               if platform \<notin> set SUPPORTED_PLATFORMS then Inl Delivery_unsupported
               else Inr (if platform = ''lark'' then ''feishu'' else platform))))"

text \<open>The argument is \<open>raw.get("mode", "reply")\<close>.\<close>

definition normalize_mode :: "jval \<Rightarrow> delivery_error + string" where
  "normalize_mode v = (case v of
       J_null \<Rightarrow> Inr ''reply''
     | J_str s \<Rightarrow> (let mode = py_lower (py_strip s) in
         if mode = ''none'' then Inl Delivery_malformed
         else Inr (if mode = [] then ''reply'' else mode))
     | _ \<Rightarrow> Inl Delivery_malformed)"

definition normalize_bool :: "jval \<Rightarrow> delivery_error + bool" where
  "normalize_bool v = (case v of
       J_bool b \<Rightarrow> Inr b
     | J_str s \<Rightarrow> (let text = py_lower (py_strip s) in
         if text \<in> set [''1'', ''true'', ''yes'', ''on''] then Inr True
         else if text \<in> set [''0'', ''false'', ''no'', ''off''] then Inr False
         else Inl Delivery_malformed)
     | _ \<Rightarrow> Inl Delivery_malformed)"

definition validate_mode_for_scheduler :: "string \<Rightarrow> delivery_error + unit" where
  "validate_mode_for_scheduler mode =
     (if mode \<notin> set [''reply'', ''new_thread'', ''dm'', ''broadcast''] then Inl Delivery_malformed else Inr ())"

definition validate_platform_target ::
  "string \<Rightarrow> string \<Rightarrow> string option \<Rightarrow> string \<Rightarrow> delivery_error + unit" where
  "validate_platform_target platform target_id thread_id mode =
    (if platform = ''feishu'' then
       (if \<not> match_end feishu_target_pattern target_id then Inl Delivery_malformed
        else if (case thread_id of Some (c # cs) \<Rightarrow> \<not> match_end feishu_thread_pattern (c # cs) | _ \<Rightarrow> False)
          then Inl Delivery_malformed
        else validate_mode_for_scheduler mode)
     else if platform = ''webhook'' then
       (if starts_with ''http://'' target_id \<or> starts_with ''https://'' target_id then Inr ()
        else if \<not> match_end webhook_safe_target_pattern target_id then Inl Delivery_malformed
        else validate_mode_for_scheduler mode)
     else (case transport_of platform of
             None \<Rightarrow> Inl Delivery_malformed
           | Some transport \<Rightarrow> (case parse_target transport target_id thread_id mode of
               Inl _ \<Rightarrow> Inl Delivery_malformed | Inr _ \<Rightarrow> Inr ())))"

definition validate_optional_safe_id :: "string option \<Rightarrow> delivery_error + unit" where
  "validate_optional_safe_id v = (case v of None \<Rightarrow> Inr ()
     | Some s \<Rightarrow> if \<not> match_end safe_id_pattern s then Inl Delivery_malformed else Inr ())"

text \<open>\<open>if x: normalized[key] = x\<close>\<close>

definition opt_field :: "string \<Rightarrow> string option \<Rightarrow> jobject" where
  "opt_field key v = (case v of Some (c # cs) \<Rightarrow> [(key, J_str (c # cs))] | _ \<Rightarrow> [])"

definition canonical_delivery ::
  "string \<Rightarrow> string \<Rightarrow> string option \<Rightarrow> string option \<Rightarrow> string option \<Rightarrow> string \<Rightarrow> bool \<Rightarrow> jobject" where
  "canonical_delivery platform target_id thread_id workspace_id account_id mode failure_alert =
     [(''enabled'', J_bool True), (''platform'', J_str platform), (''target_id'', J_str target_id)]
     @ opt_field ''thread_id'' thread_id
     @ opt_field ''workspace_id'' workspace_id
     @ opt_field ''account_id'' account_id
     @ [(''mode'', J_str mode), (''failure_alert'', J_bool failure_alert)]"

definition no_delivery :: jobject where
  "no_delivery = [(''enabled'', J_bool False), (''mode'', J_str ''none'')]"

definition get_default :: "jobject \<Rightarrow> string \<Rightarrow> jval \<Rightarrow> jval" where
  "get_default raw key dflt = (case dget raw key of None \<Rightarrow> dflt | Some v \<Rightarrow> v)"

definition TARGET_ALIASES :: "string list" where
  "TARGET_ALIASES = [''target_id'', ''channel_id'', ''chat_id'', ''room_id'', ''callback_url'', ''url'']"

definition THREAD_ALIASES :: "string list" where
  "THREAD_ALIASES = [''thread_id'', ''thread_ts'', ''message_thread_id'', ''topic_id'']"

text \<open>The sequence of fallible steps; the first error is the result.\<close>

definition rbind :: "'e + 'a \<Rightarrow> ('a \<Rightarrow> 'e + 'b) \<Rightarrow> 'e + 'b" where
  "rbind r f = (case r of Inl e \<Rightarrow> Inl e | Inr a \<Rightarrow> f a)"

definition normalize_schedule_delivery :: "delivery_arg \<Rightarrow> delivery_error + jobject option" where
  "normalize_schedule_delivery v = (case v of
       D_none \<Rightarrow> Inr None
     | D_other \<Rightarrow> Inl Delivery_malformed
     | D_dict raw \<Rightarrow>
         if is_explicit_no_delivery raw then Inr (Some no_delivery)
         else rbind (resolve_platform raw) (\<lambda>platform.
              rbind (resolve_alias raw TARGET_ALIASES) (\<lambda>target_id.
              rbind (resolve_alias raw THREAD_ALIASES) (\<lambda>thread_id.
              rbind (resolve_alias raw [''workspace_id'', ''team_id'']) (\<lambda>workspace_id.
              rbind (resolve_alias raw [''account_id'']) (\<lambda>account_id.
              rbind (normalize_mode (get_default raw ''mode'' (J_str ''reply''))) (\<lambda>mode.
              rbind (normalize_bool (get_default raw ''failure_alert'' (J_bool True))) (\<lambda>failure_alert.
              case target_id of
                None \<Rightarrow> Inl Delivery_malformed
              | Some target_id \<Rightarrow>
                  rbind (validate_platform_target platform target_id thread_id mode) (\<lambda>_.
                  rbind (validate_optional_safe_id workspace_id) (\<lambda>_.
                  rbind (validate_optional_safe_id account_id) (\<lambda>_.
                  Inr (Some (canonical_delivery platform target_id thread_id workspace_id
                               account_id mode failure_alert)))))))))))))"

subsection \<open>What the steps return\<close>

lemma rbind_Inr [simp]: "rbind (Inr a) f = f a"
  by (simp add: rbind_def)

lemma rbind_eq_Inr: "rbind r f = Inr b \<longleftrightarrow> (\<exists>a. r = Inr a \<and> f a = Inr b)"
  by (cases r) (auto simp: rbind_def)

text \<open>A resolved text is stripped and not empty.\<close>

definition clean :: "string \<Rightarrow> bool" where
  "clean s \<longleftrightarrow> s \<noteq> [] \<and> py_strip s = s"

lemma clean_strip: "py_strip s \<noteq> [] \<Longrightarrow> clean (py_strip s)"
  by (simp add: clean_def)

lemma alias_values_clean: "alias_values raw keys = Inr vs \<Longrightarrow> (k, t) \<in> set vs \<Longrightarrow> clean t"
proof (induction keys arbitrary: vs)
  case (Cons key keys)
  show ?case
  proof (cases "alias_values raw keys")
    case (Inl e)
    with Cons.prems show ?thesis
      by (auto simp: Let_def split: option.splits jval.splits if_splits)
  next
    case (Inr us)
    with Cons show ?thesis
      by (auto simp: Let_def clean_strip split: option.splits jval.splits if_splits)
  qed
qed simp

lemma resolve_alias_clean: "resolve_alias raw keys = Inr (Some t) \<Longrightarrow> clean t"
  by (auto simp: resolve_alias_def dest: alias_values_clean split: sum.splits if_splits list.splits)

lemma supported_platforms_lower:
  "p \<in> set SUPPORTED_PLATFORMS \<Longrightarrow> py_lower p = p \<and> clean p"
  by (auto simp: SUPPORTED_PLATFORMS_def py_lower_def lower_char_def is_upper_def clean_def
      py_strip_def is_space_def Let_def)

lemma resolve_platform_canonical:
  assumes "resolve_platform raw = Inr p"
  shows "p \<in> set SUPPORTED_PLATFORMS" and "p \<noteq> ''lark''"
  using assms by (auto simp: resolve_platform_def Let_def SUPPORTED_PLATFORMS_def
      split: sum.splits option.splits if_splits)

lemma normalize_mode_canonical:
  assumes "normalize_mode v = Inr m"
  shows "m \<noteq> []" and "m \<noteq> ''none''" and "py_lower (py_strip m) = m"
proof -
  show "m \<noteq> []" "m \<noteq> ''none''"
    using assms by (auto simp: normalize_mode_def Let_def split: jval.splits if_splits)
  have reply: "py_lower (py_strip ''reply'') = ''reply''"
    by (simp add: py_strip_def py_lower_def is_space_def lower_char_def is_upper_def Let_def)
  show "py_lower (py_strip m) = m"
    using assms reply by (auto simp: normalize_mode_def Let_def py_strip_lower split: jval.splits if_splits)
qed

subsection \<open>The canonical form is a fixed point\<close>

lemma alias_values_none: "\<forall>k \<in> set keys. dget raw k = None \<Longrightarrow> alias_values raw keys = Inr []"
  by (induction keys) auto

lemma resolve_alias_single:
  assumes "\<forall>k \<in> set keys. dget raw k = None"
    and "dget raw key = (case v of None \<Rightarrow> None | Some t \<Rightarrow> Some (J_str t))"
    and "\<And>t. v = Some t \<Longrightarrow> clean t"
  shows "resolve_alias raw (key # keys) = Inr v"
  using assms by (cases v) (auto simp: resolve_alias_def alias_values_none clean_def Let_def)

lemma dget_opt_field: "(\<And>t. v = Some t \<Longrightarrow> clean t) \<Longrightarrow>
  dget (opt_field key v @ rest) k = (if k = key \<and> v \<noteq> None then map_option J_str v else dget rest k)"
  by (cases v) (auto simp: opt_field_def clean_def split: list.splits)

lemma dget_canonical:
  assumes "\<And>t. thread_id = Some t \<Longrightarrow> clean t" and "\<And>t. workspace_id = Some t \<Longrightarrow> clean t"
    and "\<And>t. account_id = Some t \<Longrightarrow> clean t"
  shows "dget (canonical_delivery platform target_id thread_id workspace_id account_id mode alert) k =
    (if k = ''enabled'' then Some (J_bool True)
     else if k = ''platform'' then Some (J_str platform)
     else if k = ''target_id'' then Some (J_str target_id)
     else if k = ''thread_id'' then map_option J_str thread_id
     else if k = ''workspace_id'' then map_option J_str workspace_id
     else if k = ''account_id'' then map_option J_str account_id
     else if k = ''mode'' then Some (J_str mode)
     else if k = ''failure_alert'' then Some (J_bool alert) else None)"
  unfolding canonical_delivery_def
  by (simp add: assms dget_opt_field del: map_of_append)

lemma normalize_canonical:
  fixes alert :: bool
  assumes platform: "platform \<in> set SUPPORTED_PLATFORMS" "platform \<noteq> ''lark''"
    and target: "clean target_id"
    and opts: "\<And>t. thread_id = Some t \<Longrightarrow> clean t" "\<And>t. workspace_id = Some t \<Longrightarrow> clean t"
      "\<And>t. account_id = Some t \<Longrightarrow> clean t"
    and mode: "mode \<noteq> []" "mode \<noteq> ''none''" "py_lower (py_strip mode) = mode"
    and valid: "validate_platform_target platform target_id thread_id mode = Inr ()"
      "validate_optional_safe_id workspace_id = Inr ()" "validate_optional_safe_id account_id = Inr ()"
  defines "d \<equiv> canonical_delivery platform target_id thread_id workspace_id account_id mode alert"
  shows "normalize_schedule_delivery (D_dict d) = Inr (Some d)"
proof -
  note look = dget_canonical [of thread_id workspace_id account_id, OF opts, folded d_def]
  have "\<not> is_explicit_no_delivery d"
    by (simp add: is_explicit_no_delivery_def d_def look mode)
  moreover have "resolve_alias d [''platform'', ''transport''] = Inr (Some platform)"
    by (rule resolve_alias_single) (simp_all add: d_def look supported_platforms_lower [OF platform(1)])
  then have "resolve_platform d = Inr platform"
    using platform by (simp add: resolve_platform_def supported_platforms_lower)
  moreover have "resolve_alias d TARGET_ALIASES = Inr (Some target_id)"
    unfolding TARGET_ALIASES_def by (rule resolve_alias_single) (simp_all add: d_def look target)
  moreover have "resolve_alias d THREAD_ALIASES = Inr thread_id"
    unfolding THREAD_ALIASES_def
    by (rule resolve_alias_single) (simp_all add: d_def look opts split: option.split)
  moreover have "resolve_alias d [''workspace_id'', ''team_id''] = Inr workspace_id"
    by (rule resolve_alias_single) (simp_all add: d_def look opts split: option.split)
  moreover have "resolve_alias d [''account_id''] = Inr account_id"
    by (rule resolve_alias_single) (simp_all add: d_def look opts split: option.split)
  moreover have "normalize_mode (get_default d ''mode'' (J_str ''reply'')) = Inr mode"
    by (simp add: get_default_def d_def look normalize_mode_def mode)
  moreover have "normalize_bool (get_default d ''failure_alert'' (J_bool True)) = Inr alert"
    by (simp add: get_default_def d_def look normalize_bool_def)
  ultimately show ?thesis
    by (simp add: normalize_schedule_delivery_def valid) (simp add: d_def)
qed

lemma normalize_no_delivery: "normalize_schedule_delivery (D_dict no_delivery) = Inr (Some no_delivery)"
  by (simp add: normalize_schedule_delivery_def is_explicit_no_delivery_def no_delivery_def)

lemma normalize_cases:
  assumes "normalize_schedule_delivery v = Inr (Some d)"
  obtains "d = no_delivery"
  | platform target_id thread_id workspace_id account_id mode alert where
      "platform \<in> set SUPPORTED_PLATFORMS" "platform \<noteq> ''lark''" "clean target_id"
      "\<And>t. thread_id = Some t \<Longrightarrow> clean t" "\<And>t. workspace_id = Some t \<Longrightarrow> clean t"
      "\<And>t. account_id = Some t \<Longrightarrow> clean t"
      "mode \<noteq> []" "mode \<noteq> ''none''" "py_lower (py_strip mode) = mode"
      "validate_platform_target platform target_id thread_id mode = Inr ()"
      "validate_optional_safe_id workspace_id = Inr ()" "validate_optional_safe_id account_id = Inr ()"
      "d = canonical_delivery platform target_id thread_id workspace_id account_id mode alert"
proof (cases v)
  case (D_dict raw)
  show ?thesis
  proof (cases "is_explicit_no_delivery raw")
    case True
    with assms D_dict that(1) show ?thesis by (simp add: normalize_schedule_delivery_def)
  next
    case False
    with assms D_dict obtain platform target_id thread_id workspace_id account_id mode alert where
      p: "resolve_platform raw = Inr platform"
      and t: "resolve_alias raw TARGET_ALIASES = Inr (Some target_id)"
      and th: "resolve_alias raw THREAD_ALIASES = Inr thread_id"
      and ws: "resolve_alias raw [''workspace_id'', ''team_id''] = Inr workspace_id"
      and ac: "resolve_alias raw [''account_id''] = Inr account_id"
      and m: "normalize_mode (get_default raw ''mode'' (J_str ''reply'')) = Inr mode"
      and valid: "validate_platform_target platform target_id thread_id mode = Inr ()"
        "validate_optional_safe_id workspace_id = Inr ()" "validate_optional_safe_id account_id = Inr ()"
      and d: "d = canonical_delivery platform target_id thread_id workspace_id account_id mode alert"
      by (auto simp: normalize_schedule_delivery_def rbind_eq_Inr split: option.splits)
    show ?thesis
      by (rule that(2) [OF resolve_platform_canonical [OF p] resolve_alias_clean [OF t] _ _ _
            normalize_mode_canonical [OF m] valid d])
        (use th ws ac resolve_alias_clean in blast)+
  qed
qed (use assms in \<open>auto simp: normalize_schedule_delivery_def\<close>)

lemma normalize_fixed_point:
  "normalize_schedule_delivery v = Inr (Some d) \<Longrightarrow> normalize_schedule_delivery (D_dict d) = Inr (Some d)"
  by (erule normalize_cases) (simp_all add: normalize_no_delivery normalize_canonical)


text \<open>
  The normal form of a schedule's delivery is a fixed point: whatever spelling of the
  fields a caller used, normalising the stored result again, as every load and every
  validation does, changes nothing.
\<close>

theorem delivery_normal_form:
  assumes "normalize_schedule_delivery v = Inr (Some d)"
  shows "normalize_schedule_delivery (D_dict d) = Inr (Some d)"
  using assms by (rule normalize_fixed_point)

theorem delivery_normal_form_witness:
  "\<exists>d. normalize_schedule_delivery (D_dict [(''platform'', J_str '' Slack ''), (''channel_id'', J_str ''C01234567'')]) = Inr (Some d)
     \<and> normalize_schedule_delivery (D_dict d) = Inr (Some d)"
proof -
  let ?v = "D_dict [(''platform'', J_str '' Slack ''), (''channel_id'', J_str ''C01234567'')]"
  have "case normalize_schedule_delivery ?v of Inr (Some d) \<Rightarrow> True | _ \<Rightarrow> False" by code_simp
  then obtain d where "normalize_schedule_delivery ?v = Inr (Some d)" by (auto split: sum.splits option.splits)
  with delivery_normal_form [OF this] show ?thesis by blast
qed

end
