(* ===== verification/Contracts.thy ===== *)
theory Contracts
  imports Prelude
begin

text \<open>
  The contracts that several components share, as locales: a state machine with an
  invariant, a gate that accepts a key at most once while its entry is live, a keyed store
  that a service reads and writes back. Each is interpreted in the theory of the component
  that provides it.
\<close>

subsection \<open>Runs of an event-driven component\<close>

locale machine =
  fixes step :: "'e \<Rightarrow> 's \<Rightarrow> 's" and inv :: "'s \<Rightarrow> bool"
  assumes step_inv: "inv s \<Longrightarrow> inv (step e s)"
begin

lemma run_inv: "inv s \<Longrightarrow> inv (fold step es s)"
  by (induction es arbitrary: s) (auto intro: step_inv)

text \<open>A property of one step from a good state, for every prefix of a run.\<close>

lemma run_always:
  assumes "inv s" and "\<And>s. inv s \<Longrightarrow> Q s" and "es = pre @ post"
  shows "Q (fold step pre s)"
  using assms run_inv by blast

text \<open>Whatever one step keeps from good states, a run keeps.\<close>

lemma run_stable:
  assumes stable: "\<And>e s. inv s \<Longrightarrow> P s \<Longrightarrow> e \<in> set es \<Longrightarrow> P (step e s)" and "inv s" and "P s"
  shows "P (fold step es s)"
  using assms
proof (induction es arbitrary: s)
  case (Cons e es)
  have "P (step e s)" using Cons.prems by (simp add: Cons.prems(1))
  moreover have "inv (step e s)" using Cons.prems(2) by (rule step_inv)
  ultimately have "P (fold step es (step e s))"
    by (intro Cons.IH) (auto intro: Cons.prems(1))
  then show ?case by simp
qed simp

end

subsection \<open>At most one acceptance per key\<close>

text \<open>
  A claim made at a time answers whether it is accepted; the time and the claim determine
  its key. The run of a list of timed claims gives the answers and the states in which each
  claim was made.
\<close>

fun claim_run :: "(time \<Rightarrow> 'e \<Rightarrow> 's \<Rightarrow> bool \<times> 's) \<Rightarrow> (time \<times> 'e) list \<Rightarrow> 's \<Rightarrow> (bool \<times> 's) list" where
  "claim_run claim [] s = []"
| "claim_run claim ((t, k) # cs) s =
     (let (a, s') = claim t k s in (a, s) # claim_run claim cs s')"

text \<open>How often a key was accepted, and whether all states of the run satisfy a test.\<close>

definition accepted :: "(time \<Rightarrow> 'e \<Rightarrow> 'k) \<Rightarrow> 'k \<Rightarrow> (time \<times> 'e) list \<Rightarrow> (bool \<times> 's) list \<Rightarrow> nat" where
  "accepted key k cs outs = length (filter (\<lambda>((t, e), (a, s)). key t e = k \<and> a) (zip cs outs))"

definition all_states :: "('s \<Rightarrow> bool) \<Rightarrow> (bool \<times> 's) list \<Rightarrow> bool" where
  "all_states room outs \<longleftrightarrow> (\<forall>(a, s) \<in> set outs. room s)"

lemma accepted_Cons:
  "accepted key k ((t, e) # cs) ((a, s) # outs) = (if key t e = k \<and> a then 1 else 0) + accepted key k cs outs"
  by (simp add: accepted_def)

lemma accepted_Nil [simp]: "accepted key k [] outs = 0"
  by (simp add: accepted_def)

lemma length_claim_run [simp]: "length (claim_run claim cs s) = length cs"
  by (induction cs arbitrary: s) (auto simp: split_def Let_def)

text \<open>Counting by a finer key, and leaving out the claims of other keys or that are never accepted.\<close>

lemma accepted_finer:
  "(\<And>t e. key t e = k \<Longrightarrow> key' t e = k') \<Longrightarrow> accepted key k cs outs \<le> accepted key' k' cs outs"
  unfolding accepted_def by (induction cs arbitrary: outs) (auto simp: split_def zip_Cons1 le_SucI split: list.split)

lemma accepted_none:
  "(\<And>t e s. (t, e) \<in> set cs \<Longrightarrow> key t e = k \<Longrightarrow> \<not> fst (claim t e s)) \<Longrightarrow> accepted key k cs (claim_run claim cs s) = 0"
proof (induction cs arbitrary: s)
  case (Cons c cs)
  obtain t e where c: "c = (t, e)" by (cases c)
  have "accepted key k cs (claim_run claim cs (snd (claim t e s))) = 0" using Cons.prems by (intro Cons.IH) auto
  moreover have "\<not> (key t e = k \<and> fst (claim t e s))" using Cons.prems [of t e s] by (auto simp: c)
  ultimately show ?case unfolding c by (cases "claim t e s") (auto simp: accepted_Cons)
qed simp

lemma accepted_append:
  "\<exists>s'. accepted key k (cs @ ds) (claim_run claim (cs @ ds) s) =
      accepted key k cs (claim_run claim cs s) + accepted key k ds (claim_run claim ds s')
    \<and> (all_states room (claim_run claim (cs @ ds) s) \<longrightarrow> all_states room (claim_run claim cs s))"
proof (induction cs arbitrary: s)
  case (Cons c cs)
  obtain t e where c: "c = (t, e)" by (cases c)
  obtain a u where u: "claim t e s = (a, u)" by (cases "claim t e s")
  from Cons.IH [of u] show ?case by (auto simp: c u accepted_Cons all_states_def)
qed (auto simp: all_states_def)

text \<open>
  A key that is live is accepted by nobody, and stays live until its time is over, as long as the
  claims come in the order of their times: \<open>live u t s k\<close> says that, seen at the clock \<open>u\<close>, the key
  \<open>k\<close> is live until \<open>t\<close>.
\<close>

locale clocked_gate =
  fixes claim :: "time \<Rightarrow> 'e \<Rightarrow> 's \<Rightarrow> bool \<times> 's"
    and key :: "time \<Rightarrow> 'e \<Rightarrow> 'k"
    and live :: "time \<Rightarrow> time \<Rightarrow> 's \<Rightarrow> 'k \<Rightarrow> bool"
    and inv :: "'s \<Rightarrow> bool"
    and room :: "'s \<Rightarrow> bool"
  assumes claim_inv: "inv s \<Longrightarrow> inv (snd (claim t e s))"
    and claim_reject: "inv s \<Longrightarrow> room s \<Longrightarrow> live u t s (key t e) \<Longrightarrow> u \<le> t \<Longrightarrow> \<not> fst (claim t e s)"
    and claim_keep: "inv s \<Longrightarrow> room s \<Longrightarrow> live u t' s k \<Longrightarrow> u \<le> t \<Longrightarrow> t \<le> t' \<Longrightarrow>
      live t t' (snd (claim t e s)) k"
begin

lemma none_accepted:
  assumes "inv s" and "all_states room (claim_run claim cs s)"
    and "sorted (map fst cs)" and "\<forall>(t, j) \<in> set cs. u \<le> t \<and> live u t s k"
  shows "accepted key k cs (claim_run claim cs s) = 0"
  using assms
proof (induction cs arbitrary: s u)
  case (Cons c cs)
  obtain t j where c: "c = (t, j)" by (cases c)
  define s' where "s' = snd (claim t j s)"
  have run: "claim_run claim (c # cs) s = (fst (claim t j s), s) # claim_run claim cs s'"
    by (simp add: c s'_def split_def Let_def)
  have room: "room s" "all_states room (claim_run claim cs s')"
    using Cons.prems(2) unfolding run by (auto simp: all_states_def)
  have "t \<le> t' \<and> live t t' s' k" if "(t', j') \<in> set cs" for t' j'
  proof -
    have "t \<le> t'" and "live u t' s k" and "u \<le> t" using Cons.prems(3,4) that by (auto simp: c)
    then show ?thesis unfolding s'_def using Cons.prems(1) room(1) by (auto intro: claim_keep)
  qed
  then have "\<forall>(t', j') \<in> set cs. t \<le> t' \<and> live t t' s' k" by auto
  moreover have "inv s'" using Cons.prems(1) by (simp add: s'_def claim_inv)
  ultimately have "accepted key k cs (claim_run claim cs s') = 0"
    using Cons.IH room(2) Cons.prems(3) by simp
  moreover have "key t j = k \<Longrightarrow> \<not> fst (claim t j s)" using Cons.prems(1,4) room(1) using claim_reject [of s u t j] by (auto simp: c)
  ultimately show ?case unfolding run by (simp add: c accepted_Cons)
qed simp

end

text \<open>An acceptance makes its key live for a time to live.\<close>

locale clocked_once = clocked_gate +
  fixes ttl :: time
  assumes claim_live: "inv s \<Longrightarrow> room s \<Longrightarrow> fst (claim t e s) \<Longrightarrow> t \<le> t' \<Longrightarrow> t' < t + ttl \<Longrightarrow>
      live t t' (snd (claim t e s)) (key t e)"
begin

lemma once_in_window:
  assumes "inv s" and "all_states room (claim_run claim cs s)"
    and "sorted (map fst cs)" and "\<forall>(t, j) \<in> set cs. a \<le> t \<and> t < a + ttl"
  shows "accepted key k cs (claim_run claim cs s) \<le> 1"
  using assms
proof (induction cs arbitrary: s)
  case (Cons c cs)
  obtain t j where c: "c = (t, j)" by (cases c)
  define s' where "s' = snd (claim t j s)"
  have run: "claim_run claim (c # cs) s = (fst (claim t j s), s) # claim_run claim cs s'"
    by (simp add: c s'_def split_def Let_def)
  have room: "room s" "all_states room (claim_run claim cs s')"
    using Cons.prems(2) unfolding run by (auto simp: all_states_def)
  have inv: "inv s'" using Cons.prems(1) by (simp add: s'_def claim_inv)
  show ?case
  proof (cases "key t j = k \<and> fst (claim t j s)")
    case True
    have "\<forall>(t', j') \<in> set cs. t \<le> t' \<and> live t t' s' k"
      using Cons.prems(1,3,4) room(1) True by (fastforce simp: s'_def c intro: claim_live)
    then have "accepted key k cs (claim_run claim cs s') = 0"
      using inv room(2) Cons.prems(3) by (intro none_accepted) auto
    then show ?thesis unfolding run by (simp add: c accepted_Cons)
  next
    case False
    have "accepted key k cs (claim_run claim cs s') \<le> 1"
      using inv room(2) Cons.prems(3,4) by (intro Cons.IH) auto
    then show ?thesis unfolding run using False by (cases "key t j = k") (auto simp: c accepted_Cons)
  qed
qed simp

end

text \<open>The common case, where being live does not depend on the clock.\<close>

locale sealed_gate =
  fixes claim :: "time \<Rightarrow> 'e \<Rightarrow> 's \<Rightarrow> bool \<times> 's"
    and key :: "time \<Rightarrow> 'e \<Rightarrow> 'k"
    and live :: "time \<Rightarrow> 's \<Rightarrow> 'k \<Rightarrow> bool"
    and inv :: "'s \<Rightarrow> bool"
    and room :: "'s \<Rightarrow> bool"
  assumes claim_inv: "inv s \<Longrightarrow> inv (snd (claim t e s))"
    and claim_reject: "inv s \<Longrightarrow> room s \<Longrightarrow> live t s (key t e) \<Longrightarrow> \<not> fst (claim t e s)"
    and claim_keep: "inv s \<Longrightarrow> room s \<Longrightarrow> live t' s k \<Longrightarrow> t \<le> t' \<Longrightarrow>
      live t' (snd (claim t e s)) k"

sublocale sealed_gate \<subseteq> clocked: clocked_gate claim key "\<lambda>_. live" inv room
  by unfold_locales (blast intro: claim_inv claim_keep dest: claim_reject)+

context sealed_gate
begin

lemma live_none_accepted:
  assumes "inv s" and "all_states room (claim_run claim cs s)"
    and "sorted (map fst cs)" and "\<forall>(t, j) \<in> set cs. live t s k"
  shows "accepted key k cs (claim_run claim cs s) = 0"
proof (cases cs)
  case (Cons c ds)
  then have "\<forall>(t, j) \<in> set cs. fst c \<le> t \<and> live t s k" using assms(3,4) by fastforce
  then show ?thesis using assms(1-3) by (intro clocked.none_accepted)
qed simp

end

locale once_gate = sealed_gate +
  fixes ttl :: time
  assumes claim_live: "inv s \<Longrightarrow> room s \<Longrightarrow> fst (claim t e s) \<Longrightarrow> t \<le> t' \<Longrightarrow> t' < t + ttl \<Longrightarrow>
      live t' (snd (claim t e s)) (key t e)"

sublocale once_gate \<subseteq> windowed: clocked_once claim key "\<lambda>_. live" inv room ttl
  by unfold_locales (rule claim_live)

context once_gate
begin

lemmas at_most_once = windowed.once_in_window

text \<open>A client that asks the gate only for the claims that pass its own test is such a gate too.\<close>

lemma guarded:
  "once_gate (\<lambda>t e s. if pre t e then claim t (f e) s else (False, s)) (\<lambda>t e. key t (f e)) live inv room ttl"
  by unfold_locales (auto intro: claim_inv claim_keep claim_live dest: claim_reject)

end

subsection \<open>A store that a service reads and writes back\<close>

locale keyed_store =
  fixes get :: "'s \<Rightarrow> 'k \<Rightarrow> 'v option" and upd :: "'k \<Rightarrow> 'v \<Rightarrow> 's \<Rightarrow> 's" and inv :: "'s \<Rightarrow> bool"
    and fits :: "'k \<Rightarrow> 'v \<Rightarrow> bool"
  assumes get_upd: "inv s \<Longrightarrow> get s k \<noteq> None \<Longrightarrow> fits k v \<Longrightarrow>
      get (upd k v s) k' = (if k' = k then Some v else get s k')"
    and inv_upd: "inv s \<Longrightarrow> get s k \<noteq> None \<Longrightarrow> fits k v \<Longrightarrow> inv (upd k v s)"
    and get_fits: "inv s \<Longrightarrow> get s k = Some v \<Longrightarrow> fits k v"
begin

lemma get_upd_same: "inv s \<Longrightarrow> get s k = Some v \<Longrightarrow> fits k w \<Longrightarrow> get (upd k w s) k = Some w"
  by (simp add: get_upd)

lemma get_upd_other: "inv s \<Longrightarrow> get s k = Some v \<Longrightarrow> fits k w \<Longrightarrow> k' \<noteq> k \<Longrightarrow> get (upd k w s) k' = get s k'"
  by (simp add: get_upd)

lemma dom_upd: "inv s \<Longrightarrow> get s k = Some v \<Longrightarrow> fits k w \<Longrightarrow> dom (get (upd k w s)) = dom (get s)"
  by (auto simp: get_upd split: if_splits)

text \<open>
  Read-modify-write relates every value before and after by any reflexive relation the
  modification stays in.
\<close>

lemma upd_related:
  assumes "inv s" and "get s k = Some v" and "fits k (f v)" and "R v (f v)" and "\<And>x. R x x"
    and "get s k' = Some w"
  shows "\<exists>w'. get (upd k (f v) s) k' = Some w' \<and> R w w'"
  using assms by (cases "k' = k") (auto simp: get_upd)

end

subsection \<open>Granting against a budget\<close>

text \<open>
  A component that answers events with a grant or a refusal, and a potential that pays for
  every grant to a charged event: how many are granted in all.
\<close>

fun granted :: "('e \<Rightarrow> 's \<Rightarrow> bool \<times> 's) \<Rightarrow> ('e \<Rightarrow> bool) \<Rightarrow> 'e list \<Rightarrow> 's \<Rightarrow> nat" where
  "granted step charged [] s = 0"
| "granted step charged (e # es) s = (let (a, s') = step e s in
     (if a \<and> charged e then 1 else 0) + granted step charged es s')"

locale metered =
  fixes step :: "'e \<Rightarrow> 's \<Rightarrow> bool \<times> 's" and charged :: "'e \<Rightarrow> bool" and pot :: "'s \<Rightarrow> real"
    and ready :: "'e list \<Rightarrow> 's \<Rightarrow> bool"
  assumes pot_nonneg: "ready es s \<Longrightarrow> 0 \<le> pot s"
    and step_ready: "ready (e # es) s \<Longrightarrow> ready es (snd (step e s))"
    and step_pot: "ready (e # es) s \<Longrightarrow>
      (if fst (step e s) \<and> charged e then 1 else 0) + pot (snd (step e s)) \<le> pot s"
begin

lemma granted_le: "ready es s \<Longrightarrow> real (granted step charged es s) \<le> pot s"
proof (induction es arbitrary: s)
  case Nil
  then show ?case by (simp add: pot_nonneg)
next
  case (Cons e es)
  have "real (granted step charged es (snd (step e s))) \<le> pot (snd (step e s))"
    using Cons.prems by (intro Cons.IH step_ready)
  then show ?case using step_pot [OF Cons.prems] by (auto simp: split_def Let_def)
qed

end

end
