(* ===== verification/Delivery_Outbox.thy ===== *)
theory Delivery_Outbox
  imports Contracts Delivery_Contract Tenant
begin

text \<open>
  \<open>services/scheduler/delivery_outbox.py\<close>: the durable outbox of schedule deliveries.
  The store is the dict of intents, what the file holds, and whether it was loaded. Every
  operation takes the clock's value and, where it may write the file, whether the write
  succeeds (\<open>io\<close>); a failed write is an exception after the memory was changed.
  \<open>H\<close> is the hexadecimal SHA-256 digest.
\<close>

datatype dstate = Pending | Claimed | Sent | Job_failed | Timed_out | Undeliverable | Expired

definition dstate_value :: "dstate \<Rightarrow> string" where
  "dstate_value s = (case s of Pending \<Rightarrow> ''pending'' | Claimed \<Rightarrow> ''claimed'' | Sent \<Rightarrow> ''sent''
     | Job_failed \<Rightarrow> ''job_failed'' | Timed_out \<Rightarrow> ''timed_out'' | Undeliverable \<Rightarrow> ''undeliverable''
     | Expired \<Rightarrow> ''expired'')"

definition ACK_OUTCOMES :: "dstate list" where
  "ACK_OUTCOMES = [Sent, Job_failed, Timed_out, Undeliverable]"

definition TERMINAL_STATES :: "dstate list" where
  "TERMINAL_STATES = ACK_OUTCOMES @ [Expired]"

abbreviation terminal :: "dstate \<Rightarrow> bool" where
  "terminal s \<equiv> s \<in> set TERMINAL_STATES"

definition ACK_REASONS :: "dstate \<Rightarrow> string list" where
  "ACK_REASONS s = (case s of Job_failed \<Rightarrow> [''job_error''] | Timed_out \<Rightarrow> [''result_timeout'']
     | Undeliverable \<Rightarrow> [''target_not_allowed'', ''platform_unavailable'', ''connector_error'']
     | _ \<Rightarrow> [])"

definition CONNECTOR_PLATFORMS :: "string list" where
  "CONNECTOR_PLATFORMS = [''discord'', ''feishu'', ''slack'', ''telegram'']"

definition PENDING_TTL_SEC :: time where "PENDING_TTL_SEC = 24 * 3600"
definition TERMINAL_RETENTION_SEC :: time where "TERMINAL_RETENTION_SEC = 7 * 24 * 3600"
definition MAX_RECORDS :: nat where "MAX_RECORDS = 2000"
definition MIN_LEASE_SEC :: int where "MIN_LEASE_SEC = 60"
definition MAX_LEASE_SEC :: int where "MAX_LEASE_SEC = 7200"
definition MAX_CLAIM_BATCH :: int where "MAX_CLAIM_BATCH = 10"

definition DELIVERY_FIELDS :: "string list" where
  "DELIVERY_FIELDS = [''platform'', ''target_id'', ''thread_id'', ''workspace_id'', ''account_id'',
     ''mode'', ''failure_alert'']"

datatype outbox_error = Invalid_outcome | Invalid_reason | Lease_token_required | Not_found
  | Lease_mismatch | Already_finalized | Save_failed

record delivery_intent =
  di_delivery_id :: string
  di_run_id :: string
  di_schedule_id :: string
  di_prompt_id :: string
  di_tenant_id :: string
  di_delivery :: jobject
  di_state :: dstate
  di_created_at :: time
  di_updated_at :: time
  di_reason :: "string option"
  di_attempts :: int
  di_lease_expires_at :: "time option"
  di_lease_token_hash :: "string option"

type_synonym intents = "(string, delivery_intent) dict"

text \<open>
  The file: absent, not JSON, or its rows; a row that does not decode is \<open>None\<close>.
\<close>

datatype outbox_file = File_missing | File_corrupt | File_rows "delivery_intent option list"

record outbox =
  ob_intents :: intents
  ob_file :: outbox_file
  ob_loaded :: bool

definition delivery_id_for :: "(string \<Rightarrow> string) \<Rightarrow> string \<Rightarrow> string" where
  "delivery_id_for H idempotency_key = ''dlv_'' @ take 24 (H idempotency_key)"

definition delivery_target :: "jobject \<Rightarrow> jobject" where
  "delivery_target d = concat (map (\<lambda>key. case dget d key of None \<Rightarrow> [] | Some v \<Rightarrow> [(key, v)]) DELIVERY_FIELDS)"

definition platform_of :: "delivery_intent \<Rightarrow> jval option" where
  "platform_of i = dget (di_delivery i) ''platform''"

definition platform_in :: "delivery_intent \<Rightarrow> string list \<Rightarrow> bool" where
  "platform_in i ps \<longleftrightarrow> (\<exists>p \<in> set ps. platform_of i = Some (J_str p))"

text \<open>The first row that does not decode ends the loading; the rows before it stay.\<close>

fun load_rows :: "delivery_intent option list \<Rightarrow> intents \<Rightarrow> intents" where
  "load_rows [] d = d"
| "load_rows (None # rows) d = d"
| "load_rows (Some i # rows) d = load_rows rows (dput (di_delivery_id i) i d)"

definition ensure_loaded :: "outbox \<Rightarrow> outbox" where
  "ensure_loaded s = (if ob_loaded s then s
     else s\<lparr>ob_loaded := True,
            ob_intents := (case ob_file s of File_rows rows \<Rightarrow> load_rows rows (ob_intents s)
                           | _ \<Rightarrow> ob_intents s)\<rparr>)"

definition save_outbox :: "bool \<Rightarrow> outbox \<Rightarrow> bool \<times> outbox" where
  "save_outbox io s = (if io then (True, s\<lparr>ob_file := File_rows (map Some (dvals (ob_intents s)))\<rparr>)
     else (False, s))"

definition expire_intent :: "string \<Rightarrow> time \<Rightarrow> delivery_intent \<Rightarrow> delivery_intent" where
  "expire_intent reason now i = i\<lparr>di_state := Expired, di_reason := Some reason, di_updated_at := now\<rparr>"

definition age_step :: "time \<Rightarrow> delivery_intent \<Rightarrow> bool \<times> intents \<Rightarrow> bool \<times> intents" where
  "age_step now i acc = (let (changed, d) = acc in
     if di_state i = Pending \<and> now - di_created_at i > PENDING_TTL_SEC
       then (True, dput (di_delivery_id i) (expire_intent ''not_claimed'' now i) d)
     else if terminal (di_state i) \<and> now - di_updated_at i > TERMINAL_RETENTION_SEC
       then (True, ddel (di_delivery_id i) d)
     else (changed, d))"

definition evict_step :: "time \<Rightarrow> delivery_intent \<Rightarrow> intents \<Rightarrow> intents" where
  "evict_step now i d = (if terminal (di_state i) then ddel (di_delivery_id i) d
     else dput (di_delivery_id i) (expire_intent ''capacity'' now i) d)"

definition terminal_first :: "intents \<Rightarrow> delivery_intent list" where
  "terminal_first d = (let by_age = sort_key di_updated_at (dvals d) in
     filter (\<lambda>i. terminal (di_state i)) by_age @ filter (\<lambda>i. \<not> terminal (di_state i)) by_age)"

definition maintain :: "time \<Rightarrow> intents \<Rightarrow> bool \<times> intents" where
  "maintain now d = (let (changed, d1) = fold (age_step now) (dvals d) (False, d);
       overflow = length d1 - MAX_RECORDS
     in if overflow > 0 then (True, fold (evict_step now) (take overflow (terminal_first d1)) d1)
        else (changed, d1))"

subsection \<open>The operations\<close>

text \<open>The intent a first recording stores: already terminal when no adapter serves its platform.\<close>

definition new_intent :: "time \<Rightarrow> string \<Rightarrow> string \<Rightarrow> string \<Rightarrow> string \<Rightarrow> jobject \<Rightarrow> string \<Rightarrow> delivery_intent" where
  "new_intent now delivery_id run_id schedule_id prompt_id delivery tenant_id =
    (let target = delivery_target delivery;
         adapter_missing = (\<forall>p \<in> set CONNECTOR_PLATFORMS. dget target ''platform'' \<noteq> Some (J_str p))
     in \<lparr>di_delivery_id = delivery_id, di_run_id = run_id, di_schedule_id = schedule_id,
          di_prompt_id = prompt_id, di_tenant_id = tenant_id, di_delivery = target,
          di_state = (if adapter_missing then Undeliverable else Pending),
          di_created_at = now, di_updated_at = now,
          di_reason = (if adapter_missing then Some ''no_connector_adapter'' else None),
          di_attempts = 0, di_lease_expires_at = None, di_lease_token_hash = None\<rparr>)"

lemma new_intent_simps [simp]:
  "di_delivery_id (new_intent now did run sched prompt delivery tenant) = did"
  "di_created_at (new_intent now did run sched prompt delivery tenant) = now"
  "di_updated_at (new_intent now did run sched prompt delivery tenant) = now"
  "di_tenant_id (new_intent now did run sched prompt delivery tenant) = tenant"
  by (simp_all add: new_intent_def Let_def)

lemma new_intent_state:
  "di_state (new_intent now did run sched prompt delivery tenant) \<in> {Pending, Undeliverable}"
  by (simp add: new_intent_def Let_def)

definition record_intent ::
  "(string \<Rightarrow> string) \<Rightarrow> bool \<Rightarrow> time \<Rightarrow> string \<Rightarrow> string \<Rightarrow> string \<Rightarrow> string \<Rightarrow> jobject \<Rightarrow> string \<Rightarrow> outbox \<Rightarrow>
   (outbox_error + delivery_intent) \<times> outbox" where
  "record_intent H io now idempotency_key run_id schedule_id prompt_id delivery tenant_id s =
    (let delivery_id = delivery_id_for H idempotency_key; s = ensure_loaded s in
     case dget (ob_intents s) delivery_id of
       Some existing \<Rightarrow> (Inr existing, s)
     | None \<Rightarrow>
         let intent = new_intent now delivery_id run_id schedule_id prompt_id delivery tenant_id;
             (saved, s') = save_outbox io (s\<lparr>ob_intents := snd (maintain now (dput delivery_id intent (ob_intents s)))\<rparr>)
         in (if saved then Inr intent else Inl Save_failed, s'))"

definition list_intents ::
  "bool \<Rightarrow> time \<Rightarrow> string \<Rightarrow> dstate option \<Rightarrow> string option \<Rightarrow> int \<Rightarrow> outbox \<Rightarrow>
   (outbox_error + delivery_intent list) \<times> outbox" where
  "list_intents io now tenant_id state platform limit s =
    (let s = ensure_loaded s;
         (changed, d) = maintain now (ob_intents s);
         (saved, s') = (if changed then save_outbox io (s\<lparr>ob_intents := d\<rparr>) else (True, s\<lparr>ob_intents := d\<rparr>));
         matches = filter (\<lambda>i. di_tenant_id i = tenant_id
           \<and> (state = None \<or> Some (di_state i) = state)
           \<and> (case platform of None \<Rightarrow> True | Some p \<Rightarrow> platform_of i = Some (J_str p))) (dvals d)
     in (if saved then Inr (take (nat limit) (sort_key (\<lambda>i. - di_created_at i) matches)) else Inl Save_failed, s'))"

definition summaries_for_keys ::
  "(string \<Rightarrow> string) \<Rightarrow> string list \<Rightarrow> string \<Rightarrow> outbox \<Rightarrow>
   (string, string \<times> dstate \<times> string option) dict \<times> outbox" where
  "summaries_for_keys H keys tenant_id s =
    (let s = ensure_loaded s in
     (fold (\<lambda>key result. case dget (ob_intents s) (delivery_id_for H key) of
          Some i \<Rightarrow> if di_tenant_id i = tenant_id
            then dput key (di_delivery_id i, di_state i, di_reason i) result else result
        | None \<Rightarrow> result) keys [], s))"

definition claimable :: "time \<Rightarrow> delivery_intent \<Rightarrow> bool" where
  "claimable now i \<longleftrightarrow> di_state i = Pending
     \<or> (di_state i = Claimed \<and> (case di_lease_expires_at i of None \<Rightarrow> 0 | Some e \<Rightarrow> e) \<le> now)"

definition lease_intent :: "(string \<Rightarrow> string) \<Rightarrow> time \<Rightarrow> int \<Rightarrow> string \<Rightarrow> delivery_intent \<Rightarrow> delivery_intent" where
  "lease_intent H now lease token i = i\<lparr>di_state := Claimed, di_attempts := di_attempts i + 1,
     di_lease_expires_at := Some (now + of_int lease), di_lease_token_hash := Some (H token),
     di_updated_at := now\<rparr>"

definition claim_candidates :: "time \<Rightarrow> string \<Rightarrow> string list \<Rightarrow> intents \<Rightarrow> delivery_intent list" where
  "claim_candidates now tenant_id platforms d =
     (let wanted = filter (\<lambda>p. p \<in> set CONNECTOR_PLATFORMS) platforms in
      sort_key di_created_at
        (filter (\<lambda>i. di_tenant_id i = tenant_id \<and> platform_in i wanted \<and> claimable now i) (dvals d)))"

text \<open>\<open>tok n\<close> is the random token drawn for the \<open>n\<close>-th leased intent of this call.\<close>

definition claim_intents ::
  "(string \<Rightarrow> string) \<Rightarrow> bool \<Rightarrow> time \<Rightarrow> (nat \<Rightarrow> string) \<Rightarrow> string \<Rightarrow> string list \<Rightarrow> int \<Rightarrow> int \<Rightarrow> outbox \<Rightarrow>
   (outbox_error + (delivery_intent \<times> string) list) \<times> outbox" where
  "claim_intents H io now tok tenant_id platforms limit lease_sec s =
    (let batch = max 1 (min limit MAX_CLAIM_BATCH);
         lease = max MIN_LEASE_SEC (min lease_sec MAX_LEASE_SEC);
         s = ensure_loaded s;
         (changed, d) = maintain now (ob_intents s);
         claimed = map (\<lambda>(n, i). (lease_intent H now lease (tok n) i, tok n))
           (enumerate 0 (take (nat batch) (claim_candidates now tenant_id platforms d)));
         d' = fold (\<lambda>(i, _). dput (di_delivery_id i) i) claimed d;
         (saved, s') = (if claimed \<noteq> [] \<or> changed then save_outbox io (s\<lparr>ob_intents := d'\<rparr>)
                        else (True, s\<lparr>ob_intents := d'\<rparr>))
     in (if saved then Inr claimed else Inl Save_failed, s'))"

definition ack_outcome :: "string \<Rightarrow> dstate option" where
  "ack_outcome outcome = find (\<lambda>s. dstate_value s = outcome) ACK_OUTCOMES"

text \<open>The reason after the default of an outcome with a single one.\<close>

definition ack_reason :: "dstate \<Rightarrow> string option \<Rightarrow> string option" where
  "ack_reason outcome reason = (case (reason, ACK_REASONS outcome) of
       (None, [r]) \<Rightarrow> Some r
     | _ \<Rightarrow> reason)"

definition reason_ok :: "dstate \<Rightarrow> string option \<Rightarrow> bool" where
  "reason_ok outcome reason \<longleftrightarrow> (case reason of None \<Rightarrow> ACK_REASONS outcome = []
     | Some r \<Rightarrow> r \<in> set (ACK_REASONS outcome))"

definition ack_intent ::
  "(string \<Rightarrow> string) \<Rightarrow> bool \<Rightarrow> time \<Rightarrow> string \<Rightarrow> string \<Rightarrow> string \<Rightarrow> string \<Rightarrow> string option \<Rightarrow> outbox \<Rightarrow>
   (outbox_error + delivery_intent \<times> bool) \<times> outbox" where
  "ack_intent H io now tenant_id delivery_id lease_token outcome reason s =
    (case ack_outcome outcome of
       None \<Rightarrow> (Inl Invalid_outcome, s)
     | Some outcome \<Rightarrow>
        let reason = ack_reason outcome reason in
        if \<not> reason_ok outcome reason then (Inl Invalid_reason, s)
        else if lease_token = [] then (Inl Lease_token_required, s)
        else
          let token_hash = H lease_token; s = ensure_loaded s in
          (case dget (ob_intents s) delivery_id of
             None \<Rightarrow> (Inl Not_found, s)
           | Some i \<Rightarrow>
              if di_tenant_id i \<noteq> tenant_id then (Inl Not_found, s)
              else if di_lease_token_hash i \<noteq> Some token_hash then (Inl Lease_mismatch, s)
              else if terminal (di_state i) then
                (if di_state i = outcome \<and> di_reason i = reason then (Inr (i, True), s)
                 else (Inl Already_finalized, s))
              else if di_state i \<noteq> Claimed then (Inl Lease_mismatch, s)
              else
                let final = i\<lparr>di_state := outcome, di_reason := reason, di_updated_at := now\<rparr>;
                    (saved, s') = save_outbox io (s\<lparr>ob_intents := dput delivery_id final (ob_intents s)\<rparr>)
                in (if saved then Inr (final, False) else Inl Save_failed, s')))"

subsection \<open>Progress order of the states\<close>

text \<open>
  Pending before claimed before the terminal states: the order in which an intent moves.
\<close>

fun dstate_rank :: "dstate \<Rightarrow> nat" where
  "dstate_rank Pending = 0"
| "dstate_rank Claimed = 1"
| "dstate_rank Sent = 2"
| "dstate_rank Job_failed = 3"
| "dstate_rank Timed_out = 4"
| "dstate_rank Undeliverable = 5"
| "dstate_rank Expired = 6"

lemma dstate_rank_inj: "dstate_rank a = dstate_rank b \<Longrightarrow> a = b"
  by (cases a; cases b) simp_all

instantiation dstate :: linorder
begin

definition less_eq_dstate :: "dstate \<Rightarrow> dstate \<Rightarrow> bool" where
  "less_eq_dstate a b \<longleftrightarrow> dstate_rank a \<le> dstate_rank b"

definition less_dstate :: "dstate \<Rightarrow> dstate \<Rightarrow> bool" where
  "less_dstate a b \<longleftrightarrow> dstate_rank a < dstate_rank b"

instance
  by standard (auto simp: less_eq_dstate_def less_dstate_def dest: dstate_rank_inj)

end

lemma terminal_iff: "terminal s \<longleftrightarrow> Sent \<le> s"
  by (cases s) (simp_all add: TERMINAL_STATES_def ACK_OUTCOMES_def less_eq_dstate_def)

lemma not_terminal_le: "\<not> terminal s \<Longrightarrow> s \<le> Claimed"
  by (cases s) (simp_all add: TERMINAL_STATES_def ACK_OUTCOMES_def less_eq_dstate_def)

lemma terminal_simps [simp]: "\<not> terminal Pending" "\<not> terminal Claimed" "terminal Expired"
  "terminal Undeliverable"
  by (simp_all add: TERMINAL_STATES_def ACK_OUTCOMES_def)

subsection \<open>The life of one intent\<close>

text \<open>
  The abstract machine: what may happen to the entry under one id at a time \<open>now\<close>
  (\<open>None\<close>: no entry). The operations refine it.
\<close>

inductive intent_step :: "(string \<Rightarrow> string) \<Rightarrow> time \<Rightarrow> delivery_intent option \<Rightarrow> delivery_intent option \<Rightarrow> bool"
  for H now where
  expire: "\<not> terminal (di_state i) \<Longrightarrow> intent_step H now (Some i) (Some (expire_intent reason now i))"
| prune: "terminal (di_state i) \<Longrightarrow> intent_step H now (Some i) None"
| lease: "claimable now i \<Longrightarrow> MIN_LEASE_SEC \<le> lease \<Longrightarrow> lease \<le> MAX_LEASE_SEC \<Longrightarrow>
    intent_step H now (Some i) (Some (lease_intent H now lease token i))"
| finish: "di_state i = Claimed \<Longrightarrow> di_lease_token_hash i = Some (H token) \<Longrightarrow> outcome \<in> set ACK_OUTCOMES \<Longrightarrow>
    intent_step H now (Some i) (Some (i\<lparr>di_state := outcome, di_reason := reason, di_updated_at := now\<rparr>))"

inductive_cases intent_step_NoneE: "intent_step H now None o'"
inductive_cases intent_step_SomeE: "intent_step H now (Some i) o'"

abbreviation intent_steps :: "(string \<Rightarrow> string) \<Rightarrow> time \<Rightarrow> delivery_intent option \<Rightarrow> delivery_intent option \<Rightarrow> bool" where
  "intent_steps H now \<equiv> (intent_step H now)\<^sup>*\<^sup>*"

lemma intent_steps_None: "intent_steps H now None o' \<Longrightarrow> o' = None"
  by (induction rule: rtranclp_induct) (auto elim: intent_step_NoneE)

lemma intent_step_state:
  "intent_step H now (Some i) (Some j) \<Longrightarrow> di_state i \<le> di_state j"
  by (erule intent_step_SomeE)
    (auto simp: expire_intent_def lease_intent_def claimable_def less_eq_dstate_def ACK_OUTCOMES_def
      split: option.splits intro: dstate_rank.cases [of "di_state i"])

lemma intent_steps_state:
  assumes "intent_steps H now (Some i) (Some j)"
  shows "di_state i \<le> di_state j"
proof -
  have "\<forall>j. o' = Some j \<longrightarrow> di_state i \<le> di_state j" if "intent_steps H now (Some i) o'" for o'
    using that
  proof (induction rule: rtranclp_induct)
    case (step y z)
    then show ?case
      by (cases y) (auto dest: intent_step_state order_trans elim: intent_step_NoneE)
  qed simp
  with assms show ?thesis by blast
qed

text \<open>A terminal intent never changes; it is only pruned.\<close>

lemma intent_step_terminal:
  "intent_step H now (Some i) o' \<Longrightarrow> terminal (di_state i) \<Longrightarrow> o' = None"
  by (erule intent_step_SomeE) (auto simp: claimable_def)

lemma intent_steps_terminal:
  assumes "intent_steps H now (Some i) o'" and "terminal (di_state i)"
  shows "o' = None \<or> o' = Some i"
  using assms by (induction rule: rtranclp_induct) (auto dest: intent_step_terminal elim: intent_step_NoneE)

subsection \<open>Maintenance\<close>

abbreviation intents_ok :: "intents \<Rightarrow> bool" where
  "intents_ok \<equiv> own_keys di_delivery_id"

definition aged :: "time \<Rightarrow> delivery_intent \<Rightarrow> delivery_intent option" where
  "aged now i = (if di_state i = Pending \<and> now - di_created_at i > PENDING_TTL_SEC
       then Some (expire_intent ''not_claimed'' now i)
     else if terminal (di_state i) \<and> now - di_updated_at i > TERMINAL_RETENTION_SEC then None
     else Some i)"

definition evicted :: "time \<Rightarrow> delivery_intent \<Rightarrow> delivery_intent option" where
  "evicted now i = (if terminal (di_state i) then None else Some (expire_intent ''capacity'' now i))"

lemma expire_intent_id [simp]: "di_delivery_id (expire_intent r now i) = di_delivery_id i"
  "di_state (expire_intent r now i) = Expired" "di_tenant_id (expire_intent r now i) = di_tenant_id i"
  "di_updated_at (expire_intent r now i) = now"
  by (simp_all add: expire_intent_def)

lemma lease_intent_simps [simp]: "di_delivery_id (lease_intent H now l t i) = di_delivery_id i"
  "di_state (lease_intent H now l t i) = Claimed" "di_tenant_id (lease_intent H now l t i) = di_tenant_id i"
  "di_lease_expires_at (lease_intent H now l t i) = Some (now + of_int l)"
  "di_lease_token_hash (lease_intent H now l t i) = Some (H t)"
  by (simp_all add: lease_intent_def)

lemma aged_id: "aged now i = Some j \<Longrightarrow> di_delivery_id j = di_delivery_id i"
  by (auto simp: aged_def split: if_splits)

lemma evicted_id: "evicted now i = Some j \<Longrightarrow> di_delivery_id j = di_delivery_id i"
  by (auto simp: evicted_def split: if_splits)

lemma aged_steps: "intent_steps H now (Some i) (aged now i)"
  by (auto simp: aged_def intro!: r_into_rtranclp intent_step.intros)

lemma evicted_step: "intent_steps H now (Some i) (evicted now i)"
  by (auto simp: evicted_def intro!: r_into_rtranclp intent_step.intros)

lemma age_step_dupd:
  "dget d (di_delivery_id i) = Some i \<Longrightarrow> snd (age_step now i (c, d)) = dupd (di_delivery_id i) (aged now i) d"
  by (auto simp: age_step_def aged_def dupd_def AList.update_triv)

lemma fold_age_step:
  assumes "distinct (map di_delivery_id xs)" and "\<forall>i \<in> set xs. dget d (di_delivery_id i) = Some i"
  shows "snd (fold (age_step now) xs (c, d)) = fold (\<lambda>i. dupd (di_delivery_id i) (aged now i)) xs d"
  using assms
proof (induction xs arbitrary: c d)
  case (Cons i xs)
  define d' where "d' = dupd (di_delivery_id i) (aged now i) d"
  obtain c' where step: "age_step now i (c, d) = (c', d')"
    using age_step_dupd [of d i now c] Cons.prems(2) by (auto simp: d'_def prod_eq_iff)
  have "\<forall>j \<in> set xs. dget d' (di_delivery_id j) = Some j"
  proof
    fix j assume j: "j \<in> set xs"
    then have "di_delivery_id j \<noteq> di_delivery_id i" using Cons.prems(1) by (metis imageI distinct.simps(2) list.simps(9) list.set_map)
    moreover have "dget d (di_delivery_id j) = Some j" using Cons.prems(2) j by simp
    ultimately show "dget d' (di_delivery_id j) = Some j" by (simp add: d'_def dget_dupd)
  qed
  then show ?case using Cons.IH [of d' c'] Cons.prems(1) by (simp add: step) (simp add: d'_def)
qed simp

lemma evict_step_dupd: "evict_step now i d = dupd (di_delivery_id i) (evicted now i) d"
  by (simp add: evict_step_def evicted_def dupd_def)

text \<open>The two passes of the maintenance.\<close>

definition after_age :: "time \<Rightarrow> intents \<Rightarrow> intents" where
  "after_age now d = snd (fold (age_step now) (dvals d) (False, d))"

lemma after_age_eq:
  assumes "intents_ok d"
  shows "after_age now d = fold (\<lambda>i. dupd (di_delivery_id i) (aged now i)) (dvals d) d"
  unfolding after_age_def using assms
  by (intro fold_age_step) (auto simp: own_keys_distinct own_keys_dget [symmetric])

lemma after_age_ok: "intents_ok d \<Longrightarrow> intents_ok (after_age now d)"
  unfolding after_age_eq by (rule own_keys_fold_dupd) (auto dest: aged_id)

lemma dget_after_age:
  assumes "intents_ok d"
  shows "dget (after_age now d) k = Option.bind (dget d k) (aged now)"
proof (cases "dget d k")
  case None
  then have "k \<notin> di_delivery_id ` set (dvals d)"
    using own_keys_dget [OF assms] by auto
  with None show ?thesis by (simp add: after_age_eq [OF assms] dget_fold_dupd_notin)
next
  case (Some i)
  then have k: "k = di_delivery_id i" and "i \<in> set (dvals d)"
    using own_keysD [OF assms Some] by (auto simp: own_keys_dget [OF assms])
  then show ?thesis using Some
    by (simp add: after_age_eq [OF assms] own_keys_distinct [OF assms] dget_fold_dupd_in)
qed

lemma terminal_first_set: "set (terminal_first d) = set (dvals d)"
  by (auto simp: terminal_first_def Let_def)

lemma terminal_first_distinct:
  assumes "intents_ok d"
  shows "distinct (map di_delivery_id (terminal_first d))"
proof -
  let ?s = "sort_key di_updated_at (dvals d)"
  have "distinct (dvals d)" and inj: "inj_on di_delivery_id (set (dvals d))"
    using own_keys_distinct [OF assms] by (simp_all add: distinct_map)
  then have "distinct (terminal_first d)" by (auto simp: terminal_first_def Let_def)
  then show ?thesis using inj by (simp add: distinct_map terminal_first_set)
qed

lemma maintain_eq:
  "snd (maintain now d) = (let d1 = after_age now d in
     fold (\<lambda>i. dupd (di_delivery_id i) (evicted now i))
       (take (length d1 - MAX_RECORDS) (terminal_first d1)) d1)"
proof -
  have evict: "evict_step now = (\<lambda>i. dupd (di_delivery_id i) (evicted now i))"
    by (simp add: fun_eq_iff evict_step_dupd)
  show ?thesis by (auto simp: maintain_def after_age_def Let_def evict split: prod.split)
qed

lemma maintain_ok: "intents_ok d \<Longrightarrow> intents_ok (snd (maintain now d))"
  unfolding maintain_eq Let_def by (rule own_keys_fold_dupd) (auto intro: after_age_ok dest: evicted_id)

text \<open>Maintenance either leaves an aged intent alone or evicts it.\<close>

lemma dget_maintain:
  assumes "intents_ok d"
  shows "dget (snd (maintain now d)) k = dget (after_age now d) k \<or>
    (\<exists>i. dget (after_age now d) k = Some i \<and> dget (snd (maintain now d)) k = evicted now i
       \<and> MAX_RECORDS < length (after_age now d))"
proof -
  define d1 where "d1 = after_age now d"
  define xs where "xs = take (length d1 - MAX_RECORDS) (terminal_first d1)"
  have ok: "intents_ok d1" using assms by (simp add: d1_def after_age_ok)
  have eq: "snd (maintain now d) = fold (\<lambda>i. dupd (di_delivery_id i) (evicted now i)) xs d1"
    by (simp add: maintain_eq xs_def d1_def Let_def)
  have dist: "distinct (map di_delivery_id xs)"
    using terminal_first_distinct [OF ok] by (simp add: xs_def take_map [symmetric])
  show ?thesis
  proof (cases "k \<in> di_delivery_id ` set xs")
    case False
    then show ?thesis by (simp add: eq dget_fold_dupd_notin flip: d1_def)
  next
    case True
    then obtain i where i: "i \<in> set xs" and k: "k = di_delivery_id i" by blast
    then have "i \<in> set (dvals d1)" using terminal_first_set set_take_subset by (fastforce simp: xs_def)
    then have "dget d1 k = Some i" by (simp add: own_keys_dget [OF ok] k)
    moreover have "MAX_RECORDS < length d1" using i by (auto simp: xs_def intro: ccontr)
    ultimately show ?thesis
      using dget_fold_dupd_in [OF dist i] by (auto simp: eq k simp flip: d1_def)
  qed
qed

lemma maintain_steps:
  assumes "intents_ok d"
  shows "intent_steps H now (dget d k) (dget (snd (maintain now d)) k)"
proof -
  have "intent_steps H now (dget d k) (dget (after_age now d) k)"
    by (cases "dget d k") (simp_all add: dget_after_age [OF assms] aged_steps)
  moreover have "intent_steps H now (dget (after_age now d) k) (dget (snd (maintain now d)) k)"
    using dget_maintain [OF assms, of now k] by (auto simp: evicted_step)
  ultimately show ?thesis by simp
qed

text \<open>
  The record limit: maintenance brings the store down to it whenever no more intents than
  that are live. Live intents in excess are only marked expired, and count until the next
  maintenance.
\<close>

definition live_count :: "intents \<Rightarrow> nat" where
  "live_count d = length (filter (\<lambda>i. \<not> terminal (di_state i)) (dvals d))"

lemma fold_dupd_None: "fold (\<lambda>i. dupd (key i) None) xs d = ddel_all (map key xs) d"
  by (induction xs arbitrary: d) (simp_all add: ddel_all_def dupd_def)

lemma maintain_prune:
  assumes ok: "intents_ok d" and live: "live_count (after_age now d) \<le> MAX_RECORDS"
  obtains xs where "snd (maintain now d) = ddel_all (map di_delivery_id xs) (after_age now d)"
    and "distinct (map di_delivery_id xs)" and "length xs = length (after_age now d) - MAX_RECORDS"
    and "\<forall>i \<in> set xs. dget (after_age now d) (di_delivery_id i) = Some i \<and> terminal (di_state i)"
proof -
  define d1 where "d1 = after_age now d"
  define n where "n = length d1 - MAX_RECORDS"
  define ts where "ts = filter (\<lambda>i. terminal (di_state i)) (sort_key di_updated_at (dvals d1))"
  define xs where "xs = take n (terminal_first d1)"
  have ok1: "intents_ok d1" using ok by (simp add: d1_def after_age_ok)
  have "length ts + live_count d1 = length d1"
    using sum_length_filter_compl [of "\<lambda>i. terminal (di_state i)" "dvals d1"]
    by (simp add: ts_def live_count_def filter_sort)
  then have n: "n \<le> length ts" using live by (simp add: n_def d1_def)
  then have xs: "xs = take n ts" by (simp add: xs_def terminal_first_def ts_def Let_def)
  then have dead: "terminal (di_state i)" if "i \<in> set xs" for i
    using that by (auto simp: ts_def dest: in_set_takeD)
  have "snd (maintain now d) = fold (\<lambda>i. dupd (di_delivery_id i) (evicted now i)) xs d1"
    by (simp add: maintain_eq xs_def n_def d1_def Let_def)
  also have "\<dots> = fold (\<lambda>i. dupd (di_delivery_id i) None) xs d1"
    using dead by (intro fold_cong) (auto simp: evicted_def)
  finally have eq: "snd (maintain now d) = ddel_all (map di_delivery_id xs) d1" by (simp add: fold_dupd_None)
  have "set xs \<subseteq> set (dvals d1)" using terminal_first_set set_take_subset by (fastforce simp: xs_def)
  then have "\<forall>i \<in> set xs. dget d1 (di_delivery_id i) = Some i" using own_keys_dget [OF ok1] by auto
  moreover have "distinct (map di_delivery_id xs)"
    using terminal_first_distinct [OF ok1] by (simp add: xs_def take_map [symmetric])
  moreover have "length xs = n" using n by (simp add: xs)
  ultimately show ?thesis using that eq dead by (simp add: n_def d1_def)
qed

lemma maintain_bound:
  assumes ok: "intents_ok d" and live: "live_count (after_age now d) \<le> MAX_RECORDS"
  shows "length (snd (maintain now d)) \<le> MAX_RECORDS"
proof (rule maintain_prune [OF assms])
  fix xs
  assume xs: "snd (maintain now d) = ddel_all (map di_delivery_id xs) (after_age now d)"
    "distinct (map di_delivery_id xs)" "length xs = length (after_age now d) - MAX_RECORDS"
    "\<forall>i \<in> set xs. dget (after_age now d) (di_delivery_id i) = Some i \<and> terminal (di_state i)"
  have "length (after_age now d) = length (snd (maintain now d)) + length xs"
    unfolding xs(1) using length_ddel_all [OF own_keys_dict_ok [OF after_age_ok [OF ok]] xs(2)] xs(4) by simp
  then show ?thesis using xs(3) by simp
qed

lemma after_age_fresh:
  assumes "intents_ok d" and "dget d k = Some i" and "\<not> terminal (di_state i)"
    and "di_state i = Pending \<Longrightarrow> now - di_created_at i \<le> PENDING_TTL_SEC"
  shows "dget (after_age now d) k = Some i"
  using assms by (auto simp: dget_after_age aged_def)

lemma length_after_age: "intents_ok d \<Longrightarrow> length (after_age now d) \<le> length d"
proof -
  assume ok: "intents_ok d"
  have "dom (dget (after_age now d)) \<subseteq> dom (dget d)"
    by (auto simp: dget_after_age [OF ok] bind_eq_Some_conv)
  then have "card (dom (dget (after_age now d))) \<le> card (dom (dget d))"
    by (intro card_mono finite_dom_map_of)
  then show ?thesis
    using own_keys_dict_ok [OF ok] own_keys_dict_ok [OF after_age_ok [OF ok]]
    by (simp only: dict_ok_size)
qed

lemma dget_maintain_room:
  "intents_ok d \<Longrightarrow> length d \<le> MAX_RECORDS \<Longrightarrow> dget (snd (maintain now d)) k = Option.bind (dget d k) (aged now)"
  using dget_maintain [of d now k] length_after_age [of d now] by (auto simp: dget_after_age)

subsection \<open>The operations refine the life of an intent\<close>

datatype ob_event =
    E_record bool time string string string string jobject string
  | E_list bool time string "dstate option" "string option" int
  | E_claim bool time "nat \<Rightarrow> string" string "string list" int int
  | E_ack bool time string string string string "string option"

fun ob_time :: "ob_event \<Rightarrow> time" where
  "ob_time (E_record io now key run sched prompt delivery tenant) = now"
| "ob_time (E_list io now tenant st platform limit) = now"
| "ob_time (E_claim io now tok tenant platforms limit lease) = now"
| "ob_time (E_ack io now tenant d token outcome reason) = now"

fun ob_step :: "(string \<Rightarrow> string) \<Rightarrow> ob_event \<Rightarrow> outbox \<Rightarrow> outbox" where
  "ob_step H (E_record io now key run sched prompt delivery tenant) s =
     snd (record_intent H io now key run sched prompt delivery tenant s)"
| "ob_step H (E_list io now tenant st platform limit) s = snd (list_intents io now tenant st platform limit s)"
| "ob_step H (E_claim io now tok tenant platforms limit lease) s =
     snd (claim_intents H io now tok tenant platforms limit lease s)"
| "ob_step H (E_ack io now tenant d token outcome reason) s =
     snd (ack_intent H io now tenant d token outcome reason s)"

text \<open>The event records the intent with this id.\<close>

fun records_id :: "(string \<Rightarrow> string) \<Rightarrow> string \<Rightarrow> ob_event \<Rightarrow> bool" where
  "records_id H k (E_record io now key run sched prompt delivery tenant) = (delivery_id_for H key = k)"
| "records_id H k _ = False"

definition outbox_inv :: "outbox \<Rightarrow> bool" where
  "outbox_inv s \<longleftrightarrow> ob_loaded s \<and> intents_ok (ob_intents s)"

lemma ensure_loaded_id [simp]: "ob_loaded s \<Longrightarrow> ensure_loaded s = s"
  by (simp add: ensure_loaded_def)

lemma load_rows_ok: "intents_ok d \<Longrightarrow> intents_ok (load_rows rows d)"
  by (induction rows d rule: load_rows.induct) auto

lemma ensure_loaded_inv: "intents_ok (ob_intents s) \<Longrightarrow> outbox_inv (ensure_loaded s)"
  by (auto simp: outbox_inv_def ensure_loaded_def load_rows_ok split: outbox_file.splits)

lemma save_outbox_simps [simp]: "fst (save_outbox io s) = io"
  "ob_intents (snd (save_outbox io s)) = ob_intents s" "ob_loaded (snd (save_outbox io s)) = ob_loaded s"
  by (simp_all add: save_outbox_def)

lemma claim_candidates_props:
  assumes "intents_ok d"
  shows "distinct (map di_delivery_id (claim_candidates now tenant ps d))"
    and "i \<in> set (claim_candidates now tenant ps d) \<Longrightarrow>
      dget d (di_delivery_id i) = Some i \<and> claimable now i \<and> di_tenant_id i = tenant"
proof -
  have "distinct (dvals d)" and "inj_on di_delivery_id (set (dvals d))"
    using own_keys_distinct [OF assms] by (simp_all add: distinct_map)
  then show "distinct (map di_delivery_id (claim_candidates now tenant ps d))"
    by (auto simp: claim_candidates_def Let_def distinct_map intro: inj_on_subset)
  show "i \<in> set (claim_candidates now tenant ps d) \<Longrightarrow>
      dget d (di_delivery_id i) = Some i \<and> claimable now i \<and> di_tenant_id i = tenant"
    using own_keys_dget [OF assms] by (auto simp: claim_candidates_def Let_def)
qed

text \<open>The leases a claim grants, and the store with them written in.\<close>

definition grants :: "(string \<Rightarrow> string) \<Rightarrow> time \<Rightarrow> int \<Rightarrow> (nat \<Rightarrow> string) \<Rightarrow> delivery_intent list \<Rightarrow>
    (delivery_intent \<times> string) list" where
  "grants H now lease tok xs = map (\<lambda>(n, i). (lease_intent H now lease (tok n) i, tok n)) (enumerate 0 xs)"

lemma grants_ids: "map (\<lambda>g. di_delivery_id (fst g)) (grants H now lease tok xs) = map di_delivery_id xs"
proof -
  have "map (\<lambda>g. di_delivery_id (fst g)) (grants H now lease tok xs)
      = map di_delivery_id (map snd (enumerate 0 xs))"
    unfolding grants_def map_map by (rule map_cong) auto
  then show ?thesis by simp
qed

lemma grants_mem: "g \<in> set (grants H now lease tok xs) \<Longrightarrow>
  \<exists>i \<in> set xs. fst g = lease_intent H now lease (snd g) i"
  by (auto simp: grants_def in_set_enumerate_eq)

definition write_grants :: "(delivery_intent \<times> string) list \<Rightarrow> intents \<Rightarrow> intents" where
  "write_grants gs d = fold (\<lambda>(i, _). dput (di_delivery_id i) i) gs d"

lemma write_grants_dupd: "write_grants gs d = fold (\<lambda>g. dupd (di_delivery_id (fst g)) (Some (fst g))) gs d"
proof -
  have "fold (\<lambda>(i, _). dput (di_delivery_id i) i) gs d = fold (\<lambda>g. dupd (di_delivery_id (fst g)) (Some (fst g))) gs d"
    by (rule fold_cong) (auto simp: dupd_def)
  then show ?thesis by (simp add: write_grants_def)
qed

lemma write_grants_ok: "intents_ok d \<Longrightarrow> intents_ok (write_grants gs d)"
  unfolding write_grants_dupd by (rule own_keys_fold_dupd) auto

lemma dget_write_grants:
  fixes H now lease tok
  assumes "distinct (map di_delivery_id xs)"
  defines "gs \<equiv> grants H now lease tok xs"
  shows "k \<notin> di_delivery_id ` set xs \<Longrightarrow> dget (write_grants gs d) k = dget d k"
    and "g \<in> set gs \<Longrightarrow> dget (write_grants gs d) (di_delivery_id (fst g)) = Some (fst g)"
    and "i \<in> set xs \<Longrightarrow> \<exists>token. dget (write_grants gs d) (di_delivery_id i) = Some (lease_intent H now lease token i)"
proof -
  have ids: "map (\<lambda>g. di_delivery_id (fst g)) gs = map di_delivery_id xs"
    by (simp add: gs_def grants_ids)
  then have dist: "distinct (map (\<lambda>g. di_delivery_id (fst g)) gs)" using assms(1) by simp
  have img: "(\<lambda>g. di_delivery_id (fst g)) ` set gs = di_delivery_id ` set xs"
    using ids by (metis list.set_map)
  show "k \<notin> di_delivery_id ` set xs \<Longrightarrow> dget (write_grants gs d) k = dget d k"
    unfolding write_grants_dupd by (rule dget_fold_dupd_notin) (simp add: img)
  show mem: "dget (write_grants gs d) (di_delivery_id (fst g)) = Some (fst g)" if "g \<in> set gs" for g
    unfolding write_grants_dupd using dget_fold_dupd_in [OF dist that, of "\<lambda>g. Some (fst g)" d] by simp
  assume i: "i \<in> set xs"
  then obtain g where g: "g \<in> set gs" "di_delivery_id (fst g) = di_delivery_id i"
    using img by (metis (no_types, lifting) imageE imageI)
  then obtain j where j: "j \<in> set xs" "fst g = lease_intent H now lease (snd g) j"
    using grants_mem unfolding gs_def by blast
  then have "j = i" using g(2) i assms(1) by (auto simp: distinct_map dest: inj_onD)
  then show "\<exists>token. dget (write_grants gs d) (di_delivery_id i) = Some (lease_intent H now lease token i)"
    using mem [OF g(1)] g(2) j(2) by auto
qed

text \<open>What a claim does, with its grants named.\<close>

definition lease_of :: "int \<Rightarrow> int" where
  "lease_of lease_sec = max MIN_LEASE_SEC (min lease_sec MAX_LEASE_SEC)"

definition claimed_by :: "(string \<Rightarrow> string) \<Rightarrow> time \<Rightarrow> (nat \<Rightarrow> string) \<Rightarrow> string \<Rightarrow> string list \<Rightarrow> int \<Rightarrow> int \<Rightarrow>
    intents \<Rightarrow> (delivery_intent \<times> string) list" where
  "claimed_by H now tok tenant ps limit lease_sec d = grants H now (lease_of lease_sec) tok
     (take (nat (max 1 (min limit MAX_CLAIM_BATCH))) (claim_candidates now tenant ps d))"

lemma lease_of_bounds: "MIN_LEASE_SEC \<le> lease_of l" "lease_of l \<le> MAX_LEASE_SEC"
  by (simp_all add: lease_of_def MIN_LEASE_SEC_def MAX_LEASE_SEC_def)

lemma claim_intents_eq:
  fixes H io now tok tenant ps limit lease_sec s
  assumes "ob_loaded s"
  defines "d \<equiv> snd (maintain now (ob_intents s))"
  defines "gs \<equiv> claimed_by H now tok tenant ps limit lease_sec d"
  shows "ob_intents (snd (claim_intents H io now tok tenant ps limit lease_sec s)) = write_grants gs d"
    and "fst (claim_intents H io now tok tenant ps limit lease_sec s) = Inr cs \<Longrightarrow> cs = gs"
    and "ob_loaded (snd (claim_intents H io now tok tenant ps limit lease_sec s))"
proof -
  obtain c d0 where m: "maintain now (ob_intents s) = (c, d0)" by (cases "maintain now (ob_intents s)")
  then have d: "d = d0" by (simp add: d_def)
  have "claim_intents H io now tok tenant ps limit lease_sec s =
    (let (saved, s') = (if gs \<noteq> [] \<or> c then save_outbox io (s\<lparr>ob_intents := write_grants gs d\<rparr>)
       else (True, s\<lparr>ob_intents := write_grants gs d\<rparr>))
     in (if saved then Inr gs else Inl Save_failed, s'))"
    unfolding claim_intents_def gs_def claimed_by_def grants_def lease_of_def write_grants_def d
    using assms(1) by (simp add: Let_def m)
  then show "ob_intents (snd (claim_intents H io now tok tenant ps limit lease_sec s)) = write_grants gs d"
    and "fst (claim_intents H io now tok tenant ps limit lease_sec s) = Inr cs \<Longrightarrow> cs = gs"
    and "ob_loaded (snd (claim_intents H io now tok tenant ps limit lease_sec s))"
    using assms(1) by (auto simp: save_outbox_def Let_def split: if_splits)
qed

lemma claim_granted:
  assumes "intents_ok d" and "g \<in> set (claimed_by H now tok tenant ps limit l d)"
  obtains i where "dget d (di_delivery_id i) = Some i" and "claimable now i"
    and "fst g = lease_intent H now (lease_of l) (snd g) i" and "di_tenant_id i = tenant"
    and "dget (write_grants (claimed_by H now tok tenant ps limit l d) d) (di_delivery_id i) = Some (fst g)"
proof -
  define xs where "xs = take (nat (max 1 (min limit MAX_CLAIM_BATCH))) (claim_candidates now tenant ps d)"
  have gs: "claimed_by H now tok tenant ps limit l d = grants H now (lease_of l) tok xs"
    by (simp add: claimed_by_def xs_def)
  obtain i where i: "i \<in> set xs" and eq: "fst g = lease_intent H now (lease_of l) (snd g) i"
    using assms(2) grants_mem unfolding gs by blast
  have "distinct (map di_delivery_id xs)"
    using claim_candidates_props(1) [OF assms(1)] by (simp add: xs_def take_map [symmetric])
  then have "dget (write_grants (claimed_by H now tok tenant ps limit l d) d) (di_delivery_id (fst g)) = Some (fst g)"
    using assms(2) dget_write_grants(2) unfolding gs by blast
  moreover have "i \<in> set (claim_candidates now tenant ps d)" using i by (auto simp: xs_def dest: in_set_takeD)
  ultimately show ?thesis
    using that [of i] eq claim_candidates_props(2) [OF assms(1)] by simp
qed

lemma claim_steps:
  assumes inv: "outbox_inv s"
  shows "intent_steps H now (dget (ob_intents s) k)
     (dget (ob_intents (snd (claim_intents H io now tok tenant ps limit l s))) k)"
proof -
  define d where "d = snd (maintain now (ob_intents s))"
  define xs where "xs = take (nat (max 1 (min limit MAX_CLAIM_BATCH))) (claim_candidates now tenant ps d)"
  have ok: "intents_ok d" using inv by (simp add: outbox_inv_def d_def maintain_ok)
  have gs: "claimed_by H now tok tenant ps limit l d = grants H now (lease_of l) tok xs"
    by (simp add: claimed_by_def xs_def)
  have dist: "distinct (map di_delivery_id xs)"
    using claim_candidates_props(1) [OF ok] by (simp add: xs_def take_map [symmetric])
  have "intent_steps H now (dget d k) (dget (write_grants (grants H now (lease_of l) tok xs) d) k)"
  proof (cases "k \<in> di_delivery_id ` set xs")
    case True
    then obtain i where i: "i \<in> set xs" and k: "k = di_delivery_id i" by blast
    then have d: "dget d k = Some i" and c: "claimable now i"
      using claim_candidates_props(2) [OF ok] by (auto simp: xs_def dest: in_set_takeD)
    obtain token where "dget (write_grants (grants H now (lease_of l) tok xs) d) k
        = Some (lease_intent H now (lease_of l) token i)"
      using dget_write_grants(3) [OF dist i] k by blast
    then show ?thesis using c by (auto simp: d intro!: r_into_rtranclp intent_step.lease lease_of_bounds)
  qed (simp add: dget_write_grants(1) [OF dist])
  moreover have "intent_steps H now (dget (ob_intents s) k) (dget d k)"
    unfolding d_def using inv by (intro maintain_steps) (simp add: outbox_inv_def)
  ultimately show ?thesis
    using inv by (simp add: claim_intents_eq outbox_inv_def gs flip: d_def)
qed

lemma ack_outcome_mem: "ack_outcome t = Some oc \<Longrightarrow> oc \<in> set ACK_OUTCOMES"
  by (auto simp: ack_outcome_def find_Some_iff)

text \<open>An acknowledgement either leaves the intents alone or finishes the named one.\<close>

lemma ack_cases:
  assumes "ob_loaded s"
  obtains
    (same) "ob_intents (snd (ack_intent H io now tenant did token oc reason s)) = ob_intents s"
      and "\<And>i. fst (ack_intent H io now tenant did token oc reason s) \<noteq> Inr (i, False)"
  | (finish) i outcome where "dget (ob_intents s) did = Some i" and "di_state i = Claimed"
      and "di_lease_token_hash i = Some (H token)" and "di_tenant_id i = tenant" and "token \<noteq> []"
      and "ack_outcome oc = Some outcome" and "reason_ok outcome (ack_reason outcome reason)"
      and "ob_intents (snd (ack_intent H io now tenant did token oc reason s)) =
        dput did (i\<lparr>di_state := outcome, di_reason := ack_reason outcome reason, di_updated_at := now\<rparr>) (ob_intents s)"
      and "fst (ack_intent H io now tenant did token oc reason s) =
        (if io then Inr (i\<lparr>di_state := outcome, di_reason := ack_reason outcome reason, di_updated_at := now\<rparr>, False)
         else Inl Save_failed)"
  using assms
  by (fastforce simp: ack_intent_def Let_def save_outbox_def split: option.splits if_splits prod.splits)

lemma ack_steps:
  assumes "outbox_inv s"
  shows "intent_steps H now (dget (ob_intents s) k)
     (dget (ob_intents (snd (ack_intent H io now tenant did token oc reason s))) k)"
proof -
  have "ob_loaded s" using assms by (simp add: outbox_inv_def)
  then show ?thesis
  proof (cases rule: ack_cases [of s H io now tenant did token oc reason])
    case (finish i outcome)
    then show ?thesis
      by (auto simp: dict_simps intro!: r_into_rtranclp intent_step.finish ack_outcome_mem)
  qed simp
qed

lemma list_steps:
  assumes "outbox_inv s"
  shows "intent_steps H now (dget (ob_intents s) k)
     (dget (ob_intents (snd (list_intents io now tenant st platform limit s))) k)"
proof -
  have "ob_intents (snd (list_intents io now tenant st platform limit s)) = snd (maintain now (ob_intents s))"
    using assms by (auto simp: list_intents_def outbox_inv_def Let_def save_outbox_def split: prod.split)
  then show ?thesis using maintain_steps assms by (simp add: outbox_inv_def)
qed

lemma record_existing:
  "ob_loaded s \<Longrightarrow> dget (ob_intents s) (delivery_id_for H key) = Some i \<Longrightarrow>
   record_intent H io now key run sched prompt delivery tenant s = (Inr i, s)"
  by (simp add: record_intent_def Let_def)

lemma record_new:
  fixes H io now key run sched prompt delivery tenant s
  assumes "ob_loaded s" and "dget (ob_intents s) (delivery_id_for H key) = None"
  defines "i \<equiv> new_intent now (delivery_id_for H key) run sched prompt delivery tenant"
  shows "ob_intents (snd (record_intent H io now key run sched prompt delivery tenant s)) =
      snd (maintain now (dput (delivery_id_for H key) i (ob_intents s)))"
    and "ob_loaded (snd (record_intent H io now key run sched prompt delivery tenant s))"
    and "fst (record_intent H io now key run sched prompt delivery tenant s) = (if io then Inr i else Inl Save_failed)"
  using assms by (simp_all add: record_intent_def Let_def save_outbox_def)

lemma record_steps:
  assumes inv: "outbox_inv s" and k: "dget (ob_intents s) k \<noteq> None \<or> delivery_id_for H key \<noteq> k"
  shows "intent_steps H now (dget (ob_intents s) k)
     (dget (ob_intents (snd (record_intent H io now key run sched prompt delivery tenant s))) k)"
proof (cases "dget (ob_intents s) (delivery_id_for H key)")
  case None
  have l: "ob_loaded s" and ok: "intents_ok (ob_intents s)" using inv by (simp_all add: outbox_inv_def)
  define i where "i = new_intent now (delivery_id_for H key) run sched prompt delivery tenant"
  have "intents_ok (dput (delivery_id_for H key) i (ob_intents s))" using ok by (auto simp: i_def)
  from maintain_steps [OF this, of H now k] show ?thesis
    using k None by (auto simp: record_new(1) [OF l None] i_def dict_simps split: if_splits)
qed (use inv in \<open>simp add: record_existing outbox_inv_def\<close>)

lemma ob_step_inv: "outbox_inv s \<Longrightarrow> outbox_inv (ob_step H e s)"
proof (cases e)
  case (E_record io now key run sched prompt delivery tenant)
  assume inv: "outbox_inv s"
  show ?thesis
  proof (cases "dget (ob_intents s) (delivery_id_for H key)")
    case None
    have l: "ob_loaded s" and ok: "intents_ok (ob_intents s)" using inv by (simp_all add: outbox_inv_def)
    show ?thesis
      by (simp add: E_record outbox_inv_def record_new [OF l None] maintain_ok own_keys_dput ok)
  qed (use inv in \<open>simp add: E_record record_existing outbox_inv_def\<close>)
next
  case (E_list io now tenant st platform limit)
  assume inv: "outbox_inv s"
  obtain c d where m: "maintain now (ob_intents s) = (c, d)" by (cases "maintain now (ob_intents s)")
  then have "intents_ok d" using inv maintain_ok [of "ob_intents s" now] by (simp add: outbox_inv_def)
  then show ?thesis
    using E_list inv by (auto simp: outbox_inv_def list_intents_def Let_def save_outbox_def m)
next
  case (E_claim io now tok tenant ps limit l)
  assume "outbox_inv s"
  then show ?thesis
    using E_claim by (simp add: outbox_inv_def claim_intents_eq write_grants_ok maintain_ok)
next
  case (E_ack io now tenant did token oc reason)
  assume inv: "outbox_inv s"
  then have l: "ob_loaded s" by (simp add: outbox_inv_def)
  have "ob_loaded (snd (ack_intent H io now tenant did token oc reason s))"
    using l by (auto simp: ack_intent_def Let_def save_outbox_def split: option.split prod.split)
  moreover have "intents_ok (ob_intents (snd (ack_intent H io now tenant did token oc reason s)))"
    using l
  proof (cases rule: ack_cases [of s H io now tenant did token oc reason])
    case (finish i outcome)
    then show ?thesis using inv own_keysD by (fastforce simp: outbox_inv_def)
  qed (use inv in \<open>simp add: outbox_inv_def\<close>)
  ultimately show ?thesis by (simp add: E_ack outbox_inv_def)
qed

lemma ob_step_refines:
  assumes "outbox_inv s" and "dget (ob_intents s) k \<noteq> None \<or> \<not> records_id H k e"
  shows "intent_steps H (ob_time e) (dget (ob_intents s) k) (dget (ob_intents (ob_step H e s)) k)"
  using assms by (cases e) (simp_all add: record_steps list_steps claim_steps ack_steps)

interpretation outbox_machine: machine "ob_step H" outbox_inv
  by unfold_locales (rule ob_step_inv)


subsection \<open>Runs: states only advance, a running lease is exclusive\<close>

definition advanced :: "delivery_intent \<Rightarrow> delivery_intent option \<Rightarrow> bool" where
  "advanced i o' \<longleftrightarrow> (case o' of None \<Rightarrow> True
     | Some j \<Rightarrow> di_state i \<le> di_state j \<and> (terminal (di_state i) \<longrightarrow> j = i))"

definition held :: "time \<Rightarrow> delivery_intent option \<Rightarrow> bool" where
  "held e o' \<longleftrightarrow> (case o' of None \<Rightarrow> True
     | Some j \<Rightarrow> terminal (di_state j) \<or> (di_state j = Claimed \<and> di_lease_expires_at j = Some e))"

lemma advanced_steps: "intent_steps H now o1 o2 \<Longrightarrow> advanced i o1 \<Longrightarrow> advanced i o2"
proof (induction rule: rtranclp_induct)
  case (step y z)
  then show ?case
    by (cases y; cases z) (auto simp: advanced_def dest: intent_step_state intent_step_terminal
        order_trans elim: intent_step_NoneE)
qed

lemma held_step: "intent_step H now o1 o2 \<Longrightarrow> now < e \<Longrightarrow> held e o1 \<Longrightarrow> held e o2"
  by (erule intent_step.cases)
    (auto simp: held_def claimable_def expire_intent_def TERMINAL_STATES_def ACK_OUTCOMES_def)

lemma held_steps: "intent_steps H now o1 o2 \<Longrightarrow> now < e \<Longrightarrow> held e o1 \<Longrightarrow> held e o2"
  by (induction rule: rtranclp_induct) (auto intro: held_step)

lemma run_advanced:
  assumes "outbox_inv s" and "dget (ob_intents s) k = Some i" and "\<forall>ev \<in> set es. \<not> records_id H k ev"
  shows "advanced i (dget (ob_intents (fold (ob_step H) es s)) k)"
proof (rule outbox_machine.run_stable [where P = "\<lambda>s. advanced i (dget (ob_intents s) k)"])
  show "advanced i (dget (ob_intents (ob_step H ev t)) k)"
    if "outbox_inv t" "advanced i (dget (ob_intents t) k)" "ev \<in> set es" for ev t
    using that assms(3) by (auto intro: advanced_steps ob_step_refines)
qed (simp_all add: assms advanced_def)

lemma run_held:
  assumes "outbox_inv s" and "held e (dget (ob_intents s) k)"
    and "\<forall>ev \<in> set es. ob_time ev < e \<and> \<not> records_id H k ev"
  shows "held e (dget (ob_intents (fold (ob_step H) es s)) k)"
proof (rule outbox_machine.run_stable [where P = "\<lambda>s. held e (dget (ob_intents s) k)"])
  show "held e (dget (ob_intents (ob_step H ev t)) k)"
    if "outbox_inv t" "held e (dget (ob_intents t) k)" "ev \<in> set es" for ev t
    using that assms(3) by (auto intro: held_steps ob_step_refines)
qed (simp_all add: assms)

lemma claim_not_held:
  assumes inv: "outbox_inv s" and held: "held e (dget (ob_intents s) k)" and "now < e"
    and res: "fst (claim_intents H io now tok tenant ps limit l s) = Inr gs"
  shows "k \<notin> di_delivery_id ` fst ` set gs"
proof
  assume "k \<in> di_delivery_id ` fst ` set gs"
  then obtain g where g: "g \<in> set gs" and k: "k = di_delivery_id (fst g)" by blast
  define d where "d = snd (maintain now (ob_intents s))"
  have ok: "intents_ok d" using inv by (simp add: outbox_inv_def d_def maintain_ok)
  have gs: "gs = claimed_by H now tok tenant ps limit l d"
    using claim_intents_eq(2) [OF _ res] inv by (simp add: outbox_inv_def d_def)
  obtain i where i: "dget d (di_delivery_id i) = Some i" "claimable now i"
    and eq: "fst g = lease_intent H now (lease_of l) (snd g) i"
    using claim_granted [OF ok] g unfolding gs by metis
  have "intent_steps H now (dget (ob_intents s) k) (dget d k)"
    unfolding d_def using inv by (intro maintain_steps) (simp add: outbox_inv_def)
  then have "held e (dget d k)" using \<open>now < e\<close> held by (rule held_steps)
  moreover have "dget d k = Some i" using i(1) by (simp add: k eq)
  ultimately show False using i(2) assms(3) by (auto simp: held_def claimable_def)
qed

text \<open>A store with one claimed and one pending intent, for the concrete runs below.\<close>

definition sample_intent :: "string \<Rightarrow> dstate \<Rightarrow> time option \<Rightarrow> string option \<Rightarrow> delivery_intent" where
  "sample_intent did st lease token = \<lparr>di_delivery_id = did, di_run_id = ''r'', di_schedule_id = ''s'',
     di_prompt_id = ''p'', di_tenant_id = ''default'',
     di_delivery = [(''platform'', J_str ''slack''), (''target_id'', J_str ''c1'')], di_state = st,
     di_created_at = 100, di_updated_at = 100, di_reason = None, di_attempts = 0,
     di_lease_expires_at = lease, di_lease_token_hash = token\<rparr>"

definition sample_outbox :: outbox where
  "sample_outbox = \<lparr>ob_intents = [(''a'', sample_intent ''a'' Claimed (Some 400) (Some ''t'')),
       (''b'', sample_intent ''b'' Pending None None)],
     ob_file = File_missing, ob_loaded = True\<rparr>"

lemma sample_outbox_inv: "outbox_inv sample_outbox"
  by (simp add: outbox_inv_def sample_outbox_def own_keys_def sample_intent_def)


subsection \<open>Recording as a gate\<close>

text \<open>
  A recording under an idempotency key accepts when no intent is stored under its id: the
  run, schedule, prompt, delivery and tenant come with the key (\<open>pay\<close>).
\<close>

type_synonym payload = "string \<times> string \<times> string \<times> jobject \<times> string"

definition record_gate :: "(string \<Rightarrow> string) \<Rightarrow> (time \<Rightarrow> bool) \<Rightarrow> (string \<Rightarrow> payload) \<Rightarrow> time \<Rightarrow> string \<Rightarrow> outbox \<Rightarrow>
    bool \<times> outbox" where
  "record_gate H io pay now key s = (let (run, sched, prompt, delivery, tenant) = pay key in
     (dget (ob_intents s) (delivery_id_for H key) = None,
      snd (record_intent H (io now) now key run sched prompt delivery tenant s)))"

definition record_live :: "(string \<Rightarrow> string) \<Rightarrow> time \<Rightarrow> outbox \<Rightarrow> string \<Rightarrow> bool" where
  "record_live H now s key \<longleftrightarrow> (case dget (ob_intents s) (delivery_id_for H key) of None \<Rightarrow> False
     | Some i \<Rightarrow> now - di_updated_at i \<le> TERMINAL_RETENTION_SEC)"

definition pending_untouched :: "delivery_intent \<Rightarrow> bool" where
  "pending_untouched i \<longleftrightarrow> (di_state i = Pending \<longrightarrow> di_updated_at i = di_created_at i)"

definition record_inv :: "outbox \<Rightarrow> bool" where
  "record_inv s \<longleftrightarrow> outbox_inv s \<and> (\<forall>k i. dget (ob_intents s) k = Some i \<longrightarrow> pending_untouched i)"

definition record_room :: "outbox \<Rightarrow> bool" where
  "record_room s \<longleftrightarrow> length (ob_intents s) < MAX_RECORDS"

lemma record_gate_cases:
  assumes "ob_loaded s"
  obtains (old) i where "dget (ob_intents s) (delivery_id_for H key) = Some i"
      and "record_gate H io pay now key s = (False, s)"
  | (new) i where "dget (ob_intents s) (delivery_id_for H key) = None"
      and "di_delivery_id i = delivery_id_for H key" and "di_created_at i = now" and "di_updated_at i = now"
      and "fst (record_gate H io pay now key s)" and "ob_loaded (snd (record_gate H io pay now key s))"
      and "ob_intents (snd (record_gate H io pay now key s)) =
        snd (maintain now (dput (delivery_id_for H key) i (ob_intents s)))"
proof -
  obtain run sched prompt delivery tenant where pay: "pay key = (run, sched, prompt, delivery, tenant)"
    by (cases "pay key")
  show ?thesis
  proof (cases "dget (ob_intents s) (delivery_id_for H key)")
    case None
    then show ?thesis
      by (intro new [of "new_intent now (delivery_id_for H key) run sched prompt delivery tenant"])
        (simp_all add: record_gate_def pay record_new [OF assms])
  next
    case (Some i)
    then show ?thesis using assms by (intro old [of i]) (simp_all add: record_gate_def pay record_existing)
  qed
qed

lemma aged_untouched: "pending_untouched i \<Longrightarrow> aged now i = Some j \<Longrightarrow> pending_untouched j"
  by (auto simp: aged_def pending_untouched_def expire_intent_def split: if_splits)

lemma evicted_untouched: "pending_untouched i \<Longrightarrow> evicted now i = Some j \<Longrightarrow> pending_untouched j"
  by (auto simp: evicted_def pending_untouched_def expire_intent_def split: if_splits)

lemma maintain_untouched:
  assumes "intents_ok d" and "\<forall>k i. dget d k = Some i \<longrightarrow> pending_untouched i"
    and "dget (snd (maintain now d)) k = Some j"
  shows "pending_untouched j"
proof -
  have a: "pending_untouched i" if "dget (after_age now d) k' = Some i" for k' i
    using that assms(2) by (auto simp: dget_after_age [OF assms(1)] bind_eq_Some_conv intro: aged_untouched)
  then show ?thesis using dget_maintain [OF assms(1), of now k] assms(3) evicted_untouched by metis
qed

text \<open>An entry that is live at a later time survives ageing now, and is live then.\<close>

lemma aged_live:
  assumes "pending_untouched i" and "now \<le> later" and "later - di_updated_at i \<le> TERMINAL_RETENTION_SEC"
  shows "\<exists>j. aged now i = Some j \<and> later - di_updated_at j \<le> TERMINAL_RETENTION_SEC"
  using assms by (auto simp: aged_def pending_untouched_def PENDING_TTL_SEC_def)

lemma record_gate_inv: "record_inv s \<Longrightarrow> record_inv (snd (record_gate H io pay now key s))"
proof -
  assume inv: "record_inv s"
  then have l: "ob_loaded s" and ok: "intents_ok (ob_intents s)" by (simp_all add: record_inv_def outbox_inv_def)
  from l show ?thesis
  proof (cases rule: record_gate_cases [of s H key io pay now])
    case (new i)
    let ?d = "dput (delivery_id_for H key) i (ob_intents s)"
    have ok': "intents_ok ?d" using ok new(2) by (rule own_keys_dput)
    moreover have "\<forall>k j. dget ?d k = Some j \<longrightarrow> pending_untouched j"
      using inv new(3,4) by (auto simp: record_inv_def dict_simps pending_untouched_def)
    ultimately show ?thesis
      using new(6,7) by (auto simp: record_inv_def outbox_inv_def maintain_ok intro: maintain_untouched)
  qed (simp add: inv)
qed

lemma record_gate_keep:
  assumes inv: "record_inv s" and "record_room s" and "now \<le> later"
    and live: "record_live H later s k \<or> (k = key \<and> fst (record_gate H io pay now key s) \<and> later < now + TERMINAL_RETENTION_SEC)"
  shows "record_live H later (snd (record_gate H io pay now key s)) k"
proof -
  have l: "ob_loaded s" and ok: "intents_ok (ob_intents s)" using inv by (simp_all add: record_inv_def outbox_inv_def)
  from l show ?thesis
  proof (cases rule: record_gate_cases [of s H key io pay now])
    case (new i)
    let ?d = "dput (delivery_id_for H key) i (ob_intents s)"
    have ok': "intents_ok ?d" using ok new(2) by (rule own_keys_dput)
    have len: "length ?d \<le> MAX_RECORDS" using assms(2) length_dput_le [of "delivery_id_for H key" i "ob_intents s"]
      by (simp add: record_room_def)
    obtain j where j: "dget ?d (delivery_id_for H k) = Some j" "pending_untouched j"
      "later - di_updated_at j \<le> TERMINAL_RETENTION_SEC"
    proof (cases "delivery_id_for H k = delivery_id_for H key")
      case True
      then have "later - now \<le> TERMINAL_RETENTION_SEC" using live new(1) by (auto simp: record_live_def)
      then show ?thesis using True that [of i] new(3,4) by (simp add: dict_simps pending_untouched_def)
    next
      case False
      then show ?thesis using live that inv
        by (auto simp: record_live_def record_inv_def dict_simps split: option.splits)
    qed
    then show ?thesis using aged_live [OF j(2) \<open>now \<le> later\<close> j(3)]
      by (auto simp: record_live_def new(7) dget_maintain_room [OF ok' len])
  qed (use live in simp)
qed

interpretation recording: once_gate "record_gate H io pay" "\<lambda>_ k. k" "record_live H"
  record_inv record_room TERMINAL_RETENTION_SEC
proof unfold_locales
  show "\<not> fst (record_gate H io pay t k s)" if "record_live H t s k" for t k s
    using that by (auto simp: record_live_def record_gate_def split_def Let_def split: option.splits)
qed (auto simp: record_gate_inv intro: record_gate_keep)

subsection \<open>Properties\<close>

text \<open>
  C2: an intent under a running lease is given to nobody else: after any sequence of
  recordings, listings, claims and acknowledgements before the lease ends (none of them
  recording the intent's id anew), no claim made before the end of the lease returns it.
\<close>

theorem lease_exclusive:
  assumes "outbox_inv s" and "dget (ob_intents s) k = Some i" and "di_state i = Claimed"
    and "di_lease_expires_at i = Some e"
    and "\<forall>ev \<in> set es. ob_time ev < e \<and> \<not> records_id H k ev" and "now < e"
    and "fst (claim_intents H io now tok tenant ps limit l (fold (ob_step H) es s)) = Inr gs"
  shows "k \<notin> di_delivery_id ` fst ` set gs"
proof (rule claim_not_held [OF _ _ \<open>now < e\<close> assms(7)])
  show "outbox_inv (fold (ob_step H) es s)" using assms(1) by (rule outbox_machine.run_inv)
  show "held e (dget (ob_intents (fold (ob_step H) es s)) k)"
    using assms(1,5) by (intro run_held) (simp_all add: assms(2-4) held_def)
qed

theorem lease_exclusive_witness:
  "\<exists>gs. fst (claim_intents (\<lambda>x. x) True 200 (\<lambda>n. ''u'') ''default'' [''slack''] 5 60
       (fold (ob_step (\<lambda>x. x)) [E_list True 150 ''default'' None None 10] sample_outbox)) = Inr gs
     \<and> ''a'' \<notin> di_delivery_id ` fst ` set gs \<and> ''b'' \<in> di_delivery_id ` fst ` set gs"
proof -
  let ?r = "fst (claim_intents (\<lambda>x. x) True 200 (\<lambda>n. ''u'') ''default'' [''slack''] 5 60
       (fold (ob_step (\<lambda>x. x)) [E_list True 150 ''default'' None None 10] sample_outbox))"
  have r: "?r = Inr [(lease_intent (\<lambda>x. x) 200 60 ''u'' (sample_intent ''b'' Pending None None), ''u'')]"
    by code_simp
  have "''a'' \<notin> di_delivery_id ` fst ` set [(lease_intent (\<lambda>x. x) 200 60 ''u'' (sample_intent ''b'' Pending None None), ''u'')]"
    using lease_exclusive [OF sample_outbox_inv, of "''a''" "sample_intent ''a'' Claimed (Some 400) (Some ''t'')" 400
        "[E_list True 150 ''default'' None None 10]" "\<lambda>x. x" 200 True "\<lambda>n. ''u''" "''default''" "[''slack'']" 5 60, OF _ _ _ _ _ r]
    by (simp add: sample_outbox_def sample_intent_def)
  with r show ?thesis by (simp add: sample_intent_def)
qed




lemma reason_ok_default: "reason_ok oc (ack_reason oc r) \<Longrightarrow> ack_reason oc (ack_reason oc r) = ack_reason oc r"
  by (auto simp: ack_reason_def split: option.splits list.splits)

text \<open>
  C8: an acknowledgement takes effect only for the holder of the lease. When it answers
  that it finalized an intent, the intent was stored under this id for this tenant, it was
  claimed and its stored digest is that of the presented token; exactly this entry
  becomes the requested outcome, and sending the acknowledgement again at any later time
  answers the same intent as already final and changes nothing.
\<close>

theorem ack_by_lease_holder:
  assumes inv: "outbox_inv s"
    and res: "ack_intent H io now tenant did token outcome reason s = (Inr (j, False), s')"
  shows "\<exists>i. dget (ob_intents s) did = Some i \<and> di_state i = Claimed \<and> di_tenant_id i = tenant
      \<and> di_lease_token_hash i = Some (H token) \<and> token \<noteq> []
      \<and> dstate_value (di_state j) = outcome \<and> di_state j \<in> set ACK_OUTCOMES
      \<and> (\<forall>k. dget (ob_intents s') k = (if k = did then Some j else dget (ob_intents s) k))
      \<and> ack_intent H io' now' tenant did token outcome reason s' = (Inr (j, True), s')"
proof -
  have l: "ob_loaded s" using inv by (simp add: outbox_inv_def)
  then show ?thesis
  proof (cases rule: ack_cases [of s H io now tenant did token outcome reason])
    case same
    then show ?thesis using same(2) [of j] res by simp
  next
    case (finish i oc)
    define f where "f = i\<lparr>di_state := oc, di_reason := ack_reason oc reason, di_updated_at := now\<rparr>"
    have j: "j = f" and s': "ob_intents s' = dput did f (ob_intents s)"
      using res finish(8,9) by (auto simp: f_def split: if_splits)
    have l': "ob_loaded s'"
      using arg_cong [OF res, of "\<lambda>x. ob_loaded (snd x)"] ob_step_inv [OF inv, of H "E_ack io now tenant did token outcome reason"]
      by (simp add: outbox_inv_def)
    have oc: "oc \<in> set ACK_OUTCOMES" "dstate_value oc = outcome"
      using finish(6) by (auto simp: ack_outcome_def find_Some_iff)
    then have "terminal oc" by (simp add: TERMINAL_STATES_def)
    then have "ack_intent H io' now' tenant did token outcome reason s' = (Inr (j, True), s')"
      using finish l' by (simp add: ack_intent_def s' dict_simps j f_def Let_def)
    then show ?thesis using finish oc by (auto simp: j s' f_def dict_simps)
  qed
qed

theorem ack_by_lease_holder_witness:
  "\<exists>j s'. ack_intent (\<lambda>x. x) True 150 ''default'' ''a'' ''t'' ''timed_out'' None sample_outbox = (Inr (j, False), s')
     \<and> ack_intent (\<lambda>x. x) True 170 ''default'' ''a'' ''t'' ''timed_out'' None s' = (Inr (j, True), s')"
proof -
  let ?j = "(sample_intent ''a'' Claimed (Some 400) (Some ''t''))\<lparr>di_state := Timed_out,
      di_reason := Some ''result_timeout'', di_updated_at := 150\<rparr>"
  obtain s' where r: "ack_intent (\<lambda>x. x) True 150 ''default'' ''a'' ''t'' ''timed_out'' None sample_outbox = (Inr (?j, False), s')"
    by (simp add: ack_intent_def sample_outbox_def sample_intent_def ack_outcome_def ACK_OUTCOMES_def dstate_value_def
        ack_reason_def reason_ok_def ACK_REASONS_def TERMINAL_STATES_def save_outbox_def Let_def)
  from ack_by_lease_holder [OF sample_outbox_inv r, of True 170] r show ?thesis by blast
qed

text \<open>
  C24: the outbox implements the life of one intent: every operation takes the entry under
  each id (except the one it records anew) along a path of the abstract machine of
  expiring, pruning, leasing and finishing.
\<close>

theorem outbox_refines:
  assumes "outbox_inv s" and "dget (ob_intents s) k \<noteq> None \<or> \<not> records_id H k ev"
  shows "intent_steps H (ob_time ev) (dget (ob_intents s) k) (dget (ob_intents (ob_step H ev s)) k)
    \<and> outbox_inv (ob_step H ev s)"
  using ob_step_refines [OF assms] ob_step_inv [OF assms(1)] by blast

theorem outbox_refines_witness:
  "intent_steps (\<lambda>x. x) 500 (Some (sample_intent ''a'' Claimed (Some 400) (Some ''t'')))
     (Some (lease_intent (\<lambda>x. x) 500 60 ''u'' (sample_intent ''a'' Claimed (Some 400) (Some ''t''))))"
proof -
  let ?e = "E_claim True 500 (\<lambda>n. ''u'') ''default'' [''slack''] 1 0"
  have "dget (ob_intents (ob_step (\<lambda>x. x) ?e sample_outbox)) ''a'' =
     Some (lease_intent (\<lambda>x. x) 500 60 ''u'' (sample_intent ''a'' Claimed (Some 400) (Some ''t'')))"
    by code_simp
  moreover have "dget (ob_intents sample_outbox) ''a'' = Some (sample_intent ''a'' Claimed (Some 400) (Some ''t''))"
    by (simp add: sample_outbox_def)
  ultimately show ?thesis using outbox_refines [OF sample_outbox_inv, of "''a''" "\<lambda>x. x" ?e] by simp
qed

text \<open>
  Maintenance keeps the store at its record limit whenever the live intents alone fit
  into it, and keeps every live intent that has not outlived the time to be claimed.
\<close>

theorem maintain_bounds:
  assumes "intents_ok d" and "live_count (after_age now d) \<le> MAX_RECORDS"
  shows "length (snd (maintain now d)) \<le> MAX_RECORDS
    \<and> (\<forall>k i. dget d k = Some i \<and> \<not> terminal (di_state i)
          \<and> (di_state i = Pending \<longrightarrow> now - di_created_at i \<le> PENDING_TTL_SEC)
        \<longrightarrow> dget (snd (maintain now d)) k = Some i)"
proof (intro conjI allI impI; (elim conjE)?)
  show "length (snd (maintain now d)) \<le> MAX_RECORDS" using assms by (rule maintain_bound)
  fix k i
  assume i: "dget d k = Some i" "\<not> terminal (di_state i)"
    "di_state i = Pending \<longrightarrow> now - di_created_at i \<le> PENDING_TTL_SEC"
  then have aged: "dget (after_age now d) k = Some i" using assms(1) by (auto intro: after_age_fresh)
  show "dget (snd (maintain now d)) k = Some i"
    by (rule maintain_prune [OF assms]) (use aged i(2) in \<open>auto simp: dget_ddel_all\<close>)
qed

theorem maintain_bounds_witness:
  "dget (snd (maintain 200 (ob_intents sample_outbox))) ''b'' = Some (sample_intent ''b'' Pending None None)"
proof -
  have "live_count (after_age 200 (ob_intents sample_outbox)) \<le> MAX_RECORDS" by code_simp
  from maintain_bounds [OF _ this] sample_outbox_inv show ?thesis
    by (simp add: outbox_inv_def sample_outbox_def sample_intent_def PENDING_TTL_SEC_def)
qed


text \<open>
  Whatever recordings are attempted, in any order and with any failing writes, within
  the retention of terminal records and below the record limit, at most one creates an
  intent for an idempotency key.
\<close>

theorem record_at_most_once:
  assumes "record_inv s" and "all_states record_room (claim_run (record_gate H io pay) cs s)"
    and "sorted (map fst cs)" and "\<forall>(t, j) \<in> set cs. a \<le> t \<and> t < a + TERMINAL_RETENTION_SEC"
  shows "accepted (\<lambda>_ k. k) key cs (claim_run (record_gate H io pay) cs s) \<le> 1"
  using assms by (rule recording.at_most_once)

theorem record_at_most_once_witness:
  "accepted (\<lambda>_ k. k) ''x'' [(10, ''x''), (20, ''y''), (30, ''x'')]
     (claim_run (record_gate (\<lambda>x. x) (\<lambda>t. t \<noteq> 20) (\<lambda>k. (k, ''s'', ''p'', [(''platform'', J_str ''slack'')], ''t'')))
        [(10, ''x''), (20, ''y''), (30, ''x'')] \<lparr>ob_intents = [], ob_file = File_missing, ob_loaded = True\<rparr>) \<le> 1"
  by (rule record_at_most_once [where a = 0])
    (simp add: record_inv_def outbox_inv_def, code_simp, simp, simp add: TERMINAL_RETENTION_SEC_def)

end
