(* ===== verification/Idempotency.thy ===== *)
theory Idempotency
  imports Contracts
begin

text \<open>
  \<open>services/idempotency_store.py\<close>: deduplication of external events. A durable SQLite
  table (a list of rows with the statements the code executes) and an in-memory dict keep
  the same kind of entry; the store puts the table before the dict and, in strict mode,
  refuses to work without it. One call reads the clock once. \<open>ok\<close> and \<open>okc\<close> say whether
  the backend call and the backend's cleanup return or raise; a call that raises leaves the
  table as it was.
\<close>

definition DEFAULT_TTL_SECONDS :: int where "DEFAULT_TTL_SECONDS = 3600"
definition MAX_ITEMS :: nat where "MAX_ITEMS = 10000"

record idem_entry =
  ie_first_seen_ts :: time
  ie_last_seen_ts :: time
  ie_expires_at :: time
  ie_count :: int
  ie_prompt_id :: "string option"

definition new_entry :: "time \<Rightarrow> int \<Rightarrow> string option \<Rightarrow> idem_entry" where
  "new_entry now ttl prompt_id = \<lparr>ie_first_seen_ts = now, ie_last_seen_ts = now,
     ie_expires_at = now + of_int ttl, ie_count = 1, ie_prompt_id = prompt_id\<rparr>"

definition seen_again :: "time \<Rightarrow> idem_entry \<Rightarrow> idem_entry" where
  "seen_again now e = e\<lparr>ie_count := ie_count e + 1, ie_last_seen_ts := now\<rparr>"

subsection \<open>The SQLite backend\<close>

record sql_row = sr_key :: string sr_entry :: idem_entry

type_synonym sql_table = "sql_row list"

definition sql_select :: "string \<Rightarrow> sql_table \<Rightarrow> sql_row option" where
  "sql_select key t = find (\<lambda>r. sr_key r = key) t"

definition sql_update :: "string \<Rightarrow> (idem_entry \<Rightarrow> idem_entry) \<Rightarrow> sql_table \<Rightarrow> sql_table" where
  "sql_update key f t = map (\<lambda>r. if sr_key r = key then r\<lparr>sr_entry := f (sr_entry r)\<rparr> else r) t"

definition sql_delete :: "(sql_row \<Rightarrow> bool) \<Rightarrow> sql_table \<Rightarrow> sql_table" where
  "sql_delete P t = filter (\<lambda>r. \<not> P r) t"

text \<open>\<open>INSERT\<close> on a present primary key is an \<open>IntegrityError\<close>.\<close>

definition sql_insert :: "sql_row \<Rightarrow> sql_table \<Rightarrow> sql_table option" where
  "sql_insert r t = (if sql_select (sr_key r) t = None then Some (t @ [r]) else None)"

definition sql_check_and_record ::
  "time \<Rightarrow> string \<Rightarrow> int \<Rightarrow> string option \<Rightarrow> sql_table \<Rightarrow> ((bool \<times> string option) \<times> sql_table) option" where
  "sql_check_and_record now key ttl prompt_id t =
    (case sql_select key t of
       Some row \<Rightarrow>
         if ie_expires_at (sr_entry row) > now
         then Some ((True, ie_prompt_id (sr_entry row)),
                sql_update key (\<lambda>e. e\<lparr>ie_count := ie_count (sr_entry row) + 1, ie_last_seen_ts := now\<rparr>) t)
         else map_option (\<lambda>t'. ((False, None), t'))
                (sql_insert \<lparr>sr_key = key, sr_entry = new_entry now ttl prompt_id\<rparr>
                   (sql_delete (\<lambda>r. sr_key r = key) t))
     | None \<Rightarrow> map_option (\<lambda>t'. ((False, None), t'))
         (sql_insert \<lparr>sr_key = key, sr_entry = new_entry now ttl prompt_id\<rparr> t))"

definition sql_update_prompt_id :: "string \<Rightarrow> string \<Rightarrow> sql_table \<Rightarrow> sql_table" where
  "sql_update_prompt_id key prompt_id t = sql_update key (\<lambda>e. e\<lparr>ie_prompt_id := Some prompt_id\<rparr>) t"

definition sql_cleanup :: "time \<Rightarrow> sql_table \<Rightarrow> nat \<times> sql_table" where
  "sql_cleanup now t = (let t' = sql_delete (\<lambda>r. ie_expires_at (sr_entry r) < now) t
     in (length t - length t', t'))"

subsection \<open>The in-memory table\<close>

definition memory_check_and_record ::
  "time \<Rightarrow> string \<Rightarrow> int \<Rightarrow> string option \<Rightarrow> (string, idem_entry) dict \<Rightarrow>
   (bool \<times> string option) \<times> (string, idem_entry) dict" where
  "memory_check_and_record now key ttl prompt_id d =
    (case dget d key of
       Some item \<Rightarrow>
         if ie_expires_at item > now then ((True, ie_prompt_id item), dput key (seen_again now item) d)
         else ((False, None), dput key (new_entry now ttl prompt_id) (ddel key d))
     | None \<Rightarrow> ((False, None), dput key (new_entry now ttl prompt_id) d))"

definition memory_cleanup :: "time \<Rightarrow> (string, idem_entry) dict \<Rightarrow> (string, idem_entry) dict" where
  "memory_cleanup now d =
    (let expired = dkeys (filter (\<lambda>(k, v). ie_expires_at v < now) d);
         d = ddel_all expired d
     in if length d > MAX_ITEMS
        then ddel_all (take (length d - MAX_ITEMS)
               (dkeys (sort_key (\<lambda>item. ie_first_seen_ts (snd item)) d))) d
        else d)"

subsection \<open>The store\<close>

record idem_store =
  is_store :: "(string, idem_entry) dict"
  is_last_cleanup :: time
  is_durable :: "sql_table option"
  is_strict_mode :: bool

datatype idem_error = Backend_unavailable | Backend_error | Backend_init_failed

text \<open>
  \<open>backend\<close>: a given backend's table; \<open>db_path\<close>: the table a path opens, or the failure
  to open it.
\<close>

definition configure_durable ::
  "sql_table option \<Rightarrow> sql_table option option \<Rightarrow> bool \<Rightarrow> idem_store \<Rightarrow> (idem_error + unit) \<times> idem_store" where
  "configure_durable backend db_path strict s =
    (let s = s\<lparr>is_strict_mode := strict\<rparr> in
     case backend of
       Some t \<Rightarrow> (Inr (), s\<lparr>is_durable := Some t\<rparr>)
     | None \<Rightarrow>
        (case db_path of
           None \<Rightarrow> (Inr (), s)
         | Some (Some t) \<Rightarrow> (Inr (), s\<lparr>is_durable := Some t\<rparr>)
         | Some None \<Rightarrow> if strict then (Inl Backend_init_failed, s) else (Inr (), s\<lparr>is_durable := None\<rparr>)))"

definition idem_cleanup :: "bool \<Rightarrow> time \<Rightarrow> idem_store \<Rightarrow> idem_store" where
  "idem_cleanup okc now s =
    (let s = (if length (is_store s) > MAX_ITEMS \<or> now - is_last_cleanup s > 300
              then s\<lparr>is_store := memory_cleanup now (is_store s), is_last_cleanup := now\<rparr> else s)
     in case is_durable s of
          Some t \<Rightarrow> if okc then s\<lparr>is_durable := Some (snd (sql_cleanup now t))\<rparr> else s
        | None \<Rightarrow> s)"

text \<open>\<open>H\<close> is the hexadecimal SHA-256 digest, \<open>dumps\<close> the sorted JSON text of the payload.\<close>

definition generate_key :: "(string \<Rightarrow> string) \<Rightarrow> ('d \<Rightarrow> string) \<Rightarrow> string option \<Rightarrow> 'd \<Rightarrow> string" where
  "generate_key H dumps job_id normalized_data = (case job_id of
       Some (c # j) \<Rightarrow> ''job:'' @ (c # j)
     | _ \<Rightarrow> ''hash:'' @ H (dumps normalized_data))"

definition memory_path :: "time \<Rightarrow> string \<Rightarrow> string option \<Rightarrow> int \<Rightarrow> idem_store \<Rightarrow>
    (idem_error + bool \<times> string option) \<times> idem_store" where
  "memory_path now key prompt_id ttl s =
    (let (r, d) = memory_check_and_record now key ttl prompt_id (is_store s) in (Inr r, s\<lparr>is_store := d\<rparr>))"

definition check_and_record ::
  "bool \<Rightarrow> bool \<Rightarrow> time \<Rightarrow> string \<Rightarrow> string option \<Rightarrow> int \<Rightarrow> idem_store \<Rightarrow>
   (idem_error + bool \<times> string option) \<times> idem_store" where
  "check_and_record okc ok now key prompt_id ttl s =
    (let s = idem_cleanup okc now s in
     case is_durable s of
       None \<Rightarrow> if is_strict_mode s then (Inl Backend_unavailable, s)
               else memory_path now key prompt_id ttl s
     | Some t \<Rightarrow>
         (case (if ok then sql_check_and_record now key ttl prompt_id t else None) of
            Some (r, t') \<Rightarrow> (Inr r, s\<lparr>is_durable := Some t'\<rparr>)
          | None \<Rightarrow> if is_strict_mode s then (Inl Backend_error, s)
                     else memory_path now key prompt_id ttl s))"

definition update_prompt_id :: "bool \<Rightarrow> string \<Rightarrow> string \<Rightarrow> idem_store \<Rightarrow> (idem_error + unit) \<times> idem_store" where
  "update_prompt_id ok key prompt_id s =
    (let memory = (Inr (), (case dget (is_store s) key of
            Some e \<Rightarrow> s\<lparr>is_store := dput key (e\<lparr>ie_prompt_id := Some prompt_id\<rparr>) (is_store s)\<rparr>
          | None \<Rightarrow> s))
     in case is_durable s of
          None \<Rightarrow> memory
        | Some t \<Rightarrow> if ok then (Inr (), s\<lparr>is_durable := Some (sql_update_prompt_id key prompt_id t)\<rparr>)
                    else if is_strict_mode s then (Inl Backend_error, s) else memory)"

definition clear_store :: "bool \<Rightarrow> idem_store \<Rightarrow> idem_store" where
  "clear_store ok s = s\<lparr>is_store := [],
     is_durable := (case is_durable s of Some t \<Rightarrow> Some (if ok then [] else t) | None \<Rightarrow> None)\<rparr>"

subsection \<open>The common specification of the backends\<close>

text \<open>What either table promises, as a partial function from keys to entries.\<close>

definition check_spec :: "time \<Rightarrow> string \<Rightarrow> int \<Rightarrow> string option \<Rightarrow> (string \<rightharpoonup> idem_entry) \<Rightarrow>
    (bool \<times> string option) \<times> (string \<rightharpoonup> idem_entry)" where
  "check_spec now key ttl prompt_id f = (case f key of
       Some e \<Rightarrow> if ie_expires_at e > now then ((True, ie_prompt_id e), f(key \<mapsto> seen_again now e))
                  else ((False, None), f(key \<mapsto> new_entry now ttl prompt_id))
     | None \<Rightarrow> ((False, None), f(key \<mapsto> new_entry now ttl prompt_id)))"

definition sql_view :: "sql_table \<Rightarrow> string \<rightharpoonup> idem_entry" where
  "sql_view t key = map_option sr_entry (sql_select key t)"

abbreviation table_ok :: "sql_table \<Rightarrow> bool" where
  "table_ok t \<equiv> distinct (map sr_key t)"

lemma sql_select_None: "sql_select key t = None \<longleftrightarrow> key \<notin> sr_key ` set t"
  by (auto simp: sql_select_def find_None_iff)

lemma sql_select_map: "(\<And>r. sr_key (f r) = sr_key r) \<Longrightarrow> sql_select key (map f t) = map_option f (sql_select key t)"
  by (induction t) (auto simp: sql_select_def)

lemma sql_view_update: "sql_view (sql_update key f t) k = (if k = key then map_option f (sql_view t k) else sql_view t k)"
proof -
  have "sql_select k (sql_update key f t) = map_option (\<lambda>r. if sr_key r = key then r\<lparr>sr_entry := f (sr_entry r)\<rparr> else r) (sql_select k t)"
    unfolding sql_update_def by (rule sql_select_map) simp
  moreover have "sql_select k t = Some r \<Longrightarrow> sr_key r = k" for r
    by (auto simp: sql_select_def find_Some_iff)
  ultimately show ?thesis
    by (cases "sql_select k t") (auto simp: sql_view_def)
qed

lemma sql_view_delete_key: "sql_view (sql_delete (\<lambda>r. sr_key r = key) t) k = (if k = key then None else sql_view t k)"
  by (induction t) (auto simp: sql_view_def sql_select_def sql_delete_def)

lemma sql_view_snoc: "sql_view (t @ [r]) k = (if sql_view t k = None \<and> sr_key r = k then Some (sr_entry r) else sql_view t k)"
  by (induction t) (auto simp: sql_view_def sql_select_def)

lemma sql_view_delete:
  "table_ok t \<Longrightarrow> sql_view (sql_delete (\<lambda>r. P (sr_entry r)) t) k = (case sql_view t k of None \<Rightarrow> None
     | Some e \<Rightarrow> if P e then None else Some e)"
proof (induction t)
  case (Cons r t)
  then have "sr_key r = k \<Longrightarrow> sql_select k t = None" by (auto simp: sql_select_None)
  moreover have "sql_select k t = None \<Longrightarrow> sql_select k (filter (\<lambda>r. \<not> P (sr_entry r)) t) = None"
    by (auto simp: sql_select_None)
  ultimately show ?case
    using Cons by (auto simp: sql_view_def sql_select_def sql_delete_def)
qed (simp add: sql_view_def sql_select_def sql_delete_def)

lemma sql_update_keys [simp]: "map sr_key (sql_update key f t) = map sr_key t"
  by (simp add: sql_update_def)

lemma sql_delete_ok [intro]: "table_ok t \<Longrightarrow> table_ok (sql_delete P t)"
  by (simp add: sql_delete_def distinct_map_filter)

lemma sql_select_key_None: "sql_select key (sql_delete (\<lambda>r. sr_key r = key) t) = None"
  by (auto simp: sql_select_None sql_delete_def)

text \<open>The statements never violate the primary key, and implement the specification.\<close>

lemma sql_check_spec:
  assumes "table_ok t"
  obtains t' where "sql_check_and_record now key ttl p t = Some (fst (check_spec now key ttl p (sql_view t)), t')"
    and "table_ok t'" and "sql_view t' = snd (check_spec now key ttl p (sql_view t))"
proof (cases "sql_select key t")
  case None
  then have v: "sql_view t key = None" and nin: "key \<notin> sr_key ` set t" by (auto simp: sql_view_def sql_select_None)
  show ?thesis
    by (rule that [of "t @ [\<lparr>sr_key = key, sr_entry = new_entry now ttl p\<rparr>]"])
      (use None assms v nin in \<open>auto simp: sql_check_and_record_def sql_insert_def check_spec_def sql_view_snoc fun_eq_iff\<close>)
next
  case (Some row)
  then have v: "sql_view t key = Some (sr_entry row)" by (simp add: sql_view_def)
  show ?thesis
  proof (cases "ie_expires_at (sr_entry row) > now")
    case True
    then show ?thesis
      by (intro that [of "sql_update key (\<lambda>e. e\<lparr>ie_count := ie_count (sr_entry row) + 1, ie_last_seen_ts := now\<rparr>) t"])
        (use Some assms v in \<open>auto simp: sql_check_and_record_def check_spec_def sql_view_update seen_again_def fun_eq_iff\<close>)
  next
    case False
    let ?r = "\<lparr>sr_key = key, sr_entry = new_entry now ttl p\<rparr>"
    have "sql_insert ?r (sql_delete (\<lambda>r. sr_key r = key) t) = Some (sql_delete (\<lambda>r. sr_key r = key) t @ [?r])"
      by (simp add: sql_insert_def sql_select_key_None)
    moreover have "table_ok (sql_delete (\<lambda>r. sr_key r = key) t @ [?r])"
      using sql_delete_ok [OF assms, of "\<lambda>r. sr_key r = key"] by (auto simp: sql_delete_def)
    ultimately show ?thesis
      by (intro that [of "sql_delete (\<lambda>r. sr_key r = key) t @ [?r]"])
        (use Some False v in \<open>auto simp: sql_check_and_record_def check_spec_def sql_view_snoc sql_view_delete_key fun_eq_iff\<close>)
  qed
qed

lemma memory_check_spec:
  "fst (memory_check_and_record now key ttl p d) = fst (check_spec now key ttl p (dget d))"
  "dget (snd (memory_check_and_record now key ttl p d)) = snd (check_spec now key ttl p (dget d))"
  "dict_ok d \<Longrightarrow> dict_ok (snd (memory_check_and_record now key ttl p d))"
  by (auto simp: memory_check_and_record_def check_spec_def dict_simps fun_eq_iff split: option.split)


subsection \<open>The interface of a backend\<close>

text \<open>
  Answers of a sequence of calls (time, key, time to live, prompt). The locale is the
  protocol the store relies on; both tables implement it.
\<close>

fun run_checks :: "(time \<Rightarrow> string \<Rightarrow> int \<Rightarrow> string option \<Rightarrow> 's \<Rightarrow> ((bool \<times> string option) \<times> 's) option) \<Rightarrow>
    (time \<times> string \<times> int \<times> string option) list \<Rightarrow> 's \<Rightarrow> (bool \<times> string option) list" where
  "run_checks check [] s = []"
| "run_checks check ((now, key, ttl, p) # cs) s = (case check now key ttl p s of
       None \<Rightarrow> [] | Some (r, s') \<Rightarrow> r # run_checks check cs s')"

locale dedup_backend =
  fixes check :: "time \<Rightarrow> string \<Rightarrow> int \<Rightarrow> string option \<Rightarrow> 's \<Rightarrow> ((bool \<times> string option) \<times> 's) option"
    and view :: "'s \<Rightarrow> string \<rightharpoonup> idem_entry" and good :: "'s \<Rightarrow> bool"
  assumes check_refines: "good s \<Longrightarrow> \<exists>s'. check now key ttl p s = Some (fst (check_spec now key ttl p (view s)), s')
      \<and> good s' \<and> view s' = snd (check_spec now key ttl p (view s))"
begin

lemma run_refines: "good s \<Longrightarrow>
  run_checks check cs s = run_checks (\<lambda>now key ttl p f. Some (check_spec now key ttl p f)) cs (view s)"
proof (induction cs arbitrary: s)
  case (Cons c cs)
  obtain now key ttl p where c: "c = (now, key, ttl, p)" by (cases c)
  obtain s' where "check now key ttl p s = Some (fst (check_spec now key ttl p (view s)), s')"
    and "good s'" and "view s' = snd (check_spec now key ttl p (view s))"
    using check_refines [OF Cons.prems] by blast
  then show ?case using Cons.IH [of s'] by (simp add: c split_def)
qed simp

lemma run_complete: "good s \<Longrightarrow> length (run_checks check cs s) = length cs"
proof (induction cs arbitrary: s)
  case (Cons c cs)
  obtain now key ttl p where c: "c = (now, key, ttl, p)" by (cases c)
  obtain s' where "check now key ttl p s = Some (fst (check_spec now key ttl p (view s)), s')" and "good s'"
    using check_refines [OF Cons.prems] by blast
  then show ?case using Cons.IH [of s'] by (simp add: c)
qed simp

end

interpretation sqlite: dedup_backend sql_check_and_record sql_view table_ok
proof unfold_locales
  fix s :: sql_table and now key ttl p
  assume "table_ok s"
  then show "\<exists>s'. sql_check_and_record now key ttl p s = Some (fst (check_spec now key ttl p (sql_view s)), s')
      \<and> table_ok s' \<and> sql_view s' = snd (check_spec now key ttl p (sql_view s))"
    by (rule sql_check_spec) blast
qed

interpretation in_memory: dedup_backend "\<lambda>now key ttl p d. Some (memory_check_and_record now key ttl p d)" dget dict_ok
  by unfold_locales (simp add: memory_check_spec prod_eq_iff)

subsection \<open>Cleanup\<close>

lemma memory_cleanup_length:
  assumes "dict_ok d"
  shows "length (memory_cleanup now d) \<le> MAX_ITEMS"
proof -
  define d1 where "d1 = ddel_all (dkeys (filter (\<lambda>(k, v). ie_expires_at v < now) d)) d"
  define ks where "ks = take (length d1 - MAX_ITEMS) (dkeys (sort_key (\<lambda>item. ie_first_seen_ts (snd item)) d1))"
  have ok: "dict_ok d1" using assms by (auto simp: d1_def)
  have "length d1 = length (ddel_all ks d1) + length ks"
  proof (rule length_ddel_all [OF ok])
    have "distinct (dkeys (sort_key (\<lambda>item. ie_first_seen_ts (snd item)) d1))"
      using ok by (simp add: distinct_map)
    then show "distinct ks" by (simp add: ks_def)
    have "set ks \<subseteq> fst ` set d1" unfolding ks_def using set_take_subset by fastforce
    then show "\<forall>k \<in> set ks. dget d1 k \<noteq> None" by (auto simp: map_of_eq_None_iff)
  qed
  moreover have "length ks = length d1 - MAX_ITEMS" by (simp add: ks_def)
  ultimately have "MAX_ITEMS < length d1 \<Longrightarrow> length (ddel_all ks d1) \<le> MAX_ITEMS" by linarith
  then show ?thesis by (simp add: memory_cleanup_def Let_def flip: d1_def ks_def)
qed

lemma memory_cleanup_ok: "dict_ok d \<Longrightarrow> dict_ok (memory_cleanup now d)"
  by (simp add: memory_cleanup_def Let_def dict_ok_ddel_all)

text \<open>With at most the allowed number of items, only expired ones go.\<close>

lemma dget_memory_cleanup:
  assumes "dict_ok d" and "length d \<le> MAX_ITEMS"
  shows "dget (memory_cleanup now d) k = (case dget d k of None \<Rightarrow> None
     | Some e \<Rightarrow> if ie_expires_at e < now then None else Some e)"
proof -
  have eq: "ddel_all (dkeys (filter (\<lambda>(k, v). ie_expires_at v < now) d)) d = filter (\<lambda>p. \<not> (case p of (k, v) \<Rightarrow> ie_expires_at v < now)) d"
    by (rule ddel_all_matching [OF assms(1)])
  have len: "length (filter (\<lambda>p. \<not> (case p of (k, v) \<Rightarrow> ie_expires_at v < now)) d) \<le> MAX_ITEMS"
    by (rule order_trans [OF length_filter_le assms(2)])
  show ?thesis
    unfolding memory_cleanup_def Let_def eq using len
    by (simp add: dget_filter [OF assms(1)] not_less split: option.split)
qed

subsection \<open>The store as a gate\<close>

definition idem_inv :: "idem_store \<Rightarrow> bool" where
  "idem_inv s \<longleftrightarrow> dict_ok (is_store s) \<and> (\<forall>t. is_durable s = Some t \<longrightarrow> table_ok t)
     \<and> (is_strict_mode s \<or> is_durable s = None)"

text \<open>The entries the store decides on: the backend's when there is one.\<close>

definition idem_view :: "idem_store \<Rightarrow> string \<rightharpoonup> idem_entry" where
  "idem_view s = (case is_durable s of Some t \<Rightarrow> sql_view t | None \<Rightarrow> dget (is_store s))"

definition idem_live :: "time \<Rightarrow> idem_store \<Rightarrow> string \<Rightarrow> bool" where
  "idem_live now s key \<longleftrightarrow> (case idem_view s key of None \<Rightarrow> False | Some e \<Rightarrow> ie_expires_at e > now)"

definition idem_room :: "idem_store \<Rightarrow> bool" where
  "idem_room s \<longleftrightarrow> is_durable s \<noteq> None \<or> length (is_store s) \<le> MAX_ITEMS"

definition idem_gate :: "(time \<Rightarrow> bool) \<Rightarrow> (time \<Rightarrow> bool) \<Rightarrow> int \<Rightarrow> time \<Rightarrow> string \<Rightarrow> idem_store \<Rightarrow> bool \<times> idem_store" where
  "idem_gate okc ok ttl now key s = (let (r, s') = check_and_record (okc now) (ok now) now key None ttl s
     in (case r of Inr (dup, _) \<Rightarrow> \<not> dup | Inl _ \<Rightarrow> False, s'))"

lemma idem_cleanup_simps [simp]:
  "is_strict_mode (idem_cleanup okc now s) = is_strict_mode s"
  "is_durable (idem_cleanup okc now s) = None \<longleftrightarrow> is_durable s = None"
  by (auto simp: idem_cleanup_def Let_def split: option.split)

lemma idem_cleanup_inv: "idem_inv s \<Longrightarrow> idem_inv (idem_cleanup okc now s)"
  by (auto simp: idem_inv_def idem_cleanup_def Let_def memory_cleanup_ok sql_cleanup_def split: option.split)

lemma idem_cleanup_bound:
  "dict_ok (is_store s) \<Longrightarrow> length (is_store (idem_cleanup okc now s)) \<le> MAX_ITEMS"
  by (auto simp: idem_cleanup_def Let_def memory_cleanup_length split: option.split)

lemma idem_view_cleanup:
  assumes "idem_inv s" and "idem_room s"
  shows "idem_view (idem_cleanup okc now s) k = idem_view s k \<or>
    (\<exists>e. idem_view s k = Some e \<and> ie_expires_at e < now \<and> idem_view (idem_cleanup okc now s) k = None)"
proof (cases "is_durable s")
  case None
  then show ?thesis using assms dget_memory_cleanup [of "is_store s" now k]
    by (auto simp: idem_view_def idem_cleanup_def idem_inv_def idem_room_def Let_def split: option.split)
next
  case (Some t)
  then have "table_ok t" using assms(1) by (simp add: idem_inv_def)
  from sql_view_delete [OF this, of "\<lambda>e. ie_expires_at e < now" k] Some show ?thesis
    by (auto simp: idem_view_def idem_cleanup_def sql_cleanup_def Let_def split: option.split)
qed

text \<open>What a call does after its cleanup: fail without effect, or the specification.\<close>

lemma check_and_record_cases:
  fixes okc ok now key p ttl s
  assumes "idem_inv s"
  defines "c \<equiv> idem_cleanup okc now s"
  obtains (failed) err where "check_and_record okc ok now key p ttl s = (Inl err, c)"
  | (decided) s' where "check_and_record okc ok now key p ttl s = (Inr (fst (check_spec now key ttl p (idem_view c))), s')"
    and "idem_inv s'" and "idem_view s' = snd (check_spec now key ttl p (idem_view c))"
proof -
  have inv: "idem_inv c" using assms by (simp add: idem_cleanup_inv)
  show ?thesis
  proof (cases "is_durable c")
    case None
    obtain r d where m: "memory_check_and_record now key ttl p (is_store c) = (r, d)"
      by (cases "memory_check_and_record now key ttl p (is_store c)")
    show ?thesis
    proof (cases "is_strict_mode c")
      case True
      with None show ?thesis
        by (intro failed [of Backend_unavailable]) (simp add: check_and_record_def Let_def flip: c_def)
    next
      case False
      have d: "r = fst (check_spec now key ttl p (dget (is_store c)))"
        "dget d = snd (check_spec now key ttl p (dget (is_store c)))" "dict_ok d"
        using memory_check_spec [where d = "is_store c" and now = now and key = key and ttl = ttl and p = p] inv m by (simp_all add: idem_inv_def)
      show ?thesis
        by (rule decided [of "c\<lparr>is_store := d\<rparr>"])
          (use None False inv d in \<open>simp_all add: check_and_record_def Let_def memory_path_def m idem_view_def idem_inv_def flip: c_def\<close>)
    qed
  next
    case (Some t)
    then have t: "table_ok t" and strict: "is_strict_mode c" using inv by (auto simp: idem_inv_def)
    show ?thesis
    proof (cases ok)
      case True
      obtain t' where "sql_check_and_record now key ttl p t = Some (fst (check_spec now key ttl p (sql_view t)), t')"
        and "table_ok t'" and "sql_view t' = snd (check_spec now key ttl p (sql_view t))"
        using sql_check_spec [OF t] by blast
      then show ?thesis
        by (intro decided [of "c\<lparr>is_durable := Some t'\<rparr>"])
          (use Some True inv in \<open>simp_all add: check_and_record_def Let_def idem_view_def idem_inv_def flip: c_def\<close>)
    next
      case False
      then show ?thesis using Some strict
        by (intro failed [of Backend_error]) (simp add: check_and_record_def Let_def flip: c_def)
    qed
  qed
qed


lemma idem_gate_inv: "idem_inv s \<Longrightarrow> idem_inv (snd (idem_gate okc ok ttl now key s))"
  by (rule check_and_record_cases [where s = s and okc = "okc now" and ok = "ok now" and now = now
        and key = key and p = None and ttl = ttl])
    (auto simp: idem_gate_def Let_def idem_cleanup_inv)

lemma check_spec_accept: "fst (check_spec now key ttl p f) = (dup, pid) \<Longrightarrow>
  dup \<longleftrightarrow> (\<exists>e. f key = Some e \<and> ie_expires_at e > now)"
  by (auto simp: check_spec_def split: option.splits if_splits)

lemma check_spec_other: "k \<noteq> key \<Longrightarrow> snd (check_spec now key ttl p f) k = f k"
  by (auto simp: check_spec_def split: option.split)

lemma check_spec_keeps: "f key = Some e \<Longrightarrow> ie_expires_at e > now \<Longrightarrow>
  \<exists>e'. snd (check_spec now key ttl p f) key = Some e' \<and> ie_expires_at e' = ie_expires_at e"
  by (simp add: check_spec_def seen_again_def)

lemma check_spec_fresh: "fst (check_spec now key ttl p f) = (False, pid) \<Longrightarrow>
  snd (check_spec now key ttl p f) key = Some (new_entry now ttl p)"
  by (auto simp: check_spec_def split: option.splits if_splits)

text \<open>A live entry survives the cleanup.\<close>

lemma idem_live_cleanup:
  "idem_inv s \<Longrightarrow> idem_room s \<Longrightarrow> now \<le> later \<Longrightarrow> idem_live later s k \<Longrightarrow>
   idem_view (idem_cleanup okc now s) k = idem_view s k"
  using idem_view_cleanup [of s okc now k] by (auto simp: idem_live_def)

lemma idem_gate_reject: "idem_inv s \<Longrightarrow> idem_room s \<Longrightarrow> idem_live now s k \<Longrightarrow> \<not> fst (idem_gate okc ok ttl now k s)"
proof -
  assume inv: "idem_inv s" and room: "idem_room s" and live: "idem_live now s k"
  have v: "idem_view (idem_cleanup (okc now) now s) k = idem_view s k"
    using inv room live by (intro idem_live_cleanup) auto
  show ?thesis
    by (rule check_and_record_cases [OF inv, where okc = "okc now" and ok = "ok now" and now = now
        and key = k and p = None and ttl = ttl])
      (use live in \<open>auto simp: idem_gate_def Let_def idem_live_def check_spec_def v split: option.splits\<close>)
qed


lemma idem_gate_keep:
  assumes inv: "idem_inv s" and "idem_room s" and "now \<le> later"
    and live: "idem_live later s k \<or> (k = key \<and> fst (idem_gate okc ok ttl now key s) \<and> later < now + of_int ttl)"
  shows "idem_live later (snd (idem_gate okc ok ttl now key s)) k"
proof (rule check_and_record_cases [OF inv, where okc = "okc now" and ok = "ok now" and now = now
      and key = key and p = None and ttl = ttl])
  let ?c = "idem_cleanup (okc now) now s"
  have keep: "idem_view ?c k = idem_view s k" if "idem_live later s k"
    using inv assms(2,3) that by (rule idem_live_cleanup)
  fix err assume f: "check_and_record (okc now) (ok now) now key None ttl s = (Inl err, ?c)"
  then have "idem_live later s k" using live by (auto simp: idem_gate_def)
  then show ?thesis using keep by (simp add: idem_gate_def f idem_live_def)
next
  let ?c = "idem_cleanup (okc now) now s"
  let ?spec = "check_spec now key ttl None (idem_view ?c)"
  fix s' assume r: "check_and_record (okc now) (ok now) now key None ttl s = (Inr (fst ?spec), s')"
    and v: "idem_view s' = snd ?spec"
  show ?thesis
  proof (cases "fst (idem_gate okc ok ttl now key s) \<and> k = key")
    case True
    then obtain pid where "fst ?spec = (False, pid)" by (cases "fst ?spec") (simp add: idem_gate_def r)
    then have "idem_view s' key = Some (new_entry now ttl None)" unfolding v by (rule check_spec_fresh)
    have False if "\<not> later < now + of_int ttl" "\<not> idem_live later s k" using live that by blast
    moreover have "\<not> idem_live later s k \<or> now + of_int ttl > later"
    proof (rule ccontr)
      assume "\<not> ?thesis"
      then have l: "idem_live later s k" by simp
      have "idem_live now s key" using l True assms(3) by (auto simp: idem_live_def split: option.splits)
      then show False using True idem_gate_reject [OF inv assms(2)] by blast
    qed
    ultimately show ?thesis
      using True \<open>idem_view s' key = _\<close> by (auto simp: idem_gate_def r idem_live_def new_entry_def)
  next
    case False
    then have l: "idem_live later s k" using live by blast
    then obtain e where e: "idem_view ?c k = Some e" "ie_expires_at e > later"
      using inv assms(2,3) by (auto simp: idem_live_cleanup idem_live_def split: option.splits)
    then have "\<exists>e'. snd ?spec k = Some e' \<and> ie_expires_at e' = ie_expires_at e"
      using assms(3) by (cases "k = key") (auto simp: check_spec_other intro: check_spec_keeps)
    then show ?thesis using e(2) by (auto simp: idem_gate_def r idem_live_def v)
  qed
qed

interpretation idempotency: once_gate "idem_gate okc ok ttl" "\<lambda>_ k. k" idem_live idem_inv idem_room "of_int ttl"
  by unfold_locales (auto simp: idem_gate_inv idem_gate_reject intro: idem_gate_keep)


subsection \<open>The calls of a process\<close>

datatype idem_event = I_check bool bool time string "string option" int | I_update bool string string | I_clear bool

fun idem_step :: "idem_event \<Rightarrow> idem_store \<Rightarrow> idem_store" where
  "idem_step (I_check okc ok now key p ttl) s = snd (check_and_record okc ok now key p ttl s)"
| "idem_step (I_update ok key p) s = snd (update_prompt_id ok key p s)"
| "idem_step (I_clear ok) s = clear_store ok s"

definition idem_bounded :: "idem_store \<Rightarrow> bool" where
  "idem_bounded s \<longleftrightarrow> dict_ok (is_store s) \<and> length (is_store s) \<le> MAX_ITEMS + 1"

lemma memory_check_length: "length (snd (memory_check_and_record now key ttl p d)) \<le> length d + 1"
  using length_dput_le [of key "new_entry now ttl p" "ddel key d"] length_dput_le [of key "new_entry now ttl p" d]
    AList.length_delete_le [of key d]
  by (auto simp: memory_check_and_record_def length_dput split: option.split)

lemma memory_path_bounded: "dict_ok (is_store s) \<Longrightarrow> length (is_store s) \<le> MAX_ITEMS \<Longrightarrow>
  idem_bounded (snd (memory_path now key p ttl s))"
  using memory_check_length [of now key ttl p "is_store s"] memory_check_spec(3) [of "is_store s" now key ttl p]
  by (auto simp: memory_path_def idem_bounded_def split: prod.split)

lemma idem_cleanup_dict_ok: "dict_ok (is_store s) \<Longrightarrow> dict_ok (is_store (idem_cleanup okc now s))"
  by (auto simp: idem_cleanup_def Let_def memory_cleanup_ok split: option.split)

lemma idem_step_bounded: "idem_bounded s \<Longrightarrow> idem_bounded (idem_step e s)"
proof (cases e)
  case (I_check okc ok now key p ttl)
  assume "idem_bounded s"
  then have "dict_ok (is_store s)" by (simp add: idem_bounded_def)
  define c where "c = idem_cleanup okc now s"
  have c: "dict_ok (is_store c)" "length (is_store c) \<le> MAX_ITEMS"
    using idem_cleanup_bound [of s okc now] idem_cleanup_dict_ok [of s okc now] \<open>dict_ok (is_store s)\<close> by (simp_all add: c_def)
  then have "idem_bounded c" by (simp add: idem_bounded_def)
  moreover have "idem_bounded (c\<lparr>is_durable := t\<rparr>)" for t using c by (simp add: idem_bounded_def)
  moreover note memory_path_bounded [OF c, of now key p ttl]
  ultimately show ?thesis
    by (auto simp: I_check check_and_record_def Let_def split: option.split simp flip: c_def)
qed (auto simp: idem_bounded_def update_prompt_id_def clear_store_def Let_def dict_simps split: option.splits)

interpretation idem_process: machine idem_step idem_bounded
  by unfold_locales (rule idem_step_bounded)

subsection \<open>Properties\<close>

definition fresh_store :: "sql_table option \<Rightarrow> bool \<Rightarrow> idem_store" where
  "fresh_store t strict = \<lparr>is_store = [], is_last_cleanup = 0, is_durable = t, is_strict_mode = strict\<rparr>"

text \<open>
  C10: A store that is strict, or has no durable backend, accepts an event at most once within its
  time to live, whichever backend calls and cleanups fail: of all the checks of a key made in the
  window, at most one answers that it is new. Before every check the store has room: it has a durable
  backend, or holds at most 10000 keys in memory (beyond that it evicts keys that are still alive).
\<close>

theorem idem_at_most_once:
  assumes "idem_inv s" and "all_states idem_room (claim_run (idem_gate okc ok ttl) cs s)"
    and "sorted (map fst cs)" and "\<forall>(t, j) \<in> set cs. a \<le> t \<and> t < a + of_int ttl"
  shows "accepted (\<lambda>_ k. k) key cs (claim_run (idem_gate okc ok ttl) cs s) \<le> 1"
  using assms by (rule idempotency.at_most_once)

theorem idem_at_most_once_witness:
  "accepted (\<lambda>_ k. k) ''k'' [(1, ''k''), (2, ''k''), (3, ''j''), (4, ''k'')]
     (claim_run (idem_gate (\<lambda>t. True) (\<lambda>t. t \<noteq> 1) 3600) [(1, ''k''), (2, ''k''), (3, ''j''), (4, ''k'')]
        (fresh_store (Some []) True)) \<le> 1"
  by (rule idem_at_most_once [where a = 0])
    (simp add: fresh_store_def idem_inv_def, code_simp, simp, simp)



text \<open>
  Strict mode fails closed: when the backend is missing or its call raises, the check
  raises and neither the in-memory table gains an entry nor the backend's entries change
  beyond the cleanup.
\<close>

theorem strict_fails_closed:
  assumes "is_strict_mode s" and "is_durable s = None \<or> \<not> ok"
  shows "\<exists>err. check_and_record okc ok now key p ttl s = (Inl err, idem_cleanup okc now s)"
  using assms idem_cleanup_simps(2) [of okc now s]
  by (cases "is_durable (idem_cleanup okc now s)") (auto simp: check_and_record_def Let_def simp del: idem_cleanup_simps(2))

theorem strict_fails_closed_witness:
  "\<exists>err. check_and_record True False 5 ''k'' None 60 (fresh_store (Some []) True) =
     (Inl err, idem_cleanup True 5 (fresh_store (Some []) True))"
  by (rule strict_fails_closed) (simp_all add: fresh_store_def)

text \<open>
  The in-memory table never holds more than one entry above its limit, whatever calls
  a process makes.
\<close>

theorem idem_store_bounded:
  assumes "idem_bounded s"
  shows "length (is_store (fold idem_step es s)) \<le> MAX_ITEMS + 1"
  using idem_process.run_inv [OF assms, of es] by (simp add: idem_bounded_def)

theorem idem_store_bounded_witness:
  "length (is_store (fold idem_step [I_check True True 1 ''k'' None 60, I_clear True] (fresh_store None False)))
     \<le> MAX_ITEMS + 1"
  by (rule idem_store_bounded) (simp add: idem_bounded_def fresh_store_def)

text \<open>
  Without strict mode the fallback accepts an event twice: a failing backend call between
  two good ones goes to the empty in-memory table.
\<close>

lemma nonstrict_fallback_accepts_twice:
  "accepted (\<lambda>_ k. k) ''k'' [(1, ''k''), (2, ''k'')]
     (claim_run (idem_gate (\<lambda>t. True) (\<lambda>t. t \<noteq> 2) 3600) [(1, ''k''), (2, ''k'')]
        (fresh_store (Some []) False)) = 2"
  by code_simp

end
