(* ===== verification/Rate_Limit.thy ===== *)
theory Rate_Limit
  imports Contracts Env_Aliases Tenant
begin

text \<open>
  \<open>services/rate_limit.py\<close>: token buckets, the per-day counter and the hierarchical
  evaluation over endpoint class, daily cap, token, tenant and address. The clock of a call
  is one value in seconds since the epoch. A UTC day is its number since the epoch.
\<close>

definition DEFAULT_RETRY_AFTER_SECONDS :: int where "DEFAULT_RETRY_AFTER_SECONDS = 60"
definition IP_SCALED_MULTIPLIER :: real where "IP_SCALED_MULTIPLIER = 5"

record rl_decision =
  rd_allowed :: bool
  rd_limit_type :: string
  rd_bucket :: string
  rd_scope :: string
  rd_retry_after_sec :: int
  rd_reason_code :: string
  rd_endpoint_class :: string
  rd_ip :: string
  rd_token_id :: string
  rd_tenant_id :: string

datatype pval = P_str string | P_int int | P_bool bool

definition to_payload :: "string \<Rightarrow> bool \<Rightarrow> rl_decision \<Rightarrow> (string, pval) dict" where
  "to_payload error include_ok d =
    [(''error'', P_str error), (''code'', P_str ''rate_limit_exceeded''), (''bucket'', P_str (rd_bucket d)),
     (''scope'', P_str (rd_scope d)), (''retry_after_sec'', P_int (rd_retry_after_sec d)),
     (''reason_code'', P_str (rd_reason_code d)), (''endpoint_class'', P_str (rd_endpoint_class d))]
    @ (if include_ok then [(''ok'', P_bool False)] else [])"

record bucket_policy =
  bp_capacity :: int
  bp_tokens_per_second :: real

record rl_policy =
  rp_principal :: bucket_policy
  rp_tenant :: bucket_policy
  rp_ip :: bucket_policy
  rp_endpoint_class :: bucket_policy
  rp_daily_cap_env :: "string option"

subsection \<open>Token bucket\<close>

record token_bucket =
  tb_capacity :: real
  tb_tokens :: real
  tb_rate :: real
  tb_last_update :: time

definition mk_bucket :: "int \<Rightarrow> real \<Rightarrow> time \<Rightarrow> token_bucket" where
  "mk_bucket capacity tokens_per_second now = \<lparr>tb_capacity = of_int capacity, tb_tokens = of_int capacity,
     tb_rate = max 0 tokens_per_second, tb_last_update = now\<rparr>"

definition refill :: "time \<Rightarrow> token_bucket \<Rightarrow> token_bucket" where
  "refill now b = (let elapsed = max 0 (now - tb_last_update b) in
     b\<lparr>tb_last_update := now, tb_tokens := min (tb_capacity b) (tb_tokens b + elapsed * tb_rate b)\<rparr>)"

definition consume :: "time \<Rightarrow> int \<Rightarrow> token_bucket \<Rightarrow> (bool \<times> int) \<times> token_bucket" where
  "consume now amount b = (let b = refill now b in
     if tb_tokens b \<ge> of_int amount then ((True, 0), b\<lparr>tb_tokens := tb_tokens b - of_int amount\<rparr>)
     else if tb_rate b \<le> 0 then ((False, DEFAULT_RETRY_AFTER_SECONDS), b)
     else ((False, \<lfloor>max 1 ((of_int amount - tb_tokens b) / tb_rate b + 999999 / 1000000)\<rfloor>), b))"

subsection \<open>Daily counter\<close>

definition utc_day_key :: "time \<Rightarrow> int" where
  "utc_day_key now = \<lfloor>now / 86400\<rfloor>"

definition seconds_until_next_utc_day :: "time \<Rightarrow> int" where
  "seconds_until_next_utc_day now = max 1 \<lfloor>of_int (utc_day_key now + 1) * 86400 - now\<rfloor>"

type_synonym day_counts = "(string, int \<times> int) dict"

definition check_and_increment :: "time \<Rightarrow> string \<Rightarrow> int \<Rightarrow> day_counts \<Rightarrow> (bool \<times> int) \<times> day_counts" where
  "check_and_increment now key cap counts = (if cap \<le> 0 then ((True, 0), counts) else
     let day_key = utc_day_key now;
         (current_day, current_count) = (case dget counts key of Some c \<Rightarrow> c | None \<Rightarrow> (day_key, 0));
         current_count = (if current_day \<noteq> day_key then 0 else current_count)
     in if current_count \<ge> cap then ((False, seconds_until_next_utc_day now), counts)
        else ((True, 0), dput key (day_key, current_count + 1) counts))"

subsection \<open>Rate limiter\<close>

record limiter =
  rl_buckets :: "(string, (string, token_bucket) dict) dict"
  rl_daily :: day_counts

definition policy :: "int \<Rightarrow> string option \<Rightarrow> rl_policy" where
  "policy base_capacity daily_env = (let base_rate = of_int base_capacity / 60 in
     \<lparr>rp_principal = \<lparr>bp_capacity = base_capacity, bp_tokens_per_second = base_rate\<rparr>,
      rp_tenant = \<lparr>bp_capacity = base_capacity * 3, bp_tokens_per_second = base_rate * 3\<rparr>,
      rp_ip = \<lparr>bp_capacity = base_capacity, bp_tokens_per_second = base_rate\<rparr>,
      rp_endpoint_class = \<lparr>bp_capacity = base_capacity * 10, bp_tokens_per_second = base_rate * 10\<rparr>,
      rp_daily_cap_env = daily_env\<rparr>)"

definition policies :: "(string, rl_policy) dict" where
  "policies =
    [(''webhook'', policy 30 (Some ''OPENCLAW_RATE_LIMIT_WEBHOOK_DAILY_CAP'')),
     (''logs'', policy 60 None),
     (''admin'', policy 20 (Some ''OPENCLAW_RATE_LIMIT_ADMIN_DAILY_CAP'')),
     (''bridge'', policy 20 (Some ''OPENCLAW_RATE_LIMIT_BRIDGE_DAILY_CAP'')),
     (''connector'', policy 20 (Some ''OPENCLAW_RATE_LIMIT_CONNECTOR_DAILY_CAP'')),
     (''trigger'', policy 60 (Some ''OPENCLAW_RATE_LIMIT_TRIGGER_DAILY_CAP'')),
     (''events'', policy 30 (Some ''OPENCLAW_RATE_LIMIT_EVENTS_DAILY_CAP''))]"

definition policy_for :: "string \<Rightarrow> rl_policy" where
  "policy_for limit_type = (case dget policies limit_type of Some p \<Rightarrow> p
     | None \<Rightarrow> policy 30 (Some ''OPENCLAW_RATE_LIMIT_WEBHOOK_DAILY_CAP''))"

definition bucket_type :: "string \<Rightarrow> string \<Rightarrow> string" where
  "bucket_type limit_type bucket = limit_type @ '':'' @ bucket"

definition typed_buckets :: "limiter \<Rightarrow> string \<Rightarrow> (string, token_bucket) dict" where
  "typed_buckets l bt = (case dget (rl_buckets l) bt of Some d \<Rightarrow> d | None \<Rightarrow> [])"

text \<open>The bucket of a scope, made on first use with the capacity of that call.\<close>

definition get_bucket :: "time \<Rightarrow> string \<Rightarrow> string \<Rightarrow> bucket_policy \<Rightarrow> limiter \<Rightarrow> token_bucket" where
  "get_bucket now bt scope_value p l = (case dget (typed_buckets l bt) scope_value of
       Some b \<Rightarrow> b | None \<Rightarrow> mk_bucket (bp_capacity p) (bp_tokens_per_second p) now)"

definition check_bucket ::
  "time \<Rightarrow> string \<Rightarrow> string \<Rightarrow> string \<Rightarrow> bucket_policy \<Rightarrow> string \<Rightarrow> string \<Rightarrow> string \<Rightarrow> limiter \<Rightarrow> rl_decision \<times> limiter" where
  "check_bucket now limit_type bucket scope_value p ip token_id tenant_id l =
    (let bt = bucket_type limit_type bucket;
         ((allowed, retry_after), b) = consume now 1 (get_bucket now bt scope_value p l)
     in (\<lparr>rd_allowed = allowed, rd_limit_type = limit_type, rd_bucket = bucket,
          rd_scope = bucket @ '':'' @ scope_value,
          rd_retry_after_sec = (if allowed then 0 else retry_after),
          rd_reason_code = (if allowed then ''allowed'' else ''burst_limit_exceeded''),
          rd_endpoint_class = limit_type, rd_ip = ip, rd_token_id = token_id, rd_tenant_id = tenant_id\<rparr>,
         l\<lparr>rl_buckets := dput bt (dput scope_value b (typed_buckets l bt)) (rl_buckets l)\<rparr>))"

definition principal_scope :: "string \<Rightarrow> string \<Rightarrow> string \<Rightarrow> string \<times> string" where
  "principal_scope token_id tenant_id ip =
    (if token_id \<noteq> ''anonymous'' then (''token_id'', token_id)
     else if tenant_id \<noteq> DEFAULT_TENANT_ID then (''tenant'', tenant_id)
     else (''ip'', ip))"

text \<open>
  \<open>env_name.replace("OPENCLAW_", "MOLTBOT_", 1)\<close>; the six names of the policies are
  supported dynamic aliases, so the lookup of these never raises.
\<close>

definition get_daily_cap :: "env \<Rightarrow> string option \<Rightarrow> int option" where
  "get_daily_cap env env_name = (case env_name of
       None \<Rightarrow> None
     | Some name \<Rightarrow>
         (case get_env_value env name (Some [''MOLTBOT_'' @ drop 9 name]) (Some []) of
            Inl _ \<Rightarrow> None
          | Inr value \<Rightarrow>
              let raw = py_strip (case value of Some v \<Rightarrow> v | None \<Rightarrow> []) in
              if raw = [] then None
              else (case py_int raw of None \<Rightarrow> None | Some n \<Rightarrow> if n > 0 then Some n else None)))"

definition ip_policy_for :: "rl_policy \<Rightarrow> string \<Rightarrow> string \<Rightarrow> bucket_policy" where
  "ip_policy_for p token_id tenant_id =
    (if token_id \<noteq> ''anonymous'' \<or> tenant_id \<noteq> DEFAULT_TENANT_ID
     then \<lparr>bp_capacity = max 1 (bp_capacity (rp_ip p) * 5),
           bp_tokens_per_second = bp_tokens_per_second (rp_ip p) * IP_SCALED_MULTIPLIER\<rparr>
     else rp_ip p)"

definition strip_or :: "string option \<Rightarrow> string \<Rightarrow> string" where
  "strip_or v dflt = (let s = py_strip (case v of Some t \<Rightarrow> t | None \<Rightarrow> []) in if s = [] then dflt else s)"

text \<open>
  An early return: the next stage runs only on an allowing decision. A stage whose
  condition does not hold is skipped.
\<close>

definition unless_denied :: "(limiter \<Rightarrow> rl_decision \<times> limiter) \<Rightarrow> (limiter \<Rightarrow> rl_decision \<times> limiter) \<Rightarrow>
    limiter \<Rightarrow> rl_decision \<times> limiter" where
  "unless_denied stage rest l = (let (d, l') = stage l in if rd_allowed d then rest l' else (d, l'))"

definition only_if :: "bool \<Rightarrow> (limiter \<Rightarrow> rl_decision \<times> limiter) \<Rightarrow> rl_decision \<Rightarrow> limiter \<Rightarrow> rl_decision \<times> limiter" where
  "only_if cond stage dflt l = (if cond then stage l else (dflt, l))"

definition allow_decision :: "string \<Rightarrow> string \<Rightarrow> string \<Rightarrow> string \<Rightarrow> rl_decision" where
  "allow_decision limit_type ip token_id tenant_id = \<lparr>rd_allowed = True, rd_limit_type = limit_type,
     rd_bucket = ''allow'', rd_scope = ''endpoint_class:'' @ limit_type, rd_retry_after_sec = 0,
     rd_reason_code = ''allowed'', rd_endpoint_class = limit_type, rd_ip = ip,
     rd_token_id = token_id, rd_tenant_id = tenant_id\<rparr>"

definition check_daily :: "time \<Rightarrow> int option \<Rightarrow> string \<Rightarrow> string \<Rightarrow> string \<Rightarrow> string \<Rightarrow> limiter \<Rightarrow> rl_decision \<times> limiter" where
  "check_daily now daily_cap limit_type ip token_id tenant_id l = (case daily_cap of
       None \<Rightarrow> (allow_decision limit_type ip token_id tenant_id, l)
     | Some cap \<Rightarrow>
         (let (principal_bucket, scope) = principal_scope token_id tenant_id ip;
              ((daily_allowed, retry_after), counts) = check_and_increment now
                 (limit_type @ '':'' @ principal_bucket @ '':'' @ scope) cap (rl_daily l);
              l = l\<lparr>rl_daily := counts\<rparr>
          in if daily_allowed then (allow_decision limit_type ip token_id tenant_id, l)
             else (\<lparr>rd_allowed = False, rd_limit_type = limit_type, rd_bucket = ''daily'',
                     rd_scope = principal_bucket @ '':'' @ scope, rd_retry_after_sec = retry_after,
                     rd_reason_code = ''daily_cap_exceeded'', rd_endpoint_class = limit_type,
                     rd_ip = ip, rd_token_id = token_id, rd_tenant_id = tenant_id\<rparr>, l)))"

definition evaluate ::
  "env \<Rightarrow> time \<Rightarrow> string \<Rightarrow> string \<Rightarrow> string option \<Rightarrow> string option \<Rightarrow> limiter \<Rightarrow> rl_decision \<times> limiter" where
  "evaluate env now limit_type ip token tenant l =
    (let ip = (if ip = [] then ''unknown'' else ip);
         token_id = strip_or token ''anonymous'';
         tenant_id = strip_or tenant DEFAULT_TENANT_ID;
         p = policy_for limit_type;
         allow = allow_decision limit_type ip token_id tenant_id
     in unless_denied (check_bucket now limit_type ''endpoint_class'' limit_type (rp_endpoint_class p)
            ''unknown'' ''anonymous'' DEFAULT_TENANT_ID)
       (unless_denied (check_daily now (get_daily_cap env (rp_daily_cap_env p)) limit_type ip token_id tenant_id)
       (unless_denied (only_if (token_id \<noteq> ''anonymous'')
          (check_bucket now limit_type ''token_id'' token_id (rp_principal p) ip token_id tenant_id) allow)
       (unless_denied (only_if (tenant_id \<noteq> DEFAULT_TENANT_ID)
          (check_bucket now limit_type ''tenant'' tenant_id (rp_tenant p) ip token_id tenant_id) allow)
       (unless_denied (check_bucket now limit_type ''ip'' ip (ip_policy_for p token_id tenant_id) ip token_id tenant_id)
       (\<lambda>l. (allow, l)))))) l)"

text \<open>
  The scope of a request: the address the network layer resolves, the token (its id and
  tenant, when it resolves to one) and the headers; a tenant in a header replaces the
  token's, and an invalid header is ignored.
\<close>

definition resolve_rate_limit_context ::
  "env \<Rightarrow> string \<Rightarrow> (string \<times> string) option \<Rightarrow> (string \<rightharpoonup> string) option \<Rightarrow> string \<times> string \<times> string" where
  "resolve_rate_limit_context env client_ip token_info headers =
    (let ip = (if client_ip = [] then ''unknown'' else client_ip);
         (token_id, tenant_id) = (case token_info of
             Some (tid, ten) \<Rightarrow> if tid \<noteq> [] then (tid, if ten = [] then DEFAULT_TENANT_ID else ten)
                               else (''anonymous'', DEFAULT_TENANT_ID)
           | None \<Rightarrow> (''anonymous'', DEFAULT_TENANT_ID));
         tenant_id = (case headers of None \<Rightarrow> tenant_id
           | Some h \<Rightarrow> (case extract_tenant_from_headers env h of
                 Inr (Some header_tenant) \<Rightarrow> header_tenant
               | _ \<Rightarrow> tenant_id))
     in (ip, token_id, tenant_id))"

text \<open>
  One decision per limit type and request: the request's cache. \<open>rq\<close> is the request's
  address, token and headers.
\<close>

definition evaluate_rate_limit ::
  "env \<Rightarrow> time \<Rightarrow> string \<times> (string \<times> string) option \<times> (string \<rightharpoonup> string) option \<Rightarrow> string \<Rightarrow>
   (string, rl_decision) dict \<Rightarrow> limiter \<Rightarrow> rl_decision \<times> (string, rl_decision) dict \<times> limiter" where
  "evaluate_rate_limit env now rq limit_type cache l = (case dget cache limit_type of
       Some d \<Rightarrow> (d, cache, l)
     | None \<Rightarrow>
         (let (client_ip, token_info, headers) = rq;
              (ip, token_id, tenant_id) = resolve_rate_limit_context env client_ip token_info headers;
              (d, l') = evaluate env now limit_type ip (Some token_id) (Some tenant_id) l
          in (d, dput limit_type d cache, l')))"

definition build_rate_limit_payload :: "(string, rl_decision) dict \<Rightarrow> string \<Rightarrow> string \<Rightarrow> bool \<Rightarrow> (string, pval) dict" where
  "build_rate_limit_payload cache limit_type error include_ok =
    to_payload error include_ok (case dget cache limit_type of
       Some d \<Rightarrow> d
     | None \<Rightarrow> \<lparr>rd_allowed = False, rd_limit_type = limit_type, rd_bucket = ''unknown'',
         rd_scope = ''endpoint_class:'' @ limit_type, rd_retry_after_sec = DEFAULT_RETRY_AFTER_SECONDS,
         rd_reason_code = ''rate_limit_exceeded'', rd_endpoint_class = limit_type, rd_ip = ''unknown'',
         rd_token_id = ''anonymous'', rd_tenant_id = DEFAULT_TENANT_ID\<rparr>)"

subsection \<open>The bucket\<close>

definition bucket_ok :: "token_bucket \<Rightarrow> bool" where
  "bucket_ok b \<longleftrightarrow> 0 \<le> tb_rate b \<and> 0 \<le> tb_tokens b \<and> tb_tokens b \<le> tb_capacity b"

lemma refill_ok: "bucket_ok b \<Longrightarrow> bucket_ok (refill now b)"
  by (auto simp: bucket_ok_def refill_def Let_def)

lemma refill_simps [simp]: "tb_capacity (refill now b) = tb_capacity b" "tb_rate (refill now b) = tb_rate b"
  "tb_last_update (refill now b) = now"
  by (simp_all add: refill_def Let_def)

lemma consume_simps [simp]: "tb_capacity (snd (consume now n b)) = tb_capacity b"
  "tb_rate (snd (consume now n b)) = tb_rate b" "tb_last_update (snd (consume now n b)) = now"
  by (auto simp: consume_def Let_def)

lemma consume_ok: "bucket_ok b \<Longrightarrow> 0 \<le> n \<Longrightarrow> bucket_ok (snd (consume now n b))"
  using refill_ok [of b now] by (auto simp: consume_def Let_def bucket_ok_def)

lemma mk_bucket_ok: "0 \<le> cap \<Longrightarrow> bucket_ok (mk_bucket cap rate now)"
  by (simp add: mk_bucket_def bucket_ok_def)

text \<open>What is left to spend until a time: the tokens and what comes in until then.\<close>

definition spendable :: "time \<Rightarrow> token_bucket \<Rightarrow> real" where
  "spendable until b = tb_tokens b + tb_rate b * (until - tb_last_update b)"

lemma consume_spends:
  assumes "bucket_ok b" and "tb_last_update b \<le> now"
  shows "(if fst (fst (consume now n b)) then of_int n else 0) + spendable until (snd (consume now n b)) \<le> spendable until b"
proof -
  have "tb_tokens (refill now b) \<le> tb_tokens b + (now - tb_last_update b) * tb_rate b"
    using assms by (auto simp: refill_def Let_def)
  then have "spendable until (refill now b) \<le> spendable until b"
    by (simp add: spendable_def algebra_simps)
  moreover have "(if fst (fst (consume now n b)) then of_int n else 0) + spendable until (snd (consume now n b)) = spendable until (refill now b)"
    by (auto simp: consume_def Let_def spendable_def)
  ultimately show ?thesis by simp
qed

text \<open>
  What is left in a window that starts at \<open>a\<close>: a bucket not used since earlier is first refilled up
  to \<open>a\<close>, which its capacity bounds.
\<close>

definition window_left :: "time \<Rightarrow> time \<Rightarrow> token_bucket \<Rightarrow> real" where
  "window_left a until b = spendable until (refill (max a (tb_last_update b)) b)"

lemma refill_twice:
  assumes "bucket_ok b" and "tb_last_update b \<le> m" and "m \<le> now"
  shows "refill now (refill m b) = refill now b"
proof -
  define x y where "x = (m - tb_last_update b) * tb_rate b" and "y = (now - m) * tb_rate b"
  have "0 \<le> y" using assms by (simp add: y_def bucket_ok_def)
  then have "min (tb_capacity b) (min (tb_capacity b) (tb_tokens b + x) + y) = min (tb_capacity b) (tb_tokens b + (x + y))" by linarith
  moreover have "(now - tb_last_update b) * tb_rate b = x + y" by (simp add: x_def y_def algebra_simps)
  ultimately show ?thesis using assms(2,3) by (simp add: refill_def Let_def x_def y_def)
qed

lemma window_left_now: "bucket_ok b \<Longrightarrow> a \<le> tb_last_update b \<Longrightarrow> window_left a until b = spendable until b"
  by (simp add: window_left_def refill_def spendable_def bucket_ok_def Let_def max_def)

lemma window_left_bound:
  assumes "bucket_ok b" and "a \<le> until" and "tb_last_update b \<le> until"
  shows "0 \<le> window_left a until b" and "window_left a until b \<le> tb_capacity b + tb_rate b * (until - a)"
proof -
  let ?m = "max a (tb_last_update b)"
  have ok: "bucket_ok (refill ?m b)" using refill_ok [OF assms(1)] .
  have left: "0 \<le> tb_rate b * (until - ?m)" "tb_rate b * (until - ?m) \<le> tb_rate b * (until - a)"
    using assms by (auto simp: bucket_ok_def intro: mult_left_mono)
  show "0 \<le> window_left a until b" using ok left(1) by (simp add: window_left_def spendable_def bucket_ok_def)
  show "window_left a until b \<le> tb_capacity b + tb_rate b * (until - a)"
    using ok left(2) by (simp add: window_left_def spendable_def bucket_ok_def)
qed

definition consume_one :: "time \<Rightarrow> token_bucket \<Rightarrow> bool \<times> token_bucket" where
  "consume_one now b = (let ((allowed, _), b') = consume now 1 b in (allowed, b'))"

lemma consume_one_eq: "consume_one now b = (fst (fst (consume now 1 b)), snd (consume now 1 b))"
  by (simp add: consume_one_def split_def Let_def)

definition bucket_ready :: "time \<Rightarrow> time list \<Rightarrow> token_bucket \<Rightarrow> bool" where
  "bucket_ready until ts b \<longleftrightarrow> bucket_ok b \<and> sorted (tb_last_update b # ts) \<and> (\<forall>t \<in> set ts. t \<le> until)
     \<and> tb_last_update b \<le> until"

interpretation bucket: metered consume_one "\<lambda>_. True" "spendable until" "bucket_ready until"
proof unfold_locales
  show "0 \<le> spendable until b" if "bucket_ready until ts b" for ts b
    using that by (simp add: bucket_ready_def spendable_def bucket_ok_def)
  fix t ts b assume r: "bucket_ready until (t # ts) b"
  then show "bucket_ready until ts (snd (consume_one t b))"
    by (auto simp: bucket_ready_def consume_one_eq intro: consume_ok)
  show "(if fst (consume_one t b) \<and> True then 1 else 0) + spendable until (snd (consume_one t b)) \<le> spendable until b"
    using consume_spends [of b t 1 until] r by (simp add: consume_one_eq bucket_ready_def split: if_splits)
qed

lemma consume_window:
  assumes "bucket_ok b" and "a \<le> now" and "tb_last_update b \<le> now"
  shows "(if fst (consume_one now b) then 1 else 0) + window_left a until (snd (consume_one now b)) \<le> window_left a until b"
proof -
  let ?b = "refill (max a (tb_last_update b)) b"
  have same: "consume now 1 b = consume now 1 ?b" unfolding consume_def using refill_twice [OF assms(1), of "max a (tb_last_update b)" now] assms(2,3) by simp
  have "window_left a until (snd (consume_one now b)) = spendable until (snd (consume_one now b))"
    by (rule window_left_now) (use assms in \<open>simp_all add: consume_one_eq consume_ok\<close>)
  then show ?thesis using consume_spends [OF refill_ok [OF assms(1)], of "max a (tb_last_update b)" now 1 until] assms(2,3)
    by (simp add: consume_one_eq same window_left_def split: if_splits)
qed

text \<open>A refusal's retry time: from then on, up to a microsecond, the bucket can pay.\<close>

lemma consume_retry:
  assumes "bucket_ok b" and "tb_rate b > 0" and "consume now n b = ((False, r), b')"
    and "of_int n \<le> tb_capacity b" and "later \<ge> now + of_int r + 1 / 1000000"
  shows "fst (fst (consume later n b'))"
proof -
  define x where "x = (of_int n - tb_tokens (refill now b)) / tb_rate b"
  have b': "b' = refill now b" and r: "r = \<lfloor>max 1 (x + 999999 / 1000000)\<rfloor>"
    using assms(2,3) by (auto simp: consume_def Let_def x_def split: if_splits)
  have "of_int r > max 1 (x + 999999 / 1000000) - 1" unfolding r by linarith
  then have "later - now \<ge> x" using assms(5) by linarith
  then have "(later - now) * tb_rate b \<ge> of_int n - tb_tokens b'"
    using assms(2) by (simp add: x_def b' pos_divide_le_eq)
  moreover have "later \<ge> now"
  proof -
    have "1 \<le> r" unfolding r by simp
    then have "(1::real) \<le> of_int r" by simp
    then show ?thesis using assms(5) by linarith
  qed
  ultimately have "tb_tokens (refill later b') \<ge> of_int n"
    using assms(4) by (simp add: refill_def [of later] Let_def b')
  then show ?thesis by (simp add: consume_def Let_def)
qed

subsection \<open>Evaluation and the endpoint bucket\<close>

definition endpoint_bucket :: "string \<Rightarrow> limiter \<Rightarrow> token_bucket option" where
  "endpoint_bucket lt l = dget (typed_buckets l (bucket_type lt ''endpoint_class'')) lt"

lemma unless_denied_allowed:
  "rd_allowed (fst (unless_denied stage rest l)) \<Longrightarrow> rd_allowed (fst (stage l))"
  by (auto simp: unless_denied_def split: prod.splits if_splits)

lemma unless_denied_keeps:
  "(\<And>l. q (snd (rest l)) = q l) \<Longrightarrow> q (snd (unless_denied stage rest l)) = q (snd (stage l))"
  by (auto simp: unless_denied_def split: prod.splits if_splits)

lemma check_bucket_bucket:
  "rd_allowed (fst (check_bucket now lt bk v p ip tok ten l)) = fst (fst (consume now 1 (get_bucket now (bucket_type lt bk) v p l)))"
  "rl_buckets (snd (check_bucket now lt bk v p ip tok ten l)) =
    dput (bucket_type lt bk) (dput v (snd (consume now 1 (get_bucket now (bucket_type lt bk) v p l)))
      (typed_buckets l (bucket_type lt bk))) (rl_buckets l)"
  "rl_daily (snd (check_bucket now lt bk v p ip tok ten l)) = rl_daily l"
  by (simp_all add: check_bucket_def Let_def split_def)

lemma typed_buckets_check:
  "typed_buckets (snd (check_bucket now lt bk v p ip tok ten l)) bt =
    (if bt = bucket_type lt bk
     then dput v (snd (consume now 1 (get_bucket now bt v p l))) (typed_buckets l bt)
     else typed_buckets l bt)"
  by (simp add: typed_buckets_def check_bucket_bucket dict_simps)

lemma bucket_type_endpoint:
  "bucket_type lt' ''endpoint_class'' = bucket_type lt ''endpoint_class'' \<longleftrightarrow> lt' = lt"
  "bucket_type lt' ''token_id'' \<noteq> bucket_type lt ''endpoint_class''"
  "bucket_type lt' ''tenant'' \<noteq> bucket_type lt ''endpoint_class''"
  "bucket_type lt' ''ip'' \<noteq> bucket_type lt ''endpoint_class''"
proof -
  have rev: "bucket_type a b = bucket_type c d \<longleftrightarrow> rev b @ '':'' @ rev a = rev d @ '':'' @ rev c" for a b c d
    unfolding bucket_type_def by (metis append_assoc rev_append rev_rev_ident rev_singleton_conv)
  show "bucket_type lt' ''endpoint_class'' = bucket_type lt ''endpoint_class'' \<longleftrightarrow> lt' = lt"
    by (simp add: bucket_type_def)
  show "bucket_type lt' ''token_id'' \<noteq> bucket_type lt ''endpoint_class''"
    and "bucket_type lt' ''tenant'' \<noteq> bucket_type lt ''endpoint_class''"
    and "bucket_type lt' ''ip'' \<noteq> bucket_type lt ''endpoint_class''"
    unfolding rev by simp_all
qed

lemma endpoint_check_other: "bk \<in> {''token_id'', ''tenant'', ''ip''} \<Longrightarrow>
  endpoint_bucket lt (snd (check_bucket now lt' bk v p ip tok ten l)) = endpoint_bucket lt l"
  using bucket_type_endpoint [of lt' lt] by (auto simp: endpoint_bucket_def typed_buckets_check)

lemma endpoint_check_other_type: "lt' \<noteq> lt \<Longrightarrow>
  endpoint_bucket lt (snd (check_bucket now lt' ''endpoint_class'' v p ip tok ten l)) = endpoint_bucket lt l"
  by (auto simp: endpoint_bucket_def typed_buckets_check bucket_type_endpoint(1))

lemma endpoint_check:
  "endpoint_bucket lt (snd (check_bucket now lt ''endpoint_class'' lt p ip tok ten l)) =
    Some (snd (consume now 1 (get_bucket now (bucket_type lt ''endpoint_class'') lt p l)))"
  by (simp add: endpoint_bucket_def typed_buckets_check dict_simps)

lemma endpoint_get: "get_bucket now (bucket_type lt ''endpoint_class'') lt p l =
  (case endpoint_bucket lt l of Some b \<Rightarrow> b | None \<Rightarrow> mk_bucket (bp_capacity p) (bp_tokens_per_second p) now)"
  by (simp add: get_bucket_def endpoint_bucket_def)

lemma check_daily_buckets [simp]: "rl_buckets (snd (check_daily now cap lt ip tok ten l)) = rl_buckets l"
  by (auto simp: check_daily_def Let_def split: option.split prod.split)

lemma endpoint_daily: "endpoint_bucket lt (snd (check_daily now cap lt' ip tok ten l)) = endpoint_bucket lt l"
  by (simp add: endpoint_bucket_def typed_buckets_def)

lemma only_if_keeps: "(\<And>l. q (snd (stage l)) = q l) \<Longrightarrow> q (snd (only_if c stage d l)) = q l"
  by (simp add: only_if_def)

text \<open>Only the first stage touches the endpoint bucket, and no decision allows past its refusal.\<close>

lemma evaluate_endpoint:
  fixes lt lt' env now ip tok ten l
  defines "p \<equiv> rp_endpoint_class (policy_for lt')"
  shows "endpoint_bucket lt (snd (evaluate env now lt' ip tok ten l)) = (if lt' = lt
      then Some (snd (consume now 1 (get_bucket now (bucket_type lt ''endpoint_class'') lt p l)))
      else endpoint_bucket lt l)"
    and "rd_allowed (fst (evaluate env now lt' ip tok ten l)) \<Longrightarrow>
      fst (fst (consume now 1 (get_bucket now (bucket_type lt' ''endpoint_class'') lt' p l)))"
proof -
  have "endpoint_bucket lt (snd (evaluate env now lt' ip tok ten l)) =
    endpoint_bucket lt (snd (check_bucket now lt' ''endpoint_class'' lt' p ''unknown'' ''anonymous'' DEFAULT_TENANT_ID l))"
    unfolding evaluate_def Let_def p_def
    by (subst unless_denied_keeps [where q = "endpoint_bucket lt"])
      (simp_all add: unless_denied_keeps [where q = "endpoint_bucket lt"] only_if_keeps [where q = "endpoint_bucket lt"]
        endpoint_check_other endpoint_daily)
  then show "endpoint_bucket lt (snd (evaluate env now lt' ip tok ten l)) = (if lt' = lt
      then Some (snd (consume now 1 (get_bucket now (bucket_type lt ''endpoint_class'') lt p l)))
      else endpoint_bucket lt l)"
    by (auto simp: endpoint_check endpoint_check_other_type)
  show "rd_allowed (fst (evaluate env now lt' ip tok ten l)) \<Longrightarrow>
      fst (fst (consume now 1 (get_bucket now (bucket_type lt' ''endpoint_class'') lt' p l)))"
    unfolding evaluate_def Let_def p_def
    by (drule unless_denied_allowed) (simp add: check_bucket_bucket)
qed


text \<open>The calls of a process, and the potential of the endpoint budget.\<close>

type_synonym rl_call = "time \<times> string \<times> string \<times> string option \<times> string option"

definition eval_step :: "env \<Rightarrow> rl_call \<Rightarrow> limiter \<Rightarrow> bool \<times> limiter" where
  "eval_step env c l = (let (now, lt, ip, tok, ten) = c; (d, l') = evaluate env now lt ip tok ten l in (rd_allowed d, l'))"

definition of_type :: "string \<Rightarrow> rl_call \<Rightarrow> bool" where
  "of_type lt c \<longleftrightarrow> fst (snd c) = lt"

definition endpoint_left :: "string \<Rightarrow> time \<Rightarrow> time \<Rightarrow> limiter \<Rightarrow> real" where
  "endpoint_left lt a until l = (let p = rp_endpoint_class (policy_for lt) in
     case endpoint_bucket lt l of Some b \<Rightarrow> window_left a until b
     | None \<Rightarrow> spendable until (mk_bucket (bp_capacity p) (bp_tokens_per_second p) a))"

text \<open>The bucket of the class has the capacity and the rate of its policy.\<close>

definition class_bucket :: "string \<Rightarrow> token_bucket \<Rightarrow> bool" where
  "class_bucket lt b \<longleftrightarrow> tb_capacity b = of_int (bp_capacity (rp_endpoint_class (policy_for lt)))
     \<and> tb_rate b = max 0 (bp_tokens_per_second (rp_endpoint_class (policy_for lt)))"

definition limiter_ready :: "string \<Rightarrow> time \<Rightarrow> time \<Rightarrow> rl_call list \<Rightarrow> limiter \<Rightarrow> bool" where
  "limiter_ready lt a until cs l \<longleftrightarrow> sorted (map fst cs) \<and> (\<forall>c \<in> set cs. a \<le> fst c \<and> fst c \<le> until) \<and> a \<le> until
     \<and> (\<forall>b. endpoint_bucket lt l = Some b \<longrightarrow> bucket_ready until (map fst cs) b \<and> class_bucket lt b)"

lemma policy_capacity: "0 \<le> bp_capacity (rp_endpoint_class (policy_for lt))"
  by (auto simp: policy_for_def policies_def policy_def Let_def split: option.split)

lemma mk_bucket_spendable: "now \<ge> a \<Longrightarrow> spendable until (mk_bucket cap rate now) \<le> spendable until (mk_bucket cap rate a)"
  by (simp add: spendable_def mk_bucket_def mult_left_mono)

text \<open>The bucket the next call of this type spends from.\<close>

lemma limiter_next:
  fixes p now
  assumes "limiter_ready lt a until ((now, lt', ip, tok, ten) # cs) l"
  defines "p \<equiv> rp_endpoint_class (policy_for lt)"
  defines "b \<equiv> get_bucket now (bucket_type lt ''endpoint_class'') lt p l"
  shows "bucket_ready until (now # map fst cs) b" and "class_bucket lt b" and "window_left a until b \<le> endpoint_left lt a until l"
proof -
  have r: "sorted (now # map fst cs)" "a \<le> now" "now \<le> until" "\<forall>t \<in> set (map fst cs). t \<le> until"
    using assms(1) by (auto simp: limiter_ready_def)
  let ?new = "mk_bucket (bp_capacity p) (bp_tokens_per_second p) now"
  have new: "bucket_ready until (now # map fst cs) ?new"
    using r policy_capacity [of lt] by (force simp: bucket_ready_def mk_bucket_ok p_def mk_bucket_def bucket_ok_def)
  then show "bucket_ready until (now # map fst cs) b"
    using assms(1) by (auto simp: b_def endpoint_get limiter_ready_def split: option.split)
  have "class_bucket lt ?new" by (simp add: class_bucket_def mk_bucket_def p_def)
  then show "class_bucket lt b" using assms(1) by (auto simp: b_def endpoint_get limiter_ready_def split: option.split)
  have "window_left a until ?new = spendable until ?new"
    by (rule window_left_now) (use new r(2) in \<open>simp_all add: bucket_ready_def mk_bucket_def\<close>)
  then show "window_left a until b \<le> endpoint_left lt a until l"
    using mk_bucket_spendable [OF r(2)] by (auto simp: b_def endpoint_get endpoint_left_def Let_def p_def split: option.split)
qed

interpretation endpoint: metered "eval_step env" "of_type lt" "endpoint_left lt a until" "limiter_ready lt a until"
proof unfold_locales
  show "0 \<le> endpoint_left lt a until l" if "limiter_ready lt a until cs l" for cs l
    using that policy_capacity [of lt]
    by (auto simp: endpoint_left_def limiter_ready_def Let_def spendable_def mk_bucket_def bucket_ready_def intro: window_left_bound split: option.split)
  fix c cs l assume r: "limiter_ready lt a until (c # cs) l"
  obtain now lt' ip tok ten where c: "c = (now, lt', ip, tok, ten)" by (cases c)
  define b where "b = get_bucket now (bucket_type lt ''endpoint_class'') lt (rp_endpoint_class (policy_for lt)) l"
  have b: "bucket_ready until (now # map fst cs) b" "class_bucket lt b" "window_left a until b \<le> endpoint_left lt a until l"
    using limiter_next [of lt a until now lt' ip tok ten cs l] r by (simp_all add: c b_def)
  have step: "eval_step env c l = (rd_allowed (fst (evaluate env now lt' ip tok ten l)), snd (evaluate env now lt' ip tok ten l))"
    by (simp add: eval_step_def c split_def Let_def)
  have ep: "endpoint_bucket lt (snd (eval_step env c l)) = (if lt' = lt then Some (snd (consume_one now b)) else endpoint_bucket lt l)"
    by (simp add: step evaluate_endpoint(1) consume_one_eq b_def)
  have "bucket_ready until (map fst cs) (snd (consume_one now b))" using b(1) by (rule bucket.step_ready)
  moreover have "class_bucket lt (snd (consume_one now b))" using b(2) by (simp add: class_bucket_def consume_one_eq)
  moreover have "bucket_ready until (map fst cs) b'" if "bucket_ready until (now # map fst cs) b'" for b'
    using that by (auto simp: bucket_ready_def)
  ultimately show "limiter_ready lt a until cs (snd (eval_step env c l))"
    using r unfolding limiter_ready_def ep by (auto simp: c split: if_splits)
  show "(if fst (eval_step env c l) \<and> of_type lt c then 1 else 0) + endpoint_left lt a until (snd (eval_step env c l))
      \<le> endpoint_left lt a until l"
  proof (cases "lt' = lt")
    case True
    have "fst (eval_step env c l) \<Longrightarrow> fst (consume_one now b)"
      using evaluate_endpoint(2) [of env now lt' ip tok ten l] by (simp add: step consume_one_eq b_def True)
    moreover have "endpoint_left lt a until (snd (eval_step env c l)) = window_left a until (snd (consume_one now b))"
      by (simp add: endpoint_left_def ep True)
    moreover have "(if fst (consume_one now b) then 1 else 0) + window_left a until (snd (consume_one now b)) \<le> window_left a until b"
      by (rule consume_window) (use b(1) r in \<open>auto simp: bucket_ready_def limiter_ready_def c\<close>)
    ultimately show ?thesis using b(3) by (auto split: if_splits)
  next
    case False
    then have "endpoint_left lt a until (snd (eval_step env c l)) = endpoint_left lt a until l"
      by (simp add: endpoint_left_def ep)
    then show ?thesis using False by (simp add: of_type_def c)
  qed
qed

definition limiter_after :: "env \<Rightarrow> rl_call list \<Rightarrow> limiter \<Rightarrow> limiter" where
  "limiter_after env cs l = fold (\<lambda>c l. snd (eval_step env c l)) cs l"

lemma limiter_after_ready:
  "limiter_ready lt a until (pre @ cs) l \<Longrightarrow> limiter_ready lt a until cs (limiter_after env pre l)"
  by (induction pre arbitrary: l) (auto simp: limiter_after_def intro: endpoint.step_ready)

lemma endpoint_left_bound:
  assumes "limiter_ready lt a until cs l"
  shows "endpoint_left lt a until l \<le> of_int (bp_capacity (rp_endpoint_class (policy_for lt)))
    + max 0 (bp_tokens_per_second (rp_endpoint_class (policy_for lt))) * (until - a)"
proof (cases "endpoint_bucket lt l")
  case None
  then show ?thesis by (simp add: endpoint_left_def spendable_def mk_bucket_def Let_def)
next
  case (Some b)
  then have "bucket_ready until (map fst cs) b" "class_bucket lt b" "a \<le> until" using assms by (simp_all add: limiter_ready_def)
  then show ?thesis using window_left_bound(2) [of b a until] by (simp add: endpoint_left_def Some bucket_ready_def class_bucket_def)
qed

subsection \<open>The daily cap\<close>

definition used_on :: "int \<Rightarrow> string \<Rightarrow> day_counts \<Rightarrow> int" where
  "used_on day key counts = (case dget counts key of Some (d, n) \<Rightarrow> if d = day then n else 0 | None \<Rightarrow> 0)"

definition daily_step :: "int \<Rightarrow> time \<times> string \<Rightarrow> day_counts \<Rightarrow> bool \<times> day_counts" where
  "daily_step cap c counts = (let ((allowed, _), counts') = check_and_increment (fst c) (snd c) cap counts in (allowed, counts'))"

definition daily_ready :: "int \<Rightarrow> string \<Rightarrow> int \<Rightarrow> (time \<times> string) list \<Rightarrow> day_counts \<Rightarrow> bool" where
  "daily_ready day key cap cs counts \<longleftrightarrow> 0 < cap \<and> used_on day key counts \<le> cap \<and> (\<forall>c \<in> set cs. utc_day_key (fst c) = day)"

lemma daily_step_cases:
  assumes "0 < cap" and "utc_day_key now = day"
  shows "daily_step cap (now, k) counts = (if used_on day k counts \<ge> cap then (False, counts)
    else (True, dput k (day, used_on day k counts + 1) counts))"
  using assms by (auto simp: daily_step_def check_and_increment_def used_on_def Let_def split: option.split)

interpretation daily: metered "daily_step cap" "\<lambda>c. snd c = key" "\<lambda>counts. of_int (cap - used_on day key counts)"
  "daily_ready day key cap"
proof unfold_locales
  show "0 \<le> real_of_int (cap - used_on day key counts)" if "daily_ready day key cap cs counts" for cs counts
    using that by (simp add: daily_ready_def)
  fix c cs counts assume r: "daily_ready day key cap (c # cs) counts"
  then have eq: "daily_step cap c counts = (if used_on day (snd c) counts \<ge> cap then (False, counts)
    else (True, dput (snd c) (day, used_on day (snd c) counts + 1) counts))"
    using daily_step_cases [of cap "fst c" day "snd c" counts] by (simp add: daily_ready_def)
  have used: "used_on day key (dput k (day, n) counts) = (if k = key then n else used_on day key counts)" for k n
    by (simp add: used_on_def dict_simps)
  show "daily_ready day key cap cs (snd (daily_step cap c counts))"
    using r by (auto simp: eq daily_ready_def used)
  show "(if fst (daily_step cap c counts) \<and> snd c = key then 1 else 0) + real_of_int (cap - used_on day key (snd (daily_step cap c counts)))
      \<le> real_of_int (cap - used_on day key counts)"
    by (auto simp: eq used)
qed

subsection \<open>Properties\<close>

text \<open>
  C17: The endpoint-class budget holds for everybody together: whatever addresses, tokens and
  tenants the callers present, and whatever calls came before, in any time window the limiter allows
  at most the class's capacity plus its rate times the window; a class that was idle before the
  window gains no more than its capacity. The calls since the limiter was made are ordered in time.
\<close>

theorem endpoint_budget:
  assumes "sorted (map fst (pre @ cs))" and "\<forall>c \<in> set cs. a \<le> fst c \<and> fst c \<le> until" and "a \<le> until"
    and "endpoint_bucket lt l = None"
  shows "real (granted (eval_step env) (of_type lt) cs (limiter_after env pre l))
    \<le> of_int (bp_capacity (rp_endpoint_class (policy_for lt)))
      + max 0 (bp_tokens_per_second (rp_endpoint_class (policy_for lt))) * (until - a)"
proof -
  define lo hi where "lo = Min (insert a (set (map fst (pre @ cs))))" and "hi = Max (insert until (set (map fst (pre @ cs))))"
  have bounds: "lo \<le> t \<and> t \<le> hi" if "t \<in> set (map fst (pre @ cs))" for t using that by (simp add: lo_def hi_def)
  moreover have "lo \<le> a" "until \<le> hi" by (simp_all add: lo_def hi_def)
  ultimately have "limiter_ready lt lo hi (pre @ cs) l" using assms(1,3,4) by (auto simp: limiter_ready_def)
  note ready = limiter_after_ready [OF this, of env]
  have ordered: "tb_last_update b \<le> until" if "endpoint_bucket lt (limiter_after env pre l) = Some b" "cs \<noteq> []" for b
    using ready that assms(2) by (cases cs) (fastforce simp: limiter_ready_def bucket_ready_def)+
  show ?thesis
  proof (cases "cs = []")
    case True
    then show ?thesis using assms(3) policy_capacity [of lt] by simp
  next
    case False
    then have "limiter_ready lt a until cs (limiter_after env pre l)"
      using ready ordered assms(2,3) by (auto simp: limiter_ready_def bucket_ready_def)
    then show ?thesis using endpoint.granted_le [of lt a until cs "limiter_after env pre l" env] endpoint_left_bound by fastforce
  qed
qed

theorem endpoint_budget_witness:
  "real (granted (eval_step Map.empty) (of_type ''admin'')
     [(1000, ''admin'', ''1.2.3.4'', None, None), (1001, ''admin'', ''5.6.7.8'', Some ''t'', Some ''acme'')]
     (limiter_after Map.empty [(1, ''admin'', ''9.9.9.9'', None, None)] \<lparr>rl_buckets = [], rl_daily = []\<rparr>)) \<le> 200 + 200 / 60 * 10"
proof -
  have "policy_for ''admin'' = policy 20 (Some ''OPENCLAW_RATE_LIMIT_ADMIN_DAILY_CAP'')"
    by (simp add: policy_for_def policies_def)
  then show ?thesis
    using endpoint_budget [of "[(1, ''admin'', ''9.9.9.9'', None, None)]"
        "[(1000, ''admin'', ''1.2.3.4'', None, None), (1001, ''admin'', ''5.6.7.8'', Some ''t'', Some ''acme'')]"
        1000 1010 "''admin''" "\<lparr>rl_buckets = [], rl_daily = []\<rparr>" Map.empty]
    by (simp add: endpoint_bucket_def typed_buckets_def policy_def Let_def)
qed

text \<open>
  A token bucket that holds between nothing and its capacity grants, in any
  time-ordered sequence of requests, at most the tokens it holds plus its rate times the
  time that passes.
\<close>

theorem bucket_rate_bound:
  assumes "bucket_ok b" and "sorted (tb_last_update b # ts)" and "\<forall>t \<in> set ts. t \<le> until" and "tb_last_update b \<le> until"
  shows "real (granted consume_one (\<lambda>_. True) ts b) \<le> tb_tokens b + tb_rate b * (until - tb_last_update b)"
  using bucket.granted_le [of until ts b] assms by (simp add: bucket_ready_def spendable_def)

theorem bucket_rate_bound_witness:
  "real (granted consume_one (\<lambda>_. True) [1, 2, 3, 4] (mk_bucket 2 (1 / 2) 0)) \<le> 2 + 1 / 2 * 4"
  using bucket_rate_bound [of "mk_bucket 2 (1 / 2) 0" "[1, 2, 3, 4]" 4] by (simp add: mk_bucket_def bucket_ok_def)

text \<open>
  The retry time of a refusal is honest: a bucket that refuses \<open>n\<close> tokens, no more
  than its capacity, grants them to the same request made when the announced time and one
  microsecond have passed, and the time is at most one second longer than needed (or the
  minimum of one second).
\<close>

theorem retry_after_sufficient:
  assumes "bucket_ok b" and "tb_rate b > 0" and "consume now n b = ((False, r), b')"
    and "of_int n \<le> tb_capacity b"
  shows "(\<forall>later \<ge> now + of_int r + 1 / 1000000. fst (fst (consume later n b')))
    \<and> 1 \<le> r \<and> of_int r \<le> max 1 ((of_int n - tb_tokens b') / tb_rate b' + 1)"
proof -
  have b': "b' = refill now b" and r: "r = \<lfloor>max 1 ((of_int n - tb_tokens b') / tb_rate b' + 999999 / 1000000)\<rfloor>"
    using assms(2,3) by (auto simp: consume_def Let_def split: if_splits)
  have "of_int r \<le> max 1 ((of_int n - tb_tokens b') / tb_rate b' + 1)" unfolding r by linarith
  moreover have "1 \<le> r" unfolding r by simp
  ultimately show ?thesis using consume_retry [OF assms] by blast
qed

theorem retry_after_sufficient_witness:
  "fst (fst (consume 3 1 (refill 0 (mk_bucket 0 1 0)\<lparr>tb_capacity := 1\<rparr>)))"
proof -
  let ?b = "(mk_bucket 0 1 0)\<lparr>tb_capacity := 1\<rparr>"
  have "\<lfloor>2 - 1 / (1000000::real)\<rfloor> = 1" by linarith
  then have "consume 0 1 ?b = ((False, 1), refill 0 ?b)"
    by (simp add: consume_def refill_def mk_bucket_def Let_def)
  from retry_after_sufficient [OF _ _ this] show ?thesis
    by (simp add: bucket_ok_def mk_bucket_def refill_def Let_def)
qed

text \<open>
  Within a UTC day a principal is granted at most the daily cap, whatever other keys
  are counted in between.
\<close>

theorem daily_cap:
  assumes "0 < cap" and "used_on day key counts \<le> cap" and "\<forall>c \<in> set cs. utc_day_key (fst c) = day"
  shows "int (granted (daily_step cap) (\<lambda>c. snd c = key) cs counts) \<le> cap - used_on day key counts"
  using daily.granted_le [of day key cap cs counts] assms unfolding daily_ready_def
  by (metis of_int_le_iff of_int_of_nat_eq)

theorem daily_cap_witness:
  "int (granted (daily_step 2) (\<lambda>c. snd c = ''k'') [(10, ''k''), (20, ''j''), (30, ''k''), (40, ''k'')] []) \<le> 2"
  using daily_cap [of 2 0 "''k''" "[]" "[(10, ''k''), (20, ''j''), (30, ''k''), (40, ''k'')]"]
  by (simp add: used_on_def utc_day_key_def)

text \<open>A bucket keeps the capacity of the call that made it, whatever policy a later call has.\<close>

lemma bucket_capacity_frozen:
  assumes "dget (typed_buckets l bt) v = Some b"
  shows "get_bucket now bt v p l = b" and "tb_capacity (snd (consume now n (get_bucket now bt v p l))) = tb_capacity b"
  using assms by (simp_all add: get_bucket_def)

end
