(* ===== verification/Approvals.thy ===== *)
theory Approvals
  imports Contracts Delivery_Contract Tenant
begin

text \<open>
  \<open>services/approvals\<close>: the requests (\<open>models.py\<close>), their store (\<open>storage.py\<close>) and the
  service (\<open>service.py\<close>). A timestamp text is given by the instant it denotes; \<open>io\<close> says
  whether writing the file succeeds. The store hands out its own objects, so an operation
  that changes the request it got has changed the store before it saves.
\<close>

subsection \<open>Requests\<close>

datatype approval_status = PENDING | APPROVED | REJECTED | EXPIRED

definition status_value :: "approval_status \<Rightarrow> string" where
  "status_value s = (case s of PENDING \<Rightarrow> ''pending'' | APPROVED \<Rightarrow> ''approved''
     | REJECTED \<Rightarrow> ''rejected'' | EXPIRED \<Rightarrow> ''expired'')"

definition status_of :: "string \<Rightarrow> approval_status option" where
  "status_of v = find (\<lambda>s. status_value s = v) [PENDING, APPROVED, REJECTED, EXPIRED]"

datatype approval_source = TRIGGER | CHATOPS | SIDECAR | SCHEDULER | MANUAL

definition source_value :: "approval_source \<Rightarrow> string" where
  "source_value s = (case s of TRIGGER \<Rightarrow> ''trigger'' | CHATOPS \<Rightarrow> ''chatops'' | SIDECAR \<Rightarrow> ''sidecar''
     | SCHEDULER \<Rightarrow> ''scheduler'' | MANUAL \<Rightarrow> ''manual'')"

definition source_of :: "string \<Rightarrow> approval_source option" where
  "source_of v = find (\<lambda>s. source_value s = v) [TRIGGER, CHATOPS, SIDECAR, SCHEDULER, MANUAL]"

record approval =
  ar_approval_id :: string
  ar_template_id :: string
  ar_inputs :: jobject
  ar_source :: approval_source
  ar_trace_id :: "string option"
  ar_tenant_id :: string
  ar_status :: approval_status
  ar_requested_at :: time
  ar_requested_by :: "string option"
  ar_expires_at :: "time option"
  ar_approved_at :: "time option"
  ar_rejected_at :: "time option"
  ar_decision_by :: "string option"
  ar_delivery :: "jobject option"
  ar_metadata :: jobject

datatype approval_error = Bad_id | Bad_template | Bad_tenant | Create_failed | Not_found | Has_expired
  | Cannot_change approval_status | Update_failed

text \<open>
  \<open>re.match(r"^apr_[a-zA-Z0-9_-]+$", s)\<close>: with \<open>$\<close> a final newline is let through. The
  failing match raises only when the prefix is missing, too.
\<close>

definition id_char :: "char \<Rightarrow> bool" where
  "id_char c \<longleftrightarrow> is_alnum c \<or> c = CHR ''_'' \<or> c = CHR ''-''"

definition approval_id_re :: "string \<Rightarrow> bool" where
  "approval_id_re s \<longleftrightarrow> (let body = (\<lambda>t. starts_with ''apr_'' t \<and> drop 4 t \<noteq> [] \<and> list_all id_char (drop 4 t))
     in body s \<or> (s \<noteq> [] \<and> last s = CHR 0x0A \<and> body (butlast s)))"

definition validate_approval :: "approval \<Rightarrow> approval_error + approval" where
  "validate_approval a =
    (if (ar_approval_id a = [] \<or> \<not> approval_id_re (ar_approval_id a)) \<and> \<not> starts_with ''apr_'' (ar_approval_id a)
       then Inl Bad_id
     else if ar_template_id a = [] \<or> length (ar_template_id a) > 128 then Inl Bad_template
     else (case normalize_tenant_id (ar_tenant_id a) of
             Inl _ \<Rightarrow> Inl Bad_tenant
           | Inr t \<Rightarrow> Inr (a\<lparr>ar_tenant_id := t\<rparr>)))"

definition generate_id :: "string \<Rightarrow> string" where
  "generate_id uuid_hex = ''apr_'' @ take 12 uuid_hex"

definition is_pending :: "approval \<Rightarrow> bool" where
  "is_pending a \<longleftrightarrow> ar_status a = PENDING"

definition is_terminal :: "approval \<Rightarrow> bool" where
  "is_terminal a \<longleftrightarrow> ar_status a \<in> {APPROVED, REJECTED, EXPIRED}"

definition is_expired :: "time \<Rightarrow> approval \<Rightarrow> bool" where
  "is_expired now a = (case ar_expires_at a of None \<Rightarrow> False | Some e \<Rightarrow> now \<ge> e)"

definition mark_approved :: "time \<Rightarrow> string option \<Rightarrow> approval \<Rightarrow> approval_error + approval" where
  "mark_approved now actor a = (if \<not> is_pending a then Inl (Cannot_change (ar_status a))
     else Inr (a\<lparr>ar_status := APPROVED, ar_approved_at := Some now, ar_decision_by := actor\<rparr>))"

definition mark_rejected :: "time \<Rightarrow> string option \<Rightarrow> approval \<Rightarrow> approval_error + approval" where
  "mark_rejected now actor a = (if \<not> is_pending a then Inl (Cannot_change (ar_status a))
     else Inr (a\<lparr>ar_status := REJECTED, ar_rejected_at := Some now, ar_decision_by := actor\<rparr>))"

definition mark_expired :: "approval \<Rightarrow> approval_error + approval" where
  "mark_expired a = (if \<not> is_pending a then Inl (Cannot_change (ar_status a))
     else Inr (a\<lparr>ar_status := EXPIRED\<rparr>))"

text \<open>Rows of the file: a value is absent (\<open>null\<close>), a text, an instant or an object.\<close>

datatype aval = A_null | A_str string | A_time time | A_obj jobject

type_synonym arow = "(string, aval) dict"

definition opt_val :: "('a \<Rightarrow> aval) \<Rightarrow> 'a option \<Rightarrow> aval" where
  "opt_val f v = (case v of None \<Rightarrow> A_null | Some x \<Rightarrow> f x)"

definition approval_to_dict :: "approval \<Rightarrow> arow" where
  "approval_to_dict a =
    [(''approval_id'', A_str (ar_approval_id a)), (''template_id'', A_str (ar_template_id a)),
     (''inputs'', A_obj (ar_inputs a)), (''source'', A_str (source_value (ar_source a))),
     (''trace_id'', opt_val A_str (ar_trace_id a)), (''tenant_id'', A_str (ar_tenant_id a)),
     (''status'', A_str (status_value (ar_status a))), (''requested_at'', A_time (ar_requested_at a)),
     (''requested_by'', opt_val A_str (ar_requested_by a)), (''expires_at'', opt_val A_time (ar_expires_at a)),
     (''approved_at'', opt_val A_time (ar_approved_at a)), (''rejected_at'', opt_val A_time (ar_rejected_at a)),
     (''decision_by'', opt_val A_str (ar_decision_by a)), (''delivery'', opt_val A_obj (ar_delivery a)),
     (''metadata'', A_obj (ar_metadata a))]"

text \<open>
  Reading a row: an absent optional field takes its default, a required one or a field of
  another type than the writer's is a row that is skipped.
\<close>

definition str_field :: "arow \<Rightarrow> string \<Rightarrow> string option \<Rightarrow> string option" where
  "str_field r k dflt = (case dget r k of None \<Rightarrow> dflt | Some (A_str s) \<Rightarrow> Some s | Some _ \<Rightarrow> None)"

definition obj_field :: "arow \<Rightarrow> string \<Rightarrow> jobject option" where
  "obj_field r k = (case dget r k of None \<Rightarrow> Some [] | Some (A_obj d) \<Rightarrow> Some d | Some _ \<Rightarrow> None)"

definition opt_str :: "arow \<Rightarrow> string \<Rightarrow> string option option" where
  "opt_str r k = (case dget r k of None \<Rightarrow> Some None | Some A_null \<Rightarrow> Some None
     | Some (A_str s) \<Rightarrow> Some (Some s) | Some _ \<Rightarrow> None)"

definition opt_time :: "arow \<Rightarrow> string \<Rightarrow> time option option" where
  "opt_time r k = (case dget r k of None \<Rightarrow> Some None | Some A_null \<Rightarrow> Some None
     | Some (A_time t) \<Rightarrow> Some (Some t) | Some _ \<Rightarrow> None)"

definition opt_obj :: "arow \<Rightarrow> string \<Rightarrow> jobject option option" where
  "opt_obj r k = (case dget r k of None \<Rightarrow> Some None | Some A_null \<Rightarrow> Some None
     | Some (A_obj d) \<Rightarrow> Some (Some d) | Some _ \<Rightarrow> None)"

definition approval_from_dict :: "time \<Rightarrow> arow \<Rightarrow> approval option" where
  "approval_from_dict now r =
    Option.bind (str_field r ''approval_id'' None) (\<lambda>aid.
    Option.bind (str_field r ''template_id'' None) (\<lambda>template.
    Option.bind (obj_field r ''inputs'') (\<lambda>inputs.
    Option.bind (Option.bind (str_field r ''source'' (Some ''trigger'')) source_of) (\<lambda>source.
    Option.bind (opt_str r ''trace_id'') (\<lambda>trace.
    Option.bind (str_field r ''tenant_id'' (Some DEFAULT_TENANT_ID)) (\<lambda>tenant.
    Option.bind (Option.bind (str_field r ''status'' (Some ''pending'')) status_of) (\<lambda>status.
    Option.bind (case dget r ''requested_at'' of None \<Rightarrow> Some now | Some (A_time t) \<Rightarrow> Some t | Some _ \<Rightarrow> None) (\<lambda>requested_at.
    Option.bind (opt_str r ''requested_by'') (\<lambda>requested_by.
    Option.bind (opt_time r ''expires_at'') (\<lambda>expires_at.
    Option.bind (opt_time r ''approved_at'') (\<lambda>approved_at.
    Option.bind (opt_time r ''rejected_at'') (\<lambda>rejected_at.
    Option.bind (opt_str r ''decision_by'') (\<lambda>decision_by.
    Option.bind (opt_obj r ''delivery'') (\<lambda>delivery.
    Option.bind (obj_field r ''metadata'') (\<lambda>metadata.
    (case validate_approval \<lparr>ar_approval_id = aid, ar_template_id = template, ar_inputs = inputs,
        ar_source = source, ar_trace_id = trace, ar_tenant_id = tenant, ar_status = status,
        ar_requested_at = requested_at, ar_requested_by = requested_by, ar_expires_at = expires_at,
        ar_approved_at = approved_at, ar_rejected_at = rejected_at, ar_decision_by = decision_by,
        ar_delivery = delivery, ar_metadata = metadata\<rparr> of
       Inl _ \<Rightarrow> None | Inr a \<Rightarrow> Some a))))))))))))))))"

subsection \<open>The store\<close>

definition MAX_APPROVALS :: nat where "MAX_APPROVALS = 10000"
definition RETENTION_DAYS :: int where "RETENTION_DAYS = 30"

type_synonym approvals = "(string, approval) dict"

datatype afile = A_missing | A_broken | A_rows "arow list"

record astore =
  as_approvals :: approvals
  as_file :: afile
  as_loaded :: bool

definition load_approvals :: "time \<Rightarrow> afile \<Rightarrow> approvals" where
  "load_approvals now f = (case f of
       A_rows rows \<Rightarrow> fold (\<lambda>r d. case approval_from_dict now r of
           Some a \<Rightarrow> dput (ar_approval_id a) a d | None \<Rightarrow> d) rows []
     | _ \<Rightarrow> [])"

definition save_approvals :: "bool \<Rightarrow> astore \<Rightarrow> bool \<times> astore" where
  "save_approvals io s = (if io then (True, s\<lparr>as_file := A_rows (map approval_to_dict (dvals (as_approvals s)))\<rparr>)
     else (False, s))"

definition astore_loaded :: "time \<Rightarrow> astore \<Rightarrow> astore" where
  "astore_loaded now s = (if as_loaded s then s
     else s\<lparr>as_approvals := load_approvals now (as_file s), as_loaded := True\<rparr>)"

definition match_tenant :: "env \<Rightarrow> approval \<Rightarrow> string option \<Rightarrow> bool" where
  "match_tenant env a tenant_id = (if \<not> is_multi_tenant_enabled env then True
     else case tenant_id of None \<Rightarrow> True
        | Some t \<Rightarrow> ar_tenant_id a = (case normalize_tenant_id t of Inr n \<Rightarrow> n | Inl _ \<Rightarrow> DEFAULT_TENANT_ID))"

definition store_get :: "env \<Rightarrow> string \<Rightarrow> string option \<Rightarrow> astore \<Rightarrow> approval option" where
  "store_get env approval_id tenant_id s = (case dget (as_approvals s) approval_id of
       None \<Rightarrow> None
     | Some a \<Rightarrow> if match_tenant env a tenant_id then Some a else None)"

text \<open>
  \<open>_cleanup_old_approvals\<close>: the terminal approvals in the order of the dict; \<open>.days\<close> of
  a difference rounds down.
\<close>

definition cleanup_victims :: "time \<Rightarrow> approvals \<Rightarrow> string list" where
  "cleanup_victims now d = fold (\<lambda>(aid, a) to_remove.
      if \<lfloor>(now - ar_requested_at a) / 86400\<rfloor> > RETENTION_DAYS
          \<or> int (length d) - int (length to_remove) \<ge> int MAX_APPROVALS - 100
      then to_remove @ [aid] else to_remove)
    (filter (\<lambda>(aid, a). is_terminal a) d) []"

definition cleanup_old_approvals :: "time \<Rightarrow> approvals \<Rightarrow> approvals" where
  "cleanup_old_approvals now d = ddel_all (cleanup_victims now d) d"

definition store_add :: "bool \<Rightarrow> time \<Rightarrow> approval \<Rightarrow> astore \<Rightarrow> bool \<times> astore" where
  "store_add io now a s =
    (if dget (as_approvals s) (ar_approval_id a) \<noteq> None then (False, s)
     else
       let s = (if length (as_approvals s) \<ge> MAX_APPROVALS
                then s\<lparr>as_approvals := cleanup_old_approvals now (as_approvals s)\<rparr> else s)
       in if length (as_approvals s) \<ge> MAX_APPROVALS then (False, s)
          else save_approvals io (s\<lparr>as_approvals := dput (ar_approval_id a) a (as_approvals s)\<rparr>))"

definition store_update :: "bool \<Rightarrow> approval \<Rightarrow> astore \<Rightarrow> bool \<times> astore" where
  "store_update io a s = (if dget (as_approvals s) (ar_approval_id a) = None then (False, s)
     else save_approvals io (s\<lparr>as_approvals := dput (ar_approval_id a) a (as_approvals s)\<rparr>))"

definition store_delete :: "bool \<Rightarrow> string \<Rightarrow> astore \<Rightarrow> bool \<times> astore" where
  "store_delete io approval_id s = (if dget (as_approvals s) approval_id = None then (False, s)
     else save_approvals io (s\<lparr>as_approvals := ddel approval_id (as_approvals s)\<rparr>))"

definition store_list :: "env \<Rightarrow> approval_status option \<Rightarrow> string option \<Rightarrow> astore \<Rightarrow> approval list" where
  "store_list env status tenant_id s = filter (\<lambda>a. (status = None \<or> Some (ar_status a) = status)
     \<and> match_tenant env a tenant_id) (dvals (as_approvals s))"

definition is_due :: "time \<Rightarrow> approval \<Rightarrow> bool" where
  "is_due now a \<longleftrightarrow> ar_status a = PENDING \<and> is_expired now a"

definition expire_due :: "bool \<Rightarrow> time \<Rightarrow> astore \<Rightarrow> nat \<times> astore" where
  "expire_due io now s =
    (let expired_count = length (filter (is_due now) (dvals (as_approvals s)));
         s' = s\<lparr>as_approvals := dmap (\<lambda>a. if is_due now a then a\<lparr>ar_status := EXPIRED\<rparr> else a) (as_approvals s)\<rparr>
     in (expired_count, if expired_count > 0 then snd (save_approvals io s') else s'))"

definition store_reload :: "time \<Rightarrow> astore \<Rightarrow> astore" where
  "store_reload now s = s\<lparr>as_approvals := load_approvals now (as_file s), as_loaded := True\<rparr>"


subsection \<open>The service\<close>

definition DEFAULT_TTL_SEC :: "env \<Rightarrow> int option" where
  "DEFAULT_TTL_SEC env = py_int (case env_value env ''OPENCLAW_APPROVAL_TTL_SEC'' (Some ''3600'') of
      Some (c # v) \<Rightarrow> c # v | _ \<Rightarrow> ''3600'')"

record create_args =
  ca_template_id :: string
  ca_inputs :: jobject
  ca_source :: approval_source
  ca_trace_id :: "string option"
  ca_tenant_id :: "string option"
  ca_requested_by :: "string option"
  ca_delivery :: "jobject option"
  ca_ttl_sec :: "int option"
  ca_metadata :: "jobject option"

definition nonempty :: "string option \<Rightarrow> string option" where
  "nonempty v = (case v of Some (c # s) \<Rightarrow> Some (c # s) | _ \<Rightarrow> None)"

text \<open>
  \<open>uuid\<close> and \<open>trace\<close> are the generated identifiers, \<open>dflt_ttl\<close> the module's default and
  \<open>current\<close> the tenant context variable.
\<close>

definition request_for :: "time \<Rightarrow> string \<Rightarrow> string \<Rightarrow> int \<Rightarrow> string \<Rightarrow> create_args \<Rightarrow> approval" where
  "request_for now uuid trace dflt_ttl tenant c =
    (let ttl = (case ca_ttl_sec c of Some t \<Rightarrow> t | None \<Rightarrow> dflt_ttl) in
     \<lparr>ar_approval_id = generate_id uuid, ar_template_id = ca_template_id c,
      ar_inputs = ca_inputs c, ar_source = ca_source c,
      ar_trace_id = Some (case nonempty (ca_trace_id c) of Some t \<Rightarrow> t | None \<Rightarrow> trace),
      ar_tenant_id = tenant, ar_status = PENDING, ar_requested_at = now,
      ar_requested_by = ca_requested_by c, ar_expires_at = Some (now + of_int ttl),
      ar_approved_at = None, ar_rejected_at = None, ar_decision_by = None,
      ar_delivery = ca_delivery c, ar_metadata = (case ca_metadata c of Some m \<Rightarrow> m | None \<Rightarrow> [])\<rparr>)"

definition create_request ::
  "env \<Rightarrow> bool \<Rightarrow> time \<Rightarrow> string \<Rightarrow> string \<Rightarrow> int \<Rightarrow> string \<Rightarrow> create_args \<Rightarrow> astore \<Rightarrow>
   (approval_error + approval) \<times> astore" where
  "create_request env io now uuid trace dflt_ttl current c s =
    (case normalize_tenant_id (case nonempty (ca_tenant_id c) of Some t \<Rightarrow> t
        | None \<Rightarrow> get_current_tenant_id env current) of
       Inl _ \<Rightarrow> (Inl Bad_tenant, s)
     | Inr tenant \<Rightarrow>
        (case validate_approval (request_for now uuid trace dflt_ttl tenant c) of
           Inl e \<Rightarrow> (Inl e, s)
         | Inr request \<Rightarrow>
             (let (added, s') = store_add io now request (astore_loaded now s)
              in (if added then Inr request else Inl Create_failed, s'))))"

definition list_pending :: "env \<Rightarrow> bool \<Rightarrow> time \<Rightarrow> int \<Rightarrow> string option \<Rightarrow> astore \<Rightarrow> approval list \<times> astore" where
  "list_pending env io now limit tenant_id s =
    (let s' = snd (expire_due io now (astore_loaded now s))
     in (py_take limit (sort_key ar_requested_at (store_list env (Some PENDING) tenant_id s')), s'))"

text \<open>\<open>xs[offset:offset + limit]\<close> of the newest-first list, for an offset and limit from zero up.\<close>

definition list_history :: "env \<Rightarrow> bool \<Rightarrow> time \<Rightarrow> approval_status option \<Rightarrow> nat \<Rightarrow> nat \<Rightarrow> string option \<Rightarrow> astore \<Rightarrow>
    approval list \<times> astore" where
  "list_history env io now status limit offset tenant_id s =
    (let s' = snd (expire_due io now (astore_loaded now s))
     in (take limit (drop offset (sort_key (\<lambda>a. - ar_requested_at a) (store_list env status tenant_id s'))), s'))"

definition count_pending :: "env \<Rightarrow> bool \<Rightarrow> time \<Rightarrow> string option \<Rightarrow> astore \<Rightarrow> nat \<times> astore" where
  "count_pending env io now tenant_id s =
    (let s' = snd (expire_due io now (astore_loaded now s))
     in (length (store_list env (Some PENDING) tenant_id s'), s'))"

text \<open>The request as mutated is in the store before it is saved.\<close>

definition update_or_fail :: "bool \<Rightarrow> approval \<Rightarrow> astore \<Rightarrow> (approval_error + approval) \<times> astore" where
  "update_or_fail io a s = (let (saved, s') = store_update io a s in (if saved then Inr a else Inl Update_failed, s'))"

definition approve :: "env \<Rightarrow> bool \<Rightarrow> time \<Rightarrow> string \<Rightarrow> string option \<Rightarrow> string option \<Rightarrow> astore \<Rightarrow>
    (approval_error + approval) \<times> astore" where
  "approve env io now approval_id actor tenant_id s =
    (let s = astore_loaded now s in
     case store_get env approval_id tenant_id s of
       None \<Rightarrow> (Inl Not_found, s)
     | Some a \<Rightarrow>
         if is_expired now a then
           (case mark_expired a of
              Inl e \<Rightarrow> (Inl e, s)
            | Inr a' \<Rightarrow> (Inl Has_expired, snd (store_update io a' s)))
         else
           (case mark_approved now actor a of
              Inl e \<Rightarrow> (Inl e, s)
            | Inr a' \<Rightarrow> update_or_fail io a' s))"

definition reject :: "env \<Rightarrow> bool \<Rightarrow> time \<Rightarrow> string \<Rightarrow> string option \<Rightarrow> string option \<Rightarrow> astore \<Rightarrow>
    (approval_error + approval) \<times> astore" where
  "reject env io now approval_id actor tenant_id s =
    (let s = astore_loaded now s in
     case store_get env approval_id tenant_id s of
       None \<Rightarrow> (Inl Not_found, s)
     | Some a \<Rightarrow>
         (case mark_rejected now actor a of
            Inl e \<Rightarrow> (Inl e, s)
          | Inr a' \<Rightarrow> update_or_fail io a' s))"

definition with_execution :: "string \<Rightarrow> string \<Rightarrow> string option \<Rightarrow> string option \<Rightarrow> approval \<Rightarrow> approval" where
  "with_execution prompt_id executed_at trace_id actor a =
    (let m = dput ''executed_prompt_id'' (J_str prompt_id) (ar_metadata a);
         m = (case nonempty trace_id of Some t \<Rightarrow> dput ''executed_trace_id'' (J_str t) m | None \<Rightarrow> m);
         m = dput ''executed_at'' (J_str executed_at) m;
         m = (case nonempty actor of Some t \<Rightarrow> dput ''executed_by'' (J_str t) m | None \<Rightarrow> m)
     in a\<lparr>ar_metadata := m\<rparr>)"

text \<open>\<open>stamp\<close> is the text of the clock.\<close>

definition record_execution :: "env \<Rightarrow> bool \<Rightarrow> time \<Rightarrow> string \<Rightarrow> string \<Rightarrow> string \<Rightarrow> string option \<Rightarrow> string option \<Rightarrow>
    string option \<Rightarrow> astore \<Rightarrow> (approval_error + approval) \<times> astore" where
  "record_execution env io now stamp approval_id prompt_id trace_id actor tenant_id s =
    (let s = astore_loaded now s in
     case store_get env approval_id tenant_id s of
       None \<Rightarrow> (Inl Not_found, s)
     | Some a \<Rightarrow> update_or_fail io (with_execution prompt_id stamp trace_id actor a) s)"

subsection \<open>The life of a request\<close>

text \<open>
  What may happen to the entry under an id: it is decided or expires while pending, its
  metadata change, it is removed once terminal.
\<close>

inductive approval_step :: "time \<Rightarrow> approval option \<Rightarrow> approval option \<Rightarrow> bool" for now where
  approve: "mark_approved now actor a = Inr a' \<Longrightarrow> \<not> is_expired now a \<Longrightarrow> approval_step now (Some a) (Some a')"
| reject: "mark_rejected now actor a = Inr a' \<Longrightarrow> approval_step now (Some a) (Some a')"
| expire: "mark_expired a = Inr a' \<Longrightarrow> is_expired now a \<Longrightarrow> approval_step now (Some a) (Some a')"
| annotate: "approval_step now (Some a) (Some (a\<lparr>ar_metadata := m\<rparr>))"
| clean: "is_terminal a \<Longrightarrow> approval_step now (Some a) None"
| stay: "approval_step now x x"

inductive_cases approval_step_SomeE: "approval_step now (Some a) (Some b)"
inductive_cases approval_step_goneE: "approval_step now (Some a) None"

abbreviation approvals_ok :: "approvals \<Rightarrow> bool" where
  "approvals_ok \<equiv> own_keys ar_approval_id"

definition astore_inv :: "astore \<Rightarrow> bool" where
  "astore_inv s \<longleftrightarrow> as_loaded s \<and> approvals_ok (as_approvals s) \<and> length (as_approvals s) \<le> MAX_APPROVALS"

lemma astore_loaded_id [simp]: "as_loaded s \<Longrightarrow> astore_loaded now s = s"
  by (simp add: astore_loaded_def)

lemma save_approvals_simps [simp]: "fst (save_approvals io s) = io"
  "as_approvals (snd (save_approvals io s)) = as_approvals s" "as_loaded (snd (save_approvals io s)) = as_loaded s"
  by (simp_all add: save_approvals_def)

lemma mark_simps:
  "mark_approved now actor a = Inr b \<longleftrightarrow> is_pending a \<and> b = a\<lparr>ar_status := APPROVED, ar_approved_at := Some now, ar_decision_by := actor\<rparr>"
  "mark_rejected now actor a = Inr b \<longleftrightarrow> is_pending a \<and> b = a\<lparr>ar_status := REJECTED, ar_rejected_at := Some now, ar_decision_by := actor\<rparr>"
  "mark_expired a = Inr b \<longleftrightarrow> is_pending a \<and> b = a\<lparr>ar_status := EXPIRED\<rparr>"
  by (auto simp: mark_approved_def mark_rejected_def mark_expired_def)

lemma not_terminal: "is_terminal a \<longleftrightarrow> \<not> is_pending a"
  by (cases "ar_status a") (auto simp: is_terminal_def is_pending_def)

text \<open>A terminal request keeps everything but its metadata.\<close>

definition same_decision :: "approval \<Rightarrow> approval \<Rightarrow> bool" where
  "same_decision a b \<longleftrightarrow> b\<lparr>ar_metadata := ar_metadata a\<rparr> = a"

lemma step_terminal: "approval_step now (Some a) (Some b) \<Longrightarrow> is_terminal a \<Longrightarrow> same_decision a b"
  by (erule approval_step_SomeE) (auto simp: mark_simps not_terminal same_decision_def)

interpretation store: keyed_store "\<lambda>s. dget (as_approvals s)" "\<lambda>k a s. snd (store_update io a s)" astore_inv
  "\<lambda>k a. ar_approval_id a = k"
proof unfold_locales
  fix s k k' and v :: approval
  assume s: "astore_inv s" "dget (as_approvals s) k \<noteq> None" "ar_approval_id v = k"
  then have eq: "as_approvals (snd (store_update io v s)) = dput k v (as_approvals s)"
    by (auto simp: store_update_def)
  show "dget (as_approvals (snd (store_update io v s))) k' = (if k' = k then Some v else dget (as_approvals s) k')"
    by (simp add: eq dict_simps)
  have "as_loaded (snd (store_update io v s)) = as_loaded s" by (simp add: store_update_def)
  moreover have "length (dput k v (as_approvals s)) = length (as_approvals s)"
    using s(2) by (simp only: length_dput if_False)
  ultimately show "astore_inv (snd (store_update io v s))"
    using s by (auto simp: astore_inv_def eq)
next
  show "ar_approval_id v = k" if "astore_inv s" "dget (as_approvals s) k = Some v" for s k and v :: approval
    using that by (auto simp: astore_inv_def dest: own_keysD)
qed

subsection \<open>The operations refine it\<close>

datatype approval_event =
    V_create env bool time string string int string create_args
  | V_list_pending env bool time int "string option"
  | V_history env bool time "approval_status option" nat nat "string option"
  | V_count env bool time "string option"
  | V_approve env bool time string "string option" "string option"
  | V_reject env bool time string "string option" "string option"
  | V_record env bool time string string string "string option" "string option" "string option"

fun approval_event_step :: "approval_event \<Rightarrow> astore \<Rightarrow> astore" where
  "approval_event_step (V_create env io now uuid trace ttl cur c) s = snd (create_request env io now uuid trace ttl cur c s)"
| "approval_event_step (V_list_pending env io now limit t) s = snd (list_pending env io now limit t s)"
| "approval_event_step (V_history env io now st limit off t) s = snd (list_history env io now st limit off t s)"
| "approval_event_step (V_count env io now t) s = snd (count_pending env io now t s)"
| "approval_event_step (V_approve env io now aid actor t) s = snd (approve env io now aid actor t s)"
| "approval_event_step (V_reject env io now aid actor t) s = snd (reject env io now aid actor t s)"
| "approval_event_step (V_record env io now stamp aid pid tr actor t) s =
     snd (record_execution env io now stamp aid pid tr actor t s)"

fun event_time :: "approval_event \<Rightarrow> time" where
  "event_time (V_create env io now uuid trace ttl cur c) = now"
| "event_time (V_list_pending env io now limit t) = now"
| "event_time (V_history env io now st limit off t) = now"
| "event_time (V_count env io now t) = now"
| "event_time (V_approve env io now aid actor t) = now"
| "event_time (V_reject env io now aid actor t) = now"
| "event_time (V_record env io now stamp aid pid tr actor t) = now"

text \<open>The event generates this id.\<close>

fun creates_id :: "string \<Rightarrow> approval_event \<Rightarrow> bool" where
  "creates_id k (V_create env io now uuid trace ttl cur c) = (generate_id uuid = k)"
| "creates_id k _ = False"

lemma match_tenant_None [simp]: "match_tenant env a None"
  by (simp add: match_tenant_def)

lemma store_get_Some: "store_get env k t s = Some a \<Longrightarrow> dget (as_approvals s) k = Some a \<and> match_tenant env a t"
  by (auto simp: store_get_def split: option.splits if_splits)

text \<open>Putting a changed request back is one step of its entry.\<close>

lemma update_step:
  assumes inv: "astore_inv s" and k: "dget (as_approvals s) aid = Some a" and "ar_approval_id b = aid"
    and step: "approval_step now (Some a) (Some b)"
  shows "approval_step now (dget (as_approvals s) k) (dget (as_approvals (snd (store_update io b s))) k)"
  using assms store.get_upd [OF inv, of aid b io k] by (cases "k = aid") (auto intro: approval_step.stay)

lemma update_or_fail_store [simp]: "snd (update_or_fail io a s) = snd (store_update io a s)"
  by (simp add: update_or_fail_def split_def Let_def)

lemma cleanup_victims_terminal:
  assumes "dict_ok d" and "k \<in> set (cleanup_victims now d)" and "dget d k = Some a"
  shows "is_terminal a"
proof -
  have "set (fold (\<lambda>(aid, a) to_remove. if P a to_remove then to_remove @ [aid] else to_remove) xs acc)
      \<subseteq> set acc \<union> fst ` set xs" for P :: "approval \<Rightarrow> string list \<Rightarrow> bool" and xs acc
  proof (induction xs arbitrary: acc)
    case (Cons x xs)
    show ?case
      using Cons [of "if P (snd x) acc then acc @ [fst x] else acc"] by (auto simp: split_def split: if_splits)
  qed simp
  then have "k \<in> fst ` set (filter (\<lambda>(aid, a). is_terminal a) d)"
    using assms(2) unfolding cleanup_victims_def by fastforce
  then obtain b where "(k, b) \<in> set d" and "is_terminal b" by auto
  moreover have "dget d k = Some b" using assms(1) \<open>(k, b) \<in> set d\<close> by (simp add: dget_iff)
  ultimately show ?thesis using assms(3) by simp
qed

lemma cleanup_step:
  assumes "approvals_ok d"
  shows "approval_step now (dget d k) (dget (cleanup_old_approvals t d) k)"
proof (cases "dget d k")
  case (Some a)
  then show ?thesis
    using cleanup_victims_terminal [OF own_keys_dict_ok [OF assms], of k t a]
    by (auto simp: cleanup_old_approvals_def dget_ddel_all intro: approval_step.intros)
qed (auto simp: cleanup_old_approvals_def dget_ddel_all intro: approval_step.stay)

lemma cleanup_ok: "approvals_ok d \<Longrightarrow> approvals_ok (cleanup_old_approvals t d)"
  unfolding cleanup_old_approvals_def ddel_all_filter by (rule own_keys_filter)

lemma cleanup_length: "length (cleanup_old_approvals t d) \<le> length d"
  by (simp add: cleanup_old_approvals_def ddel_all_filter)

lemma add_step:
  assumes "astore_inv s" and "ar_approval_id a \<noteq> k"
  shows "approval_step now (dget (as_approvals s) k) (dget (as_approvals (snd (store_add io t a s))) k)"
  using assms cleanup_step [of "as_approvals s" now k t]
  by (auto simp: store_add_def astore_inv_def Let_def dict_simps intro: approval_step.stay)

lemma add_inv: "astore_inv s \<Longrightarrow> astore_inv (snd (store_add io t a s))"
  using length_dput_le [of "ar_approval_id a" a] cleanup_length [of t "as_approvals s"]
  by (auto simp: store_add_def astore_inv_def Let_def cleanup_ok length_dput split: if_splits)

lemma expire_due_eq: "as_approvals (snd (expire_due io now s)) =
    dmap (\<lambda>a. if is_due now a then a\<lparr>ar_status := EXPIRED\<rparr> else a) (as_approvals s)"
  "as_loaded (snd (expire_due io now s)) = as_loaded s"
  by (simp_all add: expire_due_def Let_def)

lemma expire_due_step:
  "approval_step now (dget (as_approvals s) k) (dget (as_approvals (snd (expire_due io now s))) k)"
  by (cases "dget (as_approvals s) k")
    (auto simp: expire_due_eq dget_dmap mark_simps is_due_def is_pending_def intro: approval_step.intros)

lemma expire_due_inv: "astore_inv s \<Longrightarrow> astore_inv (snd (expire_due io now s))"
  by (auto simp: astore_inv_def expire_due_eq own_keys_def dict_simps) (auto simp: dmap_def)

lemma validate_id: "validate_approval a = Inr b \<Longrightarrow> ar_approval_id b = ar_approval_id a \<and> ar_status b = ar_status a
    \<and> ar_expires_at b = ar_expires_at a"
  by (auto simp: validate_approval_def split: if_splits sum.splits)

lemma create_cases:
  assumes "as_loaded s"
  obtains (bad) e where "create_request env io now uuid trace ttl cur c s = (Inl e, s)"
  | (add) a where "ar_approval_id a = generate_id uuid" and "ar_status a = PENDING"
      and "create_request env io now uuid trace ttl cur c s =
        (if fst (store_add io now a s) then Inr a else Inl Create_failed, snd (store_add io now a s))"
proof (cases "normalize_tenant_id (case nonempty (ca_tenant_id c) of Some t \<Rightarrow> t | None \<Rightarrow> get_current_tenant_id env cur)")
  case (Inl e)
  then show ?thesis by (intro bad [of Bad_tenant]) (simp add: create_request_def)
next
  case (Inr tenant)
  show ?thesis
  proof (cases "validate_approval (request_for now uuid trace ttl tenant c)")
    case (Inl e)
    with Inr show ?thesis by (intro bad [of e]) (simp add: create_request_def)
  next
    case valid: (Inr a)
    show ?thesis
      using validate_id [OF valid] Inr valid assms
      by (intro add [of a]) (simp_all add: request_for_def Let_def create_request_def split_def)
  qed
qed


lemma add_present: "dget (as_approvals s) (ar_approval_id a) \<noteq> None \<Longrightarrow> store_add io t a s = (False, s)"
  by (simp add: store_add_def)

text \<open>A decision on a stored request: what the two deciding operations do, on every branch.\<close>

lemma approve_cases:
  assumes "as_loaded s"
  obtains (missing) "approve env io now aid actor t s = (Inl Not_found, s)"
  | (late) a where "store_get env aid t s = Some a" and "is_expired now a" and "is_pending a"
      and "approve env io now aid actor t s = (Inl Has_expired, snd (store_update io (a\<lparr>ar_status := EXPIRED\<rparr>) s))"
  | (refused) st where "approve env io now aid actor t s = (Inl (Cannot_change st), s)"
  | (granted) a b where "store_get env aid t s = Some a" and "\<not> is_expired now a" and "mark_approved now actor a = Inr b"
      and "approve env io now aid actor t s = update_or_fail io b s"
proof (cases "store_get env aid t s")
  case None
  then show ?thesis by (intro missing) (simp add: approve_def Let_def assms)
next
  case (Some a)
  consider "is_pending a" "is_expired now a" | "is_pending a" "\<not> is_expired now a" | "\<not> is_pending a" by blast
  then show ?thesis
  proof cases
    case 1
    with Some show ?thesis by (intro late [of a]) (simp_all add: approve_def Let_def assms mark_expired_def)
  next
    case 2
    with Some show ?thesis
      by (intro granted [of a]) (simp_all add: approve_def Let_def assms mark_approved_def)
  next
    case 3
    with Some show ?thesis
      by (intro refused [of "ar_status a"]) (simp add: approve_def Let_def assms mark_approved_def mark_expired_def)
  qed
qed

lemma reject_cases:
  assumes "as_loaded s"
  obtains (missing) "reject env io now aid actor t s = (Inl Not_found, s)"
  | (refused) st where "reject env io now aid actor t s = (Inl (Cannot_change st), s)"
  | (granted) a b where "store_get env aid t s = Some a" and "mark_rejected now actor a = Inr b"
      and "reject env io now aid actor t s = update_or_fail io b s"
proof (cases "store_get env aid t s")
  case None
  then show ?thesis by (intro missing) (simp add: reject_def Let_def assms)
next
  case (Some a)
  show ?thesis
  proof (cases "is_pending a")
    case True
    with Some show ?thesis by (intro granted [of a]) (simp_all add: reject_def Let_def assms mark_rejected_def)
  next
    case False
    with Some show ?thesis by (intro refused [of "ar_status a"]) (simp add: reject_def Let_def assms mark_rejected_def)
  qed
qed

lemma record_cases:
  assumes "as_loaded s"
  obtains (missing) "record_execution env io now stamp aid pid tr actor t s = (Inl Not_found, s)"
  | (known) a m where "store_get env aid t s = Some a"
      and "record_execution env io now stamp aid pid tr actor t s = update_or_fail io (a\<lparr>ar_metadata := m\<rparr>) s"
  using assms
  by (cases "store_get env aid t s") (auto simp: record_execution_def Let_def with_execution_def)

lemma marked_id: "mark_approved now actor a = Inr b \<Longrightarrow> ar_approval_id b = ar_approval_id a"
  "mark_rejected now actor a = Inr b \<Longrightarrow> ar_approval_id b = ar_approval_id a"
  by (auto simp: mark_simps)

lemma store_get_id: "astore_inv s \<Longrightarrow> store_get env aid t s = Some a \<Longrightarrow>
    dget (as_approvals s) aid = Some a \<and> ar_approval_id a = aid"
  using store.get_fits [of s aid a] store_get_Some [of env aid t s a] by simp

lemma update_inv: "astore_inv s \<Longrightarrow> store_get env aid t s = Some a \<Longrightarrow> ar_approval_id b = aid \<Longrightarrow>
    astore_inv (snd (store_update io b s))"
  using store.inv_upd [of s aid b io] store_get_id [of s env aid t a] by simp

lemma put_back:
  assumes inv: "astore_inv s" and a: "store_get env aid t s = Some a" and "ar_approval_id b = ar_approval_id a"
    and step: "approval_step now (Some a) (Some b)"
  shows "approval_step now (dget (as_approvals s) k) (dget (as_approvals (snd (store_update io b s))) k)
    \<and> astore_inv (snd (store_update io b s))"
  using store_get_id [OF inv a] assms(3) update_step [OF inv _ _ step, of aid k io] update_inv [OF inv a, of b io]
  by simp

lemma approval_event_refines:
  assumes inv: "astore_inv s" and k: "dget (as_approvals s) k \<noteq> None \<or> \<not> creates_id k e"
  shows "approval_step (event_time e) (dget (as_approvals s) k) (dget (as_approvals (approval_event_step e s)) k)
    \<and> astore_inv (approval_event_step e s)"
proof -
  have l: "as_loaded s" using inv by (simp add: astore_inv_def)
  show ?thesis
  proof (cases e)
    case (V_create env io now uuid trace ttl cur c)
    from l show ?thesis
    proof (cases rule: create_cases [of s env io now uuid trace ttl cur c])
      case (add a)
      then have s': "approval_event_step e s = snd (store_add io now a s)" by (simp add: V_create)
      show ?thesis
      proof (cases "generate_id uuid = k")
        case True
        then have "dget (as_approvals s) (ar_approval_id a) \<noteq> None" using k add(1) by (simp add: V_create)
        then show ?thesis using inv by (simp add: s' add_present approval_step.stay)
      next
        case False
        then show ?thesis using add_step [OF inv, of a k] add_inv [OF inv] add(1) by (simp add: s')
      qed
    qed (use inv in \<open>simp add: V_create approval_step.stay\<close>)
  next
    case (V_approve env io now aid actor t)
    from l show ?thesis
    proof (cases rule: approve_cases [of s env io now aid actor t])
      case (late a)
      then have "approval_step now (Some a) (Some (a\<lparr>ar_status := EXPIRED\<rparr>))"
        by (intro approval_step.expire) (simp_all add: mark_simps)
      then show ?thesis using put_back [OF inv late(1)] late(4) by (simp add: V_approve)
    next
      case (granted a b)
      then have "approval_step now (Some a) (Some b)" by (intro approval_step.approve)
      then show ?thesis using put_back [OF inv granted(1) marked_id(1) [OF granted(3)]] granted(4) by (simp add: V_approve)
    qed (use inv in \<open>simp_all add: V_approve approval_step.stay\<close>)
  next
    case (V_reject env io now aid actor t)
    from l show ?thesis
    proof (cases rule: reject_cases [of s env io now aid actor t])
      case (granted a b)
      then have "approval_step now (Some a) (Some b)" by (intro approval_step.reject)
      then show ?thesis using put_back [OF inv granted(1) marked_id(2) [OF granted(2)]] granted(3) by (simp add: V_reject)
    qed (use inv in \<open>simp_all add: V_reject approval_step.stay\<close>)
  next
    case (V_record env io now stamp aid pid tr actor t)
    from l show ?thesis
    proof (cases rule: record_cases [of s env io now stamp aid pid tr actor t])
      case (known a m)
      then show ?thesis
        using put_back [OF inv known(1) _ approval_step.annotate [of now a m]] by (simp add: V_record)
    qed (use inv in \<open>simp_all add: V_record approval_step.stay\<close>)
  qed (use inv l in \<open>simp_all add: list_pending_def list_history_def count_pending_def Let_def
      expire_due_step expire_due_inv\<close>)
qed

interpretation approvals_machine: machine approval_event_step astore_inv
proof unfold_locales
  fix s e assume inv: "astore_inv s"
  show "astore_inv (approval_event_step e s)"
  proof (cases e)
    case (V_create env io now uuid trace ttl cur c)
    have l: "as_loaded s" using inv by (simp add: astore_inv_def)
    show ?thesis
      by (rule create_cases [OF l, of env io now uuid trace ttl cur c]) (simp_all add: V_create inv add_inv)
  qed (use approval_event_refines [OF inv, of _ e] in force)+
qed


subsection \<open>Runs\<close>

definition decided_as :: "approval \<Rightarrow> approval option \<Rightarrow> bool" where
  "decided_as a o' \<longleftrightarrow> (case o' of None \<Rightarrow> is_terminal a | Some b \<Rightarrow> is_terminal a \<longrightarrow> same_decision a b)"

definition kept_pending :: "approval \<Rightarrow> approval option \<Rightarrow> bool" where
  "kept_pending a o' \<longleftrightarrow> (case o' of None \<Rightarrow> False | Some b \<Rightarrow> ar_expires_at b = ar_expires_at a)"

lemma same_decision_trans: "same_decision a b \<Longrightarrow> same_decision b c \<Longrightarrow> same_decision a c"
  by (cases a; cases b; cases c) (simp add: same_decision_def)

lemma same_decision_terminal: "same_decision a b \<Longrightarrow> is_terminal b = is_terminal a"
  by (cases a; cases b) (auto simp: same_decision_def is_terminal_def)

lemma step_same_decision:
  assumes "approval_step now (Some b) x" and "same_decision a b" and "is_terminal a"
  shows "x = None \<or> (\<exists>c. x = Some c \<and> same_decision a c)"
  using assms step_terminal [of now b] same_decision_terminal [of a b] same_decision_trans [of a b]
  by (cases x) auto

lemma approval_step_None: "approval_step now None x \<Longrightarrow> x = None"
  by (erule approval_step.cases) auto

lemma run_decided:
  assumes inv: "astore_inv s" and "dget (as_approvals s) k = Some a" and "is_terminal a"
    and "\<forall>e \<in> set es. \<not> creates_id k e"
  shows "dget (as_approvals (fold approval_event_step es s)) k = None
    \<or> (\<exists>b. dget (as_approvals (fold approval_event_step es s)) k = Some b \<and> same_decision a b)"
proof (rule approvals_machine.run_stable [where P = "\<lambda>s. dget (as_approvals s) k = None
      \<or> (\<exists>b. dget (as_approvals s) k = Some b \<and> same_decision a b)"])
  fix e t
  assume t: "astore_inv t" "e \<in> set es"
    and p: "dget (as_approvals t) k = None \<or> (\<exists>b. dget (as_approvals t) k = Some b \<and> same_decision a b)"
  have "approval_step (event_time e) (dget (as_approvals t) k) (dget (as_approvals (approval_event_step e t)) k)"
    using approval_event_refines [of t k e] t assms(4) by blast
  then show "dget (as_approvals (approval_event_step e t)) k = None
      \<or> (\<exists>b. dget (as_approvals (approval_event_step e t)) k = Some b \<and> same_decision a b)"
    using p step_same_decision [OF _ _ assms(3)] by (metis approval_step_None)
qed (simp_all add: assms same_decision_def)

lemma is_due_expired: "\<not> is_due now (if is_due now a then a\<lparr>ar_status := EXPIRED\<rparr> else a)"
  by (auto simp: is_due_def)

lemma list_pending_mem:
  assumes "a \<in> set (fst (list_pending env io now limit t s))"
  shows "ar_status a = PENDING \<and> match_tenant env a t \<and> \<not> is_expired now a"
proof -
  define s' where "s' = snd (expire_due io now (astore_loaded now s))"
  have "a \<in> set (store_list env (Some PENDING) t s')"
    using assms by (auto simp: list_pending_def Let_def py_take_def s'_def dest: in_set_takeD split: if_splits)
  then have a: "ar_status a = PENDING" "match_tenant env a t" "a \<in> set (dvals (as_approvals s'))"
    by (auto simp: store_list_def)
  then have "\<not> is_due now a" by (auto simp: s'_def expire_due_eq dict_simps is_due_expired simp del: if_split)
  then show ?thesis using a by (simp add: is_due_def)
qed

lemma sorted_take: "sorted xs \<Longrightarrow> sorted (take n xs)"
  by (simp add: sorted_wrt_take)

lemma list_pending_sorted: "sorted (map ar_requested_at (fst (list_pending env io now limit t s)))"
  by (simp add: list_pending_def Let_def py_take_def take_map [symmetric] sorted_take)

subsection \<open>Properties\<close>

definition sample_approval :: "approval_status \<Rightarrow> approval" where
  "sample_approval st = \<lparr>ar_approval_id = ''apr_1'', ar_template_id = ''t'', ar_inputs = [], ar_source = CHATOPS,
     ar_trace_id = None, ar_tenant_id = ''acme'', ar_status = st, ar_requested_at = 0, ar_requested_by = None,
     ar_expires_at = Some 100, ar_approved_at = None, ar_rejected_at = None, ar_decision_by = None,
     ar_delivery = None, ar_metadata = []\<rparr>"

definition sample_store :: "approval_status \<Rightarrow> astore" where
  "sample_store st = \<lparr>as_approvals = [(''apr_1'', sample_approval st)], as_file = A_missing, as_loaded = True\<rparr>"

lemma sample_store_inv: "astore_inv (sample_store st)"
  by (simp add: astore_inv_def sample_store_def own_keys_def sample_approval_def MAX_APPROVALS_def)

lemma sample_simps [simp]: "dget (as_approvals (sample_store st)) ''apr_1'' = Some (sample_approval st)"
  "ar_metadata (sample_approval st) = []" "ar_status (sample_approval st) = st" "as_loaded (sample_store st)"
  "ar_tenant_id (sample_approval st) = ''acme''"
  by (simp_all add: sample_store_def sample_approval_def)

definition multi_env :: env where
  "multi_env = [''OPENCLAW_MULTI_TENANT_ENABLED'' \<mapsto> ''1'']"

text \<open>
  C11: a decision is final: once a request is approved, rejected or expired, no sequence of
  service operations changes anything of the stored request but its metadata.
\<close>

theorem decision_final:
  assumes "astore_inv s" and "dget (as_approvals s) k = Some a" and "is_terminal a"
    and "\<forall>e \<in> set es. \<not> creates_id k e"
  shows "case dget (as_approvals (fold approval_event_step es s)) k of None \<Rightarrow> True
    | Some b \<Rightarrow> b\<lparr>ar_metadata := ar_metadata a\<rparr> = a"
  using run_decided [OF assms] by (auto simp: same_decision_def)

theorem decision_final_witness:
  "case dget (as_approvals (fold approval_event_step
       [V_approve Map.empty True 10 ''apr_1'' None None, V_record Map.empty True 11 ''now'' ''apr_1'' ''p'' None None None]
       (sample_store REJECTED))) ''apr_1'' of None \<Rightarrow> True
    | Some b \<Rightarrow> b\<lparr>ar_metadata := ar_metadata (sample_approval REJECTED)\<rparr> = sample_approval REJECTED"
  using decision_final [OF sample_store_inv [of REJECTED], of "''apr_1''" "sample_approval REJECTED"
      "[V_approve Map.empty True 10 ''apr_1'' None None, V_record Map.empty True 11 ''now'' ''apr_1'' ''p'' None None None]"]
  by (simp add: is_terminal_def del: approval_event_step.simps sample_simps(2))

text \<open>
  An approval is granted only to a stored, pending request of the caller's tenant
  before it expires; it then is the stored request, with the time and the actor of the
  decision.
\<close>

theorem approve_guarded:
  assumes "astore_inv s" and "approve env io now aid actor t s = (Inr b, s')"
  shows "\<exists>a. dget (as_approvals s) aid = Some a \<and> match_tenant env a t \<and> ar_status a = PENDING
      \<and> (\<forall>e. ar_expires_at a = Some e \<longrightarrow> now < e)
      \<and> b = a\<lparr>ar_status := APPROVED, ar_approved_at := Some now, ar_decision_by := actor\<rparr>
      \<and> (\<forall>k. dget (as_approvals s') k = (if k = aid then Some b else dget (as_approvals s) k))"
proof -
  have "as_loaded s" using assms(1) by (simp add: astore_inv_def)
  then show ?thesis
  proof (cases rule: approve_cases [of s env io now aid actor t])
    case (granted a c)
    then have b: "c = b" "s' = snd (store_update io b s)"
      using assms(2) by (auto simp: update_or_fail_def split_def Let_def split: if_splits)
    have a: "dget (as_approvals s) aid = Some a" "ar_approval_id a = aid" "match_tenant env a t"
      using store_get_id [OF assms(1) granted(1)] store_get_Some [OF granted(1)] by simp_all
    have c: "ar_approval_id b = aid" using marked_id(1) [OF granted(3)] a(2) b(1) by simp
    then have "dget (as_approvals s') k = (if k = aid then Some b else dget (as_approvals s) k)" for k
      using store.get_upd [OF assms(1), of aid b io k] a(1) b(2) by simp
    then show ?thesis
      using granted(2,3) a b(1) by (auto simp: mark_simps is_pending_def is_expired_def)
  qed (use assms(2) in simp_all)
qed

theorem approve_guarded_witness:
  "\<exists>b s'. approve Map.empty True 50 ''apr_1'' (Some ''ann'') None (sample_store PENDING) = (Inr b, s')
     \<and> ar_status b = APPROVED \<and> ar_decision_by b = Some ''ann'' \<and> dget (as_approvals s') ''apr_1'' = Some b"
proof -
  obtain b s' where r: "approve Map.empty True 50 ''apr_1'' (Some ''ann'') None (sample_store PENDING) = (Inr b, s')"
    by (simp add: approve_def sample_store_def store_get_def match_tenant_None
        is_expired_def sample_approval_def mark_approved_def is_pending_def update_or_fail_def
        store_update_def save_approvals_def Let_def)
  from approve_guarded [OF sample_store_inv this] r show ?thesis
    by (auto simp: sample_store_def)
qed

text \<open>
  With multi-tenancy on, a caller naming a valid tenant that does not own the request
  cannot see, decide or annotate it: every operation answers as if it did not exist and
  changes nothing.
\<close>

theorem tenant_isolation:
  assumes "as_loaded s" and "is_multi_tenant_enabled env" and "normalize_tenant_id t = Inr n"
    and "dget (as_approvals s) aid = Some a" and "ar_tenant_id a \<noteq> n"
  shows "store_get env aid (Some t) s = None
    \<and> approve env io now aid actor (Some t) s = (Inl Not_found, s)
    \<and> reject env io now aid actor (Some t) s = (Inl Not_found, s)
    \<and> record_execution env io now stamp aid pid tr actor (Some t) s = (Inl Not_found, s)
    \<and> a \<notin> set (store_list env st (Some t) s)"
proof -
  have "\<not> match_tenant env a (Some t)" using assms by (simp add: match_tenant_def)
  then show ?thesis
    using assms by (auto simp: store_get_def approve_def reject_def record_execution_def Let_def store_list_def)
qed

theorem tenant_isolation_witness:
  "approve multi_env True 50 ''apr_1'' None (Some ''other'') (sample_store PENDING) = (Inl Not_found, sample_store PENDING)"
proof -
  have "is_multi_tenant_enabled multi_env"
    unfolding is_multi_tenant_enabled_def multi_env_def
    by (subst env_value_canonical [of _ _ "''1''"]) (simp_all add: is_truthy_def TRUTHY_VALUES_def, code_simp)
  moreover have "normalize_tenant_id ''other'' = Inr ''other''" by code_simp
  ultimately show ?thesis
    using tenant_isolation [of "sample_store PENDING" multi_env "''other''" "''other''" "''apr_1''" "sample_approval PENDING"]
    by simp
qed

text \<open>
  The list of pending requests holds only pending requests of the caller's tenant that
  have not expired at that moment, the oldest first, and reading it expires what is due.
\<close>

theorem list_pending_sound:
  "(\<forall>a \<in> set (fst (list_pending env io now limit t s)).
       ar_status a = PENDING \<and> match_tenant env a t \<and> \<not> is_expired now a)
    \<and> sorted (map ar_requested_at (fst (list_pending env io now limit t s)))
    \<and> (\<forall>a \<in> set (dvals (as_approvals (snd (list_pending env io now limit t s)))). \<not> is_due now a)"
proof (intro conjI ballI)
  show "\<not> is_due now a" if "a \<in> set (dvals (as_approvals (snd (list_pending env io now limit t s))))" for a
    using that by (auto simp: list_pending_def Let_def expire_due_eq dict_simps is_due_def)
qed (use list_pending_mem list_pending_sorted in blast)+

theorem list_pending_sound_witness:
  "sample_approval PENDING \<in> set (fst (list_pending Map.empty True 5 10 None (sample_store PENDING)))
    \<and> \<not> is_expired 5 (sample_approval PENDING)"
proof -
  have "dvals (as_approvals (sample_store PENDING)) = [sample_approval PENDING]"
    by (simp add: sample_store_def dvals_def)
  moreover have "\<not> is_due 5 (sample_approval PENDING)"
    by (simp add: is_due_def is_expired_def sample_approval_def)
  ultimately have mem: "sample_approval PENDING \<in> set (fst (list_pending Map.empty True 5 10 None (sample_store PENDING)))"
    by (simp add: list_pending_def expire_due_eq store_list_def Let_def astore_loaded_def match_tenant_None py_take_def dvals_def
      sample_store_def dmap_def)
  with list_pending_sound [of Map.empty True 5 10 None "sample_store PENDING"] show ?thesis by blast
qed

text \<open>
  The store never holds more than its limit of requests, every request stays under its
  own id, and a pending request is never removed to make room.
\<close>

theorem approvals_capacity:
  assumes "astore_inv s" and "dget (as_approvals s) k = Some a" and "ar_status a = PENDING"
  shows "length (as_approvals (approval_event_step e s)) \<le> MAX_APPROVALS
    \<and> (\<exists>b. dget (as_approvals (approval_event_step e s)) k = Some b \<and> ar_approval_id b = k)"
proof -
  have inv: "astore_inv (approval_event_step e s)" using assms(1) by (rule approvals_machine.step_inv)
  have "approval_step (event_time e) (Some a) (dget (as_approvals (approval_event_step e s)) k)"
    using approval_event_refines [OF assms(1), of k e] assms(2) by simp
  then have "dget (as_approvals (approval_event_step e s)) k \<noteq> None"
    using assms(3) by (cases "dget (as_approvals (approval_event_step e s)) k")
      (auto elim: approval_step_goneE simp: is_terminal_def)
  then show ?thesis using inv by (auto simp: astore_inv_def dest: own_keysD)
qed

theorem approvals_capacity_witness:
  "length (as_approvals (approval_event_step (V_reject Map.empty True 5 ''apr_1'' None None) (sample_store PENDING))) \<le> MAX_APPROVALS"
  using approvals_capacity [OF sample_store_inv [of PENDING], of "''apr_1''" "sample_approval PENDING"]
  by (simp del: approval_event_step.simps)

lemma status_of_value [simp]: "status_of (status_value st) = Some st"
  by (cases st) (simp_all add: status_of_def status_value_def)

lemma source_of_value [simp]: "source_of (source_value st) = Some st"
  by (cases st) (simp_all add: source_of_def source_value_def)

text \<open>
  A valid request survives the file: reading back the row written for it gives the same
  request.
\<close>

theorem approval_round_trip:
  assumes "validate_approval a = Inr a"
  shows "approval_from_dict now (approval_to_dict a) = Some a"
proof -
  have opt: "opt_str (approval_to_dict a) ''trace_id'' = Some (ar_trace_id a)"
    "opt_str (approval_to_dict a) ''requested_by'' = Some (ar_requested_by a)"
    "opt_str (approval_to_dict a) ''decision_by'' = Some (ar_decision_by a)"
    "opt_time (approval_to_dict a) ''expires_at'' = Some (ar_expires_at a)"
    "opt_time (approval_to_dict a) ''approved_at'' = Some (ar_approved_at a)"
    "opt_time (approval_to_dict a) ''rejected_at'' = Some (ar_rejected_at a)"
    "opt_obj (approval_to_dict a) ''delivery'' = Some (ar_delivery a)"
    by (auto simp: opt_str_def opt_time_def opt_obj_def approval_to_dict_def opt_val_def split: option.split)
  have fields: "str_field (approval_to_dict a) ''approval_id'' None = Some (ar_approval_id a)"
    "str_field (approval_to_dict a) ''template_id'' None = Some (ar_template_id a)"
    "str_field (approval_to_dict a) ''source'' (Some ''trigger'') = Some (source_value (ar_source a))"
    "str_field (approval_to_dict a) ''tenant_id'' (Some DEFAULT_TENANT_ID) = Some (ar_tenant_id a)"
    "str_field (approval_to_dict a) ''status'' (Some ''pending'') = Some (status_value (ar_status a))"
    "obj_field (approval_to_dict a) ''inputs'' = Some (ar_inputs a)"
    "obj_field (approval_to_dict a) ''metadata'' = Some (ar_metadata a)"
    "dget (approval_to_dict a) ''requested_at'' = Some (A_time (ar_requested_at a))"
    by (simp_all add: str_field_def obj_field_def approval_to_dict_def)
  have whole: "\<lparr>ar_approval_id = ar_approval_id a, ar_template_id = ar_template_id a, ar_inputs = ar_inputs a,
      ar_source = ar_source a, ar_trace_id = ar_trace_id a, ar_tenant_id = ar_tenant_id a, ar_status = ar_status a,
      ar_requested_at = ar_requested_at a, ar_requested_by = ar_requested_by a, ar_expires_at = ar_expires_at a,
      ar_approved_at = ar_approved_at a, ar_rejected_at = ar_rejected_at a, ar_decision_by = ar_decision_by a,
      ar_delivery = ar_delivery a, ar_metadata = ar_metadata a\<rparr> = a"
    by (cases a) simp
  show ?thesis using assms by (simp add: approval_from_dict_def opt fields whole)
qed

theorem approval_round_trip_witness:
  "approval_from_dict 5 (approval_to_dict (sample_approval APPROVED)) = Some (sample_approval APPROVED)"
proof -
  have "normalize_tenant_id ''acme'' = Inr ''acme''" by code_simp
  then have "validate_approval (sample_approval APPROVED) = Inr (sample_approval APPROVED)"
    by (simp add: validate_approval_def sample_approval_def starts_with_def)
  then show ?thesis by (rule approval_round_trip)
qed

text \<open>
  The pattern of the identifier is not enforced: any text with the prefix passes.
\<close>

lemma approval_id_only_prefix:
  "normalize_tenant_id (ar_tenant_id a) = Inr t \<Longrightarrow> ar_template_id a \<noteq> [] \<Longrightarrow> length (ar_template_id a) \<le> 128 \<Longrightarrow>
   starts_with ''apr_'' (ar_approval_id a) \<Longrightarrow> validate_approval a = Inr (a\<lparr>ar_tenant_id := t\<rparr>)"
  by (simp add: validate_approval_def)

end
