(* ===== verification/Sched_Model.thy ===== *)
theory Sched_Model
  imports Contracts Delivery_Contract
begin

text \<open>
  \<open>services/scheduler/models.py\<close> and \<open>storage.py\<close>: schedules, their validation, the cursor
  and the error bookkeeping, and the store behind them. \<open>dumps\<close> is the JSON text of the
  inputs; \<open>io\<close> says whether writing the file succeeds.
\<close>

subsection \<open>Schedules\<close>

datatype trigger_type = CRON | INTERVAL

record schedule =
  sc_schedule_id :: string
  sc_name :: string
  sc_template_id :: string
  sc_trigger_type :: trigger_type
  sc_cron_expr :: "string option"
  sc_interval_sec :: "int option"
  sc_inputs :: jobject
  sc_delivery :: "jobject option"
  sc_timezone :: string
  sc_enabled :: bool
  sc_created_at :: time
  sc_updated_at :: time
  sc_last_tick_ts :: "time option"
  sc_last_run_id :: "string option"
  sc_compute_error_count :: int
  sc_last_compute_error :: "string option"

datatype schedule_error = Bad_name | Bad_template | Cron_required | Bad_cron | Bad_interval | Interval_too_large
  | Inputs_too_large | Bad_delivery delivery_error | Bad_error_count

definition MAX_SCHEDULES :: nat where "MAX_SCHEDULES = 200"

text \<open>\<open>str.split()\<close> and \<open>str.split(c)\<close>.\<close>

fun split_sep :: "(char \<Rightarrow> bool) \<Rightarrow> string \<Rightarrow> string \<Rightarrow> string list" where
  "split_sep sep acc [] = [rev acc]"
| "split_sep sep acc (c # s) = (if sep c then rev acc # split_sep sep [] s else split_sep sep (c # acc) s)"

definition py_split :: "string \<Rightarrow> string list" where
  "py_split s = filter (\<lambda>w. w \<noteq> []) (split_sep is_space [] s)"

text \<open>
  \<open>CRON_PATTERN\<close> on the stripped expression: five fields between blanks, each a star or
  digits with commas, dashes and slashes.
\<close>

definition cron_field :: "string \<Rightarrow> bool" where
  "cron_field f \<longleftrightarrow> f = ''*'' \<or> (f \<noteq> [] \<and> list_all (\<lambda>c. is_digit c \<or> c \<in> {CHR '','', CHR ''-'', CHR ''/''}) f)"

definition cron_pattern :: "string \<Rightarrow> bool" where
  "cron_pattern s \<longleftrightarrow> (let parts = py_split s in length parts = 5 \<and> list_all cron_field parts)"

definition validate_schedule :: "(jobject \<Rightarrow> string) \<Rightarrow> schedule \<Rightarrow> schedule_error + schedule" where
  "validate_schedule dumps s =
    (if sc_name s = [] \<or> length (sc_name s) > 100 then Inl Bad_name
     else if sc_template_id s = [] \<or> length (sc_template_id s) > 200 then Inl Bad_template
     else
       let trigger = (case sc_trigger_type s of
           CRON \<Rightarrow> (case sc_cron_expr s of
               None \<Rightarrow> Inl Cron_required
             | Some e \<Rightarrow> if e = [] then Inl Cron_required
                         else if \<not> cron_pattern (py_strip e) then Inl Bad_cron else Inr ())
         | INTERVAL \<Rightarrow> (case sc_interval_sec s of
               None \<Rightarrow> Inl Bad_interval
             | Some n \<Rightarrow> if n < 60 then Inl Bad_interval
                         else if n > 86400 * 30 then Inl Interval_too_large else Inr ()))
       in rbind trigger (\<lambda>_.
       if sc_inputs s \<noteq> [] \<and> length (dumps (sc_inputs s)) > 32 * 1024 then Inl Inputs_too_large
       else
         rbind (case sc_delivery s of
             Some (x # d) \<Rightarrow> (case normalize_schedule_delivery (D_dict (x # d)) of
                 Inl e \<Rightarrow> Inl (Bad_delivery e) | Inr d' \<Rightarrow> Inr (s\<lparr>sc_delivery := d'\<rparr>))
           | _ \<Rightarrow> Inr s) (\<lambda>s.
         if sc_compute_error_count s < 0 then Inl Bad_error_count else Inr s)))"

text \<open>The constructor: the delivery is normalised, then everything validated.\<close>

definition make_schedule :: "(jobject \<Rightarrow> string) \<Rightarrow> delivery_arg \<Rightarrow> schedule \<Rightarrow> schedule_error + schedule" where
  "make_schedule dumps delivery s = (case normalize_schedule_delivery delivery of
       Inl e \<Rightarrow> Inl (Bad_delivery e)
     | Inr d \<Rightarrow> validate_schedule dumps (s\<lparr>sc_delivery := d\<rparr>))"

definition update_cursor :: "time \<Rightarrow> time \<Rightarrow> string \<Rightarrow> schedule \<Rightarrow> schedule" where
  "update_cursor now tick_ts run_id s = s\<lparr>sc_last_tick_ts := Some tick_ts, sc_last_run_id := Some run_id,
     sc_updated_at := now\<rparr>"

definition had_compute_error :: "schedule \<Rightarrow> bool" where
  "had_compute_error s \<longleftrightarrow> sc_compute_error_count s \<noteq> 0 \<or> (\<exists>c t. sc_last_compute_error s = Some (c # t))"

lemma had_compute_error_code [code]: "had_compute_error s \<longleftrightarrow> sc_compute_error_count s \<noteq> 0
    \<or> (case sc_last_compute_error s of Some (c # t) \<Rightarrow> True | _ \<Rightarrow> False)"
  by (auto simp: had_compute_error_def split: option.split list.split)

definition clear_compute_error :: "time \<Rightarrow> schedule \<Rightarrow> schedule" where
  "clear_compute_error now s = (if had_compute_error s
     then s\<lparr>sc_compute_error_count := 0, sc_last_compute_error := None, sc_updated_at := now\<rparr> else s)"

definition record_compute_error :: "time \<Rightarrow> string \<Rightarrow> int \<Rightarrow> schedule \<Rightarrow> bool \<times> schedule" where
  "record_compute_error now msg disable_threshold s =
    (let s = s\<lparr>sc_compute_error_count := sc_compute_error_count s + 1, sc_last_compute_error := Some (take 200 msg)\<rparr>;
         disabled = (sc_compute_error_count s \<ge> max 1 disable_threshold);
         s = (if disabled then s\<lparr>sc_enabled := False\<rparr> else s)
     in (disabled, s\<lparr>sc_updated_at := now\<rparr>))"

subsection \<open>The store\<close>

type_synonym schedules = "(string, schedule) dict"

text \<open>A row that does not decode to a valid schedule is \<open>None\<close>.\<close>

datatype sched_file = S_missing | S_broken | S_rows "(string \<times> schedule option) list"

record sched_store =
  ss_schedules :: schedules
  ss_file :: sched_file
  ss_loaded :: bool

definition load_schedules :: "sched_file \<Rightarrow> schedules" where
  "load_schedules f = (case f of
       S_rows rows \<Rightarrow> fold (\<lambda>(sid, row) d. case row of Some s \<Rightarrow> dput sid s d | None \<Rightarrow> d) rows []
     | _ \<Rightarrow> [])"

definition save_schedules :: "bool \<Rightarrow> sched_store \<Rightarrow> bool \<times> sched_store" where
  "save_schedules io s = (if length (ss_schedules s) > MAX_SCHEDULES then (False, s)
     else if io then (True, s\<lparr>ss_file := S_rows (map (\<lambda>(k, v). (k, Some v)) (ss_schedules s))\<rparr>)
     else (False, s))"

definition sched_loaded :: "sched_store \<Rightarrow> sched_store" where
  "sched_loaded s = (if ss_loaded s then s
     else s\<lparr>ss_schedules := load_schedules (ss_file s), ss_loaded := True\<rparr>)"

definition sched_get :: "string \<Rightarrow> sched_store \<Rightarrow> schedule option" where
  "sched_get sid s = dget (ss_schedules (sched_loaded s)) sid"

definition sched_add :: "bool \<Rightarrow> schedule \<Rightarrow> sched_store \<Rightarrow> bool \<times> sched_store" where
  "sched_add io sc s = (let s = sched_loaded s in
     if length (ss_schedules s) \<ge> MAX_SCHEDULES then (False, s)
     else if dget (ss_schedules s) (sc_schedule_id sc) \<noteq> None then (False, s)
     else save_schedules io (s\<lparr>ss_schedules := dput (sc_schedule_id sc) sc (ss_schedules s)\<rparr>))"

definition sched_update :: "bool \<Rightarrow> schedule \<Rightarrow> sched_store \<Rightarrow> bool \<times> sched_store" where
  "sched_update io sc s = (let s = sched_loaded s in
     if dget (ss_schedules s) (sc_schedule_id sc) = None then (False, s)
     else save_schedules io (s\<lparr>ss_schedules := dput (sc_schedule_id sc) sc (ss_schedules s)\<rparr>))"

definition sched_delete :: "bool \<Rightarrow> string \<Rightarrow> sched_store \<Rightarrow> bool \<times> sched_store" where
  "sched_delete io sid s = (let s = sched_loaded s in
     if dget (ss_schedules s) sid = None then (False, s)
     else save_schedules io (s\<lparr>ss_schedules := ddel sid (ss_schedules s)\<rparr>))"

definition sched_reload :: "sched_store \<Rightarrow> sched_store" where
  "sched_reload s = s\<lparr>ss_schedules := load_schedules (ss_file s), ss_loaded := True\<rparr>"

definition sched_flush :: "bool \<Rightarrow> sched_store \<Rightarrow> bool \<times> sched_store" where
  "sched_flush io s = (if \<not> ss_loaded s then (True, s) else save_schedules io s)"

definition sched_inv :: "sched_store \<Rightarrow> bool" where
  "sched_inv s \<longleftrightarrow> ss_loaded s \<and> own_keys sc_schedule_id (ss_schedules s)"

lemma sched_loaded_id [simp]: "ss_loaded s \<Longrightarrow> sched_loaded s = s"
  by (simp add: sched_loaded_def)

lemma save_schedules_simps [simp]: "ss_schedules (snd (save_schedules io s)) = ss_schedules s"
  "ss_loaded (snd (save_schedules io s)) = ss_loaded s"
  by (simp_all add: save_schedules_def)

interpretation schedules: keyed_store "\<lambda>s. dget (ss_schedules s)" "\<lambda>k sc s. snd (sched_update io sc s)" sched_inv
  "\<lambda>k sc. sc_schedule_id sc = k"
proof unfold_locales
  fix s k k' and v :: schedule
  assume s: "sched_inv s" "dget (ss_schedules s) k \<noteq> None" "sc_schedule_id v = k"
  then have eq: "ss_schedules (snd (sched_update io v s)) = dput k v (ss_schedules s)"
    by (auto simp: sched_update_def sched_inv_def)
  show "dget (ss_schedules (snd (sched_update io v s))) k' = (if k' = k then Some v else dget (ss_schedules s) k')"
    by (simp add: eq dict_simps)
  have "ss_loaded (snd (sched_update io v s))" using s by (auto simp: sched_update_def sched_inv_def)
  then show "sched_inv (snd (sched_update io v s))" using s by (auto simp: sched_inv_def eq)
next
  show "sc_schedule_id v = k" if "sched_inv s" "dget (ss_schedules s) k = Some v" for s k and v :: schedule
    using that by (auto simp: sched_inv_def dest: own_keysD)
qed

text \<open>Constructing a schedule normalises its delivery once and for all, and bounds its fields.\<close>

lemma rbind_InrD: "rbind r f = Inr b \<Longrightarrow> \<exists>a. r = Inr a \<and> f a = Inr b"
  by (simp add: rbind_eq_Inr)

lemma validate_scheduleD:
  assumes "validate_schedule dumps s = Inr t"
  shows "sc_trigger_type t = sc_trigger_type s" and "sc_interval_sec t = sc_interval_sec s"
    and "sc_trigger_type s = INTERVAL \<Longrightarrow> \<exists>n. sc_interval_sec s = Some n \<and> 60 \<le> n \<and> n \<le> 2592000"
    and "sc_trigger_type s = CRON \<Longrightarrow> \<exists>e. sc_cron_expr s = Some e \<and> cron_pattern (py_strip e)"
    and "0 \<le> sc_compute_error_count t"
  using assms by (auto simp: validate_schedule_def Let_def dest!: rbind_InrD
      split: if_splits trigger_type.splits option.splits list.splits sum.splits)

end
