(* ===== verification/Run_History.thy ===== *)
theory Run_History
  imports Contracts
begin

text \<open>
  \<open>services/scheduler/history.py\<close>: the append-only run log with its idempotency index. A
  record's start is the instant its text denotes (an unreadable text counts as 0).
\<close>

definition MAX_RUNS :: nat where "MAX_RUNS = 10000"
definition RETENTION_SEC :: time where "RETENTION_SEC = 30 * 86400"

datatype run_status = Queued | Completed | Error | Skipped

record run_record =
  rr_run_id :: string
  rr_schedule_id :: string
  rr_trace_id :: string
  rr_idempotency_key :: string
  rr_prompt_id :: "string option"
  rr_status :: run_status
  rr_started_at :: time
  rr_finished_at :: "time option"
  rr_error_summary :: "string option"

definition new_run :: "time \<Rightarrow> string \<Rightarrow> string \<Rightarrow> string \<Rightarrow> string \<Rightarrow> run_record" where
  "new_run now run_id schedule_id trace_id key = \<lparr>rr_run_id = run_id, rr_schedule_id = schedule_id,
     rr_trace_id = trace_id, rr_idempotency_key = key, rr_prompt_id = None, rr_status = Queued,
     rr_started_at = now, rr_finished_at = None, rr_error_summary = None\<rparr>"

definition run_complete :: "time \<Rightarrow> string option \<Rightarrow> run_record \<Rightarrow> run_record" where
  "run_complete now prompt_id r = r\<lparr>rr_status := Completed, rr_prompt_id := prompt_id, rr_finished_at := Some now\<rparr>"

definition summary :: "string \<Rightarrow> string option" where
  "summary t = (if t = [] then None else Some (take 200 t))"

definition run_fail :: "time \<Rightarrow> string \<Rightarrow> run_record \<Rightarrow> run_record" where
  "run_fail now error r = r\<lparr>rr_status := Error, rr_error_summary := summary error, rr_finished_at := Some now\<rparr>"

definition run_skip :: "time \<Rightarrow> string \<Rightarrow> run_record \<Rightarrow> run_record" where
  "run_skip now reason r = r\<lparr>rr_status := Skipped, rr_error_summary := summary reason, rr_finished_at := Some now\<rparr>"

lemma run_marks [simp]:
  "rr_idempotency_key (run_complete now p r) = rr_idempotency_key r" "rr_started_at (run_complete now p r) = rr_started_at r"
  "rr_idempotency_key (run_fail now e r) = rr_idempotency_key r" "rr_started_at (run_fail now e r) = rr_started_at r"
  "rr_idempotency_key (run_skip now e r) = rr_idempotency_key r" "rr_started_at (run_skip now e r) = rr_started_at r"
  by (simp_all add: run_complete_def run_fail_def run_skip_def)

text \<open>The file holds a list (a row that does not decode is \<open>None\<close>), something else, or nothing.\<close>

datatype runs_file = R_missing | R_other | R_rows "run_record option list"

record run_history =
  rh_runs :: "run_record list"
  rh_index :: "(string, string) dict"
  rh_loaded :: bool
  rh_file :: runs_file

definition add_index :: "run_record \<Rightarrow> (string, string) dict \<Rightarrow> (string, string) dict" where
  "add_index r ix = dput (rr_idempotency_key r) (rr_run_id r) ix"

definition index_of :: "run_record list \<Rightarrow> (string, string) dict" where
  "index_of rs = fold add_index rs []"

definition history_loaded :: "run_history \<Rightarrow> run_history" where
  "history_loaded h = (if rh_loaded h then h
     else (case rh_file h of
         R_rows rows \<Rightarrow> fold (\<lambda>row h. case row of
             Some r \<Rightarrow> h\<lparr>rh_runs := rh_runs h @ [r], rh_index := add_index r (rh_index h)\<rparr>
           | None \<Rightarrow> h) rows h
       | _ \<Rightarrow> h)\<lparr>rh_loaded := True\<rparr>)"

definition save_history :: "bool \<Rightarrow> run_history \<Rightarrow> bool \<times> run_history" where
  "save_history io h = (if io then (True, h\<lparr>rh_file := R_rows (map Some (rh_runs h))\<rparr>) else (False, h))"

definition flush_history :: "bool \<Rightarrow> run_history \<Rightarrow> bool \<times> run_history" where
  "flush_history io h = (if \<not> rh_loaded h then (True, h) else save_history io h)"

definition enforce_retention :: "time \<Rightarrow> run_history \<Rightarrow> run_history" where
  "enforce_retention now h =
    (let runs = filter (\<lambda>r. rr_started_at r > now - RETENTION_SEC) (rh_runs h);
         runs = (if length runs > MAX_RUNS then take_last MAX_RUNS runs else runs)
     in h\<lparr>rh_runs := runs, rh_index := index_of runs\<rparr>)"

definition add_run :: "bool \<Rightarrow> time \<Rightarrow> run_record \<Rightarrow> run_history \<Rightarrow> bool \<times> run_history" where
  "add_run io now r h = (let h = history_loaded h in
     if dget (rh_index h) (rr_idempotency_key r) \<noteq> None then (False, h)
     else save_history io (enforce_retention now
            (h\<lparr>rh_runs := rh_runs h @ [r], rh_index := add_index r (rh_index h)\<rparr>)))"

text \<open>The first run with the id is updated in place (by \<open>f\<close>).\<close>

fun update_first :: "(run_record \<Rightarrow> bool) \<Rightarrow> (run_record \<Rightarrow> run_record) \<Rightarrow> run_record list \<Rightarrow> run_record list option" where
  "update_first P f [] = None"
| "update_first P f (r # rs) = (if P r then Some (f r # rs) else map_option (Cons r) (update_first P f rs))"

definition update_run :: "bool \<Rightarrow> string \<Rightarrow> (run_record \<Rightarrow> run_record) \<Rightarrow> run_history \<Rightarrow> bool \<times> run_history" where
  "update_run io run_id f h = (let h = history_loaded h in
     case update_first (\<lambda>r. rr_run_id r = run_id) f (rh_runs h) of
       Some rs \<Rightarrow> save_history io (h\<lparr>rh_runs := rs\<rparr>)
     | None \<Rightarrow> (False, h))"

definition get_run :: "string \<Rightarrow> run_history \<Rightarrow> run_record option" where
  "get_run run_id h = find (\<lambda>r. rr_run_id r = run_id) (rh_runs (history_loaded h))"

definition get_by_idempotency_key :: "string \<Rightarrow> run_history \<Rightarrow> run_record option" where
  "get_by_idempotency_key key h = (case dget (rh_index (history_loaded h)) key of
       Some (c # rid) \<Rightarrow> get_run (c # rid) h | _ \<Rightarrow> None)"

definition is_processed :: "string \<Rightarrow> run_history \<Rightarrow> bool" where
  "is_processed key h \<longleftrightarrow> dget (rh_index (history_loaded h)) key \<noteq> None"

definition list_runs :: "string option \<Rightarrow> run_status option \<Rightarrow> nat \<Rightarrow> nat \<Rightarrow> run_history \<Rightarrow> run_record list" where
  "list_runs schedule_id status limit offset h =
    (let runs = rh_runs (history_loaded h);
         runs = (case schedule_id of Some (c # s) \<Rightarrow> filter (\<lambda>r. rr_schedule_id r = c # s) runs | _ \<Rightarrow> runs);
         runs = (case status of Some st \<Rightarrow> filter (\<lambda>r. rr_status r = st) runs | None \<Rightarrow> runs)
     in take limit (drop offset (rev runs)))"

definition count_runs :: "string option \<Rightarrow> run_history \<Rightarrow> nat" where
  "count_runs schedule_id h = (case schedule_id of
       Some (c # s) \<Rightarrow> length (filter (\<lambda>r. rr_schedule_id r = c # s) (rh_runs (history_loaded h)))
     | _ \<Rightarrow> length (rh_runs (history_loaded h)))"

subsection \<open>The index mirrors the log\<close>

definition history_inv :: "run_history \<Rightarrow> bool" where
  "history_inv h \<longleftrightarrow> rh_loaded h \<and> rh_index h = index_of (rh_runs h)
     \<and> distinct (map rr_idempotency_key (rh_runs h)) \<and> length (rh_runs h) \<le> MAX_RUNS"

lemma dget_index_fold: "dget (fold add_index rs ix) k \<noteq> None \<longleftrightarrow> k \<in> rr_idempotency_key ` set rs \<or> dget ix k \<noteq> None"
  by (induction rs arbitrary: ix) (auto simp: add_index_def dict_simps)

lemma dget_index_of: "dget (index_of rs) k = None \<longleftrightarrow> k \<notin> rr_idempotency_key ` set rs"
  using dget_index_fold [of rs "[]" k] by (auto simp: index_of_def)

lemma history_loaded_id [simp]: "rh_loaded h \<Longrightarrow> history_loaded h = h"
  by (simp add: history_loaded_def)

lemma save_history_simps [simp]: "fst (save_history io h) = io" "rh_runs (snd (save_history io h)) = rh_runs h"
  "rh_index (snd (save_history io h)) = rh_index h" "rh_loaded (snd (save_history io h)) = rh_loaded h"
  by (simp_all add: save_history_def)

text \<open>What is kept of a log with one more run.\<close>

definition retained :: "time \<Rightarrow> run_record list \<Rightarrow> run_record list" where
  "retained now rs = take_last MAX_RUNS (filter (\<lambda>r. rr_started_at r > now - RETENTION_SEC) rs)"

lemma enforce_retention_eq: "enforce_retention now h = h\<lparr>rh_runs := retained now (rh_runs h), rh_index := index_of (retained now (rh_runs h))\<rparr>"
  by (simp add: enforce_retention_def retained_def Let_def take_last_all)

lemma is_processed_iff: "history_inv h \<Longrightarrow> is_processed k h \<longleftrightarrow> k \<in> rr_idempotency_key ` set (rh_runs h)"
  by (auto simp: is_processed_def history_inv_def dget_index_of)

lemma add_run_eq:
  assumes "history_inv h"
  shows "is_processed (rr_idempotency_key r) h \<Longrightarrow> add_run io now r h = (False, h)"
    and "\<not> is_processed (rr_idempotency_key r) h \<Longrightarrow> rh_runs (snd (add_run io now r h)) = retained now (rh_runs h @ [r])"
  using assms by (auto simp: add_run_def is_processed_def history_inv_def Let_def enforce_retention_eq)

lemma distinct_retained: "distinct (map rr_idempotency_key rs) \<Longrightarrow> distinct (map rr_idempotency_key (retained now rs))"
  by (simp add: retained_def take_last_def drop_map [symmetric] distinct_map_filter)

lemma add_run_inv:
  assumes inv: "history_inv h"
  shows "history_inv (snd (add_run io now r h))"
proof (cases "is_processed (rr_idempotency_key r) h")
  case False
  then have new: "rr_idempotency_key r \<notin> rr_idempotency_key ` set (rh_runs h)"
    using is_processed_iff [OF inv] by simp
  have "distinct (map rr_idempotency_key (rh_runs h @ [r]))" using new inv by (auto simp: history_inv_def)
  then have "distinct (map rr_idempotency_key (retained now (rh_runs h @ [r])))" by (rule distinct_retained)
  moreover have "dget (rh_index h) (rr_idempotency_key r) = None"
    using False inv by (simp add: is_processed_def history_inv_def)
  ultimately show ?thesis
    using inv by (simp add: history_inv_def add_run_def Let_def enforce_retention_eq) (simp add: retained_def)
qed (use inv add_run_eq(1) in simp)

subsection \<open>The log as a gate\<close>

definition history_live :: "time \<Rightarrow> run_history \<Rightarrow> string \<Rightarrow> bool" where
  "history_live now h k \<longleftrightarrow> (\<exists>r \<in> set (rh_runs h). rr_idempotency_key r = k \<and> rr_started_at r > now - RETENTION_SEC)"

definition history_room :: "run_history \<Rightarrow> bool" where
  "history_room h \<longleftrightarrow> length (rh_runs h) < MAX_RUNS"

lemma history_live_processed: "history_inv h \<Longrightarrow> history_live now h k \<Longrightarrow> is_processed k h"
  by (auto simp: is_processed_iff history_live_def)

lemma retained_room: "length rs \<le> MAX_RUNS \<Longrightarrow> retained now rs = filter (\<lambda>r. rr_started_at r > now - RETENTION_SEC) rs"
  unfolding retained_def by (intro take_last_all order_trans [OF length_filter_le])

lemma add_run_live:
  assumes "history_inv h" and "history_room h" and "now \<le> later"
    and "history_live later h k \<or> (k = rr_idempotency_key r \<and> \<not> is_processed k h \<and> rr_started_at r > later - RETENTION_SEC)"
  shows "history_live later (snd (add_run io now r h)) k"
proof (cases "is_processed (rr_idempotency_key r) h")
  case True
  then have "history_live later h k" using assms(4) by auto
  then show ?thesis using add_run_eq(1) [OF assms(1) True] by simp
next
  case False
  have "length (rh_runs h @ [r]) \<le> MAX_RUNS" using assms(2) by (simp add: history_room_def)
  then have "rh_runs (snd (add_run io now r h)) = filter (\<lambda>r. rr_started_at r > now - RETENTION_SEC) (rh_runs h @ [r])"
    using add_run_eq(2) [OF assms(1) False] by (simp add: retained_room)
  then show ?thesis using assms(3,4) by (auto simp: history_live_def)
qed

end
