(* ===== verification/Sched_Runner.thy ===== *)
theory Sched_Runner
  imports Sched_Model Run_History Delivery_Outbox "HOL-Library.Multiset"
begin

text \<open>
  \<open>services/scheduler/runner.py\<close>: the due test of a schedule, the tick, the execution of one
  schedule. The clock is the UTC epoch time of a call. \<open>croniter\<close> is a package outside the
  repository: a function from an expression and a base time to the next time, or an
  exception. The submit function the runner is given is a parameter, too, as are the
  digest \<open>H\<close> and the trace identifiers.
\<close>

subsection \<open>Calendar fields of the UTC clock\<close>

record dt_fields =
  dt_minute :: int
  dt_hour :: int
  dt_day :: int
  dt_month :: int
  dt_weekday :: int

text \<open>
  The civil calendar from the number of days since 1970-01-01, by the 400-year cycle that
  starts on a first of March. A Thursday is weekday 3.
\<close>

definition day_and_month :: "int \<Rightarrow> int \<times> int" where
  "day_and_month days =
    (let doe = (days + 719468) mod 146097;
         yoe = (doe - doe div 1460 + doe div 36524 - doe div 146096) div 365;
         doy = doe - (365 * yoe + yoe div 4 - yoe div 100);
         mp = (5 * doy + 2) div 153
     in (doy - (153 * mp + 2) div 5 + 1, if mp < 10 then mp + 3 else mp - 9))"

definition minute_of :: "time \<Rightarrow> int" where
  "minute_of ts = \<lfloor>ts / 60\<rfloor> mod 60"

definition fields_of :: "time \<Rightarrow> dt_fields" where
  "fields_of ts = (let days = \<lfloor>ts / 86400\<rfloor>; (d, m) = day_and_month days in
     \<lparr>dt_minute = minute_of ts, dt_hour = \<lfloor>ts / 3600\<rfloor> mod 24, dt_day = d, dt_month = m,
      dt_weekday = (days + 3) mod 7\<rparr>)"

subsection \<open>Idempotency keys and due tests\<close>

definition tick_minute :: "time \<Rightarrow> int" where
  "tick_minute tick_ts = \<lfloor>tick_ts / 60\<rfloor> * 60"

definition compute_idempotency_key :: "(string \<Rightarrow> string) \<Rightarrow> string \<Rightarrow> time \<Rightarrow> string" where
  "compute_idempotency_key H schedule_id tick_ts =
     ''sched_'' @ take 16 (H (schedule_id @ '':'' @ int_str (tick_minute tick_ts)))"

definition is_interval_due :: "int \<Rightarrow> time option \<Rightarrow> time \<Rightarrow> bool" where
  "is_interval_due interval_sec last_tick_ts now_ts = (case last_tick_ts of
     None \<Rightarrow> True | Some l \<Rightarrow> now_ts - l \<ge> of_int interval_sec)"

text \<open>
  The matching without \<open>croniter\<close>; an exception (\<open>int\<close> of no number, a step of 0) is
  \<open>None\<close>. Fields are tested in order and the first that does not match ends the test.
\<close>

definition all_digits :: "string \<Rightarrow> bool" where
  "all_digits f \<longleftrightarrow> f \<noteq> [] \<and> list_all is_digit f"

definition cron_matches :: "string \<Rightarrow> int \<Rightarrow> bool option" where
  "cron_matches field v =
    (if field = ''*'' then Some True
     else if all_digits field then Some (py_int field = Some v)
     else if CHR '','' \<in> set field
       then Some (list_ex (\<lambda>x. all_digits x \<and> py_int x = Some v) (split_sep (\<lambda>c. c = CHR '','') [] field))
     else if CHR ''/'' \<in> set field
       then (case py_int (split_sep (\<lambda>c. c = CHR ''/'') [] field ! 1) of
               None \<Rightarrow> None
             | Some step \<Rightarrow> if step = 0 then None else Some (v mod step = 0))
     else Some True)"

fun all_match :: "(string \<times> int) list \<Rightarrow> bool option" where
  "all_match [] = Some True"
| "all_match ((f, v) # rest) = (case cron_matches f v of
      None \<Rightarrow> None | Some False \<Rightarrow> Some False | Some True \<Rightarrow> all_match rest)"

definition basic_cron_match :: "string \<Rightarrow> dt_fields \<Rightarrow> bool option" where
  "basic_cron_match cron_expr f = (let parts = py_split cron_expr in
     if length parts \<noteq> 5 then Some False
     else all_match (zip parts [dt_minute f, dt_hour f, dt_day f, dt_month f, dt_weekday f]))"

datatype cron_backend = No_croniter | Croniter "string \<Rightarrow> time \<Rightarrow> time option"

text \<open>
  The base of a first run: the current minute less one, written with \<open>replace(minute=...)\<close>,
  which raises when the minute is 0. A cursor of 0 counts as no cursor.
\<close>

definition cron_base :: "time option \<Rightarrow> time \<Rightarrow> time option" where
  "cron_base last_tick_ts now = (case last_tick_ts of
       Some l \<Rightarrow> if l \<noteq> 0 then Some l
                 else if minute_of now = 0 then None else Some (of_int (tick_minute now) - 60)
     | None \<Rightarrow> if minute_of now = 0 then None else Some (of_int (tick_minute now) - 60))"

definition is_cron_due :: "cron_backend \<Rightarrow> string \<Rightarrow> time option \<Rightarrow> time \<Rightarrow> bool option" where
  "is_cron_due cb cron_expr last_tick_ts now = (case cb of
       No_croniter \<Rightarrow> basic_cron_match cron_expr (fields_of now)
     | Croniter next_time \<Rightarrow>
         Option.bind (cron_base last_tick_ts now) (\<lambda>base.
         map_option (\<lambda>t. t \<le> now) (next_time cron_expr base)))"

text \<open>
  The due test of a schedule; \<open>None\<close> is an exception. A missing cron expression or
  interval (which validation excludes) is one as well.
\<close>

definition schedule_due :: "cron_backend \<Rightarrow> schedule \<Rightarrow> time \<Rightarrow> bool option" where
  "schedule_due cb s now = (case sc_trigger_type s of
       CRON \<Rightarrow> (case sc_cron_expr s of None \<Rightarrow> None | Some e \<Rightarrow> is_cron_due cb e (sc_last_tick_ts s) now)
     | INTERVAL \<Rightarrow> (case sc_interval_sec s of
           None \<Rightarrow> (if sc_last_tick_ts s = None then Some True else None)
         | Some n \<Rightarrow> Some (is_interval_due n (sc_last_tick_ts s) now)))"

subsection \<open>Cursors\<close>

definition interval_of :: "schedule \<Rightarrow> int" where
  "interval_of s = (if sc_trigger_type s = INTERVAL then (case sc_interval_sec s of Some n \<Rightarrow> n | None \<Rightarrow> 0) else 0)"

definition cursor_tick_ts :: "schedule \<Rightarrow> time \<Rightarrow> time" where
  "cursor_tick_ts s tick_ts = (case sc_last_tick_ts s of
       None \<Rightarrow> tick_ts
     | Some l \<Rightarrow> if interval_of s \<noteq> 0 \<and> l + of_int (interval_of s) \<le> tick_ts
                 then l + of_int (interval_of s) else tick_ts)"

definition startup_skip_cursor_ts :: "schedule \<Rightarrow> time \<Rightarrow> time" where
  "startup_skip_cursor_ts s now_ts = (case sc_last_tick_ts s of
       None \<Rightarrow> now_ts
     | Some l \<Rightarrow>
         if interval_of s > 0 then
           let elapsed = now_ts - l in
           if elapsed \<le> 0 then now_ts
           else let intervals = \<lfloor>elapsed / of_int (interval_of s)\<rfloor> in
                if intervals > 0 then l + of_int intervals * of_int (interval_of s) else now_ts
         else now_ts)"

subsection \<open>Collecting the due schedules\<close>

definition DUE_ERROR :: string where "DUE_ERROR = ''due evaluation failed''"

definition evaluate_schedule_due ::
  "cron_backend \<Rightarrow> int \<Rightarrow> bool \<Rightarrow> time \<Rightarrow> schedule \<Rightarrow> sched_store \<Rightarrow> (bool \<times> schedule) \<times> sched_store" where
  "evaluate_schedule_due cb threshold io now s st = (case schedule_due cb s now of
       Some is_due \<Rightarrow>
         let s' = clear_compute_error now s in
         ((is_due, s'), if had_compute_error s then snd (sched_update io s' st) else st)
     | None \<Rightarrow>
         let s' = snd (record_compute_error now DUE_ERROR threshold s) in
         ((False, s'), snd (sched_update io s' st)))"

fun collect_due :: "cron_backend \<Rightarrow> int \<Rightarrow> bool \<Rightarrow> time \<Rightarrow> schedule list \<Rightarrow> sched_store \<Rightarrow> schedule list \<times> sched_store" where
  "collect_due cb threshold io now [] st = ([], st)"
| "collect_due cb threshold io now (s # ss) st =
     (if \<not> sc_enabled s then collect_due cb threshold io now ss st
      else let ((is_due, s'), st) = evaluate_schedule_due cb threshold io now s st;
               (due, st) = collect_due cb threshold io now ss st
           in (if is_due then s' # due else due, st))"

definition skip_missed_ticks :: "cron_backend \<Rightarrow> int \<Rightarrow> bool \<Rightarrow> time \<Rightarrow> sched_store \<Rightarrow> sched_store" where
  "skip_missed_ticks cb threshold io now st =
    (let st = sched_loaded st;
         (due, st) = collect_due cb threshold io now (dvals (ss_schedules st)) st
     in fold (\<lambda>s st. snd (sched_update io (update_cursor now (startup_skip_cursor_ts s now) ''skipped_startup'' s) st)) due st)"

subsection \<open>Executing a schedule\<close>

text \<open>
  What the submit function does: raise, answer something that is no dict, or a dict with
  an optional prompt and the \<open>deduped\<close> flag.
\<close>

datatype submit_result = Submit_raises string | Submit_other | Submit_dict "string option" bool

record sched_system =
  sy_store :: sched_store
  sy_history :: run_history
  sy_outbox :: outbox
  sy_submitted :: "string list"

text \<open>
  The surroundings of an execution: the submit function (\<open>None\<close>: not configured) by
  trace and key, the trace identifier of each execution, the tenant, the digest, and
  whether each file can be written. \<open>sy_submitted\<close> logs the keys of the submit calls.
\<close>

record runner_env =
  re_submit :: "(string \<Rightarrow> string \<Rightarrow> submit_result) option"
  re_trace :: "string \<Rightarrow> string"
  re_tenant :: string
  re_H :: "string \<Rightarrow> string"
  re_io :: bool

definition delivery_enabled :: "jobject option \<Rightarrow> bool" where
  "delivery_enabled d = (case d of None \<Rightarrow> False | Some d \<Rightarrow> (case dget d ''enabled'' of
       Some (J_bool b) \<Rightarrow> b | Some (J_int n) \<Rightarrow> n \<noteq> 0 | Some (J_str s) \<Rightarrow> s \<noteq> []
     | Some (J_other s) \<Rightarrow> True | _ \<Rightarrow> False))"

definition record_delivery_intent :: "runner_env \<Rightarrow> time \<Rightarrow> schedule \<Rightarrow> string \<Rightarrow> string \<Rightarrow> string \<Rightarrow> outbox \<Rightarrow> outbox" where
  "record_delivery_intent e now s run_id key prompt_id ob = (case sc_delivery s of
       Some d \<Rightarrow> if delivery_enabled (Some d)
         then snd (record_intent (re_H e) (re_io e) now key run_id (sc_schedule_id s) prompt_id d (re_tenant e) ob)
         else ob
     | None \<Rightarrow> ob)"

text \<open>The run record after the submission, and the prompt to deliver for.\<close>

definition run_outcome :: "runner_env \<Rightarrow> time \<Rightarrow> string \<Rightarrow> string \<Rightarrow> run_record \<Rightarrow> run_record \<times> string option" where
  "run_outcome e now trace key r = (case re_submit e of
       None \<Rightarrow> (run_skip now ''No submit function'' r, None)
     | Some submit \<Rightarrow> (case submit trace key of
           Submit_raises msg \<Rightarrow> (run_fail now msg r, None)
         | Submit_other \<Rightarrow> (run_complete now None r, None)
         | Submit_dict p deduped \<Rightarrow>
             (if deduped then run_skip now ''Already queued'' r else run_complete now p r,
              case p of Some (c # t) \<Rightarrow> Some (c # t) | _ \<Rightarrow> None)))"

definition execute_schedule :: "runner_env \<Rightarrow> schedule \<Rightarrow> time \<Rightarrow> sched_system \<Rightarrow> sched_system" where
  "execute_schedule e s tick_ts y =
    (let key = compute_idempotency_key (re_H e) (sc_schedule_id s) tick_ts;
         h = history_loaded (sy_history y)
     in if is_processed key h then y\<lparr>sy_history := h\<rparr>
        else
          let trace = re_trace e key;
              run_id = ''run_'' @ take 12 trace;
              (r, prompt) = run_outcome e tick_ts trace key (new_run tick_ts run_id (sc_schedule_id s) trace key);
              ob = (case prompt of None \<Rightarrow> sy_outbox y
                    | Some p \<Rightarrow> record_delivery_intent e tick_ts s run_id key p (sy_outbox y));
              s' = update_cursor tick_ts (cursor_tick_ts s tick_ts) run_id s
          in \<lparr>sy_store = snd (sched_update (re_io e) s' (sy_store y)),
              sy_history = snd (add_run (re_io e) tick_ts r h),
              sy_outbox = ob,
              sy_submitted = sy_submitted y @ (if re_submit e = None then [] else [key])\<rparr>)"

definition last_or_zero :: "schedule \<Rightarrow> time" where
  "last_or_zero s = (case sc_last_tick_ts s of Some l \<Rightarrow> l | None \<Rightarrow> 0)"

definition cap_due :: "int \<Rightarrow> schedule list \<Rightarrow> schedule list" where
  "cap_due max_runs due = (if int (length due) > max_runs then py_take max_runs (sort_key last_or_zero due) else due)"

definition tick :: "cron_backend \<Rightarrow> runner_env \<Rightarrow> int \<Rightarrow> int \<Rightarrow> bool \<Rightarrow> time \<Rightarrow> sched_system \<Rightarrow> sched_system" where
  "tick cb e max_runs threshold delegated now y =
    (if delegated then y
     else
       let st = sched_loaded (sy_store y);
           (due, st) = collect_due cb threshold (re_io e) now (dvals (ss_schedules st)) st
       in fold (\<lambda>s y. execute_schedule e s now y) (cap_due max_runs due) (y\<lparr>sy_store := st\<rparr>))"

text \<open>
  Where schedules run: an explicit setting, else delegated for a public deployment with a
  split control plane; a failing posture lookup (\<open>None\<close>) counts as embedded.
\<close>

definition resolve_execution_mode :: "string \<Rightarrow> (string \<times> bool) option \<Rightarrow> string" where
  "resolve_execution_mode setting posture =
    (let explicit = py_lower (py_strip setting) in
     if explicit \<in> {''embedded'', ''delegated''} then explicit
     else (case posture of
         Some (profile, split) \<Rightarrow> if profile = ''public'' \<and> split then ''delegated'' else ''embedded''
       | None \<Rightarrow> ''embedded''))"

text \<open>One round of the loop: the mode is read again before every tick.\<close>

definition loop_round :: "cron_backend \<Rightarrow> runner_env \<Rightarrow> int \<Rightarrow> int \<Rightarrow> string \<Rightarrow> time \<Rightarrow> bool \<times> sched_system \<Rightarrow> bool \<times> sched_system" where
  "loop_round cb e max_runs threshold mode now ry = (let (running, y) = ry in
     if \<not> running then ry
     else if mode = ''delegated'' then (False, y)
     else (True, tick cb e max_runs threshold False now y))"


subsection \<open>An execution as a gate\<close>

definition execution_key :: "runner_env \<Rightarrow> time \<Rightarrow> schedule \<Rightarrow> string" where
  "execution_key e tick_ts s = compute_idempotency_key (re_H e) (sc_schedule_id s) tick_ts"

definition execution_gate :: "runner_env \<Rightarrow> time \<Rightarrow> schedule \<Rightarrow> sched_system \<Rightarrow> bool \<times> sched_system" where
  "execution_gate e tick_ts s y = (\<not> is_processed (execution_key e tick_ts s) (history_loaded (sy_history y)),
     execute_schedule e s tick_ts y)"

definition runner_inv :: "sched_system \<Rightarrow> bool" where
  "runner_inv y \<longleftrightarrow> history_inv (sy_history y)"

definition runner_room :: "sched_system \<Rightarrow> bool" where
  "runner_room y \<longleftrightarrow> history_room (sy_history y)"

definition runner_live :: "time \<Rightarrow> sched_system \<Rightarrow> string \<Rightarrow> bool" where
  "runner_live now y k \<longleftrightarrow> history_live now (sy_history y) k"

lemma run_outcome_key: "rr_idempotency_key (fst (run_outcome e now trace key r)) = rr_idempotency_key r"
  "rr_started_at (fst (run_outcome e now trace key r)) = rr_started_at r"
  by (auto simp: run_outcome_def split: option.split submit_result.split)

text \<open>What an execution does to the log of runs and of submissions.\<close>

lemma execute_history:
  fixes e t s
  assumes "runner_inv y"
  defines "key \<equiv> execution_key e t s"
  shows "is_processed key (sy_history y) \<Longrightarrow> execute_schedule e s t y = y"
    and "\<not> is_processed key (sy_history y) \<Longrightarrow> \<exists>r. rr_idempotency_key r = key \<and> rr_started_at r = t
      \<and> sy_history (execute_schedule e s t y) = snd (add_run (re_io e) t r (sy_history y))
      \<and> sy_submitted (execute_schedule e s t y) = sy_submitted y @ (if re_submit e = None then [] else [key])
      \<and> (\<exists>run_id. sy_store (execute_schedule e s t y) =
           snd (sched_update (re_io e) (update_cursor t (cursor_tick_ts s t) run_id s) (sy_store y)))"
proof -
  have l: "history_loaded (sy_history y) = sy_history y" using assms(1) by (simp add: runner_inv_def history_inv_def)
  show "is_processed key (sy_history y) \<Longrightarrow> execute_schedule e s t y = y"
    by (simp add: execute_schedule_def Let_def l key_def execution_key_def)
  define trace where "trace = re_trace e key"
  define r where "r = fst (run_outcome e t trace key (new_run t (''run_'' @ take 12 trace) (sc_schedule_id s) trace key))"
  have r: "rr_idempotency_key r = key" "rr_started_at r = t"
    by (simp_all add: r_def run_outcome_key) (simp_all add: new_run_def)
  assume "\<not> is_processed key (sy_history y)"
  then have "sy_history (execute_schedule e s t y) = snd (add_run (re_io e) t r (sy_history y))
      \<and> sy_submitted (execute_schedule e s t y) = sy_submitted y @ (if re_submit e = None then [] else [key])
      \<and> (\<exists>run_id. sy_store (execute_schedule e s t y) =
           snd (sched_update (re_io e) (update_cursor t (cursor_tick_ts s t) run_id s) (sy_store y)))"
    by (auto simp: execute_schedule_def Let_def l r_def trace_def key_def execution_key_def split_def)
  with r show "\<exists>r. rr_idempotency_key r = key \<and> rr_started_at r = t
      \<and> sy_history (execute_schedule e s t y) = snd (add_run (re_io e) t r (sy_history y))
      \<and> sy_submitted (execute_schedule e s t y) = sy_submitted y @ (if re_submit e = None then [] else [key])
      \<and> (\<exists>run_id. sy_store (execute_schedule e s t y) =
           snd (sched_update (re_io e) (update_cursor t (cursor_tick_ts s t) run_id s) (sy_store y)))"
    by blast
qed

lemma execute_inv: "runner_inv y \<Longrightarrow> runner_inv (execute_schedule e s t y)"
  using execute_history [of y e t s] add_run_inv
  by (cases "is_processed (execution_key e t s) (sy_history y)") (auto simp: runner_inv_def)

interpretation execution: once_gate "execution_gate e" "execution_key e" runner_live runner_inv runner_room RETENTION_SEC
proof unfold_locales
  fix y s t assume inv: "runner_inv y"
  then have h: "history_inv (sy_history y)" by (simp add: runner_inv_def)
  then have l: "history_loaded (sy_history y) = sy_history y" by (simp add: history_inv_def)
  show "runner_inv (snd (execution_gate e t s y))" using inv by (simp add: execution_gate_def execute_inv)
  show "\<not> fst (execution_gate e t s y)" if "runner_live t y (execution_key e t s)"
    using that history_live_processed [OF h] by (simp add: execution_gate_def l runner_live_def)
  fix t' assume room: "runner_room y" and le: "t \<le> t'"
  have keep: "runner_live t' (snd (execution_gate e t s y)) k"
    if "runner_live t' y k \<or> (k = execution_key e t s \<and> \<not> is_processed k (sy_history y) \<and> t > t' - RETENTION_SEC)" for k
  proof (cases "is_processed (execution_key e t s) (sy_history y)")
    case True
    then show ?thesis using that execute_history(1) [OF inv True] by (auto simp: execution_gate_def)
  next
    case False
    then obtain r where r: "rr_idempotency_key r = execution_key e t s" "rr_started_at r = t"
      and eq: "sy_history (execute_schedule e s t y) = snd (add_run (re_io e) t r (sy_history y))"
      using execute_history(2) [OF inv False] by blast
    show ?thesis
      using add_run_live [OF h, of t t' k r "re_io e"] room le that r
      by (auto simp: execution_gate_def runner_live_def runner_room_def eq)
  qed
  show "runner_live t' (snd (execution_gate e t s y)) (execution_key e t s)"
    if "fst (execution_gate e t s y)" "t' < t + RETENTION_SEC"
    using that keep [of "execution_key e t s"] by (simp add: execution_gate_def l)
  show "runner_live t' (snd (execution_gate e t s y)) k" if "runner_live t' y k" for k
    using that keep by blast
qed

text \<open>The submissions of a key are its accepted executions.\<close>

lemma claim_run_execution: "claim_run (execution_gate e) ((t, s) # cs) y =
    (fst (execution_gate e t s y), y) # claim_run (execution_gate e) cs (execute_schedule e s t y)"
  by (simp add: split_def Let_def execution_gate_def)

definition run_executions :: "runner_env \<Rightarrow> (time \<times> schedule) list \<Rightarrow> sched_system \<Rightarrow> sched_system" where
  "run_executions e cs y = fold (\<lambda>(t, s) y. execute_schedule e s t y) cs y"

lemma submitted_accepted:
  assumes "runner_inv y" and "re_submit e \<noteq> None"
  shows "count_list (sy_submitted (run_executions e cs y)) k =
    count_list (sy_submitted y) k + accepted (execution_key e) k cs (claim_run (execution_gate e) cs y)"
  using assms(1)
proof (induction cs arbitrary: y)
  case Nil
  then show ?case by (simp add: run_executions_def)
next
  case (Cons c cs)
  obtain t s where c: "c = (t, s)" by (cases c)
  define y' where "y' = execute_schedule e s t y"
  have l: "history_loaded (sy_history y) = sy_history y"
    using Cons.prems by (simp add: runner_inv_def history_inv_def)
  have "count_list (sy_submitted y') k = count_list (sy_submitted y) k +
      (if execution_key e t s = k \<and> fst (execution_gate e t s y) then 1 else 0)"
    using execute_history [OF Cons.prems, of e t s] assms(2)
    by (cases "is_processed (execution_key e t s) (sy_history y)") (auto simp: y'_def execution_gate_def l)
  moreover have "runner_inv y'" using Cons.prems by (simp add: y'_def execute_inv)
  moreover have "run_executions e (c # cs) y = run_executions e cs y'" by (simp add: run_executions_def c y'_def)
  moreover have "claim_run (execution_gate e) (c # cs) y = (fst (execution_gate e t s y), y) # claim_run (execution_gate e) cs y'"
    by (simp only: c claim_run_execution y'_def)
  ultimately show ?case using Cons.IH [of y'] by (simp add: accepted_Cons c)
qed

text \<open>Every execution adds at most one run.\<close>

lemma length_retained: "length (retained now rs) \<le> length rs"
  by (simp add: retained_def min.coboundedI2)

lemma execute_length:
  assumes "runner_inv y"
  shows "length (rh_runs (sy_history (execute_schedule e s t y))) \<le> length (rh_runs (sy_history y)) + 1"
proof (cases "is_processed (execution_key e t s) (sy_history y)")
  case False
  then obtain r where r: "rr_idempotency_key r = execution_key e t s"
    and eq: "sy_history (execute_schedule e s t y) = snd (add_run (re_io e) t r (sy_history y))"
    using execute_history(2) [OF assms] by blast
  show ?thesis
    using add_run_eq(2) [of "sy_history y" r "re_io e" t] False assms length_retained [of t "rh_runs (sy_history y) @ [r]"]
    by (simp add: eq r runner_inv_def)
qed (use execute_history(1) [OF assms] in simp)

lemma executions_room:
  "runner_inv y \<Longrightarrow> length (rh_runs (sy_history y)) + length cs \<le> MAX_RUNS \<Longrightarrow>
   all_states runner_room (claim_run (execution_gate e) cs y)"
proof (induction cs arbitrary: y)
  case (Cons c cs)
  obtain t s where c: "c = (t, s)" by (cases c)
  define y' where "y' = execute_schedule e s t y"
  have "length (rh_runs (sy_history y')) + length cs \<le> MAX_RUNS"
    using execute_length [OF Cons.prems(1), of e s t] Cons.prems(2) by (simp add: y'_def)
  moreover have "runner_inv y'" using Cons.prems by (simp add: y'_def execute_inv)
  ultimately have "all_states runner_room (claim_run (execution_gate e) cs y')" by (rule Cons.IH [rotated])
  moreover have "runner_room y" using Cons.prems(2) by (simp add: runner_room_def history_room_def)
  ultimately show ?case unfolding c claim_run_execution by (simp add: all_states_def y'_def)
qed (simp add: all_states_def)


subsection \<open>Due tests and errors over time\<close>

text \<open>Evaluating one schedule at a list of times, as long as it is enabled.\<close>

definition evaluate_run :: "cron_backend \<Rightarrow> int \<Rightarrow> time list \<Rightarrow> schedule \<Rightarrow> schedule" where
  "evaluate_run cb threshold ts s = fold (\<lambda>now s. if sc_enabled s
      then snd (fst (evaluate_schedule_due cb threshold True now s \<lparr>ss_schedules = [], ss_file = S_missing, ss_loaded = True\<rparr>))
      else s) ts s"

lemma record_compute_error_simps [simp]:
  "sc_compute_error_count (snd (record_compute_error now m thr s)) = sc_compute_error_count s + 1"
  "sc_enabled (snd (record_compute_error now m thr s)) \<longleftrightarrow> sc_enabled s \<and> sc_compute_error_count s + 1 < max 1 thr"
  "sc_last_tick_ts (snd (record_compute_error now m thr s)) = sc_last_tick_ts s"
  "sc_trigger_type (snd (record_compute_error now m thr s)) = sc_trigger_type s"
  "sc_cron_expr (snd (record_compute_error now m thr s)) = sc_cron_expr s"
  "sc_interval_sec (snd (record_compute_error now m thr s)) = sc_interval_sec s"
  by (auto simp: record_compute_error_def Let_def)

lemma schedule_due_cong:
  "sc_trigger_type s' = sc_trigger_type s \<Longrightarrow> sc_cron_expr s' = sc_cron_expr s \<Longrightarrow> sc_interval_sec s' = sc_interval_sec s \<Longrightarrow>
   sc_last_tick_ts s' = sc_last_tick_ts s \<Longrightarrow> schedule_due cb s' now = schedule_due cb s now"
  unfolding schedule_due_def by (simp only:)

lemma schedule_due_error: "schedule_due cb (snd (record_compute_error t m thr s)) now = schedule_due cb s now"
  by (rule schedule_due_cong) simp_all

lemma evaluate_run_errors:
  assumes "\<forall>now \<in> set ts. schedule_due cb s now = None" and "sc_enabled s"
    and "sc_compute_error_count s < max 1 thr"
  shows "sc_compute_error_count (evaluate_run cb thr ts s) = min (sc_compute_error_count s + int (length ts)) (max 1 thr)
    \<and> (sc_enabled (evaluate_run cb thr ts s) \<longleftrightarrow> sc_compute_error_count s + int (length ts) < max 1 thr)"
  using assms
proof (induction ts arbitrary: s)
  case (Cons now ts)
  define s' where "s' = snd (record_compute_error now DUE_ERROR thr s)"
  have run: "evaluate_run cb thr (now # ts) s = evaluate_run cb thr ts s'"
    using Cons.prems by (simp add: evaluate_run_def evaluate_schedule_due_def s'_def Let_def)
  have s': "sc_compute_error_count s' = sc_compute_error_count s + 1"
    "sc_enabled s' \<longleftrightarrow> sc_compute_error_count s + 1 < max 1 thr"
    using Cons.prems by (simp_all add: s'_def)
  show ?case
  proof (cases "sc_enabled s'")
    case True
    have "\<forall>now \<in> set ts. schedule_due cb s' now = None"
      using Cons.prems(1) by (simp add: schedule_due_error s'_def)
    then show ?thesis unfolding run using Cons.IH [of s'] True s' by auto
  next
    case False
    then have "evaluate_run cb thr ts s' = s'" for ts by (induction ts) (simp_all add: evaluate_run_def)
    then show ?thesis unfolding run using False s' Cons.prems(3) by auto
  qed
qed (simp add: evaluate_run_def)

lemma evaluate_success_clears:
  assumes "schedule_due cb s now = Some b"
  shows "sc_compute_error_count (snd (fst (evaluate_schedule_due cb thr io now s st))) = 0"
  using assms by (auto simp: evaluate_schedule_due_def Let_def clear_compute_error_def had_compute_error_def)


subsection \<open>Properties\<close>

definition sample_schedule :: schedule where
  "sample_schedule = \<lparr>sc_schedule_id = ''s1'', sc_name = ''n'', sc_template_id = ''t'', sc_trigger_type = INTERVAL,
     sc_cron_expr = None, sc_interval_sec = Some 60, sc_inputs = [], sc_delivery = None, sc_timezone = ''local'',
     sc_enabled = True, sc_created_at = 0, sc_updated_at = 0, sc_last_tick_ts = Some 100, sc_last_run_id = None,
     sc_compute_error_count = 0, sc_last_compute_error = None\<rparr>"

definition sample_system :: sched_system where
  "sample_system = \<lparr>sy_store = \<lparr>ss_schedules = [(''s1'', sample_schedule)], ss_file = S_missing, ss_loaded = True\<rparr>,
     sy_history = \<lparr>rh_runs = [], rh_index = [], rh_loaded = True, rh_file = R_missing\<rparr>,
     sy_outbox = \<lparr>ob_intents = [], ob_file = File_missing, ob_loaded = True\<rparr>, sy_submitted = []\<rparr>"

definition sample_env :: runner_env where
  "sample_env = \<lparr>re_submit = Some (\<lambda>trace key. Submit_dict (Some ''p'') False), re_trace = (\<lambda>k. k),
     re_tenant = ''default'', re_H = (\<lambda>x. x), re_io = True\<rparr>"

lemma sample_system_inv: "runner_inv sample_system"
  by (simp add: runner_inv_def sample_system_def history_inv_def index_of_def)

text \<open>
  C1: a schedule's tick is submitted at most once: in any time-ordered sequence of
  executions within the retention of the run log and below its size, whatever the submit
  function answers or raises and whichever files cannot be written, the submit function is
  called at most once more for an idempotency key.
\<close>

theorem submit_at_most_once:
  assumes "runner_inv y" and "re_submit e \<noteq> None"
    and "length (rh_runs (sy_history y)) + length cs \<le> MAX_RUNS"
    and "sorted (map fst cs)" and "\<forall>(t, s) \<in> set cs. a \<le> t \<and> t < a + RETENTION_SEC"
  shows "count_list (sy_submitted (run_executions e cs y)) k \<le> count_list (sy_submitted y) k + 1"
  using execution.at_most_once [OF assms(1) executions_room [OF assms(1,3), of e] assms(4,5), of k]
    submitted_accepted [OF assms(1,2), of cs k] by simp

theorem submit_at_most_once_witness:
  "count_list (sy_submitted (run_executions sample_env [(200, sample_schedule), (210, sample_schedule), (290, sample_schedule)] sample_system))
     (compute_idempotency_key (\<lambda>x. x) ''s1'' 200) \<le> 1"
  using submit_at_most_once [OF sample_system_inv, of sample_env
      "[(200, sample_schedule), (210, sample_schedule), (290, sample_schedule)]" 0
      "compute_idempotency_key (\<lambda>x. x) ''s1'' 200"]
  by (simp add: sample_env_def RETENTION_SEC_def MAX_RUNS_def) (simp add: sample_system_def)

text \<open>
  The cadence of an interval schedule does not drift: executing it when it is due
  moves its stored cursor by exactly one interval, never past the time of the tick, and
  keeps everything else of the schedule but the run id and the time of the update.
\<close>

theorem interval_cadence:
  assumes "runner_inv y" and "sched_inv (sy_store y)" and "dget (ss_schedules (sy_store y)) (sc_schedule_id s) = Some s"
    and "sc_trigger_type s = INTERVAL" and "sc_interval_sec s = Some n" and "n > 0"
    and "sc_last_tick_ts s = Some c" and "schedule_due cb s now = Some True"
    and "\<not> is_processed (execution_key e now s) (sy_history y)"
  shows "c + of_int n \<le> now \<and> (\<exists>run_id. dget (ss_schedules (sy_store (execute_schedule e s now y))) (sc_schedule_id s) =
      Some (s\<lparr>sc_last_tick_ts := Some (c + of_int n), sc_last_run_id := Some run_id, sc_updated_at := now\<rparr>))"
proof -
  have due: "c + of_int n \<le> now" using assms(4-8) by (simp add: schedule_due_def is_interval_due_def)
  then have cur: "cursor_tick_ts s now = c + of_int n" using assms(4-7) by (simp add: cursor_tick_ts_def interval_of_def)
  obtain run_id where st: "sy_store (execute_schedule e s now y) =
      snd (sched_update (re_io e) (update_cursor now (c + of_int n) run_id s) (sy_store y))"
    using execute_history(2) [OF assms(1,9)] cur by auto
  have "dget (ss_schedules (sy_store (execute_schedule e s now y))) (sc_schedule_id s) =
      Some (update_cursor now (c + of_int n) run_id s)"
    unfolding st using schedules.get_upd_same [OF assms(2,3), of "update_cursor now (c + of_int n) run_id s" "re_io e"]
    by (simp add: update_cursor_def)
  then show ?thesis using due by (auto simp: update_cursor_def)
qed

theorem interval_cadence_witness:
  "\<exists>run_id. dget (ss_schedules (sy_store (execute_schedule sample_env sample_schedule 250 sample_system))) ''s1'' =
      Some (sample_schedule\<lparr>sc_last_tick_ts := Some 160, sc_last_run_id := Some run_id, sc_updated_at := 250\<rparr>)"
  using interval_cadence [OF sample_system_inv, of sample_schedule 60 100 No_croniter 250 sample_env]
  by (auto simp: sample_system_def sample_schedule_def sched_inv_def own_keys_def schedule_due_def is_interval_due_def
      is_processed_def)

text \<open>
  Skipping missed intervals at startup puts the cursor of a schedule behind by more
  than an interval on its last interval boundary: a whole number of intervals after the old
  cursor, not after now and less than one interval before it, so that it is not due.
\<close>

theorem startup_skip_boundary:
  assumes "sc_trigger_type s = INTERVAL" and "sc_interval_sec s = Some n" and "n > 0"
    and "sc_last_tick_ts s = Some c" and "c + of_int n \<le> now"
  shows "(\<exists>k > 0. startup_skip_cursor_ts s now = c + of_int k * of_int n)
    \<and> startup_skip_cursor_ts s now \<le> now \<and> now < startup_skip_cursor_ts s now + of_int n
    \<and> \<not> is_interval_due n (Some (startup_skip_cursor_ts s now)) now"
proof -
  define k where "k = \<lfloor>(now - c) / of_int n\<rfloor>"
  have n: "(0::real) < of_int n" using assms(3) by simp
  have "1 \<le> (now - c) / of_int n" using assms(5) n by (simp add: pos_le_divide_eq)
  then have k: "k > 0" by (simp add: k_def)
  have pos: "0 < now - c" using assms(5) n by linarith
  have cur: "startup_skip_cursor_ts s now = c + of_int k * of_int n"
    using assms k pos by (simp add: startup_skip_cursor_ts_def interval_of_def Let_def k_def)
  have "of_int k \<le> (now - c) / of_int n" "(now - c) / of_int n < of_int k + 1"
    unfolding k_def by linarith+
  then have "of_int k * of_int n \<le> now - c" "now - c < (of_int k + 1) * of_int n"
    using n by (simp_all add: pos_le_divide_eq pos_divide_less_eq)
  then show ?thesis using cur k by (auto simp: is_interval_due_def algebra_simps)
qed

theorem startup_skip_boundary_witness:
  "startup_skip_cursor_ts sample_schedule 1000 \<le> 1000 \<and> 1000 < startup_skip_cursor_ts sample_schedule 1000 + 60"
  using startup_skip_boundary [of sample_schedule 60 100 1000] by (simp add: sample_schedule_def)

text \<open>
  A schedule whose due test keeps failing is disabled exactly when the failures in a
  row reach the threshold (at least one), and is not evaluated, nor its failures counted,
  after that.
\<close>

theorem compute_errors_disable:
  assumes "\<forall>now \<in> set ts. schedule_due cb s now = None" and "sc_enabled s" and "sc_compute_error_count s = 0"
  shows "sc_compute_error_count (evaluate_run cb thr ts s) = min (int (length ts)) (max 1 thr)
    \<and> (sc_enabled (evaluate_run cb thr ts s) \<longleftrightarrow> int (length ts) < max 1 thr)"
  using evaluate_run_errors [of ts cb s thr] assms by simp

theorem compute_errors_disable_witness:
  "\<not> sc_enabled (evaluate_run (Croniter (\<lambda>e b. None)) 3 [70, 100, 130, 160]
      (sample_schedule\<lparr>sc_trigger_type := CRON, sc_cron_expr := Some ''61 * * * *''\<rparr>))"
  using compute_errors_disable [of "[70, 100, 130, 160]" "Croniter (\<lambda>e b. None)"
      "sample_schedule\<lparr>sc_trigger_type := CRON, sc_cron_expr := Some ''61 * * * *''\<rparr>" 3]
  by (simp add: schedule_due_def is_cron_due_def cron_base_def sample_schedule_def)

text \<open>
  The cap on runs per tick is fair: at most that many schedules are executed, and none
  of them has run more recently than one that has to wait.
\<close>

theorem cap_prefers_starved:
  assumes "0 \<le> max_runs"
  shows "\<exists>rest. mset due = mset (cap_due max_runs due) + mset rest
    \<and> int (length (cap_due max_runs due)) \<le> max_runs
    \<and> (\<forall>s \<in> set (cap_due max_runs due). \<forall>u \<in> set rest. last_or_zero s \<le> last_or_zero u)"
proof (cases "int (length due) > max_runs")
  case True
  define xs where "xs = sort_key last_or_zero due"
  have cap: "cap_due max_runs due = take (nat max_runs) xs"
    using True assms by (simp add: cap_due_def py_take_def xs_def)
  have "sorted (map last_or_zero (take (nat max_runs) xs @ drop (nat max_runs) xs))"
    unfolding append_take_drop_id by (simp add: xs_def)
  then have "\<forall>s \<in> set (take (nat max_runs) xs). \<forall>u \<in> set (drop (nat max_runs) xs). last_or_zero s \<le> last_or_zero u"
    unfolding map_append sorted_append by auto
  moreover have "mset due = mset (take (nat max_runs) xs) + mset (drop (nat max_runs) xs)"
    by (simp only: mset_append [symmetric] append_take_drop_id) (simp add: xs_def)
  ultimately show ?thesis using True assms by (intro exI [of _ "drop (nat max_runs) xs"]) (simp add: cap xs_def)
next
  case False
  then show ?thesis by (intro exI [of _ "[]"]) (simp add: cap_due_def)
qed

theorem cap_prefers_starved_witness:
  "int (length (cap_due 1 [sample_schedule, sample_schedule\<lparr>sc_last_tick_ts := None\<rparr>])) \<le> 1"
  using cap_prefers_starved [of 1 "[sample_schedule, sample_schedule\<lparr>sc_last_tick_ts := None\<rparr>]"] by auto

text \<open>
  An hourly cron schedule never gets its first run: with any \<open>croniter\<close> whose next
  time for the top-of-the-hour expression is the first full hour after the base, the due
  test of a schedule without a cursor never answers that it is due; in the first minute of
  an hour it raises.
\<close>

theorem hourly_cron_never_first_due:
  assumes "\<And>base. \<exists>h::int. next_time ''0 * * * *'' base = Some (of_int h * 3600) \<and> base < of_int h * 3600"
  shows "is_cron_due (Croniter next_time) ''0 * * * *'' None now =
    (if minute_of now = 0 then None else Some False)"
proof (cases "minute_of now = 0")
  case False
  define q where "q = \<lfloor>now / 60\<rfloor>"
  define base where "base = (of_int (tick_minute now) - 60 :: real)"
  obtain h :: int where h: "next_time ''0 * * * *'' base = Some (of_int h * 3600)" "base < of_int h * 3600"
    using assms by blast
  have "q mod 60 \<ge> 1" using False pos_mod_sign [of 60 q] by (simp add: minute_of_def q_def del: pos_mod_sign)
  have "of_int (q * 60 - 60) < (of_int (h * 3600) :: real)" using h(2) by (simp add: base_def tick_minute_def q_def)
  then have "q * 60 - 60 < h * 3600" by (simp only: of_int_less_iff)
  then have "q - 1 < h * 60" by simp
  then have "q + 1 \<le> h * 60" using \<open>q mod 60 \<ge> 1\<close> by presburger
  then have "of_int (q + 1) \<le> (of_int (h * 60) :: real)" by (simp only: of_int_le_iff)
  moreover have "now / 60 < of_int (q + 1)" unfolding q_def by linarith
  ultimately have "now < of_int h * 3600" by simp
  then show ?thesis using False h(1) by (simp add: is_cron_due_def cron_base_def base_def)
qed (simp add: is_cron_due_def cron_base_def)

theorem hourly_cron_never_first_due_witness:
  "is_cron_due (Croniter (\<lambda>e base. Some (of_int (\<lfloor>base / 3600\<rfloor> + 1) * 3600))) ''0 * * * *'' None 3660 = Some False"
proof -
  have "\<exists>h::int. Some (of_int (\<lfloor>base / 3600\<rfloor> + 1) * (3600 :: real)) = Some (of_int h * 3600) \<and> base < of_int h * 3600"
    for base :: real
  proof -
    have "base / 3600 < of_int \<lfloor>base / 3600\<rfloor> + 1" by linarith
    then have "base < of_int \<lfloor>base / 3600\<rfloor> * 3600 + 3600" by (simp add: pos_divide_less_eq algebra_simps)
    then show ?thesis by (intro exI [of _ "\<lfloor>base / 3600\<rfloor> + 1"]) simp
  qed
  from hourly_cron_never_first_due [of "\<lambda>e base. Some (of_int (\<lfloor>base / 3600\<rfloor> + 1) * 3600)" 3660, OF this]
  show ?thesis by (simp add: minute_of_def)
qed

end
