(* ===== verification/Bridge_Token.thy ===== *)
theory Bridge_Token
  imports Contracts
begin

text \<open>
  \<open>services/bridge_token_lifecycle.py\<close> (and the token of \<open>services/sidecar/bridge_contract.py\<close>):
  issue, rotation with an overlap window, revocation, validation and cleanup of bridge
  tokens. The random identifier and value of a new token are arguments; a status and a
  scope are the texts the file holds. A store without a path keeps nothing on disk.
\<close>

definition TTL_MIN :: int where "TTL_MIN = 60"
definition MAX_TTL_SEC :: int where "MAX_TTL_SEC = 86400"
definition OVERLAP_MIN :: int where "OVERLAP_MIN = 30"
definition MAX_OVERLAP_SEC :: int where "MAX_OVERLAP_SEC = 1800"
definition MAX_AUDIT_TRAIL :: nat where "MAX_AUDIT_TRAIL = 200"

definition BRIDGE_SCOPES :: "string list" where
  "BRIDGE_SCOPES = [''job:submit'', ''job:status'', ''delivery:send'', ''config:read'']"

definition ACTIVE :: string where "ACTIVE = ''active''"
definition EXPIRED :: string where "EXPIRED = ''expired''"
definition REVOKED :: string where "REVOKED = ''revoked''"

lemma status_distinct [simp]: "ACTIVE \<noteq> EXPIRED" "ACTIVE \<noteq> REVOKED" "EXPIRED \<noteq> REVOKED"
  "EXPIRED \<noteq> ACTIVE" "REVOKED \<noteq> ACTIVE" "REVOKED \<noteq> EXPIRED"
  by (simp_all add: ACTIVE_def EXPIRED_def REVOKED_def)

record device_token =
  dt_device_id :: string
  dt_device_token :: string
  dt_scopes :: "string list"
  dt_expires_at :: "time option"
  dt_token_id :: string
  dt_issued_at :: time
  dt_status :: string
  dt_replaces :: string
  dt_overlap_until :: "time option"

datatype audit_action = A_issue | A_rotate | A_revoke | A_expire | A_validate_reject

record audit_event =
  ae_timestamp :: time
  ae_action :: audit_action
  ae_token_id :: string
  ae_device_id :: string
  ae_details :: "(string \<times> string) list"

datatype reject_reason = Unknown_token | Token_revoked | Token_expired | Overlap_window_expired | Insufficient_scope

record validation_result =
  vr_ok :: bool
  vr_token :: "device_token option"
  vr_reject_reason :: "reject_reason option"
  vr_is_overlap :: bool

datatype token_error = Token_not_found | Cannot_rotate string

text \<open>
  The file: absent, unreadable, or its rows; a row that does not decode (\<open>None\<close>) ends the
  loading.
\<close>

datatype token_file = T_missing | T_broken | T_rows "device_token option list"

record token_store =
  ts_tokens :: "(string, device_token) dict"
  ts_audit :: "audit_event list"
  ts_path :: bool
  ts_file :: token_file

fun load_tokens :: "device_token option list \<Rightarrow> (string, device_token) dict \<Rightarrow> (string, device_token) dict" where
  "load_tokens [] d = d"
| "load_tokens (None # rows) d = d"
| "load_tokens (Some t # rows) d = (if set (dt_scopes t) \<subseteq> set BRIDGE_SCOPES
     then load_tokens rows (dput (dt_token_id t) t d) else d)"

definition open_store :: "bool \<Rightarrow> token_file \<Rightarrow> token_store" where
  "open_store path f = \<lparr>ts_tokens = (if path then (case f of T_rows rows \<Rightarrow> load_tokens rows [] | _ \<Rightarrow> []) else []),
     ts_audit = [], ts_path = path, ts_file = f\<rparr>"

definition save_tokens :: "bool \<Rightarrow> token_store \<Rightarrow> token_store" where
  "save_tokens io s = (if ts_path s \<and> io then s\<lparr>ts_file := T_rows (map Some (dvals (ts_tokens s)))\<rparr> else s)"

text \<open>The tokens in the order of the dict; the first with the value.\<close>

definition resolve_token :: "string \<Rightarrow> token_store \<Rightarrow> (string \<times> device_token) option" where
  "resolve_token token_value s = find (\<lambda>(k, t). dt_device_token t = token_value) (ts_tokens s)"

definition emit_audit :: "time \<Rightarrow> audit_action \<Rightarrow> string \<Rightarrow> string \<Rightarrow> (string \<times> string) list \<Rightarrow> token_store \<Rightarrow> token_store" where
  "emit_audit now action token_id device_id details s =
    (let trail = ts_audit s @ [\<lparr>ae_timestamp = now, ae_action = action, ae_token_id = token_id,
           ae_device_id = device_id, ae_details = details\<rparr>]
     in s\<lparr>ts_audit := (if length trail > MAX_AUDIT_TRAIL then take_last MAX_AUDIT_TRAIL trail else trail)\<rparr>)"

definition get_audit_trail :: "string option \<Rightarrow> token_store \<Rightarrow> audit_event list" where
  "get_audit_trail device_id s = (case device_id of
       Some (c # d) \<Rightarrow> filter (\<lambda>e. ae_device_id e = c # d) (ts_audit s) | _ \<Rightarrow> ts_audit s)"

definition put_token :: "string \<Rightarrow> device_token \<Rightarrow> token_store \<Rightarrow> token_store" where
  "put_token k t s = s\<lparr>ts_tokens := dput k t (ts_tokens s)\<rparr>"

definition bounded_ttl :: "int \<Rightarrow> int" where
  "bounded_ttl ttl_sec = min (max ttl_sec TTL_MIN) MAX_TTL_SEC"

definition bounded_overlap :: "int \<Rightarrow> int" where
  "bounded_overlap overlap_sec = min (max overlap_sec OVERLAP_MIN) MAX_OVERLAP_SEC"

definition new_token :: "time \<Rightarrow> string \<Rightarrow> string \<Rightarrow> string \<Rightarrow> string list \<Rightarrow> int \<Rightarrow> device_token" where
  "new_token now hex token_value device_id scopes ttl_sec =
    \<lparr>dt_device_id = device_id, dt_device_token = token_value,
     dt_scopes = (if scopes = [] then [''job:status'', ''config:read''] else scopes),
     dt_expires_at = Some (now + of_int (bounded_ttl ttl_sec)), dt_token_id = ''bt_'' @ hex,
     dt_issued_at = now, dt_status = ACTIVE, dt_replaces = [], dt_overlap_until = None\<rparr>"

definition issue_token :: "bool \<Rightarrow> time \<Rightarrow> string \<Rightarrow> string \<Rightarrow> string \<Rightarrow> string list \<Rightarrow> int \<Rightarrow> token_store \<Rightarrow>
    device_token \<times> token_store" where
  "issue_token io now hex token_value device_id scopes ttl_sec s =
    (let t = new_token now hex token_value device_id scopes ttl_sec;
         s = put_token (dt_token_id t) t s;
         s = emit_audit now A_issue (dt_token_id t) device_id [(''ttl_sec'', int_str (bounded_ttl ttl_sec))] s
     in (t, save_tokens io s))"

definition or_falsy :: "time option \<Rightarrow> time \<Rightarrow> time" where
  "or_falsy v dflt = (case v of Some t \<Rightarrow> if t \<noteq> 0 then t else dflt | None \<Rightarrow> dflt)"

text \<open>The old token is changed in place before the new one is issued.\<close>

definition rotate_token :: "bool \<Rightarrow> time \<Rightarrow> string \<Rightarrow> string \<Rightarrow> string \<Rightarrow> int \<Rightarrow> int \<Rightarrow> string list \<Rightarrow> token_store \<Rightarrow>
    (token_error + device_token \<times> device_token) \<times> token_store" where
  "rotate_token io now hex token_value old_token_id overlap_sec ttl_sec scopes s =
    (case dget (ts_tokens s) old_token_id of
       None \<Rightarrow> (Inl Token_not_found, s)
     | Some old \<Rightarrow>
         if dt_status old \<noteq> ACTIVE then (Inl (Cannot_rotate (dt_status old)), s)
         else
           let old_expires = or_falsy (dt_expires_at old) (now + 86400);
               old' = old\<lparr>dt_overlap_until := Some (min (now + of_int (bounded_overlap overlap_sec)) old_expires)\<rparr>;
               s = put_token old_token_id old' s;
               (t, s) = issue_token io now hex token_value (dt_device_id old)
                 (if scopes = [] then dt_scopes old else scopes) ttl_sec s;
               t' = t\<lparr>dt_replaces := old_token_id\<rparr>;
               s = put_token (dt_token_id t') t' (put_token old_token_id old' s);
               s = emit_audit now A_rotate (dt_token_id t') (dt_device_id old)
                 [(''old_token_id'', old_token_id), (''overlap_sec'', int_str (bounded_overlap overlap_sec))] s
           in (Inr (t', old'), save_tokens io s))"

definition revoke_token :: "bool \<Rightarrow> time \<Rightarrow> string \<Rightarrow> string \<Rightarrow> token_store \<Rightarrow> (token_error + device_token) \<times> token_store" where
  "revoke_token io now token_id reason s = (case dget (ts_tokens s) token_id of
       None \<Rightarrow> (Inl Token_not_found, s)
     | Some t \<Rightarrow>
         let t' = t\<lparr>dt_status := REVOKED\<rparr>;
             s = emit_audit now A_revoke token_id (dt_device_id t) [(''reason'', reason)] (put_token token_id t' s)
         in (Inr t', save_tokens io s))"

definition rejected :: "device_token option \<Rightarrow> reject_reason \<Rightarrow> validation_result" where
  "rejected t r = \<lparr>vr_ok = False, vr_token = t, vr_reject_reason = Some r, vr_is_overlap = False\<rparr>"

text \<open>A time that is absent or 0 is no limit.\<close>

definition past :: "time \<Rightarrow> time option \<Rightarrow> bool" where
  "past now limit = (case limit of None \<Rightarrow> False | Some t \<Rightarrow> t \<noteq> 0 \<and> now > t)"

definition has_limit :: "time option \<Rightarrow> bool" where
  "has_limit limit = (case limit of None \<Rightarrow> False | Some t \<Rightarrow> t \<noteq> 0)"

definition validate_token :: "time \<Rightarrow> string \<Rightarrow> string \<Rightarrow> token_store \<Rightarrow> validation_result \<times> token_store" where
  "validate_token now token_value required_scope s =
    (case resolve_token token_value s of
       None \<Rightarrow> (rejected None Unknown_token, s)
     | Some (k, t) \<Rightarrow>
         if dt_status t = REVOKED then
           (rejected (Some t) Token_revoked,
            emit_audit now A_validate_reject k (dt_device_id t) [(''reason'', ''revoked'')] s)
         else if past now (dt_expires_at t) then
           let t' = t\<lparr>dt_status := EXPIRED\<rparr> in
           (rejected (Some t') Token_expired, emit_audit now A_expire k (dt_device_id t) [] (put_token k t' s))
         else if past now (dt_overlap_until t) then
           let t' = t\<lparr>dt_status := EXPIRED\<rparr> in
           (rejected (Some t') Overlap_window_expired,
            emit_audit now A_validate_reject k (dt_device_id t) [(''reason'', ''overlap_window_expired'')] (put_token k t' s))
         else if required_scope \<noteq> [] \<and> required_scope \<notin> set (dt_scopes t) then
           (rejected (Some t) Insufficient_scope,
            emit_audit now A_validate_reject k (dt_device_id t)
              [(''reason'', ''insufficient_scope''), (''required'', required_scope)] s)
         else (\<lparr>vr_ok = True, vr_token = Some t, vr_reject_reason = None,
                vr_is_overlap = has_limit (dt_overlap_until t)\<rparr>, s))"

definition list_tokens :: "string option \<Rightarrow> bool \<Rightarrow> token_store \<Rightarrow> device_token list" where
  "list_tokens device_id active_only s =
    (let tokens = (case device_id of Some (c # d) \<Rightarrow> filter (\<lambda>t. dt_device_id t = c # d) (dvals (ts_tokens s))
           | _ \<Rightarrow> dvals (ts_tokens s))
     in if active_only then filter (\<lambda>t. dt_status t = ACTIVE) tokens else tokens)"

definition stale :: "time \<Rightarrow> device_token \<Rightarrow> bool" where
  "stale now t \<longleftrightarrow> dt_status t = REVOKED \<or> past now (dt_expires_at t) \<or> past now (dt_overlap_until t)"

definition cleanup_expired :: "bool \<Rightarrow> time \<Rightarrow> token_store \<Rightarrow> nat \<times> token_store" where
  "cleanup_expired io now s =
    (let to_remove = dkeys (filter (\<lambda>(k, t). stale now t) (ts_tokens s));
         s' = s\<lparr>ts_tokens := ddel_all to_remove (ts_tokens s)\<rparr>
     in (length to_remove, if to_remove \<noteq> [] then save_tokens io s' else s'))"

subsection \<open>Events and invariants\<close>

datatype token_event =
    K_issue bool time string string string "string list" int
  | K_rotate bool time string string string int int "string list"
  | K_revoke bool time string string
  | K_validate time string string
  | K_cleanup bool time

fun token_step :: "token_event \<Rightarrow> token_store \<Rightarrow> token_store" where
  "token_step (K_issue io now hex v dev scopes ttl) s = snd (issue_token io now hex v dev scopes ttl s)"
| "token_step (K_rotate io now hex v old ov ttl scopes) s = snd (rotate_token io now hex v old ov ttl scopes s)"
| "token_step (K_revoke io now k reason) s = snd (revoke_token io now k reason s)"
| "token_step (K_validate now v scope) s = snd (validate_token now v scope s)"
| "token_step (K_cleanup io now) s = snd (cleanup_expired io now s)"

text \<open>The value of the token the event makes.\<close>

fun makes_value :: "token_event \<Rightarrow> string option" where
  "makes_value (K_issue io now hex v dev scopes ttl) = Some v"
| "makes_value (K_rotate io now hex v old ov ttl scopes) = Some v"
| "makes_value _ = None"

lemma store_simps [simp]:
  "ts_tokens (save_tokens io s) = ts_tokens s" "ts_audit (save_tokens io s) = ts_audit s"
  "ts_tokens (emit_audit now a k d det s) = ts_tokens s" "ts_tokens (put_token k t s) = dput k t (ts_tokens s)"
  "ts_audit (put_token k t s) = ts_audit s"
  by (simp_all add: save_tokens_def emit_audit_def put_token_def Let_def)

lemma audit_bound: "length (ts_audit (emit_audit now a k d det s)) \<le> MAX_AUDIT_TRAIL"
  by (simp add: emit_audit_def Let_def)

lemma audit_bound_keep: "length (ts_audit s) \<le> MAX_AUDIT_TRAIL \<Longrightarrow> length (ts_audit (token_step e s)) \<le> MAX_AUDIT_TRAIL"
  by (cases e) (auto simp: issue_token_def rotate_token_def revoke_token_def validate_token_def cleanup_expired_def
      Let_def audit_bound split: option.split prod.split)

lemma issue_tokens: "ts_tokens (snd (issue_token io now hex v dev sc ttl s)) =
    dput (''bt_'' @ hex) (new_token now hex v dev sc ttl) (ts_tokens s)"
  "fst (issue_token io now hex v dev sc ttl s) = new_token now hex v dev sc ttl"
  by (simp_all add: issue_token_def Let_def new_token_def)

lemma new_token_simps [simp]: "dt_token_id (new_token now hex v dev sc ttl) = ''bt_'' @ hex"
  "dt_device_token (new_token now hex v dev sc ttl) = v" "dt_status (new_token now hex v dev sc ttl) = ACTIVE"
  "dt_issued_at (new_token now hex v dev sc ttl) = now" "dt_overlap_until (new_token now hex v dev sc ttl) = None"
  "dt_expires_at (new_token now hex v dev sc ttl) = Some (now + of_int (bounded_ttl ttl))"
  by (simp_all add: new_token_def)

definition overlap_end :: "time \<Rightarrow> int \<Rightarrow> device_token \<Rightarrow> time" where
  "overlap_end now ov t = min (now + of_int (bounded_overlap ov)) (or_falsy (dt_expires_at t) (now + 86400))"

lemma rotate_tokens:
  assumes "dget (ts_tokens s) old = Some t" and "dt_status t = ACTIVE"
  shows "\<exists>dev sc'. ts_tokens (snd (rotate_token io now hex v old ov ttl sc s)) =
    dput (''bt_'' @ hex) ((new_token now hex v dev sc' ttl)\<lparr>dt_replaces := old\<rparr>)
      (dput old (t\<lparr>dt_overlap_until := Some (overlap_end now ov t)\<rparr>)
        (dput (''bt_'' @ hex) (new_token now hex v dev sc' ttl)
          (dput old (t\<lparr>dt_overlap_until := Some (overlap_end now ov t)\<rparr>) (ts_tokens s))))"
  using assms by (auto simp: rotate_token_def Let_def split_def issue_tokens overlap_end_def)

lemma rotate_fails:
  "dget (ts_tokens s) old = None \<or> (\<exists>t. dget (ts_tokens s) old = Some t \<and> dt_status t \<noteq> ACTIVE) \<Longrightarrow>
   snd (rotate_token io now hex v old ov ttl sc s) = s"
  by (auto simp: rotate_token_def)

text \<open>What a step makes of the entry under an identifier.\<close>

inductive token_change :: "token_event \<Rightarrow> device_token option \<Rightarrow> device_token option \<Rightarrow> bool" for e where
  same: "token_change e x x"
| made: "e = K_issue io now hex v dev sc ttl \<Longrightarrow> token_change e x (Some (new_token now hex v dev sc ttl))"
| successor: "e = K_rotate io now hex v old ov ttl sc \<Longrightarrow>
    token_change e x (Some ((new_token now hex v dev sc' ttl)\<lparr>dt_replaces := old\<rparr>))"
| overlapped: "e = K_rotate io now hex v old ov ttl sc \<Longrightarrow> dt_status t = ACTIVE \<Longrightarrow>
    token_change e (Some t) (Some (t\<lparr>dt_overlap_until := Some (overlap_end now ov t)\<rparr>))"
| revoked: "e = K_revoke io now k reason \<Longrightarrow> token_change e (Some t) (Some (t\<lparr>dt_status := REVOKED\<rparr>))"
| expired: "e = K_validate now v sc \<Longrightarrow> dt_status t \<noteq> REVOKED \<Longrightarrow> past now (dt_expires_at t) \<or> past now (dt_overlap_until t) \<Longrightarrow>
    token_change e (Some t) (Some (t\<lparr>dt_status := EXPIRED\<rparr>))"
| removed: "e = K_cleanup io now \<Longrightarrow> stale now t \<Longrightarrow> token_change e (Some t) None"

lemma resolve_token_mem:
  assumes "dict_ok (ts_tokens s)" and "resolve_token v s = Some (k, t)"
  shows "dget (ts_tokens s) k = Some t \<and> dt_device_token t = v"
proof -
  have "(k, t) \<in> set (ts_tokens s) \<and> dt_device_token t = v"
    using assms(2) by (auto simp: resolve_token_def find_Some_iff in_set_conv_nth)
  then show ?thesis using assms(1) by (simp add: dget_iff)
qed

lemma token_step_change:
  assumes "dict_ok (ts_tokens s)"
  shows "token_change e (dget (ts_tokens s) k) (dget (ts_tokens (token_step e s)) k)"
proof (cases e)
  case (K_issue io now hex v dev sc ttl)
  then show ?thesis by (auto simp: issue_tokens dict_simps intro: token_change.intros)
next
  case (K_rotate io now hex v old ov ttl sc)
  show ?thesis
  proof (cases "\<exists>t. dget (ts_tokens s) old = Some t \<and> dt_status t = ACTIVE")
    case True
    then obtain t where t: "dget (ts_tokens s) old = Some t" "dt_status t = ACTIVE" by blast
    obtain dev sc' where eq: "ts_tokens (token_step e s) =
      dput (''bt_'' @ hex) ((new_token now hex v dev sc' ttl)\<lparr>dt_replaces := old\<rparr>)
        (dput old (t\<lparr>dt_overlap_until := Some (overlap_end now ov t)\<rparr>)
          (dput (''bt_'' @ hex) (new_token now hex v dev sc' ttl)
            (dput old (t\<lparr>dt_overlap_until := Some (overlap_end now ov t)\<rparr>) (ts_tokens s))))"
      using rotate_tokens [OF t, of io now hex v ov ttl sc] by (auto simp: K_rotate)
    show ?thesis
      unfolding eq dget_dput using t K_rotate
      by (auto intro: token_change.same token_change.overlapped token_change.successor)
  next
    case False
    then have "snd (rotate_token io now hex v old ov ttl sc s) = s"
      by (cases "dget (ts_tokens s) old") (auto intro: rotate_fails)
    then show ?thesis by (simp add: K_rotate token_change.same)
  qed
next
  case (K_revoke io now tk reason)
  then show ?thesis
    by (auto simp: revoke_token_def Let_def dict_simps split: option.split intro: token_change.intros)
next
  case (K_validate now v sc)
  show ?thesis
  proof (cases "resolve_token v s")
    case (Some kt)
    obtain k' t where kt: "kt = (k', t)" by (cases kt)
    then have "dget (ts_tokens s) k' = Some t" using resolve_token_mem [OF assms] Some by simp
    then show ?thesis
      using Some kt by (auto simp: K_validate validate_token_def Let_def dict_simps intro: token_change.same token_change.expired)
  qed (simp add: K_validate validate_token_def token_change.same)
next
  case (K_cleanup io now)
  have "ddel_all (dkeys (filter (\<lambda>(k, t). stale now t) (ts_tokens s))) (ts_tokens s)
      = filter (\<lambda>p. \<not> (case p of (k, t) \<Rightarrow> stale now t)) (ts_tokens s)"
    by (rule ddel_all_matching [OF assms])
  then show ?thesis
    by (cases "dget (ts_tokens s) k")
      (auto simp: K_cleanup cleanup_expired_def Let_def dget_filter [OF assms] intro: token_change.same token_change.removed)
qed

lemma token_step_dict_ok: "dict_ok (ts_tokens s) \<Longrightarrow> dict_ok (ts_tokens (token_step e s))"
  by (cases e) (auto simp: issue_tokens rotate_token_def revoke_token_def validate_token_def cleanup_expired_def
      Let_def split_def dict_simps split: option.split)


definition token_inv :: "token_store \<Rightarrow> bool" where
  "token_inv s \<longleftrightarrow> dict_ok (ts_tokens s) \<and> length (ts_audit s) \<le> MAX_AUDIT_TRAIL"

interpretation tokens: machine token_step token_inv
  by unfold_locales (auto simp: token_inv_def token_step_dict_ok audit_bound_keep)

text \<open>A fact about every stored token, kept by every change, holds along runs.\<close>

lemma run_tokens:
  assumes inv: "token_inv s" and start: "\<And>k t. dget (ts_tokens s) k = Some t \<Longrightarrow> P t"
    and change: "\<And>e x t'. e \<in> set es \<Longrightarrow> token_change e x (Some t') \<Longrightarrow> (\<forall>t. x = Some t \<longrightarrow> P t) \<Longrightarrow> P t'"
    and "dget (ts_tokens (fold token_step es s)) k = Some t"
  shows "P t"
proof -
  have "\<forall>k t. dget (ts_tokens (fold token_step es s)) k = Some t \<longrightarrow> P t"
  proof (rule tokens.run_stable [where P = "\<lambda>s. \<forall>k t. dget (ts_tokens s) k = Some t \<longrightarrow> P t"])
    fix e u assume u: "token_inv u" "\<forall>k t. dget (ts_tokens u) k = Some t \<longrightarrow> P t" "e \<in> set es"
    show "\<forall>k t. dget (ts_tokens (token_step e u)) k = Some t \<longrightarrow> P t"
    proof (intro allI impI)
      fix k t' assume "dget (ts_tokens (token_step e u)) k = Some t'"
      then have "token_change e (dget (ts_tokens u) k) (Some t')"
        using token_step_change [of u e k] u(1) by (simp add: token_inv_def)
      then show "P t'" using change [OF u(3)] u(2) by blast
    qed
  qed (use inv start in auto)
  then show ?thesis using assms(4) by blast
qed

text \<open>A token is dead when revoked, or past a given time.\<close>

definition value_revoked :: "string \<Rightarrow> device_token \<Rightarrow> bool" where
  "value_revoked v t \<longleftrightarrow> (dt_device_token t = v \<longrightarrow> dt_status t = REVOKED)"

lemma change_value_revoked:
  assumes "token_change e x (Some t')" and "makes_value e \<noteq> Some v" and "\<forall>t. x = Some t \<longrightarrow> value_revoked v t"
  shows "value_revoked v t'"
  using assms by (cases rule: token_change.cases) (auto simp: value_revoked_def)

lemma validate_ok:
  assumes "dict_ok (ts_tokens s)" and "vr_ok (fst (validate_token now v scope s))"
  shows "\<exists>k t. dget (ts_tokens s) k = Some t \<and> dt_device_token t = v \<and> dt_status t \<noteq> REVOKED
    \<and> \<not> past now (dt_expires_at t) \<and> \<not> past now (dt_overlap_until t) \<and> (scope = [] \<or> scope \<in> set (dt_scopes t))
    \<and> vr_token (fst (validate_token now v scope s)) = Some t"
proof (cases "resolve_token v s")
  case (Some kt)
  obtain k t where kt: "kt = (k, t)" by (cases kt)
  then show ?thesis
    using assms(2) Some resolve_token_mem [OF assms(1), of v k t]
    by (auto simp: validate_token_def Let_def rejected_def split: if_splits intro!: exI [of _ k])
qed (use assms(2) in \<open>simp add: validate_token_def rejected_def\<close>)

text \<open>Bounded lifetimes: the expiry lies within the longest lifetime of the issue.\<close>

definition lifetime_bounded :: "device_token \<Rightarrow> bool" where
  "lifetime_bounded t \<longleftrightarrow> (\<exists>e. dt_expires_at t = Some e \<and> dt_issued_at t + of_int TTL_MIN \<le> e
     \<and> e \<le> dt_issued_at t + of_int MAX_TTL_SEC) \<and> 0 \<le> dt_issued_at t"

lemma bounded_ttl_range: "TTL_MIN \<le> bounded_ttl n" "bounded_ttl n \<le> MAX_TTL_SEC"
  by (simp_all add: bounded_ttl_def TTL_MIN_def MAX_TTL_SEC_def)

fun event_now :: "token_event \<Rightarrow> time" where
  "event_now (K_issue io now hex v dev scopes ttl) = now"
| "event_now (K_rotate io now hex v old ov ttl scopes) = now"
| "event_now (K_revoke io now k reason) = now"
| "event_now (K_validate now v scope) = now"
| "event_now (K_cleanup io now) = now"

lemma change_lifetime:
  assumes "token_change e x (Some t')" and "0 \<le> event_now e" and "\<forall>t. x = Some t \<longrightarrow> lifetime_bounded t"
  shows "lifetime_bounded t'"
  using assms bounded_ttl_range
  by (cases rule: token_change.cases) (auto simp: lifetime_bounded_def of_int_le_iff)

subsection \<open>Properties\<close>

definition empty_tokens :: token_store where
  "empty_tokens = \<lparr>ts_tokens = [], ts_audit = [], ts_path = False, ts_file = T_missing\<rparr>"

definition demo_tokens :: token_store where
  "demo_tokens = snd (issue_token True 1000 ''01'' ''v1'' ''dev'' [] 600 empty_tokens)"

lemma demo_tokens_eq: "ts_tokens demo_tokens = [(''bt_01'', new_token 1000 ''01'' ''v1'' ''dev'' [] 600)]"
  "token_inv demo_tokens"
proof -
  show eq: "ts_tokens demo_tokens = [(''bt_01'', new_token 1000 ''01'' ''v1'' ''dev'' [] 600)]"
    by (simp add: demo_tokens_def issue_tokens empty_tokens_def)
  show "token_inv demo_tokens"
    using audit_bound_keep [of empty_tokens "K_issue True 1000 ''01'' ''v1'' ''dev'' [] 600"]
    by (simp add: token_inv_def eq) (simp add: demo_tokens_def empty_tokens_def)
qed

text \<open>
  C12: revocation is immediate and permanent: after a token's value is revoked, and as long
  as no new token with the same value is made, no sequence of operations lets a validation
  of the value succeed, at any time and for any scope.
\<close>

theorem revoked_never_validates:
  assumes "token_inv s" and "\<forall>k t. dget (ts_tokens s) k = Some t \<and> dt_device_token t = v \<longrightarrow> k = tid"
    and "\<forall>e \<in> set es. makes_value e \<noteq> Some v"
  shows "\<not> vr_ok (fst (validate_token now v scope (fold token_step (K_revoke io t0 tid reason # es) s)))"
proof
  define s1 where "s1 = token_step (K_revoke io t0 tid reason) s"
  define s2 where "s2 = fold token_step es s1"
  assume "vr_ok (fst (validate_token now v scope (fold token_step (K_revoke io t0 tid reason # es) s)))"
  then have ok: "vr_ok (fst (validate_token now v scope s2))" by (simp add: s2_def s1_def)
  have inv: "token_inv s1" "token_inv s2"
    unfolding s2_def s1_def by (intro tokens.run_inv tokens.step_inv assms(1))+
  obtain k t where t: "dget (ts_tokens s2) k = Some t" "dt_device_token t = v" "dt_status t \<noteq> REVOKED"
    using validate_ok [OF _ ok] inv(2) by (auto simp: token_inv_def)
  have "value_revoked v t"
  proof (rule run_tokens [OF inv(1) _ _ t(1) [unfolded s2_def]])
    fix k t assume "dget (ts_tokens s1) k = Some t"
    then show "value_revoked v t" using assms(2)
      by (cases "dget (ts_tokens s) tid")
        (auto simp: s1_def revoke_token_def Let_def dict_simps value_revoked_def split: if_splits)
  qed (use assms(3) change_value_revoked in blast)
  then show False using t by (simp add: value_revoked_def)
qed

theorem revoked_never_validates_witness:
  "\<not> vr_ok (fst (validate_token 1010 ''v1'' [] (fold token_step
      [K_revoke True 1001 ''bt_01'' ''lost'', K_rotate True 1002 ''02'' ''v2'' ''bt_01'' 60 60 []] demo_tokens)))"
  by (rule revoked_never_validates [OF demo_tokens_eq(2)]) (auto simp: demo_tokens_eq(1) split: if_splits)

text \<open>
  No token lives longer than a day: whatever is issued and rotated from an empty store
  on, a token that validates was issued at most the longest lifetime ago, is not revoked,
  has neither passed its expiry nor the end of its overlap window, and covers the scope.
\<close>

theorem validation_bounded:
  assumes "\<forall>e \<in> set es. 0 \<le> event_now e"
    and "vr_ok (fst (validate_token now v scope (fold token_step es empty_tokens)))"
  shows "\<exists>t. vr_token (fst (validate_token now v scope (fold token_step es empty_tokens))) = Some t
    \<and> dt_device_token t = v \<and> dt_status t \<noteq> REVOKED \<and> now \<le> dt_issued_at t + of_int MAX_TTL_SEC
    \<and> \<not> past now (dt_overlap_until t) \<and> (scope = [] \<or> scope \<in> set (dt_scopes t))"
proof -
  have inv: "token_inv empty_tokens" by (simp add: token_inv_def empty_tokens_def)
  have "token_inv (fold token_step es empty_tokens)" using inv by (rule tokens.run_inv)
  then obtain k t where t: "dget (ts_tokens (fold token_step es empty_tokens)) k = Some t"
    and props: "dt_device_token t = v" "dt_status t \<noteq> REVOKED" "\<not> past now (dt_expires_at t)"
      "\<not> past now (dt_overlap_until t)" "scope = [] \<or> scope \<in> set (dt_scopes t)"
      "vr_token (fst (validate_token now v scope (fold token_step es empty_tokens))) = Some t"
    using validate_ok [OF _ assms(2)] by (auto simp: token_inv_def)
  have "lifetime_bounded t"
    by (rule run_tokens [OF inv _ _ t]) (use assms(1) change_lifetime in \<open>auto simp: empty_tokens_def\<close>)
  then have "now \<le> dt_issued_at t + of_int MAX_TTL_SEC"
    using props(3) by (auto simp: lifetime_bounded_def past_def TTL_MIN_def)
  with props show ?thesis by blast
qed

theorem validation_bounded_witness:
  "\<exists>t. vr_token (fst (validate_token 1500 ''v1'' ''job:status'' (fold token_step
      [K_issue True 1000 ''01'' ''v1'' ''dev'' [] 600] empty_tokens))) = Some t \<and> 1500 \<le> dt_issued_at t + of_int MAX_TTL_SEC"
proof -
  have "vr_ok (fst (validate_token 1500 ''v1'' ''job:status'' (fold token_step
      [K_issue True 1000 ''01'' ''v1'' ''dev'' [] 600] empty_tokens)))" by code_simp
  from validation_bounded [OF _ this] show ?thesis by auto
qed

text \<open>
  Rotation hands over within the window: a successful rotation answers a fresh active
  token that replaces the old one and validates at once, and the old token's window ends
  after at most the longest overlap and not after its own expiry; past the window the old
  value is rejected.
\<close>

theorem rotation_overlap:
  assumes "dict_ok (ts_tokens s)"
    and "rotate_token io now hex v old ov ttl scopes s = (Inr (t', o'), s')" and "dt_device_token o' \<noteq> v"
    and "\<forall>k t. dget (ts_tokens s) k = Some t \<and> dt_device_token t = dt_device_token o' \<longrightarrow> k = old"
    and "old \<noteq> ''bt_'' @ hex" and "0 < now" and "\<forall>e. dt_expires_at o' = Some e \<longrightarrow> 0 < e"
  shows "dt_status t' = ACTIVE \<and> dt_replaces t' = old \<and> dt_device_token t' = v
    \<and> (\<exists>u. dt_overlap_until o' = Some u \<and> u \<le> now + of_int MAX_OVERLAP_SEC
        \<and> (\<forall>e. dt_expires_at o' = Some e \<longrightarrow> u \<le> e)
        \<and> (\<forall>later > u. \<not> vr_ok (fst (validate_token later (dt_device_token o') [] s'))))"
proof -
  obtain t where t: "dget (ts_tokens s) old = Some t" "dt_status t = ACTIVE"
    using assms(2) by (auto simp: rotate_token_def split: option.splits if_splits)
  have o': "o' = t\<lparr>dt_overlap_until := Some (overlap_end now ov t)\<rparr>"
    and t': "dt_status t' = ACTIVE" "dt_replaces t' = old" "dt_device_token t' = v"
    using assms(2) t by (auto simp: rotate_token_def Let_def split_def issue_tokens overlap_end_def)
  obtain dev sc' where s': "ts_tokens s' =
      dput (''bt_'' @ hex) ((new_token now hex v dev sc' ttl)\<lparr>dt_replaces := old\<rparr>)
        (dput old o' (dput (''bt_'' @ hex) (new_token now hex v dev sc' ttl) (dput old o' (ts_tokens s))))"
    using rotate_tokens [OF t, of io now hex v ov ttl scopes] assms(2) by (auto simp: o')
  define u where "u = overlap_end now ov t"
  have pos: "0 < u" and u_le: "u \<le> now + of_int MAX_OVERLAP_SEC"
    and u_exp: "\<And>e. dt_expires_at o' = Some e \<Longrightarrow> u \<le> e"
    using assms(6,7) by (auto simp: u_def overlap_end_def or_falsy_def bounded_overlap_def OVERLAP_MIN_def
        MAX_OVERLAP_SEC_def o' split: option.split)
  have "\<not> vr_ok (fst (validate_token later (dt_device_token o') [] s'))" if "u < later" for later
  proof
    assume "vr_ok (fst (validate_token later (dt_device_token o') [] s'))"
    moreover have "dict_ok (ts_tokens s')" unfolding s' by (intro dict_ok_dput assms(1))
    ultimately obtain k q where q: "dget (ts_tokens s') k = Some q" "dt_device_token q = dt_device_token o'"
        "\<not> past later (dt_overlap_until q)"
      using validate_ok by blast
    have "k = old"
      using q(1,2) assms(3,4) unfolding s' dget_dput by (auto split: if_splits)
    then have "q = o'" using q(1) assms(5) unfolding s' dget_dput by (auto split: if_splits)
    then show False using q(3) that pos by (simp add: o' past_def u_def)
  qed
  then show ?thesis using t' u_le u_exp by (auto simp: o' u_def)
qed

theorem rotation_overlap_witness:
  "\<exists>t' o' s'. rotate_token True 1100 ''02'' ''v2'' ''bt_01'' 60 600 [] demo_tokens = (Inr (t', o'), s')
     \<and> \<not> vr_ok (fst (validate_token 1200 ''v1'' [] s'))"
proof -
  obtain t' o' s' where r: "rotate_token True 1100 ''02'' ''v2'' ''bt_01'' 60 600 [] demo_tokens = (Inr (t', o'), s')"
    by (auto simp: rotate_token_def demo_tokens_eq(1) Let_def split_def)
  moreover have o': "o' = (new_token 1000 ''01'' ''v1'' ''dev'' [] 600)\<lparr>dt_overlap_until := Some 1160\<rparr>"
    using r by (auto simp: rotate_token_def demo_tokens_eq(1) Let_def split_def or_falsy_def bounded_ttl_def
        bounded_overlap_def OVERLAP_MIN_def MAX_OVERLAP_SEC_def TTL_MIN_def MAX_TTL_SEC_def)
  moreover have "\<exists>u. dt_overlap_until o' = Some u \<and> (\<forall>later > u. \<not> vr_ok (fst (validate_token later (dt_device_token o') [] s')))"
  proof -
    have "dict_ok (ts_tokens demo_tokens)" using demo_tokens_eq(2) by (simp add: token_inv_def)
    moreover have "dt_device_token o' \<noteq> ''v2''" by (simp add: o')
    moreover have "\<forall>k t. dget (ts_tokens demo_tokens) k = Some t \<and> dt_device_token t = dt_device_token o' \<longrightarrow> k = ''bt_01''"
      by (simp add: demo_tokens_eq(1))
    moreover have "\<forall>e. dt_expires_at o' = Some e \<longrightarrow> 0 < e"
      by (simp add: o' bounded_ttl_def TTL_MIN_def MAX_TTL_SEC_def)
    ultimately have "\<exists>u. dt_overlap_until o' = Some u \<and> u \<le> 1100 + of_int MAX_OVERLAP_SEC
        \<and> (\<forall>e. dt_expires_at o' = Some e \<longrightarrow> u \<le> e)
        \<and> (\<forall>later > u. \<not> vr_ok (fst (validate_token later (dt_device_token o') [] s')))"
      using rotation_overlap [OF _ r] by simp
    then show ?thesis by blast
  qed
  ultimately show ?thesis by auto
qed

text \<open>
  A token whose overlap window has ended without a validation in between is rotated again,
  and is valid again; nothing limits the number of a device's active tokens.
\<close>

lemma rotation_resurrects:
  "vr_ok (fst (validate_token 110 ''v1'' [] (fold token_step
     [K_issue True 1 ''01'' ''v1'' ''dev'' [] 120, K_rotate True 2 ''02'' ''v2'' ''bt_01'' 30 60 [],
      K_rotate True 100 ''03'' ''v3'' ''bt_01'' 30 60 []] empty_tokens)))"
  by code_simp

lemma active_tokens_unbounded:
  "length (list_tokens (Some ''dev'') True (fold token_step
     (map (\<lambda>h. K_issue True 1 [h] [h] ''dev'' [] 60) ''123456'') empty_tokens)) = 6"
  by code_simp

end
