(* ===== verification/Replay_Lifecycle.thy ===== *)
theory Replay_Lifecycle
  imports Contracts
begin

text \<open>
  \<open>services/connector_replay_lifecycle.py\<close>: the bounded table that lets a connector event
  be claimed, released for a retry, committed or failed, without a second execution after
  success. A blank key is a \<open>ValueError\<close> (\<open>None\<close>).
\<close>

datatype lc_state = LC_CLAIMED | LC_RETRYABLE | LC_DELIVERED | LC_TERMINAL

datatype claim_code = CODE_CLAIMED | CODE_RETRY_CLAIMED | CODE_DUPLICATE_IN_FLIGHT
  | CODE_DUPLICATE_AFTER_SUCCESS | CODE_DUPLICATE_AFTER_TERMINAL_FAILURE

record lc_record =
  lr_key :: string
  lr_state :: lc_state
  lr_created_at :: time
  lr_updated_at :: time
  lr_expires_at :: time
  lr_claim_count :: int
  lr_last_reason :: string
  lr_metadata :: "(string, string) dict"

record claim_result =
  cr_accepted :: bool
  cr_code :: claim_code
  cr_record :: lc_record

record lifecycle =
  lc_ttl_sec :: int
  lc_max_entries :: int
  lc_records :: "(string, lc_record) dict"

definition make_lifecycle :: "int \<Rightarrow> int \<Rightarrow> lifecycle" where
  "make_lifecycle ttl_sec max_entries = \<lparr>lc_ttl_sec = max 1 ttl_sec, lc_max_entries = max 1 max_entries, lc_records = []\<rparr>"

definition normalize_key :: "string \<Rightarrow> string option" where
  "normalize_key key = (let k = py_strip key in if k = [] then None else Some k)"

definition new_record :: "lifecycle \<Rightarrow> string \<Rightarrow> time \<Rightarrow> (string, string) dict \<Rightarrow> lc_record" where
  "new_record s key now metadata = \<lparr>lr_key = key, lr_state = LC_CLAIMED, lr_created_at = now, lr_updated_at = now,
     lr_expires_at = now + of_int (lc_ttl_sec s), lr_claim_count = 1, lr_last_reason = [], lr_metadata = metadata\<rparr>"

definition evict_expired :: "time \<Rightarrow> lifecycle \<Rightarrow> lifecycle" where
  "evict_expired now s = s\<lparr>lc_records :=
     ddel_all (dkeys (filter (\<lambda>(k, r). lr_expires_at r \<le> now) (lc_records s))) (lc_records s)\<rparr>"

definition enforce_cap :: "lifecycle \<Rightarrow> lifecycle" where
  "enforce_cap s = (if int (length (lc_records s)) \<le> lc_max_entries s then s
     else let excess = length (lc_records s) - nat (lc_max_entries s);
              oldest = sort_key (\<lambda>item. lr_updated_at (snd item)) (lc_records s)
          in s\<lparr>lc_records := ddel_all (dkeys (take excess oldest)) (lc_records s)\<rparr>)"

definition put_record :: "string \<Rightarrow> lc_record \<Rightarrow> lifecycle \<Rightarrow> lifecycle" where
  "put_record k r s = s\<lparr>lc_records := dput k r (lc_records s)\<rparr>"

definition duplicate_code :: "lc_state \<Rightarrow> claim_code" where
  "duplicate_code st = (case st of LC_CLAIMED \<Rightarrow> CODE_DUPLICATE_IN_FLIGHT
     | LC_DELIVERED \<Rightarrow> CODE_DUPLICATE_AFTER_SUCCESS | _ \<Rightarrow> CODE_DUPLICATE_AFTER_TERMINAL_FAILURE)"

definition lc_claim :: "time \<Rightarrow> string \<Rightarrow> (string, string) dict \<Rightarrow> lifecycle \<Rightarrow> claim_result option \<times> lifecycle" where
  "lc_claim now key metadata s = (case normalize_key key of
       None \<Rightarrow> (None, s)
     | Some k \<Rightarrow>
        let s = evict_expired now s in
        (case dget (lc_records s) k of
           None \<Rightarrow>
             let r = new_record s k now metadata
             in (Some \<lparr>cr_accepted = True, cr_code = CODE_CLAIMED, cr_record = r\<rparr>, enforce_cap (put_record k r s))
         | Some r \<Rightarrow>
             if lr_state r = LC_RETRYABLE then
               let r' = r\<lparr>lr_state := LC_CLAIMED, lr_updated_at := now,
                     lr_expires_at := now + of_int (lc_ttl_sec s), lr_claim_count := lr_claim_count r + 1,
                     lr_last_reason := [], lr_metadata := fold (\<lambda>(a, b). dput a b) metadata (lr_metadata r)\<rparr>
               in (Some \<lparr>cr_accepted = True, cr_code = CODE_RETRY_CLAIMED, cr_record = r'\<rparr>, put_record k r' s)
             else
               let r' = r\<lparr>lr_updated_at := now\<rparr>
               in (Some \<lparr>cr_accepted = False, cr_code = duplicate_code (lr_state r), cr_record = r'\<rparr>, put_record k r' s)))"

text \<open>The record after the call, and whether the transition took place.\<close>

definition lc_transition :: "time \<Rightarrow> string \<Rightarrow> lc_state \<Rightarrow> string \<Rightarrow> lc_state set \<Rightarrow> lifecycle \<Rightarrow>
    (bool \<times> lc_record option) option \<times> lifecycle" where
  "lc_transition now key st reason allowed_from s = (case normalize_key key of
       None \<Rightarrow> (None, s)
     | Some k \<Rightarrow>
        let s = evict_expired now s in
        (case dget (lc_records s) k of
           None \<Rightarrow> (Some (False, None), s)
         | Some r \<Rightarrow>
             if lr_state r \<notin> allowed_from then (Some (False, Some r), s)
             else
               let r' = r\<lparr>lr_state := st, lr_updated_at := now, lr_expires_at := now + of_int (lc_ttl_sec s),
                     lr_last_reason := reason\<rparr>
               in (Some (True, Some r'), put_record k r' s)))"

definition release_retryable :: "time \<Rightarrow> string \<Rightarrow> string \<Rightarrow> lifecycle \<Rightarrow> (bool \<times> lc_record option) option \<times> lifecycle" where
  "release_retryable now key reason s = lc_transition now key LC_RETRYABLE reason {LC_CLAIMED} s"

definition commit_success :: "time \<Rightarrow> string \<Rightarrow> string \<Rightarrow> lifecycle \<Rightarrow> (bool \<times> lc_record option) option \<times> lifecycle" where
  "commit_success now key reason s = lc_transition now key LC_DELIVERED reason {LC_CLAIMED, LC_RETRYABLE} s"

definition fail_terminal :: "time \<Rightarrow> string \<Rightarrow> string \<Rightarrow> lifecycle \<Rightarrow> (bool \<times> lc_record option) option \<times> lifecycle" where
  "fail_terminal now key reason s = lc_transition now key LC_TERMINAL reason {LC_CLAIMED, LC_RETRYABLE} s"

definition lc_get :: "time \<Rightarrow> string \<Rightarrow> lifecycle \<Rightarrow> lc_record option \<times> lifecycle" where
  "lc_get now key s = (case normalize_key key of
       None \<Rightarrow> (None, s)
     | Some k \<Rightarrow> let s = evict_expired now s in (dget (lc_records s) k, s))"

definition lc_size :: "time \<Rightarrow> lifecycle \<Rightarrow> nat \<times> lifecycle" where
  "lc_size now s = (let s = evict_expired now s in (length (lc_records s), s))"

definition lc_clear :: "lifecycle \<Rightarrow> lifecycle" where
  "lc_clear s = s\<lparr>lc_records := []\<rparr>"

subsection \<open>Events\<close>

datatype lc_event = L_claim string "(string, string) dict" | L_release string string | L_commit string string
  | L_fail string string | L_get string

fun lc_key :: "lc_event \<Rightarrow> string option" where
  "lc_key (L_claim k m) = normalize_key k"
| "lc_key (L_release k r) = normalize_key k"
| "lc_key (L_commit k r) = normalize_key k"
| "lc_key (L_fail k r) = normalize_key k"
| "lc_key (L_get k) = normalize_key k"

definition took_effect :: "(bool \<times> lc_record option) option \<Rightarrow> bool" where
  "took_effect r = (case r of Some (True, _) \<Rightarrow> True | _ \<Rightarrow> False)"

text \<open>
  The answers that matter: a claim was accepted (the action is executed), or a commit or a
  final failure took effect (the action is over).
\<close>

fun lc_do :: "time \<Rightarrow> lc_event \<Rightarrow> lifecycle \<Rightarrow> bool \<times> lifecycle" where
  "lc_do now (L_claim k m) s = (let (r, s') = lc_claim now k m s in
     (case r of Some c \<Rightarrow> cr_accepted c | None \<Rightarrow> False, s'))"
| "lc_do now (L_release k r) s = (False, snd (release_retryable now k r s))"
| "lc_do now (L_commit k r) s = (let (x, s') = commit_success now k r s in (took_effect x, s'))"
| "lc_do now (L_fail k r) s = (let (x, s') = fail_terminal now k r s in (took_effect x, s'))"
| "lc_do now (L_get k) s = (False, snd (lc_get now k s))"

text \<open>Only the ends of actions: claims do not count as accepted.\<close>

definition lc_end :: "time \<Rightarrow> lc_event \<Rightarrow> lifecycle \<Rightarrow> bool \<times> lifecycle" where
  "lc_end now e s = (case e of L_claim k m \<Rightarrow> (False, snd (lc_do now e s)) | _ \<Rightarrow> lc_do now e s)"

definition lc_inv :: "lifecycle \<Rightarrow> bool" where
  "lc_inv s \<longleftrightarrow> dict_ok (lc_records s) \<and> 1 \<le> lc_max_entries s \<and> 1 \<le> lc_ttl_sec s
     \<and> int (length (lc_records s)) \<le> lc_max_entries s"

definition lc_room :: "lifecycle \<Rightarrow> bool" where
  "lc_room s \<longleftrightarrow> int (length (lc_records s)) < lc_max_entries s"

definition finished :: "lc_record \<Rightarrow> bool" where
  "finished r \<longleftrightarrow> lr_state r \<in> {LC_DELIVERED, LC_TERMINAL}"

text \<open>A finished record that does not expire before the time.\<close>

definition sealed :: "time \<Rightarrow> lifecycle \<Rightarrow> string option \<Rightarrow> bool" where
  "sealed now s key = (case key of None \<Rightarrow> False | Some k \<Rightarrow>
     (case dget (lc_records s) k of None \<Rightarrow> False | Some r \<Rightarrow> finished r \<and> lr_expires_at r > now))"

lemma evict_simps [simp]: "lc_ttl_sec (evict_expired now s) = lc_ttl_sec s"
  "lc_max_entries (evict_expired now s) = lc_max_entries s"
  "lc_ttl_sec (put_record k r s) = lc_ttl_sec s" "lc_max_entries (put_record k r s) = lc_max_entries s"
  "lc_records (put_record k r s) = dput k r (lc_records s)"
  "lc_ttl_sec (enforce_cap s) = lc_ttl_sec s" "lc_max_entries (enforce_cap s) = lc_max_entries s"
  by (simp_all add: evict_expired_def put_record_def enforce_cap_def Let_def)

lemma dget_evict: "dict_ok (lc_records s) \<Longrightarrow> dget (lc_records (evict_expired now s)) k =
    (case dget (lc_records s) k of None \<Rightarrow> None | Some r \<Rightarrow> if lr_expires_at r \<le> now then None else Some r)"
  by (simp add: evict_expired_def ddel_all_matching dget_filter not_le split: option.split)

lemma evict_length: "length (lc_records (evict_expired now s)) \<le> length (lc_records s)"
  by (simp add: evict_expired_def ddel_all_filter)

lemma evict_dict_ok: "dict_ok (lc_records s) \<Longrightarrow> dict_ok (lc_records (evict_expired now s))"
  by (simp add: evict_expired_def dict_ok_ddel_all)

lemma evict_inv: "lc_inv s \<Longrightarrow> lc_inv (evict_expired now s)"
  using evict_length [of now s] evict_dict_ok [of s now] by (simp add: lc_inv_def)

lemma evict_room: "lc_room s \<Longrightarrow> lc_room (evict_expired now s)"
  using evict_length [of now s] by (simp add: lc_room_def)

lemma enforce_cap_id: "int (length (lc_records s)) \<le> lc_max_entries s \<Longrightarrow> enforce_cap s = s"
  by (simp add: enforce_cap_def)

lemma enforce_cap_length:
  assumes "dict_ok (lc_records s)" and "1 \<le> lc_max_entries s"
  shows "int (length (lc_records (enforce_cap s))) \<le> lc_max_entries s \<and> dict_ok (lc_records (enforce_cap s))"
proof (cases "int (length (lc_records s)) \<le> lc_max_entries s")
  case False
  define ks where "ks = dkeys (take (length (lc_records s) - nat (lc_max_entries s))
      (sort_key (\<lambda>item. lr_updated_at (snd item)) (lc_records s)))"
  have "length (lc_records s) = length (ddel_all ks (lc_records s)) + length ks"
  proof (rule length_ddel_all [OF assms(1)])
    have "distinct (dkeys (sort_key (\<lambda>item. lr_updated_at (snd item)) (lc_records s)))"
      using assms(1) by (simp add: distinct_map)
    then show "distinct ks" by (simp add: ks_def take_map [symmetric])
    have "set ks \<subseteq> fst ` set (lc_records s)" unfolding ks_def using set_take_subset by fastforce
    then show "\<forall>k \<in> set ks. dget (lc_records s) k \<noteq> None" by (auto simp: map_of_eq_None_iff)
  qed
  moreover have "length ks = length (lc_records s) - nat (lc_max_entries s)" by (simp add: ks_def)
  ultimately show ?thesis
    using False assms by (auto simp: enforce_cap_def Let_def dict_ok_ddel_all simp flip: ks_def)
qed (use assms in \<open>simp add: enforce_cap_id\<close>)


text \<open>What the operations do after the eviction.\<close>

lemma claim_cases:
  obtains (blank) "normalize_key key = None" and "lc_claim now key m s = (None, s)"
  | (fresh) k r where "normalize_key key = Some k" and "dget (lc_records (evict_expired now s)) k = None"
      and "\<not> finished r"
      and "lc_claim now key m s = (Some \<lparr>cr_accepted = True, cr_code = CODE_CLAIMED, cr_record = r\<rparr>,
        enforce_cap (put_record k r (evict_expired now s)))"
  | (retry) k r r' where "normalize_key key = Some k" and "dget (lc_records (evict_expired now s)) k = Some r"
      and "lr_state r = LC_RETRYABLE" and "\<not> finished r'"
      and "lc_claim now key m s = (Some \<lparr>cr_accepted = True, cr_code = CODE_RETRY_CLAIMED, cr_record = r'\<rparr>,
        put_record k r' (evict_expired now s))"
  | (dup) k r where "normalize_key key = Some k" and "dget (lc_records (evict_expired now s)) k = Some r"
      and "lr_state r \<noteq> LC_RETRYABLE"
      and "lc_claim now key m s = (Some \<lparr>cr_accepted = False, cr_code = duplicate_code (lr_state r),
        cr_record = r\<lparr>lr_updated_at := now\<rparr>\<rparr>, put_record k (r\<lparr>lr_updated_at := now\<rparr>) (evict_expired now s))"
proof (cases "normalize_key key")
  case None
  then show ?thesis by (intro blank) (simp_all add: lc_claim_def)
next
  case (Some k)
  note key = Some
  show ?thesis
  proof (cases "dget (lc_records (evict_expired now s)) k")
    case None
    then show ?thesis using key
      by (intro fresh [of k "new_record s k now m"])
        (simp_all add: lc_claim_def Let_def finished_def new_record_def)
  next
    case (Some r)
    show ?thesis
    proof (cases "lr_state r = LC_RETRYABLE")
      case True
      then show ?thesis using key Some
        by (intro retry [of k r "r\<lparr>lr_state := LC_CLAIMED, lr_updated_at := now,
              lr_expires_at := now + of_int (lc_ttl_sec s), lr_claim_count := lr_claim_count r + 1,
              lr_last_reason := [], lr_metadata := fold (\<lambda>(a, b). dput a b) m (lr_metadata r)\<rparr>"])
          (simp_all add: lc_claim_def Let_def finished_def)
    next
      case False
      then show ?thesis using key Some by (intro dup [of k r]) (simp_all add: lc_claim_def Let_def)
    qed
  qed
qed

lemma transition_cases:
  obtains (no) "\<not> took_effect (fst (lc_transition now key st reason from s))"
      and "snd (lc_transition now key st reason from s) = s \<or> snd (lc_transition now key st reason from s) = evict_expired now s"
  | (yes) k r where "normalize_key key = Some k" and "dget (lc_records (evict_expired now s)) k = Some r"
      and "lr_state r \<in> from" and "took_effect (fst (lc_transition now key st reason from s))"
      and "snd (lc_transition now key st reason from s) = put_record k (r\<lparr>lr_state := st, lr_updated_at := now,
        lr_expires_at := now + of_int (lc_ttl_sec s), lr_last_reason := reason\<rparr>) (evict_expired now s)"
proof (cases "normalize_key key")
  case None
  then show ?thesis by (intro no) (simp_all add: lc_transition_def took_effect_def)
next
  case (Some k)
  note key = Some
  show ?thesis
  proof (cases "dget (lc_records (evict_expired now s)) k")
    case None
    then show ?thesis using key by (intro no) (simp_all add: lc_transition_def took_effect_def Let_def)
  next
    case (Some r)
    then show ?thesis using key
      by (cases "lr_state r \<in> from")
        (auto simp: lc_transition_def took_effect_def Let_def intro: no yes)
  qed
qed

text \<open>Every step evicts, then changes at most one record, which was not finished if it is replaced.\<close>

definition touched :: "time \<Rightarrow> lifecycle \<Rightarrow> lifecycle \<Rightarrow> bool" where
  "touched now s s' \<longleftrightarrow> s' = s \<or> s' = evict_expired now s
    \<or> (\<exists>k r. s' = enforce_cap (put_record k r (evict_expired now s)) \<and>
        (case dget (lc_records (evict_expired now s)) k of None \<Rightarrow> True
         | Some q \<Rightarrow> finished q \<longrightarrow> finished r \<and> lr_expires_at r = lr_expires_at q))"

lemma put_present_cap:
  assumes "lc_inv s" and "dget (lc_records (evict_expired now s)) k \<noteq> None"
  shows "put_record k r (evict_expired now s) = enforce_cap (put_record k r (evict_expired now s))"
proof -
  have "length (lc_records (put_record k r (evict_expired now s))) = length (lc_records (evict_expired now s))"
    using assms(2) by (simp only: evict_simps length_dput if_False)
  then show ?thesis using evict_inv [OF assms(1), of now] by (subst enforce_cap_id) (simp_all add: lc_inv_def)
qed

lemma touchedI:
  assumes "lc_inv s" and "dget (lc_records (evict_expired now s)) k = Some q"
    and "finished q \<Longrightarrow> finished r \<and> lr_expires_at r = lr_expires_at q"
  shows "touched now s (put_record k r (evict_expired now s))"
  using assms put_present_cap [OF assms(1), of now k r] unfolding touched_def
  by (intro disjI2 exI [of _ k] exI [of _ r]) auto

lemma transition_touched:
  assumes "lc_inv s" and "from \<subseteq> {LC_CLAIMED, LC_RETRYABLE}"
  shows "touched now s (snd (lc_transition now key st reason from s))"
proof (cases rule: transition_cases [of now key st reason "from" s])
  case no
  then show ?thesis by (auto simp: touched_def)
next
  case (yes k r)
  then have "\<not> finished r" using assms(2) by (auto simp: finished_def)
  then show ?thesis unfolding yes(5) by (intro touchedI [OF assms(1) yes(2)]) simp
qed

lemma lc_do_touched:
  assumes inv: "lc_inv s"
  shows "touched now s (snd (lc_do now e s))"
proof (cases e)
  case (L_claim key m)
  show ?thesis
  proof (cases rule: claim_cases [of key now m s])
    case (fresh k r)
    then show ?thesis by (auto simp: L_claim touched_def intro!: exI [of _ k] exI [of _ r])
  next
    case (retry k r r')
    then have "touched now s (put_record k r' (evict_expired now s))"
      by (intro touchedI [OF inv]) (auto simp: finished_def)
    then show ?thesis by (simp add: L_claim retry(5))
  next
    case (dup k r)
    then have "touched now s (put_record k (r\<lparr>lr_updated_at := now\<rparr>) (evict_expired now s))"
      by (intro touchedI [OF inv]) (auto simp: finished_def)
    then show ?thesis by (simp add: L_claim dup(4))
  qed (simp add: L_claim touched_def)
next
  case (L_get key)
  then show ?thesis by (auto simp: lc_get_def touched_def Let_def split: option.split)
qed (use transition_touched [OF inv] in \<open>simp_all add: release_retryable_def commit_success_def fail_terminal_def split_def Let_def\<close>)

lemma touched_inv: "lc_inv s \<Longrightarrow> touched now s s' \<Longrightarrow> lc_inv s'"
proof -
  assume inv: "lc_inv s" and t: "touched now s s'"
  have e: "lc_inv (evict_expired now s)" using inv by (rule evict_inv)
  have "lc_inv (enforce_cap (put_record k r (evict_expired now s)))" for k r
    using enforce_cap_length [of "put_record k r (evict_expired now s)"] e by (simp add: lc_inv_def dict_ok_dput)
  then show ?thesis using t inv e unfolding touched_def by blast
qed

lemma touched_sealed:
  assumes inv: "lc_inv s" and room: "lc_room s" and le: "now \<le> later" and t: "touched now s s'" and "sealed later s key"
  shows "sealed later s' key"
proof -
  obtain k q where k: "key = Some k" and q: "dget (lc_records s) k = Some q" "finished q" "lr_expires_at q > later"
    using assms(5) by (auto simp: sealed_def split: option.splits)
  have ok: "dict_ok (lc_records s)" using inv by (simp add: lc_inv_def)
  have e: "dget (lc_records (evict_expired now s)) k = Some q" using q le by (simp add: dget_evict [OF ok])
  have "enforce_cap (put_record j r (evict_expired now s)) = put_record j r (evict_expired now s)" for j r
  proof (rule enforce_cap_id)
    show "int (length (lc_records (put_record j r (evict_expired now s)))) \<le> lc_max_entries (put_record j r (evict_expired now s))"
      using evict_room [OF room, of now] length_dput_le [of j r "lc_records (evict_expired now s)"]
      by (simp add: lc_room_def)
  qed
  then consider "s' = s" | "s' = evict_expired now s"
    | j r where "s' = put_record j r (evict_expired now s)"
        "j = k \<Longrightarrow> finished r \<and> lr_expires_at r = lr_expires_at q"
    using t q(2) e unfolding touched_def by force
  then show ?thesis
  proof cases
    case 3
    then show ?thesis using q e by (auto simp: sealed_def k dict_simps)
  qed (use q e in \<open>simp_all add: sealed_def k\<close>)
qed

text \<open>Nothing of a sealed key is accepted: neither a claim nor another end.\<close>

lemma sealed_rejects:
  assumes inv: "lc_inv s" and "sealed now s (lc_key e)"
  shows "\<not> fst (lc_do now e s)"
proof -
  obtain k q where k: "lc_key e = Some k" and q: "dget (lc_records s) k = Some q" "finished q" "lr_expires_at q > now"
    using assms(2) by (auto simp: sealed_def split: option.splits)
  have "dict_ok (lc_records s)" using inv by (simp add: lc_inv_def)
  then have ev: "dget (lc_records (evict_expired now s)) k = Some q" using q by (simp add: dget_evict)
  then show ?thesis using k q(2)
    by (cases e) (auto simp: lc_claim_def commit_success_def fail_terminal_def lc_transition_def took_effect_def
        finished_def Let_def)
qed

interpretation sealed: sealed_gate lc_do "\<lambda>_. lc_key" sealed lc_inv lc_room
  by unfold_locales
    (auto intro: touched_inv [OF _ lc_do_touched] touched_sealed [OF _ _ _ lc_do_touched] dest: sealed_rejects)


definition lc_inv_ttl :: "int \<Rightarrow> lifecycle \<Rightarrow> bool" where
  "lc_inv_ttl ttl s \<longleftrightarrow> lc_inv s \<and> lc_ttl_sec s = ttl"

lemma touched_ttl: "touched now s s' \<Longrightarrow> lc_ttl_sec s' = lc_ttl_sec s"
  by (auto simp: touched_def)

lemma lc_end_state: "snd (lc_end now e s) = snd (lc_do now e s)"
  by (simp add: lc_end_def split: lc_event.split)

lemma lc_end_accepts: "fst (lc_end now e s) \<Longrightarrow> fst (lc_do now e s)"
  by (auto simp: lc_end_def split: lc_event.splits)

lemma transition_seals:
  assumes "lc_inv s" and "took_effect (fst (lc_transition now key st reason from s))" and "st \<in> {LC_DELIVERED, LC_TERMINAL}"
    and "later < now + of_int (lc_ttl_sec s)"
  shows "sealed later (snd (lc_transition now key st reason from s)) (normalize_key key)"
proof (cases rule: transition_cases [of now key st reason "from" s])
  case (yes k r)
  then show ?thesis using assms(3,4) by (simp add: sealed_def dict_simps finished_def)
qed (use assms(2) in simp)

lemma lc_end_seals:
  assumes "lc_inv s" and "fst (lc_end now e s)" and "later < now + of_int (lc_ttl_sec s)"
  shows "sealed later (snd (lc_end now e s)) (lc_key e)"
  using assms transition_seals [OF assms(1)]
  by (cases e) (auto simp: lc_end_def commit_success_def fail_terminal_def split_def Let_def)

interpretation ended: once_gate lc_end "\<lambda>_. lc_key" sealed "lc_inv_ttl ttl" lc_room "of_int ttl"
proof unfold_locales
  fix s t e assume inv: "lc_inv_ttl ttl s"
  then have i: "lc_inv s" and ttl: "lc_ttl_sec s = ttl" by (simp_all add: lc_inv_ttl_def)
  show "lc_inv_ttl ttl (snd (lc_end t e s))"
    using touched_inv [OF i lc_do_touched [OF i]] touched_ttl [OF lc_do_touched [OF i]] ttl
    by (simp add: lc_inv_ttl_def lc_end_state)
  show "\<not> fst (lc_end t e s)" if "sealed t s (lc_key e)"
    using sealed_rejects [OF i that] lc_end_accepts by blast
  fix t' assume "lc_room s" "t \<le> t'"
  show "sealed t' (snd (lc_end t e s)) k" if "sealed t' s k" for k
    unfolding lc_end_state using touched_sealed [OF i \<open>lc_room s\<close> \<open>t \<le> t'\<close> lc_do_touched [OF i] that] .
  show "sealed t' (snd (lc_end t e s)) (lc_key e)" if "fst (lc_end t e s)" "t' < t + of_int ttl"
    using lc_end_seals [OF i that(1)] that(2) ttl by simp
qed

interpretation lifecycle_machine: machine "\<lambda>(now, e) s. snd (lc_do now e s)" lc_inv
  by unfold_locales (auto intro: touched_inv [OF _ lc_do_touched])

subsection \<open>Properties\<close>

text \<open>
  C16: no second execution after success: while the record of a delivered or finally failed
  action has not expired and the table has room, no claim of its key, and no other end of
  it, is accepted in any time-ordered sequence of operations.
\<close>

theorem no_claim_after_end:
  assumes "lc_inv s" and "all_states lc_room (claim_run lc_do cs s)" and "sorted (map fst cs)"
    and "dget (lc_records s) k = Some r" and "lr_state r \<in> {LC_DELIVERED, LC_TERMINAL}"
    and "\<forall>(t, e) \<in> set cs. t < lr_expires_at r"
  shows "accepted (\<lambda>_. lc_key) (Some k) cs (claim_run lc_do cs s) = 0"
proof (rule sealed.live_none_accepted [OF assms(1-3)])
  show "\<forall>(t, e) \<in> set cs. sealed t s (Some k)"
    using assms(4-6) by (auto simp: sealed_def finished_def)
qed

definition sample_lifecycle :: lifecycle where
  "sample_lifecycle = snd (commit_success 10 ''k'' [] (snd (lc_claim 5 ''k'' [] (make_lifecycle 300 10))))"

lemma sample_lifecycle_eq: "sample_lifecycle = \<lparr>lc_ttl_sec = 300, lc_max_entries = 10, lc_records =
    [(''k'', \<lparr>lr_key = ''k'', lr_state = LC_DELIVERED, lr_created_at = 5, lr_updated_at = 10, lr_expires_at = 310,
        lr_claim_count = 1, lr_last_reason = [], lr_metadata = []\<rparr>)]\<rparr>"
  by code_simp

theorem no_claim_after_end_witness:
  "accepted (\<lambda>_. lc_key) (Some ''k'') [(20, L_claim ''k'' []), (30, L_commit ''k'' []), (40, L_claim '' k '' [])]
     (claim_run lc_do [(20, L_claim ''k'' []), (30, L_commit ''k'' []), (40, L_claim '' k '' [])] sample_lifecycle) = 0"
proof (rule no_claim_after_end)
  show "all_states lc_room (claim_run lc_do [(20, L_claim ''k'' []), (30, L_commit ''k'' []), (40, L_claim '' k '' [])] sample_lifecycle)"
    by code_simp
qed (auto simp: sample_lifecycle_eq lc_inv_def)

text \<open>
  An action ends at most once: of all the commits and final failures of a key within
  one time to live, whatever claims and releases come in between, at most one takes effect.
\<close>

theorem action_ends_once:
  assumes "lc_inv s" and "all_states lc_room (claim_run lc_end cs s)" and "sorted (map fst cs)"
    and "\<forall>(t, e) \<in> set cs. a \<le> t \<and> t < a + of_int (lc_ttl_sec s)"
  shows "accepted (\<lambda>_. lc_key) k cs (claim_run lc_end cs s) \<le> 1"
  using ended.at_most_once [of "lc_ttl_sec s" s cs a k] assms by (simp add: lc_inv_ttl_def)

theorem action_ends_once_witness:
  "accepted (\<lambda>_. lc_key) (Some ''k'') [(1, L_claim ''k'' []), (2, L_release ''k'' []), (3, L_commit ''k'' []), (4, L_fail ''k'' [])]
     (claim_run lc_end [(1, L_claim ''k'' []), (2, L_release ''k'' []), (3, L_commit ''k'' []), (4, L_fail ''k'' [])]
        (make_lifecycle 300 10)) \<le> 1"
proof (rule action_ends_once [where a = 0])
  show "all_states lc_room (claim_run lc_end [(1, L_claim ''k'' []), (2, L_release ''k'' []), (3, L_commit ''k'' []), (4, L_fail ''k'' [])]
        (make_lifecycle 300 10))" by code_simp
qed (auto simp: make_lifecycle_def lc_inv_def)

text \<open>
  The table stays within its limit, at least 1, whatever operations run, at any times.
\<close>

theorem lifecycle_bounded:
  "int (length (lc_records (fold (\<lambda>(now, e) s. snd (lc_do now e s)) es (make_lifecycle ttl n)))) \<le> max 1 n"
proof -
  have keep: "lc_max_entries (fold (\<lambda>(now, e) s. snd (lc_do now e s)) es s) = lc_max_entries s" if "lc_inv s" for s
    using that
  proof (induction es arbitrary: s)
    case (Cons e es)
    have "lc_max_entries (snd (lc_do (fst e) (snd e) s)) = lc_max_entries s"
      using lc_do_touched [OF Cons.prems, of "fst e" "snd e"] by (auto simp: touched_def)
    moreover have "lc_inv (snd (lc_do (fst e) (snd e) s))" using lifecycle_machine.step_inv [OF Cons.prems, of e] by (simp add: split_def)
    ultimately show ?case using Cons.IH [of "snd (lc_do (fst e) (snd e) s)"] by (simp add: split_def)
  qed simp
  have inv: "lc_inv (make_lifecycle ttl n)" by (simp add: lc_inv_def make_lifecycle_def)
  then have "lc_inv (fold (\<lambda>(now, e) s. snd (lc_do now e s)) es (make_lifecycle ttl n))"
    by (rule lifecycle_machine.run_inv)
  then show ?thesis using keep [OF inv] by (simp add: lc_inv_def make_lifecycle_def)
qed

end
