(* ===== verification/Webhook_Auth.thy ===== *)
theory Webhook_Auth
  imports Idempotency Env_Aliases
begin

text \<open>
  \<open>services/webhook_auth.py\<close> (with the header aliases of \<open>legacy_compat.py\<close>): bearer
  tokens and HMAC signatures of webhook requests, and the protection against replay by a
  time window and a nonce that the idempotency store remembers. The request is given by its
  headers and its raw body; \<open>mac\<close> is the hexadecimal HMAC-SHA-256 of a body under a
  secret. A configured secret and the texts compared are taken byte by byte.
\<close>

type_synonym headers = "string \<rightharpoonup> string"

subsection \<open>Headers with a legacy name\<close>

record header_alias =
  ha_primary :: string
  ha_legacy :: string

definition WEBHOOK_SIGNATURE_HEADERS :: header_alias where
  "WEBHOOK_SIGNATURE_HEADERS = \<lparr>ha_primary = ''X-OpenClaw-Signature'', ha_legacy = ''X-Moltbot-Signature''\<rparr>"

definition WEBHOOK_TIMESTAMP_HEADERS :: header_alias where
  "WEBHOOK_TIMESTAMP_HEADERS = \<lparr>ha_primary = ''X-OpenClaw-Timestamp'', ha_legacy = ''X-Moltbot-Timestamp''\<rparr>"

definition WEBHOOK_NONCE_HEADERS :: header_alias where
  "WEBHOOK_NONCE_HEADERS = \<lparr>ha_primary = ''X-OpenClaw-Nonce'', ha_legacy = ''X-Moltbot-Nonce''\<rparr>"

definition header_value :: "headers \<Rightarrow> string \<Rightarrow> string" where
  "header_value headers name = (case headers name of None \<Rightarrow> [] | Some v \<Rightarrow> py_strip v)"

definition get_header_alias_value :: "headers \<Rightarrow> header_alias \<Rightarrow> string \<times> bool" where
  "get_header_alias_value headers alias =
    (let value = header_value headers (ha_primary alias) in
     if value \<noteq> [] then (value, False)
     else let legacy_value = header_value headers (ha_legacy alias) in
       if legacy_value \<noteq> [] then (legacy_value, True) else ([], False))"

subsection \<open>Configuration\<close>

definition env_get :: "env \<Rightarrow> string \<Rightarrow> string \<Rightarrow> string option \<Rightarrow> string option" where
  "env_get env primary legacy dflt =
    (case resolve_env True env primary (Some [legacy]) PRESENCE dflt None [] of
       Inl _ \<Rightarrow> None | Inr (r, _) \<Rightarrow> er_value r)"

text \<open>\<open>x or d\<close> on an optional text\<close>

definition or_text :: "string option \<Rightarrow> string \<Rightarrow> string" where
  "or_text v d = (case v of None \<Rightarrow> d | Some s \<Rightarrow> if s = [] then d else s)"

definition get_auth_mode :: "env \<Rightarrow> string" where
  "get_auth_mode env = py_lower (or_text
     (env_get env ''OPENCLAW_WEBHOOK_AUTH_MODE'' ''MOLTBOT_WEBHOOK_AUTH_MODE'' (Some ''bearer'')) ''bearer'')"

definition get_bearer_token :: "env \<Rightarrow> string option" where
  "get_bearer_token env = env_get env ''OPENCLAW_WEBHOOK_BEARER_TOKEN'' ''MOLTBOT_WEBHOOK_BEARER_TOKEN'' None"

definition get_hmac_secret :: "env \<Rightarrow> string option" where
  "get_hmac_secret env =
    (case env_get env ''OPENCLAW_WEBHOOK_HMAC_SECRET'' ''MOLTBOT_WEBHOOK_HMAC_SECRET'' None of
       None \<Rightarrow> None | Some secret \<Rightarrow> if secret = [] then None else Some secret)"

definition is_auth_configured :: "env \<Rightarrow> bool" where
  "is_auth_configured env =
    (let mode = get_auth_mode env in
     if mode = ''bearer'' then get_bearer_token env \<noteq> None
     else if mode = ''hmac'' then get_hmac_secret env \<noteq> None
     else if mode = ''bearer_or_hmac'' then get_bearer_token env \<noteq> None \<or> get_hmac_secret env \<noteq> None
     else False)"

definition should_require_replay_protection :: "env \<Rightarrow> bool" where
  "should_require_replay_protection env \<longleftrightarrow>
    py_lower (or_text (env_get env ''OPENCLAW_WEBHOOK_REQUIRE_REPLAY_PROTECTION''
       ''MOLTBOT_WEBHOOK_REQUIRE_REPLAY_PROTECTION'' (Some ''1'')) ''1'') \<in> set [''1'', ''true'', ''yes'']"

subsection \<open>Verification\<close>

definition verify_bearer :: "env \<Rightarrow> headers \<Rightarrow> bool \<times> string" where
  "verify_bearer env headers =
    (let expected = or_text (get_bearer_token env) [] in
     if expected = [] then (False, ''bearer_not_configured'')
     else
       let auth_header = (case headers ''Authorization'' of None \<Rightarrow> [] | Some v \<Rightarrow> v) in
       if auth_header = [] then (False, ''missing_authorization_header'')
       else if \<not> starts_with ''Bearer '' auth_header then (False, ''invalid_auth_scheme'')
       else let token = drop 7 auth_header in
         if token = [] then (False, ''empty_token'')
         else if token \<noteq> expected then (False, ''invalid_token'')
         else (True, []))"

definition is_ascii :: "string \<Rightarrow> bool" where
  "is_ascii s = list_all (\<lambda>c. (of_char c :: nat) < 128) s"

text \<open>
  The signature: \<open>None\<close> is the \<open>TypeError\<close> of \<open>compare_digest\<close> on a text that is not
  ASCII; \<open>Some e\<close> the error, empty where the signature is good.
\<close>

definition check_signature :: "env \<Rightarrow> (string \<Rightarrow> string \<Rightarrow> string) \<Rightarrow> headers \<Rightarrow> string \<Rightarrow> string option" where
  "check_signature env mac headers raw_body =
    (case get_hmac_secret env of
       None \<Rightarrow> Some ''hmac_not_configured''
     | Some secret \<Rightarrow>
        (let sig_header = fst (get_header_alias_value headers WEBHOOK_SIGNATURE_HEADERS) in
         if sig_header = [] then Some ''missing_signature_header''
         else if \<not> starts_with ''sha256='' sig_header then Some ''invalid_signature_format''
         else let provided_sig = drop 7 sig_header in
           if provided_sig = [] then Some ''empty_signature''
           else if \<not> is_ascii provided_sig then None
           else if py_lower provided_sig \<noteq> py_lower (mac secret raw_body) then Some ''invalid_signature''
           else Some []))"

definition in_drift :: "time \<Rightarrow> int \<Rightarrow> bool" where
  "in_drift now ts \<longleftrightarrow> \<bar>\<lfloor>now\<rfloor> - ts\<bar> \<le> 300"

definition check_replay ::
  "env \<Rightarrow> bool \<Rightarrow> bool \<Rightarrow> time \<Rightarrow> headers \<Rightarrow> idem_store \<Rightarrow> (bool \<times> string) \<times> idem_store" where
  "check_replay env okc ok now headers s =
    (let timestamp = fst (get_header_alias_value headers WEBHOOK_TIMESTAMP_HEADERS);
         nonce = fst (get_header_alias_value headers WEBHOOK_NONCE_HEADERS)
     in if \<not> (timestamp \<noteq> [] \<or> nonce \<noteq> [] \<or> should_require_replay_protection env) then ((True, []), s)
        else if timestamp = [] then ((False, ''missing_timestamp''), s)
        else if nonce = [] then ((False, ''missing_nonce''), s)
        else (case py_int timestamp of
           None \<Rightarrow> ((False, ''invalid_timestamp''), s)
         | Some ts \<Rightarrow>
            if \<not> in_drift now ts then ((False, ''timestamp_out_of_range''), s)
            else (case check_and_record okc ok now (''nonce:'' @ nonce) None 600 s of
               (Inr (is_dup, _), s') \<Rightarrow> if is_dup then ((False, ''nonce_used''), s') else ((True, []), s')
             | (Inl _, s') \<Rightarrow>
                 if should_require_replay_protection env then ((False, ''internal_error''), s')
                 else ((True, []), s'))))"

definition verify_hmac ::
  "env \<Rightarrow> (string \<Rightarrow> string \<Rightarrow> string) \<Rightarrow> bool \<Rightarrow> bool \<Rightarrow> time \<Rightarrow> headers \<Rightarrow> string \<Rightarrow> idem_store \<Rightarrow>
   (bool \<times> string) option \<times> idem_store" where
  "verify_hmac env mac okc ok now headers raw_body s =
    (case check_signature env mac headers raw_body of
       None \<Rightarrow> (None, s)
     | Some e \<Rightarrow> if e \<noteq> [] then (Some (False, e), s)
                 else (let (r, s') = check_replay env okc ok now headers s in (Some r, s')))"

definition require_auth ::
  "env \<Rightarrow> (string \<Rightarrow> string \<Rightarrow> string) \<Rightarrow> bool \<Rightarrow> bool \<Rightarrow> time \<Rightarrow> headers \<Rightarrow> string \<Rightarrow> idem_store \<Rightarrow>
   (bool \<times> string) option \<times> idem_store" where
  "require_auth env mac okc ok now headers raw_body s =
    (if \<not> is_auth_configured env then (Some (False, ''auth_not_configured''), s)
     else
       let mode = get_auth_mode env in
       if mode = ''bearer'' then (Some (verify_bearer env headers), s)
       else if mode = ''hmac'' then verify_hmac env mac okc ok now headers raw_body s
       else if mode = ''bearer_or_hmac'' then
         (if fst (verify_bearer env headers) then (Some (True, []), s)
          else (case verify_hmac env mac okc ok now headers raw_body s of
             (None, s') \<Rightarrow> (None, s')
           | (Some (valid, _), s') \<Rightarrow>
               if valid then (Some (True, []), s') else (Some (False, ''invalid_credentials''), s')))
       else (Some (False, ''unknown_auth_mode''), s))"

subsection \<open>The nonce check as a gate\<close>

text \<open>A request and what it carries: the time stamp and the nonce.\<close>

type_synonym request = "headers \<times> string"

definition request_nonce :: "request \<Rightarrow> string" where
  "request_nonce q = fst (get_header_alias_value (fst q) WEBHOOK_NONCE_HEADERS)"

definition request_stamp :: "request \<Rightarrow> int option" where
  "request_stamp q = py_int (fst (get_header_alias_value (fst q) WEBHOOK_TIMESTAMP_HEADERS))"

definition authenticated :: "(bool \<times> string) option \<Rightarrow> bool" where
  "authenticated r \<longleftrightarrow> (case r of Some (valid, _) \<Rightarrow> valid | None \<Rightarrow> False)"

definition hmac_gate ::
  "env \<Rightarrow> (string \<Rightarrow> string \<Rightarrow> string) \<Rightarrow> (time \<Rightarrow> bool) \<Rightarrow> (time \<Rightarrow> bool) \<Rightarrow> time \<Rightarrow> request \<Rightarrow> idem_store \<Rightarrow> bool \<times> idem_store" where
  "hmac_gate env mac okc ok now q s =
    (let (r, s') = verify_hmac env mac (okc now) (ok now) now (fst q) (snd q) s in (authenticated r, s'))"

text \<open>The tests before the nonce is looked up.\<close>

definition may_ask_nonce :: "env \<Rightarrow> (string \<Rightarrow> string \<Rightarrow> string) \<Rightarrow> time \<Rightarrow> request \<Rightarrow> bool" where
  "may_ask_nonce env mac now q \<longleftrightarrow> check_signature env mac (fst q) (snd q) = Some [] \<and> request_nonce q \<noteq> []
     \<and> (case request_stamp q of None \<Rightarrow> False | Some ts \<Rightarrow> in_drift now ts)"

lemma py_int_Nil [simp]: "py_int [] = None"
  by (simp add: py_int_def py_strip_def)

lemma hmac_gate_guarded:
  assumes "should_require_replay_protection env"
  shows "hmac_gate env mac okc ok now q s =
    (if may_ask_nonce env mac now q then idem_gate okc ok 600 now (''nonce:'' @ request_nonce q) s else (False, s))"
proof (cases "may_ask_nonce env mac now q")
  case True
  then show ?thesis using assms
    by (auto simp: hmac_gate_def verify_hmac_def check_replay_def may_ask_nonce_def request_nonce_def request_stamp_def
        idem_gate_def authenticated_def Let_def split: prod.splits sum.splits option.splits)
next
  case False
  then show ?thesis using assms
    by (auto simp: hmac_gate_def verify_hmac_def check_replay_def may_ask_nonce_def request_nonce_def request_stamp_def
        authenticated_def Let_def split: prod.splits sum.splits option.splits)
qed

interpretation nonces: once_gate
  "\<lambda>t q s. if may_ask_nonce env mac t q then idem_gate okc ok 600 t (''nonce:'' @ request_nonce q) s else (False, s)"
  "\<lambda>_ q. ''nonce:'' @ request_nonce q" idem_live idem_inv idem_room "of_int 600"
  by (rule idempotency.guarded)

subsection \<open>What an accepted request shows\<close>

lemma starts_with_split: "starts_with p s \<longleftrightarrow> (\<exists>t. s = p @ t)"
  unfolding starts_with_def by (metis append_eq_conv_conj append_take_drop_id)

lemma verify_bearer_sound:
  assumes "fst (verify_bearer env headers)"
  shows "\<exists>token. token \<noteq> [] \<and> get_bearer_token env = Some token \<and> headers ''Authorization'' = Some (''Bearer '' @ token)"
  using assms by (auto simp: verify_bearer_def or_text_def Let_def starts_with_split split: if_splits option.splits)

lemma check_signature_sound:
  assumes "check_signature env mac headers body = Some []"
  shows "\<exists>secret sig. get_hmac_secret env = Some secret \<and> secret \<noteq> [] \<and>
    fst (get_header_alias_value headers WEBHOOK_SIGNATURE_HEADERS) = ''sha256='' @ sig \<and> py_lower sig = py_lower (mac secret body)"
  using assms by (auto simp: check_signature_def get_hmac_secret_def Let_def starts_with_split
      split: option.splits if_splits)

lemma verify_hmac_sound:
  "authenticated (fst (verify_hmac env mac okc ok now headers body s)) \<Longrightarrow> check_signature env mac headers body = Some []"
  by (auto simp: verify_hmac_def authenticated_def split: option.splits if_splits prod.splits)

text \<open>The signature covers the body alone: the time stamp and the nonce can be replaced.\<close>

lemma signature_ignores_freshness:
  "check_signature env mac (headers(''X-OpenClaw-Timestamp'' \<mapsto> x, ''X-OpenClaw-Nonce'' \<mapsto> y)) body =
   check_signature env mac headers body"
proof -
  have "get_header_alias_value (headers(''X-OpenClaw-Timestamp'' \<mapsto> x, ''X-OpenClaw-Nonce'' \<mapsto> y)) WEBHOOK_SIGNATURE_HEADERS
      = get_header_alias_value headers WEBHOOK_SIGNATURE_HEADERS"
    by (simp add: get_header_alias_value_def header_value_def WEBHOOK_SIGNATURE_HEADERS_def Let_def)
  then show ?thesis by (simp only: check_signature_def)
qed

lemma replayed_with_fresh_nonce:
  assumes "check_signature env mac headers body = Some []" and "should_require_replay_protection env"
    and "py_strip x = x" and "py_int x = Some ts" and "in_drift now ts"
    and "py_strip y = y" and "y \<noteq> []" and "fst (idem_gate (\<lambda>_. okc) (\<lambda>_. ok) 600 now (''nonce:'' @ y) s)"
  shows "fst (hmac_gate env mac (\<lambda>_. okc) (\<lambda>_. ok) now
    (headers(''X-OpenClaw-Timestamp'' \<mapsto> x, ''X-OpenClaw-Nonce'' \<mapsto> y), body) s)"
proof -
  let ?q = "(headers(''X-OpenClaw-Timestamp'' \<mapsto> x, ''X-OpenClaw-Nonce'' \<mapsto> y), body)"
  have "x \<noteq> []" using assms(4) by auto
  then have "request_stamp ?q = Some ts" "request_nonce ?q = y"
    using assms(3,4,6,7) by (simp_all add: request_stamp_def request_nonce_def get_header_alias_value_def header_value_def
        WEBHOOK_TIMESTAMP_HEADERS_def WEBHOOK_NONCE_HEADERS_def Let_def)
  then have "may_ask_nonce env mac now ?q" "request_nonce ?q = y"
    using assms(1,5,7) by (simp_all add: may_ask_nonce_def signature_ignores_freshness)
  then show ?thesis using assms(8) unfolding hmac_gate_guarded [OF assms(2)] by simp
qed

subsection \<open>Properties\<close>

text \<open>
  C22: authentication fails closed: a request is accepted only if it carries the configured,
  non-empty bearer token, or a signature of its raw body under the configured, non-empty
  secret, and only by a scheme that the configured mode allows.
\<close>

theorem webhook_auth_sound:
  assumes "authenticated (fst (require_auth env mac okc ok now headers body s))"
  shows "(get_auth_mode env \<in> {''bearer'', ''bearer_or_hmac''} \<and>
      (\<exists>token. token \<noteq> [] \<and> get_bearer_token env = Some token \<and> headers ''Authorization'' = Some (''Bearer '' @ token)))
    \<or> (get_auth_mode env \<in> {''hmac'', ''bearer_or_hmac''} \<and>
      (\<exists>secret sig. get_hmac_secret env = Some secret \<and> secret \<noteq> [] \<and>
        fst (get_header_alias_value headers WEBHOOK_SIGNATURE_HEADERS) = ''sha256='' @ sig \<and> py_lower sig = py_lower (mac secret body)))"
proof -
  consider "get_auth_mode env = ''bearer''" "fst (verify_bearer env headers)"
    | "get_auth_mode env = ''hmac''" "check_signature env mac headers body = Some []"
    | "get_auth_mode env = ''bearer_or_hmac''"
      "fst (verify_bearer env headers) \<or> check_signature env mac headers body = Some []"
    using assms verify_hmac_sound [of env mac okc ok now headers body s]
    by (auto simp: require_auth_def authenticated_def Let_def split: if_splits prod.splits option.splits)
  then show ?thesis by cases (auto dest!: verify_bearer_sound check_signature_sound)
qed

definition demo_env :: env where
  "demo_env = [''OPENCLAW_WEBHOOK_AUTH_MODE'' \<mapsto> ''hmac'', ''OPENCLAW_WEBHOOK_HMAC_SECRET'' \<mapsto> ''s'']"

definition demo_headers :: headers where
  "demo_headers = [''X-OpenClaw-Signature'' \<mapsto> ''sha256=ab'', ''X-OpenClaw-Timestamp'' \<mapsto> ''100'', ''X-OpenClaw-Nonce'' \<mapsto> ''n'']"

theorem webhook_auth_sound_witness:
  "\<exists>secret. get_hmac_secret demo_env = Some secret \<and> secret \<noteq> []"
proof -
  have "authenticated (fst (require_auth demo_env (\<lambda>_ _. ''ab'') True True 5 demo_headers ''body'' (fresh_store None False)))"
    by code_simp
  moreover have "get_auth_mode demo_env = ''hmac''" by code_simp
  ultimately show ?thesis
    using webhook_auth_sound [of demo_env "\<lambda>_ _. ''ab''" True True 5 demo_headers "''body''" "fresh_store None False"]
    by auto
qed



text \<open>
  The five minutes matter: a request whose time stamp is that far ahead is accepted again
  once its nonce has been forgotten.
\<close>

lemma replay_at_the_boundary:
  "accepted (\<lambda>_ q. (request_stamp q, request_nonce q)) (Some 500, ''n'')
     [(200, demo_headers(''X-OpenClaw-Timestamp'' \<mapsto> ''500''), ''a''), (1601 / 2, demo_headers(''X-OpenClaw-Timestamp'' \<mapsto> ''500''), ''a'')]
     (claim_run (hmac_gate demo_env (\<lambda>_ _. ''ab'') (\<lambda>_. True) (\<lambda>_. True))
        [(200, demo_headers(''X-OpenClaw-Timestamp'' \<mapsto> ''500''), ''a''), (1601 / 2, demo_headers(''X-OpenClaw-Timestamp'' \<mapsto> ''500''), ''a'')]
        (fresh_store None False)) = 2"
  by code_simp

end
