(* ===== verification/Json.thy ===== *)
theory Json
  imports Prelude
begin

text \<open>
  JSON values as \<open>json.loads\<close> gives them to the code, and what the code asks of any of
  them: truth, membership, \<open>dict.get\<close>. An object is a dict in the order of its keys.
\<close>

datatype json = JNull | JBool bool | JInt int | JFloat real | JStr string | JArr "json list" | JObj "(string \<times> json) list"

fun truthy :: "json \<Rightarrow> bool" where
  "truthy JNull = False"
| "truthy (JBool b) = b"
| "truthy (JInt i) = (i \<noteq> 0)"
| "truthy (JFloat x) = (x \<noteq> 0)"
| "truthy (JStr s) = (s \<noteq> [])"
| "truthy (JArr l) = (l \<noteq> [])"
| "truthy (JObj d) = (d \<noteq> [])"

text \<open>\<open>d.get(k, dflt)\<close> on an object; \<open>None\<close> is the \<open>AttributeError\<close> of the others.\<close>

definition jget :: "string \<Rightarrow> json \<Rightarrow> json \<Rightarrow> json option" where
  "jget k dflt j = (case j of JObj d \<Rightarrow> Some (case dget d k of None \<Rightarrow> dflt | Some v \<Rightarrow> v) | _ \<Rightarrow> None)"

text \<open>\<open>k in j\<close>: a key of an object, an element of a list, a part of a text; else \<open>TypeError\<close>.\<close>

definition jhas :: "string \<Rightarrow> json \<Rightarrow> bool option" where
  "jhas k j = (case j of JObj d \<Rightarrow> Some (k \<in> set (dkeys d)) | JArr l \<Rightarrow> Some (JStr k \<in> set l)
     | JStr s \<Rightarrow> Some (has_sub k s) | _ \<Rightarrow> None)"

text \<open>\<open>int(x)\<close>: \<open>None\<close> is \<open>ValueError\<close> or \<open>TypeError\<close>; a float loses its fraction.\<close>

definition trunc :: "real \<Rightarrow> int" where
  "trunc x = (if x < 0 then \<lceil>x\<rceil> else \<lfloor>x\<rfloor>)"

definition json_int :: "json \<Rightarrow> int option" where
  "json_int j = (case j of JBool b \<Rightarrow> Some (of_bool b) | JInt i \<Rightarrow> Some i | JFloat x \<Rightarrow> Some (trunc x)
     | JStr s \<Rightarrow> py_int s | _ \<Rightarrow> None)"

text \<open>
  A JSON file of keyed rows as a store finds it: absent (or empty), unreadable, or its rows,
  where a row that does not decode is \<open>None\<close>.
\<close>

datatype 'a json_file = F_missing | F_broken | F_rows "(string \<times> 'a option) list"

end
