(* ===== verification/Packs.thy ===== *)
theory Packs
  imports Json Targets
begin

text \<open>
  \<open>services/packs/\<close>: pack archives and their manifests. A directory is a tree; an
  archive is the list of its members with the sizes and attributes that its index states and
  the content that reading gives (\<open>None\<close>: reading fails). SHA-256 (\<open>sha\<close>), Unicode
  normalisation (\<open>nfkc\<close>) and the JSON parser (\<open>loads\<close>) are parameters. Files are
  read and written without error, and there are no symbolic links.
\<close>

definition MAX_MANIFEST_FILES :: nat where "MAX_MANIFEST_FILES = 1000"
definition MAX_FILE_SIZE_MB :: int where "MAX_FILE_SIZE_MB = 100"
definition MAX_COMPRESSION_RATIO :: int where "MAX_COMPRESSION_RATIO = 100"

subsection \<open>Directory trees\<close>

datatype node = File string | Dir "(string \<times> node) list"

text \<open>What the operating system finds under a path without \<open>..\<close>, component by component.\<close>

fun lookup :: "node \<Rightarrow> string list \<Rightarrow> node option" where
  "lookup n [] = Some n"
| "lookup (File c) (x # xs) = None"
| "lookup (Dir d) (x # xs) = (if x = [] \<or> x = ''.'' then lookup (Dir d) xs
     else (case dget d x of None \<Rightarrow> None | Some n \<Rightarrow> lookup n xs))"

lemma node_size: "(x, n) \<in> set d \<Longrightarrow> size n < Suc (size_list (size_prod (\<lambda>_. 0) size) d)"
  by (induction d) auto

text \<open>\<open>os.walk\<close>: the files below a directory, those of the directory itself first.\<close>

function files :: "node \<Rightarrow> (string list \<times> string) list" where
  "files (File c) = [([], c)]"
| "files (Dir d) =
     concat (map (\<lambda>(x, n). case n of File c \<Rightarrow> [([x], c)] | Dir _ \<Rightarrow> []) d)
     @ concat (map (\<lambda>(x, n). case n of File c \<Rightarrow> [] | Dir _ \<Rightarrow> map (\<lambda>(p, c). (x # p, c)) (files n)) d)"
  by pat_completeness auto

termination
  by (relation "measure size") (auto dest: node_size)

declare files.simps(2) [simp del]

fun put_file :: "string list \<Rightarrow> string \<Rightarrow> node \<Rightarrow> node option" where
  "put_file [] c n = None"
| "put_file (x # xs) c (File _) = None"
| "put_file [x] c (Dir d) = (case dget d x of Some (Dir _) \<Rightarrow> None | _ \<Rightarrow> Some (Dir (dput x (File c) d)))"
| "put_file (x # y # ys) c (Dir d) =
     map_option (\<lambda>n. Dir (dput x n d)) (put_file (y # ys) c (case dget d x of None \<Rightarrow> Dir [] | Some n \<Rightarrow> n))"

fun put_dir :: "string list \<Rightarrow> node \<Rightarrow> node option" where
  "put_dir xs (File _) = None"
| "put_dir [] (Dir d) = Some (Dir d)"
| "put_dir (x # xs) (Dir d) =
     map_option (\<lambda>n. Dir (dput x n d)) (put_dir xs (case dget d x of None \<Rightarrow> Dir [] | Some n \<Rightarrow> n))"

subsection \<open>Manifest\<close>

datatype integrity_error = Too_many_manifest_files | Invalid_path string | Missing_file string | Not_a_file string
  | Hash_mismatch string | Unlisted_file string

datatype pack_error = Archive_not_found | Too_many_files nat | Too_large int | Ratio_too_high | Unsafe_filename string
  | Symlink string | Code_safety string string | Missing_manifest | Missing_pack_json | Invalid_json
  | Missing_field string | Missing_min_version | Invalid_type | Integrity "integrity_error list"
  | Empty_segment string | Bad_segment string | Dot_segment string | Already_installed | Other_error

definition PACK_TYPES :: "string list" where
  "PACK_TYPES = [''preset'', ''template'', ''profile'']"

fun missing_field :: "string list \<Rightarrow> json \<Rightarrow> pack_error option" where
  "missing_field [] data = None"
| "missing_field (f # fs) data = (case jhas f data of
     None \<Rightarrow> Some Other_error | Some b \<Rightarrow> if b then missing_field fs data else Some (Missing_field f))"

definition validate_pack_metadata :: "json \<Rightarrow> pack_error + json" where
  "validate_pack_metadata data =
    (case missing_field [''name'', ''version'', ''type'', ''author''] data of
       Some e \<Rightarrow> Inl e
     | None \<Rightarrow>
        if jhas ''min_openclaw_version'' data = Some False \<and> jhas ''min_moltbot_version'' data = Some False
        then Inl Missing_min_version
        else (case jget ''type'' JNull data of
           None \<Rightarrow> Inl Other_error
         | Some t \<Rightarrow> if t \<in> JStr ` set PACK_TYPES then Inr data else Inl Invalid_type))"

text \<open>\<open>manifest.get("files", [])\<close> as a sequence; the elements of a text or an object are texts.\<close>

definition manifest_files :: "json \<Rightarrow> json list option" where
  "manifest_files m = (case jget ''files'' (JArr []) m of
     Some (JArr l) \<Rightarrow> Some l | Some (JStr s) \<Rightarrow> Some (map (\<lambda>c. JStr [c]) s) | Some (JObj d) \<Rightarrow> Some (map (JStr \<circ> fst) d)
   | _ \<Rightarrow> None)"

text \<open>One item of the manifest: its path and the error it adds; \<open>None\<close> is an exception.\<close>

definition check_item :: "(string \<Rightarrow> string) \<Rightarrow> node \<Rightarrow> json \<Rightarrow> (string \<times> integrity_error list) option" where
  "check_item sha base item =
    (case jget ''path'' JNull item of
       Some (JStr p) \<Rightarrow> Some (p,
         if has_sub ''..'' p \<or> starts_with ''/'' p \<or> has_char (CHR 0x5C) p then [Invalid_path p]
         else (case lookup base (split_on (CHR ''/'') p) of
            None \<Rightarrow> [Missing_file p]
          | Some (Dir _) \<Rightarrow> [Not_a_file p]
          | Some (File c) \<Rightarrow> if jget ''sha256'' JNull item \<noteq> Some (JStr (sha c)) then [Hash_mismatch p] else []))
     | _ \<Rightarrow> None)"

fun check_items :: "(string \<Rightarrow> string) \<Rightarrow> node \<Rightarrow> json list \<Rightarrow> (string \<times> integrity_error list) list option" where
  "check_items sha base [] = Some []"
| "check_items sha base (i # is) = (case check_item sha base i of None \<Rightarrow> None
     | Some r \<Rightarrow> map_option ((#) r) (check_items sha base is))"

definition rel_path :: "string list \<Rightarrow> string" where
  "rel_path p = map (\<lambda>c. if c = CHR 0x5C then CHR ''/'' else c) (join_with (CHR ''/'') p)"

definition ALLOWED_EXTRAS :: "string list" where
  "ALLOWED_EXTRAS = [''manifest.json'', ''pack.json'']"

definition unlisted :: "string list \<Rightarrow> node \<Rightarrow> integrity_error list" where
  "unlisted manifest_paths base = map Unlisted_file
     (filter (\<lambda>p. p \<notin> set ALLOWED_EXTRAS \<and> p \<notin> set manifest_paths) (map (rel_path \<circ> fst) (files base)))"

definition validate_manifest_integrity :: "(string \<Rightarrow> string) \<Rightarrow> node \<Rightarrow> json \<Rightarrow> integrity_error list option" where
  "validate_manifest_integrity sha base manifest =
    (case manifest_files manifest of
       None \<Rightarrow> None
     | Some items \<Rightarrow>
         if length items > MAX_MANIFEST_FILES then Some [Too_many_manifest_files]
         else (case check_items sha base items of
            None \<Rightarrow> None
          | Some rs \<Rightarrow> Some (concat (map snd rs) @ unlisted (map fst rs) base)))"

text \<open>The manifest that \<open>create_manifest\<close> writes, its keys in order.\<close>

definition listed_files :: "node \<Rightarrow> (string \<times> string) list" where
  "listed_files base = sort_key fst (map (\<lambda>(p, c). (rel_path p, c)) (filter (\<lambda>(p, c). last p \<noteq> ''manifest.json'') (files base)))"

definition manifest_item :: "(string \<Rightarrow> string) \<Rightarrow> string \<times> string \<Rightarrow> json" where
  "manifest_item sha f = JObj [(''path'', JStr (fst f)), (''sha256'', JStr (sha (snd f))), (''size'', JInt (int (length (snd f))))]"

definition create_manifest :: "(string \<Rightarrow> string) \<Rightarrow> node \<Rightarrow> (string \<times> json) list \<Rightarrow> json" where
  "create_manifest sha base metadata =
    JObj (sort_key fst (fold (\<lambda>(k, v). dput k v) (filter (\<lambda>(k, v). k \<noteq> ''version'') (sort_key fst metadata))
      [(''version'', case dget metadata ''version'' of None \<Rightarrow> JStr ''0.0.0'' | Some v \<Rightarrow> v),
       (''files'', JArr (map (manifest_item sha) (listed_files base)))]))"

subsection \<open>Archives\<close>

record zip_info =
  zi_filename :: string
  zi_file_size :: int
  zi_compress_size :: int
  zi_external_attr :: int
  zi_content :: "string option"

definition DANGEROUS_PATTERNS :: "(string \<times> string) list" where
  "DANGEROUS_PATTERNS =
    [(''import os'', ''Direct os import''), (''from os import'', ''Direct os import''),
     (''import subprocess'', ''Subprocess usage''), (''from subprocess import'', ''Subprocess usage''),
     (''exec('', ''Dynamic execution (exec)''), (''eval('', ''Dynamic execution (eval)''),
     (''__import__('', ''Dynamic import'')]"

text \<open>The first pattern found that the scan enforces.\<close>

definition member_violation :: "zip_info \<Rightarrow> pack_error option" where
  "member_violation info =
    (if ends_with ''.py'' (zi_filename info) then
       (case zi_content info of
          None \<Rightarrow> Some Other_error
        | Some content \<Rightarrow>
            map_option (\<lambda>(pat, desc). Code_safety (zi_filename info) desc)
              (find (\<lambda>(pat, desc). has_sub pat content \<and> (has_sub ''exec('' pat \<or> has_sub ''eval('' pat)) DANGEROUS_PATTERNS))
     else None)"

fun check_code_safety :: "zip_info list \<Rightarrow> pack_error option" where
  "check_code_safety [] = None"
| "check_code_safety (i # is) = (case member_violation i of Some e \<Rightarrow> Some e | None \<Rightarrow> check_code_safety is)"

text \<open>Names and attributes: \<open>norm_name\<close> is the normalised name.\<close>

definition unsafe_name :: "string \<Rightarrow> bool" where
  "unsafe_name norm_name \<longleftrightarrow> starts_with ''/'' norm_name \<or> has_sub ''..'' norm_name \<or> has_char (CHR 0x5C) norm_name
     \<or> has_char (CHR '':'') norm_name \<or> (\<exists>c \<in> set norm_name. (of_char c :: nat) < 32)"

fun check_names :: "(string \<Rightarrow> string) \<Rightarrow> zip_info list \<Rightarrow> pack_error option" where
  "check_names nfkc [] = None"
| "check_names nfkc (i # is) =
    (if unsafe_name (nfkc (zi_filename i)) then Some (Unsafe_filename (zi_filename i))
     else if (zi_external_attr i div 2 ^ 16) div 2 ^ 12 mod 16 = 10 then Some (Symlink (zi_filename i))
     else check_names nfkc is)"

definition preflight :: "(string \<Rightarrow> string) \<Rightarrow> zip_info list \<Rightarrow> pack_error option" where
  "preflight nfkc infos =
    (let total_size = sum_list (map zi_file_size infos); compressed_size = sum_list (map zi_compress_size infos) in
     if length infos > MAX_MANIFEST_FILES then Some (Too_many_files (length infos))
     else if total_size > MAX_FILE_SIZE_MB * 1024 * 1024 then Some (Too_large total_size)
     else if compressed_size > 0 \<and> total_size > MAX_COMPRESSION_RATIO * compressed_size then Some Ratio_too_high
     else (case check_names nfkc infos of Some e \<Rightarrow> Some e | None \<Rightarrow> check_code_safety infos))"

text \<open>\<open>zipfile.extractall\<close>: empty, \<open>.\<close> and \<open>..\<close> components of a name are dropped.\<close>

definition member_path :: "string \<Rightarrow> string list" where
  "member_path name = filter (\<lambda>x. x \<notin> set [[], ''.'', ''..'']) (split_on (CHR ''/'') name)"

definition extract_member :: "zip_info \<Rightarrow> node \<Rightarrow> node option" where
  "extract_member i n =
    (if ends_with ''/'' (zi_filename i) then put_dir (member_path (zi_filename i)) n
     else (case zi_content i of None \<Rightarrow> None | Some c \<Rightarrow> put_file (member_path (zi_filename i)) c n))"

fun extract_all :: "zip_info list \<Rightarrow> node \<Rightarrow> node option" where
  "extract_all [] n = Some n"
| "extract_all (i # is) n = (case extract_member i n of None \<Rightarrow> None | Some n' \<Rightarrow> extract_all is n')"

text \<open>The metadata and the content of the target directory.\<close>

definition extract_pack ::
  "(string \<Rightarrow> string) \<Rightarrow> (string \<Rightarrow> string) \<Rightarrow> (string \<Rightarrow> json option) \<Rightarrow> zip_info list option \<Rightarrow> pack_error + json \<times> node" where
  "extract_pack sha nfkc loads zf =
    (case zf of None \<Rightarrow> Inl Archive_not_found | Some infos \<Rightarrow>
     (case preflight nfkc infos of Some e \<Rightarrow> Inl e | None \<Rightarrow>
     (case extract_all infos (Dir []) of None \<Rightarrow> Inl Other_error | Some tmp \<Rightarrow>
     (case (lookup tmp [''manifest.json''], lookup tmp [''pack.json'']) of
        (None, _) \<Rightarrow> Inl Missing_manifest
      | (_, None) \<Rightarrow> Inl Missing_pack_json
      | (Some (File mt), Some (File pt)) \<Rightarrow>
         (case (loads mt, loads pt) of
            (Some manifest, Some pack_meta) \<Rightarrow>
              (case validate_pack_metadata pack_meta of Inl e \<Rightarrow> Inl e | Inr _ \<Rightarrow>
              (case validate_manifest_integrity sha tmp manifest of
                 None \<Rightarrow> Inl Other_error
               | Some errors \<Rightarrow> if errors \<noteq> [] then Inl (Integrity errors) else Inr (pack_meta, tmp)))
          | _ \<Rightarrow> Inl Invalid_json)
      | _ \<Rightarrow> Inl Other_error))))"

subsection \<open>Installed packs\<close>

definition validate_pack_segment :: "json \<Rightarrow> string \<Rightarrow> pack_error option" where
  "validate_pack_segment value label =
    (if \<not> truthy value then Some (Empty_segment label)
     else (case value of
        JStr s \<Rightarrow> if \<not> match_end (rep_class (alnum_or ''._-'') 1 (length s)) s then Some (Bad_segment label)
                 else if s \<in> set [''.'', ''..''] then Some (Dot_segment label) else None
      | _ \<Rightarrow> Some Other_error))"

type_synonym packs_dir = "(string, (string, node) dict) dict"

definition versions_of :: "string \<Rightarrow> packs_dir \<Rightarrow> (string, node) dict" where
  "versions_of name d = (case dget d name of None \<Rightarrow> [] | Some vs \<Rightarrow> vs)"

definition install_pack ::
  "(string \<Rightarrow> string) \<Rightarrow> (string \<Rightarrow> string) \<Rightarrow> (string \<Rightarrow> json option) \<Rightarrow> zip_info list option \<Rightarrow> bool \<Rightarrow> packs_dir \<Rightarrow>
   (pack_error + json) \<times> packs_dir" where
  "install_pack sha nfkc loads zf overwrite d =
    (case extract_pack sha nfkc loads zf of Inl e \<Rightarrow> (Inl e, d) | Inr (meta, stage) \<Rightarrow>
     (case (jget ''name'' JNull meta, jget ''version'' JNull meta) of
        (Some n, Some v) \<Rightarrow>
         (case (validate_pack_segment n ''name'', validate_pack_segment v ''version'', n, v) of
            (Some e, _) \<Rightarrow> (Inl e, d)
          | (None, Some e, _) \<Rightarrow> (Inl e, d)
          | (None, None, JStr name, JStr version) \<Rightarrow>
              if dget (versions_of name d) version \<noteq> None \<and> \<not> overwrite then (Inl Already_installed, d)
              else (Inr meta, dput name (dput version stage (versions_of name d)) d)
          | _ \<Rightarrow> (Inl Other_error, d))
      | _ \<Rightarrow> (Inl Other_error, d)))"

definition uninstall_pack :: "string \<Rightarrow> string \<Rightarrow> packs_dir \<Rightarrow> (pack_error + bool) \<times> packs_dir" where
  "uninstall_pack name version d =
    (case (validate_pack_segment (JStr name) ''name'', validate_pack_segment (JStr version) ''version'') of
       (Some e, _) \<Rightarrow> (Inl e, d) | (None, Some e) \<Rightarrow> (Inl e, d)
     | (None, None) \<Rightarrow>
        if dget (versions_of name d) version = None then (Inr False, d)
        else let vs = ddel version (versions_of name d) in
          (Inr True, if vs = [] then ddel name d else dput name vs d))"

definition list_packs :: "(string \<Rightarrow> json option) \<Rightarrow> packs_dir \<Rightarrow> json list" where
  "list_packs loads d = concat (map (\<lambda>(name, vs). concat (map (\<lambda>(v, t).
     case lookup t [''pack.json''] of Some (File c) \<Rightarrow> (case loads c of Some j \<Rightarrow> [j] | None \<Rightarrow> []) | _ \<Rightarrow> []) vs)) d)"

definition get_pack_path :: "string \<Rightarrow> string \<Rightarrow> packs_dir \<Rightarrow> pack_error + node option" where
  "get_pack_path name version d =
    (case (validate_pack_segment (JStr name) ''name'', validate_pack_segment (JStr version) ''version'') of
       (Some e, _) \<Rightarrow> Inl e | (None, Some e) \<Rightarrow> Inl e
     | (None, None) \<Rightarrow> Inr (dget (versions_of name d) version))"

subsection \<open>Trees with proper names\<close>

definition good_name :: "string \<Rightarrow> bool" where
  "good_name x \<longleftrightarrow> x \<notin> set [[], ''.'', ''..''] \<and> CHR ''/'' \<notin> set x \<and> CHR 0x5C \<notin> set x"

fun proper :: "node \<Rightarrow> bool" where
  "proper (File c) = True"
| "proper (Dir d) = (dict_ok d \<and> (\<forall>p \<in> set d. good_name (fst p) \<and> proper (snd p)))"

lemma set_files_Dir: "set (files (Dir d)) = (\<Union>(x, n) \<in> set d. (\<lambda>(q, c). (x # q, c)) ` set (files n))"
proof -
  have "set (case n of File c \<Rightarrow> [([x], c)] | Dir _ \<Rightarrow> []) \<union>
      set (case n of File c \<Rightarrow> [] | Dir _ \<Rightarrow> map (\<lambda>(p, c). (x # p, c)) (files n)) = (\<lambda>(q, c). (x # q, c)) ` set (files n)"
    for x n by (cases n) (auto simp del: files.simps(2))
  then show ?thesis unfolding files.simps(2) set_append set_concat set_map by (simp add: split_def flip: UN_Un_distrib)
qed

lemma files_Dir_iff: "(p, c) \<in> set (files (Dir d)) \<longleftrightarrow> (\<exists>x n q. p = x # q \<and> (x, n) \<in> set d \<and> (q, c) \<in> set (files n))"
  unfolding set_files_Dir by force

lemma files_iff_lookup:
  "proper n \<Longrightarrow> (p, c) \<in> set (files n) \<longleftrightarrow> lookup n p = Some (File c) \<and> list_all good_name p"
proof (induction n arbitrary: p rule: proper.induct)
  case (1 c')
  then show ?case by (cases p) auto
next
  case (2 d)
  show ?case
  proof (cases p)
    case Nil
    then show ?thesis by (simp add: files_Dir_iff del: files.simps)
  next
    case (Cons x q)
    have inner: "(q, c) \<in> set (files n) \<longleftrightarrow> lookup n q = Some (File c) \<and> list_all good_name q" and good: "good_name x"
      if "dget d x = Some n" for n
      using 2 that by (auto dest!: dget_in)
    have "(p, c) \<in> set (files (Dir d)) \<longleftrightarrow> (\<exists>n. dget d x = Some n \<and> (q, c) \<in> set (files n))"
      using 2(2) by (simp add: files_Dir_iff Cons dget_iff del: files.simps)
    moreover have "lookup (Dir d) p = Some (File c) \<and> list_all good_name p \<longleftrightarrow>
        good_name x \<and> (\<exists>n. dget d x = Some n \<and> lookup n q = Some (File c)) \<and> list_all good_name q"
      by (cases "dget d x") (auto simp: Cons good_name_def)
    ultimately show ?thesis using inner good by blast
  qed
qed

lemma proper_dput: "proper (Dir d) \<Longrightarrow> good_name x \<Longrightarrow> proper n \<Longrightarrow> proper (Dir (dput x n d))"
  by (auto simp: set_dput dict_simps)

lemma proper_dget: "proper (Dir d) \<Longrightarrow> dget d x = Some n \<Longrightarrow> proper n"
  by (auto dest!: dget_in)

lemma put_file_proper: "put_file p c n = Some n' \<Longrightarrow> proper n \<Longrightarrow> list_all good_name p \<Longrightarrow> proper n'"
proof (induction p c n arbitrary: n' rule: put_file.induct)
  case (3 x c d)
  then show ?case by (auto simp del: proper.simps intro!: proper_dput split: option.splits node.splits) simp_all
next
  case (4 x y ys c d)
  then obtain m where m: "put_file (y # ys) c (case dget d x of None \<Rightarrow> Dir [] | Some n \<Rightarrow> n) = Some m"
    and n': "n' = Dir (dput x m d)" by auto
  have "proper (case dget d x of None \<Rightarrow> Dir [] | Some n \<Rightarrow> n)"
    using proper_dget [OF 4(3)] by (auto split: option.split)
  then have "proper m" using 4(1) [OF m] 4(4) by simp
  then show ?case unfolding n' using 4 by (intro proper_dput) auto
qed auto

lemma put_dir_proper: "put_dir p n = Some n' \<Longrightarrow> proper n \<Longrightarrow> list_all good_name p \<Longrightarrow> proper n'"
proof (induction p n arbitrary: n' rule: put_dir.induct)
  case (3 x xs d)
  then obtain m where m: "put_dir xs (case dget d x of None \<Rightarrow> Dir [] | Some n \<Rightarrow> n) = Some m"
    and n': "n' = Dir (dput x m d)" by auto
  have "proper (case dget d x of None \<Rightarrow> Dir [] | Some n \<Rightarrow> n)"
    using proper_dget [OF 3(3)] by (auto split: option.split)
  then have "proper m" using 3(1) [OF m] 3(4) by simp
  then show ?case unfolding n' using 3 by (intro proper_dput) auto
qed auto

lemma member_path_good: "CHR 0x5C \<notin> set s \<Longrightarrow> list_all good_name (member_path s)"
  by (auto simp: member_path_def list_all_iff good_name_def dest: split_on_pieces)

lemma extract_all_proper:
  "extract_all is n = Some n' \<Longrightarrow> proper n \<Longrightarrow> \<forall>i \<in> set is. CHR 0x5C \<notin> set (zi_filename i) \<Longrightarrow> proper n'"
proof (induction "is" arbitrary: n)
  case (Cons i "is")
  then obtain m where m: "extract_member i n = Some m" "extract_all is m = Some n'" by (auto split: option.splits)
  have "proper m" using m(1) Cons.prems(2,3) member_path_good [of "zi_filename i"]
    by (auto simp: extract_member_def intro: put_file_proper put_dir_proper split: if_splits option.splits)
  then show ?case using Cons.IH m(2) Cons.prems(3) by simp
qed simp

lemma split_join_path: "list_all good_name p \<Longrightarrow> p \<noteq> [] \<Longrightarrow> split_on (CHR ''/'') (join_with (CHR ''/'') p) = p"
  by (rule split_join) (auto simp: list_all_iff good_name_def)

lemma rel_path_good: "list_all good_name p \<Longrightarrow> rel_path p = join_with (CHR ''/'') p"
proof -
  have "set (join_with c p) \<subseteq> insert c (\<Union> (set ` set p))" for c by (induction c p rule: join_with.induct) auto
  moreover assume "list_all good_name p"
  ultimately have "CHR 0x5C \<notin> set (join_with (CHR ''/'') p)" by (fastforce simp: list_all_iff good_name_def)
  then show ?thesis unfolding rel_path_def by (intro map_idI) auto
qed

text \<open>The components of the files of a directory are good names, and there is one at least.\<close>

lemma files_good:
  assumes "proper (Dir d)" and "(p, c) \<in> set (files (Dir d))"
  shows "list_all good_name p" and "p \<noteq> []" and "lookup (Dir d) p = Some (File c)"
  using assms files_iff_lookup [of "Dir d" p c] by (auto simp del: files.simps)

subsection \<open>What a valid manifest says\<close>

lemma check_items_all: "check_items sha base is = Some rs \<Longrightarrow> map (check_item sha base) is = map Some rs"
  by (induction "is" arbitrary: rs) (auto split: option.splits)

lemma check_item_good:
  assumes "check_item sha base item = Some (path, [])"
  shows "\<exists>c. jget ''path'' JNull item = Some (JStr path) \<and> lookup base (split_on (CHR ''/'') path) = Some (File c)
    \<and> jget ''sha256'' JNull item = Some (JStr (sha c))"
  using assms unfolding check_item_def
  by (auto split: option.splits json.splits if_splits node.splits)

lemma valid_manifestE:
  assumes "validate_manifest_integrity sha base m = Some []"
  obtains items where "manifest_files m = Some items"
    and "\<And>item. item \<in> set items \<Longrightarrow> \<exists>path. check_item sha base item = Some (path, [])"
    and "\<And>p c. (p, c) \<in> set (files base) \<Longrightarrow>
      rel_path p \<in> set ALLOWED_EXTRAS \<or> (\<exists>item \<in> set items. check_item sha base item = Some (rel_path p, []))"
proof -
  obtain items rs where items: "manifest_files m = Some items" and rs: "check_items sha base items = Some rs"
    and errs: "concat (map snd rs) = []" "unlisted (map fst rs) base = []"
    using assms unfolding validate_manifest_integrity_def by (auto split: option.splits if_splits)
  have all: "map (check_item sha base) items = map Some rs" using rs by (rule check_items_all)
  have clean: "r = (fst r, [])" if "r \<in> set rs" for r using errs(1) that by (cases r) auto
  have sets: "check_item sha base ` set items = Some ` set rs" using arg_cong [OF all, of set] by simp
  show ?thesis
  proof (rule that [OF items])
    fix item assume "item \<in> set items"
    then obtain r where "r \<in> set rs" "check_item sha base item = Some r" using sets by blast
    then show "\<exists>path. check_item sha base item = Some (path, [])" using clean by metis
  next
    fix p c assume pc: "(p, c) \<in> set (files base)"
    have "rel_path p \<in> set ALLOWED_EXTRAS \<or> rel_path p \<in> set (map fst rs)"
      using errs(2) pc by (force simp: unlisted_def filter_empty_conv)
    then show "rel_path p \<in> set ALLOWED_EXTRAS \<or> (\<exists>item \<in> set items. check_item sha base item = Some (rel_path p, []))"
    proof
      assume "rel_path p \<in> set (map fst rs)"
      then obtain r where r: "r \<in> set rs" "fst r = rel_path p" by auto
      then obtain item where "item \<in> set items" "check_item sha base item = Some r" using sets by (metis imageE image_eqI)
      then show ?thesis using clean r by metis
    qed simp
  qed
qed

lemma valid_listed:
  assumes "validate_manifest_integrity sha (Dir d) m = Some []" and "proper (Dir d)" and "(p, c) \<in> set (files (Dir d))"
    and "manifest_files m = Some items"
  shows "join_with (CHR ''/'') p \<in> set ALLOWED_EXTRAS \<or> (\<exists>item \<in> set items.
    jget ''path'' JNull item = Some (JStr (join_with (CHR ''/'') p)) \<and> jget ''sha256'' JNull item = Some (JStr (sha c)))"
proof -
  have p: "list_all good_name p" "p \<noteq> []" "lookup (Dir d) p = Some (File c)" using files_good [OF assms(2,3)] .
  have item: "jget ''path'' JNull item = Some (JStr (join_with (CHR ''/'') p)) \<and> jget ''sha256'' JNull item = Some (JStr (sha c))"
    if "check_item sha (Dir d) item = Some (rel_path p, [])" for item
    using check_item_good [OF that] p by (auto simp: rel_path_good split_join_path)
  obtain items' where "manifest_files m = Some items'"
    and "rel_path p \<in> set ALLOWED_EXTRAS \<or> (\<exists>item \<in> set items'. check_item sha (Dir d) item = Some (rel_path p, []))"
    using valid_manifestE [OF assms(1)] assms(3) by metis
  then show ?thesis using assms(4) item rel_path_good [OF p(1)] by auto
qed

text \<open>A manifest and an injective hash leave one content for every path they list.\<close>

lemma valid_same:
  assumes "validate_manifest_integrity sha (Dir d) m = Some []" and "proper (Dir d)"
    and "validate_manifest_integrity sha (Dir e) m = Some []" and "proper (Dir e)" and "inj sha"
    and "(p, c) \<in> set (files (Dir d))" and "join_with (CHR ''/'') p \<notin> set ALLOWED_EXTRAS"
  shows "(p, c) \<in> set (files (Dir e))"
proof -
  have p: "list_all good_name p" "p \<noteq> []" using files_good [OF assms(2,6)] by auto
  obtain items where items: "manifest_files m = Some items"
    and good: "\<And>item. item \<in> set items \<Longrightarrow> \<exists>path. check_item sha (Dir e) item = Some (path, [])"
    using valid_manifestE [OF assms(3)] by metis
  obtain item where item: "item \<in> set items" "jget ''path'' JNull item = Some (JStr (join_with (CHR ''/'') p))"
      "jget ''sha256'' JNull item = Some (JStr (sha c))"
    using valid_listed [OF assms(1,2,6) items] assms(7) by blast
  obtain path where "check_item sha (Dir e) item = Some (path, [])" using good [OF item(1)] by blast
  then obtain c' where "jget ''path'' JNull item = Some (JStr path)" "jget ''sha256'' JNull item = Some (JStr (sha c'))"
    "lookup (Dir e) (split_on (CHR ''/'') path) = Some (File c')" using check_item_good by blast
  moreover from calculation have "path = join_with (CHR ''/'') p" "c' = c" using item assms(5) by (simp_all add: inj_eq)
  ultimately have "lookup (Dir e) p = Some (File c)" using p by (simp add: split_join_path)
  then show ?thesis using files_iff_lookup [OF assms(4)] p by blast
qed

subsection \<open>Extraction\<close>

lemma extract_all_Dir: "extract_all is (Dir d) = Some T \<Longrightarrow> \<exists>e. T = Dir e"
proof (induction "is" arbitrary: d)
  case (Cons i "is")
  then obtain m where m: "extract_member i (Dir d) = Some m" "extract_all is m = Some T" by (auto split: option.splits)
  have "\<exists>e. put_file p c (Dir d) = Some n \<longrightarrow> n = Dir e" "\<exists>e. put_dir p (Dir d) = Some n \<longrightarrow> n = Dir e" for p c n
    by (cases "(p, c, Dir d)" rule: put_file.cases; auto split: option.splits node.splits)
      (cases "(p, Dir d)" rule: put_dir.cases; auto)
  then have "\<exists>e. m = Dir e" using m(1) by (auto simp: extract_member_def split: if_splits option.splits)
  then show ?case using Cons.IH m(2) by blast
qed auto

lemma check_names_none: "check_names nfkc is = None \<Longrightarrow> i \<in> set is \<Longrightarrow> \<not> unsafe_name (nfkc (zi_filename i))"
  by (induction "is") (auto split: if_splits)

lemma extract_packE:
  assumes "extract_pack sha nfkc loads (Some infos) = Inr (meta, T)"
    and "\<forall>s. has_char (CHR 0x5C) s \<longrightarrow> has_char (CHR 0x5C) (nfkc s)"
  obtains d mt m where "T = Dir d" and "proper T" and "preflight nfkc infos = None" and "extract_all infos (Dir []) = Some T"
    and "lookup T [''manifest.json''] = Some (File mt)" and "loads mt = Some m"
    and "validate_manifest_integrity sha T m = Some []"
proof -
  obtain mt m where ex: "preflight nfkc infos = None" "extract_all infos (Dir []) = Some T"
    "lookup T [''manifest.json''] = Some (File mt)" "loads mt = Some m" "validate_manifest_integrity sha T m = Some []"
    using assms(1) unfolding extract_pack_def by (auto split: option.splits node.splits sum.splits if_splits)
  have "check_names nfkc infos = None"
    using ex(1) by (auto simp: preflight_def Let_def split: if_splits option.splits)
  then have "\<forall>i \<in> set infos. CHR 0x5C \<notin> set (zi_filename i)"
    using assms(2) check_names_none by (fastforce simp: unsafe_name_def has_char_def)
  then have "proper T" using extract_all_proper [OF ex(2)] by simp
  moreover obtain d where "T = Dir d" using extract_all_Dir [OF ex(2)] by blast
  ultimately show ?thesis using ex that by blast
qed

subsection \<open>Creating a manifest\<close>

lemma dget_fold_dput_notin: "k \<notin> fst ` set xs \<Longrightarrow> dget (fold (\<lambda>(k, v). dput k v) xs d) k = dget d k"
  by (induction xs arbitrary: d) (auto simp: dict_simps)

lemma manifest_files_create:
  assumes "''files'' \<notin> set (dkeys metadata)"
  shows "manifest_files (create_manifest sha base metadata) = Some (map (manifest_item sha) (listed_files base))"
proof -
  have "''files'' \<notin> fst ` set (filter (\<lambda>(k, v). k \<noteq> ''version'') (sort_key fst metadata))" using assms by auto
  then show ?thesis
    unfolding manifest_files_def create_manifest_def jget_def
    by (simp add: dget_sort_key dict_ok_fold_dput dget_fold_dput_notin)
qed

lemma join_not_slash: "list_all good_name p \<Longrightarrow> p \<noteq> [] \<Longrightarrow> \<not> starts_with ''/'' (join_with (CHR ''/'') p)"
  by (cases p rule: list.exhaust; cases "tl p"; cases "hd p") (auto simp: starts_with_def good_name_def)

text \<open>Writing a file beside the others changes nothing that is found under the other paths.\<close>

lemma lookup_put_top:
  assumes "proper (Dir d)" and "put_file [x] t (Dir d) = Some n" and "good_name x" and "(p, c) \<in> set (files (Dir d))" and "p \<noteq> [x]"
  shows "lookup n p = Some (File c)"
proof -
  have p: "list_all good_name p" "p \<noteq> []" "lookup (Dir d) p = Some (File c)" using files_good [OF assms(1,4)] .
  then obtain y q where yq: "p = y # q" by (cases p) auto
  have n: "n = Dir (dput x (File t) d)" "\<And>e. dget d x \<noteq> Some (Dir e)" using assms(2) by (auto split: option.splits node.splits)
  show ?thesis
  proof (cases "y = x")
    case True
    then obtain c' where "dget d x = Some (File c')" using p(1,3) n(2) yq by (auto simp: good_name_def split: option.splits) (metis node.exhaust)
    then show ?thesis using p(1,3) yq True assms(5) by (cases q) (auto simp: good_name_def)
  next
    case False
    then show ?thesis using p(1,3) yq by (auto simp: n(1) good_name_def dict_simps)
  qed
qed

lemma check_item_created:
  assumes "lookup base p = Some (File c)" and "list_all good_name p" and "p \<noteq> []"
    and "\<not> has_sub ''..'' (join_with (CHR ''/'') p)"
  shows "check_item sha base (manifest_item sha (rel_path p, c)) = Some (rel_path p, [])"
proof -
  have "\<not> has_char (CHR 0x5C) (rel_path p)" by (auto simp: has_char_def rel_path_def)
  then show ?thesis using assms join_not_slash [OF assms(2,3)]
    by (simp add: check_item_def manifest_item_def jget_def rel_path_good split_join_path)
qed

lemma check_items_map:
  "(\<And>x. x \<in> set xs \<Longrightarrow> check_item sha base (g x) = Some (h x)) \<Longrightarrow> check_items sha base (map g xs) = Some (map h xs)"
  by (induction xs) auto

subsection \<open>Properties\<close>

text \<open>
  A manifest pins a pack down: two archives with the same manifest that both extract
  give the same files, \<open>pack.json\<close> apart, if the hash does not collide; no file comes
  in or goes missing that the manifest does not list. (The normalisation must keep
  backslashes, as NFKC does.)
\<close>

theorem manifest_pins_pack:
  assumes "extract_pack sha nfkc loads (Some a) = Inr (meta, T)" and "extract_pack sha nfkc loads (Some b) = Inr (meta', T')"
    and "lookup T [''manifest.json''] = lookup T' [''manifest.json'']"
    and "inj sha" and "\<forall>s. has_char (CHR 0x5C) s \<longrightarrow> has_char (CHR 0x5C) (nfkc s)"
    and "join_with (CHR ''/'') p \<notin> set ALLOWED_EXTRAS"
  shows "(p, c) \<in> set (files T) \<longleftrightarrow> (p, c) \<in> set (files T')"
proof -
  obtain d mt m where T: "T = Dir d" "proper T" "lookup T [''manifest.json''] = Some (File mt)" "loads mt = Some m"
    "validate_manifest_integrity sha T m = Some []" using extract_packE [OF assms(1,5)] by metis
  obtain d' mt' m' where T': "T' = Dir d'" "proper T'" "lookup T' [''manifest.json''] = Some (File mt')" "loads mt' = Some m'"
    "validate_manifest_integrity sha T' m' = Some []" using extract_packE [OF assms(2,5)] by metis
  have "m' = m" using T(3,4) T'(3,4) assms(3) by simp
  then show ?thesis
    using valid_same [of sha d m d' p c] valid_same [of sha d' m d p c] T T' assms(4,6) by blast
qed

definition demo_zip :: "zip_info list" where
  "demo_zip = [\<lparr>zi_filename = ''manifest.json'', zi_file_size = 1, zi_compress_size = 1, zi_external_attr = 0, zi_content = Some ''m''\<rparr>,
     \<lparr>zi_filename = ''pack.json'', zi_file_size = 1, zi_compress_size = 1, zi_external_attr = 0, zi_content = Some ''p''\<rparr>,
     \<lparr>zi_filename = ''a/x'', zi_file_size = 1, zi_compress_size = 1, zi_external_attr = 0, zi_content = Some ''hi''\<rparr>]"

definition demo_loads :: "string \<Rightarrow> json option" where
  "demo_loads s = (if s = ''m'' then Some (JObj [(''files'', JArr [JObj [(''path'', JStr ''a/x''), (''sha256'', JStr ''hi'')]])])
     else if s = ''p'' then Some (JObj [(''name'', JStr ''n''), (''version'', JStr ''1''), (''type'', JStr ''preset''),
       (''author'', JStr ''me''), (''min_openclaw_version'', JStr ''1'')])
     else None)"

definition demo_tree :: node where
  "demo_tree = Dir [(''manifest.json'', File ''m''), (''pack.json'', File ''p''), (''a'', Dir [(''x'', File ''hi'')])]"

lemma demo_extracts: "\<exists>meta. extract_pack (\<lambda>s. s) (\<lambda>s. s) demo_loads (Some demo_zip) = Inr (meta, demo_tree)"
proof -
  have "(case extract_pack (\<lambda>s. s) (\<lambda>s. s) demo_loads (Some demo_zip) of Inl _ \<Rightarrow> False | Inr (_, T) \<Rightarrow> T = demo_tree)"
    by code_simp
  then show ?thesis by (auto split: sum.splits)
qed

theorem manifest_pins_pack_witness:
  "([''a'', ''x''], ''hi'') \<in> set (files demo_tree) \<longleftrightarrow> ([''a'', ''x''], ''hi'') \<in> set (files demo_tree)"
proof -
  obtain meta where ex: "extract_pack (\<lambda>s. s) (\<lambda>s. s) demo_loads (Some demo_zip) = Inr (meta, demo_tree)"
    using demo_extracts by blast
  show ?thesis
    by (rule manifest_pins_pack [OF ex ex]) (simp_all add: ALLOWED_EXTRAS_def inj_def)
qed

text \<open>
  The manifest made for a directory is valid for it: after it has been written
  beside the files, the check finds no error, if there are at most 1000 files, no path
  has two dots in a row, \<open>manifest.json\<close> is the name of no file further down, and the
  metadata has no entry \<open>files\<close>.
\<close>

theorem manifest_round_trip:
  assumes "proper (Dir d)" and "put_file [''manifest.json''] text (Dir d) = Some n" and "''files'' \<notin> set (dkeys metadata)"
    and "length (files (Dir d)) \<le> MAX_MANIFEST_FILES"
    and "\<forall>(p, c) \<in> set (files (Dir d)). \<not> has_sub ''..'' (join_with (CHR ''/'') p)
      \<and> (last p = ''manifest.json'' \<longrightarrow> p = [''manifest.json''])"
  shows "validate_manifest_integrity sha n (create_manifest sha (Dir d) metadata) = Some []"
proof -
  let ?items = "listed_files (Dir d)"
  have g: "good_name ''manifest.json''" by code_simp
  have item: "check_item sha n (manifest_item sha f) = Some (fst f, [])" if f: "f \<in> set ?items" for f
  proof -
    obtain p c where pc: "(p, c) \<in> set (files (Dir d))" "last p \<noteq> ''manifest.json''" "f = (rel_path p, c)"
      using f by (auto simp: listed_files_def)
    have "lookup n p = Some (File c)" using pc(2) by (intro lookup_put_top [OF assms(1,2) g pc(1)]) auto
    then show ?thesis unfolding pc(3) fst_conv
      using files_good [OF assms(1) pc(1)] assms(5) pc(1) by (intro check_item_created) auto
  qed
  have n: "n = Dir (dput ''manifest.json'' (File text) d)" "proper n"
    using assms(2) put_file_proper [OF assms(2,1)] g by (auto split: option.splits node.splits)
  have known: "rel_path p \<in> set ALLOWED_EXTRAS \<or> rel_path p \<in> fst ` set ?items" if pc: "(p, c) \<in> set (files n)" for p c
  proof (cases "p = [''manifest.json'']")
    case True
    then show ?thesis by (simp add: rel_path_def ALLOWED_EXTRAS_def)
  next
    case False
    obtain x q where p: "p = x # q" using pc unfolding n by (auto simp: files_Dir_iff)
    have "x \<noteq> ''manifest.json''" using pc False unfolding n p by (auto simp: files_Dir_iff set_dput proper.simps assms(1) [simplified])
    then have "(p, c) \<in> set (files (Dir d))" using pc assms(1) unfolding n p by (auto simp: files_Dir_iff set_dput)
    moreover from this have "last p \<noteq> ''manifest.json''" using assms(5) False by auto
    ultimately show ?thesis by (force simp: listed_files_def)
  qed
  have "unlisted (map fst ?items) n = []"
    using known [of "fst x" "snd x" for x] by (simp add: unlisted_def filter_empty_conv)
  moreover have "check_items sha n (map (manifest_item sha) ?items) = Some (map (\<lambda>f. (fst f, [])) ?items)"
    using item by (rule check_items_map)
  moreover have "length ?items \<le> MAX_MANIFEST_FILES"
    using assms(4) le_trans [OF length_filter_le] by (simp add: listed_files_def)
  ultimately show ?thesis
    by (simp add: validate_manifest_integrity_def manifest_files_create [OF assms(3)] comp_def concat_eq_Nil_conv)
qed

theorem manifest_round_trip_witness:
  "validate_manifest_integrity (\<lambda>s. s) demo_tree
    (create_manifest (\<lambda>s. s) (Dir [(''manifest.json'', File ''old''), (''pack.json'', File ''p''), (''a'', Dir [(''x'', File ''hi'')])])
      [(''author'', JStr ''me'')]) = Some []"
proof (rule manifest_round_trip)
  show "put_file [''manifest.json''] ''m'' (Dir [(''manifest.json'', File ''old''), (''pack.json'', File ''p''), (''a'', Dir [(''x'', File ''hi'')])])
    = Some demo_tree" by (simp add: demo_tree_def)
qed (simp_all add: good_name_def files.simps(2) MAX_MANIFEST_FILES_def starts_with_def)

text \<open>
  The scan for \<open>exec(\<close> looks at member names that end in \<open>.py\<close>; a name that ends in
  \<open>.py/.\<close> is unpacked to the same file and passes every check of names and content.
\<close>

lemma code_scan_bypassed:
  "preflight (\<lambda>s. s) [\<lparr>zi_filename = ''evil.py/.'', zi_file_size = 7, zi_compress_size = 7, zi_external_attr = 0, zi_content = Some ''exec(x)''\<rparr>] = None"
  "extract_all [\<lparr>zi_filename = ''evil.py/.'', zi_file_size = 7, zi_compress_size = 7, zi_external_attr = 0, zi_content = Some ''exec(x)''\<rparr>] (Dir [])
    = Some (Dir [(''evil.py'', File ''exec(x)'')])"
  by code_simp+

text \<open>A \<open>manifest.json\<close> further down is left out of the manifest and then reported as unlisted.\<close>

lemma nested_manifest_rejected:
  "validate_manifest_integrity (\<lambda>s. s) (Dir [(''a'', Dir [(''manifest.json'', File ''hi'')])])
    (create_manifest (\<lambda>s. s) (Dir [(''a'', Dir [(''manifest.json'', File ''hi'')])]) []) = Some [Unlisted_file ''a/manifest.json'']"
  by code_simp

end
