(* ===== verification/Registry_Quarantine.thy ===== *)
theory Registry_Quarantine
  imports Packs Rate_Limit "HOL-Library.Sublist"
begin

text \<open>
  \<open>services/registry_quarantine.py\<close>: the life of a pack fetched from a remote registry
  (fetched, verified or quarantined, activated, rejected, rolled back), the trusted signing
  keys, and the limits on fetching. Parameters: \<open>sha\<close> (the hexadecimal SHA-256 of a
  text), \<open>ed pem sig data\<close> (whether the PEM text holds an Ed25519 key under which the
  signature of the data verifies) and whether the cryptography library is there
  (\<open>hc\<close>) and whether the pack scanner could be imported (\<open>pa\<close>). A file is absent, unreadable, or its rows, where a row that does not decode is
  \<open>None\<close>; a boolean of a call says whether writing the file succeeds.
\<close>

definition FEATURE_FLAG :: string where
  "FEATURE_FLAG = ''OPENCLAW_ENABLE_REGISTRY_SYNC''"

definition is_registry_sync_enabled :: "env \<Rightarrow> bool" where
  "is_registry_sync_enabled env \<longleftrightarrow>
     py_lower (py_strip (case env FEATURE_FLAG of None \<Rightarrow> [] | Some v \<Rightarrow> v)) \<in> set [''1'', ''true'', ''yes'', ''on'']"

definition Q_FETCHED :: string where "Q_FETCHED = ''fetched''"
definition Q_VERIFIED :: string where "Q_VERIFIED = ''verified''"
definition Q_QUARANTINED :: string where "Q_QUARANTINED = ''quarantined''"
definition Q_ACTIVATED :: string where "Q_ACTIVATED = ''activated''"
definition Q_REJECTED :: string where "Q_REJECTED = ''rejected''"
definition Q_ROLLED_BACK :: string where "Q_ROLLED_BACK = ''rolled_back''"

lemmas q_states = Q_FETCHED_def Q_VERIFIED_def Q_QUARANTINED_def Q_ACTIVATED_def Q_REJECTED_def Q_ROLLED_BACK_def

datatype audit_detail = Note string | Violation pack_error

record audit_row =
  au_action :: string
  au_timestamp :: time
  au_detail :: audit_detail

record registry_entry =
  re_name :: string
  re_version :: string
  re_source_url :: string
  re_state :: string
  re_sha256 :: string
  re_signature :: string
  re_provenance :: string
  re_fetched_at :: time
  re_verified_at :: time
  re_activated_at :: time
  re_rejected_at :: time
  re_rejection_reason :: string
  re_audit_trail :: "audit_row list"

definition add_audit :: "time \<Rightarrow> string \<Rightarrow> audit_detail \<Rightarrow> registry_entry \<Rightarrow> registry_entry" where
  "add_audit now action detail e =
     e\<lparr>re_audit_trail := re_audit_trail e @ [\<lparr>au_action = action, au_timestamp = now, au_detail = detail\<rparr>]\<rparr>"

datatype registry_error = Sync_disabled | Duplicate_fetch string | Global_limit | Client_limit string | Entry_limit
  | No_entry string | Cannot_verify string | No_file_path | File_not_found | Cannot_activate string
  | Reject_activated | Cannot_rollback string | Cannot_remove string | Persist_failed

subsection \<open>Base 64\<close>

text \<open>\<open>base64.b64decode\<close> without validation: characters outside the alphabet are skipped.\<close>

definition b64_value :: "char \<Rightarrow> nat option" where
  "b64_value c = (let n = (of_char c :: nat) in
     if is_upper c then Some (n - 65) else if is_lower c then Some (n - 71) else if is_digit c then Some (n + 4)
     else if c = CHR ''+'' then Some 62 else if c = CHR ''/'' then Some 63 else None)"

fun b64_go :: "string \<Rightarrow> nat \<Rightarrow> nat \<Rightarrow> nat \<Rightarrow> string option" where
  "b64_go [] quad left pads = (if quad = 0 then Some [] else None)"
| "b64_go (c # s) quad left pads =
     (if c = CHR ''='' then
        (if 2 \<le> quad \<and> 4 \<le> quad + (pads + 1) then Some []
         else b64_go s quad left (if 2 \<le> quad then pads + 1 else pads))
      else (case b64_value c of
         None \<Rightarrow> b64_go s quad left pads
       | Some v \<Rightarrow>
           (if quad = 0 then b64_go s 1 v 0
            else if quad = 1 then map_option ((#) (char_of (left * 4 + v div 16))) (b64_go s 2 (v mod 16) 0)
            else if quad = 2 then map_option ((#) (char_of (left * 16 + v div 4))) (b64_go s 3 (v mod 4) 0)
            else map_option ((#) (char_of (left * 64 + v))) (b64_go s 0 0 0))))"

definition b64decode :: "string \<Rightarrow> string option" where
  "b64decode s = (if list_all (\<lambda>c. (of_char c :: nat) < 128) s then b64_go s 0 0 0 else None)"

subsection \<open>Trust roots\<close>

record trust_root =
  tr_key_id :: string
  tr_public_key_pem :: string
  tr_fingerprint :: string
  tr_valid_from :: time
  tr_valid_until :: time
  tr_revoked :: bool
  tr_revocation_reason :: string
  tr_added_at :: time

record trust_store =
  ts_roots :: "(string, trust_root) dict"
  ts_roots_file :: "trust_root json_file"

fun load_roots :: "(string \<times> trust_root option) list \<Rightarrow> (string, trust_root) dict \<Rightarrow> (string, trust_root) dict" where
  "load_roots [] d = d"
| "load_roots ((k, None) # rows) d = d"
| "load_roots ((k, Some r) # rows) d = load_roots rows (dput k r d)"

definition open_trust_store :: "trust_root json_file \<Rightarrow> trust_store" where
  "open_trust_store f = \<lparr>ts_roots = (case f of F_rows rows \<Rightarrow> load_roots rows [] | _ \<Rightarrow> []), ts_roots_file = f\<rparr>"

definition save_roots :: "bool \<Rightarrow> trust_store \<Rightarrow> trust_store" where
  "save_roots io s = (if io then s\<lparr>ts_roots_file := F_rows (map (\<lambda>(k, r). (k, Some r)) (ts_roots s))\<rparr> else s)"

definition add_root :: "(string \<Rightarrow> string) \<Rightarrow> bool \<Rightarrow> time \<Rightarrow> trust_root \<Rightarrow> trust_store \<Rightarrow> trust_store" where
  "add_root sha io now r s =
    (let r = (if tr_added_at r = 0 then r\<lparr>tr_added_at := now\<rparr> else r);
         r = (if tr_fingerprint r = [] \<and> tr_public_key_pem r \<noteq> []
              then r\<lparr>tr_fingerprint := take 16 (sha (tr_public_key_pem r))\<rparr> else r)
     in save_roots io (s\<lparr>ts_roots := dput (tr_key_id r) r (ts_roots s)\<rparr>))"

definition revoke_root :: "bool \<Rightarrow> string \<Rightarrow> string \<Rightarrow> trust_store \<Rightarrow> bool \<times> trust_store" where
  "revoke_root io key_id reason s = (case dget (ts_roots s) key_id of
     None \<Rightarrow> (False, s)
   | Some r \<Rightarrow> (True, save_roots io
       (s\<lparr>ts_roots := dput key_id (r\<lparr>tr_revoked := True, tr_revocation_reason := reason\<rparr>) (ts_roots s)\<rparr>)))"

definition root_active :: "time \<Rightarrow> trust_root \<Rightarrow> bool" where
  "root_active now r \<longleftrightarrow> \<not> tr_revoked r \<and> \<not> (tr_valid_from r \<noteq> 0 \<and> now < tr_valid_from r)
     \<and> \<not> (tr_valid_until r \<noteq> 0 \<and> now > tr_valid_until r)"

definition get_active_roots :: "time \<Rightarrow> trust_store \<Rightarrow> trust_root list" where
  "get_active_roots now s = filter (root_active now) (dvals (ts_roots s))"

definition get_root :: "string \<Rightarrow> trust_store \<Rightarrow> trust_root option" where
  "get_root key_id s = dget (ts_roots s) key_id"

definition list_roots :: "trust_store \<Rightarrow> trust_root list" where
  "list_roots s = dvals (ts_roots s)"

definition quoted :: "string \<Rightarrow> string" where
  "quoted s = [CHR 0x27] @ s @ [CHR 0x27]"

definition first_verifying :: "(string \<Rightarrow> string \<Rightarrow> string \<Rightarrow> bool) \<Rightarrow> string \<Rightarrow> string \<Rightarrow> trust_root list \<Rightarrow> bool \<times> string" where
  "first_verifying ed sig data candidates =
    (if candidates = [] then (False, ''S61: No active trust roots configured'')
     else (case find (\<lambda>r. ed (tr_public_key_pem r) sig data) candidates of
         Some r \<Rightarrow> (True, ''S61: Signature verified with key '' @ quoted (tr_key_id r))
       | None \<Rightarrow> (False, ''S61: Signature verification failed against all active trust roots'')))"

definition verify_signature ::
  "bool \<Rightarrow> (string \<Rightarrow> string \<Rightarrow> string \<Rightarrow> bool) \<Rightarrow> time \<Rightarrow> string \<Rightarrow> string \<Rightarrow> string option \<Rightarrow> trust_store \<Rightarrow> bool \<times> string" where
  "verify_signature hc ed now data signature_b64 key_id s =
    (if signature_b64 = [] then (False, ''S61: Missing signature'')
     else if \<not> hc then (False, ''S61: cryptography library not available (fail-closed)'')
     else (case b64decode signature_b64 of
         None \<Rightarrow> (False, ''S61: Invalid signature encoding (not valid base64)'')
       | Some sig \<Rightarrow>
          (case key_id of
             Some (c # cs) \<Rightarrow>
               (case dget (ts_roots s) (c # cs) of
                  None \<Rightarrow> (False, ''S61: Unknown key_id '' @ quoted (c # cs))
                | Some r \<Rightarrow>
                    if tr_revoked r
                    then (False, ''S61: Key '' @ quoted (c # cs) @ '' has been revoked: '' @ tr_revocation_reason r)
                    else first_verifying ed sig data [r])
           | _ \<Rightarrow> first_verifying ed sig data (get_active_roots now s))))"

subsection \<open>The quarantine store\<close>

definition MAX_ENTRIES :: nat where "MAX_ENTRIES = 200"
definition DEDUPE_WINDOW :: time where "DEDUPE_WINDOW = 60"

record quarantine =
  qs_entries :: "(string, registry_entry) dict"
  qs_file :: "registry_entry json_file"
  qs_dedupe :: "(string, time) dict"
  qs_buckets :: "(string, token_bucket) dict"
  qs_global :: token_bucket
  qs_policy_mode :: string
  qs_trust :: trust_store

definition entry_key :: "string \<Rightarrow> string \<Rightarrow> string" where
  "entry_key name version = name @ ''@'' @ version"

fun load_entries :: "(string \<times> registry_entry option) list \<Rightarrow> (string, registry_entry) dict \<Rightarrow> (string, registry_entry) dict" where
  "load_entries [] d = d"
| "load_entries ((k, None) # rows) d = load_entries rows d"
| "load_entries ((k, Some e) # rows) d = load_entries rows (dput k e d)"

definition open_quarantine :: "env \<Rightarrow> time \<Rightarrow> registry_entry json_file \<Rightarrow> trust_root json_file \<Rightarrow> quarantine" where
  "open_quarantine env now f tf = \<lparr>qs_entries = (case f of F_rows rows \<Rightarrow> load_entries rows [] | _ \<Rightarrow> []), qs_file = f,
     qs_dedupe = [], qs_buckets = [], qs_global = mk_bucket 10 (10 / 60) now,
     qs_policy_mode = py_lower (case env ''OPENCLAW_REGISTRY_POLICY'' of None \<Rightarrow> ''audit'' | Some v \<Rightarrow> v),
     qs_trust = open_trust_store tf\<rparr>"

definition saved :: "bool \<Rightarrow> 'a \<Rightarrow> quarantine \<Rightarrow> (registry_error + 'a) \<times> quarantine" where
  "saved io r s = (if io then (Inr r, s\<lparr>qs_file := F_rows (map (\<lambda>(k, e). (k, Some e)) (qs_entries s))\<rparr>) else (Inl Persist_failed, s))"

definition put_entry :: "string \<Rightarrow> registry_entry \<Rightarrow> quarantine \<Rightarrow> quarantine" where
  "put_entry key e s = s\<lparr>qs_entries := dput key e (qs_entries s)\<rparr>"

definition check_abuse :: "time \<Rightarrow> string \<Rightarrow> string \<Rightarrow> quarantine \<Rightarrow> registry_error option \<times> quarantine" where
  "check_abuse now source_url client s =
    (if source_url \<noteq> [] \<and> now - (case dget (qs_dedupe s) source_url of None \<Rightarrow> 0 | Some t \<Rightarrow> t) < DEDUPE_WINDOW
     then (Some (Duplicate_fetch source_url), s)
     else
       let (ok, g) = consume_one now (qs_global s); s = s\<lparr>qs_global := g\<rparr> in
       if \<not> ok then (Some Global_limit, s)
       else
         let (ok, s) = (if client \<noteq> [] \<and> client \<noteq> ''global''
              then let (ok, b) = consume_one now (case dget (qs_buckets s) client of
                         None \<Rightarrow> mk_bucket 5 (5 / 60) now | Some b \<Rightarrow> b)
                   in (ok, s\<lparr>qs_buckets := dput client b (qs_buckets s)\<rparr>)
              else (True, s)) in
         if \<not> ok then (Some (Client_limit client), s)
         else (None, if source_url \<noteq> [] then s\<lparr>qs_dedupe := dput source_url now (qs_dedupe s)\<rparr> else s))"

definition prune_due :: "time \<Rightarrow> registry_entry \<Rightarrow> bool" where
  "prune_due now e \<longleftrightarrow> re_state e \<in> set [Q_REJECTED, Q_ROLLED_BACK]
     \<and> now - (if re_rejected_at e \<noteq> 0 then re_rejected_at e else re_fetched_at e) > 7 * 24 * 3600"

definition prune_stale_entries :: "bool \<Rightarrow> time \<Rightarrow> quarantine \<Rightarrow> (registry_error + nat) \<times> quarantine" where
  "prune_stale_entries io now s =
    (let s = s\<lparr>qs_dedupe := ddel_all (dkeys (filter (\<lambda>(k, v). now - v > DEDUPE_WINDOW * 2) (qs_dedupe s))) (qs_dedupe s)\<rparr>;
         to_remove = dkeys (filter (\<lambda>(k, e). prune_due now e) (qs_entries s));
         s = s\<lparr>qs_entries := ddel_all to_remove (qs_entries s)\<rparr>
     in if 0 < length to_remove then saved io (length to_remove) s else (Inr 0, s))"

definition fetched_entry :: "time \<Rightarrow> string \<Rightarrow> string \<Rightarrow> string \<Rightarrow> string \<Rightarrow> string \<Rightarrow> string \<Rightarrow> registry_entry" where
  "fetched_entry now name version source_url sha256 signature provenance =
    add_audit now ''fetch'' (Note (''Fetched from '' @ source_url))
      \<lparr>re_name = name, re_version = version, re_source_url = source_url, re_state = Q_FETCHED, re_sha256 = sha256,
       re_signature = signature, re_provenance = provenance, re_fetched_at = now, re_verified_at = 0,
       re_activated_at = 0, re_rejected_at = 0, re_rejection_reason = [], re_audit_trail = []\<rparr>"

text \<open>The two booleans: whether the writes of the pruning and of the new entry succeed.\<close>

definition register_fetch ::
  "env \<Rightarrow> bool \<times> bool \<Rightarrow> time \<Rightarrow> string \<Rightarrow> string \<Rightarrow> string \<Rightarrow> string \<Rightarrow> string \<Rightarrow> string \<Rightarrow> string \<Rightarrow> quarantine \<Rightarrow>
   (registry_error + registry_entry) \<times> quarantine" where
  "register_fetch env io now name version source_url sha256 signature provenance request_context s =
    (if \<not> is_registry_sync_enabled env then (Inl Sync_disabled, s)
     else (case check_abuse now source_url request_context s of
        (Some e, s) \<Rightarrow> (Inl e, s)
      | (None, s) \<Rightarrow>
         (case prune_stale_entries (fst io) now s of
            (Inl e, s) \<Rightarrow> (Inl e, s)
          | (Inr _, s) \<Rightarrow>
              if length (qs_entries s) \<ge> MAX_ENTRIES then (Inl Entry_limit, s)
              else let e = fetched_entry now name version source_url sha256 signature provenance in
                saved (snd io) e (put_entry (entry_key name version) e s))))"

text \<open>The local file given to the integrity check: no path, no such file, not a zip file, or its members.\<close>

datatype pack_file = No_path | Absent | Not_zip | Zip "zip_info list"

definition scan_violation :: "pack_file \<Rightarrow> pack_error option" where
  "scan_violation f = (case f of Zip infos \<Rightarrow> check_code_safety infos | _ \<Rightarrow> Some Other_error)"

definition signed_data :: "registry_entry \<Rightarrow> string" where
  "signed_data e = re_name e @ ''@'' @ re_version e @ '':'' @ re_sha256 e"

definition verify_entry_signature ::
  "bool \<Rightarrow> (string \<Rightarrow> string \<Rightarrow> string \<Rightarrow> bool) \<Rightarrow> time \<Rightarrow> registry_entry \<Rightarrow> trust_store \<Rightarrow> bool \<times> string" where
  "verify_entry_signature hc ed now e t = (if re_signature e = [] then (False, ''Missing signature'')
     else verify_signature hc ed now (signed_data e) (re_signature e) None t)"

text \<open>The tests of the hash and the signature, on the entry whose scan has been recorded.\<close>

definition verify_content ::
  "bool \<Rightarrow> (string \<Rightarrow> string \<Rightarrow> string \<Rightarrow> bool) \<Rightarrow> bool \<Rightarrow> time \<Rightarrow> string \<Rightarrow> string \<Rightarrow> registry_entry \<Rightarrow> quarantine \<Rightarrow>
   (registry_error + bool) \<times> quarantine" where
  "verify_content hc ed io now key actual_sha256 e s =
    (if actual_sha256 = re_sha256 e then
       let (sig_ok, sig_msg) = verify_entry_signature hc ed now e (qs_trust s) in
       if \<not> sig_ok \<and> qs_policy_mode s = ''strict'' then
         saved io False (put_entry key (add_audit now ''verify_failed'' (Note (''Signature policy failed: '' @ sig_msg))
           (e\<lparr>re_state := Q_QUARANTINED\<rparr>)) s)
       else
         let e = (if sig_ok then e else add_audit now ''policy_warning'' (Note (''Signature check failed: '' @ sig_msg)) e) in
         saved io True (put_entry key (add_audit now ''verify'' (Note ''Integrity check passed'')
           (e\<lparr>re_state := Q_VERIFIED, re_verified_at := now\<rparr>)) s)
     else saved io False (put_entry key (add_audit now ''verify_failed''
         (Note (''Hash mismatch: expected '' @ re_sha256 e @ '', got '' @ actual_sha256)) (e\<lparr>re_state := Q_QUARANTINED\<rparr>)) s))"

text \<open>
  The argument \<open>pa\<close> says whether the module \<open>pack_archive\<close> could be imported; where it could not
  (\<open>PackArchive = None\<close>) the file is neither looked for nor scanned.
\<close>

definition verify_integrity ::
  "env \<Rightarrow> bool \<Rightarrow> bool \<Rightarrow> (string \<Rightarrow> string \<Rightarrow> string \<Rightarrow> bool) \<Rightarrow> bool \<Rightarrow> time \<Rightarrow> string \<Rightarrow> string \<Rightarrow> string \<Rightarrow> pack_file \<Rightarrow> quarantine \<Rightarrow>
   (registry_error + bool) \<times> quarantine" where
  "verify_integrity env pa hc ed io now name version actual_sha256 file s =
    (let key = entry_key name version in
     if \<not> is_registry_sync_enabled env then (Inl Sync_disabled, s)
     else (case dget (qs_entries s) key of
        None \<Rightarrow> (Inl (No_entry key), s)
      | Some e \<Rightarrow>
          if re_state e \<notin> set [Q_FETCHED, Q_QUARANTINED] then (Inl (Cannot_verify (re_state e)), s)
          else if file = No_path then (Inl No_file_path, s)
          else if \<not> pa then verify_content hc ed io now key actual_sha256 e s
          else if file = Absent then (Inl File_not_found, s)
          else (case scan_violation file of
             None \<Rightarrow> verify_content hc ed io now key actual_sha256
                 (add_audit now ''preflight_scan'' (Note ''Code safety check passed'') e) s
           | Some v \<Rightarrow>
               if qs_policy_mode s = ''strict'' then
                 saved io False (put_entry key (add_audit now ''preflight_failed'' (Violation v) (e\<lparr>re_state := Q_QUARANTINED\<rparr>)) s)
               else verify_content hc ed io now key actual_sha256 (add_audit now ''policy_warning'' (Violation v) e) s)))"

definition activate :: "env \<Rightarrow> bool \<Rightarrow> time \<Rightarrow> string \<Rightarrow> string \<Rightarrow> quarantine \<Rightarrow> (registry_error + registry_entry) \<times> quarantine" where
  "activate env io now name version s =
    (let key = entry_key name version in
     if \<not> is_registry_sync_enabled env then (Inl Sync_disabled, s)
     else (case dget (qs_entries s) key of
        None \<Rightarrow> (Inl (No_entry key), s)
      | Some e \<Rightarrow>
          if re_state e \<noteq> Q_VERIFIED then (Inl (Cannot_activate (re_state e)), s)
          else let e = add_audit now ''activate'' (Note ''Operator-approved activation'')
                 (e\<lparr>re_state := Q_ACTIVATED, re_activated_at := now\<rparr>) in
            saved io e (put_entry key e s)))"

definition or_note :: "string \<Rightarrow> string \<Rightarrow> audit_detail" where
  "or_note reason dflt = Note (if reason = [] then dflt else reason)"

definition reject :: "env \<Rightarrow> bool \<Rightarrow> time \<Rightarrow> string \<Rightarrow> string \<Rightarrow> string \<Rightarrow> quarantine \<Rightarrow> (registry_error + registry_entry) \<times> quarantine" where
  "reject env io now name version reason s =
    (let key = entry_key name version in
     if \<not> is_registry_sync_enabled env then (Inl Sync_disabled, s)
     else (case dget (qs_entries s) key of
        None \<Rightarrow> (Inl (No_entry key), s)
      | Some e \<Rightarrow>
          if re_state e = Q_ACTIVATED then (Inl Reject_activated, s)
          else let e = add_audit now ''reject'' (or_note reason ''Operator rejected'')
                 (e\<lparr>re_state := Q_REJECTED, re_rejected_at := now, re_rejection_reason := reason\<rparr>) in
            saved io e (put_entry key e s)))"

definition rollback :: "env \<Rightarrow> bool \<Rightarrow> time \<Rightarrow> string \<Rightarrow> string \<Rightarrow> string \<Rightarrow> quarantine \<Rightarrow> (registry_error + registry_entry) \<times> quarantine" where
  "rollback env io now name version reason s =
    (let key = entry_key name version in
     if \<not> is_registry_sync_enabled env then (Inl Sync_disabled, s)
     else (case dget (qs_entries s) key of
        None \<Rightarrow> (Inl (No_entry key), s)
      | Some e \<Rightarrow>
          if re_state e \<noteq> Q_ACTIVATED then (Inl (Cannot_rollback (re_state e)), s)
          else let e = add_audit now ''rollback'' (or_note reason ''Operator-initiated rollback'') (e\<lparr>re_state := Q_ROLLED_BACK\<rparr>) in
            saved io e (put_entry key e s)))"

definition get_entry :: "string \<Rightarrow> string \<Rightarrow> quarantine \<Rightarrow> registry_entry option" where
  "get_entry name version s = dget (qs_entries s) (entry_key name version)"

definition list_entries :: "string option \<Rightarrow> quarantine \<Rightarrow> registry_entry list" where
  "list_entries state_filter s = (let entries = dvals (qs_entries s) in
     case state_filter of Some (c # cs) \<Rightarrow> filter (\<lambda>e. re_state e = c # cs) entries | _ \<Rightarrow> entries)"

definition remove_entry :: "env \<Rightarrow> bool \<Rightarrow> string \<Rightarrow> string \<Rightarrow> quarantine \<Rightarrow> (registry_error + bool) \<times> quarantine" where
  "remove_entry env io name version s =
    (let key = entry_key name version in
     if \<not> is_registry_sync_enabled env then (Inl Sync_disabled, s)
     else (case dget (qs_entries s) key of
        None \<Rightarrow> (Inr False, s)
      | Some e \<Rightarrow>
          if re_state e \<notin> set [Q_REJECTED, Q_ROLLED_BACK] then (Inl (Cannot_remove (re_state e)), s)
          else saved io True (s\<lparr>qs_entries := ddel key (qs_entries s)\<rparr>)))"

subsection \<open>The operations as steps\<close>

datatype registry_op =
    R_fetch "bool \<times> bool" time string string string string string string string
  | R_verify bool bool time string string string pack_file
  | R_activate bool time string string
  | R_reject bool time string string string
  | R_rollback bool time string string string
  | R_remove bool string string
  | R_add_root bool time trust_root
  | R_revoke_root bool string string

definition on_trust :: "(trust_store \<Rightarrow> trust_store) \<Rightarrow> quarantine \<Rightarrow> quarantine" where
  "on_trust f s = s\<lparr>qs_trust := f (qs_trust s)\<rparr>"

fun registry_step :: "bool \<Rightarrow> (string \<Rightarrow> string) \<Rightarrow> (string \<Rightarrow> string \<Rightarrow> string \<Rightarrow> bool) \<Rightarrow> env \<times> registry_op \<Rightarrow> quarantine \<Rightarrow> quarantine" where
  "registry_step pa sha ed (env, R_fetch io now name version url sha256 signature provenance client) s =
     snd (register_fetch env io now name version url sha256 signature provenance client s)"
| "registry_step pa sha ed (env, R_verify hc io now name version actual file) s =
     snd (verify_integrity env pa hc ed io now name version actual file s)"
| "registry_step pa sha ed (env, R_activate io now name version) s = snd (activate env io now name version s)"
| "registry_step pa sha ed (env, R_reject io now name version reason) s = snd (reject env io now name version reason s)"
| "registry_step pa sha ed (env, R_rollback io now name version reason) s = snd (rollback env io now name version reason s)"
| "registry_step pa sha ed (env, R_remove io name version) s = snd (remove_entry env io name version s)"
| "registry_step pa sha ed (env, R_add_root io now r) s = on_trust (add_root sha io now r) s"
| "registry_step pa sha ed (env, R_revoke_root io key_id reason) s = on_trust (snd \<circ> revoke_root io key_id reason) s"

subsection \<open>Vetted entries\<close>

definition actions :: "registry_entry \<Rightarrow> string list" where
  "actions e = map au_action (re_audit_trail e)"

text \<open>
  A key of the trust store verifies the entry: \<open>T t r\<close> says that the root \<open>r\<close> was trusted when the
  clock showed \<open>t\<close>, and the time looked at is that of the entry's verification.
\<close>

definition signed_by_trusted_key :: "(string \<Rightarrow> string \<Rightarrow> string \<Rightarrow> bool) \<Rightarrow> (time \<Rightarrow> trust_root \<Rightarrow> bool) \<Rightarrow> registry_entry \<Rightarrow> bool" where
  "signed_by_trusted_key ed T e \<longleftrightarrow>
     (\<exists>r sig. T (re_verified_at e) r \<and> b64decode (re_signature e) = Some sig \<and> ed (tr_public_key_pem r) sig (signed_data e))"

definition scan_actions :: "bool \<Rightarrow> string list" where
  "scan_actions pa = (if pa then [''preflight_scan''] else [])"

definition entry_vetted :: "bool \<Rightarrow> (string \<Rightarrow> string \<Rightarrow> string \<Rightarrow> bool) \<Rightarrow> (time \<Rightarrow> trust_root \<Rightarrow> bool) \<Rightarrow> registry_entry \<Rightarrow> bool" where
  "entry_vetted pa ed T e \<longleftrightarrow>
     (re_state e = Q_VERIFIED \<longrightarrow> signed_by_trusted_key ed T e \<and> subseq (scan_actions pa @ [''verify'']) (actions e))
   \<and> (re_state e = Q_ACTIVATED \<longrightarrow> signed_by_trusted_key ed T e \<and> subseq (scan_actions pa @ [''verify'', ''activate'']) (actions e))"

definition registry_inv :: "bool \<Rightarrow> (string \<Rightarrow> string \<Rightarrow> string \<Rightarrow> bool) \<Rightarrow> (time \<Rightarrow> trust_root \<Rightarrow> bool) \<Rightarrow> quarantine \<Rightarrow> bool" where
  "registry_inv pa ed T s \<longleftrightarrow> dict_ok (qs_entries s) \<and> length (qs_entries s) \<le> MAX_ENTRIES
     \<and> (qs_policy_mode s = ''strict'' \<longrightarrow> (\<forall>k e. dget (qs_entries s) k = Some e \<longrightarrow> entry_vetted pa ed T e))"

definition trusted_roots :: "quarantine \<Rightarrow> time \<Rightarrow> trust_root \<Rightarrow> bool" where
  "trusted_roots s t r \<longleftrightarrow> r \<in> set (get_active_roots t (qs_trust s))"

text \<open>The root was one of the store's active roots before one of the operations.\<close>

definition trusted_during :: "bool \<Rightarrow> (string \<Rightarrow> string) \<Rightarrow> (string \<Rightarrow> string \<Rightarrow> string \<Rightarrow> bool) \<Rightarrow> (env \<times> registry_op) list \<Rightarrow> quarantine \<Rightarrow> time \<Rightarrow> trust_root \<Rightarrow> bool" where
  "trusted_during pa sha ed ops s t r \<longleftrightarrow> (\<exists>k<length ops. trusted_roots (fold (registry_step pa sha ed) (take k ops) s) t r)"

lemma vetted_mono: "entry_vetted pa ed T e \<Longrightarrow> (\<And>t r. T t r \<Longrightarrow> U t r) \<Longrightarrow> entry_vetted pa ed U e"
  by (auto simp: entry_vetted_def signed_by_trusted_key_def)

lemma inv_mono: "registry_inv pa ed T s \<Longrightarrow> (\<And>t r. T t r \<Longrightarrow> U t r) \<Longrightarrow> registry_inv pa ed U s"
  unfolding registry_inv_def using vetted_mono [of pa ed T _ U] by blast

lemma saved_fields [simp]: "qs_entries (snd (saved io r s)) = qs_entries s" "qs_trust (snd (saved io r s)) = qs_trust s"
  "qs_policy_mode (snd (saved io r s)) = qs_policy_mode s" "qs_dedupe (snd (saved io r s)) = qs_dedupe s"
  "qs_global (snd (saved io r s)) = qs_global s" "qs_buckets (snd (saved io r s)) = qs_buckets s"
  by (simp_all add: saved_def)

lemma saved_inv [simp]: "registry_inv pa ed T (snd (saved io r s)) = registry_inv pa ed T s"
  by (simp add: registry_inv_def)

lemma put_entry_fields [simp]: "qs_entries (put_entry key e s) = dput key e (qs_entries s)" "qs_trust (put_entry key e s) = qs_trust s"
  "qs_policy_mode (put_entry key e s) = qs_policy_mode s" "qs_dedupe (put_entry key e s) = qs_dedupe s"
  "qs_global (put_entry key e s) = qs_global s"
  by (simp_all add: put_entry_def)

text \<open>Replacing an entry keeps the invariant if the new one is vetted; so does a new one where there is room.\<close>

lemma put_entry_inv:
  assumes "registry_inv pa ed T s" and "dget (qs_entries s) key \<noteq> None \<or> length (qs_entries s) < MAX_ENTRIES"
    and "qs_policy_mode s = ''strict'' \<Longrightarrow> entry_vetted pa ed T e"
  shows "registry_inv pa ed T (put_entry key e s)"
  using assms by (auto simp: registry_inv_def dict_simps)

lemma actions_add_audit [simp]: "actions (add_audit now a d e) = actions e @ [a]"
  by (simp add: actions_def add_audit_def)

lemma add_audit_fields [simp]: "re_state (add_audit now a d e) = re_state e" "re_signature (add_audit now a d e) = re_signature e"
  "re_verified_at (add_audit now a d e) = re_verified_at e" "signed_data (add_audit now a d e) = signed_data e" "re_sha256 (add_audit now a d e) = re_sha256 e"
  by (simp_all add: add_audit_def signed_data_def)

lemma signed_add_audit [simp]: "signed_by_trusted_key ed T (add_audit now a d e) = signed_by_trusted_key ed T e"
  by (simp add: signed_by_trusted_key_def)

lemma signed_update [simp]: "signed_by_trusted_key ed T (e\<lparr>re_state := x\<rparr>) = signed_by_trusted_key ed T e"
  "signed_by_trusted_key ed T (e\<lparr>re_activated_at := t\<rparr>) = signed_by_trusted_key ed T e"
  "actions (e\<lparr>re_state := x\<rparr>) = actions e" "actions (e\<lparr>re_verified_at := t\<rparr>) = actions e"
  "actions (e\<lparr>re_activated_at := t\<rparr>) = actions e"
  by (simp_all add: signed_by_trusted_key_def signed_data_def actions_def)

lemma vetted_other: "re_state e \<notin> {Q_VERIFIED, Q_ACTIVATED} \<Longrightarrow> entry_vetted pa ed T e"
  by (simp add: entry_vetted_def)

lemma subseq_snoc: "subseq xs ys \<Longrightarrow> subseq (xs @ [a]) (ys @ [a])"
  by (simp add: list_emb_append_mono)

text \<open>What a good signature shows: an active root verifies the entry.\<close>

lemma first_verifying_true: "fst (first_verifying ed sig data rs) \<Longrightarrow> \<exists>r \<in> set rs. ed (tr_public_key_pem r) sig data"
  by (auto simp: first_verifying_def find_Some_iff split: if_splits option.splits dest: nth_mem)

lemma verify_signature_true:
  assumes "fst (verify_signature hc ed now data sb kid t)" and ok: "dict_ok (ts_roots t)"
  shows "\<exists>sig r k. b64decode sb = Some sig \<and> dget (ts_roots t) k = Some r \<and> \<not> tr_revoked r \<and> ed (tr_public_key_pem r) sig data"
proof -
  have act: "\<exists>k. dget (ts_roots t) k = Some r \<and> \<not> tr_revoked r" if "r \<in> set (get_active_roots now t)" for r
    using that ok by (force simp: get_active_roots_def root_active_def dvals_def dget_iff)
  obtain sig where sig: "b64decode sb = Some sig" using assms(1) by (auto simp: verify_signature_def split: if_splits option.splits)
  then consider rs where "fst (first_verifying ed sig data rs)" "rs = get_active_roots now t"
    | r k where "fst (first_verifying ed sig data [r])" "dget (ts_roots t) k = Some r" "\<not> tr_revoked r"
    using assms(1) by (auto simp: verify_signature_def split: if_splits option.splits list.splits)
  then show ?thesis using sig act by cases (fastforce dest!: first_verifying_true)+
qed

lemma entry_signature_true:
  assumes "fst (verify_entry_signature hc ed now e t)"
  shows "\<exists>sig. \<exists>r \<in> set (get_active_roots now t). b64decode (re_signature e) = Some sig \<and> ed (tr_public_key_pem r) sig (signed_data e)"
  using assms by (auto simp: verify_entry_signature_def verify_signature_def split: if_splits option.splits dest!: first_verifying_true)

lemma signed_when_verified:
  assumes "fst (verify_entry_signature hc ed now e (qs_trust s))" and "\<And>t r. trusted_roots s t r \<Longrightarrow> T t r"
  shows "signed_by_trusted_key ed T (e\<lparr>re_state := x, re_verified_at := now\<rparr>)"
  using entry_signature_true [OF assms(1)] assms(2) by (auto simp: signed_by_trusted_key_def trusted_roots_def signed_data_def)

subsection \<open>Every operation keeps the invariant\<close>

lemma check_abuse_entries [simp]: "qs_entries (snd (check_abuse now url client s)) = qs_entries s"
  "qs_policy_mode (snd (check_abuse now url client s)) = qs_policy_mode s" "qs_trust (snd (check_abuse now url client s)) = qs_trust s"
  by (auto simp: check_abuse_def Let_def split: prod.split)

lemma check_abuse_inv [simp]: "registry_inv pa ed T (snd (check_abuse now url client s)) = registry_inv pa ed T s"
  by (simp add: registry_inv_def)

lemma ddel_all_inv: "registry_inv pa ed T s \<Longrightarrow> registry_inv pa ed T (s\<lparr>qs_entries := ddel_all ks (qs_entries s)\<rparr>)"
  by (auto simp: registry_inv_def dict_simps ddel_all_filter intro: le_trans [OF length_filter_le])

lemma prune_inv: "registry_inv pa ed T s \<Longrightarrow> registry_inv pa ed T (snd (prune_stale_entries io now s))"
  using ddel_all_inv [of pa ed T "s\<lparr>qs_dedupe := x\<rparr>" for x]
  by (simp add: prune_stale_entries_def Let_def) (simp add: registry_inv_def)

lemma register_fetch_inv:
  assumes "registry_inv pa ed T s"
  shows "registry_inv pa ed T (snd (register_fetch env io now name version url sha256 signature provenance client s))"
proof (cases "check_abuse now url client s")
  case (Pair r s1)
  then have s1: "registry_inv pa ed T s1" using assms check_abuse_inv [of pa ed T now url client s] by simp
  obtain r2 s2 where s2: "prune_stale_entries (fst io) now s1 = (r2, s2)" by fastforce
  then have "registry_inv pa ed T s2" using prune_inv [OF s1, of "fst io" now] by simp
  moreover have "entry_vetted pa ed T (fetched_entry now name version url sha256 signature provenance)"
    by (rule vetted_other) (simp add: fetched_entry_def q_states)
  ultimately show ?thesis using Pair assms s1 s2
    by (auto simp: register_fetch_def Let_def intro!: put_entry_inv split: option.split sum.split)
qed

lemma verify_content_inv:
  assumes "registry_inv pa ed T s" and "dget (qs_entries s) key \<noteq> None" and "\<And>t r. trusted_roots s t r \<Longrightarrow> T t r"
    and "qs_policy_mode s = ''strict'' \<Longrightarrow> subseq (scan_actions pa) (actions e)"
  shows "registry_inv pa ed T (snd (verify_content hc ed io now key actual e s))"
proof -
  have "entry_vetted pa ed T (add_audit now ''verify'' d (e\<lparr>re_state := Q_VERIFIED, re_verified_at := now\<rparr>))"
    if "qs_policy_mode s = ''strict''" "fst (verify_entry_signature hc ed now e (qs_trust s))" for d
    using subseq_snoc [OF assms(4) [OF that(1)], of "''verify''"] signed_when_verified [OF that(2) assms(3)]
    by (simp add: entry_vetted_def q_states)
  moreover have "entry_vetted pa ed T (add_audit now a d (e\<lparr>re_state := Q_QUARANTINED\<rparr>))" for a d
    by (rule vetted_other) (simp add: q_states)
  ultimately show ?thesis using assms(1,2)
    by (auto simp: verify_content_def Let_def intro!: put_entry_inv split: prod.split)
qed

lemma verify_integrity_inv:
  assumes "registry_inv pa ed T s" and "\<And>t r. trusted_roots s t r \<Longrightarrow> T t r"
  shows "registry_inv pa ed T (snd (verify_integrity env pa hc ed io now name version actual file s))"
proof -
  have "entry_vetted pa ed T (add_audit now a d (e\<lparr>re_state := Q_QUARANTINED\<rparr>))" for a d e
    by (rule vetted_other) (simp add: q_states)
  moreover have "subseq (scan_actions pa) (actions (add_audit now ''preflight_scan'' d e))" for d e
    by (simp add: scan_actions_def subseq_singleton_left)
  moreover have "\<not> pa \<Longrightarrow> subseq (scan_actions pa) (actions e)" for e by (simp add: scan_actions_def)
  ultimately show ?thesis using assms
    by (auto simp: verify_integrity_def Let_def intro!: put_entry_inv verify_content_inv split: option.split)
qed

lemma activate_inv:
  assumes "registry_inv pa ed T s"
  shows "registry_inv pa ed T (snd (activate env io now name version s))"
proof -
  have "entry_vetted pa ed T (add_audit now ''activate'' d (e\<lparr>re_state := Q_ACTIVATED, re_activated_at := now\<rparr>))"
    if "qs_policy_mode s = ''strict''" "dget (qs_entries s) k = Some e" "re_state e = Q_VERIFIED" for k e d
  proof -
    have "signed_by_trusted_key ed T e" "subseq (scan_actions pa @ [''verify'']) (actions e)"
      using assms that by (auto simp: registry_inv_def entry_vetted_def)
    then show ?thesis using subseq_snoc [of "scan_actions pa @ [''verify'']" "actions e" "''activate''"]
      by (simp add: entry_vetted_def q_states)
  qed
  then show ?thesis using assms by (auto simp: activate_def Let_def intro!: put_entry_inv split: option.split)
qed

lemma state_change_inv:
  "registry_inv pa ed T s \<Longrightarrow> registry_inv pa ed T (snd (reject env io now name version reason s))"
  "registry_inv pa ed T s \<Longrightarrow> registry_inv pa ed T (snd (rollback env io now name version reason s))"
  by (auto simp: reject_def rollback_def Let_def q_states intro!: put_entry_inv vetted_other split: option.split)

lemma remove_entry_inv:
  assumes "registry_inv pa ed T s"
  shows "registry_inv pa ed T (snd (remove_entry env io name version s))"
proof -
  have "registry_inv pa ed T (s\<lparr>qs_entries := ddel k (qs_entries s)\<rparr>)" for k
    using ddel_all_inv [OF assms, of "[k]"] by (simp add: ddel_all_def)
  then show ?thesis using assms by (auto simp: remove_entry_def Let_def split: option.split)
qed

lemma on_trust_inv: "registry_inv pa ed T s \<Longrightarrow> registry_inv pa ed T (on_trust f s)"
  by (simp add: registry_inv_def on_trust_def)

lemma registry_step_inv: "registry_inv pa ed T s \<Longrightarrow> (\<And>t r. trusted_roots s t r \<Longrightarrow> T t r) \<Longrightarrow> registry_inv pa ed T (registry_step pa sha ed op s)"
  by (cases "(pa, sha, ed, op, s)" rule: registry_step.cases)
    (simp_all add: register_fetch_inv verify_integrity_inv activate_inv state_change_inv remove_entry_inv on_trust_inv)

lemma register_fetch_mode [simp]:
  "qs_policy_mode (snd (register_fetch env io now name version url sha256 signature provenance client s)) = qs_policy_mode s"
  "qs_trust (snd (register_fetch env io now name version url sha256 signature provenance client s)) = qs_trust s"
proof -
  obtain c s1 where c: "check_abuse now url client s = (c, s1)" by fastforce
  then have "qs_policy_mode s1 = qs_policy_mode s" "qs_trust s1 = qs_trust s"
    using check_abuse_entries(2,3) [of now url client s] by simp_all
  then show "qs_policy_mode (snd (register_fetch env io now name version url sha256 signature provenance client s)) = qs_policy_mode s"
    "qs_trust (snd (register_fetch env io now name version url sha256 signature provenance client s)) = qs_trust s"
    using c by (auto simp: register_fetch_def prune_stale_entries_def saved_def Let_def put_entry_def split: option.split)
qed

lemma verify_integrity_mode [simp]:
  "qs_policy_mode (snd (verify_integrity env pa hc ed io now name version actual file s)) = qs_policy_mode s"
  "qs_trust (snd (verify_integrity env pa hc ed io now name version actual file s)) = qs_trust s"
  by (simp_all add: verify_integrity_def verify_content_def Let_def split: option.split prod.split)

lemma state_change_mode [simp]:
  "qs_policy_mode (snd (activate env io now name version s)) = qs_policy_mode s"
  "qs_trust (snd (activate env io now name version s)) = qs_trust s"
  "qs_policy_mode (snd (reject env io now name version reason s)) = qs_policy_mode s"
  "qs_trust (snd (reject env io now name version reason s)) = qs_trust s"
  "qs_policy_mode (snd (rollback env io now name version reason s)) = qs_policy_mode s"
  "qs_trust (snd (rollback env io now name version reason s)) = qs_trust s"
  "qs_policy_mode (snd (remove_entry env io name version s)) = qs_policy_mode s"
  "qs_trust (snd (remove_entry env io name version s)) = qs_trust s"
  by (simp_all add: activate_def reject_def rollback_def remove_entry_def Let_def split: option.split)

interpretation registry: machine "registry_step pa sha ed" "registry_inv pa ed (\<lambda>_ _. True)"
  by unfold_locales (simp add: registry_step_inv)

lemma registry_run_vetted:
  assumes "registry_inv pa ed T s"
  shows "registry_inv pa ed (\<lambda>t r. T t r \<or> trusted_during pa sha ed ops s t r) (fold (registry_step pa sha ed) ops s)"
proof (induction ops rule: rev_induct)
  case (snoc op ops)
  have "trusted_during pa sha ed ops s t r \<Longrightarrow> trusted_during pa sha ed (ops @ [op]) s t r" for t r
    unfolding trusted_during_def
  proof (elim exE conjE)
    fix k assume "k < length ops" "trusted_roots (fold (registry_step pa sha ed) (take k ops) s) t r"
    then show "\<exists>k<length (ops @ [op]). trusted_roots (fold (registry_step pa sha ed) (take k (ops @ [op])) s) t r"
      by (intro exI [of _ k]) simp
  qed
  moreover have "trusted_roots (fold (registry_step pa sha ed) ops s) t r \<Longrightarrow> trusted_during pa sha ed (ops @ [op]) s t r" for t r
    by (auto simp: trusted_during_def intro!: exI [of _ "length ops"])
  moreover have "registry_inv pa ed (\<lambda>t r. T t r \<or> trusted_during pa sha ed (ops @ [op]) s t r) (fold (registry_step pa sha ed) ops s)"
    by (rule inv_mono [OF snoc.IH]) (use calculation(1) in blast)
  ultimately show ?case by (auto intro!: registry_step_inv)
qed (use inv_mono [OF assms] in simp)

subsection \<open>Limits on fetching\<close>

text \<open>A request: name, version, source, hash, signature, provenance, client.\<close>

type_synonym fetch_request = "string \<times> string \<times> string \<times> string \<times> string \<times> string \<times> string"

fun request_url :: "fetch_request \<Rightarrow> string" where
  "request_url (name, version, url, _) = url"

fun fetch_claim :: "env \<Rightarrow> (time \<Rightarrow> bool \<times> bool) \<Rightarrow> time \<Rightarrow> fetch_request \<Rightarrow> quarantine \<Rightarrow> bool \<times> quarantine" where
  "fetch_claim env io now (name, version, url, sha256, signature, provenance, client) s =
    (let (r, s') = register_fetch env (io now) now name version url sha256 signature provenance client s
     in (case r of Inl _ \<Rightarrow> False | Inr _ \<Rightarrow> True, s'))"

text \<open>The claims that name a source.\<close>

definition sourced_claim :: "env \<Rightarrow> (time \<Rightarrow> bool \<times> bool) \<Rightarrow> time \<Rightarrow> fetch_request \<Rightarrow> quarantine \<Rightarrow> bool \<times> quarantine" where
  "sourced_claim env io now q s = (let (a, s') = fetch_claim env io now q s in (a \<and> request_url q \<noteq> [], s'))"

definition recently_fetched :: "time \<Rightarrow> quarantine \<Rightarrow> string \<Rightarrow> bool" where
  "recently_fetched now s url \<longleftrightarrow> url \<noteq> [] \<and> (case dget (qs_dedupe s) url of None \<Rightarrow> False | Some t \<Rightarrow> now - t < DEDUPE_WINDOW)"

definition dedupe_ok :: "quarantine \<Rightarrow> bool" where
  "dedupe_ok s \<longleftrightarrow> dict_ok (qs_dedupe s)"

lemma prune_fields:
  assumes "dedupe_ok s"
  shows "qs_dedupe (snd (prune_stale_entries io now s)) = filter (\<lambda>(k, v). \<not> now - v > DEDUPE_WINDOW * 2) (qs_dedupe s)"
    and "qs_global (snd (prune_stale_entries io now s)) = qs_global s"
  using ddel_all_matching [of "qs_dedupe s" "\<lambda>(k, v). now - v > DEDUPE_WINDOW * 2"] assms
  by (simp_all add: prune_stale_entries_def Let_def dedupe_ok_def split_def)

lemma prune_recent:
  assumes "dedupe_ok s" and "t \<le> t'"
  shows "dedupe_ok (snd (prune_stale_entries io t s))"
    and "recently_fetched t' s url \<Longrightarrow> recently_fetched t' (snd (prune_stale_entries io t s)) url"
proof -
  show "dedupe_ok (snd (prune_stale_entries io t s))"
    using assms(1) by (auto simp: dedupe_ok_def prune_fields [OF assms(1)])
  assume "recently_fetched t' s url"
  then obtain t0 where "url \<noteq> []" "dget (qs_dedupe s) url = Some t0" "t' - t0 < DEDUPE_WINDOW"
    by (auto simp: recently_fetched_def split: option.splits)
  then show "recently_fetched t' (snd (prune_stale_entries io t s)) url"
    using assms by (simp add: recently_fetched_def prune_fields dget_filter dedupe_ok_def DEDUPE_WINDOW_def)
qed

lemma check_abuse_outcome:
  "(fst (check_abuse now url client s) \<noteq> None \<and> qs_dedupe (snd (check_abuse now url client s)) = qs_dedupe s)
   \<or> (fst (check_abuse now url client s) = None
      \<and> qs_dedupe (snd (check_abuse now url client s)) = (if url = [] then qs_dedupe s else dput url now (qs_dedupe s)))"
  by (auto simp: check_abuse_def Let_def split: prod.split)

lemma check_abuse_recent:
  "recently_fetched now s url \<Longrightarrow> fst (check_abuse now url client s) \<noteq> None \<and> snd (check_abuse now url client s) = s"
  by (auto simp: check_abuse_def recently_fetched_def split: option.splits)

lemma check_abuse_dedupe:
  "dedupe_ok s \<Longrightarrow> dedupe_ok (snd (check_abuse now url client s))"
  "fst (check_abuse now url client s) = None \<Longrightarrow> url \<noteq> [] \<Longrightarrow> dget (qs_dedupe (snd (check_abuse now url client s))) url = Some now"
  "url' \<noteq> url \<Longrightarrow> recently_fetched t (snd (check_abuse now url client s)) url' = recently_fetched t s url'"
  using check_abuse_outcome [of now url client s] by (auto simp: dedupe_ok_def recently_fetched_def dict_simps split: if_splits)

lemma check_abuse_global:
  "(fst (check_abuse now url client s) \<noteq> None \<and> qs_global (snd (check_abuse now url client s)) = qs_global s)
   \<or> (qs_global (snd (check_abuse now url client s)) = snd (consume_one now (qs_global s))
      \<and> (fst (check_abuse now url client s) = None \<longrightarrow> fst (consume_one now (qs_global s))))"
  by (auto simp: check_abuse_def Let_def split: prod.split)

text \<open>A registration as the test for abuse, the pruning and an effect that touches neither.\<close>

lemma register_fetch_stages:
  assumes "register_fetch env io now name version url sha256 signature provenance client s = (r, s')"
  obtains "s' = s" "\<exists>e. r = Inl e"
    | e s1 where "check_abuse now url client s = (Some e, s1)" "s' = s1" "r = Inl e"
    | s1 where "check_abuse now url client s = (None, s1)"
      "qs_dedupe s' = qs_dedupe (snd (prune_stale_entries (fst io) now s1))"
      "qs_global s' = qs_global (snd (prune_stale_entries (fst io) now s1))"
proof (cases "check_abuse now url client s")
  case (Pair c s1)
  obtain r2 s2 where s2: "prune_stale_entries (fst io) now s1 = (r2, s2)" by fastforce
  show ?thesis
  proof (cases c)
    case None
    then show ?thesis using assms Pair s2 that(1) that(3) [of s1]
      by (cases r2) (auto simp: register_fetch_def Let_def split: if_splits dest!: arg_cong [where f = snd])
  next
    case (Some e)
    then show ?thesis using assms Pair that(1,2) by (auto simp: register_fetch_def split: if_splits)
  qed
qed

lemma fetch_claim_cases:
  assumes "fetch_claim env io t q s = (a, s')"
  obtains "s' = s" "\<not> a"
    | e client where "snd (check_abuse t (request_url q) client s) = s'" "fst (check_abuse t (request_url q) client s) = Some e" "\<not> a"
    | s1 client where "check_abuse t (request_url q) client s = (None, s1)"
      "qs_dedupe s' = qs_dedupe (snd (prune_stale_entries (fst (io t)) t s1))"
      "qs_global s' = qs_global (snd (prune_stale_entries (fst (io t)) t s1))"
proof -
  obtain name version url sha sig prov client where q: "q = (name, version, url, sha, sig, prov, client)" by (cases q)
  obtain r s'' where "register_fetch env (io t) t name version url sha sig prov client s = (r, s'')" by fastforce
  then have reg: "register_fetch env (io t) t name version url sha sig prov client s = (r, s')"
    and a: "a = (case r of Inl _ \<Rightarrow> False | Inr _ \<Rightarrow> True)"
    using assms unfolding q by simp_all
  show ?thesis using reg
  proof (cases rule: register_fetch_stages)
    case (2 e s1)
    then show ?thesis using a that(2) [of client e] by (simp add: q)
  next
    case (3 s1)
    then show ?thesis using that(3) [of client s1] by (simp add: q)
  qed (use a that(1) in auto)
qed

lemma fetch_claim_keeps:
  assumes "dedupe_ok s" and "fetch_claim env io t q s = (a, s')" and "t \<le> t'"
  shows "dedupe_ok s'" and "recently_fetched t' s url \<Longrightarrow> recently_fetched t' s' url"
    and "a \<Longrightarrow> request_url q \<noteq> [] \<Longrightarrow> t' < t + 60 \<Longrightarrow> recently_fetched t' s' (request_url q)"
proof -
  have same: "recently_fetched t u url \<and> recently_fetched t' u url" if "recently_fetched t' u url" for u url
    using that assms(3) by (auto simp: recently_fetched_def DEDUPE_WINDOW_def split: option.splits)
  show "dedupe_ok s'" using assms(2)
  proof (cases rule: fetch_claim_cases)
    case (3 s1 client)
    then have "dedupe_ok s1" using check_abuse_dedupe(1) [OF assms(1), of t "request_url q" client] by simp
    then show ?thesis using prune_recent(1) [of s1 t t "fst (io t)"] 3(2) by (simp add: dedupe_ok_def)
  qed (use assms(1) check_abuse_dedupe(1) in auto)
  show "recently_fetched t' s' url" if live: "recently_fetched t' s url"
    using assms(2)
  proof (cases rule: fetch_claim_cases)
    case (2 e client)
    then show ?thesis using live same [OF live] check_abuse_recent [of t s url client] check_abuse_dedupe(3) [of url "request_url q" t' t client s]
      by (cases "url = request_url q") auto
  next
    case (3 s1 client)
    have ne: "url \<noteq> request_url q" using 3(1) same [OF live] check_abuse_recent [of t s "request_url q" client] by auto
    have "recently_fetched t' s1 url" using 3(1) live check_abuse_dedupe(3) [OF ne, of t' t client s] by simp
    moreover have "dedupe_ok s1" using 3(1) check_abuse_dedupe(1) [OF assms(1), of t "request_url q" client] by simp
    ultimately show ?thesis using prune_recent(2) [of s1 t t' url "fst (io t)"] assms(3) 3(2) by (simp add: recently_fetched_def)
  qed (use live in simp)
  show "recently_fetched t' s' (request_url q)" if a: "a" "request_url q \<noteq> []" "t' < t + 60"
    using assms(2)
  proof (cases rule: fetch_claim_cases)
    case (3 s1 client)
    have "dget (qs_dedupe s1) (request_url q) = Some t" using check_abuse_dedupe(2) [of t "request_url q" client s] 3(1) a by simp
    then have "recently_fetched t' s1 (request_url q)" using a by (simp add: recently_fetched_def DEDUPE_WINDOW_def)
    moreover have "dedupe_ok s1" using 3(1) check_abuse_dedupe(1) [OF assms(1), of t "request_url q" client] by simp
    ultimately show ?thesis using prune_recent(2) [of s1 t t' "request_url q" "fst (io t)"] assms(3) 3(2) by (simp add: recently_fetched_def)
  qed (use a in auto)
qed

lemma fetch_claim_rejects:
  assumes "recently_fetched t s (request_url q)"
  shows "\<not> fst (fetch_claim env io t q s)"
proof (cases "fetch_claim env io t q s")
  case (Pair a s')
  have refused: "fst (check_abuse t (request_url q) client s) \<noteq> None" for client using check_abuse_recent [OF assms] by blast
  show ?thesis using Pair
  proof (cases rule: fetch_claim_cases)
    case (3 s1 client)
    then show ?thesis using refused [of client] by simp
  qed (use Pair in simp_all)
qed

interpretation fetches: once_gate "sourced_claim env io" "\<lambda>_ q. request_url q" recently_fetched dedupe_ok "\<lambda>_. True" 60
proof unfold_locales
  fix s t q t' k
  assume ok: "dedupe_ok s"
  have st: "snd (sourced_claim env io t q s) = snd (fetch_claim env io t q s)"
    "fst (sourced_claim env io t q s) \<longleftrightarrow> fst (fetch_claim env io t q s) \<and> request_url q \<noteq> []"
    by (simp_all add: sourced_claim_def split_def Let_def)
  note keeps = fetch_claim_keeps [OF ok prod.collapse [symmetric]]
  show "dedupe_ok (snd (sourced_claim env io t q s))" unfolding st by (rule keeps(1) [OF order_refl])
  show "\<not> fst (sourced_claim env io t q s)" if "recently_fetched t s (request_url q)"
    using fetch_claim_rejects [OF that] by (simp add: st)
  show "recently_fetched t' (snd (sourced_claim env io t q s)) k" if "recently_fetched t' s k" "t \<le> t'"
    unfolding st using that by (intro keeps(2))
  show "recently_fetched t' (snd (sourced_claim env io t q s)) (request_url q)"
    if "fst (sourced_claim env io t q s)" "t \<le> t'" "t' < t + 60"
    unfolding st using that by (intro keeps(3)) (simp_all add: st)
qed

text \<open>The global bucket pays for every registration.\<close>

definition fetch_step :: "env \<Rightarrow> (time \<Rightarrow> bool \<times> bool) \<Rightarrow> time \<times> fetch_request \<Rightarrow> quarantine \<Rightarrow> bool \<times> quarantine" where
  "fetch_step env io c s = fetch_claim env io (fst c) (snd c) s"

definition fetch_ready :: "time \<Rightarrow> (time \<times> fetch_request) list \<Rightarrow> quarantine \<Rightarrow> bool" where
  "fetch_ready until cs s \<longleftrightarrow> dedupe_ok s \<and> bucket_ready until (map fst cs) (qs_global s)"

lemma fetch_global:
  assumes "dedupe_ok s" and "fetch_claim env io t q s = (a, s')"
  shows "(\<not> a \<and> qs_global s' = qs_global s)
    \<or> (qs_global s' = snd (consume_one t (qs_global s)) \<and> (a \<longrightarrow> fst (consume_one t (qs_global s))))"
  using assms(2)
proof (cases rule: fetch_claim_cases)
  case (2 e client)
  then show ?thesis using check_abuse_global [of t "request_url q" client s] by auto
next
  case (3 s1 client)
  have "dedupe_ok s1" using 3(1) check_abuse_dedupe(1) [OF assms(1), of t "request_url q" client] by simp
  then show ?thesis using check_abuse_global [of t "request_url q" client s] 3 prune_fields(2) by auto
qed simp

interpretation fetch_budget: metered "fetch_step env io" "\<lambda>_. True" "\<lambda>s. spendable until (qs_global s)" "fetch_ready until"
proof unfold_locales
  show "0 \<le> spendable until (qs_global s)" if "fetch_ready until cs s" for cs s
    using that bucket.pot_nonneg by (auto simp: fetch_ready_def)
  fix c cs s assume r: "fetch_ready until (c # cs) s"
  obtain t q where c: "c = (t, q)" by (cases c)
  obtain a s' where st: "fetch_claim env io t q s = (a, s')" by fastforce
  have ok: "dedupe_ok s" "bucket_ready until (t # map fst cs) (qs_global s)" using r by (simp_all add: fetch_ready_def c)
  have skip: "bucket_ready until (map fst cs) (qs_global s)" using ok(2) by (auto simp: bucket_ready_def)
  show "fetch_ready until cs (snd (fetch_step env io c s))"
    using fetch_global [OF ok(1) st] bucket.step_ready [OF ok(2)] skip fetch_claim_keeps(1) [OF ok(1) st order_refl]
    by (auto simp: fetch_ready_def fetch_step_def c st)
  show "(if fst (fetch_step env io c s) \<and> True then 1 else 0) + spendable until (qs_global (snd (fetch_step env io c s)))
      \<le> spendable until (qs_global s)"
    using fetch_global [OF ok(1) st] bucket.step_pot [OF ok(2)] by (auto simp: fetch_step_def c st split: if_splits)
qed

subsection \<open>Properties\<close>


definition demo_quarantine :: quarantine where
  "demo_quarantine = open_quarantine [''OPENCLAW_REGISTRY_POLICY'' \<mapsto> ''strict''] 1000 F_missing F_missing"

definition demo_root :: trust_root where
  "demo_root = \<lparr>tr_key_id = ''k'', tr_public_key_pem = ''pem'', tr_fingerprint = ''f'', tr_valid_from = 0, tr_valid_until = 0,
     tr_revoked = False, tr_revocation_reason = [], tr_added_at = 1\<rparr>"

definition demo_ops :: "(env \<times> registry_op) list" where
  "demo_ops = map (Pair [FEATURE_FLAG \<mapsto> ''1''])
     [R_add_root True 1000 demo_root, R_fetch (True, True) 1000 ''p'' ''1'' ''u'' ''h'' ''c2ln'' [] ''global'',
      R_verify True True 1001 ''p'' ''1'' ''h'' (Zip []), R_activate True 1002 ''p'' ''1'']"

definition demo_ed :: "string \<Rightarrow> string \<Rightarrow> string \<Rightarrow> bool" where
  "demo_ed pem sig data \<longleftrightarrow> pem = ''pem'' \<and> sig = ''sig'' \<and> data = ''p@1:h''"


text \<open>
  What passes the integrity check under the strict policy: the entry was fetched or
  quarantined, the local file is an archive without \<open>exec\<close> or \<open>eval\<close> in its code
  members, the reported hash is the registered one, and a root that is neither revoked nor
  outside its validity verifies the signature; the entry is then verified.
\<close>

theorem verify_integrity_strict:
  assumes "verify_integrity env True hc ed io now name version actual file s = (Inr True, s')" and "qs_policy_mode s = ''strict''"
  shows "\<exists>e infos. get_entry name version s = Some e \<and> re_state e \<in> {Q_FETCHED, Q_QUARANTINED}
    \<and> file = Zip infos \<and> check_code_safety infos = None \<and> actual = re_sha256 e
    \<and> (\<exists>sig. \<exists>r \<in> set (get_active_roots now (qs_trust s)). b64decode (re_signature e) = Some sig
        \<and> ed (tr_public_key_pem r) sig (signed_data e))
    \<and> map_option re_state (get_entry name version s') = Some Q_VERIFIED"
proof -
  let ?key = "entry_key name version"
  obtain e where e: "dget (qs_entries s) ?key = Some e" "re_state e \<in> {Q_FETCHED, Q_QUARANTINED}"
    and present: "file \<noteq> No_path" "file \<noteq> Absent" and scan: "scan_violation file = None"
    and content: "verify_content hc ed io now ?key actual (add_audit now ''preflight_scan'' (Note ''Code safety check passed'') e) s = (Inr True, s')"
    using assms by (auto simp: verify_integrity_def Let_def saved_def split: if_splits option.splits)
  define e1 where "e1 = add_audit now ''preflight_scan'' (Note ''Code safety check passed'') e"
  have ok: "actual = re_sha256 e1" "fst (verify_entry_signature hc ed now e1 (qs_trust s))"
    using content assms(2) by (auto simp: e1_def verify_content_def saved_def Let_def split: if_splits prod.splits)
  then have "snd (verify_content hc ed io now ?key actual e1 s) = snd (saved io True (put_entry ?key
      (add_audit now ''verify'' (Note ''Integrity check passed'') (e1\<lparr>re_state := Q_VERIFIED, re_verified_at := now\<rparr>)) s))"
    by (simp add: verify_content_def split_def Let_def)
  then have "map_option re_state (get_entry name version s') = Some Q_VERIFIED"
    using content by (simp add: e1_def get_entry_def dict_simps)
  moreover obtain infos where "file = Zip infos" "check_code_safety infos = None"
    using scan by (auto simp: scan_violation_def split: pack_file.splits)
  moreover have "\<exists>sig. \<exists>r \<in> set (get_active_roots now (qs_trust s)). b64decode (re_signature e) = Some sig
        \<and> ed (tr_public_key_pem r) sig (signed_data e)"
    using entry_signature_true [OF ok(2)] by (simp add: e1_def)
  ultimately show ?thesis using e ok(1) by (auto simp: get_entry_def e1_def)
qed

text \<open>
  A revoked key stays out: after its revocation, until a root is added under the same
  id, any signature that verifies does so under another root that is not revoked.
\<close>

theorem revoked_key_never_verifies:
  assumes "dict_ok (ts_roots (qs_trust s))" and "fst (revoke_root io key_id reason (qs_trust s))"
    and "\<forall>(env, op) \<in> set ops. \<forall>io now r. op = R_add_root io now r \<longrightarrow> tr_key_id r \<noteq> key_id"
    and "fst (verify_signature hc ed now data signature_b64 kid
      (qs_trust (fold (registry_step pa sha ed) ops (on_trust (snd \<circ> revoke_root io key_id reason) s))))"
  shows "\<exists>k r sig. k \<noteq> key_id \<and> dget (ts_roots (qs_trust (fold (registry_step pa sha ed) ops (on_trust (snd \<circ> revoke_root io key_id reason) s)))) k = Some r
    \<and> \<not> tr_revoked r \<and> b64decode signature_b64 = Some sig \<and> ed (tr_public_key_pem r) sig data"
proof -
  define P :: "quarantine \<Rightarrow> bool" where "P = (\<lambda>s. dict_ok (ts_roots (qs_trust s)) \<and> (\<exists>r. dget (ts_roots (qs_trust s)) key_id = Some r \<and> tr_revoked r))"
  define s0 where "s0 = on_trust (snd \<circ> revoke_root io key_id reason) s"
  obtain r0 where "dget (ts_roots (qs_trust s)) key_id = Some r0"
    using assms(2) by (auto simp: revoke_root_def split: option.splits)
  then have "P s0" using assms(1)
    by (simp add: P_def s0_def on_trust_def revoke_root_def save_roots_def dict_simps del: map_of_eq_Some_iff)
  have "P (fold (registry_step pa sha ed) ops u)" if "P u" for u
    using that assms(3)
  proof (induction ops arbitrary: u)
    case (Cons op ops)
    have "P (registry_step pa sha ed op u)"
    proof (cases "(pa, sha, ed, op, u)" rule: registry_step.cases)
      case (7 pa' sha' ed' env io' t r u')
      then show ?thesis using Cons.prems
        by (auto simp: P_def on_trust_def add_root_def save_roots_def Let_def dict_simps simp del: map_of_eq_Some_iff)
    next
      case (8 pa' sha' ed' env io' k' why u')
      then show ?thesis using Cons.prems(1)
        by (auto simp: P_def on_trust_def revoke_root_def save_roots_def dict_simps split: option.splits simp del: map_of_eq_Some_iff)
    qed (use Cons.prems(1) in \<open>simp_all add: P_def del: map_of_eq_Some_iff\<close>)
    then show ?case using Cons by simp
  qed simp
  then have P: "P (fold (registry_step pa sha ed) ops s0)" using \<open>P s0\<close> by blast
  obtain sig r k where "b64decode signature_b64 = Some sig" "dget (ts_roots (qs_trust (fold (registry_step pa sha ed) ops s0))) k = Some r"
    "\<not> tr_revoked r" "ed (tr_public_key_pem r) sig data"
    using verify_signature_true [OF assms(4) [folded s0_def]] P by (auto simp: P_def)
  moreover have "k \<noteq> key_id" using P calculation by (auto simp: P_def)
  ultimately show ?thesis unfolding s0_def by blast
qed

text \<open>
  A source is fetched at most once a minute: of all registrations that name it in a
  time-ordered window of 60 seconds, at most one succeeds, whatever other requests come
  between.
\<close>

theorem source_once_per_minute:
  assumes "dict_ok (qs_dedupe s)" and "sorted (map fst cs)" and "\<forall>(t, q) \<in> set cs. a \<le> t \<and> t < a + 60" and "url \<noteq> []"
  shows "accepted (\<lambda>_ q. request_url q) url cs (claim_run (fetch_claim env io) cs s) \<le> 1"
proof -
  have "accepted (\<lambda>_ q. request_url q) url cs (claim_run (fetch_claim env io) cs s)
      = accepted (\<lambda>_ q. request_url q) url cs (claim_run (sourced_claim env io) cs s)"
  proof (induction cs arbitrary: s)
    case (Cons c cs)
    obtain t q where c: "c = (t, q)" by (cases c)
    show ?case using Cons.IH assms(4)
      by (cases "fetch_claim env io t q s") (auto simp: c sourced_claim_def accepted_Cons)
  qed simp
  moreover have "accepted (\<lambda>_ q. request_url q) url cs (claim_run (sourced_claim env io) cs s) \<le> 1"
    using assms by (intro fetches.at_most_once) (auto simp: dedupe_ok_def all_states_def)
  ultimately show ?thesis by simp
qed

definition demo_request :: fetch_request where
  "demo_request = (''p'', ''1'', ''u'', ''h'', ''s'', [], ''ip'')"

theorem verify_integrity_strict_witness:
  "\<exists>e infos. get_entry ''p'' ''1'' (fold (registry_step True (\<lambda>s. s) demo_ed) (take 2 demo_ops) demo_quarantine) = Some e
    \<and> Zip [] = Zip infos \<and> ''h'' = re_sha256 e"
proof -
  let ?s = "fold (registry_step True (\<lambda>s. s) demo_ed) (take 2 demo_ops) demo_quarantine"
  have "fst (verify_integrity [FEATURE_FLAG \<mapsto> ''1''] True True demo_ed True 1001 ''p'' ''1'' ''h'' (Zip []) ?s) = Inr True" by code_simp
  then obtain s' where "verify_integrity [FEATURE_FLAG \<mapsto> ''1''] True True demo_ed True 1001 ''p'' ''1'' ''h'' (Zip []) ?s = (Inr True, s')"
    by (metis prod.collapse)
  moreover have "qs_policy_mode ?s = ''strict''" by code_simp
  ultimately show ?thesis using verify_integrity_strict by blast
qed

theorem revoked_key_never_verifies_witness:
  "\<exists>k. k \<noteq> ''k'' \<and> dget (ts_roots (snd (revoke_root True ''k'' [] \<lparr>ts_roots = [(''k'', demo_root), (''k2'', demo_root)], ts_roots_file = F_missing\<rparr>))) k \<noteq> None"
proof -
  let ?s = "demo_quarantine\<lparr>qs_trust := \<lparr>ts_roots = [(''k'', demo_root), (''k2'', demo_root)], ts_roots_file = F_missing\<rparr>\<rparr>"
  have "fst (verify_signature True demo_ed 5 ''p@1:h'' ''c2ln'' None
      (qs_trust (fold (registry_step True (\<lambda>s. s) demo_ed) [] (on_trust (snd \<circ> revoke_root True ''k'' []) ?s))))" by code_simp
  then show ?thesis
    using revoked_key_never_verifies [of ?s True "''k''" "[]" "[]" True demo_ed 5 "''p@1:h''" "''c2ln''" None True "\<lambda>s. s"]
    by (auto simp: revoke_root_def on_trust_def)
qed

theorem source_once_per_minute_witness:
  "accepted (\<lambda>_ q. request_url q) ''u'' [(1000, demo_request), (1030, demo_request)]
     (claim_run (fetch_claim [FEATURE_FLAG \<mapsto> ''1''] (\<lambda>_. (True, True))) [(1000, demo_request), (1030, demo_request)] demo_quarantine) \<le> 1"
  by (rule source_once_per_minute [where a = 1000]) (simp_all add: demo_quarantine_def open_quarantine_def)

text \<open>
  The global fetch limit: in any time-ordered sequence of requests at most the
  tokens of the global bucket plus what comes in are registered; for a fresh store these are
  ten and ten a minute.
\<close>

theorem fetch_rate_bound:
  assumes "dict_ok (qs_dedupe s)" and "bucket_ok (qs_global s)" and "sorted (tb_last_update (qs_global s) # map fst cs)"
    and "\<forall>t \<in> set (map fst cs). t \<le> until" and "tb_last_update (qs_global s) \<le> until"
  shows "real (granted (fetch_step env io) (\<lambda>_. True) cs s) \<le> spendable until (qs_global s)"
  using fetch_budget.granted_le [of until cs s] assms by (simp add: fetch_ready_def bucket_ready_def dedupe_ok_def)

theorem fetch_rate_bound_witness:
  "real (granted (fetch_step [FEATURE_FLAG \<mapsto> ''1''] (\<lambda>_. (True, True))) (\<lambda>_. True) [(1000, demo_request), (1030, demo_request)] demo_quarantine)
     \<le> 10 + (1060 - 1000) / 6"
  using fetch_rate_bound [of demo_quarantine "[(1000, demo_request), (1030, demo_request)]" 1060]
  by (simp add: demo_quarantine_def open_quarantine_def mk_bucket_def bucket_ok_def spendable_def)

subsection \<open>Further observations\<close>

text \<open>A key asked for by its id is tested for revocation only: one past its validity still verifies.\<close>

lemma expired_key_by_id:
  "fst (verify_signature True demo_ed 100 ''p@1:h'' ''c2ln'' (Some ''k'')
     \<lparr>ts_roots = [(''k'', demo_root\<lparr>tr_valid_until := 50\<rparr>)], ts_roots_file = F_missing\<rparr>)"
  "\<not> fst (verify_signature True demo_ed 100 ''p@1:h'' ''c2ln'' None
     \<lparr>ts_roots = [(''k'', demo_root\<lparr>tr_valid_until := 50\<rparr>)], ts_roots_file = F_missing\<rparr>)"
  by code_simp+

text \<open>
  Without the scanner's module a pack passes the integrity check unscanned, under the strict policy
  too, and even when its file does not exist.
\<close>

lemma scan_skipped:
  "(case verify_integrity [FEATURE_FLAG \<mapsto> ''1''] False True demo_ed True 1001 ''p'' ''1'' ''h'' Absent
      (fold (registry_step False (\<lambda>s. s) demo_ed) (take 2 demo_ops) demo_quarantine) of
     (r, s) \<Rightarrow> r = Inr True \<and> qs_policy_mode s = ''strict'')"
  by code_simp

text \<open>Fetching a pack again replaces an activated entry, its trail included, by a fetched one.\<close>

lemma fetch_replaces_activated:
  "(case get_entry ''p'' ''1'' (fold (registry_step True (\<lambda>s. s) demo_ed)
      (demo_ops @ [([FEATURE_FLAG \<mapsto> ''1''], R_fetch (True, True) 2000 ''p'' ''1'' ''u'' ''h2'' [] [] ''global'')]) demo_quarantine) of
     None \<Rightarrow> False | Some e \<Rightarrow> re_state e = Q_FETCHED \<and> actions e = [''fetch''])"
  by code_simp

text \<open>
  A pack rolled back has no time of rejection: its age counts from the fetch, and the next
  fetch prunes it when that is a week ago.
\<close>

lemma rollback_pruned_at_once:
  "re_state e = Q_ROLLED_BACK \<Longrightarrow> re_rejected_at e = 0 \<Longrightarrow> now - re_fetched_at e > 604800 \<Longrightarrow> prune_due now e"
  by (simp add: prune_due_def)

text \<open>A revocation that could not be written is forgotten with the process.\<close>

lemma unsaved_revocation_forgotten:
  "ts_roots_file s = F_rows [(k, Some r)] \<Longrightarrow> dget (ts_roots s) k = Some r \<Longrightarrow>
   fst (revoke_root False k why s) \<and> ts_roots (open_trust_store (ts_roots_file (snd (revoke_root False k why s)))) = [(k, r)]"
  by (simp add: revoke_root_def save_roots_def open_trust_store_def)

end
