(* ===== verification/Execution_Budgets.thy ===== *)
theory Execution_Budgets
  imports Contracts Tenant Json
begin

text \<open>
  \<open>services/execution_budgets.py\<close>: how many submissions may be in flight, in all, per source
  and per tenant. A semaphore is its free slots. Entering the context manager is one step and
  leaving it another: between the tests and the end of the acquisition the coroutine does not
  wait (the semaphores it takes are free and the tenant lock is never held across a wait).
  A permit is what the context manager remembers to give back.
\<close>

definition get_env_int :: "env \<Rightarrow> string \<Rightarrow> int \<Rightarrow> int" where
  "get_env_int env key dflt = (case env key of None \<Rightarrow> dflt
     | Some val \<Rightarrow> (case py_int val of None \<Rightarrow> dflt | Some i \<Rightarrow> i))"

record budget_config =
  bc_total :: int
  bc_webhook :: int
  bc_trigger :: int
  bc_scheduler :: int
  bc_bridge :: int
  bc_per_tenant :: int
  bc_rendered_bytes :: int

definition load_budget_config :: "env \<Rightarrow> budget_config" where
  "load_budget_config env =
    \<lparr>bc_total = get_env_int env ''OPENCLAW_MAX_INFLIGHT_SUBMITS_TOTAL'' 2,
     bc_webhook = get_env_int env ''OPENCLAW_MAX_INFLIGHT_SUBMITS_WEBHOOK'' 1,
     bc_trigger = get_env_int env ''OPENCLAW_MAX_INFLIGHT_SUBMITS_TRIGGER'' 1,
     bc_scheduler = get_env_int env ''OPENCLAW_MAX_INFLIGHT_SUBMITS_SCHEDULER'' 1,
     bc_bridge = get_env_int env ''OPENCLAW_MAX_INFLIGHT_SUBMITS_BRIDGE'' 1,
     bc_per_tenant = get_env_int env ''OPENCLAW_MAX_INFLIGHT_SUBMITS_PER_TENANT'' 1,
     bc_rendered_bytes = get_env_int env ''OPENCLAW_MAX_RENDERED_WORKFLOW_BYTES'' (512 * 1024)\<rparr>"

datatype budget_error = Global_concurrency int string | Source_concurrency int string | Tenant_concurrency int string
  | Rendered_size int | Not_serializable | Bad_tenant tenant_error

definition retry_after :: "budget_error \<Rightarrow> int" where
  "retry_after e = (case e of Rendered_size _ \<Rightarrow> 5 | Not_serializable \<Rightarrow> 0 | _ \<Rightarrow> 1)"

record budget_limiter =
  bl_config :: budget_config
  bl_global :: nat
  bl_sources :: "(string, nat) dict"
  bl_tenants :: "(string, nat) dict"
  bl_inflight_total :: int
  bl_by_source :: "(string, int) dict"
  bl_by_tenant :: "(string, int) dict"

definition source_caps :: "budget_config \<Rightarrow> (string \<times> int) list" where
  "source_caps c = [(''webhook'', bc_webhook c), (''trigger'', bc_trigger c), (''scheduler'', bc_scheduler c), (''bridge'', bc_bridge c)]"

text \<open>\<open>asyncio.Semaphore(n)\<close> raises for a negative \<open>n\<close>: \<open>None\<close>.\<close>

definition make_limiter :: "budget_config \<Rightarrow> budget_limiter option" where
  "make_limiter c = (if bc_total c < 0 \<or> (\<exists>(k, n) \<in> set (source_caps c). n < 0) then None
     else Some \<lparr>bl_config = c, bl_global = nat (bc_total c), bl_sources = map (\<lambda>(k, n). (k, nat n)) (source_caps c),
       bl_tenants = [], bl_inflight_total = 0,
       bl_by_source = [(''webhook'', 0), (''trigger'', 0), (''scheduler'', 0), (''bridge'', 0), (''unknown'', 0)],
       bl_by_tenant = []\<rparr>)"

definition tenant_cap :: "budget_limiter \<Rightarrow> nat" where
  "tenant_cap l = nat (max 1 (bc_per_tenant (bl_config l)))"

record permit =
  pm_source :: string
  pm_tenant :: string
  pm_tenant_acquired :: bool

definition slots :: "(string, nat) dict \<Rightarrow> string \<Rightarrow> nat" where
  "slots d k = (case dget d k of None \<Rightarrow> 0 | Some n \<Rightarrow> n)"

definition normalize_source :: "budget_limiter \<Rightarrow> string \<Rightarrow> string" where
  "normalize_source l source = (let source = (if source = [] then ''unknown'' else py_lower source) in
     if dget (bl_sources l) source = None then ''unknown'' else source)"

definition get_or_zero :: "(string, int) dict \<Rightarrow> string \<Rightarrow> int" where
  "get_or_zero d k = (case dget d k of None \<Rightarrow> 0 | Some n \<Rightarrow> n)"

text \<open>The semaphore of a tenant is made when it is first asked for.\<close>

definition get_tenant_semaphore :: "string \<Rightarrow> budget_limiter \<Rightarrow> nat \<times> budget_limiter" where
  "get_tenant_semaphore t l = (case dget (bl_tenants l) t of
       Some n \<Rightarrow> (n, l) | None \<Rightarrow> (tenant_cap l, l\<lparr>bl_tenants := dput t (tenant_cap l) (bl_tenants l)\<rparr>))"

definition take_slots :: "permit \<Rightarrow> budget_limiter \<Rightarrow> budget_limiter" where
  "take_slots p l =
    (let l = l\<lparr>bl_global := bl_global l - 1\<rparr>;
         l = (if pm_tenant_acquired p then l\<lparr>bl_tenants := dput (pm_tenant p) (slots (bl_tenants l) (pm_tenant p) - 1) (bl_tenants l)\<rparr> else l);
         l = (if dget (bl_sources l) (pm_source p) \<noteq> None
              then l\<lparr>bl_sources := dput (pm_source p) (slots (bl_sources l) (pm_source p) - 1) (bl_sources l)\<rparr> else l)
     in l\<lparr>bl_inflight_total := bl_inflight_total l + 1,
          bl_by_source := dput (pm_source p) (get_or_zero (bl_by_source l) (pm_source p) + 1) (bl_by_source l),
          bl_by_tenant := dput (pm_tenant p) (get_or_zero (bl_by_tenant l) (pm_tenant p) + 1) (bl_by_tenant l)\<rparr>)"

text \<open>The tests and the acquisition, for the normalised source and tenant.\<close>

definition admit :: "bool \<Rightarrow> string \<Rightarrow> string \<Rightarrow> budget_limiter \<Rightarrow> (budget_error + permit) \<times> budget_limiter" where
  "admit multi source tenant l =
    (if bl_global l = 0 then (Inl (Global_concurrency (bc_total (bl_config l)) source), l)
     else if dget (bl_sources l) source = Some 0
     then (Inl (Source_concurrency (case dget (source_caps (bl_config l)) source of Some n \<Rightarrow> n | None \<Rightarrow> 1) source), l)
     else
       let (free, l) = (if multi then get_tenant_semaphore tenant l else (1, l)) in
       if free = 0 then (Inl (Tenant_concurrency (int (tenant_cap l)) source), l)
       else let p = \<lparr>pm_source = source, pm_tenant = tenant, pm_tenant_acquired = multi\<rparr> in (Inr p, take_slots p l))"

definition acquire :: "env \<Rightarrow> string \<Rightarrow> string \<Rightarrow> string option \<Rightarrow> budget_limiter \<Rightarrow> (budget_error + permit) \<times> budget_limiter" where
  "acquire env current source tenant_id l =
    (let source = normalize_source l source; multi = is_multi_tenant_enabled env in
     case (if multi then normalize_tenant_id (case tenant_id of Some (c # cs) \<Rightarrow> c # cs | _ \<Rightarrow> get_current_tenant_id env current)
           else Inr DEFAULT_TENANT_ID) of
       Inl e \<Rightarrow> (Inl (Bad_tenant e), l)
     | Inr tenant \<Rightarrow> admit multi source tenant l)"

text \<open>Leaving the context manager, by whatever way.\<close>

definition release :: "permit \<Rightarrow> budget_limiter \<Rightarrow> budget_limiter" where
  "release p l =
    (let n = max 0 (get_or_zero (bl_by_tenant l) (pm_tenant p) - 1);
         l = l\<lparr>bl_inflight_total := bl_inflight_total l - 1,
               bl_by_source := dput (pm_source p) (get_or_zero (bl_by_source l) (pm_source p) - 1) (bl_by_source l),
               bl_by_tenant := (if n = 0 then ddel (pm_tenant p) (bl_by_tenant l) else dput (pm_tenant p) n (bl_by_tenant l))\<rparr>;
         l = (if dget (bl_sources l) (pm_source p) \<noteq> None
              then l\<lparr>bl_sources := dput (pm_source p) (slots (bl_sources l) (pm_source p) + 1) (bl_sources l)\<rparr> else l);
         l = (if pm_tenant_acquired p then l\<lparr>bl_tenants := dput (pm_tenant p) (slots (bl_tenants l) (pm_tenant p) + 1) (bl_tenants l)\<rparr> else l)
     in l\<lparr>bl_global := bl_global l + 1\<rparr>)"

definition get_stats :: "budget_limiter \<Rightarrow> (string, int) dict" where
  "get_stats l = fold (\<lambda>(k, v). dput k v) (bl_by_source l @ [(''tenant_count'', int (length (bl_by_tenant l)))])
     [(''total'', bl_inflight_total l)]"

text \<open>
  The size test of a rendered workflow; \<open>dumps\<close> is the compact JSON text in UTF-8, \<open>None\<close>
  where the value cannot be serialised.
\<close>

definition check_render_size :: "(json \<Rightarrow> string option) \<Rightarrow> budget_limiter \<Rightarrow> json \<Rightarrow> int option \<Rightarrow> budget_error + unit" where
  "check_render_size dumps l workflow_data max_bytes =
    (let limit = (case max_bytes of Some n \<Rightarrow> n | None \<Rightarrow> bc_rendered_bytes (bl_config l)) in
     case dumps workflow_data of
       None \<Rightarrow> Inl Not_serializable
     | Some s \<Rightarrow> if int (length s) > limit then Inl (Rendered_size limit) else Inr ())"

subsection \<open>The limiter and the permits that are held\<close>

definition held_if :: "(permit \<Rightarrow> bool) \<Rightarrow> permit list \<Rightarrow> nat" where
  "held_if P held = length (filter P held)"

abbreviation of_source :: "string \<Rightarrow> permit \<Rightarrow> bool" where
  "of_source k \<equiv> \<lambda>p. pm_source p = k"

abbreviation of_tenant :: "string \<Rightarrow> permit \<Rightarrow> bool" where
  "of_tenant t \<equiv> \<lambda>p. pm_tenant p = t"

abbreviation capped_tenant :: "string \<Rightarrow> permit \<Rightarrow> bool" where
  "capped_tenant t \<equiv> \<lambda>p. pm_tenant_acquired p \<and> pm_tenant p = t"

datatype budget_event = B_enter env string string "string option" | B_leave nat

fun budget_step :: "budget_event \<Rightarrow> budget_limiter \<times> permit list \<Rightarrow> budget_limiter \<times> permit list" where
  "budget_step (B_enter env current source tenant_id) (l, held) =
     (case acquire env current source tenant_id l of (Inr p, l') \<Rightarrow> (l', p # held) | (Inl e, l') \<Rightarrow> (l', held))"
| "budget_step (B_leave i) (l, held) =
     (if i < length held then (release (held ! i) l, take i held @ drop (Suc i) held) else (l, held))"

text \<open>Every slot is free or held, and the counters count what is held.\<close>

definition sources_match :: "budget_config \<Rightarrow> budget_limiter \<Rightarrow> permit list \<Rightarrow> bool" where
  "sources_match c l held \<longleftrightarrow> (\<forall>k. case dget (bl_sources l) k of
       None \<Rightarrow> dget (source_caps c) k = None
     | Some n \<Rightarrow> dget (source_caps c) k = Some (int (n + held_if (of_source k) held)))"

definition tenants_match :: "budget_config \<Rightarrow> budget_limiter \<Rightarrow> permit list \<Rightarrow> bool" where
  "tenants_match c l held \<longleftrightarrow> (\<forall>t. case dget (bl_tenants l) t of
       None \<Rightarrow> held_if (capped_tenant t) held = 0
     | Some n \<Rightarrow> int (n + held_if (capped_tenant t) held) = max 1 (bc_per_tenant c))"

definition counters_match :: "budget_limiter \<Rightarrow> permit list \<Rightarrow> bool" where
  "counters_match l held \<longleftrightarrow> bl_inflight_total l = int (length held)
   \<and> (\<forall>k. get_or_zero (bl_by_source l) k = int (held_if (of_source k) held))
   \<and> (\<forall>t. get_or_zero (bl_by_tenant l) t = int (held_if (of_tenant t) held))"

definition budget_inv :: "budget_config \<Rightarrow> budget_limiter \<times> permit list \<Rightarrow> bool" where
  "budget_inv c s \<longleftrightarrow> (case s of (l, held) \<Rightarrow>
     bl_config l = c \<and> int (bl_global l + length held) = bc_total c
   \<and> sources_match c l held \<and> tenants_match c l held \<and> counters_match l held)"

lemma held_if_simps [simp]: "held_if P [] = 0" "held_if P (p # held) = (if P p then 1 else 0) + held_if P held"
  by (simp_all add: held_if_def)

lemma held_if_remove:
  assumes "i < length held"
  shows "held_if P held = (if P (held ! i) then 1 else 0) + held_if P (take i held @ drop (Suc i) held)"
  unfolding held_if_def by (subst id_take_nth_drop [OF assms]) simp

lemma held_if_le: "held_if P held \<le> length held"
  by (simp add: held_if_def)

lemma get_or_zero_simps [simp]:
  "get_or_zero (dput k n d) k' = (if k' = k then n else get_or_zero d k')"
  "get_or_zero (ddel k d) k' = (if k' = k then 0 else get_or_zero d k')"
  by (simp_all add: get_or_zero_def dict_simps)

lemma slots_simps: "dget d k = Some n \<Longrightarrow> slots d k = n"
  by (simp add: slots_def)

lemma take_slots_fields [simp]:
  "bl_config (take_slots p l) = bl_config l" "bl_global (take_slots p l) = bl_global l - 1"
  "dget (bl_sources (take_slots p l)) k = (if k = pm_source p then map_option (\<lambda>n. n - 1) (dget (bl_sources l) k) else dget (bl_sources l) k)"
  "dget (bl_tenants (take_slots p l)) t = (if pm_tenant_acquired p \<and> t = pm_tenant p then Some (slots (bl_tenants l) t - 1) else dget (bl_tenants l) t)"
  "bl_inflight_total (take_slots p l) = bl_inflight_total l + 1"
  "get_or_zero (bl_by_source (take_slots p l)) k = get_or_zero (bl_by_source l) k + (if k = pm_source p then 1 else 0)"
  "get_or_zero (bl_by_tenant (take_slots p l)) t = get_or_zero (bl_by_tenant l) t + (if t = pm_tenant p then 1 else 0)"
  by (auto simp: take_slots_def Let_def dict_simps slots_def split: option.split)

lemma release_fields [simp]:
  "bl_config (release p l) = bl_config l" "bl_global (release p l) = bl_global l + 1"
  "dget (bl_sources (release p l)) k = (if k = pm_source p then map_option (\<lambda>n. n + 1) (dget (bl_sources l) k) else dget (bl_sources l) k)"
  "dget (bl_tenants (release p l)) t = (if pm_tenant_acquired p \<and> t = pm_tenant p then Some (slots (bl_tenants l) t + 1) else dget (bl_tenants l) t)"
  "bl_inflight_total (release p l) = bl_inflight_total l - 1"
  "get_or_zero (bl_by_source (release p l)) k = get_or_zero (bl_by_source l) k - (if k = pm_source p then 1 else 0)"
  "get_or_zero (bl_by_tenant (release p l)) t = (if t = pm_tenant p then max 0 (get_or_zero (bl_by_tenant l) t - 1) else get_or_zero (bl_by_tenant l) t)"
  by (auto simp: release_def Let_def dict_simps slots_def split: option.split)

lemma get_tenant_semaphore_fields:
  "bl_config (snd (get_tenant_semaphore t l)) = bl_config l" "bl_global (snd (get_tenant_semaphore t l)) = bl_global l"
  "bl_sources (snd (get_tenant_semaphore t l)) = bl_sources l"
  "dget (bl_tenants (snd (get_tenant_semaphore t l))) t' = (if t' = t then Some (fst (get_tenant_semaphore t l)) else dget (bl_tenants l) t')"
  "fst (get_tenant_semaphore t l) = (case dget (bl_tenants l) t of None \<Rightarrow> tenant_cap l | Some n \<Rightarrow> n)"
  "counters_match (snd (get_tenant_semaphore t l)) held = counters_match l held"
  by (auto simp: get_tenant_semaphore_def dict_simps counters_match_def split: option.split)

text \<open>The match of one tenant or source.\<close>

definition source_match :: "budget_config \<Rightarrow> string \<Rightarrow> nat option \<Rightarrow> nat \<Rightarrow> bool" where
  "source_match c k free n \<longleftrightarrow> (case free of
       None \<Rightarrow> dget (source_caps c) k = None | Some m \<Rightarrow> dget (source_caps c) k = Some (int (m + n)))"

lemma sources_match_iff: "sources_match c l held \<longleftrightarrow> (\<forall>k. source_match c k (dget (bl_sources l) k) (held_if (of_source k) held))"
  by (simp add: sources_match_def source_match_def)

definition tenant_match :: "budget_config \<Rightarrow> nat option \<Rightarrow> nat \<Rightarrow> bool" where
  "tenant_match c free n \<longleftrightarrow> (case free of None \<Rightarrow> n = 0 | Some m \<Rightarrow> int (m + n) = max 1 (bc_per_tenant c))"

lemma tenants_match_iff: "tenants_match c l held \<longleftrightarrow> (\<forall>t. tenant_match c (dget (bl_tenants l) t) (held_if (capped_tenant t) held))"
  by (simp add: tenants_match_def tenant_match_def)

lemma get_tenant_semaphore_inv:
  assumes "budget_inv c (l, held)"
  shows "budget_inv c (snd (get_tenant_semaphore t l), held)"
proof -
  have m: "tenant_match c (dget (bl_tenants l) t') (held_if (capped_tenant t') held)" for t'
    using assms by (simp add: budget_inv_def tenants_match_iff)
  have "tenant_match c (dget (bl_tenants (snd (get_tenant_semaphore t l))) t') (held_if (capped_tenant t') held)" for t'
    using m [of t'] assms
    by (cases "t' = t"; cases "dget (bl_tenants l) t") (simp_all add: get_tenant_semaphore_fields tenant_cap_def budget_inv_def tenant_match_def)
  then have "tenants_match c (snd (get_tenant_semaphore t l)) held" by (simp add: tenants_match_iff)
  then show ?thesis using assms by (simp add: budget_inv_def get_tenant_semaphore_fields sources_match_def)
qed

lemma take_slots_inv:
  assumes "budget_inv c (l, held)" and "bl_global l \<noteq> 0" and "dget (bl_sources l) (pm_source p) \<noteq> Some 0"
    and "pm_tenant_acquired p \<Longrightarrow> \<exists>n. dget (bl_tenants l) (pm_tenant p) = Some n \<and> n \<noteq> 0"
  shows "budget_inv c (take_slots p l, p # held)"
proof -
  have m: "tenant_match c (dget (bl_tenants l) t') (held_if (capped_tenant t') held)" for t'
    using assms(1) by (simp add: budget_inv_def tenants_match_iff)
  have k: "source_match c k (dget (bl_sources l) k) (held_if (of_source k) held)" for k
    using assms(1) by (simp add: budget_inv_def sources_match_iff)
  have "source_match c k (dget (bl_sources (take_slots p l)) k) (held_if (of_source k) (p # held))" for k
    using k [of k] assms(3) by (cases "dget (bl_sources l) k") (auto simp: source_match_def)
  moreover have "tenant_match c (dget (bl_tenants (take_slots p l)) t) (held_if (capped_tenant t) (p # held))" for t
    using m [of t] assms(4) by (auto simp: tenant_match_def slots_simps split: option.splits)
  moreover have "counters_match (take_slots p l) (p # held)"
    using assms(1) by (auto simp: budget_inv_def counters_match_def)
  ultimately show ?thesis using assms(1,2) by (simp add: budget_inv_def tenants_match_iff sources_match_iff)
qed

lemma release_inv:
  assumes "budget_inv c (l, held)" and i: "i < length held"
  shows "budget_inv c (release (held ! i) l, take i held @ drop (Suc i) held)"
proof -
  define p rest where "p = held ! i" and "rest = take i held @ drop (Suc i) held"
  have r: "held_if P held = (if P p then 1 else 0) + held_if P rest" for P
    unfolding p_def rest_def by (rule held_if_remove [OF i])
  have m: "tenant_match c (dget (bl_tenants l) t') (held_if (capped_tenant t') held)" for t'
    using assms(1) by (simp add: budget_inv_def tenants_match_iff)
  have k: "source_match c k (dget (bl_sources l) k) (held_if (of_source k) held)" for k
    using assms(1) by (simp add: budget_inv_def sources_match_iff)
  have "source_match c k (dget (bl_sources (release p l)) k) (held_if (of_source k) rest)" for k
    using k [of k] by (cases "dget (bl_sources l) k") (auto simp: source_match_def r)
  moreover have "tenant_match c (dget (bl_tenants (release p l)) t) (held_if (capped_tenant t) rest)" for t
    using m [of t] by (auto simp: tenant_match_def slots_simps r split: option.splits if_splits)
  moreover have "counters_match (release p l) rest"
    using assms i by (auto simp: budget_inv_def counters_match_def r rest_def)
  moreover have "length held = Suc (length rest)" using i by (simp add: rest_def)
  ultimately have "budget_inv c (release p l, rest)"
    using assms(1) by (simp add: budget_inv_def tenants_match_iff sources_match_iff)
  then show ?thesis by (simp only: p_def rest_def)
qed

text \<open>What the admission amounts to.\<close>

lemma admit_granted:
  "(\<exists>p. fst (admit multi src t l) = Inr p) \<longleftrightarrow>
    bl_global l \<noteq> 0 \<and> dget (bl_sources l) src \<noteq> Some 0 \<and> (multi \<longrightarrow> fst (get_tenant_semaphore t l) \<noteq> 0)"
  by (simp add: admit_def split_def Let_def)

lemma admit_inv:
  assumes inv: "budget_inv c (l, held)" and adm: "admit multi src t l = (r, l')"
  shows "budget_inv c (case r of Inr p \<Rightarrow> (l', p # held) | Inl e \<Rightarrow> (l', held))"
proof -
  let ?l = "if multi then snd (get_tenant_semaphore t l) else l"
  let ?p = "\<lparr>pm_source = src, pm_tenant = t, pm_tenant_acquired = multi\<rparr>"
  have l: "budget_inv c (?l, held)" using inv get_tenant_semaphore_inv [OF inv, of t] by simp
  show ?thesis
  proof (cases "\<exists>p. fst (admit multi src t l) = Inr p")
    case True
    then have g: "bl_global l \<noteq> 0" "dget (bl_sources l) src \<noteq> Some 0" "multi \<longrightarrow> fst (get_tenant_semaphore t l) \<noteq> 0"
      unfolding admit_granted by simp_all
    then have "r = Inr ?p" "l' = take_slots ?p ?l" using adm by (auto simp: admit_def split_def Let_def split: if_splits)
    then show ?thesis using g l by (auto intro!: take_slots_inv simp: get_tenant_semaphore_fields(1-4))
  next
    case False
    then obtain e where "r = Inl e" using adm by (cases r) auto
    moreover have "l' = l \<or> l' = ?l" using adm False by (auto simp: admit_def split_def Let_def split: if_splits)
    ultimately show ?thesis using inv l by auto
  qed
qed

lemma acquire_inv:
  assumes "budget_inv c (l, held)" and "acquire env current source tenant_id l = (r, l')"
  shows "budget_inv c (case r of Inr p \<Rightarrow> (l', p # held) | Inl e \<Rightarrow> (l', held))"
proof -
  consider e where "r = Inl e" "l' = l" | m s t where "admit m s t l = (r, l')"
    using assms(2) by (auto simp: acquire_def Let_def split: sum.splits)
  then show ?thesis using assms(1) admit_inv by cases auto
qed

lemma budget_step_inv: "budget_inv c s \<Longrightarrow> budget_inv c (budget_step e s)"
proof (cases "(e, s)" rule: budget_step.cases)
  case (1 env current source tenant_id l held)
  assume "budget_inv c s"
  then have inv: "budget_inv c (l, held)" using 1 by simp
  obtain r l' where acq: "acquire env current source tenant_id l = (r, l')" by fastforce
  show ?thesis using acquire_inv [OF inv acq] 1 acq by (simp split: sum.splits)
next
  case (2 i l held)
  assume "budget_inv c s"
  then show ?thesis using 2 release_inv [of c l held i] by simp
qed

interpretation budgets: machine budget_step "budget_inv c"
  by unfold_locales (rule budget_step_inv)

lemma make_limiter_inv:
  assumes "make_limiter c = Some l"
  shows "budget_inv c (l, [])"
proof -
  have ok: "0 \<le> bc_total c" "\<And>k n. dget (source_caps c) k = Some n \<Longrightarrow> 0 \<le> n"
    and l: "l = \<lparr>bl_config = c, bl_global = nat (bc_total c), bl_sources = map (\<lambda>(k, n). (k, nat n)) (source_caps c),
       bl_tenants = [], bl_inflight_total = 0,
       bl_by_source = [(''webhook'', 0), (''trigger'', 0), (''scheduler'', 0), (''bridge'', 0), (''unknown'', 0)], bl_by_tenant = []\<rparr>"
    using assms by (auto simp: make_limiter_def split: if_splits dest!: dget_in)
  have "source_match c k (dget (map (\<lambda>(k, n). (k, nat n)) (source_caps c)) k) 0" for k
    using ok(2) [of k] by (cases "dget (source_caps c) k") (simp_all add: source_match_def map_of_map)
  then show ?thesis using ok(1)
    by (simp add: l budget_inv_def sources_match_iff tenants_match_def counters_match_def get_or_zero_def)
qed

subsection \<open>Properties\<close>

text \<open>
  C15: the concurrency caps hold and the counters are right: after any sequence of entries
  and exits, the permits held number at most the total cap, at most the cap of each source
  and, in multi-tenant mode, at most the cap of each tenant (one at least), and the
  statistics count them.
\<close>

theorem concurrency_caps:
  assumes "make_limiter c = Some l0" and "(l, held) = fold budget_step es (l0, [])"
  shows "int (length held) \<le> bc_total c
    \<and> (\<forall>(k, n) \<in> set (source_caps c). int (held_if (of_source k) held) \<le> n)
    \<and> int (held_if (capped_tenant t) held) \<le> max 1 (bc_per_tenant c)
    \<and> bl_inflight_total l = int (length held)
    \<and> get_or_zero (bl_by_source l) k = int (held_if (of_source k) held)"
proof -
  have inv: "budget_inv c (l, held)" unfolding assms(2) by (rule budgets.run_inv [OF make_limiter_inv [OF assms(1)]])
  have "int (held_if (of_source k) held) \<le> n" if "(k, n) \<in> set (source_caps c)" for k n
  proof -
    have "dget (source_caps c) k = Some n" using that by (auto simp: source_caps_def)
    then show ?thesis using inv by (auto simp: budget_inv_def sources_match_def split: option.splits dest!: spec [of _ k])
  qed
  moreover have "int (held_if (capped_tenant t) held) \<le> max 1 (bc_per_tenant c)"
    using inv by (auto simp: budget_inv_def tenants_match_def split: option.splits dest!: spec [of _ t])
  ultimately show ?thesis using inv by (auto simp: budget_inv_def counters_match_def)
qed

text \<open>
  Admission is exact, so no slot is ever lost: in a state reached by any entries and
  exits, a submission of a source with a valid tenant is admitted if and only if fewer
  permits are held than the total cap, than the cap of its source where it has one, and in
  multi-tenant mode than the cap of its tenant.
\<close>

theorem admission_exact:
  assumes "make_limiter c = Some l0" and "(l, held) = fold budget_step es (l0, [])" and "normalize_tenant_id tenant = Inr t"
  shows "(\<exists>p. fst (acquire env current source (Some tenant) l) = Inr p) \<longleftrightarrow>
    int (length held) < bc_total c
    \<and> (case dget (source_caps c) (normalize_source l source) of None \<Rightarrow> True
        | Some n \<Rightarrow> int (held_if (of_source (normalize_source l source)) held) < n)
    \<and> (is_multi_tenant_enabled env \<longrightarrow> int (held_if (capped_tenant t) held) < max 1 (bc_per_tenant c))"
proof -
  let ?src = "normalize_source l source"
  have inv: "budget_inv c (l, held)" unfolding assms(2) by (rule budgets.run_inv [OF make_limiter_inv [OF assms(1)]])
  have t: "tenant_match c (dget (bl_tenants l) t) (held_if (capped_tenant t) held)"
    and k: "source_match c ?src (dget (bl_sources l) ?src) (held_if (of_source ?src) held)"
    using inv by (simp_all add: budget_inv_def tenants_match_iff sources_match_iff)
  have ne: "tenant \<noteq> []" using assms(3) by (auto simp: normalize_tenant_id_def py_strip_def py_lower_def)
  have "acquire env current source (Some tenant) l =
      admit (is_multi_tenant_enabled env) ?src (if is_multi_tenant_enabled env then t else DEFAULT_TENANT_ID) l"
    using ne assms(3) by (auto simp: acquire_def neq_Nil_conv)
  then have "(\<exists>p. fst (acquire env current source (Some tenant) l) = Inr p) \<longleftrightarrow>
      bl_global l \<noteq> 0 \<and> dget (bl_sources l) ?src \<noteq> Some 0 \<and> (is_multi_tenant_enabled env \<longrightarrow> fst (get_tenant_semaphore t l) \<noteq> 0)"
    using admit_granted [of "is_multi_tenant_enabled env" ?src "if is_multi_tenant_enabled env then t else DEFAULT_TENANT_ID" l] by simp
  moreover have "bl_global l \<noteq> 0 \<longleftrightarrow> int (length held) < bc_total c" using inv by (auto simp: budget_inv_def)
  moreover have "dget (bl_sources l) ?src \<noteq> Some 0 \<longleftrightarrow> (case dget (source_caps c) ?src of None \<Rightarrow> True
        | Some n \<Rightarrow> int (held_if (of_source ?src) held) < n)"
    using k by (cases "dget (bl_sources l) ?src") (auto simp: source_match_def)
  moreover have "fst (get_tenant_semaphore t l) \<noteq> 0 \<longleftrightarrow> int (held_if (capped_tenant t) held) < max 1 (bc_per_tenant c)"
    using t inv by (cases "dget (bl_tenants l) t") (auto simp: get_tenant_semaphore_fields tenant_match_def tenant_cap_def budget_inv_def)
  ultimately show ?thesis by simp
qed

definition demo_budgets :: budget_config where
  "demo_budgets = load_budget_config Map.empty"

definition demo_limiter :: budget_limiter where
  "demo_limiter = the (make_limiter demo_budgets)"

lemma demo_limiter: "make_limiter demo_budgets = Some demo_limiter"
  by (simp add: demo_limiter_def make_limiter_def demo_budgets_def load_budget_config_def get_env_int_def source_caps_def)

theorem concurrency_caps_witness:
  "int (length (snd (fold budget_step [B_enter Map.empty [] ''webhook'' None, B_enter Map.empty [] ''bridge'' None] (demo_limiter, [])))) \<le> 2"
proof -
  have "bc_total demo_budgets = 2" by code_simp
  then show ?thesis
    using concurrency_caps [OF demo_limiter prod.collapse, of "[B_enter Map.empty [] ''webhook'' None, B_enter Map.empty [] ''bridge'' None]"]
    by presburger
qed

theorem admission_exact_witness:
  "\<exists>p. fst (acquire Map.empty [] ''trigger'' (Some ''acme'') demo_limiter) = Inr p"
proof -
  have n: "normalize_tenant_id ''acme'' = Inr ''acme''" by code_simp
  have multi: "\<not> is_multi_tenant_enabled Map.empty" by (simp add: is_multi_tenant_enabled_def env_value_empty is_truthy_def) code_simp
  have "normalize_source demo_limiter ''trigger'' = ''trigger''" "dget (source_caps demo_budgets) ''trigger'' = Some 1" "bc_total demo_budgets = 2"
    by (code_simp+)
  then show ?thesis
    using admission_exact [OF demo_limiter, of demo_limiter "[]" "[]" "''acme''" "''acme''" Map.empty "[]" "''trigger''"] n multi by simp
qed

text \<open>When every permit has been given back, all slots are free again.\<close>

lemma all_slots_back:
  assumes "budget_inv c (l, [])"
  shows "int (bl_global l) = bc_total c" and "dget (source_caps c) k = map_option int (dget (bl_sources l) k)"
    and "bl_inflight_total l = 0"
  using assms by (auto simp: budget_inv_def sources_match_def counters_match_def split: option.splits dest!: spec [of _ k])

end
