(* ===== verification/Retry_Partition.thy ===== *)
theory Retry_Partition
  imports Contracts Json
begin

text \<open>
  \<open>services/retry_partition.py\<close>: separate retry budgets for rate limits and for transport
  failures, and \<open>services/control_plane_adapter.py\<close>, the client of the external control
  plane that retries under them behind a circuit breaker. An exception is its class, as far as
  the code distinguishes it, and its text; the random part of a pause is an argument.
\<close>

datatype exn = Runtime_error string | SSRF_error string | OS_error string | Other_exn string

definition exn_text :: "exn \<Rightarrow> string" where
  "exn_text e = (case e of Runtime_error m \<Rightarrow> m | SSRF_error m \<Rightarrow> m | OS_error m \<Rightarrow> m | Other_exn m \<Rightarrow> m)"

datatype retry_decision = Retry_rate_limit | Retry_transport | Rate_limit_exhausted | Transport_exhausted
  | Non_retryable_rejected | Retry_success

definition decision_code :: "retry_decision \<Rightarrow> string" where
  "decision_code d = (case d of Retry_rate_limit \<Rightarrow> ''R121_RETRY_RATE_LIMIT'' | Retry_transport \<Rightarrow> ''R121_RETRY_TRANSPORT''
     | Rate_limit_exhausted \<Rightarrow> ''R121_RATE_LIMIT_BUDGET_EXHAUSTED'' | Transport_exhausted \<Rightarrow> ''R121_TRANSPORT_BUDGET_EXHAUSTED''
     | Non_retryable_rejected \<Rightarrow> ''R121_NON_RETRYABLE_REJECTED'' | Retry_success \<Rightarrow> ''R121_SUCCESS'')"

definition RATE_LIMIT_CODES :: "nat list" where "RATE_LIMIT_CODES = [429]"

definition NON_RETRYABLE_CODES :: "nat list" where "NON_RETRYABLE_CODES = [401, 403, 404, 405, 410, 451]"

datatype failure_class = FC_rate_limit | FC_transport | FC_non_retryable

definition failure_class_value :: "failure_class \<Rightarrow> string" where
  "failure_class_value c = (case c of FC_rate_limit \<Rightarrow> ''rate_limit'' | FC_transport \<Rightarrow> ''transport'' | FC_non_retryable \<Rightarrow> ''non_retryable'')"

text \<open>\<open>re.search("HTTP error (\d+)", msg)\<close>: the number of the first match.\<close>

fun http_code :: "string \<Rightarrow> nat option" where
  "http_code [] = None"
| "http_code (c # s) =
     (let ds = takeWhile is_digit (drop 11 (c # s)) in
      if starts_with ''HTTP error '' (c # s) \<and> ds \<noteq> [] then digits_val 0 ds else http_code s)"

definition classify_failure :: "exn \<Rightarrow> failure_class" where
  "classify_failure e = (case e of
     Runtime_error msg \<Rightarrow>
       (case http_code msg of
          Some code \<Rightarrow> if code \<in> set RATE_LIMIT_CODES then FC_rate_limit
                      else if code \<in> set NON_RETRYABLE_CODES then FC_non_retryable else FC_transport
        | None \<Rightarrow> FC_transport)
   | SSRF_error msg \<Rightarrow> if has_sub ''DNS resolution failed'' msg \<or> has_sub ''No IP resolved'' msg then FC_transport else FC_non_retryable
   | OS_error _ \<Rightarrow> FC_transport
   | Other_exn _ \<Rightarrow> FC_non_retryable)"

subsection \<open>Lanes\<close>

record lane_state =
  la_name :: string
  la_max_retries :: int
  la_backoff_base :: real
  la_jitter_range :: real
  la_consumed :: int
  la_last_failure_time :: time

definition lane_remaining :: "lane_state \<Rightarrow> int" where
  "lane_remaining l = max 0 (la_max_retries l - la_consumed l)"

definition lane_exhausted :: "lane_state \<Rightarrow> bool" where
  "lane_exhausted l \<longleftrightarrow> la_consumed l \<ge> la_max_retries l"

definition lane_consume :: "time \<Rightarrow> lane_state \<Rightarrow> lane_state" where
  "lane_consume now l = l\<lparr>la_consumed := la_consumed l + 1, la_last_failure_time := now\<rparr>"

text \<open>The random part is \<open>u\<close>, between 0 and the jitter range.\<close>

definition backoff_seconds :: "real \<Rightarrow> lane_state \<Rightarrow> real" where
  "backoff_seconds u l = la_backoff_base l * (2 powi (la_consumed l - 1)) + u"

definition lane_reset :: "lane_state \<Rightarrow> lane_state" where
  "lane_reset l = l\<lparr>la_consumed := 0, la_last_failure_time := 0\<rparr>"

definition lane_to_dict :: "lane_state \<Rightarrow> (string \<times> json) list" where
  "lane_to_dict l = [(''name'', JStr (la_name l)), (''max_retries'', JInt (la_max_retries l)), (''consumed'', JInt (la_consumed l)),
     (''remaining'', JInt (lane_remaining l)), (''exhausted'', JBool (lane_exhausted l))]"

record retry_evidence =
  ev_decision :: retry_decision
  ev_lane :: string
  ev_attempt :: int
  ev_error :: string
  ev_failure_class :: failure_class
  ev_lane_snapshot :: "(string \<times> json) list option"

definition evidence_to_dict :: "retry_evidence \<Rightarrow> json" where
  "evidence_to_dict e = JObj ([(''decision'', JStr (decision_code (ev_decision e))), (''lane'', JStr (ev_lane e)),
     (''attempt'', JInt (ev_attempt e)), (''error'', JStr (ev_error e)),
     (''failure_class'', JStr (failure_class_value (ev_failure_class e))), (''elapsed_ms'', JFloat 0)]
     @ (case ev_lane_snapshot e of Some (x # xs) \<Rightarrow> [(''lane_snapshot'', JObj (x # xs))] | _ \<Rightarrow> []))"

record partition =
  pt_rate_limit_lane :: lane_state
  pt_transport_lane :: lane_state
  pt_evidence_log :: "retry_evidence list"

definition make_partition :: "int \<Rightarrow> int \<Rightarrow> real \<Rightarrow> real \<Rightarrow> partition" where
  "make_partition rate_limit_retries transport_retries backoff_base jitter_range =
    \<lparr>pt_rate_limit_lane = \<lparr>la_name = ''rate_limit'', la_max_retries = rate_limit_retries, la_backoff_base = backoff_base,
        la_jitter_range = jitter_range, la_consumed = 0, la_last_failure_time = 0\<rparr>,
     pt_transport_lane = \<lparr>la_name = ''transport'', la_max_retries = transport_retries, la_backoff_base = backoff_base,
        la_jitter_range = jitter_range, la_consumed = 0, la_last_failure_time = 0\<rparr>,
     pt_evidence_log = []\<rparr>"

text \<open>The evidence for a failure in a lane, after the lane has consumed it.\<close>

definition lane_evidence :: "retry_decision \<Rightarrow> retry_decision \<Rightarrow> exn \<Rightarrow> failure_class \<Rightarrow> lane_state \<Rightarrow> retry_evidence" where
  "lane_evidence retry exhausted e fc l =
    \<lparr>ev_decision = (if lane_exhausted l then exhausted else retry), ev_lane = la_name l, ev_attempt = la_consumed l,
     ev_error = exn_text e, ev_failure_class = fc, ev_lane_snapshot = Some (lane_to_dict l)\<rparr>"

definition log_evidence :: "retry_evidence \<Rightarrow> partition \<Rightarrow> partition" where
  "log_evidence ev p = p\<lparr>pt_evidence_log := pt_evidence_log p @ [ev]\<rparr>"

definition record_failure :: "time \<Rightarrow> exn \<Rightarrow> partition \<Rightarrow> retry_evidence \<times> partition" where
  "record_failure now e p = (case classify_failure e of
     FC_non_retryable \<Rightarrow>
       (let ev = \<lparr>ev_decision = Non_retryable_rejected, ev_lane = ''none'', ev_attempt = 0, ev_error = exn_text e,
          ev_failure_class = FC_non_retryable, ev_lane_snapshot = None\<rparr> in (ev, log_evidence ev p))
   | FC_rate_limit \<Rightarrow>
       (let l = lane_consume now (pt_rate_limit_lane p); ev = lane_evidence Retry_rate_limit Rate_limit_exhausted e FC_rate_limit l
        in (ev, log_evidence ev (p\<lparr>pt_rate_limit_lane := l\<rparr>)))
   | FC_transport \<Rightarrow>
       (let l = lane_consume now (pt_transport_lane p); ev = lane_evidence Retry_transport Transport_exhausted e FC_transport l
        in (ev, log_evidence ev (p\<lparr>pt_transport_lane := l\<rparr>))))"

definition backoff_for :: "real \<Rightarrow> retry_evidence \<Rightarrow> partition \<Rightarrow> real" where
  "backoff_for u ev p = (if ev_lane ev = ''rate_limit'' then backoff_seconds u (pt_rate_limit_lane p)
     else if ev_lane ev = ''transport'' then backoff_seconds u (pt_transport_lane p) else 0)"

definition should_retry :: "retry_evidence \<Rightarrow> bool" where
  "should_retry ev \<longleftrightarrow> ev_decision ev \<in> {Retry_rate_limit, Retry_transport}"

definition reset_partition :: "partition \<Rightarrow> partition" where
  "reset_partition p = p\<lparr>pt_rate_limit_lane := lane_reset (pt_rate_limit_lane p),
     pt_transport_lane := lane_reset (pt_transport_lane p), pt_evidence_log := []\<rparr>"

definition partition_diagnostics :: "partition \<Rightarrow> json" where
  "partition_diagnostics p = JObj [(''rate_limit_lane'', JObj (lane_to_dict (pt_rate_limit_lane p))),
     (''transport_lane'', JObj (lane_to_dict (pt_transport_lane p))),
     (''evidence_count'', JInt (int (length (pt_evidence_log p)))),
     (''evidence_tail'', JArr (map evidence_to_dict (take_last 5 (pt_evidence_log p))))]"

subsection \<open>Circuit breaker\<close>

datatype breaker_mode = Closed | Open | Half_open

record breaker =
  cb_failure_count :: int
  cb_last_failure_time :: time
  cb_state :: breaker_mode
  cb_failure_threshold :: int
  cb_reset_timeout :: time

definition new_breaker :: breaker where
  "new_breaker = \<lparr>cb_failure_count = 0, cb_last_failure_time = 0, cb_state = Closed, cb_failure_threshold = 5, cb_reset_timeout = 30\<rparr>"

definition cb_success :: "breaker \<Rightarrow> breaker" where
  "cb_success b = b\<lparr>cb_failure_count := 0, cb_state := Closed\<rparr>"

definition cb_failure :: "time \<Rightarrow> breaker \<Rightarrow> breaker" where
  "cb_failure now b = (let b = b\<lparr>cb_failure_count := cb_failure_count b + 1, cb_last_failure_time := now\<rparr> in
     if cb_failure_count b \<ge> cb_failure_threshold b then b\<lparr>cb_state := Open\<rparr> else b)"

definition can_attempt :: "time \<Rightarrow> breaker \<Rightarrow> bool \<times> breaker" where
  "can_attempt now b = (case cb_state b of Closed \<Rightarrow> (True, b)
     | Open \<Rightarrow> if now - cb_last_failure_time b \<ge> cb_reset_timeout b then (True, b\<lparr>cb_state := Half_open\<rparr>) else (False, b)
     | Half_open \<Rightarrow> (True, b))"

subsection \<open>Dispatch\<close>

definition ADAPTER_CONTRACT_VERSION :: string where "ADAPTER_CONTRACT_VERSION = ''1.0''"
definition MAX_RETRIES :: int where "MAX_RETRIES = 3"

datatype degrade_mode = Normal | Degraded_read_only | Retryable_unavailable | Hard_fail

definition degrade_value :: "degrade_mode \<Rightarrow> string" where
  "degrade_value m = (case m of Normal \<Rightarrow> ''normal'' | Degraded_read_only \<Rightarrow> ''degraded_read_only''
     | Retryable_unavailable \<Rightarrow> ''retryable_unavailable'' | Hard_fail \<Rightarrow> ''hard_fail'')"

record cp_response =
  cr_ok :: json
  cr_action :: string
  cr_data :: "(string, json) dict"
  cr_error :: json
  cr_degrade_mode :: degrade_mode

definition cr_to_dict :: "cp_response \<Rightarrow> json" where
  "cr_to_dict r = JObj [(''ok'', cr_ok r), (''action'', JStr (cr_action r)), (''data'', JObj (cr_data r)), (''error'', cr_error r),
     (''degrade_mode'', JStr (degrade_value (cr_degrade_mode r))), (''contract_version'', JStr ADAPTER_CONTRACT_VERSION)]"

text \<open>What a request does: it returns a JSON value, or it raises.\<close>

datatype attempt_result = Reply json | Raised exn

record adapter =
  ad_base_url :: string
  ad_breaker :: breaker

fun type_name :: "json \<Rightarrow> string" where
  "type_name JNull = ''NoneType''" | "type_name (JBool b) = ''bool''" | "type_name (JInt i) = ''int''"
| "type_name (JFloat x) = ''float''" | "type_name (JStr s) = ''str''" | "type_name (JArr l) = ''list''" | "type_name (JObj d) = ''dict''"

text \<open>The answer made from a reply; a value that is no object, or whose data is none, raises.\<close>

definition read_reply :: "string \<Rightarrow> partition \<Rightarrow> json \<Rightarrow> exn + cp_response" where
  "read_reply action p resp_data = (case resp_data of
     JObj d \<Rightarrow>
       (let field = (\<lambda>k dflt. case dget d k of None \<Rightarrow> dflt | Some v \<Rightarrow> v);
            remote_version = field ''contract_version'' (JStr []);
            degrade = (if truthy remote_version \<and> remote_version \<noteq> JStr ADAPTER_CONTRACT_VERSION then Degraded_read_only else Normal)
        in case field ''data'' (JObj d) of
             JObj data \<Rightarrow> Inr \<lparr>cr_ok = field ''ok'' (JBool True), cr_action = action,
               cr_data = dput ''_r121_lanes'' (partition_diagnostics p) data, cr_error = field ''error'' (JStr []), cr_degrade_mode = degrade\<rparr>
           | v \<Rightarrow> Inl (Other_exn ([CHR 0x27] @ type_name v @ [CHR 0x27] @ '' object is not a mapping'')))
   | v \<Rightarrow> Inl (Other_exn ([CHR 0x27] @ type_name v @ [CHR 0x27] @ '' object has no attribute '' @ [CHR 0x27] @ ''get'' @ [CHR 0x27])))"

definition cp_failure :: "string \<Rightarrow> string \<Rightarrow> degrade_mode \<Rightarrow> (string, json) dict \<Rightarrow> cp_response" where
  "cp_failure action error mode data = \<lparr>cr_ok = JBool False, cr_action = action, cr_data = data, cr_error = JStr error, cr_degrade_mode = mode\<rparr>"

text \<open>The \<open>except\<close> clause: an answer, or the state to go on with.\<close>

definition handle_failure :: "string \<Rightarrow> time \<Rightarrow> exn \<Rightarrow> partition \<Rightarrow> breaker \<Rightarrow> cp_response option \<times> partition \<times> breaker" where
  "handle_failure action now e p b =
    (let b = cb_failure now b; (ev, p) = record_failure now e p in
     (if \<not> should_retry ev then
        Some (cp_failure action (''R121 '' @ decision_code (ev_decision ev) @ '': '' @ exn_text e)
          (if ev_decision ev = Non_retryable_rejected then Hard_fail else Retryable_unavailable)
          [(''_r121_lanes'', partition_diagnostics p)])
      else None, p, b))"

text \<open>
  The loop over the attempts: \<open>env\<close> gives, for each attempt, the time and what the request
  does; \<open>i\<close> is the number of the attempt, \<open>n\<close> how many are left.
\<close>

fun dispatch_loop ::
  "string \<Rightarrow> (nat \<Rightarrow> time \<times> attempt_result) \<Rightarrow> nat \<Rightarrow> nat \<Rightarrow> string \<Rightarrow> partition \<Rightarrow> breaker \<Rightarrow> cp_response \<times> breaker" where
  "dispatch_loop action env i 0 last_error p b =
     (cp_failure action (''R121 retry loop exhausted after '' @ nat_str i @ '' attempts: '' @ last_error)
        Retryable_unavailable [(''_r121_lanes'', partition_diagnostics p)], b)"
| "dispatch_loop action env i (Suc n) last_error p b =
     (let (now, res) = env i;
          (outcome, b) = (case res of Reply j \<Rightarrow> (read_reply action p j, cb_success b) | Raised e \<Rightarrow> (Inl e, b)) in
      case outcome of
        Inr r \<Rightarrow> (r, b)
      | Inl e \<Rightarrow>
          (case handle_failure action now e p b of
             (Some r, p, b) \<Rightarrow> (r, b)
           | (None, p, b) \<Rightarrow> dispatch_loop action env (Suc i) n (exn_text e) p b))"

definition dispatch :: "string \<Rightarrow> time \<Rightarrow> (nat \<Rightarrow> time \<times> attempt_result) \<Rightarrow> adapter \<Rightarrow> cp_response \<times> adapter" where
  "dispatch action now env a =
    (if ad_base_url a = [] then (cp_failure action ''External control plane URL not configured.'' Hard_fail [], a)
     else let (ok, b) = can_attempt now (ad_breaker a) in
       if \<not> ok then
         (cp_failure action (''Circuit breaker open '' @ [CHR 0xE2, CHR 0x80, CHR 0x94] @ '' external control plane temporarily unavailable.'')
            Retryable_unavailable [], a\<lparr>ad_breaker := b\<rparr>)
       else let (r, b) = dispatch_loop action env 0 (nat (MAX_RETRIES + 2)) [] (make_partition 2 MAX_RETRIES 2 1) b
         in (r, a\<lparr>ad_breaker := b\<rparr>))"

subsection \<open>The budget of a loop\<close>

text \<open>
  A caller that stops when it is told to: \<open>failures_left\<close> bounds how many more failures it
  can record, and every recorded one that asks for a retry lowers it.
\<close>

definition lane_left :: "lane_state \<Rightarrow> nat" where
  "lane_left l = nat (la_max_retries l - 1 - la_consumed l)"

definition failures_left :: "partition \<Rightarrow> nat" where
  "failures_left p = lane_left (pt_rate_limit_lane p) + lane_left (pt_transport_lane p) + 1"

lemma record_failure_retry:
  assumes "record_failure now e p = (ev, p')" and "should_retry ev"
  shows "failures_left p' < failures_left p" and "1 \<le> failures_left p'"
  using assms by (auto simp: record_failure_def lane_evidence_def should_retry_def log_evidence_def failures_left_def lane_left_def
      lane_consume_def lane_exhausted_def Let_def split: failure_class.splits if_splits)

lemma handle_failure_cases:
  assumes "handle_failure action now e p b = (None, p', b')"
  shows "failures_left p' < failures_left p" and "1 \<le> failures_left p'" and "b' = cb_failure now b"
    and "\<exists>ev. record_failure now e p = (ev, p') \<and> should_retry ev"
  using assms record_failure_retry by (auto simp: handle_failure_def Let_def split: prod.splits if_splits)

text \<open>
  The loop as the class documents its use, without a bound on the attempts: \<open>None\<close> is a
  loop that does not end.
\<close>

partial_function (option) dispatch_forever ::
  "string \<Rightarrow> (nat \<Rightarrow> time \<times> attempt_result) \<Rightarrow> nat \<Rightarrow> string \<Rightarrow> partition \<Rightarrow> breaker \<Rightarrow> (cp_response \<times> breaker) option" where
  "dispatch_forever action env i last_error p b =
     (let (now, res) = env i;
          (outcome, b) = (case res of Reply j \<Rightarrow> (read_reply action p j, cb_success b) | Raised e \<Rightarrow> (Inl e, b)) in
      case outcome of
        Inr r \<Rightarrow> Some (r, b)
      | Inl e \<Rightarrow>
          (case handle_failure action now e p b of
             (Some r, p, b) \<Rightarrow> Some (r, b)
           | (None, p, b) \<Rightarrow> dispatch_forever action env (Suc i) (exn_text e) p b))"

lemma loop_agrees:
  "failures_left p \<le> n \<Longrightarrow> dispatch_forever action env i last_error p b = Some (dispatch_loop action env i n last_error p b)"
proof (induction n arbitrary: i last_error p b)
  case 0
  then show ?case by (simp add: failures_left_def)
next
  case (Suc n)
  have IH: "dispatch_forever action env (Suc i) e p' b' = Some (dispatch_loop action env (Suc i) n e p' b')"
    if "handle_failure action now exn p c = (None, p', b')" for e now exn c p' b'
    using handle_failure_cases(1) [OF that] Suc.prems by (intro Suc.IH) simp
  show ?case
    by (subst dispatch_forever.simps) (auto simp: Let_def IH split: prod.splits sum.splits option.splits attempt_result.splits)
qed

subsection \<open>The lanes along a history of failures\<close>

fun record_all :: "(time \<times> exn) list \<Rightarrow> partition \<Rightarrow> partition" where
  "record_all [] p = p"
| "record_all ((now, e) # es) p = record_all es (snd (record_failure now e p))"

definition failures_of :: "failure_class \<Rightarrow> (time \<times> exn) list \<Rightarrow> nat" where
  "failures_of c es = length (filter (\<lambda>(t, e). classify_failure e = c) es)"

lemma failures_of_simps [simp]: "failures_of c [] = 0"
  "failures_of c ((t, e) # es) = (if classify_failure e = c then 1 else 0) + failures_of c es"
  by (simp_all add: failures_of_def)

lemma record_failure_lanes:
  "pt_rate_limit_lane (snd (record_failure now e p)) =
    (if classify_failure e = FC_rate_limit then lane_consume now (pt_rate_limit_lane p) else pt_rate_limit_lane p)"
  "pt_transport_lane (snd (record_failure now e p)) =
    (if classify_failure e = FC_transport then lane_consume now (pt_transport_lane p) else pt_transport_lane p)"
  "length (pt_evidence_log (snd (record_failure now e p))) = Suc (length (pt_evidence_log p))"
  by (simp_all add: record_failure_def log_evidence_def Let_def split: failure_class.split)

lemma lane_consume_fields [simp]: "la_consumed (lane_consume now l) = la_consumed l + 1"
  "la_max_retries (lane_consume now l) = la_max_retries l" "la_name (lane_consume now l) = la_name l"
  by (simp_all add: lane_consume_def)

lemma record_all_lanes:
  "la_consumed (pt_rate_limit_lane (record_all es p)) = la_consumed (pt_rate_limit_lane p) + int (failures_of FC_rate_limit es)"
  "la_consumed (pt_transport_lane (record_all es p)) = la_consumed (pt_transport_lane p) + int (failures_of FC_transport es)"
  "la_max_retries (pt_rate_limit_lane (record_all es p)) = la_max_retries (pt_rate_limit_lane p)"
  "la_max_retries (pt_transport_lane (record_all es p)) = la_max_retries (pt_transport_lane p)"
  by (induction es p rule: record_all.induct) (simp_all add: record_failure_lanes)

lemma decision_of_lanes:
  "ev_decision (fst (record_failure now e p)) = (case classify_failure e of
     FC_non_retryable \<Rightarrow> Non_retryable_rejected
   | FC_rate_limit \<Rightarrow> if la_consumed (pt_rate_limit_lane p) + 1 \<ge> la_max_retries (pt_rate_limit_lane p) then Rate_limit_exhausted else Retry_rate_limit
   | FC_transport \<Rightarrow> if la_consumed (pt_transport_lane p) + 1 \<ge> la_max_retries (pt_transport_lane p) then Transport_exhausted else Retry_transport)"
  by (simp add: record_failure_def lane_evidence_def lane_exhausted_def Let_def split: failure_class.split)

text \<open>Failures within the budgets and then a reply: the loop answers with it.\<close>

lemma loop_recovers:
  assumes "\<forall>m < length es. env (i + m) = (fst (es ! m), Raised (snd (es ! m)))"
    and "env (i + length es) = (t, Reply j)" and "\<And>p. \<exists>r. read_reply action p j = Inr r"
    and "failures_of FC_non_retryable es = 0"
    and "la_consumed (pt_rate_limit_lane p) + int (failures_of FC_rate_limit es) < la_max_retries (pt_rate_limit_lane p) \<or> failures_of FC_rate_limit es = 0"
    and "la_consumed (pt_transport_lane p) + int (failures_of FC_transport es) < la_max_retries (pt_transport_lane p) \<or> failures_of FC_transport es = 0"
    and "length es < n"
  shows "\<exists>r b'. dispatch_loop action env i n le p b = (r, b') \<and> read_reply action (record_all es p) j = Inr r \<and> cb_state b' = Closed \<and> cb_failure_count b' = 0"
  using assms
proof (induction es arbitrary: i n le p b)
  case Nil
  then obtain n' where n: "n = Suc n'" by (cases n) auto
  obtain r where "read_reply action p j = Inr r" using Nil.prems(3) by blast
  then show ?case using Nil.prems(2) by (simp add: n Let_def cb_success_def)
next
  case (Cons te es)
  obtain u e where te: "te = (u, e)" by (cases te)
  obtain n' where n: "n = Suc n'" using Cons.prems(7) by (cases n) auto
  define p' where "p' = snd (record_failure u e p)"
  have env: "env i = (u, Raised e)" using Cons.prems(1) by (force simp: te dest!: spec [of _ 0])
  have lanes: "la_consumed (pt_rate_limit_lane p') = la_consumed (pt_rate_limit_lane p) + (if classify_failure e = FC_rate_limit then 1 else 0)"
    "la_consumed (pt_transport_lane p') = la_consumed (pt_transport_lane p) + (if classify_failure e = FC_transport then 1 else 0)"
    "la_max_retries (pt_rate_limit_lane p') = la_max_retries (pt_rate_limit_lane p)"
    "la_max_retries (pt_transport_lane p') = la_max_retries (pt_transport_lane p)"
    by (simp_all add: p'_def record_failure_lanes)
  have "should_retry (fst (record_failure u e p))"
    using Cons.prems(4-6) unfolding should_retry_def decision_of_lanes by (auto simp: te split: failure_class.split if_splits)
  then have h: "handle_failure action u e p b = (None, p', cb_failure u b)"
    by (simp add: handle_failure_def split_def Let_def p'_def)
  have "\<exists>r b'. dispatch_loop action env (Suc i) n' (exn_text e) p' (cb_failure u b) = (r, b')
      \<and> read_reply action (record_all es p') j = Inr r \<and> cb_state b' = Closed \<and> cb_failure_count b' = 0"
  proof (rule Cons.IH)
    show "\<forall>m < length es. env (Suc i + m) = (fst (es ! m), Raised (snd (es ! m)))"
    proof (intro allI impI)
      fix m assume "m < length es"
      then show "env (Suc i + m) = (fst (es ! m), Raised (snd (es ! m)))" using spec [OF Cons.prems(1), of "Suc m"] by simp
    qed
  qed (use Cons.prems lanes in \<open>auto simp: te n split: if_splits\<close>)
  then show ?case by (simp add: n env h te p'_def Let_def)
qed

subsection \<open>The breaker\<close>

definition breaker_ok :: "breaker \<Rightarrow> bool" where
  "breaker_ok b \<longleftrightarrow> 0 < cb_failure_threshold b \<and> (cb_state b = Closed \<longleftrightarrow> cb_failure_count b < cb_failure_threshold b)"

lemma breaker_ok_ops: "breaker_ok b \<Longrightarrow> breaker_ok (cb_success b)" "breaker_ok b \<Longrightarrow> breaker_ok (cb_failure now b)"
  "breaker_ok b \<Longrightarrow> breaker_ok (snd (can_attempt now b))"
  by (auto simp: breaker_ok_def cb_success_def cb_failure_def can_attempt_def Let_def split: breaker_mode.splits if_splits)

lemma handle_failure_breaker: "snd (snd (handle_failure action now e p b)) = cb_failure now b"
  by (simp add: handle_failure_def split_def Let_def)

lemma dispatch_loop_breaker: "breaker_ok b \<Longrightarrow> breaker_ok (snd (dispatch_loop action env i n le p b))"
proof (induction action env i n le p b rule: dispatch_loop.induct)
  case (2 action env i n le p b)
  obtain now res where env: "env i = (now, res)" by fastforce
  obtain outcome b1 where o: "(case res of Reply j \<Rightarrow> (read_reply action p j, cb_success b) | Raised e \<Rightarrow> (Inl e, b)) = (outcome, b1)" by fastforce
  have b1: "breaker_ok b1" using o 2(2) breaker_ok_ops(1) by (auto split: attempt_result.splits)
  show ?case
  proof (cases outcome)
    case (Inr r)
    then show ?thesis using b1 by (simp add: env o Let_def)
  next
    case (Inl e)
    obtain r p' b2 where h: "handle_failure action now e p b1 = (r, p', b2)" by (metis prod_cases3)
    have b2: "breaker_ok b2" using handle_failure_breaker [of action now e p b1] h breaker_ok_ops(2) [OF b1] by simp
    show ?thesis
    proof (cases r)
      case None
      show ?thesis using 2(1) [OF env [symmetric] refl o [symmetric] refl Inl h [symmetric] None refl b2]
        by (simp add: env o Inl h None Let_def)
    qed (use b2 in \<open>simp add: env o Inl h Let_def\<close>)
  qed
qed simp

lemma dispatch_breaker: "breaker_ok (ad_breaker a) \<Longrightarrow> breaker_ok (ad_breaker (snd (dispatch action now env a)))"
  using breaker_ok_ops(3) [of "ad_breaker a" now] dispatch_loop_breaker
  by (auto simp: dispatch_def split_def Let_def)

definition dispatch_step :: "string \<times> time \<times> (nat \<Rightarrow> time \<times> attempt_result) \<Rightarrow> adapter \<Rightarrow> adapter" where
  "dispatch_step e a = snd (dispatch (fst e) (fst (snd e)) (snd (snd e)) a)"

interpretation adapter: machine dispatch_step "\<lambda>a. breaker_ok (ad_breaker a)"
  by unfold_locales (simp add: dispatch_step_def dispatch_breaker)

subsection \<open>Properties\<close>

text \<open>
  C26: the retry loop ends: run without any bound on the attempts, as the class documents
  its use, it returns for every behaviour of the server, and the bounded loop of the adapter
  computes the same answer, so its bound of five attempts never cuts it short.
\<close>

theorem retry_loop_terminates:
  "dispatch_forever action env 0 [] (make_partition 2 MAX_RETRIES 2 1) b
    = Some (dispatch_loop action env 0 (nat (MAX_RETRIES + 2)) [] (make_partition 2 MAX_RETRIES 2 1) b)"
  by (rule loop_agrees) (simp add: failures_left_def lane_left_def make_partition_def MAX_RETRIES_def)

text \<open>
  The lanes are isolated: after any history of failures, the decision on the next one
  depends only on its class and on how many failures of the same class came before: it is
  rejected at once if it is not retryable, retried while the count including it is below the
  number of retries of its lane, and refused from then on.
\<close>

theorem lanes_isolated:
  "ev_decision (fst (record_failure now e (record_all es (make_partition rl tr base jitter)))) =
    (case classify_failure e of
       FC_non_retryable \<Rightarrow> Non_retryable_rejected
     | FC_rate_limit \<Rightarrow> if int (failures_of FC_rate_limit es) + 1 < rl then Retry_rate_limit else Rate_limit_exhausted
     | FC_transport \<Rightarrow> if int (failures_of FC_transport es) + 1 < tr then Retry_transport else Transport_exhausted)"
  by (simp add: decision_of_lanes record_all_lanes make_partition_def split: failure_class.split)

text \<open>
  C27: a server that recovers within the budgets is answered: if the attempts before the
  first reply fail with at most one rate limit and at most two transport failures, the
  dispatch returns the reply's answer and leaves the breaker closed.
\<close>

theorem recovery_within_budget:
  assumes "ad_base_url a \<noteq> []" and "fst (can_attempt now (ad_breaker a))"
    and "\<forall>m < length es. env m = (fst (es ! m), Raised (snd (es ! m)))" and "env (length es) = (t, Reply j)"
    and "\<forall>p. \<exists>r. read_reply action p j = Inr r"
    and "failures_of FC_non_retryable es = 0" and "failures_of FC_rate_limit es \<le> 1" and "failures_of FC_transport es \<le> 2"
  shows "\<exists>p r a'. dispatch action now env a = (r, a') \<and> read_reply action p j = Inr r
    \<and> cb_state (ad_breaker a') = Closed \<and> cb_failure_count (ad_breaker a') = 0"
proof -
  let ?p = "make_partition 2 MAX_RETRIES 2 1"
  have "length es = failures_of FC_non_retryable es + failures_of FC_rate_limit es + failures_of FC_transport es" for es
  proof (induction es)
    case (Cons te es)
    then show ?case by (cases te; cases "classify_failure (snd te)") auto
  qed simp
  then have "length es < nat (MAX_RETRIES + 2)" using assms(6-8) by (simp add: MAX_RETRIES_def)
  then obtain r b' where "dispatch_loop action env 0 (nat (MAX_RETRIES + 2)) [] ?p (snd (can_attempt now (ad_breaker a))) = (r, b')"
    "read_reply action (record_all es ?p) j = Inr r" "cb_state b' = Closed" "cb_failure_count b' = 0"
    using loop_recovers [of es env 0 t j action ?p "nat (MAX_RETRIES + 2)" "[]" "snd (can_attempt now (ad_breaker a))"] assms
    by (auto simp: make_partition_def MAX_RETRIES_def)
  then show ?thesis using assms(1,2) by (auto simp: dispatch_def split_def Let_def)
qed

definition demo_server :: "nat \<Rightarrow> time \<times> attempt_result" where
  "demo_server i = (if i = 0 then (1, Raised (Runtime_error ''HTTP error 429''))
     else if i = 1 then (2, Raised (OS_error ''reset'')) else (3, Reply (JObj [])))"

theorem recovery_within_budget_witness:
  "\<exists>p r a'. dispatch ''status'' 0 demo_server \<lparr>ad_base_url = ''u'', ad_breaker = new_breaker\<rparr> = (r, a')
    \<and> read_reply ''status'' p (JObj []) = Inr r \<and> cb_state (ad_breaker a') = Closed \<and> cb_failure_count (ad_breaker a') = 0"
proof (rule recovery_within_budget [where es = "[(1, Runtime_error ''HTTP error 429''), (2, OS_error ''reset'')]"])
  have c: "classify_failure (Runtime_error ''HTTP error 429'') = FC_rate_limit" "classify_failure (OS_error ''reset'') = FC_transport"
    by code_simp+
  show "failures_of FC_non_retryable [(1, Runtime_error ''HTTP error 429''), (2, OS_error ''reset'')] = 0"
    "failures_of FC_rate_limit [(1, Runtime_error ''HTTP error 429''), (2, OS_error ''reset'')] \<le> 1"
    "failures_of FC_transport [(1, Runtime_error ''HTTP error 429''), (2, OS_error ''reset'')] \<le> 2" by (simp_all add: c)
qed (auto simp: can_attempt_def new_breaker_def demo_server_def less_Suc_eq read_reply_def Let_def)

text \<open>
  The breaker: whatever dispatches have run, once five attempts in a row have
  failed, a dispatch within 30 seconds of the last failure sends nothing: it answers that
  the service is unavailable, whatever the server would do, and changes nothing.
\<close>

theorem breaker_blocks:
  assumes "breaker_ok (ad_breaker a0)" and "a = fold dispatch_step ds a0"
    and "cb_failure_count (ad_breaker a) \<ge> cb_failure_threshold (ad_breaker a)" and "cb_state (ad_breaker a) \<noteq> Half_open"
    and "now - cb_last_failure_time (ad_breaker a) < cb_reset_timeout (ad_breaker a)" and "ad_base_url a \<noteq> []"
  shows "dispatch action now env a = dispatch action now env' a \<and> snd (dispatch action now env a) = a
    \<and> cr_degrade_mode (fst (dispatch action now env a)) = Retryable_unavailable"
proof -
  have "breaker_ok (ad_breaker a)" unfolding assms(2) using assms(1) by (rule adapter.run_inv)
  then have "cb_state (ad_breaker a) = Open" using assms(3,4) by (cases "cb_state (ad_breaker a)") (auto simp: breaker_ok_def)
  then have "can_attempt now (ad_breaker a) = (False, ad_breaker a)" using assms(5) by (simp add: can_attempt_def)
  then show ?thesis using assms(6) by (simp add: dispatch_def cp_failure_def)
qed

definition failing_server :: "nat \<Rightarrow> time \<times> attempt_result" where
  "failing_server i = (10, Raised (OS_error ''down''))"

theorem breaker_blocks_witness:
  "snd (dispatch ''status'' 20 demo_server (fold dispatch_step [(''a'', 9, failing_server), (''b'', 9, failing_server)]
      \<lparr>ad_base_url = ''u'', ad_breaker = new_breaker\<rparr>))
    = fold dispatch_step [(''a'', 9, failing_server), (''b'', 9, failing_server)] \<lparr>ad_base_url = ''u'', ad_breaker = new_breaker\<rparr>"
proof -
  let ?a = "fold dispatch_step [(''a'', 9, failing_server), (''b'', 9, failing_server)] \<lparr>ad_base_url = ''u'', ad_breaker = new_breaker\<rparr>"
  have "cb_failure_count (ad_breaker ?a) = 6 \<and> cb_failure_threshold (ad_breaker ?a) = 5 \<and> cb_state (ad_breaker ?a) = Open
    \<and> cb_last_failure_time (ad_breaker ?a) = 10 \<and> cb_reset_timeout (ad_breaker ?a) = 30 \<and> ad_base_url ?a = ''u''"
    by code_simp
  then show ?thesis
    using breaker_blocks [of "\<lparr>ad_base_url = ''u'', ad_breaker = new_breaker\<rparr>" ?a "[(''a'', 9, failing_server), (''b'', 9, failing_server)]" 20]
    by (auto simp: breaker_ok_def new_breaker_def)
qed

text \<open>A lane of \<open>n\<close> retries is exhausted by its \<open>n\<close>-th failure: it retries once less.\<close>

lemma one_retry_less:
  "\<not> should_retry (fst (record_failure now (Runtime_error ''HTTP error 429'') (make_partition 1 n base jitter)))"
proof -
  have "classify_failure (Runtime_error ''HTTP error 429'') = FC_rate_limit" by code_simp
  then show ?thesis using decision_of_lanes [of now "Runtime_error ''HTTP error 429''" "make_partition 1 n base jitter"]
    by (simp add: should_retry_def make_partition_def)
qed

text \<open>A half-open breaker does not stop a dispatch after one attempt: it sends three requests.\<close>

lemma half_open_sends_more:
  "cb_failure_count (ad_breaker (snd (dispatch ''status'' 50 failing_server
     \<lparr>ad_base_url = ''u'', ad_breaker = new_breaker\<lparr>cb_state := Half_open, cb_failure_count := 5\<rparr>\<rparr>))) = 8"
  by code_simp

end
