(* ===== verification/Ttl_Cache.thy ===== *)
theory Ttl_Cache
  imports Contracts
begin

text \<open>
  \<open>services/cache/ttl_cache.py\<close>: a cache with a time to live and a bounded size that
  forgets the least recently used entry. The \<open>OrderedDict\<close> is the association list in its
  order; a method under its lock is one step.
\<close>

declare map_of_eq_Some_iff [simp del]

record 'v ttl_cache =
  tc_max_size :: int
  tc_ttl_sec :: time
  tc_cache :: "(string, time \<times> 'v) dict"

definition make_cache :: "int \<Rightarrow> time \<Rightarrow> 'v ttl_cache" where
  "make_cache max_size ttl_sec = \<lparr>tc_max_size = max_size, tc_ttl_sec = ttl_sec, tc_cache = []\<rparr>"

definition move_to_end :: "'k \<Rightarrow> ('k, 'v) dict \<Rightarrow> ('k, 'v) dict" where
  "move_to_end k d = (case dget d k of None \<Rightarrow> d | Some v \<Rightarrow> ddel k d @ [(k, v)])"

definition cache_get :: "time \<Rightarrow> string \<Rightarrow> 'v ttl_cache \<Rightarrow> 'v option \<times> 'v ttl_cache" where
  "cache_get now key c = (case dget (tc_cache c) key of
     None \<Rightarrow> (None, c)
   | Some (ts, v) \<Rightarrow>
       if now - ts > tc_ttl_sec c then (None, c\<lparr>tc_cache := ddel key (tc_cache c)\<rparr>)
       else (Some v, c\<lparr>tc_cache := move_to_end key (tc_cache c)\<rparr>))"

definition put_last :: "'k \<Rightarrow> 'v \<Rightarrow> ('k, 'v) dict \<Rightarrow> ('k, 'v) dict" where
  "put_last key v d = dput key v (if dget d key \<noteq> None then move_to_end key d else d)"

definition cache_put :: "time \<Rightarrow> string \<Rightarrow> 'v \<Rightarrow> 'v ttl_cache \<Rightarrow> 'v ttl_cache" where
  "cache_put now key v c =
    (let d = put_last key (now, v) (tc_cache c) in c\<lparr>tc_cache := (if int (length d) > tc_max_size c then tl d else d)\<rparr>)"

definition cache_cleanup :: "time \<Rightarrow> 'v ttl_cache \<Rightarrow> nat \<times> 'v ttl_cache" where
  "cache_cleanup now c =
    (let d = filter (\<lambda>(k, (ts, v)). \<not> now - ts > tc_ttl_sec c) (tc_cache c)
     in (length (tc_cache c) - length d, c\<lparr>tc_cache := d\<rparr>))"

definition cache_len :: "'v ttl_cache \<Rightarrow> nat" where
  "cache_len c = length (tc_cache c)"

subsection \<open>Every operation keeps the cache well formed\<close>

datatype 'v cache_op = Get time string | Put time string 'v | Cleanup time

fun cache_step :: "'v cache_op \<Rightarrow> 'v ttl_cache \<Rightarrow> 'v ttl_cache" where
  "cache_step (Get now k) c = snd (cache_get now k c)"
| "cache_step (Put now k v) c = cache_put now k v c"
| "cache_step (Cleanup now) c = snd (cache_cleanup now c)"

definition cache_ok :: "'v ttl_cache \<Rightarrow> bool" where
  "cache_ok c \<longleftrightarrow> dict_ok (tc_cache c) \<and> int (length (tc_cache c)) \<le> tc_max_size c"

lemma keys_move_to_end: "dict_ok d \<Longrightarrow> dget d k \<noteq> None \<Longrightarrow> dkeys (move_to_end k d) = filter (\<lambda>x. x \<noteq> k) (dkeys d) @ [k]"
  by (auto simp: move_to_end_def ddel_filter filter_map comp_def)

lemma dict_ok_move_to_end [simp]: "dict_ok d \<Longrightarrow> dict_ok (move_to_end k d)"
  by (cases "dget d k") (auto simp: move_to_end_def ddel_filter dict_simps)

lemma dget_move_to_end [simp]: "dict_ok d \<Longrightarrow> dget (move_to_end k d) k' = dget d k'"
  by (auto simp: move_to_end_def map_add_def dict_simps split: option.split)

lemma length_move_to_end [simp]: "dict_ok d \<Longrightarrow> length (move_to_end k d) = length d"
  using length_ddel [of d k] by (simp add: move_to_end_def split: option.split)

text \<open>After a put the key is the last one.\<close>

lemma put_keys:
  assumes "dict_ok d"
  shows "dkeys (put_last k v d) = filter (\<lambda>x. x \<noteq> k) (dkeys d) @ [k]"
proof (cases "dget d k = None")
  case True
  then have "k \<notin> set (dkeys d)" by (simp add: map_of_eq_None_iff)
  then show ?thesis using True by (auto simp: put_last_def dput_new intro!: filter_True [symmetric])
next
  case False
  then have "dget (move_to_end k d) k \<noteq> None" using assms by simp
  then show ?thesis using False by (simp add: put_last_def dkeys_dput_mem keys_move_to_end assms)
qed

lemma put_last_dict:
  assumes "dict_ok d"
  shows "dict_ok (put_last k v d)" and "dget (put_last k v d) k' = (if k' = k then Some v else dget d k')"
    and "length (put_last k v d) \<le> Suc (length d)"
proof -
  have "length (dput k v (if dget d k \<noteq> None then move_to_end k d else d)) \<le> Suc (length (if dget d k \<noteq> None then move_to_end k d else d))"
    by (rule length_dput_le)
  then show "length (put_last k v d) \<le> Suc (length d)" using assms by (auto simp: put_last_def split: if_splits)
qed (use assms in \<open>auto simp: put_last_def dict_simps\<close>)

lemma cache_step_ok:
  assumes "cache_ok c" and "0 \<le> tc_max_size c"
  shows "cache_ok (cache_step op c)" and "tc_max_size (cache_step op c) = tc_max_size c"
proof -
  note ok = assms(1) [unfolded cache_ok_def]
  show "tc_max_size (cache_step op c) = tc_max_size c"
    by (cases op) (auto simp: cache_get_def cache_put_def cache_cleanup_def Let_def split: option.splits)
  show "cache_ok (cache_step op c)"
  proof (cases op)
    case (Get now k)
    have "length (ddel k (tc_cache c)) \<le> length (tc_cache c)" by (simp add: ddel_filter)
    then show ?thesis using ok
      by (auto simp: Get cache_get_def cache_ok_def dict_simps split: option.split)
  next
    case (Cleanup now)
    define d where "d = filter (\<lambda>(k, ts, v). \<not> now - ts > tc_ttl_sec c) (tc_cache c)"
    have "dict_ok d \<and> length d \<le> length (tc_cache c)" using ok by (auto simp: d_def dict_simps simp del: not_less)
    then show ?thesis using ok by (simp add: Cleanup cache_cleanup_def cache_ok_def Let_def flip: d_def)
  next
    case (Put now k v)
    define d where "d = put_last k (now, v) (tc_cache c)"
    have d: "dict_ok d" "length d \<le> Suc (length (tc_cache c))" using ok put_last_dict by (auto simp: d_def)
    then have "dict_ok (tl d)" by (simp add: distinct_tl map_tl)
    then show ?thesis using ok assms(2) d by (simp add: Put cache_put_def cache_ok_def Let_def flip: d_def)
  qed
qed

interpretation cache: machine cache_step "\<lambda>c. cache_ok c \<and> 0 \<le> tc_max_size c"
  by unfold_locales (simp add: cache_step_ok)

subsection \<open>Recently used entries stay\<close>

text \<open>
  The keys that come after a key in the order are those used since it was used last; the
  entry is dropped for size only when \<open>max_size\<close> others have been.
\<close>

definition later :: "'k \<Rightarrow> 'k list \<Rightarrow> 'k set" where
  "later k ks = set (takeWhile (\<lambda>x. x \<noteq> k) (rev ks))"

lemma takeWhile_filter_ne: "P k \<Longrightarrow> takeWhile (\<lambda>x. x \<noteq> k) (filter P xs) = filter P (takeWhile (\<lambda>x. x \<noteq> k) xs)"
  by (induction xs) auto

lemma later_filter: "P k \<Longrightarrow> later k (filter P ks) \<subseteq> later k ks"
  by (auto simp: later_def rev_filter takeWhile_filter_ne)

lemma later_used: "later k (filter (\<lambda>x. x \<noteq> y) ks @ [y]) \<subseteq> (if y = k then {} else insert y (later k ks))"
  using later_filter [of "\<lambda>x. x \<noteq> y" k ks] by (auto simp: later_def)

lemma later_tl: "k \<in> set (tl ks) \<Longrightarrow> later k (tl ks) = later k ks"
  by (cases ks) (auto simp: later_def takeWhile_append1)

lemma later_hd: "distinct (k # ks) \<Longrightarrow> later k (k # ks) = set ks"
proof -
  assume "distinct (k # ks)"
  then have "\<forall>x \<in> set (rev ks). x \<noteq> k" by auto
  then show ?thesis using takeWhile_append2 [of "rev ks" "\<lambda>x. x \<noteq> k" "[k]"] by (auto simp: later_def)
qed

fun touched :: "'v cache_op \<Rightarrow> string set" where
  "touched (Get now k) = {k}"
| "touched (Put now k v) = {k}"
| "touched (Cleanup now) = {}"

fun op_time :: "'v cache_op \<Rightarrow> time" where
  "op_time (Get now k) = now"
| "op_time (Put now k v) = now"
| "op_time (Cleanup now) = now"

definition kept :: "string \<Rightarrow> time \<Rightarrow> 'v \<Rightarrow> string set \<Rightarrow> 'v ttl_cache \<Rightarrow> bool" where
  "kept k t v A c \<longleftrightarrow> cache_ok c \<and> dget (tc_cache c) k = Some (t, v) \<and> later k (dkeys (tc_cache c)) \<subseteq> A
     \<and> finite A \<and> int (card A) < tc_max_size c"

text \<open>Dropping the first entry keeps a key with few enough later ones.\<close>

lemma tl_keeps:
  assumes "dict_ok d" and "dget d k = Some w" and "later k (dkeys d) \<subseteq> A" and "finite A" and "card A + 1 < length d"
  shows "dget (tl d) k = Some w" and "later k (dkeys (tl d)) \<subseteq> A"
proof -
  obtain p e where d: "d = p # e" using assms(2) by (cases d) auto
  have "fst p \<noteq> k"
  proof
    assume "fst p = k"
    then have "later k (dkeys d) = set (dkeys e)" using assms(1) later_hd [of k "dkeys e"] by (simp add: d)
    then have "card (set (dkeys e)) \<le> card A" using assms(3,4) by (simp add: card_mono)
    then show False using assms(1,5) distinct_card [of "dkeys e"] by (simp add: d)
  qed
  then show "dget (tl d) k = Some w" using assms(2) by (simp add: d)
  then have "k \<in> set (tl (dkeys d))" by (auto simp: d dest!: dget_in intro: rev_image_eqI)
  then show "later k (dkeys (tl d)) \<subseteq> A" using later_tl [of k "dkeys d"] assms(3) by (simp add: d)
qed

lemma kept_step:
  assumes "kept k t v A c" and "touched op - {k} \<subseteq> A" and "\<And>now w. op \<noteq> Put now k w" and "op_time op \<le> t + tc_ttl_sec c"
  shows "kept k t v A (cache_step op c)" and "tc_ttl_sec (cache_step op c) = tc_ttl_sec c"
proof -
  note c = assms(1) [unfolded kept_def]
  have ok: "dict_ok (tc_cache c)" "0 \<le> tc_max_size c" using c by (auto simp: cache_ok_def)
  have step: "cache_ok (cache_step op c)" "tc_max_size (cache_step op c) = tc_max_size c" using cache_step_ok [of c op] c ok(2) by auto
  show "tc_ttl_sec (cache_step op c) = tc_ttl_sec c"
    by (cases op) (auto simp: cache_get_def cache_put_def cache_cleanup_def Let_def split: option.splits)
  have "dget (tc_cache (cache_step op c)) k = Some (t, v) \<and> later k (dkeys (tc_cache (cache_step op c))) \<subseteq> A"
  proof (cases op)
    case (Get now x)
    have "later k (dkeys (move_to_end x (tc_cache c))) \<subseteq> A" if "dget (tc_cache c) x \<noteq> None"
      using later_used [of k x "dkeys (tc_cache c)"] c assms(2) that by (auto simp: keys_move_to_end ok Get split: if_splits)
    moreover have "later k (dkeys (ddel x (tc_cache c))) \<subseteq> A" if "x \<noteq> k"
      using later_filter [of "\<lambda>y. y \<noteq> x" k "dkeys (tc_cache c)"] c that by (auto simp: ddel_filter filter_map comp_def)
    ultimately show ?thesis using c assms(4) ok
      by (auto simp: Get cache_get_def dict_simps split: option.split)
  next
    case (Put now x w)
    define d where "d = put_last x (now, w) (tc_cache c)"
    have x: "x \<noteq> k" "x \<in> A" using assms(2,3) Put by auto
    have d: "dict_ok d" "dget d k = Some (t, v)" using put_last_dict [OF ok(1)] c x(1) by (simp_all add: d_def)
    have l: "later k (dkeys d) \<subseteq> A" using later_used [of k x "dkeys (tc_cache c)"] c x unfolding d_def put_keys [OF ok(1)] by auto
    have fit: "card A + 1 < length d" if "int (length d) > tc_max_size c" using that c by simp
    show ?thesis using tl_keeps [OF d l _ fit] d l c by (simp add: Put cache_put_def Let_def flip: d_def)
  next
    case (Cleanup now)
    have "dkeys (filter (\<lambda>(k, ts, v). \<not> now - ts > tc_ttl_sec c) (tc_cache c)) =
        filter (\<lambda>x. case dget (tc_cache c) x of None \<Rightarrow> False | Some (ts, v) \<Rightarrow> \<not> now - ts > tc_ttl_sec c) (dkeys (tc_cache c))"
      using ok(1) by (auto simp: filter_map comp_def dget_iff [THEN iffD2] intro!: arg_cong [where f = "map fst"] filter_cong)
    then show ?thesis using c assms(4) ok(1) later_filter [of "\<lambda>x. case dget (tc_cache c) x of None \<Rightarrow> False | Some (ts, v) \<Rightarrow> \<not> now - ts > tc_ttl_sec c" k "dkeys (tc_cache c)"]
      by (auto simp: Cleanup cache_cleanup_def Let_def dget_filter)
  qed
  then show "kept k t v A (cache_step op c)" using step c by (simp add: kept_def)
qed

subsection \<open>What the cache may contain\<close>

text \<open>The last put of a key in a history.\<close>

fun last_put :: "string \<Rightarrow> 'v cache_op list \<Rightarrow> (time \<times> 'v) option" where
  "last_put k [] = None"
| "last_put k (Put now x v # ops) = (case last_put k ops of Some e \<Rightarrow> Some e | None \<Rightarrow> if x = k then Some (now, v) else None)"
| "last_put k (_ # ops) = last_put k ops"

lemma dget_tl: "dict_ok d \<Longrightarrow> dget (tl d) k = Some v \<Longrightarrow> dget d k = Some v"
  by (cases d) (auto dest!: dget_in intro: rev_image_eqI)

lemma step_origin:
  assumes "dict_ok (tc_cache c)" and "dget (tc_cache (cache_step op c)) k = Some e"
  shows "dget (tc_cache c) k = Some e \<or> (\<exists>now v. op = Put now k v \<and> e = (now, v))"
    and "\<And>now v. op = Put now k v \<Longrightarrow> e = (now, v)"
proof -
  show "dget (tc_cache c) k = Some e \<or> (\<exists>now v. op = Put now k v \<and> e = (now, v))"
  proof (cases op)
    case (Put now x v)
    have "dget (put_last x (now, v) (tc_cache c)) k = Some e"
      using assms dget_tl [OF put_last_dict(1) [OF assms(1)]] by (auto simp: Put cache_put_def Let_def split: if_splits)
    then show ?thesis using put_last_dict(2) [OF assms(1)] by (auto simp: Put split: if_splits)
  next
    case (Get now x)
    then show ?thesis using assms by (auto simp: cache_get_def dict_simps split: option.splits if_splits)
  next
    case (Cleanup now)
    then show ?thesis using assms by (auto simp: cache_cleanup_def Let_def dget_filter split: option.splits if_splits)
  qed
  fix now v assume op: "op = Put now k v"
  have "dget (put_last k (now, v) (tc_cache c)) k = Some e"
    using assms dget_tl [OF put_last_dict(1) [OF assms(1)]] by (auto simp: op cache_put_def Let_def split: if_splits)
  then show "e = (now, v)" using put_last_dict(2) [OF assms(1)] by simp
qed

lemma run_origin:
  assumes "cache_ok c" and "0 \<le> tc_max_size c" and "dget (tc_cache (fold cache_step ops c)) k = Some e"
  shows "last_put k ops = Some e \<or> (last_put k ops = None \<and> dget (tc_cache c) k = Some e)"
  using assms
proof (induction ops arbitrary: c)
  case (Cons op ops)
  have ok: "cache_ok (cache_step op c)" "0 \<le> tc_max_size (cache_step op c)" using cache_step_ok [of c op] Cons.prems(1,2) by simp_all
  consider "last_put k ops = Some e" | "last_put k ops = None" "dget (tc_cache (cache_step op c)) k = Some e"
    using Cons.IH [OF ok] Cons.prems(3) by auto
  then show ?case
  proof cases
    case 1
    then show ?thesis by (cases op) auto
  next
    case 2
    have "dict_ok (tc_cache c)" using Cons.prems(1) by (simp add: cache_ok_def)
    from step_origin [OF this 2(2)] show ?thesis using 2(1) by (cases op) auto
  qed
qed simp

subsection \<open>Properties\<close>

text \<open>
  A cached value is the one put last and is not stale: what a lookup returns after any
  history of a fresh cache is the value of the last put of its key, made at most the time to
  live before; and the cache never holds more than its size.
\<close>

theorem cache_sound:
  assumes "0 \<le> n" and "fst (cache_get now k (fold cache_step ops (make_cache n ttl))) = Some v"
  shows "(\<exists>t. last_put k ops = Some (t, v) \<and> now - t \<le> ttl)
    \<and> int (cache_len (fold cache_step ops (make_cache n ttl))) \<le> n"
proof -
  let ?init = "make_cache n ttl :: 'a ttl_cache" let ?c = "fold cache_step ops ?init"
  have c0: "cache_ok ?init" "0 \<le> tc_max_size ?init" using assms(1) by (simp_all add: cache_ok_def make_cache_def)
  have fields: "tc_ttl_sec (cache_step op c) = tc_ttl_sec c" "tc_max_size (cache_step op c) = tc_max_size c" for op and c :: "'a ttl_cache"
    by (cases op; auto simp: cache_get_def cache_put_def cache_cleanup_def Let_def split: option.splits)+
  have "tc_ttl_sec (fold cache_step ops c) = tc_ttl_sec c \<and> tc_max_size (fold cache_step ops c) = tc_max_size c" for c :: "'a ttl_cache"
    by (induction ops arbitrary: c) (simp_all add: fields)
  then have "tc_ttl_sec ?c = ttl" "tc_max_size ?c = n" by (simp_all add: make_cache_def)
  moreover have "cache_ok ?c \<and> 0 \<le> tc_max_size ?c" using cache.run_inv [of ?init ops] c0 by blast
  moreover obtain t where "dget (tc_cache ?c) k = Some (t, v)" "\<not> now - t > tc_ttl_sec ?c"
    using assms(2) by (auto simp: cache_get_def split: option.splits if_splits)
  moreover from this have "last_put k ops = Some (t, v)" using run_origin [OF c0, of ops k "(t, v)"] by (auto simp: make_cache_def)
  ultimately show ?thesis by (auto simp: cache_ok_def cache_len_def)
qed

theorem cache_sound_witness:
  "last_put ''a'' [Put 1 ''a'' (7 :: int), Get 2 ''b'', Put 3 ''a'' 8] = Some (3, 8)"
proof -
  have "fst (cache_get 4 ''a'' (fold cache_step [Put 1 ''a'' (7 :: int), Get 2 ''b'', Put 3 ''a'' 8] (make_cache 2 10))) = Some 8"
    by code_simp
  then show ?thesis using cache_sound [of 2 4 "''a''" "[Put 1 ''a'' (7 :: int), Get 2 ''b'', Put 3 ''a'' 8]" 10 8] by simp
qed

text \<open>
  Recently used entries survive: a value that was put is found again at any time within
  its time to live, if since then its key was not put again and fewer than
  \<open>max_size\<close> other keys were used.
\<close>

theorem recent_entry_kept:
  assumes "cache_ok c" and "0 \<le> tc_max_size c"
    and "\<forall>op \<in> set ops. op_time op \<le> t + tc_ttl_sec c \<and> (\<forall>now w. op \<noteq> Put now k w)"
    and "int (card (\<Union> (touched ` set ops) - {k})) < tc_max_size c" and "now \<le> t + tc_ttl_sec c"
  shows "fst (cache_get now k (fold cache_step ops (cache_put t k v c))) = Some v"
proof -
  let ?A = "\<Union> (touched ` set ops) - {k}"
  have fin: "finite (touched op)" for op :: "'a cache_op" by (cases op) auto
  define d where "d = put_last k (t, v) (tc_cache c)"
  have d: "dict_ok d" "dget d k = Some (t, v)" using put_last_dict [of "tc_cache c" k "(t, v)"] assms(1) by (simp_all add: cache_ok_def d_def)
  have l: "later k (dkeys d) \<subseteq> {}" using assms(1) later_used [of k k "dkeys (tc_cache c)"] by (simp add: cache_ok_def d_def put_keys)
  have fit: "card ({} :: string set) + 1 < length d" if "int (length d) > tc_max_size c" using that assms(4) by simp
  have "cache_ok (cache_step (Put t k v) c)" "tc_max_size (cache_step (Put t k v) c) = tc_max_size c"
    using cache_step_ok [of c "Put t k v"] assms(1,2) by auto
  moreover have "dget (tc_cache (cache_put t k v c)) k = Some (t, v) \<and> later k (dkeys (tc_cache (cache_put t k v c))) \<subseteq> {}"
    using tl_keeps [OF d l finite.emptyI fit] d l by (simp add: cache_put_def Let_def flip: d_def)
  ultimately have "kept k t v ?A (cache_put t k v c)" using assms(4) fin by (auto simp: kept_def)
  moreover have "tc_ttl_sec (cache_put t k v c) = tc_ttl_sec c" by (simp add: cache_put_def Let_def)
  moreover have "kept k t v A (fold cache_step ops u) \<and> tc_ttl_sec (fold cache_step ops u) = tc_ttl_sec c"
    if "kept k t v A u" "tc_ttl_sec u = tc_ttl_sec c" "\<Union> (touched ` set ops) - {k} \<subseteq> A" for A u
    using that assms(3)
  proof (induction ops arbitrary: u)
    case (Cons op ops)
    have "kept k t v A (cache_step op u) \<and> tc_ttl_sec (cache_step op u) = tc_ttl_sec u"
      using Cons.prems kept_step [of k t v A u op] by auto
    then show ?case using Cons.IH [of "cache_step op u"] Cons.prems by auto
  qed simp
  ultimately have "kept k t v ?A (fold cache_step ops (cache_put t k v c))"
    and "tc_ttl_sec (fold cache_step ops (cache_put t k v c)) = tc_ttl_sec c" by blast+
  then show ?thesis using assms(5) by (simp add: kept_def cache_get_def)
qed

theorem recent_entry_kept_witness:
  "fst (cache_get 4 ''a'' (fold cache_step [Put 2 ''b'' (1 :: int), Put 3 ''b'' 2] (cache_put 1 ''a'' 7 (make_cache 2 10)))) = Some 7"
  by (rule recent_entry_kept) (auto simp: cache_ok_def make_cache_def)

end
