(* ===== verification/Failover.thy ===== *)
theory Failover
  imports Json Contracts
begin

text \<open>
  \<open>services/retry_after.py\<close>, \<open>services/failover.py\<close> and the failover loop of
  \<open>services/llm_client.py\<close>: retry hints of providers, cooldowns, the storm control over
  duplicates, attempts and health scores, and the loop that tries the candidates in turn.
  The wall clock \<open>now\<close> times the cooldowns, the monotonic clock \<open>tick\<close> the windows.
  What a provider answers is an argument; \<open>ok\<close> says whether the state file can be written.
\<close>

subsection \<open>Retry hints\<close>

definition MIN_RETRY_AFTER_SECONDS :: int where "MIN_RETRY_AFTER_SECONDS = 1"
definition MAX_RETRY_AFTER_SECONDS :: int where "MAX_RETRY_AFTER_SECONDS = 3600"
definition DEFAULT_RETRY_AFTER_SECONDS :: int where "DEFAULT_RETRY_AFTER_SECONDS = 60"

definition clamp_retry_after :: "int \<Rightarrow> int" where
  "clamp_retry_after = clamp MIN_RETRY_AFTER_SECONDS MAX_RETRY_AFTER_SECONDS"

definition headers_lower :: "(string \<times> string) list \<Rightarrow> (string, string) dict" where
  "headers_lower headers = fold (\<lambda>(k, v). dput (py_lower k) v) headers []"

text \<open>A header that is there and not empty.\<close>

definition header_text :: "(string, string) dict \<Rightarrow> string \<Rightarrow> string option" where
  "header_text h k = (case dget h k of None \<Rightarrow> None | Some v \<Rightarrow> if v = [] then None else Some v)"

definition if_positive :: "int \<Rightarrow> int option" where
  "if_positive delta = (if delta > 0 then Some (clamp_retry_after delta) else None)"

definition or_else :: "'a option \<Rightarrow> 'a option \<Rightarrow> 'a option" where
  "or_else x y = (case x of Some v \<Rightarrow> Some v | None \<Rightarrow> y)"

text \<open>
  \<open>http_date\<close> is the instant that \<open>parsedate_to_datetime\<close> reads, \<open>None\<close> where it or the
  subtraction of the clock raises.
\<close>

definition parse_retry_after_header :: "(string \<Rightarrow> time option) \<Rightarrow> time \<Rightarrow> (string \<times> string) list \<Rightarrow> int option" where
  "parse_retry_after_header http_date now headers =
    (let h = headers_lower headers;
         standard = (case header_text h ''retry-after'' of None \<Rightarrow> None
           | Some v \<Rightarrow> (case py_int v of Some seconds \<Rightarrow> Some (clamp_retry_after seconds)
               | None \<Rightarrow> (case http_date v of None \<Rightarrow> None | Some dt \<Rightarrow> if_positive (trunc (dt - now)))));
         reset_after = (case header_text h ''x-ratelimit-reset-after'' of None \<Rightarrow> None
           | Some v \<Rightarrow> map_option clamp_retry_after (py_int v));
         reset = (case header_text h ''x-ratelimit-reset'' of None \<Rightarrow> None
           | Some v \<Rightarrow> (case py_int v of None \<Rightarrow> None | Some t \<Rightarrow> if_positive (t - trunc now)))
     in or_else standard (or_else reset_after reset))"

text \<open>A field of the body that converts to a number of seconds.\<close>

definition int_field :: "string \<Rightarrow> (string, json) dict \<Rightarrow> int option" where
  "int_field k d = (case dget d k of None \<Rightarrow> None | Some v \<Rightarrow> json_int v)"

definition parse_retry_after_body :: "json \<Rightarrow> int option" where
  "parse_retry_after_body error_body = (case error_body of
     JObj d \<Rightarrow>
       or_else (map_option clamp_retry_after (int_field ''retry_after'' d))
         (or_else (map_option (\<lambda>ms. clamp_retry_after (ms div 1000)) (int_field ''retry_after_ms'' d))
           (case dget d ''error'' of
              Some (JObj e) \<Rightarrow> map_option clamp_retry_after (int_field ''retry_after'' e)
            | _ \<Rightarrow> None))
   | _ \<Rightarrow> None)"

definition get_retry_after_seconds ::
  "(string \<Rightarrow> time option) \<Rightarrow> time \<Rightarrow> (string \<times> string) list option \<Rightarrow> json \<Rightarrow> int \<Rightarrow> int" where
  "get_retry_after_seconds http_date now headers error_body dflt =
    (let from_headers = (case headers of None \<Rightarrow> None | Some h \<Rightarrow> if h = [] then None else parse_retry_after_header http_date now h);
         from_body = (if truthy error_body then parse_retry_after_body error_body else None)
     in case or_else from_headers from_body of Some n \<Rightarrow> n | None \<Rightarrow> clamp_retry_after dflt)"

subsection \<open>Error categories\<close>

datatype error_category = AUTH | BILLING | RATE_LIMIT | TIMEOUT | INVALID_REQUEST | UNKNOWN

definition category_value :: "error_category \<Rightarrow> string" where
  "category_value c = (case c of AUTH \<Rightarrow> ''auth'' | BILLING \<Rightarrow> ''billing'' | RATE_LIMIT \<Rightarrow> ''rate_limit''
     | TIMEOUT \<Rightarrow> ''timeout'' | INVALID_REQUEST \<Rightarrow> ''invalid_request'' | UNKNOWN \<Rightarrow> ''unknown'')"

text \<open>
  What the classification sees of an exception: its text, the status of a
  \<open>ProviderHTTPError\<close>, the retry hint it carries.
\<close>

record llm_exn =
  le_text :: string
  le_status :: "int option"
  le_retry_after :: "int option"

record cooldown_decision =
  cd_category :: error_category
  cd_retry_after_sec :: "int option"
  cd_reason_code :: string
  cd_bucket :: string

definition has_any :: "string list \<Rightarrow> string \<Rightarrow> bool" where
  "has_any ps s \<longleftrightarrow> (\<exists>p \<in> set ps. has_sub p s)"

definition rate_limit_reason :: "int option \<Rightarrow> string" where
  "rate_limit_reason retry_after = (if retry_after \<noteq> None then ''provider_retry_after'' else ''provider_rate_limited'')"

definition classify_status :: "int \<Rightarrow> string \<Rightarrow> int option \<Rightarrow> error_category \<times> string \<times> string" where
  "classify_status status_code error_str retry_after =
    (if status_code = 401 \<or> status_code = 403 then (AUTH, ''provider_auth_failed'', ''provider_auth'')
     else if status_code = 402 then (BILLING, ''provider_billing_required'', ''provider_quota'')
     else if status_code = 429 then
       (if has_any [''quota'', ''billing'', ''insufficient_quota'', ''insufficient quota''] error_str
        then (BILLING, ''provider_quota_exceeded'', ''provider_quota'')
        else (RATE_LIMIT, rate_limit_reason retry_after, ''provider_cooldown''))
     else if status_code = 400 \<or> status_code = 422 then (INVALID_REQUEST, ''provider_invalid_request'', ''provider_invalid_request'')
     else (UNKNOWN, ''provider_http_'' @ int_str status_code, ''provider_unknown''))"

definition classify_text :: "string \<Rightarrow> int option \<Rightarrow> error_category \<times> string \<times> string" where
  "classify_text error_str retry_after =
    (if has_any [''timeout'', ''timed out''] error_str then (TIMEOUT, ''provider_timeout'', ''provider_cooldown'')
     else if has_any [''unauthorized'', ''forbidden''] error_str then (AUTH, ''provider_auth_failed'', ''provider_auth'')
     else if has_any [''rate limit'', ''too many requests''] error_str
       then (RATE_LIMIT, rate_limit_reason retry_after, ''provider_cooldown'')
     else if has_any [''quota'', ''insufficient''] error_str then (BILLING, ''provider_quota_exceeded'', ''provider_quota'')
     else (UNKNOWN, ''provider_unknown'', ''provider_unknown''))"

definition classify_cooldown :: "llm_exn \<Rightarrow> int option \<Rightarrow> cooldown_decision" where
  "classify_cooldown e status_code =
    (let status_code = or_else (le_status e) status_code; error_str = py_lower (le_text e);
         (c, r, b) = (case status_code of
            Some n \<Rightarrow> if n \<noteq> 0 then classify_status n error_str (le_retry_after e) else classify_text error_str (le_retry_after e)
          | None \<Rightarrow> classify_text error_str (le_retry_after e))
     in \<lparr>cd_category = c, cd_retry_after_sec = le_retry_after e, cd_reason_code = r, cd_bucket = b\<rparr>)"

definition classify_error :: "llm_exn \<Rightarrow> int option \<Rightarrow> error_category \<times> int option" where
  "classify_error e status_code = (let d = classify_cooldown e status_code in (cd_category d, cd_retry_after_sec d))"

definition should_retry :: "error_category \<Rightarrow> bool" where
  "should_retry c \<longleftrightarrow> c \<in> {TIMEOUT, RATE_LIMIT}"

definition should_failover :: "error_category \<Rightarrow> bool" where
  "should_failover c \<longleftrightarrow> c \<in> {AUTH, BILLING, INVALID_REQUEST} \<or> c = UNKNOWN"

definition get_cooldown_duration :: "error_category \<Rightarrow> int option \<Rightarrow> time" where
  "get_cooldown_duration c retry_after_override =
    (case retry_after_override of
       Some n \<Rightarrow> if c \<in> {RATE_LIMIT, TIMEOUT} then of_int n
         else (case c of AUTH \<Rightarrow> 3600 | BILLING \<Rightarrow> 1800 | RATE_LIMIT \<Rightarrow> 300 | TIMEOUT \<Rightarrow> 60 | INVALID_REQUEST \<Rightarrow> 600 | UNKNOWN \<Rightarrow> 120)
     | None \<Rightarrow> (case c of AUTH \<Rightarrow> 3600 | BILLING \<Rightarrow> 1800 | RATE_LIMIT \<Rightarrow> 300 | TIMEOUT \<Rightarrow> 60 | INVALID_REQUEST \<Rightarrow> 600 | UNKNOWN \<Rightarrow> 120))"

definition get_failover_candidates ::
  "string \<Rightarrow> string option \<Rightarrow> string list \<Rightarrow> string list \<Rightarrow> (string \<times> string option) list" where
  "get_failover_candidates primary_provider primary_model fallback_models fallback_providers =
     (primary_provider, primary_model)
     # map (\<lambda>m. (primary_provider, Some m)) (filter (\<lambda>m. Some m \<noteq> primary_model) fallback_models)
     @ map (\<lambda>p. (p, primary_model)) (filter (\<lambda>p. p \<noteq> primary_provider) fallback_providers)"

subsection \<open>Failover state\<close>

definition DEDUPE_WINDOW_SEC :: time where "DEDUPE_WINDOW_SEC = 2"
definition MIN_CANDIDATE_INTERVAL_SEC :: time where "MIN_CANDIDATE_INTERVAL_SEC = 2"
definition DEFAULT_HEALTH_SCORE :: int where "DEFAULT_HEALTH_SCORE = 70"

record cooldown_entry =
  ce_provider :: string
  ce_model :: "string option"
  ce_reason :: string
  ce_until :: time
  ce_reason_code :: string
  ce_bucket :: string
  ce_retry_after_sec :: "int option"

definition is_active :: "time \<Rightarrow> cooldown_entry \<Rightarrow> bool" where
  "is_active now e \<longleftrightarrow> now < ce_until e"

record failover_state =
  fs_file :: "cooldown_entry json_file"
  fs_cooldowns :: "(string, cooldown_entry) dict"
  fs_dedupe :: "(string, time) dict"
  fs_health :: "(string, int) dict"
  fs_last_attempts :: "(string, time) dict"

definition save_cooldowns :: "bool \<Rightarrow> time \<Rightarrow> failover_state \<Rightarrow> failover_state" where
  "save_cooldowns ok now s =
    (if ok then s\<lparr>fs_file := F_rows (map (\<lambda>(k, e). (k, Some e)) (filter (\<lambda>(k, e). is_active now e) (fs_cooldowns s)))\<rparr> else s)"

definition open_failover :: "bool \<Rightarrow> time \<Rightarrow> cooldown_entry json_file \<Rightarrow> failover_state" where
  "open_failover ok now f =
    (let s = \<lparr>fs_file = f, fs_cooldowns = [], fs_dedupe = [], fs_health = [], fs_last_attempts = []\<rparr> in
     case f of
       F_rows rows \<Rightarrow>
         if \<exists>(k, e) \<in> set rows. e = None then s
         else save_cooldowns ok now (s\<lparr>fs_cooldowns := filter (\<lambda>(k, e). is_active now e) (map (\<lambda>(k, e). (k, the e)) rows)\<rparr>)
     | _ \<Rightarrow> s)"

definition get_key :: "string \<Rightarrow> string option \<Rightarrow> string" where
  "get_key provider model = (case model of None \<Rightarrow> provider | Some m \<Rightarrow> if m = [] then provider else provider @ '':'' @ m)"

definition or_text :: "string option \<Rightarrow> string \<Rightarrow> string" where
  "or_text x d = (case x of None \<Rightarrow> d | Some s \<Rightarrow> if s = [] then d else s)"

definition set_cooldown ::
  "bool \<Rightarrow> time \<Rightarrow> string \<Rightarrow> string option \<Rightarrow> string \<Rightarrow> time \<Rightarrow> string option \<Rightarrow> string option \<Rightarrow> int option \<Rightarrow> failover_state \<Rightarrow> failover_state" where
  "set_cooldown ok now provider model reason duration reason_code bucket retry_after s =
     save_cooldowns ok now (s\<lparr>fs_cooldowns := dput (get_key provider model)
       \<lparr>ce_provider = provider, ce_model = model, ce_reason = reason, ce_until = now + duration,
        ce_reason_code = or_text reason_code reason, ce_bucket = or_text bucket ''provider_unknown'',
        ce_retry_after_sec = retry_after\<rparr> (fs_cooldowns s)\<rparr>)"

definition is_cooling_down :: "bool \<Rightarrow> time \<Rightarrow> string \<Rightarrow> string option \<Rightarrow> failover_state \<Rightarrow> bool \<times> failover_state" where
  "is_cooling_down ok now provider model s =
    (let key = get_key provider model in
     case dget (fs_cooldowns s) key of
       None \<Rightarrow> (False, s)
     | Some e \<Rightarrow> if \<not> is_active now e then (False, save_cooldowns ok now (s\<lparr>fs_cooldowns := ddel key (fs_cooldowns s)\<rparr>))
         else (True, s))"

definition clear_cooldown :: "bool \<Rightarrow> time \<Rightarrow> string \<Rightarrow> string option \<Rightarrow> failover_state \<Rightarrow> failover_state" where
  "clear_cooldown ok now provider model s =
    (let key = get_key provider model in
     if dget (fs_cooldowns s) key \<noteq> None then save_cooldowns ok now (s\<lparr>fs_cooldowns := ddel key (fs_cooldowns s)\<rparr>) else s)"

definition get_dedupe_key :: "string \<Rightarrow> string option \<Rightarrow> error_category \<Rightarrow> string" where
  "get_dedupe_key provider model c = get_key provider model @ '':'' @ category_value c"

definition last_ts :: "(string, time) dict \<Rightarrow> string \<Rightarrow> time" where
  "last_ts d k = (case dget d k of None \<Rightarrow> 0 | Some t \<Rightarrow> t)"

definition should_suppress_duplicate ::
  "time \<Rightarrow> string \<Rightarrow> string option \<Rightarrow> error_category \<Rightarrow> failover_state \<Rightarrow> bool \<times> failover_state" where
  "should_suppress_duplicate tick provider model c s =
    (let key = get_dedupe_key provider model c in
     if tick - last_ts (fs_dedupe s) key < DEDUPE_WINDOW_SEC then (True, s)
     else (False, s\<lparr>fs_dedupe := dput key tick (fs_dedupe s)\<rparr>))"

definition get_health_score :: "string \<Rightarrow> string option \<Rightarrow> failover_state \<Rightarrow> int" where
  "get_health_score provider model s =
    (case dget (fs_health s) (get_key provider model) of None \<Rightarrow> DEFAULT_HEALTH_SCORE | Some n \<Rightarrow> n)"

definition update_health_score :: "string \<Rightarrow> string option \<Rightarrow> error_category \<Rightarrow> bool \<Rightarrow> failover_state \<Rightarrow> failover_state" where
  "update_health_score provider model c is_success s =
    (let current = get_health_score provider model s;
         new = (if is_success then min 100 (current + 1)
           else if c = RATE_LIMIT then max 0 (current - 3)
           else if c = TIMEOUT then max 0 (current - 2)
           else if c \<in> {AUTH, BILLING, INVALID_REQUEST} then max 0 (current - 10)
           else max 0 (current - 1))
     in s\<lparr>fs_health := dput (get_key provider model) new (fs_health s)\<rparr>)"

definition can_attempt_now :: "time \<Rightarrow> string \<Rightarrow> string option \<Rightarrow> failover_state \<Rightarrow> bool" where
  "can_attempt_now tick provider model s \<longleftrightarrow> tick - last_ts (fs_last_attempts s) (get_key provider model) \<ge> MIN_CANDIDATE_INTERVAL_SEC"

definition mark_attempt :: "time \<Rightarrow> string \<Rightarrow> string option \<Rightarrow> failover_state \<Rightarrow> failover_state" where
  "mark_attempt tick provider model s = s\<lparr>fs_last_attempts := dput (get_key provider model) tick (fs_last_attempts s)\<rparr>"

subsection \<open>What the operations keep\<close>

lemma retry_after_clamped: "1 \<le> clamp_retry_after n \<and> clamp_retry_after n \<le> 3600"
  by (auto simp: clamp_retry_after_def MIN_RETRY_AFTER_SECONDS_def MAX_RETRY_AFTER_SECONDS_def clamp_def)

lemma save_cooldowns_fields [simp]:
  "fs_cooldowns (save_cooldowns ok now s) = fs_cooldowns s" "fs_dedupe (save_cooldowns ok now s) = fs_dedupe s"
  "fs_health (save_cooldowns ok now s) = fs_health s" "fs_last_attempts (save_cooldowns ok now s) = fs_last_attempts s"
  by (simp_all add: save_cooldowns_def)

lemma set_cooldown_fields [simp]:
  "fs_dedupe (set_cooldown ok now p m r d rc b ra s) = fs_dedupe s"
  "fs_health (set_cooldown ok now p m r d rc b ra s) = fs_health s"
  "fs_last_attempts (set_cooldown ok now p m r d rc b ra s) = fs_last_attempts s"
  by (simp_all add: set_cooldown_def)

lemma window_fields [simp]:
  "fs_cooldowns (snd (should_suppress_duplicate tick p m c s)) = fs_cooldowns s"
  "fs_cooldowns (update_health_score p m c b s) = fs_cooldowns s"
  "fs_cooldowns (mark_attempt tick p m s) = fs_cooldowns s"
  "fs_dedupe (update_health_score p m c b s) = fs_dedupe s"
  "fs_dedupe (mark_attempt tick p m s) = fs_dedupe s"
  "fs_health (snd (should_suppress_duplicate tick p m c s)) = fs_health s"
  "fs_health (mark_attempt tick p m s) = fs_health s"
  by (auto simp: should_suppress_duplicate_def update_health_score_def mark_attempt_def Let_def)

lemma is_cooling_down_fields [simp]:
  "fs_dedupe (snd (is_cooling_down ok now p m s)) = fs_dedupe s"
  "fs_health (snd (is_cooling_down ok now p m s)) = fs_health s"
  by (auto simp: is_cooling_down_def Let_def split: option.splits)

lemma dget_set_cooldown:
  "dget (fs_cooldowns (set_cooldown ok now p m r d rc b ra s)) k =
    (if k = get_key p m then Some \<lparr>ce_provider = p, ce_model = m, ce_reason = r, ce_until = now + d,
        ce_reason_code = or_text rc r, ce_bucket = or_text b ''provider_unknown'', ce_retry_after_sec = ra\<rparr>
     else dget (fs_cooldowns s) k)"
  by (simp add: set_cooldown_def dict_simps)

text \<open>Asking removes an entry that is over, and no other.\<close>

lemma is_cooling_down_eq:
  "fst (is_cooling_down ok now p m s) \<longleftrightarrow> (\<exists>e. dget (fs_cooldowns s) (get_key p m) = Some e \<and> is_active now e)"
  "dget (fs_cooldowns (snd (is_cooling_down ok now p m s))) k =
    (case dget (fs_cooldowns s) k of None \<Rightarrow> None
     | Some e \<Rightarrow> if k = get_key p m \<and> \<not> is_active now e then None else Some e)"
  by (auto simp: is_cooling_down_def Let_def dict_simps split: option.splits)

text \<open>A failure that makes the loop move on cools its candidate for two minutes at least.\<close>

lemma failover_duration: "should_failover c \<Longrightarrow> 120 \<le> get_cooldown_duration c ra"
  by (cases c) (auto simp: should_failover_def get_cooldown_duration_def split: option.splits)

lemma retry_or_failover: "should_failover c \<longleftrightarrow> \<not> should_retry c"
  by (cases c) (auto simp: should_failover_def should_retry_def)

lemma health_bounded:
  "\<forall>(k, n) \<in> set (fs_health s). 0 \<le> n \<and> n \<le> 100 \<Longrightarrow> dict_ok (fs_health s) \<Longrightarrow>
   \<forall>(k, n) \<in> set (fs_health (update_health_score p m c b s)). 0 \<le> n \<and> n \<le> 100"
  by (auto simp: update_health_score_def Let_def set_dput get_health_score_def DEFAULT_HEALTH_SCORE_def
      dest!: dget_in split: option.splits)

subsection \<open>Duplicate failures\<close>

text \<open>The filter of duplicates as a gate that lets a kind of failure pass once a window.\<close>

definition dedupe_gate :: "time \<Rightarrow> string \<times> string option \<times> error_category \<Rightarrow> failover_state \<Rightarrow> bool \<times> failover_state" where
  "dedupe_gate tick = (\<lambda>(p, m, c) s. let (dup, s) = should_suppress_duplicate tick p m c s in (\<not> dup, s))"

interpretation dedupe: once_gate dedupe_gate "\<lambda>_ (p, m, c). get_dedupe_key p m c"
    "\<lambda>t s k. t - last_ts (fs_dedupe s) k < 2" "\<lambda>_. True" "\<lambda>_. True" 2
  by unfold_locales
    (auto simp: dedupe_gate_def should_suppress_duplicate_def Let_def DEDUPE_WINDOW_SEC_def last_ts_def dict_simps split_def
      split: if_splits option.splits)

text \<open>
  A storm of one failure sets one cooldown a window: of all the failures of a provider,
  model and category that are reported within two seconds, in any order with others, at most
  one passes the filter of duplicates.
\<close>

theorem storm_suppressed:
  assumes "sorted (map fst fs)" and "\<forall>(t, f) \<in> set fs. a \<le> t \<and> t < a + 2"
  shows "accepted (\<lambda>_ (p, m, c). get_dedupe_key p m c) k fs (claim_run dedupe_gate fs s) \<le> 1"
  using assms by (intro dedupe.at_most_once) (auto simp: all_states_def)

theorem storm_suppressed_witness:
  "accepted (\<lambda>_ (p, m, c). get_dedupe_key p m c) ''a:auth'' [(9, ''a'', None, AUTH), (10, ''a'', None, AUTH)]
     (claim_run dedupe_gate [(9, ''a'', None, AUTH), (10, ''a'', None, AUTH)] \<lparr>fs_file = F_missing, fs_cooldowns = [],
        fs_dedupe = [], fs_health = [], fs_last_attempts = []\<rparr>) \<le> 1"
  by (rule storm_suppressed [where a = 9]) auto

text \<open>
  The windows start at 0, and so does the monotonic clock of many systems: in the first two
  seconds after the start nothing passes the filter, so the first failure sets no cooldown,
  and every candidate counts as throttled.
\<close>

lemma suppressed_after_boot:
  "tick < 2 \<Longrightarrow> dget (fs_dedupe s) (get_dedupe_key p m c) = None \<Longrightarrow> fst (should_suppress_duplicate tick p m c s)"
  "tick < 2 \<Longrightarrow> dget (fs_last_attempts s) (get_key p m) = None \<Longrightarrow> \<not> can_attempt_now tick p m s"
  by (simp_all add: should_suppress_duplicate_def can_attempt_now_def last_ts_def DEDUPE_WINDOW_SEC_def MIN_CANDIDATE_INTERVAL_SEC_def Let_def)

end
