(* ===== verification/Llm_Failover.thy ===== *)
theory Llm_Failover
  imports Failover
begin

text \<open>
  The failover loop of \<open>services/llm_client.py\<close> over the state of \<open>Failover\<close>: candidates in
  the order of their health, skipped while they cool down, are throttled, or may not be
  used, each with its retries. What the loop meets is the record \<open>llm_env\<close>: the clocks
  (wall, monotonic) when a candidate is visited and when an attempt ends, what each attempt
  gives, the policies. The fields of the client that are switched for a candidate and
  restored in \<open>finally\<close> do not outlive a call and are no part of the state.
\<close>

type_synonym cand = "string \<times> string option \<times> string option"

record 'r llm_env =
  le_visit :: "nat \<Rightarrow> time \<times> time"
  le_answer :: "nat \<Rightarrow> nat \<Rightarrow> (time \<times> time) \<times> (llm_exn + 'r)"
  le_info :: "string \<Rightarrow> string option"
  le_policy :: "string \<Rightarrow> string \<Rightarrow> bool"
  le_requires_key :: "string \<Rightarrow> bool"
  le_api_key :: "string \<Rightarrow> string option"
  le_save_ok :: bool
  le_max_retries :: int

subsection \<open>Candidates\<close>

definition word_char :: "char \<Rightarrow> bool" where
  "word_char c \<longleftrightarrow> is_alnum c \<or> c = CHR ''_''"

text \<open>The first match of \<open>\b([45]\d{2})\b\<close>; \<open>w\<close>: the character before is one of a word.\<close>

fun find_status :: "bool \<Rightarrow> string \<Rightarrow> int option" where
  "find_status w [] = None"
| "find_status w (c # s) =
    (if \<not> w \<and> c \<in> {CHR ''4'', CHR ''5''} \<and>
        (case s of a # b # r \<Rightarrow> is_digit a \<and> is_digit b \<and> (case r of [] \<Rightarrow> True | d # _ \<Rightarrow> \<not> word_char d) | _ \<Rightarrow> False)
     then map_option int (digits_val 0 (take 3 (c # s)))
     else find_status (word_char c) s)"

definition extract_status_code :: "llm_exn \<Rightarrow> int option" where
  "extract_status_code e = find_status False (le_text e)"

definition resolve_candidate_base_urls ::
  "(string \<Rightarrow> string option) \<Rightarrow> string \<Rightarrow> string option \<Rightarrow> (string \<times> string option) list \<Rightarrow> cand list" where
  "resolve_candidate_base_urls info self_provider self_base_url candidates_2d =
     map (\<lambda>(p, m). (p, m, if p = self_provider then self_base_url else info p)) candidates_2d"

text \<open>
  \<open>sort\<close> with the key (score, minus the position), reversed: the stable order by falling
  score.
\<close>

definition sort_by_health :: "failover_state \<Rightarrow> cand list \<Rightarrow> cand list" where
  "sort_by_health s candidates = sort_key (\<lambda>(p, m, u). - get_health_score p m s) candidates"

definition max_failover_candidates :: "json \<Rightarrow> nat" where
  "max_failover_candidates setting =
    (let n = (case json_int setting of None \<Rightarrow> 3 | Some n \<Rightarrow> n) in nat (if n < 1 then 1 else n))"

definition candidates_to_try :: "json \<Rightarrow> failover_state \<Rightarrow> cand list \<Rightarrow> cand list" where
  "candidates_to_try setting s raw = take (max_failover_candidates setting) (sort_by_health s raw)"

text \<open>
  The SSRF test of a candidate: no URL, the known URL of the provider, or one the outbound
  policy accepts (\<open>le_policy\<close>; \<open>le_info\<close> is the known URL).
\<close>

definition validate_candidate_url :: "'r llm_env \<Rightarrow> string \<Rightarrow> string option \<Rightarrow> bool" where
  "validate_candidate_url env provider base_url = (case base_url of None \<Rightarrow> True
     | Some u \<Rightarrow> u = [] \<or> le_info env provider = Some u \<or> le_policy env provider u)"

definition lacks_key :: "'r llm_env \<Rightarrow> string \<Rightarrow> bool" where
  "lacks_key env provider \<longleftrightarrow> le_requires_key env provider \<and> (case le_api_key env provider of None \<Rightarrow> True | Some k \<Rightarrow> k = [])"

subsection \<open>The loop\<close>

text \<open>A failure after which the loop moves on: a cooldown, unless it is a duplicate.\<close>

definition record_failover ::
  "bool \<Rightarrow> time \<Rightarrow> time \<Rightarrow> string \<Rightarrow> string option \<Rightarrow> cooldown_decision \<Rightarrow> failover_state \<Rightarrow> failover_state" where
  "record_failover ok now tick provider model d s =
    (let (dup, s) = should_suppress_duplicate tick provider model (cd_category d) s in
     if dup then s
     else set_cooldown ok now provider model (cd_reason_code d)
       (get_cooldown_duration (cd_category d) (cd_retry_after_sec d)) (Some (cd_reason_code d)) (Some (cd_bucket d))
       (cd_retry_after_sec d) s)"

definition note_failure :: "bool \<Rightarrow> time \<Rightarrow> time \<Rightarrow> string \<Rightarrow> string option \<Rightarrow> llm_exn \<Rightarrow> failover_state \<Rightarrow> bool \<times> failover_state" where
  "note_failure ok now tick provider model e s =
    (let d = classify_cooldown e (extract_status_code e);
         s = update_health_score provider model (cd_category d) False s
     in if should_retry (cd_category d) then (True, s)
        else if should_failover (cd_category d) then (False, record_failover ok now tick provider model d s)
        else (False, s))"

text \<open>
  The attempts at candidate number \<open>i\<close>: \<open>k\<close> the number of the attempt, the next argument
  how many are left. The answer is the result or the last error, with the requests sent.
\<close>

fun attempts :: "'r llm_env \<Rightarrow> nat \<Rightarrow> string \<Rightarrow> string option \<Rightarrow> nat \<Rightarrow> nat \<Rightarrow> llm_exn option \<Rightarrow> failover_state
    \<Rightarrow> (llm_exn option + 'r) \<times> nat \<times> failover_state" where
  "attempts env i p m k 0 prev s = (Inl prev, 0, s)"
| "attempts env i p m k (Suc n) prev s =
    (let ((now, tick), res) = le_answer env i k in
     case res of
       Inr r \<Rightarrow> (Inr r, 1, update_health_score p m UNKNOWN True s)
     | Inl e \<Rightarrow> (let (again, s) = note_failure (le_save_ok env) now tick p m e s in
         if again then let (res, sent, s) = attempts env i p m (Suc k) n (Some e) s in (res, Suc sent, s)
         else (Inl (Some e), 1, s)))"

text \<open>A visit of one candidate; the flag in the answer counts it among the tried.\<close>

definition visit :: "'r llm_env \<Rightarrow> bool \<Rightarrow> nat \<Rightarrow> cand \<Rightarrow> failover_state \<Rightarrow> (llm_exn option + 'r) \<times> nat \<times> bool \<times> failover_state" where
  "visit env is_last i c s =
    (let (p, m, u) = c; (now, tick) = le_visit env i;
         (cooling, s) = is_cooling_down (le_save_ok env) now p m s
     in if cooling \<and> \<not> is_last then (Inl None, 0, False, s)
        else if \<not> validate_candidate_url env p u then (Inl None, 0, False, s)
        else if lacks_key env p then (Inl None, 0, True, s)
        else if \<not> can_attempt_now tick p m s \<and> \<not> is_last then (Inl None, 0, True, s)
        else let (res, sent, s) = attempts env i p m 0 (nat (le_max_retries env + 1)) None (mark_attempt tick p m s)
             in (res, sent, True, s))"

datatype failover_error = Last_error llm_exn | All_exhausted nat

fun try_candidates :: "'r llm_env \<Rightarrow> nat \<Rightarrow> cand list \<Rightarrow> llm_exn option \<Rightarrow> nat \<Rightarrow> failover_state
    \<Rightarrow> (failover_error + 'r) \<times> nat list \<times> failover_state" where
  "try_candidates env i [] prev tried s =
     (Inl (case prev of Some e \<Rightarrow> Last_error e | None \<Rightarrow> All_exhausted tried), [], s)"
| "try_candidates env i (c # cs) prev tried s =
    (let (res, n, counted, s) = visit env (cs = []) i c s in
     case res of
       Inr r \<Rightarrow> (Inr r, replicate n i, s)
     | Inl e \<Rightarrow> (let (out, sent, s) = try_candidates env (Suc i) cs (or_else e prev) (if counted then Suc tried else tried) s
                 in (out, replicate n i @ sent, s)))"

text \<open>
  A call: the candidates are ordered by the health at its start. The answer carries the
  positions of the candidates to which requests went, in order.
\<close>

record llm_call =
  lc_provider :: string
  lc_model :: "string option"
  lc_base_url :: "string option"
  lc_fallback_models :: "string list"
  lc_fallback_providers :: "string list"
  lc_setting :: json

definition raw_candidates :: "'r llm_env \<Rightarrow> llm_call \<Rightarrow> cand list" where
  "raw_candidates env c = resolve_candidate_base_urls (le_info env) (lc_provider c) (lc_base_url c)
     (get_failover_candidates (lc_provider c) (lc_model c) (lc_fallback_models c) (lc_fallback_providers c))"

definition call_candidates :: "'r llm_env \<Rightarrow> llm_call \<Rightarrow> failover_state \<Rightarrow> cand list" where
  "call_candidates env c s = candidates_to_try (lc_setting c) s (raw_candidates env c)"

definition execute_call :: "'r llm_env \<Rightarrow> llm_call \<Rightarrow> failover_state \<Rightarrow> (failover_error + 'r) \<times> nat list \<times> failover_state" where
  "execute_call env c s = try_candidates env 0 (call_candidates env c s) None 0 s"

subsection \<open>What a call sends\<close>

lemma count_list_replicate: "count_list (replicate n x) y = (if x = y then n else 0)"
  by (induction n) auto

lemma attempts_sent: "fst (snd (attempts env i p m k n prev s)) \<le> n"
  by (induction n arbitrary: k prev s) (auto simp: Let_def split_def split: sum.splits)

lemma visit_sent: "fst (snd (visit env is_last i c s)) \<le> nat (le_max_retries env + 1)"
  using attempts_sent by (auto simp: visit_def Let_def split_def)

lemma try_candidates_sent:
  assumes "try_candidates env i cs prev tried s = (out, sent, s')"
  shows "sorted sent" and "\<forall>j \<in> set sent. i \<le> j \<and> j < i + length cs" and "count_list sent j \<le> nat (le_max_retries env + 1)"
proof -
  have "sorted sent \<and> (\<forall>j \<in> set sent. i \<le> j \<and> j < i + length cs) \<and> count_list sent j \<le> nat (le_max_retries env + 1)"
    using assms
  proof (induction cs arbitrary: i prev tried s sent out s')
    case (Cons c cs)
    obtain res n b t where v: "visit env (cs = []) i c s = (res, n, b, t)" by (cases "visit env (cs = []) i c s") auto
    have n: "n \<le> nat (le_max_retries env + 1)" using visit_sent [of env "cs = []" i c s] by (simp add: v)
    show ?case
    proof (cases res)
      case (Inr r)
      then show ?thesis using Cons.prems n by (auto simp: v count_list_0_iff count_list_replicate)
    next
      case (Inl e)
      obtain o2 sent2 t2 where r: "try_candidates env (Suc i) cs (or_else e prev) (if b then Suc tried else tried) t = (o2, sent2, t2)"
        by (cases "try_candidates env (Suc i) cs (or_else e prev) (if b then Suc tried else tried) t") auto
      have IH: "sorted sent2 \<and> (\<forall>j \<in> set sent2. Suc i \<le> j \<and> j < Suc i + length cs) \<and> count_list sent2 j \<le> nat (le_max_retries env + 1)"
        using Cons.IH [OF r] .
      have "sent = replicate n i @ sent2" using Cons.prems by (simp add: v Inl r)
      moreover have "count_list sent2 i = 0" using IH by (auto simp: count_list_0_iff)
      ultimately show ?thesis using IH n by (auto simp: sorted_append count_list_replicate)
    qed
  qed simp
  then show "sorted sent" and "\<forall>j \<in> set sent. i \<le> j \<and> j < i + length cs" and "count_list sent j \<le> nat (le_max_retries env + 1)" by auto
qed

subsection \<open>Cooldowns along calls\<close>

definition cooling_until :: "time \<Rightarrow> string \<Rightarrow> failover_state \<Rightarrow> bool" where
  "cooling_until T k s \<longleftrightarrow> (\<exists>e. dget (fs_cooldowns s) k = Some e \<and> T \<le> ce_until e)"

lemma cooling_until_cong: "fs_cooldowns s = fs_cooldowns t \<Longrightarrow> cooling_until T k s = cooling_until T k t"
  by (simp add: cooling_until_def)

definition clocks_in :: "time \<Rightarrow> time \<Rightarrow> 'r llm_env \<Rightarrow> bool" where
  "clocks_in lo hi env \<longleftrightarrow> (\<forall>i. lo \<le> fst (le_visit env i) \<and> fst (le_visit env i) < hi)
     \<and> (\<forall>i k. lo \<le> fst (fst (le_answer env i k)) \<and> fst (fst (le_answer env i k)) < hi)"

lemma record_failover_cools:
  assumes "should_failover (cd_category d)" and "\<not> fst (should_suppress_duplicate tick p m (cd_category d) s)"
  shows "cooling_until (now + 120) (get_key p m) (record_failover ok now tick p m d s)"
  using assms failover_duration [of "cd_category d" "cd_retry_after_sec d"]
  by (auto simp: record_failover_def cooling_until_def dget_set_cooldown Let_def split_def)

lemma record_failover_keeps:
  assumes "should_failover (cd_category d)" and "T \<le> now + 120" and "cooling_until T k s"
  shows "cooling_until T k (record_failover ok now tick p m d s)"
  using assms failover_duration [of "cd_category d" "cd_retry_after_sec d"]
  by (auto simp: record_failover_def cooling_until_def dget_set_cooldown Let_def split_def)

lemma note_failure_keeps:
  assumes "T \<le> now + 120" and "cooling_until T k s"
  shows "cooling_until T k (snd (note_failure ok now tick p m e s))"
  using assms by (auto simp: note_failure_def Let_def cooling_until_def intro!: record_failover_keeps [unfolded cooling_until_def])

lemma attempts_keep:
  assumes "clocks_in lo T env" and "T \<le> lo + 120" and "cooling_until T key s"
  shows "cooling_until T key (snd (snd (attempts env i p m k n prev s)))"
  using assms(3)
proof (induction n arbitrary: k prev s)
  case (Suc n)
  obtain now tick res where a: "le_answer env i k = ((now, tick), res)" by (cases "le_answer env i k") auto
  have "lo \<le> now" using assms(1) a unfolding clocks_in_def by (metis fst_conv)
  then have "T \<le> now + 120" using assms(2) by simp
  then have "cooling_until T key (snd (note_failure (le_save_ok env) now tick p m e s))" for e
    using Suc.prems by (rule note_failure_keeps)
  moreover have "cooling_until T key (update_health_score p m UNKNOWN True s)" using Suc.prems by (simp add: cooling_until_def)
  ultimately show ?case using Suc.IH by (auto simp: a Let_def split_def split: sum.splits)
qed simp

lemma visit_keeps:
  assumes "clocks_in lo T env" and "T \<le> lo + 120" and "cooling_until T key s"
  shows "cooling_until T key (snd (snd (snd (visit env is_last i c s))))"
proof -
  obtain p m u where c: "c = (p, m, u)" by (cases c) auto
  obtain now tick where v: "le_visit env i = (now, tick)" by (cases "le_visit env i")
  have "now < T" using assms(1) v by (metis clocks_in_def fst_conv)
  then have keep: "cooling_until T key (snd (is_cooling_down ok now p m s))" for ok
    using assms(3) by (auto simp: cooling_until_def is_cooling_down_eq(2) is_active_def)
  show ?thesis unfolding visit_def c v
    using keep by (auto simp: Let_def split_def cooling_until_def intro!: attempts_keep [unfolded cooling_until_def, OF assms(1,2)])
qed

lemma visit_skips:
  assumes "clocks_in lo T env" and "cooling_until T (get_key p m) s"
  shows "fst (snd (visit env False i (p, m, u) s)) = 0"
proof -
  obtain now tick where v: "le_visit env i = (now, tick)" by (cases "le_visit env i")
  have "now < T" using assms(1) v by (metis clocks_in_def fst_conv)
  then have "fst (is_cooling_down ok now p m s)" for ok
    using assms(2) by (auto simp: cooling_until_def is_cooling_down_eq(1) is_active_def)
  then show ?thesis by (auto simp: visit_def v Let_def split_def)
qed

lemma try_candidates_cooling:
  assumes "clocks_in lo T env" and "T \<le> lo + 120" and "cooling_until T key s"
    and "try_candidates env i cs prev tried s = (out, sent, s')"
  shows "cooling_until T key s'"
    and "i + j \<in> set sent \<Longrightarrow> Suc j < length cs \<Longrightarrow> cs ! j = (p, m, u) \<Longrightarrow> get_key p m \<noteq> key"
proof -
  have "cooling_until T key s' \<and> (i + j \<in> set sent \<longrightarrow> Suc j < length cs \<longrightarrow> cs ! j = (p, m, u) \<longrightarrow> get_key p m \<noteq> key)"
    using assms(3,4)
  proof (induction cs arbitrary: i j prev tried s sent out s')
    case (Cons c cs)
    obtain res n b t where v: "visit env (cs = []) i c s = (res, n, b, t)" by (cases "visit env (cs = []) i c s") auto
    have t: "cooling_until T key t" using visit_keeps [OF assms(1,2) Cons.prems(1), of "cs = []" i c] by (simp add: v)
    have n: "n = 0" if "cs \<noteq> []" "c = (p', m', u')" "get_key p' m' = key" for p' m' u'
      using visit_skips [OF assms(1), of p' m' s i u'] Cons.prems(1) that v by auto
    show ?case
    proof (cases res)
      case (Inr r)
      then show ?thesis using Cons.prems(2) t n by (cases j) (auto simp: v)
    next
      case (Inl e)
      obtain o2 sent2 t2 where r: "try_candidates env (Suc i) cs (or_else e prev) (if b then Suc tried else tried) t = (o2, sent2, t2)"
        by (cases "try_candidates env (Suc i) cs (or_else e prev) (if b then Suc tried else tried) t") auto
      have eq: "sent = replicate n i @ sent2" "s' = t2" using Cons.prems(2) by (simp_all add: v Inl r)
      have "i \<notin> set sent2" using try_candidates_sent(2) [OF r] by auto
      moreover have "Suc i + j' \<in> set sent2 \<Longrightarrow> Suc j' < length cs \<Longrightarrow> cs ! j' = (p, m, u) \<Longrightarrow> get_key p m \<noteq> key" for j'
        using Cons.IH [OF t r, of j'] by blast
      ultimately show ?thesis using Cons.IH [OF t r] n eq by (cases j) auto
    qed
  qed simp
  then show "cooling_until T key s'"
    and "i + j \<in> set sent \<Longrightarrow> Suc j < length cs \<Longrightarrow> cs ! j = (p, m, u) \<Longrightarrow> get_key p m \<noteq> key" by auto
qed

definition call_step :: "'r llm_env \<times> llm_call \<Rightarrow> failover_state \<Rightarrow> failover_state" where
  "call_step = (\<lambda>(env, c) s. snd (snd (execute_call env c s)))"

interpretation calls: machine call_step "\<lambda>_. True"
  by unfold_locales simp

lemma call_keeps_cooling:
  assumes "clocks_in lo T env" and "T \<le> lo + 120" and "cooling_until T key s"
  shows "cooling_until T key (call_step (env, c) s)"
  using try_candidates_cooling(1) [OF assms, of 0 "call_candidates env c s" None 0]
  by (cases "execute_call env c s") (auto simp: call_step_def execute_call_def)

subsection \<open>Answers\<close>

definition retryable :: "llm_exn \<Rightarrow> bool" where
  "retryable e \<longleftrightarrow> should_retry (fst (classify_error e (extract_status_code e)))"

lemma note_failure_again: "fst (note_failure ok now tick p m e s) \<longleftrightarrow> retryable e"
  by (auto simp: note_failure_def retryable_def classify_error_def Let_def)

lemma attempts_reach:
  assumes "\<forall>j. k \<le> j \<and> j < k + n' \<longrightarrow> (\<exists>e. snd (le_answer env i j) = Inl e \<and> retryable e)"
    and "snd (le_answer env i (k + n')) = Inr r" and "n' < n"
  shows "fst (attempts env i p m k n prev s) = Inr r"
  using assms
proof (induction n' arbitrary: k n prev s)
  case 0
  then show ?case by (cases n) (auto simp: Let_def split_def)
next
  case (Suc n')
  then obtain e where e: "snd (le_answer env i k) = Inl e" "retryable e" by auto
  obtain n0 where n: "n = Suc n0" using Suc.prems(3) by (cases n) auto
  have "fst (attempts env i p m (Suc k) n0 (Some e) t) = Inr r" for t
    using Suc.prems n by (intro Suc.IH) auto
  then show ?case using e note_failure_again by (auto simp: n Let_def split_def)
qed

lemma attempts_origin:
  "fst (attempts env i p m k n prev s) = Inr r \<Longrightarrow> \<exists>j. snd (le_answer env i j) = Inr r"
proof (induction n arbitrary: k prev s)
  case (Suc n)
  show ?case
  proof (cases "snd (le_answer env i k)")
    case (Inl e)
    then show ?thesis using Suc.prems Suc.IH by (simp add: Let_def split_def split: if_splits)
  next
    case (Inr x)
    then show ?thesis using Suc.prems by (auto simp: Let_def split_def)
  qed
qed simp

lemma visit_origin: "fst (visit env l i c s) = Inr r \<Longrightarrow> \<exists>j. snd (le_answer env i j) = Inr r"
  using attempts_origin by (fastforce simp: visit_def Let_def split_def split: if_splits)

lemma try_candidates_origin:
  "fst (try_candidates env i cs prev tried s) = Inr r \<Longrightarrow> \<exists>i j. snd (le_answer env i j) = Inr r"
proof (induction cs arbitrary: i prev tried s)
  case (Cons c cs)
  then show ?case using visit_origin [of env "cs = []" i c s]
    by (auto simp: Let_def split_def split: sum.splits)
qed simp

lemma try_candidates_last:
  assumes "\<And>t. \<exists>r. fst (visit env True (i + length cs) c t) = Inr r"
  shows "\<exists>r. fst (try_candidates env i (cs @ [c]) prev tried s) = Inr r"
  using assms
proof (induction cs arbitrary: i prev tried s)
  case Nil
  from Nil [of s] show ?case by (auto simp: Let_def split_def)
next
  case (Cons d cs)
  have "\<exists>r. fst (try_candidates env (Suc i) (cs @ [c]) pv tr t) = Inr r" for pv tr t
    using Cons.prems by (intro Cons.IH) simp
  then show ?case by (auto simp: Let_def split_def split: sum.splits)
qed

lemma call_candidates_nonempty: "call_candidates env c s \<noteq> []"
proof -
  have "length (raw_candidates env c) \<noteq> 0"
    by (simp add: raw_candidates_def resolve_candidate_base_urls_def get_failover_candidates_def)
  moreover have "max_failover_candidates (lc_setting c) \<noteq> 0" by (simp add: max_failover_candidates_def Let_def)
  ultimately have "length (call_candidates env c s) \<noteq> 0"
    by (simp add: call_candidates_def candidates_to_try_def sort_by_health_def)
  then show ?thesis by auto
qed

lemma call_candidates_length: "length (call_candidates env c s) \<le> max_failover_candidates (lc_setting c)"
  by (simp add: call_candidates_def candidates_to_try_def)

subsection \<open>Properties\<close>

text \<open>
  C21: A cooldown is respected: after a failure that moves the loop on (and is no duplicate), in
  whatever calls follow within two minutes, with whatever candidates, orders and answers, a
  request goes to that provider and model only where it is the last candidate of its call.
\<close>

theorem cooldown_respected:
  assumes "should_failover (cd_category d)" and "\<not> fst (should_suppress_duplicate tick p m (cd_category d) s)"
    and "\<forall>(env, c) \<in> set es. clocks_in now (now + 120) env" and "es = pre @ (env, c) # post"
    and "s1 = fold call_step pre (record_failover ok now tick p m d s)"
    and "execute_call env c s1 = (out, sent, s2)" and "j \<in> set sent"
    and "call_candidates env c s1 ! j = (p', m', u)" and "get_key p' m' = get_key p m"
  shows "Suc j = length (call_candidates env c s1)"
proof (rule ccontr)
  assume last: "Suc j \<noteq> length (call_candidates env c s1)"
  have clocks: "clocks_in now (now + 120) env" using assms(3,4) by auto
  have step: "cooling_until (now + 120) (get_key p m) (call_step e t)"
    if "e \<in> set pre" and "cooling_until (now + 120) (get_key p m) t" for e t
  proof -
    obtain env' c' where e: "e = (env', c')" by (cases e)
    then have "clocks_in now (now + 120) env'" using assms(3,4) that(1) by fastforce
    from call_keeps_cooling [OF this order_refl that(2)] show ?thesis by (simp add: e)
  qed
  have "cooling_until (now + 120) (get_key p m) s1" unfolding assms(5)
    by (rule calls.run_stable) (auto intro: step record_failover_cools [OF assms(1,2)])
  note cooling = try_candidates_cooling(2) [OF clocks _ this assms(6) [unfolded execute_call_def], of j p' m' u]
  have "j < length (call_candidates env c s1)"
    using try_candidates_sent(2) [OF assms(6) [unfolded execute_call_def]] assms(7) by auto
  then show False using cooling assms(7-9) last by simp
qed

text \<open>
  A call is answered if its last candidate can be: when that candidate is allowed, has its
  key, and answers within the retries after failures that ask for a retry, the call returns
  what some attempt answered, whatever the cooldowns, the throttle and the other candidates.
\<close>

theorem last_candidate_answers:
  assumes "last (call_candidates env c s) = (p, m, u)" and "i = length (call_candidates env c s) - 1"
    and "validate_candidate_url env p u" and "\<not> lacks_key env p"
    and "\<forall>j < k. \<exists>e. snd (le_answer env i j) = Inl e \<and> retryable e"
    and "snd (le_answer env i k) = Inr r" and "int k \<le> le_max_retries env"
  shows "\<exists>r' i j. fst (execute_call env c s) = Inr r' \<and> snd (le_answer env i j) = Inr r'"
proof -
  define cs where "cs = butlast (call_candidates env c s)"
  have cs: "call_candidates env c s = cs @ [(p, m, u)]" "length cs = i"
    using assms(1,2) call_candidates_nonempty [of env c s] by (metis append_butlast_last_id cs_def) (simp add: cs_def assms(2))
  have "\<exists>r. fst (visit env True i (p, m, u) t) = Inr r" for t
    using assms(3,4) attempts_reach [of 0 k env i r "nat (le_max_retries env + 1)"] assms(5-7)
    by (auto simp: visit_def Let_def split_def)
  then have "\<exists>r. fst (execute_call env c s) = Inr r"
    unfolding execute_call_def cs(1) using cs(2) by (intro try_candidates_last) simp
  then show ?thesis using try_candidates_origin unfolding execute_call_def by metis
qed

text \<open>
  A call ends: it visits its candidates in order, sends none of them more than the retries
  and the first request, and at most as many candidates as the setting allows (at least one).
\<close>

theorem requests_bounded:
  "let (out, sent, s') = execute_call env c s; b = nat (le_max_retries env + 1) in
   sorted sent \<and> (\<forall>j. count_list sent j \<le> b) \<and> length sent \<le> max_failover_candidates (lc_setting c) * b"
proof -
  let ?b = "nat (le_max_retries env + 1)" and ?n = "max_failover_candidates (lc_setting c)"
  obtain out sent s' where e: "execute_call env c s = (out, sent, s')" by (cases "execute_call env c s")
  note sent = try_candidates_sent [OF e [unfolded execute_call_def]]
  have "set sent \<subseteq> {..<?n}" using sent(2) call_candidates_length [of env c s] by auto
  then have "length sent = sum (count_list sent) {..<?n}" by (simp add: sum_count_set)
  also have "\<dots> \<le> ?n * ?b" using sent(3) sum_bounded_above [of "{..<?n}" "count_list sent" ?b] by simp
  finally show ?thesis using sent(1,3) by (simp add: e)
qed

text \<open>
  The retry hint of a provider is never used: failures that ask for a retry (rate limits,
  timeouts), the only ones whose hint \<open>get_cooldown_duration\<close> reads, set no cooldown, even
  after the last retry.
\<close>

lemma rate_limits_set_no_cooldown:
  assumes "\<And>i j e. snd (le_answer env i j) = Inl e \<Longrightarrow> retryable e"
    and "dget (fs_cooldowns (call_step (env, c) s)) k = Some x"
  shows "dget (fs_cooldowns s) k = Some x"
proof -
  have note_retry: "retryable e \<Longrightarrow> fs_cooldowns (snd (note_failure ok now tick p m e t)) = fs_cooldowns t" for ok now tick p m e t
    by (auto simp: note_failure_def retryable_def classify_error_def Let_def)
  have att: "fs_cooldowns (snd (snd (attempts env i p m j n prev t))) = fs_cooldowns t" for i p m j n prev t
    using assms(1) note_retry by (induction n arbitrary: j prev t) (auto simp: Let_def split_def split: sum.splits)
  have vis: "dget (fs_cooldowns (snd (snd (snd (visit env l i c t))))) k = Some x \<Longrightarrow> dget (fs_cooldowns t) k = Some x" for l i c t
    by (auto simp: visit_def Let_def split_def att is_cooling_down_eq(2) split: if_splits option.splits)
  have "dget (fs_cooldowns (snd (snd (try_candidates env i cs prev tried t)))) k = Some x \<Longrightarrow> dget (fs_cooldowns t) k = Some x"
    for i cs prev tried t
  proof (induction cs arbitrary: i prev tried t)
    case (Cons c cs)
    show ?case
    proof (cases "fst (visit env (cs = []) i c t)")
      case (Inl e)
      have "dget (fs_cooldowns (snd (snd (snd (visit env (cs = []) i c t))))) k = Some x"
        by (rule Cons.IH) (use Cons.prems Inl in \<open>simp add: Let_def split_def\<close>)
      then show ?thesis by (rule vis)
    next
      case (Inr r)
      then show ?thesis using Cons.prems vis [of "cs = []" i c t] by (simp add: Let_def split_def)
    qed
  qed simp
  then show ?thesis using assms(2) by (simp add: call_step_def execute_call_def split_def)
qed

subsection \<open>Instances\<close>

definition demo_state :: failover_state where
  "demo_state = \<lparr>fs_file = F_missing, fs_cooldowns = [], fs_dedupe = [], fs_health = [], fs_last_attempts = []\<rparr>"

definition demo_exn :: llm_exn where
  "demo_exn = \<lparr>le_text = ''429 slow down'', le_status = None, le_retry_after = None\<rparr>"

definition demo_llm :: "string llm_env" where
  "demo_llm = \<lparr>le_visit = \<lambda>_. (120, 20),
     le_answer = \<lambda>i j. ((120, 20), if j = 0 then Inl demo_exn else Inr ''done''),
     le_info = \<lambda>_. None, le_policy = \<lambda>_ _. False, le_requires_key = \<lambda>_. False, le_api_key = \<lambda>_. None,
     le_save_ok = False, le_max_retries = 1\<rparr>"

definition demo_call :: llm_call where
  "demo_call = \<lparr>lc_provider = ''a'', lc_model = None, lc_base_url = None, lc_fallback_models = [], lc_fallback_providers = [],
     lc_setting = JInt 3\<rparr>"

lemma demo_simps [simp]:
  "le_visit demo_llm i = (120, 20)" "le_answer demo_llm i j = ((120, 20), if j = 0 then Inl demo_exn else Inr ''done'')"
  "validate_candidate_url demo_llm p None" "\<not> lacks_key demo_llm p" "le_max_retries demo_llm = 1"
  by (simp_all add: demo_llm_def validate_candidate_url_def lacks_key_def)

lemma demo_candidates [simp]: "call_candidates demo_llm demo_call s = [(''a'', None, None)]"
  by (simp add: demo_call_def call_candidates_def candidates_to_try_def raw_candidates_def
      resolve_candidate_base_urls_def get_failover_candidates_def max_failover_candidates_def sort_by_health_def json_int_def)

lemma demo_failure [simp]: "retryable demo_exn"
  by code_simp

lemma demo_sent: "fst (snd (execute_call demo_llm demo_call s)) = [0, 0]"
  by (simp add: execute_call_def visit_def note_failure_again Let_def split_def numeral_2_eq_2)

theorem cooldown_respected_witness:
  "Suc 0 = length (call_candidates demo_llm demo_call
     (record_failover False 110 10 ''a'' None \<lparr>cd_category = AUTH, cd_retry_after_sec = None, cd_reason_code = ''r'', cd_bucket = ''b''\<rparr> demo_state))"
proof (rule cooldown_respected [where es = "[(demo_llm, demo_call)]" and pre = "[]" and post = "[]" and p' = "''a''" and m' = None and u = None])
  let ?d = "\<lparr>cd_category = AUTH, cd_retry_after_sec = None, cd_reason_code = ''r'', cd_bucket = ''b''\<rparr>"
  let ?s = "record_failover False 110 10 ''a'' None ?d demo_state"
  show "should_failover (cd_category ?d)" by (simp add: should_failover_def)
  show "\<not> fst (should_suppress_duplicate 10 ''a'' None (cd_category ?d) demo_state)"
    by (simp add: should_suppress_duplicate_def demo_state_def last_ts_def DEDUPE_WINDOW_SEC_def Let_def)
  show "\<forall>(env, c) \<in> set [(demo_llm, demo_call)]. clocks_in 110 (110 + 120) env" by (simp add: clocks_in_def)
  show "execute_call demo_llm demo_call ?s = (fst (execute_call demo_llm demo_call ?s), [0, 0], snd (snd (execute_call demo_llm demo_call ?s)))"
    using demo_sent by (metis prod.collapse)
qed simp_all

theorem last_candidate_answers_witness:
  "\<exists>r' i j. fst (execute_call demo_llm demo_call demo_state) = Inr r' \<and> snd (le_answer demo_llm i j) = Inr r'"
proof (rule last_candidate_answers [where k = 1 and i = 0 and p = "''a''" and m = None and u = None])
  show "\<forall>j < 1. \<exists>e. snd (le_answer demo_llm 0 j) = Inl e \<and> retryable e"
    by simp
  show "snd (le_answer demo_llm 0 1) = Inr ''done''" by simp
qed simp_all

end
