(* ===== verification/Audit_Chain.thy ===== *)
theory Audit_Chain
  imports Json Contracts Env_Aliases "HOL-Library.Sublist"
begin

text \<open>
  \<open>services/audit_pipeline.py\<close> and the persistence of \<open>services/audit.py\<close>: the append-only
  audit log, a chain of keyed hashes over rotated files, and its verification. Parameters
  (\<open>audit_codec\<close>): the two \<open>json.dumps\<close> forms of a value whose keys are sorted, \<open>json.loads\<close>,
  and the keyed HMAC-SHA256 in hexadecimal. A file is its text, under 0 for the log itself
  and \<open>n\<close> for its backup \<open>.n\<close>.
\<close>

definition nl :: char where "nl = CHR 0x0A"

record audit_codec =
  ac_text :: "json \<Rightarrow> string"
  ac_compact :: "json \<Rightarrow> string"
  ac_loads :: "string \<Rightarrow> json option"
  ac_hmac :: "string \<Rightarrow> string"

text \<open>\<open>sort_keys=True\<close>: the keys of every object in order.\<close>

fun sort_keys :: "json \<Rightarrow> json" where
  "sort_keys (JObj d) = JObj (sort_key fst (map (\<lambda>(k, v). (k, sort_keys v)) d))"
| "sort_keys (JArr l) = JArr (map sort_keys l)"
| "sort_keys j = j"

type_synonym entry = "(string, json) dict"

definition chain_hash :: "audit_codec \<Rightarrow> string \<Rightarrow> entry \<Rightarrow> string" where
  "chain_hash ac prev_hash e = ac_hmac ac (prev_hash @ ''|'' @ ac_compact ac (sort_keys (JObj e)))"

subsection \<open>Files\<close>

type_synonym files = "(nat, string) dict"

definition rotated_chain_paths :: "files \<Rightarrow> nat list" where
  "rotated_chain_paths fs = rev (sort (filter (\<lambda>i. i \<ge> 1) (dkeys fs)))"

definition iter_audit_chain_paths :: "files \<Rightarrow> nat list" where
  "iter_audit_chain_paths fs = rotated_chain_paths fs @ (if dget fs 0 \<noteq> None then [0] else [])"

definition content :: "files \<Rightarrow> nat \<Rightarrow> string" where
  "content fs i = (case dget fs i of None \<Rightarrow> [] | Some c \<Rightarrow> c)"

definition nonblank_lines :: "string \<Rightarrow> string list" where
  "nonblank_lines data = filter (\<lambda>l. l \<noteq> []) (map py_strip (split_on nl data))"

text \<open>
  The hash in the last line of a file, read from its last 8192 bytes; the outer \<open>None\<close> is
  the \<open>AttributeError\<close> of a line that is JSON but no object.
\<close>

definition tail_hash_from_file :: "audit_codec \<Rightarrow> string \<Rightarrow> string option option" where
  "tail_hash_from_file ac text =
    (if text = [] then Some None
     else let lines = nonblank_lines (take_last 8192 text) in
       if lines = [] then Some None
       else (case ac_loads ac (last lines) of
           None \<Rightarrow> Some None
         | Some (JObj d) \<Rightarrow> Some (case dget d ''entry_hash'' of Some (JStr h) \<Rightarrow> if h = [] then None else Some h | _ \<Rightarrow> None)
         | Some _ \<Rightarrow> None))"

fun first_hash :: "audit_codec \<Rightarrow> string list \<Rightarrow> string option" where
  "first_hash ac [] = Some ''GENESIS''"
| "first_hash ac (c # cs) = (case tail_hash_from_file ac c of
     None \<Rightarrow> None | Some None \<Rightarrow> first_hash ac cs | Some (Some h) \<Rightarrow> Some h)"

definition read_last_entry_hash_from_chain :: "audit_codec \<Rightarrow> files \<Rightarrow> string option" where
  "read_last_entry_hash_from_chain ac fs =
     first_hash ac (map (content fs) ((if dget fs 0 \<noteq> None then [0] else []) @ rev (rotated_chain_paths fs)))"

subsection \<open>Rotation and appending\<close>

text \<open>
  Rotation drops the backup with the highest number and renames the others upwards;
  \<open>fails = Some k\<close>: a file operation raises after \<open>k\<close> turns of the loop.
\<close>

definition rotate_one :: "nat \<Rightarrow> nat \<Rightarrow> files \<Rightarrow> files" where
  "rotate_one backups idx fs = (case dget fs idx of None \<Rightarrow> fs
     | Some c \<Rightarrow> if idx = backups then ddel idx fs else dput (idx + 1) c (ddel idx fs))"

definition rotate_if_needed :: "int \<Rightarrow> int \<Rightarrow> nat option \<Rightarrow> files \<Rightarrow> bool \<times> files" where
  "rotate_if_needed max_bytes backups fails fs =
    (if max_bytes \<le> 0 \<or> backups < 0 then (True, fs)
     else case dget fs 0 of None \<Rightarrow> (True, fs)
     | Some c \<Rightarrow>
       if int (length c) < max_bytes then (True, fs)
       else if backups = 0 then (if fails = None then (True, ddel 0 fs) else (False, fs))
       else let turns = rev [1 ..< nat backups + 1] in
         (case fails of
            Some k \<Rightarrow> (False, fold (rotate_one (nat backups)) (take k turns) fs)
          | None \<Rightarrow> (True, dput 1 c (ddel 0 (fold (rotate_one (nat backups)) turns fs)))))"

text \<open>What becomes of the write of a line: it is written, the file is not opened, or the write fails after some characters.\<close>

datatype write_result = Written | Not_opened | Torn nat

definition wrapped_entry :: "string \<Rightarrow> string \<Rightarrow> entry \<Rightarrow> entry" where
  "wrapped_entry prev_hash event_hash e = dput ''entry_hash'' (JStr event_hash) (dput ''prev_hash'' (JStr prev_hash) e)"

definition entry_line :: "audit_codec \<Rightarrow> string \<Rightarrow> entry \<Rightarrow> string" where
  "entry_line ac prev_hash e = ac_text ac (sort_keys (JObj (wrapped_entry prev_hash (chain_hash ac prev_hash e) e)))"

type_synonym append_io = "nat option \<times> write_result"

definition append_entry ::
  "audit_codec \<Rightarrow> int \<Rightarrow> int \<Rightarrow> append_io \<Rightarrow> entry \<Rightarrow> string option \<Rightarrow> files \<Rightarrow> string option \<times> files" where
  "append_entry ac max_bytes backups = (\<lambda>(fails, w) e last_hash fs.
    let (rotated, fs) = rotate_if_needed max_bytes backups fails fs in
    if \<not> rotated then (None, fs)
    else case (case last_hash of Some h \<Rightarrow> if h = [] then read_last_entry_hash_from_chain ac fs else Some h
        | None \<Rightarrow> read_last_entry_hash_from_chain ac fs) of
      None \<Rightarrow> (None, fs)
    | Some prev_hash \<Rightarrow>
        (case w of
           Written \<Rightarrow> (Some (chain_hash ac prev_hash e), dput 0 (content fs 0 @ entry_line ac prev_hash e @ [nl]) fs)
         | Not_opened \<Rightarrow> (None, fs)
         | Torn n \<Rightarrow> (None, dput 0 (content fs 0 @ take n (entry_line ac prev_hash e @ [nl])) fs)))"

text \<open>The log of a process: the files and the hash kept in memory.\<close>

record audit_log =
  al_files :: files
  al_last_hash :: "string option"

definition write_audit_entry :: "audit_codec \<Rightarrow> int \<Rightarrow> int \<Rightarrow> append_io \<Rightarrow> entry \<Rightarrow> audit_log \<Rightarrow> audit_log" where
  "write_audit_entry ac max_bytes backups io e s =
    (let (h, fs) = append_entry ac max_bytes backups io e (al_last_hash s) (al_files s) in
     s\<lparr>al_files := fs, al_last_hash := (case h of None \<Rightarrow> al_last_hash s | Some _ \<Rightarrow> h)\<rparr>)"

text \<open>The fields of an entry; the details are given after sanitising and redaction.\<close>

definition persistable_audit_entry ::
  "string \<Rightarrow> string \<Rightarrow> string \<Rightarrow> int \<Rightarrow> string \<Rightarrow> string \<Rightarrow> json \<Rightarrow> time \<Rightarrow> string \<Rightarrow> entry" where
  "persistable_audit_entry action target outcome status_code source trace_id details now fresh_id =
    [(''ts'', JFloat now), (''source'', JStr (if source = [] then ''openclaw'' else source)),
     (''trace_id'', JStr (if trace_id = [] then fresh_id else trace_id)), (''action'', JStr action), (''target'', JStr target),
     (''outcome'', JStr outcome), (''status_code'', JInt status_code), (''details'', details)]"

definition env_int :: "env \<Rightarrow> string \<Rightarrow> string \<Rightarrow> int \<Rightarrow> int" where
  "env_int env primary legacy dflt = (case get_env_value env primary (Some [legacy]) None of
     Inr (Some raw) \<Rightarrow> (case py_int raw of None \<Rightarrow> dflt | Some v \<Rightarrow> if v \<ge> 0 then v else dflt)
   | _ \<Rightarrow> dflt)"

definition audit_limits :: "env \<Rightarrow> int \<times> int" where
  "audit_limits env =
    (env_int env ''OPENCLAW_AUDIT_MAX_BYTES'' ''MOLTBOT_AUDIT_MAX_BYTES'' (5 * 1024 * 1024),
     env_int env ''OPENCLAW_AUDIT_MAX_BACKUPS'' ''MOLTBOT_AUDIT_MAX_BACKUPS'' 3)"

text \<open>
  The key of the chain: the setting, else the key file, else a generated key that is
  written when the file can be created. \<open>None\<close> is an exception; \<open>tohex\<close> and \<open>fromhex\<close>
  convert bytes.
\<close>

definition get_audit_chain_key ::
  "(string \<Rightarrow> string) \<Rightarrow> (string \<Rightarrow> string option) \<Rightarrow> string option \<Rightarrow> string \<Rightarrow> bool \<Rightarrow> string option \<Rightarrow> string option \<times> string option" where
  "get_audit_chain_key tohex fromhex raw generated creatable key_file =
    (case raw of Some (c # cs) \<Rightarrow> (Some (c # cs), key_file)
     | _ \<Rightarrow>
       (case key_file of
          None \<Rightarrow> (Some generated, if creatable then Some (tohex generated) else None)
        | Some text \<Rightarrow>
            if py_strip text = [] then (Some generated, key_file) else (fromhex (py_strip text), key_file)))"

subsection \<open>Verification\<close>

datatype chain_issue = Missing_chain | Invalid_json | Missing_hash_fields | Prev_hash_mismatch | Entry_hash_mismatch

record verification =
  av_ok :: bool
  av_entries :: nat
  av_start :: string
  av_terminal :: string
  av_issues :: "(chain_issue \<times> nat \<times> nat) list"

definition av_truncated :: "verification \<Rightarrow> bool" where
  "av_truncated r \<longleftrightarrow> av_start r \<noteq> ''GENESIS''"

definition or_genesis :: "string option \<Rightarrow> string" where
  "or_genesis h = (case h of None \<Rightarrow> ''GENESIS'' | Some x \<Rightarrow> if x = [] then ''GENESIS'' else x)"

definition chain_failure :: "chain_issue \<Rightarrow> nat \<Rightarrow> nat \<Rightarrow> string option \<Rightarrow> string \<Rightarrow> nat \<Rightarrow> verification" where
  "chain_failure code path line prev start n =
     \<lparr>av_ok = False, av_entries = n, av_start = start, av_terminal = or_genesis prev, av_issues = [(code, path, line)]\<rparr>"

text \<open>
  The walk over the numbered lines of the files: \<open>prev\<close> the hash of the entry before,
  \<open>start\<close> the first \<open>prev_hash\<close>, \<open>n\<close> the entries so far. \<open>None\<close>: a JSON line that is no object
  raises.
\<close>

fun verify_lines :: "audit_codec \<Rightarrow> string option \<Rightarrow> string \<Rightarrow> nat \<Rightarrow> (nat \<times> nat \<times> string) list \<Rightarrow> verification option" where
  "verify_lines ac prev start n [] =
     Some \<lparr>av_ok = True, av_entries = n, av_start = start, av_terminal = or_genesis prev, av_issues = []\<rparr>"
| "verify_lines ac prev start n ((path, k, raw) # rest) =
    (let line = py_strip raw in
     if line = [] then verify_lines ac prev start n rest
     else case ac_loads ac line of
       None \<Rightarrow> Some (chain_failure Invalid_json path k prev start n)
     | Some (JObj d) \<Rightarrow>
         (case (dget d ''prev_hash'', dget d ''entry_hash'') of
            (Some (JStr prev_hash), Some (JStr entry_hash)) \<Rightarrow>
              if prev \<noteq> None \<and> prev \<noteq> Some prev_hash then Some (chain_failure Prev_hash_mismatch path k prev start n)
              else let start = (if prev = None then prev_hash else start) in
                if entry_hash \<noteq> chain_hash ac prev_hash (ddel ''entry_hash'' (ddel ''prev_hash'' d))
                then Some (chain_failure Entry_hash_mismatch path k prev start n)
                else verify_lines ac (Some entry_hash) start (n + 1) rest
          | _ \<Rightarrow> Some (chain_failure Missing_hash_fields path k prev start n))
     | Some _ \<Rightarrow> None)"

definition numbered_lines :: "files \<Rightarrow> (nat \<times> nat \<times> string) list" where
  "numbered_lines fs = concat (map (\<lambda>i. map (\<lambda>(k, l). (i, k, l)) (List.enumerate 1 (split_on nl (content fs i))))
     (iter_audit_chain_paths fs))"

definition verify_audit_chain :: "audit_codec \<Rightarrow> files \<Rightarrow> verification option" where
  "verify_audit_chain ac fs =
    (if iter_audit_chain_paths fs = []
     then Some \<lparr>av_ok = False, av_entries = 0, av_start = ''GENESIS'', av_terminal = ''GENESIS'', av_issues = [(Missing_chain, 0, 0)]\<rparr>
     else verify_lines ac None ''GENESIS'' 0 (numbered_lines fs))"

subsection \<open>Lines and sorted keys\<close>

definition unlines :: "string list \<Rightarrow> string" where
  "unlines ls = concat (map (\<lambda>l. l @ [nl]) ls)"

definition plain_line :: "string \<Rightarrow> bool" where
  "plain_line l \<longleftrightarrow> l \<noteq> [] \<and> nl \<notin> set l \<and> \<not> is_space (hd l) \<and> \<not> is_space (last l)"

lemma unlines_simps [simp]:
  "unlines [] = []" "unlines (l # ls) = l @ nl # unlines ls" "unlines (ls @ ms) = unlines ls @ unlines ms"
  by (simp_all add: unlines_def)

lemma plain_strip: "plain_line l \<Longrightarrow> py_strip l = l"
  by (auto simp: plain_line_def intro: py_strip_id)

lemma nonblank_append: "nonblank_lines (a @ nl # b) = nonblank_lines a @ nonblank_lines b"
  by (simp add: nonblank_lines_def split_on_append)

lemma nonblank_Nil [simp]: "nonblank_lines [] = []"
  by (simp add: nonblank_lines_def py_strip_def)

lemma nonblank_plain: "plain_line l \<Longrightarrow> nonblank_lines l = [l]"
  by (simp add: nonblank_lines_def plain_strip) (auto simp: plain_line_def plain_strip)

lemma nonblank_unlines: "list_all plain_line ls \<Longrightarrow> nonblank_lines (unlines ls) = ls"
  by (induction ls) (auto simp: nonblank_append nonblank_plain)

lemma sort_keys_obj: "\<exists>d'. sort_keys (JObj d) = JObj d'"
  by simp

lemma sort_key_map: "sort_key fst (map (\<lambda>(k, v). (k, f v)) d) = map (\<lambda>(k, v). (k, f v)) (sort_key fst d)"
proof -
  have ins: "insort_key fst (k, f v) (map (\<lambda>(k, v). (k, f v)) xs) = map (\<lambda>(k, v). (k, f v)) (insort_key fst (k, v) xs)" for k v xs
    by (induction xs) auto
  show ?thesis by (induction d) (auto simp: ins)
qed

lemma sort_keys_idem [simp]: "sort_keys (sort_keys j) = sort_keys j"
proof (induction j rule: sort_keys.induct)
  case (1 d)
  have eq: "map (\<lambda>(k, v). (k, sort_keys (sort_keys v))) d = map (\<lambda>(k, v). (k, sort_keys v)) d"
    using 1 by auto
  have "sort_keys (sort_keys (JObj d)) =
      JObj (sort_key fst (map (\<lambda>(k, v). (k, sort_keys v)) (sort_key fst (map (\<lambda>(k, v). (k, sort_keys v)) d))))" by simp
  also have "map (\<lambda>(k, v). (k, sort_keys v)) (sort_key fst (map (\<lambda>(k, v). (k, sort_keys v)) d))
      = sort_key fst (map (\<lambda>(k, v). (k, sort_keys v)) (map (\<lambda>(k, v). (k, sort_keys v)) d))"
    by (rule sort_key_map [symmetric])
  also have "map (\<lambda>(k, v). (k, sort_keys v)) (map (\<lambda>(k, v). (k, sort_keys v)) d) = map (\<lambda>(k, v). (k, sort_keys v)) d"
    using eq by (simp add: comp_def split_def)
  also have "sort_key fst (sort_key fst (map (\<lambda>(k, v). (k, sort_keys v)) d)) = sort_key fst (map (\<lambda>(k, v). (k, sort_keys v)) d)"
    by (rule sort_key_id_if_sorted) (rule sort_key_sorted)
  finally show ?case by simp
qed auto

text \<open>Taking the two hashes out of a written object gives back the entry, up to the order of the keys.\<close>

definition own_fields :: "entry \<Rightarrow> entry" where
  "own_fields d = ddel ''entry_hash'' (ddel ''prev_hash'' d)"

definition unhashed :: "entry \<Rightarrow> bool" where
  "unhashed e \<longleftrightarrow> dict_ok e \<and> ''prev_hash'' \<notin> set (dkeys e) \<and> ''entry_hash'' \<notin> set (dkeys e)"

definition written_object :: "audit_codec \<Rightarrow> string \<Rightarrow> entry \<Rightarrow> entry" where
  "written_object ac p e = sort_key fst (map (\<lambda>(k, v). (k, sort_keys v)) (wrapped_entry p (chain_hash ac p e) e))"

lemma written_object: "sort_keys (JObj (wrapped_entry p (chain_hash ac p e) e)) = JObj (written_object ac p e)"
  by (simp add: written_object_def)

lemma wrapped_append:
  "unhashed e \<Longrightarrow> wrapped_entry p h e = e @ [(''prev_hash'', JStr p), (''entry_hash'', JStr h)]"
proof -
  assume u: "unhashed e"
  then have "dget e ''prev_hash'' = None" by (simp add: unhashed_def map_of_eq_None_iff)
  moreover have "dget (e @ [(''prev_hash'', JStr p)]) ''entry_hash'' = None"
    using u by (auto simp: unhashed_def map_of_eq_None_iff)
  ultimately show ?thesis by (simp add: wrapped_entry_def dput_new)
qed

lemma written_fields:
  assumes "unhashed e"
  shows "dget (written_object ac p e) ''prev_hash'' = Some (JStr p)"
    and "dget (written_object ac p e) ''entry_hash'' = Some (JStr (chain_hash ac p e))"
    and "JObj (own_fields (written_object ac p e)) = sort_keys (JObj e)"
proof -
  let ?w = "map (\<lambda>(k, v). (k, sort_keys v)) (wrapped_entry p (chain_hash ac p e) e)"
  have w: "?w = map (\<lambda>(k, v). (k, sort_keys v)) e @ [(''prev_hash'', JStr p), (''entry_hash'', JStr (chain_hash ac p e))]"
    by (simp add: wrapped_append [OF assms])
  have keys: "dkeys (map (\<lambda>(k, v). (k, sort_keys v)) e) = dkeys e" by (simp add: split_def)
  have keyset: "fst ` set (map (\<lambda>(k, v). (k, sort_keys v)) e) = fst ` set e" by force
  have ok: "dict_ok ?w" using assms unfolding w by (simp add: keys unhashed_def split_def comp_def)
  have notin: "dget (map (\<lambda>(k, v). (k, sort_keys v)) e) ''prev_hash'' = None" "dget (map (\<lambda>(k, v). (k, sort_keys v)) e) ''entry_hash'' = None"
    using assms keys using keyset by (simp_all add: unhashed_def map_of_eq_None_iff)
  show "dget (written_object ac p e) ''prev_hash'' = Some (JStr p)"
    and "dget (written_object ac p e) ''entry_hash'' = Some (JStr (chain_hash ac p e))"
    unfolding written_object_def dget_sort_key [OF ok] unfolding w by (simp_all add: notin map_add_def)
  have "own_fields (written_object ac p e) = sort_key fst (filter (\<lambda>q. fst q \<noteq> ''entry_hash'') (filter (\<lambda>q. fst q \<noteq> ''prev_hash'') ?w))"
    unfolding own_fields_def written_object_def ddel_filter filter_sort ..
  also have "filter (\<lambda>q. fst q \<noteq> ''entry_hash'') (filter (\<lambda>q. fst q \<noteq> ''prev_hash'') ?w) = map (\<lambda>(k, v). (k, sort_keys v)) e"
    using assms unfolding w by (auto simp: unhashed_def filter_id_conv split_def image_iff)
  finally show "JObj (own_fields (written_object ac p e)) = sort_keys (JObj e)" by simp
qed

lemma chain_hash_cong: "sort_keys (JObj d) = sort_keys (JObj e) \<Longrightarrow> chain_hash ac p d = chain_hash ac p e"
  by (simp add: chain_hash_def)

lemma written_hash: "unhashed e \<Longrightarrow> chain_hash ac p (own_fields (written_object ac p e)) = chain_hash ac p e"
  by (rule chain_hash_cong) (metis written_fields(3) sort_keys_idem)

subsection \<open>Chains of lines\<close>

fun chain_lines :: "audit_codec \<Rightarrow> string \<Rightarrow> entry list \<Rightarrow> string list" where
  "chain_lines ac p [] = []"
| "chain_lines ac p (e # es) = entry_line ac p e # chain_lines ac (chain_hash ac p e) es"

definition chain_end :: "audit_codec \<Rightarrow> string \<Rightarrow> entry list \<Rightarrow> string" where
  "chain_end ac p es = fold (\<lambda>e h. chain_hash ac h e) es p"

lemma chain_end_simps [simp]:
  "chain_end ac p [] = p" "chain_end ac p (e # es) = chain_end ac (chain_hash ac p e) es"
  "chain_end ac p (es @ es') = chain_end ac (chain_end ac p es) es'"
  by (simp_all add: chain_end_def)

lemma chain_lines_append: "chain_lines ac p (es @ es') = chain_lines ac p es @ chain_lines ac (chain_end ac p es) es'"
  by (induction es arbitrary: p) auto

lemma length_chain_lines [simp]: "length (chain_lines ac p es) = length es"
  by (induction es arbitrary: p) auto

lemma chain_lines_drop: "drop n (chain_lines ac p es) = chain_lines ac (chain_end ac p (take n es)) (drop n es)"
proof -
  have "chain_lines ac p es = chain_lines ac p (take n es) @ chain_lines ac (chain_end ac p (take n es)) (drop n es)"
    by (metis append_take_drop_id chain_lines_append)
  then have "drop n (chain_lines ac p es) = drop n (chain_lines ac p (take n es)) @
      drop (n - length (take n es)) (chain_lines ac (chain_end ac p (take n es)) (drop n es))" by simp
  then show ?thesis by (cases "n \<le> length es") auto
qed

text \<open>The hashes that a chain can hold, and what is needed of the JSON text of an entry under them.\<close>

definition hashes :: "audit_codec \<Rightarrow> string set" where
  "hashes ac = insert ''GENESIS'' (range (ac_hmac ac))"

definition loads_back :: "audit_codec \<Rightarrow> entry \<Rightarrow> bool" where
  "loads_back ac e \<longleftrightarrow> (\<forall>p \<in> hashes ac. let j = sort_keys (JObj (wrapped_entry p (chain_hash ac p e) e)) in
     ac_loads ac (ac_text ac j) = Some j \<and> plain_line (ac_text ac j))"

definition short_lines :: "audit_codec \<Rightarrow> entry \<Rightarrow> bool" where
  "short_lines ac e \<longleftrightarrow> (\<forall>p \<in> hashes ac. length (entry_line ac p e) < 8192)"

lemma chain_hash_in [simp]: "chain_hash ac p e \<in> hashes ac"
  by (simp add: hashes_def chain_hash_def)

lemma chain_end_in: "p \<in> hashes ac \<Longrightarrow> chain_end ac p es \<in> hashes ac"
  by (induction es arbitrary: p) auto

lemma line_loads:
  assumes "unhashed e" and "loads_back ac e" and "p \<in> hashes ac"
  shows "ac_loads ac (entry_line ac p e) = Some (JObj (written_object ac p e))" and "plain_line (entry_line ac p e)"
  using assms by (auto simp: loads_back_def entry_line_def written_object_def Let_def)

lemma chain_lines_plain:
  "list_all unhashed es \<Longrightarrow> list_all (loads_back ac) es \<Longrightarrow> p \<in> hashes ac \<Longrightarrow> list_all plain_line (chain_lines ac p es)"
  by (induction es arbitrary: p) (auto intro: line_loads)

lemma verify_chain:
  assumes "list_all unhashed es" and "list_all (loads_back ac) es" and "p \<in> hashes ac" and "prev = None \<or> prev = Some p"
    and "filter (\<lambda>l. l \<noteq> []) (map (\<lambda>(_, _, raw). py_strip raw) raws) = chain_lines ac p es"
  shows "verify_lines ac prev start n raws = Some \<lparr>av_ok = True, av_entries = n + length es,
      av_start = (if prev = None \<and> es \<noteq> [] then p else start),
      av_terminal = or_genesis (if es = [] then prev else Some (chain_end ac p es)), av_issues = []\<rparr>"
  using assms
proof (induction raws arbitrary: es p prev start n)
  case Nil
  then show ?case by (cases es) auto
next
  case (Cons r raws)
  obtain f k raw where r: "r = (f, k, raw)" by (cases r)
  show ?case
  proof (cases "py_strip raw = []")
    case True
    then show ?thesis using Cons by (simp add: r)
  next
    case False
    then obtain e es' where es: "es = e # es'" and raw: "py_strip raw = entry_line ac p e"
      and rest: "filter (\<lambda>l. l \<noteq> []) (map (\<lambda>(_, _, raw). py_strip raw) raws) = chain_lines ac (chain_hash ac p e) es'"
      using Cons.prems(5) by (cases es) (auto simp: r)
    have e: "unhashed e" "list_all unhashed es'" "loads_back ac e" "list_all (loads_back ac) es'" using Cons.prems(1,2) es by auto
    have IH: "verify_lines ac (Some (chain_hash ac p e)) st m raws = Some \<lparr>av_ok = True, av_entries = m + length es', av_start = st,
        av_terminal = or_genesis (if es' = [] then Some (chain_hash ac p e) else Some (chain_end ac (chain_hash ac p e) es')), av_issues = []\<rparr>" for st m
      using Cons.IH [of es' "chain_hash ac p e" "Some (chain_hash ac p e)" st m] e rest by simp
    have l: "ac_loads ac (entry_line ac p e) = Some (JObj (written_object ac p e))" using e Cons.prems(3) by (simp add: line_loads)
    have fields: "dget (written_object ac p e) ''prev_hash'' = Some (JStr p)"
      "dget (written_object ac p e) ''entry_hash'' = Some (JStr (chain_hash ac p e))"
      "chain_hash ac p (ddel ''entry_hash'' (ddel ''prev_hash'' (written_object ac p e))) = chain_hash ac p e"
      using e written_fields [of e ac p] written_hash [of e ac p] by (auto simp: own_fields_def)
    show ?thesis using Cons.prems(4) False
      by (auto simp: r es raw l fields IH Let_def)
  qed
qed

subsection \<open>The files in the order of the chain\<close>

definition file_lines :: "files \<Rightarrow> string list" where
  "file_lines fs = concat (map (\<lambda>i. nonblank_lines (content fs i)) (iter_audit_chain_paths fs))"

lemma content_simps [simp]:
  "content (dput i c fs) j = (if j = i then c else content fs j)" "content (ddel i fs) j = (if j = i then [] else content fs j)"
  by (simp_all add: content_def dict_simps)

lemma paths_eq:
  assumes "dict_ok fs" and "\<forall>i \<in> set (dkeys fs). i \<le> N"
  shows "iter_audit_chain_paths fs = filter (\<lambda>i. i \<in> set (dkeys fs)) (rev [0 ..< Suc N])"
proof -
  let ?r = "filter (\<lambda>i. i \<in> set (dkeys fs)) [1 ..< Suc N]"
  have "sort (filter (\<lambda>i. 1 \<le> i) (dkeys fs)) = ?r"
  proof (rule sorted_distinct_set_unique)
    show "sorted ?r" using sorted_filter [of id "[1 ..< Suc N]"] by (simp add: id_def del: upt_Suc)
    show "distinct (sort (filter (\<lambda>i. 1 \<le> i) (dkeys fs)))" using assms(1) by simp
    show "set (sort (filter (\<lambda>i. 1 \<le> i) (dkeys fs))) = set ?r" using assms(2) by (auto simp: less_Suc_eq_le)
  qed simp_all
  moreover have "[0 ..< Suc N] = 0 # [1 ..< Suc N]" by (simp add: upt_conv_Cons del: upt_Suc)
  ultimately show ?thesis
    by (auto simp: iter_audit_chain_paths_def rotated_chain_paths_def rev_filter map_of_eq_None_iff simp del: upt_Suc)
qed

lemma file_lines_eq:
  assumes "dict_ok fs" and "\<forall>i \<in> set (dkeys fs). i \<le> N"
  shows "file_lines fs = concat (map (\<lambda>i. nonblank_lines (content fs i)) (rev [0 ..< Suc N]))"
proof -
  let ?f = "\<lambda>i. nonblank_lines (content fs i)"
  have gone: "?f i = []" if "i \<notin> set (dkeys fs)" for i
    using that map_of_eq_None_iff [of fs i] by (simp add: content_def)
  have "concat (map ?f (filter (\<lambda>i. i \<in> set (dkeys fs)) xs)) = concat (map ?f xs)" for xs
    by (induction xs) (use gone in \<open>simp_all del: set_map\<close>)
  then show ?thesis by (simp only: file_lines_def paths_eq [OF assms])
qed

lemma numbered_lines_text:
  "filter (\<lambda>l. l \<noteq> []) (map (\<lambda>(_, _, raw). py_strip raw) (numbered_lines fs)) = file_lines fs"
proof -
  have "filter (\<lambda>l. l \<noteq> []) (map (\<lambda>(_, _, raw). py_strip raw) (concat (map (\<lambda>i. map (\<lambda>(k, l). (i, k, l)) (List.enumerate 1 (split_on nl (content fs i)))) is)))
      = concat (map (\<lambda>i. nonblank_lines (content fs i)) is)" for "is"
    by (induction "is") (simp_all add: nonblank_lines_def comp_def split_def flip: map_map [of py_strip snd, unfolded comp_def])
  then show ?thesis by (simp add: numbered_lines_def file_lines_def)
qed

subsection \<open>Rotation keeps the chain\<close>

definition tidy :: "nat \<Rightarrow> files \<Rightarrow> bool" where
  "tidy B fs \<longleftrightarrow> dict_ok fs \<and> (\<forall>i \<in> set (dkeys fs). i \<le> B) \<and> (\<forall>i. content fs i = unlines (nonblank_lines (content fs i)))"

lemma tidy_lines:
  "tidy B fs \<Longrightarrow> file_lines fs = concat (map (\<lambda>i. nonblank_lines (content fs i)) (rev [0 ..< Suc B]))"
  by (rule file_lines_eq) (auto simp: tidy_def)

lemma dkeys_dput_set: "set (dkeys (dput k v d)) = insert k (set (dkeys d))"
  by (simp add: AList.dom_update)

lemma dkeys_ddel_set: "set (dkeys (ddel k d)) = set (dkeys d) - {k}"
  by (auto simp: ddel_filter)

lemma rotate_one_keeps:
  assumes "tidy B fs" and "idx \<le> B" and "idx = B \<or> dget fs (Suc idx) = None"
  shows "tidy B (rotate_one B idx fs)" and "suffix (file_lines (rotate_one B idx fs)) (file_lines fs)"
    and "dget (rotate_one B idx fs) idx = None"
    and "idx \<noteq> B \<Longrightarrow> file_lines (rotate_one B idx fs) = file_lines fs"
proof -
  let ?fs = "rotate_one B idx fs" and ?g = "\<lambda>fs i. nonblank_lines (content fs i)"
  show t: "tidy B ?fs"
  proof (cases "dget fs idx")
    case (Some c)
    then have "content fs idx = c" by (simp add: content_def)
    then have "c = unlines (nonblank_lines c)" using assms(1) by (metis tidy_def)
    then show ?thesis using assms
      by (auto simp: rotate_one_def Some tidy_def dkeys_dput_set dkeys_ddel_set dict_simps simp del: set_map)
  qed (simp add: rotate_one_def assms(1))
  show "dget ?fs idx = None" by (auto simp: rotate_one_def dict_simps split: option.split)
  have split: "rev [0 ..< Suc B] = rev [Suc idx ..< Suc B] @ idx # rev [0 ..< idx]" if "idx \<le> B"
  proof -
    have "[0 ..< Suc B] = [0 ..< idx] @ idx # [Suc idx ..< Suc B]"
      using that upt_add_eq_append [of 0 idx "Suc B - idx"] by (simp add: upt_conv_Cons [of idx] del: upt_Suc)
    then show ?thesis by simp
  qed
  have up: "concat (map (?g ?fs) (rev [0 ..< Suc B])) = concat (map (?g fs) (rev [0 ..< Suc B]))" if "idx \<noteq> B"
  proof (cases "dget fs idx")
    case (Some c)
    have B: "Suc idx \<le> B" using that assms(2) by simp
    then have "rev [Suc idx ..< Suc B] = rev [Suc (Suc idx) ..< Suc B] @ [Suc idx]" by (simp add: upt_conv_Cons)
    moreover have "content fs (Suc idx) = []" using that assms(3) by (simp add: content_def)
    moreover have "map (?g ?fs) (rev [Suc (Suc idx) ..< Suc B]) = map (?g fs) (rev [Suc (Suc idx) ..< Suc B])"
      "map (?g ?fs) (rev [0 ..< idx]) = map (?g fs) (rev [0 ..< idx])"
      using that by (auto simp: rotate_one_def Some)
    moreover have "?g ?fs (Suc idx) = ?g fs idx" "?g ?fs idx = []" using that by (simp_all add: rotate_one_def Some content_def [of fs])
    ultimately show ?thesis
      by (simp only: split [OF assms(2)] map_append list.map concat_append concat.simps append_Nil append_Nil2 append_assoc nonblank_Nil)
  qed (simp add: rotate_one_def)
  then show same: "idx \<noteq> B \<Longrightarrow> file_lines ?fs = file_lines fs" unfolding tidy_lines [OF t] tidy_lines [OF assms(1)] by simp
  show "suffix (file_lines ?fs) (file_lines fs)"
  proof (cases "idx = B")
    case True
    have rest: "map (?g ?fs) (rev [0 ..< B]) = map (?g fs) (rev [0 ..< B])"
      using True by (auto simp: rotate_one_def split: option.split)
    have "?g ?fs B = [] \<or> ?fs = fs" using True by (auto simp: rotate_one_def split: option.split)
    then show ?thesis
    proof
      assume "?g ?fs B = []"
      then have "file_lines fs = ?g fs B @ file_lines ?fs"
        unfolding tidy_lines [OF t] tidy_lines [OF assms(1)] upt_Suc_append [OF le0] by (simp only: rev_append rev.simps map_append list.map
          concat_append concat.simps append_Nil append_Nil2 rest)
      then show ?thesis by (rule suffixI)
    qed simp
  qed (simp add: same)
qed

lemma rotate_turns:
  assumes "tidy B fs" and "j \<le> Suc B"
  shows "tidy B (fold (rotate_one B) (take j (rev [0 ..< Suc B])) fs)
    \<and> suffix (file_lines (fold (rotate_one B) (take j (rev [0 ..< Suc B])) fs)) (file_lines fs)
    \<and> (0 < j \<longrightarrow> dget (fold (rotate_one B) (take j (rev [0 ..< Suc B])) fs) (Suc B - j) = None)"
  using assms(2)
proof (induction j)
  case 0
  then show ?case using assms(1) by simp
next
  case (Suc j)
  let ?fs = "fold (rotate_one B) (take j (rev [0 ..< Suc B])) fs"
  have "rev [0 ..< Suc B] ! j = B - j" using Suc.prems by (simp add: rev_nth del: upt_Suc)
  then have step: "fold (rotate_one B) (take (Suc j) (rev [0 ..< Suc B])) fs = rotate_one B (B - j) ?fs"
    using Suc.prems by (simp add: take_Suc_conv_app_nth del: upt_Suc)
  have IH: "tidy B ?fs" "suffix (file_lines ?fs) (file_lines fs)" "0 < j \<longrightarrow> dget ?fs (Suc B - j) = None" using Suc by auto
  have "B - j = B \<or> dget ?fs (Suc (B - j)) = None" 
  proof (cases "j = 0")
    case False
    then have "Suc (B - j) = Suc B - j" using Suc.prems by (simp add: Suc_diff_le)
    then show ?thesis using IH(3) False by (simp only:) simp
  qed simp
  from rotate_one_keeps [OF IH(1) _ this] show ?case unfolding step using IH(2) Suc.prems
    by (auto intro: suffix_order.trans)
qed

lemma rotate_keeps:
  assumes "tidy (nat backups) fs" and "rotate_if_needed max_bytes backups fails fs = (ok, fs')"
  shows "tidy (nat backups) fs'" and "suffix (file_lines fs') (file_lines fs)"
proof -
  let ?B = "nat backups"
  have turns: "rev [0 ..< Suc ?B] = rev [1 ..< ?B + 1] @ [0]" by (simp add: upt_conv_Cons del: upt_Suc)
  have part: "tidy ?B (fold (rotate_one ?B) (take k (rev [1 ..< ?B + 1])) fs)
      \<and> suffix (file_lines (fold (rotate_one ?B) (take k (rev [1 ..< ?B + 1])) fs)) (file_lines fs)" for k
  proof -
    have "take k (rev [1 ..< ?B + 1]) = take (min k ?B) (rev [0 ..< Suc ?B])" unfolding turns by (simp add: min_def)
    then show ?thesis using rotate_turns [OF assms(1), of "min k ?B"] by simp
  qed
  have zero: "fold (rotate_one ?B) (rev [0 ..< Suc ?B]) fs = (case dget (fold (rotate_one ?B) (rev [1 ..< ?B + 1]) fs) 0 of None \<Rightarrow>
        fold (rotate_one ?B) (rev [1 ..< ?B + 1]) fs
      | Some c \<Rightarrow> dput 1 c (ddel 0 (fold (rotate_one ?B) (rev [1 ..< ?B + 1]) fs)))" if "0 < backups"
    unfolding turns using that by (simp add: rotate_one_def del: upt_Suc split: option.split)
  have base: "dget (fold (rotate_one ?B) is fs) 0 = dget fs 0" if "0 \<notin> set is" for "is"
    using that by (induction "is" arbitrary: fs) (auto simp: rotate_one_def dict_simps split: option.splits)
  have all: "tidy ?B (fold (rotate_one ?B) (rev [0 ..< Suc ?B]) fs)
      \<and> suffix (file_lines (fold (rotate_one ?B) (rev [0 ..< Suc ?B]) fs)) (file_lines fs)"
    using rotate_turns [OF assms(1), of "Suc ?B"] by simp
  have del: "tidy 0 fs \<Longrightarrow> dget fs 0 = Some c \<Longrightarrow> tidy 0 (ddel 0 fs) \<and> suffix (file_lines (ddel 0 fs)) (file_lines fs)" for c
    using rotate_one_keeps [of 0 fs 0] by (auto simp: rotate_one_def)
  show "tidy ?B fs'" "suffix (file_lines fs') (file_lines fs)"
    using assms part all zero del base [of "rev [1 ..< ?B + 1]"]
    by (auto simp: rotate_if_needed_def Let_def simp del: upt_Suc split: option.splits if_splits)
qed

subsection \<open>Reading the last hash\<close>

lemma suffix_unlines:
  assumes "suffix x (unlines ls)" and "x \<noteq> []"
  shows "last x = nl"
proof -
  obtain y where "unlines ls = y @ x" using assms(1) by (auto simp: suffix_def)
  then have "unlines ls \<noteq> []" and l: "last x = last (unlines ls)" using assms(2) by auto
  then obtain ks k where "ls = ks @ [k]" by (cases ls rule: rev_cases) auto
  then show ?thesis using l by simp
qed

lemma nonblank_tail:
  assumes "plain_line l" and "length l < 8192"
  shows "\<exists>ms. nonblank_lines (take_last 8192 (unlines (ls @ [l]))) = ms @ [l]"
proof -
  have "take_last 8192 (unlines (ls @ [l])) = take_last (8191 - length l) (unlines ls) @ l @ [nl]"
    using assms(2) by (auto simp: take_last_def)
  moreover have suf: "suffix (take_last (8191 - length l) (unlines ls)) (unlines ls)" by (simp add: take_last_def suffix_drop)
  ultimately show ?thesis
  proof (cases "take_last (8191 - length l) (unlines ls) = []")
    case True
    then show ?thesis using \<open>take_last 8192 _ = _\<close> nonblank_append [of l "[]"] by (simp add: nonblank_plain [OF assms(1)])
  next
    case False
    then obtain a where a: "take_last (8191 - length l) (unlines ls) = a @ [nl]"
      using suffix_unlines [OF suf] by (metis append_butlast_last_id)
    have "nonblank_lines (a @ nl # (l @ nl # [])) = nonblank_lines a @ [l]"
      unfolding nonblank_append by (simp add: nonblank_plain [OF assms(1)])
    then show ?thesis using \<open>take_last 8192 _ = _\<close> by (simp add: a)
  qed
qed

lemma tail_hash_last:
  assumes "unhashed e" and "loads_back ac e" and "short_lines ac e" and "p \<in> hashes ac" and "\<forall>t. ac_hmac ac t \<noteq> []"
  shows "tail_hash_from_file ac (unlines (ls @ [entry_line ac p e])) = Some (Some (chain_hash ac p e))"
proof -
  have "length (entry_line ac p e) < 8192" using assms(3,4) by (simp add: short_lines_def)
  then obtain ms where "nonblank_lines (take_last 8192 (unlines (ls @ [entry_line ac p e]))) = ms @ [entry_line ac p e]"
    using nonblank_tail line_loads(2) [OF assms(1,2,4)] by metis
  moreover have "chain_hash ac p e \<noteq> []" using assms(5) by (simp add: chain_hash_def)
  ultimately show ?thesis
    by (simp add: tail_hash_from_file_def Let_def line_loads(1) [OF assms(1,2,4)] written_fields(2) [OF assms(1)])
qed

lemma first_hash_chain:
  assumes "list_all unhashed es" and "list_all (loads_back ac) es" and "list_all (short_lines ac) es" and "p \<in> hashes ac"
    and "\<forall>t. ac_hmac ac t \<noteq> []" and "\<forall>c \<in> set cs. c = unlines (nonblank_lines c)"
    and "concat (map nonblank_lines (rev cs)) = chain_lines ac p es"
  shows "first_hash ac cs = Some (if es = [] then ''GENESIS'' else chain_end ac p es)"
  using assms(6,7)
proof (induction cs)
  case Nil
  then show ?case by (cases es) auto
next
  case (Cons c cs)
  show ?case
  proof (cases "nonblank_lines c" rule: rev_cases)
    case Nil
    then have "c = []" using Cons.prems(1) by (metis list.set_intros(1) unlines_simps(1))
    then show ?thesis using Cons by (simp add: tail_hash_from_file_def)
  next
    case (snoc ls l)
    then have ne: "es \<noteq> []" using Cons.prems(2) by (cases es) auto
    then obtain es' e where es: "es = es' @ [e]" by (metis append_butlast_last_id)
    have e: "unhashed e" "loads_back ac e" "short_lines ac e" using assms(1-3) by (simp_all add: es)
    have "last (concat (map nonblank_lines (rev (c # cs)))) = l" using snoc by simp
    moreover have "last (chain_lines ac p es) = entry_line ac (chain_end ac p es') e" by (simp add: es chain_lines_append)
    ultimately have "l = entry_line ac (chain_end ac p es') e" using Cons.prems(2) by simp
    moreover have "c = unlines (ls @ [l])" using Cons.prems(1) snoc by (metis list.set_intros(1))
    ultimately show ?thesis using tail_hash_last [OF e chain_end_in [OF assms(4)] assms(5)] by (simp add: es)
  qed
qed

lemma read_last_hash:
  assumes "tidy B fs" and "file_lines fs = chain_lines ac p es" and "p \<in> hashes ac" and "\<forall>t. ac_hmac ac t \<noteq> []"
    and "list_all unhashed es" and "list_all (loads_back ac) es" and "list_all (short_lines ac) es"
  shows "read_last_entry_hash_from_chain ac fs = Some (if es = [] then ''GENESIS'' else chain_end ac p es)"
proof -
  let ?cs = "map (content fs) ((if dget fs 0 \<noteq> None then [0] else []) @ rev (rotated_chain_paths fs))"
  have "map nonblank_lines (rev ?cs) = map (\<lambda>i. nonblank_lines (content fs i)) (iter_audit_chain_paths fs)"
    by (simp add: iter_audit_chain_paths_def rev_map)
  then have "concat (map nonblank_lines (rev ?cs)) = chain_lines ac p es" using assms(2) by (simp add: file_lines_def)
  moreover have "\<forall>c \<in> set ?cs. c = unlines (nonblank_lines c)" using assms(1) by (auto simp: tidy_def)
  ultimately show ?thesis unfolding read_last_entry_hash_from_chain_def by (intro first_hash_chain [OF assms(5-7,3,4)])
qed

subsection \<open>The log along its events\<close>

definition log_inv :: "audit_codec \<Rightarrow> nat \<Rightarrow> audit_log \<Rightarrow> entry list \<Rightarrow> bool" where
  "log_inv ac B s written \<longleftrightarrow> tidy B (al_files s) \<and> (\<exists>p es. p \<in> hashes ac \<and> file_lines (al_files s) = chain_lines ac p es
     \<and> suffix es written \<and> (\<forall>h. al_last_hash s = Some h \<longrightarrow> h \<in> range (ac_hmac ac) \<and> (es \<noteq> [] \<longrightarrow> h = chain_end ac p es)))"

definition good_entry :: "audit_codec \<Rightarrow> entry \<Rightarrow> bool" where
  "good_entry ac e \<longleftrightarrow> unhashed e \<and> loads_back ac e \<and> short_lines ac e"

lemma suffix_chain:
  assumes "suffix ls (chain_lines ac p es)" and "p \<in> hashes ac"
  shows "\<exists>q es'. q \<in> hashes ac \<and> ls = chain_lines ac q es' \<and> suffix es' es \<and> (es' \<noteq> [] \<longrightarrow> chain_end ac q es' = chain_end ac p es)"
proof -
  obtain n where "ls = drop n (chain_lines ac p es)" using assms(1) by (metis suffix_take append_eq_conv_conj suffix_def)
  then have "ls = chain_lines ac (chain_end ac p (take n es)) (drop n es)" by (simp add: chain_lines_drop)
  moreover have "chain_end ac (chain_end ac p (take n es)) (drop n es) = chain_end ac p es"
    by (metis append_take_drop_id chain_end_simps(3))
  ultimately show ?thesis using chain_end_in [OF assms(2)] suffix_drop by metis
qed

lemma put_line:
  assumes "tidy B fs" and "plain_line l"
  shows "tidy B (dput 0 (content fs 0 @ l @ [nl]) fs)" and "file_lines (dput 0 (content fs 0 @ l @ [nl]) fs) = file_lines fs @ [l]"
    and "tidy B (dput 0 (content fs 0) fs)" and "file_lines (dput 0 (content fs 0) fs) = file_lines fs"
proof -
  have c: "content fs 0 = unlines (nonblank_lines (content fs 0))" using assms(1) by (simp add: tidy_def)
  have l: "nonblank_lines (content fs 0 @ l @ [nl]) = nonblank_lines (content fs 0) @ [l]"
  proof (cases "content fs 0 = []")
    case True
    then show ?thesis using nonblank_append [of l "[]"] by (simp add: nonblank_plain [OF assms(2)])
  next
    case False
    then obtain a where a: "content fs 0 = a @ [nl]"
      using suffix_unlines [of "content fs 0" "nonblank_lines (content fs 0)"] c by (metis append_butlast_last_id suffix_order.refl)
    show ?thesis unfolding a using nonblank_append [of a "l @ nl # []"] nonblank_append [of a "[]"] nonblank_append [of l "[]"]
      by (simp add: nonblank_plain [OF assms(2)])
  qed
  show t1: "tidy B (dput 0 (content fs 0 @ l @ [nl]) fs)"
    using assms(1) c l by (auto simp: tidy_def dkeys_dput_set dict_simps simp del: set_map)
  show t2: "tidy B (dput 0 (content fs 0) fs)"
    using assms(1) by (auto simp: tidy_def dkeys_dput_set dict_simps simp del: set_map)
  have idx: "rev [0 ..< Suc B] = rev [1 ..< Suc B] @ [0]" by (simp add: upt_conv_Cons del: upt_Suc)
  have rest: "map (\<lambda>i. nonblank_lines (if i = 0 then c else content fs i)) (rev [1 ..< Suc B])
      = map (\<lambda>i. nonblank_lines (content fs i)) (rev [1 ..< Suc B])" for c by auto
  show "file_lines (dput 0 (content fs 0 @ l @ [nl]) fs) = file_lines fs @ [l]"
    and "file_lines (dput 0 (content fs 0) fs) = file_lines fs"
    unfolding tidy_lines [OF t1] tidy_lines [OF t2] tidy_lines [OF assms(1)] idx
    by (simp_all only: map_append rest list.map concat_append concat.simps content_simps l append_assoc append_Nil2 if_True simp_thms)
qed

lemma append_keeps:
  assumes "log_inv ac (nat backups) s written" and "list_all (good_entry ac) written" and "good_entry ac e" and "\<forall>t. ac_hmac ac t \<noteq> []"
    and "snd io \<in> {Written, Not_opened, Torn 0}"
    and "append_entry ac max_bytes backups io e (al_last_hash s) (al_files s) = (h, fs)"
  shows "log_inv ac (nat backups) \<lparr>al_files = fs, al_last_hash = (case h of None \<Rightarrow> al_last_hash s | Some _ \<Rightarrow> h)\<rparr>
    (written @ (if h = None then [] else [e]))"
proof -
  obtain fails w where io: "io = (fails, w)" by (cases io)
  obtain p es where inv: "tidy (nat backups) (al_files s)" "p \<in> hashes ac" "file_lines (al_files s) = chain_lines ac p es"
    "suffix es written" "\<And>h. al_last_hash s = Some h \<Longrightarrow> h \<in> range (ac_hmac ac) \<and> (es \<noteq> [] \<longrightarrow> h = chain_end ac p es)"
    using assms(1) by (auto simp: log_inv_def)
  obtain ok fs1 where r: "rotate_if_needed max_bytes backups fails (al_files s) = (ok, fs1)"
    by (cases "rotate_if_needed max_bytes backups fails (al_files s)")
  have t1: "tidy (nat backups) fs1" and "suffix (file_lines fs1) (chain_lines ac p es)"
    using rotate_keeps [OF inv(1) r] inv(3) by auto
  then obtain q es1 where q: "q \<in> hashes ac" "file_lines fs1 = chain_lines ac q es1" "suffix es1 es"
    "es1 \<noteq> [] \<longrightarrow> chain_end ac q es1 = chain_end ac p es" using suffix_chain [OF _ inv(2)] by blast
  have suf: "suffix es1 written" using q(3) inv(4) suffix_order.trans by blast
  have last: "h \<in> range (ac_hmac ac) \<and> (es1 \<noteq> [] \<longrightarrow> h = chain_end ac q es1)" if "al_last_hash s = Some h" for h
    using inv(5) [OF that] q(3,4) by auto
  have kept: "log_inv ac (nat backups) \<lparr>al_files = fs1, al_last_hash = al_last_hash s\<rparr> written"
    unfolding log_inv_def using t1 q(1,2) suf last by auto
  have good: "list_all unhashed es1" "list_all (loads_back ac) es1" "list_all (short_lines ac) es1"
    using assms(2) suf by (auto simp: list_all_iff good_entry_def dest: set_mono_suffix)
  have e: "unhashed e" "loads_back ac e" using assms(3) by (auto simp: good_entry_def)
  define prev where "prev = (case al_last_hash s of Some h \<Rightarrow> h | None \<Rightarrow> if es1 = [] then ''GENESIS'' else chain_end ac q es1)"
  have prev: "prev \<in> hashes ac" "es1 \<noteq> [] \<longrightarrow> prev = chain_end ac q es1"
    using last chain_end_in [OF q(1), of es1] by (auto simp: prev_def split: option.split) (auto simp: hashes_def)
  have ne: "al_last_hash s \<noteq> Some []" using last [of "[]"] assms(4) by (metis rangeE)
  have read: "(case al_last_hash s of Some h \<Rightarrow> if h = [] then read_last_entry_hash_from_chain ac fs1 else Some h
      | None \<Rightarrow> read_last_entry_hash_from_chain ac fs1) = Some prev"
    using ne read_last_hash [OF t1 q(2,1) assms(4) good] by (auto simp: prev_def split: option.split)
  note line = put_line [OF t1 line_loads(2) [OF e prev(1)]]
  have appended: "file_lines fs1 @ [entry_line ac prev e] = chain_lines ac (if es1 = [] then prev else q) (es1 @ [e])"
    using prev(2) by (auto simp: q(2) chain_lines_append)
  show ?thesis
  proof (cases ok)
    case False
    then show ?thesis using assms(6) kept by (auto simp: append_entry_def io r)
  next
    case True
    note app = assms(6) [unfolded append_entry_def io split r Let_def, simplified True read, simplified]
    show ?thesis
    proof (cases w)
      case Written
      have out: "chain_hash ac prev e \<in> range (ac_hmac ac)" by (simp add: chain_hash_def)
      have "\<exists>q' es'. q' \<in> hashes ac \<and> file_lines fs = chain_lines ac q' es' \<and> suffix es' (written @ [e]) \<and> es' \<noteq> []
          \<and> chain_hash ac prev e = chain_end ac q' es'"
        using app line(2) appended prev q(1) suf Written
        by (intro exI [of _ "if es1 = [] then prev else q"] exI [of _ "es1 @ [e]"]) auto
      moreover have "h = Some (chain_hash ac prev e)" "tidy (nat backups) fs" using app line(1) Written by auto
      ultimately show ?thesis unfolding log_inv_def using out by auto
    next
      case Not_opened
      then show ?thesis using app kept by auto
    next
      case (Torn n)
      then have "n = 0" using assms(5) by (simp add: io)
      then have "fs = dput 0 (content fs1 0) fs1" "h = None" using app Torn by auto
      then show ?thesis unfolding log_inv_def using line(3,4) q(1,2) suf last by auto
    qed
  qed
qed

datatype audit_event = Emit append_io entry | Restart

text \<open>A step of the process, with the entries written so far.\<close>

definition audit_step :: "audit_codec \<Rightarrow> int \<Rightarrow> int \<Rightarrow> audit_event \<Rightarrow> audit_log \<times> entry list \<Rightarrow> audit_log \<times> entry list" where
  "audit_step ac max_bytes backups ev = (\<lambda>(s, written). case ev of
     Emit io e \<Rightarrow> (write_audit_entry ac max_bytes backups io e s,
       written @ (if fst (append_entry ac max_bytes backups io e (al_last_hash s) (al_files s)) = None then [] else [e]))
   | Restart \<Rightarrow> (s\<lparr>al_last_hash := None\<rparr>, written))"

definition good_event :: "audit_codec \<Rightarrow> audit_event \<Rightarrow> bool" where
  "good_event ac ev \<longleftrightarrow> (case ev of Emit io e \<Rightarrow> good_entry ac e \<and> snd io \<in> {Written, Not_opened, Torn 0} | Restart \<Rightarrow> True)"

lemma audit_step_keeps:
  assumes "good_event ac ev" and "\<forall>t. ac_hmac ac t \<noteq> []" and "log_inv ac (nat backups) s written" and "list_all (good_entry ac) written"
    and "audit_step ac max_bytes backups ev (s, written) = (s', written')"
  shows "log_inv ac (nat backups) s' written' \<and> list_all (good_entry ac) written'"
proof (cases ev)
  case (Emit io e)
  obtain h fs where a: "append_entry ac max_bytes backups io e (al_last_hash s) (al_files s) = (h, fs)"
    by (cases "append_entry ac max_bytes backups io e (al_last_hash s) (al_files s)")
  have "good_entry ac e" "snd io \<in> {Written, Not_opened, Torn 0}" using assms(1) by (simp_all add: good_event_def Emit)
  note kept = append_keeps [OF assms(3,4) this(1) assms(2) this(2) a]
  have "s' = \<lparr>al_files = fs, al_last_hash = (case h of None \<Rightarrow> al_last_hash s | Some _ \<Rightarrow> h)\<rparr>"
    using assms(5) by (auto simp: audit_step_def Emit write_audit_entry_def a)
  moreover have "written' = written @ (if h = None then [] else [e])" using assms(5) by (simp add: audit_step_def Emit a)
  ultimately show ?thesis using kept assms(4) \<open>good_entry ac e\<close> by simp
next
  case Restart
  then have "s' = s\<lparr>al_last_hash := None\<rparr>" "written' = written" using assms(5) by (auto simp: audit_step_def)
  moreover have "log_inv ac (nat backups) (s\<lparr>al_last_hash := None\<rparr>) written"
    using assms(3) by (simp add: log_inv_def) blast
  ultimately show ?thesis using assms(4) by simp
qed

lemma audit_run_keeps:
  assumes "list_all (good_event ac) evs" and "\<forall>t. ac_hmac ac t \<noteq> []" and "log_inv ac (nat backups) s written"
    and "list_all (good_entry ac) written" and "fold (audit_step ac max_bytes backups) evs (s, written) = (s', written')"
  shows "log_inv ac (nat backups) s' written' \<and> list_all (good_entry ac) written'"
  using assms
proof (induction evs arbitrary: s written)
  case (Cons ev evs)
  obtain s1 w1 where step: "audit_step ac max_bytes backups ev (s, written) = (s1, w1)" by (cases "audit_step ac max_bytes backups ev (s, written)")
  from audit_step_keeps [OF _ Cons.prems(2-4) this] have "log_inv ac (nat backups) s1 w1 \<and> list_all (good_entry ac) w1"
    using Cons.prems(1) by simp
  then show ?case using Cons.IH [of s1 w1] Cons.prems(1,2,5) step by simp
qed simp

definition empty_log :: audit_log where
  "empty_log = \<lparr>al_files = [], al_last_hash = None\<rparr>"

lemma empty_log_inv: "log_inv ac B empty_log []"
proof -
  have "file_lines [] = chain_lines ac ''GENESIS'' []" by (simp add: file_lines_def iter_audit_chain_paths_def rotated_chain_paths_def)
  moreover have "''GENESIS'' \<in> hashes ac" by (simp add: hashes_def)
  moreover have "tidy B []" by (simp add: tidy_def content_def)
  ultimately show ?thesis unfolding log_inv_def empty_log_def by force
qed

subsection \<open>What a verified log says\<close>

definition line_object :: "audit_codec \<Rightarrow> string \<Rightarrow> entry" where
  "line_object ac l = (case ac_loads ac l of Some (JObj d) \<Rightarrow> d | _ \<Rightarrow> [])"

definition line_text :: "audit_codec \<Rightarrow> string \<Rightarrow> string \<Rightarrow> string" where
  "line_text ac k l = (case dget (line_object ac l) k of Some (JStr t) \<Rightarrow> t | _ \<Rightarrow> [])"

definition line_entry :: "audit_codec \<Rightarrow> string \<Rightarrow> json" where
  "line_entry ac l = sort_keys (JObj (own_fields (line_object ac l)))"

definition retained_entries :: "audit_codec \<Rightarrow> files \<Rightarrow> json list" where
  "retained_entries ac fs = map (line_entry ac) (file_lines fs)"

definition hashed_text :: "audit_codec \<Rightarrow> string \<Rightarrow> string" where
  "hashed_text ac l = line_text ac ''prev_hash'' l @ ''|'' @ ac_compact ac (line_entry ac l)"

text \<open>Lines, the newest first, linked back to the hash before the oldest.\<close>

fun linked :: "audit_codec \<Rightarrow> string \<Rightarrow> string list \<Rightarrow> bool" where
  "linked ac start [] = True"
| "linked ac start (l # ls) = (line_text ac ''entry_hash'' l = ac_hmac ac (hashed_text ac l)
     \<and> line_text ac ''prev_hash'' l = (case ls of [] \<Rightarrow> start | m # _ \<Rightarrow> line_text ac ''entry_hash'' m) \<and> linked ac start ls)"

definition newest_hash :: "audit_codec \<Rightarrow> string list \<Rightarrow> string option" where
  "newest_hash ac ls = (case ls of [] \<Rightarrow> None | m # _ \<Rightarrow> Some (line_text ac ''entry_hash'' m))"

lemma verify_linked:
  assumes "verify_lines ac (newest_hash ac done) start (length done) raws = Some r" and "av_ok r" and "linked ac start done"
    and "ls = filter (\<lambda>l. l \<noteq> []) (map (\<lambda>(_, _, raw). py_strip raw) raws)"
  shows "linked ac (av_start r) (rev ls @ done) \<and> av_entries r = length (rev ls @ done)
    \<and> av_terminal r = or_genesis (newest_hash ac (rev ls @ done))"
  using assms
proof (induction raws arbitrary: "done" start ls)
  case (Cons x raws)
  obtain f k raw where x: "x = (f, k, raw)" by (cases x)
  let ?ls = "filter (\<lambda>l. l \<noteq> []) (map (\<lambda>(_, _, raw). py_strip raw) raws)"
  show ?case
  proof (cases "py_strip raw = []")
    case True
    then show ?thesis using Cons by (simp add: x)
  next
    case False
    let ?l = "py_strip raw"
    obtain d p h where d: "ac_loads ac ?l = Some (JObj d)" "dget d ''prev_hash'' = Some (JStr p)" "dget d ''entry_hash'' = Some (JStr h)"
      "newest_hash ac done = None \<or> newest_hash ac done = Some p" "h = chain_hash ac p (own_fields d)"
      and rest: "verify_lines ac (Some h) (if newest_hash ac done = None then p else start) (Suc (length done)) raws = Some r"
      using Cons.prems(1,2) False
      by (auto simp: x Let_def chain_failure_def own_fields_def split: option.splits json.splits if_splits)
    have l: "line_text ac ''prev_hash'' ?l = p" "line_text ac ''entry_hash'' ?l = h" "h = ac_hmac ac (hashed_text ac ?l)"
      using d by (simp_all add: line_text_def line_object_def hashed_text_def line_entry_def chain_hash_def)
    have "linked ac (if newest_hash ac done = None then p else start) (?l # done)"
      using l d(4) Cons.prems(3) by (cases "done") (auto simp: newest_hash_def)
    moreover have "newest_hash ac (?l # done) = Some h" by (simp add: newest_hash_def l)
    ultimately show ?thesis using Cons.IH [of "?l # done" _ ?ls] rest Cons.prems(2,4) False by (simp add: x)
  qed
qed (auto simp: newest_hash_def)

lemma verified_log:
  assumes "verify_audit_chain ac fs = Some r" and "av_ok r"
  shows "linked ac (av_start r) (rev (file_lines fs))" and "av_entries r = length (file_lines fs)"
    and "av_terminal r = or_genesis (newest_hash ac (rev (file_lines fs)))"
proof -
  have "verify_lines ac (newest_hash ac []) ''GENESIS'' (length ([] :: string list)) (numbered_lines fs) = Some r"
    using assms by (auto simp: verify_audit_chain_def newest_hash_def split: if_splits)
  from verify_linked [OF this assms(2) _ refl]
  show "linked ac (av_start r) (rev (file_lines fs))" and "av_entries r = length (file_lines fs)"
    and "av_terminal r = or_genesis (newest_hash ac (rev (file_lines fs)))" by (simp_all add: numbered_lines_text)
qed

lemma linked_pins:
  assumes "linked ac st ls" and "linked ac st' ms" and "newest_hash ac ls = newest_hash ac ms" and "k \<le> length ls" and "k \<le> length ms"
    and "CHR ''|'' \<notin> set st" and "CHR ''|'' \<notin> set st'" and "\<forall>t. CHR ''|'' \<notin> set (ac_hmac ac t)"
    and "inj_on (ac_hmac ac) (hashed_text ac ` (set ls \<union> set ms))" and "inj_on (ac_compact ac) (line_entry ac ` (set ls \<union> set ms))"
  shows "map (line_entry ac) (take k ls) = map (line_entry ac) (take k ms)"
  using assms(1-5,9,10)
proof (induction k arbitrary: ls ms)
  case (Suc k)
  obtain l ls' m ms' where lm: "ls = l # ls'" "ms = m # ms'" using Suc.prems(4,5) by (cases ls; cases ms) auto
  have bar: "CHR ''|'' \<notin> set (line_text ac ''prev_hash'' l)" "CHR ''|'' \<notin> set (line_text ac ''prev_hash'' m)"
    using Suc.prems(1,2) assms(6-8) lm by (cases ls'; cases ms'; auto)+
  have "ac_hmac ac (hashed_text ac l) = ac_hmac ac (hashed_text ac m)" using Suc.prems(1-3) by (simp add: lm newest_hash_def)
  then have "hashed_text ac l = hashed_text ac m" by (rule inj_onD [OF Suc.prems(6)]) (auto simp: lm)
  then have "line_text ac ''prev_hash'' l @ CHR ''|'' # ac_compact ac (line_entry ac l)
      = line_text ac ''prev_hash'' m @ CHR ''|'' # ac_compact ac (line_entry ac m)" by (simp add: hashed_text_def)
  then have eq: "line_text ac ''prev_hash'' l = line_text ac ''prev_hash'' m" "ac_compact ac (line_entry ac l) = ac_compact ac (line_entry ac m)"
    using append_at_first [OF bar] by blast+
  have "line_entry ac l = line_entry ac m" using eq(2) by (rule inj_onD [OF Suc.prems(7)]) (auto simp: lm)
  moreover have "map (line_entry ac) (take k ls') = map (line_entry ac) (take k ms')"
  proof (cases "k = 0")
    case False
    then have "newest_hash ac ls' = newest_hash ac ms'"
      using Suc.prems(1,2,4,5) eq(1) by (cases ls'; cases ms') (auto simp: lm newest_hash_def)
    then show ?thesis using Suc.prems by (intro Suc.IH) (auto simp: lm inj_on_Un image_Un)
  qed simp
  ultimately show ?case by (simp add: lm)
qed simp

subsection \<open>Size\<close>

definition sizes_ok :: "nat \<Rightarrow> int \<Rightarrow> files \<Rightarrow> bool" where
  "sizes_ok B m fs \<longleftrightarrow> dict_ok fs \<and> (\<forall>i \<in> set (dkeys fs). i \<le> B) \<and> (\<forall>i c. dget fs i = Some c \<longrightarrow> int (length c) < m)"

lemma sizes_put: "sizes_ok B m fs \<Longrightarrow> i \<le> B \<Longrightarrow> int (length c) < m \<Longrightarrow> sizes_ok B m (dput i c fs)"
  by (auto simp: sizes_ok_def dkeys_dput_set dict_simps simp del: set_map map_of_eq_Some_iff split: if_splits)

lemma sizes_del: "sizes_ok B m fs \<Longrightarrow> sizes_ok B m (ddel i fs)"
  by (auto simp: sizes_ok_def dkeys_ddel_set dict_simps simp del: set_map map_of_eq_Some_iff split: if_splits)

lemma sizes_rotate_one: "sizes_ok B m fs \<Longrightarrow> idx \<le> B \<Longrightarrow> sizes_ok B m (rotate_one B idx fs)"
proof (cases "dget fs idx")
  case (Some c)
  assume ok: "sizes_ok B m fs" "idx \<le> B"
  then have "int (length c) < m" using Some by (simp add: sizes_ok_def del: map_of_eq_Some_iff)
  then show ?thesis using ok by (auto simp: rotate_one_def Some intro!: sizes_put sizes_del)
qed (simp add: rotate_one_def)

lemma sizes_fold: "sizes_ok B m fs \<Longrightarrow> \<forall>i \<in> set is. i \<le> B \<Longrightarrow> sizes_ok B m (fold (rotate_one B) is fs)"
  by (induction "is" arbitrary: fs) (auto intro: sizes_rotate_one)

lemma sizes_rotate:
  assumes "sizes_ok (nat backups) m fs" and "rotate_if_needed max_bytes backups fails fs = (ok, fs')" and "0 < max_bytes" and "0 \<le> backups"
  shows "sizes_ok (nat backups) m fs'" and "ok \<Longrightarrow> int (length (content fs' 0)) < max_bytes"
proof -
  have f: "sizes_ok (nat backups) m (fold (rotate_one (nat backups)) is fs)" if "set is \<subseteq> {..nat backups}" for "is"
    using assms(1) that by (intro sizes_fold) auto
  have "set (take k (rev [1 ..< nat backups + 1])) \<subseteq> {..nat backups}" for k
    using set_take_subset [of k "rev [1 ..< nat backups + 1]"] by auto
  note part = f [OF this]
  have all: "sizes_ok (nat backups) m (fold (rotate_one (nat backups)) (rev [1 ..< nat backups + 1]) fs)"
    by (rule f) auto
  have c: "int (length c) < m" if "dget fs 0 = Some c" for c using assms(1) that by (auto simp: sizes_ok_def)
  show "sizes_ok (nat backups) m fs'"
    using assms part all c by (auto simp: rotate_if_needed_def Let_def simp del: upt_Suc intro!: sizes_put sizes_del split: option.splits if_splits)
  show "int (length (content fs' 0)) < max_bytes" if ok
    using assms(2-4) that by (auto simp: rotate_if_needed_def Let_def content_def dict_simps split: option.splits if_splits)
qed

lemma sizes_append:
  assumes "sizes_ok (nat backups) (max_bytes + L) fs" and "0 < max_bytes" and "0 \<le> backups" and "\<forall>p. int (length (entry_line ac p e)) < L"
  shows "sizes_ok (nat backups) (max_bytes + L) (snd (append_entry ac max_bytes backups io e h fs))"
proof -
  obtain fails w where io: "io = (fails, w)" by (cases io)
  obtain ok fs1 where r: "rotate_if_needed max_bytes backups fails fs = (ok, fs1)" by (cases "rotate_if_needed max_bytes backups fails fs")
  note r' = sizes_rotate [OF assms(1) r assms(2,3)]
  have "int (length (content fs1 0 @ take n (entry_line ac p e @ [nl]))) < max_bytes + L" if ok for n p
    using r'(2) [OF that] assms(4) [rule_format, of p] by auto
  moreover have "int (length (content fs1 0 @ entry_line ac p e @ [nl])) < max_bytes + L" if ok for p
    using r'(2) [OF that] assms(4) [rule_format, of p] by auto
  ultimately show ?thesis using r'(1)
    by (auto simp: append_entry_def io r Let_def intro!: sizes_put split: write_result.split option.split)
qed

subsection \<open>Properties\<close>


text \<open>
  C13: The terminal hash pins down the newest entries: two logs that both verify and end in the same
  hash hold the same newest \<open>k\<close> entries, for every \<open>k\<close> up to the length of the shorter, so no entry
  among these was changed, inserted or removed between the two readings. (Oldest entries that are gone
  go unnoticed: a log without them still verifies, with the same terminal hash, as after a rotation.)
  Taken for granted: the HMAC gives different texts on the different lines of the two logs, is not
  empty and without a vertical bar; compact JSON of different entries is different; and the first
  entry of neither log names a predecessor with a vertical bar.
\<close>

theorem terminal_hash_pins_log:
  assumes "verify_audit_chain ac fs = Some r" and "av_ok r" and "verify_audit_chain ac fs' = Some r'" and "av_ok r'"
    and "av_terminal r = av_terminal r'" and "CHR ''|'' \<notin> set (av_start r)" and "CHR ''|'' \<notin> set (av_start r')"
    and "\<forall>t. ac_hmac ac t \<noteq> [] \<and> CHR ''|'' \<notin> set (ac_hmac ac t)"
    and "inj_on (ac_hmac ac) (hashed_text ac ` (set (file_lines fs) \<union> set (file_lines fs')))"
    and "inj_on (ac_compact ac) (set (retained_entries ac fs) \<union> set (retained_entries ac fs'))"
    and "k \<le> av_entries r" and "k \<le> av_entries r'"
  shows "take_last k (retained_entries ac fs) = take_last k (retained_entries ac fs')"
proof (cases "k = 0")
  case False
  note v = verified_log [OF assms(1,2)] and v' = verified_log [OF assms(3,4)]
  obtain l ls where l: "rev (file_lines fs) = l # ls" using False assms(11) v(2) by (cases "rev (file_lines fs)") auto
  obtain m ms where m: "rev (file_lines fs') = m # ms" using False assms(12) v'(2) by (cases "rev (file_lines fs')") auto
  have "line_text ac ''entry_hash'' l \<noteq> []" "line_text ac ''entry_hash'' m \<noteq> []" using v(1) v'(1) assms(8) by (auto simp: l m)
  then have "newest_hash ac (rev (file_lines fs)) = newest_hash ac (rev (file_lines fs'))"
    using assms(5) v(3) v'(3) by (simp add: l m newest_hash_def or_genesis_def)
  from linked_pins [OF v(1) v'(1) this, of k] assms(6-12) v(2) v'(2)
  have "map (line_entry ac) (take k (rev (file_lines fs))) = map (line_entry ac) (take k (rev (file_lines fs')))"
    by (simp add: retained_entries_def image_Un)
  then have "rev (map (line_entry ac) (take k (rev (file_lines fs)))) = rev (map (line_entry ac) (take k (rev (file_lines fs'))))" by simp
  then show ?thesis by (simp add: retained_entries_def take_last_def take_rev rev_map drop_map)
qed (simp add: take_last_def)

text \<open>
  The log stays within its limits: whatever is emitted, with any failures, there are never
  more files than the backups and the log itself, and none outgrows the size limit by more
  than the last line written to it.
\<close>

theorem audit_log_bounded:
  assumes "0 < max_bytes" and "0 \<le> backups" and "\<forall>io e. Emit io e \<in> set evs \<longrightarrow> (\<forall>p. int (length (entry_line ac p e)) < L)"
    and "fold (audit_step ac max_bytes backups) evs (empty_log, []) = (s, written)"
  shows "int (length (al_files s)) \<le> backups + 1 \<and> list_all (\<lambda>(i, c). int (length c) < max_bytes + L) (al_files s)"
proof -
  have step: "sizes_ok (nat backups) (max_bytes + L) (al_files (fst (fold (audit_step ac max_bytes backups) es (t, w))))"
    if "set es \<subseteq> set evs" "sizes_ok (nat backups) (max_bytes + L) (al_files t)" for es t w
    using that
  proof (induction es arbitrary: t w)
    case (Cons ev es)
    obtain t1 w1 where st: "audit_step ac max_bytes backups ev (t, w) = (t1, w1)" by (cases "audit_step ac max_bytes backups ev (t, w)")
    have "sizes_ok (nat backups) (max_bytes + L) (al_files t1)"
    proof (cases ev)
      case (Emit io e)
      then have "Emit io e \<in> set evs" using Cons.prems(1) by auto
      then have "\<forall>p. int (length (entry_line ac p e)) < L" using assms(3) by blast
      from sizes_append [OF Cons.prems(2) assms(1,2) this, of io "al_last_hash t"] show ?thesis
        using st by (auto simp: audit_step_def Emit write_audit_entry_def split_def Let_def)
    next
      case Restart
      then show ?thesis using st Cons.prems(2) by (auto simp: audit_step_def)
    qed
    then show ?case using Cons.IH Cons.prems(1) by (simp add: st)
  qed simp
  have "sizes_ok (nat backups) (max_bytes + L) (al_files empty_log)" by (simp add: sizes_ok_def empty_log_def)
  from step [OF _ this, of evs "[]"] have ok: "sizes_ok (nat backups) (max_bytes + L) (al_files s)" using assms(4) by simp
  have "length (al_files s) = card (set (dkeys (al_files s)))" using ok distinct_card [of "dkeys (al_files s)"] by (simp add: sizes_ok_def)
  also have "\<dots> \<le> card {..nat backups}" using ok by (intro card_mono) (auto simp: sizes_ok_def)
  finally have "int (length (al_files s)) \<le> backups + 1" using assms(2) by simp
  moreover have "list_all (\<lambda>(i, c). int (length c) < max_bytes + L) (al_files s)" using ok by (auto simp: sizes_ok_def dget_iff list_all_iff)
  ultimately show ?thesis by simp
qed

subsection \<open>Instances\<close>

definition demo_entry :: entry where
  "demo_entry = [(''action'', JStr ''a'')]"

definition demo_object :: "string \<Rightarrow> string \<Rightarrow> json" where
  "demo_object p h = JObj [(''action'', JStr ''a''), (''entry_hash'', JStr h), (''prev_hash'', JStr p)]"

definition demo_codec :: audit_codec where
  "demo_codec = \<lparr>ac_text = \<lambda>j. if j = demo_object ''GENESIS'' ''g'' then ''{1}'' else if j = demo_object ''g'' ''h'' then ''{2}'' else ''{3}'',
     ac_compact = \<lambda>_. ''{}'',
     ac_loads = \<lambda>t. if t = ''{1}'' then Some (demo_object ''GENESIS'' ''g'') else if t = ''{2}'' then Some (demo_object ''g'' ''h'')
       else if t = ''{3}'' then Some (demo_object ''h'' ''h'') else None,
     ac_hmac = \<lambda>t. if starts_with ''G'' t then ''g'' else ''h''\<rparr>"

lemma demo_sorted: "sort_keys (JObj (wrapped_entry p h demo_entry)) = demo_object p h"
  by (simp add: wrapped_entry_def demo_entry_def demo_object_def)

lemma demo_hash: "chain_hash demo_codec p demo_entry = (if starts_with ''G'' (p @ ''|{}'') then ''g'' else ''h'')"
  by (simp add: chain_hash_def demo_codec_def)

lemma demo_line: "entry_line demo_codec p demo_entry = ac_text demo_codec (demo_object p (chain_hash demo_codec p demo_entry))"
  unfolding entry_line_def demo_sorted ..

lemma demo_length: "length (entry_line demo_codec p demo_entry) = 3"
  unfolding demo_line by (simp add: demo_codec_def)

lemma demo_hashes: "hashes demo_codec = {''GENESIS'', ''g'', ''h''}"
proof -
  have "range (ac_hmac demo_codec) = {''g'', ''h''}"
  proof
    show "range (ac_hmac demo_codec) \<subseteq> {''g'', ''h''}" by (auto simp: demo_codec_def)
    have "ac_hmac demo_codec ''G'' = ''g''" "ac_hmac demo_codec ''x'' = ''h''" by (simp_all add: demo_codec_def starts_with_def)
    then show "{''g'', ''h''} \<subseteq> range (ac_hmac demo_codec)" by (metis empty_subsetI insert_subset rangeI)
  qed
  then show ?thesis by (simp add: hashes_def)
qed

lemma demo_good: "good_entry demo_codec demo_entry"
proof -
  have "loads_back demo_codec demo_entry"
    unfolding loads_back_def demo_hashes demo_sorted Let_def
    by (simp add: demo_hash starts_with_def) (simp add: demo_codec_def demo_object_def plain_line_def nl_def is_space_def Let_def)
  moreover have "short_lines demo_codec demo_entry" by (simp add: short_lines_def demo_length)
  moreover have "unhashed demo_entry" by (simp add: unhashed_def demo_entry_def)
  ultimately show ?thesis by (simp add: good_entry_def)
qed

definition demo_events :: "audit_event list" where
  "demo_events = [Emit (None, Written) demo_entry, Restart, Emit (None, Written) demo_entry]"

definition demo_log :: audit_log where
  "demo_log = \<lparr>al_files = [(0, ''{1}'' @ [nl] @ ''{2}'' @ [nl])], al_last_hash = Some ''h''\<rparr>"

lemma demo_run: "fold (audit_step demo_codec 100 1) demo_events (empty_log, []) = (demo_log, [demo_entry, demo_entry])"
  unfolding demo_events_def demo_log_def demo_entry_def demo_codec_def empty_log_def nl_def by code_simp


theorem audit_log_bounded_witness:
  "int (length (al_files demo_log)) \<le> 1 + 1 \<and> list_all (\<lambda>(i, c). int (length c) < 100 + 4) (al_files demo_log)"
proof (rule audit_log_bounded)
  show "fold (audit_step demo_codec 100 1) demo_events (empty_log, []) = (demo_log, [demo_entry, demo_entry])" by (rule demo_run)
  show "\<forall>io e. Emit io e \<in> set demo_events \<longrightarrow> (\<forall>p. int (length (entry_line demo_codec p e)) < 4)"
    by (auto simp: demo_events_def demo_length)
qed simp_all

text \<open>The log of the instance, and the one left of it when the oldest entry was rotated away.\<close>

definition demo_rest :: files where
  "demo_rest = [(1, ''{2}'' @ [nl])]"

lemma demo_verify:
  "verify_audit_chain demo_codec (al_files demo_log) =
    Some \<lparr>av_ok = True, av_entries = 2, av_start = ''GENESIS'', av_terminal = ''h'', av_issues = []\<rparr>"
  "verify_audit_chain demo_codec demo_rest =
    Some \<lparr>av_ok = True, av_entries = 1, av_start = ''g'', av_terminal = ''h'', av_issues = []\<rparr>"
  unfolding demo_log_def demo_rest_def demo_codec_def nl_def by code_simp+

theorem terminal_hash_pins_log_witness:
  "take_last 1 (retained_entries demo_codec (al_files demo_log)) = take_last 1 (retained_entries demo_codec demo_rest)"
proof (rule terminal_hash_pins_log [OF demo_verify(1) _ demo_verify(2)])
  have lines: "file_lines (al_files demo_log) = [''{1}'', ''{2}'']" "file_lines demo_rest = [''{2}'']"
    unfolding demo_log_def demo_rest_def nl_def by code_simp+
  have texts: "hashed_text demo_codec ''{1}'' = ''GENESIS|{}''" "hashed_text demo_codec ''{2}'' = ''g|{}''"
    unfolding demo_codec_def by code_simp+
  have entries: "line_entry demo_codec ''{1}'' = JObj demo_entry" "line_entry demo_codec ''{2}'' = JObj demo_entry"
    unfolding demo_codec_def by code_simp+
  show "inj_on (ac_hmac demo_codec) (hashed_text demo_codec ` (set (file_lines (al_files demo_log)) \<union> set (file_lines demo_rest)))"
    by (auto simp: inj_on_def lines texts) (auto simp: demo_codec_def starts_with_def)
  show "inj_on (ac_compact demo_codec) (set (retained_entries demo_codec (al_files demo_log)) \<union> set (retained_entries demo_codec demo_rest))"
    by (simp add: retained_entries_def lines entries)
  show "\<forall>t. ac_hmac demo_codec t \<noteq> [] \<and> CHR ''|'' \<notin> set (ac_hmac demo_codec t)" by (simp add: demo_codec_def)
qed simp_all

subsection \<open>Limits of the chain\<close>

text \<open>
  After a restart the tail of the log is read from its last 8192 bytes: when the last line
  is longer, what is read of it is no JSON, and the next entry starts a chain of its own.
\<close>

lemma long_line_forks_chain:
  assumes "plain_line l" and "8192 \<le> length l" and "ac_loads ac (py_strip (drop (length l - 8191) l)) = None"
  shows "read_last_entry_hash_from_chain ac [(0, l @ [nl])] = Some ''GENESIS''"
proof -
  let ?t = "drop (length l - 8191) l"
  have t: "take_last 8192 (l @ [nl]) = ?t @ nl # []" using assms(2) by (simp add: take_last_def Suc_diff_le)
  have "nl \<notin> set ?t" using assms(1) set_drop_subset [of "length l - 8191" l] by (auto simp: plain_line_def)
  then have "nonblank_lines (?t @ nl # []) = (if py_strip ?t = [] then [] else [py_strip ?t])"
    unfolding nonblank_append by (simp add: nonblank_lines_def py_strip_def)
  then have "tail_hash_from_file ac (l @ [nl]) = Some None"
    using assms(3) by (simp add: tail_hash_from_file_def t)
  then show ?thesis by (simp add: read_last_entry_hash_from_chain_def rotated_chain_paths_def content_def)
qed

text \<open>
  Lowering the number of backups leaves the old files with higher numbers behind while the
  backup in between is dropped: the retained files are no longer one chain.
\<close>

lemma lowered_backups_gap:
  "rotate_if_needed 1 2 None [(3, a), (2, b), (1, c), (0, x # d)] = (True, [(3, a), (2, c), (1, x # d)])"
  by (simp add: rotate_if_needed_def rotate_one_def upt_rec numeral_2_eq_2 numeral_3_eq_3)

text \<open>
  A write that fails in the middle of a line leaves text without an end: the next entry
  goes on in the same line.
\<close>

lemma torn_write_joins_lines:
  assumes "append_entry ac 0 0 (None, Torn n) e (Some p) [(0, c)] = (h, fs)" and "p \<noteq> []"
  shows "append_entry ac 0 0 (None, Written) e' (Some p) fs =
    (Some (chain_hash ac p e'), [(0, c @ take n (entry_line ac p e @ [nl]) @ entry_line ac p e' @ [nl])])"
  using assms by (auto simp: append_entry_def rotate_if_needed_def content_def)

text \<open>
  A created key is found again by the next process; an empty key file is never filled: every
  process has a key of its own, and the log of the one before does not verify.
\<close>

lemma chain_key_kept:
  assumes "get_audit_chain_key tohex fromhex None g True None = (Some k, f)" and "fromhex (py_strip (tohex g)) = Some g" and "py_strip (tohex g) \<noteq> []"
  shows "get_audit_chain_key tohex fromhex None g' c f = (Some k, f)"
  using assms by (auto simp: get_audit_chain_key_def)

lemma empty_key_file:
  "get_audit_chain_key tohex fromhex None g c (Some []) = (Some g, Some [])"
  by (simp add: get_audit_chain_key_def py_strip_def)

end
