(* ===== verification/Addresses.thy ===== *)
theory Addresses
  imports Prelude "HOL-Library.Word"
begin

unbundle bit_operations_syntax

text \<open>
  Internet addresses as the \<open>ipaddress\<close> module of Python 3.10 to 3.12 reads them. The
  text form of IPv6 addresses is an argument of the functions (\<open>v6\<close>).
\<close>

datatype address = A4 "32 word" | A6 "128 word"

text \<open>Octets: one to three digits, no leading zero, at most 255.\<close>

definition v4_octet :: "string \<Rightarrow> nat option" where
  "v4_octet s = (if s = [] \<or> \<not> list_all is_digit s \<or> length s > 3 \<or> s \<noteq> ''0'' \<and> hd s = CHR ''0'' then None
     else case digits_val 0 s of Some n \<Rightarrow> if n \<le> 255 then Some n else None | None \<Rightarrow> None)"

definition parse_v4 :: "string \<Rightarrow> 32 word option" where
  "parse_v4 s = (case map v4_octet (split_on (CHR ''.'') s) of
     [Some a, Some b, Some c, Some d] \<Rightarrow> Some (word_of_int (((int a * 256 + int b) * 256 + int c) * 256 + int d))
   | _ \<Rightarrow> None)"

text \<open>\<open>ipaddress.ip_address\<close>; \<open>None\<close> is \<open>ValueError\<close>.\<close>

definition ip_address :: "(string \<Rightarrow> 128 word option) \<Rightarrow> string \<Rightarrow> address option" where
  "ip_address v6 s = (case parse_v4 s of Some w \<Rightarrow> Some (A4 w) | None \<Rightarrow> map_option A6 (v6 s))"

definition in_network :: "'a::len word \<Rightarrow> 'a word \<times> nat \<Rightarrow> bool" where
  "in_network a = (\<lambda>(net, prefix). drop_bit (LENGTH('a) - prefix) a = drop_bit (LENGTH('a) - prefix) net)"

definition is_loopback_address :: "address \<Rightarrow> bool" where
  "is_loopback_address a = (case a of A4 w \<Rightarrow> in_network w (0x7F000000, 8) | A6 w \<Rightarrow> w = 1)"

subsection \<open>Networks\<close>

datatype network = N4 "32 word" nat | N6 "128 word" nat

definition prefix_digits :: "nat \<Rightarrow> string \<Rightarrow> nat option" where
  "prefix_digits bound s = (if s = [] \<or> \<not> list_all is_digit s then None
     else case digits_val 0 s of Some n \<Rightarrow> if n \<le> bound then Some n else None | None \<Rightarrow> None)"

text \<open>A prefix length, a netmask, or a host mask.\<close>

definition v4_prefix :: "string \<Rightarrow> nat option" where
  "v4_prefix s = (case prefix_digits 32 s of Some n \<Rightarrow> Some n | None \<Rightarrow>
     (case parse_v4 s of None \<Rightarrow> None
      | Some w \<Rightarrow> (case find (\<lambda>p. w = NOT (mask (32 - p))) [0..<33] of
          Some p \<Rightarrow> Some p | None \<Rightarrow> find (\<lambda>p. w = mask (32 - p)) [0..<33])))"

text \<open>\<open>ipaddress.ip_network(text, strict=False)\<close> of an address with a prefix.\<close>

definition ip_network :: "(string \<Rightarrow> 128 word option) \<Rightarrow> string \<Rightarrow> network option" where
  "ip_network v6 s = (case split_on (CHR ''/'') s of
     [a, m] \<Rightarrow> (case (parse_v4 a, v4_prefix m) of (Some w, Some p) \<Rightarrow> Some (N4 w p)
        | _ \<Rightarrow> (case (v6 a, prefix_digits 128 m) of (Some w, Some p) \<Rightarrow> Some (N6 w p) | _ \<Rightarrow> None))
   | _ \<Rightarrow> None)"

definition address_in :: "address \<Rightarrow> network \<Rightarrow> bool" where
  "address_in a n = (case (a, n) of (A4 w, N4 net p) \<Rightarrow> in_network w (net, p) | (A6 w, N6 net p) \<Rightarrow> in_network w (net, p) | _ \<Rightarrow> False)"

subsection \<open>Ranges\<close>

lemma in_network_range:
  "unat net = q * 2 ^ n \<Longrightarrow> n \<le> 32 \<Longrightarrow> unat net \<le> unat w \<Longrightarrow> unat w < (q + 1) * 2 ^ n \<Longrightarrow> in_network (w :: 32 word) (net, 32 - n)"
  unfolding in_network_def prod.case
proof (rule word_unat_eq_iff [THEN iffD2])
  assume a: "unat net = q * 2 ^ n" "n \<le> 32" "unat net \<le> unat w" "unat w < (q + 1) * 2 ^ n"
  have "unat w div 2 ^ n = q" using a by (intro div_nat_eqI) (auto simp: algebra_simps)
  then show "unat (drop_bit (LENGTH(32) - (32 - n)) w) = unat (drop_bit (LENGTH(32) - (32 - n)) net)"
    using a by (simp add: unat_drop_bit_eq drop_bit_eq_div [where 'a = nat])
qed

lemma single_address [simp]: "address_in a (N4 w 32) \<longleftrightarrow> a = A4 w" "address_in a (N6 v 128) \<longleftrightarrow> a = A6 v"
  by (auto simp: address_in_def in_network_def split: address.splits)

lemma loopback_v4: "in_network (w :: 32 word) (0x7F000000, 8) \<longleftrightarrow> unat w div 2 ^ 24 = 127"
proof -
  have "drop_bit 24 w = drop_bit 24 (0x7F000000 :: 32 word) \<longleftrightarrow> unat (drop_bit 24 w) = unat (drop_bit 24 (0x7F000000 :: 32 word))"
    by (rule word_unat_eq_iff)
  then show ?thesis by (simp add: in_network_def unat_drop_bit_eq drop_bit_eq_div [where 'a = nat])
qed

end
