(* ===== verification/Safe_Outbound.thy ===== *)
theory Safe_Outbound
  imports Json Addresses
begin

text \<open>
  The outbound half of \<open>services/safe_io.py\<close>: the validation of URLs against server-side
  request forgery, the connection pinned to the validated addresses, redirects that are
  validated again, and the request helpers. The URL is split as \<open>urllib.parse.urlparse\<close>
  does, without its two checks of unusual network locations (the syntax of a bracketed address, the
  normal form of non-ASCII letters); IDNA, \<open>urljoin\<close>, the address classes of the \<open>ipaddress\<close> module (they depend on the
  Python version) and the JSON codec are arguments. The network is an argument as well: for
  every hop what the resolver answers, which addresses accept a connection, what comes back.
\<close>

subsection \<open>Splitting a URL\<close>

definition partition_at :: "char \<Rightarrow> string \<Rightarrow> string \<times> bool \<times> string" where
  "partition_at c s = (let a = takeWhile (\<lambda>x. x \<noteq> c) s in (a, c \<in> set s, drop (Suc (length a)) s))"

definition rpartition_at :: "char \<Rightarrow> string \<Rightarrow> string \<times> bool \<times> string" where
  "rpartition_at c s = (if c \<in> set s then (let (a, _, b) = partition_at c (rev s) in (rev b, True, rev a)) else ([], False, s))"

definition scheme_char :: "char \<Rightarrow> bool" where
  "scheme_char c \<longleftrightarrow> is_alnum c \<or> c \<in> set ''+-.''"

definition clean_url :: "string \<Rightarrow> string" where
  "clean_url url = filter (\<lambda>c. c \<notin> {CHR 0x09, CHR 0x0A, CHR 0x0D}) (dropWhile (\<lambda>c. (of_char c :: nat) \<le> 32) url)"

text \<open>Scheme and network location; \<open>None\<close> is \<open>ValueError\<close>.\<close>

definition urlsplit :: "string \<Rightarrow> (string \<times> string) option" where
  "urlsplit url =
    (let url = clean_url url; (a, found, b) = partition_at (CHR '':'') url;
         (scheme, rest) = (if found \<and> a \<noteq> [] \<and> (is_upper (hd a) \<or> is_lower (hd a)) \<and> list_all scheme_char a
           then (py_lower a, b) else ([], url));
         netloc = (if starts_with ''//'' rest then takeWhile (\<lambda>c. c \<notin> set ''/?#'') (drop 2 rest) else [])
     in if (CHR ''['' \<in> set netloc) \<noteq> (CHR '']'' \<in> set netloc) then None else Some (scheme, netloc))"

definition url_credentials :: "string \<Rightarrow> bool" where
  "url_credentials netloc = (let (userinfo, have_info, _) = rpartition_at (CHR ''@'') netloc; (user, have_pw, pw) = partition_at (CHR '':'') userinfo
     in have_info \<and> (user \<noteq> [] \<or> have_pw \<and> pw \<noteq> []))"

definition hostinfo :: "string \<Rightarrow> string \<times> string" where
  "hostinfo netloc =
    (let (_, _, info) = rpartition_at (CHR ''@'') netloc; (_, bracket, bracketed) = partition_at (CHR ''['') info in
     if bracket then let (h, _, rest) = partition_at (CHR '']'') bracketed; (_, _, p) = partition_at (CHR '':'') rest in (h, p)
     else let (h, _, p) = partition_at (CHR '':'') info in (h, p))"

definition url_hostname :: "string \<Rightarrow> string" where
  "url_hostname netloc = (let (h, percent, zone) = partition_at (CHR ''%'') (fst (hostinfo netloc)) in
     py_lower h @ (if percent then CHR ''%'' # zone else []))"

text \<open>\<open>parsed.port\<close>: the inner \<open>None\<close> is no port, the outer one \<open>ValueError\<close>.\<close>

definition url_port :: "string \<Rightarrow> nat option option" where
  "url_port netloc = (let p = snd (hostinfo netloc) in
     if p = [] then Some None
     else if \<not> list_all is_digit p then None
     else (case digits_val 0 p of Some n \<Rightarrow> if n \<le> 65535 then Some (Some n) else None | None \<Rightarrow> None))"

subsection \<open>Addresses\<close>

datatype ip = V4 "32 word" | V6 "128 word" | Not_ip string

definition BLOCKED_V4 :: "(32 word \<times> nat) list" where
  "BLOCKED_V4 = [(0x00000000, 8), (0x0A000000, 8), (0x64400000, 10), (0x7F000000, 8), (0xA9FE0000, 16), (0xAC100000, 12),
     (0xC0000000, 24), (0xC0000200, 24), (0xC0A80000, 16), (0xC6120000, 15), (0xC6336400, 24), (0xCB007100, 24),
     (0xE0000000, 4), (0xF0000000, 4), (0xFFFFFFFF, 32)]"

definition BLOCKED_V6 :: "(128 word \<times> nat) list" where
  "BLOCKED_V6 = [(1, 128), (0, 128), (0xFC000000000000000000000000000000, 7), (0xFE800000000000000000000000000000, 10),
     (0xFF000000000000000000000000000000, 8)]"

text \<open>What \<open>ipaddress\<close> says of an address besides: private, loopback, reserved or multicast; and loopback.\<close>

record ip_classes =
  ic_special :: "ip \<Rightarrow> bool"
  ic_loopback :: "ip \<Rightarrow> bool"

definition is_private_ip :: "ip_classes \<Rightarrow> ip \<Rightarrow> bool" where
  "is_private_ip cls a = (case a of
     V4 w \<Rightarrow> list_ex (in_network w) BLOCKED_V4 \<or> ic_special cls a
   | V6 w \<Rightarrow> list_ex (in_network w) BLOCKED_V6 \<or> ic_special cls a
   | Not_ip _ \<Rightarrow> True)"

definition is_loopback :: "ip_classes \<Rightarrow> ip \<Rightarrow> bool" where
  "is_loopback cls a = (case a of Not_ip _ \<Rightarrow> False | _ \<Rightarrow> ic_loopback cls a)"

subsection \<open>Validation\<close>

record outbound_policy =
  op_schemes :: "string list"
  op_ports :: "nat list"

definition policy_allows :: "outbound_policy \<Rightarrow> string \<Rightarrow> nat \<Rightarrow> bool" where
  "policy_allows p scheme port \<longleftrightarrow> scheme \<in> set (op_schemes p) \<and> port \<in> set (op_ports p)"

definition STRICT_OUTBOUND_POLICY :: outbound_policy where
  "STRICT_OUTBOUND_POLICY = \<lparr>op_schemes = [''https''], op_ports = [443]\<rparr>"

definition STANDARD_OUTBOUND_POLICY :: outbound_policy where
  "STANDARD_OUTBOUND_POLICY = \<lparr>op_schemes = [''https'', ''http''], op_ports = [80, 443, 8080, 8443, 5000, 11434, 1234]\<rparr>"

record outbound_options =
  oo_allow_hosts :: "string list option"
  oo_any_public_host :: bool
  oo_loopback_hosts :: "string list"
  oo_insecure_base_url :: bool
  oo_private_network :: bool
  oo_policy :: "outbound_policy option"

datatype ssrf_error = Invalid_url | Invalid_scheme string | Credentials_in_url | No_host | Denied_by_policy | Denied_by_default
  | Not_in_allowlist string | Private_without_allowlist | Private_ip_blocked ip | Dns_failed | No_ip_resolved string
  | Steps_exceeded | Fetch_failed | Port_value_error

definition normalize_host :: "(string \<Rightarrow> string option) \<Rightarrow> string \<Rightarrow> string" where
  "normalize_host idna host = (let h = rev (dropWhile (\<lambda>c. c = CHR ''.'') (rev (py_lower host))) in
     case idna h of Some a \<Rightarrow> a | None \<Rightarrow> h)"

definition scoped_private :: "(string \<Rightarrow> string option) \<Rightarrow> outbound_options \<Rightarrow> string \<Rightarrow> bool" where
  "scoped_private idna opts host \<longleftrightarrow> oo_private_network opts \<and>
     normalize_host idna host \<in> normalize_host idna ` set (case oo_allow_hosts opts of None \<Rightarrow> [] | Some hs \<Rightarrow> hs)"

definition add_once :: "'a \<Rightarrow> 'a list \<Rightarrow> 'a list" where
  "add_once x xs = (if x \<in> set xs then xs else xs @ [x])"

text \<open>The loop over the resolved addresses; \<open>relaxed\<close>: private ones are allowed, \<open>loop\<close>: loopback ones.\<close>

fun check_ips :: "ip_classes \<Rightarrow> bool \<Rightarrow> bool \<Rightarrow> ip list \<Rightarrow> ip list \<Rightarrow> ssrf_error + ip list" where
  "check_ips cls relaxed loop acc [] = Inr acc"
| "check_ips cls relaxed loop acc (a # rest) =
    (if is_private_ip cls a \<and> \<not> relaxed then
       (if is_loopback cls a \<and> loop then check_ips cls relaxed loop (add_once a acc) rest else Inl (Private_ip_blocked a))
     else check_ips cls relaxed loop (add_once a acc) rest)"

definition validate_outbound_url ::
  "ip_classes \<Rightarrow> (string \<Rightarrow> string option) \<Rightarrow> (string \<Rightarrow> nat \<Rightarrow> ip list option) \<Rightarrow> outbound_options \<Rightarrow> string
    \<Rightarrow> ssrf_error + string \<times> string \<times> nat \<times> ip list" where
  "validate_outbound_url cls idna dns opts url = (case urlsplit url of
     None \<Rightarrow> Inl Invalid_url
   | Some (scheme, netloc) \<Rightarrow>
     let host = url_hostname netloc in
     if scheme \<notin> {''http'', ''https''} then Inl (Invalid_scheme scheme)
     else if url_credentials netloc then Inl Credentials_in_url
     else if host = [] then Inl No_host
     else (case url_port netloc of None \<Rightarrow> Inl Port_value_error
     | Some given \<Rightarrow>
       let dflt = (if scheme = ''https'' then 443 else 80);
           port = (case given of None \<Rightarrow> dflt | Some n \<Rightarrow> if n = 0 then dflt else n);
           listed = (\<lambda>hs. normalize_host idna host \<in> normalize_host idna ` set hs) in
       if (case oo_policy opts of None \<Rightarrow> False | Some p \<Rightarrow> \<not> oo_insecure_base_url opts \<and> \<not> policy_allows p scheme port) then Inl Denied_by_policy
       else if \<not> oo_insecure_base_url opts \<and> \<not> oo_any_public_host opts \<and> oo_allow_hosts opts = None then Inl Denied_by_default
       else if \<not> oo_insecure_base_url opts \<and> \<not> oo_any_public_host opts \<and> \<not> listed (case oo_allow_hosts opts of None \<Rightarrow> [] | Some hs \<Rightarrow> hs)
         then Inl (Not_in_allowlist host)
       else if oo_private_network opts \<and> \<not> scoped_private idna opts host then Inl Private_without_allowlist
       else (case dns host port of None \<Rightarrow> Inl Dns_failed
       | Some addrs \<Rightarrow>
         (case check_ips cls (oo_insecure_base_url opts \<or> scoped_private idna opts host) (listed (oo_loopback_hosts opts)) [] addrs of
            Inl e \<Rightarrow> Inl e
          | Inr [] \<Rightarrow> Inl (No_ip_resolved host)
          | Inr ips \<Rightarrow> Inr (scheme, host, port, ips)))))"

subsection \<open>Requests\<close>

definition ALLOWED_OUTBOUND_HEADER_PREFIXES :: "string list" where
  "ALLOWED_OUTBOUND_HEADER_PREFIXES = [''x-'', ''content-type'', ''authorization'', ''accept'']"

text \<open>\<open>Request.add_header\<close> keeps the headers in a dict under \<open>key.capitalize()\<close>.\<close>

definition capitalize :: "string \<Rightarrow> string" where
  "capitalize s = (case py_lower s of [] \<Rightarrow> [] | c # cs \<Rightarrow> (if is_lower c then char_of ((of_char c :: nat) - 32) else c) # cs)"

definition allowed_header :: "string \<Rightarrow> bool" where
  "allowed_header key \<longleftrightarrow> (\<exists>p \<in> set ALLOWED_OUTBOUND_HEADER_PREFIXES. starts_with p (py_lower key))"

definition apply_outbound_headers :: "string \<Rightarrow> (string \<times> string) list \<Rightarrow> string option \<Rightarrow> (string, string) dict" where
  "apply_outbound_headers version headers content_type =
    (let h = [(''User-agent'', ''ComfyUI-OpenClaw/'' @ version)];
         h = (case content_type of None \<Rightarrow> h | Some t \<Rightarrow> if t = [] then h else dput (capitalize ''Content-Type'') t h)
     in fold (\<lambda>(k, v) h. if allowed_header k then dput (capitalize k) v h else h) headers h)"

datatype http_reply = Http_error nat string | Url_error string | Response nat "string option" string

record hop =
  hp_dns :: "string \<Rightarrow> nat \<Rightarrow> ip list option"
  hp_up :: "ip \<Rightarrow> bool"
  hp_reply :: http_reply

text \<open>The pinned connection: the addresses in order until one accepts; which were tried, and whether one did.\<close>

fun dial :: "(ip \<Rightarrow> bool) \<Rightarrow> ip list \<Rightarrow> ip list \<times> bool" where
  "dial up [] = ([], False)"
| "dial up (a # rest) = (if up a then ([a], True) else (case dial up rest of (tried, ok) \<Rightarrow> (a # tried, ok)))"

record sent_request =
  sr_url :: string
  sr_host :: string
  sr_port :: nat
  sr_method :: string
  sr_body :: "string option"
  sr_headers :: "(string, string) dict"
  sr_dialed :: "ip list"

datatype io_error = SSRF ssrf_error | HTTP_failed nat string | Request_failed string | Too_many_redirects int | Bad_arguments | Line_too_long

text \<open>
  The port that the connection of \<open>urllib\<close> dials (\<open>self.port\<close>): the one in the URL, a zero
  included, or the default of the scheme.
\<close>

definition connection_port :: "string \<Rightarrow> nat" where
  "connection_port url = (case urlsplit url of
     None \<Rightarrow> 80
   | Some (scheme, netloc) \<Rightarrow> (case url_port netloc of
       Some (Some n) \<Rightarrow> n
     | _ \<Rightarrow> if scheme = ''https'' then 443 else 80))"

text \<open>What follows a response: nothing (\<open>Inr None\<close>), another request, or an error.\<close>

definition next_redirect_state ::
  "(string \<Rightarrow> string \<Rightarrow> string) \<Rightarrow> int \<Rightarrow> nat \<Rightarrow> string option \<Rightarrow> string \<Rightarrow> string \<Rightarrow> string option \<Rightarrow> int
    \<Rightarrow> io_error + (string \<times> string \<times> string option \<times> int) option" where
  "next_redirect_state urljoin max_redirects code location url method body followed =
    (if code \<notin> {301, 302, 303, 307, 308} then Inr None
     else if \<not> (max_redirects > 0 \<and> followed < max_redirects) then Inl (Too_many_redirects max_redirects)
     else case location of
       None \<Rightarrow> Inl (Too_many_redirects (int code))
     | Some loc \<Rightarrow> if loc = [] then Inl (Too_many_redirects (int code))
         else if code \<in> {301, 302, 303} then Inr (Some (urljoin url loc, ''GET'', None, followed + 1))
         else Inr (Some (urljoin url loc, method, body, followed + 1)))"

record outbound_lib =
  ol_classes :: ip_classes
  ol_idna :: "string \<Rightarrow> string option"
  ol_urljoin :: "string \<Rightarrow> string \<Rightarrow> string"
  ol_version :: string

lemma next_redirect_decreases:
  "next_redirect_state j m code loc u meth b f = Inr (Some (u', meth', b', f')) \<Longrightarrow> nat (m - f') < nat (m - f)"
  by (auto simp: next_redirect_state_def split: if_splits option.splits)

text \<open>
  The loop over the hops: the answer is an error or the body, URL and method of the final
  response, with the requests that went out.
\<close>

function open_outbound ::
  "outbound_lib \<Rightarrow> outbound_options \<Rightarrow> (string \<times> string) list \<Rightarrow> string option \<Rightarrow> int \<Rightarrow> (nat \<Rightarrow> hop) \<Rightarrow> nat
    \<Rightarrow> string \<Rightarrow> string \<Rightarrow> string option \<Rightarrow> int \<Rightarrow> (io_error + string \<times> string \<times> string) \<times> sent_request list" where
  "open_outbound lib opts headers content_type max_redirects net i url method body followed =
    (case validate_outbound_url (ol_classes lib) (ol_idna lib) (hp_dns (net i)) opts url of
       Inl e \<Rightarrow> (Inl (SSRF e), [])
     | Inr (scheme, host, port, pinned_ips) \<Rightarrow>
       let (tried, connected) = dial (hp_up (net i)) pinned_ips;
           request = \<lparr>sr_url = url, sr_host = host, sr_port = connection_port url, sr_method = method, sr_body = body,
             sr_headers = apply_outbound_headers (ol_version lib) headers content_type, sr_dialed = tried\<rparr> in
       if \<not> connected then (Inl (Request_failed ''connection failed''), [request])
       else (case hp_reply (net i) of
           Http_error code reason \<Rightarrow> (Inl (HTTP_failed code reason), [request])
         | Url_error reason \<Rightarrow> (Inl (Request_failed reason), [request])
         | Response code location text \<Rightarrow>
             (case next_redirect_state (ol_urljoin lib) max_redirects code location url method body followed of
                Inl e \<Rightarrow> (Inl e, [request])
              | Inr None \<Rightarrow> (Inr (text, url, method), [request])
              | Inr (Some (url', method', body', followed')) \<Rightarrow>
                  (case open_outbound lib opts headers content_type max_redirects net (Suc i) url' method' body' followed' of
                     (res, sent) \<Rightarrow> (res, request # sent)))))"
  by pat_completeness auto

termination
  by (relation "measure (\<lambda>(lib, opts, headers, content_type, max_redirects, net, i, url, method, body, followed). nat (max_redirects - followed))")
    (auto dest: next_redirect_decreases)

declare open_outbound.simps [simp del]

subsection \<open>Helpers\<close>

text \<open>\<open>safe_fetch\<close> reports every failure of the request as an \<open>SSRFError\<close>.\<close>

definition as_fetch_error :: "io_error \<Rightarrow> io_error" where
  "as_fetch_error e = (case e of Too_many_redirects _ \<Rightarrow> SSRF Steps_exceeded | HTTP_failed _ _ \<Rightarrow> SSRF Fetch_failed
     | Request_failed _ \<Rightarrow> SSRF Fetch_failed | _ \<Rightarrow> e)"

definition safe_fetch :: "outbound_lib \<Rightarrow> (nat \<Rightarrow> hop) \<Rightarrow> string \<Rightarrow> string list option \<Rightarrow> nat \<Rightarrow> int \<Rightarrow> (io_error + string) \<times> sent_request list" where
  "safe_fetch lib net url allow_hosts max_bytes max_redirects =
    (case open_outbound lib \<lparr>oo_allow_hosts = allow_hosts, oo_any_public_host = False, oo_loopback_hosts = [], oo_insecure_base_url = False,
         oo_private_network = False, oo_policy = None\<rparr> [] None max_redirects net 0 url ''GET'' None 0 of
       (Inl e, sent) \<Rightarrow> (Inl (as_fetch_error e), sent)
     | (Inr (text, _, _), sent) \<Rightarrow> (Inr (take max_bytes text), sent))"

definition safe_request_json ::
  "outbound_lib \<Rightarrow> (json \<Rightarrow> string) \<Rightarrow> (string \<Rightarrow> json option) \<Rightarrow> (nat \<Rightarrow> hop) \<Rightarrow> outbound_options \<Rightarrow> string \<Rightarrow> string \<Rightarrow> json option
    \<Rightarrow> string option \<Rightarrow> (string \<times> string) list \<Rightarrow> string \<Rightarrow> nat \<Rightarrow> int \<Rightarrow> (io_error + json) \<times> sent_request list" where
  "safe_request_json lib dumps loads net opts method url json_body raw_body headers content_type max_response_bytes max_redirects =
    (if json_body \<noteq> None \<and> raw_body \<noteq> None then (Inl Bad_arguments, [])
     else case open_outbound lib opts headers (Some content_type) max_redirects net 0 url method
         (case json_body of Some j \<Rightarrow> Some (dumps j) | None \<Rightarrow> raw_body) 0 of
       (Inl e, sent) \<Rightarrow> (Inl e, sent)
     | (Inr (text, _, _), sent) \<Rightarrow>
         (Inr (case loads (take max_response_bytes text) of Some j \<Rightarrow> j
            | None \<Rightarrow> JObj [(''raw_response'', JStr (take 1000 (take max_response_bytes text)))]), sent))"

text \<open>The lines of a stream up to one that is too long; each line with its end.\<close>

fun stream_lines :: "nat \<Rightarrow> string list \<Rightarrow> string list \<times> io_error option" where
  "stream_lines max_line_bytes [] = ([], None)"
| "stream_lines max_line_bytes (l # ls) =
    (if length l > max_line_bytes then ([], Some Line_too_long)
     else (case stream_lines max_line_bytes ls of (out, e) \<Rightarrow> (l # out, e)))"

text \<open>\<open>readline\<close> until the end of the body.\<close>

fun read_lines :: "string \<Rightarrow> string list" where
  "read_lines [] = []"
| "read_lines (c # cs) = (if c = CHR 0x0A then [c] # read_lines cs
     else (case read_lines cs of [] \<Rightarrow> [[c]] | l # ls \<Rightarrow> (c # l) # ls))"

definition safe_request_text_stream ::
  "outbound_lib \<Rightarrow> (json \<Rightarrow> string) \<Rightarrow> (nat \<Rightarrow> hop) \<Rightarrow> outbound_options \<Rightarrow> string \<Rightarrow> string \<Rightarrow> json option
    \<Rightarrow> (string \<times> string) list \<Rightarrow> nat \<Rightarrow> int \<Rightarrow> (io_error + string list \<times> io_error option) \<times> sent_request list" where
  "safe_request_text_stream lib dumps net opts method url json_body headers max_line_bytes max_redirects =
    (case open_outbound lib opts headers (Some ''application/json'') max_redirects net 0 url method
         (case json_body of Some j \<Rightarrow> if truthy j then Some (dumps j) else None | None \<Rightarrow> None) 0 of
       (Inl e, sent) \<Rightarrow> (Inl e, sent)
     | (Inr (text, _, _), sent) \<Rightarrow> (Inr (stream_lines max_line_bytes (read_lines text)), sent))"

lemma concat_read_lines [simp]: "concat (read_lines s) = s"
  by (induction s) (auto split: list.split)

lemma streamed_prefix: "\<exists>rest. read_lines s = fst (stream_lines n (read_lines s)) @ rest"
  "list_all (\<lambda>l. length l \<le> n) (fst (stream_lines n (read_lines s)))"
proof -
  have "(\<exists>rest. ls = fst (stream_lines n ls) @ rest) \<and> list_all (\<lambda>l. length l \<le> n) (fst (stream_lines n ls))" for ls
    by (induction ls) (auto split: prod.split)
  then show "\<exists>rest. read_lines s = fst (stream_lines n (read_lines s)) @ rest"
    "list_all (\<lambda>l. length l \<le> n) (fst (stream_lines n (read_lines s)))" by blast+
qed

subsection \<open>What a validated URL satisfies\<close>

definition listed_host :: "outbound_lib \<Rightarrow> string list \<Rightarrow> string \<Rightarrow> bool" where
  "listed_host lib hs host \<longleftrightarrow> normalize_host (ol_idna lib) host \<in> normalize_host (ol_idna lib) ` set hs"

definition permitted_host :: "outbound_lib \<Rightarrow> outbound_options \<Rightarrow> string \<Rightarrow> bool" where
  "permitted_host lib opts host \<longleftrightarrow> oo_insecure_base_url opts \<or> oo_any_public_host opts
     \<or> (\<exists>hs. oo_allow_hosts opts = Some hs \<and> listed_host lib hs host)"

definition permitted_endpoint :: "outbound_options \<Rightarrow> string \<Rightarrow> nat \<Rightarrow> bool" where
  "permitted_endpoint opts scheme port \<longleftrightarrow> scheme \<in> {''http'', ''https''}
     \<and> (oo_insecure_base_url opts \<or> (\<forall>p. oo_policy opts = Some p \<longrightarrow> policy_allows p scheme port))"

definition permitted_ip :: "outbound_lib \<Rightarrow> outbound_options \<Rightarrow> string \<Rightarrow> ip \<Rightarrow> bool" where
  "permitted_ip lib opts host a \<longleftrightarrow> \<not> is_private_ip (ol_classes lib) a \<or> oo_insecure_base_url opts
     \<or> (\<exists>hs. oo_private_network opts \<and> oo_allow_hosts opts = Some hs \<and> listed_host lib hs host)
     \<or> (is_loopback (ol_classes lib) a \<and> listed_host lib (oo_loopback_hosts opts) host)"

text \<open>
  The port that counts: the one stated in the authority, unless that is 0, else 80 for \<open>http\<close> and
  443 for \<open>https\<close>.
\<close>

definition endpoint_port :: "string \<Rightarrow> string \<Rightarrow> nat \<Rightarrow> bool" where
  "endpoint_port scheme netloc port \<longleftrightarrow>
     (\<exists>n. url_port netloc = Some (Some n) \<and> n \<noteq> 0 \<and> port = n)
   \<or> (url_port netloc \<in> {Some None, Some (Some 0)} \<and> (scheme, port) \<in> {(''http'', 80), (''https'', 443)})"

lemma check_ips_sound:
  "check_ips cls relaxed loop acc addrs = Inr ips \<Longrightarrow> distinct acc \<Longrightarrow>
    distinct ips \<and> set ips \<subseteq> set acc \<union> set addrs
    \<and> (\<forall>a \<in> set ips - set acc. is_private_ip cls a \<longrightarrow> relaxed \<or> is_loopback cls a \<and> loop)"
proof (induction addrs arbitrary: acc)
  case (Cons a addrs)
  have "distinct (add_once a acc)" using Cons.prems(2) by (simp add: add_once_def)
  moreover have "check_ips cls relaxed loop (add_once a acc) addrs = Inr ips" and ok: "is_private_ip cls a \<longrightarrow> relaxed \<or> is_loopback cls a \<and> loop"
    using Cons.prems(1) by (auto split: if_splits)
  ultimately have IH: "distinct ips \<and> set ips \<subseteq> set (add_once a acc) \<union> set addrs
    \<and> (\<forall>b \<in> set ips - set (add_once a acc). is_private_ip cls b \<longrightarrow> relaxed \<or> is_loopback cls b \<and> loop)" using Cons.IH by blast
  have "set (add_once a acc) = insert a (set acc)" by (auto simp: add_once_def)
  then show ?case using IH ok by auto
qed simp

lemma scoped_private_listed:
  "scoped_private (ol_idna lib) opts host \<Longrightarrow> \<exists>hs. oo_private_network opts \<and> oo_allow_hosts opts = Some hs \<and> listed_host lib hs host"
  by (cases "oo_allow_hosts opts") (auto simp: scoped_private_def listed_host_def)

lemma validated_url:
  assumes "validate_outbound_url (ol_classes lib) (ol_idna lib) dns opts url = Inr (scheme, host, port, ips)"
  shows "permitted_host lib opts host" and "permitted_endpoint opts scheme port" and "\<forall>a \<in> set ips. permitted_ip lib opts host a"
    and "\<exists>addrs. dns host port = Some addrs \<and> set ips \<subseteq> set addrs"
    and "\<exists>netloc. urlsplit url = Some (scheme, netloc) \<and> \<not> url_credentials netloc \<and> host = url_hostname netloc \<and> endpoint_port scheme netloc port"
proof -
  obtain netloc where sp: "urlsplit url = Some (scheme, netloc)"
    using assms by (auto simp: validate_outbound_url_def Let_def split: option.splits if_splits sum.splits list.splits)
  then show "\<exists>netloc. urlsplit url = Some (scheme, netloc) \<and> \<not> url_credentials netloc \<and> host = url_hostname netloc \<and> endpoint_port scheme netloc port"
    using assms by (auto simp: validate_outbound_url_def endpoint_port_def Let_def split: option.splits if_splits sum.splits list.splits)
  note v = assms [unfolded validate_outbound_url_def sp option.case split Let_def]
  show "permitted_host lib opts host"
    using v by (auto simp: permitted_host_def listed_host_def split: option.splits if_splits sum.splits list.splits)
  show "permitted_endpoint opts scheme port"
    using v by (auto simp: permitted_endpoint_def split: option.splits if_splits sum.splits list.splits)
  obtain addrs where "dns host port = Some addrs" and c: "check_ips (ol_classes lib) (oo_insecure_base_url opts \<or> scoped_private (ol_idna lib) opts host)
      (listed_host lib (oo_loopback_hosts opts) host) [] addrs = Inr ips"
    using v by (auto simp: listed_host_def split: option.splits if_splits sum.splits list.splits)
  with check_ips_sound [OF c] show "\<exists>addrs. dns host port = Some addrs \<and> set ips \<subseteq> set addrs"
    and "\<forall>a \<in> set ips. permitted_ip lib opts host a"
    using scoped_private_listed [of lib opts host] by (auto simp: permitted_ip_def)
qed

text \<open>The port validated is the one dialed, but for a port 0 in the URL.\<close>

lemma validated_port:
  fixes lib :: outbound_lib
  assumes "validate_outbound_url (ol_classes lib) (ol_idna lib) dns opts url = Inr (scheme, host, port, ips)"
  shows "\<exists>netloc. urlsplit url = Some (scheme, netloc) \<and> \<not> url_credentials netloc \<and> host = url_hostname netloc \<and> endpoint_port scheme netloc port
    \<and> (connection_port url = port \<or> url_port netloc = Some (Some 0) \<and> connection_port url = 0)"
  using validated_url(5) [OF assms] by (auto simp: connection_port_def endpoint_port_def)

lemma dial_subset: "set (fst (dial up ips)) \<subseteq> set ips"
  by (induction ips) (auto split: prod.split)

text \<open>
  What is promised of a request: its URL names an admitted host, scheme and port and carries no
  credentials, the port dialed is the one admitted (unless the URL states port 0, which is validated
  as the default port but dialed as 0), and every address it dialed was admitted in the answer that
  the hop's own resolution gave for that host and port.
\<close>

definition request_ok :: "outbound_lib \<Rightarrow> outbound_options \<Rightarrow> hop \<Rightarrow> sent_request \<Rightarrow> bool" where
  "request_ok lib opts h r \<longleftrightarrow> permitted_host lib opts (sr_host r) \<and> (\<forall>a \<in> set (sr_dialed r). permitted_ip lib opts (sr_host r) a)
     \<and> (\<exists>scheme netloc port addrs. urlsplit (sr_url r) = Some (scheme, netloc) \<and> \<not> url_credentials netloc \<and> sr_host r = url_hostname netloc
       \<and> endpoint_port scheme netloc port \<and> (sr_port r = port \<or> url_port netloc = Some (Some 0) \<and> sr_port r = 0)
       \<and> permitted_endpoint opts scheme port \<and> hp_dns h (sr_host r) port = Some addrs \<and> set (sr_dialed r) \<subseteq> set addrs)"

lemma open_outbound_cases:
  obtains (rejected) e where "open_outbound lib opts hs ct m net i url meth b f = (Inl (SSRF e), [])"
  | (final) r res where "request_ok lib opts (net i) r" "sr_headers r = apply_outbound_headers (ol_version lib) hs ct"
      "open_outbound lib opts hs ct m net i url meth b f = (res, [r])"
  | (redirected) r url' meth' b' f' res sent where "request_ok lib opts (net i) r" "sr_headers r = apply_outbound_headers (ol_version lib) hs ct"
      "open_outbound lib opts hs ct m net i url meth b f = (res, r # sent)"
      "open_outbound lib opts hs ct m net (Suc i) url' meth' b' f' = (res, sent)" "nat (m - f') < nat (m - f)"
proof (cases "validate_outbound_url (ol_classes lib) (ol_idna lib) (hp_dns (net i)) opts url")
  case (Inl e)
  then show ?thesis by (intro rejected [of e]) (simp add: open_outbound.simps)
next
  case (Inr v)
  obtain scheme host port ips where v: "v = (scheme, host, port, ips)" by (cases v) auto
  note val = validated_url [OF Inr [unfolded v]]
  obtain tried up where d: "dial (hp_up (net i)) ips = (tried, up)" by (cases "dial (hp_up (net i)) ips")
  define r where "r = \<lparr>sr_url = url, sr_host = host, sr_port = connection_port url, sr_method = meth, sr_body = b,
    sr_headers = apply_outbound_headers (ol_version lib) hs ct, sr_dialed = tried\<rparr>"
  have tried: "set tried \<subseteq> set ips" using dial_subset [of "hp_up (net i)" ips] by (simp add: d)
  have ok: "request_ok lib opts (net i) r" and h: "sr_headers r = apply_outbound_headers (ol_version lib) hs ct"
    using val(1-4) validated_port [OF Inr [unfolded v]] tried unfolding request_ok_def r_def by (auto 0 4)
  have eq: "open_outbound lib opts hs ct m net i url meth b f = (if \<not> up then (Inl (Request_failed ''connection failed''), [r])
      else (case hp_reply (net i) of
           Http_error code reason \<Rightarrow> (Inl (HTTP_failed code reason), [r])
         | Url_error reason \<Rightarrow> (Inl (Request_failed reason), [r])
         | Response code location text \<Rightarrow>
             (case next_redirect_state (ol_urljoin lib) m code location url meth b f of
                Inl e \<Rightarrow> (Inl e, [r])
              | Inr None \<Rightarrow> (Inr (text, url, meth), [r])
              | Inr (Some (url', method', body', followed')) \<Rightarrow>
                  (case open_outbound lib opts hs ct m net (Suc i) url' method' body' followed' of
                     (res, sent) \<Rightarrow> (res, r # sent)))))"
    unfolding r_def by (subst open_outbound.simps) (simp add: Inr v d Let_def)
  show ?thesis
  proof (cases "\<exists>code location text u' m' b' f'. up \<and> hp_reply (net i) = Response code location text
      \<and> next_redirect_state (ol_urljoin lib) m code location url meth b f = Inr (Some (u', m', b', f'))")
    case True
    then obtain code location page u' m' b' f' where n: "up" "hp_reply (net i) = Response code location page"
      "next_redirect_state (ol_urljoin lib) m code location url meth b f = Inr (Some (u', m', b', f'))" by blast
    obtain res sent where rec: "open_outbound lib opts hs ct m net (Suc i) u' m' b' f' = (res, sent)"
      by (cases "open_outbound lib opts hs ct m net (Suc i) u' m' b' f'")
    show ?thesis
      by (rule redirected [OF ok h _ rec next_redirect_decreases [OF n(3)]]) (simp add: eq n rec)
  next
    case False
    then have "\<exists>res. open_outbound lib opts hs ct m net i url meth b f = (res, [r])"
      unfolding eq by (auto split: http_reply.split sum.split option.split)
    then show ?thesis using final [OF ok h] by blast
  qed
qed

lemma open_outbound_sent:
  assumes "open_outbound lib opts hs ct m net i url meth b f = (res, sent)"
  shows "(\<forall>k < length sent. request_ok lib opts (net (i + k)) (sent ! k)) \<and> length sent \<le> Suc (nat (m - f))
    \<and> (\<forall>r \<in> set sent. sr_headers r = apply_outbound_headers (ol_version lib) hs ct)"
  using assms
proof (induction "nat (m - f)" arbitrary: i url meth b f res sent rule: less_induct)
  case less
  show ?case
  proof (cases rule: open_outbound_cases [of lib opts hs ct m net i url meth b f])
    case (redirected r url' meth' b' f' res' sent')
    from less.hyps [OF redirected(5,4)] redirected less.prems show ?thesis
      by (auto simp: nth_Cons split: nat.split)
  qed (use less.prems in auto)
qed

text \<open>
  C6: Every request that leaves the process, on the first hop or after a redirect, was validated: its
  URL names an admitted host over an admitted scheme and port (the port stated, or 80 for \<open>http\<close> and
  443 for \<open>https\<close>) and carries no credentials, that port is the one dialed (a stated port 0 is
  validated as the default and dialed as 0), and the connection dials only addresses of the answer that the resolver gave during the validation of that
  hop (the name is not resolved again), each of them public unless one of the exceptions of
  the call covers the host. At most \<open>max_redirects + 1\<close> requests leave.
\<close>

theorem requests_validated:
  "list_all (\<lambda>(k, r). request_ok lib opts (net k) r) (enumerate 0 (snd (open_outbound lib opts hs ct m net 0 url meth b 0)))
   \<and> length (snd (open_outbound lib opts hs ct m net 0 url meth b 0)) \<le> Suc (nat m)"
proof -
  obtain res sent where e: "open_outbound lib opts hs ct m net 0 url meth b 0 = (res, sent)"
    by (cases "open_outbound lib opts hs ct m net 0 url meth b 0")
  show ?thesis using open_outbound_sent [OF e] by (simp add: e list_all_length nth_enumerate_eq)
qed

text \<open>The private networks of RFC 1918, the loopback network and the link-local one, by their ranges.\<close>

definition internal_v4 :: "32 word \<Rightarrow> bool" where
  "internal_v4 w \<longleftrightarrow> 0x0A000000 \<le> w \<and> w \<le> 0x0AFFFFFF \<or> 0x7F000000 \<le> w \<and> w \<le> 0x7FFFFFFF
     \<or> 0xA9FE0000 \<le> w \<and> w \<le> 0xA9FEFFFF \<or> 0xAC100000 \<le> w \<and> w \<le> 0xAC1FFFFF
     \<or> 0xC0A80000 \<le> w \<and> w \<le> 0xC0A8FFFF"

lemma internal_v4_private:
  assumes "internal_v4 w"
  shows "is_private_ip cls (V4 w)"
proof -
  from assms consider "0x0A000000 \<le> w" "w \<le> 0x0AFFFFFF" | "0x7F000000 \<le> w" "w \<le> 0x7FFFFFFF" | "0xA9FE0000 \<le> w" "w \<le> 0xA9FEFFFF"
    | "0xAC100000 \<le> w" "w \<le> 0xAC1FFFFF" | "0xC0A80000 \<le> w" "w \<le> 0xC0A8FFFF"
    unfolding internal_v4_def by blast
  then have "list_ex (in_network w) [(0x0A000000, 8), (0x7F000000, 8), (0xA9FE0000, 16), (0xAC100000, 12), (0xC0A80000, 16)]"
  proof cases
    case 1
    then have "in_network w (0x0A000000, 8)" using in_network_range [of "0x0A000000" "0x0A" 24 w] by (simp add: word_le_nat_alt)
    then show ?thesis by simp
  next
    case 2
    then have "in_network w (0x7F000000, 8)" using in_network_range [of "0x7F000000" "0x7F" 24 w] by (simp add: word_le_nat_alt)
    then show ?thesis by simp
  next
    case 3
    then have "in_network w (0xA9FE0000, 16)" using in_network_range [of "0xA9FE0000" "0xA9FE" 16 w] by (simp add: word_le_nat_alt)
    then show ?thesis by simp
  next
    case 4
    then have "in_network w (0xAC100000, 12)" using in_network_range [of "0xAC100000" "0xAC1" 20 w] by (simp add: word_le_nat_alt)
    then show ?thesis by simp
  next
    case 5
    then have "in_network w (0xC0A80000, 16)" using in_network_range [of "0xC0A80000" "0xC0A8" 16 w] by (simp add: word_le_nat_alt)
    then show ?thesis by simp
  qed
  then show ?thesis by (auto simp: is_private_ip_def BLOCKED_V4_def)
qed

text \<open>
  C18: A call without the exceptions for private networks never opens a connection into them: whatever
  the resolver answers and wherever redirects point, no address of 10/8, 127/8, 169.254/16 (with the
  metadata service of the cloud providers), 172.16/12 or 192.168/16 is dialed.
\<close>

theorem internal_networks_unreachable:
  assumes "\<not> oo_insecure_base_url opts" and "\<not> oo_private_network opts" and "oo_loopback_hosts opts = []"
    and "r \<in> set (snd (open_outbound lib opts hs ct m net 0 url meth b 0))" and "V4 w \<in> set (sr_dialed r)"
  shows "\<not> internal_v4 w"
proof
  assume "internal_v4 w"
  obtain res sent where e: "open_outbound lib opts hs ct m net 0 url meth b 0 = (res, sent)"
    by (cases "open_outbound lib opts hs ct m net 0 url meth b 0")
  with assms(4) obtain k where "request_ok lib opts (net k) r"
    using open_outbound_sent [OF e] by (auto simp: in_set_conv_nth)
  then have "permitted_ip lib opts (sr_host r) (V4 w)" using assms(5) by (simp add: request_ok_def)
  then show False using assms(1-3) internal_v4_private [OF \<open>internal_v4 w\<close>, of "ol_classes lib"]
    by (simp add: permitted_ip_def listed_host_def)
qed

text \<open>
  A redirect whose target resolves to the loopback address: the first request goes to 8.8.8.8,
  the second hop is refused before anything is dialed.
\<close>

definition example_lib :: outbound_lib where
  "example_lib = \<lparr>ol_classes = \<lparr>ic_special = (\<lambda>_. False), ic_loopback = (\<lambda>_. False)\<rparr>, ol_idna = Some, ol_urljoin = (\<lambda>_ u. u), ol_version = ''1''\<rparr>"

definition example_options :: outbound_options where
  "example_options = \<lparr>oo_allow_hosts = Some [''a'', ''b''], oo_any_public_host = False, oo_loopback_hosts = [],
     oo_insecure_base_url = False, oo_private_network = False, oo_policy = Some STANDARD_OUTBOUND_POLICY\<rparr>"

definition example_net :: "nat \<Rightarrow> hop" where
  "example_net k = \<lparr>hp_dns = (\<lambda>h _. Some [V4 (if h = ''a'' then 0x08080808 else 0x7F000001)]), hp_up = (\<lambda>_. True),
     hp_reply = Response 302 (Some ''http://b/'') []\<rparr>"

lemma example_run:
  "(case open_outbound example_lib example_options [] None 3 example_net 0 ''http://A/x'' ''GET'' None 0 of
     (res, sent) \<Rightarrow> (res, map (\<lambda>r. (sr_url r, sr_host r, sr_method r, sr_headers r, sr_dialed r)) sent))
   = (Inl (SSRF (Private_ip_blocked (V4 0x7F000001))),
      [(''http://A/x'', ''a'', ''GET'', [(''User-agent'', ''ComfyUI-OpenClaw/1'')], [V4 0x08080808])])"
  by code_simp

theorem internal_networks_unreachable_witness:
  "V4 0x08080808 \<in> set (sr_dialed (hd (snd (open_outbound example_lib example_options [] None 3 example_net 0 ''http://A/x'' ''GET'' None 0))))
   \<and> \<not> internal_v4 0x08080808"
proof -
  have "\<not> oo_insecure_base_url example_options" "\<not> oo_private_network example_options" "oo_loopback_hosts example_options = []"
    by (simp_all add: example_options_def)
  from internal_networks_unreachable [OF this, of "hd (snd (open_outbound example_lib example_options [] None 3 example_net 0 ''http://A/x'' ''GET'' None 0))"
      example_lib "[]" None 3 example_net "''http://A/x''" "''GET''" None "0x08080808"]
  moreover obtain res sent where "open_outbound example_lib example_options [] None 3 example_net 0 ''http://A/x'' ''GET'' None 0 = (res, sent)"
    by fastforce
  moreover from this obtain r where "sent = [r]" "sr_dialed r = [V4 0x08080808]" using example_run by auto
  ultimately show ?thesis by simp
qed

subsection \<open>Headers\<close>

text \<open>Only headers with an allowed prefix leave, beside the two the module sets.\<close>

lemma outbound_headers:
  assumes "dget (apply_outbound_headers version headers content_type) key \<noteq> None"
  shows "key \<in> {''User-agent'', ''Content-type''} \<or> (\<exists>(k, v) \<in> set headers. allowed_header k \<and> key = capitalize k)"
proof -
  have step: "dget (fold (\<lambda>(k, v) h. if allowed_header k then dput (capitalize k) v h else h) xs h) key \<noteq> None \<Longrightarrow>
      dget h key \<noteq> None \<or> (\<exists>(k, v) \<in> set xs. allowed_header k \<and> key = capitalize k)" for xs h
    by (induction xs arbitrary: h) (fastforce simp: dict_simps split: if_splits)+
  have cap: "capitalize ''Content-Type'' = ''Content-type''" by code_simp
  show ?thesis using assms step unfolding apply_outbound_headers_def Let_def
    by (fastforce simp: dict_simps cap split: option.splits if_splits)
qed

text \<open>
  Every hop carries the headers of the call, whatever host a redirect leads to: an
  \<open>Authorization\<close> header follows a redirect to another host.
\<close>

lemma headers_follow_redirects:
  assumes "open_outbound lib opts hs ct m net 0 url meth b 0 = (res, sent)" and "r \<in> set sent"
  shows "sr_headers r = apply_outbound_headers (ol_version lib) hs ct"
  using open_outbound_sent [OF assms(1)] assms(2) by blast

end
