(* ===== verification/Access_Control.thy ===== *)
theory Access_Control
  imports Webhook_Auth Tenant Addresses
begin

text \<open>
  Who may call which endpoint: \<open>services/request_ip.py\<close> (the address of the client behind
  trusted proxies), \<open>services/csrf_protection.py\<close> (same-origin check of the local
  convenience mode), \<open>services/access_control.py\<close> (tokens, tiers and scopes) and the
  classification of routes of \<open>services/endpoint_manifest.py\<close>. A request is its remote
  address and its headers; \<open>hmac.compare_digest\<close> raises \<open>TypeError\<close> on a text that is not
  ASCII, which is the result \<open>None\<close> of the functions that use it.
\<close>

record request =
  rq_remote :: "string option"
  rq_headers :: headers

subsection \<open>The address of the client\<close>

definition env_text :: "env \<Rightarrow> string \<Rightarrow> string" where
  "env_text env name = py_strip (or_text (env_value env name (Some [])) [])"

definition trusted_entry :: "(string \<Rightarrow> 128 word option) \<Rightarrow> string \<Rightarrow> network option" where
  "trusted_entry v6 part = (case ip_address v6 part of
     Some (A4 w) \<Rightarrow> Some (N4 w 32) | Some (A6 w) \<Rightarrow> Some (N6 w 128) | None \<Rightarrow> ip_network v6 part)"

definition get_trusted_proxies :: "(string \<Rightarrow> 128 word option) \<Rightarrow> env \<Rightarrow> network list" where
  "get_trusted_proxies v6 env = (let raw = env_text env ''OPENCLAW_TRUSTED_PROXIES'' in
     if raw = [] then []
     else List.map_filter (\<lambda>part. if part = [] then None else trusted_entry v6 part) (map py_strip (split_on (CHR '','') raw)))"

definition is_trusted_proxy :: "(string \<Rightarrow> 128 word option) \<Rightarrow> string \<Rightarrow> network list \<Rightarrow> bool" where
  "is_trusted_proxy v6 ip_str nets = (if ip_str = [] \<or> nets = [] then False
     else case ip_address v6 ip_str of None \<Rightarrow> False | Some a \<Rightarrow> list_ex (address_in a) nets)"

definition get_client_ip :: "(string \<Rightarrow> 128 word option) \<Rightarrow> env \<Rightarrow> request \<Rightarrow> string" where
  "get_client_ip v6 env rq =
    (let remote = or_text (rq_remote rq) [] in
     if env_value env ''OPENCLAW_TRUST_X_FORWARDED_FOR'' (Some ''0'') \<notin> Some ` set [''1'', ''true'', ''True'', ''yes''] then remote
     else let nets = get_trusted_proxies v6 env in
       if \<not> is_trusted_proxy v6 remote nets then remote
       else let xff = or_text (rq_headers rq ''X-Forwarded-For'') [] in
         if xff = [] then remote
         else let hops = rev (map py_strip (split_on (CHR '','') xff)) in
           (case find (\<lambda>hop. \<not> is_trusted_proxy v6 hop nets) hops of Some hop \<Rightarrow> hop | None \<Rightarrow> last hops))"

definition is_loopback :: "(string \<Rightarrow> 128 word option) \<Rightarrow> string \<Rightarrow> bool" where
  "is_loopback v6 remote_addr =
    (if remote_addr = [] then False
     else if remote_addr \<in> {''127.0.0.1'', ''::1'', ''localhost''} then True
     else case ip_address v6 remote_addr of Some a \<Rightarrow> is_loopback_address a | None \<Rightarrow> False)"

subsection \<open>Same-origin check\<close>

definition LOCALHOST_ORIGINS :: "string list" where
  "LOCALHOST_ORIGINS = [''http://127.0.0.1'', ''http://localhost'', ''http://0.0.0.0'', ''https://127.0.0.1'', ''https://localhost'']"

definition is_same_origin_request :: "env \<Rightarrow> request \<Rightarrow> bool" where
  "is_same_origin_request env rq =
    (let sec_fetch_site = py_lower (or_text (rq_headers rq ''Sec-Fetch-Site'') []);
         origin = py_strip (or_text (rq_headers rq ''Origin'') []) in
     if sec_fetch_site \<in> {''same-origin'', ''same-site'', ''none''} then True
     else if sec_fetch_site = ''cross-site'' then False
     else if origin \<noteq> [] then \<exists>allowed \<in> set LOCALHOST_ORIGINS. starts_with allowed origin
     else py_lower (or_text (env ''OPENCLAW_LOCALHOST_ALLOW_NO_ORIGIN'') []) = ''true'')"

text \<open>\<open>True\<close> is the 403 response.\<close>

definition require_same_origin_if_no_token :: "env \<Rightarrow> request \<Rightarrow> bool \<Rightarrow> bool" where
  "require_same_origin_if_no_token env rq admin_token_configured =
    (if admin_token_configured then False else \<not> is_same_origin_request env rq)"

subsection \<open>Tokens\<close>

datatype auth_tier = ADMIN | OBSERVABILITY | INTERNAL | PUBLIC | WEBHOOK | BRIDGE

fun tier_value :: "auth_tier \<Rightarrow> string" where
  "tier_value ADMIN = ''admin''"
| "tier_value OBSERVABILITY = ''obs''"
| "tier_value INTERNAL = ''internal''"
| "tier_value PUBLIC = ''public''"
| "tier_value WEBHOOK = ''webhook''"
| "tier_value BRIDGE = ''bridge''"

record token_info =
  ti_token_id :: string
  ti_role :: auth_tier
  ti_scopes :: "string list"
  ti_created_at :: time
  ti_expires_at :: "time option"
  ti_tenant_id :: string

definition has_scope :: "token_info \<Rightarrow> string \<Rightarrow> bool" where
  "has_scope t required = (''*'' \<in> set (ti_scopes t) \<or> required \<in> set (ti_scopes t)
     \<or> (\<exists>s \<in> set (ti_scopes t). ends_with '':*'' s \<and> starts_with (take (length s - 2) s @ '':'') required))"

type_synonym token_registry = "(string, token_info) dict"

text \<open>\<open>hex\<close> and \<open>kid\<close> are the two random UUIDs.\<close>

definition issue_token :: "time \<Rightarrow> string \<Rightarrow> string \<Rightarrow> auth_tier \<Rightarrow> string list \<Rightarrow> int \<Rightarrow> string \<Rightarrow> token_registry
    \<Rightarrow> (tenant_error + string \<times> token_info) \<times> token_registry" where
  "issue_token now hex kid role scopes ttl_seconds tenant_id reg =
    (let secret = ''oc_'' @ tier_value role @ ''_'' @ hex in
     case normalize_tenant_id tenant_id of
       Inl e \<Rightarrow> (Inl e, reg)
     | Inr tenant \<Rightarrow>
        let info = \<lparr>ti_token_id = ''kid-'' @ take 8 kid, ti_role = role, ti_scopes = remdups scopes, ti_created_at = now,
          ti_expires_at = (if ttl_seconds > 0 then Some (now + of_int ttl_seconds) else None), ti_tenant_id = tenant\<rparr>
        in (Inr (secret, info), dput secret info reg))"

definition revoke_tokens :: "string \<Rightarrow> token_registry \<Rightarrow> bool \<times> token_registry" where
  "revoke_tokens token_id reg =
    (let to_delete = map fst (filter (\<lambda>(s, i). ti_token_id i = token_id) reg)
     in (to_delete \<noteq> [], ddel_all to_delete reg))"

definition lookup_token :: "string \<Rightarrow> token_registry \<Rightarrow> token_info option" where
  "lookup_token secret reg = dget reg secret"

subsection \<open>The token of a request\<close>

definition ADMIN_TOKEN_HEADERS :: header_alias where
  "ADMIN_TOKEN_HEADERS = \<lparr>ha_primary = ''X-OpenClaw-Admin-Token'', ha_legacy = ''X-Moltbot-Admin-Token''\<rparr>"

definition OBS_TOKEN_HEADERS :: header_alias where
  "OBS_TOKEN_HEADERS = \<lparr>ha_primary = ''X-OpenClaw-Obs-Token'', ha_legacy = ''X-Moltbot-Obs-Token''\<rparr>"

definition admin_auth_configured :: "env \<Rightarrow> bool" where
  "admin_auth_configured env \<longleftrightarrow> env_text env ''OPENCLAW_ADMIN_TOKEN'' \<noteq> []"

definition is_any_token_configured :: "env \<Rightarrow> bool" where
  "is_any_token_configured env \<longleftrightarrow> admin_auth_configured env \<or> env_text env ''OPENCLAW_OBSERVABILITY_TOKEN'' \<noteq> []"

definition compare_digest :: "string \<Rightarrow> string \<Rightarrow> bool option" where
  "compare_digest a b = (if is_ascii a \<and> is_ascii b then Some (a = b) else None)"

definition resolve_header_tenant :: "env \<Rightarrow> request \<Rightarrow> string" where
  "resolve_header_tenant env rq =
    (if \<not> is_multi_tenant_enabled env then DEFAULT_TENANT_ID
     else case extract_tenant_from_headers env (rq_headers rq) of
       Inr (Some tenant) \<Rightarrow> if tenant = [] then DEFAULT_TENANT_ID else tenant | _ \<Rightarrow> DEFAULT_TENANT_ID)"

definition client_token :: "request \<Rightarrow> string" where
  "client_token rq = (let t = fst (get_header_alias_value (rq_headers rq) ADMIN_TOKEN_HEADERS) in
     if t \<noteq> [] then t else fst (get_header_alias_value (rq_headers rq) OBS_TOKEN_HEADERS))"

definition static_token :: "string \<Rightarrow> auth_tier \<Rightarrow> string list \<Rightarrow> string \<Rightarrow> token_info" where
  "static_token token_id role scopes tenant = \<lparr>ti_token_id = token_id, ti_role = role, ti_scopes = scopes, ti_created_at = 0,
     ti_expires_at = None, ti_tenant_id = tenant\<rparr>"

text \<open>Whether the request's token is the configured one: not asked when one of them is empty.\<close>

definition static_match :: "string \<Rightarrow> string \<Rightarrow> bool option" where
  "static_match client configured = (if configured = [] \<or> client = [] then Some False else compare_digest client configured)"

definition loopback_token :: "(string \<Rightarrow> 128 word option) \<Rightarrow> env \<Rightarrow> request \<Rightarrow> token_info option" where
  "loopback_token v6 env rq =
    (if is_loopback v6 (get_client_ip v6 env rq) then
       Some (if env_text env ''OPENCLAW_ADMIN_TOKEN'' = [] then static_token ''local-admin'' ADMIN [''*''] (resolve_header_tenant env rq)
         else static_token ''local-internal'' INTERNAL [''internal:call''] (resolve_header_tenant env rq))
     else None)"

definition resolve_token_info :: "(string \<Rightarrow> 128 word option) \<Rightarrow> env \<Rightarrow> token_registry \<Rightarrow> request \<Rightarrow> token_info option option" where
  "resolve_token_info v6 env reg rq =
    (let client = client_token rq; tenant = resolve_header_tenant env rq in
     case (if client = [] then None else lookup_token client reg) of
       Some info \<Rightarrow> Some (Some info)
     | None \<Rightarrow>
        (case static_match client (env_text env ''OPENCLAW_ADMIN_TOKEN'') of
           None \<Rightarrow> None
         | Some True \<Rightarrow> Some (Some (static_token ''env-admin'' ADMIN [''*''] tenant))
         | Some False \<Rightarrow>
            (case static_match client (env_text env ''OPENCLAW_OBSERVABILITY_TOKEN'') of
               None \<Rightarrow> None
             | Some True \<Rightarrow> Some (Some (static_token ''env-obs'' OBSERVABILITY [''read:*''] tenant))
             | Some False \<Rightarrow> Some (loopback_token v6 env rq))))"

definition get_current_auth_tier :: "(string \<Rightarrow> 128 word option) \<Rightarrow> env \<Rightarrow> token_registry \<Rightarrow> request \<Rightarrow> auth_tier option" where
  "get_current_auth_tier v6 env reg rq =
    map_option (\<lambda>t. case t of Some info \<Rightarrow> ti_role info | None \<Rightarrow> PUBLIC) (resolve_token_info v6 env reg rq)"

subsection \<open>Decisions\<close>

text \<open>
  A decision: allowed, or refused with a message; and the address for which the security
  telemetry records an authentication failure.
\<close>

datatype denial = Internal_required | Admin_required | Observability_required | Tier_denied auth_tier auth_tier
  | Authentication_required | Missing_scopes "string list" | Unclassified

definition verify_tier_access ::
  "(string \<Rightarrow> 128 word option) \<Rightarrow> env \<Rightarrow> token_registry \<Rightarrow> request \<Rightarrow> auth_tier \<Rightarrow> (denial option \<times> string option) option" where
  "verify_tier_access v6 env reg rq required_tier =
    (let remote = get_client_ip v6 env rq; refused = (\<lambda>d. Some (Some d, Some remote)); granted = Some (None, None) in
     case get_current_auth_tier v6 env reg rq of
       None \<Rightarrow> None
     | Some current_tier \<Rightarrow>
         if required_tier = PUBLIC then granted
         else if required_tier = INTERNAL then if is_loopback v6 remote then granted else refused Internal_required
         else if current_tier = ADMIN then granted
         else if required_tier = ADMIN then refused Admin_required
         else if required_tier = OBSERVABILITY then
           if current_tier \<in> {OBSERVABILITY, ADMIN} then granted
           else if current_tier = INTERNAL then granted
           else refused Observability_required
         else refused (Tier_denied required_tier current_tier))"

definition verify_scope_access ::
  "(string \<Rightarrow> 128 word option) \<Rightarrow> env \<Rightarrow> token_registry \<Rightarrow> request \<Rightarrow> string list \<Rightarrow> denial option option" where
  "verify_scope_access v6 env reg rq required_scopes =
    (if required_scopes = [] then Some None
     else case resolve_token_info v6 env reg rq of
       None \<Rightarrow> None
     | Some None \<Rightarrow> Some (Some Authentication_required)
     | Some (Some info) \<Rightarrow>
        let missing = filter (\<lambda>req. \<not> has_scope info req) required_scopes in
        Some (if missing \<noteq> [] then Some (Missing_scopes missing) else None))"

datatype route_plane = User_plane | Admin_plane | Internal_plane | External_plane

record endpoint =
  em_auth_tier :: auth_tier
  em_required_scopes :: "string list"
  em_route_plane :: "route_plane option"

text \<open>The wrapped handler: a 403 response, or the answer of the handler.\<close>

definition enforce_security ::
  "(string \<Rightarrow> 128 word option) \<Rightarrow> env \<Rightarrow> token_registry \<Rightarrow> endpoint option \<Rightarrow> (request \<Rightarrow> 'r) \<Rightarrow> request \<Rightarrow> (denial + 'r) option" where
  "enforce_security v6 env reg meta handler rq =
    (case meta of
       None \<Rightarrow> Some (Inl Unclassified)
     | Some m \<Rightarrow>
        (case verify_tier_access v6 env reg rq (em_auth_tier m) of
           None \<Rightarrow> None
         | Some (Some err, _) \<Rightarrow> Some (Inl err)
         | Some (None, _) \<Rightarrow>
            if em_required_scopes m \<noteq> [] then
              (case verify_scope_access v6 env reg rq (em_required_scopes m) of
                 None \<Rightarrow> None
               | Some (Some err) \<Rightarrow> Some (Inl err)
               | Some None \<Rightarrow> Some (Inr (handler rq)))
            else Some (Inr (handler rq))))"

subsection \<open>Legacy checks\<close>

definition require_observability_access :: "(string \<Rightarrow> 128 word option) \<Rightarrow> env \<Rightarrow> request \<Rightarrow> (bool \<times> string) option" where
  "require_observability_access v6 env rq =
    (if is_loopback v6 (get_client_ip v6 env rq) then Some (True, [])
     else let expected_token = env_text env ''OPENCLAW_OBSERVABILITY_TOKEN'' in
       if expected_token \<noteq> [] then
         (case compare_digest (fst (get_header_alias_value (rq_headers rq) OBS_TOKEN_HEADERS)) expected_token of
            None \<Rightarrow> None
          | Some ok \<Rightarrow> Some (if ok then (True, []) else (False, ''Invalid or missing observability token.'')))
       else Some (False, ''Remote access denied. Set OPENCLAW_OBSERVABILITY_TOKEN (or legacy MOLTBOT_OBSERVABILITY_TOKEN) to allow.''))"

definition require_admin_token :: "(string \<Rightarrow> 128 word option) \<Rightarrow> env \<Rightarrow> request \<Rightarrow> (bool \<times> string) option" where
  "require_admin_token v6 env rq =
    (let expected_token = env_text env ''OPENCLAW_ADMIN_TOKEN'' in
     if expected_token \<noteq> [] then
       (case compare_digest (fst (get_header_alias_value (rq_headers rq) ADMIN_TOKEN_HEADERS)) expected_token of
          None \<Rightarrow> None
        | Some ok \<Rightarrow> Some (if ok then (True, []) else (False, ''Invalid admin token.'')))
     else if is_loopback v6 (get_client_ip v6 env rq) then
       Some (if is_same_origin_request env rq then (True, [])
         else (False, ''Cross-origin request denied (S33). Set OPENCLAW_ADMIN_TOKEN to use token-based auth.''))
     else Some (False, ''Remote admin access denied. Set OPENCLAW_ADMIN_TOKEN (or legacy MOLTBOT_ADMIN_TOKEN) to allow.''))"

subsection \<open>The manifest of the routes\<close>

fun plane_value :: "route_plane \<Rightarrow> string" where
  "plane_value User_plane = ''user''"
| "plane_value Admin_plane = ''admin''"
| "plane_value Internal_plane = ''internal''"
| "plane_value External_plane = ''external''"

text \<open>A field of the metadata is empty where the code has \<open>None\<close>.\<close>

record manifest_entry =
  me_method :: string
  me_path :: string
  me_metadata :: "(string \<times> string) option"

definition generate_manifest :: "(string \<times> string \<times> endpoint option) list \<Rightarrow> manifest_entry list" where
  "generate_manifest routes = map (\<lambda>(method, path, meta). \<lparr>me_method = method, me_path = path,
     me_metadata = map_option (\<lambda>m. (tier_value (em_auth_tier m), case em_route_plane m of Some p \<Rightarrow> plane_value p | None \<Rightarrow> [])) meta\<rparr>) routes"

datatype mae_violation = Unclassified_route string string | Missing_auth string string | Missing_plane string string | Exposed_plane string string

definition mae_violations :: "string \<Rightarrow> manifest_entry \<Rightarrow> mae_violation list" where
  "mae_violations profile e =
    (if me_method e = ''*'' then []
     else case me_metadata e of
       None \<Rightarrow> [Unclassified_route (me_method e) (me_path e)]
     | Some (auth, plane) \<Rightarrow>
        (if auth = [] then [Missing_auth (me_method e) (me_path e)] else []) @
        (if plane = [] then [Missing_plane (me_method e) (me_path e)]
         else if profile \<in> {''public'', ''hardened''} \<and> plane \<in> {''admin'', ''internal''} \<and> auth = ''public''
         then [Exposed_plane (me_method e) (me_path e)] else []))"

definition validate_mae_posture :: "manifest_entry list \<Rightarrow> string \<Rightarrow> bool \<times> mae_violation list" where
  "validate_mae_posture manifest profile = (let violations = concat (map (mae_violations profile) manifest) in (violations = [], violations))"

subsection \<open>Tokens\<close>

lemma compare_digest_Some: "compare_digest a b = Some True \<Longrightarrow> a = b"
  by (simp add: compare_digest_def split: if_splits)

lemma static_match_Some: "static_match c t = Some True \<Longrightarrow> c = t \<and> c \<noteq> []"
  by (auto simp: static_match_def dest: compare_digest_Some split: if_splits)

text \<open>Where the token information of a request comes from.\<close>

lemma resolved_token:
  assumes "resolve_token_info v6 env reg rq = Some (Some info)"
  obtains (issued) "client_token rq \<noteq> []" "dget reg (client_token rq) = Some info"
  | (admin) "client_token rq \<noteq> []" "client_token rq = env_text env ''OPENCLAW_ADMIN_TOKEN''" "ti_role info = ADMIN"
  | (observer) "client_token rq \<noteq> []" "client_token rq = env_text env ''OPENCLAW_OBSERVABILITY_TOKEN''" "ti_role info = OBSERVABILITY"
  | (local) "is_loopback v6 (get_client_ip v6 env rq)" "ti_role info = (if admin_auth_configured env then INTERNAL else ADMIN)"
proof (cases "if client_token rq = [] then None else lookup_token (client_token rq) reg")
  case (Some i)
  then show ?thesis using assms issued by (auto simp: resolve_token_info_def lookup_token_def split: if_splits)
next
  case None
  note r = assms [unfolded resolve_token_info_def Let_def None option.case]
  show ?thesis
  proof (cases "static_match (client_token rq) (env_text env ''OPENCLAW_ADMIN_TOKEN'') = Some True")
    case True
    then show ?thesis using r admin static_match_Some [OF True] by (auto simp: static_token_def)
  next
    case False
    show ?thesis
    proof (cases "static_match (client_token rq) (env_text env ''OPENCLAW_OBSERVABILITY_TOKEN'') = Some True")
      case True
      then show ?thesis using r \<open>static_match _ _ \<noteq> _\<close> observer static_match_Some [OF True]
        by (auto simp: static_token_def split: option.splits bool.splits)
    next
      case False
      then have "loopback_token v6 env rq = Some info"
        using r \<open>static_match _ (env_text env ''OPENCLAW_ADMIN_TOKEN'') \<noteq> _\<close> by (simp split: option.splits bool.splits)
      then show ?thesis using local by (auto simp: loopback_token_def static_token_def admin_auth_configured_def split: if_splits)
    qed
  qed
qed

lemma anonymous_remote:
  assumes "client_token rq = []" and "\<not> is_loopback v6 (get_client_ip v6 env rq)"
  shows "resolve_token_info v6 env reg rq = Some None"
  using assms by (simp add: resolve_token_info_def static_match_def loopback_token_def)

lemma tier_granted:
  assumes "verify_tier_access v6 env reg rq required = Some (None, r)"
  shows "(required = INTERNAL \<longrightarrow> is_loopback v6 (get_client_ip v6 env rq))
    \<and> (\<exists>tier. get_current_auth_tier v6 env reg rq = Some tier \<and>
        (required \<noteq> PUBLIC \<and> required \<noteq> INTERNAL \<longrightarrow> tier = ADMIN \<or> required = OBSERVABILITY \<and> tier \<in> {OBSERVABILITY, INTERNAL}))"
  using assms by (auto simp: verify_tier_access_def Let_def split: option.splits if_splits)

lemma revoked_unknown: "lookup_token s (snd (revoke_tokens i reg)) = Some info \<Longrightarrow> dict_ok reg \<Longrightarrow> ti_token_id info \<noteq> i"
  by (force simp: lookup_token_def revoke_tokens_def dict_simps dget_iff split: if_splits)

text \<open>The lifetime of an issued token is stored but never looked at: an expired token still counts.\<close>

lemma expired_token_accepted:
  assumes "normalize_tenant_id tenant = Inr t" and "issue_token now hex kid role scopes ttl tenant reg = (Inr (secret, info), reg')"
    and "client_token rq = secret"
  shows "resolve_token_info v6 env reg' rq = Some (Some info)"
  using assms by (auto simp: issue_token_def resolve_token_info_def lookup_token_def dict_simps Let_def)

text \<open>The allowed origins are compared as prefixes: a host whose name begins with \<open>localhost\<close> passes.\<close>

lemma foreign_origin_accepted:
  "is_same_origin_request env \<lparr>rq_remote = Some ''127.0.0.1'', rq_headers = [''Origin'' \<mapsto> ''http://localhost.evil.example'']\<rparr>"
  by (simp add: is_same_origin_request_def or_text_def py_lower_def) code_simp

subsection \<open>Properties\<close>

text \<open>
  C7: An endpoint of the admin tier answers a request whose client address is not a loopback one only
  for a token: the configured admin token, or a token that was issued with the admin role. The
  observability token, an empty token and no token are refused.
\<close>

theorem remote_admin_needs_token:
  assumes "enforce_security v6 env reg (Some m) handler rq = Some (Inr r)" and "em_auth_tier m = ADMIN"
    and "\<not> is_loopback v6 (get_client_ip v6 env rq)"
  shows "client_token rq \<noteq> [] \<and> (client_token rq = env_text env ''OPENCLAW_ADMIN_TOKEN''
    \<or> (\<exists>info. lookup_token (client_token rq) reg = Some info \<and> ti_role info = ADMIN))"
proof -
  obtain x where "verify_tier_access v6 env reg rq ADMIN = Some (None, x)"
    using assms(1,2) by (auto simp: enforce_security_def split: option.splits prod.splits)
  then have "get_current_auth_tier v6 env reg rq = Some ADMIN" using tier_granted by fastforce
  then obtain info where "resolve_token_info v6 env reg rq = Some (Some info)" and "ti_role info = ADMIN"
    by (auto simp: get_current_auth_tier_def split: option.splits)
  then show ?thesis using assms(3) by (cases rule: resolved_token) (auto simp: lookup_token_def)
qed

text \<open>
  What is reachable without authentication: when the manifest of the routes passes the posture
  check of a public or hardened deployment, a handler that runs for a remote request without a
  token belongs to a route of the user or external plane that is declared public and asks for no
  scope.
\<close>

theorem anonymous_remote_surface:
  assumes "fst (validate_mae_posture (generate_manifest routes) profile)" and "profile \<in> {''public'', ''hardened''}"
    and "(method, path, meta) \<in> set routes" and "method \<noteq> ''*''"
    and "client_token rq = []" and "\<not> is_loopback v6 (get_client_ip v6 env rq)"
    and "enforce_security v6 env reg meta handler rq = Some (Inr r)"
  shows "\<exists>m. meta = Some m \<and> em_auth_tier m = PUBLIC \<and> em_required_scopes m = [] \<and> em_route_plane m \<in> {Some User_plane, Some External_plane}"
proof -
  note anon = anonymous_remote [OF assms(5,6)]
  obtain m where m: "meta = Some m" using assms(7) by (cases meta) (auto simp: enforce_security_def)
  have tier: "get_current_auth_tier v6 env reg rq = Some PUBLIC" by (simp add: get_current_auth_tier_def anon)
  obtain x where v: "verify_tier_access v6 env reg rq (em_auth_tier m) = Some (None, x)"
    using assms(7) by (auto simp: enforce_security_def m split: option.splits prod.splits)
  have public: "em_auth_tier m = PUBLIC" using tier_granted [OF v] tier assms(6) by auto
  have scopes: "em_required_scopes m = []"
    using assms(7) v by (auto simp: enforce_security_def m verify_scope_access_def anon split: if_splits)
  have "mae_violations profile \<lparr>me_method = method, me_path = path,
      me_metadata = Some (''public'', case em_route_plane m of Some p \<Rightarrow> plane_value p | None \<Rightarrow> [])\<rparr> = []"
    using assms(1,3) public by (force simp: validate_mae_posture_def generate_manifest_def m)
  then have "em_route_plane m \<in> {Some User_plane, Some External_plane}"
    using assms(2,4) by (cases "em_route_plane m"; cases "the (em_route_plane m)") (auto simp: mae_violations_def)
  then show ?thesis using m public scopes by blast
qed

text \<open>
  The client address cannot be forged through the forwarding header: behind trusted proxies it is
  the last hop that is not one of them, whatever the client itself put in front of the list; a
  request that does not come from a trusted proxy keeps the address of its connection.
\<close>

theorem client_ip_unforgeable:
  assumes "map py_strip (split_on (CHR '','') (or_text (rq_headers rq ''X-Forwarded-For'') [])) = forged @ client # proxies"
    and "env_value env ''OPENCLAW_TRUST_X_FORWARDED_FOR'' (Some ''0'') = Some ''1''"
    and "\<not> is_trusted_proxy v6 client (get_trusted_proxies v6 env)"
    and "list_all (\<lambda>p. is_trusted_proxy v6 p (get_trusted_proxies v6 env)) proxies"
    and "or_text (rq_headers rq ''X-Forwarded-For'') [] \<noteq> []"
  shows "get_client_ip v6 env rq = (if is_trusted_proxy v6 (or_text (rq_remote rq) []) (get_trusted_proxies v6 env)
     then client else or_text (rq_remote rq) [])"
proof -
  let ?bad = "\<lambda>hop. \<not> is_trusted_proxy v6 hop (get_trusted_proxies v6 env)"
  have "find ?bad (rev proxies @ client # rev forged) = Some client"
    using assms(3,4) by (induction proxies rule: rev_induct) auto
  then show ?thesis using assms(1,2,5) by (simp add: get_client_ip_def Let_def)
qed

subsection \<open>Instances\<close>

definition demo_access_env :: env where
  "demo_access_env = [''OPENCLAW_ADMIN_TOKEN'' \<mapsto> ''secret'', ''OPENCLAW_TRUST_X_FORWARDED_FOR'' \<mapsto> ''1'',
     ''OPENCLAW_TRUSTED_PROXIES'' \<mapsto> ''10.0.0.0/8, 192.168.1.1'', ''OPENCLAW_MULTI_TENANT_ENABLED'' \<mapsto> ''0'']"

definition demo_request :: "string option \<Rightarrow> request" where
  "demo_request token = \<lparr>rq_remote = Some ''192.168.1.1'', rq_headers = (case token of None \<Rightarrow> Map.empty | Some t \<Rightarrow> [''X-OpenClaw-Admin-Token'' \<mapsto> t])
     (''X-Forwarded-For'' \<mapsto> ''127.0.0.1, 8.8.8.8, 10.1.2.3'')\<rparr>"

definition demo_config :: endpoint where
  "demo_config = \<lparr>em_auth_tier = ADMIN, em_required_scopes = [''config:write''], em_route_plane = Some Admin_plane\<rparr>"

definition demo_health :: endpoint where
  "demo_health = \<lparr>em_auth_tier = PUBLIC, em_required_scopes = [], em_route_plane = Some User_plane\<rparr>"

lemma demo_values:
  "env_value demo_access_env ''OPENCLAW_ADMIN_TOKEN'' d = Some ''secret''"
  "env_value demo_access_env ''OPENCLAW_TRUST_X_FORWARDED_FOR'' d = Some ''1''"
  "env_value demo_access_env ''OPENCLAW_TRUSTED_PROXIES'' d = Some ''10.0.0.0/8, 192.168.1.1''"
  "env_value demo_access_env ''OPENCLAW_MULTI_TENANT_ENABLED'' d = Some ''0''"
  by (rule env_value_canonical; simp add: demo_access_env_def)+

lemma demo_single: "\<not> is_multi_tenant_enabled demo_access_env"
  unfolding is_multi_tenant_enabled_def demo_values by code_simp

lemma demo_proxies: "get_trusted_proxies (\<lambda>_. None) demo_access_env = [N4 0x0A000000 8, N4 0xC0A80101 32]"
  unfolding get_trusted_proxies_def env_text_def demo_values by code_simp

lemma demo_xff: "or_text (rq_headers (demo_request t) ''X-Forwarded-For'') [] = ''127.0.0.1, 8.8.8.8, 10.1.2.3''"
  "or_text (rq_remote (demo_request t)) [] = ''192.168.1.1''"
  by (auto simp: demo_request_def or_text_def split: option.split)

lemma demo_hops: "map py_strip (split_on (CHR '','') ''127.0.0.1, 8.8.8.8, 10.1.2.3'') = [''127.0.0.1''] @ ''8.8.8.8'' # [''10.1.2.3'']"
  by code_simp

lemma demo_trusted:
  "\<not> is_trusted_proxy (\<lambda>_. None) ''8.8.8.8'' (get_trusted_proxies (\<lambda>_. None) demo_access_env)"
  "is_trusted_proxy (\<lambda>_. None) ''10.1.2.3'' (get_trusted_proxies (\<lambda>_. None) demo_access_env)"
  "is_trusted_proxy (\<lambda>_. None) ''192.168.1.1'' (get_trusted_proxies (\<lambda>_. None) demo_access_env)"
  unfolding demo_proxies by code_simp+

theorem client_ip_unforgeable_witness:
  "get_client_ip (\<lambda>_. None) demo_access_env (demo_request None) = (if True then ''8.8.8.8'' else ''192.168.1.1'')"
proof -
  have hops: "map py_strip (split_on (CHR '','') (or_text (rq_headers (demo_request None) ''X-Forwarded-For'') [])) = [''127.0.0.1''] @ ''8.8.8.8'' # [''10.1.2.3'']"
    unfolding demo_xff by (rule demo_hops)
  have rest: "list_all (\<lambda>p. is_trusted_proxy (\<lambda>_. None) p (get_trusted_proxies (\<lambda>_. None) demo_access_env)) [''10.1.2.3'']"
    by (simp add: demo_trusted)
  show ?thesis using client_ip_unforgeable [OF hops demo_values(2) demo_trusted(1) rest] by (simp add: demo_xff demo_trusted)
qed

lemma demo_client: "get_client_ip (\<lambda>_. None) demo_access_env (demo_request t) = ''8.8.8.8''"
proof -
  have "rev (map py_strip (split_on (CHR '','') ''127.0.0.1, 8.8.8.8, 10.1.2.3'')) = [''10.1.2.3'', ''8.8.8.8'', ''127.0.0.1'']"
    unfolding demo_hops by simp
  then show ?thesis unfolding get_client_ip_def Let_def demo_xff demo_values using demo_trusted by simp
qed

lemma demo_remote: "\<not> is_loopback (\<lambda>_. None) ''8.8.8.8''"
  by code_simp

theorem remote_admin_needs_token_witness:
  "client_token (demo_request (Some ''secret'')) \<noteq> [] \<and> (client_token (demo_request (Some ''secret'')) = env_text demo_access_env ''OPENCLAW_ADMIN_TOKEN''
    \<or> (\<exists>info. lookup_token (client_token (demo_request (Some ''secret''))) [] = Some info \<and> ti_role info = ADMIN))"
proof (rule remote_admin_needs_token)
  have token: "client_token (demo_request (Some ''secret'')) = ''secret''" by code_simp
  have "env_text demo_access_env ''OPENCLAW_ADMIN_TOKEN'' = ''secret''" unfolding env_text_def demo_values by code_simp
  then have "resolve_token_info (\<lambda>_. None) demo_access_env [] (demo_request (Some ''secret'')) = Some (Some (static_token ''env-admin'' ADMIN [''*''] DEFAULT_TENANT_ID))"
    by (simp add: resolve_token_info_def token lookup_token_def static_match_def compare_digest_def is_ascii_def resolve_header_tenant_def demo_single)
  then show "enforce_security (\<lambda>_. None) demo_access_env [] (Some demo_config) (\<lambda>_. ()) (demo_request (Some ''secret'')) = Some (Inr ())"
    by (simp add: enforce_security_def demo_config_def verify_tier_access_def get_current_auth_tier_def verify_scope_access_def static_token_def has_scope_def)
  show "\<not> is_loopback (\<lambda>_. None) (get_client_ip (\<lambda>_. None) demo_access_env (demo_request (Some ''secret'')))"
    by (simp add: demo_client demo_remote)
qed (simp add: demo_config_def)

theorem anonymous_remote_surface_witness:
  "em_auth_tier demo_health = PUBLIC \<and> em_required_scopes demo_health = [] \<and> em_route_plane demo_health \<in> {Some User_plane, Some External_plane}"
proof -
  let ?routes = "[(''GET'', ''/health'', Some demo_health), (''PUT'', ''/config'', Some demo_config)]"
  have token: "client_token (demo_request None) = []" by code_simp
  have remote: "\<not> is_loopback (\<lambda>_. None) (get_client_ip (\<lambda>_. None) demo_access_env (demo_request None))"
    by (simp add: demo_client demo_remote)
  have posture: "fst (validate_mae_posture (generate_manifest ?routes) ''public'')" by code_simp
  have "enforce_security (\<lambda>_. None) demo_access_env [] (Some demo_health) (\<lambda>_. ()) (demo_request None) = Some (Inr ())"
    by (simp add: enforce_security_def demo_health_def verify_tier_access_def get_current_auth_tier_def anonymous_remote [OF token remote])
  from anonymous_remote_surface [OF posture _ _ _ token remote this, of "''GET''" "''/health''"] show ?thesis by simp
qed

end
