(* ===== verification/Payloads.thy ===== *)
theory Payloads
  imports Json Access_Control
begin

text \<open>
  What leaves the process in logs, traces and audit events: the redaction of sensitive values
  (\<open>services/redaction.py\<close>), the removal of internal content (\<open>internal_content.py\<close>) and of
  reasoning (\<open>reasoning_redaction.py\<close>), the payload budgets and the event builder of
  \<open>audit_events.py\<close>. The substitution of the text patterns by the \<open>re\<close> module (\<open>sub\<close>) and the
  number of bytes of a serialised value (\<open>size_of\<close>, \<open>None\<close> when it cannot be serialised) are
  arguments.
\<close>

subsection \<open>Values\<close>

fun somes :: "'a option list \<Rightarrow> 'a list" where
  "somes [] = []"
| "somes (None # xs) = somes xs"
| "somes (Some x # xs) = x # somes xs"

lemma set_somes: "set (somes xs) = {x. Some x \<in> set xs}"
  by (induction xs rule: somes.induct) auto

lemma somes_eq_filter: "somes xs = map the (filter (\<lambda>x. x \<noteq> None) xs)"
  by (induction xs rule: somes.induct) auto

text \<open>A test on every value inside a value, itself included.\<close>

fun everywhere :: "(json \<Rightarrow> bool) \<Rightarrow> json \<Rightarrow> bool" where
  "everywhere P (JObj d) \<longleftrightarrow> P (JObj d) \<and> (\<forall>(k, v) \<in> set d. everywhere P v)"
| "everywhere P (JArr l) \<longleftrightarrow> P (JArr l) \<and> (\<forall>v \<in> set l. everywhere P v)"
| "everywhere P j \<longleftrightarrow> P j"

lemma everywhere_here: "everywhere P j \<Longrightarrow> P j"
  by (cases j) auto

fun depth :: "json \<Rightarrow> nat" where
  "depth (JObj d) = Suc (fold max (map (\<lambda>(k, v). depth v) d) 0)"
| "depth (JArr l) = Suc (fold max (map depth l) 0)"
| "depth j = 0"

lemma fold_max_le: "fold max xs a \<le> b \<longleftrightarrow> a \<le> b \<and> (\<forall>x \<in> set xs. x \<le> (b :: nat))"
  by (induction xs arbitrary: a) auto

lemma depth_le:
  "depth (JObj d) \<le> n \<longleftrightarrow> (\<exists>m. n = Suc m \<and> (\<forall>(k, v) \<in> set d. depth v \<le> m))"
  "depth (JArr l) \<le> n \<longleftrightarrow> (\<exists>m. n = Suc m \<and> (\<forall>v \<in> set l. depth v \<le> m))"
  by (cases n; auto simp: fold_max_le)+

subsection \<open>Redaction\<close>

definition MAX_TEXT_SIZE :: nat where "MAX_TEXT_SIZE = 500000"
definition MAX_JSON_DEPTH :: nat where "MAX_JSON_DEPTH = 10"
definition REDACTED :: string where "REDACTED = ''***REDACTED***''"

definition SENSITIVE_KEYS :: "string list" where
  "SENSITIVE_KEYS = [''api_key'', ''apikey'', ''api-key'', ''secret'', ''secret_key'', ''secretkey'', ''password'', ''passwd'', ''pwd'',
     ''token'', ''access_token'', ''refresh_token'', ''authorization'', ''auth'', ''private_key'', ''privatekey'', ''session_id'',
     ''sessionid'', ''cookie'', ''cookies'']"

text \<open>\<open>None\<close> is the \<open>ValueError\<close>.\<close>

definition redact_text :: "(string \<Rightarrow> string) \<Rightarrow> string \<Rightarrow> string option" where
  "redact_text sub text = (if text = [] then Some text else if length text > MAX_TEXT_SIZE then None else Some (sub text))"

definition sensitive_key :: "string \<Rightarrow> bool" where
  "sensitive_key k \<longleftrightarrow> py_lower k \<in> set SENSITIVE_KEYS"

fun redact_json :: "(string \<Rightarrow> string) \<Rightarrow> nat \<Rightarrow> nat \<Rightarrow> json \<Rightarrow> json" where
  "redact_json sub max_depth n (JObj d) = (if n > max_depth then JStr REDACTED
     else JObj (map (\<lambda>(k, v). (k, if sensitive_key k then JStr REDACTED else redact_json sub max_depth (Suc n) v)) d))"
| "redact_json sub max_depth n (JArr l) = (if n > max_depth then JStr REDACTED else JArr (map (redact_json sub max_depth (Suc n)) l))"
| "redact_json sub max_depth n (JStr s) = (if n > max_depth then JStr REDACTED else if length s > MAX_TEXT_SIZE then JStr REDACTED
     else case redact_text sub s of Some t \<Rightarrow> JStr t | None \<Rightarrow> JStr REDACTED)"
| "redact_json sub max_depth n j = (if n > max_depth then JStr REDACTED else j)"

subsection \<open>Internal content\<close>

definition INTERNAL_CONTENT_FLAG :: string where "INTERNAL_CONTENT_FLAG = ''openclaw_internal''"
definition INTERNAL_CONTENT_ORIGIN :: string where "INTERNAL_CONTENT_ORIGIN = ''openclaw.internal_maintenance''"

definition mark_internal_content :: "string \<Rightarrow> string \<Rightarrow> (string \<times> json) list \<Rightarrow> json" where
  "mark_internal_content text kind metadata = JObj [(INTERNAL_CONTENT_FLAG, JBool True), (''origin'', JStr INTERNAL_CONTENT_ORIGIN),
     (''visibility'', JStr ''internal''), (''kind'', JStr (if kind = [] then ''maintenance_prompt'' else kind)),
     (''content'', JStr text), (''metadata'', JObj metadata)]"

text \<open>Of the origins only a text has the marker as its \<open>str\<close>.\<close>

definition is_internal_content :: "json \<Rightarrow> bool" where
  "is_internal_content j = (case j of JObj d \<Rightarrow> dget d INTERNAL_CONTENT_FLAG = Some (JBool True) \<or> dget d ''origin'' = Some (JStr INTERNAL_CONTENT_ORIGIN)
     | _ \<Rightarrow> False)"

text \<open>\<open>None\<close> is \<open>_DROP\<close>.\<close>

fun drop_internal :: "json \<Rightarrow> json option" where
  "drop_internal (JObj d) = (if is_internal_content (JObj d) then None
     else Some (JObj (somes (map (\<lambda>(k, v). map_option (Pair k) (drop_internal v)) d))))"
| "drop_internal (JArr l) = Some (JArr (somes (map drop_internal l)))"
| "drop_internal j = Some j"

definition sanitize_internal_content :: "json \<Rightarrow> json" where
  "sanitize_internal_content j = (case drop_internal j of None \<Rightarrow> JObj [] | Some c \<Rightarrow> c)"

subsection \<open>Reasoning\<close>

definition REASONING_KEYS :: "string list" where
  "REASONING_KEYS = [''analysis'', ''analysis_text'', ''chain_of_thought'', ''cot'', ''internal_reasoning'', ''reasoning'', ''reasoning_content'',
     ''reasoning_text'', ''thinking'', ''thinking_text'', ''thought'', ''thoughts'']"

definition REASONING_BLOCK_TYPES :: "string list" where
  "REASONING_BLOCK_TYPES = [''analysis'', ''reasoning'', ''reasoning_content'', ''thinking'', ''thought'']"

definition replace_char :: "char \<Rightarrow> char \<Rightarrow> string \<Rightarrow> string" where
  "replace_char a b = map (\<lambda>c. if c = a then b else c)"

definition normalize_json_key :: "string \<Rightarrow> string" where
  "normalize_json_key key = replace_char (CHR '' '') (CHR ''_'') (replace_char (CHR ''-'') (CHR ''_'') (py_lower (py_strip key)))"

definition is_reasoning_key :: "string \<Rightarrow> bool" where
  "is_reasoning_key key = (let n = normalize_json_key key in n \<in> set REASONING_KEYS \<or> ends_with ''_reasoning'' n \<or> ends_with ''_thinking'' n)"

text \<open>The \<open>str\<close> of a value that is no text is never one of the types.\<close>

definition is_reasoning_block :: "(string \<times> json) list \<Rightarrow> bool" where
  "is_reasoning_block d = (case dget d ''type'' of Some (JStr t) \<Rightarrow> normalize_json_key t \<in> set REASONING_BLOCK_TYPES | _ \<Rightarrow> False)"

fun strip_reasoning :: "bool \<Rightarrow> json \<Rightarrow> json option" where
  "strip_reasoning include_reasoning (JObj d) =
    (if is_reasoning_block d then (if include_reasoning then Some (JObj d) else None)
     else Some (JObj (somes (map (\<lambda>(k, v). map_option (Pair k)
       (if is_reasoning_key k then (if include_reasoning then Some v else None) else strip_reasoning include_reasoning v)) d))))"
| "strip_reasoning include_reasoning (JArr l) = Some (JArr (somes (map (strip_reasoning include_reasoning) l)))"
| "strip_reasoning include_reasoning j = Some j"

definition sanitize_operator_payload :: "bool \<Rightarrow> json \<Rightarrow> json" where
  "sanitize_operator_payload include_reasoning j =
    (case strip_reasoning include_reasoning (sanitize_internal_content j) of None \<Rightarrow> JObj [] | Some c \<Rightarrow> c)"

definition is_void :: "json \<Rightarrow> bool" where
  "is_void j \<longleftrightarrow> j \<in> {JNull, JObj [], JArr []}"

fun extract_only_reasoning :: "json \<Rightarrow> json" where
  "extract_only_reasoning (JObj d) = (if is_reasoning_block d then JObj d
     else JObj (somes (map (\<lambda>(k, v). if is_reasoning_key k then Some (k, v)
       else let child = extract_only_reasoning v in if is_void child then None else Some (k, child)) d)))"
| "extract_only_reasoning (JArr l) = JArr (filter (\<lambda>c. \<not> is_void c) (map extract_only_reasoning l))"
| "extract_only_reasoning j = JNull"

definition extract_reasoning_payload :: "json \<Rightarrow> json option" where
  "extract_reasoning_payload j =
    (let reasoning_only = (case strip_reasoning True j of None \<Rightarrow> JNull | Some c \<Rightarrow> c);
         r = extract_only_reasoning (sanitize_operator_payload True reasoning_only) in
     if is_void r then None else Some r)"

definition get_redacted_reasoning_debug :: "(string \<Rightarrow> string) \<Rightarrow> json \<Rightarrow> json option" where
  "get_redacted_reasoning_debug sub j = map_option (redact_json sub MAX_JSON_DEPTH 0) (extract_reasoning_payload j)"

definition strip_reasoning_keys :: "string list \<Rightarrow> string list" where
  "strip_reasoning_keys keys = filter (\<lambda>k. \<not> is_reasoning_key k) keys"

subsection \<open>The reveal gate\<close>

definition is_hardened_mode :: "env \<Rightarrow> bool" where
  "is_hardened_mode env \<longleftrightarrow> py_strip (py_lower (or_text (env ''OPENCLAW_RUNTIME_PROFILE'') [])) = ''hardened''"

definition is_truthy_flag :: "string option \<Rightarrow> bool" where
  "is_truthy_flag v \<longleftrightarrow> py_lower (py_strip (or_text v [])) \<in> {''1'', ''true'', ''yes'', ''on''}"

definition deployment_profile :: "env \<Rightarrow> string" where
  "deployment_profile env = or_text (Some (py_lower (py_strip (or_text (env ''OPENCLAW_DEPLOYMENT_PROFILE'') [])))) ''local''"

record reveal_decision =
  rd_requested :: bool
  rd_allowed :: bool
  rd_reason :: string

definition resolve_reasoning_reveal :: "(string \<Rightarrow> 128 word option) \<Rightarrow> env \<Rightarrow> request \<Rightarrow> (string \<rightharpoonup> string) \<Rightarrow> bool \<Rightarrow> reveal_decision" where
  "resolve_reasoning_reveal v6 env rq query admin_authorized =
    (let requested = (is_truthy_flag (rq_headers rq ''X-OpenClaw-Debug-Reveal-Reasoning'')
           \<or> is_truthy_flag (rq_headers rq ''X-Moltbot-Debug-Reveal-Reasoning'') \<or> is_truthy_flag (query ''debug_reasoning''));
         env_enabled = is_truthy_flag (case get_env_value env ''OPENCLAW_DEBUG_REASONING_REVEAL'' (Some [''MOLTBOT_DEBUG_REASONING_REVEAL'']) None of
           Inl _ \<Rightarrow> None | Inr v \<Rightarrow> v);
         reason = (if \<not> env_enabled then ''debug_reveal_disabled''
           else if \<not> admin_authorized then ''admin_required''
           else if is_hardened_mode env then ''runtime_profile_hardened''
           else if deployment_profile env \<notin> {''local'', ''lan''} then ''deployment_profile_'' @ deployment_profile env
           else if \<not> is_loopback v6 (get_client_ip v6 env rq) then ''loopback_required'' else ''allowed'')
     in if \<not> requested then \<lparr>rd_requested = False, rd_allowed = False, rd_reason = ''not_requested''\<rparr>
        else \<lparr>rd_requested = True, rd_allowed = (reason = ''allowed''), rd_reason = reason\<rparr>)"

subsection \<open>What the redaction keeps out\<close>

text \<open>Every object is a dict: no key twice.\<close>

abbreviation wf_json :: "json \<Rightarrow> bool" where
  "wf_json \<equiv> everywhere (\<lambda>j. case j of JObj d \<Rightarrow> dict_ok d | _ \<Rightarrow> True)"

definition redacted_here :: "json \<Rightarrow> bool" where
  "redacted_here j \<longleftrightarrow> (case j of JObj d \<Rightarrow> list_all (\<lambda>(k, v). sensitive_key k \<longrightarrow> v = JStr REDACTED) d | _ \<Rightarrow> True)"

definition public_here :: "json \<Rightarrow> bool" where
  "public_here j \<longleftrightarrow> \<not> is_internal_content j \<and> (case j of JObj d \<Rightarrow> \<not> is_reasoning_block d \<and> list_all (\<lambda>k. \<not> is_reasoning_key k) (dkeys d) | _ \<Rightarrow> True)"

lemma redact_json_keys: "dict_ok d \<Longrightarrow> dict_ok (map (\<lambda>(k, v). (k, f k v)) d)"
  by (simp add: split_def comp_def)

lemma redact_json_clean: "everywhere redacted_here (redact_json sub m n j)" "wf_json j \<Longrightarrow> wf_json (redact_json sub m n j)"
proof (induction sub m n j rule: redact_json.induct)
  case (1 sub m n d)
  { case 1 then show ?case using "1.IH"(1) by (auto simp: redacted_here_def list_all_iff) }
  { case 2
    then have "wf_json (redact_json sub m (Suc n) v)" if "(k, v) \<in> set d" "\<not> m < n" "\<not> sensitive_key k" for k v
      using that "1.IH"(2) by auto
    then show ?case using 2 redact_json_keys [of d "\<lambda>k v. if sensitive_key k then JStr REDACTED else redact_json sub m (Suc n) v"] by auto }
next
  case (2 sub m n l)
  { case 1 then show ?case using "2.IH"(1) by (auto simp: redacted_here_def) }
  { case 2 then show ?case using "2.IH"(2) by auto }
qed (auto simp: redacted_here_def split: option.split)

text \<open>A rewritten object: every value by \<open>g\<close>, or its key dropped.\<close>

abbreviation kept :: "('k \<Rightarrow> 'v \<Rightarrow> 'w option) \<Rightarrow> ('k, 'v) dict \<Rightarrow> ('k, 'w) dict" where
  "kept g d \<equiv> somes (map (\<lambda>(k, v). map_option (Pair k) (g k v)) d)"

lemma in_kept: "(k, w) \<in> set (kept g d) \<longleftrightarrow> (\<exists>v. (k, v) \<in> set d \<and> g k v = Some w)"
proof (induction d)
  case (Cons x d)
  then show ?case by (cases x; cases "g (fst x) (snd x)") auto
qed simp

lemma kept_keys: "set (dkeys (kept g d)) \<subseteq> set (dkeys d)"
proof
  fix k assume "k \<in> set (dkeys (kept g d))"
  then obtain w where "(k, w) \<in> set (kept g d)" by auto
  then show "k \<in> set (dkeys d)" unfolding in_kept by force
qed

lemma dict_ok_kept: "dict_ok d \<Longrightarrow> dict_ok (kept g d)"
proof (induction d)
  case (Cons x d)
  obtain k v where [simp]: "x = (k, v)" by (cases x)
  have "k \<notin> set (dkeys (kept g d))" using Cons.prems kept_keys [of g d] by auto
  then show ?case using Cons by (cases "g k v") auto
qed simp

lemma dget_kept: "dict_ok d \<Longrightarrow> dget (kept g d) k = Option.bind (dget d k) (g k)"
proof (induction d)
  case (Cons x d)
  obtain k' v where [simp]: "x = (k', v)" by (cases x)
  have "dget (kept g d) k' = None"
    using Cons.prems kept_keys [of g d] unfolding map_of_eq_None_iff by auto
  then show ?case using Cons by (cases "g k' v") auto
qed simp

lemma drop_internal_leaf [simp]: "drop_internal v = Some (JStr s) \<longleftrightarrow> v = JStr s" "drop_internal v = Some (JBool b) \<longleftrightarrow> v = JBool b"
  by (cases v; simp)+

lemma strip_reasoning_leaf [simp]: "strip_reasoning r v = Some (JStr s) \<longleftrightarrow> v = JStr s" "strip_reasoning r v = Some (JBool b) \<longleftrightarrow> v = JBool b"
  by (cases v; simp)+

lemma drop_internal_clean:
  "drop_internal j = Some c \<Longrightarrow> wf_json j \<Longrightarrow> wf_json c \<and> everywhere (\<lambda>x. \<not> is_internal_content x) c"
proof (induction j arbitrary: c rule: drop_internal.induct)
  case (1 d)
  then have c: "c = JObj (kept (\<lambda>_. drop_internal) d)" and i: "\<not> is_internal_content (JObj d)" and ok: "dict_ok d"
    by (auto split: if_splits)
  have "\<not> is_internal_content c" using i ok by (auto simp: c is_internal_content_def dget_kept bind_eq_Some_conv)
  moreover have "wf_json v \<and> everywhere (\<lambda>x. \<not> is_internal_content x) v" if "(k, v) \<in> set (kept (\<lambda>_. drop_internal) d)" for k v
    using that "1.IH" i "1.prems"(2) unfolding in_kept by fastforce
  ultimately show ?case using ok by (auto simp: c dict_ok_kept)
next
  case (2 l)
  have "wf_json v \<and> everywhere (\<lambda>x. \<not> is_internal_content x) v" if "v \<in> set (somes (map drop_internal l))" for v
    using that "2.IH" "2.prems"(2) by (auto simp: set_somes image_iff)
  then show ?case using "2.prems" by (auto simp: is_internal_content_def)
qed (auto simp: is_internal_content_def)

lemma strip_reasoning_clean:
  "strip_reasoning False j = Some c \<Longrightarrow> wf_json j \<Longrightarrow> everywhere (\<lambda>x. \<not> is_internal_content x) j \<Longrightarrow> wf_json c \<and> everywhere public_here c"
proof (induction j arbitrary: c)
  case (JObj d)
  let ?g = "\<lambda>k v. if is_reasoning_key k then None else strip_reasoning False v"
  from JObj.prems have c: "c = JObj (kept ?g d)" by (auto split: if_splits cong: if_cong)
  from JObj.prems have b: "\<not> is_reasoning_block d" and i: "\<not> is_internal_content (JObj d)" and ok: "dict_ok d"
    by (auto split: if_splits)
  have "\<not> is_internal_content c" using i ok by (auto simp: c is_internal_content_def dget_kept bind_eq_Some_conv split: if_splits)
  moreover have "\<not> is_reasoning_block (kept ?g d)" using b ok
    by (auto simp: is_reasoning_block_def dget_kept split: option.splits json.splits if_splits bind_splits)
  moreover have "list_all (\<lambda>k. \<not> is_reasoning_key k) (dkeys (kept ?g d))"
    unfolding list_all_iff by (auto simp: in_kept split: if_splits)
  moreover have "wf_json v \<and> everywhere public_here v" if "(k, v) \<in> set (kept ?g d)" for k v
    using that JObj.IH JObj.prems(2,3) unfolding in_kept by (fastforce split: if_splits)
  ultimately show ?case using ok by (auto simp: c dict_ok_kept public_here_def [of "JObj _"])
next
  case (JArr l)
  have "wf_json v \<and> everywhere public_here v" if "v \<in> set (somes (map (strip_reasoning False) l))" for v
    using that JArr.IH JArr.prems(2,3) by (auto simp: set_somes image_iff)
  then show ?case using JArr.prems by (auto simp: public_here_def [of "JArr _"] is_internal_content_def)
qed (auto simp: public_here_def is_internal_content_def)

lemma sanitize_operator_payload_clean: "wf_json j \<Longrightarrow> wf_json (sanitize_operator_payload False j) \<and> everywhere public_here (sanitize_operator_payload False j)"
proof -
  assume wf: "wf_json j"
  have i: "wf_json (sanitize_internal_content j) \<and> everywhere (\<lambda>x. \<not> is_internal_content x) (sanitize_internal_content j)"
    using drop_internal_clean [OF _ wf] by (auto simp: sanitize_internal_content_def is_internal_content_def split: option.split)
  then show ?thesis using strip_reasoning_clean [of "sanitize_internal_content j"]
    by (auto simp: sanitize_operator_payload_def public_here_def is_internal_content_def is_reasoning_block_def split: option.split)
qed

lemma redacted_obj [simp]: "redacted_here (JObj d) \<longleftrightarrow> (\<forall>(k, v) \<in> set d. sensitive_key k \<longrightarrow> v = JStr REDACTED)"
  by (auto simp: redacted_here_def list_all_iff)

lemma redacted_other [simp]: "redacted_here (JArr l)" "redacted_here (JStr s)"
  by (simp_all add: redacted_here_def)

lemma drop_internal_redacted: "drop_internal j = Some c \<Longrightarrow> everywhere redacted_here j \<Longrightarrow> everywhere redacted_here c"
proof (induction j arbitrary: c rule: drop_internal.induct)
  case (1 d)
  then have c: "c = JObj (kept (\<lambda>_. drop_internal) d)" and i: "\<not> is_internal_content (JObj d)" by (auto split: if_splits)
  have "everywhere redacted_here w \<and> (sensitive_key k \<longrightarrow> w = JStr REDACTED)" if "(k, w) \<in> set (kept (\<lambda>_. drop_internal) d)" for k w
  proof -
    obtain v where v: "(k, v) \<in> set d" "drop_internal v = Some w" using \<open>_ \<in> set (kept _ d)\<close> unfolding in_kept by blast
    then have "everywhere redacted_here v" "sensitive_key k \<longrightarrow> v = JStr REDACTED" using "1.prems"(2) by auto
    then show ?thesis using v "1.IH" [OF i v(1) refl v(2)] by auto
  qed
  then show ?case by (auto simp: c)
next
  case (2 l)
  have "everywhere redacted_here v" if "v \<in> set (somes (map drop_internal l))" for v
    using that "2.IH" "2.prems"(2) by (auto simp: set_somes image_iff)
  then show ?case using "2.prems" by auto
qed auto

lemma strip_reasoning_redacted: "strip_reasoning r j = Some c \<Longrightarrow> everywhere redacted_here j \<Longrightarrow> everywhere redacted_here c"
proof (induction j arbitrary: c)
  case (JObj d)
  let ?g = "\<lambda>k v. if is_reasoning_key k then (if r then Some v else None) else strip_reasoning r v"
  show ?case
  proof (cases "is_reasoning_block d")
    case False
    then have c: "c = JObj (kept ?g d)" using JObj.prems(1) by (auto cong: if_cong)
    have "everywhere redacted_here w \<and> (sensitive_key k \<longrightarrow> w = JStr REDACTED)" if "(k, w) \<in> set (kept ?g d)" for k w
    proof -
      obtain v where v: "(k, v) \<in> set d" "?g k v = Some w" using \<open>_ \<in> set (kept _ d)\<close> unfolding in_kept by blast
      then have "everywhere redacted_here v" "sensitive_key k \<longrightarrow> v = JStr REDACTED" using JObj.prems(2) by auto
      moreover have "w = v \<or> strip_reasoning r v = Some w" using v(2) by (auto split: if_splits)
      ultimately show ?thesis using JObj.IH [OF v(1), of v w] by auto
    qed
    then show ?thesis by (auto simp: c)
  qed (use JObj.prems in \<open>auto split: if_splits\<close>)
next
  case (JArr l)
  have "everywhere redacted_here v" if "v \<in> set (somes (map (strip_reasoning r) l))" for v
    using that JArr.IH JArr.prems(2) by (auto simp: set_somes image_iff)
  then show ?case using JArr.prems by auto
qed auto

lemma sanitize_operator_payload_redacted:
  "everywhere redacted_here j \<Longrightarrow> everywhere redacted_here (sanitize_operator_payload r j)"
proof -
  assume "everywhere redacted_here j"
  then have "everywhere redacted_here (sanitize_internal_content j)"
    using drop_internal_redacted by (auto simp: sanitize_internal_content_def split: option.split)
  then show ?thesis using strip_reasoning_redacted
    by (auto simp: sanitize_operator_payload_def split: option.split)
qed

text \<open>The reveal of reasoning needs all of its conditions.\<close>

lemma reveal_allowed:
  assumes "rd_allowed (resolve_reasoning_reveal v6 env rq query admin)"
  shows "admin \<and> \<not> is_hardened_mode env \<and> deployment_profile env \<in> {''local'', ''lan''} \<and> is_loopback v6 (get_client_ip v6 env rq)"
  using assms by (auto simp: resolve_reasoning_reveal_def Let_def split: if_splits)

end
