(* ===== verification/Audit_Events.thy ===== *)
theory Audit_Events
  imports Payloads
begin

text \<open>
  \<open>services/audit_events.py\<close>: the budgets on JSON payloads and the builder of audit events,
  which redacts, removes internal content and reasoning, and then applies the budgets.
  Integers stand for numbers of bytes; the time stamp is a text argument.
\<close>

record budgets =
  bg_bytes :: nat
  bg_depth :: nat
  bg_items :: nat
  bg_chars :: nat

definition MAX_AUDIT_EVENT_BYTES :: nat where "MAX_AUDIT_EVENT_BYTES = 8192"

definition payload_budgets :: budgets where
  "payload_budgets = \<lparr>bg_bytes = MAX_AUDIT_EVENT_BYTES div 2, bg_depth = 8, bg_items = 200, bg_chars = 2000\<rparr>"

definition meta_budgets :: budgets where
  "meta_budgets = \<lparr>bg_bytes = 512, bg_depth = 4, bg_items = 20, bg_chars = 200\<rparr>"

definition truncated_mark :: "string \<Rightarrow> (string \<times> json) list \<Rightarrow> json" where
  "truncated_mark reason extra = JObj ([(''_truncated'', JBool True), (''reason'', JStr reason)] @ extra)"

definition depth_mark :: json where
  "depth_mark = truncated_mark ''max_depth_exceeded'' []"

definition apply_root_max_bytes :: "(json \<Rightarrow> nat option) \<Rightarrow> budgets \<Rightarrow> nat \<Rightarrow> json \<Rightarrow> json" where
  "apply_root_max_bytes size_of b n v = (if n \<noteq> 0 then v else case size_of v of
     Some s \<Rightarrow> if s > bg_bytes b then truncated_mark ''max_bytes_exceeded'' [(''original_size'', JInt (int s)), (''budget'', JInt (int (bg_bytes b)))] else v
   | None \<Rightarrow> v)"

definition budget_text :: "budgets \<Rightarrow> string \<Rightarrow> string" where
  "budget_text b s = (if length s > bg_chars b then take (bg_chars b) s @ ''... [truncated]'' else s)"

function budget_json :: "(json \<Rightarrow> nat option) \<Rightarrow> budgets \<Rightarrow> nat \<Rightarrow> json \<Rightarrow> json" where
  "budget_json size_of b n j =
    (if n \<ge> bg_depth b then depth_mark
     else case j of
       JStr s \<Rightarrow> apply_root_max_bytes size_of b n (JStr (budget_text b s))
     | JArr l \<Rightarrow> apply_root_max_bytes size_of b n (JArr (if length l > bg_items b
         then map (budget_json size_of b (Suc n)) (take (bg_items b) l)
           @ [truncated_mark ''max_items_exceeded'' [(''total_items'', JInt (int (length l)))]]
         else map (budget_json size_of b (Suc n)) l))
     | JObj d \<Rightarrow> apply_root_max_bytes size_of b n (JObj (if length d > bg_items b
         then dput ''_total_keys'' (JInt (int (length d))) (dput ''_reason'' (JStr ''max_keys_exceeded'') (dput ''_truncated'' (JBool True)
           (map (\<lambda>(k, v). (k, budget_json size_of b (Suc n) v)) (take (bg_items b) (sort_key fst d)))))
         else map (\<lambda>(k, v). (k, budget_json size_of b (Suc n) v)) d))
     | _ \<Rightarrow> j)"
  by pat_completeness auto

termination
  by (relation "measure (\<lambda>(size_of, b, n, j). bg_depth b - n)") auto

declare budget_json.simps [simp del]

definition put_text :: "string \<Rightarrow> string option \<Rightarrow> (string \<times> json) list \<Rightarrow> (string \<times> json) list" where
  "put_text key v e = (case v of None \<Rightarrow> e | Some t \<Rightarrow> if t = [] then e else dput key (JStr t) e)"

definition audit_envelope :: "string \<Rightarrow> string \<Rightarrow> string option \<Rightarrow> string option \<Rightarrow> string option \<Rightarrow> (string \<times> json) list" where
  "audit_envelope ts event_type trace_id provider model = put_text ''model'' model (put_text ''provider'' provider (put_text ''trace_id'' trace_id
     [(''schema_version'', JInt 1), (''event_type'', JStr event_type), (''ts'', JStr ts)]))"

text \<open>The payload and the metadata are objects; an empty one is absent.\<close>

definition build_audit_event ::
  "(string \<Rightarrow> string) \<Rightarrow> (json \<Rightarrow> nat option) \<Rightarrow> string \<Rightarrow> string \<Rightarrow> string option \<Rightarrow> string option \<Rightarrow> string option
    \<Rightarrow> (string \<times> json) list \<Rightarrow> (string \<times> json) list \<Rightarrow> (string \<times> json) list" where
  "build_audit_event sub size_of ts event_type trace_id provider model payload meta =
    (let event = audit_envelope ts event_type trace_id provider model;
         event = (if payload = [] then event else dput ''payload'' (budget_json size_of payload_budgets 0
           (sanitize_operator_payload False (redact_json sub MAX_JSON_DEPTH 0 (JObj payload)))) event);
         event = (if meta = [] then event else dput ''meta'' (budget_json size_of meta_budgets 0 (sanitize_operator_payload False (JObj meta))) event)
     in case size_of (JObj event) of
          None \<Rightarrow> [(''schema_version'', JInt 1), (''event_type'', JStr event_type), (''ts'', JStr ts),
            (''payload'', JObj [(''_error'', JStr ''serialization_failed'')])]
        | Some s \<Rightarrow> if s > MAX_AUDIT_EVENT_BYTES
            then dput ''payload'' (truncated_mark ''budget_exceeded'' [(''original_size'', JInt (int s))]) event else event)"

subsection \<open>The budgets\<close>

definition budget_fields :: "(json \<Rightarrow> nat option) \<Rightarrow> budgets \<Rightarrow> nat \<Rightarrow> (string \<times> json) list \<Rightarrow> (string \<times> json) list" where
  "budget_fields size_of b n d = (if length d > bg_items b
     then dput ''_total_keys'' (JInt (int (length d))) (dput ''_reason'' (JStr ''max_keys_exceeded'') (dput ''_truncated'' (JBool True)
       (map (\<lambda>(k, v). (k, budget_json size_of b (Suc n) v)) (take (bg_items b) (sort_key fst d)))))
     else map (\<lambda>(k, v). (k, budget_json size_of b (Suc n) v)) d)"

definition budget_items :: "(json \<Rightarrow> nat option) \<Rightarrow> budgets \<Rightarrow> nat \<Rightarrow> json list \<Rightarrow> json list" where
  "budget_items size_of b n l = (if length l > bg_items b
     then map (budget_json size_of b (Suc n)) (take (bg_items b) l) @ [truncated_mark ''max_items_exceeded'' [(''total_items'', JInt (int (length l)))]]
     else map (budget_json size_of b (Suc n)) l)"

lemma budget_json_deep: "n \<ge> bg_depth b \<Longrightarrow> budget_json size_of b n j = depth_mark"
  by (subst budget_json.simps) simp

lemma budget_json_cases: "n < bg_depth b \<Longrightarrow> budget_json size_of b n j = (case j of
    JStr s \<Rightarrow> apply_root_max_bytes size_of b n (JStr (budget_text b s))
  | JArr l \<Rightarrow> apply_root_max_bytes size_of b n (JArr (budget_items size_of b n l))
  | JObj d \<Rightarrow> apply_root_max_bytes size_of b n (JObj (budget_fields size_of b n d)) | _ \<Rightarrow> j)"
  unfolding budget_fields_def budget_items_def by (subst budget_json.simps) simp

text \<open>The values that stand for something cut off.\<close>

definition cut_marks :: "json set" where
  "cut_marks = {depth_mark} \<union> (\<lambda>s. truncated_mark ''max_items_exceeded'' [(''total_items'', JInt s)]) ` UNIV
     \<union> (\<lambda>(s, t). truncated_mark ''max_bytes_exceeded'' [(''original_size'', JInt s), (''budget'', JInt t)]) ` UNIV"

lemma apply_root_or: "apply_root_max_bytes size_of b n v = v \<or> apply_root_max_bytes size_of b n v \<in> cut_marks"
  by (auto simp: apply_root_max_bytes_def cut_marks_def image_iff split: option.split)

lemma depth_mark_cut [simp]: "depth_mark \<in> cut_marks"
  by (simp add: cut_marks_def)

lemma set_fields: "(k, w) \<in> set (budget_fields size_of b n d) \<Longrightarrow>
    k \<in> {''_truncated'', ''_reason'', ''_total_keys''} \<and> (\<exists>i. w \<in> {JBool True, JStr ''max_keys_exceeded'', JInt i})
    \<or> (\<exists>v. (k, v) \<in> set d \<and> w = budget_json size_of b (Suc n) v)"
proof -
  have put: "x \<in> set (dput key a e) \<Longrightarrow> x = (key, a) \<or> x \<in> set e" for x key a and e :: "(string \<times> json) list"
    by (induction e) (auto split: if_splits)
  assume "(k, w) \<in> set (budget_fields size_of b n d)"
  then have "(k, w) \<in> set (map (\<lambda>(k, v). (k, budget_json size_of b (Suc n) v)) d)
      \<or> (k, w) \<in> set (map (\<lambda>(k, v). (k, budget_json size_of b (Suc n) v)) (take (bg_items b) (sort_key fst d)))
      \<or> k \<in> {''_truncated'', ''_reason'', ''_total_keys''} \<and> (\<exists>i. w \<in> {JBool True, JStr ''max_keys_exceeded'', JInt i})"
    by (auto simp only: budget_fields_def prod.inject insert_iff simp_thms dest!: put split: if_splits)
  moreover have "set (take (bg_items b) (sort_key fst d)) \<subseteq> set d" using set_take_subset [of _ "sort_key fst d"] by simp
  ultimately show ?thesis by auto
qed

lemma set_items: "w \<in> set (budget_items size_of b n l) \<Longrightarrow> w \<in> cut_marks \<or> (\<exists>v \<in> set l. w = budget_json size_of b (Suc n) v)"
  by (auto simp: budget_items_def cut_marks_def image_iff dest: in_set_takeD split: if_splits)

text \<open>A test that holds of the marks, the leaves and the rewritten containers holds everywhere.\<close>

lemma budget_everywhere:
  assumes marks: "\<And>m. m \<in> cut_marks \<Longrightarrow> everywhere P m" and leaf: "P JNull" "\<And>c. P (JBool c)" "\<And>i. P (JInt i)" "\<And>x. P (JFloat x)"
    and strs: "\<And>s. P (JStr (budget_text b s))" "P (JStr ''max_keys_exceeded'')"
    and arr: "\<And>l n. P (JArr (budget_items size_of b n l))" and obj: "\<And>d n. Q (JObj d) \<Longrightarrow> P (JObj (budget_fields size_of b n d))"
  shows "everywhere Q j \<Longrightarrow> everywhere P (budget_json size_of b n j)"
proof (induction j arbitrary: n)
  case (JArr l)
  show ?case
  proof (cases "n < bg_depth b")
    case True
    have "everywhere P w" if "w \<in> set (budget_items size_of b n l)" for w
      using set_items [OF that] JArr marks by auto
    then show ?thesis using apply_root_or [of size_of b n "JArr (budget_items size_of b n l)"] marks arr
      by (auto simp: budget_json_cases True)
  qed (simp add: budget_json_deep marks)
next
  case (JObj d)
  show ?case
  proof (cases "n < bg_depth b")
    case True
    have "everywhere P w" if "(k, w) \<in> set (budget_fields size_of b n d)" for k w
      using set_fields [OF that] JObj leaf strs(2) by fastforce
    then show ?thesis using apply_root_or [of size_of b n "JObj (budget_fields size_of b n d)"] marks obj JObj.prems
      by (auto simp: budget_json_cases True)
  qed (simp add: budget_json_deep marks)
next
  case (JStr s)
  then show ?case using apply_root_or [of size_of b n "JStr (budget_text b s)"] marks strs
    by (cases "n < bg_depth b") (auto simp: budget_json_cases budget_json_deep)
qed (simp_all add: budget_json.simps marks leaf)

definition fits :: "budgets \<Rightarrow> json \<Rightarrow> bool" where
  "fits b j \<longleftrightarrow> (case j of JStr s \<Rightarrow> length s \<le> bg_chars b + 15 | JArr l \<Rightarrow> length l \<le> bg_items b + 1
     | JObj d \<Rightarrow> length d \<le> bg_items b + 4 | _ \<Rightarrow> True)"

lemma length_dput_steps: "length (dput k v (dput k' v' (dput k'' v'' d))) \<le> length d + 3"
  using length_dput_le [of k v "dput k' v' (dput k'' v'' d)"] length_dput_le [of k' v' "dput k'' v'' d"] length_dput_le [of k'' v'' d]
  by linarith

lemma budget_fits: "3 \<le> bg_chars b \<Longrightarrow> everywhere (fits b) (budget_json size_of b n j)"
proof (rule budget_everywhere [where Q = "\<lambda>_. True"])
  assume c: "3 \<le> bg_chars b"
  show "everywhere (fits b) m" if "m \<in> cut_marks" for m
    using that c by (auto simp: cut_marks_def depth_mark_def truncated_mark_def fits_def)
  show "fits b (JObj (budget_fields size_of b n d))" for d n
    using length_dput_steps by (auto simp: fits_def budget_fields_def intro: order_trans [OF length_dput_steps])
  show "everywhere (\<lambda>_. True) j" by (induction j) auto
qed (auto simp: fits_def budget_text_def budget_items_def)

lemma cut_marks_depth: "m \<in> cut_marks \<Longrightarrow> depth m = 1"
  by (auto simp: cut_marks_def depth_mark_def truncated_mark_def)

lemma budget_depth: "depth (budget_json size_of b n j) \<le> Suc (bg_depth b - n)"
proof (induction j arbitrary: n)
  case (JArr l)
  show ?case
  proof (cases "n < bg_depth b")
    case True
    then obtain m where m: "bg_depth b - n = Suc m" "bg_depth b - Suc n = m" by (metis Suc_diff_Suc)
    have "depth w \<le> Suc m" if "w \<in> set (budget_items size_of b n l)" for w
      using set_items [OF that] JArr.IH [of _ "Suc n"] by (auto simp: cut_marks_depth m)
    then show ?thesis using apply_root_or [of size_of b n "JArr (budget_items size_of b n l)"]
      by (auto simp: budget_json_cases True m depth_le cut_marks_depth simp del: depth.simps)
  qed (simp add: budget_json_deep cut_marks_depth)
next
  case (JObj d)
  show ?case
  proof (cases "n < bg_depth b")
    case True
    then obtain m where m: "bg_depth b - n = Suc m" "bg_depth b - Suc n = m" by (metis Suc_diff_Suc)
    have "depth w \<le> Suc m" if "(k, w) \<in> set (budget_fields size_of b n d)" for k w
      using set_fields [OF that] JObj.IH [of _ _ "Suc n"] by (fastforce simp: m)
    then show ?thesis using apply_root_or [of size_of b n "JObj (budget_fields size_of b n d)"]
      by (auto simp: budget_json_cases True m depth_le cut_marks_depth simp del: depth.simps)
  qed (simp add: budget_json_deep cut_marks_depth)
next
  case (JStr s)
  then show ?case using apply_root_or [of size_of b n "JStr (budget_text b s)"]
    by (cases "n < bg_depth b") (auto simp: budget_json_cases budget_json_deep cut_marks_depth)
qed (simp_all add: budget_json.simps cut_marks_depth)

text \<open>A sensitive key has the redaction marker, or the mark of a value that was too deep.\<close>

definition masked_here :: "json \<Rightarrow> bool" where
  "masked_here j \<longleftrightarrow> (case j of JObj d \<Rightarrow> list_all (\<lambda>(k, v). sensitive_key k \<longrightarrow> v \<in> {JStr REDACTED, depth_mark}) d | _ \<Rightarrow> True)"

lemma masked_obj [simp]: "masked_here (JObj d) \<longleftrightarrow> (\<forall>(k, v) \<in> set d. sensitive_key k \<longrightarrow> v = JStr REDACTED \<or> v = depth_mark)"
  by (auto simp: masked_here_def list_all_iff)

lemma masked_other [simp]: "masked_here (JArr l)" "masked_here (JStr s)" "masked_here (JBool c)" "masked_here (JInt i)" "masked_here (JFloat x)" "masked_here JNull"
  by (simp_all add: masked_here_def)

lemma plain_keys [simp]: "\<not> sensitive_key ''_truncated''" "\<not> sensitive_key ''_reason''" "\<not> sensitive_key ''_total_keys''" "\<not> sensitive_key ''reason''"
  "\<not> sensitive_key ''total_items''" "\<not> sensitive_key ''original_size''" "\<not> sensitive_key ''budget''"
  by code_simp+

lemma budget_redacted: "14 \<le> bg_chars b \<Longrightarrow> budget_json size_of b (Suc n) (JStr REDACTED) \<in> {JStr REDACTED, depth_mark}"
  by (cases "Suc n < bg_depth b") (auto simp: budget_json_cases budget_json_deep apply_root_max_bytes_def budget_text_def REDACTED_def)

lemma budget_masked: "14 \<le> bg_chars b \<Longrightarrow> everywhere redacted_here j \<Longrightarrow> everywhere masked_here (budget_json size_of b n j)"
proof (rule budget_everywhere [where Q = redacted_here])
  assume c: "14 \<le> bg_chars b"
  show "everywhere masked_here m" if "m \<in> cut_marks" for m
    using that by (auto simp: cut_marks_def depth_mark_def truncated_mark_def)
  show "masked_here (JObj (budget_fields size_of b n d))" if "redacted_here (JObj d)" for d n
  proof -
    have "w = JStr REDACTED \<or> w = depth_mark" if w: "(k, w) \<in> set (budget_fields size_of b n d)" and k: "sensitive_key k" for k w
      using set_fields [OF w] k \<open>redacted_here (JObj d)\<close> budget_redacted [OF c, of size_of n] by auto
    then show ?thesis by auto
  qed
qed simp_all

lemma dget_fields:
  assumes "dget (budget_fields size_of b n d) k = Some w" and "k \<notin> {''_truncated'', ''_reason'', ''_total_keys''}" and "dict_ok d"
  shows "\<exists>v. dget d k = Some v \<and> w = budget_json size_of b (Suc n) v"
proof -
  have "(k, w) \<in> set (budget_fields size_of b n d)" using assms(1) by (rule dget_in)
  then obtain v where "(k, v) \<in> set d" "w = budget_json size_of b (Suc n) v" using set_fields assms(2) by blast
  then show ?thesis using assms(3) by (auto simp: dget_iff)
qed

lemma budget_leaf:
  "budget_json size_of b (Suc n) v = JBool c \<Longrightarrow> v = JBool c"
  "budget_json size_of b (Suc n) v = JStr t \<Longrightarrow> \<exists>s. v = JStr s \<and> t = budget_text b s"
  by (cases "Suc n < bg_depth b"; cases v; simp add: budget_json_cases budget_json_deep apply_root_max_bytes_def depth_mark_def truncated_mark_def)+

lemma in_py_strip: "c \<in> set s \<Longrightarrow> \<not> is_space c \<Longrightarrow> c \<in> set (py_strip s)"
proof -
  have d: "c \<in> set (dropWhile is_space t)" if "c \<in> set t" "\<not> is_space c" for t
    using that by (induction t) auto
  assume "c \<in> set s" "\<not> is_space c"
  then show ?thesis using d [of "rev (dropWhile is_space s)"] d [of s] by (simp add: py_strip_def)
qed

text \<open>A text that was cut off keeps its closing bracket, so it is none of the markers.\<close>

lemma cut_text:
  assumes "budget_text b s \<noteq> s"
  shows "CHR '']'' \<in> set (normalize_json_key (budget_text b s))" and "CHR '']'' \<in> set (budget_text b s)"
proof -
  show b: "CHR '']'' \<in> set (budget_text b s)" using assms by (auto simp: budget_text_def split: if_splits)
  have "\<not> is_space (CHR '']'')" "lower_char (CHR '']'') = CHR '']''" by code_simp+
  then have "CHR '']'' \<in> set (py_lower (py_strip (budget_text b s)))"
    using in_py_strip [OF b] by (force simp: py_lower_def image_iff)
  then show "CHR '']'' \<in> set (normalize_json_key (budget_text b s))"
    by (force simp: normalize_json_key_def replace_char_def image_iff)
qed

lemma bracket_free: "t \<in> set REASONING_BLOCK_TYPES \<Longrightarrow> CHR '']'' \<notin> set t" "CHR '']'' \<notin> set INTERNAL_CONTENT_ORIGIN"
  by (auto simp: REASONING_BLOCK_TYPES_def INTERNAL_CONTENT_ORIGIN_def)

lemma key_public [simp]: "\<not> is_reasoning_key ''_truncated''" "\<not> is_reasoning_key ''_reason''" "\<not> is_reasoning_key ''_total_keys''" "\<not> is_reasoning_key ''reason''"
  "\<not> is_reasoning_key ''total_items''" "\<not> is_reasoning_key ''original_size''" "\<not> is_reasoning_key ''budget''"
  by code_simp+

lemma public_here_obj:
  "public_here (JObj d) \<longleftrightarrow> dget d INTERNAL_CONTENT_FLAG \<noteq> Some (JBool True) \<and> dget d ''origin'' \<noteq> Some (JStr INTERNAL_CONTENT_ORIGIN)
    \<and> \<not> is_reasoning_block d \<and> (\<forall>k \<in> set (dkeys d). \<not> is_reasoning_key k)"
  by (auto simp: public_here_def is_internal_content_def list_all_iff)

lemma public_here_other [simp]: "public_here (JArr l)" "public_here (JStr s)" "public_here (JBool c)" "public_here (JInt i)" "public_here (JFloat x)" "public_here JNull"
  by (simp_all add: public_here_def is_internal_content_def)

lemma fields_public:
  assumes "dict_ok d" and "public_here (JObj d)"
  shows "public_here (JObj (budget_fields size_of b n d))"
  unfolding public_here_obj
proof (intro conjI notI ballI)
  note from_d = dget_fields [OF _ _ assms(1), of size_of b n]
  note p = assms(2) [unfolded public_here_obj]
  have flag: "INTERNAL_CONTENT_FLAG \<notin> {''_truncated'', ''_reason'', ''_total_keys''}" by (simp add: INTERNAL_CONTENT_FLAG_def)
  show False if "dget (budget_fields size_of b n d) INTERNAL_CONTENT_FLAG = Some (JBool True)"
    using from_d [OF that flag] p budget_leaf(1) by metis
  show False if "dget (budget_fields size_of b n d) ''origin'' = Some (JStr INTERNAL_CONTENT_ORIGIN)"
  proof -
    obtain v where v: "dget d ''origin'' = Some v" "JStr INTERNAL_CONTENT_ORIGIN = budget_json size_of b (Suc n) v"
      using from_d [OF \<open>dget _ ''origin'' = _\<close>] by auto
    then obtain s where s: "dget d ''origin'' = Some (JStr s)" "INTERNAL_CONTENT_ORIGIN = budget_text b s" using budget_leaf(2) by metis
    then show False using p cut_text(2) [of b s] bracket_free(2) by metis
  qed
  show False if block: "is_reasoning_block (budget_fields size_of b n d)"
  proof -
    obtain t where t: "dget (budget_fields size_of b n d) ''type'' = Some (JStr t)" "normalize_json_key t \<in> set REASONING_BLOCK_TYPES"
      using block by (auto simp: is_reasoning_block_def split: option.splits json.splits)
    obtain v where v: "dget d ''type'' = Some v" "JStr t = budget_json size_of b (Suc n) v" using from_d [OF t(1)] by auto
    then obtain s where s: "v = JStr s" "t = budget_text b s" using budget_leaf(2) by metis
    have "budget_text b s = s" using t(2) cut_text(1) [of b s] bracket_free(1) s(2) by blast
    then show False using t(2) s v(1) p by (simp add: is_reasoning_block_def)
  qed
  show False if "k \<in> set (dkeys (budget_fields size_of b n d))" "is_reasoning_key k" for k
  proof -
    obtain w where "(k, w) \<in> set (budget_fields size_of b n d)" using \<open>k \<in> set (dkeys _)\<close> by auto
    then show False using set_fields [of k w] p that(2) by force
  qed
qed

lemma cut_marks_public: "m \<in> cut_marks \<Longrightarrow> everywhere public_here m"
  by (auto simp: cut_marks_def depth_mark_def truncated_mark_def public_here_obj is_reasoning_block_def INTERNAL_CONTENT_FLAG_def)

lemma everywhere_conj: "everywhere P j \<Longrightarrow> everywhere Q j \<Longrightarrow> everywhere (\<lambda>x. P x \<and> Q x) j"
proof (induction j)
  case (JObj d)
  then have "everywhere (\<lambda>x. P x \<and> Q x) v" if "(k, v) \<in> set d" for k v using that by fastforce
  then show ?case using JObj.prems by auto
qed auto

lemma budget_public:
  assumes "wf_json j" and "everywhere public_here j"
  shows "everywhere public_here (budget_json size_of b n j)"
  by (rule budget_everywhere [OF _ _ _ _ _ _ _ _ _ everywhere_conj [OF assms]]) (auto simp: cut_marks_public intro: fields_public)

subsection \<open>Events\<close>

definition payload_safe :: "json \<Rightarrow> bool" where
  "payload_safe p \<longleftrightarrow> everywhere masked_here p \<and> everywhere public_here p \<and> everywhere (fits payload_budgets) p \<and> depth p \<le> 9"

lemma built_payload_safe:
  "wf_json j \<Longrightarrow> payload_safe (budget_json size_of payload_budgets 0 (sanitize_operator_payload False (redact_json sub MAX_JSON_DEPTH 0 j)))"
  using redact_json_clean(1) [of sub MAX_JSON_DEPTH 0 j] redact_json_clean(2) [of j sub MAX_JSON_DEPTH 0]
    sanitize_operator_payload_clean sanitize_operator_payload_redacted
    budget_masked [of payload_budgets] budget_public budget_fits [of payload_budgets] budget_depth [of size_of payload_budgets 0]
  by (simp add: payload_safe_def payload_budgets_def)

lemma mark_safe: "payload_safe (truncated_mark ''budget_exceeded'' [(''original_size'', JInt i)])" "payload_safe (JObj [(''_error'', JStr ''serialization_failed'')])"
proof -
  have "\<not> sensitive_key ''_error''" "\<not> is_reasoning_key ''_error''" by code_simp+
  then show "payload_safe (truncated_mark ''budget_exceeded'' [(''original_size'', JInt i)])" "payload_safe (JObj [(''_error'', JStr ''serialization_failed'')])"
    by (simp_all add: payload_safe_def truncated_mark_def public_here_obj is_reasoning_block_def INTERNAL_CONTENT_FLAG_def fits_def payload_budgets_def)
qed

text \<open>
  C20: Nothing sensitive leaves in the payload of an audit event: at every depth the value of a sensitive
  key is replaced by the redaction marker (or cut off), there is no internal content, no
  reasoning field and no reasoning block, even where the budgets rewrite or cut the values, and
  texts, lists, objects and nesting stay within the budgets.
\<close>

theorem audit_payload_safe:
  assumes "wf_json (JObj payload)"
  shows "case dget (build_audit_event sub size_of ts event_type trace_id provider model payload meta) ''payload'' of
      None \<Rightarrow> payload = [] | Some p \<Rightarrow> payload_safe p"
proof -
  let ?env = "audit_envelope ts event_type trace_id provider model"
  let ?p = "budget_json size_of payload_budgets 0 (sanitize_operator_payload False (redact_json sub MAX_JSON_DEPTH 0 (JObj payload)))"
  let ?m = "budget_json size_of meta_budgets 0 (sanitize_operator_payload False (JObj meta))"
  have env: "dget ?env ''payload'' = None"
    by (simp add: audit_envelope_def put_text_def dict_simps split: option.split)
  define e where "e = (if payload = [] then ?env else dput ''payload'' ?p ?env)"
  define f where "f = (if meta = [] then e else dput ''meta'' ?m e)"
  have f: "dget f ''payload'' = (if payload = [] then None else Some ?p)" by (simp add: f_def e_def env dict_simps)
  have "build_audit_event sub size_of ts event_type trace_id provider model payload meta = (case size_of (JObj f) of
      None \<Rightarrow> [(''schema_version'', JInt 1), (''event_type'', JStr event_type), (''ts'', JStr ts), (''payload'', JObj [(''_error'', JStr ''serialization_failed'')])]
    | Some s \<Rightarrow> if s > MAX_AUDIT_EVENT_BYTES then dput ''payload'' (truncated_mark ''budget_exceeded'' [(''original_size'', JInt (int s))]) f else f)"
    unfolding build_audit_event_def Let_def f_def e_def ..
  then show ?thesis using built_payload_safe [OF assms, of size_of sub] mark_safe
    by (simp add: f dict_simps split: option.split)
qed

definition demo_payload :: "(string \<times> json) list" where
  "demo_payload = [(''api_key'', JStr ''k''), (''thinking'', JStr ''x''), (''n'', JArr [JObj [(''Token'', JObj [])]])]"

definition demo_public :: json where
  "demo_public = JObj [(''api_key'', JStr REDACTED), (''n'', JArr [JObj [(''Token'', JStr REDACTED)]])]"

lemma demo_keys: "sensitive_key ''api_key''" "sensitive_key ''Token''" "\<not> sensitive_key ''thinking''" "\<not> sensitive_key ''n''"
  "is_reasoning_key ''thinking''" "\<not> is_reasoning_key ''api_key''" "\<not> is_reasoning_key ''n''" "\<not> is_reasoning_key ''Token''"
  by code_simp+

lemma demo_sanitized: "sanitize_operator_payload False (redact_json id MAX_JSON_DEPTH 0 (JObj demo_payload)) = demo_public"
  by (simp add: demo_payload_def demo_public_def sanitize_operator_payload_def sanitize_internal_content_def is_internal_content_def
      INTERNAL_CONTENT_FLAG_def is_reasoning_block_def demo_keys MAX_JSON_DEPTH_def redact_text_def MAX_TEXT_SIZE_def)

lemma budget_json_values:
  "n < bg_depth b \<Longrightarrow> budget_json size_of b n (JStr s) = apply_root_max_bytes size_of b n (JStr (budget_text b s))"
  "n < bg_depth b \<Longrightarrow> budget_json size_of b n (JArr l) = apply_root_max_bytes size_of b n (JArr (budget_items size_of b n l))"
  "n < bg_depth b \<Longrightarrow> budget_json size_of b n (JObj d) = apply_root_max_bytes size_of b n (JObj (budget_fields size_of b n d))"
  by (simp_all add: budget_json_cases)

lemma demo_budgeted: "budget_json (\<lambda>_. Some 1) payload_budgets 0 demo_public = demo_public"
  by (simp add: demo_public_def budget_json_values budget_fields_def budget_items_def apply_root_max_bytes_def payload_budgets_def budget_text_def REDACTED_def MAX_AUDIT_EVENT_BYTES_def)

theorem audit_payload_safe_witness:
  "dget (build_audit_event id (\<lambda>_. Some 1) ''t'' ''llm.request'' None None None demo_payload []) ''payload'' = Some demo_public \<and> payload_safe demo_public"
proof -
  have "dget (build_audit_event id (\<lambda>_. Some 1) ''t'' ''llm.request'' None None None demo_payload []) ''payload'' = Some demo_public"
    using demo_sanitized demo_budgeted by (simp add: build_audit_event_def Let_def MAX_AUDIT_EVENT_BYTES_def audit_envelope_def put_text_def) (simp add: demo_payload_def)
  moreover have "wf_json (JObj demo_payload)" by (simp add: demo_payload_def)
  ultimately show ?thesis using audit_payload_safe [of demo_payload id "\<lambda>_. Some 1" "''t''" "''llm.request''" None None None "[]"] by simp
qed

text \<open>The metadata of an event is not redacted.\<close>

lemma meta_not_redacted:
  "dget (build_audit_event id (\<lambda>_. Some 1) ts ev None None None [] [(''api_key'', JStr ''k'')]) ''meta'' = Some (JObj [(''api_key'', JStr ''k'')])"
  by (simp add: build_audit_event_def audit_envelope_def put_text_def Let_def MAX_AUDIT_EVENT_BYTES_def sanitize_operator_payload_def sanitize_internal_content_def is_internal_content_def
      INTERNAL_CONTENT_FLAG_def is_reasoning_block_def demo_keys budget_json_values budget_fields_def apply_root_max_bytes_def meta_budgets_def budget_text_def)

end
