(* ===== verification/Schema_Sanitizer.thy ===== *)
theory Schema_Sanitizer
  imports Payloads
begin

text \<open>
  \<open>services/schema_sanitizer.py\<close>: JSON schemas of tools are rewritten into a bounded form with
  known keywords only. The typing judgement \<open>schema_type\<close> says what that form is; the
  sanitizer is shown to produce it from any JSON value. The \<open>str\<close> of a value that is no text
  (\<open>str_of\<close>) and the number of bytes of a serialised value (\<open>size_of\<close>) are arguments.
\<close>

definition MAX_DEPTH :: nat where "MAX_DEPTH = 10"
definition MAX_PROPERTIES :: nat where "MAX_PROPERTIES = 200"
definition MAX_ITEMS :: nat where "MAX_ITEMS = 200"
definition MAX_STRING_LENGTH :: nat where "MAX_STRING_LENGTH = 10000"
definition MAX_SCHEMA_BYTES :: nat where "MAX_SCHEMA_BYTES = 256000"

definition STRIP_KEYWORDS :: "string list" where
  "STRIP_KEYWORDS = [''patternProperties'', ''dependentSchemas'', ''unevaluatedProperties'', ''unevaluatedItems'', ''$id'', ''$schema'',
     ''$defs'', ''definitions'']"

definition CONSTRAINT_KEYWORDS :: "string list" where
  "CONSTRAINT_KEYWORDS = [''title'', ''default'', ''const'', ''format'', ''pattern'', ''minimum'', ''maximum'', ''minLength'', ''maxLength'',
     ''minItems'', ''maxItems'', ''minProperties'', ''maxProperties'', ''multipleOf'', ''exclusiveMinimum'', ''exclusiveMaximum'']"

lemma json_size: "x \<in> set l \<Longrightarrow> size x < Suc (size_list size l)" "(k, v) \<in> set d \<Longrightarrow> size v < Suc (size_list (size_prod (\<lambda>_. 0) size) d)"
proof -
  show "x \<in> set l \<Longrightarrow> size x < Suc (size_list size l)" using size_list_estimation' [of x l "size x" size] by (simp add: less_Suc_eq_le)
  show "(k, v) \<in> set d \<Longrightarrow> size v < Suc (size_list (size_prod (\<lambda>_. 0) size) d)"
    using size_list_estimation' [of "(k, v)" d "size v" "size_prod (\<lambda>_. 0) size"] by (simp add: less_Suc_eq_le)
qed

function sanitize_primitive :: "json \<Rightarrow> json" where
  "sanitize_primitive j = (case j of
     JStr s \<Rightarrow> JStr (take MAX_STRING_LENGTH s)
   | JArr l \<Rightarrow> JArr (map sanitize_primitive (take 100 l))
   | JObj d \<Rightarrow> JObj (map (\<lambda>(k, v). (k, sanitize_primitive v)) (take 50 (sort_key fst d)))
   | _ \<Rightarrow> j)"
  by pat_completeness auto

termination
  by (relation "measure size") (auto dest!: in_set_takeD intro: json_size)

declare sanitize_primitive.simps [simp del]

definition is_text :: "json \<Rightarrow> bool" where
  "is_text j = (case j of JStr _ \<Rightarrow> True | _ \<Rightarrow> False)"

definition text_of :: "json \<Rightarrow> string" where
  "text_of j = (case j of JStr s \<Rightarrow> s | _ \<Rightarrow> [])"

text \<open>What one keyword of a schema contributes to the result; \<open>rec\<close> is the sanitizer one level down.\<close>

definition schema_field :: "(json \<Rightarrow> (string \<times> json) list) \<Rightarrow> nat \<Rightarrow> string \<Rightarrow> json \<Rightarrow> (string \<times> json) list" where
  "schema_field rec n key v =
    (if key \<in> set STRIP_KEYWORDS then []
     else if key = ''type'' then
       (case v of JStr s \<Rightarrow> [(key, v)] | JArr l \<Rightarrow> [(key, JArr (take 5 (filter is_text l)))] | _ \<Rightarrow> [])
     else if key = ''properties'' then
       (case v of JObj d \<Rightarrow> [(key, JObj (map (\<lambda>(k, s). (k, JObj (rec s))) (take MAX_PROPERTIES (sort_key fst d))))] | _ \<Rightarrow> [])
     else if key = ''items'' then
       (case v of JObj d \<Rightarrow> [(key, JObj (rec v))] | JArr l \<Rightarrow> [(key, JArr (map (\<lambda>s. JObj (rec s)) (take MAX_ITEMS l)))] | _ \<Rightarrow> [])
     else if key \<in> {''anyOf'', ''oneOf'', ''allOf''} then
       (case v of JArr l \<Rightarrow> if n \<le> MAX_DEPTH - 3 then [(key, JArr (map (\<lambda>s. JObj (rec s)) (take 10 l)))]
          else (case l of [] \<Rightarrow> [] | s # _ \<Rightarrow> rec s) | _ \<Rightarrow> [])
     else if key = ''enum'' then (case v of JArr l \<Rightarrow> [(key, JArr (map sanitize_primitive (take 100 l)))] | _ \<Rightarrow> [])
     else if key = ''required'' then
       (case v of JArr l \<Rightarrow> [(key, JArr (map JStr (sort (take MAX_PROPERTIES (map text_of (filter is_text l))))))] | _ \<Rightarrow> [])
     else if key = ''additionalProperties'' then (case v of JBool b \<Rightarrow> [(key, v)] | JObj d \<Rightarrow> [(key, JObj (rec v))] | _ \<Rightarrow> [])
     else if key = ''description'' then (case v of JStr s \<Rightarrow> [(key, JStr (take MAX_STRING_LENGTH s))] | _ \<Rightarrow> [])
     else if key \<in> set CONSTRAINT_KEYWORDS then [(key, sanitize_primitive v)]
     else [])"

lemma schema_field_cong [fundef_cong]:
  "(\<And>x. rec x = rec' x) \<Longrightarrow> n = n' \<Longrightarrow> key = key' \<Longrightarrow> v = v' \<Longrightarrow> schema_field rec n key v = schema_field rec' n' key' v'"
  by (metis ext)

definition close_object :: "(string \<times> json) list \<Rightarrow> (string \<times> json) list" where
  "close_object r = (if dget r ''type'' = Some (JStr ''object'') \<and> dget r ''additionalProperties'' = None
     then dput ''additionalProperties'' (JBool False) r else r)"

function sanitize_json_schema :: "nat \<Rightarrow> json \<Rightarrow> (string \<times> json) list" where
  "sanitize_json_schema n j = (case j of
     JObj d \<Rightarrow> if n \<ge> MAX_DEPTH then [(''type'', JStr ''object''), (''additionalProperties'', JBool False)]
       else close_object (fold (\<lambda>(k, v). dput k v) (concat (map (\<lambda>(k, v). schema_field (sanitize_json_schema (Suc n)) n k v) (sort_key fst d))) [])
   | _ \<Rightarrow> [])"
  by pat_completeness auto

termination
  by (relation "measure (\<lambda>(n, j). MAX_DEPTH - n)") auto

declare sanitize_json_schema.simps [simp del]

subsection \<open>Tools\<close>

definition tool_result :: "(json \<Rightarrow> string) \<Rightarrow> (string \<times> json) list \<Rightarrow> (string \<times> json) list" where
  "tool_result str_of tool =
    (let r = (case dget tool ''type'' of None \<Rightarrow> [] | Some t \<Rightarrow> [(''type'', JStr (take 50 (str_of t)))])
     in case dget tool ''function'' of
          Some (JObj f) \<Rightarrow>
            let g = (case dget f ''name'' of None \<Rightarrow> [] | Some x \<Rightarrow> [(''name'', JStr (take 100 (str_of x)))]);
                g = g @ (case dget f ''description'' of None \<Rightarrow> [] | Some x \<Rightarrow> [(''description'', JStr (take MAX_STRING_LENGTH (str_of x)))]);
                g = g @ (case dget f ''parameters'' of Some (JObj p) \<Rightarrow> [(''parameters'', JObj (sanitize_json_schema 0 (JObj p)))] | _ \<Rightarrow> [])
            in r @ [(''function'', JObj g)]
        | _ \<Rightarrow> r)"

text \<open>The description cut to 500 characters, where there is one.\<close>

definition shorten_description :: "(string \<times> json) list \<Rightarrow> (string \<times> json) list" where
  "shorten_description r = (case dget r ''function'' of
     Some (JObj g) \<Rightarrow> (case dget g ''description'' of
        Some (JStr s) \<Rightarrow> dput ''function'' (JObj (dput ''description'' (JStr (take 500 s)) g)) r | _ \<Rightarrow> r)
   | _ \<Rightarrow> r)"

text \<open>Where the tool is too large for what is left, its description is cut.\<close>

definition fit_tool :: "(json \<Rightarrow> string) \<Rightarrow> (json \<Rightarrow> nat) \<Rightarrow> nat \<Rightarrow> (string \<times> json) list \<Rightarrow> json" where
  "fit_tool str_of size_of used tool = (let r = tool_result str_of tool in
     JObj (if used + size_of (JObj r) > MAX_SCHEMA_BYTES then shorten_description r else r))"

fun collect_tools :: "(json \<Rightarrow> string) \<Rightarrow> (json \<Rightarrow> nat) \<Rightarrow> nat \<Rightarrow> json list \<Rightarrow> json list" where
  "collect_tools str_of size_of used [] = []"
| "collect_tools str_of size_of used (JObj tool # tools) =
    (let r = fit_tool str_of size_of used tool in
     if used + size_of r > MAX_SCHEMA_BYTES then collect_tools str_of size_of used tools
     else r # collect_tools str_of size_of (used + size_of r) tools)"
| "collect_tools str_of size_of used (_ # tools) = collect_tools str_of size_of used tools"

definition sanitize_tools :: "(json \<Rightarrow> string) \<Rightarrow> (json \<Rightarrow> nat) \<Rightarrow> json \<Rightarrow> json list" where
  "sanitize_tools str_of size_of tools = (case tools of JArr l \<Rightarrow> collect_tools str_of size_of 0 (take 50 l) | _ \<Rightarrow> [])"

definition function_names :: "(json \<Rightarrow> string) \<Rightarrow> json list \<Rightarrow> string list" where
  "function_names str_of tools = somes (map (\<lambda>t. case t of
     JObj d \<Rightarrow> (case dget d ''function'' of Some (JObj f) \<Rightarrow> map_option str_of (dget f ''name'') | _ \<Rightarrow> None) | _ \<Rightarrow> None) tools)"

text \<open>Count, bytes and the names of the functions.\<close>

definition get_sanitization_summary :: "(json \<Rightarrow> string) \<Rightarrow> (json \<Rightarrow> nat) \<Rightarrow> json \<Rightarrow> nat \<times> nat \<times> string list" where
  "get_sanitization_summary str_of size_of tools = (case tools of
     JArr l \<Rightarrow> (length l, size_of tools, function_names str_of l) | _ \<Rightarrow> (0, 0, []))"

subsection \<open>The type of a sanitized schema\<close>

text \<open>A constant inside a schema: its texts, lists and objects are bounded.\<close>

definition small_here :: "json \<Rightarrow> bool" where
  "small_here j \<longleftrightarrow> (case j of JStr s \<Rightarrow> length s \<le> MAX_STRING_LENGTH | JArr l \<Rightarrow> length l \<le> 100 | JObj d \<Rightarrow> length d \<le> 50 | _ \<Rightarrow> True)"

definition texts :: "nat \<Rightarrow> json \<Rightarrow> bool" where
  "texts n j \<longleftrightarrow> (case j of JArr l \<Rightarrow> length l \<le> n \<and> list_all is_text l | _ \<Rightarrow> False)"

definition field_type :: "(json \<Rightarrow> bool) \<Rightarrow> string \<Rightarrow> json \<Rightarrow> bool" where
  "field_type S key v =
    (if key = ''type'' then is_text v \<or> texts 5 v
     else if key = ''properties'' then (case v of JObj d \<Rightarrow> length d \<le> MAX_PROPERTIES \<and> list_all (\<lambda>(k, s). S s) d | _ \<Rightarrow> False)
     else if key = ''items'' then (case v of JArr l \<Rightarrow> length l \<le> MAX_ITEMS \<and> list_all S l | _ \<Rightarrow> S v)
     else if key \<in> {''anyOf'', ''oneOf'', ''allOf''} then (case v of JArr l \<Rightarrow> length l \<le> 10 \<and> list_all S l | _ \<Rightarrow> False)
     else if key = ''enum'' then (case v of JArr l \<Rightarrow> length l \<le> 100 \<and> list_all (everywhere small_here) l | _ \<Rightarrow> False)
     else if key = ''required'' then texts MAX_PROPERTIES v
     else if key = ''additionalProperties'' then (case v of JBool b \<Rightarrow> True | _ \<Rightarrow> S v)
     else if key = ''description'' then (case v of JStr s \<Rightarrow> length s \<le> MAX_STRING_LENGTH | _ \<Rightarrow> False)
     else key \<in> set CONSTRAINT_KEYWORDS \<and> everywhere small_here v)"

text \<open>A schema nested at most \<open>n\<close> deep.\<close>

fun schema_type :: "nat \<Rightarrow> json \<Rightarrow> bool" where
  "schema_type (Suc n) (JObj d) \<longleftrightarrow> dict_ok d \<and> list_all (\<lambda>(k, v). field_type (schema_type n) k v) d
     \<and> (dget d ''type'' = Some (JStr ''object'') \<longrightarrow> dget d ''additionalProperties'' \<noteq> None)"
| "schema_type _ _ \<longleftrightarrow> False"

lemma field_type_mono: "(\<And>j. S j \<Longrightarrow> S' j) \<Longrightarrow> field_type S k v \<Longrightarrow> field_type S' k v"
  by (cases v) (auto simp: field_type_def list_all_iff split: if_splits)

lemma schema_type_mono: "schema_type m j \<Longrightarrow> m \<le> m' \<Longrightarrow> schema_type m' j"
proof (induction m arbitrary: j m')
  case (Suc m)
  then obtain d k where j: "j = JObj d" and k: "m' = Suc k" "m \<le> k" by (cases j; cases m') auto
  have "field_type (schema_type k) key v" if "field_type (schema_type m) key v" for key v
    using field_type_mono [OF Suc.IH [OF _ k(2)] that] .
  then show ?case using Suc.prems(1) by (auto simp: j k list_all_iff)
qed simp

lemma sanitize_primitive_small: "everywhere small_here (sanitize_primitive j)"
proof (induction j rule: sanitize_primitive.induct)
  case (1 j)
  show ?case
    by (subst sanitize_primitive.simps) (auto simp: small_here_def 1 split: json.split)
qed

lemma schema_field_typed:
  assumes "\<And>s. schema_type m (JObj (rec s))" and "\<And>s k v. (k, v) \<in> set (rec s) \<Longrightarrow> field_type (schema_type m) k v"
    and "(k, w) \<in> set (schema_field rec n key v)"
  shows "field_type (schema_type m) k w"
proof -
  note f = assms(3) [unfolded schema_field_def]
  note strip = STRIP_KEYWORDS_def
  consider "key = ''type''" | "key = ''properties''" | "key = ''items''" | "key \<in> {''anyOf'', ''oneOf'', ''allOf''}" | "key = ''enum''" | "key = ''required''"
    | "key = ''additionalProperties''" | "key = ''description''"
    | "key \<notin> {''type'', ''properties'', ''items'', ''anyOf'', ''oneOf'', ''allOf'', ''enum'', ''required'', ''additionalProperties'', ''description''}" by auto
  then show ?thesis
  proof cases
    case 1
    have "list_all is_text (take 5 (filter is_text l))" for l by (auto simp: list_all_iff dest: in_set_takeD)
    then show ?thesis using f 1 by (cases v) (auto simp: strip field_type_def texts_def is_text_def)
  next
    case 2 then show ?thesis using f assms(1) by (cases v) (auto simp: strip field_type_def list_all_iff)
  next
    case 3 then show ?thesis using f assms(1) by (cases v) (auto simp: strip field_type_def list_all_iff)
  next
    case 4
    then have key: "key \<notin> set STRIP_KEYWORDS" "key \<noteq> ''type''" "key \<noteq> ''properties''" "key \<noteq> ''items''" by (auto simp: strip)
    show ?thesis
    proof (cases v)
      case (JArr l)
      show ?thesis
      proof (cases "n \<le> MAX_DEPTH - 3")
        case True
        then show ?thesis using f key 4 assms(1) by (auto simp: JArr field_type_def list_all_iff)
      next
        case False
        then show ?thesis using f key 4 assms(2) by (cases l) (simp_all add: JArr)
      qed
    qed (use f key 4 in \<open>simp_all\<close>)
  next
    case 5 then show ?thesis using f sanitize_primitive_small by (cases v) (auto simp: strip field_type_def list_all_iff)
  next
    case 6 then show ?thesis using f by (cases v) (auto simp: strip field_type_def texts_def is_text_def list_all_iff)
  next
    case 7 then show ?thesis using f assms(1) by (cases v) (auto simp: strip field_type_def)
  next
    case 8 then show ?thesis using f by (cases v) (auto simp: strip field_type_def)
  next
    case 9
    then have "key \<notin> set STRIP_KEYWORDS \<and> key \<in> set CONSTRAINT_KEYWORDS \<and> k = key \<and> w = sanitize_primitive v"
      using f by (simp split: if_splits)
    then show ?thesis using 9 sanitize_primitive_small by (simp add: field_type_def)
  qed
qed

lemma set_fold_dput: "set (fold (\<lambda>(k, v). dput k v) xs r) \<subseteq> set xs \<union> set r"
proof (induction xs arbitrary: r)
  case (Cons x xs)
  have "set (dput k v r) \<subseteq> insert (k, v) (set r)" for k v by (induction r) auto
  then show ?case using Cons by (cases x) fastforce
qed simp

lemma close_object_typed:
  assumes "dict_ok r" and "\<And>k v. (k, v) \<in> set r \<Longrightarrow> field_type (schema_type m) k v"
  shows "schema_type (Suc m) (JObj (close_object r))"
proof -
  have "field_type (schema_type m) ''additionalProperties'' (JBool False)" by (simp add: field_type_def)
  moreover have "set (dput ''additionalProperties'' (JBool False) r) \<subseteq> insert (''additionalProperties'', JBool False) (set r)"
    by (induction r) auto
  ultimately show ?thesis using assms by (auto simp: close_object_def list_all_iff dict_simps simp del: map_of_eq_Some_iff)
qed

text \<open>
  C28: The sanitizer is well typed: from any JSON value, well formed or not, it makes a schema that
  is nested at most eleven deep, in which every keyword is a known one and has a value of the
  right form, lists and texts are within their limits, and every object that does not say
  otherwise is closed.
\<close>

theorem sanitized_schema_typed:
  "schema_type (Suc MAX_DEPTH) (JObj (sanitize_json_schema 0 j))"
proof -
  have "n \<le> MAX_DEPTH \<Longrightarrow> schema_type (Suc (MAX_DEPTH - n)) (JObj (sanitize_json_schema n j))" for n
  proof (induction "MAX_DEPTH - n" arbitrary: n j)
    case 0
    then have "n = MAX_DEPTH" by simp
    then show ?case by (subst sanitize_json_schema.simps) (simp add: field_type_def is_text_def split: json.split)
  next
    case (Suc m)
    then have m: "m = MAX_DEPTH - Suc n" "Suc n \<le> MAX_DEPTH" "MAX_DEPTH - n = Suc m" by auto
    have IH: "schema_type (Suc m) (JObj (sanitize_json_schema (Suc n) s))" for s
      unfolding m(1) by (rule Suc.hyps(1) [OF m(1,2)])
    have field: "field_type (schema_type (Suc m)) k v" if "(k, v) \<in> set (sanitize_json_schema (Suc n) s)" for s k v
    proof -
      have "field_type (schema_type m) k v" using IH [of s] that by (auto simp: list_all_iff)
      then show ?thesis by (rule field_type_mono [rotated]) (erule schema_type_mono, simp)
    qed
    show ?case
    proof (cases j)
      case (JObj d)
      let ?c = "concat (map (\<lambda>(k, v). schema_field (sanitize_json_schema (Suc n)) n k v) (sort_key fst d))"
      have "field_type (schema_type (Suc m)) k w" if "(k, w) \<in> set (fold (\<lambda>(k, v). dput k v) ?c [])" for k w
        using set_fold_dput [of ?c "[]"] that schema_field_typed [OF IH field] by auto
      then have "schema_type (Suc (Suc m)) (JObj (close_object (fold (\<lambda>(k, v). dput k v) ?c [])))"
        by (intro close_object_typed dict_ok_fold_dput) auto
      then show ?thesis using m by (subst sanitize_json_schema.simps) (simp add: JObj del: schema_type.simps)
    qed (use m in \<open>simp_all add: sanitize_json_schema.simps\<close>)
  qed
  from this [of 0] show ?thesis by (simp only: diff_zero le0)
qed

text \<open>The tools that are kept stay within the byte limit together, and at most fifty are kept.\<close>

lemma collect_tools_bytes: "used \<le> MAX_SCHEMA_BYTES \<Longrightarrow> used + sum_list (map size_of (collect_tools str_of size_of used tools)) \<le> MAX_SCHEMA_BYTES
    \<and> length (collect_tools str_of size_of used tools) \<le> length tools"
proof (induction str_of size_of used tools rule: collect_tools.induct)
  case (2 str_of size_of used tool tools)
  then show ?case by (auto simp: Let_def)
qed auto

lemma sanitize_tools_bounded:
  "sum_list (map size_of (sanitize_tools str_of size_of tools)) \<le> MAX_SCHEMA_BYTES \<and> length (sanitize_tools str_of size_of tools) \<le> 50"
proof (cases tools)
  case (JArr l)
  then show ?thesis using collect_tools_bytes [of 0 size_of str_of "take 50 l"] by (simp add: sanitize_tools_def)
qed (simp_all add: sanitize_tools_def)

end
