(* ===== verification/Management_Query.thy ===== *)
theory Management_Query
  imports Prelude
begin

text \<open>
  Paging parameters and bounded scans of the management endpoints
  (\<open>services/management_query.py\<close>). Query values are texts. A parameter that is missing,
  unreadable or out of range is replaced and, unless it is missing, reported as a warning.
\<close>

type_synonym query = "string \<rightharpoonup> string"

record page_warning =
  pw_code :: string
  pw_field :: string
  pw_raw :: string
  pw_normalized :: int

record pagination =
  pm_limit :: int
  pm_offset :: int
  pm_cursor :: "int option"
  pm_warnings :: "page_warning list"

definition page_warn :: "string \<Rightarrow> string \<Rightarrow> string option \<Rightarrow> int \<Rightarrow> page_warning" where
  "page_warn code field raw normalized = \<lparr>pw_code = code, pw_field = field,
     pw_raw = (case raw of None \<Rightarrow> [] | Some s \<Rightarrow> s), pw_normalized = normalized\<rparr>"

definition parse_int :: "string option \<Rightarrow> int option" where
  "parse_int raw = (case raw of None \<Rightarrow> None | Some s \<Rightarrow> py_int (py_strip s))"

text \<open>The value of a parameter, or its default with a warning when one was given.\<close>

definition read_param :: "string \<Rightarrow> string \<Rightarrow> int \<Rightarrow> query \<Rightarrow> int \<times> page_warning list" where
  "read_param code field dflt q = (case parse_int (q field) of
     Some i \<Rightarrow> (i, [])
   | None \<Rightarrow> (dflt, if q field \<noteq> None then [page_warn code field (q field) dflt] else []))"

definition raise_to :: "string \<Rightarrow> string \<Rightarrow> string option \<Rightarrow> int \<Rightarrow> int \<times> page_warning list \<Rightarrow> int \<times> page_warning list" where
  "raise_to code field raw lo = (\<lambda>(i, ws). if i < lo then (lo, ws @ [page_warn code field raw lo]) else (i, ws))"

definition lower_to :: "string \<Rightarrow> string \<Rightarrow> string option \<Rightarrow> int \<Rightarrow> int \<times> page_warning list \<Rightarrow> int \<times> page_warning list" where
  "lower_to code field raw hi = (\<lambda>(i, ws). if i > hi then (hi, ws @ [page_warn code field raw hi]) else (i, ws))"

definition normalize_limit_offset :: "query \<Rightarrow> int \<Rightarrow> int \<Rightarrow> int \<Rightarrow> int option \<Rightarrow> pagination" where
  "normalize_limit_offset q default_limit max_limit default_offset max_offset =
    (let (limit, w1) = lower_to ''R95_LIMIT_CLAMPED'' ''limit'' (q ''limit'') max_limit
           (raise_to ''R95_LIMIT_BELOW_MIN'' ''limit'' (q ''limit'') 1 (read_param ''R95_INVALID_LIMIT'' ''limit'' default_limit q));
         (offset, w2) = (case max_offset of None \<Rightarrow> id | Some hi \<Rightarrow> lower_to ''R95_OFFSET_CLAMPED'' ''offset'' (q ''offset'') hi)
           (raise_to ''R95_OFFSET_BELOW_MIN'' ''offset'' (q ''offset'') 0 (read_param ''R95_INVALID_OFFSET'' ''offset'' default_offset q))
     in \<lparr>pm_limit = limit, pm_offset = offset, pm_cursor = None, pm_warnings = w1 @ w2\<rparr>)"

definition normalize_cursor_limit :: "query \<Rightarrow> string \<Rightarrow> int \<Rightarrow> int \<Rightarrow> int \<Rightarrow> int \<Rightarrow> pagination" where
  "normalize_cursor_limit q cursor_key default_cursor min_cursor default_limit max_limit =
    (let page = normalize_limit_offset q default_limit max_limit 0 None;
         (cursor, ws) = raise_to ''R95_CURSOR_BELOW_MIN'' cursor_key (q cursor_key) min_cursor
           (read_param ''R95_INVALID_CURSOR'' cursor_key default_cursor q)
     in page\<lparr>pm_cursor := Some cursor, pm_warnings := pm_warnings page @ ws\<rparr>)"

subsection \<open>Bounded scans\<close>

text \<open>
  The loop of \<open>bounded_scan_collect\<close>: the serializer answers \<open>None\<close> where it raises. The
  state of the loop is the number of records scanned, of valid ones skipped and of malformed
  ones, and the items so far.
\<close>

record 'b scan_state =
  sc_scanned :: int
  sc_skipped :: int
  sc_malformed :: int
  sc_items :: "'b list"

fun scan_records :: "('a \<Rightarrow> 'b option) \<Rightarrow> int \<Rightarrow> int \<Rightarrow> int \<Rightarrow> 'a list \<Rightarrow> 'b scan_state \<Rightarrow> 'b scan_state" where
  "scan_records serializer skip limit scan_cap [] s = s"
| "scan_records serializer skip limit scan_cap (r # rs) s =
    (if sc_scanned s \<ge> scan_cap then s
     else let s1 = s\<lparr>sc_scanned := sc_scanned s + 1\<rparr> in
       (case serializer r of
          None \<Rightarrow> scan_records serializer skip limit scan_cap rs (s1\<lparr>sc_malformed := sc_malformed s1 + 1\<rparr>)
        | Some payload \<Rightarrow>
            if sc_skipped s1 < skip then scan_records serializer skip limit scan_cap rs (s1\<lparr>sc_skipped := sc_skipped s1 + 1\<rparr>)
            else let s2 = s1\<lparr>sc_items := sc_items s1 @ [payload]\<rparr> in
              if int (length (sc_items s2)) \<ge> limit then s2
              else scan_records serializer skip limit scan_cap rs s2))"

definition bounded_scan_collect :: "('a \<Rightarrow> 'b option) \<Rightarrow> int \<Rightarrow> int \<Rightarrow> int \<Rightarrow> 'a list \<Rightarrow> 'b scan_state \<times> bool" where
  "bounded_scan_collect serializer skip limit scan_cap records =
    (let cap = max 1 scan_cap;
         s = scan_records serializer skip limit cap records \<lparr>sc_scanned = 0, sc_skipped = 0, sc_malformed = 0, sc_items = []\<rparr>
     in (s, sc_scanned s \<ge> cap \<and> int (length (sc_items s)) < limit))"

subsection \<open>Pages are within their bounds\<close>

lemma read_params_fst:
  "fst (read_param c f d q) = (case parse_int (q f) of Some i \<Rightarrow> i | None \<Rightarrow> d)"
  "fst (raise_to c f r lo p) = max lo (fst p)" "fst (lower_to c f r hi p) = min hi (fst p)"
  by (auto simp: read_param_def raise_to_def lower_to_def split: option.split prod.split)

lemma page_limits:
  "pm_limit (normalize_limit_offset q dl ml d mo) = min ml (max 1 (case parse_int (q ''limit'') of Some i \<Rightarrow> i | None \<Rightarrow> dl))"
  "pm_offset (normalize_limit_offset q dl ml d mo) = (case mo of None \<Rightarrow> id | Some hi \<Rightarrow> min hi)
     (max 0 (case parse_int (q ''offset'') of Some i \<Rightarrow> i | None \<Rightarrow> d))"
  unfolding normalize_limit_offset_def Let_def split_def
  by (simp_all only: pagination.simps fst_conv snd_conv read_params_fst) (cases mo; simp only: option.case id_apply read_params_fst)

lemma cursor_page:
  "pm_limit (normalize_cursor_limit q k dc mc dl ml) = min ml (max 1 (case parse_int (q ''limit'') of Some i \<Rightarrow> i | None \<Rightarrow> dl))"
  "pm_cursor (normalize_cursor_limit q k dc mc dl ml) = Some (max mc (case parse_int (q k) of Some i \<Rightarrow> i | None \<Rightarrow> dc))"
  unfolding normalize_cursor_limit_def Let_def split_def
  by (simp_all add: page_limits read_params_fst)

subsection \<open>What a scan returns\<close>

text \<open>The valid records of a scan, as the serializer gives them.\<close>

definition valid :: "('a \<Rightarrow> 'b option) \<Rightarrow> 'a list \<Rightarrow> 'b list" where
  "valid serializer rs = List.map_filter serializer rs"

lemma valid_simps [simp]:
  "valid f [] = []" "valid f (r # rs) = (case f r of None \<Rightarrow> valid f rs | Some x \<Rightarrow> x # valid f rs)"
  by (simp_all add: valid_def List.map_filter_simps split: option.split)

lemma scan_records_items:
  assumes "int (length (sc_items s)) < max 1 limit" and "sc_scanned s \<le> cap"
    and "0 < length (sc_items s) \<longrightarrow> sc_skipped s \<ge> skip"
  shows "sc_items (scan_records f skip limit cap rs s) = sc_items s
    @ take (nat (max 1 limit) - length (sc_items s)) (drop (nat (skip - sc_skipped s)) (valid f (take (nat (cap - sc_scanned s)) rs)))"
  using assms
proof (induction rs arbitrary: s)
  case (Cons r rs)
  show ?case
  proof (cases "sc_scanned s = cap")
    case False
    then have n: "nat (cap - sc_scanned s) = Suc (nat (cap - (sc_scanned s + 1)))" using Cons.prems(2) by simp
    show ?thesis
    proof (cases "f r")
      case None
      then show ?thesis using False Cons.prems Cons.IH [of "s\<lparr>sc_scanned := sc_scanned s + 1, sc_malformed := sc_malformed s + 1\<rparr>"]
        by (simp add: n Let_def)
    next
      case (Some x)
      show ?thesis
      proof (cases "sc_skipped s < skip")
        case True
        then have "nat (skip - sc_skipped s) = Suc (nat (skip - (sc_skipped s + 1)))" by simp
        then show ?thesis using True Some False Cons.prems
            Cons.IH [of "s\<lparr>sc_scanned := sc_scanned s + 1, sc_skipped := sc_skipped s + 1\<rparr>"]
          by (simp add: n Let_def)
      next
        case skipped: False
        have m: "nat (max 1 limit) - length (sc_items s) = Suc (nat (max 1 limit) - Suc (length (sc_items s)))"
          using Cons.prems(1) by linarith
        show ?thesis
        proof (cases "int (Suc (length (sc_items s))) \<ge> limit")
          case True
          then have "nat (max 1 limit) - Suc (length (sc_items s)) = 0" using Cons.prems(1) by linarith
          then show ?thesis using True skipped Some False Cons.prems by (simp add: n m Let_def)
        next
          case more: False
          then have "nat limit - length (sc_items s) = Suc (nat limit - Suc (length (sc_items s)))" by linarith
          then show ?thesis using more skipped Some False Cons.prems
              Cons.IH [of "s\<lparr>sc_scanned := sc_scanned s + 1, sc_items := sc_items s @ [x]\<rparr>"]
            by (simp add: n m Let_def)
        qed
      qed
    qed
  qed simp
qed simp

text \<open>
  A bounded scan is the page of the valid records among the first \<open>scan_cap\<close>: \<open>skip\<close> of them
  left out, at least one and at most \<open>limit\<close> taken.
\<close>

theorem bounded_scan_page:
  "sc_items (fst (bounded_scan_collect f skip limit scan_cap records))
    = take (nat (max 1 limit)) (drop (nat skip) (valid f (take (nat (max 1 scan_cap)) records)))"
  by (simp add: bounded_scan_collect_def Let_def scan_records_items)

end
