(* ===== verification/Job_Events.thy ===== *)
theory Job_Events
  imports Payloads Management_Query Contracts
begin

text \<open>
  The stream of job events: the bounded queue of \<open>services/observability/backpressure.py\<close>, the
  store of \<open>services/job_events.py\<close>, and its two readers in \<open>api/events.py\<close>, the polling
  handler and the loop of the event stream. The rate limit's answer and the JSON text of an
  event (\<open>dumps\<close>) are arguments; so are the configured capacity and lifetime.
\<close>

declare map_of_eq_Some_iff [simp del]

subsection \<open>The bounded queue\<close>

record 'a bounded_queue =
  bq_capacity :: nat
  bq_items :: "'a list"
  bq_high_watermark :: nat
  bq_total_enqueued :: nat
  bq_total_dropped :: nat
  bq_last_drop_ts :: time

text \<open>\<open>None\<close> is \<open>ValueError\<close>.\<close>

definition make_queue :: "int \<Rightarrow> 'a bounded_queue option" where
  "make_queue capacity = (if capacity \<le> 0 then None
     else Some \<lparr>bq_capacity = nat capacity, bq_items = [], bq_high_watermark = 0, bq_total_enqueued = 0,
       bq_total_dropped = 0, bq_last_drop_ts = 0\<rparr>)"

text \<open>\<open>deque(maxlen=n).append\<close> keeps the last \<open>n\<close> elements.\<close>

definition enqueue :: "time \<Rightarrow> 'a \<Rightarrow> 'a bounded_queue \<Rightarrow> bool \<times> 'a bounded_queue" where
  "enqueue now x q =
    (let dropped = (length (bq_items q) = bq_capacity q);
         q1 = (if dropped then q\<lparr>bq_total_dropped := bq_total_dropped q + 1, bq_last_drop_ts := now\<rparr> else q);
         q2 = q1\<lparr>bq_items := take_last (bq_capacity q) (bq_items q @ [x]), bq_total_enqueued := bq_total_enqueued q + 1\<rparr>
     in (\<not> dropped, if length (bq_items q2) > bq_high_watermark q then q2\<lparr>bq_high_watermark := length (bq_items q2)\<rparr> else q2))"

definition clear_queue :: "'a bounded_queue \<Rightarrow> 'a bounded_queue" where
  "clear_queue q = q\<lparr>bq_items := [], bq_high_watermark := 0, bq_total_enqueued := 0, bq_total_dropped := 0, bq_last_drop_ts := 0\<rparr>"

subsection \<open>Events\<close>

datatype job_event_type = QUEUED | RUNNING | COMPLETED | FAILED | CANCELLED | CALLBACK_SENT | CALLBACK_FAILED

fun job_event_value :: "job_event_type \<Rightarrow> string" where
  "job_event_value QUEUED = ''queued''"
| "job_event_value RUNNING = ''running''"
| "job_event_value COMPLETED = ''completed''"
| "job_event_value FAILED = ''failed''"
| "job_event_value CANCELLED = ''cancelled''"
| "job_event_value CALLBACK_SENT = ''callback_sent''"
| "job_event_value CALLBACK_FAILED = ''callback_failed''"

record job_event =
  je_seq :: int
  je_event_type :: string
  je_prompt_id :: string
  je_trace_id :: string
  je_timestamp :: time
  je_data :: "(string \<times> json) list"

definition event_payload :: "bool \<Rightarrow> job_event \<Rightarrow> (string \<times> json) list" where
  "event_payload include_reasoning e = [(''event_type'', JStr (je_event_type e)), (''prompt_id'', JStr (je_prompt_id e)),
     (''trace_id'', JStr (je_trace_id e)), (''timestamp'', JFloat (je_timestamp e)),
     (''data'', sanitize_operator_payload include_reasoning (JObj (je_data e)))]"

definition event_to_dict :: "bool \<Rightarrow> job_event \<Rightarrow> json" where
  "event_to_dict include_reasoning e = JObj ((''seq'', JInt (je_seq e)) # event_payload include_reasoning e)"

definition event_to_sse :: "(json \<Rightarrow> string) \<Rightarrow> bool \<Rightarrow> job_event \<Rightarrow> string" where
  "event_to_sse dumps include_reasoning e = join_with (CHR 0x0A)
     [''id: '' @ int_str (je_seq e), ''event: '' @ je_event_type e, ''data: '' @ dumps (JObj (event_payload include_reasoning e)), [], []]"

subsection \<open>The store\<close>

record event_store =
  es_queue :: "job_event bounded_queue"
  es_seq_counter :: int

definition make_store :: "int \<Rightarrow> event_store option" where
  "make_store max_size = map_option (\<lambda>q. \<lparr>es_queue = q, es_seq_counter = 0\<rparr>) (make_queue max_size)"

definition emit :: "time \<Rightarrow> job_event_type \<Rightarrow> string \<Rightarrow> string \<Rightarrow> (string \<times> json) list option \<Rightarrow> event_store \<Rightarrow> job_event \<times> event_store" where
  "emit now ty prompt_id trace_id data s =
    (let seq = es_seq_counter s + 1;
         e = \<lparr>je_seq = seq, je_event_type = job_event_value ty, je_prompt_id = prompt_id, je_trace_id = trace_id,
           je_timestamp = now, je_data = (case data of None \<Rightarrow> [] | Some d \<Rightarrow> d)\<rparr>
     in (e, s\<lparr>es_queue := snd (enqueue now e (es_queue s)), es_seq_counter := seq\<rparr>))"

text \<open>The event passes the cursor, the lifetime and the filter.\<close>

definition wanted :: "time \<Rightarrow> time \<Rightarrow> int \<Rightarrow> string option \<Rightarrow> job_event \<Rightarrow> bool" where
  "wanted ttl now last_seq prompt_id e =
    (if je_seq e \<le> last_seq then False
     else if now - je_timestamp e > ttl then False
     else case prompt_id of None \<Rightarrow> True | Some p \<Rightarrow> p = [] \<or> je_prompt_id e = p)"

fun collect_events :: "(job_event \<Rightarrow> bool) \<Rightarrow> int \<Rightarrow> job_event list \<Rightarrow> job_event list \<Rightarrow> job_event list" where
  "collect_events P limit acc [] = acc"
| "collect_events P limit acc (e # es) =
    (if \<not> P e then collect_events P limit acc es
     else let acc' = acc @ [e] in if int (length acc') \<ge> limit then acc' else collect_events P limit acc' es)"

definition events_since :: "time \<Rightarrow> time \<Rightarrow> int \<Rightarrow> int \<Rightarrow> string option \<Rightarrow> event_store \<Rightarrow> job_event list" where
  "events_since ttl now last_seq limit prompt_id s = collect_events (wanted ttl now last_seq prompt_id) limit [] (bq_items (es_queue s))"

fun scan_events :: "(job_event \<Rightarrow> bool) \<Rightarrow> int \<Rightarrow> int \<Rightarrow> int \<Rightarrow> job_event list \<Rightarrow> job_event list \<Rightarrow> int \<times> job_event list" where
  "scan_events P limit scan_cap scanned acc [] = (scanned, acc)"
| "scan_events P limit scan_cap scanned acc (e # es) =
    (if scanned \<ge> scan_cap then (scanned, acc)
     else if \<not> P e then scan_events P limit scan_cap (scanned + 1) acc es
     else let acc' = acc @ [e] in
       if int (length acc') \<ge> limit then (scanned + 1, acc') else scan_events P limit scan_cap (scanned + 1) acc' es)"

record scan_report =
  sr_scanned :: int
  sr_scan_cap :: int
  sr_truncated :: bool
  sr_earliest :: "int option"
  sr_latest :: "int option"

definition first_seq :: "job_event list \<Rightarrow> int option" where
  "first_seq es = (case es of [] \<Rightarrow> None | e # _ \<Rightarrow> Some (je_seq e))"

definition final_seq :: "job_event list \<Rightarrow> int option" where
  "final_seq es = (if es = [] then None else Some (je_seq (last es)))"

text \<open>The bounds are those of the result, or of everything retained when there is no result.\<close>

definition events_since_bounded :: "time \<Rightarrow> time \<Rightarrow> int \<Rightarrow> int \<Rightarrow> string option \<Rightarrow> int \<Rightarrow> event_store \<Rightarrow> job_event list \<times> scan_report" where
  "events_since_bounded ttl now last_seq limit prompt_id scan_cap s =
    (let items = bq_items (es_queue s); cap = (if scan_cap < 1 then 1 else scan_cap);
         (scanned, results) = scan_events (wanted ttl now last_seq prompt_id) limit cap 0 [] items;
         bounds = (if results \<noteq> [] then results else filter (wanted ttl now 0 prompt_id) items)
     in (results, \<lparr>sr_scanned = scanned, sr_scan_cap = cap, sr_truncated = (scanned \<ge> cap \<and> int (length results) < limit),
          sr_earliest = first_seq bounds, sr_latest = final_seq bounds\<rparr>))"

definition latest_seq :: "event_store \<Rightarrow> int" where
  "latest_seq s = es_seq_counter s"

definition store_size :: "event_store \<Rightarrow> nat" where
  "store_size s = length (bq_items (es_queue s))"

text \<open>Capacity, size, high watermark, enqueued, dropped, time of the last drop.\<close>

definition store_stats :: "event_store \<Rightarrow> nat \<times> nat \<times> nat \<times> nat \<times> nat \<times> time" where
  "store_stats s = (let q = es_queue s in
     (bq_capacity q, length (bq_items q), bq_high_watermark q, bq_total_enqueued q, bq_total_dropped q, bq_last_drop_ts q))"

definition clear_events :: "event_store \<Rightarrow> event_store" where
  "clear_events s = s\<lparr>es_queue := clear_queue (es_queue s), es_seq_counter := 0\<rparr>"

subsection \<open>The polling handler\<close>

record event_page =
  ep_events :: "job_event list"
  ep_latest_seq :: int
  ep_limit :: int
  ep_since_requested :: int
  ep_since_effective :: int
  ep_cursor_status :: string
  ep_warnings :: "page_warning list"
  ep_next_since_seq :: int
  ep_truncated :: bool
  ep_scan :: scan_report

definition poll_page :: "time \<Rightarrow> time \<Rightarrow> query \<Rightarrow> event_store \<Rightarrow> event_page" where
  "poll_page ttl now q s =
    (let prompt_id = q ''prompt_id''; page = normalize_cursor_limit q ''since'' 0 0 50 200;
         limit = pm_limit page; requested = (case pm_cursor page of Some c \<Rightarrow> c | None \<Rightarrow> 0); latest = latest_seq s;
         future = requested > latest;
         since1 = (if future then latest else requested);
         w1 = pm_warnings page @ (if future then [page_warn ''R95_STALE_CURSOR_FUTURE'' ''since'' (Some (int_str requested)) since1] else []);
         cap = max (limit * 10) 500;
         (events1, scan1) = events_since_bounded ttl now since1 limit prompt_id cap s;
         stale = (case sr_earliest scan1 of Some f \<Rightarrow> since1 \<noteq> 0 \<and> since1 < f - 1 | None \<Rightarrow> False);
         since2 = (case sr_earliest scan1 of Some f \<Rightarrow> if stale then max 0 (f - 1) else since1 | None \<Rightarrow> since1);
         w2 = w1 @ (if stale then [page_warn ''R95_STALE_CURSOR_RESET'' ''since'' (Some (int_str requested)) since2] else []);
         (events, scan) = (if stale then events_since_bounded ttl now since2 limit prompt_id cap s else (events1, scan1))
     in \<lparr>ep_events = events, ep_latest_seq = latest, ep_limit = limit, ep_since_requested = requested, ep_since_effective = since2,
         ep_cursor_status = (if stale then ''stale_cursor_reset'' else if future then ''future_cursor_reset'' else ''ok''),
         ep_warnings = w2, ep_next_since_seq = (case final_seq events of Some n \<Rightarrow> n | None \<Rightarrow> since2),
         ep_truncated = (sr_truncated scan \<or> (case (final_seq events, sr_latest scan) of (Some n, Some m) \<Rightarrow> m > n | _ \<Rightarrow> False)),
         ep_scan = scan\<rparr>)"

datatype 'a poll_answer = Poll_rate_limited | Poll_denied string | Poll_ok "json list" 'a

text \<open>\<open>None\<close> is the exception of the comparison of tokens (\<open>compare_digest\<close>).\<close>

definition events_poll ::
  "(string \<Rightarrow> 128 word option) \<Rightarrow> env \<Rightarrow> time \<Rightarrow> time \<Rightarrow> bool \<Rightarrow> request \<Rightarrow> query \<Rightarrow> event_store \<Rightarrow> event_page poll_answer option" where
  "events_poll v6 env ttl now within_rate rq q s =
    (if \<not> within_rate then Some Poll_rate_limited
     else case require_observability_access v6 env rq of
       None \<Rightarrow> None
     | Some (False, err) \<Rightarrow> Some (Poll_denied err)
     | Some (True, _) \<Rightarrow>
        (case require_admin_token v6 env rq of
           None \<Rightarrow> None
         | Some (admin_allowed, _) \<Rightarrow>
            let reveal = resolve_reasoning_reveal v6 env rq q admin_allowed; page = poll_page ttl now q s
            in Some (Poll_ok (map (event_to_dict (rd_allowed reveal)) (ep_events page)) page)))"

subsection \<open>The event stream\<close>

text \<open>
  The cursor of a stream from its \<open>Last-Event-ID\<close> header, and one turn of its loop: the events
  written and the next cursor. The time at which a turn reads the store and the store it finds
  are the elements of the list.
\<close>

definition resume_cursor :: "request \<Rightarrow> int" where
  "resume_cursor rq = (let h = py_strip (or_text (rq_headers rq ''Last-Event-ID'') []) in
     if h = [] then 0 else case py_int h of Some n \<Rightarrow> n | None \<Rightarrow> 0)"

definition SSE_MAX_DURATION_SEC :: time where "SSE_MAX_DURATION_SEC = 300"

definition stream_turn :: "time \<Rightarrow> string option \<Rightarrow> time \<Rightarrow> event_store \<Rightarrow> int \<Rightarrow> job_event list \<times> int" where
  "stream_turn ttl prompt_id now s last_seq =
    (let events = events_since ttl now last_seq 50 prompt_id s in (events, case final_seq events of Some n \<Rightarrow> n | None \<Rightarrow> last_seq))"

fun stream_events :: "time \<Rightarrow> string option \<Rightarrow> time \<Rightarrow> (time \<times> event_store) list \<Rightarrow> int \<Rightarrow> job_event list" where
  "stream_events ttl prompt_id start [] last_seq = []"
| "stream_events ttl prompt_id start ((now, s) # turns) last_seq =
    (if now - start > SSE_MAX_DURATION_SEC then []
     else let (events, next) = stream_turn ttl prompt_id now s last_seq in events @ stream_events ttl prompt_id start turns next)"

subsection \<open>What the scans return\<close>

lemma collect_events_take:
  "int (length acc) < max 1 limit \<Longrightarrow>
   collect_events P limit acc es = acc @ take (nat (max 1 limit) - length acc) (filter P es)"
proof (induction es arbitrary: acc)
  case (Cons e es)
  show ?case
  proof (cases "P e \<and> \<not> int (Suc (length acc)) \<ge> limit")
    case True
    then have "nat limit - length acc = Suc (nat limit - Suc (length acc))" by linarith
    then show ?thesis using True Cons.IH [of "acc @ [e]"] by (simp add: Let_def)
  next
    case False
    have "nat (max 1 limit) - length acc = 1" if "int (Suc (length acc)) \<ge> limit" using that Cons.prems by linarith
    then show ?thesis using False Cons by (auto simp: Let_def)
  qed
qed simp

lemma scan_events_take:
  "int (length acc) < max 1 limit \<Longrightarrow> scanned \<le> cap \<Longrightarrow>
   snd (scan_events P limit cap scanned acc es) = acc @ take (nat (max 1 limit) - length acc) (filter P (take (nat (cap - scanned)) es))"
proof (induction es arbitrary: scanned acc)
  case (Cons e es)
  show ?case
  proof (cases "scanned = cap")
    case False
    then have n: "nat (cap - scanned) = Suc (nat (cap - (scanned + 1)))" using Cons.prems(2) by simp
    show ?thesis
    proof (cases "P e \<and> \<not> int (Suc (length acc)) \<ge> limit")
      case True
      then have "nat limit - length acc = Suc (nat limit - Suc (length acc))" by linarith
      then show ?thesis using True False Cons.prems Cons.IH [of "acc @ [e]" "scanned + 1"] by (simp add: n Let_def)
    next
      case other: False
      have "nat (max 1 limit) - length acc = 1" if "int (Suc (length acc)) \<ge> limit" using that Cons.prems(1) by linarith
      then show ?thesis using other False Cons.prems Cons.IH [of acc "scanned + 1"] by (auto simp: n Let_def)
    qed
  qed simp
qed simp

lemma events_since_take:
  "events_since ttl now n limit p s = take (nat (max 1 limit)) (filter (wanted ttl now n p) (bq_items (es_queue s)))"
  by (simp add: events_since_def collect_events_take)

lemma events_since_bounded_take:
  "fst (events_since_bounded ttl now n limit p cap s)
    = take (nat (max 1 limit)) (filter (wanted ttl now n p) (take (nat (max 1 cap)) (bq_items (es_queue s))))"
proof -
  have c: "(if cap < 1 then 1 else cap) = max 1 cap" by simp
  have "snd (scan_events P limit (if cap < 1 then 1 else cap) 0 [] es) = take (nat (max 1 limit)) (filter P (take (nat (max 1 cap)) es))" for P es
    unfolding c using scan_events_take [of "[]" limit 0 "max 1 cap" P es] by simp
  then show ?thesis by (simp only: events_since_bounded_def Let_def split_def fst_conv)
qed

subsection \<open>The invariant of the store\<close>

text \<open>
  The queue holds the last events emitted, numbered without a gap up to the counter, and the
  statistics account for every one of them.
\<close>

definition store_ok :: "event_store \<Rightarrow> bool" where
  "store_ok s \<longleftrightarrow> (let q = es_queue s; n = length (bq_items q) in
     0 < bq_capacity q \<and> n \<le> bq_capacity q \<and> map je_seq (bq_items q) = [es_seq_counter s - int n + 1..es_seq_counter s]
     \<and> es_seq_counter s = int (bq_total_enqueued q) \<and> bq_total_dropped q + n = bq_total_enqueued q \<and> bq_high_watermark q = n
     \<and> (bq_total_dropped q > 0 \<longrightarrow> n = bq_capacity q))"

datatype event_op = Emit job_event_type string string "(string \<times> json) list option" | Clear

fun event_step :: "time \<times> event_op \<Rightarrow> event_store \<Rightarrow> event_store" where
  "event_step (now, Emit ty p t d) s = snd (emit now ty p t d s)"
| "event_step (now, Clear) s = clear_events s"

lemma upto_snoc: "a \<le> b + 1 \<Longrightarrow> [a..b + 1] = [a..b] @ [b + 1 :: int]"
  by (simp add: upto_rec2)

lemma drop_upto: "drop 1 [a..b] = [a + 1..b :: int]"
  by (cases "a \<le> b") (simp_all add: upto_rec1)

lemma make_store_ok: "make_store c = Some s \<Longrightarrow> store_ok s"
  by (auto simp: make_store_def make_queue_def store_ok_def split: if_splits)

lemma emit_ok: "store_ok s \<Longrightarrow> store_ok (snd (emit now ty p t d s))"
proof -
  assume ok: "store_ok s"
  define q where "q = es_queue s"
  define n where "n = length (bq_items q)"
  define c where "c = es_seq_counter s"
  have q: "0 < bq_capacity q" "n \<le> bq_capacity q" "map je_seq (bq_items q) = [c - int n + 1..c]" "c = int (bq_total_enqueued q)"
    "bq_total_dropped q + n = bq_total_enqueued q" "bq_high_watermark q = n" "bq_total_dropped q > 0 \<longrightarrow> n = bq_capacity q"
    using ok by (simp_all add: store_ok_def Let_def q_def n_def c_def)
  define e where "e = fst (emit now ty p t d s)"
  have e: "je_seq e = c + 1" by (simp add: e_def emit_def Let_def c_def)
  have snoc: "map je_seq (bq_items q @ [e]) = [c - int n + 1..c + 1]" using q(2,3) by (simp add: e upto_snoc)
  have s': "snd (emit now ty p t d s) = s\<lparr>es_queue := snd (enqueue now e q), es_seq_counter := c + 1\<rparr>"
    by (simp add: emit_def Let_def e_def q_def c_def)
  show ?thesis
  proof (cases "n = bq_capacity q")
    case True
    then have "take_last (bq_capacity q) (bq_items q @ [e]) = drop 1 (bq_items q @ [e])" by (simp add: take_last_def n_def)
    moreover have "map je_seq (drop 1 (bq_items q @ [e])) = [2 + (c - int n)..c + 1]" unfolding drop_map [symmetric] snoc drop_upto by simp
    ultimately show ?thesis using q True by (auto simp: s' store_ok_def enqueue_def Let_def n_def [symmetric])
  next
    case False
    then have "take_last (bq_capacity q) (bq_items q @ [e]) = bq_items q @ [e]" using q(2) by (intro take_last_all) (simp add: n_def)
    then show ?thesis using q False snoc by (auto simp: s' store_ok_def enqueue_def Let_def n_def [symmetric])
  qed
qed

lemma clear_ok: "store_ok s \<Longrightarrow> store_ok (clear_events s)"
  by (simp add: store_ok_def clear_events_def clear_queue_def Let_def)

lemma event_step_ok: "store_ok s \<Longrightarrow> store_ok (event_step op s)"
  by (cases "(op, s)" rule: event_step.cases) (auto simp: emit_ok clear_ok)

interpretation event_log: machine event_step store_ok
  by unfold_locales (rule event_step_ok)

lemma capacity_step: "bq_capacity (es_queue (event_step op s)) = bq_capacity (es_queue s)"
  by (cases "(op, s)" rule: event_step.cases) (simp_all add: emit_def enqueue_def clear_events_def clear_queue_def Let_def)

lemma reached_store:
  assumes "make_store c = Some s0" and "s = fold event_step ops s0"
  shows "store_ok s" "int (bq_capacity (es_queue s)) = c"
proof -
  show "store_ok s" using assms event_log.run_inv make_store_ok by blast
  have "bq_capacity (es_queue (fold event_step ops s0)) = bq_capacity (es_queue s0)"
    by (induction ops arbitrary: s0) (simp_all add: capacity_step)
  then show "int (bq_capacity (es_queue s)) = c"
    using assms by (auto simp: make_store_def make_queue_def split: if_splits)
qed

lemma store_order: "store_ok s \<Longrightarrow> sorted_wrt (<) (map je_seq (bq_items (es_queue s)))"
  by (simp add: store_ok_def Let_def)

lemma store_seqs: "store_ok s \<Longrightarrow> e \<in> set (bq_items (es_queue s)) \<Longrightarrow> 0 < je_seq e \<and> je_seq e \<le> es_seq_counter s"
proof -
  assume ok: "store_ok s" and e: "e \<in> set (bq_items (es_queue s))"
  have "je_seq e \<in> set (map je_seq (bq_items (es_queue s)))" using e by simp
  also have "\<dots> = {es_seq_counter s - int (length (bq_items (es_queue s))) + 1..es_seq_counter s}"
    using ok by (simp add: store_ok_def Let_def)
  finally show ?thesis using ok by (simp add: store_ok_def Let_def)
qed

subsection \<open>Resuming\<close>

lemma sorted_after_last:
  "sorted_wrt (\<lambda>a b. f a < (f b :: int)) (xs @ ys) \<Longrightarrow> xs \<noteq> [] \<Longrightarrow> filter (\<lambda>e. f (last xs) < f e) (xs @ ys) = ys"
  by (cases xs rule: rev_cases) (auto simp: sorted_wrt_append filter_empty_conv intro!: filter_True)

lemma wanted_later: "n \<le> m \<Longrightarrow> wanted ttl now m p e \<longleftrightarrow> wanted ttl now n p e \<and> m < je_seq e"
  by (auto simp: wanted_def)

lemma wanted_seq: "wanted ttl now n p e \<Longrightarrow> n < je_seq e"
  by (simp add: wanted_def split: if_splits)

text \<open>The events a cursor asks for are a page and the events its next cursor asks for.\<close>

lemma resume_split:
  assumes "sorted_wrt (<) (map je_seq es)" and "0 < k" and page_def: "page = take k (filter (wanted ttl now n p) es)"
  shows "filter (wanted ttl now n p) es = page @ filter (wanted ttl now (case final_seq page of Some m \<Rightarrow> m | None \<Rightarrow> n) p) es"
proof (cases "page = []")
  case True
  then have "filter (wanted ttl now n p) es = []" using assms(2) by (simp add: page_def)
  then show ?thesis by (simp add: page_def final_seq_def)
next
  case False
  let ?F = "filter (wanted ttl now n p) es"
  have F: "?F = page @ drop k ?F" by (simp add: page_def)
  have "last page \<in> set ?F" using False by (metis F Un_iff last_in_set set_append)
  then have n: "n \<le> je_seq (last page)" using wanted_seq [of ttl now n p "last page"] by auto
  have "sorted_wrt (\<lambda>a b. je_seq a < je_seq b) ?F" using assms(1) by (simp add: sorted_wrt_map sorted_wrt_filter)
  then have "filter (\<lambda>e. je_seq (last page) < je_seq e) ?F = drop k ?F" using sorted_after_last F False by metis
  moreover have "filter (wanted ttl now (je_seq (last page)) p) es = filter (\<lambda>e. je_seq (last page) < je_seq e) ?F"
    using n by (auto simp: wanted_later [of n "je_seq (last page)"] conj_commute intro!: filter_cong)
  ultimately show ?thesis using F False by (simp add: final_seq_def)
qed

lemma wanted_reset:
  assumes "\<And>e. e \<in> set es \<Longrightarrow> wanted ttl now n p e \<Longrightarrow> f \<le> je_seq e" and "n < f - 1"
  shows "filter (wanted ttl now (f - 1) p) es = filter (wanted ttl now n p) es"
proof (rule filter_cong)
  fix e assume e: "e \<in> set es"
  have "f \<le> je_seq e \<Longrightarrow> f - 1 < je_seq e" by simp
  then show "wanted ttl now (f - 1) p e = wanted ttl now n p e" using assms(1) [OF e] wanted_later [of n "f - 1" ttl now p e] assms(2) by auto
qed simp

lemma scan_bounds:
  "sr_earliest (snd (events_since_bounded ttl now n limit p cap s)) = first_seq (let r = fst (events_since_bounded ttl now n limit p cap s)
     in if r \<noteq> [] then r else filter (wanted ttl now 0 p) (bq_items (es_queue s)))"
  by (simp only: events_since_bounded_def Let_def split_def fst_conv snd_conv scan_report.simps)

text \<open>
  The polling handler looks at the whole buffer when it holds at most 500 events. Its page,
  together with what is wanted after the cursor it hands out, is what was wanted after the cursor
  it was asked for.
\<close>

lemma poll_events:
  assumes "store_ok s" and "bq_capacity (es_queue s) \<le> 500"
  shows "ep_events (poll_page ttl now q s) = take (nat (max 1 (ep_limit (poll_page ttl now q s))))
      (filter (wanted ttl now (min (ep_since_requested (poll_page ttl now q s)) (es_seq_counter s)) (q ''prompt_id'')) (bq_items (es_queue s)))
    \<and> filter (wanted ttl now (ep_since_effective (poll_page ttl now q s)) (q ''prompt_id'')) (bq_items (es_queue s))
      = filter (wanted ttl now (min (ep_since_requested (poll_page ttl now q s)) (es_seq_counter s)) (q ''prompt_id'')) (bq_items (es_queue s))"
proof -
  define es where "es = bq_items (es_queue s)"
  define p where "p = q ''prompt_id''"
  define limit where "limit = pm_limit (normalize_cursor_limit q ''since'' 0 0 50 200)"
  define req where "req = (case pm_cursor (normalize_cursor_limit q ''since'' 0 0 50 200) of Some c \<Rightarrow> c | None \<Rightarrow> 0)"
  define n where "n = (if req > latest_seq s then latest_seq s else req)"
  define cap where "cap = max (limit * 10) 500"
  define r where "r = events_since_bounded ttl now n limit p cap s"
  define stale where "stale = (case sr_earliest (snd r) of Some f \<Rightarrow> n \<noteq> 0 \<and> n < f - 1 | None \<Rightarrow> False)"
  define n2 where "n2 = (case sr_earliest (snd r) of Some f \<Rightarrow> if stale then max 0 (f - 1) else n | None \<Rightarrow> n)"
  have page: "ep_events (poll_page ttl now q s) = fst (if stale then events_since_bounded ttl now n2 limit p cap s else r)"
    "ep_limit (poll_page ttl now q s) = limit" "ep_since_requested (poll_page ttl now q s) = req" "ep_since_effective (poll_page ttl now q s) = n2"
    unfolding poll_page_def Let_def split_def limit_def [symmetric] req_def [symmetric] p_def [symmetric] cap_def [symmetric]
      n_def [symmetric] r_def [symmetric] stale_def [symmetric] n2_def [symmetric] by simp_all
  have n_eq: "n = min req (es_seq_counter s)" by (simp add: n_def latest_seq_def)
  have len: "length es \<le> 500" using assms by (simp add: es_def store_ok_def Let_def)
  have all: "fst (events_since_bounded ttl now m limit p cap s) = take (nat (max 1 limit)) (filter (wanted ttl now m p) es)" for m
    using len by (simp add: events_since_bounded_take cap_def es_def [symmetric])
  show ?thesis
  proof (cases stale)
    case False
    then have "n2 = n" by (simp add: n2_def split: option.split)
    then show ?thesis using False by (simp add: page all r_def n_eq p_def [symmetric] es_def [symmetric])
  next
    case True
    then obtain f where f: "sr_earliest (snd r) = Some f" "n \<noteq> 0" "n < f - 1" by (auto simp: stale_def split: option.splits)
    let ?F = "filter (wanted ttl now n p) es"
    have sorted: "sorted_wrt (\<lambda>a b. je_seq a < je_seq b) es" using store_order [OF assms(1)] by (simp add: es_def sorted_wrt_map)
    have first: "f \<le> je_seq e" if "e \<in> set es" "wanted ttl now n p e" for e
    proof -
      have e: "e \<in> set ?F" using that by simp
      have "fst r \<noteq> []" using that by (auto simp: r_def all filter_empty_conv)
      then have "first_seq (take (nat (max 1 limit)) ?F) = Some f" using f(1) by (simp add: r_def scan_bounds all Let_def)
      then obtain x xs where x: "?F = x # xs" "je_seq x = f" 
        using that by (cases ?F; cases "nat (max 1 limit)") (auto simp: first_seq_def)
      moreover have "sorted_wrt (\<lambda>a b. je_seq a < je_seq b) ?F" by (rule sorted_wrt_filter [OF sorted])
      ultimately show ?thesis using e by auto
    qed
    have "0 \<le> n" using store_ok_def [of s] assms(1) by (simp add: n_def req_def cursor_page latest_seq_def Let_def)
    then have "n2 = f - 1" using True f by (simp add: n2_def)
    moreover have "filter (wanted ttl now (f - 1) p) es = ?F" using wanted_reset [of es ttl now n p f] first f(3) by blast
    ultimately show ?thesis using True by (simp add: page all n_eq p_def [symmetric] es_def [symmetric])
  qed
qed

lemma stream_in_order:
  "list_all (\<lambda>(now, s). store_ok s) turns \<Longrightarrow>
   sorted_wrt (<) (map je_seq (stream_events ttl p start turns n)) \<and> (\<forall>e \<in> set (stream_events ttl p start turns n). n < je_seq e)"
proof (induction ttl p start turns n rule: stream_events.induct)
  case (2 ttl p start now s turns n)
  define es where "es = events_since ttl now n 50 p s"
  define m where "m = (case final_seq es of Some x \<Rightarrow> x | None \<Rightarrow> n)"
  have turn: "stream_turn ttl p now s n = (es, m)" by (simp add: stream_turn_def es_def m_def Let_def)
  have es: "es = take 50 (filter (wanted ttl now n p) (bq_items (es_queue s)))" by (simp add: es_def events_since_take)
  have sorted: "sorted_wrt (\<lambda>a b. je_seq a < je_seq b) es"
    using store_order [of s] 2(2) unfolding es by (simp add: sorted_wrt_map sorted_wrt_take sorted_wrt_filter)
  have above: "n < je_seq e" if "e \<in> set es" for e
    using that wanted_seq [of ttl now n p e] set_take_subset unfolding es by fastforce
  have upto: "je_seq e \<le> m" if "e \<in> set es" for e
    using that sorted by (cases es rule: rev_cases) (auto simp: m_def final_seq_def sorted_wrt_append less_imp_le)
  have m: "n \<le> m" using above by (auto simp: m_def final_seq_def less_imp_le)
  show ?case
  proof (cases "now - start > SSE_MAX_DURATION_SEC")
    case False
    have rest: "sorted_wrt (<) (map je_seq (stream_events ttl p start turns m))" "\<forall>e \<in> set (stream_events ttl p start turns m). m < je_seq e"
      using "2.IH" [OF False turn [symmetric] refl] "2.prems" by auto
    show ?thesis using False rest sorted above upto m
      by (auto simp: turn sorted_wrt_map sorted_wrt_append) (meson le_less_trans less_le_trans)+
  qed simp
qed simp

subsection \<open>Where the readers fall short\<close>

text \<open>
  The bounded scan starts at the oldest event for every cursor: when the buffer holds more than
  \<open>scan_cap\<close> events and the cursor is past the first of them, the later ones are never returned.
\<close>

lemma bounded_scan_stalls:
  assumes "list_all (\<lambda>e. je_seq e \<le> n) (take (nat (max 1 cap)) (bq_items (es_queue s)))"
  shows "fst (events_since_bounded ttl now n limit p cap s) = []"
proof -
  have "filter (wanted ttl now n p) (take (nat (max 1 cap)) (bq_items (es_queue s))) = []"
    using assms wanted_seq by (fastforce simp: filter_empty_conv list_all_iff)
  then show ?thesis by (simp add: events_since_bounded_take)
qed

text \<open>
  With a filter, a gap in the numbers of the events shown is taken for a lost one: the cursor is
  reported as stale although nothing was dropped.
\<close>

definition demo_event :: "int \<Rightarrow> string \<Rightarrow> job_event" where
  "demo_event n p = \<lparr>je_seq = n, je_event_type = ''queued'', je_prompt_id = p, je_trace_id = [], je_timestamp = 0, je_data = []\<rparr>"

definition demo_store :: event_store where
  "demo_store = \<lparr>es_queue = \<lparr>bq_capacity = 500, bq_items = [demo_event 1 ''a'', demo_event 2 ''b'', demo_event 3 ''a''], bq_high_watermark = 3,
     bq_total_enqueued = 3, bq_total_dropped = 0, bq_last_drop_ts = 0\<rparr>, es_seq_counter = 3\<rparr>"

lemma demo_int: "py_int (py_strip ''1'') = Some 1"
  by code_simp

lemma gap_reported_as_loss:
  "ep_cursor_status (poll_page 600 1 [''since'' \<mapsto> ''1'', ''prompt_id'' \<mapsto> ''a''] demo_store) = ''stale_cursor_reset''"
proof -
  let ?q = "[''since'' \<mapsto> ''1'', ''prompt_id'' \<mapsto> ''a''] :: query"
  have q: "pm_limit (normalize_cursor_limit ?q ''since'' 0 0 50 200) = 50" "pm_cursor (normalize_cursor_limit ?q ''since'' 0 0 50 200) = Some 1"
    unfolding cursor_page by (simp_all add: parse_int_def demo_int)
  have "sr_earliest (snd (events_since_bounded 600 1 1 50 (Some ''a'') 500 demo_store)) = Some 3"
    unfolding scan_bounds by (simp add: events_since_bounded_take demo_store_def demo_event_def wanted_def first_seq_def)
  then show ?thesis
    unfolding poll_page_def q Let_def split_def by (simp add: latest_seq_def demo_store_def)
qed

subsection \<open>Properties\<close>

lemma next_cursor: "ep_next_since_seq (poll_page ttl now q s)
  = (case final_seq (ep_events (poll_page ttl now q s)) of Some n \<Rightarrow> n | None \<Rightarrow> ep_since_effective (poll_page ttl now q s))"
  by (simp only: poll_page_def Let_def split_def event_page.simps)

lemma page_limit: "ep_limit (poll_page ttl now q s) = min 200 (max 1 (case parse_int (q ''limit'') of Some i \<Rightarrow> i | None \<Rightarrow> 50))"
  by (simp only: poll_page_def Let_def split_def event_page.simps cursor_page)

text \<open>
  C29: With an event buffer of at most 500 entries (500 is the default; the variable
  \<open>OPENCLAW_JOB_EVENT_BUFFER_SIZE\<close> can make it larger), a client that polls with the cursor of the page
  before misses no event and sees none twice: what its cursor asks for, among the events retained, is
  the page followed by what the next cursor asks for. A page has at most 200 events. With a larger
  buffer the scan of the oldest 500 events can hide the later ones (\<open>bounded_scan_stalls\<close>).
\<close>

theorem poll_resumes:
  assumes "make_store capacity = Some s0" and "capacity \<le> 500" and "s = fold event_step ops s0" and "page = poll_page ttl now q s"
  shows "filter (wanted ttl now (min (ep_since_requested page) (latest_seq s)) (q ''prompt_id'')) (bq_items (es_queue s))
      = ep_events page @ filter (wanted ttl now (ep_next_since_seq page) (q ''prompt_id'')) (bq_items (es_queue s))
    \<and> length (ep_events page) \<le> 200"
proof -
  have ok: "store_ok s" "bq_capacity (es_queue s) \<le> 500" using reached_store [OF assms(1,3)] assms(2) by simp_all
  note events = poll_events [OF ok, of ttl now q, folded assms(4)]
  have k: "0 < nat (max 1 (ep_limit page))" "nat (max 1 (ep_limit page)) \<le> 200"
    by (auto simp: assms(4) page_limit)
  have "ep_events page = take (nat (max 1 (ep_limit page))) (filter (wanted ttl now (ep_since_effective page) (q ''prompt_id'')) (bq_items (es_queue s)))"
    using events by simp
  then have "filter (wanted ttl now (ep_since_effective page) (q ''prompt_id'')) (bq_items (es_queue s))
    = ep_events page @ filter (wanted ttl now (ep_next_since_seq page) (q ''prompt_id'')) (bq_items (es_queue s))"
    unfolding assms(4) next_cursor using resume_split [OF store_order [OF ok(1)] k(1), unfolded assms(4)] by blast
  then show ?thesis using events k(2) by (simp add: latest_seq_def)
qed

text \<open>
  Polled events contain no internal content and no reasoning, unless the request carries the
  admin right, comes from a loopback address and the deployment is a local, not hardened one.
\<close>

theorem poll_hides_reasoning:
  assumes "events_poll v6 env ttl now within_rate rq q s = Some (Poll_ok shown page)"
    and "list_all (\<lambda>e. wf_json (JObj (je_data e))) (ep_events page)"
    and "\<not> list_all (everywhere public_here) shown"
  shows "fst (the (require_admin_token v6 env rq)) \<and> \<not> is_hardened_mode env \<and> deployment_profile env \<in> {''local'', ''lan''}
    \<and> is_loopback v6 (get_client_ip v6 env rq)"
proof -
  obtain adm msg where adm: "require_admin_token v6 env rq = Some (adm, msg)"
    and shown: "shown = map (event_to_dict (rd_allowed (resolve_reasoning_reveal v6 env rq q adm))) (ep_events page)"
    using assms(1) by (auto simp: events_poll_def Let_def split: if_splits option.splits prod.splits bool.splits)
  have public: "everywhere public_here (event_to_dict False e)" if "wf_json (JObj (je_data e))" for e
    using sanitize_operator_payload_clean [OF that]
    by (simp add: event_to_dict_def event_payload_def public_here_def is_internal_content_def is_reasoning_block_def) code_simp
  have "rd_allowed (resolve_reasoning_reveal v6 env rq q adm)"
    using assms(2,3) public by (cases "rd_allowed (resolve_reasoning_reveal v6 env rq q adm)") (auto simp: shown list_all_iff)
  then show ?thesis using reveal_allowed [of v6 env rq q adm] by (simp add: adm)
qed

subsection \<open>Instances\<close>

definition demo_ops :: "(time \<times> event_op) list" where
  "demo_ops = [(1, Emit QUEUED ''a'' [] None), (2, Emit RUNNING ''a'' [] None), (3, Emit COMPLETED ''a'' [] None)]"

definition demo_empty :: event_store where
  "demo_empty = the (make_store 2)"

theorem poll_resumes_witness:
  "filter (wanted 600 4 (min (ep_since_requested (poll_page 600 4 Map.empty (fold event_step demo_ops demo_empty))) (latest_seq (fold event_step demo_ops demo_empty))) None)
      (bq_items (es_queue (fold event_step demo_ops demo_empty)))
    = ep_events (poll_page 600 4 Map.empty (fold event_step demo_ops demo_empty))
      @ filter (wanted 600 4 (ep_next_since_seq (poll_page 600 4 Map.empty (fold event_step demo_ops demo_empty))) None)
          (bq_items (es_queue (fold event_step demo_ops demo_empty)))
    \<and> length (ep_events (poll_page 600 4 Map.empty (fold event_step demo_ops demo_empty))) \<le> 200"
proof -
  have "make_store 2 = Some demo_empty" by (simp add: demo_empty_def make_store_def make_queue_def)
  from poll_resumes [OF this _ refl refl, of 600 4 Map.empty demo_ops] show ?thesis by simp
qed

definition demo_reveal_env :: env where
  "demo_reveal_env = [''OPENCLAW_ADMIN_TOKEN'' \<mapsto> ''secret'', ''OPENCLAW_TRUST_X_FORWARDED_FOR'' \<mapsto> ''0'', ''OPENCLAW_DEBUG_REASONING_REVEAL'' \<mapsto> ''1'']"

definition demo_reveal_request :: request where
  "demo_reveal_request = \<lparr>rq_remote = Some ''127.0.0.1'', rq_headers = [''X-OpenClaw-Admin-Token'' \<mapsto> ''secret'', ''X-OpenClaw-Debug-Reveal-Reasoning'' \<mapsto> ''1'']\<rparr>"

definition demo_thought :: job_event where
  "demo_thought = (demo_event 1 ''a'')\<lparr>je_data := [(''reasoning'', JStr ''because'')]\<rparr>"

definition demo_thought_store :: event_store where
  "demo_thought_store = \<lparr>es_queue = \<lparr>bq_capacity = 500, bq_items = [demo_thought], bq_high_watermark = 1,
     bq_total_enqueued = 1, bq_total_dropped = 0, bq_last_drop_ts = 0\<rparr>, es_seq_counter = 1\<rparr>"

lemma demo_reveal_values:
  "env_value demo_reveal_env ''OPENCLAW_ADMIN_TOKEN'' d = Some ''secret''"
  "env_value demo_reveal_env ''OPENCLAW_TRUST_X_FORWARDED_FOR'' d = Some ''0''"
  by (rule env_value_canonical; simp add: demo_reveal_env_def)+

lemma demo_reveal_flag:
  "get_env_value demo_reveal_env ''OPENCLAW_DEBUG_REASONING_REVEAL'' (Some [''MOLTBOT_DEBUG_REASONING_REVEAL'']) None = Inr (Some ''1'')"
  by code_simp

lemma demo_reveal_client: "get_client_ip (\<lambda>_. None) demo_reveal_env demo_reveal_request = ''127.0.0.1''"
  unfolding get_client_ip_def demo_reveal_values by (simp add: demo_reveal_request_def or_text_def)

lemma demo_reveal_loopback: "is_loopback (\<lambda>_. None) ''127.0.0.1''"
  by code_simp

lemma demo_reveal_admin: "require_admin_token (\<lambda>_. None) demo_reveal_env demo_reveal_request = Some (True, [])"
proof -
  have "fst (get_header_alias_value (rq_headers demo_reveal_request) ADMIN_TOKEN_HEADERS) = ''secret''" by code_simp
  moreover have "env_text demo_reveal_env ''OPENCLAW_ADMIN_TOKEN'' = ''secret''" unfolding env_text_def demo_reveal_values by code_simp
  ultimately show ?thesis by (simp add: require_admin_token_def compare_digest_def is_ascii_def)
qed

lemma demo_reveal_gate: "rd_allowed (resolve_reasoning_reveal (\<lambda>_. None) demo_reveal_env demo_reveal_request Map.empty True)"
proof -
  have "is_truthy_flag (rq_headers demo_reveal_request ''X-OpenClaw-Debug-Reveal-Reasoning'')" "is_truthy_flag (Some ''1'')"
    "\<not> is_hardened_mode demo_reveal_env" "deployment_profile demo_reveal_env = ''local''" by code_simp+
  then show ?thesis unfolding resolve_reasoning_reveal_def demo_reveal_flag demo_reveal_client by (simp add: demo_reveal_loopback)
qed

lemma demo_thought_page: "ep_events (poll_page 600 1 Map.empty demo_thought_store) = [demo_thought]"
proof -
  have q: "pm_limit (normalize_cursor_limit Map.empty ''since'' 0 0 50 200) = 50" "pm_cursor (normalize_cursor_limit Map.empty ''since'' 0 0 50 200) = Some 0"
    unfolding cursor_page by (simp_all add: parse_int_def)
  have r: "fst (events_since_bounded 600 1 0 50 None 500 demo_thought_store) = [demo_thought]"
    by (simp add: events_since_bounded_take demo_thought_store_def wanted_def demo_thought_def demo_event_def)
  show ?thesis unfolding poll_page_def q Let_def split_def
    by (simp add: r latest_seq_def split: option.split) (simp add: demo_thought_store_def)
qed

theorem poll_hides_reasoning_witness:
  "fst (the (require_admin_token (\<lambda>_. None) demo_reveal_env demo_reveal_request)) \<and> \<not> is_hardened_mode demo_reveal_env
    \<and> deployment_profile demo_reveal_env \<in> {''local'', ''lan''} \<and> is_loopback (\<lambda>_. None) (get_client_ip (\<lambda>_. None) demo_reveal_env demo_reveal_request)"
proof (rule poll_hides_reasoning)
  have obs: "require_observability_access (\<lambda>_. None) demo_reveal_env demo_reveal_request = Some (True, [])"
    by (simp add: require_observability_access_def demo_reveal_client demo_reveal_loopback)
  show "events_poll (\<lambda>_. None) demo_reveal_env 600 1 True demo_reveal_request Map.empty demo_thought_store
    = Some (Poll_ok [event_to_dict True demo_thought] (poll_page 600 1 Map.empty demo_thought_store))"
    by (simp add: events_poll_def obs demo_reveal_admin demo_reveal_gate demo_thought_page)
  show "list_all (\<lambda>e. wf_json (JObj (je_data e))) (ep_events (poll_page 600 1 Map.empty demo_thought_store))"
    by (simp add: demo_thought_page) (simp add: demo_thought_def)
  have "sanitize_operator_payload True (JObj [(''reasoning'', JStr ''because'')]) = JObj [(''reasoning'', JStr ''because'')]" by code_simp
  moreover have "\<not> everywhere public_here (JObj [(''reasoning'', JStr ''because'')])" by code_simp
  ultimately show "\<not> list_all (everywhere public_here) [event_to_dict True demo_thought]"
    by (simp add: event_to_dict_def event_payload_def demo_thought_def del: everywhere.simps) simp
qed

end
