(* ===== verification/Traces.thy ===== *)
theory Traces
  imports Json Targets Webhook_Auth Ttl_Cache
begin

text \<open>
  Trace identifiers (\<open>services/trace.py\<close>) and the timeline kept per prompt
  (\<open>services/trace_store.py\<close>) over the cache with expiry. The random identifier is an argument.
\<close>

subsection \<open>Identifiers\<close>

definition trace_id_pattern :: "string \<Rightarrow> bool" where
  "trace_id_pattern = rep_class (alnum_or ''_-'') 1 64"

definition validate_trace_id :: "string \<Rightarrow> bool" where
  "validate_trace_id t = (if t = [] then False else match_end trace_id_pattern (py_strip t))"

definition normalize_trace_id :: "string option \<Rightarrow> string option" where
  "normalize_trace_id t = (case t of None \<Rightarrow> None | Some s \<Rightarrow>
     if s = [] then None
     else let u = py_strip s in if u = [] \<or> length u > 64 then None else if \<not> match_end trace_id_pattern u then None else Some u)"

definition get_or_create_trace_id :: "string \<Rightarrow> string option \<Rightarrow> string" where
  "get_or_create_trace_id new_id user = (case user of Some t \<Rightarrow> if t \<noteq> [] \<and> validate_trace_id t then t else new_id | None \<Rightarrow> new_id)"

definition TRACE_ID_HEADERS :: header_alias where
  "TRACE_ID_HEADERS = \<lparr>ha_primary = ''X-OpenClaw-Trace-Id'', ha_legacy = ''X-Moltbot-Trace-Id''\<rparr>"

text \<open>A true value of the body that is no text raises \<open>AttributeError\<close>: \<open>None\<close>.\<close>

definition get_effective_trace_id :: "string \<Rightarrow> headers \<Rightarrow> (string \<times> json) list \<Rightarrow> string option" where
  "get_effective_trace_id new_id headers body =
    (let header_trace = fst (get_header_alias_value headers TRACE_ID_HEADERS);
         field = (\<lambda>k. case dget body k of None \<Rightarrow> JNull | Some v \<Rightarrow> v);
         body_trace = (if truthy (field ''trace_id'') then field ''trace_id'' else field ''traceId'')
     in if header_trace \<noteq> [] then Some (get_or_create_trace_id new_id (Some header_trace))
        else if \<not> truthy body_trace then Some new_id
        else case body_trace of JStr t \<Rightarrow> Some (get_or_create_trace_id new_id (Some t)) | _ \<Rightarrow> None)"

subsection \<open>Timelines\<close>

record trace_event =
  tn_ts :: time
  tn_event :: string
  tn_meta :: "(string \<times> json) list"

record trace_record =
  tn_prompt_id :: string
  tn_trace_id :: string
  tn_created_at :: time
  tn_events :: "trace_event list"

definition trace_to_dict :: "trace_record \<Rightarrow> json" where
  "trace_to_dict r = JObj [(''prompt_id'', JStr (tn_prompt_id r)), (''trace_id'', JStr (tn_trace_id r)),
     (''created_at'', JFloat (tn_created_at r)),
     (''events'', JArr (map (\<lambda>e. JObj [(''ts'', JFloat (tn_ts e)), (''event'', JStr (tn_event e)), (''meta'', JObj (tn_meta e))])
        (take_last 50 (tn_events r))))]"

type_synonym trace_cache = "trace_record ttl_cache"

definition trace_store :: "int \<Rightarrow> time \<Rightarrow> trace_cache" where
  "trace_store = make_cache"

text \<open>The record found is changed in place: its entry keeps its time and its place.\<close>

definition init_prompt :: "time \<Rightarrow> string \<Rightarrow> string \<Rightarrow> trace_cache \<Rightarrow> trace_record \<times> trace_cache" where
  "init_prompt now prompt_id trace_id c =
    (case cache_get now prompt_id c of
       (Some r, c1) \<Rightarrow>
         if tn_trace_id r = [] \<and> trace_id \<noteq> [] then
           (let r1 = r\<lparr>tn_trace_id := trace_id\<rparr> in
             (r1, c1\<lparr>tc_cache := map (\<lambda>(k, ts, v). (k, ts, if k = prompt_id then r1 else v)) (tc_cache c1)\<rparr>))
         else (r, c1)
     | (None, c1) \<Rightarrow>
         let r = \<lparr>tn_prompt_id = prompt_id, tn_trace_id = trace_id, tn_created_at = now, tn_events = []\<rparr> in (r, cache_put now prompt_id r c1))"

definition add_trace_event :: "time \<Rightarrow> string \<Rightarrow> string \<Rightarrow> string \<Rightarrow> (string \<times> json) list option \<Rightarrow> trace_cache \<Rightarrow> trace_cache" where
  "add_trace_event now prompt_id trace_id event meta c =
    (let (r, c1) = init_prompt now prompt_id trace_id c;
         e = \<lparr>tn_ts = now, tn_event = event, tn_meta = (case meta of None \<Rightarrow> [] | Some m \<Rightarrow> m)\<rparr>
     in cache_put now prompt_id (r\<lparr>tn_events := tn_events r @ [e]\<rparr>) c1)"

definition get_trace :: "time \<Rightarrow> string \<Rightarrow> trace_cache \<Rightarrow> trace_record option \<times> trace_cache" where
  "get_trace = cache_get"

subsection \<open>What is accepted as an identifier\<close>

lemma pattern_stripped: "match_end trace_id_pattern (py_strip t) \<Longrightarrow> trace_id_pattern (py_strip t)"
proof -
  assume m: "match_end trace_id_pattern (py_strip t)"
  have "last (py_strip t) \<noteq> CHR 0x0A" if "py_strip t \<noteq> []"
  proof -
    define u where "u = dropWhile is_space t"
    have "py_strip t = rev (dropWhile is_space (rev u))" by (simp add: py_strip_def u_def)
    then have "last (py_strip t) = hd (dropWhile is_space (rev u))" "dropWhile is_space (rev u) \<noteq> []" using that by (auto simp: last_rev)
    then have "\<not> is_space (last (py_strip t))" by (simp add: hd_dropWhile)
    moreover have "is_space (CHR 0x0A)" by code_simp
    ultimately show ?thesis by metis
  qed
  then show ?thesis using m by (auto simp: match_end_def)
qed

text \<open>A normalised identifier has 1 to 64 letters, digits, dashes or underscores.\<close>

lemma normalized_trace_id: "normalize_trace_id t = Some u \<Longrightarrow> trace_id_pattern u"
  using pattern_stripped by (auto simp: normalize_trace_id_def Let_def split: option.splits if_splits)

text \<open>Without its surrounding blanks, so has the identifier of a request.\<close>

lemma effective_trace_id:
  assumes "get_effective_trace_id new_id headers body = Some t"
  shows "t = new_id \<or> trace_id_pattern (py_strip t)"
  using assms pattern_stripped
  by (auto simp: get_effective_trace_id_def get_or_create_trace_id_def validate_trace_id_def Let_def split: if_splits option.splits json.splits)

text \<open>The check is made on the stripped text but the text itself is returned: a line break passes.\<close>

lemma padded_trace_id_accepted:
  "get_effective_trace_id new_id Map.empty [(''trace_id'', JStr (''abc'' @ [CHR 0x0D, CHR 0x0A]))] = Some (''abc'' @ [CHR 0x0D, CHR 0x0A])"
proof -
  have "validate_trace_id (''abc'' @ [CHR 0x0D, CHR 0x0A])" by code_simp
  then show ?thesis by (simp add: get_effective_trace_id_def get_or_create_trace_id_def get_header_alias_value_def header_value_def)
qed

subsection \<open>What a timeline keeps\<close>

lemma init_prompt_record:
  "cache_ok c \<Longrightarrow> tn_events (fst (init_prompt now p t c)) = (case fst (cache_get now p c) of Some r \<Rightarrow> tn_events r | None \<Rightarrow> [])"
  by (auto simp: init_prompt_def Let_def split: prod.split option.split)

lemma dget_same_keys: "dget (map (\<lambda>(k, ts, v). (k, ts, if k = p then r else v)) d) k
  = map_option (\<lambda>(ts, v). (ts, if k = p then r else v)) (dget d k)"
  by (induction d) auto

lemma init_prompt_ok: "cache_ok c \<Longrightarrow> 0 \<le> tc_max_size c \<Longrightarrow>
  cache_ok (snd (init_prompt now p t c)) \<and> tc_max_size (snd (init_prompt now p t c)) = tc_max_size c"
proof -
  assume ok: "cache_ok c" "0 \<le> tc_max_size c"
  obtain g c1 where g: "cache_get now p c = (g, c1)" by (cases "cache_get now p c")
  have c1: "cache_ok c1" "tc_max_size c1 = tc_max_size c" using cache_step_ok [OF ok, of "Get now p"] by (simp_all add: g)
  have p: "cache_ok (cache_put now p r c1)" "tc_max_size (cache_put now p r c1) = tc_max_size c" for r
    using cache_step_ok [of c1 "Put now p r"] c1 ok(2) by simp_all
  have m: "cache_ok (c1\<lparr>tc_cache := map (\<lambda>(k, ts, v). (k, ts, if k = p then r else v)) (tc_cache c1)\<rparr>)" for r
    using c1 by (simp add: cache_ok_def split_def comp_def)
  show ?thesis using c1 p m by (cases g) (simp_all add: init_prompt_def g Let_def)
qed

lemma add_trace_event_ok: "cache_ok c \<Longrightarrow> 0 \<le> tc_max_size c \<Longrightarrow>
  cache_ok (add_trace_event now p t e m c) \<and> tc_max_size (add_trace_event now p t e m c) = tc_max_size c"
proof -
  assume ok: "cache_ok c" "0 \<le> tc_max_size c"
  then show ?thesis using init_prompt_ok [OF ok, of now p t] cache_step_ok [of "snd (init_prompt now p t c)" "Put now p r" for r]
    by (simp add: add_trace_event_def Let_def split_def)
qed

lemma dput_at_end: "k \<notin> set (dkeys d) \<Longrightarrow> dput k v (d @ [(k, w)]) = d @ [(k, v)]"
  by (induction d) auto

lemma dput_moved: "dput k v (filter (\<lambda>p. fst p \<noteq> k) d @ [(k, w)]) = filter (\<lambda>p. fst p \<noteq> k) d @ [(k, v)]"
  by (rule dput_at_end) auto

text \<open>An event is at the end of its prompt's timeline, after those that were there.\<close>

lemma put_then_get:
  assumes "cache_ok c" and "0 < tc_max_size c" and "0 \<le> tc_ttl_sec c"
  shows "fst (cache_get now k (cache_put now k v c)) = Some v"
proof -
  define d where "d = put_last k (now, v) (tc_cache c)"
  have ok: "dict_ok d" and get: "dget d k = Some (now, v)" using assms(1) put_last_dict [of "tc_cache c" k "(now, v)"] by (auto simp: d_def cache_ok_def)
  have end': "last d = (k, (now, v))" "d \<noteq> []"
    using assms(1)
    by (auto simp: d_def put_last_def move_to_end_def dput_new dput_moved cache_ok_def ddel_filter split: option.splits)
  have "dget (tl d) k = Some (now, v)" if big: "int (length d) > tc_max_size c"
  proof -
    obtain x y xs where d: "d = x # y # xs" using big assms(2) by (cases d; cases "tl d") auto
    then have "(k, (now, v)) \<in> set (tl d)" using end'(1) by (metis last_in_set last_ConsR list.distinct(1) list.sel(3))
    moreover have "dict_ok (tl d)" using ok by (simp add: d)
    ultimately show ?thesis by (simp add: dget_iff)
  qed
  then show ?thesis using get assms(3) by (auto simp: cache_put_def cache_get_def Let_def d_def [symmetric])
qed

lemma event_appended:
  assumes "cache_ok c" and "0 < tc_max_size c" and "0 \<le> tc_ttl_sec c"
  shows "map_option (map tn_event \<circ> tn_events) (fst (get_trace now p (add_trace_event now p t e m c)))
    = Some ((case fst (cache_get now p c) of Some r \<Rightarrow> map tn_event (tn_events r) | None \<Rightarrow> []) @ [e])"
proof -
  define i where "i = init_prompt now p t c"
  have ttl: "tc_ttl_sec (snd i) = tc_ttl_sec c"
    by (auto simp: i_def init_prompt_def cache_get_def cache_put_def Let_def split: option.split prod.split)
  have ok: "cache_ok (snd i)" "0 < tc_max_size (snd i)" using init_prompt_ok [of c now p t] assms by (simp_all add: i_def)
  show ?thesis using put_then_get [OF ok, of now p] ttl assms(3) init_prompt_record [OF assms(1), of now p t]
    by (simp add: add_trace_event_def get_trace_def i_def [symmetric] split_def Let_def split: option.split)
qed

end
