(* ===== verification/Safe_Path.thy ===== *)
theory Safe_Path
  imports Prelude
begin

text \<open>
  Paths under an allowed root (the first half of \<open>services/safe_io.py\<close>), on POSIX. The resolution
  of symbolic links (\<open>os.path.realpath\<close>) depends on the file system and is an argument; the
  purely textual functions of \<open>os.path\<close> are written out. A file system is a map from absolute
  paths to contents.
\<close>

subsection \<open>The functions of \<open>os.path\<close>\<close>

definition path_join :: "string \<Rightarrow> string \<Rightarrow> string" where
  "path_join a b = (if starts_with ''/'' b then b else if a = [] \<or> last a = CHR ''/'' then a @ b else a @ CHR ''/'' # b)"

text \<open>The components of a path that count: not empty, not a dot.\<close>

definition path_parts :: "string \<Rightarrow> string list" where
  "path_parts p = filter (\<lambda>c. c \<noteq> [] \<and> c \<noteq> ''.'') (split_on (CHR ''/'') p)"

fun norm_parts :: "bool \<Rightarrow> string list \<Rightarrow> string list \<Rightarrow> string list" where
  "norm_parts absolute acc [] = rev acc"
| "norm_parts absolute acc (c # cs) =
    (if c \<noteq> ''..'' then norm_parts absolute (c # acc) cs
     else (case acc of
        [] \<Rightarrow> if absolute then norm_parts absolute [] cs else norm_parts absolute [c] cs
      | d # ds \<Rightarrow> if d = ''..'' then norm_parts absolute (c # acc) cs else norm_parts absolute ds cs))"

definition leading_slashes :: "string \<Rightarrow> string" where
  "leading_slashes p = (if \<not> starts_with ''/'' p then [] else if starts_with ''//'' p \<and> \<not> starts_with ''///'' p then ''//'' else ''/'')"

definition normpath :: "string \<Rightarrow> string" where
  "normpath p = (let r = leading_slashes p @ join_with (CHR ''/'') (norm_parts (leading_slashes p \<noteq> []) [] (path_parts p))
     in if r = [] then ''.'' else r)"

fun common_prefix :: "string list \<Rightarrow> string list \<Rightarrow> string list" where
  "common_prefix (a # as) (b # bs) = (if a = b then a # common_prefix as bs else [])"
| "common_prefix _ _ = []"

text \<open>\<open>os.path.commonpath\<close> of two paths: \<open>None\<close> is \<open>ValueError\<close>, for an absolute and a relative one.\<close>

definition commonpath :: "string \<Rightarrow> string \<Rightarrow> string option" where
  "commonpath a b = (if starts_with ''/'' a \<noteq> starts_with ''/'' b then None
     else Some ((if starts_with ''/'' a then ''/'' else []) @ join_with (CHR ''/'') (common_prefix (path_parts a) (path_parts b))))"

subsection \<open>Resolution under a root\<close>

text \<open>\<open>None\<close> is \<open>PathTraversalError\<close>.\<close>

definition resolve_under_root :: "(string \<Rightarrow> string) \<Rightarrow> bool \<Rightarrow> string \<Rightarrow> string \<Rightarrow> string option" where
  "resolve_under_root realpath follow_symlinks root_dir rel_path =
    (let r = realpath root_dir in
     if starts_with ''/'' rel_path then None
     else if length rel_path \<ge> 2 \<and> rel_path ! 1 = CHR '':'' then None
     else let joined = path_join r rel_path;
              full = (if follow_symlinks then realpath joined else normpath (normpath joined)) in
       if commonpath r full \<noteq> Some r then None
       else if \<not> starts_with (r @ ''/'') full \<and> full \<noteq> r then None
       else Some full)"

type_synonym files = "string \<rightharpoonup> string"

datatype path_error = Path_traversal | File_not_found

definition safe_read_bytes :: "(string \<Rightarrow> string) \<Rightarrow> files \<Rightarrow> string \<Rightarrow> string \<Rightarrow> nat \<Rightarrow> path_error + string" where
  "safe_read_bytes realpath fs root_dir rel_path max_bytes = (case resolve_under_root realpath True root_dir rel_path of
     None \<Rightarrow> Inl Path_traversal
   | Some path \<Rightarrow> (case fs path of None \<Rightarrow> Inl File_not_found | Some data \<Rightarrow> Inr (take max_bytes data)))"

subsection \<open>Writing, one system call after the other\<close>

text \<open>The path with the given components.\<close>

definition abs_path :: "string list \<Rightarrow> string" where
  "abs_path cs = CHR ''/'' # join_with (CHR ''/'') cs"

record disk =
  dk_files :: files
  dk_dirs :: "string set"

text \<open>
  How the system calls of one write go: which directories can be made, whether \<open>mkstemp\<close> can
  create files and which random names it draws, whether the target can be opened, after how many
  characters the write fails (\<open>None\<close>: it does not), and whether \<open>os.replace\<close> and \<open>os.unlink\<close>
  succeed.
\<close>

record syscalls =
  sy_mkdir :: "string \<Rightarrow> bool"
  sy_mkstemp :: bool
  sy_random :: "string list"
  sy_open :: bool
  sy_written :: "nat option"
  sy_replace :: bool
  sy_unlink :: bool

datatype write_error = Write_traversal | Write_failed

text \<open>\<open>os.path.dirname\<close>.\<close>

definition dirname :: "string \<Rightarrow> string" where
  "dirname p = (let head = rev (dropWhile (\<lambda>c. c \<noteq> CHR ''/'') (rev p))
     in if list_all (\<lambda>c. c = CHR ''/'') head then head else rev (dropWhile (\<lambda>c. c = CHR ''/'') (rev head)))"

text \<open>
  \<open>os.makedirs\<close> with \<open>exist_ok\<close> makes the missing directories from the top down. Every function
  here gives, beside its outcome, the states of the disk it goes through, in order.
\<close>

fun make_dirs :: "syscalls \<Rightarrow> disk \<Rightarrow> string list \<Rightarrow> string list \<Rightarrow> bool \<times> disk list" where
  "make_dirs y d pre [] = (True, [])"
| "make_dirs y d pre (c # cs) = (let p = abs_path (pre @ [c]) in
     if p \<in> dk_dirs d then make_dirs y d (pre @ [c]) cs
     else if dk_files d p \<noteq> None \<or> \<not> sy_mkdir y p then (False, [])
     else let d1 = d\<lparr>dk_dirs := insert p (dk_dirs d)\<rparr>; (made, ds) = make_dirs y d1 (pre @ [c]) cs in (made, d1 # ds))"

definition temp_name :: "string \<Rightarrow> string \<Rightarrow> string" where
  "temp_name dir n = path_join dir (''.tmp_'' @ n @ ''.tmp'')"

text \<open>\<open>mkstemp\<close> draws names until one is free.\<close>

definition mkstemp :: "syscalls \<Rightarrow> disk \<Rightarrow> string \<Rightarrow> string option" where
  "mkstemp y d dir = (if sy_mkstemp y then find (\<lambda>t. dk_files d t = None \<and> t \<notin> dk_dirs d) (map (temp_name dir) (sy_random y)) else None)"

definition set_file :: "string \<Rightarrow> string option \<Rightarrow> disk \<Rightarrow> disk" where
  "set_file p text_at d = d\<lparr>dk_files := (dk_files d)(p := text_at)\<rparr>"

definition written_part :: "syscalls \<Rightarrow> string \<Rightarrow> string" where
  "written_part y content = (case sy_written y of None \<Rightarrow> content | Some n \<Rightarrow> take n content)"

text \<open>
  The write through a temporary file: create it, fill it, put it in the target's place; on any
  exception it is removed, if it can be. A directory is not replaced by a file.
\<close>

definition replace_text :: "syscalls \<Rightarrow> disk \<Rightarrow> string \<Rightarrow> string \<Rightarrow> bool \<times> disk list" where
  "replace_text y d path content = (case mkstemp y d (dirname path) of
     None \<Rightarrow> (False, [])
   | Some t \<Rightarrow> (let d1 = set_file t (Some []) d; d2 = set_file t (Some (written_part y content)) d1 in
       if sy_written y = None \<and> sy_replace y \<and> path \<notin> dk_dirs d
       then (True, [d1, d2, set_file path (dk_files d2 t) (set_file t None d2)])
       else (False, [d1, d2] @ (if sy_unlink y then [set_file t None d2] else []))))"

definition overwrite_text :: "syscalls \<Rightarrow> disk \<Rightarrow> string \<Rightarrow> string \<Rightarrow> bool \<times> disk list" where
  "overwrite_text y d path content = (if path \<in> dk_dirs d \<or> \<not> sy_open y then (False, [])
     else let d1 = set_file path (Some []) d in (sy_written y = None, [d1, set_file path (Some (written_part y content)) d1]))"

definition safe_write_text :: "(string \<Rightarrow> string) \<Rightarrow> syscalls \<Rightarrow> disk \<Rightarrow> string \<Rightarrow> string \<Rightarrow> string \<Rightarrow> bool \<Rightarrow> write_error option \<times> disk list" where
  "safe_write_text realpath y d root_dir rel_path content atomic = (case resolve_under_root realpath True root_dir rel_path of
     None \<Rightarrow> (Some Write_traversal, [])
   | Some path \<Rightarrow> (let (made, ds) = make_dirs y d [] (path_parts (dirname path)) in
       if \<not> made then (Some Write_failed, ds)
       else let (ok, es) = (if atomic then replace_text y (last (d # ds)) path content else overwrite_text y (last (d # ds)) path content)
         in (if ok then None else Some Write_failed, ds @ es)))"

subsection \<open>Paths in normal form\<close>

text \<open>What \<open>realpath\<close> returns: an absolute path without empty components, dots and double dots.\<close>

definition plain_part :: "string \<Rightarrow> bool" where
  "plain_part c \<longleftrightarrow> c \<noteq> [] \<and> c \<noteq> ''.'' \<and> c \<noteq> ''..'' \<and> CHR ''/'' \<notin> set c"

definition real_path :: "string \<Rightarrow> bool" where
  "real_path p \<longleftrightarrow> (\<exists>cs. list_all plain_part cs \<and> p = abs_path cs)"

lemma split_join_plain: "list_all plain_part cs \<Longrightarrow> cs \<noteq> [] \<Longrightarrow> split_on (CHR ''/'') (join_with (CHR ''/'') cs) = cs"
  by (rule split_join) (auto simp: list_all_iff plain_part_def)

lemma path_parts_slash: "path_parts (CHR ''/'' # p) = path_parts p"
  by (simp add: path_parts_def)

lemma path_parts_join [simp]: "list_all plain_part cs \<Longrightarrow> path_parts (join_with (CHR ''/'') cs) = cs"
proof (cases "cs = []")
  case True
  then show ?thesis by (simp add: path_parts_def)
next
  case False
  assume "list_all plain_part cs"
  then show ?thesis using False by (auto simp: path_parts_def split_join_plain list_all_iff plain_part_def intro!: filter_True)
qed

lemma path_parts_abs [simp]: "list_all plain_part cs \<Longrightarrow> path_parts (abs_path cs) = cs"
  by (simp add: abs_path_def path_parts_slash)

lemma abs_path_inject: "list_all plain_part cs \<Longrightarrow> list_all plain_part ds \<Longrightarrow> abs_path cs = abs_path ds \<longleftrightarrow> cs = ds"
  by (metis path_parts_abs)

lemma common_prefix_plain: "list_all plain_part cs \<Longrightarrow> list_all plain_part (common_prefix cs ds)"
  by (induction cs ds rule: common_prefix.induct) auto

lemma common_prefix_all: "common_prefix cs ds = cs \<longleftrightarrow> (\<exists>rest. ds = cs @ rest)"
proof (induction cs arbitrary: ds)
  case Nil
  then show ?case by (cases ds) auto
next
  case (Cons c cs)
  then show ?case by (cases ds) auto
qed

lemma commonpath_abs:
  "list_all plain_part cs \<Longrightarrow> list_all plain_part ds \<Longrightarrow> commonpath (abs_path cs) (abs_path ds) = Some (abs_path (common_prefix cs ds))"
  by (simp add: commonpath_def) (simp add: abs_path_def starts_with_def)

lemma join_with_append: "cs \<noteq> [] \<Longrightarrow> ds \<noteq> [] \<Longrightarrow> join_with c (cs @ ds) = join_with c cs @ c # join_with c ds"
proof (induction c cs rule: join_with.induct)
  case (2 c x)
  then show ?case by (cases ds) auto
qed auto

lemma join_with_last: "list_all plain_part cs \<Longrightarrow> cs \<noteq> [] \<Longrightarrow> last (join_with (CHR ''/'') cs) \<noteq> CHR ''/'' \<and> join_with (CHR ''/'') cs \<noteq> []"
proof (induction cs)
  case (Cons b bs)
  then show ?case by (cases bs) (auto simp: plain_part_def dest: last_in_set)
qed simp

lemma norm_parts_plain: "list_all plain_part cs \<Longrightarrow> norm_parts absolute acc cs = rev acc @ cs"
  by (induction cs arbitrary: acc) (auto simp: plain_part_def)

lemma normpath_abs: "list_all plain_part cs \<Longrightarrow> normpath (abs_path cs) = abs_path cs"
proof -
  assume cs: "list_all plain_part cs"
  have "leading_slashes (abs_path cs) = ''/''"
    using cs by (cases cs; cases "tl cs") (auto simp: leading_slashes_def starts_with_def abs_path_def plain_part_def neq_Nil_conv)
  then show ?thesis using cs by (simp add: normpath_def norm_parts_plain) (simp add: abs_path_def)
qed

text \<open>A lexical resolution of an absolute path is in normal form as well.\<close>

lemma norm_parts_absolute:
  "list_all plain_part acc \<Longrightarrow> \<forall>c \<in> set cs. c \<noteq> [] \<and> c \<noteq> ''.'' \<and> CHR ''/'' \<notin> set c \<Longrightarrow> list_all plain_part (norm_parts True acc cs)"
proof (induction cs arbitrary: acc)
  case Nil
  then show ?case by (simp add: list_all_iff)
next
  case (Cons c cs)
  show ?case
  proof (cases "c = ''..''")
    case False
    then show ?thesis using Cons by (simp add: plain_part_def)
  next
    case True
    then show ?thesis using Cons by (cases acc) (auto simp: plain_part_def)
  qed
qed

lemma path_parts_clean: "c \<in> set (path_parts p) \<Longrightarrow> c \<noteq> [] \<and> c \<noteq> ''.'' \<and> CHR ''/'' \<notin> set c"
  using split_on_pieces [of c "CHR ''/''" p] by (auto simp: path_parts_def)

lemma normpath_absolute:
  assumes "starts_with ''/'' p" and "\<not> starts_with ''//'' p"
  shows "real_path (normpath p)"
proof -
  have "leading_slashes p = ''/''" using assms by (simp add: leading_slashes_def)
  then have "normpath p = abs_path (norm_parts True [] (path_parts p))" by (simp add: normpath_def abs_path_def)
  moreover have "list_all plain_part (norm_parts True [] (path_parts p))" using path_parts_clean by (intro norm_parts_absolute) auto
  ultimately show ?thesis by (auto simp: real_path_def)
qed

lemma abs_path_slashes: "list_all plain_part cs \<Longrightarrow> starts_with ''/'' (abs_path cs) \<and> \<not> starts_with ''//'' (abs_path cs)"
  by (cases cs; cases "tl cs") (auto simp: starts_with_def abs_path_def plain_part_def neq_Nil_conv)

lemma joined_slashes:
  assumes "list_all plain_part cs" and "\<not> starts_with ''/'' rel"
  shows "starts_with ''/'' (path_join (abs_path cs) rel) \<and> \<not> starts_with ''//'' (path_join (abs_path cs) rel)"
proof (cases "cs = []")
  case True
  then show ?thesis using assms(2) by (cases rel) (auto simp: path_join_def abs_path_def starts_with_def)
next
  case False
  then obtain c t where c: "abs_path cs = CHR ''/'' # c # t" "c \<noteq> CHR ''/''"
    using assms(1) by (cases cs; cases "tl cs") (auto simp: abs_path_def plain_part_def neq_Nil_conv)
  then show ?thesis using assms(2) by (auto simp: path_join_def starts_with_def)
qed

lemma resolved_full:
  assumes "\<And>p. real_path (realpath p)" and "resolve_under_root realpath follow root_dir rel = Some p"
  shows "real_path p \<and> commonpath (realpath root_dir) p = Some (realpath root_dir)"
proof -
  obtain cs where cs: "list_all plain_part cs" "realpath root_dir = abs_path cs" using assms(1) by (auto simp: real_path_def)
  have rel: "\<not> starts_with ''/'' rel" using assms(2) by (auto simp: resolve_under_root_def Let_def split: if_splits)
  have n: "real_path (normpath (path_join (realpath root_dir) rel))" using joined_slashes [OF cs(1) rel] cs(2) normpath_absolute by simp
  then have "normpath (normpath (path_join (realpath root_dir) rel)) = normpath (path_join (realpath root_dir) rel)"
    using normpath_abs by (auto simp: real_path_def)
  then show ?thesis using assms n by (auto simp: resolve_under_root_def Let_def split: if_splits)
qed

subsection \<open>Where the resolution falls short\<close>

text \<open>With the root directory itself as the root every path is refused, as the test looks for two slashes.\<close>

lemma root_directory_refused:
  assumes "\<And>p. real_path (realpath p)" and "realpath root_dir = ''/''"
    and "resolve_under_root realpath follow root_dir rel = Some p"
  shows "p = ''/''"
proof -
  obtain cs where "list_all plain_part cs" "p = abs_path cs"
    using resolved_full [OF assms(1,3)] by (auto simp: real_path_def)
  then have "\<not> starts_with (''/'' @ ''/'') p" using abs_path_slashes by simp
  then show ?thesis using assms(2,3) by (auto simp: resolve_under_root_def Let_def split: if_splits)
qed

subsection \<open>Properties\<close>

text \<open>
  A resolved path is the root followed by plain components: it never leaves the root, whatever the
  relative path contains and wherever symbolic links lead. The hypothesis is what \<open>realpath\<close>
  documents: it returns an absolute path in normal form.
\<close>

theorem resolved_inside:
  assumes "\<And>p. real_path (realpath p)" and "resolve_under_root realpath follow root_dir rel = Some p"
  shows "\<exists>base rest. list_all plain_part (base @ rest) \<and> realpath root_dir = abs_path base \<and> p = abs_path (base @ rest)"
proof -
  obtain cs where cs: "list_all plain_part cs" "realpath root_dir = abs_path cs" using assms(1) by (auto simp: real_path_def)
  obtain ds where ds: "list_all plain_part ds" "p = abs_path ds" using resolved_full [OF assms] by (auto simp: real_path_def)
  have "commonpath (abs_path cs) (abs_path ds) = Some (abs_path cs)" using resolved_full [OF assms] cs ds by simp
  then have "common_prefix cs ds = cs"
    using abs_path_inject [OF common_prefix_plain [OF cs(1)] cs(1)] commonpath_abs [OF cs(1) ds(1)] by simp
  then obtain rest where "ds = cs @ rest" by (auto simp: common_prefix_all)
  then show ?thesis using cs ds by metis
qed

text \<open>
  A relative path of plain components resolves to the root followed by it, where no symbolic link
  is on the way: nothing that stays inside is refused (below a root that is not \<open>/\<close> itself, and
  unless the second character is a colon).
\<close>

lemma plain_resolves:
  assumes "realpath root_dir = abs_path base" and "list_all plain_part (base @ rest)" and "base \<noteq> []" and "rest \<noteq> []"
    and "realpath (abs_path (base @ rest)) = abs_path (base @ rest)"
    and "\<not> (2 \<le> length (join_with (CHR ''/'') rest) \<and> join_with (CHR ''/'') rest ! 1 = CHR '':'')"
  shows "resolve_under_root realpath follow root_dir (join_with (CHR ''/'') rest) = Some (abs_path (base @ rest))"
proof -
  let ?rel = "join_with (CHR ''/'') rest"
  have plain: "list_all plain_part base" "list_all plain_part rest" using assms(2) by auto
  have rel: "\<not> starts_with ''/'' ?rel"
    using plain(2) assms(4) by (cases rest; cases "tl rest") (auto simp: starts_with_def plain_part_def neq_Nil_conv)
  have "path_join (abs_path base) ?rel = abs_path base @ CHR ''/'' # ?rel" using rel join_with_last [OF plain(1) assms(3)] by (simp add: path_join_def abs_path_def)
  then have joined: "path_join (abs_path base) ?rel = abs_path (base @ rest)"
    using assms(3,4) by (simp add: abs_path_def join_with_append)
  have common: "commonpath (abs_path base) (abs_path (base @ rest)) = Some (abs_path base)"
    using commonpath_abs [OF plain(1) assms(2)] common_prefix_all [of base "base @ rest"] by simp
  have "starts_with (abs_path base @ ''/'') (abs_path (base @ rest))"
    using assms(3,4) by (simp add: abs_path_def join_with_append starts_with_def)
  then show ?thesis using rel assms(5,6) common normpath_abs [OF assms(2)]
    by (simp add: resolve_under_root_def Let_def assms(1) joined) (metis (no_types))
qed

text \<open>The path is the root or below it.\<close>

definition inside :: "string \<Rightarrow> string \<Rightarrow> bool" where
  "inside base_dir p \<longleftrightarrow> (\<exists>base rest. list_all plain_part (base @ rest) \<and> base_dir = abs_path base \<and> p = abs_path (base @ rest))"

lemma dirname_abs:
  assumes "list_all plain_part (cs @ [c])"
  shows "dirname (abs_path (cs @ [c])) = abs_path cs"
proof -
  have slash: "CHR ''/'' \<notin> set c" using assms by (simp add: plain_part_def)
  have drop: "dropWhile (\<lambda>x. x \<noteq> CHR ''/'') (rev c @ CHR ''/'' # r) = CHR ''/'' # r" for r
    using slash by (subst dropWhile_append2) auto
  show ?thesis
  proof (cases "cs = []")
    case True
    then show ?thesis using drop [of "[]"] by (simp add: dirname_def abs_path_def)
  next
    case False
    obtain xs x where x: "join_with (CHR ''/'') cs = xs @ [x]" "x \<noteq> CHR ''/''"
      using join_with_last [of cs] assms False by (metis append_butlast_last_id list_all_append)
    have "abs_path (cs @ [c]) = CHR ''/'' # xs @ [x] @ CHR ''/'' # c"
      using False x(1) by (simp add: abs_path_def join_with_append)
    then show ?thesis using drop [of "x # rev xs @ ''/''"] x by (simp add: dirname_def abs_path_def)
  qed
qed

lemma temp_name_abs:
  assumes "list_all plain_part cs" and "CHR ''/'' \<notin> set n"
  shows "temp_name (abs_path cs) n = abs_path (cs @ [''.tmp_'' @ n @ ''.tmp'']) \<and> plain_part (''.tmp_'' @ n @ ''.tmp'')"
  using assms join_with_last [OF assms(1)]
  by (cases "cs = []") (auto simp: temp_name_def path_join_def abs_path_def starts_with_def plain_part_def join_with_append)


lemma make_dirs_files: "make_dirs y d pre cs = (made, ds) \<Longrightarrow> e \<in> set ds \<Longrightarrow> dk_files e = dk_files d"
  by (induction cs arbitrary: d pre made ds) (fastforce simp: Let_def split: if_splits prod.splits)+

lemma make_dirs_dirs: "make_dirs y d pre cs = (made, ds) \<Longrightarrow> e \<in> set ds \<Longrightarrow> p \<in> dk_dirs e \<Longrightarrow> p \<in> dk_dirs d \<or> (\<exists>k. p = abs_path (pre @ take k cs))"
proof (induction cs arbitrary: d pre made ds)
  case (Cons c cs)
  have up: "\<exists>k. q = abs_path (pre @ take k (c # cs))" if "\<exists>k. q = abs_path ((pre @ [c]) @ take k cs)" for q
    using that by (metis append.assoc append_Cons append_Nil take_Suc_Cons)
  have one: "\<exists>k. abs_path (pre @ [c]) = abs_path (pre @ take k (c # cs))" by (rule exI [of _ 1]) simp
  show ?case
  proof (cases "abs_path (pre @ [c]) \<in> dk_dirs d")
    case True
    then show ?thesis using Cons.IH [of d "pre @ [c]" made ds, OF _ Cons.prems(2,3)] Cons.prems(1) up [of p] by (simp add: Let_def) blast
  next
    case False
    let ?d1 = "d\<lparr>dk_dirs := insert (abs_path (pre @ [c])) (dk_dirs d)\<rparr>"
    obtain ds1 where ds1: "make_dirs y ?d1 (pre @ [c]) cs = (made, ds1)" "ds = ?d1 # ds1"
      using False Cons.prems by (auto simp: Let_def split: if_splits prod.splits)
    from Cons.prems(2) ds1(2) consider "e = ?d1" | "e \<in> set ds1" by auto
    then show ?thesis
    proof cases
      case 2
      then show ?thesis using Cons.IH [OF ds1(1) 2 Cons.prems(3)] up one by auto
    qed (use Cons.prems(3) one in auto)
  qed
qed simp

lemma mkstemp_fresh: "mkstemp y d dir = Some t \<Longrightarrow> dk_files d t = None \<and> (\<exists>n\<in>set (sy_random y). t = temp_name dir n)"
  by (auto simp: mkstemp_def find_Some_iff split: if_splits)

text \<open>What a write through a temporary file leaves of every file, at every point.\<close>

lemma replace_text_files:
  assumes "replace_text y d path content = (ok, es)" and "e \<in> set es"
  shows "dk_files e q = dk_files d q \<or> (q = path \<and> dk_files e q = Some content)
    \<or> (dk_files d q = None \<and> (\<exists>n\<in>set (sy_random y). q = temp_name (dirname path) n))"
proof -
  obtain t where t: "mkstemp y d (dirname path) = Some t" using assms by (auto simp: replace_text_def split: option.splits)
  have "dk_files e q = dk_files d q \<or> (q = path \<and> dk_files e q = Some content) \<or> q = t"
    using assms t by (auto simp: replace_text_def set_file_def written_part_def Let_def split: if_splits)
  then show ?thesis using mkstemp_fresh [OF t] by auto
qed

lemma replace_text_end:
  assumes "replace_text y d path content = (ok, es)"
  shows "ok \<Longrightarrow> dk_files (last (d # es)) = (dk_files d)(path \<mapsto> content)"
    and "\<not> ok \<Longrightarrow> sy_unlink y \<Longrightarrow> dk_files (last (d # es)) = dk_files d"
proof -
  have same: "f(t := None) = f" if "f t = None" for f :: files and t using that by auto
  show "ok \<Longrightarrow> dk_files (last (d # es)) = (dk_files d)(path \<mapsto> content)"
    using assms mkstemp_fresh [of y d "dirname path"]
    by (auto simp: replace_text_def set_file_def written_part_def Let_def same split: if_splits option.splits)
  show "\<not> ok \<Longrightarrow> sy_unlink y \<Longrightarrow> dk_files (last (d # es)) = dk_files d"
    using assms mkstemp_fresh [of y d "dirname path"]
    by (auto simp: replace_text_def set_file_def Let_def same split: if_splits option.splits)
qed

lemma overwrite_text_end: "overwrite_text y d path content = (True, es) \<Longrightarrow> dk_files (last (d # es)) = (dk_files d)(path \<mapsto> content)"
  by (auto simp: overwrite_text_def set_file_def written_part_def Let_def split: if_splits)

lemma overwrite_text_files: "overwrite_text y d path content = (ok, es) \<Longrightarrow> e \<in> set es \<Longrightarrow> dk_files e q = dk_files d q \<or> q = path"
  by (auto simp: overwrite_text_def set_file_def Let_def split: if_splits)

lemma temp_inside:
  assumes "list_all plain_part (base @ rest)" and "rest \<noteq> []" and "CHR ''/'' \<notin> set n"
  shows "inside (abs_path base) (temp_name (dirname (abs_path (base @ rest))) n)"
proof -
  obtain cs c where rest: "rest = cs @ [c]" using assms(2) by (metis append_butlast_last_id)
  have "dirname (abs_path (base @ rest)) = abs_path (base @ cs)" using dirname_abs [of "base @ cs" c] assms(1) rest by simp
  then show ?thesis using temp_name_abs [OF _ assms(3), of "base @ cs"] assms(1) rest unfolding inside_def
    by (intro exI [of _ base] exI [of _ "cs @ [''.tmp_'' @ n @ ''.tmp'']"]) (simp del: append.simps)
qed

text \<open>
  C30: A write reaches only files inside the root: at every point of the call (each directory made,
  the temporary file created, filled, moved or removed), whichever system call fails, a file that
  differs from before lies inside the root. A write through a temporary file never shows part of a
  text: at every such point a file that was there has its old contents or, if it is the target, the
  whole new text, and a file that was not there is the whole target or the temporary file; after a
  successful call nothing but the target has changed. The relative path must not name the root
  itself (\<open>root_path_writes_outside\<close>), \<open>realpath\<close> returns absolute paths in normal form, and the
  random names drawn by \<open>mkstemp\<close> have no slash.
\<close>

theorem write_confined:
  assumes "\<And>p. real_path (realpath p)" and "\<forall>n\<in>set (sy_random y). CHR ''/'' \<notin> set n"
    and "resolve_under_root realpath True root_dir rel = Some p" and "p \<noteq> realpath root_dir"
    and "safe_write_text realpath y d root_dir rel content atomic = (r, es)"
  shows "(\<forall>e\<in>set es. \<forall>q. dk_files e q \<noteq> dk_files d q \<longrightarrow> inside (realpath root_dir) q)
    \<and> (atomic \<longrightarrow> (\<forall>e\<in>set es. \<forall>q. dk_files e q = dk_files d q \<or> (q = p \<and> dk_files e q = Some content)
        \<or> (dk_files d q = None \<and> (\<exists>n\<in>set (sy_random y). q = temp_name (dirname p) n))))
    \<and> (r = None \<longrightarrow> dk_files (last (d # es)) = (dk_files d)(p \<mapsto> content))
    \<and> (atomic \<longrightarrow> r \<noteq> None \<longrightarrow> sy_unlink y \<longrightarrow> dk_files (last (d # es)) = dk_files d)"
proof -
  obtain base rest where br: "list_all plain_part (base @ rest)" "realpath root_dir = abs_path base" "p = abs_path (base @ rest)" "rest \<noteq> []"
    using resolved_inside [OF assms(1,3)] assms(4) by (metis append_Nil2)
  obtain made ds where ds: "make_dirs y d [] (path_parts (dirname p)) = (made, ds)" by (cases "make_dirs y d [] (path_parts (dirname p))")
  define d0 where "d0 = last (d # ds)"
  have d0: "dk_files d0 = dk_files d" using make_dirs_files [OF ds] by (cases "ds = []") (auto simp: d0_def)
  show ?thesis
  proof (cases made)
    case False
    then have "es = ds" "r = Some Write_failed" using assms(3,5) ds by (auto simp: safe_write_text_def)
    then show ?thesis using make_dirs_files [OF ds] d0 by (auto simp: d0_def)
  next
    case True
    obtain ok fs where fs: "(if atomic then replace_text y d0 p content else overwrite_text y d0 p content) = (ok, fs)" by fastforce
    have es: "es = ds @ fs" "r = (if ok then None else Some Write_failed)"
      using assms(3,5) ds fs True by (auto simp: safe_write_text_def d0_def split: if_splits)
    have ends: "last (d # es) = last (d0 # fs)" using es(1) by (cases "fs = []") (auto simp: d0_def)
    have steps: "dk_files e q = dk_files d q \<or> (q = p \<and> (atomic \<longrightarrow> dk_files e q = Some content))
        \<or> (atomic \<and> dk_files d q = None \<and> (\<exists>n\<in>set (sy_random y). q = temp_name (dirname p) n))" if "e \<in> set es" for e q
      using that es(1) make_dirs_files [OF ds] d0 fs replace_text_files [of y d0 p content ok fs e q] overwrite_text_files [of y d0 p content ok fs e q]
      by (auto split: if_splits)
    have p_in: "inside (realpath root_dir) p" using br by (auto simp: inside_def)
    have t_in: "inside (realpath root_dir) (temp_name (dirname p) n)" if "n \<in> set (sy_random y)" for n
      using temp_inside [OF br(1,4)] assms(2) that br(2,3) by simp
    have whole: "r = None \<Longrightarrow> dk_files (last (d # es)) = (dk_files d)(p \<mapsto> content)"
      using fs ends d0 es(2) replace_text_end(1) [of y d0 p content ok fs] overwrite_text_end [of y d0 p content] by (auto split: if_splits)
    have undone: "atomic \<Longrightarrow> r \<noteq> None \<Longrightarrow> sy_unlink y \<Longrightarrow> dk_files (last (d # es)) = dk_files d"
      using fs ends d0 es(2) replace_text_end(2) [of y d0 p content ok fs] by (auto split: if_splits)
    show ?thesis using steps p_in t_in whole undone by blast
  qed
qed

subsection \<open>Instances\<close>

definition demo_realpath :: "string \<Rightarrow> string" where
  "demo_realpath p = (if p = ''/srv/models'' \<or> p = ''/srv/models/.'' then ''/srv/models'' else if p = ''/srv/models/loras/a.pt'' then p else ''/'')"

lemma demo_real: "real_path (demo_realpath p)"
proof -
  have "real_path (abs_path cs)" if "list_all plain_part cs" for cs using that by (auto simp: real_path_def)
  from this [of "[]"] this [of "[''srv'', ''models'']"] this [of "[''srv'', ''models'', ''loras'', ''a.pt'']"]
  show ?thesis by (simp add: demo_realpath_def plain_part_def abs_path_def)
qed

lemma demo_resolved: "resolve_under_root demo_realpath True ''/srv/models'' ''loras/a.pt'' = Some ''/srv/models/loras/a.pt''"
  by code_simp

definition demo_calls :: syscalls where
  "demo_calls = \<lparr>sy_mkdir = (\<lambda>_. True), sy_mkstemp = True, sy_random = [''k3x''], sy_open = True, sy_written = None, sy_replace = True, sy_unlink = False\<rparr>"

definition demo_disk :: disk where
  "demo_disk = \<lparr>dk_files = Map.empty, dk_dirs = {''/srv'', ''/srv/models''}\<rparr>"

text \<open>
  A path that names the root itself (empty, or a dot) is accepted, and the temporary file is then
  made beside the root; it stays there when it cannot be removed.
\<close>

lemma root_path_writes_outside:
  "(case safe_write_text demo_realpath demo_calls demo_disk ''/srv/models'' ''.'' ''x'' True of
     (r, es) \<Rightarrow> (r, map (\<lambda>e. dk_files e ''/srv/.tmp_k3x.tmp'') es)) = (Some Write_failed, [Some [], Some ''x''])"
  by code_simp

theorem resolved_inside_witness:
  "\<exists>base rest. list_all plain_part (base @ rest) \<and> ''/srv/models'' = abs_path base \<and> ''/srv/models/loras/a.pt'' = abs_path (base @ rest)"
  using resolved_inside [OF demo_real demo_resolved] by (simp add: demo_realpath_def)

theorem write_confined_witness:
  "case safe_write_text demo_realpath demo_calls demo_disk ''/srv/models'' ''loras/a.pt'' ''x'' True of (r, es) \<Rightarrow>
     r = None \<and> length es = 4 \<and> (\<forall>e\<in>set es. \<forall>q. dk_files e q \<noteq> dk_files demo_disk q \<longrightarrow> inside ''/srv/models'' q)
     \<and> dk_files (last (demo_disk # es)) = [''/srv/models/loras/a.pt'' \<mapsto> ''x'']"
proof -
  obtain r es where res: "safe_write_text demo_realpath demo_calls demo_disk ''/srv/models'' ''loras/a.pt'' ''x'' True = (r, es)" by fastforce
  have run: "(case safe_write_text demo_realpath demo_calls demo_disk ''/srv/models'' ''loras/a.pt'' ''x'' True of (r, es) \<Rightarrow> (r, length es)) = (None, 4)"
    by code_simp
  have "demo_realpath ''/srv/models'' = ''/srv/models''" "\<forall>n\<in>set (sy_random demo_calls). CHR ''/'' \<notin> set n" "dk_files demo_disk = Map.empty"
    by (simp_all add: demo_realpath_def demo_calls_def demo_disk_def)
  then show ?thesis using write_confined [OF demo_real _ demo_resolved _ res] run unfolding res by simp
qed

end
