(* ===== verification/Model_Names.thy ===== *)
theory Model_Names
  imports Safe_Outbound Safe_Path Tenant
begin

text \<open>
  Names and small texts of the model manager (\<open>services/model_manager.py\<close>): model types, sources,
  host lists, destination directories, file names, content ranges; provenance and tenants
  (\<open>model_manager_transfer.py\<close>, \<open>model_manager_tasks.py\<close>). \<open>str_of\<close> is Python's \<open>str\<close> of a
  JSON value that is no text.
\<close>

datatype mm_error = Mm_error string int | Mm_value_error

subsection \<open>Model types and sources\<close>

definition MODEL_TYPE_TO_SUBDIR :: "(string \<times> string) list" where
  "MODEL_TYPE_TO_SUBDIR = [(''checkpoint'', ''checkpoints''), (''lora'', ''loras''), (''vae'', ''vae''), (''controlnet'', ''controlnet''),
     (''embedding'', ''embeddings''), (''embeddings'', ''embeddings''), (''text_encoders'', ''text_encoders''),
     (''diffusion_models'', ''diffusion_models''), (''clip_vision'', ''clip_vision''), (''style_models'', ''style_models''),
     (''upscale_models'', ''upscale_models''), (''vae_approx'', ''vae_approx''), (''gligen'', ''gligen''),
     (''latent_upscale_models'', ''latent_upscale_models''), (''hypernetworks'', ''hypernetworks''), (''photomaker'', ''photomaker''),
     (''model_patches'', ''model_patches''), (''audio_encoders'', ''audio_encoders''), (''background_removal'', ''background_removal''),
     (''frame_interpolation'', ''frame_interpolation''), (''geometry_estimation'', ''geometry_estimation''),
     (''optical_flow'', ''optical_flow''), (''detection'', ''detection'')]"

definition MODEL_TYPE_EXCLUSIONS :: "string list" where
  "MODEL_TYPE_EXCLUSIONS = [''configs'', ''diffusers'', ''classifiers'', ''custom_nodes'', ''datasets'']"

definition MODEL_TYPE_ALIASES :: "(string \<times> string) list" where
  "MODEL_TYPE_ALIASES = [(''config'', ''configs''), (''ckpt'', ''checkpoint''), (''checkpoints'', ''checkpoint''), (''loras'', ''lora''),
     (''controlnets'', ''controlnet''), (''control_net'', ''controlnet''), (''diffuser'', ''diffusers''), (''clip'', ''text_encoders''),
     (''text_encoder'', ''text_encoders''), (''unet'', ''diffusion_models''), (''diffusion_model'', ''diffusion_models''),
     (''upscale_model'', ''upscale_models''), (''latent_upscale_model'', ''latent_upscale_models''), (''hypernetwork'', ''hypernetworks''),
     (''photo_maker'', ''photomaker''), (''model_patch'', ''model_patches''), (''classifier'', ''classifiers''),
     (''audio_encoder'', ''audio_encoders''), (''geometry'', ''geometry_estimation''), (''detector'', ''detection'')]"

definition DEFAULT_MODEL_TYPE :: string where "DEFAULT_MODEL_TYPE = ''checkpoint''"

definition resolve_model_type_token :: "string \<Rightarrow> string" where
  "resolve_model_type_token model_type = (let t = py_lower (py_strip model_type) in
     if t = [] then [] else case dget MODEL_TYPE_ALIASES t of Some u \<Rightarrow> u | None \<Rightarrow> t)"

definition model_type_excluded :: "string \<Rightarrow> bool" where
  "model_type_excluded model_type \<longleftrightarrow> resolve_model_type_token model_type \<in> set MODEL_TYPE_EXCLUSIONS"

definition norm_model_type :: "string \<Rightarrow> string" where
  "norm_model_type model_type = (let t = resolve_model_type_token model_type in
     if t = [] then DEFAULT_MODEL_TYPE else if t \<in> set (dkeys MODEL_TYPE_TO_SUBDIR) then t else ''other'')"

definition norm_source :: "string \<Rightarrow> string" where
  "norm_source src = (let out = filter (\<lambda>c. is_alnum c \<or> c \<in> set ''_-.'') (py_lower (py_strip (if src = [] then ''unknown'' else src)));
     r = take 48 out in if r = [] then ''unknown'' else r)"

definition drop_trailing :: "char \<Rightarrow> string \<Rightarrow> string" where
  "drop_trailing c s = rev (dropWhile (\<lambda>x. x = c) (rev s))"

definition parse_hosts :: "string \<Rightarrow> string list" where
  "parse_hosts raw = remdups (filter (\<lambda>h. h \<noteq> []) (map (\<lambda>item. drop_trailing (CHR ''.'') (py_lower (py_strip item)))
     (split_on (CHR '','') (map (\<lambda>c. if c = CHR '';'' then CHR '','' else c) raw))))"

subsection \<open>Hashes, directories, file names\<close>

definition is_sha256 :: "string \<Rightarrow> bool" where
  "is_sha256 value \<longleftrightarrow> (let t = py_lower (py_strip value) in length t = 64 \<and> list_all (\<lambda>c. c \<in> set ''0123456789abcdef'') t)"

definition subdir_char :: "char \<Rightarrow> bool" where
  "subdir_char c \<longleftrightarrow> is_alnum c \<or> c \<in> set ''_-.''"

definition sanitize_subdir :: "string \<Rightarrow> mm_error + string" where
  "sanitize_subdir s =
    (let raw_parts = split_on (CHR ''/'') (map (\<lambda>c. if c = CHR 0x5C then CHR ''/'' else c) s); parts = filter (\<lambda>p. p \<noteq> []) raw_parts in
     if \<exists>p \<in> set parts. p \<in> {''.'', ''..''} then Inl (Mm_error ''invalid_destination'' 400)
     else if parts = [] then Inl (Mm_error ''invalid_destination'' 400)
     else let cleaned = map (filter subdir_char) parts in
       if [] \<in> set cleaned then Inl (Mm_error ''invalid_destination'' 400) else Inr (join_with (CHR ''/'') cleaned))"

definition ALLOWED_MODEL_EXTENSIONS :: "string list" where
  "ALLOWED_MODEL_EXTENSIONS = [''.safetensors'', ''.ckpt'', ''.pt'', ''.pth'', ''.bin'', ''.onnx'']"

text \<open>\<open>Path(name).suffix\<close> of a single component.\<close>

definition path_suffix :: "string \<Rightarrow> string" where
  "path_suffix name = (let (before, dot, after) = rpartition_at (CHR ''.'') name in
     if dot \<and> before \<noteq> [] \<and> after \<noteq> [] then CHR ''.'' # after else [])"

definition filename_char :: "char \<Rightarrow> bool" where
  "filename_char c \<longleftrightarrow> is_alnum c \<or> c \<in> set ''_-.()[]''"

definition sanitize_filename :: "string \<Rightarrow> mm_error + string" where
  "sanitize_filename s =
    (let clean = filter filename_char (map (\<lambda>c. if c \<in> {CHR 0x5C, CHR ''/'', CHR '' ''} then CHR ''_'' else c) (py_strip s)) in
     if clean = [] \<or> clean \<in> {''.'', ''..''} then Inl (Mm_error ''invalid_filename'' 400)
     else if py_lower (path_suffix clean) \<notin> set ALLOWED_MODEL_EXTENSIONS then Inl (Mm_error ''invalid_filename'' 400)
     else Inr (take 180 clean))"

text \<open>\<open>urlparse(url).path\<close>: without query, fragment and the parameters of the last segment.\<close>

definition url_path :: "string \<Rightarrow> string" where
  "url_path url =
    (let url = clean_url url; (a, found, b) = partition_at (CHR '':'') url;
         rest = (if found \<and> a \<noteq> [] \<and> (is_upper (hd a) \<or> is_lower (hd a)) \<and> list_all scheme_char a then b else url);
         after = (if starts_with ''//'' rest then dropWhile (\<lambda>c. c \<notin> set ''/?#'') (drop 2 rest) else rest);
         path = takeWhile (\<lambda>c. c \<notin> set ''?#'') after;
         (dirs, _, seg) = rpartition_at (CHR ''/'') path
     in if has_char (CHR ''/'') path then dirs @ CHR ''/'' # fst (partition_at (CHR '';'') seg) else fst (partition_at (CHR '';'') path))"

definition filename_from_url :: "string \<Rightarrow> mm_error + string" where
  "filename_from_url url = (let seg = last (split_on (CHR ''/'') (drop_trailing (CHR ''/'') (url_path url))) in
     if seg = [] then Inl (Mm_error ''invalid_filename'' 400) else sanitize_filename seg)"

text \<open>
  Start, end and total of a content range; \<open>-1\<close> stands for what is unknown or malformed.
  \<open>None\<close> is the \<open>ValueError\<close> of unpacking a range without a dash.
\<close>

definition parse_content_range :: "string \<Rightarrow> (int \<times> int \<times> int) option" where
  "parse_content_range value =
    (let t = py_strip value; bad = Some (-1, -1, -1) in
     if \<not> starts_with ''bytes '' (py_lower t) then bad
     else let body = drop 6 t in
       if \<not> has_char (CHR ''/'') body \<or> \<not> has_char (CHR ''-'') body then bad
       else let (range_part, _, total_part) = partition_at (CHR ''/'') body in
         if \<not> has_char (CHR ''-'') range_part then None
         else let (start_part, _, end_part) = partition_at (CHR ''-'') range_part in
           (case (py_int start_part, py_int end_part, if py_strip total_part = ''*'' then Some (-1) else py_int total_part) of
              (Some a, Some b, Some t) \<Rightarrow> if a < 0 \<or> b < a then bad else if t \<noteq> -1 \<and> t \<le> b then bad else Some (a, b, t)
            | _ \<Rightarrow> bad))"

subsection \<open>Settings, provenance, tenants\<close>

definition read_int_setting :: "env \<Rightarrow> string \<Rightarrow> string list \<Rightarrow> int \<Rightarrow> int \<Rightarrow> int \<Rightarrow> int" where
  "read_int_setting env key aliases dflt minimum maximum =
    (case get_env_value env key (Some aliases) None of
       Inr (Some raw) \<Rightarrow> if py_strip raw = [] then dflt
         else (case py_int (py_strip raw) of None \<Rightarrow> dflt | Some v \<Rightarrow> if v < minimum \<or> v > maximum then dflt else v)
     | _ \<Rightarrow> dflt)"

definition text_field :: "(json \<Rightarrow> string) \<Rightarrow> string \<Rightarrow> (string \<times> json) list \<Rightarrow> string" where
  "text_field str_of k d = (case dget d k of None \<Rightarrow> [] | Some j \<Rightarrow> if truthy j then (case j of JStr s \<Rightarrow> s | _ \<Rightarrow> str_of j) else [])"

definition validate_provenance :: "(json \<Rightarrow> string) \<Rightarrow> json \<Rightarrow> mm_error + (string \<times> json) list" where
  "validate_provenance str_of p = (case p of
     JObj d \<Rightarrow>
       let publisher = py_strip (text_field str_of ''publisher'' d); license = py_strip (text_field str_of ''license'' d);
           source_url = py_strip (text_field str_of ''source_url'' d); note = take 500 (py_strip (text_field str_of ''note'' d))
       in if publisher = [] \<or> license = [] \<or> source_url = [] then Inl (Mm_error ''invalid_provenance'' 400)
          else Inr [(''publisher'', JStr publisher), (''license'', JStr license), (''source_url'', JStr source_url), (''note'', JStr note)]
   | _ \<Rightarrow> Inl (Mm_error ''invalid_provenance'' 400))"

definition normalized_or_default :: "string \<Rightarrow> string" where
  "normalized_or_default t = (case normalize_tenant_id (if t = [] then DEFAULT_TENANT_ID else t) of Inl _ \<Rightarrow> DEFAULT_TENANT_ID | Inr u \<Rightarrow> u)"

definition tenant_ok :: "env \<Rightarrow> string \<Rightarrow> string option \<Rightarrow> bool" where
  "tenant_ok env record_tenant request_tenant = (if \<not> is_multi_tenant_enabled env then True
     else normalized_or_default record_tenant = normalized_or_default (case request_tenant of None \<Rightarrow> [] | Some t \<Rightarrow> t))"

definition normalize_tenant :: "env \<Rightarrow> string option \<Rightarrow> mm_error + string" where
  "normalize_tenant env tenant_id = (if \<not> is_multi_tenant_enabled env then Inr DEFAULT_TENANT_ID
     else case normalize_tenant_id (case tenant_id of None \<Rightarrow> DEFAULT_TENANT_ID | Some t \<Rightarrow> if t = [] then DEFAULT_TENANT_ID else t) of
       Inl _ \<Rightarrow> Inl Mm_value_error | Inr t \<Rightarrow> Inr t)"

subsection \<open>What the names guarantee\<close>

lemma subdir_char_slash: "\<not> subdir_char (CHR ''/'')" "\<not> filename_char (CHR ''/'')"
  by code_simp+

text \<open>
  A destination directory is a relative path of components without slashes. A component made of
  dots and dropped characters can still become a double dot: the traversal check looks at the
  component before the characters are dropped.
\<close>

lemma sanitized_subdir:
  assumes "sanitize_subdir s = Inr d"
  shows "\<exists>cs. cs \<noteq> [] \<and> d = join_with (CHR ''/'') cs \<and> list_all (\<lambda>c. c \<noteq> [] \<and> list_all subdir_char c) cs"
proof -
  let ?parts = "filter (\<lambda>p. p \<noteq> []) (split_on (CHR ''/'') (map (\<lambda>c. if c = CHR 0x5C then CHR ''/'' else c) s))"
  have d: "d = join_with (CHR ''/'') (map (filter subdir_char) ?parts)" "[] \<notin> set (map (filter subdir_char) ?parts)" "?parts \<noteq> []"
    using assms by (auto simp: sanitize_subdir_def Let_def split: if_splits)
  have "list_all (\<lambda>c. c \<noteq> [] \<and> list_all subdir_char c) (map (filter subdir_char) ?parts)"
  proof (unfold list_all_iff set_map ball_simps(9), intro ballI conjI)
    fix p assume p: "p \<in> set ?parts"
    show "filter subdir_char p \<noteq> []"
    proof
      assume e: "filter subdir_char p = []"
      have "[] \<in> set (map (filter subdir_char) ?parts)"
        unfolding set_map by (rule image_eqI [where f = "filter subdir_char", OF e [symmetric] p])
      then show False using d(2) by blast
    qed
  qed simp
  then show ?thesis using d(1,3) by (intro exI [of _ "map (filter subdir_char) ?parts"]) simp
qed

lemma double_dot_survives: "sanitize_subdir ''a/. ./b'' = Inr ''a/../b''"
  by code_simp

lemma sanitized_filename:
  assumes "sanitize_filename s = Inr f"
  shows "f \<noteq> [] \<and> length f \<le> 180 \<and> list_all filename_char f \<and> plain_part f"
proof -
  obtain clean where c: "f = take 180 clean" "clean \<noteq> []" "clean \<noteq> ''.''" "clean \<noteq> ''..''" "list_all filename_char clean"
    using assms by (auto simp: sanitize_filename_def Let_def list_all_iff split: if_splits)
  have "length clean > 2 \<or> take 180 clean = clean" by auto
  then have "f \<noteq> ''.'' \<and> f \<noteq> ''..''" using c by (cases clean; cases "tl clean"; cases "tl (tl clean)") auto
  moreover have "list_all filename_char f" using c(1,5) by (auto simp: list_all_iff dest: in_set_takeD)
  ultimately show ?thesis using c subdir_char_slash by (auto simp: plain_part_def list_all_iff)
qed

text \<open>The extension is checked before the name is cut to 180 characters: what is installed can have another one.\<close>

lemma sanitized_suffix:
  assumes "sanitize_filename s = Inr f" and "length f < 180"
  shows "py_lower (path_suffix f) \<in> set ALLOWED_MODEL_EXTENSIONS"
  using assms by (auto simp: sanitize_filename_def Let_def min_def split: if_splits)

lemma extension_cut_off:
  "sanitize_filename (replicate 177 (CHR ''x'') @ ''.py.ckpt'') = Inr (replicate 177 (CHR ''x'') @ ''.py'')"
proof -
  let ?n = "replicate 177 (CHR ''x'') @ ''.py.ckpt''"
  have x: "\<not> is_space (CHR ''x'')" "filename_char (CHR ''x'')" "\<not> is_space (CHR ''t'')" by code_simp+
  have "py_strip ?n = ?n" by (rule py_strip_id) (auto simp: x hd_append)
  moreover have "filter filename_char (map (\<lambda>c. if c \<in> {CHR 0x5C, CHR ''/'', CHR '' ''} then CHR ''_'' else c) ?n) = ?n"
  proof -
    have "filter filename_char ''.py.ckpt'' = ''.py.ckpt''" by code_simp
    then show ?thesis by (simp add: x)
  qed
  moreover have "path_suffix ?n = ''.ckpt''"
    by (simp add: path_suffix_def rpartition_at_def partition_at_def)
  moreover have "py_lower ''.ckpt'' \<in> set ALLOWED_MODEL_EXTENSIONS" by code_simp
  ultimately show ?thesis by (simp add: sanitize_filename_def Let_def)
qed

lemma content_range_start: "parse_content_range v = Some (a, b, t) \<Longrightarrow> a \<noteq> -1 \<Longrightarrow> 0 \<le> a \<and> a \<le> b \<and> (t = -1 \<or> b < t)"
  by (auto simp: parse_content_range_def Let_def split: prod.splits option.splits if_splits)

lemma range_without_dash: "parse_content_range ''bytes 5/1-0'' = None"
  by code_simp

end
