(* ===== verification/Model_Tasks.thy ===== *)
theory Model_Tasks
  imports Model_Names Job_Events "HOL-Library.Product_Lexorder"
begin

text \<open>
  The download tasks of the model manager (\<open>services/model_manager.py\<close>,
  \<open>model_manager_tasks.py\<close>, \<open>model_manager_transfer.py\<close>): their rows, the manager's state, the
  life of a task from its creation over the worker that downloads it to the import, and the restart
  of the process. A worker runs beside the other operations; what it does from one read of the
  network to the next is one operation. What the
  network answers, the random identifiers, SHA-256, the conversions \<open>str\<close>, \<open>float\<close> and
  \<open>dict\<close> of unusual JSON values, the resolver and \<open>realpath\<close> are arguments. Writing a file
  succeeds; files of the staging directory are kept per task, as each has a directory of its own.
\<close>

declare map_of_eq_Some_iff [simp del]

record mm_lib =
  ml_sha :: "string \<Rightarrow> string"
  ml_str :: "json \<Rightarrow> string"
  ml_float :: "string \<Rightarrow> real option"
  ml_dict :: "json \<Rightarrow> (string \<times> json) list option"
  ml_show :: "ssrf_error \<Rightarrow> string"
  ml_classes :: ip_classes
  ml_idna :: "string \<Rightarrow> string option"
  ml_realpath :: "string \<Rightarrow> string"

subsection \<open>Tasks and their rows\<close>

record download_task =
  dl_task_id :: string
  dl_model_id :: string
  dl_name :: string
  dl_model_type :: string
  dl_source :: string
  dl_source_label :: string
  dl_download_url :: string
  dl_destination_subdir :: string
  dl_filename :: string
  dl_expected_sha256 :: string
  dl_provenance :: "(string \<times> json) list"
  dl_tenant_id :: string
  dl_state :: string
  dl_created_at :: time
  dl_updated_at :: time
  dl_started_at :: time
  dl_finished_at :: time
  dl_bytes_downloaded :: int
  dl_total_bytes :: int
  dl_progress :: real
  dl_cancel_requested :: bool
  dl_error :: string
  dl_staged_path :: string
  dl_computed_sha256 :: string
  dl_imported :: bool
  dl_installation_path :: string
  dl_installation_record_id :: string
  dl_resume_status :: string
  dl_recovery_attempts :: int
  dl_last_checkpoint_at :: time
  dl_change_seq :: int

definition is_terminal :: "download_task \<Rightarrow> bool" where
  "is_terminal t \<longleftrightarrow> dl_state t \<in> {''completed'', ''failed'', ''cancelled''}"

definition task_to_dict :: "download_task \<Rightarrow> json" where
  "task_to_dict t = JObj
    [(''task_id'', JStr (dl_task_id t)), (''model_id'', JStr (dl_model_id t)), (''name'', JStr (dl_name t)),
     (''model_type'', JStr (dl_model_type t)), (''source'', JStr (dl_source t)), (''source_label'', JStr (dl_source_label t)),
     (''download_url'', JStr (dl_download_url t)), (''destination_subdir'', JStr (dl_destination_subdir t)),
     (''filename'', JStr (dl_filename t)), (''expected_sha256'', JStr (dl_expected_sha256 t)), (''provenance'', JObj (dl_provenance t)),
     (''tenant_id'', JStr (dl_tenant_id t)), (''state'', JStr (dl_state t)), (''created_at'', JFloat (dl_created_at t)),
     (''updated_at'', JFloat (dl_updated_at t)), (''started_at'', JFloat (dl_started_at t)), (''finished_at'', JFloat (dl_finished_at t)),
     (''bytes_downloaded'', JInt (dl_bytes_downloaded t)), (''total_bytes'', JInt (dl_total_bytes t)),
     (''progress'', JFloat (dl_progress t)), (''cancel_requested'', JBool (dl_cancel_requested t)), (''error'', JStr (dl_error t)),
     (''staged_path'', JStr (dl_staged_path t)), (''computed_sha256'', JStr (dl_computed_sha256 t)), (''imported'', JBool (dl_imported t)),
     (''installation_path'', JStr (dl_installation_path t)), (''installation_record_id'', JStr (dl_installation_record_id t)),
     (''resume_status'', JStr (dl_resume_status t)), (''recovery_attempts'', JInt (dl_recovery_attempts t)),
     (''last_checkpoint_at'', JFloat (dl_last_checkpoint_at t)), (''change_seq'', JInt (dl_change_seq t))]"

text \<open>\<open>payload.get(k) or default\<close> under a conversion that may raise (\<open>None\<close>).\<close>

definition field_or :: "(json \<Rightarrow> 'a option) \<Rightarrow> 'a \<Rightarrow> string \<Rightarrow> (string \<times> json) list \<Rightarrow> 'a option" where
  "field_or conv dflt k d = (case dget d k of None \<Rightarrow> Some dflt | Some j \<Rightarrow> if truthy j then conv j else Some dflt)"

definition float_field :: "mm_lib \<Rightarrow> json \<Rightarrow> real option" where
  "float_field lib j = (case j of JFloat x \<Rightarrow> Some x | JInt i \<Rightarrow> Some (of_int i) | JBool b \<Rightarrow> Some (of_bool b) | JStr s \<Rightarrow> ml_float lib s | _ \<Rightarrow> None)"

definition dict_field :: "mm_lib \<Rightarrow> json \<Rightarrow> (string \<times> json) list option" where
  "dict_field lib j = (case j of JObj d \<Rightarrow> Some d | _ \<Rightarrow> ml_dict lib j)"

definition task_from_dict :: "mm_lib \<Rightarrow> time \<Rightarrow> json \<Rightarrow> download_task option" where
  "task_from_dict lib now payload = (case payload of
     JObj d \<Rightarrow>
       let txt = (\<lambda>k. text_field (ml_str lib) k d); or_dflt = (\<lambda>k dflt. if txt k = [] then dflt else txt k);
           num = (\<lambda>k dflt. field_or (float_field lib) dflt k d); int_of = (\<lambda>k. map_option (max 0) (field_or json_int 0 k d));
           flag = (\<lambda>k. case dget d k of None \<Rightarrow> False | Some j \<Rightarrow> truthy j) in
       (case (field_or (dict_field lib) [] ''provenance'' d, num ''created_at'' now, num ''updated_at'' now, num ''started_at'' 0, num ''finished_at'' 0) of
          (Some prov, Some created, Some updated, Some started, Some finished) \<Rightarrow>
            (case (int_of ''bytes_downloaded'', int_of ''total_bytes'', num ''progress'' 0, int_of ''recovery_attempts'', num ''last_checkpoint_at'' 0, int_of ''change_seq'') of
               (Some bytes, Some total_bytes, Some progress, Some attempts, Some checkpoint_at, Some seq) \<Rightarrow> Some
                 \<lparr>dl_task_id = txt ''task_id'', dl_model_id = txt ''model_id'', dl_name = txt ''name'',
                  dl_model_type = norm_model_type (txt ''model_type''), dl_source = norm_source (txt ''source''),
                  dl_source_label = txt ''source_label'', dl_download_url = txt ''download_url'',
                  dl_destination_subdir = txt ''destination_subdir'', dl_filename = txt ''filename'',
                  dl_expected_sha256 = txt ''expected_sha256'', dl_provenance = prov,
                  dl_tenant_id = or_dflt ''tenant_id'' DEFAULT_TENANT_ID, dl_state = or_dflt ''state'' ''queued'',
                  dl_created_at = created, dl_updated_at = updated, dl_started_at = started, dl_finished_at = finished,
                  dl_bytes_downloaded = bytes, dl_total_bytes = total_bytes, dl_progress = max 0 (min 1 progress),
                  dl_cancel_requested = flag ''cancel_requested'', dl_error = txt ''error'', dl_staged_path = txt ''staged_path'',
                  dl_computed_sha256 = txt ''computed_sha256'', dl_imported = flag ''imported'',
                  dl_installation_path = txt ''installation_path'', dl_installation_record_id = txt ''installation_record_id'',
                  dl_resume_status = or_dflt ''resume_status'' ''not_started'', dl_recovery_attempts = attempts,
                  dl_last_checkpoint_at = checkpoint_at, dl_change_seq = seq\<rparr>
             | _ \<Rightarrow> None)
        | _ \<Rightarrow> None)
   | _ \<Rightarrow> None)"

subsection \<open>The manager\<close>

record mm_config =
  mc_env :: env
  mc_state_root :: string
  mc_install_root :: string
  mc_allow_hosts :: "string list"
  mc_any_public :: bool
  mc_loopback_hosts :: "string list"
  mc_max_active :: int
  mc_replay_limit :: int

definition truthy_text :: "string \<Rightarrow> bool" where
  "truthy_text v \<longleftrightarrow> py_lower (py_strip v) \<in> {''1'', ''true'', ''yes'', ''on''}"

definition make_config :: "env \<Rightarrow> string \<Rightarrow> string \<Rightarrow> mm_config" where
  "make_config env state_root install_root = (let setting = (\<lambda>k. or_text (env_value env k (Some [])) []) in
    \<lparr>mc_env = env, mc_state_root = state_root, mc_install_root = install_root,
     mc_allow_hosts = parse_hosts (setting ''OPENCLAW_MODEL_DOWNLOAD_ALLOW_HOSTS''),
     mc_any_public = truthy_text (or_text (env_value env ''OPENCLAW_MODEL_DOWNLOAD_ALLOW_ANY_PUBLIC'' (Some ''0'')) ''0''),
     mc_loopback_hosts = parse_hosts (setting ''OPENCLAW_MODEL_DOWNLOAD_ALLOW_LOOPBACK_HOSTS''),
     mc_max_active = read_int_setting env ''OPENCLAW_MODEL_DOWNLOAD_MAX_ACTIVE'' [''MOLTBOT_MODEL_DOWNLOAD_MAX_ACTIVE''] 16 1 128,
     mc_replay_limit = read_int_setting env ''OPENCLAW_MODEL_DOWNLOAD_RECOVERY_REPLAY_LIMIT'' [''MOLTBOT_MODEL_DOWNLOAD_RECOVERY_REPLAY_LIMIT''] 32 0 256\<rparr>)"

text \<open>
  A worker has not sent its request yet, reads the reply, or has read it to the end. It keeps the
  bytes hashed so far, the counters, the validators of the reply and whether it resumed.
\<close>

record transfer =
  tf_hashed :: string
  tf_downloaded :: int
  tf_total :: int
  tf_etag :: string
  tf_last_modified :: string
  tf_last_emit :: time
  tf_resumed :: bool
  tf_found_bytes :: int

datatype worker = Opening | Streaming transfer | Ended transfer

record manager =
  mg_tasks :: "(string, download_task) dict"
  mg_pending :: "string list"
  mg_workers :: "(string, worker) dict"
  mg_cancel :: "(string, bool) dict"
  mg_change_seq :: int
  mg_persisted_at :: time
  mg_tasks_file :: "json option"
  mg_parts :: "string \<rightharpoonup> string"
  mg_checkpoints :: "string \<rightharpoonup> json"
  mg_staged :: files
  mg_installations :: "json option"
  mg_installed :: files
  mg_events :: event_store

subsection \<open>Changing a task\<close>

definition change_task :: "string \<Rightarrow> (download_task \<Rightarrow> download_task) \<Rightarrow> manager \<Rightarrow> manager" where
  "change_task task_id f m = (case dget (mg_tasks m) task_id of
     None \<Rightarrow> m
   | Some t \<Rightarrow> let n = mg_change_seq m + 1 in
       m\<lparr>mg_tasks := dput task_id ((f t)\<lparr>dl_change_seq := n\<rparr>) (mg_tasks m), mg_change_seq := n\<rparr>)"

definition task_event_type :: "string \<Rightarrow> job_event_type option" where
  "task_event_type st = dget [(''queued'', QUEUED), (''running'', RUNNING), (''completed'', COMPLETED), (''failed'', FAILED), (''cancelled'', CANCELLED)] st"

definition emit_task :: "time \<Rightarrow> string \<Rightarrow> manager \<Rightarrow> manager" where
  "emit_task now task_id m = (case dget (mg_tasks m) task_id of
     None \<Rightarrow> m
   | Some t \<Rightarrow> (case task_event_type (dl_state t) of
       None \<Rightarrow> m
     | Some ty \<Rightarrow> m\<lparr>mg_events := snd (emit now ty (''model_download:'' @ dl_task_id t) []
         (Some [(''channel'', JStr ''model_download''), (''task_id'', JStr (dl_task_id t)), (''model_id'', JStr (dl_model_id t)),
           (''state'', JStr (dl_state t)), (''progress'', JFloat (dl_progress t)), (''bytes_downloaded'', JInt (dl_bytes_downloaded t)),
           (''total_bytes'', JInt (dl_total_bytes t)), (''error'', JStr (dl_error t)), (''source'', JStr (dl_source t)),
           (''source_label'', JStr (dl_source_label t)), (''resume_status'', JStr (dl_resume_status t))]) (mg_events m))\<rparr>))"

definition persist_tasks :: "time \<Rightarrow> bool \<Rightarrow> manager \<Rightarrow> manager" where
  "persist_tasks now force m = (if \<not> force \<and> now - mg_persisted_at m < 3 / 10 then m
     else m\<lparr>mg_tasks_file := Some (JArr (map task_to_dict (sort_key dl_created_at (dvals (mg_tasks m))))), mg_persisted_at := now\<rparr>)"

text \<open>A change under the lock: the task, its number, the event, the file.\<close>

definition update_task :: "time \<Rightarrow> bool \<Rightarrow> string \<Rightarrow> (download_task \<Rightarrow> download_task) \<Rightarrow> manager \<Rightarrow> manager" where
  "update_task now force task_id f m = (if dget (mg_tasks m) task_id = None then m
     else persist_tasks now force (emit_task now task_id (change_task task_id f m)))"

definition set_resume_status :: "time \<Rightarrow> string \<Rightarrow> string \<Rightarrow> manager \<Rightarrow> manager" where
  "set_resume_status now task_id status m = (if dget (mg_tasks m) task_id = None then m
     else persist_tasks now True (change_task task_id (\<lambda>t. t\<lparr>dl_resume_status := take 120 (if status = [] then ''not_started'' else status), dl_updated_at := now\<rparr>) m))"

definition task_progress :: "int \<Rightarrow> int \<Rightarrow> real" where
  "task_progress bytes total_bytes = (if total_bytes \<noteq> 0 then min 1 (of_int bytes / of_int total_bytes) else 0)"

definition progress :: "time \<Rightarrow> string \<Rightarrow> int \<Rightarrow> int \<Rightarrow> manager \<Rightarrow> manager" where
  "progress now task_id downloaded total_bytes m = update_task now False task_id (\<lambda>t. t\<lparr>dl_bytes_downloaded := max 0 downloaded,
     dl_total_bytes := max 0 total_bytes, dl_progress := task_progress (max 0 downloaded) (max 0 total_bytes), dl_updated_at := now\<rparr>) m"

subsection \<open>Checkpoints of a download\<close>

definition CHECKPOINT_VERSION :: int where "CHECKPOINT_VERSION = 1"

text \<open>The checkpoint of a task: empty where the file is absent, unreadable or no object.\<close>

definition load_checkpoint :: "string \<Rightarrow> manager \<Rightarrow> (string \<times> json) list" where
  "load_checkpoint task_id m = (case mg_checkpoints m task_id of Some (JObj d) \<Rightarrow> d | _ \<Rightarrow> [])"

text \<open>\<open>None\<close> is the \<open>ValueError\<close> of \<open>int\<close>.\<close>

definition checkpoint_matches_task :: "mm_lib \<Rightarrow> download_task \<Rightarrow> (string \<times> json) list \<Rightarrow> int \<Rightarrow> bool option" where
  "checkpoint_matches_task lib t ck partial_bytes =
    (let txt = (\<lambda>k. text_field (ml_str lib) k ck) in
     if ck = [] then Some False
     else case field_or json_int (-1) ''version'' ck of
       None \<Rightarrow> None
     | Some v \<Rightarrow>
         if v \<noteq> CHECKPOINT_VERSION \<or> txt ''task_id'' \<noteq> dl_task_id t \<or> txt ''download_url'' \<noteq> dl_download_url t
           \<or> txt ''expected_sha256'' \<noteq> dl_expected_sha256 t \<or> txt ''filename'' \<noteq> dl_filename t then Some False
         else map_option (\<lambda>b. b = partial_bytes) (field_or json_int (-1) ''bytes_downloaded'' ck))"

definition validators_match :: "mm_lib \<Rightarrow> (string \<times> json) list \<Rightarrow> string \<Rightarrow> string \<Rightarrow> bool" where
  "validators_match lib ck etag last_modified =
    (let expected_etag = py_strip (text_field (ml_str lib) ''etag'' ck); expected_lm = py_strip (text_field (ml_str lib) ''last_modified'' ck) in
     if expected_etag \<noteq> [] \<and> etag \<noteq> [] \<and> expected_etag \<noteq> etag then False
     else if expected_lm \<noteq> [] \<and> last_modified \<noteq> [] \<and> expected_lm \<noteq> last_modified then False else True)"

definition checkpoint_row :: "time \<Rightarrow> download_task \<Rightarrow> int \<Rightarrow> int \<Rightarrow> string \<Rightarrow> string \<Rightarrow> json" where
  "checkpoint_row now t bytes total_bytes etag last_modified = JObj [(''version'', JInt CHECKPOINT_VERSION), (''task_id'', JStr (dl_task_id t)),
     (''download_url'', JStr (dl_download_url t)), (''expected_sha256'', JStr (dl_expected_sha256 t)), (''filename'', JStr (dl_filename t)),
     (''bytes_downloaded'', JInt (max 0 bytes)), (''total_bytes'', JInt (max 0 total_bytes)), (''etag'', JStr etag),
     (''last_modified'', JStr last_modified), (''updated_at'', JFloat now)]"

definition save_checkpoint :: "time \<Rightarrow> string \<Rightarrow> int \<Rightarrow> int \<Rightarrow> string \<Rightarrow> string \<Rightarrow> manager \<Rightarrow> manager" where
  "save_checkpoint now task_id bytes total_bytes etag last_modified m = (case dget (mg_tasks m) task_id of
     None \<Rightarrow> m
   | Some t \<Rightarrow> persist_tasks now False (m\<lparr>mg_checkpoints := (mg_checkpoints m)(task_id \<mapsto> checkpoint_row now t bytes total_bytes etag last_modified),
       mg_tasks := dput task_id (t\<lparr>dl_last_checkpoint_at := now\<rparr>) (mg_tasks m)\<rparr>))"

subsection \<open>Listing, looking up, cancelling\<close>

record task_delta =
  td_requested :: int
  td_effective :: int
  td_next :: int
  td_latest_change :: int
  td_earliest_available :: "int option"
  td_latest_available :: "int option"
  td_cursor_status :: string
  td_truncated :: bool

record task_page =
  tp_tasks :: "download_task list"
  tp_limit :: int
  tp_offset :: int
  tp_total :: nat
  tp_delta :: "task_delta option"

definition visible_tasks :: "env \<Rightarrow> string option \<Rightarrow> string \<Rightarrow> manager \<Rightarrow> download_task list" where
  "visible_tasks env tenant_id state_filter m = filter (\<lambda>t. tenant_ok env (dl_tenant_id t) tenant_id
     \<and> (state_filter = [] \<or> dl_state t = state_filter)) (dvals (mg_tasks m))"

text \<open>Newest first, by offset, without a cursor; by the order of the last changes with one.\<close>

definition task_snapshot :: "int \<Rightarrow> int \<Rightarrow> download_task list \<Rightarrow> task_page" where
  "task_snapshot limit offset out = \<lparr>tp_tasks = take (nat limit) (drop (nat offset) (sort_key (\<lambda>t. - dl_created_at t) out)),
     tp_limit = limit, tp_offset = offset, tp_total = length out, tp_delta = None\<rparr>"

definition task_changes :: "int \<Rightarrow> int \<Rightarrow> int \<Rightarrow> download_task list \<Rightarrow> task_page" where
  "task_changes limit since_seq latest out =
    (let requested = max 0 since_seq; future = requested > latest; e1 = (if future then latest else requested);
         seqs = sort (filter (\<lambda>n. n > 0) (map dl_change_seq out));
         stale = (seqs \<noteq> [] \<and> e1 \<noteq> 0 \<and> e1 < hd seqs - 1);
         e2 = (if stale then max 0 (hd seqs - 1) else e1);
         changed = sort_key (\<lambda>t. (dl_change_seq t, dl_created_at t)) (filter (\<lambda>t. dl_change_seq t > e2) out);
         page = take (nat limit) changed; next = (if page = [] then e2 else dl_change_seq (last page))
     in \<lparr>tp_tasks = page, tp_limit = limit, tp_offset = 0, tp_total = length changed, tp_delta = Some
          \<lparr>td_requested = requested, td_effective = e2, td_next = next, td_latest_change = latest,
           td_earliest_available = (if seqs = [] then None else Some (hd seqs)), td_latest_available = (if seqs = [] then None else Some (last seqs)),
           td_cursor_status = (if stale then ''stale_cursor_reset'' else if future then ''future_cursor_reset'' else ''ok''),
           td_truncated = (length changed > length page \<or> seqs \<noteq> [] \<and> last seqs > next)\<rparr>\<rparr>)"

definition list_download_tasks :: "mm_config \<Rightarrow> string option \<Rightarrow> string \<Rightarrow> int \<Rightarrow> int \<Rightarrow> int option \<Rightarrow> manager \<Rightarrow> task_page" where
  "list_download_tasks c tenant_id st limit offset since_seq m =
    (let limit = max 1 (min 200 limit); out = visible_tasks (mc_env c) tenant_id (py_lower (py_strip st)) m in
     case since_seq of None \<Rightarrow> task_snapshot limit (max 0 offset) out | Some n \<Rightarrow> task_changes limit n (mg_change_seq m) out)"

definition get_download_task :: "mm_config \<Rightarrow> string \<Rightarrow> string option \<Rightarrow> manager \<Rightarrow> mm_error + json" where
  "get_download_task c task_id tenant_id m = (case dget (mg_tasks m) task_id of
     Some t \<Rightarrow> if tenant_ok (mc_env c) (dl_tenant_id t) tenant_id then Inr (task_to_dict t) else Inl (Mm_error ''not_found'' 404)
   | None \<Rightarrow> Inl (Mm_error ''not_found'' 404))"

text \<open>\<open>future.cancel()\<close> succeeds while the task waits for a worker.\<close>

definition cancel_download_task :: "mm_config \<Rightarrow> time \<Rightarrow> string \<Rightarrow> string option \<Rightarrow> manager \<Rightarrow> (mm_error + json) \<times> manager" where
  "cancel_download_task c now task_id tenant_id m = (case (dget (mg_tasks m) task_id, dget (mg_cancel m) task_id) of
     (Some t, Some _) \<Rightarrow>
       if \<not> tenant_ok (mc_env c) (dl_tenant_id t) tenant_id then (Inl (Mm_error ''not_found'' 404), m)
       else if is_terminal t then (Inr (task_to_dict t), m)
       else let m1 = change_task task_id (\<lambda>t. t\<lparr>dl_cancel_requested := True, dl_updated_at := now\<rparr>) m;
                m2 = m1\<lparr>mg_cancel := dput task_id True (mg_cancel m1)\<rparr>;
                m3 = (if dl_state t = ''queued'' \<and> task_id \<in> set (mg_pending m2) then
                        (change_task task_id (\<lambda>t. t\<lparr>dl_state := ''cancelled'', dl_error := ''cancelled_before_start'', dl_finished_at := now, dl_updated_at := now\<rparr>) m2)
                          \<lparr>mg_pending := removeAll task_id (mg_pending m2)\<rparr>
                      else m2);
                m4 = persist_tasks now True (emit_task now task_id m3)
            in (case dget (mg_tasks m4) task_id of Some t4 \<Rightarrow> (Inr (task_to_dict t4), m4) | None \<Rightarrow> (Inl (Mm_error ''not_found'' 404), m4))
   | _ \<Rightarrow> (Inl (Mm_error ''not_found'' 404), m))"

subsection \<open>Loading and recovery\<close>

definition load_task :: "mm_lib \<Rightarrow> time \<Rightarrow> json \<Rightarrow> manager \<Rightarrow> manager" where
  "load_task lib now row m = (case task_from_dict lib now row of
     None \<Rightarrow> m
   | Some t \<Rightarrow> if dl_task_id t = [] then m
       else m\<lparr>mg_tasks := dput (dl_task_id t) t (mg_tasks m), mg_change_seq := max (mg_change_seq m) (dl_change_seq t),
         mg_cancel := (if is_terminal t then mg_cancel m else dput (dl_task_id t) False (mg_cancel m))\<rparr>)"

definition load_tasks_from_disk :: "mm_lib \<Rightarrow> time \<Rightarrow> manager \<Rightarrow> manager" where
  "load_tasks_from_disk lib now m = (case mg_tasks_file m of Some (JArr rows) \<Rightarrow> fold (load_task lib now) rows m | _ \<Rightarrow> m)"

definition mark_recovering :: "time \<Rightarrow> string \<Rightarrow> manager \<Rightarrow> manager" where
  "mark_recovering now task_id = change_task task_id (\<lambda>t. t\<lparr>dl_state := ''recovering'', dl_updated_at := now, dl_error := ''restart_recovery_pending'',
     dl_recovery_attempts := dl_recovery_attempts t + 1, dl_resume_status := ''restart_recovering''\<rparr>)"

definition overflow_task :: "time \<Rightarrow> string \<Rightarrow> manager \<Rightarrow> manager" where
  "overflow_task now task_id m = emit_task now task_id (change_task task_id (\<lambda>t. t\<lparr>dl_state := ''failed'', dl_error := ''recovery_replay_limit_exceeded'',
     dl_resume_status := ''recovery_replay_limit_exceeded'', dl_finished_at := now, dl_updated_at := now\<rparr>) m)"

definition replay_task :: "time \<Rightarrow> string \<Rightarrow> manager \<Rightarrow> manager" where
  "replay_task now task_id m =
    (let m1 = m\<lparr>mg_cancel := dput task_id False (mg_cancel m)\<rparr>;
         m2 = change_task task_id (\<lambda>t. t\<lparr>dl_state := ''queued'', dl_cancel_requested := False, dl_error := [], dl_updated_at := now,
           dl_resume_status := ''restart_replay_queued''\<rparr>) m1
     in emit_task now task_id (m2\<lparr>mg_pending := mg_pending m2 @ [task_id]\<rparr>))"

definition recover_incomplete_tasks :: "mm_config \<Rightarrow> time \<Rightarrow> manager \<Rightarrow> manager" where
  "recover_incomplete_tasks c now m =
    (let ids = map dl_task_id (sort_key dl_created_at (filter (\<lambda>t. \<not> is_terminal t) (dvals (mg_tasks m)))); n = nat (mc_replay_limit c) in
     if ids = [] then m
     else persist_tasks now True (fold (replay_task now) (take n ids) (fold (overflow_task now) (drop n ids) (fold (mark_recovering now) ids m))))"

text \<open>
  A new process: the files stay, what was in memory is gone. Of a part file that was being
  written, a prefix is on disk.
\<close>

definition fresh_manager :: "event_store \<Rightarrow> manager \<Rightarrow> manager" where
  "fresh_manager store m = m\<lparr>mg_tasks := [], mg_pending := [], mg_workers := [], mg_cancel := [], mg_change_seq := 0, mg_persisted_at := 0, mg_events := store\<rparr>"

definition start_manager :: "mm_lib \<Rightarrow> mm_config \<Rightarrow> time \<Rightarrow> manager \<Rightarrow> manager" where
  "start_manager lib c now m = recover_incomplete_tasks c now (load_tasks_from_disk lib now m)"

definition restart :: "mm_lib \<Rightarrow> mm_config \<Rightarrow> time \<Rightarrow> event_store \<Rightarrow> (string \<Rightarrow> nat) \<Rightarrow> manager \<Rightarrow> manager" where
  "restart lib c now store written m = start_manager lib c now
     (fresh_manager store (m\<lparr>mg_parts := (\<lambda>i. map_option (\<lambda>p. if dget (mg_workers m) i = None then p else take (written i) p) (mg_parts m i))\<rparr>))"

end
