(* ===== verification/Model_Transfer.thy ===== *)
theory Model_Transfer
  imports Model_Tasks
begin

text \<open>
  Creation of download tasks, the worker that downloads a file with resumption from a
  checkpoint, and the import of a finished download into the install directory
  (\<open>services/model_manager_transfer.py\<close>).
\<close>

declare map_of_eq_Some_iff [simp del]

subsection \<open>Creation\<close>

definition download_options :: "mm_config \<Rightarrow> outbound_options" where
  "download_options c = \<lparr>oo_allow_hosts = (if mc_allow_hosts c = [] then None else Some (mc_allow_hosts c)), oo_any_public_host = mc_any_public c,
     oo_loopback_hosts = mc_loopback_hosts c, oo_insecure_base_url = False, oo_private_network = False,
     oo_policy = Some STANDARD_OUTBOUND_POLICY\<rparr>"

type_synonym resolver = "string \<Rightarrow> nat \<Rightarrow> ip list option"

text \<open>The policy of the host, then the outbound check; a bad port raises a plain \<open>ValueError\<close>.\<close>

definition validate_url_policy :: "mm_lib \<Rightarrow> mm_config \<Rightarrow> resolver \<Rightarrow> string \<Rightarrow> mm_error + unit" where
  "validate_url_policy lib c dns url =
    (if py_strip url = [] then Inl (Mm_error ''invalid_url'' 400)
     else if mc_allow_hosts c = [] \<and> \<not> mc_any_public c then Inl (Mm_error ''download_host_policy_missing'' 400)
     else case validate_outbound_url (ml_classes lib) (ml_idna lib) dns (download_options c) (py_strip url) of
       Inl Port_value_error \<Rightarrow> Inl Mm_value_error
     | Inl _ \<Rightarrow> Inl (Mm_error ''ssrf_blocked'' 400)
     | Inr _ \<Rightarrow> Inr ())"

definition active_tasks :: "manager \<Rightarrow> nat" where
  "active_tasks m = length (filter (\<lambda>t. dl_state t \<in> {''queued'', ''running''}) (dvals (mg_tasks m)))"

record task_request =
  rt_model_id :: string
  rt_name :: string
  rt_model_type :: string
  rt_source :: string
  rt_source_label :: string
  rt_download_url :: string
  rt_expected_sha256 :: string
  rt_provenance :: json
  rt_destination_subdir :: "string option"
  rt_filename :: "string option"
  rt_tenant_id :: "string option"

definition subdir_of_type :: "string \<Rightarrow> string" where
  "subdir_of_type mtype = (case dget MODEL_TYPE_TO_SUBDIR mtype of Some d \<Rightarrow> d | None \<Rightarrow> ''misc'')"

text \<open>The checks before the task exists; the budget is looked at under a lock of its own.\<close>

definition prepare_task :: "mm_lib \<Rightarrow> mm_config \<Rightarrow> time \<Rightarrow> resolver \<Rightarrow> string \<Rightarrow> task_request \<Rightarrow> manager \<Rightarrow> mm_error + download_task" where
  "prepare_task lib c now dns uuid r m =
    (let digest = py_lower (py_strip (rt_expected_sha256 r)); mtype = norm_model_type (rt_model_type r) in
     if int (active_tasks m) \<ge> mc_max_active c then Inl (Mm_error ''download_queue_full'' 429)
     else if py_strip (rt_model_id r) = [] \<or> py_strip (rt_name r) = [] \<or> \<not> is_sha256 digest then Inl (Mm_error ''validation_error'' 400)
     else if model_type_excluded (rt_model_type r) then Inl (Mm_error ''unsupported_model_type'' 400)
     else case validate_url_policy lib c dns (rt_download_url r) of Inl e \<Rightarrow> Inl e | Inr _ \<Rightarrow>
     (case validate_provenance (ml_str lib) (rt_provenance r) of Inl e \<Rightarrow> Inl e | Inr provenance \<Rightarrow>
     (case sanitize_subdir (or_text (rt_destination_subdir r) (subdir_of_type mtype)) of Inl e \<Rightarrow> Inl e | Inr dest \<Rightarrow>
     (case (case rt_filename r of Some f \<Rightarrow> if f = [] then filename_from_url (rt_download_url r) else sanitize_filename f
        | None \<Rightarrow> filename_from_url (rt_download_url r)) of Inl e \<Rightarrow> Inl e | Inr fname \<Rightarrow>
     (case normalize_tenant (mc_env c) (rt_tenant_id r) of Inl e \<Rightarrow> Inl e | Inr tenant \<Rightarrow>
        Inr \<lparr>dl_task_id = uuid, dl_model_id = py_strip (rt_model_id r), dl_name = py_strip (rt_name r), dl_model_type = mtype,
          dl_source = norm_source (rt_source r),
          dl_source_label = take 80 (if rt_source_label r = [] then norm_source (rt_source r) else rt_source_label r),
          dl_download_url = py_strip (rt_download_url r), dl_destination_subdir = dest, dl_filename = fname, dl_expected_sha256 = digest,
          dl_provenance = provenance, dl_tenant_id = tenant, dl_state = ''queued'', dl_created_at = now, dl_updated_at = now,
          dl_started_at = 0, dl_finished_at = 0, dl_bytes_downloaded = 0, dl_total_bytes = 0, dl_progress = 0, dl_cancel_requested = False,
          dl_error = [], dl_staged_path = [], dl_computed_sha256 = [], dl_imported = False, dl_installation_path = [],
          dl_installation_record_id = [], dl_resume_status = ''queued_new'', dl_recovery_attempts = 0, dl_last_checkpoint_at = 0,
          dl_change_seq = 0\<rparr>)))))"

definition add_task :: "time \<Rightarrow> download_task \<Rightarrow> manager \<Rightarrow> json \<times> manager" where
  "add_task now t m =
    (let tid = dl_task_id t; m1 = m\<lparr>mg_tasks := dput tid t (mg_tasks m)\<rparr>; m2 = change_task tid (\<lambda>t. t) m1;
         m3 = m2\<lparr>mg_cancel := dput tid False (mg_cancel m2), mg_pending := mg_pending m2 @ [tid]\<rparr>;
         m4 = emit_task now tid (persist_tasks now True m3)
     in (case dget (mg_tasks m4) tid of Some t4 \<Rightarrow> task_to_dict t4 | None \<Rightarrow> JNull, m4))"

definition create_download_task :: "mm_lib \<Rightarrow> mm_config \<Rightarrow> time \<Rightarrow> resolver \<Rightarrow> string \<Rightarrow> task_request \<Rightarrow> manager \<Rightarrow> (mm_error + json) \<times> manager" where
  "create_download_task lib c now dns uuid r m = (case prepare_task lib c now dns uuid r m of
     Inl e \<Rightarrow> (Inl e, m) | Inr t \<Rightarrow> (let (row, m') = add_task now t m in (Inr row, m')))"

subsection \<open>The worker\<close>

text \<open>A worker of the pool takes the task that waits longest; \<open>run_task\<close> marks it as running.\<close>

definition begin_task :: "time \<Rightarrow> manager \<Rightarrow> manager" where
  "begin_task now m = (case mg_pending m of
     [] \<Rightarrow> m
   | tid # rest \<Rightarrow> let m = m\<lparr>mg_pending := rest\<rparr> in
       if dget (mg_tasks m) tid = None \<or> dget (mg_cancel m) tid = None then m
       else update_task now True tid (\<lambda>t. t\<lparr>dl_state := ''running'', dl_started_at := now, dl_updated_at := now,
              dl_resume_status := (if dl_resume_status t = [] then ''running'' else dl_resume_status t)\<rparr>)
              (m\<lparr>mg_workers := dput tid Opening (mg_workers m)\<rparr>))"

definition end_worker :: "time \<Rightarrow> string \<Rightarrow> string \<Rightarrow> string \<Rightarrow> manager \<Rightarrow> manager" where
  "end_worker now tid st err m = update_task now True tid (\<lambda>t. t\<lparr>dl_state := st, dl_error := err, dl_updated_at := now, dl_finished_at := now\<rparr>)
     (m\<lparr>mg_workers := ddel tid (mg_workers m)\<rparr>)"

abbreviation fail_worker :: "time \<Rightarrow> string \<Rightarrow> string \<Rightarrow> manager \<Rightarrow> manager" where
  "fail_worker now tid err \<equiv> end_worker now tid ''failed'' err"

record reply =
  rp_code :: int
  rp_etag :: "string option"
  rp_last_modified :: "string option"
  rp_content_length :: "string option"
  rp_content_range :: "string option"

datatype opened = Open_raised string | Replied reply

definition header_text :: "string option \<Rightarrow> string" where
  "header_text h = (case h of None \<Rightarrow> [] | Some v \<Rightarrow> py_strip v)"

definition content_length :: "reply \<Rightarrow> int" where
  "content_length r = (case py_int (or_text (rp_content_length r) ''0'') of Some n \<Rightarrow> max 0 n | None \<Rightarrow> 0)"

datatype stream_start = Stream_failed string | Fall_back string | Stream_from transfer

text \<open>What the reply to a request means: for a resumed one (with the bytes present) or a fresh one.\<close>

definition open_stream :: "mm_lib \<Rightarrow> string \<Rightarrow> int \<Rightarrow> (string \<times> json) list \<Rightarrow> opened \<Rightarrow> stream_start" where
  "open_stream lib present found ck o' = (case o' of
     Open_raised err \<Rightarrow> Stream_failed err
   | Replied r \<Rightarrow>
       let etag = header_text (rp_etag r); lm = header_text (rp_last_modified r); resume_from = int (length present);
           start = (\<lambda>total. Stream_from \<lparr>tf_hashed = present, tf_downloaded = resume_from, tf_total = total, tf_etag = etag, tf_last_modified = lm,
             tf_last_emit = 0, tf_resumed = (resume_from > 0), tf_found_bytes = found\<rparr>) in
       if rp_code r \<in> {301, 302, 303, 307, 308} then Stream_failed ''redirect blocked for managed downloads''
       else if rp_code r \<ge> 400 then Stream_failed (''HTTP '' @ int_str (rp_code r))
       else if resume_from > 0 then
         if rp_code r \<noteq> 206 then Fall_back ''resume_fallback_range_not_supported''
         else if \<not> validators_match lib ck etag lm then Fall_back ''resume_fallback_validator_mismatch''
         else (case parse_content_range (or_text (rp_content_range r) []) of
           None \<Rightarrow> Stream_failed ''not enough values to unpack (expected 2, got 1)''
         | Some (range_start, _, range_total) \<Rightarrow>
             if range_start \<noteq> resume_from then Fall_back ''resume_fallback_content_range_mismatch''
             else start (if range_total > 0 then range_total else resume_from + content_length r))
       else start (content_length r))"

definition remove_part :: "string \<Rightarrow> manager \<Rightarrow> manager" where
  "remove_part tid m = m\<lparr>mg_parts := (mg_parts m)(tid := None), mg_checkpoints := (mg_checkpoints m)(tid := None)\<rparr>"

text \<open>The fresh download: the part file is emptied when it is opened for writing.\<close>

definition open_fresh :: "mm_lib \<Rightarrow> time \<Rightarrow> string \<Rightarrow> int \<Rightarrow> opened \<Rightarrow> manager \<Rightarrow> manager" where
  "open_fresh lib now tid found o' m = (case open_stream lib [] found [] o' of
     Stream_failed err \<Rightarrow> fail_worker now tid err (remove_part tid m)
   | Fall_back reason \<Rightarrow> fail_worker now tid reason (remove_part tid m)
   | Stream_from t \<Rightarrow> (let m = remove_part tid m in m\<lparr>mg_parts := (mg_parts m)(tid \<mapsto> []), mg_workers := dput tid (Streaming t) (mg_workers m)\<rparr>))"

definition staged_path :: "mm_config \<Rightarrow> download_task \<Rightarrow> string" where
  "staged_path c t = mc_state_root c @ ''/staging/'' @ dl_task_id t @ ''/'' @ dl_filename t"

text \<open>
  Up to the first read: validation of the URL, the decision whether to resume, the request
  and, when the server does not resume, the second request.
\<close>

definition open_download :: "mm_lib \<Rightarrow> mm_config \<Rightarrow> time \<Rightarrow> resolver \<Rightarrow> string \<Rightarrow> opened \<Rightarrow> opened \<Rightarrow> manager \<Rightarrow> manager" where
  "open_download lib c now dns tid first second m = (case (dget (mg_tasks m) tid, dget (mg_workers m) tid) of
     (Some t, Some Opening) \<Rightarrow>
       (case validate_outbound_url (ml_classes lib) (ml_idna lib) dns (download_options c) (dl_download_url t) of
          Inl e \<Rightarrow> fail_worker now tid (ml_show lib e) m
        | Inr _ \<Rightarrow>
           let m = m\<lparr>mg_staged := (mg_staged m)(staged_path c t := None)\<rparr>;
               part = (case mg_parts m tid of None \<Rightarrow> [] | Some p \<Rightarrow> p); ck = load_checkpoint tid m; n = int (length part) in
           if part = [] then open_fresh lib now tid n first m
           else (case checkpoint_matches_task lib t ck n of
              None \<Rightarrow> fail_worker now tid ''invalid literal for int()'' m
            | Some False \<Rightarrow> open_fresh lib now tid n first (set_resume_status now tid ''resume_fallback_checkpoint_mismatch'' m)
            | Some True \<Rightarrow>
                let m = set_resume_status now tid ''resume_attempt'' m in
                (case open_stream lib part n ck first of
                   Stream_failed err \<Rightarrow> fail_worker now tid err m
                 | Fall_back reason \<Rightarrow> open_fresh lib now tid n second (set_resume_status now tid reason m)
                 | Stream_from tf \<Rightarrow> m\<lparr>mg_workers := dput tid (Streaming tf) (mg_workers m)\<rparr>)))
   | _ \<Rightarrow> m)"

datatype read_result = Read_raised string | Read_bytes string

text \<open>One turn of the loop that reads the reply.\<close>

definition stream_chunk :: "time \<Rightarrow> string \<Rightarrow> read_result \<Rightarrow> manager \<Rightarrow> manager" where
  "stream_chunk now tid r m = (case dget (mg_workers m) tid of
     Some (Streaming tf) \<Rightarrow>
       let save = (\<lambda>tf. save_checkpoint now tid (tf_downloaded tf) (tf_total tf) (tf_etag tf) (tf_last_modified tf)) in
       if dget (mg_cancel m) tid = Some True then end_worker now tid ''cancelled'' ''cancelled'' (save tf m)
       else (case r of
          Read_raised err \<Rightarrow> fail_worker now tid err m
        | Read_bytes [] \<Rightarrow>
            let m = save tf (progress now tid (tf_downloaded tf) (if tf_total tf \<noteq> 0 then tf_total tf else tf_downloaded tf) m)
            in m\<lparr>mg_workers := dput tid (Ended tf) (mg_workers m)\<rparr>
        | Read_bytes chunk \<Rightarrow>
            let tf = tf\<lparr>tf_hashed := tf_hashed tf @ chunk, tf_downloaded := tf_downloaded tf + int (length chunk)\<rparr>;
                m = m\<lparr>mg_parts := (mg_parts m)(tid \<mapsto> (case mg_parts m tid of None \<Rightarrow> [] | Some p \<Rightarrow> p) @ chunk)\<rparr>;
                due = (now - tf_last_emit tf \<ge> 35 / 100);
                m = (if due then save tf (progress now tid (tf_downloaded tf) (tf_total tf) m) else m)
            in m\<lparr>mg_workers := dput tid (Streaming (if due then tf\<lparr>tf_last_emit := now\<rparr> else tf)) (mg_workers m)\<rparr>)
   | _ \<Rightarrow> m)"

definition finish_task :: "mm_lib \<Rightarrow> mm_config \<Rightarrow> time \<Rightarrow> string \<Rightarrow> manager \<Rightarrow> manager" where
  "finish_task lib c now tid m = (case (dget (mg_tasks m) tid, dget (mg_workers m) tid) of
     (Some t, Some (Ended tf)) \<Rightarrow>
       let got = ml_sha lib (tf_hashed tf) in
       if got \<noteq> dl_expected_sha256 t then fail_worker now tid (''expected '' @ dl_expected_sha256 t @ '', got '' @ got) (remove_part tid m)
       else let path = staged_path c t; content = (case mg_parts m tid of None \<Rightarrow> [] | Some p \<Rightarrow> p);
                m = (remove_part tid m)\<lparr>mg_staged := (mg_staged m)(path \<mapsto> content), mg_workers := ddel tid (mg_workers m)\<rparr>;
                m = (if tf_resumed tf then set_resume_status now tid ''resumed_partial'' m
                     else if tf_found_bytes tf \<le> 0 then set_resume_status now tid ''started_fresh'' m else m);
                m = progress now tid (tf_downloaded tf) (if tf_total tf \<noteq> 0 then tf_total tf else tf_downloaded tf) m
            in update_task now True tid (\<lambda>t. t\<lparr>dl_state := ''completed'', dl_updated_at := now, dl_finished_at := now, dl_progress := 1,
                 dl_staged_path := path, dl_computed_sha256 := got\<rparr>) m
   | _ \<Rightarrow> m)"

subsection \<open>Import\<close>

definition relative_to :: "string \<Rightarrow> string \<Rightarrow> string list option" where
  "relative_to base p = (let a = path_parts base; b = path_parts p in if take (length a) b = a then Some (drop (length a) b) else None)"

definition absolute_bounded :: "(string \<Rightarrow> string) \<Rightarrow> string \<Rightarrow> string list \<Rightarrow> string option" where
  "absolute_bounded realpath install_root rel =
    (let candidate = realpath (path_join install_root (join_with (CHR ''/'') rel)) in
     case relative_to install_root candidate of None \<Rightarrow> None | Some _ \<Rightarrow> Some candidate)"

definition resolve_bounded :: "(string \<Rightarrow> string) \<Rightarrow> string \<Rightarrow> string list \<Rightarrow> string list option" where
  "resolve_bounded realpath install_root rel = (case resolve_under_root realpath True install_root (join_with (CHR ''/'') rel) of
     None \<Rightarrow> None | Some p \<Rightarrow> relative_to install_root (realpath p))"

definition temp_sibling :: "string list \<Rightarrow> string \<Rightarrow> string list" where
  "temp_sibling rel hex = butlast rel @ [CHR ''.'' # last rel @ ''.tmp.'' @ hex]"

text \<open>Where the file goes: its path relative to the root and the absolute one.\<close>

definition install_target :: "(string \<Rightarrow> string) \<Rightarrow> mm_config \<Rightarrow> string \<Rightarrow> string list \<Rightarrow> mm_error + string list \<times> string" where
  "install_target realpath c hex rel =
    (let base = realpath (mc_install_root c); invalid = Inl (Mm_error ''invalid_destination'' 400) in
     case resolve_bounded realpath base rel of
       None \<Rightarrow> invalid
     | Some safe \<Rightarrow> (case absolute_bounded realpath base safe of
         None \<Rightarrow> invalid
       | Some target \<Rightarrow> if safe = [] \<or> absolute_bounded realpath base (temp_sibling safe hex) = None then Inl Mm_value_error else Inr (safe, target)))"

record install_plan =
  ip_task :: download_task
  ip_relative :: "string list"
  ip_target :: string
  ip_content :: string

definition prepare_import :: "mm_lib \<Rightarrow> mm_config \<Rightarrow> string \<Rightarrow> string \<Rightarrow> string option \<Rightarrow> string option \<Rightarrow> string option \<Rightarrow> manager \<Rightarrow> mm_error + install_plan" where
  "prepare_import lib c hex task_id tenant_id destination_subdir filename m =
    (case dget (mg_tasks m) task_id of
       None \<Rightarrow> Inl (Mm_error ''not_found'' 404)
     | Some t \<Rightarrow>
        if \<not> tenant_ok (mc_env c) (dl_tenant_id t) tenant_id then Inl (Mm_error ''not_found'' 404)
        else if dl_state t \<noteq> ''completed'' then Inl (Mm_error ''task_not_ready'' 400)
        else if dl_imported t then Inl (Mm_error ''already_imported'' 400)
        else case mg_staged m (dl_staged_path t) of
          None \<Rightarrow> Inl (Mm_error ''staging_missing'' 400)
        | Some content \<Rightarrow>
           if ml_sha lib content \<noteq> dl_expected_sha256 t \<or> dl_computed_sha256 t \<noteq> dl_expected_sha256 t then Inl (Mm_error ''sha256_mismatch'' 400)
           else case validate_provenance (ml_str lib) (JObj (dl_provenance t)) of Inl e \<Rightarrow> Inl e | Inr _ \<Rightarrow>
           (case sanitize_subdir (or_text destination_subdir (dl_destination_subdir t)) of Inl e \<Rightarrow> Inl e | Inr subdir \<Rightarrow>
           (case sanitize_filename (or_text filename (dl_filename t)) of Inl e \<Rightarrow> Inl e | Inr fname \<Rightarrow>
           (case install_target (ml_realpath lib) c hex (path_parts subdir @ [fname]) of Inl e \<Rightarrow> Inl e
            | Inr (rel, target) \<Rightarrow> Inr \<lparr>ip_task = t, ip_relative = rel, ip_target = target, ip_content = content\<rparr>))))"

fun clean_tags :: "json list \<Rightarrow> string list \<Rightarrow> string list" where
  "clean_tags [] acc = acc"
| "clean_tags (JStr s # tags) acc =
    (let clean = py_lower (py_strip s) in
     if clean = [] \<or> clean \<in> set acc then clean_tags tags acc
     else if length (acc @ [clean]) \<ge> 24 then acc @ [clean] else clean_tags tags (acc @ [clean]))"
| "clean_tags (_ # tags) acc = clean_tags tags acc"

definition installation_row :: "time \<Rightarrow> string \<Rightarrow> install_plan \<Rightarrow> json list \<Rightarrow> (string \<times> json) list" where
  "installation_row now uuid p tags = (let t = ip_task p in
     [(''id'', JStr uuid), (''task_id'', JStr (dl_task_id t)), (''model_id'', JStr (dl_model_id t)), (''name'', JStr (dl_name t)),
      (''model_type'', JStr (dl_model_type t)), (''source'', JStr (dl_source t)), (''source_label'', JStr (dl_source_label t)),
      (''download_url'', JStr (dl_download_url t)), (''sha256'', JStr (dl_expected_sha256 t)), (''size_bytes'', JInt (int (length (ip_content p)))),
      (''provenance'', JObj (dl_provenance t)), (''installation_path'', JStr (join_with (CHR ''/'') (ip_relative p))),
      (''tenant_id'', JStr (dl_tenant_id t)), (''installed_at'', JFloat now), (''tags'', JArr (map JStr (clean_tags tags [])))])"

definition load_installations :: "json option \<Rightarrow> (string \<times> json) list list" where
  "load_installations f = (case f of Some (JArr rows) \<Rightarrow> List.map_filter (\<lambda>r. case r of JObj d \<Rightarrow> Some d | _ \<Rightarrow> None) rows | _ \<Rightarrow> [])"

definition installed_at :: "mm_lib \<Rightarrow> (string \<times> json) list \<Rightarrow> real option" where
  "installed_at lib row = field_or (float_field lib) 0 ''installed_at'' row"

text \<open>The file is in place before the record is written: a row of the file that does not sort raises in between.\<close>

definition commit_import :: "mm_lib \<Rightarrow> time \<Rightarrow> string \<Rightarrow> json list \<Rightarrow> install_plan \<Rightarrow> manager \<Rightarrow> (mm_error + (string \<times> json) list) \<times> manager" where
  "commit_import lib now uuid tags p m =
    (let m1 = m\<lparr>mg_installed := (mg_installed m)(ip_target p \<mapsto> ip_content p)\<rparr>; rec = installation_row now uuid p tags;
         rows = load_installations (mg_installations m) @ [rec] in
     if \<exists>r \<in> set rows. installed_at lib r = None then (Inl Mm_value_error, m1)
     else let m2 = m1\<lparr>mg_installations := Some (JArr (map JObj (sort_key (\<lambda>r. - the (installed_at lib r)) rows)))\<rparr>
       in (Inr rec, update_task now True (dl_task_id (ip_task p)) (\<lambda>t. t\<lparr>dl_imported := True,
            dl_installation_path := join_with (CHR ''/'') (ip_relative p), dl_installation_record_id := uuid, dl_updated_at := now\<rparr>) m2))"

definition import_downloaded_model ::
  "mm_lib \<Rightarrow> mm_config \<Rightarrow> time \<Rightarrow> string \<Rightarrow> string \<Rightarrow> string \<Rightarrow> string option \<Rightarrow> string option \<Rightarrow> string option \<Rightarrow> json list \<Rightarrow> manager
    \<Rightarrow> (mm_error + (string \<times> json) list) \<times> manager" where
  "import_downloaded_model lib c now hex uuid task_id tenant_id destination_subdir filename tags m =
    (case prepare_import lib c hex task_id tenant_id destination_subdir filename m of
       Inl e \<Rightarrow> (Inl e, m) | Inr p \<Rightarrow> commit_import lib now uuid tags p m)"

end
