(* ===== verification/Model_Lifecycle.thy ===== *)
theory Model_Lifecycle
  imports Model_Transfer "HOL-Library.Multiset"
begin

text \<open>
  The life of download tasks: rows of the task file decode to the tasks they encode, the
  invariant of the manager over every interleaving of its operations with the workers and
  with restarts of the process, and what follows for downloads, imports and listings.
\<close>

declare map_of_eq_Some_iff [simp del]

subsection \<open>Rows of the task file\<close>

lemma norm_model_type_idem: "norm_model_type (norm_model_type s) = norm_model_type s"
proof -
  have keys: "list_all (\<lambda>k. norm_model_type k = k) (''other'' # DEFAULT_MODEL_TYPE # dkeys MODEL_TYPE_TO_SUBDIR)" by code_simp
  have "norm_model_type s \<in> set (''other'' # DEFAULT_MODEL_TYPE # dkeys MODEL_TYPE_TO_SUBDIR)"
    unfolding norm_model_type_def Let_def by simp
  then show ?thesis using keys unfolding list_all_iff by blast
qed

lemma source_char_lower: "is_alnum c \<or> c \<in> set ''_-.'' \<Longrightarrow> lower_char c = c \<Longrightarrow> \<not> is_space c"
  by (auto simp: is_alnum_def is_space_def is_digit_def is_upper_def is_lower_def Let_def)

lemma norm_source_idem: "norm_source (norm_source s) = norm_source s"
proof -
  let ?P = "\<lambda>c. is_alnum c \<or> c \<in> set ''_-.''"
  have fixed: "norm_source r = r" if "r \<noteq> []" "length r \<le> 48" "list_all (\<lambda>c. ?P c \<and> lower_char c = c) r" for r
  proof -
    have s: "py_strip r = r" using that(3) source_char_lower by (intro py_strip_no_space) (auto simp: list_all_iff)
    have l: "py_lower r = r" using that(3) by (auto simp: py_lower_def list_all_iff intro!: map_idI)
    have "filter ?P r = r" using that(3) by (auto simp: list_all_iff intro!: filter_True)
    then show ?thesis using that(1,2) by (simp only: norm_source_def Let_def s l if_False take_all)
  qed
  define out where "out = take 48 (filter ?P (py_lower (py_strip (if s = [] then ''unknown'' else s))))"
  have n: "norm_source s = (if out = [] then ''unknown'' else out)" by (simp only: norm_source_def Let_def out_def)
  have "list_all (\<lambda>c. ?P c \<and> lower_char c = c) out"
  proof (unfold list_all_iff, intro ballI)
    fix c assume "c \<in> set out"
    then have c: "c \<in> set (filter ?P (py_lower (py_strip (if s = [] then ''unknown'' else s))))" unfolding out_def by (rule in_set_takeD)
    then obtain x where "c = lower_char x" unfolding py_lower_def set_filter set_map by blast
    then show "?P c \<and> lower_char c = c" using c by simp
  qed
  moreover have "length out \<le> 48" by (simp add: out_def)
  moreover have "norm_source ''unknown'' = ''unknown''" by code_simp
  ultimately show ?thesis using fixed by (simp add: n)
qed

text \<open>What a task satisfies that was made by the manager: the row keeps all of it.\<close>

definition task_wf :: "download_task \<Rightarrow> bool" where
  "task_wf t \<longleftrightarrow> norm_model_type (dl_model_type t) = dl_model_type t \<and> norm_source (dl_source t) = dl_source t \<and> dl_tenant_id t \<noteq> []
     \<and> dl_state t \<noteq> [] \<and> dl_resume_status t \<noteq> [] \<and> dl_created_at t \<noteq> 0 \<and> dl_updated_at t \<noteq> 0
     \<and> 0 \<le> dl_bytes_downloaded t \<and> 0 \<le> dl_total_bytes t \<and> 0 \<le> dl_progress t \<and> dl_progress t \<le> 1
     \<and> 0 \<le> dl_recovery_attempts t \<and> 0 \<le> dl_change_seq t"

text \<open>
  Persisting and loading a task gives the task back, for every task whose model type, source,
  tenant and counters are in the form the manager gives them.
\<close>

lemma task_round_trip:
  assumes "task_wf t"
  shows "task_from_dict lib now (task_to_dict t) = Some t"
proof -
  obtain d where d: "task_to_dict t = JObj d" by (simp add: task_to_dict_def)
  have texts: "text_field (ml_str lib) ''task_id'' d = dl_task_id t"
    "text_field (ml_str lib) ''model_id'' d = dl_model_id t"
    "text_field (ml_str lib) ''name'' d = dl_name t"
    "text_field (ml_str lib) ''model_type'' d = dl_model_type t"
    "text_field (ml_str lib) ''source'' d = dl_source t"
    "text_field (ml_str lib) ''source_label'' d = dl_source_label t"
    "text_field (ml_str lib) ''download_url'' d = dl_download_url t"
    "text_field (ml_str lib) ''destination_subdir'' d = dl_destination_subdir t"
    "text_field (ml_str lib) ''filename'' d = dl_filename t"
    "text_field (ml_str lib) ''expected_sha256'' d = dl_expected_sha256 t"
    "text_field (ml_str lib) ''tenant_id'' d = dl_tenant_id t"
    "text_field (ml_str lib) ''state'' d = dl_state t"
    "text_field (ml_str lib) ''error'' d = dl_error t"
    "text_field (ml_str lib) ''staged_path'' d = dl_staged_path t"
    "text_field (ml_str lib) ''computed_sha256'' d = dl_computed_sha256 t"
    "text_field (ml_str lib) ''installation_path'' d = dl_installation_path t"
    "text_field (ml_str lib) ''installation_record_id'' d = dl_installation_record_id t"
    "text_field (ml_str lib) ''resume_status'' d = dl_resume_status t"
    using d by (auto simp: task_to_dict_def text_field_def)
  have floats: "field_or (float_field lib) now ''created_at'' d = Some (dl_created_at t)"
    "field_or (float_field lib) now ''updated_at'' d = Some (dl_updated_at t)"
    "field_or (float_field lib) 0 ''started_at'' d = Some (dl_started_at t)"
    "field_or (float_field lib) 0 ''finished_at'' d = Some (dl_finished_at t)"
    "field_or (float_field lib) 0 ''progress'' d = Some (dl_progress t)"
    "field_or (float_field lib) 0 ''last_checkpoint_at'' d = Some (dl_last_checkpoint_at t)"
    using d assms by (auto simp: task_to_dict_def field_or_def float_field_def task_wf_def)
  have ints: "field_or json_int 0 ''bytes_downloaded'' d = Some (dl_bytes_downloaded t)"
    "field_or json_int 0 ''total_bytes'' d = Some (dl_total_bytes t)"
    "field_or json_int 0 ''recovery_attempts'' d = Some (dl_recovery_attempts t)"
    "field_or json_int 0 ''change_seq'' d = Some (dl_change_seq t)"
    using d by (auto simp: task_to_dict_def field_or_def json_int_def)
  have prov: "field_or (dict_field lib) [] ''provenance'' d = Some (dl_provenance t)"
    using d by (auto simp: task_to_dict_def field_or_def dict_field_def)
  have flags: "dget d ''cancel_requested'' = Some (JBool (dl_cancel_requested t))" "dget d ''imported'' = Some (JBool (dl_imported t))"
    using d by (auto simp: task_to_dict_def)
  show ?thesis using assms
    by (simp add: d task_from_dict_def Let_def texts floats ints prov flags task_wf_def)
qed

subsection \<open>What the steps of the operations change\<close>

lemmas task_steps = update_task_def set_resume_status_def progress_def persist_tasks_def emit_task_def change_task_def save_checkpoint_def

text \<open>A task after \<open>change_task\<close>: the change, and the next number.\<close>

abbreviation bumped :: "manager \<Rightarrow> download_task \<Rightarrow> download_task" where
  "bumped m t \<equiv> t\<lparr>dl_change_seq := mg_change_seq m + 1\<rparr>"

lemma change_task_frame [simp]:
  "mg_pending (change_task i f m) = mg_pending m" "mg_workers (change_task i f m) = mg_workers m" "mg_cancel (change_task i f m) = mg_cancel m"
  "mg_tasks_file (change_task i f m) = mg_tasks_file m" "mg_parts (change_task i f m) = mg_parts m"
  "mg_checkpoints (change_task i f m) = mg_checkpoints m" "mg_staged (change_task i f m) = mg_staged m"
  "mg_installations (change_task i f m) = mg_installations m" "mg_installed (change_task i f m) = mg_installed m"
  by (simp_all add: change_task_def Let_def split: option.split)

lemma emit_task_frame [simp]:
  "mg_tasks (emit_task now i m) = mg_tasks m" "mg_change_seq (emit_task now i m) = mg_change_seq m"
  "mg_pending (emit_task now i m) = mg_pending m" "mg_workers (emit_task now i m) = mg_workers m" "mg_cancel (emit_task now i m) = mg_cancel m"
  "mg_tasks_file (emit_task now i m) = mg_tasks_file m" "mg_parts (emit_task now i m) = mg_parts m"
  "mg_checkpoints (emit_task now i m) = mg_checkpoints m" "mg_staged (emit_task now i m) = mg_staged m"
  "mg_installations (emit_task now i m) = mg_installations m" "mg_installed (emit_task now i m) = mg_installed m"
  by (simp_all add: emit_task_def Let_def split: option.split)

lemma persist_tasks_frame [simp]:
  "mg_tasks (persist_tasks now force m) = mg_tasks m" "mg_change_seq (persist_tasks now force m) = mg_change_seq m"
  "mg_pending (persist_tasks now force m) = mg_pending m" "mg_workers (persist_tasks now force m) = mg_workers m"
  "mg_cancel (persist_tasks now force m) = mg_cancel m" "mg_parts (persist_tasks now force m) = mg_parts m"
  "mg_checkpoints (persist_tasks now force m) = mg_checkpoints m" "mg_staged (persist_tasks now force m) = mg_staged m"
  "mg_installations (persist_tasks now force m) = mg_installations m" "mg_installed (persist_tasks now force m) = mg_installed m"
  by (simp_all add: persist_tasks_def)

lemma change_task_tasks:
  "mg_tasks (change_task i f m) = (case dget (mg_tasks m) i of None \<Rightarrow> mg_tasks m | Some t \<Rightarrow> dput i (bumped m (f t)) (mg_tasks m))"
  "mg_change_seq (change_task i f m) = (if dget (mg_tasks m) i = None then mg_change_seq m else mg_change_seq m + 1)"
  by (simp_all add: change_task_def Let_def split: option.split)

lemma save_checkpoint_frame [simp]:
  "mg_change_seq (save_checkpoint now i b n e l m) = mg_change_seq m"
  "mg_pending (save_checkpoint now i b n e l m) = mg_pending m" "mg_workers (save_checkpoint now i b n e l m) = mg_workers m"
  "mg_cancel (save_checkpoint now i b n e l m) = mg_cancel m" "mg_parts (save_checkpoint now i b n e l m) = mg_parts m"
  "mg_staged (save_checkpoint now i b n e l m) = mg_staged m"
  "mg_installations (save_checkpoint now i b n e l m) = mg_installations m" "mg_installed (save_checkpoint now i b n e l m) = mg_installed m"
  by (simp_all add: save_checkpoint_def split: option.split)

lemma update_task_frame [simp]:
  "mg_pending (update_task now force i f m) = mg_pending m" "mg_workers (update_task now force i f m) = mg_workers m"
  "mg_cancel (update_task now force i f m) = mg_cancel m" "mg_parts (update_task now force i f m) = mg_parts m"
  "mg_checkpoints (update_task now force i f m) = mg_checkpoints m" "mg_staged (update_task now force i f m) = mg_staged m"
  "mg_installations (update_task now force i f m) = mg_installations m" "mg_installed (update_task now force i f m) = mg_installed m"
  by (simp_all add: update_task_def)

lemma set_resume_status_frame [simp]:
  "mg_pending (set_resume_status now i st m) = mg_pending m" "mg_workers (set_resume_status now i st m) = mg_workers m"
  "mg_cancel (set_resume_status now i st m) = mg_cancel m" "mg_parts (set_resume_status now i st m) = mg_parts m"
  "mg_checkpoints (set_resume_status now i st m) = mg_checkpoints m" "mg_staged (set_resume_status now i st m) = mg_staged m"
  "mg_installations (set_resume_status now i st m) = mg_installations m" "mg_installed (set_resume_status now i st m) = mg_installed m"
  by (simp_all add: set_resume_status_def)

lemma remove_part_frame [simp]:
  "mg_tasks (remove_part i m) = mg_tasks m" "mg_change_seq (remove_part i m) = mg_change_seq m" "mg_tasks_file (remove_part i m) = mg_tasks_file m"
  "mg_pending (remove_part i m) = mg_pending m" "mg_workers (remove_part i m) = mg_workers m" "mg_cancel (remove_part i m) = mg_cancel m"
  "mg_parts (remove_part i m) = (mg_parts m)(i := None)" "mg_staged (remove_part i m) = mg_staged m"
  "mg_installations (remove_part i m) = mg_installations m" "mg_installed (remove_part i m) = mg_installed m"
  by (simp_all add: remove_part_def)

subsection \<open>Imports\<close>

lemma absolute_bounded_inside:
  assumes "\<And>p. real_path (realpath p)" and "absolute_bounded realpath (realpath r) rel = Some target"
  shows "\<exists>base rest. list_all plain_part (base @ rest) \<and> realpath r = abs_path base \<and> target = abs_path (base @ rest)"
proof -
  obtain cs where cs: "list_all plain_part cs" "realpath r = abs_path cs" using assms(1) by (auto simp: real_path_def)
  have t: "target = realpath (path_join (realpath r) (join_with (CHR ''/'') rel))" "relative_to (realpath r) target \<noteq> None"
    using assms(2) by (auto simp: absolute_bounded_def Let_def split: option.splits)
  then obtain ds where ds: "list_all plain_part ds" "target = abs_path ds" using assms(1) by (auto simp: real_path_def)
  have "take (length cs) ds = cs" using t(2) cs ds by (simp add: relative_to_def Let_def split: if_splits)
  then have "ds = cs @ drop (length cs) ds" by (metis append_take_drop_id)
  then show ?thesis using cs ds by metis
qed

text \<open>
  The test for an earlier import and the mark of it are under different locks: two imports of one
  task that overlap both succeed.
\<close>

lemma imported_twice:
  assumes "prepare_import lib c hex task_id tenant_id d f m = Inr p" and "prepare_import lib c hex' task_id tenant_id d' f' m = Inr p'"
    and "\<forall>r \<in> set (load_installations (mg_installations m)). installed_at lib r \<noteq> None"
  shows "\<exists>row m1 row' m2. commit_import lib now uuid tags p m = (Inr row, m1) \<and> commit_import lib now' uuid' tags' p' m1 = (Inr row', m2)"
proof -
  have new: "installed_at lib (installation_row n u q tg) \<noteq> None" for n u q tg
    by (simp add: installed_at_def installation_row_def field_or_def float_field_def Let_def)
  have rows: "load_installations (Some (JArr (map JObj rs))) = rs" for rs
    by (induction rs) (simp_all add: load_installations_def List.map_filter_simps)
  show ?thesis using assms(3) new by (auto simp: commit_import_def Let_def rows)
qed

subsection \<open>The invariant\<close>

text \<open>What of a task does not change any more once it has ended.\<close>

definition core :: "download_task \<Rightarrow> string \<times> string \<times> string \<times> string \<times> string \<times> string" where
  "core t = (dl_task_id t, dl_state t, dl_expected_sha256 t, dl_filename t, dl_staged_path t, dl_computed_sha256 t)"

definition ended :: "download_task list \<Rightarrow> (string \<times> string \<times> string \<times> string \<times> string \<times> string) set" where
  "ended ts = core ` {t \<in> set ts. is_terminal t}"

definition task_fit :: "download_task \<Rightarrow> bool" where
  "task_fit t \<longleftrightarrow> task_wf t \<and> dl_task_id t \<noteq> [] \<and> CHR ''/'' \<notin> set (dl_task_id t) \<and> 0 < dl_change_seq t"

text \<open>A completed task has its staged file, and that has the expected hash.\<close>

definition verified :: "mm_lib \<Rightarrow> mm_config \<Rightarrow> files \<Rightarrow> download_task \<Rightarrow> bool" where
  "verified lib c staged t \<longleftrightarrow> (dl_state t = ''completed'' \<longrightarrow> dl_staged_path t = staged_path c t \<and> dl_computed_sha256 t = dl_expected_sha256 t
     \<and> (\<exists>content. staged (dl_staged_path t) = Some content \<and> ml_sha lib content = dl_expected_sha256 t))"

definition tasks_ok :: "manager \<Rightarrow> bool" where
  "tasks_ok m \<longleftrightarrow> own_keys dl_task_id (mg_tasks m) \<and> (\<forall>t \<in> set (dvals (mg_tasks m)). task_fit t \<and> dl_change_seq t \<le> mg_change_seq m)
     \<and> distinct (map dl_change_seq (dvals (mg_tasks m))) \<and> 0 \<le> mg_change_seq m"

definition in_state :: "manager \<Rightarrow> string \<Rightarrow> string \<Rightarrow> bool" where
  "in_state m i st \<longleftrightarrow> (\<exists>t. dget (mg_tasks m) i = Some t \<and> dl_state t = st)"

definition phases_ok :: "manager \<Rightarrow> bool" where
  "phases_ok m \<longleftrightarrow> distinct (mg_pending m) \<and> (\<forall>i \<in> set (mg_pending m). dget (mg_workers m) i = None \<and> in_state m i ''queued'')
     \<and> (\<forall>i. dget (mg_workers m) i \<noteq> None \<longrightarrow> in_state m i ''running'')"

definition workers_ok :: "manager \<Rightarrow> bool" where
  "workers_ok m \<longleftrightarrow> (\<forall>i tf. dget (mg_workers m) i \<in> {Some (Streaming tf), Some (Ended tf)} \<longrightarrow> mg_parts m i = Some (tf_hashed tf))"

definition file_rows :: "manager \<Rightarrow> download_task list \<Rightarrow> bool" where
  "file_rows m ts \<longleftrightarrow> (case mg_tasks_file m of None \<Rightarrow> ts = [] | Some j \<Rightarrow> j = JArr (map task_to_dict ts))"

definition rows_ok :: "download_task list \<Rightarrow> bool" where
  "rows_ok ts \<longleftrightarrow> distinct (map dl_task_id ts) \<and> distinct (map dl_change_seq ts) \<and> (\<forall>t \<in> set ts. task_fit t)"

text \<open>
  The invariant, and the part of it that holds between a change in memory and the write of the
  file: the file shows the same ended tasks as the memory.
\<close>

definition manager_pre :: "mm_lib \<Rightarrow> mm_config \<Rightarrow> manager \<Rightarrow> bool" where
  "manager_pre lib c m \<longleftrightarrow> tasks_ok m \<and> phases_ok m \<and> workers_ok m \<and> (\<forall>i t. dget (mg_tasks m) i = Some t \<longrightarrow> verified lib c (mg_staged m) t)"

definition file_agrees :: "manager \<Rightarrow> bool" where
  "file_agrees m \<longleftrightarrow> (\<exists>ts. file_rows m ts \<and> rows_ok ts \<and> ended ts = ended (dvals (mg_tasks m)))"

definition manager_ok :: "mm_lib \<Rightarrow> mm_config \<Rightarrow> manager \<Rightarrow> bool" where
  "manager_ok lib c m \<longleftrightarrow> manager_pre lib c m \<and> file_agrees m"

lemma dvals_dget: "dict_ok d \<Longrightarrow> v \<in> set (dvals d) \<longleftrightarrow> (\<exists>k. dget d k = Some v)"
  by (force simp: dvals_def dget_iff)

lemma dict_ok_tasks: "tasks_ok m \<Longrightarrow> dict_ok (mg_tasks m)"
  by (rule own_keys_dict_ok [of dl_task_id]) (simp add: tasks_ok_def)

lemma task_at: "tasks_ok m \<Longrightarrow> dget (mg_tasks m) i = Some t \<Longrightarrow> dl_task_id t = i \<and> task_fit t \<and> dl_change_seq t \<le> mg_change_seq m"
proof -
  assume ok: "tasks_ok m" and t: "dget (mg_tasks m) i = Some t"
  then have "t \<in> set (dvals (mg_tasks m))" using dvals_dget [OF dict_ok_tasks] by blast
  then show ?thesis using ok own_keysD [OF _ t, of dl_task_id] by (simp add: tasks_ok_def)
qed

lemma tasks_okI:
  assumes "dict_ok d" and "mg_tasks m = d" and "0 \<le> mg_change_seq m"
    and "\<And>i t. dget d i = Some t \<Longrightarrow> dl_task_id t = i \<and> task_fit t \<and> dl_change_seq t \<le> mg_change_seq m"
    and "\<And>i j t u. dget d i = Some t \<Longrightarrow> dget d j = Some u \<Longrightarrow> dl_change_seq t = dl_change_seq u \<Longrightarrow> i = j"
  shows "tasks_ok m"
proof -
  have "own_keys dl_task_id d" using assms(1,4) by (auto simp: own_keys_def dget_iff)
  moreover have "distinct (map dl_change_seq (dvals d))"
  proof -
    have "inj_on (\<lambda>(k, t). dl_change_seq t) (set d)"
    proof (intro inj_onI, clarify)
      fix i t j u assume "(i, t) \<in> set d" "(j, u) \<in> set d" and s: "dl_change_seq t = dl_change_seq u"
      then have d: "dget d i = Some t" "dget d j = Some u" using assms(1) by (simp_all add: dget_iff)
      then show "i = j \<and> t = u" using assms(5) [OF d s] by simp
    qed
    moreover have "distinct d" using assms(1) by (simp add: distinct_map)
    ultimately have "distinct (map (\<lambda>(k, t). dl_change_seq t) d)" by (simp add: distinct_map)
    then show ?thesis by (simp add: dvals_def comp_def split_def)
  qed
  ultimately show ?thesis using assms by (auto simp: tasks_ok_def dvals_dget)
qed

lemma seq_unique: "tasks_ok m \<Longrightarrow> dget (mg_tasks m) i = Some t \<Longrightarrow> dget (mg_tasks m) j = Some u \<Longrightarrow> dl_change_seq t = dl_change_seq u \<Longrightarrow> i = j"
proof -
  assume ok: "tasks_ok m" and t: "dget (mg_tasks m) i = Some t" and u: "dget (mg_tasks m) j = Some u" and s: "dl_change_seq t = dl_change_seq u"
  have "t \<in> set (dvals (mg_tasks m))" "u \<in> set (dvals (mg_tasks m))" using t u dvals_dget [OF dict_ok_tasks [OF ok]] by blast+
  then have "t = u" using ok s by (auto simp: tasks_ok_def distinct_map dest: inj_onD)
  then show "i = j" using task_at [OF ok t] task_at [OF ok u] by simp
qed

lemma current_rows:
  assumes "tasks_ok m"
  defines "ts \<equiv> sort_key dl_created_at (dvals (mg_tasks m))"
  shows "rows_ok ts" and "ended ts = ended (dvals (mg_tasks m))"
proof -
  have perm: "distinct (map f ts) \<longleftrightarrow> distinct (map f (dvals (mg_tasks m)))" for f :: "download_task \<Rightarrow> 'b"
    by (rule mset_eq_imp_distinct_iff) (simp add: ts_def)
  have "set ts = set (dvals (mg_tasks m))" by (simp add: ts_def)
  then show "rows_ok ts" using assms(1) own_keys_distinct [of dl_task_id "mg_tasks m"]
    by (simp add: rows_ok_def perm) (simp add: tasks_ok_def)
  show "ended ts = ended (dvals (mg_tasks m))" by (simp add: ended_def ts_def)
qed

lemma persist_forced_rows: "tasks_ok m \<Longrightarrow> file_agrees (persist_tasks now True m)"
  using current_rows [of m] by (auto simp: persist_tasks_def file_rows_def file_agrees_def)

lemma persist_rows:
  assumes "tasks_ok m" and "file_agrees m"
  shows "file_agrees (persist_tasks now force m)"
proof (cases "\<not> force \<and> now - mg_persisted_at m < 3 / 10")
  case False
  then have "persist_tasks now force m = persist_tasks now True m" by (simp only: persist_tasks_def if_False simp_thms)
  then show ?thesis using persist_forced_rows [OF assms(1)] by simp
qed (use assms(2) in \<open>simp add: persist_tasks_def\<close>)

subsection \<open>Single changes keep the invariant\<close>

lemma core_simps: "core t = core u \<Longrightarrow> dl_task_id t = dl_task_id u" "core t = core u \<Longrightarrow> dl_state t = dl_state u"
  "core t = core u \<Longrightarrow> is_terminal t = is_terminal u" "core t = core u \<Longrightarrow> verified lib c staged t = verified lib c staged u"
  by (simp_all add: core_def is_terminal_def verified_def staged_path_def)

lemma core_bumped [simp]: "core (bumped m t) = core t"
  by (simp add: core_def)

lemma ended_iff: "dict_ok d \<Longrightarrow> x \<in> ended (dvals d) \<longleftrightarrow> (\<exists>i t. dget d i = Some t \<and> is_terminal t \<and> x = core t)"
  unfolding ended_def by (auto simp: dvals_dget)

definition same_core :: "manager \<Rightarrow> manager \<Rightarrow> bool" where
  "same_core m m' \<longleftrightarrow> (\<forall>i. map_option core (dget (mg_tasks m') i) = map_option core (dget (mg_tasks m) i))"

lemma same_coreD:
  assumes "same_core m m'" and "dget (mg_tasks m') i = Some t"
  obtains u where "dget (mg_tasks m) i = Some u" and "core t = core u"
proof -
  have "map_option core (dget (mg_tasks m) i) = Some (core t)" using assms unfolding same_core_def by (metis option.simps(9))
  then show ?thesis using that by (auto simp: map_option_eq_Some)
qed

lemma same_core_sym: "same_core m m' \<Longrightarrow> same_core m' m"
  by (simp add: same_core_def)

lemma same_core_state: "same_core m m' \<Longrightarrow> in_state m' i st = in_state m i st"
  unfolding in_state_def by (metis core_simps(2) same_coreD same_core_sym)

lemma same_core_ended: "same_core m m' \<Longrightarrow> dict_ok (mg_tasks m) \<Longrightarrow> dict_ok (mg_tasks m') \<Longrightarrow> ended (dvals (mg_tasks m')) = ended (dvals (mg_tasks m))"
  by (rule set_eqI) (simp only: ended_iff, metis core_simps(3) same_coreD same_core_sym)

lemma manager_pre_quiet:
  assumes "manager_pre lib c m" and "tasks_ok m'" and "same_core m m'"
    and "mg_pending m' = mg_pending m" "mg_workers m' = mg_workers m" "mg_parts m' = mg_parts m" "mg_staged m' = mg_staged m"
  shows "manager_pre lib c m'"
proof -
  have "phases_ok m'" using assms(1) by (simp add: manager_pre_def phases_ok_def assms(4-) same_core_state [OF assms(3)])
  moreover have "workers_ok m'" using assms(1) by (simp add: manager_pre_def workers_ok_def assms(4-))
  moreover have "verified lib c (mg_staged m') t" if "dget (mg_tasks m') i = Some t" for i t
    using same_coreD [OF assms(3) that] assms(1,7) core_simps(4) unfolding manager_pre_def by metis
  ultimately show ?thesis using assms(2) by (simp add: manager_pre_def)
qed

lemma manager_ok_quiet:
  assumes "manager_ok lib c m" and "tasks_ok m'" and "same_core m m'"
    and "mg_pending m' = mg_pending m" "mg_workers m' = mg_workers m" "mg_parts m' = mg_parts m" "mg_staged m' = mg_staged m"
    and "mg_tasks_file m' = mg_tasks_file m"
  shows "manager_ok lib c m'"
proof -
  have pre: "manager_pre lib c m" "tasks_ok m" using assms(1) by (simp_all add: manager_ok_def manager_pre_def)
  have "ended (dvals (mg_tasks m')) = ended (dvals (mg_tasks m))"
    by (rule same_core_ended [OF assms(3) dict_ok_tasks [OF pre(2)] dict_ok_tasks [OF assms(2)]])
  then have "file_agrees m'" using assms(1,8) by (simp add: manager_ok_def file_agrees_def file_rows_def)
  then show ?thesis using manager_pre_quiet [OF pre(1) assms(2-7)] by (simp add: manager_ok_def)
qed

lemma manager_pre_same:
  assumes "mg_tasks m' = mg_tasks m" "mg_change_seq m' = mg_change_seq m" "mg_pending m' = mg_pending m" "mg_workers m' = mg_workers m"
    "mg_parts m' = mg_parts m" "mg_staged m' = mg_staged m"
  shows "manager_pre lib c m' = manager_pre lib c m"
  by (simp add: manager_pre_def tasks_ok_def phases_ok_def workers_ok_def in_state_def assms)

lemma manager_pre_file [simp]: "manager_pre lib c (persist_tasks now force m) = manager_pre lib c m"
  by (rule manager_pre_same) simp_all

lemma manager_ok_persist: "manager_ok lib c m \<Longrightarrow> manager_ok lib c (persist_tasks now force m)"
  using persist_rows [of m] by (simp add: manager_ok_def) (simp add: manager_pre_def)

lemma manager_pre_persist: "manager_pre lib c m \<Longrightarrow> manager_ok lib c (persist_tasks now True m)"
  using persist_forced_rows [of m] by (simp add: manager_ok_def) (simp add: manager_pre_def)

lemma manager_pre_emit [simp]: "manager_pre lib c (emit_task now i m) = manager_pre lib c m"
  by (rule manager_pre_same) simp_all

lemma manager_ok_emit [simp]: "manager_ok lib c (emit_task now i m) = manager_ok lib c m"
  by (simp add: manager_ok_def file_agrees_def file_rows_def)

lemma tasks_ok_put:
  assumes "tasks_ok m" and "dl_task_id g = i" and "task_fit g" and "dl_change_seq g \<le> n" and "mg_change_seq m \<le> n"
    and "\<And>j u. dget (mg_tasks m) j = Some u \<Longrightarrow> j \<noteq> i \<Longrightarrow> dl_change_seq u \<noteq> dl_change_seq g"
    and "mg_tasks m' = dput i g (mg_tasks m)" and "mg_change_seq m' = n"
  shows "tasks_ok m'"
proof (rule tasks_okI [OF _ assms(7)])
  show "dict_ok (dput i g (mg_tasks m))" using dict_ok_tasks [OF assms(1)] by (rule dict_ok_dput)
  show "0 \<le> mg_change_seq m'" using assms(1,5,8) by (simp add: tasks_ok_def)
  show "dl_task_id t = j \<and> task_fit t \<and> dl_change_seq t \<le> mg_change_seq m'" if "dget (dput i g (mg_tasks m)) j = Some t" for j t
    using that task_at [OF assms(1), of j t] assms(2-5,8) by (auto simp: dget_dput split: if_splits)
  show "j = k" if "dget (dput i g (mg_tasks m)) j = Some t" "dget (dput i g (mg_tasks m)) k = Some u" "dl_change_seq t = dl_change_seq u" for j k t u
    using that seq_unique [OF assms(1), of j t k u] assms(6) [of j t] assms(6) [of k u] by (auto simp: dget_dput split: if_splits)
qed

lemma tasks_ok_change:
  assumes "tasks_ok m" and "\<And>t. dget (mg_tasks m) i = Some t \<Longrightarrow> task_wf t \<Longrightarrow> task_wf (f t) \<and> dl_task_id (f t) = dl_task_id t"
  shows "tasks_ok (change_task i f m)"
proof (cases "dget (mg_tasks m) i")
  case None
  then show ?thesis using assms(1) by (simp add: change_task_def)
next
  case (Some t)
  note t = task_at [OF assms(1) Some]
  show ?thesis
  proof (rule tasks_ok_put [OF assms(1)])
    show "mg_tasks (change_task i f m) = dput i (bumped m (f t)) (mg_tasks m)" "mg_change_seq (change_task i f m) = mg_change_seq m + 1"
      by (simp_all add: change_task_tasks Some)
    show "task_fit (bumped m (f t))" using assms(2) [OF Some] t assms(1) by (auto simp: task_fit_def task_wf_def tasks_ok_def)
    show "dl_task_id (bumped m (f t)) = i" using assms(2) [OF Some] t by (simp add: task_fit_def)
    show "dl_change_seq u \<noteq> dl_change_seq (bumped m (f t))" if "dget (mg_tasks m) j = Some u" for j u
      using task_at [OF assms(1) that] by simp
  qed simp_all
qed

lemma same_core_change: "(\<And>t. core (f t) = core t) \<Longrightarrow> same_core m (change_task i f m)"
  by (auto simp: same_core_def change_task_tasks dget_dput split: option.split)

lemma change_quiet:
  assumes "manager_ok lib c m" and "\<And>t. task_wf t \<Longrightarrow> task_wf (f t)" and "\<And>t. core (f t) = core t"
  shows "manager_ok lib c (change_task i f m)"
proof (rule manager_ok_quiet [OF assms(1)])
  have "dl_task_id (f t) = dl_task_id t" for t using core_simps(1) assms(3) by blast
  then show "tasks_ok (change_task i f m)" using assms by (intro tasks_ok_change) (auto simp: manager_ok_def manager_pre_def)
qed (simp_all add: same_core_change assms(3))

lemma update_quiet:
  assumes "manager_ok lib c m" and "\<And>t. task_wf t \<Longrightarrow> task_wf (f t)" and "\<And>t. core (f t) = core t"
  shows "manager_ok lib c (update_task now force i f m)"
  using change_quiet [OF assms] assms(1) by (simp add: update_task_def manager_ok_persist)

lemma set_resume_status_ok: "manager_ok lib c m \<Longrightarrow> 0 < now \<Longrightarrow> manager_ok lib c (set_resume_status now i st m)"
  using change_quiet [of lib c m "\<lambda>t. t\<lparr>dl_resume_status := take 120 (if st = [] then ''not_started'' else st), dl_updated_at := now\<rparr>" i]
  by (simp add: set_resume_status_def manager_ok_persist task_wf_def core_def)

lemma task_progress_bounds: "0 \<le> a \<Longrightarrow> 0 \<le> b \<Longrightarrow> 0 \<le> task_progress a b \<and> task_progress a b \<le> 1"
  by (simp add: task_progress_def)

lemma progress_ok: "manager_ok lib c m \<Longrightarrow> 0 < now \<Longrightarrow> manager_ok lib c (progress now i a b m)"
  unfolding progress_def by (rule update_quiet) (auto simp: task_wf_def core_def task_progress_bounds)

lemma save_checkpoint_ok:
  assumes "manager_ok lib c m"
  shows "manager_ok lib c (save_checkpoint now i b n e l m)"
proof (cases "dget (mg_tasks m) i")
  case None
  then show ?thesis using assms by (simp add: save_checkpoint_def)
next
  case (Some t)
  let ?m = "m\<lparr>mg_checkpoints := (mg_checkpoints m)(i \<mapsto> checkpoint_row now t b n e l), mg_tasks := dput i (t\<lparr>dl_last_checkpoint_at := now\<rparr>) (mg_tasks m)\<rparr>"
  have ok: "tasks_ok m" using assms by (simp add: manager_ok_def manager_pre_def)
  have "tasks_ok ?m"
  proof (rule tasks_ok_put [OF ok])
    show "dl_change_seq u \<noteq> dl_change_seq (t\<lparr>dl_last_checkpoint_at := now\<rparr>)" if "dget (mg_tasks m) j = Some u" "j \<noteq> i" for j u
      using seq_unique [OF ok that(1) Some] that(2) by auto
    show "task_fit (t\<lparr>dl_last_checkpoint_at := now\<rparr>)" using task_at [OF ok Some] by (auto simp: task_fit_def task_wf_def)
  qed (use task_at [OF ok Some] in simp_all)
  moreover have "same_core m ?m" using Some by (auto simp: same_core_def dget_dput core_def)
  ultimately have "manager_ok lib c ?m" using manager_ok_quiet [OF assms] by simp
  then show ?thesis by (simp add: save_checkpoint_def Some manager_ok_persist)
qed

subsection \<open>Every operation keeps the invariant\<close>

lemma manager_ok_same:
  assumes "mg_tasks m' = mg_tasks m" "mg_change_seq m' = mg_change_seq m" "mg_pending m' = mg_pending m" "mg_workers m' = mg_workers m"
    "mg_parts m' = mg_parts m" "mg_staged m' = mg_staged m" "mg_tasks_file m' = mg_tasks_file m"
  shows "manager_ok lib c m' = manager_ok lib c m"
  using manager_pre_same [of m' m lib c] assms by (simp add: manager_ok_def file_agrees_def file_rows_def)

lemma worker_phase: "manager_ok lib c m \<Longrightarrow> dget (mg_workers m) i \<noteq> None \<Longrightarrow> in_state m i ''running'' \<and> i \<notin> set (mg_pending m)"
  by (auto simp: manager_ok_def manager_pre_def phases_ok_def)

lemma drop_worker:
  assumes "manager_ok lib c m" and "mg_tasks m' = mg_tasks m" "mg_change_seq m' = mg_change_seq m" "mg_pending m' = mg_pending m"
    "mg_staged m' = mg_staged m" "mg_tasks_file m' = mg_tasks_file m" and "mg_workers m' = ddel i (mg_workers m)"
    and "\<And>j. j \<noteq> i \<Longrightarrow> mg_parts m' j = mg_parts m j"
  shows "manager_ok lib c m'"
  using assms
  by (simp add: manager_ok_def manager_pre_def file_agrees_def file_rows_def tasks_ok_def phases_ok_def in_state_def workers_ok_def dget_ddel)

lemma put_worker:
  assumes "manager_ok lib c m" and "dget (mg_workers m) i \<noteq> None" and "mg_tasks m' = mg_tasks m" "mg_change_seq m' = mg_change_seq m"
    "mg_pending m' = mg_pending m" "mg_staged m' = mg_staged m" "mg_tasks_file m' = mg_tasks_file m" and "mg_workers m' = dput i w (mg_workers m)"
    and "\<And>j. j \<noteq> i \<Longrightarrow> mg_parts m' j = mg_parts m j" and "\<And>tf. w \<in> {Streaming tf, Ended tf} \<Longrightarrow> mg_parts m' i = Some (tf_hashed tf)"
  shows "manager_ok lib c m'"
proof -
  have "workers_ok m'" using assms(1,8-10) by (auto simp: manager_ok_def manager_pre_def workers_ok_def dget_dput)
  moreover have "phases_ok m'"
    using assms(1,2,3,5,8) worker_phase [OF assms(1,2)] by (auto simp: manager_ok_def manager_pre_def phases_ok_def in_state_def dget_dput)
  ultimately show ?thesis using assms(1,3,4,6,7) by (simp add: manager_ok_def manager_pre_def file_agrees_def file_rows_def tasks_ok_def)
qed

lemma manager_pre_change:
  assumes "manager_pre lib c m" and "i \<notin> set (mg_pending m)" and "dget (mg_workers m) i = None \<or> (\<forall>t. dl_state (f t) = ''running'')"
    and "\<And>t. task_wf t \<Longrightarrow> task_wf (f t)" and "\<And>t. dl_task_id (f t) = dl_task_id t"
    and "\<And>t. dget (mg_tasks m) i = Some t \<Longrightarrow> verified lib c (mg_staged m) (f t)"
  shows "manager_pre lib c (change_task i f m)"
proof -
  have ok: "tasks_ok m" "phases_ok m" "workers_ok m" using assms(1) by (simp_all add: manager_pre_def)
  have "in_state (change_task i f m) j st = in_state m j st" if "j \<noteq> i" for j st
    using that by (simp add: in_state_def change_task_tasks dget_dput split: option.split)
  moreover have "dget (mg_workers m) i \<noteq> None \<Longrightarrow> in_state (change_task i f m) i ''running''"
    using assms(3) ok(2) by (auto simp: phases_ok_def in_state_def change_task_tasks dget_dput)
  ultimately have "phases_ok (change_task i f m)" using ok(2) assms(2) by (simp add: phases_ok_def) metis
  moreover have "verified lib c (mg_staged m) t" if "dget (mg_tasks (change_task i f m)) j = Some t" for j t
    using that assms(1,6) core_simps(4) [OF core_bumped] by (auto simp: manager_pre_def change_task_tasks dget_dput split: option.splits if_splits)
  moreover have "tasks_ok (change_task i f m)" using ok(1) assms(4,5) by (intro tasks_ok_change) simp_all
  ultimately show ?thesis using ok(3) by (simp add: manager_pre_def workers_ok_def)
qed

lemma update_state:
  assumes "manager_ok lib c m" and "i \<notin> set (mg_pending m)" and "dget (mg_workers m) i = None \<or> (\<forall>t. dl_state (f t) = ''running'')"
    and "\<And>t. task_wf t \<Longrightarrow> task_wf (f t)" and "\<And>t. dl_task_id (f t) = dl_task_id t"
    and "\<And>t. dget (mg_tasks m) i = Some t \<Longrightarrow> verified lib c (mg_staged m) (f t)"
  shows "manager_ok lib c (update_task now True i f m)"
proof (cases "dget (mg_tasks m) i = None")
  case False
  have "manager_pre lib c (change_task i f m)" using assms by (intro manager_pre_change) (auto simp: manager_ok_def)
  then show ?thesis using False by (auto simp: update_task_def manager_pre_persist)
qed (use assms(1) in \<open>simp add: update_task_def\<close>)

lemma end_worker_ok:
  assumes "manager_ok lib c (m\<lparr>mg_workers := ddel i (mg_workers m)\<rparr>)" and "i \<notin> set (mg_pending m)" and "0 < now" and "st \<in> {''failed'', ''cancelled''}"
  shows "manager_ok lib c (end_worker now i st err m)"
  unfolding end_worker_def using assms by (intro update_state) (auto simp: dget_ddel task_wf_def verified_def)

lemma fail_ok:
  assumes "manager_ok lib c m" and "dget (mg_workers m) i \<noteq> None" and "0 < now" and "st \<in> {''failed'', ''cancelled''}"
  shows "manager_ok lib c (end_worker now i st err m)"
  by (rule end_worker_ok) (use worker_phase [OF assms(1,2)] assms in \<open>auto intro: drop_worker [OF assms(1)]\<close>)

lemma staged_path_inject: "CHR ''/'' \<notin> set (dl_task_id t) \<Longrightarrow> CHR ''/'' \<notin> set (dl_task_id u) \<Longrightarrow> staged_path c t = staged_path c u \<Longrightarrow> dl_task_id t = dl_task_id u"
  using append_at_first [of "CHR ''/''" "dl_task_id t" "dl_task_id u"] by (simp add: staged_path_def)

lemma staged_update:
  assumes "manager_ok lib c m" and "dget (mg_tasks m) i = Some t" and "dl_state t \<noteq> ''completed''"
  shows "manager_ok lib c (m\<lparr>mg_staged := (mg_staged m)(staged_path c t := v)\<rparr>)"
proof -
  have ok: "tasks_ok m" using assms(1) by (simp add: manager_ok_def manager_pre_def)
  have "verified lib c ((mg_staged m)(staged_path c t := v)) u" if u: "dget (mg_tasks m) j = Some u" for j u
  proof (cases "dl_state u = ''completed''")
    case True
    then have "j \<noteq> i" using assms(2,3) u by auto
    then have "staged_path c u \<noteq> staged_path c t"
      using staged_path_inject [of u t c] task_at [OF ok u] task_at [OF ok assms(2)] by (auto simp: task_fit_def)
    moreover have "verified lib c (mg_staged m) u" using assms(1) u by (auto simp: manager_ok_def manager_pre_def)
    ultimately show ?thesis using True by (auto simp: verified_def)
  qed (simp add: verified_def)
  then show ?thesis using assms(1)
    by (simp add: manager_ok_def manager_pre_def file_agrees_def file_rows_def tasks_ok_def phases_ok_def in_state_def workers_ok_def)
qed

lemma open_stream_hashed: "open_stream lib present n ck r = Stream_from tf \<Longrightarrow> tf_hashed tf = present \<and> tf_downloaded tf = int (length present)"
  by (auto simp: open_stream_def Let_def split: opened.splits if_splits option.splits prod.splits)

lemma open_fresh_ok:
  assumes "manager_ok lib c m" and "dget (mg_workers m) i = Some Opening" and "0 < now"
  shows "manager_ok lib c (open_fresh lib now i n r m)"
proof -
  have "manager_ok lib c ((remove_part i m)\<lparr>mg_workers := ddel i (mg_workers m)\<rparr>)" by (rule drop_worker [OF assms(1)]) auto
  then have failed: "manager_ok lib c (fail_worker now i err (remove_part i m))" for err
    using worker_phase [OF assms(1), of i] assms(2,3) by (intro end_worker_ok) simp_all
  have "manager_ok lib c ((remove_part i m)\<lparr>mg_parts := (mg_parts (remove_part i m))(i \<mapsto> []), mg_workers := dput i (Streaming tf) (mg_workers (remove_part i m))\<rparr>)"
    if "tf_hashed tf = []" for tf
    by (rule put_worker [OF assms(1), of i]) (auto simp: assms(2) that)
  then show ?thesis using failed open_stream_hashed [of lib "[]" n "[]" r]
    by (simp add: open_fresh_def Let_def split: stream_start.split)
qed

lemma open_download_ok:
  assumes "manager_ok lib c m" and "0 < now"
  shows "manager_ok lib c (open_download lib c now dns i r1 r2 m)"
proof (cases "dget (mg_tasks m) i")
  case None
  then show ?thesis using assms(1) by (simp add: open_download_def)
next
  case (Some t)
  show ?thesis
  proof (cases "dget (mg_workers m) i = Some Opening")
    case False
    then show ?thesis using assms(1) by (auto simp: open_download_def Some split: option.split worker.split)
  next
    case True
    define m1 where "m1 = m\<lparr>mg_staged := (mg_staged m)(staged_path c t := None)\<rparr>"
    have running: "dl_state t \<noteq> ''completed''" using worker_phase [OF assms(1), of i] True Some by (auto simp: in_state_def)
    have m1: "manager_ok lib c m1" "dget (mg_workers m1) i = Some Opening" "dget (mg_tasks m1) i = Some t"
      using staged_update [OF assms(1) Some running] True Some by (simp_all add: m1_def)
    have failed: "manager_ok lib c (fail_worker now i err m2)" if "manager_ok lib c m2" "dget (mg_workers m2) i = Some Opening" for err m2
      using that assms(2) by (intro fail_ok) simp_all
    have resume: "manager_ok lib c (set_resume_status now i st m2)" if "manager_ok lib c m2" for st m2
      by (rule set_resume_status_ok [OF that assms(2)])
    have start: "manager_ok lib c (m2\<lparr>mg_workers := dput i (Streaming tf) (mg_workers m2)\<rparr>)"
      if "manager_ok lib c m2" "dget (mg_workers m2) i = Some Opening" "mg_parts m2 i = Some (tf_hashed tf)" for m2 tf
      by (rule put_worker [OF that(1), of i]) (auto simp: that(2,3))
    define part where "part = (case mg_parts m1 i of None \<Rightarrow> [] | Some p \<Rightarrow> p)"
    have part: "mg_parts m1 i = Some part" if "part \<noteq> []" using that by (auto simp: part_def split: option.splits)
    have fresh: "manager_ok lib c (open_fresh lib now i n r m2)" if "manager_ok lib c m2" "dget (mg_workers m2) i = Some Opening" for n r m2
      by (rule open_fresh_ok [OF that assms(2)])
    have result: "open_download lib c now dns i r1 r2 m = (case validate_outbound_url (ml_classes lib) (ml_idna lib) dns (download_options c) (dl_download_url t) of
        Inl e \<Rightarrow> fail_worker now i (ml_show lib e) m
      | Inr _ \<Rightarrow> if part = [] then open_fresh lib now i (int (length part)) r1 m1
          else case checkpoint_matches_task lib t (load_checkpoint i m1) (int (length part)) of
            None \<Rightarrow> fail_worker now i ''invalid literal for int()'' m1
          | Some False \<Rightarrow> open_fresh lib now i (int (length part)) r1 (set_resume_status now i ''resume_fallback_checkpoint_mismatch'' m1)
          | Some True \<Rightarrow> let m2 = set_resume_status now i ''resume_attempt'' m1 in
              (case open_stream lib part (int (length part)) (load_checkpoint i m1) r1 of
                 Stream_failed err \<Rightarrow> fail_worker now i err m2
               | Fall_back reason \<Rightarrow> open_fresh lib now i (int (length part)) r2 (set_resume_status now i reason m2)
               | Stream_from tf \<Rightarrow> m2\<lparr>mg_workers := dput i (Streaming tf) (mg_workers m2)\<rparr>))"
      by (simp only: open_download_def Some True option.case prod.case worker.case Let_def m1_def [symmetric] part_def [symmetric])
    have streamed: "manager_ok lib c ((set_resume_status now i st m1)\<lparr>mg_workers := dput i (Streaming tf) (mg_workers m1)\<rparr>)"
      if "open_stream lib part n ck r = Stream_from tf" "part \<noteq> []" for st tf n ck r
      using start [OF resume [OF m1(1)], of st tf] m1(2) part [OF that(2)] open_stream_hashed [OF that(1)] by simp
    show ?thesis unfolding result Let_def
      using m1(1,2) True assms(1) failed fresh resume streamed
      by (simp split: sum.split option.split bool.split stream_start.split)
  qed
qed

lemma progress_frame [simp]:
  "mg_pending (progress now i a b m) = mg_pending m" "mg_workers (progress now i a b m) = mg_workers m"
  "mg_parts (progress now i a b m) = mg_parts m" "mg_staged (progress now i a b m) = mg_staged m" "mg_cancel (progress now i a b m) = mg_cancel m"
  by (simp_all add: progress_def)

text \<open>Workers do not matter to the changes of a task.\<close>

lemma workers_apart:
  "change_task i f (m\<lparr>mg_workers := w\<rparr>) = (change_task i f m)\<lparr>mg_workers := w\<rparr>"
  "emit_task now i (m\<lparr>mg_workers := w\<rparr>) = (emit_task now i m)\<lparr>mg_workers := w\<rparr>"
  "persist_tasks now force (m\<lparr>mg_workers := w\<rparr>) = (persist_tasks now force m)\<lparr>mg_workers := w\<rparr>"
  "save_checkpoint now i a b x y (m\<lparr>mg_workers := w\<rparr>) = (save_checkpoint now i a b x y m)\<lparr>mg_workers := w\<rparr>"
proof -
  show "change_task i f (m\<lparr>mg_workers := w\<rparr>) = (change_task i f m)\<lparr>mg_workers := w\<rparr>"
    by (simp add: change_task_def Let_def split: option.split)
  show "emit_task now i (m\<lparr>mg_workers := w\<rparr>) = (emit_task now i m)\<lparr>mg_workers := w\<rparr>"
    by (simp add: emit_task_def split: option.split)
  show p: "persist_tasks now force (m\<lparr>mg_workers := w\<rparr>) = (persist_tasks now force m)\<lparr>mg_workers := w\<rparr>" for force m
    by (simp add: persist_tasks_def)
  have sel: "mg_tasks (m\<lparr>mg_workers := w\<rparr>) = mg_tasks m" "mg_checkpoints (m\<lparr>mg_workers := w\<rparr>) = mg_checkpoints m" by simp_all
  have c: "m\<lparr>mg_workers := w, mg_checkpoints := k, mg_tasks := d\<rparr> = (m\<lparr>mg_checkpoints := k, mg_tasks := d\<rparr>)\<lparr>mg_workers := w\<rparr>" for k d
    by simp
  show "save_checkpoint now i a b x y (m\<lparr>mg_workers := w\<rparr>) = (save_checkpoint now i a b x y m)\<lparr>mg_workers := w\<rparr>"
    unfolding save_checkpoint_def by (cases "dget (mg_tasks m) i") (simp, simp only: option.case sel c p)
qed

lemma progress_workers: "progress now i a b (m\<lparr>mg_workers := w\<rparr>) = (progress now i a b m)\<lparr>mg_workers := w\<rparr>"
  by (simp add: progress_def update_task_def workers_apart)

lemma stream_chunk_ok:
  assumes "manager_ok lib c m" and "0 < now"
  shows "manager_ok lib c (stream_chunk now i r m)"
proof (cases "\<exists>tf. dget (mg_workers m) i = Some (Streaming tf)")
  case False
  then show ?thesis using assms(1) by (auto simp: stream_chunk_def split: option.split worker.split)
next
  case True
  then obtain tf where w: "dget (mg_workers m) i = Some (Streaming tf)" by auto
  let ?save = "\<lambda>tf. save_checkpoint now i (tf_downloaded tf) (tf_total tf) (tf_etag tf) (tf_last_modified tf)"
  have part: "mg_parts m i = Some (tf_hashed tf)" using assms(1) w by (auto simp: manager_ok_def manager_pre_def workers_ok_def)
  show ?thesis
  proof (cases "dget (mg_cancel m) i = Some True")
    case True
    have "manager_ok lib c (end_worker now i ''cancelled'' ''cancelled'' (?save tf m))"
      by (rule fail_ok) (simp_all add: save_checkpoint_ok assms w)
    then show ?thesis by (simp add: stream_chunk_def w True Let_def)
  next
    case uncancelled: False
    show ?thesis
    proof (cases r)
      case (Read_raised err)
      have "manager_ok lib c (fail_worker now i err m)" by (rule fail_ok) (simp_all add: assms w)
      then show ?thesis by (simp add: stream_chunk_def w uncancelled Let_def Read_raised)
    next
      case (Read_bytes chunk)
      show ?thesis
      proof (cases chunk)
        case Nil
        define m2 where "m2 = ?save tf (progress now i (tf_downloaded tf) (if tf_total tf \<noteq> 0 then tf_total tf else tf_downloaded tf) m)"
        have m2: "manager_ok lib c m2" "mg_workers m2 = mg_workers m" "mg_parts m2 = mg_parts m"
          by (simp_all add: m2_def save_checkpoint_ok progress_ok assms)
        have "manager_ok lib c (m2\<lparr>mg_workers := dput i (Ended tf) (mg_workers m2)\<rparr>)"
          by (rule put_worker [OF m2(1), of i]) (auto simp: m2(2,3) w part)
        then show ?thesis by (simp add: stream_chunk_def w uncancelled Let_def Read_bytes Nil m2_def)
      next
        case (Cons x xs)
        define tf1 where "tf1 = tf\<lparr>tf_hashed := tf_hashed tf @ chunk, tf_downloaded := tf_downloaded tf + int (length chunk)\<rparr>"
        define due where "due = (now - tf_last_emit tf1 \<ge> 35 / 100)"
        define tf2 where "tf2 = (if due then tf1\<lparr>tf_last_emit := now\<rparr> else tf1)"
        define m1 where "m1 = m\<lparr>mg_parts := (mg_parts m)(i \<mapsto> tf_hashed tf @ chunk), mg_workers := dput i (Streaming tf2) (mg_workers m)\<rparr>"
        define m2 where "m2 = (if due then ?save tf1 (progress now i (tf_downloaded tf1) (tf_total tf1) m1) else m1)"
        have "manager_ok lib c m1"
          by (rule put_worker [OF assms(1), of i]) (auto simp: m1_def w tf2_def tf1_def)
        then have m2: "manager_ok lib c m2" by (simp add: m2_def save_checkpoint_ok progress_ok assms(2))
        define m3 where "m3 = m\<lparr>mg_parts := (mg_parts m)(i \<mapsto> tf_hashed tf @ chunk)\<rparr>"
        define m4 where "m4 = (if due then ?save tf1 (progress now i (tf_downloaded tf1) (tf_total tf1) m3) else m3)"
        have "stream_chunk now i r m = m4\<lparr>mg_workers := dput i (Streaming tf2) (mg_workers m4)\<rparr>"
          by (simp add: stream_chunk_def w uncancelled Let_def Read_bytes Cons part tf1_def tf2_def due_def m3_def m4_def)
        moreover have "mg_workers m4 = mg_workers m" by (simp add: m4_def m3_def)
        moreover have "m1 = m3\<lparr>mg_workers := dput i (Streaming tf2) (mg_workers m)\<rparr>" by (simp add: m1_def m3_def)
        ultimately have "stream_chunk now i r m = m2" by (simp add: m2_def m4_def progress_workers workers_apart)
        then show ?thesis using m2 by simp
      qed
    qed
  qed
qed

lemma finish_task_ok:
  assumes "manager_ok lib c m" and "0 < now"
  shows "manager_ok lib c (finish_task lib c now i m)"
proof (cases "\<exists>t tf. dget (mg_tasks m) i = Some t \<and> dget (mg_workers m) i = Some (Ended tf)")
  case False
  then show ?thesis using assms(1) by (auto simp: finish_task_def split: option.split worker.split)
next
  case True
  then obtain t tf where t: "dget (mg_tasks m) i = Some t" and w: "dget (mg_workers m) i = Some (Ended tf)" by auto
  have phase: "i \<notin> set (mg_pending m)" "dl_state t \<noteq> ''completed''" using worker_phase [OF assms(1), of i] t w by (auto simp: in_state_def)
  have part: "mg_parts m i = Some (tf_hashed tf)" using assms(1) w by (auto simp: manager_ok_def manager_pre_def workers_ok_def)
  define m1 where "m1 = (remove_part i m)\<lparr>mg_workers := ddel i (mg_workers m)\<rparr>"
  have m1: "manager_ok lib c m1" unfolding m1_def by (rule drop_worker [OF assms(1)]) auto
  show ?thesis
  proof (cases "ml_sha lib (tf_hashed tf) = dl_expected_sha256 t")
    case False
    then show ?thesis using m1 phase(1) assms(2) by (simp add: finish_task_def t w Let_def m1_def end_worker_ok)
  next
    case ok: True
    define m2 where "m2 = (remove_part i m)\<lparr>mg_staged := (mg_staged m)(staged_path c t \<mapsto> tf_hashed tf), mg_workers := ddel i (mg_workers m)\<rparr>"
    have m2_eq: "m2 = m1\<lparr>mg_staged := (mg_staged m1)(staged_path c t \<mapsto> tf_hashed tf)\<rparr>" by (simp add: m2_def m1_def)
    define m3 where "m3 = (if tf_resumed tf then set_resume_status now i ''resumed_partial'' m2
       else if tf_found_bytes tf \<le> 0 then set_resume_status now i ''started_fresh'' m2 else m2)"
    define m4 where "m4 = progress now i (tf_downloaded tf) (if tf_total tf \<noteq> 0 then tf_total tf else tf_downloaded tf) m3"
    let ?f = "\<lambda>t'. t'\<lparr>dl_state := ''completed'', dl_updated_at := now, dl_finished_at := now, dl_progress := 1,
                 dl_staged_path := staged_path c t, dl_computed_sha256 := ml_sha lib (tf_hashed tf)\<rparr>"
    have t1: "dget (mg_tasks m1) i = Some t" by (simp add: m1_def t)
    have "manager_ok lib c m2" unfolding m2_eq by (rule staged_update [OF m1 t1 phase(2)])
    then have m4: "manager_ok lib c m4" by (simp add: m4_def m3_def progress_ok set_resume_status_ok assms(2))
    have frame: "mg_pending m4 = mg_pending m" "mg_workers m4 = ddel i (mg_workers m)" "mg_staged m4 = mg_staged m2"
      by (simp_all add: m4_def m3_def m2_def m1_def)
    have same: "core u = core t" if "dget (mg_tasks m4) i = Some u" for u
      using that t by (auto simp: m4_def m3_def m2_def m1_def progress_def set_resume_status_def update_task_def change_task_tasks dget_dput core_def split: if_splits)
    have "verified lib c (mg_staged m4) (?f u)" if "dget (mg_tasks m4) i = Some u" for u
      using same [OF that] ok by (simp add: verified_def frame(3) m2_def core_def staged_path_def)
    then have "manager_ok lib c (update_task now True i ?f m4)"
      using m4 phase(1) frame assms(2) by (intro update_state) (auto simp: dget_ddel task_wf_def)
    moreover have "finish_task lib c now i m = update_task now True i ?f m4"
      by (simp only: finish_task_def t w ok part option.case prod.case worker.case Let_def not_True_eq_False if_False simp_thms
          m2_def [symmetric] m3_def [symmetric] m4_def [symmetric])
    ultimately show ?thesis by simp
  qed
qed

lemma add_worker:
  assumes "manager_pre lib c m" and "i \<notin> set (mg_pending m)" and "in_state m i ''running''" and "dget (mg_workers m) i = None"
  shows "manager_pre lib c (m\<lparr>mg_workers := dput i Opening (mg_workers m)\<rparr>)"
proof -
  have "phases_ok (m\<lparr>mg_workers := dput i Opening (mg_workers m)\<rparr>)"
    using assms by (auto simp: manager_pre_def phases_ok_def in_state_def dget_dput)
  moreover have "workers_ok (m\<lparr>mg_workers := dput i Opening (mg_workers m)\<rparr>)"
    using assms(1) by (auto simp: manager_pre_def workers_ok_def dget_dput)
  ultimately show ?thesis using assms(1) by (simp add: manager_pre_def tasks_ok_def)
qed

lemma begin_task_ok:
  assumes "manager_ok lib c m" and "0 < now"
  shows "manager_ok lib c (begin_task now m)"
proof (cases "mg_pending m")
  case Nil
  then show ?thesis using assms(1) by (simp add: begin_task_def)
next
  case (Cons i rest)
  have ok: "tasks_ok m" "phases_ok m" "workers_ok m" using assms(1) by (simp_all add: manager_ok_def manager_pre_def)
  then have i: "i \<notin> set rest" "dget (mg_workers m) i = None" "in_state m i ''queued''" by (simp_all add: phases_ok_def Cons)
  define m0 where "m0 = m\<lparr>mg_pending := rest\<rparr>"
  have m0: "manager_ok lib c m0"
    using assms(1) Cons by (simp add: m0_def manager_ok_def manager_pre_def file_agrees_def file_rows_def tasks_ok_def phases_ok_def in_state_def workers_ok_def)
  show ?thesis
  proof (cases "dget (mg_cancel m) i = None")
    case True
    then show ?thesis using m0 by (simp add: begin_task_def Cons m0_def)
  next
    case False
    let ?f = "\<lambda>t. t\<lparr>dl_state := ''running'', dl_started_at := now, dl_updated_at := now, dl_resume_status := (if dl_resume_status t = [] then ''running'' else dl_resume_status t)\<rparr>"
    have "manager_pre lib c (change_task i ?f m0)"
    proof (rule manager_pre_change)
      show "manager_pre lib c m0" using m0 by (simp add: manager_ok_def)
      show "task_wf t \<Longrightarrow> task_wf (?f t)" for t using assms(2) by (simp add: task_wf_def)
    qed (use i in \<open>simp_all add: m0_def verified_def\<close>)
    moreover have "in_state (change_task i ?f m0) i ''running''" using i(3) by (auto simp: in_state_def m0_def change_task_tasks dget_dput)
    ultimately have "manager_pre lib c ((change_task i ?f m0)\<lparr>mg_workers := dput i Opening (mg_workers (change_task i ?f m0))\<rparr>)"
      using i(1,2) by (intro add_worker) (simp_all add: m0_def)
    moreover have "(change_task i ?f m0)\<lparr>mg_workers := dput i Opening (mg_workers (change_task i ?f m0))\<rparr> = change_task i ?f (m0\<lparr>mg_workers := dput i Opening (mg_workers m0)\<rparr>)"
      by (simp add: change_task_def Let_def split: option.split)
    ultimately have "manager_ok lib c (update_task now True i ?f (m0\<lparr>mg_workers := dput i Opening (mg_workers m0)\<rparr>))"
      using i(3) by (auto simp: update_task_def in_state_def m0_def manager_pre_persist)
    then show ?thesis using i(3) False by (auto simp: begin_task_def Cons m0_def Let_def in_state_def)
  qed
qed

end
