(* ===== verification/Model_Runs.thy ===== *)
theory Model_Runs
  imports Model_Lifecycle
begin

text \<open>
  Runs of the download manager: any interleaving of its operations with the workers and with
  restarts of the process keeps the invariant of \<open>Model_Lifecycle\<close>, and what has ended stays as it is.
\<close>

declare map_of_eq_Some_iff [simp del]

subsection \<open>Adding, cancelling, importing\<close>

lemma add_pending:
  assumes "manager_pre lib c m" and "i \<notin> set (mg_pending m)" and "dget (mg_workers m) i = None" and "in_state m i ''queued''"
    and "mg_tasks m' = mg_tasks m" "mg_change_seq m' = mg_change_seq m" "mg_workers m' = mg_workers m" "mg_parts m' = mg_parts m"
      "mg_staged m' = mg_staged m" "mg_pending m' = mg_pending m @ [i]"
  shows "manager_pre lib c m'"
  using assms by (auto simp: manager_pre_def tasks_ok_def phases_ok_def workers_ok_def in_state_def)

lemma remove_pending:
  assumes "manager_pre lib c m" and "mg_tasks m' = mg_tasks m" "mg_change_seq m' = mg_change_seq m" "mg_workers m' = mg_workers m"
    "mg_parts m' = mg_parts m" "mg_staged m' = mg_staged m" "mg_pending m' = removeAll i (mg_pending m)"
  shows "manager_pre lib c m'"
  using assms by (auto simp: manager_pre_def tasks_ok_def phases_ok_def workers_ok_def in_state_def distinct_removeAll)

text \<open>What \<open>prepare_task\<close> lets through under a fresh identifier.\<close>

definition new_task :: "manager \<Rightarrow> download_task \<Rightarrow> bool" where
  "new_task m t \<longleftrightarrow> task_wf t \<and> dl_task_id t \<noteq> [] \<and> CHR ''/'' \<notin> set (dl_task_id t) \<and> dl_state t = ''queued''
     \<and> dget (mg_tasks m) (dl_task_id t) = None"

lemma tenant_nonempty: "normalize_tenant env t = Inr u \<Longrightarrow> u \<noteq> []"
  by (auto simp: normalize_tenant_def DEFAULT_TENANT_ID_def normalize_tenant_id_def Let_def split: if_splits sum.splits option.splits)

lemma prepared_wf:
  assumes "prepare_task lib c now dns uuid r m = Inr t" and "0 < now"
  shows "task_wf t" and "dl_task_id t = uuid" and "dl_state t = ''queued''"
  using assms tenant_nonempty
  by (auto simp: prepare_task_def Let_def task_wf_def norm_model_type_idem norm_source_idem split: if_splits sum.splits)

lemma add_task_ok:
  assumes "manager_ok lib c m" and "0 < now" and "new_task m t"
  shows "manager_ok lib c (snd (add_task now t m))"
proof -
  let ?i = "dl_task_id t"
  have ok: "tasks_ok m" "phases_ok m" "manager_pre lib c m" using assms(1) by (simp_all add: manager_ok_def manager_pre_def)
  define m1 where "m1 = m\<lparr>mg_tasks := dput ?i t (mg_tasks m)\<rparr>"
  define m2 where "m2 = change_task ?i (\<lambda>t. t) m1"
  have m2: "mg_tasks m2 = dput ?i (bumped m t) (mg_tasks m)" "mg_change_seq m2 = mg_change_seq m + 1"
    by (simp_all add: m2_def m1_def change_task_tasks dget_dput)
  have frame: "mg_pending m2 = mg_pending m" "mg_workers m2 = mg_workers m" "mg_parts m2 = mg_parts m" "mg_staged m2 = mg_staged m"
    by (simp_all add: m2_def m1_def)
  have absent: "?i \<notin> set (mg_pending m)" "dget (mg_workers m) ?i = None"
    using ok(2) assms(3) by (auto simp: phases_ok_def in_state_def new_task_def)
  have "tasks_ok m2"
  proof (rule tasks_ok_put [OF ok(1), of "bumped m t" ?i])
    show "dl_change_seq u \<noteq> dl_change_seq (bumped m t)" if "dget (mg_tasks m) j = Some u" for j u
      using task_at [OF ok(1) that] by simp
    show "task_fit (bumped m t)" using assms(3) ok(1) by (auto simp: new_task_def task_fit_def task_wf_def tasks_ok_def)
  qed (simp_all add: m2)
  moreover have "in_state m2 j st = in_state m j st" if "j \<noteq> ?i" for j st using that by (simp add: in_state_def m2 dget_dput)
  then have "phases_ok m2" using ok(2) absent unfolding phases_ok_def frame by metis
  moreover have "verified lib c (mg_staged m2) u" if "dget (mg_tasks m2) j = Some u" for j u
  proof (cases "j = ?i")
    case True
    then show ?thesis using that assms(3) by (auto simp: m2 dget_dput new_task_def verified_def)
  next
    case False
    then show ?thesis using that ok(3) by (simp add: m2 frame dget_dput manager_pre_def)
  qed
  moreover have "workers_ok m2" using ok(3) by (simp add: manager_pre_def workers_ok_def frame)
  ultimately have pre: "manager_pre lib c m2" by (simp add: manager_pre_def)
  have queued: "in_state m2 ?i ''queued''" using assms(3) by (simp add: in_state_def m2 dget_dput new_task_def)
  have "manager_pre lib c (m2\<lparr>mg_cancel := dput ?i False (mg_cancel m2), mg_pending := mg_pending m2 @ [?i]\<rparr>)"
    by (rule add_pending [OF pre _ _ queued]) (simp_all add: frame absent)
  from manager_pre_persist [OF this, of now] show ?thesis
    by (simp only: add_task_def Let_def snd_conv m1_def [symmetric] m2_def [symmetric] manager_ok_emit)
qed

lemma cancel_ok:
  assumes "manager_ok lib c m" and "0 < now"
  shows "manager_ok lib c (snd (cancel_download_task c now i tn m))"
proof (cases "\<exists>t b. dget (mg_tasks m) i = Some t \<and> dget (mg_cancel m) i = Some b \<and> tenant_ok (mc_env c) (dl_tenant_id t) tn \<and> \<not> is_terminal t")
  case False
  then show ?thesis using assms(1) by (auto simp: cancel_download_task_def split: option.split)
next
  case True
  then obtain t b where t: "dget (mg_tasks m) i = Some t" "dget (mg_cancel m) i = Some b"
    and guard: "tenant_ok (mc_env c) (dl_tenant_id t) tn" "\<not> is_terminal t" by blast
  define m1 where "m1 = change_task i (\<lambda>t. t\<lparr>dl_cancel_requested := True, dl_updated_at := now\<rparr>) m"
  define m2 where "m2 = m1\<lparr>mg_cancel := dput i True (mg_cancel m1)\<rparr>"
  let ?f = "\<lambda>t. t\<lparr>dl_state := ''cancelled'', dl_error := ''cancelled_before_start'', dl_finished_at := now, dl_updated_at := now\<rparr>"
  define m3 where "m3 = (if dl_state t = ''queued'' \<and> i \<in> set (mg_pending m2)
    then (change_task i ?f m2)\<lparr>mg_pending := removeAll i (mg_pending m2)\<rparr> else m2)"
  have "manager_ok lib c m1" unfolding m1_def by (rule change_quiet [OF assms(1)]) (use assms(2) in \<open>auto simp: task_wf_def core_def\<close>)
  then have "manager_ok lib c m2" by (subst manager_ok_same [of _ m1]) (simp_all add: m2_def)
  then have m2: "manager_pre lib c m2" by (simp add: manager_ok_def)
  have "manager_pre lib c m3"
  proof (cases "dl_state t = ''queued'' \<and> i \<in> set (mg_pending m2)")
    case True
    then have idle: "dget (mg_workers m2) i = None" using m2 by (auto simp: manager_pre_def phases_ok_def)
    have "manager_pre lib c (m2\<lparr>mg_pending := removeAll i (mg_pending m2)\<rparr>)" by (rule remove_pending [OF m2]) simp_all
    then have "manager_pre lib c (change_task i ?f (m2\<lparr>mg_pending := removeAll i (mg_pending m2)\<rparr>))"
      by (rule manager_pre_change) (use idle assms(2) in \<open>auto simp: task_wf_def verified_def\<close>)
    moreover have "change_task i ?f (m2\<lparr>mg_pending := removeAll i (mg_pending m2)\<rparr>) = (change_task i ?f m2)\<lparr>mg_pending := removeAll i (mg_pending m2)\<rparr>"
      by (simp add: change_task_def Let_def split: option.split)
    ultimately show ?thesis unfolding m3_def if_P [OF True] by simp
  qed (use m2 in \<open>simp add: m3_def if_not_P\<close>)
  then have "manager_ok lib c (persist_tasks now True (emit_task now i m3))" by (intro manager_pre_persist) simp
  moreover have "snd (cancel_download_task c now i tn m) = persist_tasks now True (emit_task now i m3)"
    unfolding cancel_download_task_def Let_def t option.case prod.case guard not_True_eq_False if_False
    by (simp only: guard not_True_eq_False if_False m1_def [symmetric] m2_def [symmetric] m3_def [symmetric] split: option.split) simp
  ultimately show ?thesis by simp
qed

lemma commit_import_ok:
  assumes "manager_ok lib c m" and "0 < now"
  shows "manager_ok lib c (snd (commit_import lib now uuid tags p m))"
proof -
  define m1 where "m1 = m\<lparr>mg_installed := (mg_installed m)(ip_target p \<mapsto> ip_content p)\<rparr>"
  have m1: "manager_ok lib c m1" using assms(1) by (subst manager_ok_same [of _ m]) (simp_all add: m1_def)
  then have "manager_ok lib c (m1\<lparr>mg_installations := v\<rparr>)" for v by (subst manager_ok_same [of _ m1]) simp_all
  then have "manager_ok lib c (update_task now True (dl_task_id (ip_task p)) (\<lambda>t. t\<lparr>dl_imported := True,
     dl_installation_path := join_with (CHR ''/'') (ip_relative p), dl_installation_record_id := uuid, dl_updated_at := now\<rparr>) (m1\<lparr>mg_installations := v\<rparr>))" for v
    by (rule update_quiet) (use assms(2) in \<open>auto simp: task_wf_def core_def\<close>)
  then show ?thesis using m1 by (simp add: commit_import_def Let_def m1_def [symmetric])
qed

subsection \<open>Restarts\<close>

text \<open>Loading the file the manager wrote gives the tasks of its rows, in the order of the file.\<close>

lemma load_rows:
  assumes "rows_ok (xs @ ts)" and "mg_tasks m = map (\<lambda>t. (dl_task_id t, t)) xs" and "\<forall>t \<in> set xs. dl_change_seq t \<le> mg_change_seq m"
    and "0 \<le> mg_change_seq m" and "m' = fold (load_task lib now) (map task_to_dict ts) m"
  shows "mg_tasks m' = map (\<lambda>t. (dl_task_id t, t)) (xs @ ts) \<and> (\<forall>t \<in> set (xs @ ts). dl_change_seq t \<le> mg_change_seq m') \<and> 0 \<le> mg_change_seq m'
    \<and> mg_pending m' = mg_pending m \<and> mg_workers m' = mg_workers m \<and> mg_parts m' = mg_parts m \<and> mg_staged m' = mg_staged m
    \<and> mg_tasks_file m' = mg_tasks_file m"
  using assms
proof (induction ts arbitrary: xs m)
  case Nil
  then show ?case by simp
next
  case (Cons t ts)
  have t: "task_fit t" "dl_task_id t \<notin> dl_task_id ` set xs" using Cons.prems(1) by (auto simp: rows_ok_def)
  define m1 where "m1 = load_task lib now (task_to_dict t) m"
  have load: "m1 = m\<lparr>mg_tasks := dput (dl_task_id t) t (mg_tasks m), mg_change_seq := max (mg_change_seq m) (dl_change_seq t),
         mg_cancel := (if is_terminal t then mg_cancel m else dput (dl_task_id t) False (mg_cancel m))\<rparr>"
    using t(1) by (simp add: m1_def load_task_def task_fit_def task_round_trip)
  have "dget (mg_tasks m) (dl_task_id t) = None" using t(2) by (auto simp: Cons.prems(2) map_of_eq_None_iff)
  then have "mg_tasks m1 = map (\<lambda>t. (dl_task_id t, t)) (xs @ [t])" by (simp add: load dput_new Cons.prems(2))
  note ih = Cons.IH [of "xs @ [t]" m1, OF _ this]
  have "m' = fold (load_task lib now) (map task_to_dict ts) m1" using Cons.prems(5) by (simp add: m1_def)
  note ih = ih [OF _ _ _ this]
  have "rows_ok ((xs @ [t]) @ ts)" using Cons.prems(1) by simp
  note ih = ih [OF this]
  have "\<forall>u \<in> set (xs @ [t]). dl_change_seq u \<le> mg_change_seq m1" "0 \<le> mg_change_seq m1"
    using Cons.prems(3,4) by (auto simp: load)
  note ih = ih [OF this]
  then show ?case by (simp add: load)
qed

lemma tasks_ok_rows:
  assumes "rows_ok ts" and "mg_tasks m = map (\<lambda>t. (dl_task_id t, t)) ts" and "\<forall>t \<in> set ts. dl_change_seq t \<le> mg_change_seq m" and "0 \<le> mg_change_seq m"
  shows "tasks_ok m" and "dvals (mg_tasks m) = ts"
proof -
  show v: "dvals (mg_tasks m) = ts" by (simp add: assms(2) dvals_def comp_def)
  have "own_keys dl_task_id (mg_tasks m)" using assms(1) by (auto simp: own_keys_def assms(2) rows_ok_def comp_def)
  then show "tasks_ok m" using assms by (simp add: tasks_ok_def v [unfolded assms(2)] rows_ok_def)
qed

text \<open>The processes that died left no worker and nothing waiting.\<close>

definition idle :: "manager \<Rightarrow> bool" where
  "idle m \<longleftrightarrow> mg_pending m = [] \<and> mg_workers m = []"

definition same_ended :: "manager \<Rightarrow> manager \<Rightarrow> bool" where
  "same_ended m m' \<longleftrightarrow> (\<forall>i t. dget (mg_tasks m) i = Some t \<and> is_terminal t \<longrightarrow> (\<exists>u. dget (mg_tasks m') i = Some u \<and> core u = core t))"

lemma loaded_ok:
  assumes "manager_ok lib c m" and "m0 = fresh_manager store (m\<lparr>mg_parts := parts\<rparr>)" and "m' = load_tasks_from_disk lib now m0"
  shows "manager_ok lib c m'" and "idle m'" and "same_ended m m'"
proof -
  obtain ts where ts: "file_rows m ts" "rows_ok ts" "ended ts = ended (dvals (mg_tasks m))" using assms(1) by (auto simp: manager_ok_def file_agrees_def)
  have ok: "tasks_ok m" "\<And>i t. dget (mg_tasks m) i = Some t \<Longrightarrow> verified lib c (mg_staged m) t"
    using assms(1) by (simp_all add: manager_ok_def manager_pre_def)
  have m0: "mg_tasks m0 = map (\<lambda>t. (dl_task_id t, t)) []" "mg_change_seq m0 = 0" "mg_tasks_file m0 = mg_tasks_file m" "mg_pending m0 = []"
    "mg_workers m0 = []" "mg_staged m0 = mg_staged m" by (simp_all add: assms(2) fresh_manager_def)
  have "m' = fold (load_task lib now) (map task_to_dict ts) m0"
    using ts(1) by (cases "mg_tasks_file m") (simp_all add: assms(3) load_tasks_from_disk_def m0 file_rows_def)
  from load_rows [OF _ m0(1) _ _ this] ts(2) have
    l: "mg_tasks m' = map (\<lambda>t. (dl_task_id t, t)) ts" "\<forall>t \<in> set ts. dl_change_seq t \<le> mg_change_seq m'" "0 \<le> mg_change_seq m'"
      "mg_pending m' = []" "mg_workers m' = []" "mg_staged m' = mg_staged m" "mg_tasks_file m' = mg_tasks_file m"
    by (simp_all add: m0)
  note rows = tasks_ok_rows [OF ts(2) l(1-3)]
  show "idle m'" by (simp add: idle_def l)
  have e: "ended (dvals (mg_tasks m')) = ended (dvals (mg_tasks m))" by (simp add: rows(2) ts(3))
  have carried: "\<exists>u. dget (mg_tasks b) i = Some u \<and> core u = core t" if a: "tasks_ok a" "dget (mg_tasks a) i = Some t" "is_terminal t"
    and b: "tasks_ok b" "ended (dvals (mg_tasks a)) = ended (dvals (mg_tasks b))" for a b i t
  proof -
    have "core t \<in> ended (dvals (mg_tasks b))" using a(2,3) b(2) ended_iff [OF dict_ok_tasks [OF a(1)]] by blast
    then obtain j u where u: "dget (mg_tasks b) j = Some u" "core t = core u" using ended_iff [OF dict_ok_tasks [OF b(1)]] by blast
    then have "j = i" using task_at [OF b(1) u(1)] task_at [OF a(1,2)] core_simps(1) by metis
    then show ?thesis using u by simp
  qed
  show "same_ended m m'" unfolding same_ended_def using carried [OF ok(1) _ _ rows(1) e [symmetric]] by blast
  have "verified lib c (mg_staged m') t" if t: "dget (mg_tasks m') i = Some t" for i t
  proof (cases "dl_state t = ''completed''")
    case True
    then obtain u where "dget (mg_tasks m) i = Some u" "core u = core t" using carried [OF rows(1) t _ ok(1) e] by (auto simp: is_terminal_def)
    then show ?thesis using ok(2) core_simps(4) l(6) by metis
  qed (simp add: verified_def)
  moreover have "file_agrees m'" unfolding file_agrees_def using ts(1,2) rows(2) l(7) by (auto simp: file_rows_def)
  ultimately show "manager_ok lib c m'" using rows(1) by (simp add: manager_ok_def manager_pre_def phases_ok_def workers_ok_def l)
qed

text \<open>Recovery changes only tasks that have not ended.\<close>

lemma other_tasks:
  "j \<noteq> i \<Longrightarrow> dget (mg_tasks (change_task i f m)) j = dget (mg_tasks m) j"
  "j \<noteq> i \<Longrightarrow> dget (mg_tasks (mark_recovering now i m)) j = dget (mg_tasks m) j"
  "j \<noteq> i \<Longrightarrow> dget (mg_tasks (overflow_task now i m)) j = dget (mg_tasks m) j"
  "j \<noteq> i \<Longrightarrow> dget (mg_tasks (replay_task now i m)) j = dget (mg_tasks m) j"
  by (simp_all add: mark_recovering_def overflow_task_def replay_task_def Let_def change_task_tasks dget_dput split: option.split)

lemma fold_other_tasks:
  assumes "\<And>i m. j \<noteq> i \<Longrightarrow> dget (mg_tasks (f i m)) j = dget (mg_tasks m) j" and "j \<notin> set is"
  shows "dget (mg_tasks (fold f is m)) j = dget (mg_tasks m) j"
  using assms(2) by (induction "is" arbitrary: m) (simp_all add: assms(1))

lemma kept_tasks:
  "dget (mg_tasks (change_task i f m)) j \<noteq> None \<longleftrightarrow> dget (mg_tasks m) j \<noteq> None"
  "dget (mg_tasks (mark_recovering now i m)) j \<noteq> None \<longleftrightarrow> dget (mg_tasks m) j \<noteq> None"
  "dget (mg_tasks (overflow_task now i m)) j \<noteq> None \<longleftrightarrow> dget (mg_tasks m) j \<noteq> None"
  "dget (mg_tasks (replay_task now i m)) j \<noteq> None \<longleftrightarrow> dget (mg_tasks m) j \<noteq> None"
  by (auto simp: mark_recovering_def overflow_task_def replay_task_def Let_def change_task_tasks dget_dput split: option.split)

lemma idle_step:
  assumes "manager_pre lib c m" and "idle m" and "0 < now"
  shows "manager_pre lib c (mark_recovering now i m)" "idle (mark_recovering now i m)"
    and "manager_pre lib c (overflow_task now i m)" "idle (overflow_task now i m)"
proof -
  have "i \<notin> set (mg_pending m)" "dget (mg_workers m) i = None" using assms(2) by (simp_all add: idle_def)
  then show "manager_pre lib c (mark_recovering now i m)" "manager_pre lib c (overflow_task now i m)"
    unfolding mark_recovering_def overflow_task_def using assms(1,3)
    by (auto intro!: manager_pre_change simp: task_wf_def verified_def)
  show "idle (mark_recovering now i m)" "idle (overflow_task now i m)"
    using assms(2) by (simp_all add: idle_def mark_recovering_def overflow_task_def)
qed

lemma idle_folds:
  assumes "manager_pre lib c m" and "idle m" and "0 < now"
  shows "manager_pre lib c (fold (mark_recovering now) is m) \<and> idle (fold (mark_recovering now) is m)"
    and "manager_pre lib c (fold (overflow_task now) is m) \<and> idle (fold (overflow_task now) is m)"
  using assms(1,2) by (induction "is" arbitrary: m) (simp_all add: idle_step assms(3))

lemma fold_kept_tasks:
  assumes "\<And>i m. dget (mg_tasks (f i m)) j \<noteq> None \<longleftrightarrow> dget (mg_tasks m) j \<noteq> None"
  shows "dget (mg_tasks (fold f is m)) j \<noteq> None \<longleftrightarrow> dget (mg_tasks m) j \<noteq> None"
  by (induction "is" arbitrary: m) (simp_all only: fold_simps assms)

lemma replay_ok:
  assumes "manager_pre lib c m" and "dget (mg_tasks m) i \<noteq> None" and "i \<notin> set (mg_pending m)" and "mg_workers m = []" and "0 < now"
  shows "manager_pre lib c (replay_task now i m)" and "mg_workers (replay_task now i m) = []" and "mg_pending (replay_task now i m) = mg_pending m @ [i]"
proof -
  let ?f = "\<lambda>t. t\<lparr>dl_state := ''queued'', dl_cancel_requested := False, dl_error := [], dl_updated_at := now, dl_resume_status := ''restart_replay_queued''\<rparr>"
  define m2 where "m2 = change_task i ?f (m\<lparr>mg_cancel := dput i False (mg_cancel m)\<rparr>)"
  have frame: "mg_pending m2 = mg_pending m" "mg_workers m2 = []" by (simp_all add: m2_def assms(4))
  have "manager_pre lib c (m\<lparr>mg_cancel := dput i False (mg_cancel m)\<rparr>)" by (subst manager_pre_same [of _ m]) (simp_all add: assms(1))
  then have m2: "manager_pre lib c m2" unfolding m2_def
    by (rule manager_pre_change) (use assms(3-5) in \<open>auto simp: task_wf_def verified_def\<close>)
  have queued: "in_state m2 i ''queued''" using assms(2) by (auto simp: m2_def in_state_def change_task_tasks dget_dput)
  have "manager_pre lib c (m2\<lparr>mg_pending := mg_pending m2 @ [i]\<rparr>)"
    by (rule add_pending [OF m2 _ _ queued]) (simp_all add: frame assms(3))
  moreover have eq: "replay_task now i m = emit_task now i (m2\<lparr>mg_pending := mg_pending m2 @ [i]\<rparr>)"
    unfolding replay_task_def Let_def m2_def ..
  ultimately show "manager_pre lib c (replay_task now i m)" "mg_workers (replay_task now i m) = []" "mg_pending (replay_task now i m) = mg_pending m @ [i]"
    by (simp_all add: frame)
qed

lemma replays_ok:
  assumes "manager_pre lib c m" and "\<forall>i \<in> set is. dget (mg_tasks m) i \<noteq> None" and "distinct (mg_pending m @ is)" and "mg_workers m = []" and "0 < now"
  shows "manager_pre lib c (fold (replay_task now) is m)"
  using assms
proof (induction "is" arbitrary: m)
  case (Cons i "is")
  note r = replay_ok [OF Cons.prems(1), of i now]
  have "\<forall>j \<in> set is. dget (mg_tasks (replay_task now i m)) j \<noteq> None" using Cons.prems(2) by (simp only: kept_tasks) simp
  then have "manager_pre lib c (fold (replay_task now) is (replay_task now i m))"
    using Cons.prems r by (intro Cons.IH) auto
  then show ?case by simp
qed simp

lemma recover_ok:
  assumes "manager_ok lib c m" and "idle m" and "0 < now"
  shows "manager_ok lib c (recover_incomplete_tasks c now m)" and "same_ended m (recover_incomplete_tasks c now m)"
proof -
  define ids where "ids = map dl_task_id (sort_key dl_created_at (filter (\<lambda>t. \<not> is_terminal t) (dvals (mg_tasks m))))"
  let ?n = "nat (mc_replay_limit c)"
  define m1 where "m1 = fold (mark_recovering now) ids m"
  define m2 where "m2 = fold (overflow_task now) (drop ?n ids) m1"
  define m3 where "m3 = fold (replay_task now) (take ?n ids) m2"
  have result: "recover_incomplete_tasks c now m = (if ids = [] then m else persist_tasks now True m3)"
    by (simp only: recover_incomplete_tasks_def Let_def ids_def [symmetric] m1_def [symmetric] m2_def [symmetric] m3_def [symmetric])
  have ok: "tasks_ok m" "manager_pre lib c m" using assms(1) by (simp_all add: manager_ok_def manager_pre_def)
  have set_ids: "i \<in> set ids \<longleftrightarrow> (\<exists>t. dget (mg_tasks m) i = Some t \<and> \<not> is_terminal t)" for i
    using task_at [OF ok(1)] by (auto simp: ids_def dvals_dget [OF dict_ok_tasks [OF ok(1)]] image_iff)
  have "distinct ids"
  proof -
    have "distinct (map dl_task_id (filter (\<lambda>t. \<not> is_terminal t) (dvals (mg_tasks m))))"
      using own_keys_distinct [of dl_task_id "mg_tasks m"] ok(1) by (intro distinct_map_filter) (simp add: tasks_ok_def)
    moreover have "mset ids = mset (map dl_task_id (filter (\<lambda>t. \<not> is_terminal t) (dvals (mg_tasks m))))" by (simp add: ids_def mset_filter)
    ultimately show ?thesis by (metis mset_eq_imp_distinct_iff)
  qed
  then have d: "distinct (take ?n ids)" by simp
  have m1: "manager_pre lib c m1 \<and> idle m1" unfolding m1_def by (rule idle_folds [OF ok(2) assms(2,3)])
  then have m2: "manager_pre lib c m2 \<and> idle m2" unfolding m2_def by (intro idle_folds assms(3)) simp_all
  have "dget (mg_tasks m2) i \<noteq> None" if "i \<in> set (take ?n ids)" for i
  proof -
    have "dget (mg_tasks m) i \<noteq> None" using set_ids in_set_takeD [OF that] by auto
    moreover have "dget (mg_tasks m1) i \<noteq> None \<longleftrightarrow> dget (mg_tasks m) i \<noteq> None" unfolding m1_def by (rule fold_kept_tasks) (rule kept_tasks)
    moreover have "dget (mg_tasks m2) i \<noteq> None \<longleftrightarrow> dget (mg_tasks m1) i \<noteq> None" unfolding m2_def by (rule fold_kept_tasks) (rule kept_tasks)
    ultimately show ?thesis by simp
  qed
  then have "manager_pre lib c m3" unfolding m3_def using m2 d assms(3) by (intro replays_ok) (simp_all add: idle_def)
  then show "manager_ok lib c (recover_incomplete_tasks c now m)" using assms(1) by (simp add: result manager_pre_persist)
  show "same_ended m (recover_incomplete_tasks c now m)" unfolding same_ended_def
  proof (intro allI impI, elim conjE)
    fix i t assume t: "dget (mg_tasks m) i = Some t" "is_terminal t"
    then have "i \<notin> set ids" by (simp add: set_ids)
    then have out: "i \<notin> set ids" "i \<notin> set (take ?n ids)" "i \<notin> set (drop ?n ids)" by (auto dest: in_set_takeD in_set_dropD)
    have "dget (mg_tasks m3) i = dget (mg_tasks m2) i" unfolding m3_def by (rule fold_other_tasks [OF other_tasks(4) out(2)])
    also have "\<dots> = dget (mg_tasks m1) i" unfolding m2_def by (rule fold_other_tasks [OF other_tasks(3) out(3)])
    also have "\<dots> = dget (mg_tasks m) i" unfolding m1_def by (rule fold_other_tasks [OF other_tasks(2) out(1)])
    finally have "dget (mg_tasks m3) i = dget (mg_tasks m) i" .
    then show "\<exists>u. dget (mg_tasks (recover_incomplete_tasks c now m)) i = Some u \<and> core u = core t" using t by (simp add: result)
  qed
qed

lemma same_ended_refl [simp]: "same_ended m m"
  by (simp add: same_ended_def)

lemma same_ended_trans: "same_ended a b \<Longrightarrow> same_ended b c \<Longrightarrow> same_ended a c"
  unfolding same_ended_def by (metis core_simps(3))

lemma restart_ok:
  assumes "manager_ok lib c m" and "0 < now"
  shows "manager_ok lib c (restart lib c now store written m)" and "same_ended m (restart lib c now store written m)"
proof -
  define m1 where "m1 = load_tasks_from_disk lib now (fresh_manager store (m\<lparr>mg_parts := (\<lambda>i. map_option (\<lambda>p. if dget (mg_workers m) i = None then p else take (written i) p) (mg_parts m i))\<rparr>))"
  note l = loaded_ok [OF assms(1) refl m1_def]
  have "restart lib c now store written m = recover_incomplete_tasks c now m1" by (simp only: restart_def start_manager_def m1_def)
  then show "manager_ok lib c (restart lib c now store written m)" "same_ended m (restart lib c now store written m)"
    using recover_ok [OF l(1,2) assms(2)] same_ended_trans [OF l(3)] by simp_all
qed

subsection \<open>An operation leaves other tasks and ended ones alone\<close>

lemma task_steps_other:
  assumes "j \<noteq> i"
  shows "dget (mg_tasks (update_task now force i f m)) j = dget (mg_tasks m) j"
    and "dget (mg_tasks (set_resume_status now i st m)) j = dget (mg_tasks m) j"
    and "dget (mg_tasks (progress now i a b m)) j = dget (mg_tasks m) j"
    and "dget (mg_tasks (save_checkpoint now i a b x y m)) j = dget (mg_tasks m) j"
    and "dget (mg_tasks (end_worker now i st err m)) j = dget (mg_tasks m) j"
    and "dget (mg_tasks (open_fresh lib now i n r m)) j = dget (mg_tasks m) j"
  using assms
  by (simp_all add: update_task_def set_resume_status_def progress_def save_checkpoint_def end_worker_def open_fresh_def other_tasks dget_dput Let_def
      split: option.split stream_start.split)

lemma worker_steps_other:
  assumes "j \<noteq> i"
  shows "dget (mg_tasks (open_download lib c now dns i r1 r2 m)) j = dget (mg_tasks m) j"
    and "dget (mg_tasks (stream_chunk now i r m)) j = dget (mg_tasks m) j"
    and "dget (mg_tasks (finish_task lib c now i m)) j = dget (mg_tasks m) j"
  using assms
  by (simp_all add: open_download_def stream_chunk_def finish_task_def task_steps_other Let_def
      split: option.split worker.split sum.split stream_start.split bool.split read_result.split list.split)

lemma worker_steps_idle:
  assumes "dget (mg_workers m) i = None"
  shows "open_download lib c now dns i r1 r2 m = m" and "stream_chunk now i r m = m" and "finish_task lib c now i m = m"
  using assms by (simp_all add: open_download_def stream_chunk_def finish_task_def split: option.split)

lemma ended_no_worker: "manager_ok lib c m \<Longrightarrow> dget (mg_tasks m) i = Some t \<Longrightarrow> is_terminal t \<Longrightarrow> dget (mg_workers m) i = None \<and> i \<notin> set (mg_pending m)"
  by (auto simp: manager_ok_def manager_pre_def phases_ok_def in_state_def is_terminal_def)

lemma cancel_other:
  assumes "j \<noteq> i"
  shows "dget (mg_tasks (snd (cancel_download_task c now i tn m))) j = dget (mg_tasks m) j"
  using assms by (simp add: cancel_download_task_def Let_def other_tasks split: option.split)

lemma cancel_ended: "dget (mg_tasks m) i = Some t \<Longrightarrow> is_terminal t \<Longrightarrow> snd (cancel_download_task c now i tn m) = m"
  by (simp add: cancel_download_task_def split: option.split)

subsection \<open>Runs\<close>

text \<open>
  The operations with what they take from outside. A creation is split at its lock: the task was
  prepared at some earlier moment and is added now, under an identifier that is new.
\<close>

datatype operation =
    Add_task download_task
  | Begin_task
  | Open_download resolver string opened opened
  | Read_chunk string read_result
  | Finish_task string
  | Cancel_task string "string option"
  | Commit_import string "json list" install_plan
  | Restart event_store "string \<Rightarrow> nat"

fun perform :: "mm_lib \<Rightarrow> mm_config \<Rightarrow> time \<Rightarrow> operation \<Rightarrow> manager \<Rightarrow> manager" where
  "perform lib c now (Add_task t) m = snd (add_task now t m)"
| "perform lib c now Begin_task m = begin_task now m"
| "perform lib c now (Open_download dns i first second) m = open_download lib c now dns i first second m"
| "perform lib c now (Read_chunk i r) m = stream_chunk now i r m"
| "perform lib c now (Finish_task i) m = finish_task lib c now i m"
| "perform lib c now (Cancel_task i tenant) m = snd (cancel_download_task c now i tenant m)"
| "perform lib c now (Commit_import uuid tags p) m = snd (commit_import lib now uuid tags p m)"
| "perform lib c now (Restart store written) m = restart lib c now store written m"

definition allowed :: "mm_lib \<Rightarrow> mm_config \<Rightarrow> time \<Rightarrow> operation \<Rightarrow> manager \<Rightarrow> bool" where
  "allowed lib c now op' m \<longleftrightarrow> 0 < now \<and> (case op' of
     Add_task t \<Rightarrow> dl_task_id t \<noteq> [] \<and> CHR ''/'' \<notin> set (dl_task_id t) \<and> dget (mg_tasks m) (dl_task_id t) = None
       \<and> (\<exists>then_now dns r m0. 0 < then_now \<and> prepare_task lib c then_now dns (dl_task_id t) r m0 = Inr t)
   | _ \<Rightarrow> True)"

inductive runs :: "mm_lib \<Rightarrow> mm_config \<Rightarrow> manager \<Rightarrow> manager \<Rightarrow> bool" for lib c m0 where
  runs_refl: "runs lib c m0 m0"
| runs_step: "runs lib c m0 m \<Longrightarrow> allowed lib c now op' m \<Longrightarrow> runs lib c m0 (perform lib c now op' m)"

definition first_start :: "manager \<Rightarrow> bool" where
  "first_start m \<longleftrightarrow> mg_tasks m = [] \<and> mg_pending m = [] \<and> mg_workers m = [] \<and> mg_change_seq m = 0 \<and> mg_tasks_file m = None"

lemma first_start_ok: "first_start m \<Longrightarrow> manager_ok lib c m"
  unfolding manager_ok_def file_agrees_def
  by (auto simp: first_start_def manager_pre_def tasks_ok_def phases_ok_def workers_ok_def file_rows_def dvals_def rows_ok_def intro!: exI [of _ "[]"])

lemma perform_ok: "manager_ok lib c m \<Longrightarrow> allowed lib c now op' m \<Longrightarrow> manager_ok lib c (perform lib c now op' m)"
proof (cases op')
  case (Add_task t)
  assume ok: "manager_ok lib c m" and allowed: "allowed lib c now op' m"
  then obtain n dns r m1 where "0 < n" "prepare_task lib c n dns (dl_task_id t) r m1 = Inr t" by (auto simp: allowed_def Add_task)
  from prepared_wf [OF this(2,1)] have "new_task m t" using allowed by (simp add: new_task_def allowed_def Add_task)
  then show ?thesis using allowed by (simp add: Add_task add_task_ok [OF ok] allowed_def)
qed (simp_all add: allowed_def open_download_ok stream_chunk_ok finish_task_ok cancel_ok commit_import_ok restart_ok begin_task_ok)

lemma same_ended_other:
  assumes "\<And>j t. dget (mg_tasks m) j = Some t \<Longrightarrow> is_terminal t \<Longrightarrow> dget (mg_tasks m') j = dget (mg_tasks m) j"
  shows "same_ended m m'"
  using assms by (auto simp: same_ended_def)

lemma worker_steps_ended:
  assumes "manager_ok lib c m"
  shows "same_ended m (open_download lib c now dns i r1 r2 m)" and "same_ended m (stream_chunk now i r m)" and "same_ended m (finish_task lib c now i m)"
proof -
  have ended: "same_ended m m'" if "\<And>j. j \<noteq> i \<Longrightarrow> dget (mg_tasks m') j = dget (mg_tasks m) j" and "dget (mg_workers m) i = None \<Longrightarrow> m' = m" for m'
  proof (rule same_ended_other)
    fix j t assume t: "dget (mg_tasks m) j = Some t" "is_terminal t"
    show "dget (mg_tasks m') j = dget (mg_tasks m) j"
    proof (cases "j = i")
      case True
      then have "m' = m" using ended_no_worker [OF assms t] that(2) by blast
      then show ?thesis by simp
    qed (rule that(1))
  qed
  show "same_ended m (open_download lib c now dns i r1 r2 m)" "same_ended m (stream_chunk now i r m)" "same_ended m (finish_task lib c now i m)"
    by (rule ended; simp add: worker_steps_other worker_steps_idle)+
qed

lemma perform_ended:
  assumes "manager_ok lib c m" and "allowed lib c now op' m"
  shows "same_ended m (perform lib c now op' m)"
proof (cases op')
  case (Add_task t)
  then show ?thesis using assms(2)
    by (auto simp: allowed_def add_task_def Let_def other_tasks dget_dput change_task_tasks intro!: same_ended_other)
next
  case Begin_task
  have "dget (mg_tasks (begin_task now m)) j = dget (mg_tasks m) j" if "j \<notin> set (mg_pending m)" for j
    using that by (auto simp: begin_task_def Let_def task_steps_other split: list.split)
  then show ?thesis using Begin_task ended_no_worker [OF assms(1)] by (auto intro!: same_ended_other)
next
  case (Cancel_task i tn)
  have "dget (mg_tasks (snd (cancel_download_task c now i tn m))) j = dget (mg_tasks m) j" if "dget (mg_tasks m) j = Some t" "is_terminal t" for j t
    using that cancel_other [of j i] cancel_ended [of m i] by (cases "j = i") simp_all
  then show ?thesis using Cancel_task by (auto intro!: same_ended_other)
next
  case (Commit_import uuid tags p)
  then show ?thesis
    by (auto simp: commit_import_def Let_def same_ended_def update_task_def change_task_tasks dget_dput core_def split: option.split)
qed (use assms worker_steps_ended in \<open>auto simp: restart_ok allowed_def\<close>)

lemma runs_ok: "runs lib c m0 m \<Longrightarrow> manager_ok lib c m0 \<Longrightarrow> manager_ok lib c m"
  by (induction rule: runs.induct) (simp_all add: perform_ok)

lemma runs_ended: "runs lib c m0 m \<Longrightarrow> manager_ok lib c m0 \<Longrightarrow> same_ended m0 m"
  by (induction rule: runs.induct) (auto intro: same_ended_trans perform_ended runs_ok)

text \<open>
  C4: Whatever the network answered, however often a download was resumed and the process restarted: a task
  that is completed has a staged file with exactly the SHA-256 it was created with.
\<close>

theorem completed_file_verified:
  assumes "first_start m0" and "runs lib c m0 m" and "dget (mg_tasks m) i = Some t" and "dl_state t = ''completed''"
  shows "\<exists>content. mg_staged m (dl_staged_path t) = Some content \<and> ml_sha lib content = dl_expected_sha256 t"
proof -
  have "verified lib c (mg_staged m) t"
    using runs_ok [OF assms(2) first_start_ok [OF assms(1)]] assms(3) by (simp add: manager_ok_def manager_pre_def)
  then show ?thesis using assms(4) by (auto simp: verified_def)
qed

text \<open>
  As long as the task file can be written (the model's writes succeed), a task that has completed,
  failed or been cancelled keeps its state, its file and its hashes, over any further operations and
  restarts: the file on disk always shows it as ended.
\<close>

theorem ended_task_final:
  assumes "first_start m0" and "runs lib c m0 m" and "runs lib c m m'" and "dget (mg_tasks m) i = Some t" and "is_terminal t"
  shows "\<exists>u. dget (mg_tasks m') i = Some u \<and> dl_state u = dl_state t \<and> dl_expected_sha256 u = dl_expected_sha256 t
    \<and> dl_staged_path u = dl_staged_path t \<and> dl_computed_sha256 u = dl_computed_sha256 t"
proof -
  have "same_ended m m'" using runs_ended [OF assms(3)] runs_ok [OF assms(2) first_start_ok [OF assms(1)]] by simp
  then obtain u where "dget (mg_tasks m') i = Some u" "core u = core t" using assms(4,5) by (auto simp: same_ended_def)
  then show ?thesis by (auto simp: core_def)
qed

text \<open>
  Writing the tasks and reading them in a new process gives them back: for every reachable manager
  and every identifier, the task that \<open>load_tasks_from_disk\<close> finds is the one that was in memory.
\<close>

theorem tasks_survive_restart:
  assumes "first_start m0" and "runs lib c m0 m"
  shows "dget (mg_tasks (load_tasks_from_disk lib now' (fresh_manager store (persist_tasks now True m)))) i = dget (mg_tasks m) i"
proof -
  define ts where "ts = sort_key dl_created_at (dvals (mg_tasks m))"
  have ok: "tasks_ok m" using runs_ok [OF assms(2) first_start_ok [OF assms(1)]] by (simp add: manager_ok_def manager_pre_def)
  have rows: "rows_ok ts" unfolding ts_def by (rule current_rows [OF ok])
  let ?f = "fresh_manager store (persist_tasks now True m)"
  have "load_tasks_from_disk lib now' ?f = fold (load_task lib now') (map task_to_dict ts) ?f"
    by (simp add: load_tasks_from_disk_def fresh_manager_def persist_tasks_def ts_def)
  from load_rows [OF _ _ _ _ this, of "[]"] rows
  have "mg_tasks (load_tasks_from_disk lib now' ?f) = map (\<lambda>t. (dl_task_id t, t)) ts" by (simp add: fresh_manager_def)
  then have "dget (mg_tasks (load_tasks_from_disk lib now' ?f)) i = Some t \<longleftrightarrow> dget (mg_tasks m) i = Some t" for t
  proof -
    have "dict_ok (map (\<lambda>t. (dl_task_id t, t)) ts)" using rows by (simp add: rows_ok_def comp_def)
    then have "dget (map (\<lambda>t. (dl_task_id t, t)) ts) i = Some t \<longleftrightarrow> t \<in> set ts \<and> dl_task_id t = i" by (auto simp: dget_iff)
    also have "\<dots> \<longleftrightarrow> dget (mg_tasks m) i = Some t"
      using own_keys_dget [of dl_task_id "mg_tasks m" t] ok task_at [OF ok, of i t] by (auto simp: ts_def tasks_ok_def)
    finally show ?thesis using \<open>mg_tasks _ = _\<close> by simp
  qed
  then show ?thesis by (metis not_Some_eq)
qed


subsection \<open>An example: a download in two pieces\<close>

definition demo_digest :: string where
  "demo_digest = replicate 64 (CHR ''0'')"

definition demo_mm_realpath :: "string \<Rightarrow> string" where
  "demo_mm_realpath p = (if p \<in> {''/srv'', ''/srv/loras/f.pt'', ''/srv/loras/.f.pt.tmp.h''} then p else ''/'')"

definition demo_mm :: mm_lib where
  "demo_mm = \<lparr>ml_sha = (\<lambda>s. if s = ''model'' then demo_digest else ''other''), ml_str = (\<lambda>_. []), ml_float = (\<lambda>_. None), ml_dict = (\<lambda>_. None), ml_show = (\<lambda>_. ''blocked''),
     ml_classes = \<lparr>ic_special = (\<lambda>_. False), ic_loopback = (\<lambda>_. False)\<rparr>, ml_idna = Some, ml_realpath = demo_mm_realpath\<rparr>"

definition demo_config :: mm_config where
  "demo_config = \<lparr>mc_env = Map.empty, mc_state_root = ''/s'', mc_install_root = ''/srv'', mc_allow_hosts = [''a''], mc_any_public = False, mc_loopback_hosts = [],
     mc_max_active = 16, mc_replay_limit = 32\<rparr>"

definition demo_dns :: resolver where
  "demo_dns h n = Some [V4 0x08080808]"

definition demo_start :: manager where
  "demo_start = \<lparr>mg_tasks = [], mg_pending = [], mg_workers = [], mg_cancel = [], mg_change_seq = 0, mg_persisted_at = 0, mg_tasks_file = None,
     mg_parts = Map.empty, mg_checkpoints = Map.empty, mg_staged = Map.empty, mg_installations = None, mg_installed = Map.empty, mg_events = the (make_store 8)\<rparr>"

definition demo_request :: task_request where
  "demo_request = \<lparr>rt_model_id = ''m'', rt_name = ''n'', rt_model_type = ''lora'', rt_source = ''x'', rt_source_label = [], rt_download_url = ''http://a/f.pt'',
     rt_expected_sha256 = demo_digest, rt_provenance = JObj [(''publisher'', JStr ''p''), (''license'', JStr ''l''), (''source_url'', JStr ''u'')],
     rt_destination_subdir = None, rt_filename = None, rt_tenant_id = None\<rparr>"

definition demo_task :: download_task where
  "demo_task = \<lparr>dl_task_id = ''t1'', dl_model_id = ''m'', dl_name = ''n'', dl_model_type = ''lora'', dl_source = ''x'', dl_source_label = ''x'',
     dl_download_url = ''http://a/f.pt'', dl_destination_subdir = ''loras'', dl_filename = ''f.pt'', dl_expected_sha256 = demo_digest,
     dl_provenance = [(''publisher'', JStr ''p''), (''license'', JStr ''l''), (''source_url'', JStr ''u''), (''note'', JStr [])],
     dl_tenant_id = DEFAULT_TENANT_ID, dl_state = ''queued'', dl_created_at = 1, dl_updated_at = 1, dl_started_at = 0, dl_finished_at = 0,
     dl_bytes_downloaded = 0, dl_total_bytes = 0, dl_progress = 0, dl_cancel_requested = False, dl_error = [], dl_staged_path = [],
     dl_computed_sha256 = [], dl_imported = False, dl_installation_path = [], dl_installation_record_id = [], dl_resume_status = ''queued_new'',
     dl_recovery_attempts = 0, dl_last_checkpoint_at = 0, dl_change_seq = 0\<rparr>"

lemma demo_single_tenant: "\<not> is_multi_tenant_enabled Map.empty"
  by (simp add: is_multi_tenant_enabled_def env_value_empty) code_simp

lemma demo_tenant: "normalize_tenant Map.empty None = Inr DEFAULT_TENANT_ID"
  by (simp add: normalize_tenant_def demo_single_tenant)

lemma demo_url: "validate_url_policy demo_mm demo_config demo_dns ''http://a/f.pt'' = Inr ()"
  by code_simp

lemma demo_names: "norm_model_type ''lora'' = ''lora''" "norm_source ''x'' = ''x''" "model_type_excluded ''lora'' = False" "is_sha256 demo_digest"
  "py_lower (py_strip demo_digest) = demo_digest" "sanitize_subdir (subdir_of_type ''lora'') = Inr ''loras''" "filename_from_url ''http://a/f.pt'' = Inr ''f.pt''"
  "py_strip ''m'' = ''m''" "py_strip ''n'' = ''n''" "py_strip ''http://a/f.pt'' = ''http://a/f.pt''"
  "validate_provenance (\<lambda>_. []) (JObj [(''publisher'', JStr ''p''), (''license'', JStr ''l''), (''source_url'', JStr ''u'')])
     = Inr [(''publisher'', JStr ''p''), (''license'', JStr ''l''), (''source_url'', JStr ''u''), (''note'', JStr [])]"
  by code_simp+

lemma demo_prepared: "prepare_task demo_mm demo_config 1 demo_dns ''t1'' demo_request demo_start = Inr demo_task"
proof -
  have "mc_env demo_config = Map.empty" "mc_max_active demo_config = 16" "active_tasks demo_start = 0" "ml_str demo_mm = (\<lambda>_. [])"
    by (simp_all add: demo_config_def active_tasks_def demo_start_def dvals_def demo_mm_def)
  then show ?thesis
    by (simp add: prepare_task_def demo_request_def demo_names demo_url demo_tenant or_text_def demo_task_def)
qed

definition demo_ops :: "operation list" where
  "demo_ops = [Add_task demo_task, Begin_task, Open_download demo_dns ''t1'' (Replied \<lparr>rp_code = 200, rp_etag = None, rp_last_modified = None,
       rp_content_length = Some ''5'', rp_content_range = None\<rparr>) (Open_raised ''x''),
     Read_chunk ''t1'' (Read_bytes ''mod''), Read_chunk ''t1'' (Read_bytes ''el''), Read_chunk ''t1'' (Read_bytes []), Finish_task ''t1'']"

definition demo_done :: manager where
  "demo_done = fold (perform demo_mm demo_config 1) demo_ops demo_start"

definition demo_result :: download_task where
  "demo_result = demo_task\<lparr>dl_state := ''completed'', dl_started_at := 1, dl_updated_at := 1, dl_finished_at := 1, dl_bytes_downloaded := 5, dl_total_bytes := 5,
     dl_progress := 1, dl_staged_path := ''/s/staging/t1/f.pt'', dl_computed_sha256 := demo_digest, dl_resume_status := ''started_fresh'',
     dl_last_checkpoint_at := 1, dl_change_seq := 7\<rparr>"

lemma demo_done_eq:
  "(dget (mg_tasks demo_done) ''t1'', mg_staged demo_done ''/s/staging/t1/f.pt'', mg_installations demo_done) = (Some demo_result, Some ''model'', None)"
  by code_simp

lemma demo_done_task: "dget (mg_tasks demo_done) ''t1'' = Some demo_result" "dl_state demo_result = ''completed''" "dl_expected_sha256 demo_result = demo_digest"
  using demo_done_eq by (simp_all add: demo_result_def demo_task_def)

lemma runs_fold:
  assumes "runs lib c m0 m" and "\<forall>x \<in> set ops. \<forall>t. x \<noteq> Add_task t" and "0 < now"
  shows "runs lib c m0 (fold (perform lib c now) ops m)"
  using assms(1,2)
proof (induction ops arbitrary: m)
  case (Cons x ops)
  have "allowed lib c now x m" using Cons.prems(2) assms(3) by (cases x) (simp_all add: allowed_def)
  then show ?case using Cons by (simp add: runs_step)
qed simp

lemma demo_runs: "first_start demo_start" "runs demo_mm demo_config demo_start demo_done"
proof -
  show "first_start demo_start" by (simp add: first_start_def demo_start_def)
  have "\<exists>n dns r m0. 0 < n \<and> prepare_task demo_mm demo_config n dns (dl_task_id demo_task) r m0 = Inr demo_task"
    using demo_prepared by (intro exI [of _ 1] exI [of _ demo_dns] exI [of _ demo_request] exI [of _ demo_start]) (simp add: demo_task_def)
  then have "allowed demo_mm demo_config 1 (Add_task demo_task) demo_start"
    by (simp add: allowed_def demo_start_def) (simp add: demo_task_def)
  from runs_step [OF runs_refl this]
  have "runs demo_mm demo_config demo_start (fold (perform demo_mm demo_config 1) (tl demo_ops) (perform demo_mm demo_config 1 (Add_task demo_task) demo_start))"
    by (rule runs_fold) (simp_all add: demo_ops_def)
  then show "runs demo_mm demo_config demo_start demo_done" by (simp add: demo_done_def demo_ops_def)
qed

theorem completed_file_verified_witness:
  "\<exists>t content. dget (mg_tasks demo_done) ''t1'' = Some t \<and> mg_staged demo_done (dl_staged_path t) = Some content \<and> ml_sha demo_mm content = dl_expected_sha256 t"
proof -
  show ?thesis using completed_file_verified [OF demo_runs demo_done_task(1,2)] demo_done_task(1) by blast
qed

theorem ended_task_final_witness:
  "\<exists>u. dget (mg_tasks (restart demo_mm demo_config 2 (mg_events demo_done) (\<lambda>_. 0) demo_done)) ''t1'' = Some u \<and> dl_state u = ''completed''"
proof -
  have terminal: "is_terminal demo_result" by (simp add: is_terminal_def demo_done_task)
  have "runs demo_mm demo_config demo_done (perform demo_mm demo_config 2 (Restart (mg_events demo_done) (\<lambda>_. 0)) demo_done)"
    by (rule runs_step [OF runs_refl]) (simp add: allowed_def)
  from ended_task_final [OF demo_runs this demo_done_task(1) terminal] show ?thesis by (auto simp: demo_done_task)
qed

theorem tasks_survive_restart_witness:
  "map_option dl_state (dget (mg_tasks (load_tasks_from_disk demo_mm 9 (fresh_manager (mg_events demo_done) (persist_tasks 8 True demo_done)))) ''t1'') = Some ''completed''"
  using tasks_survive_restart [OF demo_runs, of 9 "mg_events demo_done" 8 "''t1''"] by (simp add: demo_done_task)

lemma demo_mm_real: "real_path (ml_realpath demo_mm p)"
proof -
  have "real_path (abs_path cs)" if "list_all plain_part cs" for cs using that by (auto simp: real_path_def)
  from this [of "[]"] this [of "[''srv'']"] this [of "[''srv'', ''loras'', ''f.pt'']"] this [of "[''srv'', ''loras'', ''.f.pt.tmp.h'']"]
  show ?thesis by (simp add: demo_mm_def demo_mm_realpath_def plain_part_def abs_path_def)
qed

lemma demo_target: "install_target (ml_realpath demo_mm) demo_config ''h'' (path_parts ''loras'' @ [''f.pt'']) = Inr ([''loras'', ''f.pt''], ''/srv/loras/f.pt'')"
  by code_simp

lemma demo_provenance: "\<exists>p. validate_provenance (ml_str demo_mm) (JObj (dl_provenance demo_result)) = Inr p"
proof -
  have "case validate_provenance (ml_str demo_mm) (JObj (dl_provenance demo_result)) of Inr p \<Rightarrow> True | _ \<Rightarrow> False" by code_simp
  then show ?thesis by (simp split: sum.splits)
qed

lemma demo_imported:
  "\<exists>row m'. import_downloaded_model demo_mm demo_config 3 ''h'' ''r1'' ''t1'' None None None [] demo_done = (Inr row, m')"
proof -
  have tenant: "tenant_ok (mc_env demo_config) (dl_tenant_id demo_result) None"
    using demo_single_tenant by (simp add: tenant_ok_def demo_config_def)
  have fields: "dl_imported demo_result = False" "dl_staged_path demo_result = ''/s/staging/t1/f.pt''" "dl_computed_sha256 demo_result = demo_digest"
    "or_text None (dl_destination_subdir demo_result) = ''loras''" "or_text None (dl_filename demo_result) = ''f.pt''" "ml_sha demo_mm ''model'' = demo_digest"
    by (simp_all add: demo_result_def demo_task_def or_text_def demo_mm_def)
  have names: "sanitize_subdir ''loras'' = Inr ''loras''" "sanitize_filename ''f.pt'' = Inr ''f.pt''" by code_simp+
  have files: "mg_staged demo_done ''/s/staging/t1/f.pt'' = Some ''model''" "mg_installations demo_done = None" using demo_done_eq by simp_all
  obtain prov where prov: "validate_provenance (ml_str demo_mm) (JObj (dl_provenance demo_result)) = Inr prov" using demo_provenance by blast
  have prep: "\<exists>p. prepare_import demo_mm demo_config ''h'' ''t1'' None None None demo_done = Inr p"
    by (simp add: prepare_import_def demo_done_task tenant fields files prov names demo_target)
  have com: "\<exists>row m'. commit_import demo_mm 3 ''r1'' [] p demo_done = (Inr row, m')" for p
    by (simp add: commit_import_def Let_def files load_installations_def installed_at_def installation_row_def field_or_def float_field_def)
  show ?thesis using prep com by (auto simp: import_downloaded_model_def)
qed


end
