(* ===== verification/Transport.thy ===== *)
theory Transport
  imports Contracts Json
begin

text \<open>
  The transport contract shared by the chat platforms (\<open>connector/transport_contract.py\<close>):
  sessions with their states, the bounded event stream with replay, the life of a callback,
  the choice of a token with its public view, retry delays and the classes of HTTP answers.
  Random identifiers and the jitter are arguments; so is the hash of a payload.
\<close>

declare map_of_eq_Some_iff [simp del]

subsection \<open>Sessions\<close>

datatype session_state = S_PENDING | S_ACTIVE | S_EXPIRED | S_REVOKED

fun valid_transitions :: "session_state \<Rightarrow> session_state list" where
  "valid_transitions S_PENDING = [S_ACTIVE, S_EXPIRED, S_REVOKED]"
| "valid_transitions S_ACTIVE = [S_EXPIRED, S_REVOKED]"
| "valid_transitions S_EXPIRED = []"
| "valid_transitions S_REVOKED = []"

record session_info =
  si_session_id :: string
  si_platform :: string
  si_state :: session_state
  si_created_at :: time
  si_activated_at :: "time option"
  si_expired_at :: "time option"
  si_revoked_at :: "time option"
  si_ttl_sec :: int
  si_metadata :: "(string \<times> json) list"

record session_table =
  st_sessions :: "(string, session_info) dict"
  st_default_ttl :: int

datatype session_error = Session_not_found string | Invalid_transition session_state session_state

definition create_session :: "time \<Rightarrow> string \<Rightarrow> string \<Rightarrow> int option \<Rightarrow> (string \<times> json) list option \<Rightarrow> session_table \<Rightarrow> session_info \<times> session_table" where
  "create_session now hex platform ttl_sec metadata t =
    (let s = \<lparr>si_session_id = hex, si_platform = platform, si_state = S_PENDING, si_created_at = now, si_activated_at = None,
          si_expired_at = None, si_revoked_at = None, si_ttl_sec = (case ttl_sec of None \<Rightarrow> st_default_ttl t | Some n \<Rightarrow> if n = 0 then st_default_ttl t else n),
          si_metadata = (case metadata of None \<Rightarrow> [] | Some d \<Rightarrow> d)\<rparr>
     in (s, t\<lparr>st_sessions := dput hex s (st_sessions t)\<rparr>))"

definition session_transition :: "session_state \<Rightarrow> session_info \<Rightarrow> session_error + session_info" where
  "session_transition target s = (if target \<notin> set (valid_transitions (si_state s)) then Inl (Invalid_transition (si_state s) target)
     else Inr (s\<lparr>si_state := target\<rparr>))"

definition move_session :: "session_state \<Rightarrow> (session_info \<Rightarrow> session_info) \<Rightarrow> string \<Rightarrow> session_table \<Rightarrow> (session_error + session_info) \<times> session_table" where
  "move_session target stamp session_id t = (case dget (st_sessions t) session_id of
     None \<Rightarrow> (Inl (Session_not_found session_id), t)
   | Some s \<Rightarrow> (case session_transition target s of
       Inl e \<Rightarrow> (Inl e, t)
     | Inr s' \<Rightarrow> (Inr (stamp s'), t\<lparr>st_sessions := dput session_id (stamp s') (st_sessions t)\<rparr>)))"

definition activate_session :: "time \<Rightarrow> string \<Rightarrow> session_table \<Rightarrow> (session_error + session_info) \<times> session_table" where
  "activate_session now = move_session S_ACTIVE (\<lambda>s. s\<lparr>si_activated_at := Some now\<rparr>)"

definition expire_session :: "time \<Rightarrow> string \<Rightarrow> session_table \<Rightarrow> (session_error + session_info) \<times> session_table" where
  "expire_session now = move_session S_EXPIRED (\<lambda>s. s\<lparr>si_expired_at := Some now\<rparr>)"

definition revoke_session :: "time \<Rightarrow> string \<Rightarrow> session_table \<Rightarrow> (session_error + session_info) \<times> session_table" where
  "revoke_session now = move_session S_REVOKED (\<lambda>s. s\<lparr>si_revoked_at := Some now\<rparr>)"

definition get_session :: "time \<Rightarrow> string \<Rightarrow> session_table \<Rightarrow> session_info option \<times> session_table" where
  "get_session now session_id t = (case dget (st_sessions t) session_id of
     None \<Rightarrow> (None, t)
   | Some s \<Rightarrow> if si_state s \<notin> {S_EXPIRED, S_REVOKED} \<and> now - si_created_at s > of_int (si_ttl_sec s)
       then let s' = s\<lparr>si_state := S_EXPIRED, si_expired_at := Some now\<rparr> in (Some s', t\<lparr>st_sessions := dput session_id s' (st_sessions t)\<rparr>)
       else (Some s, t))"

definition is_active_session :: "time \<Rightarrow> string \<Rightarrow> session_table \<Rightarrow> bool \<times> session_table" where
  "is_active_session now session_id t = (let (s, t') = get_session now session_id t in
     (case s of None \<Rightarrow> False | Some s \<Rightarrow> si_state s = S_ACTIVE, t'))"

subsection \<open>Reconnection and the event stream\<close>

record reconnect_policy =
  rp_initial_delay_ms :: int
  rp_max_delay_ms :: int
  rp_jitter_ms :: int
  rp_max_retries :: int

text \<open>The drawn jitter lies between 0 and the bound; \<open>-1\<close> means to stop.\<close>

definition compute_delay_ms :: "reconnect_policy \<Rightarrow> nat \<Rightarrow> int \<Rightarrow> int" where
  "compute_delay_ms p attempt jitter = (if int attempt \<ge> rp_max_retries p then -1
     else min (rp_initial_delay_ms p * 2 ^ attempt) (rp_max_delay_ms p) + jitter)"

definition should_reconnect :: "reconnect_policy \<Rightarrow> nat \<Rightarrow> bool" where
  "should_reconnect p attempt \<longleftrightarrow> int attempt < rp_max_retries p"

record stream_event =
  se_event_id :: string
  se_event_type :: string
  se_data :: "(string \<times> json) list"
  se_timestamp :: time
  se_sequence :: int

record event_stream =
  ev_buffer :: "stream_event list"
  ev_max_buffer :: int
  ev_sequence :: int

text \<open>\<open>xs[-n:]\<close> for any \<open>n\<close>: with zero it is the whole list.\<close>

definition py_tail :: "int \<Rightarrow> 'a list \<Rightarrow> 'a list" where
  "py_tail n xs = (if n > 0 then take_last (nat n) xs else drop (nat (- n)) xs)"

definition emit_event :: "time \<Rightarrow> string \<Rightarrow> string \<Rightarrow> (string \<times> json) list \<Rightarrow> event_stream \<Rightarrow> stream_event \<times> event_stream" where
  "emit_event now hex event_type data s =
    (let e = \<lparr>se_event_id = hex, se_event_type = event_type, se_data = data, se_timestamp = now, se_sequence = ev_sequence s + 1\<rparr>;
         buffer = ev_buffer s @ [e]
     in (e, s\<lparr>ev_sequence := ev_sequence s + 1,
          ev_buffer := (if int (length buffer) > ev_max_buffer s then py_tail (ev_max_buffer s) buffer else buffer)\<rparr>))"

fun events_after :: "string \<Rightarrow> stream_event list \<Rightarrow> stream_event list option" where
  "events_after i [] = None"
| "events_after i (e # es) = (if se_event_id e = i then Some es else events_after i es)"

definition replay_from :: "string \<Rightarrow> event_stream \<Rightarrow> stream_event list" where
  "replay_from last_event_id s = (case events_after last_event_id (ev_buffer s) of Some es \<Rightarrow> es | None \<Rightarrow> ev_buffer s)"

subsection \<open>Callbacks\<close>

datatype callback_state = C_PENDING | C_ACKNOWLEDGED | C_DELIVERED | C_EXPIRED | C_FAILED

record callback_record =
  cb_callback_id :: string
  cb_idempotency_key :: string
  cb_state :: callback_state
  cb_created_at :: time
  cb_acknowledged_at :: "time option"
  cb_delivered_at :: "time option"
  cb_expired_at :: "time option"
  cb_ttl_sec :: int
  cb_attempts :: int
  cb_max_attempts :: int
  cb_require_ack :: bool
  cb_allow_direct :: bool
  cb_payload_hash :: string
  cb_metadata :: "(string \<times> json) list"

record callbacks =
  ct_records :: "(string, callback_record) dict"
  ct_index :: "(string, string) dict"
  ct_ack_window_sec :: int
  ct_ttl_sec :: int
  ct_max_attempts :: int

definition make_callbacks :: "int \<Rightarrow> int \<Rightarrow> int \<Rightarrow> callbacks" where
  "make_callbacks ack_window ttl max_attempts = \<lparr>ct_records = [], ct_index = [], ct_ack_window_sec = ack_window, ct_ttl_sec = ttl, ct_max_attempts = max_attempts\<rparr>"

datatype callback_error = Callback_not_found string | Ack_window_expired | Cannot_ack callback_state | Ack_required
  | Cannot_deliver callback_state | Policy_conflict

text \<open>Whether an acknowledgement is required, and whether direct delivery is allowed.\<close>

definition resolve_ack_policy :: "bool option \<Rightarrow> bool \<Rightarrow> callback_error + bool \<times> bool" where
  "resolve_ack_policy require_ack allow_direct = (case require_ack of
     None \<Rightarrow> Inr (\<not> allow_direct, allow_direct)
   | Some True \<Rightarrow> if allow_direct then Inl Policy_conflict else Inr (True, False)
   | Some False \<Rightarrow> Inr (False, True))"

definition find_existing :: "string \<Rightarrow> callbacks \<Rightarrow> callback_record option" where
  "find_existing key t = (if key = [] then None
     else case dget (ct_index t) key of
       None \<Rightarrow> None
     | Some i \<Rightarrow> if i = [] then None
         else (case dget (ct_records t) i of
             None \<Rightarrow> None
           | Some r \<Rightarrow> if cb_state r \<notin> {C_EXPIRED, C_FAILED} then Some r else None))"

definition put_callback :: "callback_record \<Rightarrow> callbacks \<Rightarrow> callbacks" where
  "put_callback r t = t\<lparr>ct_records := dput (cb_callback_id r) r (ct_records t)\<rparr>"

definition new_callback ::
  "(json \<Rightarrow> string) \<Rightarrow> time \<Rightarrow> string \<Rightarrow> string \<Rightarrow> (string \<times> json) list \<Rightarrow> int option \<Rightarrow> bool \<times> bool \<Rightarrow> (string \<times> json) list \<Rightarrow> callbacks \<Rightarrow> callback_record" where
  "new_callback hash now hex key payload ttl_sec pol metadata t =
    \<lparr>cb_callback_id = hex, cb_idempotency_key = key, cb_state = C_PENDING, cb_created_at = now, cb_acknowledged_at = None,
     cb_delivered_at = None, cb_expired_at = None, cb_ttl_sec = (case ttl_sec of None \<Rightarrow> ct_ttl_sec t | Some n \<Rightarrow> if n = 0 then ct_ttl_sec t else n),
     cb_attempts = 0, cb_max_attempts = ct_max_attempts t, cb_require_ack = fst pol, cb_allow_direct = snd pol,
     cb_payload_hash = (if payload = [] then [] else hash (JObj payload)), cb_metadata = metadata\<rparr>"

definition create_callback ::
  "(json \<Rightarrow> string) \<Rightarrow> time \<Rightarrow> string \<Rightarrow> string \<Rightarrow> (string \<times> json) list \<Rightarrow> int option \<Rightarrow> bool option \<Rightarrow> bool \<Rightarrow> (string \<times> json) list
    \<Rightarrow> callbacks \<Rightarrow> (callback_error + callback_record) \<times> callbacks" where
  "create_callback hash now hex key payload ttl_sec require_ack allow_direct metadata t =
    (case resolve_ack_policy require_ack allow_direct of
       Inl e \<Rightarrow> (Inl e, t)
     | Inr pol \<Rightarrow> (case find_existing key t of
         Some r \<Rightarrow> (Inr r, t)
       | None \<Rightarrow>
          let r = new_callback hash now hex key payload ttl_sec pol metadata t; t1 = put_callback r t
          in (Inr r, if key = [] then t1 else t1\<lparr>ct_index := dput key hex (ct_index t1)\<rparr>)))"

definition expire_record :: "time \<Rightarrow> callback_record \<Rightarrow> callback_record" where
  "expire_record now r = r\<lparr>cb_state := C_EXPIRED, cb_expired_at := Some now\<rparr>"

definition expire_if_needed :: "int \<Rightarrow> time \<Rightarrow> callback_record \<Rightarrow> callback_record" where
  "expire_if_needed ack_window now r =
    (if cb_state r \<in> {C_DELIVERED, C_EXPIRED, C_FAILED} then r
     else let elapsed = now - cb_created_at r in
       if cb_require_ack r \<and> cb_state r = C_PENDING \<and> elapsed > of_int ack_window then expire_record now r
       else if elapsed > of_int (cb_ttl_sec r) then expire_record now r
       else r)"

definition acknowledge_callback :: "time \<Rightarrow> string \<Rightarrow> callbacks \<Rightarrow> (callback_error + callback_record) \<times> callbacks" where
  "acknowledge_callback now callback_id t = (case dget (ct_records t) callback_id of
     None \<Rightarrow> (Inl (Callback_not_found callback_id), t)
   | Some r \<Rightarrow>
      if cb_state r = C_PENDING \<and> now - cb_created_at r > of_int (ct_ack_window_sec t)
      then (Inl Ack_window_expired, put_callback (expire_record now r) t)
      else let r1 = expire_if_needed (ct_ack_window_sec t) now r in
        if cb_state r1 \<noteq> C_PENDING then (Inl (Cannot_ack (cb_state r1)), put_callback r1 t)
        else let r2 = r1\<lparr>cb_state := C_ACKNOWLEDGED, cb_acknowledged_at := Some now\<rparr> in (Inr r2, put_callback r2 t))"

definition deliver_callback :: "time \<Rightarrow> string \<Rightarrow> callbacks \<Rightarrow> (callback_error + callback_record) \<times> callbacks" where
  "deliver_callback now callback_id t = (case dget (ct_records t) callback_id of
     None \<Rightarrow> (Inl (Callback_not_found callback_id), t)
   | Some r \<Rightarrow> let r1 = expire_if_needed (ct_ack_window_sec t) now r in
      if cb_require_ack r1 \<and> cb_state r1 = C_PENDING then (Inl Ack_required, put_callback r1 t)
      else if cb_state r1 \<notin> {C_PENDING, C_ACKNOWLEDGED} then (Inl (Cannot_deliver (cb_state r1)), put_callback r1 t)
      else let r2 = r1\<lparr>cb_state := C_DELIVERED, cb_delivered_at := Some now, cb_attempts := cb_attempts r1 + 1\<rparr> in (Inr r2, put_callback r2 t))"

definition record_attempt :: "string \<Rightarrow> callbacks \<Rightarrow> (callback_error + callback_record) \<times> callbacks" where
  "record_attempt callback_id t = (case dget (ct_records t) callback_id of
     None \<Rightarrow> (Inl (Callback_not_found callback_id), t)
   | Some r \<Rightarrow> let n = cb_attempts r + 1; r1 = r\<lparr>cb_attempts := n, cb_state := (if n \<ge> cb_max_attempts r then C_FAILED else cb_state r)\<rparr>
      in (Inr r1, put_callback r1 t))"

definition get_callback :: "time \<Rightarrow> string \<Rightarrow> callbacks \<Rightarrow> callback_record option \<times> callbacks" where
  "get_callback now callback_id t = (case dget (ct_records t) callback_id of
     None \<Rightarrow> (None, t)
   | Some r \<Rightarrow> let r1 = expire_if_needed (ct_ack_window_sec t) now r in (Some r1, put_callback r1 t))"

definition get_by_idempotency_key :: "time \<Rightarrow> string \<Rightarrow> callbacks \<Rightarrow> callback_record option \<times> callbacks" where
  "get_by_idempotency_key now key t = (case dget (ct_index t) key of
     None \<Rightarrow> (None, t) | Some i \<Rightarrow> if i = [] then (None, t) else get_callback now i t)"

subsection \<open>Tokens\<close>

record token_source =
  ts_name :: string
  ts_env_var :: string
  ts_precedence :: int
  ts_required :: bool
  ts_redaction :: string

record token_result =
  tr_valid :: bool
  tr_source_name :: string
  tr_masked_value :: string
  tr_raw_value :: string

definition to_public_dict :: "token_result \<Rightarrow> json" where
  "to_public_dict r = JObj [(''validity'', JStr (if tr_valid r then ''valid'' else ''missing'')), (''source_name'', JStr (tr_source_name r)),
     (''masked_value'', JStr (tr_masked_value r))]"

definition mask_token :: "string \<Rightarrow> string \<Rightarrow> string" where
  "mask_token value pat = (if length value \<le> 8 then pat else take 4 value @ pat @ take_last 2 value)"

definition make_sources :: "token_source list \<Rightarrow> token_source list" where
  "make_sources = sort_key ts_precedence"

fun resolve_token :: "(string \<Rightarrow> string option) \<Rightarrow> token_source list \<Rightarrow> token_result" where
  "resolve_token env [] = \<lparr>tr_valid = False, tr_source_name = [], tr_masked_value = [], tr_raw_value = []\<rparr>"
| "resolve_token env (s # ss) = (let value = py_strip (case env (ts_env_var s) of None \<Rightarrow> [] | Some v \<Rightarrow> v) in
     if value \<noteq> [] then \<lparr>tr_valid = True, tr_source_name = ts_name s, tr_masked_value = mask_token value (ts_redaction s), tr_raw_value = value\<rparr>
     else resolve_token env ss)"

text \<open>The error names the sources that were looked at.\<close>

definition validate_or_reject :: "(string \<Rightarrow> string option) \<Rightarrow> token_source list \<Rightarrow> string list + token_result" where
  "validate_or_reject env ss = (let r = resolve_token env ss; required = filter ts_required ss in
     if \<not> tr_valid r \<and> required \<noteq> [] then Inl (map ts_env_var required) else Inr r)"

definition precedence_table :: "token_source list \<Rightarrow> (int \<times> string \<times> string \<times> bool) list" where
  "precedence_table = map (\<lambda>s. (ts_precedence s, ts_name s, ts_env_var s, ts_required s))"

subsection \<open>Retries and answers\<close>

record retry_policy =
  ry_max_retries :: int
  ry_initial_delay_sec :: real
  ry_max_delay_sec :: real
  ry_backoff_factor :: real
  ry_retry_on_status :: "int set"

definition default_retry_policy :: retry_policy where
  "default_retry_policy = \<lparr>ry_max_retries = 3, ry_initial_delay_sec = 1, ry_max_delay_sec = 30, ry_backoff_factor = 2,
     ry_retry_on_status = {408, 429, 500, 502, 503, 504}\<rparr>"

definition compute_delay :: "retry_policy \<Rightarrow> nat \<Rightarrow> real" where
  "compute_delay p attempt = (if int attempt \<ge> ry_max_retries p then -1
     else min (ry_initial_delay_sec p * ry_backoff_factor p ^ attempt) (ry_max_delay_sec p))"

definition should_retry :: "retry_policy \<Rightarrow> nat \<Rightarrow> int option \<Rightarrow> bool" where
  "should_retry p attempt status = (if int attempt \<ge> ry_max_retries p then False
     else case status of None \<Rightarrow> True | Some c \<Rightarrow> c \<in> ry_retry_on_status p)"

datatype relay_status = RELAY_OK | RELAY_TRANSIENT | RELAY_AUTH_INVALID | RELAY_SERVER_ERROR

definition classify_relay :: "int \<Rightarrow> relay_status" where
  "classify_relay code = (if 200 \<le> code \<and> code < 300 then RELAY_OK
     else if code \<in> {401, 410} then RELAY_AUTH_INVALID
     else if code \<in> {408, 429, 500, 502, 503, 504} then RELAY_TRANSIENT
     else RELAY_SERVER_ERROR)"

definition is_auth_invalid :: "int \<Rightarrow> bool" where
  "is_auth_invalid code \<longleftrightarrow> code \<in> {401, 410}"

subsection \<open>Sessions over time\<close>

datatype session_op = New_session string string "int option" "(string \<times> json) list option"
  | Activate_session string | Expire_session string | Revoke_session string | Get_session string

text \<open>An identifier is drawn once: a session is never created over another.\<close>

fun session_step :: "time \<times> session_op \<Rightarrow> session_table \<Rightarrow> session_table" where
  "session_step (now, New_session hex p ttl meta) t = (if dget (st_sessions t) hex \<noteq> None then t else snd (create_session now hex p ttl meta t))"
| "session_step (now, Activate_session i) t = snd (activate_session now i t)"
| "session_step (now, Expire_session i) t = snd (expire_session now i t)"
| "session_step (now, Revoke_session i) t = snd (revoke_session now i t)"
| "session_step (now, Get_session i) t = snd (get_session now i t)"

definition session_wf :: "session_info \<Rightarrow> bool" where
  "session_wf s \<longleftrightarrow> (si_state s = S_ACTIVE \<longrightarrow> si_activated_at s \<noteq> None)
     \<and> (si_state s \<in> {S_PENDING, S_ACTIVE} \<longrightarrow> si_revoked_at s = None \<and> si_expired_at s = None)"

definition sessions_ok :: "session_table \<Rightarrow> bool" where
  "sessions_ok t \<longleftrightarrow> (\<forall>i s. dget (st_sessions t) i = Some s \<longrightarrow> session_wf s)"

lemmas session_moves = activate_session_def expire_session_def revoke_session_def

lemma move_session_cases:
  "snd (move_session target stamp i t) = t
   \<or> (\<exists>s. dget (st_sessions t) i = Some s \<and> target \<in> set (valid_transitions (si_state s))
       \<and> snd (move_session target stamp i t) = t\<lparr>st_sessions := dput i (stamp (s\<lparr>si_state := target\<rparr>)) (st_sessions t)\<rparr>)"
  by (auto simp: move_session_def session_transition_def split: option.split)

lemma activation_from [simp]: "S_ACTIVE \<in> set (valid_transitions st) \<longleftrightarrow> st = S_PENDING"
  by (cases st) auto

lemma move_session_ok:
  assumes "sessions_ok t"
    and "\<And>s. session_wf s \<Longrightarrow> target \<in> set (valid_transitions (si_state s)) \<Longrightarrow> session_wf (stamp (s\<lparr>si_state := target\<rparr>))"
  shows "sessions_ok (snd (move_session target stamp i t))"
  using move_session_cases [of target stamp i t] assms by (auto simp: sessions_ok_def dget_dput split: if_splits)

lemma session_step_ok: "sessions_ok t \<Longrightarrow> sessions_ok (session_step op' t)"
proof (induction op' t rule: session_step.induct)
  case (1 now hex p ttl meta t)
  then show ?case by (auto simp: sessions_ok_def create_session_def Let_def dget_dput session_wf_def)
next
  case (2 now i t)
  then show ?case unfolding session_step.simps session_moves
    by (intro move_session_ok) (auto simp: session_wf_def)
next
  case (3 now i t)
  then show ?case unfolding session_step.simps session_moves by (intro move_session_ok) (auto simp: session_wf_def)
next
  case (4 now i t)
  then show ?case unfolding session_step.simps session_moves by (intro move_session_ok) (auto simp: session_wf_def)
next
  case (5 now i t)
  then show ?case by (auto simp: get_session_def sessions_ok_def Let_def dget_dput session_wf_def split: option.split)
qed

interpretation session_runs: machine session_step sessions_ok
  by unfold_locales (rule session_step_ok)

definition session_ended :: "string \<Rightarrow> session_state \<Rightarrow> session_table \<Rightarrow> bool" where
  "session_ended i st t \<longleftrightarrow> st \<in> {S_EXPIRED, S_REVOKED} \<and> (\<exists>s. dget (st_sessions t) i = Some s \<and> si_state s = st)"

lemma session_step_ended: "session_ended i st t \<Longrightarrow> session_ended i st (session_step op' t)"
proof (induction op' t rule: session_step.induct)
  case (1 now hex p ttl meta t)
  then show ?case by (auto simp: session_ended_def create_session_def Let_def dget_dput)
next
  case (5 now j t)
  then show ?case by (auto simp: session_ended_def get_session_def Let_def dget_dput split: option.split)
qed (auto simp: session_ended_def session_moves move_session_def session_transition_def dget_dput split: option.split)

text \<open>From an empty table, an active session was activated, is within its time to live, and was neither revoked nor expired.\<close>

lemma active_session:
  assumes "st_sessions t0 = []" and "t = fold session_step ops t0" and "fst (is_active_session now i t)"
  shows "\<exists>s. dget (st_sessions t) i = Some s \<and> si_activated_at s \<noteq> None \<and> si_revoked_at s = None
      \<and> si_expired_at s = None \<and> now - si_created_at s \<le> of_int (si_ttl_sec s)"
proof -
  have ok: "sessions_ok t" unfolding assms(2) by (rule session_runs.run_inv) (simp add: sessions_ok_def assms(1))
  obtain s where s: "dget (st_sessions t) i = Some s" "si_state s = S_ACTIVE" "now - si_created_at s \<le> of_int (si_ttl_sec s)"
    using assms(3) by (auto simp: is_active_session_def get_session_def Let_def split: option.splits if_splits)
  then show ?thesis using ok by (auto simp: sessions_ok_def session_wf_def)
qed

text \<open>
  A session that has expired or was revoked is never active again, whatever sequence of creations,
  activations, expiries, revocations and lookups follows.
\<close>

theorem ended_session_stays:
  assumes "dget (st_sessions t) i = Some s" and "si_state s \<in> {S_EXPIRED, S_REVOKED}"
  shows "\<not> fst (is_active_session now i (fold session_step ops t))"
proof -
  have "session_ended i (si_state s) t" using assms by (simp add: session_ended_def)
  then have "session_ended i (si_state s) (fold session_step ops t)" by (induction ops arbitrary: t) (simp_all add: session_step_ended)
  then show ?thesis by (auto simp: session_ended_def is_active_session_def get_session_def Let_def)
qed

definition demo_session :: session_info where
  "demo_session = \<lparr>si_session_id = ''s'', si_platform = ''slack'', si_state = S_REVOKED, si_created_at = 0, si_activated_at = Some 1, si_expired_at = None,
     si_revoked_at = Some 2, si_ttl_sec = 86400, si_metadata = []\<rparr>"

theorem ended_session_stays_witness:
  "\<not> fst (is_active_session 5 ''s'' (fold session_step [(3, New_session ''s'' ''x'' None None), (4, Activate_session ''s'')]
      \<lparr>st_sessions = [(''s'', demo_session)], st_default_ttl = 86400\<rparr>))"
  by (rule ended_session_stays [where s = demo_session]) (simp, simp add: demo_session_def)

subsection \<open>Callbacks over time\<close>

datatype callback_op = New_callback string string "(string \<times> json) list" "int option" "bool option" bool "(string \<times> json) list"
  | Ack_callback string | Deliver_callback string | Attempt_callback string | Get_callback string | Get_by_key string

text \<open>The answer is whether the call delivered; an identifier is drawn once.\<close>

fun callback_do :: "(json \<Rightarrow> string) \<Rightarrow> time \<Rightarrow> callback_op \<Rightarrow> callbacks \<Rightarrow> bool \<times> callbacks" where
  "callback_do hash now (New_callback hex key payload ttl req direct meta) t =
     (if dget (ct_records t) hex \<noteq> None then (False, t) else (False, snd (create_callback hash now hex key payload ttl req direct meta t)))"
| "callback_do hash now (Ack_callback i) t = (False, snd (acknowledge_callback now i t))"
| "callback_do hash now (Deliver_callback i) t = (let (r, t') = deliver_callback now i t in (case r of Inl _ \<Rightarrow> False | Inr _ \<Rightarrow> True, t'))"
| "callback_do hash now (Attempt_callback i) t = (False, snd (record_attempt i t))"
| "callback_do hash now (Get_callback i) t = (False, snd (get_callback now i t))"
| "callback_do hash now (Get_by_key k) t = (False, snd (get_by_idempotency_key now k t))"

fun callback_key :: "callback_op \<Rightarrow> string option" where
  "callback_key (Deliver_callback i) = Some i"
| "callback_key _ = None"

text \<open>
  The records are filed under their own identifiers, and a record that was acknowledged was so
  within its window.
\<close>

definition callback_wf :: "int \<Rightarrow> callback_record \<Rightarrow> bool" where
  "callback_wf window r \<longleftrightarrow> (cb_state r = C_ACKNOWLEDGED \<longrightarrow> (\<exists>a. cb_acknowledged_at r = Some a \<and> a - cb_created_at r \<le> of_int window))"

definition callbacks_ok :: "callbacks \<Rightarrow> bool" where
  "callbacks_ok t \<longleftrightarrow> (\<forall>i r. dget (ct_records t) i = Some r \<longrightarrow> cb_callback_id r = i \<and> callback_wf (ct_ack_window_sec t) r)"

definition callback_over :: "callbacks \<Rightarrow> string option \<Rightarrow> bool" where
  "callback_over t k \<longleftrightarrow> (case k of None \<Rightarrow> False | Some i \<Rightarrow>
     (case dget (ct_records t) i of None \<Rightarrow> False | Some r \<Rightarrow> cb_state r \<in> {C_DELIVERED, C_EXPIRED, C_FAILED}))"

lemma put_callback_simps [simp]:
  "ct_records (put_callback r t) = dput (cb_callback_id r) r (ct_records t)" "ct_ack_window_sec (put_callback r t) = ct_ack_window_sec t"
  by (simp_all add: put_callback_def)

lemma expire_record_simps [simp]:
  "cb_callback_id (expire_record now r) = cb_callback_id r" "cb_state (expire_record now r) = C_EXPIRED"
  "cb_callback_id (expire_if_needed w now r) = cb_callback_id r" "cb_created_at (expire_if_needed w now r) = cb_created_at r"
  "cb_require_ack (expire_if_needed w now r) = cb_require_ack r" "cb_acknowledged_at (expire_if_needed w now r) = cb_acknowledged_at r"
  by (simp_all add: expire_record_def expire_if_needed_def Let_def)

lemma expire_over: "cb_state r \<in> {C_DELIVERED, C_EXPIRED, C_FAILED} \<Longrightarrow> expire_if_needed w now r = r"
  by (simp add: expire_if_needed_def)

lemma expire_wf: "callback_wf w r \<Longrightarrow> callback_wf w (expire_if_needed v now r)"
  by (simp add: callback_wf_def expire_if_needed_def expire_record_def Let_def)

lemma expire_pending: "cb_state (expire_if_needed w now r) = C_PENDING \<Longrightarrow> cb_state r = C_PENDING"
  by (auto simp: expire_if_needed_def Let_def split: if_splits)

lemma over_wf: "cb_state r \<noteq> C_ACKNOWLEDGED \<Longrightarrow> callback_wf w r"
  by (simp add: callback_wf_def)

lemma callbacks_ok_put: "callbacks_ok t \<Longrightarrow> callback_wf (ct_ack_window_sec t) r \<Longrightarrow> callbacks_ok (put_callback r t)"
  by (auto simp: callbacks_ok_def dget_dput)

text \<open>One call on a record: it is untouched, or replaced by one that keeps the invariant and does not come back to life.\<close>

definition callback_moved :: "callbacks \<Rightarrow> callbacks \<Rightarrow> bool" where
  "callback_moved t t' \<longleftrightarrow> t' = t \<or> (\<exists>r r'. dget (ct_records t) (cb_callback_id r) = Some r \<and> cb_callback_id r' = cb_callback_id r
     \<and> callback_wf (ct_ack_window_sec t) r' \<and> (cb_state r \<in> {C_DELIVERED, C_EXPIRED, C_FAILED} \<longrightarrow> cb_state r' \<in> {C_DELIVERED, C_EXPIRED, C_FAILED})
     \<and> t' = put_callback r' t)"

lemma callback_movedI:
  assumes "callbacks_ok t" and "dget (ct_records t) i = Some r" and "cb_callback_id r' = cb_callback_id r" and "callback_wf (ct_ack_window_sec t) r'"
    and "cb_state r \<in> {C_DELIVERED, C_EXPIRED, C_FAILED} \<longrightarrow> cb_state r' \<in> {C_DELIVERED, C_EXPIRED, C_FAILED}"
  shows "callback_moved t (put_callback r' t)"
proof -
  have "cb_callback_id r = i" using assms(1,2) by (simp add: callbacks_ok_def)
  then show ?thesis using assms by (auto simp: callback_moved_def)
qed

lemma calls_move:
  assumes "callbacks_ok t"
  shows "callback_moved t (snd (acknowledge_callback now i t))" and "callback_moved t (snd (deliver_callback now i t))"
    and "callback_moved t (snd (record_attempt i t))" and "callback_moved t (snd (get_callback now i t))"
    and "callback_moved t (snd (get_by_idempotency_key now k t))"
proof -
  have wf: "callback_wf (ct_ack_window_sec t) r" if "dget (ct_records t) j = Some r" for j r using assms that by (simp add: callbacks_ok_def)
  have over: "cb_state (expire_if_needed w now r) = cb_state r" if "cb_state r \<in> {C_DELIVERED, C_EXPIRED, C_FAILED}" for w r
    using that by (simp add: expire_over)
  have refl: "callback_moved t t" by (simp add: callback_moved_def)
  show get: "callback_moved t (snd (get_callback now i t))" for i
    using expire_wf [OF wf] over by (cases "dget (ct_records t) i") (auto simp: get_callback_def Let_def refl intro!: callback_movedI [OF assms])
  show "callback_moved t (snd (get_by_idempotency_key now k t))"
    using get by (simp add: get_by_idempotency_key_def refl split: option.split)
  show "callback_moved t (snd (record_attempt i t))"
  proof (cases "dget (ct_records t) i")
    case (Some r)
    then show ?thesis using wf [OF Some]
      by (auto simp: record_attempt_def Let_def callback_wf_def intro!: callback_movedI [OF assms Some])
  qed (simp add: record_attempt_def refl)
  show "callback_moved t (snd (deliver_callback now i t))"
  proof (cases "dget (ct_records t) i")
    case (Some r)
    note w = expire_wf [OF wf [OF Some]] and o = over [of r]
    show ?thesis using w o
      by (auto simp: deliver_callback_def Let_def Some over_wf intro!: callback_movedI [OF assms Some])
  qed (simp add: deliver_callback_def refl)
  show "callback_moved t (snd (acknowledge_callback now i t))"
  proof (cases "dget (ct_records t) i")
    case (Some r)
    note w = expire_wf [OF wf [OF Some]] and o = over [of r]
    show ?thesis using w o
      by (auto simp: acknowledge_callback_def Let_def Some over_wf callback_wf_def dest: expire_pending intro!: callback_movedI [OF assms Some])
  qed (simp add: acknowledge_callback_def refl)
qed

lemma callback_do_moves:
  assumes "callbacks_ok t"
  obtains (call) "callback_moved t (snd (callback_do hash now e t))"
  | (new) hex key payload ttl req direct meta where "e = New_callback hex key payload ttl req direct meta" "dget (ct_records t) hex = None"
proof (cases e)
  case (New_callback hex key payload ttl req direct meta)
  then show ?thesis by (cases "dget (ct_records t) hex") (auto simp: callback_moved_def intro: call new)
next
  case (Deliver_callback i)
  have "snd (callback_do hash now e t) = snd (deliver_callback now i t)" by (simp add: Deliver_callback split: prod.split)
  then show ?thesis using calls_move(2) [OF assms] by (intro call) simp
qed (use calls_move [OF assms] in \<open>auto intro: call\<close>)

lemma new_callback_simps:
  "cb_callback_id (new_callback hash now hex key payload ttl pol meta t) = hex" "cb_state (new_callback hash now hex key payload ttl pol meta t) = C_PENDING"
  by (simp_all add: new_callback_def)

lemma created_records:
  obtains (kept) "snd (create_callback hash now hex key payload ttl req direct meta t) = t"
  | (made) r t' where "snd (create_callback hash now hex key payload ttl req direct meta t) = t'" "cb_callback_id r = hex" "cb_state r = C_PENDING"
      "ct_records t' = dput hex r (ct_records t)" "ct_ack_window_sec t' = ct_ack_window_sec t"
proof (cases "resolve_ack_policy req direct")
  case (Inl e)
  then show ?thesis by (intro kept) (simp add: create_callback_def)
next
  case (Inr pol)
  show ?thesis
  proof (cases "find_existing key t")
    case None
    show ?thesis
      by (rule made [OF refl, of "new_callback hash now hex key payload ttl pol meta t"])
        (simp_all add: create_callback_def Inr None Let_def new_callback_simps)
  qed (use Inr in \<open>intro kept, simp add: create_callback_def\<close>)
qed

lemma callback_do_ok:
  assumes "callbacks_ok t"
  shows "callbacks_ok (snd (callback_do hash now e t))"
  using assms
proof (cases rule: callback_do_moves [of t hash now e, consumes 1, case_names call new])
  case call
  then show ?thesis using assms callbacks_ok_put by (auto simp: callback_moved_def)
next
  case (new hex key payload ttl req direct meta)
  then show ?thesis
    by (cases rule: created_records [of hash now hex key payload ttl req direct meta t])
      (use assms in \<open>auto simp: callbacks_ok_def dget_dput over_wf\<close>)
qed

lemma callback_overE:
  assumes "callback_over t k"
  obtains i r where "k = Some i" and "dget (ct_records t) i = Some r" and "cb_state r \<in> {C_DELIVERED, C_EXPIRED, C_FAILED}"
  using assms by (auto simp: callback_over_def split: option.splits)

lemma callback_do_over:
  assumes "callbacks_ok t" and "callback_over t k"
  shows "callback_over (snd (callback_do hash now e t)) k"
proof -
  obtain i r where i: "k = Some i" "dget (ct_records t) i = Some r" "cb_state r \<in> {C_DELIVERED, C_EXPIRED, C_FAILED}"
    using assms(2) by (rule callback_overE)
  show ?thesis using assms(1)
  proof (cases rule: callback_do_moves [of t hash now e, consumes 1, case_names call new])
    case call
    then show ?thesis
    proof (cases "snd (callback_do hash now e t) = t")
      case False
      with call obtain u u' where u: "dget (ct_records t) (cb_callback_id u) = Some u" "cb_callback_id u' = cb_callback_id u"
        "cb_state u \<in> {C_DELIVERED, C_EXPIRED, C_FAILED} \<longrightarrow> cb_state u' \<in> {C_DELIVERED, C_EXPIRED, C_FAILED}"
        "snd (callback_do hash now e t) = put_callback u' t" unfolding callback_moved_def by blast
      then show ?thesis using i by (cases "i = cb_callback_id u") (auto simp: callback_over_def dget_dput)
    qed (use assms(2) in simp)
  next
    case (new hex key payload ttl req direct meta)
    then have n: "i \<noteq> hex" using i(2) by auto
    show ?thesis
      by (cases rule: created_records [of hash now hex key payload ttl req direct meta t])
        (use assms(2) i n new in \<open>simp_all add: callback_over_def dget_dput\<close>)
  qed
qed

lemma callback_delivers:
  assumes "callbacks_ok t" and "fst (callback_do hash now e t)"
  obtains i r where "e = Deliver_callback i" and "dget (ct_records t) i = Some r" and "cb_state r \<notin> {C_DELIVERED, C_EXPIRED, C_FAILED}"
    and "cb_require_ack r \<longrightarrow> cb_state r = C_ACKNOWLEDGED" and "now - cb_created_at r \<le> of_int (cb_ttl_sec r)"
    and "callback_over (snd (callback_do hash now e t)) (Some i)"
proof -
  obtain i where e: "e = Deliver_callback i" using assms(2) by (cases e) (auto split: if_splits)
  then obtain r where r: "dget (ct_records t) i = Some r" using assms(2) by (auto simp: deliver_callback_def split: option.splits)
  have i: "cb_callback_id r = i" using assms(1) r by (simp add: callbacks_ok_def)
  let ?r = "expire_if_needed (ct_ack_window_sec t) now r"
  have st: "cb_state ?r \<in> {C_PENDING, C_ACKNOWLEDGED}" "cb_require_ack r \<longrightarrow> cb_state ?r \<noteq> C_PENDING"
    using assms(2) by (auto simp: e deliver_callback_def r Let_def split: if_splits)
  then have same: "?r = r" and live: "now - cb_created_at r \<le> of_int (cb_ttl_sec r)"
    by (auto simp: expire_if_needed_def expire_record_def Let_def split: if_splits)
  show ?thesis
  proof (rule that [OF e r])
    show "cb_state r \<notin> {C_DELIVERED, C_EXPIRED, C_FAILED}" "cb_require_ack r \<longrightarrow> cb_state r = C_ACKNOWLEDGED" using st same by auto
    show "callback_over (snd (callback_do hash now e t)) (Some i)"
      using st same i by (auto simp: e deliver_callback_def r Let_def callback_over_def dget_dput)
  qed (rule live)
qed

interpretation callback_gate: once_gate "callback_do hash" "\<lambda>_. callback_key" "\<lambda>_. callback_over" callbacks_ok "\<lambda>_. True" ttl for hash ttl
proof unfold_locales
  show "callbacks_ok t \<Longrightarrow> callbacks_ok (snd (callback_do hash now e t))" for t now e by (rule callback_do_ok)
  show "\<not> fst (callback_do hash now e t)" if "callbacks_ok t" "callback_over t (callback_key e)" for t now e
    using that callback_delivers [OF that(1), of hash now e] by (fastforce simp: callback_over_def)
  show "callback_over (snd (callback_do hash now e t)) k" if "callbacks_ok t" "callback_over t k" for t now e k
    by (rule callback_do_over [OF that])
  show "callback_over (snd (callback_do hash now e t)) (callback_key e)" if "callbacks_ok t" "fst (callback_do hash now e t)" for t now e
    using callback_delivers [OF that] by fastforce
qed

lemma all_true [simp]: "all_states (\<lambda>_. True) outs"
  by (simp add: all_states_def)

text \<open>
  A callback, as an identifier drawn by a creation, is delivered at most once, whatever creations,
  acknowledgements, deliveries, attempts and lookups come in whatever order. (The same idempotency key
  may be delivered again under a new identifier: \<open>redelivered_after_attempts\<close>.)
\<close>

theorem callback_delivered_once:
  assumes "callbacks_ok t" and "sorted (map fst cs)"
  shows "accepted (\<lambda>_. callback_key) (Some i) cs (claim_run (callback_do hash) cs t) \<le> 1"
proof (cases cs)
  case (Cons c cs')
  let ?a = "fst c" and ?b = "last (map fst cs)"
  have "\<forall>(u, e) \<in> set cs. ?a \<le> u \<and> u < ?a + (?b - ?a + 1)"
  proof (clarsimp)
    fix u e assume u: "(u, e) \<in> set cs"
    then have "u \<in> set (map fst cs)" by force
    then obtain n where n: "n < length cs" "map fst cs ! n = u" by (auto simp: in_set_conv_nth)
    have "map fst cs ! 0 \<le> map fst cs ! n" by (rule sorted_nth_mono [OF assms(2)]) (use n in simp_all)
    moreover have "map fst cs ! n \<le> map fst cs ! (length cs - 1)" by (rule sorted_nth_mono [OF assms(2)]) (use n in simp_all)
    ultimately show "?a \<le> u \<and> u < ?b + 1" using n Cons last_conv_nth [of "map fst cs"] by auto
  qed
  then show ?thesis by (rule callback_gate.at_most_once [OF assms(1) all_true assms(2)])
qed auto

text \<open>
  In strict mode a delivery means that the callback was acknowledged within its window, and that
  its time to live is not over.
\<close>

theorem strict_delivery_acknowledged:
  assumes "callbacks_ok t" and "deliver_callback now i t = (Inr r, t')" and "cb_require_ack r"
  shows "\<exists>a. cb_acknowledged_at r = Some a \<and> a - cb_created_at r \<le> of_int (ct_ack_window_sec t) \<and> now - cb_created_at r \<le> of_int (cb_ttl_sec r)"
proof -
  have "fst (callback_do (\<lambda>_. []) now (Deliver_callback i) t)" using assms(2) by simp
  from callback_delivers [OF assms(1) this] obtain u where u: "dget (ct_records t) i = Some u" "cb_require_ack u \<longrightarrow> cb_state u = C_ACKNOWLEDGED"
    "now - cb_created_at u \<le> of_int (cb_ttl_sec u)" "cb_state u \<notin> {C_DELIVERED, C_EXPIRED, C_FAILED}" by auto
  have "callback_wf (ct_ack_window_sec t) u" using assms(1) u(1) by (simp add: callbacks_ok_def)
  moreover have "cb_created_at r = cb_created_at u \<and> cb_require_ack r = cb_require_ack u \<and> cb_acknowledged_at r = cb_acknowledged_at u \<and> cb_ttl_sec r = cb_ttl_sec u"
    using assms(2) u(1) by (auto simp: deliver_callback_def Let_def expire_if_needed_def expire_record_def split: if_splits)
  ultimately show ?thesis using u assms(3) by (auto simp: callback_wf_def)
qed

definition demo_callbacks :: callbacks where
  "demo_callbacks = snd (create_callback (\<lambda>_. ''h'') 0 ''c1'' ''k'' [] None None False [] (make_callbacks 3 300 3))"

definition demo_acked :: callbacks where
  "demo_acked = snd (acknowledge_callback 1 ''c1'' demo_callbacks)"

lemma demo_callbacks_ok: "callbacks_ok demo_callbacks" "callbacks_ok demo_acked"
proof -
  have "callbacks_ok (make_callbacks 3 300 3)" by (simp add: callbacks_ok_def make_callbacks_def)
  then have "callbacks_ok (snd (callback_do (\<lambda>_. ''h'') 0 (New_callback ''c1'' ''k'' [] None None False []) (make_callbacks 3 300 3)))" by (rule callback_do_ok)
  then show c: "callbacks_ok demo_callbacks" by (simp add: demo_callbacks_def make_callbacks_def)
  show "callbacks_ok demo_acked" using callback_do_ok [OF c, of "\<lambda>_. []" 1 "Ack_callback ''c1''"] by (simp add: demo_acked_def)
qed

theorem callback_delivered_once_witness:
  "accepted (\<lambda>_. callback_key) (Some ''c1'') [(1, Ack_callback ''c1''), (2, Deliver_callback ''c1''), (3, Deliver_callback ''c1'')]
     (claim_run (callback_do (\<lambda>_. ''h'')) [(1, Ack_callback ''c1''), (2, Deliver_callback ''c1''), (3, Deliver_callback ''c1'')] demo_callbacks) \<le> 1"
  by (rule callback_delivered_once [OF demo_callbacks_ok(1)]) simp

theorem strict_delivery_acknowledged_witness:
  "\<exists>r t' a. deliver_callback 2 ''c1'' demo_acked = (Inr r, t') \<and> cb_acknowledged_at r = Some a \<and> a - cb_created_at r \<le> 3"
proof -
  have "case deliver_callback 2 ''c1'' demo_acked of (Inr r, _) \<Rightarrow> cb_require_ack r | _ \<Rightarrow> False" by code_simp
  then obtain r t' where d: "deliver_callback 2 ''c1'' demo_acked = (Inr r, t')" "cb_require_ack r" by (auto split: prod.splits sum.splits)
  moreover have "ct_ack_window_sec demo_acked = 3" by code_simp
  ultimately show ?thesis using strict_delivery_acknowledged [OF demo_callbacks_ok(2) d] by auto
qed

text \<open>
  The cap of attempts also fails a callback that was delivered: its idempotency key then makes
  a new callback, and that one is delivered again.
\<close>

lemma redelivered_after_attempts:
  "case create_callback (\<lambda>_. ''h'') 5 ''c2'' ''k'' [] None None False []
      (snd (record_attempt ''c1'' (snd (record_attempt ''c1'' (snd (deliver_callback 2 ''c1'' demo_acked)))))) of
     (Inr r, t) \<Rightarrow> cb_callback_id r = ''c2'' \<and> (case deliver_callback 7 ''c2'' (snd (acknowledge_callback 6 ''c2'' t)) of (Inr _, _) \<Rightarrow> True | _ \<Rightarrow> False)
   | _ \<Rightarrow> False"
  by code_simp

subsection \<open>Tokens in public\<close>

text \<open>
  Two tokens that a reader of the public view cannot tell apart: both too short to be shown, or with
  the same first four and last two characters.
\<close>

definition looks_like :: "string \<Rightarrow> string \<Rightarrow> bool" where
  "looks_like v w \<longleftrightarrow> (v = [] \<longleftrightarrow> w = []) \<and> (length v \<le> 8 \<longleftrightarrow> length w \<le> 8)
     \<and> (length v > 8 \<longrightarrow> take 4 v = take 4 w \<and> take_last 2 v = take_last 2 w)"

text \<open>
  The public view of the resolved token shows at most its first four and last two characters: it is
  the same for any two environments whose tokens agree in these, whatever the sources.
\<close>

theorem public_token_redacted:
  assumes "\<And>x. looks_like (py_strip (case env x of None \<Rightarrow> [] | Some v \<Rightarrow> v)) (py_strip (case env' x of None \<Rightarrow> [] | Some v \<Rightarrow> v))"
  shows "to_public_dict (resolve_token env ss) = to_public_dict (resolve_token env' ss)"
proof (induction ss)
  case (Cons s ss)
  have "mask_token v p = mask_token w p" if "looks_like v w" for v w p using that by (auto simp: looks_like_def mask_token_def)
  then show ?case using Cons assms [of "ts_env_var s"] by (auto simp: to_public_dict_def Let_def looks_like_def)
qed auto

theorem public_token_redacted_witness:
  "to_public_dict (resolve_token [''T'' \<mapsto> ''abcd-secret-yz''] [\<lparr>ts_name = ''t'', ts_env_var = ''T'', ts_precedence = 0, ts_required = True, ts_redaction = ''***''\<rparr>])
   = to_public_dict (resolve_token [''T'' \<mapsto> ''abcd-other-yz''] [\<lparr>ts_name = ''t'', ts_env_var = ''T'', ts_precedence = 0, ts_required = True, ts_redaction = ''***''\<rparr>])"
proof (rule public_token_redacted)
  have "looks_like (py_strip ''abcd-secret-yz'') (py_strip ''abcd-other-yz'')" "looks_like (py_strip []) (py_strip [])" by code_simp+
  then show "looks_like (py_strip (case [''T'' \<mapsto> ''abcd-secret-yz''] x of None \<Rightarrow> [] | Some v \<Rightarrow> v)) (py_strip (case [''T'' \<mapsto> ''abcd-other-yz''] x of None \<Rightarrow> [] | Some v \<Rightarrow> v))" for x
    by (cases "x = ''T''") simp_all
qed

text \<open>A token that is required and missing is refused; else the first source in order of precedence that has one gives it.\<close>

lemma token_chosen:
  "resolve_token env ss = r \<Longrightarrow> tr_valid r \<Longrightarrow>
     \<exists>pre s post. ss = pre @ s # post \<and> (\<forall>u \<in> set pre. py_strip (case env (ts_env_var u) of None \<Rightarrow> [] | Some v \<Rightarrow> v) = [])
       \<and> tr_raw_value r = py_strip (case env (ts_env_var s) of None \<Rightarrow> [] | Some v \<Rightarrow> v) \<and> tr_source_name r = ts_name s"
proof (induction ss)
  case (Cons s ss)
  show ?case
  proof (cases "py_strip (case env (ts_env_var s) of None \<Rightarrow> [] | Some v \<Rightarrow> v) = []")
    case True
    then have "resolve_token env ss = r" using Cons.prems(1) by (simp add: Let_def)
    then obtain pre u post where "ss = pre @ u # post" "\<forall>w \<in> set pre. py_strip (case env (ts_env_var w) of None \<Rightarrow> [] | Some v \<Rightarrow> v) = []"
      "tr_raw_value r = py_strip (case env (ts_env_var u) of None \<Rightarrow> [] | Some v \<Rightarrow> v)" "tr_source_name r = ts_name u" using Cons by blast
    then show ?thesis using True by (intro exI [of _ "s # pre"] exI [of _ u] exI [of _ post]) simp
  next
    case False
    then show ?thesis using Cons.prems by (intro exI [of _ "[]"] exI [of _ s] exI [of _ ss]) (auto simp: Let_def)
  qed
qed auto

subsection \<open>Delays and the event stream\<close>

text \<open>Delays never exceed the cap, and there are at most \<open>max_retries\<close> of them.\<close>

lemma delay_bounds:
  "0 \<le> ry_initial_delay_sec p \<Longrightarrow> 0 \<le> ry_max_delay_sec p \<Longrightarrow> 0 \<le> ry_backoff_factor p \<Longrightarrow> should_retry p n st \<Longrightarrow>
   0 \<le> compute_delay p n \<and> compute_delay p n \<le> ry_max_delay_sec p \<and> int n < ry_max_retries p"
  by (simp add: compute_delay_def should_retry_def split: if_splits)

text \<open>The jitter is added after the cap.\<close>

lemma jitter_exceeds_cap:
  "compute_delay_ms \<lparr>rp_initial_delay_ms = 1000, rp_max_delay_ms = 30000, rp_jitter_ms = 500, rp_max_retries = 10\<rparr> 9 500 = 30500"
  by (simp add: compute_delay_ms_def)

text \<open>With a positive cap the buffer is bounded; with the cap zero it never drops anything.\<close>

lemma stream_bounded: "0 < ev_max_buffer s \<Longrightarrow> int (length (ev_buffer (snd (emit_event now i ty d s)))) \<le> ev_max_buffer s"
  by (auto simp: emit_event_def Let_def py_tail_def)

lemma zero_cap_unbounded: "ev_max_buffer s = 0 \<Longrightarrow> ev_buffer (snd (emit_event now i ty d s)) = ev_buffer s @ [fst (emit_event now i ty d s)]"
  by (simp add: emit_event_def Let_def py_tail_def)

text \<open>A replay from an event that is still buffered returns exactly the events after it.\<close>

lemma replay_after: "ev_buffer s = pre @ e # post \<Longrightarrow> \<forall>u \<in> set pre. se_event_id u \<noteq> se_event_id e \<Longrightarrow> replay_from (se_event_id e) s = post"
proof -
  have "\<forall>u \<in> set pre. se_event_id u \<noteq> se_event_id e \<Longrightarrow> events_after (se_event_id e) (pre @ e # post) = Some post" for pre
    by (induction pre) simp_all
  then show "ev_buffer s = pre @ e # post \<Longrightarrow> \<forall>u \<in> set pre. se_event_id u \<noteq> se_event_id e \<Longrightarrow> replay_from (se_event_id e) s = post"
    by (simp add: replay_from_def)
qed

end
