(* ===== verification/Secret_Store.thy ===== *)
theory Secret_Store
  imports Tenant Contracts
begin

text \<open>
  \<open>services/secret_store.py\<close>: the store of secrets, kept encrypted in one file, with one key per
  tenant and provider. The authenticated encryption under the key of the process is a pair of
  functions; a file that does not decode is \<open>SF_broken\<close>.
\<close>

subsection \<open>The store and its files\<close>

record 'e cipher =
  cp_encrypt :: "(string, string) dict \<Rightarrow> 'e"
  cp_decrypt :: "'e \<Rightarrow> (string, string) dict option"

datatype 'e secret_file = SF_missing | SF_empty | SF_broken | SF_envelope 'e

datatype legacy_file = LF_missing | LF_unusable | LF_dict "(string, string) dict"

record 'e secret_store =
  st_secrets :: "(string, string) dict"
  st_file :: "'e secret_file"
  st_legacy :: legacy_file

datatype secret_error = Secret_empty | Secret_tenant tenant_error | Secret_not_saved

text \<open>Whether the file could be written and the old one renamed is an argument.\<close>

definition save_secrets :: "'e cipher \<Rightarrow> bool \<Rightarrow> 'e secret_store \<Rightarrow> bool \<times> 'e secret_store" where
  "save_secrets cp ok s = (if ok then (True, s\<lparr>st_file := SF_envelope (cp_encrypt cp (st_secrets s))\<rparr>) else (False, s))"

definition migrate_legacy :: "'e cipher \<Rightarrow> bool \<Rightarrow> bool \<Rightarrow> 'e secret_store \<Rightarrow> bool \<times> 'e secret_store" where
  "migrate_legacy cp ok renamed s = (case st_legacy s of
       LF_missing \<Rightarrow> (False, s)
     | legacy \<Rightarrow> if st_file s \<noteq> SF_missing then (False, s)
         else (case legacy of
             LF_dict d \<Rightarrow> (let (saved, s1) = save_secrets cp ok (s\<lparr>st_secrets := d\<rparr>)
                in if saved \<and> renamed then (True, s1\<lparr>st_legacy := LF_missing\<rparr>) else (False, s1))
           | _ \<Rightarrow> (False, s)))"

definition load_secrets :: "'e cipher \<Rightarrow> bool \<Rightarrow> bool \<Rightarrow> 'e secret_store \<Rightarrow> 'e secret_store" where
  "load_secrets cp ok renamed s = (case st_file s of
       SF_missing \<Rightarrow> snd (migrate_legacy cp ok renamed s)
     | SF_empty \<Rightarrow> s
     | SF_broken \<Rightarrow> s
     | SF_envelope e \<Rightarrow> (case cp_decrypt cp e of None \<Rightarrow> s | Some d \<Rightarrow> s\<lparr>st_secrets := d\<rparr>))"

text \<open>A new process: an empty dict, then the files are read.\<close>

definition open_store :: "'e cipher \<Rightarrow> bool \<Rightarrow> bool \<Rightarrow> 'e secret_file \<Rightarrow> legacy_file \<Rightarrow> 'e secret_store" where
  "open_store cp ok renamed f legacy = load_secrets cp ok renamed \<lparr>st_secrets = [], st_file = f, st_legacy = legacy\<rparr>"

subsection \<open>Keys\<close>

text \<open>The context variable of the tenant is the argument \<open>current\<close>.\<close>

definition resolve_tenant_id :: "env \<Rightarrow> string \<Rightarrow> string option \<Rightarrow> tenant_error + string" where
  "resolve_tenant_id env current tenant_id = (case tenant_id of
       Some t \<Rightarrow> normalize_tenant_id t
     | None \<Rightarrow> if is_multi_tenant_enabled env then
           (case normalize_tenant_id (get_current_tenant_id env current) of Inl _ \<Rightarrow> Inr DEFAULT_TENANT_ID | Inr t \<Rightarrow> Inr t)
         else Inr DEFAULT_TENANT_ID)"

definition tenant_prefix :: "string \<Rightarrow> string" where
  "tenant_prefix tenant = ''tenant::'' @ tenant @ ''::''"

definition tenant_key :: "string \<Rightarrow> string \<Rightarrow> string" where
  "tenant_key provider_id tenant =
     (if tenant = DEFAULT_TENANT_ID then provider_id else tenant_prefix tenant @ provider_id)"

definition allow_legacy_fallback :: "env \<Rightarrow> bool" where
  "allow_legacy_fallback env = is_truthy (env_value env ''OPENCLAW_MULTI_TENANT_ALLOW_LEGACY_SECRET_FALLBACK'' (Some ''0''))"

subsection \<open>Operations\<close>

definition lookup_secret :: "env \<Rightarrow> string \<Rightarrow> string \<Rightarrow> 'e secret_store \<Rightarrow> string option" where
  "lookup_secret env provider_id tenant s =
     (case dget (st_secrets s) (tenant_key provider_id tenant) of
        Some v \<Rightarrow> if v \<noteq> [] then Some v
          else if tenant \<noteq> DEFAULT_TENANT_ID \<and> allow_legacy_fallback env then dget (st_secrets s) provider_id else None
      | None \<Rightarrow> if tenant \<noteq> DEFAULT_TENANT_ID \<and> allow_legacy_fallback env then dget (st_secrets s) provider_id else None)"

definition get_secret :: "env \<Rightarrow> string \<Rightarrow> string \<Rightarrow> string option \<Rightarrow> 'e secret_store \<Rightarrow> tenant_error + string option" where
  "get_secret env current provider_id tenant_id s =
     map_sum id (\<lambda>t. lookup_secret env provider_id t s) (resolve_tenant_id env current tenant_id)"

definition set_secret ::
  "'e cipher \<Rightarrow> bool \<Rightarrow> env \<Rightarrow> string \<Rightarrow> string \<Rightarrow> string \<Rightarrow> string option \<Rightarrow> 'e secret_store \<Rightarrow> (secret_error + unit) \<times> 'e secret_store" where
  "set_secret cp ok env current provider_id secret tenant_id s =
    (if py_strip secret = [] then (Inl Secret_empty, s)
     else case resolve_tenant_id env current tenant_id of
       Inl e \<Rightarrow> (Inl (Secret_tenant e), s)
     | Inr t \<Rightarrow>
        let (saved, s1) = save_secrets cp ok (s\<lparr>st_secrets := dput (tenant_key provider_id t) (py_strip secret) (st_secrets s)\<rparr>)
        in (if saved then Inr () else Inl Secret_not_saved, s1))"

definition clear_secret ::
  "'e cipher \<Rightarrow> bool \<Rightarrow> env \<Rightarrow> string \<Rightarrow> string \<Rightarrow> string option \<Rightarrow> 'e secret_store \<Rightarrow> (secret_error + bool) \<times> 'e secret_store" where
  "clear_secret cp ok env current provider_id tenant_id s =
    (case resolve_tenant_id env current tenant_id of
       Inl e \<Rightarrow> (Inl (Secret_tenant e), s)
     | Inr t \<Rightarrow>
        if dget (st_secrets s) (tenant_key provider_id t) = None then (Inr False, s)
        else let (saved, s1) = save_secrets cp ok (s\<lparr>st_secrets := ddel (tenant_key provider_id t) (st_secrets s)\<rparr>)
          in (if saved then Inr True else Inl Secret_not_saved, s1))"

definition clear_all :: "'e cipher \<Rightarrow> bool \<Rightarrow> 'e secret_store \<Rightarrow> (secret_error + nat) \<times> 'e secret_store" where
  "clear_all cp ok s =
    (let (saved, s1) = save_secrets cp ok (s\<lparr>st_secrets := []\<rparr>)
     in (if saved then Inr (length (st_secrets s)) else Inl Secret_not_saved, s1))"

text \<open>The provider ids of a tenant, without the values.\<close>

definition status_id :: "string \<Rightarrow> string \<Rightarrow> string option" where
  "status_id tenant key =
    (let p = (if tenant = DEFAULT_TENANT_ID then (if starts_with ''tenant::'' key then [] else key)
              else if starts_with (tenant_prefix tenant) key then drop (length (tenant_prefix tenant)) key else [])
     in if p = [] then None else Some p)"

definition get_status :: "env \<Rightarrow> string \<Rightarrow> string option \<Rightarrow> 'e secret_store \<Rightarrow> tenant_error + string list" where
  "get_status env current tenant_id s =
     map_sum id (\<lambda>t. dkeys (fold (\<lambda>p. dput p ()) (List.map_filter (status_id t) (dkeys (st_secrets s))) []))
       (resolve_tenant_id env current tenant_id)"

subsection \<open>Keys of different tenants\<close>

lemma tenant_no_colon: "normalize_tenant_id t = Inr u \<Longrightarrow> CHR '':'' \<notin> set u"
  using tenant_id_re_all [OF normalize_tenant_idD(1)] by (force simp: tenant_tail_def is_lower_def is_digit_def)

lemma colon_split: "CHR '':'' \<notin> set t \<Longrightarrow> CHR '':'' \<notin> set u \<Longrightarrow> t @ '':'' @ p = u @ '':'' @ q \<Longrightarrow> t = u \<and> p = q"
  by (induction t arbitrary: u) (auto simp: Cons_eq_append_conv)

lemma starts_tenant_key: "t \<noteq> DEFAULT_TENANT_ID \<Longrightarrow> starts_with ''tenant::'' (tenant_key p t)"
  by (simp add: tenant_key_def tenant_prefix_def starts_with_def)

text \<open>Normalised tenants, and no provider id that itself looks like a tenant's key.\<close>

definition plain_id :: "string \<Rightarrow> bool" where
  "plain_id p \<longleftrightarrow> \<not> starts_with ''tenant::'' p"

lemma tenant_key_inj:
  assumes "normalize_tenant_id t0 = Inr t" and "normalize_tenant_id u0 = Inr u" and "plain_id p" and "plain_id q"
    and "tenant_key p t = tenant_key q u"
  shows "t = u \<and> p = q"
proof (cases "t = DEFAULT_TENANT_ID \<or> u = DEFAULT_TENANT_ID")
  case True
  then show ?thesis using assms(3-5) starts_tenant_key [of t p] starts_tenant_key [of u q]
    by (auto simp: plain_id_def tenant_key_def split: if_splits)
next
  case False
  then have "t @ '':'' @ ('':'' @ p) = u @ '':'' @ ('':'' @ q)" using assms(5) by (simp add: tenant_key_def tenant_prefix_def)
  then show ?thesis using colon_split [OF tenant_no_colon [OF assms(1)] tenant_no_colon [OF assms(2)]] by fastforce
qed

subsection \<open>Runs\<close>

text \<open>
  Operations on behalf of named tenants, each with the outcome of its writes, and restarts of the
  process.
\<close>

datatype secret_op = Set_op string string string | Clear_op string string | Reopen_op bool

fun secret_step :: "'e cipher \<Rightarrow> env \<Rightarrow> string \<Rightarrow> bool \<times> secret_op \<Rightarrow> 'e secret_store \<Rightarrow> 'e secret_store" where
  "secret_step cp env cur (ok, Set_op p v t) s = snd (set_secret cp ok env cur p v (Some t) s)"
| "secret_step cp env cur (ok, Clear_op p t) s = snd (clear_secret cp ok env cur p (Some t) s)"
| "secret_step cp env cur (ok, Reopen_op renamed) s = open_store cp ok renamed (st_file s) (st_legacy s)"

text \<open>The operation is on another secret than the one of tenant \<open>t\<close> under \<open>p\<close>.\<close>

fun spares :: "string \<Rightarrow> string \<Rightarrow> secret_op \<Rightarrow> bool" where
  "spares t p (Set_op q v u) = (plain_id q \<and> (q \<noteq> p \<or> normalize_tenant_id u \<noteq> Inr t))"
| "spares t p (Clear_op q u) = (plain_id q \<and> (q \<noteq> p \<or> normalize_tenant_id u \<noteq> Inr t))"
| "spares t p (Reopen_op renamed) = True"

text \<open>The secret is in memory and in the file.\<close>

definition stored :: "'e cipher \<Rightarrow> string \<Rightarrow> string option \<Rightarrow> 'e secret_store \<Rightarrow> bool" where
  "stored cp k v s \<longleftrightarrow> dget (st_secrets s) k = v \<and> (\<exists>e d. st_file s = SF_envelope e \<and> cp_decrypt cp e = Some d \<and> dget d k = v)"

lemma stored_save:
  assumes "\<And>d. cp_decrypt cp (cp_encrypt cp d) = Some d" and "stored cp k v s" and "dget d k = v"
  shows "stored cp k v (snd (save_secrets cp ok (s\<lparr>st_secrets := d\<rparr>)))"
  using assms by (auto simp: stored_def save_secrets_def)

lemma stored_step:
  assumes cp: "\<And>d. cp_decrypt cp (cp_encrypt cp d) = Some d" and t: "normalize_tenant_id t0 = Inr t" and p: "plain_id p"
    and s: "stored cp (tenant_key p t) v s" and op: "spares t p op"
  shows "stored cp (tenant_key p t) v (secret_step cp env cur (ok, op) s)"
proof (cases op)
  case (Set_op q w u)
  have "tenant_key q u' \<noteq> tenant_key p t" if "normalize_tenant_id u = Inr u'" for u'
    using tenant_key_inj [OF that t _ p] op Set_op that by auto
  then show ?thesis using s Set_op stored_save [OF cp s, of "dput (tenant_key q _) (py_strip w) (st_secrets s)"]
    by (auto simp: set_secret_def resolve_tenant_id_def split_def Let_def dict_simps stored_def split: sum.split)
next
  case (Clear_op q u)
  have "tenant_key q u' \<noteq> tenant_key p t" if "normalize_tenant_id u = Inr u'" for u'
    using tenant_key_inj [OF that t _ p] op Clear_op that by auto
  then show ?thesis using s Clear_op stored_save [OF cp s, of "ddel (tenant_key q _) (st_secrets s)"]
    by (auto simp: clear_secret_def resolve_tenant_id_def split_def Let_def dict_simps stored_def split: sum.split)
next
  case (Reopen_op renamed)
  then show ?thesis using s by (auto simp: stored_def open_store_def load_secrets_def)
qed

lemma stored_run:
  assumes "\<And>d. cp_decrypt cp (cp_encrypt cp d) = Some d" and "normalize_tenant_id t0 = Inr t" and "plain_id p"
  shows "stored cp (tenant_key p t) v s \<Longrightarrow> \<forall>op \<in> set ops. spares t p (snd op) \<Longrightarrow>
    stored cp (tenant_key p t) v (fold (secret_step cp env cur) ops s)"
proof (induction ops arbitrary: s)
  case (Cons op ops)
  have "stored cp (tenant_key p t) v (secret_step cp env cur (fst op, snd op) s)"
    using Cons.prems by (intro stored_step [OF assms]) auto
  then show ?case using Cons by auto
qed simp

text \<open>
  C35: A secret that was stored for a tenant is what that tenant reads, whatever is stored or
  cleared afterwards for other tenants or under other names, whether or not those writes
  succeed, and across restarts of the process. All names, its own and the later ones, are plain: they
  do not start with \<open>tenant::\<close>. The store accepts such names too, and with one of them the default
  tenant does overwrite the secret of another (\<open>default_tenant_writes_for_another\<close>).
\<close>

theorem secret_kept:
  assumes "\<And>d. cp_decrypt cp (cp_encrypt cp d) = Some d" and "normalize_tenant_id t0 = Inr t" and "plain_id p"
    and "set_secret cp ok env cur p v (Some t0) s = (Inr (), s1)" and "\<forall>op \<in> set ops. spares t p (snd op)"
  shows "get_secret env cur p (Some t0) (fold (secret_step cp env cur) ops s1) = Inr (Some (py_strip v))"
proof -
  have "stored cp (tenant_key p t) (Some (py_strip v)) s1" and v: "py_strip v \<noteq> []"
    using assms(1,2,4) by (auto simp: set_secret_def resolve_tenant_id_def save_secrets_def stored_def dict_simps Let_def split: if_splits)
  then have "stored cp (tenant_key p t) (Some (py_strip v)) (fold (secret_step cp env cur) ops s1)"
    using assms(5) by (intro stored_run [OF assms(1-3)])
  then show ?thesis using v assms(2) by (simp add: stored_def get_secret_def resolve_tenant_id_def lookup_secret_def)
qed

definition demo_cipher :: "(string, string) dict cipher" where
  "demo_cipher = \<lparr>cp_encrypt = \<lambda>d. d, cp_decrypt = Some\<rparr>"

theorem secret_kept_witness:
  "get_secret (\<lambda>_. None) [] ''openai'' (Some ''acme'')
     (fold (secret_step demo_cipher (\<lambda>_. None) []) [(True, Set_op ''openai'' ''other'' ''globex''), (False, Clear_op ''gemini'' ''acme''), (True, Reopen_op True)]
       \<lparr>st_secrets = [(''tenant::acme::openai'', ''key'')], st_file = SF_envelope [(''tenant::acme::openai'', ''key'')], st_legacy = LF_missing\<rparr>)
   = Inr (Some (py_strip '' key''))"
  by (rule secret_kept [where cp = demo_cipher and ok = True and s = "\<lparr>st_secrets = [], st_file = SF_missing, st_legacy = LF_missing\<rparr>" and t = "''acme''"])
    (auto simp: demo_cipher_def plain_id_def starts_with_def set_secret_def resolve_tenant_id_def normalize_tenant_id_def save_secrets_def
      tenant_key_def tenant_prefix_def DEFAULT_TENANT_ID_def py_strip_def py_lower_def lower_char_def is_space_def is_upper_def tenant_id_re_def
      tenant_head_def tenant_tail_def is_lower_def is_digit_def Let_def)

text \<open>A secret of the default tenant under such a name is read by the tenant it names.\<close>

lemma default_tenant_writes_for_another:
  "get_secret (\<lambda>_. None) [] ''openai'' (Some ''acme'')
     (secret_step demo_cipher (\<lambda>_. None) [] (True, Set_op ''tenant::acme::openai'' ''planted'' ''default'')
       \<lparr>st_secrets = [], st_file = SF_missing, st_legacy = LF_missing\<rparr>) = Inr (Some ''planted'')"
  by code_simp

text \<open>After a file could not be decrypted, the next secret replaces all that it held.\<close>

lemma undecryptable_store_overwritten:
  "cp_decrypt cp e = None \<Longrightarrow> py_strip v \<noteq> [] \<Longrightarrow>
   st_file (secret_step cp env cur (True, Set_op p v ''default'') (open_store cp ok renamed (SF_envelope e) legacy))
     = SF_envelope (cp_encrypt cp [(p, py_strip v)])"
  using default_tenant_normalized
  by (simp add: open_store_def load_secrets_def set_secret_def resolve_tenant_id_def save_secrets_def tenant_key_def DEFAULT_TENANT_ID_def)

text \<open>The file that is migrated holds what the plain file held.\<close>

lemma migration_keeps:
  "open_store cp True renamed SF_missing (LF_dict d)
     = \<lparr>st_secrets = d, st_file = SF_envelope (cp_encrypt cp d), st_legacy = (if renamed then LF_missing else LF_dict d)\<rparr>"
  by (simp add: open_store_def load_secrets_def migrate_legacy_def save_secrets_def)

end
