(* ===== verification/Installations.thy ===== *)
theory Installations
  imports Secret_Store Json
begin

text \<open>
  \<open>services/connector_installation_registry.py\<close>: which workspace of a chat platform is bound to
  which installation, in which state it is, and the secrets its tokens are kept under. A binding
  is resolved only when it is unique, active, healthy and all its secrets are present.
\<close>

subsection \<open>State\<close>

definition INST_CREATED :: string where "INST_CREATED = ''created''"
definition INST_ACTIVE :: string where "INST_ACTIVE = ''active''"
definition INST_ROTATING :: string where "INST_ROTATING = ''rotating''"
definition INST_REVOKED :: string where "INST_REVOKED = ''revoked''"
definition INST_DEACTIVATED :: string where "INST_DEACTIVATED = ''deactivated''"
definition INST_UNINSTALLED :: string where "INST_UNINSTALLED = ''uninstalled''"

definition RESOLVABLE_STATUSES :: "string list" where
  "RESOLVABLE_STATUSES = [INST_ACTIVE, INST_ROTATING]"

definition UNRESOLVABLE_HEALTH_CODES :: "string list" where
  "UNRESOLVABLE_HEALTH_CODES = [''invalid_token'', ''revoked'']"

definition MAX_INSTALLATION_AUDIT :: nat where
  "MAX_INSTALLATION_AUDIT = 500"

record installation =
  in_platform :: string
  in_workspace_id :: string
  in_installation_id :: string
  in_tenant_id :: string
  in_token_refs :: "(string, string) dict"
  in_status :: string
  in_updated_at :: time
  in_created_at :: time
  in_status_reason :: string
  in_metadata :: "(string \<times> json) list"

record installation_event =
  iv_timestamp :: time
  iv_action :: string
  iv_installation_id :: string
  iv_platform :: string
  iv_tenant_id :: string
  iv_workspace_id :: string
  iv_status :: string
  iv_details :: "(string \<times> json) list"

text \<open>The file as the loader finds it; a row that does not decode is \<open>None\<close>.\<close>

datatype registry_file = RF_missing | RF_broken | RF_rows "installation option list" "installation_event option list"

record 'e registry =
  rg_installations :: "(string, installation) dict"
  rg_audit_trail :: "installation_event list"
  rg_secrets :: "'e secret_store"
  rg_file :: registry_file

datatype inst_error = Field_empty string | Inst_not_found | Inst_tenant tenant_error | Inst_secret secret_error
  | Inst_not_saved | Inst_bad_health

text \<open>
  The process around the registry: the encryption, the settings, the tenant variable, \<open>str(x)\<close> and
  \<open>dict(x)\<close> of values that are no text and no object.
\<close>

record 'e inst_lib =
  il_cipher :: "'e cipher"
  il_env :: env
  il_current :: string
  il_str :: "json \<Rightarrow> string"
  il_dict :: "json \<Rightarrow> (string \<times> json) list option"

subsection \<open>Helpers\<close>

definition normalize_identifier :: "string \<Rightarrow> string \<Rightarrow> inst_error + string" where
  "normalize_identifier value field_name = (let t = py_strip value in if t = [] then Inl (Field_empty field_name) else Inr t)"

definition normalize_platform :: "string \<Rightarrow> inst_error + string" where
  "normalize_platform platform = map_sum id py_lower (normalize_identifier platform ''platform'')"

text \<open>\<open>None\<close> is the exception of \<open>dict(...)\<close>.\<close>

definition health_code_of :: "'e inst_lib \<Rightarrow> installation \<Rightarrow> string option" where
  "health_code_of lib i =
    (case (case dget (in_metadata i) ''health'' of
             None \<Rightarrow> Some []
           | Some j \<Rightarrow> if \<not> truthy j then Some [] else (case j of JObj d \<Rightarrow> Some d | _ \<Rightarrow> il_dict lib j)) of
       None \<Rightarrow> None
     | Some health \<Rightarrow>
        let st = (case dget health ''state'' of None \<Rightarrow> [] | Some (JStr t) \<Rightarrow> t | Some j \<Rightarrow> il_str lib j);
            code = py_lower (py_strip st)
        in Some (if code \<noteq> [] then code else if in_status i = INST_REVOKED then ''revoked'' else []))"

definition token_ref :: "string \<Rightarrow> string \<Rightarrow> string" where
  "token_ref installation_id name = ''connector_installation:'' @ installation_id @ '':'' @ name"

text \<open>Whether the secret store can write its file, by token name, is the argument \<open>wr\<close>.\<close>

fun store_token_refs ::
  "'e inst_lib \<Rightarrow> (string \<Rightarrow> bool) \<Rightarrow> string \<Rightarrow> string \<Rightarrow> (string, string) dict \<Rightarrow> (string, string) dict \<Rightarrow> 'e secret_store
    \<Rightarrow> (inst_error + (string, string) dict) \<times> 'e secret_store" where
  "store_token_refs lib wr i tenant [] refs s = (Inr refs, s)"
| "store_token_refs lib wr i tenant ((key, value) # kvs) refs s =
    (case normalize_identifier key ''token_name'' of
       Inl e \<Rightarrow> (Inl e, s)
     | Inr name \<Rightarrow> (case normalize_identifier value (''token:'' @ name) of
         Inl e \<Rightarrow> (Inl e, s)
       | Inr v \<Rightarrow> (case set_secret (il_cipher lib) (wr key) (il_env lib) (il_current lib) (token_ref i name) v (Some tenant) s of
           (Inl e, s1) \<Rightarrow> (Inl (Inst_secret e), s1)
         | (Inr _, s1) \<Rightarrow> store_token_refs lib wr i tenant kvs (dput name (token_ref i name) refs) s1)))"

definition audit_event_for :: "time \<Rightarrow> string \<Rightarrow> installation \<Rightarrow> (string \<times> json) list \<Rightarrow> installation_event" where
  "audit_event_for now action i details =
    \<lparr>iv_timestamp = now, iv_action = action, iv_installation_id = in_installation_id i, iv_platform = in_platform i,
     iv_tenant_id = in_tenant_id i, iv_workspace_id = in_workspace_id i, iv_status = in_status i, iv_details = details\<rparr>"

definition audit_installation :: "time \<Rightarrow> string \<Rightarrow> installation \<Rightarrow> (string \<times> json) list \<Rightarrow> 'e registry \<Rightarrow> 'e registry" where
  "audit_installation now action i details r =
    (let trail = rg_audit_trail r @ [audit_event_for now action i details]
     in r\<lparr>rg_audit_trail := (if length trail > MAX_INSTALLATION_AUDIT then take_last MAX_INSTALLATION_AUDIT trail else trail)\<rparr>)"

definition save_registry :: "bool \<Rightarrow> 'e registry \<Rightarrow> bool \<times> 'e registry" where
  "save_registry ok r = (ok, if ok then r\<lparr>rg_file := RF_rows (map Some (dvals (rg_installations r))) (map Some (rg_audit_trail r))\<rparr> else r)"

text \<open>The end of every operation: the entry is written, audited and saved; the caller gets it.\<close>

definition commit_installation ::
  "time \<Rightarrow> bool \<Rightarrow> string \<Rightarrow> (string \<times> json) list \<Rightarrow> installation \<Rightarrow> 'e registry \<Rightarrow> (inst_error + installation) \<times> 'e registry" where
  "commit_installation now ok action details i r =
    (let r1 = audit_installation now action i details (r\<lparr>rg_installations := dput (in_installation_id i) i (rg_installations r)\<rparr>);
         (saved, r2) = save_registry ok r1
     in (if saved then Inr i else Inl Inst_not_saved, r2))"

subsection \<open>Loading\<close>

definition load_rows :: "installation list \<Rightarrow> (string, installation) dict" where
  "load_rows rows = fold (\<lambda>i d. if in_installation_id i \<noteq> [] then dput (in_installation_id i) i d else d) rows []"

text \<open>A row that cannot be read makes the loader drop everything.\<close>

definition load_registry :: "registry_file \<Rightarrow> 'e secret_store \<Rightarrow> 'e registry" where
  "load_registry f s = (case f of
       RF_rows rows trail \<Rightarrow>
         if None \<in> set rows \<or> None \<in> set trail then \<lparr>rg_installations = [], rg_audit_trail = [], rg_secrets = s, rg_file = f\<rparr>
         else \<lparr>rg_installations = load_rows (List.map_filter id rows),
               rg_audit_trail = filter (\<lambda>e. iv_installation_id e \<noteq> []) (List.map_filter id trail), rg_secrets = s, rg_file = f\<rparr>
     | _ \<Rightarrow> \<lparr>rg_installations = [], rg_audit_trail = [], rg_secrets = s, rg_file = f\<rparr>)"

subsection \<open>Operations\<close>

record upsert_request =
  ur_platform :: string
  ur_tenant_id :: string
  ur_workspace_id :: string
  ur_installation_id :: string
  ur_token_values :: "(string, string) dict"
  ur_token_refs :: "(string, string) dict"
  ur_status :: string
  ur_metadata :: "(string \<times> json) list"
  ur_status_reason :: string

definition upsert_refs ::
  "'e inst_lib \<Rightarrow> (string \<Rightarrow> bool) \<Rightarrow> upsert_request \<Rightarrow> string \<Rightarrow> string \<Rightarrow> 'e secret_store \<Rightarrow> (inst_error + (string, string) dict) \<times> 'e secret_store" where
  "upsert_refs lib wr q i tenant s =
    (case store_token_refs lib wr i tenant (ur_token_values q) [] s of
       (Inl e, s1) \<Rightarrow> (Inl e, s1)
     | (Inr new_refs, s1) \<Rightarrow> (Inr (fold (\<lambda>(k, v). dput k v) new_refs (ur_token_refs q)), s1))"

definition upsert_record ::
  "time \<Rightarrow> upsert_request \<Rightarrow> string \<times> string \<times> string \<times> string \<times> string \<Rightarrow> (string, string) dict \<Rightarrow> installation option \<Rightarrow> installation" where
  "upsert_record now q n refs existing = (case n of (platform, tenant, workspace, i, st) \<Rightarrow>
     \<lparr>in_platform = platform, in_workspace_id = workspace, in_installation_id = i, in_tenant_id = tenant,
      in_token_refs = (case existing of Some x \<Rightarrow> if refs = [] then in_token_refs x else refs | None \<Rightarrow> refs),
      in_status = st, in_updated_at = now, in_created_at = (case existing of Some x \<Rightarrow> in_created_at x | None \<Rightarrow> now),
      in_status_reason = ur_status_reason q,
      in_metadata = (if ur_metadata q \<noteq> [] then ur_metadata q else case existing of Some x \<Rightarrow> in_metadata x | None \<Rightarrow> [])\<rparr>)"

definition upsert_installation ::
  "'e inst_lib \<Rightarrow> time \<Rightarrow> (string \<Rightarrow> bool) \<Rightarrow> bool \<Rightarrow> upsert_request \<Rightarrow> 'e registry \<Rightarrow> (inst_error + installation) \<times> 'e registry" where
  "upsert_installation lib now wr ok q r =
    (case normalize_platform (ur_platform q) of Inl e \<Rightarrow> (Inl e, r) | Inr platform \<Rightarrow>
     case normalize_tenant_id (ur_tenant_id q) of Inl e \<Rightarrow> (Inl (Inst_tenant e), r) | Inr tenant \<Rightarrow>
     case normalize_identifier (ur_workspace_id q) ''workspace_id'' of Inl e \<Rightarrow> (Inl e, r) | Inr workspace \<Rightarrow>
     case normalize_identifier (ur_installation_id q) ''installation_id'' of Inl e \<Rightarrow> (Inl e, r) | Inr i \<Rightarrow>
     case upsert_refs lib wr q i tenant (rg_secrets r) of (Inl e, s) \<Rightarrow> (Inl e, r\<lparr>rg_secrets := s\<rparr>) | (Inr refs, s) \<Rightarrow>
     case normalize_identifier (ur_status q) ''status'' of Inl e \<Rightarrow> (Inl e, r\<lparr>rg_secrets := s\<rparr>) | Inr st \<Rightarrow>
       let inst = upsert_record now q (platform, tenant, workspace, i, st) refs (dget (rg_installations r) i)
       in commit_installation now ok ''upsert'' [(''token_ref_count'', JInt (int (length (in_token_refs inst))))] inst (r\<lparr>rg_secrets := s\<rparr>))"

definition get_installation :: "'e inst_lib \<Rightarrow> string \<Rightarrow> string option \<Rightarrow> 'e registry \<Rightarrow> tenant_error + installation option" where
  "get_installation lib installation_id tenant_id r =
    (case dget (rg_installations r) (py_strip installation_id) of
       None \<Rightarrow> Inr None
     | Some i \<Rightarrow> (case tenant_id of
         None \<Rightarrow> Inr (Some i)
       | Some t \<Rightarrow> if \<not> is_multi_tenant_enabled (il_env lib) then Inr (Some i)
           else (case normalize_tenant_id t of Inl e \<Rightarrow> Inl e | Inr t' \<Rightarrow> Inr (if in_tenant_id i \<noteq> t' then None else Some i))))"

text \<open>The platform filter normalises its argument per entry, so it raises only on a non-empty list.\<close>

definition keep_platform :: "string option \<Rightarrow> installation list \<Rightarrow> inst_error + installation list" where
  "keep_platform platform items = (case platform of
       None \<Rightarrow> Inr items
     | Some p \<Rightarrow> if p = [] \<or> items = [] then Inr items
         else map_sum id (\<lambda>n. filter (\<lambda>i. in_platform i = n) items) (normalize_platform p))"

definition keep_tenant :: "string option \<Rightarrow> installation list \<Rightarrow> inst_error + installation list" where
  "keep_tenant tenant_id items = (case tenant_id of
       None \<Rightarrow> Inr items
     | Some t \<Rightarrow> if t = [] then Inr items
         else map_sum Inst_tenant (\<lambda>n. filter (\<lambda>i. in_tenant_id i = n) items) (normalize_tenant_id t))"

definition keep_field :: "(installation \<Rightarrow> string) \<Rightarrow> string option \<Rightarrow> installation list \<Rightarrow> installation list" where
  "keep_field f v items = (case v of None \<Rightarrow> items | Some w \<Rightarrow> if w = [] then items else filter (\<lambda>i. f i = py_strip w) items)"

definition installation_sort_key :: "installation \<Rightarrow> string list" where
  "installation_sort_key i = [in_platform i, in_tenant_id i, in_workspace_id i, in_installation_id i]"

definition list_installations ::
  "string option \<Rightarrow> string option \<Rightarrow> string option \<Rightarrow> string option \<Rightarrow> 'e registry \<Rightarrow> inst_error + installation list" where
  "list_installations platform tenant_id workspace_id status r =
    (case keep_platform platform (dvals (rg_installations r)) of Inl e \<Rightarrow> Inl e | Inr items \<Rightarrow>
     case keep_tenant tenant_id items of Inl e \<Rightarrow> Inl e | Inr items \<Rightarrow>
       Inr (sort_key installation_sort_key (keep_field in_status status (keep_field in_workspace_id workspace_id items))))"

definition transition_installation ::
  "time \<Rightarrow> bool \<Rightarrow> string \<Rightarrow> string \<Rightarrow> string \<Rightarrow> string \<Rightarrow> 'e registry \<Rightarrow> (inst_error + installation) \<times> 'e registry" where
  "transition_installation now ok installation_id target reason action r =
    (case dget (rg_installations r) (py_strip installation_id) of
       None \<Rightarrow> (Inl Inst_not_found, r)
     | Some i \<Rightarrow> commit_installation now ok action [(''reason'', JStr reason)]
         (i\<lparr>in_status := target, in_status_reason := reason, in_updated_at := now\<rparr>) r)"

definition health_state :: "string \<Rightarrow> string" where
  "health_state health_code =
     (let code = py_lower (py_strip (if health_code = [] then ''ok'' else health_code)) in if code = [] then ''ok'' else code)"

definition update_installation_health ::
  "time \<Rightarrow> bool \<Rightarrow> string \<Rightarrow> string \<Rightarrow> string \<Rightarrow> (string \<times> json) list \<Rightarrow> 'e registry \<Rightarrow> (inst_error + installation) \<times> 'e registry" where
  "update_installation_health now ok installation_id health_code reason details r =
    (case dget (rg_installations r) (py_strip installation_id) of
       None \<Rightarrow> (Inl Inst_not_found, r)
     | Some i \<Rightarrow>
        let st = health_state health_code;
            health = JObj [(''state'', JStr st), (''reason'', JStr (py_strip reason)), (''updated_at'', JFloat now), (''details'', JObj details)]
        in commit_installation now ok ''health_update'' [(''health_code'', JStr st), (''reason'', JStr (py_strip reason))]
             (i\<lparr>in_metadata := dput ''health'' health (in_metadata i), in_updated_at := now\<rparr>) r)"

text \<open>Two operations under the lock, each with its own write.\<close>

definition activate_installation ::
  "time \<Rightarrow> bool \<Rightarrow> bool \<Rightarrow> string \<Rightarrow> string \<Rightarrow> 'e registry \<Rightarrow> (inst_error + installation) \<times> 'e registry" where
  "activate_installation now ok1 ok2 installation_id reason r =
    (case transition_installation now ok1 installation_id INST_ACTIVE reason ''activate'' r of
       (Inl e, r1) \<Rightarrow> (Inl e, r1)
     | (Inr i, r1) \<Rightarrow> update_installation_health now ok2 installation_id ''ok'' (if reason = [] then ''activated'' else reason)
         [(''status'', JStr (in_status i))] r1)"

definition revoke_installation ::
  "time \<Rightarrow> bool \<Rightarrow> bool \<Rightarrow> string \<Rightarrow> string \<Rightarrow> 'e registry \<Rightarrow> (inst_error + installation) \<times> 'e registry" where
  "revoke_installation now ok1 ok2 installation_id reason r =
    (case transition_installation now ok1 installation_id INST_REVOKED reason ''revoke'' r of
       (Inl e, r1) \<Rightarrow> (Inl e, r1)
     | (Inr i, r1) \<Rightarrow> update_installation_health now ok2 installation_id ''revoked'' (if reason = [] then ''revoked'' else reason)
         [(''status'', JStr INST_REVOKED)] r1)"

definition deactivate_installation :: "time \<Rightarrow> bool \<Rightarrow> string \<Rightarrow> string \<Rightarrow> 'e registry \<Rightarrow> (inst_error + installation) \<times> 'e registry" where
  "deactivate_installation now ok installation_id reason r =
     transition_installation now ok installation_id INST_DEACTIVATED reason ''deactivate'' r"

definition rotate_installation_tokens ::
  "'e inst_lib \<Rightarrow> time \<Rightarrow> (string \<Rightarrow> bool) \<Rightarrow> bool \<Rightarrow> string \<Rightarrow> (string, string) dict \<Rightarrow> string \<Rightarrow> 'e registry
    \<Rightarrow> (inst_error + installation) \<times> 'e registry" where
  "rotate_installation_tokens lib now wr ok installation_id token_values reason r =
    (case dget (rg_installations r) (py_strip installation_id) of
       None \<Rightarrow> (Inl Inst_not_found, r)
     | Some i \<Rightarrow> (case store_token_refs lib wr (in_installation_id i) (in_tenant_id i) token_values [] (rg_secrets r) of
         (Inl e, s) \<Rightarrow> (Inl e, r\<lparr>rg_secrets := s\<rparr>)
       | (Inr new_refs, s) \<Rightarrow>
          let refs = fold (\<lambda>(k, v). dput k v) new_refs (in_token_refs i);
              i' = i\<lparr>in_token_refs := refs, in_status := INST_ROTATING, in_status_reason := reason, in_updated_at := now\<rparr>
          in commit_installation now ok ''rotate'' [(''reason'', JStr reason), (''token_ref_count'', JInt (int (length refs)))] i' (r\<lparr>rg_secrets := s\<rparr>)))"

text \<open>\<open>wr\<close> says by reference whether the store can be written.\<close>

fun clear_refs :: "'e inst_lib \<Rightarrow> (string \<Rightarrow> bool) \<Rightarrow> string \<Rightarrow> string list \<Rightarrow> 'e secret_store \<Rightarrow> (inst_error + unit) \<times> 'e secret_store" where
  "clear_refs lib wr tenant [] s = (Inr (), s)"
| "clear_refs lib wr tenant (ref # refs) s =
    (case clear_secret (il_cipher lib) (wr ref) (il_env lib) (il_current lib) ref (Some tenant) s of
       (Inl e, s1) \<Rightarrow> (Inl (Inst_secret e), s1)
     | (Inr _, s1) \<Rightarrow> clear_refs lib wr tenant refs s1)"

definition uninstall_installation ::
  "'e inst_lib \<Rightarrow> time \<Rightarrow> (string \<Rightarrow> bool) \<Rightarrow> bool \<Rightarrow> string \<Rightarrow> string \<Rightarrow> 'e registry \<Rightarrow> (inst_error + installation) \<times> 'e registry" where
  "uninstall_installation lib now wr ok installation_id reason r =
    (case dget (rg_installations r) (py_strip installation_id) of
       None \<Rightarrow> (Inl Inst_not_found, r)
     | Some i \<Rightarrow> (case clear_refs lib wr (in_tenant_id i) (dvals (in_token_refs i)) (rg_secrets r) of
         (Inl e, s) \<Rightarrow> (Inl e, r\<lparr>rg_secrets := s\<rparr>)
       | (Inr _, s) \<Rightarrow> commit_installation now ok ''uninstall'' [(''reason'', JStr reason)]
           (i\<lparr>in_status := INST_UNINSTALLED, in_status_reason := reason, in_updated_at := now\<rparr>) (r\<lparr>rg_secrets := s\<rparr>)))"

subsection \<open>Resolution\<close>

record resolution =
  rs_ok :: bool
  rs_installation :: "installation option"
  rs_reject_reason :: string
  rs_audit_code :: string
  rs_health_code :: string

definition rejected :: "string \<Rightarrow> string \<Rightarrow> string \<Rightarrow> resolution" where
  "rejected reason audit_code health_code =
     \<lparr>rs_ok = False, rs_installation = None, rs_reject_reason = reason, rs_audit_code = audit_code, rs_health_code = health_code\<rparr>"

text \<open>The name of the first token whose secret is missing or empty.\<close>

fun stale_ref :: "'e inst_lib \<Rightarrow> string \<Rightarrow> (string, string) dict \<Rightarrow> 'e secret_store \<Rightarrow> tenant_error + string option" where
  "stale_ref lib tenant [] s = Inr None"
| "stale_ref lib tenant ((name, ref) # refs) s =
    (case get_secret (il_env lib) (il_current lib) ref (Some tenant) s of
       Inl e \<Rightarrow> Inl e
     | Inr None \<Rightarrow> Inr (Some name)
     | Inr (Some v) \<Rightarrow> if v = [] then Inr (Some name) else stale_ref lib tenant refs s)"

definition resolve_eligible :: "'e inst_lib \<Rightarrow> installation \<Rightarrow> 'e registry \<Rightarrow> inst_error + resolution" where
  "resolve_eligible lib i r = (case health_code_of lib i of
       None \<Rightarrow> Inl Inst_bad_health
     | Some code \<Rightarrow>
        if code \<in> set UNRESOLVABLE_HEALTH_CODES then Inr (rejected ''inactive_binding'' ''conn_install.resolve_unhealthy'' code)
        else (case stale_ref lib (in_tenant_id i) (in_token_refs i) (rg_secrets r) of
            Inl e \<Rightarrow> Inl (Inst_tenant e)
          | Inr (Some name) \<Rightarrow> Inr (rejected (''stale_token_ref:'' @ name) ''conn_install.resolve_stale_ref'' ''degraded'')
          | Inr None \<Rightarrow> Inr \<lparr>rs_ok = True, rs_installation = Some i, rs_reject_reason = [], rs_audit_code = ''conn_install.resolve_ok'',
                          rs_health_code = (if code = [] then ''ok'' else code)\<rparr>))"

definition resolve_matches :: "'e inst_lib \<Rightarrow> installation list \<Rightarrow> 'e registry \<Rightarrow> inst_error + resolution" where
  "resolve_matches lib matches r = (case filter (\<lambda>i. in_status i \<in> set RESOLVABLE_STATUSES) matches of
       [i] \<Rightarrow> resolve_eligible lib i r
     | [] \<Rightarrow> (case matches of
         [] \<Rightarrow> Inr (rejected ''missing_binding'' ''conn_install.resolve_missing'' ''workspace_unbound'')
       | m # _ \<Rightarrow> (case health_code_of lib m of
           None \<Rightarrow> Inl Inst_bad_health
         | Some code \<Rightarrow> Inr (rejected ''inactive_binding'' ''conn_install.resolve_inactive'' (if code = [] then ''degraded'' else code))))
     | _ \<Rightarrow> Inr (rejected ''ambiguous_binding'' ''conn_install.resolve_ambiguous'' ''degraded''))"

definition resolve_installation ::
  "'e inst_lib \<Rightarrow> string \<Rightarrow> string \<Rightarrow> string option \<Rightarrow> 'e registry \<Rightarrow> inst_error + resolution" where
  "resolve_installation lib platform workspace_id tenant_id r =
    (case normalize_platform platform of Inl e \<Rightarrow> Inl e | Inr p \<Rightarrow>
     case normalize_identifier workspace_id ''workspace_id'' of Inl e \<Rightarrow> Inl e | Inr w \<Rightarrow>
     case normalize_tenant_id (case tenant_id of Some (c # t) \<Rightarrow> c # t | _ \<Rightarrow> get_current_tenant_id (il_env lib) (il_current lib)) of
       Inl e \<Rightarrow> Inl (Inst_tenant e)
     | Inr t \<Rightarrow>
        let matches = filter (\<lambda>i. in_platform i = p \<and> in_workspace_id i = w) (dvals (rg_installations r)) in
        if is_multi_tenant_enabled (il_env lib) then
          let tenant_matches = filter (\<lambda>i. in_tenant_id i = t) matches in
          if tenant_matches = [] \<and> matches \<noteq> [] then Inr (rejected ''tenant_mismatch'' ''conn_install.resolve_tenant_mismatch'' ''degraded'')
          else resolve_matches lib tenant_matches r
        else resolve_matches lib matches r)"

subsection \<open>Reports\<close>

definition get_audit_trail :: "string option \<Rightarrow> string option \<Rightarrow> int \<Rightarrow> 'e registry \<Rightarrow> tenant_error + installation_event list" where
  "get_audit_trail installation_id tenant_id limit r =
    (let items = (case installation_id of None \<Rightarrow> rg_audit_trail r
                    | Some i \<Rightarrow> if i = [] then rg_audit_trail r else filter (\<lambda>e. iv_installation_id e = py_strip i) (rg_audit_trail r))
     in map_sum id (\<lambda>xs. take_last (nat (max 1 (min limit 500))) xs)
       (case tenant_id of None \<Rightarrow> Inr items
        | Some t \<Rightarrow> if t = [] then Inr items else map_sum id (\<lambda>n. filter (\<lambda>e. iv_tenant_id e = n) items) (normalize_tenant_id t)))"

definition count_code :: "string \<Rightarrow> (string, nat) dict \<Rightarrow> (string, nat) dict" where
  "count_code k d = dput k ((case dget d k of None \<Rightarrow> 0 | Some n \<Rightarrow> n) + 1) d"

text \<open>Number of installations, by status, by health, and the length of the trail.\<close>

fun count_health :: "'e inst_lib \<Rightarrow> installation list \<Rightarrow> (string, nat) dict \<Rightarrow> (string, nat) dict option" where
  "count_health lib [] d = Some d"
| "count_health lib (i # items) d = (case health_code_of lib i of
     None \<Rightarrow> None
   | Some code \<Rightarrow> count_health lib items (count_code (if code = [] then ''ok'' else code) d))"

definition diagnostics ::
  "'e inst_lib \<Rightarrow> string option \<Rightarrow> 'e registry \<Rightarrow> inst_error + nat \<times> (string, nat) dict \<times> (string, nat) dict \<times> nat" where
  "diagnostics lib tenant_id r = (case keep_tenant tenant_id (dvals (rg_installations r)) of
       Inl e \<Rightarrow> Inl e
     | Inr items \<Rightarrow> (case count_health lib items [] of
         None \<Rightarrow> Inl Inst_bad_health
       | Some h \<Rightarrow> Inr (length items, fold (\<lambda>i. count_code (in_status i)) items [], h, length (rg_audit_trail r))))"

subsection \<open>What a resolution promises\<close>

lemma stale_ref_None:
  "stale_ref lib t refs s = Inr None \<Longrightarrow>
   \<forall>(name, ref) \<in> set refs. \<exists>v. v \<noteq> [] \<and> get_secret (il_env lib) (il_current lib) ref (Some t) s = Inr (Some v)"
  by (induction refs) (auto split: sum.splits option.splits if_splits)

lemma resolve_eligible_ok:
  assumes "resolve_eligible lib i r = Inr s" and "rs_ok s"
  shows "rs_installation s = Some i \<and> (\<exists>code. health_code_of lib i = Some code \<and> code \<notin> set UNRESOLVABLE_HEALTH_CODES)
    \<and> stale_ref lib (in_tenant_id i) (in_token_refs i) (rg_secrets r) = Inr None"
  using assms by (auto simp: resolve_eligible_def rejected_def split: option.splits sum.splits if_splits)

lemma resolve_matches_ok:
  assumes "resolve_matches lib ms r = Inr s" and "rs_ok s"
  shows "\<exists>i. filter (\<lambda>i. in_status i \<in> set RESOLVABLE_STATUSES) ms = [i] \<and> resolve_eligible lib i r = Inr s"
  using assms by (auto simp: resolve_matches_def rejected_def split: list.splits option.splits)

text \<open>The installations a request of a platform, workspace and tenant is about.\<close>

definition bound_to :: "'e inst_lib \<Rightarrow> string \<Rightarrow> string \<Rightarrow> string option \<Rightarrow> installation \<Rightarrow> bool" where
  "bound_to lib platform workspace_id tenant_id i \<longleftrightarrow>
     in_platform i = py_lower (py_strip platform) \<and> in_workspace_id i = py_strip workspace_id \<and>
     (is_multi_tenant_enabled (il_env lib) \<longrightarrow>
        normalize_tenant_id (case tenant_id of Some (c # t) \<Rightarrow> c # t | _ \<Rightarrow> get_current_tenant_id (il_env lib) (il_current lib)) = Inr (in_tenant_id i))"

lemma resolve_ok:
  assumes "resolve_installation lib platform ws tn r = Inr s" and ok: "rs_ok s"
  shows "\<exists>i. filter (\<lambda>i. bound_to lib platform ws tn i \<and> in_status i \<in> set RESOLVABLE_STATUSES) (dvals (rg_installations r)) = [i]
    \<and> resolve_eligible lib i r = Inr s"
proof -
  obtain p w t where n: "normalize_platform platform = Inr p" "normalize_identifier ws ''workspace_id'' = Inr w"
    "normalize_tenant_id (case tn of Some (c # t) \<Rightarrow> c # t | _ \<Rightarrow> get_current_tenant_id (il_env lib) (il_current lib)) = Inr t"
    using assms by (simp add: resolve_installation_def split: sum.splits)
  define ms where "ms = filter (bound_to lib platform ws tn) (dvals (rg_installations r))"
  have b: "bound_to lib platform ws tn i \<longleftrightarrow> in_platform i = p \<and> in_workspace_id i = w \<and> (is_multi_tenant_enabled (il_env lib) \<longrightarrow> in_tenant_id i = t)" for i
    using n by (auto simp: bound_to_def normalize_platform_def normalize_identifier_def map_sum_def Let_def split: sum.splits if_splits)
  have bf: "bound_to lib platform ws tn = (\<lambda>i. in_platform i = p \<and> in_workspace_id i = w \<and> (is_multi_tenant_enabled (il_env lib) \<longrightarrow> in_tenant_id i = t))"
    using b by blast
  have "resolve_matches lib ms r = Inr s"
    using assms n unfolding ms_def bf by (auto simp: resolve_installation_def rejected_def Let_def conj_ac split: if_splits)
  then show ?thesis using resolve_matches_ok [OF _ ok, of lib ms r] by (auto simp: ms_def conj_commute)
qed

lemma filter_single: "filter P xs = [x] \<Longrightarrow> x \<in> set xs \<and> P x \<and> (\<forall>y \<in> set xs. P y \<longrightarrow> y = x)"
proof -
  assume "filter P xs = [x]"
  then have "set (filter P xs) = {x}" by simp
  then show ?thesis by auto
qed

text \<open>
  C33: A binding is resolved only to an installation of the registry of that platform, workspace
  and (with several tenants) tenant that is active or rotating, is not marked as revoked or as
  having an invalid token, is the only such one, and whose tokens all have a secret in the store.
\<close>

theorem resolution_sound:
  assumes "resolve_installation lib platform ws tn r = Inr s" and "rs_ok s"
  shows "\<exists>i \<in> set (dvals (rg_installations r)). rs_installation s = Some i \<and> bound_to lib platform ws tn i
    \<and> in_status i \<in> {''active'', ''rotating''}
    \<and> (\<forall>j \<in> set (dvals (rg_installations r)). bound_to lib platform ws tn j \<and> in_status j \<in> {''active'', ''rotating''} \<longrightarrow> j = i)
    \<and> (\<exists>code. health_code_of lib i = Some code \<and> code \<notin> {''invalid_token'', ''revoked''})
    \<and> (\<forall>(name, ref) \<in> set (in_token_refs i). \<exists>v. v \<noteq> [] \<and> get_secret (il_env lib) (il_current lib) ref (Some (in_tenant_id i)) (rg_secrets r) = Inr (Some v))"
proof -
  obtain i where f: "filter (\<lambda>i. bound_to lib platform ws tn i \<and> in_status i \<in> set RESOLVABLE_STATUSES) (dvals (rg_installations r)) = [i]"
    and e: "resolve_eligible lib i r = Inr s" using resolve_ok [OF assms] by blast
  have c: "set RESOLVABLE_STATUSES = {''active'', ''rotating''}" "set UNRESOLVABLE_HEALTH_CODES = {''invalid_token'', ''revoked''}"
    by (simp_all add: RESOLVABLE_STATUSES_def INST_ACTIVE_def INST_ROTATING_def UNRESOLVABLE_HEALTH_CODES_def)
  show ?thesis
    using filter_single [OF f] resolve_eligible_ok [OF e assms(2)] stale_ref_None [of lib "in_tenant_id i" "in_token_refs i" "rg_secrets r"] unfolding c
    by (intro bexI [of _ i]) simp_all
qed

subsection \<open>Well-formed registries\<close>

definition file_trail_ok :: "registry_file \<Rightarrow> bool" where
  "file_trail_ok f \<longleftrightarrow> (case f of RF_rows rows trail \<Rightarrow> length trail \<le> MAX_INSTALLATION_AUDIT | _ \<Rightarrow> True)"

definition registry_ok :: "'e registry \<Rightarrow> bool" where
  "registry_ok r \<longleftrightarrow> own_keys in_installation_id (rg_installations r) \<and> [] \<notin> set (dkeys (rg_installations r))
     \<and> length (rg_audit_trail r) \<le> MAX_INSTALLATION_AUDIT \<and> (\<forall>e \<in> set (rg_audit_trail r). iv_installation_id e \<noteq> [])
     \<and> file_trail_ok (rg_file r)"

lemma load_rows_own: "own_keys in_installation_id d0 \<Longrightarrow> [] \<notin> set (dkeys d0) \<Longrightarrow>
  (let d = fold (\<lambda>i d. if in_installation_id i \<noteq> [] then dput (in_installation_id i) i d else d) rows d0
   in own_keys in_installation_id d \<and> [] \<notin> set (dkeys d))"
proof (induction rows arbitrary: d0)
  case (Cons i rows)
  have "[] \<notin> set (dkeys (dput (in_installation_id i) i d0))" if "in_installation_id i \<noteq> []"
    using Cons.prems that by (simp add: AList.update_keys)
  then show ?case using Cons by auto
qed simp

lemma load_rows_append:
  "own_keys in_installation_id (d0 @ d) \<Longrightarrow> [] \<notin> set (dkeys d) \<Longrightarrow>
   fold (\<lambda>i d. if in_installation_id i \<noteq> [] then dput (in_installation_id i) i d else d) (dvals d) d0 = d0 @ d"
proof (induction d arbitrary: d0)
  case (Cons p d)
  obtain k i where p: "p = (k, i)" by fastforce
  have k: "in_installation_id i = k" "k \<noteq> []" "dget d0 k = None"
    using Cons.prems by (auto simp: p own_keys_def map_of_eq_None_iff)
  then have "dput k i d0 = d0 @ [p]" by (simp add: dput_new p)
  then show ?case using Cons.IH [of "d0 @ [p]"] Cons.prems k by (simp add: p)
qed simp

lemma load_rows_dvals: "own_keys in_installation_id d \<Longrightarrow> [] \<notin> set (dkeys d) \<Longrightarrow> load_rows (dvals d) = d"
  using load_rows_append [of "[]" d] by (simp add: load_rows_def)

lemma map_filter_Some: "List.map_filter id (map Some xs) = xs"
  by (induction xs) (simp_all add: List.map_filter_simps)

lemma audit_installation_ok:
  assumes "registry_ok r" and "in_installation_id i \<noteq> []"
  shows "registry_ok (audit_installation now action i details (r\<lparr>rg_installations := dput (in_installation_id i) i (rg_installations r)\<rparr>))"
proof -
  have "[] \<notin> set (dkeys (dput (in_installation_id i) i (rg_installations r)))"
    using assms by (simp add: registry_ok_def AList.update_keys)
  then show ?thesis using assms
    by (auto simp: registry_ok_def audit_installation_def audit_event_for_def Let_def take_last_def own_keys_dput MAX_INSTALLATION_AUDIT_def dest: in_set_dropD)
qed

lemma save_registry_ok: "registry_ok r \<Longrightarrow> registry_ok (snd (save_registry ok r))"
  by (simp add: save_registry_def registry_ok_def file_trail_ok_def)

lemma commit_installation_ok:
  assumes "registry_ok r" and "in_installation_id i \<noteq> []"
  shows "registry_ok (snd (commit_installation now ok action details i r))"
  using save_registry_ok [OF audit_installation_ok [OF assms]] by (simp add: commit_installation_def Let_def split_def)

lemma registry_ok_secrets: "registry_ok (r\<lparr>rg_secrets := s\<rparr>) = registry_ok r"
  by (simp add: registry_ok_def)

lemma registry_ok_id: "registry_ok r \<Longrightarrow> dget (rg_installations r) k = Some i \<Longrightarrow> in_installation_id i = k \<and> k \<noteq> []"
  using own_keysD [of in_installation_id "rg_installations r" k i] dget_in [of "rg_installations r" k i]
  by (auto simp: registry_ok_def rev_image_eqI)

lemma load_registry_ok: "file_trail_ok f \<Longrightarrow> registry_ok (load_registry f s)"
proof -
  assume f: "file_trail_ok f"
  have "length (List.map_filter id trail) \<le> length (trail :: installation_event option list)" for trail
    by (simp add: List.map_filter_def)
  then have "length (filter P (List.map_filter id trail)) \<le> length (trail :: installation_event option list)" for P trail
    using length_filter_le le_trans by blast
  then show ?thesis using f load_rows_own [of "[]"]
    by (auto simp: load_registry_def registry_ok_def file_trail_ok_def load_rows_def Let_def split: registry_file.splits)
       (metis le_trans)
qed

text \<open>What is saved is what the next process loads.\<close>

lemma registry_restart:
  assumes "registry_ok r"
  shows "load_registry (rg_file (snd (save_registry True r))) (rg_secrets r) = snd (save_registry True r)"
proof -
  have "filter (\<lambda>e. iv_installation_id e \<noteq> []) (rg_audit_trail r) = rg_audit_trail r"
    using assms by (simp add: registry_ok_def filter_id_conv)
  moreover have "load_rows (dvals (rg_installations r)) = rg_installations r"
    using assms by (simp add: registry_ok_def load_rows_dvals)
  ultimately show ?thesis by (simp add: save_registry_def load_registry_def map_filter_Some image_iff)
qed

subsection \<open>Runs\<close>

text \<open>The operations with the outcomes of their writes, and restarts.\<close>

datatype registry_op = Upsert_op "string \<Rightarrow> bool" upsert_request | Activate_op bool string string
  | Rotate_op "string \<Rightarrow> bool" string "(string, string) dict" string | Revoke_op bool string string | Deactivate_op string string
  | Uninstall_op "string \<Rightarrow> bool" string string | Health_op string string string "(string \<times> json) list" | Reload_op

fun registry_step :: "'e inst_lib \<Rightarrow> time \<times> bool \<times> registry_op \<Rightarrow> 'e registry \<Rightarrow> 'e registry" where
  "registry_step lib (now, ok, Upsert_op wr q) r = snd (upsert_installation lib now wr ok q r)"
| "registry_step lib (now, ok, Activate_op ok2 i reason) r = snd (activate_installation now ok ok2 i reason r)"
| "registry_step lib (now, ok, Rotate_op wr i vals reason) r = snd (rotate_installation_tokens lib now wr ok i vals reason r)"
| "registry_step lib (now, ok, Revoke_op ok2 i reason) r = snd (revoke_installation now ok ok2 i reason r)"
| "registry_step lib (now, ok, Deactivate_op i reason) r = snd (deactivate_installation now ok i reason r)"
| "registry_step lib (now, ok, Uninstall_op wr i reason) r = snd (uninstall_installation lib now wr ok i reason r)"
| "registry_step lib (now, ok, Health_op i code reason details) r = snd (update_installation_health now ok i code reason details r)"
| "registry_step lib (now, ok, Reload_op) r = load_registry (rg_file r) (rg_secrets r)"

text \<open>
  Every operation but the restart leaves the registry as it was, changes the secrets, or commits
  entries; which ones it may commit, given the entry before, is \<open>may_commit\<close>.
\<close>

inductive commits :: "(installation option \<Rightarrow> installation \<Rightarrow> bool) \<Rightarrow> 'e registry \<Rightarrow> 'e registry \<Rightarrow> bool" for C where
  nothing: "commits C r r"
| secrets: "commits C r r1 \<Longrightarrow> commits C r (r1\<lparr>rg_secrets := s\<rparr>)"
| entry: "commits C r r1 \<Longrightarrow> in_installation_id i \<noteq> [] \<Longrightarrow> C (dget (rg_installations r1) (in_installation_id i)) i \<Longrightarrow>
    commits C r (snd (commit_installation now ok action details i r1))"

lemma commits_ok: "commits C r r1 \<Longrightarrow> registry_ok r \<Longrightarrow> registry_ok r1"
  by (induction rule: commits.induct) (auto simp: registry_ok_secrets intro: commit_installation_ok)

lemma commits_trans: "commits C r1 r2 \<Longrightarrow> commits C r r1 \<Longrightarrow> commits C r r2"
  by (induction rule: commits.induct) (auto intro: commits.intros)

definition revoked_mark :: "installation \<Rightarrow> bool" where
  "revoked_mark i \<longleftrightarrow> (\<exists>h. dget (in_metadata i) ''health'' = Some (JObj h) \<and> dget h ''state'' = Some (JStr ''revoked''))"

definition keeps_metadata :: "installation option \<Rightarrow> installation \<Rightarrow> bool" where
  "keeps_metadata old i \<longleftrightarrow> (\<exists>x. old = Some x \<and> in_metadata i = in_metadata x)"

fun may_commit :: "registry_op \<Rightarrow> installation option \<Rightarrow> installation \<Rightarrow> bool" where
  "may_commit (Upsert_op _ q) old i = (in_installation_id i = py_strip (ur_installation_id q)
     \<and> (ur_metadata q = [] \<longrightarrow> in_metadata i = (case old of None \<Rightarrow> [] | Some x \<Rightarrow> in_metadata x)))"
| "may_commit (Activate_op _ k _) old i = (in_installation_id i = py_strip k)"
| "may_commit (Health_op k _ _ _) old i = (in_installation_id i = py_strip k)"
| "may_commit (Revoke_op _ k _) old i = (in_installation_id i = py_strip k \<and> (keeps_metadata old i \<or> revoked_mark i))"
| "may_commit Reload_op old i = False"
| "may_commit _ old i = keeps_metadata old i"

lemma transition_commits:
  assumes ok: "registry_ok r" and C: "\<And>old i. in_installation_id i = py_strip k \<Longrightarrow> keeps_metadata old i \<Longrightarrow> C old i"
  shows "commits C r (snd (transition_installation now w k target reason action r))"
proof (cases "dget (rg_installations r) (py_strip k)")
  case None
  then show ?thesis by (simp add: transition_installation_def commits.nothing)
next
  case (Some i)
  note id = registry_ok_id [OF ok Some]
  show ?thesis unfolding transition_installation_def Some option.case
    using id Some by (intro commits.entry commits.nothing C) (simp_all add: keeps_metadata_def)
qed

lemma health_commits:
  assumes ok: "registry_ok r"
    and C: "\<And>old i h. in_installation_id i = py_strip k \<Longrightarrow> dget (in_metadata i) ''health'' = Some (JObj h) \<Longrightarrow>
      dget h ''state'' = Some (JStr (health_state code)) \<Longrightarrow> C old i"
  shows "commits C r (snd (update_installation_health now w k code reason details r))"
proof (cases "dget (rg_installations r) (py_strip k)")
  case None
  then show ?thesis by (simp add: update_installation_health_def commits.nothing)
next
  case (Some i)
  note id = registry_ok_id [OF ok Some]
  show ?thesis unfolding update_installation_health_def Some option.case Let_def
    using id Some by (intro commits.entry commits.nothing C) ((simp add: dict_simps)+)
qed

lemma revoke_commits:
  assumes ok: "registry_ok r" and C: "\<And>old i. in_installation_id i = py_strip k \<Longrightarrow> keeps_metadata old i \<or> revoked_mark i \<Longrightarrow> C old i"
  shows "commits C r (snd (revoke_installation now ok1 ok2 k reason r))"
proof (cases "transition_installation now ok1 k INST_REVOKED reason ''revoke'' r")
  case (Pair a r1)
  have t: "commits C r r1" using transition_commits [OF ok, of k C now ok1 INST_REVOKED reason "''revoke''"] C Pair by simp
  have "health_state ''revoked'' = ''revoked''" by code_simp
  then have "commits C r1 (snd (update_installation_health now w k ''revoked'' reason' details r1))" for w reason' details
    using commits_ok [OF t ok] C by (intro health_commits) (auto simp: revoked_mark_def)
  then show ?thesis using t Pair by (auto simp: revoke_installation_def intro: commits_trans split: sum.split)
qed

lemma activate_commits:
  assumes ok: "registry_ok r" and C: "\<And>old i. in_installation_id i = py_strip k \<Longrightarrow> C old i"
  shows "commits C r (snd (activate_installation now ok1 ok2 k reason r))"
proof (cases "transition_installation now ok1 k INST_ACTIVE reason ''activate'' r")
  case (Pair a r1)
  have t: "commits C r r1" using transition_commits [OF ok, of k C now ok1 INST_ACTIVE reason "''activate''"] C Pair by simp
  have "commits C r1 (snd (update_installation_health now w k code reason' details r1))" for w code reason' details
    using commits_ok [OF t ok] C by (intro health_commits) auto
  then have "commits C r (snd (update_installation_health now w k code reason' details r1))" for w code reason' details
    using t by (rule commits_trans)
  then show ?thesis using t Pair by (auto simp: activate_installation_def split: sum.split)
qed

lemma upsert_commits:
  assumes C: "\<And>old i. in_installation_id i = py_strip (ur_installation_id q) \<Longrightarrow>
    (ur_metadata q = [] \<Longrightarrow> in_metadata i = (case old of None \<Rightarrow> [] | Some x \<Rightarrow> in_metadata x)) \<Longrightarrow> C old i"
  shows "commits C r (snd (upsert_installation lib now wr ok q r))"
proof -
  have "commits C r (snd (commit_installation now ok a d (upsert_record now q (p, t, w, i, st) refs (dget (rg_installations r) i)) (r\<lparr>rg_secrets := s\<rparr>)))"
    if "normalize_identifier (ur_installation_id q) ''installation_id'' = Inr i" for a d p t w i st refs s
    using that by (intro commits.entry commits.secrets commits.nothing C)
      (auto simp: upsert_record_def normalize_identifier_def Let_def split: if_splits)
  then show ?thesis
    by (auto simp: upsert_installation_def Let_def intro: commits.secrets commits.nothing split: sum.split prod.split)
qed

lemma rotate_commits:
  assumes ok: "registry_ok r" and C: "\<And>old i. keeps_metadata old i \<Longrightarrow> C old i"
  shows "commits C r (snd (rotate_installation_tokens lib now wr w k vals reason r))"
proof (cases "dget (rg_installations r) (py_strip k)")
  case (Some i)
  note id = registry_ok_id [OF ok Some]
  have "commits C r (snd (commit_installation now w a d (i\<lparr>in_token_refs := refs, in_status := INST_ROTATING, in_status_reason := reason, in_updated_at := now\<rparr>) (r\<lparr>rg_secrets := s\<rparr>)))"
    for a d refs s using id Some by (intro commits.entry commits.secrets commits.nothing C) (simp_all add: keeps_metadata_def)
  then show ?thesis using Some
    by (auto simp: rotate_installation_tokens_def Let_def intro: commits.secrets commits.nothing split: sum.split prod.split)
qed (simp add: rotate_installation_tokens_def commits.nothing)

lemma uninstall_commits:
  assumes ok: "registry_ok r" and C: "\<And>old i. keeps_metadata old i \<Longrightarrow> C old i"
  shows "commits C r (snd (uninstall_installation lib now wr w k reason r))"
proof (cases "dget (rg_installations r) (py_strip k)")
  case (Some i)
  note id = registry_ok_id [OF ok Some]
  have "commits C r (snd (commit_installation now w a d (i\<lparr>in_status := INST_UNINSTALLED, in_status_reason := reason, in_updated_at := now\<rparr>) (r\<lparr>rg_secrets := s\<rparr>)))"
    for a d s using id Some by (intro commits.entry commits.secrets commits.nothing C) (simp_all add: keeps_metadata_def)
  then show ?thesis using Some
    by (auto simp: uninstall_installation_def intro: commits.secrets commits.nothing split: sum.split prod.split)
qed (simp add: uninstall_installation_def commits.nothing)

lemma step_commits:
  "registry_ok r \<Longrightarrow> op \<noteq> Reload_op \<Longrightarrow> commits (may_commit op) r (registry_step lib (now, ok, op) r)"
  by (cases op) (simp_all add: deactivate_installation_def upsert_commits activate_commits rotate_commits revoke_commits transition_commits
    uninstall_commits health_commits)

lemma registry_step_ok: "registry_ok r \<Longrightarrow> registry_ok (registry_step lib e r)"
proof -
  assume ok: "registry_ok r"
  obtain now w op where e: "e = (now, w, op)" by (cases e)
  show ?thesis
  proof (cases "op = Reload_op")
    case True
    then show ?thesis using ok by (auto simp: e registry_ok_def [of r] intro: load_registry_ok)
  next
    case False
    then show ?thesis using commits_ok [OF step_commits [OF ok False] ok] by (simp add: e)
  qed
qed

interpretation registry_runs: machine "registry_step lib" registry_ok for lib
  by unfold_locales (rule registry_step_ok)

subsection \<open>Revoked installations\<close>

text \<open>The entry is marked as revoked, in memory and in the file.\<close>

definition marked_in :: "string \<Rightarrow> (string, installation) dict \<Rightarrow> bool" where
  "marked_in i d \<longleftrightarrow> (\<exists>x. dget d i = Some x \<and> revoked_mark x)"

definition held_revoked :: "string \<Rightarrow> 'e registry \<Rightarrow> bool" where
  "held_revoked i r \<longleftrightarrow> registry_ok r \<and> marked_in i (rg_installations r)
     \<and> (\<exists>rows trail. rg_file r = RF_rows (map Some rows) (map Some trail) \<and> marked_in i (load_rows rows))"

lemma save_registry_held:
  assumes "registry_ok r" and "marked_in i (rg_installations r)"
    and "ok \<or> (\<exists>rows trail. rg_file r = RF_rows (map Some rows) (map Some trail) \<and> marked_in i (load_rows rows))"
  shows "held_revoked i (snd (save_registry ok r))"
proof (cases ok)
  case True
  have "load_rows (dvals (rg_installations r)) = rg_installations r"
    using assms(1) by (simp add: registry_ok_def load_rows_dvals)
  then show ?thesis using True assms(2) save_registry_ok [OF assms(1), of ok]
    by (auto simp: held_revoked_def save_registry_def intro!: exI [of _ "dvals (rg_installations r)"])
next
  case False
  then show ?thesis using assms save_registry_ok [OF assms(1), of ok] by (auto simp: held_revoked_def save_registry_def)
qed

lemma commit_held:
  assumes r: "registry_ok r" and j: "in_installation_id j \<noteq> []" and m: "marked_in i (dput (in_installation_id j) j (rg_installations r))"
    and f: "ok \<or> (\<exists>rows trail. rg_file r = RF_rows (map Some rows) (map Some trail) \<and> marked_in i (load_rows rows))"
  shows "held_revoked i (snd (commit_installation now ok action details j r))"
  unfolding commit_installation_def Let_def split_def snd_conv
  using m f by (intro save_registry_held audit_installation_ok r j) (simp_all add: audit_installation_def Let_def)

lemma commits_held:
  assumes "commits C r r1" and "held_revoked i r"
    and C: "\<And>old j. C old j \<Longrightarrow> in_installation_id j = i \<Longrightarrow> \<exists>x. old = Some x \<and> revoked_mark x \<Longrightarrow> revoked_mark j"
  shows "held_revoked i r1"
  using assms(1,2)
proof induction
  case (entry r r1 j now ok action details)
  have h: "held_revoked i r1" using entry by blast
  then have "marked_in i (dput (in_installation_id j) j (rg_installations r1))"
    using C [OF entry.hyps(3)] by (auto simp: held_revoked_def marked_in_def dict_simps)
  then show ?case using h entry.hyps(2) by (intro commit_held) (auto simp: held_revoked_def)
qed (simp_all add: held_revoked_def registry_ok_secrets)

text \<open>Operations that do not lift the mark of installation \<open>i\<close>.\<close>

fun leaves_mark :: "string \<Rightarrow> registry_op \<Rightarrow> bool" where
  "leaves_mark i (Upsert_op _ q) = (py_strip (ur_installation_id q) \<noteq> i \<or> ur_metadata q = [])"
| "leaves_mark i (Activate_op _ k _) = (py_strip k \<noteq> i)"
| "leaves_mark i (Health_op k _ _ _) = (py_strip k \<noteq> i)"
| "leaves_mark i _ = True"

lemma revoked_step_held:
  assumes h: "held_revoked i r" and l: "leaves_mark i op"
  shows "held_revoked i (registry_step lib (now, ok, op) r)"
proof (cases "op = Reload_op")
  case True
  have "registry_ok (registry_step lib (now, ok, op) r)" using h by (intro registry_step_ok) (simp add: held_revoked_def)
  then show ?thesis using h True
    by (auto simp: held_revoked_def load_registry_def map_filter_Some image_iff)
next
  case False
  have r: "registry_ok r" using h by (simp add: held_revoked_def)
  have "revoked_mark j" if "may_commit op old j" "in_installation_id j = i" "\<exists>x. old = Some x \<and> revoked_mark x" for old j
    using that l by (cases op) (auto simp: keeps_metadata_def revoked_mark_def)
  then show ?thesis using commits_held [OF step_commits [OF r False] h] by blast
qed

lemma revoked_run_held:
  "held_revoked i r \<Longrightarrow> \<forall>e \<in> set es. leaves_mark i (snd (snd e)) \<Longrightarrow> held_revoked i (fold (registry_step lib) es r)"
proof (induction es arbitrary: r)
  case (Cons e es)
  then show ?case using revoked_step_held [of i r "snd (snd e)" lib "fst e" "fst (snd e)"] by auto
qed simp

lemma revoke_held:
  assumes r: "registry_ok r" and v: "revoke_installation now True True k reason r = (Inr x, r1)"
  shows "held_revoked (py_strip k) r1"
proof -
  obtain i0 r0 where t: "transition_installation now True k INST_REVOKED reason ''revoke'' r = (Inr i0, r0)"
    using v by (auto simp: revoke_installation_def split: prod.splits sum.splits)
  have ok0: "registry_ok r0"
    using commits_ok [OF transition_commits [OF r, where C = "\<lambda>_ _. True"] r] t by (metis snd_conv)
  have u: "update_installation_health now True k ''revoked'' (if reason = [] then ''revoked'' else reason) [(''status'', JStr INST_REVOKED)] r0 = (Inr x, r1)"
    using v t by (simp add: revoke_installation_def)
  then obtain i where i: "dget (rg_installations r0) (py_strip k) = Some i"
    by (auto simp: update_installation_health_def split: option.splits)
  have st: "health_state ''revoked'' = ''revoked''" by code_simp
  have "r1 = snd (update_installation_health now True k ''revoked'' (if reason = [] then ''revoked'' else reason) [(''status'', JStr INST_REVOKED)] r0)"
    using u by simp
  also have "held_revoked (py_strip k) \<dots>"
    unfolding update_installation_health_def i option.case Let_def st
    using registry_ok_id [OF ok0 i] by (intro commit_held ok0) (simp_all add: marked_in_def revoked_mark_def dict_simps)
  finally show ?thesis .
qed

lemma revoked_mark_code: "revoked_mark i \<Longrightarrow> health_code_of lib i = Some ''revoked''"
proof -
  have "py_strip ''revoked'' = ''revoked''" "py_lower ''revoked'' = ''revoked''" by code_simp+
  then show "revoked_mark i \<Longrightarrow> health_code_of lib i = Some ''revoked''"
    by (auto simp: revoked_mark_def health_code_of_def Let_def dest: map_of_SomeD)
qed

text \<open>
  C34: Once an installation is revoked, no request resolves to it any more, whatever happens next:
  rotating its tokens, deactivating or updating it, operations on other installations, failed
  writes and restarts. Only an activation, an explicit health report, or an update that brings its
  own metadata lifts the revocation.
\<close>

theorem revoked_stays_unresolved:
  assumes "registry_ok r" and "revoke_installation now True True k reason r = (Inr x, r1)"
    and "\<forall>e \<in> set es. leaves_mark (py_strip k) (snd (snd e))"
    and "resolve_installation lib platform ws tn (fold (registry_step lib) es r1) = Inr s" and "rs_installation s = Some y"
  shows "in_installation_id y \<noteq> py_strip k"
proof
  assume y: "in_installation_id y = py_strip k"
  let ?r = "fold (registry_step lib) es r1"
  have h: "held_revoked (py_strip k) ?r" using revoke_held [OF assms(1,2)] assms(3) by (rule revoked_run_held)
  have "rs_ok s" using assms(4,5)
    by (auto simp: resolve_installation_def resolve_matches_def resolve_eligible_def rejected_def Let_def split: sum.splits if_splits list.splits option.splits)
  then obtain i where f: "filter (\<lambda>i. bound_to lib platform ws tn i \<and> in_status i \<in> set RESOLVABLE_STATUSES) (dvals (rg_installations ?r)) = [i]"
    and e: "rs_installation s = Some i \<and> (\<exists>code. health_code_of lib i = Some code \<and> code \<notin> set UNRESOLVABLE_HEALTH_CODES)"
    using resolve_ok [OF assms(4)] resolve_eligible_ok by blast
  have i: "i \<in> set (dvals (rg_installations ?r))" "rs_installation s = Some i"
    "\<exists>code. health_code_of lib i = Some code \<and> code \<notin> {''invalid_token'', ''revoked''}"
    using filter_single [OF f] e by (simp_all add: UNRESOLVABLE_HEALTH_CODES_def)
  have "dget (rg_installations ?r) (py_strip k) = Some i"
    using h i(1,2) y assms(5) own_keys_dget [of in_installation_id "rg_installations ?r" i] by (simp add: held_revoked_def registry_ok_def)
  then have "revoked_mark i" using h by (auto simp: held_revoked_def marked_in_def)
  then show False using i(3) revoked_mark_code [of i lib] by auto
qed

subsection \<open>A registry with one and with two installations\<close>

definition demo_lib :: "(string, string) dict inst_lib" where
  "demo_lib = \<lparr>il_cipher = demo_cipher, il_env = (\<lambda>_. None), il_current = [], il_str = (\<lambda>_. []), il_dict = (\<lambda>_. None)\<rparr>"

definition demo_upsert :: "string \<Rightarrow> string \<Rightarrow> upsert_request" where
  "demo_upsert tenant i = \<lparr>ur_platform = ''Slack'', ur_tenant_id = tenant, ur_workspace_id = ''W1'', ur_installation_id = i,
     ur_token_values = [(''bot'', ''xoxb'')], ur_token_refs = [], ur_status = ''active'', ur_metadata = [], ur_status_reason = []\<rparr>"

definition empty_registry :: "(string, string) dict registry" where
  "empty_registry = \<lparr>rg_installations = [], rg_audit_trail = [], rg_secrets = \<lparr>st_secrets = [], st_file = SF_missing, st_legacy = LF_missing\<rparr>, rg_file = RF_missing\<rparr>"

definition demo_registry :: "(string, string) dict registry" where
  "demo_registry = registry_step demo_lib (1, True, Upsert_op (\<lambda>_. True) (demo_upsert ''default'' '' I1 '')) empty_registry"

definition demo_installation :: "string \<Rightarrow> installation" where
  "demo_installation i = \<lparr>in_platform = ''slack'', in_workspace_id = ''W1'', in_installation_id = i, in_tenant_id = ''default'',
     in_token_refs = [(''bot'', ''connector_installation:'' @ i @ '':bot'')], in_status = ''active'', in_updated_at = 1, in_created_at = 1,
     in_status_reason = [], in_metadata = []\<rparr>"

definition demo_resolution :: "string \<Rightarrow> resolution" where
  "demo_resolution i = \<lparr>rs_ok = True, rs_installation = Some (demo_installation i), rs_reject_reason = [],
     rs_audit_code = ''conn_install.resolve_ok'', rs_health_code = ''ok''\<rparr>"

definition demo_revoked :: "(inst_error + installation) \<times> (string, string) dict registry" where
  "demo_revoked = revoke_installation 2 True True ''I1'' ''stolen'' demo_registry"

definition demo_events :: "(time \<times> bool \<times> registry_op) list" where
  "demo_events = [(1, False, Rotate_op (\<lambda>_. True) ''I1'' [] []), (1, True, Upsert_op (\<lambda>_. True) (demo_upsert ''default'' ''I2'')), (1, True, Reload_op),
     (1, True, Upsert_op (\<lambda>_. False) ((demo_upsert ''default'' ''I2'')\<lparr>ur_token_values := []\<rparr>)), (1, False, Deactivate_op ''I1'' [])]"

lemma single_tenant_default: "\<not> is_multi_tenant_enabled (\<lambda>_. None)"
  by (simp add: is_multi_tenant_enabled_def env_value_empty) code_simp

lemma demo_resolve:
  "resolve_installation demo_lib platform ws None r =
    (case normalize_platform platform of Inl e \<Rightarrow> Inl e | Inr p \<Rightarrow>
     case normalize_identifier ws ''workspace_id'' of Inl e \<Rightarrow> Inl e | Inr w \<Rightarrow>
       resolve_matches demo_lib (filter (\<lambda>i. in_platform i = p \<and> in_workspace_id i = w) (dvals (rg_installations r))) r)"
  by (simp add: resolve_installation_def demo_lib_def single_tenant_default get_current_tenant_id_def default_tenant_normalized Let_def cong: sum.case_cong)

lemma demo_resolves: "resolve_installation demo_lib ''SLACK'' '' W1 '' None demo_registry = Inr (demo_resolution ''I1'')"
  unfolding demo_resolve by code_simp

lemma demo_resolves_other:
  "resolve_installation demo_lib ''slack'' ''W1'' None (fold (registry_step demo_lib) demo_events (snd demo_revoked)) = Inr (demo_resolution ''I2'')"
  unfolding demo_resolve by code_simp

lemma empty_registry_ok: "registry_ok empty_registry"
  by (simp add: registry_ok_def empty_registry_def file_trail_ok_def)

lemma demo_registry_ok: "registry_ok demo_registry"
  unfolding demo_registry_def by (rule registry_step_ok [OF empty_registry_ok])

theorem resolution_sound_witness:
  "\<exists>i \<in> set (dvals (rg_installations demo_registry)). rs_installation (demo_resolution ''I1'') = Some i \<and> bound_to demo_lib ''SLACK'' '' W1 '' None i
    \<and> in_status i \<in> {''active'', ''rotating''}
    \<and> (\<forall>j \<in> set (dvals (rg_installations demo_registry)). bound_to demo_lib ''SLACK'' '' W1 '' None j \<and> in_status j \<in> {''active'', ''rotating''} \<longrightarrow> j = i)
    \<and> (\<exists>code. health_code_of demo_lib i = Some code \<and> code \<notin> {''invalid_token'', ''revoked''})
    \<and> (\<forall>(name, ref) \<in> set (in_token_refs i). \<exists>v. v \<noteq> [] \<and> get_secret (il_env demo_lib) (il_current demo_lib) ref (Some (in_tenant_id i)) (rg_secrets demo_registry) = Inr (Some v))"
  by (rule resolution_sound [OF demo_resolves]) (simp add: demo_resolution_def)

theorem revoked_stays_unresolved_witness:
  "in_installation_id (demo_installation ''I2'') \<noteq> py_strip ''I1''"
proof (rule revoked_stays_unresolved [OF demo_registry_ok, where es = demo_events])
  show "revoke_installation 2 True True ''I1'' ''stolen'' demo_registry = (Inr (projr (fst demo_revoked)), snd demo_revoked)"
    by code_simp
  show "\<forall>e \<in> set demo_events. leaves_mark (py_strip ''I1'') (snd (snd e))" by code_simp
  show "resolve_installation demo_lib ''slack'' ''W1'' None (fold (registry_step demo_lib) demo_events (snd demo_revoked)) = Inr (demo_resolution ''I2'')"
    by (rule demo_resolves_other)
  show "rs_installation (demo_resolution ''I2'') = Some (demo_installation ''I2'')" by (simp add: demo_resolution_def)
qed

text \<open>Rotating the tokens of an installation that was deactivated makes it resolvable again.\<close>

lemma rotation_reactivates:
  "map_sum id rs_ok (resolve_installation demo_lib ''slack'' ''W1'' None
     (fold (registry_step demo_lib) [(2, True, Deactivate_op ''I1'' ''stop''), (3, True, Rotate_op (\<lambda>_. True) ''I1'' [] [])] demo_registry)) = Inr True"
  unfolding demo_resolve by code_simp

text \<open>An update from another tenant takes an installation over, with what was bound to it.\<close>

lemma installation_taken_over:
  "map_option in_tenant_id (dget (rg_installations (registry_step demo_lib (2, True, Upsert_op (\<lambda>_. True) (demo_upsert ''acme'' ''I1'')) demo_registry)) ''I1'')
     = Some ''acme''"
  by code_simp

text \<open>One row that cannot be read makes the registry forget all installations and its trail.\<close>

lemma bad_row_drops_all:
  "None \<in> set rows \<Longrightarrow> rg_installations (load_registry (RF_rows rows trail) s) = [] \<and> rg_audit_trail (load_registry (RF_rows rows trail) s) = []"
  by (simp add: load_registry_def)

end
