(* ===== verification/Callback_Gate.thy ===== *)
theory Callback_Gate
  imports Installations Transport Replay_Lifecycle
begin

text \<open>
  \<open>services/connector_callback_contract.py\<close>: the gate for interactive callbacks of the chat
  platforms (a pressed button). It checks the envelope, its age, hash and signature, claims the
  request in the replay table, resolves the installation and applies the policy of the action.
\<close>

subsection \<open>Data\<close>

datatype decision_code = ACCEPT_PUBLIC | ACCEPT_RUN | ACCEPT_ADMIN | REQUIRE_APPROVAL | REJECT_SIGNATURE | REJECT_TIMESTAMP
  | REJECT_PAYLOAD_HASH | REJECT_REPLAY | REJECT_UNKNOWN_ACTION | REJECT_MISSING_INSTALLATION | REJECT_AMBIGUOUS_INSTALLATION
  | REJECT_INACTIVE_INSTALLATION | REJECT_STALE_TOKEN_REF | REJECT_TENANT_MISMATCH | REJECT_POLICY_DENIED | REJECT_INVALID_ENVELOPE

fun decision_value :: "decision_code \<Rightarrow> string" where
  "decision_value ACCEPT_PUBLIC = ''cb_accept_public''"
| "decision_value ACCEPT_RUN = ''cb_accept_run''"
| "decision_value ACCEPT_ADMIN = ''cb_accept_admin''"
| "decision_value REQUIRE_APPROVAL = ''cb_require_approval''"
| "decision_value REJECT_SIGNATURE = ''cb_reject_signature''"
| "decision_value REJECT_TIMESTAMP = ''cb_reject_timestamp''"
| "decision_value REJECT_PAYLOAD_HASH = ''cb_reject_payload_hash''"
| "decision_value REJECT_REPLAY = ''cb_reject_replay''"
| "decision_value REJECT_UNKNOWN_ACTION = ''cb_reject_unknown_action''"
| "decision_value REJECT_MISSING_INSTALLATION = ''cb_reject_missing_installation''"
| "decision_value REJECT_AMBIGUOUS_INSTALLATION = ''cb_reject_ambiguous_installation''"
| "decision_value REJECT_INACTIVE_INSTALLATION = ''cb_reject_inactive_installation''"
| "decision_value REJECT_STALE_TOKEN_REF = ''cb_reject_stale_token_ref''"
| "decision_value REJECT_TENANT_MISMATCH = ''cb_reject_tenant_mismatch''"
| "decision_value REJECT_POLICY_DENIED = ''cb_reject_policy_denied''"
| "decision_value REJECT_INVALID_ENVELOPE = ''cb_reject_invalid_envelope''"

record actor =
  ac_is_admin :: bool
  ac_is_trusted :: bool
  ac_user_id :: string
  ac_tenant_id :: string

record envelope =
  en_signature :: string
  en_timestamp :: int
  en_request_id :: string
  en_workspace_id :: string
  en_action_type :: string
  en_payload_hash :: string

record decision =
  dc_ok :: bool
  dc_code :: decision_code
  dc_command_class :: string
  dc_requires_approval :: bool
  dc_callback_id :: string
  dc_installation_id :: string
  dc_message :: string

datatype gate_error = Gate_installation inst_error | Gate_callback callback_error

text \<open>
  The parameters of the constructor, the process, and the digests: the canonical payload hash, the
  HMAC of a key and a text, and the short hash of the callback records.
\<close>

record 'e gate_conf =
  gc_inst :: "'e inst_lib"
  gc_signing_secret :: string
  gc_action_policy_map :: "(string, string) dict"
  gc_drift_sec :: int
  gc_payload_hash :: "(string \<times> json) list \<Rightarrow> string"
  gc_hmac :: "string \<Rightarrow> string \<Rightarrow> string"
  gc_short_hash :: "json \<Rightarrow> string"

record 'e callback_gate =
  cg_replay :: lifecycle
  cg_callbacks :: callbacks
  cg_registry :: "'e registry"

text \<open>The defaults of the constructor.\<close>

definition make_conf ::
  "'e inst_lib \<Rightarrow> string \<Rightarrow> (string, string) dict \<Rightarrow> int \<Rightarrow> ((string \<times> json) list \<Rightarrow> string) \<Rightarrow> (string \<Rightarrow> string \<Rightarrow> string) \<Rightarrow> (json \<Rightarrow> string) \<Rightarrow> 'e gate_conf" where
  "make_conf lib secret policy drift hash hmac short =
     \<lparr>gc_inst = lib, gc_signing_secret = secret, gc_action_policy_map = policy, gc_drift_sec = max 1 drift,
      gc_payload_hash = hash, gc_hmac = hmac, gc_short_hash = short\<rparr>"

definition make_gate :: "'e registry \<Rightarrow> 'e callback_gate" where
  "make_gate r = \<lparr>cg_replay = make_lifecycle 300 5000, cg_callbacks = make_callbacks 3 300 3, cg_registry = r\<rparr>"

subsection \<open>Envelope, signature and policy\<close>

definition text_of :: "'e gate_conf \<Rightarrow> json \<Rightarrow> string" where
  "text_of c j = (case j of JStr s \<Rightarrow> s | _ \<Rightarrow> il_str (gc_inst c) j)"

definition envelope_text :: "'e gate_conf \<Rightarrow> string \<Rightarrow> (string \<times> json) list \<Rightarrow> string" where
  "envelope_text c k d = py_strip (case dget d k of None \<Rightarrow> [] | Some j \<Rightarrow> text_of c j)"

definition parse_envelope :: "'e gate_conf \<Rightarrow> (string \<times> json) list \<Rightarrow> string + envelope" where
  "parse_envelope c d = (case json_int (case dget d ''timestamp'' of None \<Rightarrow> JInt 0 | Some j \<Rightarrow> j) of
       None \<Rightarrow> Inl ''timestamp must be integer''
     | Some ts \<Rightarrow>
        let e = \<lparr>en_signature = envelope_text c ''signature'' d, en_timestamp = ts, en_request_id = envelope_text c ''request_id'' d,
                 en_workspace_id = envelope_text c ''workspace_id'' d, en_action_type = envelope_text c ''action_type'' d,
                 en_payload_hash = envelope_text c ''payload_hash'' d\<rparr>
        in if en_signature e = [] \<or> en_request_id e = [] \<or> en_workspace_id e = [] \<or> en_action_type e = [] \<or> en_payload_hash e = [] \<or> ts = 0
           then Inl ''callback envelope fields must be non-empty'' else Inr e)"

definition compute_signature :: "'e gate_conf \<Rightarrow> envelope \<Rightarrow> string" where
  "compute_signature c e = gc_hmac c (gc_signing_secret c)
     (''v1:'' @ int_str (en_timestamp e) @ '':'' @ en_request_id e @ '':'' @ en_workspace_id e @ '':'' @ en_action_type e @ '':'' @ en_payload_hash e)"

definition build_envelope :: "'e gate_conf \<Rightarrow> time \<Rightarrow> string \<Rightarrow> string \<Rightarrow> string \<Rightarrow> (string \<times> json) list \<Rightarrow> int option \<Rightarrow> envelope" where
  "build_envelope c now request_id workspace_id action_type payload timestamp =
    (let ts = (case timestamp of Some n \<Rightarrow> if n = 0 then trunc now else n | None \<Rightarrow> trunc now);
         unsigned = \<lparr>en_signature = [], en_timestamp = ts, en_request_id = request_id, en_workspace_id = workspace_id,
                     en_action_type = action_type, en_payload_hash = gc_payload_hash c payload\<rparr>
     in unsigned\<lparr>en_signature := compute_signature c unsigned\<rparr>)"

definition rejection :: "decision_code \<Rightarrow> string \<Rightarrow> string \<Rightarrow> string \<Rightarrow> decision" where
  "rejection code installation_id callback_class message =
     \<lparr>dc_ok = False, dc_code = code, dc_command_class = callback_class, dc_requires_approval = False, dc_callback_id = [],
      dc_installation_id = installation_id, dc_message = message\<rparr>"

definition map_installation_reject :: "resolution \<Rightarrow> decision" where
  "map_installation_reject res =
    (let reason = rs_reject_reason res in
     rejection (if reason = ''missing_binding'' then REJECT_MISSING_INSTALLATION
       else if reason = ''ambiguous_binding'' then REJECT_AMBIGUOUS_INSTALLATION
       else if reason = ''inactive_binding'' then REJECT_INACTIVE_INSTALLATION
       else if starts_with ''stale_token_ref'' reason then REJECT_STALE_TOKEN_REF
       else if reason = ''tenant_mismatch'' then REJECT_TENANT_MISMATCH
       else REJECT_INVALID_ENVELOPE) [] [] reason)"

text \<open>The first pattern with a trailing star that fits.\<close>

fun wildcard_policy :: "string \<Rightarrow> (string, string) dict \<Rightarrow> string option" where
  "wildcard_policy action_type [] = None"
| "wildcard_policy action_type ((key, value) # ps) =
     (if ends_with ''*'' key \<and> starts_with (butlast key) action_type then Some value else wildcard_policy action_type ps)"

definition resolve_action_policy :: "'e gate_conf \<Rightarrow> string \<Rightarrow> string option" where
  "resolve_action_policy c action_type = (case dget (gc_action_policy_map c) action_type of
       Some v \<Rightarrow> Some v | None \<Rightarrow> wildcard_policy action_type (gc_action_policy_map c))"

definition lifecycle_key :: "string \<Rightarrow> string \<Rightarrow> string \<Rightarrow> string" where
  "lifecycle_key workspace_id action_type request_id = ''interactive:'' @ workspace_id @ '':'' @ action_type @ '':'' @ request_id"

definition request_lifecycle_key :: "envelope \<Rightarrow> string" where
  "request_lifecycle_key e = lifecycle_key (en_workspace_id e) (en_action_type e) (en_request_id e)"

subsection \<open>Evaluation\<close>

text \<open>The policy of the command class; whether the request ends with the decision.\<close>

definition decide :: "actor \<Rightarrow> string \<Rightarrow> string \<Rightarrow> string \<Rightarrow> decision \<times> bool" where
  "decide a cls callback_id installation_id =
    (let d = \<lparr>dc_ok = True, dc_code = ACCEPT_PUBLIC, dc_command_class = cls, dc_requires_approval = False,
              dc_callback_id = callback_id, dc_installation_id = installation_id, dc_message = []\<rparr>
     in if cls = ''public'' then (d, False)
        else if cls = ''run'' then
          (if ac_is_admin a \<or> ac_is_trusted a then (d\<lparr>dc_code := ACCEPT_RUN\<rparr>, False)
           else (d\<lparr>dc_ok := False, dc_code := REQUIRE_APPROVAL, dc_requires_approval := True\<rparr>, False))
        else if cls = ''admin'' then
          (if ac_is_admin a then (d\<lparr>dc_code := ACCEPT_ADMIN\<rparr>, False)
           else (d\<lparr>dc_ok := False, dc_code := REJECT_POLICY_DENIED, dc_message := ''admin_required''\<rparr>, True))
        else (rejection REJECT_UNKNOWN_ACTION installation_id [] ''unsupported_command_class'', True))"

definition end_request :: "time \<Rightarrow> string \<Rightarrow> decision \<Rightarrow> 'e callback_gate \<Rightarrow> 'e callback_gate" where
  "end_request now key d g = g\<lparr>cg_replay := snd (fail_terminal now key (decision_value (dc_code d)) (cg_replay g))\<rparr>"

definition callback_metadata :: "string \<Rightarrow> envelope \<Rightarrow> installation \<Rightarrow> (string \<times> json) list" where
  "callback_metadata platform e i = [(''platform'', JStr platform), (''workspace_id'', JStr (en_workspace_id e)),
     (''action_type'', JStr (en_action_type e)), (''installation_id'', JStr (in_installation_id i))]"

definition record_and_decide ::
  "'e gate_conf \<Rightarrow> time \<Rightarrow> string \<Rightarrow> string \<Rightarrow> envelope \<Rightarrow> (string \<times> json) list \<Rightarrow> actor \<Rightarrow> installation \<Rightarrow> string \<Rightarrow> 'e callback_gate
    \<Rightarrow> (gate_error + decision) \<times> 'e callback_gate" where
  "record_and_decide c now hex platform e payload a i cls g =
    (case create_callback (gc_short_hash c) now hex (en_request_id e) payload None None False (callback_metadata platform e i) (cg_callbacks g) of
       (Inl err, cb) \<Rightarrow> (Inl (Gate_callback err), g\<lparr>cg_callbacks := cb\<rparr>)
     | (Inr r, cb) \<Rightarrow>
        (let (d, ends) = decide a cls (cb_callback_id r) (in_installation_id i); g1 = g\<lparr>cg_callbacks := cb\<rparr>
         in (Inr d, if ends then end_request now (request_lifecycle_key e) d g1 else g1)))"

definition evaluate_claimed ::
  "'e gate_conf \<Rightarrow> time \<Rightarrow> string \<Rightarrow> string \<Rightarrow> envelope \<Rightarrow> (string \<times> json) list \<Rightarrow> actor \<Rightarrow> 'e callback_gate
    \<Rightarrow> (gate_error + decision) \<times> 'e callback_gate" where
  "evaluate_claimed c now hex platform e payload a g =
    (let lib = gc_inst c;
         tenant = (if ac_tenant_id a = [] then get_current_tenant_id (il_env lib) (il_current lib) else ac_tenant_id a)
     in case resolve_installation lib platform (en_workspace_id e) (Some tenant) (cg_registry g) of
       Inl err \<Rightarrow> (Inl (Gate_installation err), g)
     | Inr res \<Rightarrow>
        (case (if rs_ok res then rs_installation res else None) of
           None \<Rightarrow> (let d = map_installation_reject res in (Inr d, end_request now (request_lifecycle_key e) d g))
         | Some i \<Rightarrow>
            (case resolve_action_policy c (en_action_type e) of
               None \<Rightarrow> (let d = rejection REJECT_UNKNOWN_ACTION (in_installation_id i) [] ''unknown_action_type''
                        in (Inr d, end_request now (request_lifecycle_key e) d g))
             | Some cls \<Rightarrow> record_and_decide c now hex platform e payload a i cls g)))"

definition claim_text :: "claim_code \<Rightarrow> string" where
  "claim_text code = (case code of CODE_CLAIMED \<Rightarrow> ''claimed'' | CODE_RETRY_CLAIMED \<Rightarrow> ''retry_claimed''
     | CODE_DUPLICATE_IN_FLIGHT \<Rightarrow> ''duplicate_in_flight'' | CODE_DUPLICATE_AFTER_SUCCESS \<Rightarrow> ''duplicate_after_success''
     | CODE_DUPLICATE_AFTER_TERMINAL_FAILURE \<Rightarrow> ''duplicate_after_terminal_failure'')"

text \<open>The checks before anything is stored: \<open>None\<close> lets the envelope through.\<close>

definition envelope_refused :: "'e gate_conf \<Rightarrow> time \<Rightarrow> envelope \<Rightarrow> (string \<times> json) list \<Rightarrow> decision option" where
  "envelope_refused c now e payload =
    (if \<bar>trunc now - en_timestamp e\<bar> > gc_drift_sec c then Some (rejection REJECT_TIMESTAMP [] [] ''timestamp_out_of_window'')
     else if gc_payload_hash c payload \<noteq> en_payload_hash e then Some (rejection REJECT_PAYLOAD_HASH [] [] ''payload_hash_mismatch'')
     else if gc_signing_secret c = [] \<or> compute_signature c e \<noteq> en_signature e then Some (rejection REJECT_SIGNATURE [] [] ''signature_mismatch'')
     else None)"

definition evaluate_callback ::
  "'e gate_conf \<Rightarrow> time \<Rightarrow> string \<Rightarrow> string \<Rightarrow> (string \<times> json) list \<Rightarrow> (string \<times> json) list \<Rightarrow> actor \<Rightarrow> 'e callback_gate
    \<Rightarrow> (gate_error + decision) \<times> 'e callback_gate" where
  "evaluate_callback c now hex platform envelope_dict payload a g =
    (case parse_envelope c envelope_dict of
       Inl msg \<Rightarrow> (Inr (rejection REJECT_INVALID_ENVELOPE [] [] msg), g)
     | Inr e \<Rightarrow> (case envelope_refused c now e payload of
         Some d \<Rightarrow> (Inr d, g)
       | None \<Rightarrow>
          (case lc_claim now (request_lifecycle_key e) [(''workspace_id'', en_workspace_id e), (''action_type'', en_action_type e)] (cg_replay g) of
             (None, l) \<Rightarrow> (Inr (rejection REJECT_INVALID_ENVELOPE [] [] []), g)
           | (Some r, l) \<Rightarrow>
              (let g1 = g\<lparr>cg_replay := l\<rparr>
               in if \<not> cr_accepted r then (Inr (rejection REJECT_REPLAY [] [] (claim_text (cr_code r))), g1)
                  else evaluate_claimed c now hex platform e payload a g1))))"

subsection \<open>What happens to an accepted request\<close>

definition get_request_record :: "time \<Rightarrow> string \<Rightarrow> 'e callback_gate \<Rightarrow> callback_record option \<times> 'e callback_gate" where
  "get_request_record now request_id g =
    (let (r, cb) = get_by_idempotency_key now (py_strip request_id) (cg_callbacks g) in (r, g\<lparr>cg_callbacks := cb\<rparr>))"

definition acknowledge_request :: "time \<Rightarrow> string \<Rightarrow> 'e callback_gate \<Rightarrow> (callback_error + callback_record) \<times> 'e callback_gate" where
  "acknowledge_request now request_id g = (case get_request_record now request_id g of
       (None, g1) \<Rightarrow> (Inl (Callback_not_found request_id), g1)
     | (Some r, g1) \<Rightarrow>
        (let (x, cb) = acknowledge_callback now (cb_callback_id r) (cg_callbacks g1) in (x, g1\<lparr>cg_callbacks := cb\<rparr>)))"

text \<open>\<open>str(d.get(k, "") or "")\<close>\<close>

definition meta_text :: "'e gate_conf \<Rightarrow> string \<Rightarrow> (string \<times> json) list \<Rightarrow> string" where
  "meta_text c k d = (case dget d k of None \<Rightarrow> [] | Some j \<Rightarrow> if truthy j then text_of c j else [])"

text \<open>The key of the request in the replay table, from the metadata of its record.\<close>

definition record_lifecycle_key :: "'e gate_conf \<Rightarrow> string \<Rightarrow> callback_record \<Rightarrow> string option" where
  "record_lifecycle_key c request_id r =
    (let ws = meta_text c ''workspace_id'' (cb_metadata r); act = meta_text c ''action_type'' (cb_metadata r)
     in if ws \<noteq> [] \<and> act \<noteq> [] then Some (lifecycle_key ws act request_id) else None)"

definition complete_request :: "'e gate_conf \<Rightarrow> time \<Rightarrow> string \<Rightarrow> 'e callback_gate \<Rightarrow> (callback_error + callback_record) \<times> 'e callback_gate" where
  "complete_request c now request_id g = (case get_request_record now request_id g of
       (None, g1) \<Rightarrow> (Inl (Callback_not_found request_id), g1)
     | (Some r, g1) \<Rightarrow>
        (case deliver_callback now (cb_callback_id r) (cg_callbacks g1) of
           (Inl err, cb) \<Rightarrow> (Inl err, g1\<lparr>cg_callbacks := cb\<rparr>)
         | (Inr d, cb) \<Rightarrow> (Inr d, case record_lifecycle_key c request_id d of
               None \<Rightarrow> g1\<lparr>cg_callbacks := cb\<rparr>
             | Some k \<Rightarrow> g1\<lparr>cg_callbacks := cb, cg_replay := snd (commit_success now k ''completed'' (cg_replay g1))\<rparr>)))"

definition mark_failed :: "callback_record \<Rightarrow> callbacks \<Rightarrow> callbacks" where
  "mark_failed r cb = (if cb_state r \<noteq> C_DELIVERED then put_callback (r\<lparr>cb_state := C_FAILED\<rparr>) cb else cb)"

definition release_request_retryable :: "'e gate_conf \<Rightarrow> time \<Rightarrow> string \<Rightarrow> string \<Rightarrow> 'e callback_gate \<Rightarrow> 'e callback_gate" where
  "release_request_retryable c now request_id reason g = (case get_request_record now request_id g of
       (None, g1) \<Rightarrow> g1
     | (Some r, g1) \<Rightarrow>
        (let g2 = g1\<lparr>cg_callbacks := mark_failed r (cg_callbacks g1)\<rparr>
         in case record_lifecycle_key c request_id r of
              None \<Rightarrow> g2 | Some k \<Rightarrow> g2\<lparr>cg_replay := snd (release_retryable now k reason (cg_replay g2))\<rparr>))"

definition fail_request_terminal :: "'e gate_conf \<Rightarrow> time \<Rightarrow> string \<Rightarrow> string \<Rightarrow> 'e callback_gate \<Rightarrow> 'e callback_gate" where
  "fail_request_terminal c now request_id reason g = (case get_request_record now request_id g of
       (None, g1) \<Rightarrow> g1
     | (Some r, g1) \<Rightarrow>
        (let g2 = g1\<lparr>cg_callbacks := mark_failed r (cg_callbacks g1)\<rparr>
         in case record_lifecycle_key c request_id r of
              None \<Rightarrow> g2 | Some k \<Rightarrow> g2\<lparr>cg_replay := snd (fail_terminal now k reason (cg_replay g2))\<rparr>))"

subsection \<open>What an acceptance promises\<close>

lemma decide_ok: "dc_ok (fst (decide a cls cid iid)) \<Longrightarrow>
   cls \<in> {''public'', ''run'', ''admin''} \<and> (cls = ''admin'' \<longrightarrow> ac_is_admin a) \<and> (cls = ''run'' \<longrightarrow> ac_is_admin a \<or> ac_is_trusted a)
   \<and> dc_installation_id (fst (decide a cls cid iid)) = iid \<and> \<not> snd (decide a cls cid iid)
   \<and> dc_command_class (fst (decide a cls cid iid)) = cls"
  by (auto simp: decide_def rejection_def Let_def split: if_splits)

lemma record_and_decide_ok:
  assumes "record_and_decide c now hex platform e payload a i cls g = (Inr d, g1)" and "dc_ok d"
  shows "cls \<in> {''public'', ''run'', ''admin''} \<and> (cls = ''admin'' \<longrightarrow> ac_is_admin a) \<and> (cls = ''run'' \<longrightarrow> ac_is_admin a \<or> ac_is_trusted a)
    \<and> dc_installation_id d = in_installation_id i \<and> dc_command_class d = cls \<and> cg_replay g1 = cg_replay g"
proof -
  obtain x cb where x: "create_callback (gc_short_hash c) now hex (en_request_id e) payload None None False (callback_metadata platform e i) (cg_callbacks g) = (x, cb)"
    by fastforce
  then obtain r where r: "x = Inr r" using assms(1) by (cases x) (simp_all add: record_and_decide_def)
  define dd where "dd = decide a cls (cb_callback_id r) (in_installation_id i)"
  have d: "d = fst dd" and g1: "g1 = (if snd dd then end_request now (request_lifecycle_key e) d (g\<lparr>cg_callbacks := cb\<rparr>) else g\<lparr>cg_callbacks := cb\<rparr>)"
    using assms(1) x r by (auto simp: record_and_decide_def dd_def split_def Let_def)
  show ?thesis using decide_ok [of a cls "cb_callback_id r" "in_installation_id i"] assms(2) unfolding dd_def [symmetric] d [symmetric]
    by (simp add: g1)
qed

definition actor_tenant :: "'e gate_conf \<Rightarrow> actor \<Rightarrow> string" where
  "actor_tenant c a = (if ac_tenant_id a = [] then get_current_tenant_id (il_env (gc_inst c)) (il_current (gc_inst c)) else ac_tenant_id a)"

lemma evaluate_claimed_ok:
  assumes "evaluate_claimed c now hex platform e payload a g = (Inr d, g1)" and "dc_ok d"
  shows "\<exists>res i cls. resolve_installation (gc_inst c) platform (en_workspace_id e) (Some (actor_tenant c a)) (cg_registry g) = Inr res
      \<and> rs_ok res \<and> rs_installation res = Some i \<and> resolve_action_policy c (en_action_type e) = Some cls
      \<and> record_and_decide c now hex platform e payload a i cls g = (Inr d, g1)"
proof -
  have no: "\<not> dc_ok (map_installation_reject res)" "\<not> dc_ok (rejection code i cls msg)" for res code i cls msg
    by (simp_all add: map_installation_reject_def rejection_def Let_def)
  obtain res where res: "resolve_installation (gc_inst c) platform (en_workspace_id e) (Some (actor_tenant c a)) (cg_registry g) = Inr res"
    using assms(1) unfolding evaluate_claimed_def Let_def actor_tenant_def [symmetric] by (auto split: sum.splits)
  note run = assms(1) [unfolded evaluate_claimed_def Let_def actor_tenant_def [symmetric] res sum.case]
  obtain i where i: "rs_ok res" "rs_installation res = Some i"
    using run assms(2) no(1) by (cases "rs_ok res"; cases "rs_installation res") auto
  note run = run [unfolded i(2) if_P [OF i(1)] option.case]
  obtain cls where cls: "resolve_action_policy c (en_action_type e) = Some cls"
    using run assms(2) no(2) by (cases "resolve_action_policy c (en_action_type e)") auto
  then show ?thesis using res i run by (intro exI conjI) auto
qed

lemma evaluate_ok:
  assumes "evaluate_callback c now hex platform ed payload a g = (Inr d, g1)" and "dc_ok d"
  shows "\<exists>e r l. parse_envelope c ed = Inr e \<and> envelope_refused c now e payload = None
      \<and> lc_claim now (request_lifecycle_key e) [(''workspace_id'', en_workspace_id e), (''action_type'', en_action_type e)] (cg_replay g) = (Some r, l)
      \<and> cr_accepted r \<and> evaluate_claimed c now hex platform e payload a (g\<lparr>cg_replay := l\<rparr>) = (Inr d, g1)"
  using assms
  by (auto simp: evaluate_callback_def rejection_def envelope_refused_def Let_def split: sum.splits option.splits prod.splits if_splits)

text \<open>
  C31: A callback is accepted only with a complete envelope that is not older or newer than the
  allowed drift, carries the hash of the payload and the signature of its fields under the
  (non-empty) secret; for a workspace with a resolvable installation; for an action the policy knows;
  and when the policy says run or admin, only from a trusted user or an administrator.
\<close>

theorem accepted_callback_sound:
  assumes "evaluate_callback c now hex platform ed payload a g = (Inr d, g1)" and "dc_ok d"
  shows "\<exists>e res i cls. parse_envelope c ed = Inr e \<and> \<bar>trunc now - en_timestamp e\<bar> \<le> gc_drift_sec c
      \<and> en_payload_hash e = gc_payload_hash c payload \<and> gc_signing_secret c \<noteq> [] \<and> en_signature e = compute_signature c e
      \<and> resolve_installation (gc_inst c) platform (en_workspace_id e) (Some (actor_tenant c a)) (cg_registry g) = Inr res
      \<and> rs_ok res \<and> rs_installation res = Some i \<and> dc_installation_id d = in_installation_id i
      \<and> resolve_action_policy c (en_action_type e) = Some cls \<and> dc_command_class d = cls \<and> cls \<in> {''public'', ''run'', ''admin''}
      \<and> (cls = ''admin'' \<longrightarrow> ac_is_admin a) \<and> (cls = ''run'' \<longrightarrow> ac_is_admin a \<or> ac_is_trusted a)"
proof -
  obtain e l where e: "parse_envelope c ed = Inr e" "envelope_refused c now e payload = None"
    "evaluate_claimed c now hex platform e payload a (g\<lparr>cg_replay := l\<rparr>) = (Inr d, g1)"
    using evaluate_ok [OF assms] by blast
  obtain res i cls where r: "resolve_installation (gc_inst c) platform (en_workspace_id e) (Some (actor_tenant c a)) (cg_registry g) = Inr res"
    "rs_ok res" "rs_installation res = Some i" "resolve_action_policy c (en_action_type e) = Some cls"
    "record_and_decide c now hex platform e payload a i cls (g\<lparr>cg_replay := l\<rparr>) = (Inr d, g1)"
    using evaluate_claimed_ok [OF e(3) assms(2)] by auto
  have "\<bar>trunc now - en_timestamp e\<bar> \<le> gc_drift_sec c" "en_payload_hash e = gc_payload_hash c payload"
    "gc_signing_secret c \<noteq> []" "en_signature e = compute_signature c e"
    using e(2) by (auto simp: envelope_refused_def split: if_splits)
  then show ?thesis using e(1) r record_and_decide_ok [OF r(5) assms(2)] by blast
qed

subsection \<open>A request is accepted once\<close>

text \<open>The key is claimed or finished, not before the time.\<close>

definition claimed_until :: "time \<Rightarrow> lifecycle \<Rightarrow> string option \<Rightarrow> bool" where
  "claimed_until t l key \<longleftrightarrow> (case key of None \<Rightarrow> False
     | Some k \<Rightarrow> (\<exists>r. dget (lc_records l) k = Some r \<and> lr_state r \<noteq> LC_RETRYABLE \<and> lr_expires_at r > t))"

lemma claimed_evict:
  assumes "lc_inv l" and "t \<le> t'" and "claimed_until t' l (Some k)"
  shows "\<exists>r. dget (lc_records (evict_expired t l)) k = Some r \<and> lr_state r \<noteq> LC_RETRYABLE \<and> lr_expires_at r > t'"
  using assms dget_evict [of l t k] by (auto simp: claimed_until_def lc_inv_def)

lemma claim_keeps_claimed:
  assumes inv: "lc_inv l" and room: "lc_room l" and le: "t \<le> t'" and cl: "claimed_until t' l (Some k)"
  shows "claimed_until t' (snd (lc_claim t key m l)) (Some k)"
proof -
  obtain q where q: "dget (lc_records (evict_expired t l)) k = Some q" "lr_state q \<noteq> LC_RETRYABLE" "lr_expires_at q > t'"
    using claimed_evict [OF inv le cl] by blast
  have cap: "enforce_cap (put_record j r (evict_expired t l)) = put_record j r (evict_expired t l)" for j r
  proof (rule enforce_cap_id)
    show "int (length (lc_records (put_record j r (evict_expired t l)))) \<le> lc_max_entries (put_record j r (evict_expired t l))"
      using evict_room [OF room, of t] length_dput_le [of j r "lc_records (evict_expired t l)"] by (simp add: lc_room_def)
  qed
  show ?thesis
  proof (cases rule: claim_cases [of key t m l])
    case blank
    then show ?thesis using cl by simp
  next
    case (fresh j r)
    then have "j \<noteq> k" using q(1) by auto
    then show ?thesis using q by (simp add: fresh(4) cap claimed_until_def dict_simps)
  next
    case (retry j r r')
    then have "j \<noteq> k" using q(1,2) by auto
    then show ?thesis using q by (simp add: retry(5) claimed_until_def dict_simps)
  next
    case (dup j r)
    then show ?thesis using q by (auto simp: dup(4) claimed_until_def dict_simps)
  qed
qed

lemma transition_keeps_claimed:
  assumes inv: "lc_inv l" and le: "t \<le> t'" and lt: "t' < t + of_int (lc_ttl_sec l)" and st: "st \<noteq> LC_RETRYABLE" and cl: "claimed_until t' l (Some k)"
  shows "claimed_until t' (snd (lc_transition t key st reason from l)) (Some k)"
proof -
  obtain q where q: "dget (lc_records (evict_expired t l)) k = Some q" "lr_state q \<noteq> LC_RETRYABLE" "lr_expires_at q > t'"
    using claimed_evict [OF inv le cl] by blast
  show ?thesis
  proof (cases rule: transition_cases [of t key st reason "from" l])
    case no
    then show ?thesis using cl q by (auto simp: claimed_until_def)
  next
    case (yes j r)
    then show ?thesis using q st lt by (auto simp: claimed_until_def dict_simps)
  qed
qed

text \<open>What an operation other than a release may do to the replay table.\<close>

inductive replay_moves :: "time \<Rightarrow> lifecycle \<Rightarrow> lifecycle \<Rightarrow> bool" for t l where
  stays: "replay_moves t l l"
| claims: "replay_moves t l (snd (lc_claim t key m l))"
| ends: "replay_moves t l l1 \<Longrightarrow> st \<noteq> LC_RETRYABLE \<Longrightarrow> from \<subseteq> {LC_CLAIMED, LC_RETRYABLE} \<Longrightarrow>
    replay_moves t l (snd (lc_transition t key st reason from l1))"

lemma claim_inv_ttl: "lc_inv_ttl ttl l \<Longrightarrow> lc_inv_ttl ttl (snd (lc_claim t key m l))"
  using lc_do_touched [of l t "L_claim key m"] touched_inv [of l t] touched_ttl [of t l]
  by (auto simp: lc_inv_ttl_def split_def Let_def)

lemma moves_inv: "replay_moves t l l1 \<Longrightarrow> lc_inv_ttl ttl l \<Longrightarrow> lc_inv_ttl ttl l1"
proof (induction rule: replay_moves.induct)
  case (ends l1 st "from" key reason)
  have i: "lc_inv l1" using ends by (simp add: lc_inv_ttl_def)
  show ?case using ends touched_inv [OF i transition_touched [OF i ends.hyps(3)]] touched_ttl [OF transition_touched [OF i ends.hyps(3)]]
    by (simp add: lc_inv_ttl_def)
qed (auto intro: claim_inv_ttl)

lemma moves_claimed:
  assumes "replay_moves t l l1" and inv: "lc_inv_ttl ttl l" and room: "lc_room l" and le: "t \<le> t'" and lt: "t' < t + of_int ttl"
    and cl: "claimed_until t' l (Some k)"
  shows "claimed_until t' l1 (Some k)"
  using assms(1)
proof induction
  case (claims key m)
  then show ?case using inv room le cl by (intro claim_keeps_claimed) (auto simp: lc_inv_ttl_def)
next
  case (ends l1 st "from" key reason)
  have "lc_inv_ttl ttl l1" using moves_inv [OF ends.hyps(1) inv] .
  then show ?case using ends le lt by (intro transition_keeps_claimed) (auto simp: lc_inv_ttl_def)
qed (rule cl)

datatype 'e gate_op = Evaluate_op string string "(string \<times> json) list" "(string \<times> json) list" actor | Acknowledge_op string
  | Complete_op string | Fail_op string string | Release_op string string | Registry_op "'e registry"

text \<open>Whether a callback was accepted. The registry is shared: it may change in any way.\<close>

fun gate_do :: "'e gate_conf \<Rightarrow> time \<Rightarrow> 'e gate_op \<Rightarrow> 'e callback_gate \<Rightarrow> bool \<times> 'e callback_gate" where
  "gate_do c t (Evaluate_op hex platform ed payload a) g = (let (x, g1) = evaluate_callback c t hex platform ed payload a g
     in (case x of Inr d \<Rightarrow> dc_ok d | Inl _ \<Rightarrow> False, g1))"
| "gate_do c t (Acknowledge_op i) g = (False, snd (acknowledge_request t i g))"
| "gate_do c t (Complete_op i) g = (False, snd (complete_request c t i g))"
| "gate_do c t (Fail_op i reason) g = (False, fail_request_terminal c t i reason g)"
| "gate_do c t (Release_op i reason) g = (False, release_request_retryable c t i reason g)"
| "gate_do c t (Registry_op r) g = (False, g\<lparr>cg_registry := r\<rparr>)"

fun request_key :: "'e gate_conf \<Rightarrow> 'e gate_op \<Rightarrow> string option" where
  "request_key c (Evaluate_op hex platform ed payload a) =
     (case parse_envelope c ed of Inl _ \<Rightarrow> None | Inr e \<Rightarrow> normalize_key (request_lifecycle_key e))"
| "request_key c _ = None"

fun is_release :: "'e gate_op \<Rightarrow> bool" where
  "is_release (Release_op _ _) = True"
| "is_release _ = False"

lemma get_record_replay: "cg_replay (snd (get_request_record t i g)) = cg_replay g"
  by (simp add: get_request_record_def split_def Let_def)

lemma end_request_moves: "replay_moves t l (cg_replay g) \<Longrightarrow> replay_moves t l (cg_replay (end_request t key d g))"
  by (simp add: end_request_def fail_terminal_def replay_moves.ends)

lemma evaluate_claimed_moves:
  "replay_moves t l (cg_replay g) \<Longrightarrow> replay_moves t l (cg_replay (snd (evaluate_claimed c t hex platform e payload a g)))"
  by (auto simp: evaluate_claimed_def record_and_decide_def Let_def split_def end_request_moves split: sum.split option.split)

lemma evaluate_moves: "replay_moves t (cg_replay g) (cg_replay (snd (evaluate_callback c t hex platform ed payload a g)))"
  by (auto simp: evaluate_callback_def Let_def split_def evaluate_claimed_moves replay_moves.stays replay_moves.claims
      split: sum.split option.split)

lemma later_moves:
  "replay_moves t (cg_replay g) (cg_replay (snd (acknowledge_request t i g)))"
  "replay_moves t (cg_replay g) (cg_replay (snd (complete_request c t i g)))"
  "replay_moves t (cg_replay g) (cg_replay (fail_request_terminal c t i reason g))"
  using get_record_replay [of t i g]
  by (auto simp: acknowledge_request_def complete_request_def fail_request_terminal_def commit_success_def fail_terminal_def Let_def split_def
      intro!: replay_moves.stays replay_moves.ends split: sum.split option.split prod.splits)

lemma gate_do_moves: "\<not> is_release op \<Longrightarrow> replay_moves t (cg_replay g) (cg_replay (snd (gate_do c t op g)))"
  by (cases op) (simp_all add: split_def Let_def evaluate_moves later_moves replay_moves.stays)

lemma evaluate_accepts:
  assumes ok: "fst (gate_do c t op g)"
  shows "\<exists>k m r. request_key c op = normalize_key k \<and> fst (lc_claim t k m (cg_replay g)) = Some r \<and> cr_accepted r
    \<and> cg_replay (snd (gate_do c t op g)) = snd (lc_claim t k m (cg_replay g))"
proof (cases op)
  case (Evaluate_op hex platform ed payload a)
  obtain d g1 where d: "evaluate_callback c t hex platform ed payload a g = (Inr d, g1)" "dc_ok d"
    using ok Evaluate_op by (auto simp: split_def Let_def split: sum.splits) (metis prod.collapse)
  obtain e r l where e: "parse_envelope c ed = Inr e"
    "lc_claim t (request_lifecycle_key e) [(''workspace_id'', en_workspace_id e), (''action_type'', en_action_type e)] (cg_replay g) = (Some r, l)"
    "cr_accepted r" "evaluate_claimed c t hex platform e payload a (g\<lparr>cg_replay := l\<rparr>) = (Inr d, g1)"
    using evaluate_ok [OF d] by blast
  have "cg_replay g1 = l" using evaluate_claimed_ok [OF e(4) d(2)] record_and_decide_ok [OF _ d(2)] by force
  then show ?thesis using e d Evaluate_op
    by (intro exI [of _ "request_lifecycle_key e"] exI [of _ "[(''workspace_id'', en_workspace_id e), (''action_type'', en_action_type e)]"] exI [of _ r]) simp
qed (use ok in simp_all)

lemma accepted_claim_claims:
  assumes "lc_inv l" and "lc_room l" and "fst (lc_claim t k m l) = Some r" and "cr_accepted r" and "t' < t + of_int (lc_ttl_sec l)"
  shows "claimed_until t' (snd (lc_claim t k m l)) (normalize_key k) \<and> \<not> claimed_until t l (normalize_key k)"
proof (cases "normalize_key k")
  case None
  then show ?thesis using assms(3) by (simp add: lc_claim_def)
next
  case (Some j)
  let ?e = "evict_expired t l"
  have cap: "enforce_cap (put_record j q ?e) = put_record j q ?e" for q
    using evict_room [OF assms(2), of t] length_dput_le [of j q "lc_records ?e"] by (intro enforce_cap_id) (simp add: lc_room_def)
  have n: "\<not> claimed_until t l (Some j)" if "\<And>q. dget (lc_records ?e) j = Some q \<Longrightarrow> lr_state q = LC_RETRYABLE"
    using claimed_evict [OF assms(1), of t t j] that by auto
  show ?thesis
  proof (cases "dget (lc_records ?e) j")
    case None
    then show ?thesis using Some n assms(5) by (simp add: lc_claim_def cap claimed_until_def dict_simps new_record_def Let_def)
  next
    case (Some q)
    then have "lr_state q = LC_RETRYABLE"
      using assms(3,4) \<open>normalize_key k = Some j\<close> by (auto simp: lc_claim_def Let_def split: if_splits)
    then show ?thesis using Some \<open>normalize_key k = Some j\<close> n assms(5) by (simp add: lc_claim_def claimed_until_def dict_simps Let_def)
  qed
qed

definition request_live :: "int \<Rightarrow> time \<Rightarrow> time \<Rightarrow> 'e callback_gate \<Rightarrow> string option \<Rightarrow> bool" where
  "request_live ttl u t g k \<longleftrightarrow> claimed_until t (cg_replay g) k \<and> t < u + of_int ttl"

text \<open>The gate without releases.\<close>

definition unreleased_do :: "'e gate_conf \<Rightarrow> time \<Rightarrow> 'e gate_op \<Rightarrow> 'e callback_gate \<Rightarrow> bool \<times> 'e callback_gate" where
  "unreleased_do c t op g = (if is_release op then (False, g) else gate_do c t op g)"

interpretation requests: clocked_once "unreleased_do c" "\<lambda>_. request_key c" "request_live ttl" "\<lambda>g. lc_inv_ttl ttl (cg_replay g)"
  "\<lambda>g. lc_room (cg_replay g)" "of_int ttl" for c ttl
proof unfold_locales
  fix g :: "'a callback_gate" and t op assume inv: "lc_inv_ttl ttl (cg_replay g)"
  then have i: "lc_inv (cg_replay g)" and ttl: "lc_ttl_sec (cg_replay g) = ttl" by (simp_all add: lc_inv_ttl_def)
  show "lc_inv_ttl ttl (cg_replay (snd (unreleased_do c t op g)))"
    using inv moves_inv [OF gate_do_moves] by (auto simp: unreleased_do_def)
  assume room: "lc_room (cg_replay g)"
  have acc: "claimed_until t' (cg_replay (snd (gate_do c t op g))) (request_key c op) \<and> \<not> claimed_until t (cg_replay g) (request_key c op)"
    if "fst (gate_do c t op g)" "t' < t + of_int ttl" for t'
    using evaluate_accepts [OF that(1)] accepted_claim_claims [OF i room, of t _ _ _ t'] that(2) ttl by auto
  show "\<not> fst (unreleased_do c t op g)" if "request_live ttl u t g (request_key c op)" "u \<le> t" for u
    using acc [of t] that(1) i ttl by (auto simp: unreleased_do_def request_live_def lc_inv_def)
  fix t' assume "t \<le> t'"
  show "request_live ttl t t' (snd (unreleased_do c t op g)) (request_key c op)" if "fst (unreleased_do c t op g)" "t' < t + of_int ttl"
    using acc [OF _ that(2)] that by (auto simp: unreleased_do_def request_live_def split: if_splits)
  show "request_live ttl t t' (snd (unreleased_do c t op g)) k" if "request_live ttl u t' g k" "u \<le> t" for u k
  proof (cases k)
    case (Some j)
    have lt: "t' < t + of_int ttl" using that by (simp add: request_live_def)
    show ?thesis using moves_claimed [OF gate_do_moves inv room \<open>t \<le> t'\<close> lt, of op j c] that lt
      by (auto simp: request_live_def unreleased_do_def Some)
  qed (use that in \<open>simp add: request_live_def claimed_until_def\<close>)
qed

lemma claim_run_unreleased: "\<forall>(t, op) \<in> set cs. \<not> is_release op \<Longrightarrow> claim_run (gate_do c) cs g = claim_run (unreleased_do c) cs g"
  by (induction cs arbitrary: g) (auto simp: unreleased_do_def split: prod.split)

text \<open>
  C32: Of all callbacks of one workspace, action and request id within the time to live of the replay
  table, at most one is accepted, whatever is acknowledged, completed, failed or changed in the
  registry in between, as long as no request is released for a retry and the table has room.
\<close>

theorem callback_accepted_once:
  assumes "lc_inv (cg_replay g)" and "all_states (\<lambda>g. lc_room (cg_replay g)) (claim_run (gate_do c) cs g)"
    and "sorted (map fst cs)" and "\<forall>(t, op) \<in> set cs. a \<le> t \<and> t < a + of_int (lc_ttl_sec (cg_replay g)) \<and> \<not> is_release op"
  shows "accepted (\<lambda>_. request_key c) k cs (claim_run (gate_do c) cs g) \<le> 1"
proof -
  have "\<forall>(t, op) \<in> set cs. \<not> is_release op" "\<forall>(t, op) \<in> set cs. a \<le> t \<and> t < a + of_int (lc_ttl_sec (cg_replay g))"
    using assms(4) by auto
  then show ?thesis using requests.once_in_window [of "lc_ttl_sec (cg_replay g)" g c cs a k] assms(1-3)
    by (simp add: claim_run_unreleased lc_inv_ttl_def)
qed

text \<open>What the gate signs for itself passes its checks for as long as the drift allows.\<close>

lemma built_envelope_passes:
  assumes "gc_signing_secret c \<noteq> []" and "\<bar>trunc now - trunc t\<bar> \<le> gc_drift_sec c"
  shows "envelope_refused c now (build_envelope c t request_id ws act payload None) payload = None"
  using assms by (simp add: envelope_refused_def build_envelope_def compute_signature_def Let_def)

subsection \<open>A gate with one installation per workspace\<close>

definition demo_conf :: "(string, string) dict gate_conf" where
  "demo_conf = make_conf demo_lib ''key'' [(''help'', ''public''), (''admin.*'', ''admin'')] 300 (\<lambda>_. ''ph'') (\<lambda>k m. k @ m) (\<lambda>_. ''h'')"

definition demo_actor :: "bool \<Rightarrow> actor" where
  "demo_actor admin = \<lparr>ac_is_admin = admin, ac_is_trusted = False, ac_user_id = ''u'', ac_tenant_id = ''default''\<rparr>"

definition demo_envelope :: "string \<Rightarrow> string \<Rightarrow> int \<Rightarrow> (string \<times> json) list" where
  "demo_envelope workspace action ts = [(''timestamp'', JInt ts), (''request_id'', JStr ''r1''), (''workspace_id'', JStr workspace),
     (''action_type'', JStr action), (''payload_hash'', JStr ''ph''),
     (''signature'', JStr (''keyv1:'' @ int_str ts @ '':r1:'' @ workspace @ '':'' @ action @ '':ph''))]"

definition demo_gate :: "(string, string) dict callback_gate" where
  "demo_gate = make_gate (registry_step demo_lib
     (1, True, Upsert_op (\<lambda>_. True) ((demo_upsert ''default'' ''I2'')\<lparr>ur_workspace_id := ''W2''\<rparr>)) demo_registry)"

lemma demo_claimed:
  "evaluate_claimed demo_conf now hex platform e payload (demo_actor b) g =
    (case (case normalize_platform platform of Inl err \<Rightarrow> Inl err | Inr p \<Rightarrow>
           case normalize_identifier (en_workspace_id e) ''workspace_id'' of Inl err \<Rightarrow> Inl err | Inr w \<Rightarrow>
             resolve_matches demo_lib (filter (\<lambda>i. in_platform i = p \<and> in_workspace_id i = w) (dvals (rg_installations (cg_registry g)))) (cg_registry g)) of
       Inl err \<Rightarrow> (Inl (Gate_installation err), g)
     | Inr res \<Rightarrow>
        (case (if rs_ok res then rs_installation res else None) of
           None \<Rightarrow> (let d = map_installation_reject res in (Inr d, end_request now (request_lifecycle_key e) d g))
         | Some i \<Rightarrow>
            (case resolve_action_policy demo_conf (en_action_type e) of
               None \<Rightarrow> (let d = rejection REJECT_UNKNOWN_ACTION (in_installation_id i) [] ''unknown_action_type''
                        in (Inr d, end_request now (request_lifecycle_key e) d g))
             | Some cls \<Rightarrow> record_and_decide demo_conf now hex platform e payload (demo_actor b) i cls g)))"
proof -
  have "resolve_installation demo_lib platform ws (Some ''default'') r = resolve_installation demo_lib platform ws None r" for ws r
    using default_tenant_normalized
    by (simp add: resolve_installation_def DEFAULT_TENANT_ID_def demo_lib_def get_current_tenant_id_def single_tenant_default Let_def cong: sum.case_cong)
  then have "resolve_installation demo_lib platform ws (Some ''default'') r = (case normalize_platform platform of Inl err \<Rightarrow> Inl err | Inr p \<Rightarrow>
           case normalize_identifier ws ''workspace_id'' of Inl err \<Rightarrow> Inl err | Inr w \<Rightarrow>
             resolve_matches demo_lib (filter (\<lambda>i. in_platform i = p \<and> in_workspace_id i = w) (dvals (rg_installations r))) r)" for ws r
    by (simp add: demo_resolve)
  moreover have "gc_inst demo_conf = demo_lib" "ac_tenant_id (demo_actor b) = ''default''" by (simp_all add: demo_conf_def make_conf_def demo_actor_def)
  ultimately show ?thesis by (simp add: evaluate_claimed_def Let_def)
qed

text \<open>The same, with the whole evaluation of an envelope.\<close>

definition demo_evaluate :: "time \<Rightarrow> string \<Rightarrow> string \<Rightarrow> string \<Rightarrow> int \<Rightarrow> (string, string) dict callback_gate \<Rightarrow> (gate_error + decision) \<times> (string, string) dict callback_gate" where
  "demo_evaluate now hex workspace action ts g = evaluate_callback demo_conf now hex ''slack'' (demo_envelope workspace action ts) [] (demo_actor True) g"

lemmas demo_evaluate_code [code] = demo_evaluate_def [unfolded evaluate_callback_def demo_claimed]

definition demo_op :: "string \<Rightarrow> string \<Rightarrow> string \<Rightarrow> int \<Rightarrow> (string, string) dict gate_op" where
  "demo_op hex workspace action ts = Evaluate_op hex ''slack'' (demo_envelope workspace action ts) [] (demo_actor True)"

lemma demo_do: "gate_do demo_conf t (demo_op hex workspace action ts) g =
    (let (x, g1) = demo_evaluate t hex workspace action ts g in (case x of Inr d \<Rightarrow> dc_ok d | Inl _ \<Rightarrow> False, g1))"
  by (simp add: demo_op_def demo_evaluate_def)

text \<open>The decision, the installation and the callback record of an answer.\<close>

definition answer :: "(gate_error + decision) \<times> 'g \<Rightarrow> (decision_code \<times> string \<times> string) option" where
  "answer x = (case fst x of Inl _ \<Rightarrow> None | Inr d \<Rightarrow> Some (dc_code d, dc_installation_id d, dc_callback_id d))"

definition demo_decision :: decision where
  "demo_decision = \<lparr>dc_ok = True, dc_code = ACCEPT_ADMIN, dc_command_class = ''admin'', dc_requires_approval = False,
     dc_callback_id = ''c1'', dc_installation_id = ''I1'', dc_message = []\<rparr>"

lemma demo_accepts: "fst (demo_evaluate 100 ''c1'' ''W1'' ''admin.stop'' 90 demo_gate) = Inr demo_decision"
  by code_simp

theorem accepted_callback_sound_witness:
  "\<exists>e res i cls. parse_envelope demo_conf (demo_envelope ''W1'' ''admin.stop'' 90) = Inr e \<and> \<bar>trunc 100 - en_timestamp e\<bar> \<le> gc_drift_sec demo_conf
      \<and> en_payload_hash e = gc_payload_hash demo_conf [] \<and> gc_signing_secret demo_conf \<noteq> [] \<and> en_signature e = compute_signature demo_conf e
      \<and> resolve_installation (gc_inst demo_conf) ''slack'' (en_workspace_id e) (Some (actor_tenant demo_conf (demo_actor True))) (cg_registry demo_gate) = Inr res
      \<and> rs_ok res \<and> rs_installation res = Some i \<and> dc_installation_id demo_decision = in_installation_id i
      \<and> resolve_action_policy demo_conf (en_action_type e) = Some cls \<and> dc_command_class demo_decision = cls \<and> cls \<in> {''public'', ''run'', ''admin''}
      \<and> (cls = ''admin'' \<longrightarrow> ac_is_admin (demo_actor True)) \<and> (cls = ''run'' \<longrightarrow> ac_is_admin (demo_actor True) \<or> ac_is_trusted (demo_actor True))"
proof (rule accepted_callback_sound)
  show "evaluate_callback demo_conf 100 ''c1'' ''slack'' (demo_envelope ''W1'' ''admin.stop'' 90) [] (demo_actor True) demo_gate
     = (Inr demo_decision, snd (demo_evaluate 100 ''c1'' ''W1'' ''admin.stop'' 90 demo_gate))"
    using demo_accepts by (metis demo_evaluate_def prod.collapse)
  show "dc_ok demo_decision" by (simp add: demo_decision_def)
qed

theorem callback_accepted_once_witness:
  "accepted (\<lambda>_. request_key demo_conf) (Some ''interactive:W1:admin.stop:r1'')
     [(100, demo_op ''c1'' ''W1'' ''admin.stop'' 90), (101, Acknowledge_op ''r1''), (102, Complete_op ''r1''), (103, demo_op ''c2'' ''W1'' ''admin.stop'' 90)]
     (claim_run (gate_do demo_conf)
       [(100, demo_op ''c1'' ''W1'' ''admin.stop'' 90), (101, Acknowledge_op ''r1''), (102, Complete_op ''r1''), (103, demo_op ''c2'' ''W1'' ''admin.stop'' 90)] demo_gate) \<le> 1"
proof (rule callback_accepted_once [where a = 100])
  have room: "lc_room (cg_replay demo_gate)"
    "lc_room (cg_replay (snd (demo_evaluate 100 ''c1'' ''W1'' ''admin.stop'' 90 demo_gate)))"
    "lc_room (cg_replay (snd (complete_request demo_conf 102 ''r1'' (snd (acknowledge_request 101 ''r1''
        (snd (demo_evaluate 100 ''c1'' ''W1'' ''admin.stop'' 90 demo_gate)))))))"
    by code_simp+
  have ack: "cg_replay (snd (acknowledge_request t i g)) = cg_replay g" for t i and g :: "(string, string) dict callback_gate"
    using get_record_replay [of t i g] by (auto simp: acknowledge_request_def split_def Let_def split: prod.splits option.split)
  show "all_states (\<lambda>g. lc_room (cg_replay g)) (claim_run (gate_do demo_conf)
       [(100, demo_op ''c1'' ''W1'' ''admin.stop'' 90), (101, Acknowledge_op ''r1''), (102, Complete_op ''r1''), (103, demo_op ''c2'' ''W1'' ''admin.stop'' 90)] demo_gate)"
    using room by (simp add: all_states_def demo_do split_def Let_def ack)
  have "lc_inv (make_lifecycle 300 5000)" by (simp add: make_lifecycle_def lc_inv_def)
  then show "lc_inv (cg_replay demo_gate)" by (simp add: demo_gate_def make_gate_def)
  show "\<forall>(t, op) \<in> set [(100 :: time, demo_op ''c1'' ''W1'' ''admin.stop'' 90), (101, Acknowledge_op ''r1''), (102, Complete_op ''r1''), (103, demo_op ''c2'' ''W1'' ''admin.stop'' 90)].
      100 \<le> t \<and> t < 100 + of_int (lc_ttl_sec (cg_replay demo_gate)) \<and> \<not> is_release op"
    by (simp add: demo_gate_def make_gate_def make_lifecycle_def demo_op_def)
qed simp

text \<open>
  The callback records are found by the request id alone: a request of a second workspace with an
  id that the first one used gets the first one's record.
\<close>

lemma record_shared_across_workspaces:
  "answer (demo_evaluate 101 ''c2'' ''W2'' ''help'' 101 (snd (demo_evaluate 100 ''c1'' ''W1'' ''admin.stop'' 90 demo_gate)))
     = Some (ACCEPT_PUBLIC, ''I2'', ''c1'')"
  by code_simp

text \<open>
  An envelope stamped ahead of the clock outlives its entry in the replay table: after the
  request was completed it is accepted a second time.
\<close>

definition demo_completed :: "(string, string) dict callback_gate" where
  "demo_completed = snd (complete_request demo_conf 102 ''r1'' (snd (acknowledge_request 101 ''r1''
     (snd (demo_evaluate 100 ''c1'' ''W1'' ''admin.stop'' 390 demo_gate)))))"

lemma accepted_again_after_completion:
  "answer (demo_evaluate 403 ''c2'' ''W1'' ''admin.stop'' 390 demo_completed) = Some (ACCEPT_ADMIN, ''I1'', ''c1'')"
  by code_simp

end
