(* ===== verification/Ingress_Gate.thy ===== *)
theory Ingress_Gate
  imports Contracts Json Access_Control
begin

text \<open>
  \<open>connector/security_profile.py\<close>: what a request to an exposed connector has to pass: an
  authentication (bearer token or HMAC of the body), a sliding window against replays, and an
  allowlist of users. The digests are parameters; the constant-time comparison of two texts is
  \<open>compare_digest\<close> of \<open>Access_Control\<close>, which raises a \<open>TypeError\<close> (\<open>None\<close>) unless both are ASCII.
\<close>

subsection \<open>Authentication\<close>

datatype auth_scheme = SCHEME_BEARER | SCHEME_HMAC_SHA256 | SCHEME_NONE

fun scheme_value :: "auth_scheme \<Rightarrow> string" where
  "scheme_value SCHEME_BEARER = ''bearer''"
| "scheme_value SCHEME_HMAC_SHA256 = ''hmac_sha256''"
| "scheme_value SCHEME_NONE = ''none''"

record auth_result =
  au_ok :: bool
  au_scheme :: auth_scheme
  au_identity :: string
  au_error :: string

definition auth_refused :: "auth_scheme \<Rightarrow> string \<Rightarrow> auth_result" where
  "auth_refused scheme error = \<lparr>au_ok = False, au_scheme = scheme, au_identity = [], au_error = error\<rparr>"

definition auth_to_dict :: "auth_result \<Rightarrow> json" where
  "auth_to_dict r = JObj ([(''ok'', JBool (au_ok r)), (''scheme'', JStr (scheme_value (au_scheme r)))]
     @ (if au_identity r \<noteq> [] then [(''identity'', JStr (au_identity r))] else [])
     @ (if au_error r \<noteq> [] then [(''error'', JStr (au_error r))] else []))"

definition bearer_value :: "string \<Rightarrow> string" where
  "bearer_value header = py_strip (if starts_with ''bearer '' (py_lower header) then drop 7 header else header)"

definition verify_bearer_token :: "string \<Rightarrow> string \<Rightarrow> auth_result option" where
  "verify_bearer_token header expected_token =
    (if header = [] \<or> expected_token = []
     then Some (auth_refused SCHEME_BEARER (if expected_token = [] then ''missing_token'' else ''missing_header''))
     else (case compare_digest (bearer_value header) expected_token of
         None \<Rightarrow> None
       | Some same \<Rightarrow> Some (if \<not> same then auth_refused SCHEME_BEARER ''token_mismatch''
           else \<lparr>au_ok = True, au_scheme = SCHEME_BEARER, au_identity = ''bearer'', au_error = []\<rparr>)))"

text \<open>
  The digests of a secret and a body: \<open>mac algorithm base64 secret body\<close> in the encoding the code
  asks for.
\<close>

type_synonym mac = "string \<Rightarrow> bool \<Rightarrow> string \<Rightarrow> string \<Rightarrow> string"

fun drop_prefix :: "string list \<Rightarrow> string \<Rightarrow> string" where
  "drop_prefix [] sig = sig"
| "drop_prefix (p # ps) sig = (if starts_with p (py_lower sig) then drop (length p) sig else drop_prefix ps sig)"

definition signature_value :: "string \<Rightarrow> string \<Rightarrow> string" where
  "signature_value algorithm header = drop_prefix [algorithm @ ''='', ''sha256='', ''sha1=''] (py_strip header)"

definition verify_hmac_signature :: "mac \<Rightarrow> string \<Rightarrow> string \<Rightarrow> string \<Rightarrow> string \<Rightarrow> string \<Rightarrow> auth_result option" where
  "verify_hmac_signature mac body header secret algorithm encoding =
    (if secret = [] then Some (auth_refused SCHEME_HMAC_SHA256 ''missing_secret'')
     else if header = [] then Some (auth_refused SCHEME_HMAC_SHA256 ''missing_signature_header'')
     else if algorithm \<notin> {''sha256'', ''sha1''} then Some (auth_refused SCHEME_HMAC_SHA256 (''unsupported_algorithm:'' @ algorithm))
     else (case compare_digest (signature_value algorithm header) (mac algorithm (encoding = ''base64'') secret body) of
         None \<Rightarrow> None
       | Some same \<Rightarrow> Some (if \<not> same then auth_refused SCHEME_HMAC_SHA256 ''signature_mismatch''
           else \<lparr>au_ok = True, au_scheme = SCHEME_HMAC_SHA256, au_identity = ''hmac'', au_error = []\<rparr>)))"

subsection \<open>The replay window\<close>

record replay_guard =
  gu_window_sec :: int
  gu_max_entries :: int
  gu_seen :: "(string, time) dict"

definition make_guard :: "int \<Rightarrow> int \<Rightarrow> replay_guard" where
  "make_guard window_sec max_entries = \<lparr>gu_window_sec = window_sec, gu_max_entries = max_entries, gu_seen = []\<rparr>"

definition DEFAULT_REPLAY_WINDOW_SEC :: int where "DEFAULT_REPLAY_WINDOW_SEC = 300"
definition MAX_REPLAY_ENTRIES :: int where "MAX_REPLAY_ENTRIES = 50000"

definition guard_enforce_cap :: "replay_guard \<Rightarrow> replay_guard" where
  "guard_enforce_cap g = (if int (length (gu_seen g)) > gu_max_entries g
     then let excess = int (length (gu_seen g)) - gu_max_entries g
       in g\<lparr>gu_seen := ddel_all (dkeys (take (nat excess) (sort_key snd (gu_seen g)))) (gu_seen g)\<rparr>
     else g)"

definition guard_evict :: "time \<Rightarrow> replay_guard \<Rightarrow> replay_guard" where
  "guard_evict now g = guard_enforce_cap (g\<lparr>gu_seen :=
     ddel_all (dkeys (filter (\<lambda>(k, ts). ts < now - of_int (gu_window_sec g)) (gu_seen g))) (gu_seen g)\<rparr>)"

text \<open>\<open>True\<close>: the key is new.\<close>

definition guard_check :: "time \<Rightarrow> string \<Rightarrow> replay_guard \<Rightarrow> bool \<times> replay_guard" where
  "guard_check now key g =
    (let g1 = guard_evict now g;
         record = (let g2 = g1\<lparr>gu_seen := dput key now (gu_seen g1)\<rparr>
           in (True, if int (length (gu_seen g2)) > gu_max_entries g2 then guard_enforce_cap g2 else g2))
     in case dget (gu_seen g1) key of
          Some ts \<Rightarrow> if now - ts \<le> of_int (gu_window_sec g1) then (False, g1) else record
        | None \<Rightarrow> record)"

definition is_duplicate :: "time \<Rightarrow> string \<Rightarrow> replay_guard \<Rightarrow> bool \<times> replay_guard" where
  "is_duplicate now key g = (let (new, g1) = guard_check now key g in (\<not> new, g1))"

subsection \<open>The allowlist\<close>

datatype scope_decision = SCOPE_ALLOW | SCOPE_DENY | SCOPE_SKIP

fun scope_value :: "scope_decision \<Rightarrow> string" where
  "scope_value SCOPE_ALLOW = ''allow''"
| "scope_value SCOPE_DENY = ''deny''"
| "scope_value SCOPE_SKIP = ''skip''"

record scope_result =
  sc_decision :: scope_decision
  sc_matched_entry :: string
  sc_reason :: string

definition scope_to_dict :: "scope_result \<Rightarrow> json" where
  "scope_to_dict r = JObj [(''decision'', JStr (scope_value (sc_decision r))), (''matched_entry'', JStr (sc_matched_entry r)), (''reason'', JStr (sc_reason r))]"

record allowlist =
  al_normalizer :: "string \<Rightarrow> string"
  al_entries :: "string set"
  al_strict :: bool

definition default_normalizer :: "string \<Rightarrow> string" where
  "default_normalizer x = py_lower (py_strip x)"

definition make_allowlist :: "string list \<Rightarrow> bool \<Rightarrow> (string \<Rightarrow> string) option \<Rightarrow> allowlist" where
  "make_allowlist entries strict normalizer =
    (let n = (case normalizer of Some f \<Rightarrow> f | None \<Rightarrow> default_normalizer)
     in \<lparr>al_normalizer = n, al_entries = set (map n (filter (\<lambda>e. py_strip e \<noteq> []) entries)), al_strict = strict\<rparr>)"

definition evaluate_allowlist :: "allowlist \<Rightarrow> string \<Rightarrow> scope_result" where
  "evaluate_allowlist a identifier =
    (let normalized = al_normalizer a identifier in
     if al_entries a = {} then
       (if al_strict a then \<lparr>sc_decision = SCOPE_DENY, sc_matched_entry = [], sc_reason = ''empty_allowlist_strict''\<rparr>
        else \<lparr>sc_decision = SCOPE_SKIP, sc_matched_entry = [], sc_reason = ''no_allowlist_configured''\<rparr>)
     else if normalized \<in> al_entries a then \<lparr>sc_decision = SCOPE_ALLOW, sc_matched_entry = normalized, sc_reason = []\<rparr>
     else \<lparr>sc_decision = SCOPE_DENY, sc_matched_entry = [], sc_reason = ''not_in_allowlist''\<rparr>)"

subsection \<open>Errors\<close>

record transport_error =
  te_code :: string
  te_message :: string
  te_retryable :: bool
  te_details :: "(string \<times> json) list"
  te_timestamp :: time

definition to_transport_error :: "time \<Rightarrow> string \<Rightarrow> string \<Rightarrow> (string \<times> json) list \<Rightarrow> transport_error" where
  "to_transport_error now code message details =
     \<lparr>te_code = code, te_message = message, te_retryable = False, te_details = details, te_timestamp = now\<rparr>"

definition error_to_dict :: "transport_error \<Rightarrow> json" where
  "error_to_dict e = JObj [(''code'', JStr (te_code e)), (''message'', JStr (te_message e)), (''retryable'', JBool (te_retryable e)),
     (''details'', JObj (te_details e)), (''timestamp'', JFloat (te_timestamp e))]"

definition auth_failure_error :: "time \<Rightarrow> auth_result \<Rightarrow> transport_error" where
  "auth_failure_error now r = to_transport_error now (''auth_'' @ au_error r) (''Auth failed ('' @ scheme_value (au_scheme r) @ ''): '' @ au_error r) []"

definition scope_denial_error :: "time \<Rightarrow> scope_result \<Rightarrow> transport_error" where
  "scope_denial_error now r = to_transport_error now (''scope_'' @ sc_reason r) (''Scope denied: '' @ sc_reason r) []"

definition replay_error :: "time \<Rightarrow> string \<Rightarrow> transport_error" where
  "replay_error now key = to_transport_error now ''replay_detected'' ''Duplicate request detected within replay window''
     [(''key_prefix'', JStr (if length key > 8 then take 8 key @ ''...'' else key))]"

subsection \<open>The gate\<close>

record ingress_decision =
  ig_allowed :: bool
  ig_auth :: "auth_result option"
  ig_scope :: "scope_result option"
  ig_replay_ok :: bool
  ig_error :: "transport_error option"

definition opt_pair :: "string \<Rightarrow> ('a \<Rightarrow> json) \<Rightarrow> 'a option \<Rightarrow> (string \<times> json) list" where
  "opt_pair k f x = (case x of None \<Rightarrow> [] | Some y \<Rightarrow> [(k, f y)])"

definition ingress_to_dict :: "ingress_decision \<Rightarrow> json" where
  "ingress_to_dict d = JObj ((''allowed'', JBool (ig_allowed d)) # opt_pair ''auth'' auth_to_dict (ig_auth d)
     @ opt_pair ''scope'' scope_to_dict (ig_scope d) @ (''replay_ok'', JBool (ig_replay_ok d)) # opt_pair ''error'' error_to_dict (ig_error d))"

record ingress_gate =
  gt_mac :: mac
  gt_expected_token :: string
  gt_hmac_secret :: string
  gt_guard :: "replay_guard option"
  gt_allowlist :: "allowlist option"
  gt_require_auth :: bool

record ingress_request =
  ir_auth_header :: string
  ir_body :: string
  ir_signature_header :: string
  ir_request_id :: string
  ir_user_id :: string

definition authenticate :: "ingress_gate \<Rightarrow> ingress_request \<Rightarrow> auth_result option" where
  "authenticate g q =
    (if gt_hmac_secret g \<noteq> [] \<and> ir_body q \<noteq> [] then verify_hmac_signature (gt_mac g) (ir_body q) (ir_signature_header q) (gt_hmac_secret g) ''sha256'' ''hex''
     else if gt_expected_token g \<noteq> [] then verify_bearer_token (ir_auth_header q) (gt_expected_token g)
     else Some (auth_refused SCHEME_NONE ''no_auth_configured''))"

text \<open>The three stages; each hands the decision so far to the next.\<close>

definition check_user :: "time \<Rightarrow> ingress_gate \<Rightarrow> ingress_request \<Rightarrow> ingress_decision \<Rightarrow> ingress_decision" where
  "check_user now g q d = (case gt_allowlist g of
       None \<Rightarrow> d\<lparr>ig_allowed := True\<rparr>
     | Some a \<Rightarrow>
        if ir_user_id q = [] then
          d\<lparr>ig_scope := Some \<lparr>sc_decision = SCOPE_DENY, sc_matched_entry = [], sc_reason = ''missing_user_id''\<rparr>,
            ig_error := Some (to_transport_error now ''scope_missing_user_id'' ''Allowlist active but no user_id supplied'' [])\<rparr>
        else let r = evaluate_allowlist a (ir_user_id q); d1 = d\<lparr>ig_scope := Some r\<rparr>
          in if sc_decision r = SCOPE_DENY then d1\<lparr>ig_error := Some (scope_denial_error now r)\<rparr> else d1\<lparr>ig_allowed := True\<rparr>)"

definition check_request_id :: "time \<Rightarrow> ingress_gate \<Rightarrow> ingress_request \<Rightarrow> ingress_decision \<Rightarrow> ingress_decision \<times> ingress_gate" where
  "check_request_id now g q d = (case gt_guard g of
       None \<Rightarrow> (check_user now g q d, g)
     | Some u \<Rightarrow>
        if ir_request_id q = [] then
          (d\<lparr>ig_replay_ok := False, ig_error := Some (to_transport_error now ''replay_missing_request_id'' ''Replay guard active but no request_id supplied'' [])\<rparr>, g)
        else let (dup, u1) = is_duplicate now (ir_request_id q) u; g1 = g\<lparr>gt_guard := Some u1\<rparr>
          in if dup then (d\<lparr>ig_replay_ok := False, ig_error := Some (replay_error now (ir_request_id q))\<rparr>, g1)
             else (check_user now g1 q d, g1))"

text \<open>No decision (\<open>None\<close>): a \<open>TypeError\<close> of the comparison leaves the gate.\<close>

definition evaluate_ingress :: "time \<Rightarrow> ingress_gate \<Rightarrow> ingress_request \<Rightarrow> ingress_decision option \<times> ingress_gate" where
  "evaluate_ingress now g q =
    (let d = \<lparr>ig_allowed = False, ig_auth = None, ig_scope = None, ig_replay_ok = True, ig_error = None\<rparr>
     in if gt_require_auth g then
          (case authenticate g q of
             None \<Rightarrow> (None, g)
           | Some r \<Rightarrow>
              let d1 = d\<lparr>ig_auth := Some r\<rparr> in
              if \<not> au_ok r then (Some (d1\<lparr>ig_error := Some (auth_failure_error now r)\<rparr>), g)
              else apfst Some (check_request_id now g q d1))
        else apfst Some (check_request_id now g q d))"

definition admitted :: "ingress_decision option \<Rightarrow> bool" where
  "admitted d \<longleftrightarrow> (case d of None \<Rightarrow> False | Some d \<Rightarrow> ig_allowed d)"

subsection \<open>What an admitted request has\<close>

text \<open>Two ASCII texts that are equal.\<close>

definition same_ascii :: "string \<Rightarrow> string \<Rightarrow> bool" where
  "same_ascii a b \<longleftrightarrow> is_ascii a \<and> a = b"

definition credential_ok :: "ingress_gate \<Rightarrow> ingress_request \<Rightarrow> bool" where
  "credential_ok g q \<longleftrightarrow>
     (if gt_hmac_secret g \<noteq> [] \<and> ir_body q \<noteq> []
      then ir_signature_header q \<noteq> []
        \<and> same_ascii (signature_value ''sha256'' (ir_signature_header q)) (gt_mac g ''sha256'' False (gt_hmac_secret g) (ir_body q))
      else gt_expected_token g \<noteq> [] \<and> same_ascii (bearer_value (ir_auth_header q)) (gt_expected_token g))"

definition user_ok :: "allowlist \<Rightarrow> string \<Rightarrow> bool" where
  "user_ok a user \<longleftrightarrow> user \<noteq> [] \<and> (al_normalizer a user \<in> al_entries a \<or> al_entries a = {} \<and> \<not> al_strict a)"

lemma bearer_value_Nil: "bearer_value [] = []"
  by (simp add: bearer_value_def py_strip_def starts_with_def)

lemma authenticate_ok: "(\<exists>r. authenticate g q = Some r \<and> au_ok r) \<longleftrightarrow> credential_ok g q"
  using bearer_value_Nil
  by (auto simp: authenticate_def verify_hmac_signature_def verify_bearer_token_def auth_refused_def credential_ok_def same_ascii_def
      compare_digest_def split: if_splits option.splits)

lemma check_user_ok: "\<not> ig_allowed d \<Longrightarrow> ig_allowed (check_user now g q d) \<longleftrightarrow> (\<forall>a. gt_allowlist g = Some a \<longrightarrow> user_ok a (ir_user_id q))"
  by (auto simp: check_user_def user_ok_def evaluate_allowlist_def Let_def split: option.splits)

lemma check_request_ok:
  "\<not> ig_allowed d \<Longrightarrow> ig_allowed (fst (check_request_id now g q d)) \<longleftrightarrow>
     (\<forall>a. gt_allowlist g = Some a \<longrightarrow> user_ok a (ir_user_id q)) \<and>
     (\<forall>u. gt_guard g = Some u \<longrightarrow> ir_request_id q \<noteq> [] \<and> fst (guard_check now (ir_request_id q) u))"
  using check_user_ok [of d] by (auto simp: check_request_id_def is_duplicate_def split_def Let_def split: option.splits)

subsection \<open>A request id passes once per window\<close>

lemma guard_cap_id: "int (length (gu_seen g)) \<le> gu_max_entries g \<Longrightarrow> guard_enforce_cap g = g"
  by (simp add: guard_enforce_cap_def)

lemma guard_cap_simps [simp]: "gu_window_sec (guard_enforce_cap g) = gu_window_sec g" "gu_max_entries (guard_enforce_cap g) = gu_max_entries g"
  by (simp_all add: guard_enforce_cap_def Let_def)

definition guard_room :: "replay_guard \<Rightarrow> bool" where
  "guard_room g \<longleftrightarrow> int (length (gu_seen g)) < gu_max_entries g"

definition guard_ok :: "int \<Rightarrow> replay_guard \<Rightarrow> bool" where
  "guard_ok window g \<longleftrightarrow> gu_window_sec g = window \<and> dict_ok (gu_seen g)"

lemma guard_cap_ok: "guard_ok w g \<Longrightarrow> guard_ok w (guard_enforce_cap g)"
  by (simp add: guard_ok_def guard_enforce_cap_def Let_def dict_ok_ddel_all)

lemma guard_evict_ok: "guard_ok w g \<Longrightarrow> guard_ok w (guard_evict now g)"
  unfolding guard_evict_def by (rule guard_cap_ok) (simp add: guard_ok_def dict_ok_ddel_all)

lemma guard_check_ok: "guard_ok w g \<Longrightarrow> guard_ok w (snd (guard_check now key g))"
proof -
  assume "guard_ok w g"
  then have e: "guard_ok w (guard_evict now g)" by (rule guard_evict_ok)
  then have "guard_ok w ((guard_evict now g)\<lparr>gu_seen := dput key now (gu_seen (guard_evict now g))\<rparr>)"
    by (simp add: guard_ok_def dict_ok_dput)
  then show ?thesis using e by (auto simp: guard_check_def Let_def guard_cap_ok split: option.split)
qed

text \<open>Within its limit, nothing but the expired keys goes.\<close>

lemma guard_evict_fits:
  assumes "guard_ok w g" and "int (length (gu_seen g)) \<le> gu_max_entries g"
  shows "guard_evict now g = g\<lparr>gu_seen := filter (\<lambda>(k, ts). \<not> ts < now - of_int w) (gu_seen g)\<rparr>"
proof -
  have "int (length (filter (\<lambda>(k, ts). \<not> ts < now - of_int w) (gu_seen g))) \<le> gu_max_entries g"
    using assms(2) length_filter_le [of "\<lambda>(k, ts). \<not> ts < now - of_int w" "gu_seen g"] by linarith
  then show ?thesis using assms(1) by (simp add: guard_evict_def guard_ok_def ddel_all_matching split_def guard_cap_id)
qed

lemma guard_evict_room:
  assumes "guard_ok w g" and "guard_room g"
  shows "gu_seen (guard_evict now g) = filter (\<lambda>(k, ts). \<not> ts < now - of_int w) (gu_seen g)" and "guard_room (guard_evict now g)"
    and "gu_window_sec (guard_evict now g) = w"
proof -
  have fits: "int (length (gu_seen g)) \<le> gu_max_entries g" using assms(2) by (simp add: guard_room_def)
  have len: "length (filter (\<lambda>(k, ts). \<not> ts < now - of_int w) (gu_seen g)) \<le> length (gu_seen g)" by (rule length_filter_le)
  show "gu_seen (guard_evict now g) = filter (\<lambda>(k, ts). \<not> ts < now - of_int w) (gu_seen g)" "guard_room (guard_evict now g)" "gu_window_sec (guard_evict now g) = w"
    unfolding guard_evict_fits [OF assms(1) fits] using le_less_trans [OF of_nat_mono [OF len]] assms by (auto simp: guard_room_def guard_ok_def)
qed

definition seen_within :: "int \<Rightarrow> time \<Rightarrow> replay_guard \<Rightarrow> string \<Rightarrow> bool" where
  "seen_within w t g key \<longleftrightarrow> (\<exists>ts. dget (gu_seen g) key = Some ts \<and> t - ts \<le> of_int w)"

text \<open>A check answers that a key is new exactly when the table holds no time of it within the window.\<close>

lemma guard_check_seen:
  assumes "guard_ok w g" and "int (length (gu_seen g)) \<le> gu_max_entries g"
  shows "fst (guard_check t key g) \<longleftrightarrow> \<not> seen_within w t g key"
proof -
  have "dget (filter (\<lambda>(k, ts). \<not> ts < t - of_int w) (gu_seen g)) key
      = (case dget (gu_seen g) key of Some ts \<Rightarrow> if ts < t - of_int w then None else Some ts | None \<Rightarrow> None)"
    using assms(1) by (auto simp: guard_ok_def dget_filter split: option.split)
  then show ?thesis using assms(1)
    by (cases "dget (gu_seen g) key")
      (simp_all add: guard_check_def guard_evict_fits [OF assms] seen_within_def guard_ok_def Let_def del: map_of_eq_Some_iff)
qed

lemma seen_evict:
  assumes "guard_ok w g" and "guard_room g" and "seen_within w t' g key" and "t \<le> t'"
  shows "seen_within w t' (guard_evict t g) key"
  using assms guard_evict_room(1) [OF assms(1,2), of t]
  by (auto simp: seen_within_def guard_ok_def dget_filter)

text \<open>What a check does, with room.\<close>

lemma guard_check_room:
  assumes "guard_ok w g" and "guard_room g"
  shows "guard_check t key g = (if seen_within w t (guard_evict t g) key then (False, guard_evict t g)
    else (True, (guard_evict t g)\<lparr>gu_seen := dput key t (gu_seen (guard_evict t g))\<rparr>))"
proof -
  note r = guard_evict_room [OF assms, of t]
  have "int (length (dput key t (gu_seen (guard_evict t g)))) \<le> gu_max_entries (guard_evict t g)"
    using r(2) length_dput_le [of key t "gu_seen (guard_evict t g)"] by (simp add: guard_room_def)
  then show ?thesis using r(3) by (auto simp: guard_check_def seen_within_def Let_def split: option.split)
qed

lemma guard_check_keeps:
  assumes "guard_ok w g" and "guard_room g" and "seen_within w t' g k" and "t \<le> t'"
  shows "seen_within w t' (snd (guard_check t key g)) k"
  using seen_evict [OF assms] assms(4)
  by (auto simp: guard_check_room [OF assms(1,2)] seen_within_def dict_simps)

lemma guard_check_new:
  assumes "guard_ok w g" and "guard_room g" and "fst (guard_check t key g)"
  shows "\<not> seen_within w t g key" and "t' \<le> t + of_int w \<Longrightarrow> seen_within w t' (snd (guard_check t key g)) key"
  using assms(3) seen_evict [OF assms(1,2), of t key t] by (auto simp: guard_check_room [OF assms(1,2)] seen_within_def dict_simps split: if_splits)

text \<open>The gate as a gate on request ids.\<close>

definition ingress_claim :: "time \<Rightarrow> ingress_request \<Rightarrow> ingress_gate \<Rightarrow> bool \<times> ingress_gate" where
  "ingress_claim now q g = (let (d, g1) = evaluate_ingress now g q in (admitted d, g1))"

definition guarded_gate :: "(replay_guard \<Rightarrow> bool) \<Rightarrow> ingress_gate \<Rightarrow> bool" where
  "guarded_gate P g \<longleftrightarrow> (\<exists>u. gt_guard g = Some u \<and> P u)"

lemma evaluate_guard:
  "gt_guard g = Some u \<Longrightarrow> gt_guard (snd (evaluate_ingress now g q)) = Some u
     \<and> \<not> admitted (fst (evaluate_ingress now g q))
   \<or> gt_guard (snd (evaluate_ingress now g q)) = Some (snd (guard_check now (ir_request_id q) u))"
  by (auto simp: evaluate_ingress_def check_request_id_def is_duplicate_def admitted_def Let_def split_def split: option.splits)

text \<open>What a request needs, in terms of the guard's answer.\<close>

lemma ingress_admits:
  "admitted (fst (evaluate_ingress now g q)) \<longleftrightarrow>
     (gt_require_auth g \<longrightarrow> credential_ok g q)
     \<and> (\<forall>u. gt_guard g = Some u \<longrightarrow> ir_request_id q \<noteq> [] \<and> fst (guard_check now (ir_request_id q) u))
     \<and> (\<forall>a. gt_allowlist g = Some a \<longrightarrow> user_ok a (ir_user_id q))"
  using authenticate_ok [of g q]
  by (auto simp: evaluate_ingress_def admitted_def Let_def check_request_ok split: option.splits)

interpretation ingress: once_gate ingress_claim "\<lambda>_. ir_request_id" "\<lambda>t g k. guarded_gate (\<lambda>u. seen_within w t u k) g"
  "guarded_gate (guard_ok w)" "guarded_gate guard_room" "of_int w" for w
proof unfold_locales
  fix g t q assume inv: "guarded_gate (guard_ok w) g"
  then obtain u where u: "gt_guard g = Some u" "guard_ok w u" by (auto simp: guarded_gate_def)
  note e = evaluate_guard [OF u(1), of t q]
  show "guarded_gate (guard_ok w) (snd (ingress_claim t q g))"
    using e u(2) guard_check_ok [OF u(2)] by (auto simp: ingress_claim_def guarded_gate_def split_def Let_def)
  assume room: "guarded_gate guard_room g"
  then have r: "guard_room u" using u(1) by (simp add: guarded_gate_def)
  have new: "fst (guard_check t (ir_request_id q) u)" if "fst (ingress_claim t q g)"
    using that u(1) by (simp add: ingress_claim_def split_def Let_def ingress_admits)
  show "\<not> fst (ingress_claim t q g)" if "guarded_gate (\<lambda>u. seen_within w t u (ir_request_id q)) g"
    using that guard_check_new(1) [OF u(2) r new] u(1) by (auto simp: guarded_gate_def)
  fix t' k assume le: "t \<le> t'"
  show "guarded_gate (\<lambda>u. seen_within w t' u k) (snd (ingress_claim t q g))" if "guarded_gate (\<lambda>u. seen_within w t' u k) g"
    using that e u guard_check_keeps [OF u(2) r _ le] by (auto simp: ingress_claim_def guarded_gate_def split_def Let_def)
  show "guarded_gate (\<lambda>u. seen_within w t' u (ir_request_id q)) (snd (ingress_claim t q g))"
    if "fst (ingress_claim t q g)" "t' < t + of_int w"
    using that e guard_check_new(2) [OF u(2) r new, of t'] by (auto simp: ingress_claim_def guarded_gate_def split_def Let_def)
qed

text \<open>
  C37: A request is admitted exactly when it passes every stage that is configured: where
  authentication is required, the signature of a non-empty body under the secret or else the bearer
  token; where there is a replay guard, a request id for which the guard's table holds no time within
  its window; and where there is an allowlist, a user of the list (or a list that is empty and not
  strict). An id that was admitted is then in the table with the present time, if the table had room.
  The table has no more entries than its limit; a full one has dropped its oldest ids
  (\<open>full_guard_forgets\<close>), which this then admits again.
\<close>

theorem ingress_admits_exactly:
  assumes "\<forall>u. gt_guard g = Some u \<longrightarrow> dict_ok (gu_seen u) \<and> int (length (gu_seen u)) \<le> gu_max_entries u"
  shows "(admitted (fst (evaluate_ingress now g q)) \<longleftrightarrow>
      (gt_require_auth g \<longrightarrow> credential_ok g q)
      \<and> (\<forall>u. gt_guard g = Some u \<longrightarrow> ir_request_id q \<noteq> []
          \<and> \<not> (\<exists>ts. dget (gu_seen u) (ir_request_id q) = Some ts \<and> now - ts \<le> of_int (gu_window_sec u)))
      \<and> (\<forall>a. gt_allowlist g = Some a \<longrightarrow> user_ok a (ir_user_id q)))
    \<and> (\<forall>u. gt_guard g = Some u \<longrightarrow> admitted (fst (evaluate_ingress now g q)) \<longrightarrow> int (length (gu_seen u)) < gu_max_entries u \<longrightarrow>
         (\<exists>u1. gt_guard (snd (evaluate_ingress now g q)) = Some u1 \<and> dget (gu_seen u1) (ir_request_id q) = Some now))"
proof -
  have ok: "guard_ok (gu_window_sec u) u" if "gt_guard g = Some u" for u using assms that by (simp add: guard_ok_def)
  have new: "fst (guard_check now (ir_request_id q) u) \<longleftrightarrow> \<not> seen_within (gu_window_sec u) now u (ir_request_id q)" if "gt_guard g = Some u" for u
    using guard_check_seen [OF ok [OF that]] assms that by simp
  have "\<exists>u1. gt_guard (snd (evaluate_ingress now g q)) = Some u1 \<and> dget (gu_seen u1) (ir_request_id q) = Some now"
    if u: "gt_guard g = Some u" and adm: "admitted (fst (evaluate_ingress now g q))" and room: "int (length (gu_seen u)) < gu_max_entries u" for u
  proof -
    have r: "guard_room u" using room by (simp add: guard_room_def)
    have "fst (guard_check now (ir_request_id q) u)" using adm u by (simp add: ingress_admits)
    then have "dget (gu_seen (snd (guard_check now (ir_request_id q) u))) (ir_request_id q) = Some now"
      by (auto simp: guard_check_room [OF ok [OF u] r] dict_simps split: if_splits)
    then show ?thesis using evaluate_guard [OF u, of now q] adm by auto
  qed
  moreover have "admitted (fst (evaluate_ingress now g q)) \<longleftrightarrow> (gt_require_auth g \<longrightarrow> credential_ok g q)
      \<and> (\<forall>u. gt_guard g = Some u \<longrightarrow> ir_request_id q \<noteq> [] \<and> \<not> seen_within (gu_window_sec u) now u (ir_request_id q))
      \<and> (\<forall>a. gt_allowlist g = Some a \<longrightarrow> user_ok a (ir_user_id q))"
    unfolding ingress_admits using new by blast
  ultimately show ?thesis unfolding seen_within_def by blast
qed

text \<open>
  C38: Behind a replay guard a request id is admitted at most once in any stretch of time as long as
  the window, whatever other requests come and however they are answered, as long as the guard has
  room.
\<close>

theorem ingress_id_once:
  assumes "gt_guard g = Some u" and "dict_ok (gu_seen u)"
    and "all_states (guarded_gate guard_room) (claim_run ingress_claim cs g)"
    and "sorted (map fst cs)" and "\<forall>(t, q) \<in> set cs. a \<le> t \<and> t < a + of_int (gu_window_sec u)"
  shows "accepted (\<lambda>_. ir_request_id) k cs (claim_run ingress_claim cs g) \<le> 1"
  using assms by (intro ingress.at_most_once [where w = "gu_window_sec u"]) (auto simp: guarded_gate_def guard_ok_def)

definition demo_ingress :: ingress_gate where
  "demo_ingress = \<lparr>gt_mac = (\<lambda>alg b64 secret body. secret @ body), gt_expected_token = [], gt_hmac_secret = ''key'',
     gt_guard = Some (make_guard 300 10), gt_allowlist = Some (make_allowlist ['' Alice ''] True None), gt_require_auth = True\<rparr>"

definition demo_ingress_request :: "string \<Rightarrow> string \<Rightarrow> ingress_request" where
  "demo_ingress_request i user = \<lparr>ir_auth_header = [], ir_body = ''body'', ir_signature_header = ''sha256=keybody'', ir_request_id = i, ir_user_id = user\<rparr>"

theorem ingress_admits_exactly_witness:
  "admitted (fst (evaluate_ingress 5 demo_ingress (demo_ingress_request ''r1'' ''alice'')))
   \<and> (\<exists>u1. gt_guard (snd (evaluate_ingress 5 demo_ingress (demo_ingress_request ''r1'' ''alice''))) = Some u1 \<and> dget (gu_seen u1) ''r1'' = Some 5)"
proof -
  have guard: "gt_guard demo_ingress = Some (make_guard 300 10)" by (simp add: demo_ingress_def)
  have "\<forall>u. gt_guard demo_ingress = Some u \<longrightarrow> dict_ok (gu_seen u) \<and> int (length (gu_seen u)) \<le> gu_max_entries u"
    by (simp add: guard make_guard_def)
  note spec = ingress_admits_exactly [OF this, of 5 "demo_ingress_request ''r1'' ''alice''"]
  have "credential_ok demo_ingress (demo_ingress_request ''r1'' ''alice'')" by code_simp
  moreover have "user_ok a (ir_user_id (demo_ingress_request ''r1'' ''alice''))" if "gt_allowlist demo_ingress = Some a" for a
  proof -
    have "a = make_allowlist ['' Alice ''] True None" using that by (simp add: demo_ingress_def)
    moreover have "user_ok (make_allowlist ['' Alice ''] True None) ''alice''" by code_simp
    ultimately show ?thesis by (simp add: demo_ingress_request_def)
  qed
  moreover have "ir_request_id (demo_ingress_request ''r1'' ''alice'') = ''r1''" by (simp add: demo_ingress_request_def)
  ultimately show ?thesis using spec guard by (simp add: make_guard_def)
qed

definition demo_requests :: "(time \<times> ingress_request) list" where
  "demo_requests = [(1, demo_ingress_request ''r1'' ''alice''), (2, demo_ingress_request ''r2'' ''bob''), (3, demo_ingress_request ''r1'' ''alice'')]"

theorem ingress_id_once_witness:
  "accepted (\<lambda>_. ir_request_id) ''r1'' demo_requests (claim_run ingress_claim demo_requests demo_ingress) \<le> 1"
proof (rule ingress_id_once [where a = 0 and u = "make_guard 300 10"])
  have "list_all (\<lambda>x. case gt_guard (snd x) of None \<Rightarrow> False | Some u \<Rightarrow> guard_room u) (claim_run ingress_claim demo_requests demo_ingress)"
    by code_simp
  then show "all_states (guarded_gate guard_room) (claim_run ingress_claim demo_requests demo_ingress)"
    by (force simp: all_states_def guarded_gate_def list_all_iff split: option.splits)
qed (auto simp: demo_ingress_def make_guard_def demo_requests_def)

text \<open>A request whose user is refused has used its id up: the same request of an allowed user is a replay.\<close>

lemma refused_request_uses_id:
  "map_option ig_replay_ok (fst (evaluate_ingress 2 (snd (evaluate_ingress 1 demo_ingress (demo_ingress_request ''r1'' ''bob''))) (demo_ingress_request ''r1'' ''alice''))) = Some False"
  by code_simp

text \<open>With a full table the oldest id is forgotten and passes again within the window.\<close>

lemma full_guard_forgets:
  "fst (guard_check 4 ''a'' (snd (guard_check 3 ''c'' (snd (guard_check 2 ''b'' (snd (guard_check 1 ''a'' (make_guard 300 2))))))))"
  by code_simp

text \<open>Without a body the signature is not asked for: a configured bearer token is enough.\<close>

lemma empty_body_skips_signature:
  "gt_expected_token g \<noteq> [] \<Longrightarrow> ir_body q = [] \<Longrightarrow> authenticate g q = verify_bearer_token (ir_auth_header q) (gt_expected_token g)"
  by (simp add: authenticate_def)

end
