(* ===== verification/Bridge_Auth.thy ===== *)
theory Bridge_Auth
  imports Bridge_Token Env_Aliases
begin

text \<open>
  \<open>services/sidecar/auth.py\<close>: authentication of the sidecar's requests to the bridge endpoints.
  A token of the store of \<open>Bridge_Token\<close> decides; a value the store does not know is compared with
  the static token of the settings. Then the allowlist of devices and the certificate binding apply.
\<close>

subsection \<open>Settings and headers\<close>

definition ENV_BRIDGE_ENABLED :: string where "ENV_BRIDGE_ENABLED = ''OPENCLAW_BRIDGE_ENABLED''"
definition LEGACY_ENV_BRIDGE_ENABLED :: string where "LEGACY_ENV_BRIDGE_ENABLED = ''MOLTBOT_BRIDGE_ENABLED''"
definition ENV_BRIDGE_DEVICE_TOKEN :: string where "ENV_BRIDGE_DEVICE_TOKEN = ''OPENCLAW_BRIDGE_DEVICE_TOKEN''"
definition LEGACY_ENV_BRIDGE_DEVICE_TOKEN :: string where "LEGACY_ENV_BRIDGE_DEVICE_TOKEN = ''MOLTBOT_BRIDGE_DEVICE_TOKEN''"
definition ENV_BRIDGE_ALLOWED_DEVICE_IDS :: string where "ENV_BRIDGE_ALLOWED_DEVICE_IDS = ''OPENCLAW_BRIDGE_ALLOWED_DEVICE_IDS''"
definition LEGACY_ENV_BRIDGE_ALLOWED_DEVICE_IDS :: string where "LEGACY_ENV_BRIDGE_ALLOWED_DEVICE_IDS = ''MOLTBOT_BRIDGE_ALLOWED_DEVICE_IDS''"
definition ENV_BRIDGE_MTLS_ENABLED :: string where "ENV_BRIDGE_MTLS_ENABLED = ''OPENCLAW_BRIDGE_MTLS_ENABLED''"
definition ENV_BRIDGE_DEVICE_CERT_MAP :: string where "ENV_BRIDGE_DEVICE_CERT_MAP = ''OPENCLAW_BRIDGE_DEVICE_CERT_MAP''"

text \<open>The legacy names are in the registry, so the lookup does not raise (\<open>env_get_value\<close> below).\<close>

definition env_get :: "env \<Rightarrow> string \<Rightarrow> string \<Rightarrow> string \<Rightarrow> string" where
  "env_get env primary legacy dflt = (case resolve_env True env primary (Some [legacy]) PRESENCE (Some dflt) None [] of
       Inl _ \<Rightarrow> [] | Inr (res, _) \<Rightarrow> (case er_value res of None \<Rightarrow> [] | Some v \<Rightarrow> v))"

definition is_bridge_enabled :: "env \<Rightarrow> bool" where
  "is_bridge_enabled env \<longleftrightarrow> py_lower (env_get env ENV_BRIDGE_ENABLED LEGACY_ENV_BRIDGE_ENABLED []) \<in> {''1'', ''true'', ''yes''}"

definition get_bridge_device_token :: "env \<Rightarrow> string" where
  "get_bridge_device_token env = env_get env ENV_BRIDGE_DEVICE_TOKEN LEGACY_ENV_BRIDGE_DEVICE_TOKEN []"

text \<open>The non-empty stripped parts between commas.\<close>

definition comma_parts :: "string \<Rightarrow> string list" where
  "comma_parts s = filter (\<lambda>x. x \<noteq> []) (map py_strip (split_on CHR '','' s))"

definition get_allowed_device_ids :: "env \<Rightarrow> string set option" where
  "get_allowed_device_ids env = (let ids = env_get env ENV_BRIDGE_ALLOWED_DEVICE_IDS LEGACY_ENV_BRIDGE_ALLOWED_DEVICE_IDS []
     in if ids = [] then None else Some (set (comma_parts ids)))"

definition is_mtls_enabled :: "env \<Rightarrow> bool" where
  "is_mtls_enabled env \<longleftrightarrow> py_lower (case env ENV_BRIDGE_MTLS_ENABLED of None \<Rightarrow> ''false'' | Some v \<Rightarrow> v) \<in> {''true'', ''1'', ''yes'', ''on''}"

text \<open>\<open>entry.split(":", 1)\<close> for the entries that have a colon.\<close>

definition cert_entry :: "string \<Rightarrow> (string \<times> string) option" where
  "cert_entry entry = (if has_char CHR '':'' entry
     then Some (py_strip (takeWhile (\<lambda>c. c \<noteq> CHR '':'') entry), py_strip (tl (dropWhile (\<lambda>c. c \<noteq> CHR '':'') entry))) else None)"

definition get_device_cert_map :: "env \<Rightarrow> (string, string) dict" where
  "get_device_cert_map env = (let mapping = (case env ENV_BRIDGE_DEVICE_CERT_MAP of None \<Rightarrow> [] | Some v \<Rightarrow> v)
     in if mapping = [] then [] else fold (\<lambda>(d, c). dput d c) (List.map_filter cert_entry (split_on CHR '','' mapping)) [])"

text \<open>The headers of a request by name; a missing one and an empty one are falsy alike.\<close>

type_synonym headers = "string \<Rightarrow> string option"

definition header_or_legacy :: "headers \<Rightarrow> string \<Rightarrow> string \<Rightarrow> string" where
  "header_or_legacy h name legacy_name =
    (let v = (case h name of None \<Rightarrow> [] | Some v \<Rightarrow> v); l = (case h legacy_name of None \<Rightarrow> [] | Some v \<Rightarrow> v)
     in if v = [] \<and> l \<noteq> [] then l else v)"

subsection \<open>Validation\<close>

definition validate_mtls_binding :: "env \<Rightarrow> headers \<Rightarrow> string \<Rightarrow> string option" where
  "validate_mtls_binding env h device_id =
    (if \<not> is_mtls_enabled env then None
     else let cert_hash = (case h ''X-Client-Cert-Hash'' of None \<Rightarrow> [] | Some v \<Rightarrow> v) in
       if cert_hash = [] then Some ''Missing client certificate header (mTLS required)''
       else (case dget (get_device_cert_map env) device_id of
           None \<Rightarrow> Some ''Device not bound to a certificate''
         | Some expected \<Rightarrow> if expected = [] then Some ''Device not bound to a certificate''
             else if cert_hash \<noteq> expected then Some ''Certificate fingerprint mismatch'' else None))"

definition lifecycle_message :: "reject_reason \<Rightarrow> string" where
  "lifecycle_message reason = (case reason of Token_revoked \<Rightarrow> ''Token revoked'' | Token_expired \<Rightarrow> ''Token expired''
     | Overlap_window_expired \<Rightarrow> ''Token overlap window expired'' | Insufficient_scope \<Rightarrow> ''Missing required scope''
     | Unknown_token \<Rightarrow> ''Invalid device token'')"

text \<open>The static token: an error message, or \<open>None\<close>. No scope is the empty text.\<close>

definition static_token_error :: "env \<Rightarrow> headers \<Rightarrow> string \<Rightarrow> string \<Rightarrow> string option" where
  "static_token_error env h device_token required_scope =
    (let expected = get_bridge_device_token env in
     if expected = [] then Some ''Bridge misconfigured''
     else if device_token \<noteq> expected then Some ''Invalid device token''
     else if required_scope = [] then None
     else let scopes = header_or_legacy h ''X-OpenClaw-Scopes'' ''X-Moltbot-Scopes'' in
       if scopes = [] then Some ''Missing X-OpenClaw-Scopes header''
       else if required_scope \<notin> set (comma_parts scopes) then Some (''Missing required scope: '' @ required_scope) else None)"

text \<open>
  The device a request is from as far as its token goes. \<open>up\<close>: the token store could be asked; it
  is changed by the question.
\<close>

definition token_device :: "env \<Rightarrow> bool \<Rightarrow> time \<Rightarrow> headers \<Rightarrow> string \<Rightarrow> string \<Rightarrow> string \<Rightarrow> token_store \<Rightarrow> (string + string) \<times> token_store" where
  "token_device env up now h device_id device_token required_scope s =
    (let static = (case static_token_error env h device_token required_scope of Some e \<Rightarrow> Inl e | None \<Rightarrow> Inr device_id) in
     if \<not> up then (static, s)
     else let (r, s1) = validate_token now device_token required_scope s in
       (case (vr_ok r, vr_token r) of
          (True, Some t) \<Rightarrow> if device_id \<noteq> dt_device_id t then (Inl ''Device ID mismatch'', s1) else (Inr (dt_device_id t), s1)
        | _ \<Rightarrow> (case vr_reject_reason r of
             Some Unknown_token \<Rightarrow> (static, s1)
           | Some reason \<Rightarrow> (Inl (lifecycle_message reason), s1)
           | None \<Rightarrow> (Inl ''Invalid device token'', s1))))"

definition authorize_device :: "env \<Rightarrow> headers \<Rightarrow> string \<Rightarrow> string + string" where
  "authorize_device env h device_id =
    (case get_allowed_device_ids env of
       Some ids \<Rightarrow> if device_id \<notin> ids then Inl ''Device not authorized''
         else (case validate_mtls_binding env h device_id of Some e \<Rightarrow> Inl e | None \<Rightarrow> Inr device_id)
     | None \<Rightarrow> (case validate_mtls_binding env h device_id of Some e \<Rightarrow> Inl e | None \<Rightarrow> Inr device_id))"

definition validate_device_token :: "env \<Rightarrow> bool \<Rightarrow> time \<Rightarrow> headers \<Rightarrow> string \<Rightarrow> token_store \<Rightarrow> (string + string) \<times> token_store" where
  "validate_device_token env up now h required_scope s =
    (let device_id = header_or_legacy h ''X-OpenClaw-Device-Id'' ''X-Moltbot-Device-Id'';
         device_token = header_or_legacy h ''X-OpenClaw-Device-Token'' ''X-Moltbot-Device-Token''
     in if \<not> is_bridge_enabled env then (Inl ''Bridge not enabled'', s)
        else if device_id = [] then (Inl ''Missing device ID'', s)
        else if device_token = [] then (Inl ''Missing device token'', s)
        else case token_device env up now h device_id device_token required_scope s of
            (Inl e, s1) \<Rightarrow> (Inl e, s1)
          | (Inr d, s1) \<Rightarrow> (authorize_device env h d, s1))"

text \<open>The HTTP status and the message, or the device.\<close>

definition require_bridge_auth :: "env \<Rightarrow> bool \<Rightarrow> time \<Rightarrow> headers \<Rightarrow> string \<Rightarrow> token_store \<Rightarrow> ((int \<times> string) + string) \<times> token_store" where
  "require_bridge_auth env up now h required_scope s =
    (let (r, s1) = validate_device_token env up now h required_scope s
     in (case r of Inl e \<Rightarrow> Inl (if has_sub ''not enabled'' e \<or> has_sub ''misconfigured'' e then 403 else 401, e) | Inr d \<Rightarrow> Inr d, s1))"

subsection \<open>What an accepted request has\<close>

lemma env_get_value:
  assumes "legacy \<in> set SUPPORTED_LEGACY_ENV_KEYS" and "legacy \<notin> set REJECTED_LEGACY_ENV_KEYS"
  shows "env_get env primary legacy dflt = (case env primary of Some v \<Rightarrow> v | None \<Rightarrow> (case env legacy of Some v \<Rightarrow> v | None \<Rightarrow> dflt))"
  using assms by (simp add: env_get_def resolve_env_def Let_def split: option.split)

definition device_allowed :: "env \<Rightarrow> string \<Rightarrow> bool" where
  "device_allowed env d \<longleftrightarrow> (\<forall>ids. get_allowed_device_ids env = Some ids \<longrightarrow> d \<in> ids)"

definition cert_bound :: "env \<Rightarrow> headers \<Rightarrow> string \<Rightarrow> bool" where
  "cert_bound env h d \<longleftrightarrow> (is_mtls_enabled env \<longrightarrow>
     (\<exists>c. c \<noteq> [] \<and> h ''X-Client-Cert-Hash'' = Some c \<and> dget (get_device_cert_map env) d = Some c))"

lemma mtls_ok: "validate_mtls_binding env h d = None \<longleftrightarrow> cert_bound env h d"
  by (auto simp: validate_mtls_binding_def cert_bound_def Let_def split: option.splits)

lemma authorize_ok: "authorize_device env h d = Inr x \<longleftrightarrow> x = d \<and> device_allowed env d \<and> cert_bound env h d"
  by (auto simp: authorize_device_def device_allowed_def mtls_ok [symmetric] split: option.splits)

definition live_token :: "time \<Rightarrow> string \<Rightarrow> string \<Rightarrow> string \<Rightarrow> token_store \<Rightarrow> bool" where
  "live_token now value device scope s \<longleftrightarrow> (\<exists>k t. dget (ts_tokens s) k = Some t \<and> dt_device_token t = value \<and> dt_device_id t = device
     \<and> dt_status t \<noteq> REVOKED \<and> \<not> past now (dt_expires_at t) \<and> \<not> past now (dt_overlap_until t) \<and> (scope = [] \<or> scope \<in> set (dt_scopes t)))"

definition static_credential :: "env \<Rightarrow> headers \<Rightarrow> string \<Rightarrow> string \<Rightarrow> bool" where
  "static_credential env h value scope \<longleftrightarrow> value = get_bridge_device_token env \<and> value \<noteq> []
     \<and> (scope = [] \<or> scope \<in> set (comma_parts (header_or_legacy h ''X-OpenClaw-Scopes'' ''X-Moltbot-Scopes'')))"

lemma static_ok: "static_token_error env h v scope = None \<Longrightarrow> static_credential env h v scope"
  by (auto simp: static_token_error_def static_credential_def Let_def split: if_splits)

lemma unknown_value: "vr_reject_reason (fst (validate_token now v scope s)) = Some Unknown_token \<Longrightarrow> resolve_token v s = None"
  by (auto simp: validate_token_def Let_def rejected_def split: option.splits if_splits)

lemma token_device_ok:
  assumes "dict_ok (ts_tokens s)" and "token_device env up now h d v scope s = (Inr x, s1)"
  shows "x = d \<and> (up \<and> live_token now v d scope s \<or> (up \<longrightarrow> resolve_token v s = None) \<and> static_credential env h v scope)"
proof (cases up)
  case False
  then show ?thesis using assms(2) static_ok by (auto simp: token_device_def Let_def split: option.splits)
next
  case True
  obtain r s2 where r: "validate_token now v scope s = (r, s2)" by fastforce
  show ?thesis
  proof (cases "vr_ok r \<and> vr_token r \<noteq> None")
    case ok: True
    then obtain t where t: "vr_token r = Some t" by auto
    have "x = d \<and> dt_device_id t = d" using assms(2) True ok t by (auto simp: token_device_def r Let_def split: if_splits)
    then show ?thesis using validate_ok [OF assms(1), of now v scope] ok True t by (auto simp: r live_token_def)
  next
    case no: False
    then have u: "vr_reject_reason r = Some Unknown_token" and x: "static_token_error env h v scope = None \<and> x = d"
      using assms(2) True
      by (auto simp: token_device_def r Let_def split: bool.splits option.splits reject_reason.splits)
    show ?thesis using x static_ok [of env h v scope] unknown_value [of now v scope s] u by (simp add: r)
  qed
qed

text \<open>
  C36: A request to the bridge is accepted, as a device, only when the bridge is enabled, the device is
  the one its header names, and it presents either a live token of the store that was issued to that
  device with the required scope, or (only if the store does not know the value, or could not be asked)
  the static token with the scope declared; and the device is on the allowlist and, with mutual TLS,
  bound to the certificate presented. So while the store can be asked and still has the token, a
  revoked or expired token is refused even if it equals the static one; it passes as the static one
  when the store cannot be asked (\<open>unavailable_store_fails_open\<close>) or has removed it in a cleanup.
\<close>

theorem bridge_auth_sound:
  assumes "dict_ok (ts_tokens s)" and "validate_device_token env up now h scope s = (Inr d, s1)"
  shows "is_bridge_enabled env \<and> d \<noteq> [] \<and> d = header_or_legacy h ''X-OpenClaw-Device-Id'' ''X-Moltbot-Device-Id''
    \<and> (let v = header_or_legacy h ''X-OpenClaw-Device-Token'' ''X-Moltbot-Device-Token'' in v \<noteq> [] \<and>
        (up \<and> live_token now v d scope s \<or> (up \<longrightarrow> resolve_token v s = None) \<and> static_credential env h v scope))
    \<and> device_allowed env d \<and> cert_bound env h d"
proof -
  define did where "did = header_or_legacy h ''X-OpenClaw-Device-Id'' ''X-Moltbot-Device-Id''"
  define v where "v = header_or_legacy h ''X-OpenClaw-Device-Token'' ''X-Moltbot-Device-Token''"
  note run = assms(2) [unfolded validate_device_token_def Let_def, folded did_def v_def]
  then have c: "is_bridge_enabled env" "did \<noteq> []" "v \<noteq> []" by (auto split: if_splits)
  then obtain x where x: "token_device env up now h did v scope s = (Inr x, s1)" "authorize_device env h x = Inr d"
    using run by (auto split: prod.splits sum.splits)
  show ?thesis using token_device_ok [OF assms(1) x(1)] x(2) c by (simp add: authorize_ok did_def v_def Let_def)
qed

definition demo_bridge_env :: env where
  "demo_bridge_env k = (if k = ''OPENCLAW_BRIDGE_ENABLED'' then Some ''True'' else if k = ''OPENCLAW_BRIDGE_ALLOWED_DEVICE_IDS'' then Some ''d0, d1''
     else if k = ''OPENCLAW_BRIDGE_MTLS_ENABLED'' then Some ''on'' else if k = ''OPENCLAW_BRIDGE_DEVICE_CERT_MAP'' then Some ''d1: ab12'' else None)"

definition demo_bridge_headers :: "string \<Rightarrow> headers" where
  "demo_bridge_headers v k = (if k = ''X-OpenClaw-Device-Id'' then Some ''d1'' else if k = ''X-Moltbot-Device-Token'' then Some v
     else if k = ''X-Client-Cert-Hash'' then Some ''ab12'' else None)"

definition demo_bridge_tokens :: token_store where
  "demo_bridge_tokens = snd (issue_token True 100 ''t1'' ''secret'' ''d1'' [''job:submit''] 3600 empty_tokens)"

lemma demo_bridge_accepts:
  "validate_device_token demo_bridge_env True 200 (demo_bridge_headers ''secret'') ''job:submit'' demo_bridge_tokens = (Inr ''d1'', demo_bridge_tokens)"
  by code_simp

theorem bridge_auth_sound_witness:
  "is_bridge_enabled demo_bridge_env \<and> ''d1'' \<noteq> [] \<and> ''d1'' = header_or_legacy (demo_bridge_headers ''secret'') ''X-OpenClaw-Device-Id'' ''X-Moltbot-Device-Id''
    \<and> (let v = header_or_legacy (demo_bridge_headers ''secret'') ''X-OpenClaw-Device-Token'' ''X-Moltbot-Device-Token'' in v \<noteq> [] \<and>
        (True \<and> live_token 200 v ''d1'' ''job:submit'' demo_bridge_tokens
         \<or> (True \<longrightarrow> resolve_token v demo_bridge_tokens = None) \<and> static_credential demo_bridge_env (demo_bridge_headers ''secret'') v ''job:submit''))
    \<and> device_allowed demo_bridge_env ''d1'' \<and> cert_bound demo_bridge_env (demo_bridge_headers ''secret'') ''d1''"
proof (rule bridge_auth_sound [OF _ demo_bridge_accepts])
  have "dkeys (ts_tokens demo_bridge_tokens) = [''bt_t1'']" by code_simp
  then show "dict_ok (ts_tokens demo_bridge_tokens)" by simp
qed

text \<open>
  When the store cannot be asked, a revoked token that equals the static one is accepted: the
  fallback opens what the store had closed.
\<close>

definition demo_static_env :: env where
  "demo_static_env k = (if k = ''OPENCLAW_BRIDGE_ENABLED'' then Some ''1'' else if k = ''OPENCLAW_BRIDGE_DEVICE_TOKEN'' then Some ''secret'' else None)"

lemma unavailable_store_fails_open:
  "let s = snd (revoke_token True 150 ''bt_t1'' ''stolen'' demo_bridge_tokens); h = demo_bridge_headers ''secret''
   in fst (validate_device_token demo_static_env True 200 h [] s) = Inl ''Token revoked''
      \<and> fst (validate_device_token demo_static_env False 200 h [] s) = Inr ''d1''"
  by code_simp

end
