(* ===== verification/Webhook_Mapping.thy ===== *)
theory Webhook_Mapping
  imports Prelude Json
begin

text \<open>
  \<open>services/webhook_mapping.py\<close>: declarative mapping of foreign webhook payloads to a job request.
  Rules copy the value at a path of the source to a path of the target; privileged fields of the
  target are closed to rules. JSON text, \<open>str\<close> and \<open>float\<close> of values are parameters. Values are
  copied: that a passed-through object stays shared with the source is not modelled.
\<close>

subsection \<open>Rules and profiles\<close>

definition PRIVILEGED_FIELDS :: "string list" where
  "PRIVILEGED_FIELDS = [''template_id'', ''profile_id'', ''pack_id'', ''tool_path'', ''execution_target'', ''execution_mode'', ''admin_override'']"

definition MAX_PAYLOAD_SIZE :: int where "MAX_PAYLOAD_SIZE = 256 * 1024"

datatype coercion = TO_STRING | TO_INT | TO_FLOAT | TO_BOOL | TO_JSON | PASSTHROUGH

fun coercion_value :: "coercion \<Rightarrow> string" where
  "coercion_value TO_STRING = ''string''"
| "coercion_value TO_INT = ''int''"
| "coercion_value TO_FLOAT = ''float''"
| "coercion_value TO_BOOL = ''bool''"
| "coercion_value TO_JSON = ''json''"
| "coercion_value PASSTHROUGH = ''passthrough''"

record field_mapping =
  fm_source_path :: string
  fm_target_path :: string
  fm_coercion :: coercion
  fm_default :: json
  fm_required :: bool

record mapping_profile =
  mp_id :: string
  mp_label :: string
  mp_description :: string
  mp_defaults :: "(string \<times> json) list"
  mp_field_mappings :: "field_mapping list"
  mp_source_pattern :: "string option"

text \<open>The parameters: \<open>str(x)\<close>, \<open>float(s)\<close>, \<open>json.loads\<close>, \<open>len(json.dumps(x))\<close>.\<close>

record mapping_lib =
  ml_text :: "json \<Rightarrow> string"
  ml_float :: "string \<Rightarrow> real option"
  ml_loads :: "string \<Rightarrow> json option"
  ml_dumps_length :: "json \<Rightarrow> nat"

subsection \<open>Paths\<close>

text \<open>The split at dots and before opening brackets; empty parts are skipped later.\<close>

fun split_brackets :: "string \<Rightarrow> string list" where
  "split_brackets [] = [[]]"
| "split_brackets (c # cs) = (case split_brackets cs of
     [] \<Rightarrow> [[c]]
   | p # ps \<Rightarrow> if c = CHR ''['' then [] # (c # p) # ps else (c # p) # ps)"

definition path_tokens :: "string \<Rightarrow> string list" where
  "path_tokens path = concat (map split_brackets (split_on CHR ''.'' path))"

text \<open>\<open>[N]\<close>, perhaps before a final line feed.\<close>

definition index_token :: "string \<Rightarrow> nat option" where
  "index_token part =
    (let body = (if part \<noteq> [] \<and> last part = CHR 0x0A then butlast part else part)
     in if length body \<ge> 3 \<and> hd body = CHR ''['' \<and> last body = CHR '']'' \<and> list_all is_digit (butlast (tl body))
        then digits_val 0 (butlast (tl body)) else None)"

fun resolve_tokens :: "string list \<Rightarrow> json \<Rightarrow> json option" where
  "resolve_tokens [] current = Some current"
| "resolve_tokens (part # parts) current =
    (if part = [] then resolve_tokens parts current
     else case index_token part of
       Some i \<Rightarrow> (case current of JArr l \<Rightarrow> if i < length l then resolve_tokens parts (l ! i) else None | _ \<Rightarrow> None)
     | None \<Rightarrow> (case current of JObj d \<Rightarrow> (case dget d part of Some v \<Rightarrow> resolve_tokens parts v | None \<Rightarrow> None) | _ \<Rightarrow> None))"

definition resolve_path :: "json \<Rightarrow> string \<Rightarrow> json option" where
  "resolve_path obj path = resolve_tokens (path_tokens path) obj"

fun set_tokens :: "string list \<Rightarrow> json \<Rightarrow> (string \<times> json) list \<Rightarrow> (string \<times> json) list" where
  "set_tokens [] v d = d"
| "set_tokens [part] v d = dput part v d"
| "set_tokens (part # parts) v d = dput part (JObj (set_tokens parts v (case dget d part of Some (JObj e) \<Rightarrow> e | _ \<Rightarrow> []))) d"

definition set_path :: "string \<Rightarrow> json \<Rightarrow> (string \<times> json) list \<Rightarrow> (string \<times> json) list" where
  "set_path path v d = set_tokens (split_on CHR ''.'' path) v d"

subsection \<open>Coercion\<close>

text \<open>\<open>None\<close> is \<open>ValueError\<close> or \<open>TypeError\<close>.\<close>

definition coerce_value :: "mapping_lib \<Rightarrow> json \<Rightarrow> coercion \<Rightarrow> json option" where
  "coerce_value lib v c = (if v = JNull then Some JNull else case c of
       PASSTHROUGH \<Rightarrow> Some v
     | TO_STRING \<Rightarrow> Some (JStr (case v of JStr s \<Rightarrow> s | _ \<Rightarrow> ml_text lib v))
     | TO_INT \<Rightarrow> map_option JInt (json_int v)
     | TO_FLOAT \<Rightarrow> map_option JFloat (case v of JBool b \<Rightarrow> Some (of_bool b) | JInt i \<Rightarrow> Some (of_int i) | JFloat x \<Rightarrow> Some x
           | JStr s \<Rightarrow> ml_float lib s | _ \<Rightarrow> None)
     | TO_BOOL \<Rightarrow> Some (JBool (case v of JBool b \<Rightarrow> b | JStr s \<Rightarrow> py_lower s \<in> {''true'', ''1'', ''yes'', ''on''} | _ \<Rightarrow> truthy v))
     | TO_JSON \<Rightarrow> (case v of JStr s \<Rightarrow> ml_loads lib s | _ \<Rightarrow> Some v))"

subsection \<open>Applying a profile\<close>

datatype mapping_error = Privileged_target string | Required_missing string | Coercion_failed string string coercion

definition target_root :: "field_mapping \<Rightarrow> string" where
  "target_root fm = hd (split_on CHR ''.'' (fm_target_path fm))"

text \<open>The set of allowed pairs is the argument \<open>allowed\<close>.\<close>

definition blocked_rule :: "(string \<times> string) list \<Rightarrow> string \<Rightarrow> field_mapping \<Rightarrow> bool" where
  "blocked_rule allowed i fm \<longleftrightarrow> target_root fm \<in> set PRIVILEGED_FIELDS \<and> (i, target_root fm) \<notin> set allowed"

definition skipped_warning :: "field_mapping \<Rightarrow> string" where
  "skipped_warning fm = ''Optional source field '' @ [CHR 0x27] @ fm_source_path fm @ [CHR 0x27] @ '' not found, skipped''"

fun apply_rules ::
  "mapping_lib \<Rightarrow> (string \<times> string) list \<Rightarrow> string \<Rightarrow> json \<Rightarrow> field_mapping list \<Rightarrow> (string \<times> json) list \<Rightarrow> string list
    \<Rightarrow> mapping_error + (string \<times> json) list \<times> string list" where
  "apply_rules lib allowed i source [] result warns = Inr (result, warns)"
| "apply_rules lib allowed i source (fm # fms) result warns =
    (if blocked_rule allowed i fm then Inl (Privileged_target (target_root fm))
     else case resolve_path source (fm_source_path fm) of
       None \<Rightarrow>
         if fm_required fm then Inl (Required_missing (fm_source_path fm))
         else if fm_default fm \<noteq> JNull then apply_rules lib allowed i source fms (set_path (fm_target_path fm) (fm_default fm) result) warns
         else apply_rules lib allowed i source fms result (warns @ [skipped_warning fm])
     | Some v \<Rightarrow> (case coerce_value lib v (fm_coercion fm) of
           None \<Rightarrow> Inl (Coercion_failed (fm_source_path fm) (fm_target_path fm) (fm_coercion fm))
         | Some w \<Rightarrow> apply_rules lib allowed i source fms (set_path (fm_target_path fm) w result) warns))"

definition apply_mapping ::
  "mapping_lib \<Rightarrow> (string \<times> string) list \<Rightarrow> mapping_profile \<Rightarrow> json \<Rightarrow> mapping_error + (string \<times> json) list \<times> string list" where
  "apply_mapping lib allowed p source = apply_rules lib allowed (mp_id p) source (mp_field_mappings p) (mp_defaults p) []"

subsection \<open>The canonical schema\<close>

datatype field_type = T_STR | T_INT | T_DICT

definition CANONICAL_REQUIRED_FIELDS :: "string list" where
  "CANONICAL_REQUIRED_FIELDS = [''template_id'']"

definition CANONICAL_ALLOWED_TYPES :: "(string \<times> field_type) list" where
  "CANONICAL_ALLOWED_TYPES = [(''template_id'', T_STR), (''profile_id'', T_STR), (''version'', T_INT), (''inputs'', T_DICT),
     (''job_id'', T_STR), (''trace_id'', T_STR), (''callback'', T_DICT)]"

text \<open>\<open>isinstance\<close>: a truth value counts as an integer.\<close>

fun has_type :: "field_type \<Rightarrow> json \<Rightarrow> bool" where
  "has_type T_STR (JStr s) = True"
| "has_type T_INT (JInt i) = True"
| "has_type T_INT (JBool b) = True"
| "has_type T_DICT (JObj d) = True"
| "has_type _ _ = False"

datatype schema_error = Missing_field string | Type_mismatch string | Inputs_too_large nat

definition missing_fields :: "(string \<times> json) list \<Rightarrow> schema_error list" where
  "missing_fields m = map Missing_field (filter (\<lambda>k. case dget m k of None \<Rightarrow> True | Some v \<Rightarrow> \<not> truthy v) CANONICAL_REQUIRED_FIELDS)"

definition type_mismatches :: "(string \<times> json) list \<Rightarrow> schema_error list" where
  "type_mismatches m = map (\<lambda>(k, t). Type_mismatch k)
     (filter (\<lambda>(k, t). case dget m k of None \<Rightarrow> False | Some v \<Rightarrow> v \<noteq> JNull \<and> \<not> has_type t v) CANONICAL_ALLOWED_TYPES)"

definition size_errors :: "mapping_lib \<Rightarrow> (string \<times> json) list \<Rightarrow> schema_error list" where
  "size_errors lib m = (case dget m ''inputs'' of
       Some (JObj d) \<Rightarrow> if int (ml_dumps_length lib (JObj d)) > MAX_PAYLOAD_SIZE then [Inputs_too_large (ml_dumps_length lib (JObj d))] else []
     | _ \<Rightarrow> [])"

definition validate_canonical_schema :: "mapping_lib \<Rightarrow> (string \<times> json) list \<Rightarrow> bool \<times> schema_error list" where
  "validate_canonical_schema lib m = (let errors = missing_fields m @ type_mismatches m @ size_errors lib m in (errors = [], errors))"

subsection \<open>The built-in profiles\<close>

definition rule :: "string \<Rightarrow> string \<Rightarrow> coercion \<Rightarrow> json \<Rightarrow> bool \<Rightarrow> field_mapping" where
  "rule source target c dflt required =
     \<lparr>fm_source_path = source, fm_target_path = target, fm_coercion = c, fm_default = dflt, fm_required = required\<rparr>"

definition github_push :: mapping_profile where
  "github_push = \<lparr>mp_id = ''github_push'', mp_label = ''GitHub Push Event'', mp_description = ''Maps GitHub push webhook to a template trigger'',
     mp_defaults = [(''version'', JInt 1), (''profile_id'', JStr ''default'')],
     mp_field_mappings = [rule ''repository.full_name'' ''inputs.repo_name'' TO_STRING JNull False, rule ''ref'' ''inputs.ref'' TO_STRING JNull False,
       rule ''head_commit.message'' ''inputs.commit_message'' TO_STRING JNull False,
       rule ''sender.login'' ''inputs.actor'' TO_STRING (JStr ''unknown'') False],
     mp_source_pattern = Some ''github''\<rparr>"

definition discord_message :: mapping_profile where
  "discord_message = \<lparr>mp_id = ''discord_message'', mp_label = ''Discord Message'', mp_description = ''Maps Discord webhook message to template inputs'',
     mp_defaults = [(''version'', JInt 1), (''profile_id'', JStr ''default'')],
     mp_field_mappings = [rule ''content'' ''inputs.requirements'' TO_STRING JNull True,
       rule ''author.username'' ''inputs.actor'' TO_STRING (JStr ''discord_user'') False],
     mp_source_pattern = Some ''discord''\<rparr>"

definition generic_webhook :: mapping_profile where
  "generic_webhook = \<lparr>mp_id = ''generic'', mp_label = ''Generic Webhook'',
     mp_description = ''Minimal passthrough mapping '' @ [CHR 0xE2, CHR 0x80, CHR 0x94] @ '' expects near-canonical payload shape'',
     mp_defaults = [(''version'', JInt 1)],
     mp_field_mappings = [rule ''template_id'' ''template_id'' TO_STRING JNull True, rule ''profile_id'' ''profile_id'' TO_STRING (JStr ''default'') False,
       rule ''inputs'' ''inputs'' PASSTHROUGH (JObj []) False, rule ''job_id'' ''job_id'' TO_STRING JNull False,
       rule ''trace_id'' ''trace_id'' TO_STRING JNull False, rule ''callback'' ''callback'' PASSTHROUGH JNull False],
     mp_source_pattern = None\<rparr>"

definition BUILTIN_PROFILES :: "(string, mapping_profile) dict" where
  "BUILTIN_PROFILES = [(''github_push'', github_push), (''discord_message'', discord_message), (''generic'', generic_webhook)]"

definition ALLOWED_PRIVILEGED_OVERRIDES :: "(string \<times> string) list" where
  "ALLOWED_PRIVILEGED_OVERRIDES = [(''generic'', ''template_id''), (''generic'', ''profile_id'')]"

text \<open>The profile of a request: the named one, else the first whose pattern is part of the source.\<close>

definition header_text :: "string \<Rightarrow> (string \<Rightarrow> string option) \<Rightarrow> string" where
  "header_text k h = py_strip (case h k of None \<Rightarrow> [] | Some v \<Rightarrow> v)"

definition request_source :: "(string \<Rightarrow> string option) option \<Rightarrow> string option \<Rightarrow> string" where
  "request_source headers source_hint =
    (let source = (case headers of None \<Rightarrow> [] | Some h \<Rightarrow> py_lower (header_text ''X-Webhook-Source'' h));
         hint = (case source_hint of None \<Rightarrow> [] | Some s \<Rightarrow> s)
     in if source = [] \<and> hint \<noteq> [] then py_lower hint else source)"

definition resolve_profile :: "(string, mapping_profile) dict \<Rightarrow> (string \<Rightarrow> string option) option \<Rightarrow> string option \<Rightarrow> mapping_profile option" where
  "resolve_profile profiles headers source_hint =
    (let explicit = (case headers of None \<Rightarrow> [] | Some h \<Rightarrow> header_text ''X-Webhook-Mapping-Profile'' h);
         source = request_source headers source_hint
     in if explicit \<noteq> [] \<and> dget profiles explicit \<noteq> None then dget profiles explicit
        else if source = [] then None
        else find (\<lambda>p. case mp_source_pattern p of None \<Rightarrow> False | Some pat \<Rightarrow> pat \<noteq> [] \<and> has_sub pat source) (dvals profiles))"

definition get_available_profiles :: "(string, mapping_profile) dict \<Rightarrow> (string \<times> string \<times> string \<times> string) list" where
  "get_available_profiles profiles = map (\<lambda>p. (mp_id p, mp_label p, mp_description p, case mp_source_pattern p of None \<Rightarrow> [] | Some s \<Rightarrow> s)) (dvals profiles)"

subsection \<open>What a payload can reach\<close>

lemma set_tokens_root: "k \<noteq> hd ps \<Longrightarrow> dget (set_tokens ps v d) k = dget d k"
  by (cases "(ps, v, d)" rule: set_tokens.cases) (auto simp: dict_simps)

lemma set_path_root: "k \<noteq> target_root fm \<Longrightarrow> dget (set_path (fm_target_path fm) v d) k = dget d k"
  by (simp add: set_path_def target_root_def set_tokens_root)

lemma apply_rules_root:
  "apply_rules lib allowed i source fms result warns = Inr (m, w) \<Longrightarrow> \<forall>fm \<in> set fms. target_root fm \<noteq> k \<Longrightarrow> dget m k = dget result k"
proof (induction fms arbitrary: result warns)
  case (Cons fm fms)
  then show ?case by (auto simp: set_path_root split: if_splits option.splits)
qed simp

lemma apply_rules_open: "apply_rules lib allowed i source fms result warns = Inr (m, w) \<Longrightarrow> fm \<in> set fms \<Longrightarrow> \<not> blocked_rule allowed i fm"
  by (induction fms arbitrary: result warns) (auto split: if_splits option.splits)

lemma mapped_root:
  assumes "apply_mapping lib allowed p source = Inr (m, w)" and "k \<in> set PRIVILEGED_FIELDS" and "(mp_id p, k) \<notin> set allowed"
  shows "dget m k = dget (mp_defaults p) k"
proof -
  have "\<forall>fm \<in> set (mp_field_mappings p). target_root fm \<noteq> k"
    using apply_rules_open [OF assms(1) [unfolded apply_mapping_def]] assms(2,3) by (auto simp: blocked_rule_def)
  then show ?thesis using apply_rules_root [OF assms(1) [unfolded apply_mapping_def]] by simp
qed

text \<open>
  C39: The fields of a mapped payload come from the profile: a privileged field that is not opened to the
  profile is exactly what the profile's defaults say, whatever the payload and the rules are, and any
  other field that is neither among the defaults nor the target of a rule is absent.
\<close>

theorem mapping_clamped:
  assumes "apply_mapping lib allowed p source = Inr (m, w)"
  shows "(\<forall>k \<in> set PRIVILEGED_FIELDS. (mp_id p, k) \<notin> set allowed \<longrightarrow> dget m k = dget (mp_defaults p) k)
    \<and> (\<forall>k. k \<notin> target_root ` set (mp_field_mappings p) \<longrightarrow> dget m k = dget (mp_defaults p) k)"
proof (intro conjI ballI allI impI)
  show "dget m k = dget (mp_defaults p) k" if "k \<in> set PRIVILEGED_FIELDS" "(mp_id p, k) \<notin> set allowed" for k
    using mapped_root [OF assms] that by simp
  show "dget m k = dget (mp_defaults p) k" if "k \<notin> target_root ` set (mp_field_mappings p)" for k
    using that by (intro apply_rules_root [OF assms [unfolded apply_mapping_def]]) auto
qed

definition demo_mapping_lib :: mapping_lib where
  "demo_mapping_lib = \<lparr>ml_text = (\<lambda>_. ''?''), ml_float = (\<lambda>_. None), ml_loads = (\<lambda>_. None), ml_dumps_length = (\<lambda>_. 10)\<rparr>"

definition demo_push :: json where
  "demo_push = JObj [(''template_id'', JStr ''admin''), (''ref'', JStr ''main''), (''profile_id'', JStr ''root''), (''repository'', JObj [(''full_name'', JStr ''a/b'')])]"

lemma demo_pushed: "apply_mapping demo_mapping_lib ALLOWED_PRIVILEGED_OVERRIDES github_push demo_push = Inr
    ([(''version'', JInt 1), (''profile_id'', JStr ''default''),
      (''inputs'', JObj [(''repo_name'', JStr ''a/b''), (''ref'', JStr ''main''), (''actor'', JStr ''unknown'')])],
     [skipped_warning (rule ''head_commit.message'' ''inputs.commit_message'' TO_STRING JNull False)])"
  by code_simp

theorem mapping_clamped_witness:
  "let m = [(''version'', JInt 1), (''profile_id'', JStr ''default''),
      (''inputs'', JObj [(''repo_name'', JStr ''a/b''), (''ref'', JStr ''main''), (''actor'', JStr ''unknown'')])]
   in (\<forall>k \<in> set PRIVILEGED_FIELDS. (mp_id github_push, k) \<notin> set ALLOWED_PRIVILEGED_OVERRIDES \<longrightarrow> dget m k = dget (mp_defaults github_push) k)
    \<and> (\<forall>k. k \<notin> target_root ` set (mp_field_mappings github_push) \<longrightarrow> dget m k = dget (mp_defaults github_push) k)"
  unfolding Let_def by (rule mapping_clamped [OF demo_pushed])

text \<open>
  Two of the three built-in profiles never give a template, and rules cannot set it: every payload they
  map is then refused by the schema gate.
\<close>

lemma builtin_profiles_never_valid:
  assumes "p \<in> {github_push, discord_message}" and "apply_mapping lib ALLOWED_PRIVILEGED_OVERRIDES p source = Inr (m, w)"
  shows "\<not> fst (validate_canonical_schema lib (dput ''trace_id'' t m))"
proof -
  have k: "(mp_id p, ''template_id'') \<notin> set ALLOWED_PRIVILEGED_OVERRIDES" "dget (mp_defaults p) ''template_id'' = None"
    using assms(1) by (auto simp: ALLOWED_PRIVILEGED_OVERRIDES_def github_push_def discord_message_def)
  have "dget m ''template_id'' = None" using mapped_root [OF assms(2) _ k(1)] k(2) by (simp add: PRIVILEGED_FIELDS_def)
  then have "dget (dput ''trace_id'' t m) ''template_id'' = None" by (simp add: dict_simps)
  then show ?thesis by (simp add: validate_canonical_schema_def missing_fields_def CANONICAL_REQUIRED_FIELDS_def Let_def)
qed

subsection \<open>What is set is found\<close>

definition plain_part :: "string \<Rightarrow> bool" where
  "plain_part p \<longleftrightarrow> p \<noteq> [] \<and> CHR ''.'' \<notin> set p \<and> CHR ''['' \<notin> set p"

lemma split_brackets_plain: "CHR ''['' \<notin> set p \<Longrightarrow> split_brackets p = [p]"
  by (induction p) auto

lemma index_plain: "plain_part p \<Longrightarrow> index_token p = None"
proof -
  assume p: "plain_part p"
  define body where "body = (if p \<noteq> [] \<and> last p = CHR 0x0A then butlast p else p)"
  have "set body \<subseteq> set p" by (auto simp: body_def dest: in_set_butlastD)
  then have "body = [] \<or> hd body \<noteq> CHR ''[''" using p by (metis hd_in_set plain_part_def subsetD)
  then show ?thesis by (elim disjE) (simp_all add: index_token_def Let_def flip: body_def)
qed

lemma resolve_set_tokens: "ps \<noteq> [] \<Longrightarrow> \<forall>p \<in> set ps. plain_part p \<Longrightarrow> resolve_tokens ps (JObj (set_tokens ps v d)) = Some v"
proof (induction ps v d rule: set_tokens.induct)
  case (2 part v d)
  then show ?case using index_plain [of part] by (simp add: plain_part_def dict_simps)
next
  case (3 part q qs v d)
  then show ?case using index_plain [of part] by (simp add: plain_part_def dict_simps del: set_tokens.simps(2) resolve_tokens.simps(2)) (simp add: dict_simps)
qed simp

lemma set_then_resolve:
  assumes "ps \<noteq> []" and "\<forall>p \<in> set ps. plain_part p"
  shows "resolve_path (JObj (set_path (join_with CHR ''.'' ps) v d)) (join_with CHR ''.'' ps) = Some v"
proof -
  have s: "split_on CHR ''.'' (join_with CHR ''.'' ps) = ps" using assms by (intro split_join) (auto simp: plain_part_def)
  have "concat (map split_brackets ps) = ps" using assms(2) by (induction ps) (auto simp: split_brackets_plain plain_part_def)
  then show ?thesis using resolve_set_tokens [OF assms] by (simp add: resolve_path_def set_path_def path_tokens_def s)
qed

subsection \<open>The body of a submission\<close>

text \<open>
  \<open>api/webhook_submit.py\<close>: what the submission handler does to the parsed body before it is mapped.
  A body that is no object raises (\<open>None\<close>).
\<close>

definition unwrap_body :: "(string \<times> json) list \<Rightarrow> (string \<times> json) list" where
  "unwrap_body d = (case dget d ''payload'' of Some (JObj e) \<Rightarrow> e
     | _ \<Rightarrow> (case dget d ''data'' of Some (JObj e) \<Rightarrow> e | _ \<Rightarrow> d))"

definition rename_alias :: "string \<times> string \<Rightarrow> (string \<times> json) list \<Rightarrow> (string \<times> json) list" where
  "rename_alias kk d = (case kk of (camel, snake) \<Rightarrow> (case dget d camel of None \<Rightarrow> d | Some v \<Rightarrow> dput snake v (ddel camel d)))"

definition normalize_body :: "json \<Rightarrow> (string \<times> json) list option" where
  "normalize_body j = (case j of
       JObj d \<Rightarrow> Some (fold rename_alias [(''templateId'', ''template_id''), (''profileId'', ''profile_id''), (''jobId'', ''job_id''), (''traceId'', ''trace_id'')]
         (unwrap_body d))
     | _ \<Rightarrow> None)"

text \<open>Mapping and schema gate of a normalised body with its trace id.\<close>

datatype submit_error = Mapping_refused mapping_error | Schema_refused "schema_error list"

definition map_body ::
  "mapping_lib \<Rightarrow> (string \<times> string) list \<Rightarrow> (string, mapping_profile) dict \<Rightarrow> (string \<Rightarrow> string option) \<Rightarrow> string \<Rightarrow> (string \<times> json) list
    \<Rightarrow> submit_error + (string \<times> json) list" where
  "map_body lib allowed profiles headers trace_id body =
    (let data = dput ''trace_id'' (JStr trace_id) body;
         mapped = (case resolve_profile profiles (Some headers) None of
             None \<Rightarrow> Inr data
           | Some p \<Rightarrow> (case apply_mapping lib allowed p (JObj data) of
               Inl e \<Rightarrow> Inl (Mapping_refused e)
             | Inr (m, w) \<Rightarrow> Inr (if dget m ''trace_id'' = None then dput ''trace_id'' (JStr trace_id) m else m)))
     in case mapped of
          Inl e \<Rightarrow> Inl e
        | Inr m \<Rightarrow> (let (ok, errors) = validate_canonical_schema lib m in if ok then Inr m else Inl (Schema_refused errors)))"

text \<open>What passes has a template and fields of the canonical types.\<close>

lemma mapped_body_typed:
  assumes "map_body lib allowed profiles headers trace_id body = Inr m"
  shows "(\<exists>t. dget m ''template_id'' = Some (JStr t) \<and> t \<noteq> [])
    \<and> (\<forall>(k, t) \<in> set CANONICAL_ALLOWED_TYPES. \<forall>v. dget m k = Some v \<longrightarrow> v = JNull \<or> has_type t v)"
proof -
  have v: "missing_fields m = []" "type_mismatches m = []"
    using assms by (auto simp: map_body_def validate_canonical_schema_def Let_def split: sum.splits if_splits)
  have t: "\<forall>(k, t) \<in> set CANONICAL_ALLOWED_TYPES. \<forall>v. dget m k = Some v \<longrightarrow> v = JNull \<or> has_type t v"
    using v(2) by (auto simp: type_mismatches_def filter_empty_conv split_def split: option.splits)
  obtain x where x: "dget m ''template_id'' = Some x" "truthy x"
    using v(1) by (auto simp: missing_fields_def CANONICAL_REQUIRED_FIELDS_def split: option.splits if_splits)
  moreover have "x = JNull \<or> has_type T_STR x" using t x(1) by (auto simp: CANONICAL_ALLOWED_TYPES_def)
  ultimately have "\<exists>s. x = JStr s \<and> s \<noteq> []" by (cases x) auto
  then show ?thesis using x t by auto
qed

end
