(* ===== verification/Command_Firewall.thy ===== *)
theory Command_Firewall
  imports Prelude
begin

text \<open>
  \<open>connector/command_firewall.py\<close>: the check of commands that a language model suggests in a chat,
  and their rendering for the user. The text is split by \<open>shlex\<close> of the standard library in POSIX
  mode, at blanks, with double quotes as the only quotes.
\<close>

subsection \<open>shlex\<close>

definition shell_space :: "char \<Rightarrow> bool" where
  "shell_space c \<longleftrightarrow> c \<in> {CHR '' '', CHR 0x09, CHR 0x0D, CHR 0x0A}"

datatype lex_mode = L_SPACE | L_WORD | L_QUOTE | L_ESCAPE bool | L_COMMENT

datatype lex_error = No_closing_quotation | No_escaped_character

text \<open>
  The mode, the token so far and whether it had a quoted part; \<open>L_ESCAPE q\<close> is after a backslash,
  inside quotes or not.
\<close>

definition emit_token :: "string \<Rightarrow> bool \<Rightarrow> lex_error + string list \<Rightarrow> lex_error + string list" where
  "emit_token tok quoted r = (if tok \<noteq> [] \<or> quoted then map_sum id (\<lambda>ts. tok # ts) r else r)"

fun shlex :: "lex_mode \<Rightarrow> string \<Rightarrow> bool \<Rightarrow> string \<Rightarrow> lex_error + string list" where
  "shlex L_QUOTE tok quoted [] = Inl No_closing_quotation"
| "shlex (L_ESCAPE q) tok quoted [] = Inl No_escaped_character"
| "shlex m tok quoted [] = emit_token tok quoted (Inr [])"
| "shlex L_COMMENT tok quoted (c # cs) = (if c = CHR 0x0A then shlex L_SPACE [] False cs else shlex L_COMMENT [] False cs)"
| "shlex (L_ESCAPE q) tok quoted (c # cs) =
    (let t = (if q \<and> c \<noteq> CHR 0x5C \<and> c \<noteq> CHR 0x22 then tok @ [CHR 0x5C] else tok) in shlex (if q then L_QUOTE else L_WORD) (t @ [c]) quoted cs)"
| "shlex L_QUOTE tok quoted (c # cs) =
    (if c = CHR 0x22 then shlex L_WORD tok True cs
     else if c = CHR 0x5C then shlex (L_ESCAPE True) tok True cs
     else shlex L_QUOTE (tok @ [c]) True cs)"
| "shlex m tok quoted (c # cs) =
    (if shell_space c then emit_token tok quoted (shlex L_SPACE [] False cs)
     else if c = CHR ''#'' then emit_token tok quoted (shlex L_COMMENT [] False cs)
     else if c = CHR 0x5C then shlex (L_ESCAPE False) tok quoted cs
     else if c = CHR 0x22 then shlex L_QUOTE tok quoted cs
     else shlex L_WORD (tok @ [c]) quoted cs)"

definition split_command :: "string \<Rightarrow> lex_error + string list" where
  "split_command s = shlex L_SPACE [] False s"

subsection \<open>The firewall\<close>

record command =
  cm_command :: string
  cm_args :: "string list"
  cm_flags :: "(string, string) dict"
  cm_is_safe :: bool
  cm_code :: string
  cm_severity :: string
  cm_action :: string

definition denied :: "string \<Rightarrow> string \<Rightarrow> string \<Rightarrow> command" where
  "denied cmd code severity = \<lparr>cm_command = cmd, cm_args = [], cm_flags = [], cm_is_safe = False, cm_code = code, cm_severity = severity, cm_action = ''deny''\<rparr>"

definition DANGEROUS_PATTERNS :: "string list" where
  "DANGEROUS_PATTERNS = ['';'', [CHR 0x60], ''$('', ''|'']"

definition ALLOWED_COMMANDS :: "string list" where
  "ALLOWED_COMMANDS = [''/run'', ''/status'', ''/help'', ''/jobs'']"

text \<open>\<open>[A-Za-z_][A-Za-z0-9_]*\<close>, perhaps before a final line feed.\<close>

definition key_char :: "char \<Rightarrow> bool" where
  "key_char c \<longleftrightarrow> is_alnum c \<or> c = CHR ''_''"

definition valid_key :: "string \<Rightarrow> bool" where
  "valid_key k = (let body = (if k \<noteq> [] \<and> last k = CHR 0x0A then butlast k else k)
     in body \<noteq> [] \<and> list_all key_char body \<and> \<not> is_digit (hd body))"

text \<open>The flag of an argument with an equals sign.\<close>

definition parse_flag :: "string \<Rightarrow> (string \<times> string) + (string \<times> string)" where
  "parse_flag arg =
    (let k = takeWhile (\<lambda>c. c \<noteq> CHR ''='') arg; v = tl (dropWhile (\<lambda>c. c \<noteq> CHR ''='') arg)
     in if \<not> valid_key k then Inl (''firewall_invalid_key'', k)
        else if length v > 1000 then Inl (''firewall_value_too_long'', k)
        else Inr (k, v))"

definition is_flag :: "string \<Rightarrow> bool" where
  "is_flag arg \<longleftrightarrow> has_char CHR ''='' arg \<and> \<not> starts_with ''--'' arg"

fun parse_args :: "string list \<Rightarrow> string list \<Rightarrow> (string, string) dict \<Rightarrow> (string \<times> string) + string list \<times> (string, string) dict" where
  "parse_args [] args flags = Inr (args, flags)"
| "parse_args (a # as) args flags =
    (if is_flag a then (case parse_flag a of Inl e \<Rightarrow> Inl e | Inr (k, v) \<Rightarrow> parse_args as args (dput k v flags))
     else parse_args as (args @ [a]) flags)"

fun validate_parts :: "string list \<Rightarrow> command" where
  "validate_parts [] = denied [] ''firewall_empty_command'' ''medium''"
| "validate_parts (c # parts) =
    (let cmd = py_lower c in
     if cmd \<notin> set ALLOWED_COMMANDS then denied cmd ''firewall_command_not_allowed'' ''high''
     else (case parse_args parts [] [] of
         Inl (code, k) \<Rightarrow> denied cmd code ''medium''
       | Inr (args, flags) \<Rightarrow> \<lparr>cm_command = cmd, cm_args = args, cm_flags = flags, cm_is_safe = True, cm_code = ''firewall_allow'',
             cm_severity = ''info'', cm_action = ''allow''\<rparr>))"

definition validate_suggestion :: "string \<Rightarrow> command" where
  "validate_suggestion raw =
    (let clean = py_strip raw in
     if list_ex (\<lambda>p. has_sub p clean) DANGEROUS_PATTERNS then denied ''error'' ''firewall_unsafe_pattern'' ''high''
     else case split_command clean of
       Inl e \<Rightarrow> denied ''error'' ''firewall_parse_error'' ''medium''
     | Inr parts \<Rightarrow> validate_parts parts)"

subsection \<open>Rendering\<close>

definition render_flag :: "string \<times> string \<Rightarrow> string" where
  "render_flag kv = (case kv of (k, v) \<Rightarrow> k @ ''='' @ (if has_char CHR '' '' v \<or> v = [] then CHR 0x22 # v @ [CHR 0x22] else v))"

definition command_to_string :: "command \<Rightarrow> string" where
  "command_to_string c = join_with CHR '' '' (cm_command c # map render_flag (sort_key fst (cm_flags c)) @ cm_args c)"

text \<open>Chars of tokens come from the text.\<close>

lemma emit_tokenD: "emit_token tok quoted r = Inr ts \<Longrightarrow> \<exists>us. r = Inr us \<and> (ts = us \<or> ts = tok # us)"
  by (cases r) (auto simp: emit_token_def split: if_splits)

lemma shlex_chars: "shlex m tok quoted s = Inr ts \<Longrightarrow> t \<in> set ts \<Longrightarrow> set t \<subseteq> set tok \<union> set s \<union> {CHR 0x5C}"
  by (induction m tok quoted s arbitrary: ts t rule: shlex.induct)
    (fastforce simp: Let_def dest!: emit_tokenD split: if_splits)+

text \<open>What becomes a flag.\<close>

lemma parse_args_flags:
  "parse_args as args flags = Inr (args', flags') \<Longrightarrow> \<forall>(k, v) \<in> set flags. valid_key k \<and> length v \<le> 1000 \<Longrightarrow> dict_ok flags \<Longrightarrow>
   (\<forall>(k, v) \<in> set flags'. valid_key k \<and> length v \<le> 1000) \<and> dict_ok flags'"
proof (induction as arbitrary: args flags)
  case (Cons a as)
  show ?case
  proof (cases "is_flag a")
    case True
    then obtain k v where kv: "parse_flag a = Inr (k, v)" "parse_args as args (dput k v flags) = Inr (args', flags')"
      using Cons.prems(1) by (auto split: sum.splits)
    have "valid_key k \<and> length v \<le> 1000" using kv(1) by (auto simp: parse_flag_def Let_def split: if_splits)
    then have "\<forall>(k, v) \<in> set (dput k v flags). valid_key k \<and> length v \<le> 1000" using Cons.prems(2,3) by (auto simp: set_dput)
    then show ?thesis using Cons.IH [OF kv(2)] Cons.prems(3) by (simp add: dict_ok_dput)
  next
    case False
    then show ?thesis using Cons.IH [of "args @ [a]" flags] Cons.prems by simp
  qed
qed simp

text \<open>The characters of what was parsed.\<close>

lemma set_after_drop: "set (tl (dropWhile P xs)) \<subseteq> set xs"
proof
  fix x assume "x \<in> set (tl (dropWhile P xs))"
  then have "x \<in> set (dropWhile P xs)" by (cases "dropWhile P xs") auto
  then show "x \<in> set xs" by (rule set_dropWhileD)
qed

lemma set_take_while: "set (takeWhile P xs) \<subseteq> set xs"
  by (rule subsetI) (rule conjunct1 [OF set_takeWhileD])

lemma parse_args_chars:
  "parse_args as args flags = Inr (args', flags') \<Longrightarrow> dict_ok flags \<Longrightarrow> \<forall>a \<in> set as. set a \<subseteq> C \<Longrightarrow> \<forall>a \<in> set args. set a \<subseteq> C \<Longrightarrow>
   \<forall>(k, v) \<in> set flags. set k \<union> set v \<subseteq> C \<Longrightarrow> (\<forall>a \<in> set args'. set a \<subseteq> C) \<and> (\<forall>(k, v) \<in> set flags'. set k \<union> set v \<subseteq> C)"
proof (induction as arbitrary: args flags)
  case (Cons a as)
  show ?case
  proof (cases "is_flag a")
    case True
    then obtain k v where kv: "parse_flag a = Inr (k, v)" "parse_args as args (dput k v flags) = Inr (args', flags')"
      using Cons.prems(1) by (auto split: sum.splits)
    have "k = takeWhile (\<lambda>c. c \<noteq> CHR ''='') a" "v = tl (dropWhile (\<lambda>c. c \<noteq> CHR ''='') a)"
      using kv(1) by (auto simp: parse_flag_def Let_def split: if_splits)
    then have "set k \<union> set v \<subseteq> set a"
      using set_after_drop [of "\<lambda>c. c \<noteq> CHR ''=''" a] set_take_while [of "\<lambda>c. c \<noteq> CHR ''=''" a] by simp
    then have "set k \<union> set v \<subseteq> C" using Cons.prems(3) by (meson list.set_intros(1) subset_trans)
    then have "\<forall>(k, v) \<in> set (dput k v flags). set k \<union> set v \<subseteq> C" using Cons.prems(2,5) by (simp add: set_dput)
    then show ?thesis using Cons.prems(3) by (intro Cons.IH [OF kv(2) dict_ok_dput [OF Cons.prems(2)] _ Cons.prems(4)]) (rule ballI, simp)
  next
    case False
    then have pa: "parse_args as (args @ [a]) flags = Inr (args', flags')" using Cons.prems(1) by simp
    have "\<forall>b \<in> set (args @ [a]). set b \<subseteq> C" using Cons.prems(3,4) by simp
    then show ?thesis using Cons.prems(3) by (intro Cons.IH [OF pa Cons.prems(2) _ _ Cons.prems(5)]) simp_all
  qed
qed simp

lemma join_with_chars: "set (join_with c xs) \<subseteq> insert c (\<Union> (set ` set xs))"
  by (induction c xs rule: join_with.induct) auto

lemma has_sub_single: "has_sub [c] s \<longleftrightarrow> c \<in> set s"
  by (induction s) (auto simp: starts_with_def)

lemma valid_keys_ok: "valid_key k \<Longrightarrow> set k \<subseteq> {c. key_char c} \<union> {CHR 0x0A}"
  by (cases k rule: rev_cases) (auto simp: valid_key_def Let_def list_all_iff split: if_splits)

lemma render_flag_chars: "set (render_flag kv) \<subseteq> set (fst kv) \<union> set (snd kv) \<union> {CHR ''='', CHR 0x22}"
  by (cases kv) (auto simp: render_flag_def)

lemma denied_unsafe [simp]: "\<not> cm_is_safe (denied cmd code severity)"
  by (simp add: denied_def)

lemma validate_parts_safe:
  assumes "cm_is_safe (validate_parts ps)"
  shows "\<exists>c parts. ps = c # parts \<and> cm_command (validate_parts ps) = py_lower c \<and> py_lower c \<in> set ALLOWED_COMMANDS
    \<and> parse_args parts [] [] = Inr (cm_args (validate_parts ps), cm_flags (validate_parts ps))"
proof (cases ps)
  case (Cons c parts)
  have "py_lower c \<in> set ALLOWED_COMMANDS" using assms Cons by (cases "py_lower c \<in> set ALLOWED_COMMANDS") simp_all
  then show ?thesis using assms Cons by (cases "parse_args parts [] []") (auto simp: Let_def)
qed (use assms in simp)

lemma validated_parts:
  assumes "cm_is_safe (validate_suggestion raw)"
  shows "list_all (\<lambda>p. \<not> has_sub p (py_strip raw)) DANGEROUS_PATTERNS"
    and "\<exists>ps. split_command (py_strip raw) = Inr ps \<and> validate_suggestion raw = validate_parts ps \<and> cm_is_safe (validate_parts ps)"
proof -
  show ok: "list_all (\<lambda>p. \<not> has_sub p (py_strip raw)) DANGEROUS_PATTERNS"
    using assms unfolding validate_suggestion_def Let_def by (auto simp: list_all_iff list_ex_iff split: if_splits)
  have no: "\<not> list_ex (\<lambda>p. has_sub p (py_strip raw)) DANGEROUS_PATTERNS" using ok by (simp add: list_all_iff list_ex_iff)
  show "\<exists>ps. split_command (py_strip raw) = Inr ps \<and> validate_suggestion raw = validate_parts ps \<and> cm_is_safe (validate_parts ps)"
    using assms no unfolding validate_suggestion_def Let_def by (cases "split_command (py_strip raw)") simp_all
qed

lemma clear_subset: "A \<subseteq> C \<Longrightarrow> C \<inter> B = {} \<Longrightarrow> A \<inter> B = {}"
  by blast

lemma rendered_chars:
  assumes "set (cm_command r) \<inter> B = {}" and "\<forall>a \<in> set (cm_args r). set a \<inter> B = {}"
    and "\<forall>kv \<in> set (cm_flags r). set (render_flag kv) \<inter> B = {}" and "CHR '' '' \<notin> B"
  shows "set (command_to_string r) \<inter> B = {}"
proof -
  have "set (command_to_string r) \<subseteq> insert (CHR '' '') (\<Union> (set ` set (cm_command r # map render_flag (sort_key fst (cm_flags r)) @ cm_args r)))"
    unfolding command_to_string_def by (rule join_with_chars)
  moreover have "insert (CHR '' '') (\<Union> (set ` set (cm_command r # map render_flag (sort_key fst (cm_flags r)) @ cm_args r))) \<inter> B = {}"
    using assms by (simp add: Int_Un_distrib2) blast
  ultimately show ?thesis by (rule clear_subset)
qed

text \<open>
  What the firewall lets through is one of the allowed commands, its flags have distinct plain names and
  values of at most 1000 characters, and the rendered command has no semicolon, back quote or pipe.
\<close>

theorem firewall_safe:
  assumes "cm_is_safe (validate_suggestion raw)"
  shows "cm_command (validate_suggestion raw) \<in> set ALLOWED_COMMANDS
    \<and> dict_ok (cm_flags (validate_suggestion raw))
    \<and> (\<forall>(k, v) \<in> set (cm_flags (validate_suggestion raw)). valid_key k \<and> length v \<le> 1000)
    \<and> set (command_to_string (validate_suggestion raw)) \<inter> {CHR '';'', CHR 0x60, CHR ''|''} = {}"
proof -
  obtain ps where ps: "split_command (py_strip raw) = Inr ps" "validate_suggestion raw = validate_parts ps" "cm_is_safe (validate_parts ps)"
    using validated_parts(2) [OF assms] by blast
  let ?r = "validate_parts ps"
  obtain c parts where cp: "ps = c # parts" "cm_command ?r = py_lower c" "py_lower c \<in> set ALLOWED_COMMANDS"
    "parse_args parts [] [] = Inr (cm_args ?r, cm_flags ?r)" using validate_parts_safe [OF ps(3)] by blast
  let ?C = "set (py_strip raw) \<union> {CHR 0x5C}"
  have "\<forall>t \<in> set ps. set t \<subseteq> ?C" using shlex_chars [OF ps(1) [unfolded split_command_def]] by simp
  then have "\<forall>t \<in> set parts. set t \<subseteq> ?C" using cp(1) by simp
  then have ch: "(\<forall>a \<in> set (cm_args ?r). set a \<subseteq> ?C) \<and> (\<forall>(k, v) \<in> set (cm_flags ?r). set k \<union> set v \<subseteq> ?C)"
    using parse_args_chars [OF cp(4), of ?C] by simp
  have fl: "(\<forall>(k, v) \<in> set (cm_flags ?r). valid_key k \<and> length v \<le> 1000) \<and> dict_ok (cm_flags ?r)"
    using parse_args_flags [OF cp(4)] by simp
  have bad: "?C \<inter> {CHR '';'', CHR 0x60, CHR ''|''} = {}"
    using validated_parts(1) [OF assms] by (simp add: DANGEROUS_PATTERNS_def has_sub_single)
  have flag_parts: "set (fst kv) \<union> set (snd kv) \<subseteq> ?C" if "kv \<in> set (cm_flags ?r)" for kv
    using conjunct2 [OF ch] that by (cases kv) (drule (1) bspec, simp)
  have cmd: "set (cm_command ?r) \<inter> {CHR '';'', CHR 0x60, CHR ''|''} = {}"
    using cp(2,3) by (auto simp: ALLOWED_COMMANDS_def)
  have "set (render_flag kv) \<inter> {CHR '';'', CHR 0x60, CHR ''|''} = {}" if "kv \<in> set (cm_flags ?r)" for kv
    by (rule clear_subset [OF render_flag_chars]) (use clear_subset [OF flag_parts [OF that] bad] in \<open>simp add: Int_Un_distrib2\<close>)
  moreover have "set a \<inter> {CHR '';'', CHR 0x60, CHR ''|''} = {}" if "a \<in> set (cm_args ?r)" for a
    by (rule clear_subset [OF _ bad]) (use ch that in simp)
  ultimately have "set (command_to_string ?r) \<inter> {CHR '';'', CHR 0x60, CHR ''|''} = {}"
    by (intro rendered_chars [OF cmd]) simp_all
  then show ?thesis using fl cp(2,3) ps(2) by simp
qed

theorem firewall_safe_witness:
  "cm_is_safe (validate_suggestion ''/Run flux steps=20'') \<and> cm_command (validate_suggestion ''/Run flux steps=20'') \<in> set ALLOWED_COMMANDS"
proof -
  have s: "cm_is_safe (validate_suggestion ''/Run flux steps=20'')" by code_simp
  show ?thesis using firewall_safe [OF s] s by blast
qed

text \<open>Quotes hide a command substitution from the check of the patterns: the rendered argument has it again.\<close>

theorem firewall_misses_substitution:
  "command_to_string (validate_suggestion (''/run $'' @ [CHR 0x22, CHR 0x22] @ ''(id)'')) = ''/run $(id)''
   \<and> cm_is_safe (validate_suggestion (''/run $'' @ [CHR 0x22, CHR 0x22] @ ''(id)''))"
  by code_simp

text \<open>A quoted space in a positional argument is rendered without its quotes: the rendered command reads as another one, with a flag.\<close>

theorem firewall_rendering_differs:
  "let r = validate_suggestion (''/run '' @ [CHR 0x22] @ ''-- x=1'' @ [CHR 0x22]) in
   cm_is_safe r \<and> cm_flags r = [] \<and> cm_flags (validate_suggestion (command_to_string r)) = [(''x'', ''1'')]"
  by code_simp

end
