(* ===== verification/Job_Schema.thy ===== *)
theory Job_Schema
  imports Targets Json
begin

text \<open>
  \<open>models/schemas.py\<close> and the limits of \<open>services/request_contracts.py\<close>: the generation parameters with
  their clamping, and the webhook job request with its strict validation. Fields are JSON values, as
  the dataclasses do not check their types.
\<close>

subsection \<open>Limits\<close>

definition MAX_JOB_ID_LENGTH :: nat where "MAX_JOB_ID_LENGTH = 64"
definition MAX_TEMPLATE_ID_LENGTH :: nat where "MAX_TEMPLATE_ID_LENGTH = 64"
definition MAX_PROFILE_ID_LENGTH :: nat where "MAX_PROFILE_ID_LENGTH = 64"
definition MAX_INPUT_STRING_LENGTH :: nat where "MAX_INPUT_STRING_LENGTH = 2048"
definition MAX_BODY_SIZE :: int where "MAX_BODY_SIZE = 65536"
definition MAX_TRACE_ID_LENGTH :: nat where "MAX_TRACE_ID_LENGTH = 64"

definition required_top_level :: "string list" where
  "required_top_level = [''version'', ''template_id'', ''profile_id'']"

definition allowed_top_level :: "string list" where
  "allowed_top_level = [''version'', ''template_id'', ''profile_id'', ''inputs'', ''job_id'', ''trace_id'', ''callback'']"

definition allowed_input_keys :: "string list" where
  "allowed_input_keys = [''requirements'', ''goal'', ''seed'', ''positive_prompt'', ''negative_prompt'']"

subsection \<open>Generation parameters\<close>

text \<open>Comparison and arithmetic of numbers as Python has them; \<open>None\<close> is the \<open>TypeError\<close> of any other value.\<close>

fun num_of :: "json \<Rightarrow> real option" where
  "num_of (JBool b) = Some (of_bool b)"
| "num_of (JInt i) = Some (of_int i)"
| "num_of (JFloat x) = Some x"
| "num_of _ = None"

text \<open>\<open>min(a, b)\<close> and \<open>max(a, b)\<close> give the first of two equal values.\<close>

definition py_min :: "json \<Rightarrow> json \<Rightarrow> json option" where
  "py_min a b = (case (num_of a, num_of b) of (Some x, Some y) \<Rightarrow> Some (if y < x then b else a) | _ \<Rightarrow> None)"

definition py_max :: "json \<Rightarrow> json \<Rightarrow> json option" where
  "py_max a b = (case (num_of a, num_of b) of (Some x, Some y) \<Rightarrow> Some (if y > x then b else a) | _ \<Rightarrow> None)"

definition clamp_json :: "json \<Rightarrow> json \<Rightarrow> json \<Rightarrow> json option" where
  "clamp_json lo hi j = Option.bind (py_min hi j) (py_max lo)"

text \<open>\<open>(x // 8) * 8\<close>\<close>

fun round8 :: "json \<Rightarrow> json" where
  "round8 (JInt i) = JInt (i div 8 * 8)"
| "round8 (JFloat x) = JFloat (of_int (\<lfloor>x / 8\<rfloor>) * 8)"
| "round8 (JBool b) = JInt (of_bool b div 8 * 8)"
| "round8 j = j"

record gen_params =
  gp_width :: json
  gp_height :: json
  gp_steps :: json
  gp_cfg :: json
  gp_sampler_name :: json
  gp_scheduler :: json
  gp_seed :: json
  gp_extra :: json

definition gen_post_init :: "gen_params \<Rightarrow> gen_params option" where
  "gen_post_init p =
    Option.bind (clamp_json (JInt 256) (JInt 4096) (gp_width p)) (\<lambda>w.
    Option.bind (clamp_json (JInt 256) (JInt 4096) (gp_height p)) (\<lambda>h.
    Option.bind (clamp_json (JInt 1) (JInt 100) (gp_steps p)) (\<lambda>s.
    Option.bind (clamp_json (JFloat 1) (JFloat 30) (gp_cfg p)) (\<lambda>c.
      Some (p\<lparr>gp_width := round8 w, gp_height := round8 h, gp_steps := s, gp_cfg := c\<rparr>)))))"

definition field_or :: "(string \<times> json) list \<Rightarrow> string \<Rightarrow> json \<Rightarrow> json" where
  "field_or d k dflt = (case dget d k of None \<Rightarrow> dflt | Some v \<Rightarrow> v)"

definition gen_from_dict :: "(string \<times> json) list \<Rightarrow> gen_params option" where
  "gen_from_dict d = gen_post_init
    \<lparr>gp_width = field_or d ''width'' (JInt 1024), gp_height = field_or d ''height'' (JInt 1024), gp_steps = field_or d ''steps'' (JInt 20),
     gp_cfg = field_or d ''cfg'' (JFloat 7), gp_sampler_name = field_or d ''sampler_name'' (JStr ''euler''),
     gp_scheduler = field_or d ''scheduler'' (JStr ''normal''), gp_seed = field_or d ''seed'' JNull, gp_extra = field_or d ''extra'' (JObj [])\<rparr>"

definition gen_dict :: "gen_params \<Rightarrow> (string \<times> json) list" where
  "gen_dict p = [(''width'', gp_width p), (''height'', gp_height p), (''steps'', gp_steps p), (''cfg'', gp_cfg p),
     (''sampler_name'', gp_sampler_name p), (''scheduler'', gp_scheduler p), (''seed'', gp_seed p), (''extra'', gp_extra p)]"

subsection \<open>The webhook job request\<close>

text \<open>\<open>ValueError\<close> with what it is about, or any other exception (\<open>TypeError\<close>, \<open>AttributeError\<close>).\<close>

datatype request_fault = Value_error string | Type_fault

record job_request =
  jq_version :: json
  jq_template_id :: json
  jq_profile_id :: json
  jq_inputs :: json
  jq_job_id :: json
  jq_trace_id :: json
  jq_callback :: json

fun json_len :: "json \<Rightarrow> nat option" where
  "json_len (JStr s) = Some (length s)"
| "json_len (JArr l) = Some (length l)"
| "json_len (JObj d) = Some (length d)"
| "json_len _ = None"

definition longer_than :: "nat \<Rightarrow> json \<Rightarrow> bool option" where
  "longer_than n j = map_option (\<lambda>k. k > n) (json_len j)"

text \<open>\<open>j and test(j)\<close>\<close>

definition if_truthy :: "(json \<Rightarrow> bool option) \<Rightarrow> json \<Rightarrow> bool option" where
  "if_truthy test j = (if truthy j then test j else Some False)"

definition trace_id_invalid :: "json \<Rightarrow> bool option" where
  "trace_id_invalid j = (case j of JStr s \<Rightarrow> Some (\<not> match_end (\<lambda>t. t \<noteq> [] \<and> list_all (alnum_or ''_-'') t) s) | _ \<Rightarrow> None)"

definition fault_if :: "string \<Rightarrow> bool option \<Rightarrow> request_fault option" where
  "fault_if what c = (case c of None \<Rightarrow> Some Type_fault | Some b \<Rightarrow> if b then Some (Value_error what) else None)"

fun first_fault :: "request_fault option list \<Rightarrow> request_fault option" where
  "first_fault [] = None"
| "first_fault (f # fs) = (case f of None \<Rightarrow> first_fault fs | Some e \<Rightarrow> Some e)"

text \<open>The input items in their order.\<close>

fun input_faults :: "(string \<times> json) list \<Rightarrow> request_fault option list" where
  "input_faults [] = []"
| "input_faults ((k, v) # d) =
    fault_if ''unknown_input'' (Some (k \<notin> set allowed_input_keys))
    # fault_if ''input_length'' (Some (case v of JStr s \<Rightarrow> length s > MAX_INPUT_STRING_LENGTH | _ \<Rightarrow> False)) # input_faults d"

definition request_fault_of :: "job_request \<Rightarrow> request_fault option" where
  "request_fault_of r = first_fault (
     [fault_if ''version'' (Some (num_of (jq_version r) \<noteq> Some 1)),
      fault_if ''job_id_length'' (if_truthy (longer_than MAX_JOB_ID_LENGTH) (jq_job_id r)),
      fault_if ''trace_id_length'' (if_truthy (longer_than MAX_TRACE_ID_LENGTH) (jq_trace_id r)),
      fault_if ''trace_id_characters'' (if_truthy trace_id_invalid (jq_trace_id r)),
      fault_if ''template_id_length'' (longer_than MAX_TEMPLATE_ID_LENGTH (jq_template_id r)),
      fault_if ''profile_id_length'' (longer_than MAX_PROFILE_ID_LENGTH (jq_profile_id r))]
     @ (case jq_inputs r of JObj d \<Rightarrow> input_faults d | _ \<Rightarrow> [Some Type_fault]))"

definition request_from_dict :: "(string \<times> json) list \<Rightarrow> request_fault + job_request" where
  "request_from_dict d =
    (if \<not> set (dkeys d) \<subseteq> set allowed_top_level then Inl (Value_error ''unknown_fields'')
     else if \<not> set required_top_level \<subseteq> set (dkeys d) then Inl (Value_error ''missing_fields'')
     else let r = \<lparr>jq_version = field_or d ''version'' JNull, jq_template_id = field_or d ''template_id'' JNull,
                jq_profile_id = field_or d ''profile_id'' JNull, jq_inputs = field_or d ''inputs'' (JObj []),
                jq_job_id = field_or d ''job_id'' JNull, jq_trace_id = field_or d ''trace_id'' JNull, jq_callback = field_or d ''callback'' JNull\<rparr>
       in case request_fault_of r of Some e \<Rightarrow> Inl e | None \<Rightarrow> Inr r)"

definition to_normalized :: "job_request \<Rightarrow> (string \<times> json) list" where
  "to_normalized r = [(''version'', jq_version r), (''job_id'', jq_job_id r), (''trace_id'', jq_trace_id r), (''template_id'', jq_template_id r),
     (''profile_id'', jq_profile_id r), (''inputs'', jq_inputs r), (''callback'', jq_callback r)]"

subsection \<open>Clamping\<close>

lemma py_min_num: "py_min a b = Some c \<Longrightarrow> \<exists>x y. num_of a = Some x \<and> num_of b = Some y \<and> num_of c = Some (min x y) \<and> c \<in> {a, b}"
  by (auto simp: py_min_def split: option.splits if_splits)

lemma py_max_num: "py_max a b = Some c \<Longrightarrow> \<exists>x y. num_of a = Some x \<and> num_of b = Some y \<and> num_of c = Some (max x y) \<and> c \<in> {a, b}"
  by (auto simp: py_max_def split: option.splits if_splits)

lemma clamp_json_num:
  assumes "clamp_json lo hi j = Some c" and "num_of lo = Some l" and "num_of hi = Some h"
  shows "\<exists>x. num_of j = Some x \<and> num_of c = Some (max l (min h x)) \<and> c \<in> {lo, hi, j}"
proof -
  obtain m where m: "py_min hi j = Some m" "py_max lo m = Some c" using assms(1) by (cases "py_min hi j") (auto simp: clamp_json_def)
  show ?thesis using py_min_num [OF m(1)] py_max_num [OF m(2)] assms(2,3) by auto
qed

lemma clamp_json_some:
  assumes "num_of j = Some x" and "num_of lo = Some l" and "num_of hi = Some h"
  shows "clamp_json lo hi j \<noteq> None"
  using assms by (auto simp: clamp_json_def py_min_def py_max_def)

lemma clamp_json_id:
  assumes "num_of j = Some x" and "num_of lo = Some l" and "num_of hi = Some h" and "l \<le> x" and "x \<le> h"
  shows "\<exists>c. clamp_json lo hi j = Some c \<and> num_of c = Some x \<and> (c = j \<or> c = lo \<and> x = l \<or> c = hi \<and> x = h)"
  using assms by (auto simp: clamp_json_def py_min_def py_max_def)

text \<open>A dimension: a whole multiple of eight, as an integer or a float.\<close>

definition dimension :: "json \<Rightarrow> bool" where
  "dimension j \<longleftrightarrow> (\<exists>k::int. 32 \<le> k \<and> k \<le> 512 \<and> (j = JInt (8 * k) \<or> j = JFloat (8 * of_int k)))"

lemma round8_dimension:
  assumes "num_of j = Some x" and "256 \<le> x" and "x \<le> 4096"
  shows "dimension (round8 j)"
proof (cases j)
  case (JInt i)
  then have "256 \<le> i" "i \<le> 4096" using assms by auto
  then have "32 \<le> i div 8 \<and> i div 8 \<le> 512" by auto
  then show ?thesis unfolding dimension_def using JInt by (intro exI [of _ "i div 8"]) (simp add: mult.commute)
next
  case (JFloat y)
  then have "32 \<le> \<lfloor>y / 8\<rfloor> \<and> \<lfloor>y / 8\<rfloor> \<le> 512" using assms by (auto simp: le_floor_iff floor_le_iff)
  then show ?thesis unfolding dimension_def using JFloat by (intro exI [of _ "\<lfloor>y / 8\<rfloor>"]) (simp add: mult.commute)
qed (use assms in \<open>auto simp: of_bool_def split: if_splits\<close>)

lemma round8_id: "dimension j \<Longrightarrow> round8 j = j"
  by (auto simp: dimension_def)

lemma dimension_num: "dimension j \<Longrightarrow> \<exists>x. num_of j = Some x \<and> 256 \<le> x \<and> x \<le> 4096"
  by (auto simp: dimension_def)

lemma clamp_range:
  "clamp_json lo hi j = Some c \<Longrightarrow> num_of lo = Some l \<Longrightarrow> num_of hi = Some h \<Longrightarrow> l \<le> h \<Longrightarrow> \<exists>x. num_of c = Some x \<and> l \<le> x \<and> x \<le> h"
  using clamp_json_num [of lo hi j c l h] by fastforce

lemma gen_params_ok:
  assumes "gen_from_dict d = Some p"
  shows "dimension (gp_width p) \<and> dimension (gp_height p)
    \<and> (\<exists>x. num_of (gp_steps p) = Some x \<and> 1 \<le> x \<and> x \<le> 100) \<and> (\<exists>x. num_of (gp_cfg p) = Some x \<and> 1 \<le> x \<and> x \<le> 30)"
proof -
  obtain q where "gen_post_init q = Some p" using assms by (auto simp: gen_from_dict_def)
  then obtain w h s c where q: "clamp_json (JInt 256) (JInt 4096) (gp_width q) = Some w" "clamp_json (JInt 256) (JInt 4096) (gp_height q) = Some h"
    "clamp_json (JInt 1) (JInt 100) (gp_steps q) = Some s" "clamp_json (JFloat 1) (JFloat 30) (gp_cfg q) = Some c"
    and p: "p = q\<lparr>gp_width := round8 w, gp_height := round8 h, gp_steps := s, gp_cfg := c\<rparr>"
    by (auto simp: gen_post_init_def bind_eq_Some_conv)
  have "dimension (round8 w)" "dimension (round8 h)"
    using clamp_range [OF q(1), of 256 4096] clamp_range [OF q(2), of 256 4096] round8_dimension by auto
  moreover have "\<exists>x. num_of s = Some x \<and> 1 \<le> x \<and> x \<le> 100" using clamp_range [OF q(3), of 1 100] by simp
  moreover have "\<exists>x. num_of c = Some x \<and> 1 \<le> x \<and> x \<le> 30" using clamp_range [OF q(4), of 1 30] by simp
  ultimately show ?thesis by (simp add: p)
qed

lemma clamp_dimension: "dimension j \<Longrightarrow> \<exists>c. clamp_json (JInt 256) (JInt 4096) j = Some c \<and> dimension c \<and> num_of c = num_of j"
  using clamp_json_id [of j _ "JInt 256" 256 "JInt 4096" 4096] dimension_num [of j]
  by (force simp: dimension_def)

lemma clamp_again:
  assumes "num_of j = Some x" and "num_of lo = Some l" and "num_of hi = Some h" and "l \<le> x" and "x \<le> h"
  shows "\<exists>c. clamp_json lo hi j = Some c \<and> num_of c = num_of j"
  using clamp_json_id [OF assms] assms(1) by auto

lemma gen_params_again:
  assumes "dimension (gp_width p) \<and> dimension (gp_height p)
    \<and> (\<exists>x. num_of (gp_steps p) = Some x \<and> 1 \<le> x \<and> x \<le> 100) \<and> (\<exists>x. num_of (gp_cfg p) = Some x \<and> 1 \<le> x \<and> x \<le> 30)"
  shows "\<exists>q. gen_from_dict (gen_dict p) = Some q
    \<and> map num_of [gp_width q, gp_height q, gp_steps q, gp_cfg q] = map num_of [gp_width p, gp_height p, gp_steps p, gp_cfg p]
    \<and> gp_sampler_name q = gp_sampler_name p \<and> gp_scheduler q = gp_scheduler p \<and> gp_seed q = gp_seed p \<and> gp_extra q = gp_extra p"
proof -
  obtain w h where w: "clamp_json (JInt 256) (JInt 4096) (gp_width p) = Some w" "dimension w" "num_of w = num_of (gp_width p)"
    and h: "clamp_json (JInt 256) (JInt 4096) (gp_height p) = Some h" "dimension h" "num_of h = num_of (gp_height p)"
    using assms clamp_dimension by metis
  obtain s c where s: "clamp_json (JInt 1) (JInt 100) (gp_steps p) = Some s" "num_of s = num_of (gp_steps p)"
    and c: "clamp_json (JFloat 1) (JFloat 30) (gp_cfg p) = Some c" "num_of c = num_of (gp_cfg p)"
    using assms clamp_again [of "gp_steps p" _ "JInt 1" 1 "JInt 100" 100] clamp_again [of "gp_cfg p" _ "JFloat 1" 1 "JFloat 30" 30] by fastforce
  show ?thesis
    by (simp add: gen_from_dict_def gen_dict_def field_or_def gen_post_init_def w h s c round8_id)
qed

text \<open>
  Whatever numbers are given, the parameters that come out have dimensions that are multiples of
  eight between 256 and 4096, 1 to 100 steps and a guidance of 1 to 30; parsing what they print as
  leaves all these numbers as they are.
\<close>

theorem generation_params_clamped:
  assumes "gen_from_dict d = Some p"
  shows "dimension (gp_width p) \<and> dimension (gp_height p)
    \<and> (\<exists>x. num_of (gp_steps p) = Some x \<and> 1 \<le> x \<and> x \<le> 100) \<and> (\<exists>x. num_of (gp_cfg p) = Some x \<and> 1 \<le> x \<and> x \<le> 30)
    \<and> (\<exists>q. gen_from_dict (gen_dict p) = Some q
        \<and> map num_of [gp_width q, gp_height q, gp_steps q, gp_cfg q] = map num_of [gp_width p, gp_height p, gp_steps p, gp_cfg p]
        \<and> gp_sampler_name q = gp_sampler_name p \<and> gp_scheduler q = gp_scheduler p \<and> gp_seed q = gp_seed p \<and> gp_extra q = gp_extra p)"
  using gen_params_ok [OF assms] gen_params_again [OF gen_params_ok [OF assms]] by blast

theorem generation_params_clamped_witness:
  "gen_from_dict [(''width'', JInt 9999), (''steps'', JFloat 0)] =
     Some \<lparr>gp_width = JInt 4096, gp_height = JInt 1024, gp_steps = JInt 1, gp_cfg = JFloat 7, gp_sampler_name = JStr ''euler'',
       gp_scheduler = JStr ''normal'', gp_seed = JNull, gp_extra = JObj []\<rparr> \<and> dimension (JInt 4096)"
proof -
  have g: "gen_from_dict [(''width'', JInt 9999), (''steps'', JFloat 0)] =
     Some \<lparr>gp_width = JInt 4096, gp_height = JInt 1024, gp_steps = JInt 1, gp_cfg = JFloat 7, gp_sampler_name = JStr ''euler'',
       gp_scheduler = JStr ''normal'', gp_seed = JNull, gp_extra = JObj []\<rparr>"
    by (simp add: gen_from_dict_def gen_post_init_def field_or_def clamp_json_def py_min_def py_max_def)
  show ?thesis using generation_params_clamped [OF g] g by simp
qed

subsection \<open>What an accepted request has\<close>

text \<open>The type of a field after the schema gate of the mapping, which admits null.\<close>

lemma first_fault_None: "first_fault fs = None \<longleftrightarrow> list_all (\<lambda>f. f = None) fs"
  by (induction fs) (auto split: option.splits)

lemma first_fault_type: "first_fault fs = Some Type_fault \<Longrightarrow> Some Type_fault \<in> set fs"
  by (induction fs) (auto split: option.splits)

lemma fault_if_None [simp]: "fault_if w c = None \<longleftrightarrow> c = Some False"
  by (auto simp: fault_if_def split: option.splits)

lemma fault_if_type [simp]: "fault_if w c = Some Type_fault \<longleftrightarrow> c = None" "Some Type_fault = fault_if w c \<longleftrightarrow> c = None"
  by (auto simp: fault_if_def split: option.splits if_splits)

definition input_ok :: "string \<times> json \<Rightarrow> bool" where
  "input_ok kv \<longleftrightarrow> fst kv \<in> set allowed_input_keys \<and> (\<forall>s. snd kv = JStr s \<longrightarrow> length s \<le> MAX_INPUT_STRING_LENGTH)"

lemma input_faults_None: "list_all (\<lambda>f. f = None) (input_faults d) \<longleftrightarrow> (\<forall>kv \<in> set d. input_ok kv)"
  by (induction d rule: input_faults.induct) (auto simp: input_ok_def not_less split: json.splits)

lemma input_faults_type: "Some Type_fault \<notin> set (input_faults d)"
  by (induction d rule: input_faults.induct) auto

text \<open>An optional text: null, empty, or within the limit.\<close>

definition optional_text :: "nat \<Rightarrow> json \<Rightarrow> bool" where
  "optional_text n j \<longleftrightarrow> j = JNull \<or> (\<exists>s. j = JStr s \<and> length s \<le> n)"

definition typed_request :: "(string \<times> json) list \<Rightarrow> bool" where
  "typed_request d \<longleftrightarrow> (\<exists>s. dget d ''template_id'' = Some (JStr s)) \<and> (\<exists>s. dget d ''profile_id'' = Some (JStr s))
     \<and> (case dget d ''inputs'' of None \<Rightarrow> True | Some j \<Rightarrow> \<exists>e. j = JObj e)
     \<and> (\<forall>k \<in> {''job_id'', ''trace_id''}. case dget d k of None \<Rightarrow> True | Some j \<Rightarrow> j = JNull \<or> (\<exists>s. j = JStr s))"

lemma request_no_type_fault:
  assumes "jq_template_id r = JStr t" and "jq_profile_id r = JStr p" and "jq_inputs r = JObj e"
    and "jq_job_id r = JNull \<or> jq_job_id r = JStr j" and "jq_trace_id r = JNull \<or> jq_trace_id r = JStr u"
  shows "request_fault_of r \<noteq> Some Type_fault"
proof
  assume "request_fault_of r = Some Type_fault"
  from first_fault_type [OF this [unfolded request_fault_of_def]] input_faults_type [of e] show False
    using assms(4,5) by (elim disjE) (simp_all add: assms(1-3) if_truthy_def longer_than_def trace_id_invalid_def split: if_splits)
qed

lemma typed_request_no_fault:
  assumes "typed_request d"
  shows "request_from_dict d \<noteq> Inl Type_fault"
proof -
  obtain t p where t: "dget d ''template_id'' = Some (JStr t)" "dget d ''profile_id'' = Some (JStr p)" using assms by (auto simp: typed_request_def)
  obtain e where e: "field_or d ''inputs'' (JObj []) = JObj e" using assms by (auto simp: typed_request_def field_or_def split: option.splits)
  obtain j where j: "field_or d ''job_id'' JNull = JNull \<or> field_or d ''job_id'' JNull = JStr j"
    using assms by (fastforce simp: typed_request_def field_or_def split: option.splits)
  obtain u where u: "field_or d ''trace_id'' JNull = JNull \<or> field_or d ''trace_id'' JNull = JStr u"
    using assms by (fastforce simp: typed_request_def field_or_def split: option.splits)
  show ?thesis
    using request_no_type_fault [of "\<lparr>jq_version = field_or d ''version'' JNull, jq_template_id = field_or d ''template_id'' JNull,
                jq_profile_id = field_or d ''profile_id'' JNull, jq_inputs = field_or d ''inputs'' (JObj []),
                jq_job_id = field_or d ''job_id'' JNull, jq_trace_id = field_or d ''trace_id'' JNull, jq_callback = field_or d ''callback'' JNull\<rparr>"
          t p e j u] t e j u
    by (auto simp: request_from_dict_def Let_def field_or_def split: option.splits)
qed

lemma request_fault_None:
  assumes "request_fault_of r = None"
  shows "num_of (jq_version r) = Some 1"
    and "longer_than MAX_TEMPLATE_ID_LENGTH (jq_template_id r) = Some False" and "longer_than MAX_PROFILE_ID_LENGTH (jq_profile_id r) = Some False"
    and "if_truthy (longer_than MAX_JOB_ID_LENGTH) (jq_job_id r) = Some False" and "if_truthy trace_id_invalid (jq_trace_id r) = Some False"
    and "\<exists>e. jq_inputs r = JObj e \<and> (\<forall>kv \<in> set e. input_ok kv)"
proof -
  note all = assms [unfolded request_fault_of_def first_fault_None list_all_append list.pred_inject]
  show "num_of (jq_version r) = Some 1" and "longer_than MAX_TEMPLATE_ID_LENGTH (jq_template_id r) = Some False"
    and "longer_than MAX_PROFILE_ID_LENGTH (jq_profile_id r) = Some False"
    and "if_truthy (longer_than MAX_JOB_ID_LENGTH) (jq_job_id r) = Some False" and "if_truthy trace_id_invalid (jq_trace_id r) = Some False"
    using all by simp_all
  have "list_all (\<lambda>f. f = None) (case jq_inputs r of JObj d \<Rightarrow> input_faults d | _ \<Rightarrow> [Some Type_fault])" using all by blast
  then show "\<exists>e. jq_inputs r = JObj e \<and> (\<forall>kv \<in> set e. input_ok kv)" by (cases "jq_inputs r") (simp_all add: input_faults_None)
qed

lemma longer_than_False: "longer_than n j = Some False \<longleftrightarrow> (\<exists>k. json_len j = Some k \<and> k \<le> n)"
  by (auto simp: longer_than_def)

lemma request_from_dict_fields:
  assumes "request_from_dict d = Inr r"
  shows "set (dkeys d) \<subseteq> set allowed_top_level" and "request_fault_of r = None"
  using assms by (auto simp: request_from_dict_def Let_def split: if_splits option.splits)

lemma from_normalized: "request_fault_of r = None \<Longrightarrow> request_from_dict (to_normalized r) = Inr r"
  by (cases r) (simp add: request_from_dict_def to_normalized_def field_or_def allowed_top_level_def required_top_level_def Let_def)

text \<open>
  A job request that parses has version 1, only known fields, a template and a profile name of at
  most 64 characters, only the allowed inputs with texts of at most 2048 characters, and a trace id,
  if it has one, of plain characters; its normal form parses to the same request.
\<close>

theorem job_request_valid:
  assumes "request_from_dict d = Inr r"
  shows "num_of (jq_version r) = Some 1 \<and> set (dkeys d) \<subseteq> set allowed_top_level
    \<and> (\<exists>k. json_len (jq_template_id r) = Some k \<and> k \<le> 64) \<and> (\<exists>k. json_len (jq_profile_id r) = Some k \<and> k \<le> 64)
    \<and> (\<exists>e. jq_inputs r = JObj e \<and> (\<forall>(k, v) \<in> set e. k \<in> set allowed_input_keys \<and> (\<forall>s. v = JStr s \<longrightarrow> length s \<le> 2048)))
    \<and> (truthy (jq_trace_id r) \<longrightarrow> trace_id_invalid (jq_trace_id r) = Some False)
    \<and> request_from_dict (to_normalized r) = Inr r"
proof -
  note f = request_from_dict_fields [OF assms]
  note v = request_fault_None [OF f(2)]
  have "\<exists>e. jq_inputs r = JObj e \<and> (\<forall>(k, v) \<in> set e. k \<in> set allowed_input_keys \<and> (\<forall>s. v = JStr s \<longrightarrow> length s \<le> 2048))"
    using v(6) by (simp add: input_ok_def MAX_INPUT_STRING_LENGTH_def split_beta)
  then show ?thesis using f(1) v(1-3,5) from_normalized [OF f(2)]
    by (simp add: longer_than_False MAX_TEMPLATE_ID_LENGTH_def MAX_PROFILE_ID_LENGTH_def if_truthy_def split: if_splits)
qed

definition demo_job :: "(string \<times> json) list" where
  "demo_job = [(''version'', JInt 1), (''template_id'', JStr ''t''), (''profile_id'', JStr ''p''), (''inputs'', JObj [(''goal'', JStr ''cat'')])]"

definition demo_job_request :: job_request where
  "demo_job_request = \<lparr>jq_version = JInt 1, jq_template_id = JStr ''t'', jq_profile_id = JStr ''p'', jq_inputs = JObj [(''goal'', JStr ''cat'')],
     jq_job_id = JNull, jq_trace_id = JNull, jq_callback = JNull\<rparr>"

lemma demo_job_parses: "request_from_dict demo_job = Inr demo_job_request"
  by code_simp

theorem job_request_valid_witness: "request_from_dict (to_normalized demo_job_request) = Inr demo_job_request \<and> num_of (JInt 1) = Some 1"
  using job_request_valid [OF demo_job_parses] by (simp add: demo_job_request_def)

end
