(* ===== verification/Webhook_Submit.thy ===== *)
theory Webhook_Submit
  imports Webhook_Auth Traces Webhook_Mapping Job_Schema
begin

text \<open>
  \<open>api/webhook_submit.py\<close>: the submission handler, which composes the authentication, the trace id,
  the mapping, the schema of the request, the deduplication store, the rendering of the template and
  the submission to the queue. The answers of the surface guard, the rate limiter, the template
  service and the queue are given. Trace records, job events and the callback watch, which come after
  the submission, are left out.
\<close>

subsection \<open>The handler\<close>

datatype queue_reply = Queued "string option" | Budget_exceeded string | Queue_failed

text \<open>\<open>ss_render\<close>: \<open>Inl True\<close> is \<open>ValueError\<close>, \<open>Inl False\<close> another exception.\<close>

record submit_site =
  ss_env :: env
  ss_mac :: "string \<Rightarrow> string \<Rightarrow> string"
  ss_loads :: "string \<Rightarrow> json option"
  ss_mapping :: mapping_lib
  ss_allowed :: "(string \<times> string) list"
  ss_profiles :: "(string, mapping_profile) dict"
  ss_digest :: "string \<Rightarrow> string"
  ss_dumps :: "(string \<times> json) list \<Rightarrow> string"
  ss_render :: "string \<Rightarrow> json \<Rightarrow> bool + json"

text \<open>
  A request with what its handling meets: \<open>sq_io\<close> tells which calls of the store's backend work (the
  clean-up and the write for the nonce, the same for the key, and the update).
\<close>

record submit_request =
  sq_blocked :: bool
  sq_limited :: bool
  sq_headers :: headers
  sq_body :: "string option"
  sq_new_id :: string
  sq_io :: "nat \<Rightarrow> bool"
  sq_queue :: "json \<Rightarrow> queue_reply"

record submit_response =
  sr_status :: int
  sr_error :: string
  sr_deduped :: bool
  sr_prompt_id :: "string option"

definition refused_with :: "int \<Rightarrow> string \<Rightarrow> submit_response" where
  "refused_with status error = \<lparr>sr_status = status, sr_error = error, sr_deduped = False, sr_prompt_id = None\<rparr>"

definition accepted_with :: "bool \<Rightarrow> string option \<Rightarrow> submit_response" where
  "accepted_with deduped prompt_id = \<lparr>sr_status = 200, sr_error = [], sr_deduped = deduped, sr_prompt_id = prompt_id\<rparr>"

definition prepare_submission :: "submit_site \<Rightarrow> submit_request \<Rightarrow> string \<Rightarrow> submit_response + job_request" where
  "prepare_submission x q raw =
    (case ss_loads x raw of
       None \<Rightarrow> Inl (refused_with 400 ''invalid_json'')
     | Some j \<Rightarrow> (case normalize_body j of
         None \<Rightarrow> Inl (refused_with 500 ''internal_error'')
       | Some d \<Rightarrow> (case get_effective_trace_id (sq_new_id q) (sq_headers q) d of
           None \<Rightarrow> Inl (refused_with 500 ''internal_error'')
         | Some trace_id \<Rightarrow>
            (case map_body (ss_mapping x) (ss_allowed x) (ss_profiles x) (sq_headers q) trace_id d of
               Inl (Mapping_refused _) \<Rightarrow> Inl (refused_with 400 ''mapping_error'')
             | Inl (Schema_refused _) \<Rightarrow> Inl (refused_with 400 ''validation_error'')
             | Inr m \<Rightarrow> (case request_from_dict m of
                 Inl (Value_error _) \<Rightarrow> Inl (refused_with 400 ''validation_error'')
               | Inl Type_fault \<Rightarrow> Inl (refused_with 500 ''internal_error'')
               | Inr r \<Rightarrow> Inr r)))))"

definition json_text :: "json \<Rightarrow> string option" where
  "json_text j = (case j of JStr s \<Rightarrow> Some s | _ \<Rightarrow> None)"

definition submission_key :: "submit_site \<Rightarrow> job_request \<Rightarrow> string" where
  "submission_key x r = generate_key (ss_digest x) (ss_dumps x) (json_text (jq_job_id r)) (ddel ''trace_id'' (to_normalized r))"

text \<open>The answer of the queue: the response, and the store with the prompt id of the key.\<close>

definition after_queue :: "bool \<Rightarrow> string \<Rightarrow> queue_reply \<Rightarrow> idem_store \<Rightarrow> submit_response \<times> idem_store" where
  "after_queue io key reply s = (case reply of
       Queued (Some (c # p)) \<Rightarrow> (case update_prompt_id io key (c # p) s of
           (Inl _, s1) \<Rightarrow> (refused_with 500 ''execution_failed'', s1)
         | (Inr _, s1) \<Rightarrow> (accepted_with False (Some (c # p)), s1))
     | Queued p \<Rightarrow> (accepted_with False p, s)
     | Budget_exceeded budget \<Rightarrow>
         (refused_with (if budget \<in> {''rendered_workflow_size'', ''workflow_serialization''} then 413 else 429) ''budget_exceeded'', s)
     | Queue_failed \<Rightarrow> (refused_with 500 ''execution_failed'', s))"

text \<open>The second component: the workflow that was handed to the queue.\<close>

definition submit_job :: "submit_site \<Rightarrow> time \<Rightarrow> submit_request \<Rightarrow> job_request \<Rightarrow> idem_store \<Rightarrow> submit_response \<times> json option \<times> idem_store" where
  "submit_job x now q r s =
    (let key = submission_key x r in
     case check_and_record (sq_io q 2) (sq_io q 3) now key None DEFAULT_TTL_SECONDS s of
       (Inl _, s1) \<Rightarrow> (refused_with 500 ''internal_error'', None, s1)
     | (Inr (is_duplicate, existing), s1) \<Rightarrow>
        if is_duplicate then (accepted_with True existing, None, s1)
        else (case json_text (jq_template_id r) of
            None \<Rightarrow> (refused_with 500 ''internal_error'', None, s1)
          | Some template_id \<Rightarrow> (case ss_render x template_id (jq_inputs r) of
              Inl value_error \<Rightarrow> (if value_error then refused_with 400 ''template_error'' else refused_with 500 ''internal_error'', None, s1)
            | Inr workflow \<Rightarrow> (let (a, s2) = after_queue (sq_io q 4) key (sq_queue q workflow) s1 in (a, Some workflow, s2)))))"

definition auth_status :: "string \<Rightarrow> int" where
  "auth_status error = (if error \<in> {''auth_not_configured'', ''bearer_not_configured'', ''hmac_not_configured''} then 403 else 401)"

definition webhook_submit :: "submit_site \<Rightarrow> time \<Rightarrow> submit_request \<Rightarrow> idem_store \<Rightarrow> submit_response \<times> json option \<times> idem_store" where
  "webhook_submit x now q s =
    (if sq_blocked q then (refused_with 403 ''blocked'', None, s)
     else if sq_limited q then (refused_with 429 ''rate_limit_exceeded'', None, s)
     else if \<not> starts_with ''application/json'' (case sq_headers q ''Content-Type'' of None \<Rightarrow> [] | Some v \<Rightarrow> v) then
       (refused_with 415 ''unsupported_media_type'', None, s)
     else case sq_body q of
       None \<Rightarrow> (refused_with 400 ''read_error'', None, s)
     | Some raw \<Rightarrow>
        if int (length raw) > MAX_BODY_SIZE then (refused_with 413 ''payload_too_large'', None, s)
        else (case require_auth (ss_env x) (ss_mac x) (sq_io q 0) (sq_io q 1) now (sq_headers q) raw s of
            (None, s1) \<Rightarrow> (refused_with 500 ''internal_error'', None, s1)
          | (Some (valid, error), s1) \<Rightarrow>
             if \<not> valid then (refused_with (auth_status error) error, None, s1)
             else (case prepare_submission x q raw of
                 Inl a \<Rightarrow> (a, None, s1)
               | Inr r \<Rightarrow> submit_job x now q r s1)))"

subsection \<open>The store during a submission\<close>

text \<open>A check of a key as a claim on the gate of the store.\<close>

lemma check_as_gate:
  "snd (check_and_record okc ok now key None ttl s) = snd (idem_gate (\<lambda>_. okc) (\<lambda>_. ok) ttl now key s)"
  "fst (check_and_record okc ok now key None ttl s) = Inr (False, p) \<Longrightarrow> fst (idem_gate (\<lambda>_. okc) (\<lambda>_. ok) ttl now key s)"
  by (simp_all add: idem_gate_def split_beta)

lemma require_auth_store:
  "\<exists>key. snd (require_auth env mac okc ok now h raw s) \<in> {s, snd (idem_gate (\<lambda>_. okc) (\<lambda>_. ok) 600 now key s)}"
proof -
  have r: "snd (check_replay env okc ok now h s) \<in> {s, snd (check_and_record okc ok now (''nonce:'' @ fst (get_header_alias_value h WEBHOOK_NONCE_HEADERS)) None 600 s)}"
    by (auto simp: check_replay_def Let_def split: prod.splits sum.splits option.splits)
  have v: "snd (verify_hmac env mac okc ok now h raw s) \<in> {s, snd (check_replay env okc ok now h s)}"
    by (auto simp: verify_hmac_def split: option.splits prod.splits)
  have "snd (require_auth env mac okc ok now h raw s) \<in> {s, snd (verify_hmac env mac okc ok now h raw s)}"
    by (auto simp: require_auth_def Let_def split: option.splits prod.splits)
  then show ?thesis using r v unfolding check_as_gate by (metis insert_iff singletonD)
qed

text \<open>Room for the nonce and the key of one more request.\<close>

definition submit_room :: "idem_store \<Rightarrow> bool" where
  "submit_room s \<longleftrightarrow> is_durable s \<noteq> None \<or> length (is_store s) < MAX_ITEMS"

lemma cleanup_size: "length (is_store (idem_cleanup okc now s)) \<le> length (is_store s)"
proof -
  have "length (memory_cleanup now d) \<le> length d" for d :: "(string, idem_entry) dict"
    by (simp add: memory_cleanup_def Let_def ddel_all_filter)
  then show ?thesis by (simp add: idem_cleanup_def Let_def split: option.split)
qed

lemma cleanup_durable: "is_durable (idem_cleanup okc now s) = None \<longleftrightarrow> is_durable s = None"
  by (simp add: idem_cleanup_def Let_def split: option.split)

lemma check_room:
  assumes "submit_room s"
  shows "idem_room (snd (check_and_record okc ok now key p ttl s))"
proof -
  let ?c = "idem_cleanup okc now s"
  have m: "length (is_store (snd (memory_path now key p ttl ?c))) \<le> length (is_store s) + 1"
    and d: "is_durable (snd (memory_path now key p ttl ?c)) = is_durable ?c"
    using memory_check_length [of now key ttl p "is_store ?c"] cleanup_size [of okc now s] by (simp_all add: memory_path_def split_beta)
  show ?thesis
    using assms m d cleanup_durable [of okc now s] cleanup_size [of okc now s]
    by (auto simp: submit_room_def idem_room_def check_and_record_def Let_def split: option.splits prod.splits)
qed

lemma submit_room_room: "submit_room s \<Longrightarrow> idem_room s"
  by (auto simp: submit_room_def idem_room_def)

text \<open>Writing the prompt id leaves the expiry of every entry.\<close>

lemma sql_update_keeps:
  "table_ok t \<Longrightarrow> table_ok (sql_update_prompt_id key p t)"
  "map_option ie_expires_at (sql_view (sql_update_prompt_id key p t) k) = map_option ie_expires_at (sql_view t k)"
  by (simp_all add: sql_update_prompt_id_def sql_view_update option.map_comp comp_def)

lemma live_by_expiry: "idem_live t s k \<longleftrightarrow> (\<exists>x. map_option ie_expires_at (idem_view s k) = Some x \<and> x > t)"
  by (auto simp: idem_live_def split: option.split)

lemma update_keeps:
  assumes "idem_inv s"
  shows "idem_inv (snd (update_prompt_id io key p s))"
    and "idem_live t (snd (update_prompt_id io key p s)) k = idem_live t s k"
proof -
  show "idem_inv (snd (update_prompt_id io key p s))"
    using assms by (auto simp: update_prompt_id_def Let_def idem_inv_def dict_simps sql_update_keeps split: option.split)
  have "map_option ie_expires_at (idem_view (snd (update_prompt_id io key p s)) k) = map_option ie_expires_at (idem_view s k)"
    using assms by (auto simp: update_prompt_id_def Let_def idem_inv_def idem_view_def dict_simps sql_update_keeps split: option.split)
  then show "idem_live t (snd (update_prompt_id io key p s)) k = idem_live t s k" by (simp only: live_by_expiry)
qed

lemma after_queue_store: "snd (after_queue io key reply s) \<in> {s} \<union> {snd (update_prompt_id io key p s) | p. True}"
  by (auto simp: after_queue_def split: queue_reply.splits option.splits list.splits prod.splits sum.splits) (metis snd_conv)+

lemma after_queue_keeps:
  assumes "idem_inv s"
  shows "idem_inv (snd (after_queue io key reply s))" and "idem_live t (snd (after_queue io key reply s)) k = idem_live t s k"
  using after_queue_store [of io key reply s] update_keeps [OF assms] assms by auto

subsection \<open>The handler as a gate\<close>

definition submit_gate :: "submit_site \<Rightarrow> time \<Rightarrow> submit_request \<Rightarrow> idem_store \<Rightarrow> bool \<times> idem_store" where
  "submit_gate x now q s = (let (a, w, s1) = webhook_submit x now q s in (w \<noteq> None, s1))"

definition request_key :: "submit_site \<Rightarrow> submit_request \<Rightarrow> string option" where
  "request_key x q = (case sq_body q of None \<Rightarrow> None | Some raw \<Rightarrow>
     (case prepare_submission x q raw of Inl _ \<Rightarrow> None | Inr r \<Rightarrow> Some (submission_key x r)))"

definition key_live :: "time \<Rightarrow> idem_store \<Rightarrow> string option \<Rightarrow> bool" where
  "key_live t s k \<longleftrightarrow> (case k of None \<Rightarrow> False | Some key \<Rightarrow> idem_live t s key)"

abbreviation key_gate :: "submit_request \<Rightarrow> time \<Rightarrow> string \<Rightarrow> idem_store \<Rightarrow> bool \<times> idem_store" where
  "key_gate q \<equiv> idem_gate (\<lambda>_. sq_io q 2) (\<lambda>_. sq_io q 3) DEFAULT_TTL_SECONDS"

lemma submit_job_shape:
  fixes x now q r s
  defines "key \<equiv> submission_key x r"
  shows "(\<exists>w. fst (snd (submit_job x now q r s)) = Some w) \<longrightarrow> fst (key_gate q now key s)"
    and "snd (snd (submit_job x now q r s)) \<in> {snd (key_gate q now key s)} \<union> {snd (after_queue (sq_io q 4) key reply (snd (key_gate q now key s))) | reply. True}"
proof -
  obtain res s1 where c: "check_and_record (sq_io q 2) (sq_io q 3) now key None DEFAULT_TTL_SECONDS s = (res, s1)" by fastforce
  have s1: "snd (key_gate q now key s) = s1" using check_as_gate(1) [of "sq_io q 2" "sq_io q 3" now key DEFAULT_TTL_SECONDS s] c by simp
  have g: "res = Inr (False, p) \<Longrightarrow> fst (key_gate q now key s)" for p
    using check_as_gate(2) [of "sq_io q 2" "sq_io q 3" now key DEFAULT_TTL_SECONDS s p] c by simp
  show "(\<exists>w. fst (snd (submit_job x now q r s)) = Some w) \<longrightarrow> fst (key_gate q now key s)"
    using g by (auto simp: submit_job_def Let_def c simp flip: key_def split: sum.splits)
  show "snd (snd (submit_job x now q r s)) \<in> {snd (key_gate q now key s)} \<union> {snd (after_queue (sq_io q 4) key reply (snd (key_gate q now key s))) | reply. True}"
    unfolding s1 by (auto simp: submit_job_def Let_def c simp flip: key_def split: sum.splits option.splits prod.splits) (metis snd_conv)+
qed

text \<open>Either nothing is submitted, or the request was authenticated and prepared.\<close>

lemma webhook_submit_shape:
  "\<exists>s1 key0. s1 \<in> {s, snd (idem_gate (\<lambda>_. sq_io q 0) (\<lambda>_. sq_io q 1) 600 now key0 s)} \<and>
    (fst (snd (webhook_submit x now q s)) = None \<and> snd (snd (webhook_submit x now q s)) = s1 \<or>
     (\<exists>r. request_key x q = Some (submission_key x r) \<and> webhook_submit x now q s = submit_job x now q r s1))"
proof (cases "sq_body q")
  case None
  then show ?thesis by (auto simp: webhook_submit_def)
next
  case (Some raw)
  obtain a s1 where au: "require_auth (ss_env x) (ss_mac x) (sq_io q 0) (sq_io q 1) now (sq_headers q) raw s = (a, s1)" by fastforce
  obtain key0 where s1: "s1 \<in> {s, snd (idem_gate (\<lambda>_. sq_io q 0) (\<lambda>_. sq_io q 1) 600 now key0 s)}"
    using require_auth_store [of "ss_env x" "ss_mac x" "sq_io q 0" "sq_io q 1" now "sq_headers q" raw s] au by (metis snd_conv)
  have k: "prepare_submission x q raw = Inr r \<Longrightarrow> request_key x q = Some (submission_key x r)" for r by (simp add: request_key_def Some)
  let ?w = "webhook_submit x now q s"
  have "fst (snd ?w) = None \<and> snd (snd ?w) \<in> {s, s1} \<or> (\<exists>r. prepare_submission x q raw = Inr r \<and> ?w = submit_job x now q r s1)"
    by (auto simp: webhook_submit_def Some au [unfolded One_nat_def] split: option.splits sum.splits prod.splits)
  then show ?thesis using s1 k by blast
qed

lemma gate_step_keeps:
  assumes "idem_inv s" and "idem_room s" and "now \<le> till" and "s1 \<in> {s, snd (idem_gate okc ok ttl now key0 s)}"
    and "idem_live till s k"
  shows "idem_live till s1 k"
  using assms idem_gate_keep [OF assms(1-3)] by blast

lemma gate_step_room:
  "submit_room s \<Longrightarrow> s1 \<in> {s, snd (idem_gate (\<lambda>_. okc) (\<lambda>_. ok) ttl now key0 s)} \<Longrightarrow> idem_room s1"
  using check_room [of s okc ok now key0 None ttl] submit_room_room [of s] by (auto simp: check_as_gate)

lemma submit_job_inv: "idem_inv s \<Longrightarrow> idem_inv (snd (snd (submit_job x now q r s)))"
  using submit_job_shape(2) [of x now q r s] after_queue_keeps(1) [OF idem_gate_inv] idem_gate_inv [of s] by fastforce

lemma submit_job_keeps:
  assumes "idem_inv s" and "idem_room s" and "now \<le> till"
    and l: "idem_live till s k \<or> (\<exists>w. fst (snd (submit_job x now q r s)) = Some w) \<and> k = submission_key x r \<and> till < now + of_int DEFAULT_TTL_SECONDS"
  shows "idem_live till (snd (snd (submit_job x now q r s))) k"
proof -
  let ?g = "key_gate q now (submission_key x r) s"
  have inv: "idem_inv (snd ?g)" using idem_gate_inv [OF assms(1)] .
  have "idem_live till (snd ?g) k"
    using submit_job_shape(1) [of x now q r s] l by (intro idem_gate_keep [OF assms(1-3)]) auto
  then show ?thesis
    using submit_job_shape(2) [of x now q r s] after_queue_keeps(2) [OF inv] by auto
qed

lemma submit_job_reject:
  assumes "idem_inv s" and "idem_room s" and "idem_live now s (submission_key x r)"
  shows "fst (snd (submit_job x now q r s)) = None"
  using submit_job_shape(1) [of x now q r s] idem_gate_reject [OF assms] by auto

interpretation submissions: once_gate "submit_gate x" "\<lambda>_ q. request_key x q" key_live idem_inv submit_room "of_int DEFAULT_TTL_SECONDS"
proof unfold_locales
  fix s t q
  assume inv: "idem_inv s"
  obtain s1 key0 where s1: "s1 \<in> {s, snd (idem_gate (\<lambda>_. sq_io q 0) (\<lambda>_. sq_io q 1) 600 t key0 s)}"
    and w0: "fst (snd (webhook_submit x t q s)) = None \<and> snd (snd (webhook_submit x t q s)) = s1 \<or>
     (\<exists>r. request_key x q = Some (submission_key x r) \<and> webhook_submit x t q s = submit_job x t q r s1)"
    using webhook_submit_shape [of s q t x] by blast
  have w: "submit_gate x t q s = (False, s1) \<or>
     (\<exists>r. request_key x q = Some (submission_key x r)
       \<and> submit_gate x t q s = ((\<exists>w. fst (snd (submit_job x t q r s1)) = Some w), snd (snd (submit_job x t q r s1))))"
    using w0 by (elim disjE exE) (simp add: submit_gate_def split_beta, auto simp: submit_gate_def split_beta)
  have inv1: "idem_inv s1" using s1 inv idem_gate_inv by blast
  show "idem_inv (snd (submit_gate x t q s))" using w inv1 submit_job_inv [OF inv1] by auto
  assume room: "submit_room s"
  note room1 = gate_step_room [OF room s1] and keep1 = gate_step_keeps [OF inv submit_room_room [OF room] _ s1]
  show "\<not> fst (submit_gate x t q s)" if "key_live t s (request_key x q)"
    using w submit_job_reject [OF inv1 room1] keep1 that by (auto simp: key_live_def)
  show "key_live t' (snd (submit_gate x t q s)) k" if "key_live t' s k" "t \<le> t'" for t' k
    using w submit_job_keeps [OF inv1 room1] keep1 that by (auto simp: key_live_def split: option.splits)
  show "key_live t' (snd (submit_gate x t q s)) (request_key x q)" if "fst (submit_gate x t q s)" "t \<le> t'" "t' < t + of_int DEFAULT_TTL_SECONDS" for t'
    using w submit_job_keeps [OF inv1 room1, of t t'] that by (auto simp: key_live_def)
qed

subsection \<open>Properties\<close>

text \<open>
  C14: Of all the submission requests with the same key (the job id, or the digest of the request) that
  arrive within an hour, in any time-ordered sequence of requests, at most one hands a workflow to the
  queue, whatever the queue, the template service and the backend of the store answer; the nonces of
  the authentication, which live in the same store, do not disturb this. The store is strict or in
  memory, and has room at every request: a durable backend, or fewer than 10000 keys in memory (a full
  one evicts keys that are still alive).
\<close>

theorem job_submitted_once:
  assumes "idem_inv s" and "all_states submit_room (claim_run (submit_gate x) qs s)"
    and "sorted (map fst qs)" and "\<forall>(t, q) \<in> set qs. a \<le> t \<and> t < a + of_int DEFAULT_TTL_SECONDS"
  shows "accepted (\<lambda>_ q. request_key x q) k qs (claim_run (submit_gate x) qs s) \<le> 1"
  using assms by (rule submissions.at_most_once)

definition demo_site :: "bool \<Rightarrow> submit_site" where
  "demo_site renders = \<lparr>ss_env = [''OPENCLAW_WEBHOOK_AUTH_MODE'' \<mapsto> ''bearer'', ''OPENCLAW_WEBHOOK_BEARER_TOKEN'' \<mapsto> ''tok''],
     ss_mac = (\<lambda>_ _. []), ss_loads = (\<lambda>_. Some (JObj demo_job)), ss_mapping = demo_mapping_lib, ss_allowed = [], ss_profiles = [],
     ss_digest = (\<lambda>_. ''d''), ss_dumps = (\<lambda>_. []), ss_render = (\<lambda>t i. if renders then Inr (JStr t) else Inl True)\<rparr>"

definition demo_submission :: submit_request where
  "demo_submission = \<lparr>sq_blocked = False, sq_limited = False,
     sq_headers = [''Content-Type'' \<mapsto> ''application/json'', ''Authorization'' \<mapsto> ''Bearer tok''], sq_body = Some ''{}'', sq_new_id = ''id'',
     sq_io = (\<lambda>_. True), sq_queue = (\<lambda>_. Queued (Some ''p1''))\<rparr>"

theorem job_submitted_once_witness:
  "accepted (\<lambda>_ q. request_key (demo_site True) q) (Some ''hash:d'') [(1, demo_submission), (2, demo_submission)]
     (claim_run (submit_gate (demo_site True)) [(1, demo_submission), (2, demo_submission)] (fresh_store None False)) \<le> 1
   \<and> fst (webhook_submit (demo_site True) 1 demo_submission (fresh_store None False)) = accepted_with False (Some ''p1'')"
proof (rule conjI)
  show "accepted (\<lambda>_ q. request_key (demo_site True) q) (Some ''hash:d'') [(1, demo_submission), (2, demo_submission)]
     (claim_run (submit_gate (demo_site True)) [(1, demo_submission), (2, demo_submission)] (fresh_store None False)) \<le> 1"
    by (rule job_submitted_once [where a = 0]) (simp add: fresh_store_def idem_inv_def, code_simp, simp, simp add: DEFAULT_TTL_SECONDS_def)
  show "fst (webhook_submit (demo_site True) 1 demo_submission (fresh_store None False)) = accepted_with False (Some ''p1'')" by code_simp
qed

text \<open>
  A workflow is handed to the queue only for a request that the guard and the limiter let through,
  that is authenticated and at most 64 KiB long, and whose body is a valid job request; and it is what
  the template service made of its template and inputs.
\<close>

theorem submission_sound:
  assumes "webhook_submit x now q s = (a, Some w, s1)"
  shows "\<not> sq_blocked q \<and> \<not> sq_limited q \<and> (\<exists>raw r template. sq_body q = Some raw \<and> int (length raw) \<le> MAX_BODY_SIZE
    \<and> authenticated (fst (require_auth (ss_env x) (ss_mac x) (sq_io q 0) (sq_io q 1) now (sq_headers q) raw s))
    \<and> prepare_submission x q raw = Inr r \<and> jq_template_id r = JStr template \<and> ss_render x template (jq_inputs r) = Inr w)"
proof -
  obtain raw where raw: "sq_body q = Some raw" "\<not> sq_blocked q" "\<not> sq_limited q" "int (length raw) \<le> MAX_BODY_SIZE"
    using assms by (auto simp: webhook_submit_def split: option.splits if_splits)
  obtain au s0 where au: "require_auth (ss_env x) (ss_mac x) (sq_io q 0) (sq_io q 1) now (sq_headers q) raw s = (au, s0)" by fastforce
  have v: "authenticated au" and p: "\<exists>r. prepare_submission x q raw = Inr r \<and> submit_job x now q r s0 = (a, Some w, s1)"
    using assms raw by (auto simp: webhook_submit_def au [unfolded One_nat_def] authenticated_def split: option.splits if_splits sum.splits)
  then obtain r where r: "prepare_submission x q raw = Inr r" "submit_job x now q r s0 = (a, Some w, s1)" by blast
  obtain t where "json_text (jq_template_id r) = Some t" "ss_render x t (jq_inputs r) = Inr w"
    using r(2) by (auto simp: submit_job_def Let_def split: sum.splits if_splits option.splits prod.splits)
  then show ?thesis using raw v r(1) au by (auto simp: json_text_def split: json.splits)
qed

theorem submission_sound_witness:
  "prepare_submission (demo_site True) demo_submission ''{}'' = Inr (demo_job_request\<lparr>jq_trace_id := JStr ''id''\<rparr>) \<and> \<not> sq_blocked demo_submission"
proof -
  obtain a s1 where "webhook_submit (demo_site True) 1 demo_submission (fresh_store None False) = (a, Some (JStr ''t''), s1)"
    by (rule that [of "accepted_with False (Some ''p1'')" "snd (snd (webhook_submit (demo_site True) 1 demo_submission (fresh_store None False)))"]) code_simp
  then have "\<not> sq_blocked demo_submission" using submission_sound by blast
  moreover have "prepare_submission (demo_site True) demo_submission ''{}'' = Inr (demo_job_request\<lparr>jq_trace_id := JStr ''id''\<rparr>)" by code_simp
  ultimately show ?thesis by blast
qed

text \<open>
  The key is recorded before the template is rendered: when that fails, the client's retry with the
  template repaired is answered as a duplicate of a job that never ran.
\<close>

theorem failed_render_blocks_retry:
  "(let (a1, w1, s1) = webhook_submit (demo_site False) 1 demo_submission (fresh_store None False);
        (a2, w2, s2) = webhook_submit (demo_site True) 2 demo_submission s1
    in (a1, w1, a2, w2)) = (refused_with 400 ''template_error'', None, accepted_with True None, None)"
  by code_simp

text \<open>A request with null for its inputs passes the schema gate and is answered as an internal error.\<close>

theorem null_inputs_internal_error:
  "validate_canonical_schema demo_mapping_lib (dput ''inputs'' JNull demo_job) = (True, [])
   \<and> request_from_dict (dput ''inputs'' JNull demo_job) = Inl Type_fault"
  by code_simp

end
