(* ===== verification/Tool_Runner.thy ===== *)
theory Tool_Runner
  imports Safe_Path Env_Aliases Json
begin

text \<open>
  \<open>services/tool_runner.py\<close>: running allowlisted command line tools with arguments of a request. The
  table of tools is given with fields of the declared types; \<open>str\<close>, regular expressions, \<open>realpath\<close>,
  the test for an executable file, redaction and the process itself are parameters. The platform is POSIX.
\<close>

subsection \<open>Templates: \<open>str.format\<close>\<close>

text \<open>A replacement field: its name, conversion and format specification.\<close>

record format_field =
  ff_name :: string
  ff_conversion :: "char option"
  ff_spec :: string

datatype piece = Piece (pc_literal: string) (pc_field: "format_field option")

text \<open>The name of a field and the character that ends it; brackets are skipped.\<close>

fun scan_name :: "bool \<Rightarrow> string \<Rightarrow> string \<Rightarrow> (string \<times> char \<times> string) option" where
  "scan_name bracket acc [] = None"
| "scan_name bracket acc (c # cs) =
    (if bracket then scan_name (c \<noteq> CHR '']'') (acc @ [c]) cs
     else if c = CHR ''{'' then None
     else if c = CHR ''['' then scan_name True (acc @ [c]) cs
     else if c \<in> {CHR ''}'', CHR '':'', CHR ''!''} then Some (acc, c, cs)
     else scan_name False (acc @ [c]) cs)"

text \<open>The specification up to the closing brace at depth \<open>n\<close>.\<close>

fun scan_spec :: "nat \<Rightarrow> string \<Rightarrow> string \<Rightarrow> (string \<times> string) option" where
  "scan_spec n acc [] = None"
| "scan_spec n acc (c # cs) =
    (if c = CHR ''{'' then scan_spec (Suc n) (acc @ [c]) cs
     else if c = CHR ''}'' then (if n = 0 then Some (acc, cs) else scan_spec (n - 1) (acc @ [c]) cs)
     else scan_spec n (acc @ [c]) cs)"

definition scan_field :: "string \<Rightarrow> (format_field \<times> string) option" where
  "scan_field s = Option.bind (scan_name False [] s) (\<lambda>(name, c, rest).
     let with_spec = (\<lambda>conv t. map_option (\<lambda>(spec, u). (\<lparr>ff_name = name, ff_conversion = conv, ff_spec = spec\<rparr>, u)) (scan_spec 0 [] t)) in
     if c = CHR ''}'' then Some (\<lparr>ff_name = name, ff_conversion = None, ff_spec = []\<rparr>, rest)
     else if c = CHR '':'' then with_spec None rest
     else (case rest of
         conv # d # t \<Rightarrow> if d = CHR ''}'' then Some (\<lparr>ff_name = name, ff_conversion = Some conv, ff_spec = []\<rparr>, t)
           else if d = CHR '':'' then with_spec (Some conv) t else None
       | _ \<Rightarrow> None))"

lemma scan_name_shorter: "scan_name b acc s = Some (n, c, r) \<Longrightarrow> length r < length s"
  by (induction b acc s rule: scan_name.induct) (auto split: if_splits)

lemma scan_spec_shorter: "scan_spec n acc s = Some (t, r) \<Longrightarrow> length r < length s"
  by (induction n acc s rule: scan_spec.induct) (auto split: if_splits)

lemma scan_field_shorter: "scan_field s = Some (f, r) \<Longrightarrow> length r < length s"
  by (auto simp: scan_field_def Let_def bind_eq_Some_conv split: if_splits list.splits dest!: scan_name_shorter scan_spec_shorter)

text \<open>\<open>Formatter.parse\<close>: literals with the fields after them; \<open>None\<close> is \<open>ValueError\<close>.\<close>

function parse_format :: "string \<Rightarrow> string \<Rightarrow> piece list option" where
  "parse_format lit [] = Some (if lit = [] then [] else [Piece lit None])"
| "parse_format lit (c # cs) =
    (if c = CHR ''}'' then
       (case cs of d # ds \<Rightarrow> if d = CHR ''}'' then map_option (\<lambda>ps. Piece (lit @ ''}'') None # ps) (parse_format [] ds) else None
        | [] \<Rightarrow> None)
     else if c = CHR ''{'' then
       (case cs of
          [] \<Rightarrow> None
        | d # ds \<Rightarrow> if d = CHR ''{'' then map_option (\<lambda>ps. Piece (lit @ ''{'') None # ps) (parse_format [] ds)
            else (case scan_field cs of None \<Rightarrow> None
              | Some (f, rest) \<Rightarrow> map_option (\<lambda>ps. Piece lit (Some f) # ps) (parse_format [] rest)))
     else parse_format (lit @ [c]) cs)"
  by pat_completeness auto
termination
  by (relation "measure (length \<circ> snd)") (auto dest: scan_field_shorter)

type_synonym tool_args = "(string \<times> json) list"

text \<open>
  The parameters: \<open>realpath\<close>; \<open>str\<close>; \<open>re.fullmatch\<close> (\<open>None\<close>: a bad pattern); the value of a field that
  is not just a name; the test for an executable file; the length of a text in bytes; redaction.
\<close>

record tool_lib =
  tl_realpath :: "string \<Rightarrow> string"
  tl_text :: "json \<Rightarrow> string"
  tl_match :: "string \<Rightarrow> string \<Rightarrow> bool option"
  tl_render :: "format_field \<Rightarrow> tool_args \<Rightarrow> string option"
  tl_runnable :: "string \<Rightarrow> bool"
  tl_bytes :: "string \<Rightarrow> nat"
  tl_redact :: "string \<Rightarrow> string"

definition plain_field :: "format_field \<Rightarrow> bool" where
  "plain_field f \<longleftrightarrow> ff_conversion f = None \<and> ff_spec f = [] \<and> ff_name f \<noteq> [] \<and> \<not> list_all is_digit (ff_name f)
     \<and> \<not> has_char CHR ''.'' (ff_name f) \<and> \<not> has_char CHR ''['' (ff_name f)"

definition render_field :: "tool_lib \<Rightarrow> tool_args \<Rightarrow> format_field \<Rightarrow> string option" where
  "render_field lib args f = (if plain_field f then map_option (tl_text lib) (dget args (ff_name f)) else tl_render lib f args)"

fun render_pieces :: "tool_lib \<Rightarrow> tool_args \<Rightarrow> piece list \<Rightarrow> string option" where
  "render_pieces lib args [] = Some []"
| "render_pieces lib args (Piece lit f # ps) =
    Option.bind (case f of None \<Rightarrow> Some [] | Some g \<Rightarrow> render_field lib args g) (\<lambda>v.
      map_option (\<lambda>rest. lit @ v @ rest) (render_pieces lib args ps))"

definition format_element :: "tool_lib \<Rightarrow> tool_args \<Rightarrow> string \<Rightarrow> string option" where
  "format_element lib args element = Option.bind (parse_format [] element) (render_pieces lib args)"

text \<open>\<open>None\<close>: the element cannot be parsed; else the field that gives the first character.\<close>

definition leading_placeholder :: "string \<Rightarrow> format_field option option" where
  "leading_placeholder element = map_option (\<lambda>ps. case ps of [] \<Rightarrow> None
     | Piece lit f # _ \<Rightarrow> if lit \<noteq> [] then None else f) (parse_format [] element)"

subsection \<open>Tools\<close>

definition DEFAULT_TOOL_TIMEOUT_SEC :: int where "DEFAULT_TOOL_TIMEOUT_SEC = 30"
definition DEFAULT_TOOL_MAX_OUTPUT_BYTES :: int where "DEFAULT_TOOL_MAX_OUTPUT_BYTES = 64 * 1024"

record sandbox_profile =
  sb_network :: bool
  sb_allow_fs_read :: "string list"
  sb_allow_fs_write :: "string list"
  sb_allow_network_hosts :: "string list"

definition strict_profile :: sandbox_profile where
  "strict_profile = \<lparr>sb_network = False, sb_allow_fs_read = [], sb_allow_fs_write = [], sb_allow_network_hosts = []\<rparr>"

record tool_def =
  to_name :: string
  to_command_template :: "string list"
  to_allowed_args :: "(string, string) dict"
  to_timeout_sec :: int
  to_max_output_bytes :: int
  to_description :: string
  to_sandbox :: sandbox_profile
  to_sandbox_declared :: bool

datatype tool_error = Tool_not_allowed | Sandbox_runtime_unavailable | Sandbox_policy_missing | Network_hosts_missing
  | Workspace_violation "string list" | Interpreter_missing | Tool_timeout | Process_failed int | Execution_error

fun tool_error_code :: "tool_error \<Rightarrow> string" where
  "tool_error_code Tool_not_allowed = ''tool_not_allowed''"
| "tool_error_code Sandbox_runtime_unavailable = ''sandbox_runtime_unavailable''"
| "tool_error_code Sandbox_policy_missing = ''sandbox_policy_missing''"
| "tool_error_code Network_hosts_missing = ''network_hosts_missing''"
| "tool_error_code (Workspace_violation _) = ''workspace_violation''"
| "tool_error_code Interpreter_missing = ''interpreter_missing''"
| "tool_error_code Tool_timeout = ''timeout''"
| "tool_error_code (Process_failed _) = ''process_failed''"
| "tool_error_code Execution_error = ''execution_error''"

record tool_result =
  tr_tool_name :: string
  tr_success :: bool
  tr_output :: string
  tr_error :: "tool_error option"
  tr_exit_code :: "int option"

definition diagnostic_failure_result :: "string \<Rightarrow> tool_error \<Rightarrow> tool_result" where
  "diagnostic_failure_result tool_name e = \<lparr>tr_tool_name = tool_name, tr_success = False, tr_output = [], tr_error = Some e, tr_exit_code = None\<rparr>"

definition truthy_text :: "string \<Rightarrow> bool" where
  "truthy_text s \<longleftrightarrow> s \<in> {''1'', ''true'', ''yes'', ''on''}"

definition is_tools_enabled :: "env \<Rightarrow> bool" where
  "is_tools_enabled env = truthy_text (py_lower (case env ''OPENCLAW_ENABLE_EXTERNAL_TOOLS'' of None \<Rightarrow> ''false'' | Some v \<Rightarrow> v))"

definition sandbox_runtime_available :: "env \<Rightarrow> bool" where
  "sandbox_runtime_available env = truthy_text (py_lower (py_strip (case env ''OPENCLAW_TOOL_SANDBOX_RUNTIME_AVAILABLE'' of None \<Rightarrow> ''1'' | Some v \<Rightarrow> v)))"

text \<open>Whether the command of a definition is unsafe.\<close>

definition command_template_problem :: "string list \<Rightarrow> bool" where
  "command_template_problem command = (case command of
       [] \<Rightarrow> True
     | executable # _ \<Rightarrow> py_strip executable = [] \<or> has_char CHR ''{'' executable \<or> has_char CHR ''}'' executable
         \<or> (\<not> starts_with ''/'' executable \<and> has_char CHR ''/'' executable))"

definition is_within :: "tool_lib \<Rightarrow> string \<Rightarrow> string \<Rightarrow> bool" where
  "is_within lib path prefix \<longleftrightarrow> commonpath (tl_realpath lib path) (tl_realpath lib prefix) = Some (tl_realpath lib prefix)"

definition validate_fs_access :: "tool_lib \<Rightarrow> sandbox_profile \<Rightarrow> string list \<Rightarrow> bool \<Rightarrow> string list" where
  "validate_fs_access lib sb paths write =
    (let allowlist = (if write then sb_allow_fs_write sb else sb_allow_fs_read sb)
     in if allowlist = [] \<and> paths = [] then []
        else filter (\<lambda>p. \<not> list_ex (is_within lib p) allowlist) paths)"

text \<open>\<open>None\<close>: all arguments are valid.\<close>

definition validate_args :: "tool_lib \<Rightarrow> tool_def \<Rightarrow> tool_args \<Rightarrow> tool_error option" where
  "validate_args lib tool args =
    (if \<not> set (dkeys args) \<subseteq> set (dkeys (to_allowed_args tool)) then Some Execution_error
     else if list_all (\<lambda>(k, p). case dget args k of None \<Rightarrow> True | Some v \<Rightarrow> tl_match lib p (tl_text lib v) = Some True) (to_allowed_args tool)
          then None else Some Execution_error)"

definition control_character :: "char \<Rightarrow> bool" where
  "control_character c \<longleftrightarrow> (of_char c :: nat) < 32 \<or> (of_char c :: nat) = 127"

text \<open>An element of the command that starts with a placeholder does not become an option.\<close>

definition option_injected :: "string \<times> string \<Rightarrow> bool" where
  "option_injected eo = (case eo of (element, out) \<Rightarrow> (case leading_placeholder element of
       Some (Some _) \<Rightarrow> starts_with ''-'' out | _ \<Rightarrow> False))"

definition check_argument_values :: "tool_lib \<Rightarrow> string list \<Rightarrow> tool_args \<Rightarrow> string list \<Rightarrow> tool_error option" where
  "check_argument_values lib template args rendered =
    (if list_ex (\<lambda>(k, v). list_ex control_character (tl_text lib v)) args then Some Execution_error
     else if list_ex option_injected (zip (tl template) (tl rendered)) then Some Execution_error else None)"

definition upper_char :: "char \<Rightarrow> char" where
  "upper_char c = (if is_lower c then char_of ((of_char c :: nat) - 32) else c)"

definition sensitive_name :: "string \<Rightarrow> bool" where
  "sensitive_name key \<longleftrightarrow> list_ex (\<lambda>p. has_sub p (map upper_char key)) [''TOKEN'', ''SECRET'', ''KEY'', ''PASSWORD'']"

definition PROXY_NAMES :: "string list" where
  "PROXY_NAMES = [''http_proxy'', ''https_proxy'', ''HTTP_PROXY'', ''HTTPS_PROXY'', ''ALL_PROXY'', ''all_proxy'']"

definition sanitize_env :: "env \<Rightarrow> bool \<Rightarrow> string \<Rightarrow> env" where
  "sanitize_env env network_enabled workspace = (\<lambda>k.
     if k \<in> {''TMP'', ''TEMP'', ''TMPDIR''} then Some workspace
     else if sensitive_name k \<or> (\<not> network_enabled \<and> k \<in> set PROXY_NAMES) then None else env k)"

text \<open>The workspace: the setting made absolute, or a directory of the state directory.\<close>

definition sandbox_workspace :: "env \<Rightarrow> string \<Rightarrow> string \<Rightarrow> string" where
  "sandbox_workspace env cwd state_dir =
    (let custom = py_strip (case env_value env ''OPENCLAW_TOOL_SANDBOX_DIR'' (Some []) of None \<Rightarrow> [] | Some v \<Rightarrow> v)
     in if custom \<noteq> [] then normpath (path_join cwd custom) else path_join state_dir ''tool_sandbox'')"

definition resolve_executable :: "tool_lib \<Rightarrow> string \<Rightarrow> string \<Rightarrow> string option" where
  "resolve_executable lib name search_path =
    (let candidates = (if starts_with ''/'' name then [name]
        else map (\<lambda>d. path_join d name) (filter (\<lambda>d. d \<noteq> [] \<and> starts_with ''/'' d) (split_on CHR '':'' search_path)))
     in find (tl_runnable lib) candidates)"

text \<open>What the process did; \<open>No_file\<close> is \<open>FileNotFoundError\<close>, \<open>Raised\<close> any other exception.\<close>

datatype process_outcome = Completed int string string | Timed_out | No_file | Raised

definition process_result :: "tool_lib \<Rightarrow> tool_def \<Rightarrow> string \<Rightarrow> process_outcome \<Rightarrow> tool_result" where
  "process_result lib tool tool_name outcome = (case outcome of
       Completed code stdout stderr \<Rightarrow>
         (let raw = stdout @ stderr;
              cut = (if int (tl_bytes lib raw) > to_max_output_bytes tool then py_take (to_max_output_bytes tool) raw @ ''... [TRUNCATED]'' else raw)
          in \<lparr>tr_tool_name = tool_name, tr_success = (code = 0), tr_output = tl_redact lib cut,
              tr_error = (if code = 0 then None else Some (Process_failed code)), tr_exit_code = Some code\<rparr>)
     | Timed_out \<Rightarrow> diagnostic_failure_result tool_name Tool_timeout
     | No_file \<Rightarrow> diagnostic_failure_result tool_name Interpreter_missing
     | Raised \<Rightarrow> diagnostic_failure_result tool_name Execution_error)"

text \<open>The surroundings of a call; \<open>tx_run\<close> is the process that a command with its environment and directory starts.\<close>

type_synonym command_run = "string list \<times> env \<times> string"

record tool_context =
  tx_env :: env
  tx_hardened :: bool
  tx_cwd :: string
  tx_state_dir :: string
  tx_run :: "command_run \<Rightarrow> process_outcome"

definition hardened_refusal :: "tool_context \<Rightarrow> tool_def \<Rightarrow> tool_error option" where
  "hardened_refusal x tool =
    (if \<not> tx_hardened x then None
     else if \<not> sandbox_runtime_available (tx_env x) then Some Sandbox_runtime_unavailable
     else if \<not> to_sandbox_declared tool then Some Sandbox_policy_missing
     else if sb_network (to_sandbox tool) \<and> sb_allow_network_hosts (to_sandbox tool) = [] then Some Network_hosts_missing
     else None)"

text \<open>The command: every element formatted, or \<open>None\<close>.\<close>

fun build_command :: "tool_lib \<Rightarrow> tool_args \<Rightarrow> string list \<Rightarrow> string list option" where
  "build_command lib args [] = Some []"
| "build_command lib args (e # es) = Option.bind (format_element lib args e) (\<lambda>c. map_option (\<lambda>cs. c # cs) (build_command lib args es))"

definition fs_violations :: "tool_lib \<Rightarrow> tool_def \<Rightarrow> string \<Rightarrow> tool_args \<Rightarrow> string list" where
  "fs_violations lib tool cwd args =
    (let combined = sb_allow_fs_read (to_sandbox tool) @ sb_allow_fs_write (to_sandbox tool)
     in if combined = [] then []
        else sort (dkeys (filter (\<lambda>(k, v). \<not> list_ex (is_within lib (path_join cwd (tl_text lib v))) combined) args)))"

text \<open>The command that a call may start, with its environment and directory.\<close>

definition prepare_command :: "tool_lib \<Rightarrow> tool_context \<Rightarrow> tool_def \<Rightarrow> tool_args \<Rightarrow> tool_error + command_run" where
  "prepare_command lib x tool args =
    (if command_template_problem (to_command_template tool) then Inl Execution_error
     else case validate_args lib tool args of Some e \<Rightarrow> Inl e | None \<Rightarrow>
       (case build_command lib args (to_command_template tool) of None \<Rightarrow> Inl Execution_error | Some cmd \<Rightarrow>
         (case check_argument_values lib (to_command_template tool) args cmd of Some e \<Rightarrow> Inl e | None \<Rightarrow>
           (let workspace = sandbox_workspace (tx_env x) (tx_cwd x) (tx_state_dir x);
                clean_env = sanitize_env (tx_env x) (sb_network (to_sandbox tool)) workspace;
                violations = fs_violations lib tool workspace args
            in if violations \<noteq> [] then Inl (Workspace_violation violations)
               else (case resolve_executable lib (hd cmd) (case clean_env ''PATH'' of None \<Rightarrow> [] | Some p \<Rightarrow> p) of
                   None \<Rightarrow> Inl Interpreter_missing
                 | Some executable \<Rightarrow> Inr (executable # tl cmd, clean_env, workspace))))))"

text \<open>The result, and the command that was started.\<close>

definition execute_tool :: "tool_lib \<Rightarrow> tool_context \<Rightarrow> (string, tool_def) dict \<Rightarrow> string \<Rightarrow> tool_args \<Rightarrow> tool_result \<times> command_run option" where
  "execute_tool lib x tools tool_name args =
    (case dget tools tool_name of
       None \<Rightarrow> (diagnostic_failure_result tool_name Tool_not_allowed, None)
     | Some tool \<Rightarrow> (case hardened_refusal x tool of
         Some e \<Rightarrow> (diagnostic_failure_result tool_name e, None)
       | None \<Rightarrow> (case prepare_command lib x tool args of
           Inl e \<Rightarrow> (diagnostic_failure_result tool_name e, None)
         | Inr c \<Rightarrow> (process_result lib tool tool_name (tx_run x c), Some c))))"

text \<open>The posture of the loaded definitions: the tools with an issue, or \<open>None\<close> where the runtime is missing.\<close>

definition evaluate_sandbox_posture :: "tool_context \<Rightarrow> (string, tool_def) dict \<Rightarrow> bool \<times> tool_error list" where
  "evaluate_sandbox_posture x tools =
    (if \<not> sandbox_runtime_available (tx_env x) then (False, [Sandbox_runtime_unavailable])
     else let issues = concat (map (\<lambda>t. (if tx_hardened x \<and> \<not> to_sandbox_declared t then [Sandbox_policy_missing] else [])
             @ (if tx_hardened x \<and> sb_network (to_sandbox t) \<and> sb_allow_network_hosts (to_sandbox t) = [] then [Network_hosts_missing] else []))
           (dvals tools))
       in (issues = [], issues))"

subsection \<open>What is started\<close>

lemma parse_format_plain: "CHR ''{'' \<notin> set s \<Longrightarrow> CHR ''}'' \<notin> set s \<Longrightarrow> parse_format lit s = Some (if lit @ s = [] then [] else [Piece (lit @ s) None])"
  by (induction s arbitrary: lit) auto

lemma format_element_plain:
  "\<not> has_char CHR ''{'' e \<Longrightarrow> \<not> has_char CHR ''}'' e \<Longrightarrow> format_element lib args e = Some e"
  by (simp add: format_element_def parse_format_plain has_char_def)

lemma build_command_length: "build_command lib args es = Some cs \<Longrightarrow> length cs = length es"
  by (induction es arbitrary: cs) (auto simp: bind_eq_Some_conv)

lemma build_command_nth: "build_command lib args es = Some cs \<Longrightarrow> i < length es \<Longrightarrow> format_element lib args (es ! i) = Some (cs ! i)"
proof (induction es arbitrary: cs i)
  case (Cons e es)
  then obtain c ds where "cs = c # ds" "format_element lib args e = Some c" "build_command lib args es = Some ds"
    by (auto simp: bind_eq_Some_conv)
  then show ?case using Cons by (cases i) auto
qed simp

lemma template_head:
  assumes "\<not> command_template_problem es" and "build_command lib args es = Some cs"
  shows "es \<noteq> [] \<and> cs \<noteq> [] \<and> hd cs = hd es"
proof -
  obtain e es' where e: "es = e # es'" "\<not> has_char CHR ''{'' e" "\<not> has_char CHR ''}'' e" using assms(1) by (cases es) (auto simp: command_template_problem_def)
  then show ?thesis using assms(2) format_element_plain [OF e(2,3)] by (auto simp: bind_eq_Some_conv)
qed

text \<open>Where the program may be.\<close>

definition program_of :: "string \<Rightarrow> string \<Rightarrow> string \<Rightarrow> bool" where
  "program_of name search_path executable \<longleftrightarrow> starts_with ''/'' executable
     \<and> (executable = name \<or> (\<exists>d \<in> set (split_on CHR '':'' search_path). executable = path_join d name))"

lemma resolve_executable_sound:
  assumes "resolve_executable lib name search_path = Some e"
  shows "tl_runnable lib e \<and> program_of name search_path e"
proof -
  have j: "starts_with ''/'' d \<Longrightarrow> starts_with ''/'' (path_join d name)" for d
    by (cases d) (auto simp: path_join_def starts_with_def)
  show ?thesis using assms j
    by (auto simp: resolve_executable_def program_of_def find_Some_iff Let_def in_set_conv_nth split: if_splits)
      (metis (no_types, lifting) length_map mem_Collect_eq nth_map nth_mem set_filter in_set_conv_nth)+
qed

text \<open>An argument inside one of the directories, as the child process would resolve it.\<close>

definition argument_inside :: "tool_lib \<Rightarrow> string \<Rightarrow> string \<Rightarrow> bool" where
  "argument_inside lib path prefix \<longleftrightarrow> inside (tl_realpath lib prefix) (tl_realpath lib path)"

lemma common_prefix_comm: "common_prefix cs ds = common_prefix ds cs"
  by (induction cs ds rule: common_prefix.induct) auto

lemma is_within_inside:
  assumes "\<And>p. real_path (tl_realpath lib p)" and "is_within lib path prefix"
  shows "argument_inside lib path prefix"
proof -
  obtain cs ds where c: "list_all plain_part cs" "tl_realpath lib path = abs_path cs" and d: "list_all plain_part ds" "tl_realpath lib prefix = abs_path ds"
    using assms(1) [of path] assms(1) [of prefix] by (auto simp: real_path_def)
  have "common_prefix cs ds = ds"
    using assms(2) c d abs_path_inject [OF common_prefix_plain [OF c(1)] d(1)] by (auto simp: is_within_def commonpath_abs)
  then have "common_prefix ds cs = ds" by (simp add: common_prefix_comm)
  then obtain rest where "cs = ds @ rest" by (auto simp: common_prefix_all)
  then show ?thesis using c d by (auto simp: argument_inside_def inside_def)
qed

text \<open>The environment of a process names no credential and, without network access, no proxy.\<close>

lemma sanitize_env_clean:
  assumes "sanitize_env env network workspace k = Some v" and "k \<notin> {''TMP'', ''TEMP'', ''TMPDIR''}"
  shows "env k = Some v \<and> \<not> sensitive_name k \<and> (k \<in> set PROXY_NAMES \<longrightarrow> network)"
  using assms by (auto simp: sanitize_env_def split: if_splits)

lemma execute_tool_started:
  assumes "execute_tool lib x tools n args = (r, Some c)"
  shows "\<exists>tool. dget tools n = Some tool \<and> hardened_refusal x tool = None \<and> prepare_command lib x tool args = Inr c"
  using assms by (auto simp: execute_tool_def split: option.splits sum.splits)

lemma prepare_commandD:
  assumes "prepare_command lib x tool args = Inr (cmd, e, cwd)"
  shows "\<not> command_template_problem (to_command_template tool)" and "validate_args lib tool args = None"
    and "cwd = sandbox_workspace (tx_env x) (tx_cwd x) (tx_state_dir x)" and "e = sanitize_env (tx_env x) (sb_network (to_sandbox tool)) cwd"
    and "fs_violations lib tool cwd args = []"
    and "\<exists>cs executable. build_command lib args (to_command_template tool) = Some cs \<and> check_argument_values lib (to_command_template tool) args cs = None
      \<and> resolve_executable lib (hd cs) (case e ''PATH'' of None \<Rightarrow> [] | Some p \<Rightarrow> p) = Some executable \<and> cmd = executable # tl cs"
  using assms by (auto simp: prepare_command_def Let_def split: if_splits option.splits)

lemma validate_args_None:
  assumes "validate_args lib tool args = None"
  shows "set (dkeys args) \<subseteq> set (dkeys (to_allowed_args tool))"
    and "(k, p) \<in> set (to_allowed_args tool) \<Longrightarrow> dget args k = Some v \<Longrightarrow> tl_match lib p (tl_text lib v) = Some True"
  using assms unfolding validate_args_def list_all_iff by (auto split: if_splits option.splits)

lemma check_values_None:
  assumes "check_argument_values lib template args cs = None" and "length cs = length template"
  shows "(k, v) \<in> set args \<Longrightarrow> \<not> list_ex control_character (tl_text lib v)"
    and "0 < i \<Longrightarrow> i < length cs \<Longrightarrow> leading_placeholder (template ! i) = Some (Some f) \<Longrightarrow> \<not> starts_with ''-'' (cs ! i)"
proof -
  have a: "\<not> list_ex (\<lambda>(k, v). list_ex control_character (tl_text lib v)) args" and b: "\<not> list_ex option_injected (zip (tl template) (tl cs))"
    using assms(1) unfolding check_argument_values_def by (auto split: if_splits)
  show "\<not> list_ex control_character (tl_text lib v)" if "(k, v) \<in> set args" using a that by (auto simp: list_ex_iff)
  show "\<not> starts_with ''-'' (cs ! i)" if i: "0 < i" "i < length cs" "leading_placeholder (template ! i) = Some (Some f)"
  proof -
    have "(tl template ! (i - 1), tl cs ! (i - 1)) \<in> set (zip (tl template) (tl cs))"
      using i assms(2) by (auto simp: in_set_zip intro!: exI [of _ "i - 1"])
    then have "\<not> option_injected (template ! i, cs ! i)" using b i assms(2) by (auto simp: list_ex_iff nth_tl)
    then show ?thesis using i(3) by (simp add: option_injected_def)
  qed
qed

lemma no_violations:
  assumes "fs_violations lib tool cwd args = []" and "sb_allow_fs_read (to_sandbox tool) @ sb_allow_fs_write (to_sandbox tool) \<noteq> []"
    and "(k, v) \<in> set args"
  shows "\<exists>prefix \<in> set (sb_allow_fs_read (to_sandbox tool) @ sb_allow_fs_write (to_sandbox tool)). is_within lib (path_join cwd (tl_text lib v)) prefix"
proof -
  have "filter (\<lambda>(k, v). \<not> list_ex (is_within lib (path_join cwd (tl_text lib v))) (sb_allow_fs_read (to_sandbox tool) @ sb_allow_fs_write (to_sandbox tool))) args = []"
    using assms(1,2) unfolding fs_violations_def Let_def by (metis (no_types, lifting) length_0_conv length_map length_sort)
  then show ?thesis using assms(3) by (auto simp: filter_empty_conv list_ex_iff)
qed

text \<open>
  C40: A call starts a process only for an allowlisted tool, and the command is what the definition says:
  as many elements as its template; a program that is an executable file named by the operator, at an
  absolute path; arguments that are declared, match their patterns and have no control characters; no
  element that starts with a placeholder reads as an option; and, if the tool declares directories,
  every argument, taken on its own, is a path inside one of them. (An element of several placeholders
  can still make a path outside: \<open>joined_arguments_escape\<close>.) The environment handed over names no
  token, secret, key or password and, for a tool without network access, no proxy.
\<close>

theorem tool_run_confined:
  assumes "\<And>p. real_path (tl_realpath lib p)" and "execute_tool lib x tools n args = (r, Some (cmd, e, cwd))"
  shows "\<exists>tool cs. dget tools n = Some tool \<and> build_command lib args (to_command_template tool) = Some cs
    \<and> length cmd = length (to_command_template tool) \<and> tl cmd = tl cs \<and> tl_runnable lib (hd cmd)
    \<and> program_of (hd (to_command_template tool)) (case e ''PATH'' of None \<Rightarrow> [] | Some p \<Rightarrow> p) (hd cmd)
    \<and> set (dkeys args) \<subseteq> set (dkeys (to_allowed_args tool))
    \<and> (\<forall>(k, p) \<in> set (to_allowed_args tool). \<forall>v. dget args k = Some v \<longrightarrow> tl_match lib p (tl_text lib v) = Some True)
    \<and> (\<forall>(k, v) \<in> set args. \<not> list_ex control_character (tl_text lib v))
    \<and> (\<forall>i f. 0 < i \<and> i < length cmd \<and> leading_placeholder (to_command_template tool ! i) = Some (Some f) \<longrightarrow> \<not> starts_with ''-'' (cmd ! i))
    \<and> (let dirs = sb_allow_fs_read (to_sandbox tool) @ sb_allow_fs_write (to_sandbox tool) in dirs \<noteq> [] \<longrightarrow>
        (\<forall>(k, v) \<in> set args. \<exists>dir \<in> set dirs. argument_inside lib (path_join cwd (tl_text lib v)) dir))
    \<and> (\<forall>k v. e k = Some v \<longrightarrow> k \<in> {''TMP'', ''TEMP'', ''TMPDIR''} \<or> \<not> sensitive_name k \<and> (k \<in> set PROXY_NAMES \<longrightarrow> sb_network (to_sandbox tool)))"
proof -
  obtain tool where t: "dget tools n = Some tool" "prepare_command lib x tool args = Inr (cmd, e, cwd)"
    using execute_tool_started [OF assms(2)] by blast
  note p = prepare_commandD [OF t(2)]
  obtain cs exe where c: "build_command lib args (to_command_template tool) = Some cs" "check_argument_values lib (to_command_template tool) args cs = None"
    "resolve_executable lib (hd cs) (case e ''PATH'' of None \<Rightarrow> [] | Some p \<Rightarrow> p) = Some exe" "cmd = exe # tl cs" using p(6) by blast
  have len: "length cs = length (to_command_template tool)" by (rule build_command_length [OF c(1)])
  have hd: "cs \<noteq> []" "hd cs = hd (to_command_template tool)" using template_head [OF p(1) c(1)] by auto
  have cmd: "hd cmd = exe" "tl cmd = tl cs" by (simp_all add: c(4))
  have lcmd: "length cmd = length (to_command_template tool)" using hd(1) len by (cases cs) (simp_all add: c(4))
  have "\<not> starts_with ''-'' (cmd ! i)" if "0 < i" "i < length cmd" "leading_placeholder (to_command_template tool ! i) = Some (Some f)" for i f
    using check_values_None(2) [OF c(2) len, of i f] that hd(1) by (cases i) (auto simp: c(4) nth_tl)
  moreover have "\<exists>dir \<in> set (sb_allow_fs_read (to_sandbox tool) @ sb_allow_fs_write (to_sandbox tool)). argument_inside lib (path_join cwd (tl_text lib v)) dir"
    if "sb_allow_fs_read (to_sandbox tool) @ sb_allow_fs_write (to_sandbox tool) \<noteq> []" "(k, v) \<in> set args" for k v
    using no_violations [OF p(5) that] is_within_inside [OF assms(1)] by blast
  moreover have "\<forall>k v. e k = Some v \<longrightarrow> k \<in> {''TMP'', ''TEMP'', ''TMPDIR''} \<or> \<not> sensitive_name k \<and> (k \<in> set PROXY_NAMES \<longrightarrow> sb_network (to_sandbox tool))"
    unfolding p(4) using sanitize_env_clean by blast
  ultimately show ?thesis
    using t(1) c(1,3) cmd hd lcmd validate_args_None [OF p(2)] check_values_None(1) [OF c(2) len] resolve_executable_sound [OF c(3)]
    by (intro exI [of _ tool] exI [of _ cs]) (auto simp: Let_def)
qed

definition demo_tool_lib :: tool_lib where
  "demo_tool_lib = \<lparr>tl_realpath = (\<lambda>p. normpath (CHR ''/'' # dropWhile (\<lambda>c. c = CHR ''/'') p)), tl_text = (\<lambda>j. case j of JStr s \<Rightarrow> s | _ \<Rightarrow> ''?''),
     tl_match = (\<lambda>_ _. Some True), tl_render = (\<lambda>_ _. None), tl_runnable = (\<lambda>p. p = ''/bin/cat''), tl_bytes = length, tl_redact = id\<rparr>"

definition demo_tool :: "string list \<Rightarrow> tool_def" where
  "demo_tool template = \<lparr>to_name = ''cat'', to_command_template = template, to_allowed_args = [(''dir'', ''.*''), (''file'', ''.*'')],
     to_timeout_sec = 30, to_max_output_bytes = 100, to_description = [],
     to_sandbox = \<lparr>sb_network = False, sb_allow_fs_read = [''/work''], sb_allow_fs_write = [], sb_allow_network_hosts = []\<rparr>, to_sandbox_declared = True\<rparr>"

definition demo_tool_context :: tool_context where
  "demo_tool_context = \<lparr>tx_env = [''PATH'' \<mapsto> ''/bin:/usr/bin'', ''OPENCLAW_TOOL_SANDBOX_DIR'' \<mapsto> ''/work/box''], tx_hardened = True, tx_cwd = ''/'', tx_state_dir = ''/work'',
     tx_run = (\<lambda>_. Completed 0 ''ok'' [])\<rparr>"

lemma demo_tool_real: "real_path (tl_realpath demo_tool_lib p)"
proof -
  have "real_path (normpath (CHR ''/'' # dropWhile (\<lambda>c. c = CHR ''/'') p))"
  proof (rule normpath_absolute)
    show "starts_with ''/'' (CHR ''/'' # dropWhile (\<lambda>c. c = CHR ''/'') p)" by (simp add: starts_with_def)
    show "\<not> starts_with ''//'' (CHR ''/'' # dropWhile (\<lambda>c. c = CHR ''/'') p)"
      by (induction p) (simp_all add: starts_with_def)
  qed
  then show ?thesis by (simp add: demo_tool_lib_def)
qed

lemma demo_workspace:
  "sandbox_workspace (tx_env demo_tool_context) (tx_cwd demo_tool_context) (tx_state_dir demo_tool_context) = ''/work/box''"
proof -
  have "env_value (tx_env demo_tool_context) ''OPENCLAW_TOOL_SANDBOX_DIR'' (Some []) = Some ''/work/box''"
    by (rule env_value_canonical) (simp_all add: demo_tool_context_def)
  moreover have "py_strip ''/work/box'' = ''/work/box''" "normpath (path_join (tx_cwd demo_tool_context) ''/work/box'') = ''/work/box''" by code_simp+
  ultimately show ?thesis by (simp add: sandbox_workspace_def)
qed

definition demo_env_of_tool :: env where
  "demo_env_of_tool = sanitize_env (tx_env demo_tool_context) False ''/work/box''"

lemma demo_path: "demo_env_of_tool ''PATH'' = Some ''/bin:/usr/bin''"
  by code_simp

lemma demo_tool_prepared:
  "prepare_command demo_tool_lib demo_tool_context (demo_tool [''cat'', ''{file}'']) [(''file'', JStr ''a.txt'')]
     = Inr ([''/bin/cat'', ''a.txt''], demo_env_of_tool, ''/work/box'')"
  "prepare_command demo_tool_lib demo_tool_context (demo_tool [''cat'', ''{dir}{file}'']) [(''dir'', JStr ''/work/.''), (''file'', JStr ''./../etc'')]
     = Inr ([''/bin/cat'', ''/work/../../etc''], demo_env_of_tool, ''/work/box'')"
proof -
  have n: "sb_network (to_sandbox (demo_tool t)) = False" for t by (simp add: demo_tool_def)
  have "\<not> command_template_problem (to_command_template (demo_tool [''cat'', ''{file}'']))"
    "validate_args demo_tool_lib (demo_tool [''cat'', ''{file}'']) [(''file'', JStr ''a.txt'')] = None"
    "build_command demo_tool_lib [(''file'', JStr ''a.txt'')] (to_command_template (demo_tool [''cat'', ''{file}''])) = Some [''cat'', ''a.txt'']"
    "check_argument_values demo_tool_lib (to_command_template (demo_tool [''cat'', ''{file}''])) [(''file'', JStr ''a.txt'')] [''cat'', ''a.txt''] = None"
    "fs_violations demo_tool_lib (demo_tool [''cat'', ''{file}'']) ''/work/box'' [(''file'', JStr ''a.txt'')] = []"
    "resolve_executable demo_tool_lib ''cat'' ''/bin:/usr/bin'' = Some ''/bin/cat''" by code_simp+
  then show "prepare_command demo_tool_lib demo_tool_context (demo_tool [''cat'', ''{file}'']) [(''file'', JStr ''a.txt'')]
     = Inr ([''/bin/cat'', ''a.txt''], demo_env_of_tool, ''/work/box'')"
    by (simp add: prepare_command_def demo_workspace n demo_path flip: demo_env_of_tool_def)
  have "\<not> command_template_problem (to_command_template (demo_tool [''cat'', ''{dir}{file}'']))"
    "validate_args demo_tool_lib (demo_tool [''cat'', ''{dir}{file}'']) [(''dir'', JStr ''/work/.''), (''file'', JStr ''./../etc'')] = None"
    "build_command demo_tool_lib [(''dir'', JStr ''/work/.''), (''file'', JStr ''./../etc'')] (to_command_template (demo_tool [''cat'', ''{dir}{file}''])) = Some [''cat'', ''/work/../../etc'']"
    "check_argument_values demo_tool_lib (to_command_template (demo_tool [''cat'', ''{dir}{file}''])) [(''dir'', JStr ''/work/.''), (''file'', JStr ''./../etc'')] [''cat'', ''/work/../../etc''] = None"
    "fs_violations demo_tool_lib (demo_tool [''cat'', ''{dir}{file}'']) ''/work/box'' [(''dir'', JStr ''/work/.''), (''file'', JStr ''./../etc'')] = []"
    "resolve_executable demo_tool_lib ''cat'' ''/bin:/usr/bin'' = Some ''/bin/cat''" by code_simp+
  then show "prepare_command demo_tool_lib demo_tool_context (demo_tool [''cat'', ''{dir}{file}'']) [(''dir'', JStr ''/work/.''), (''file'', JStr ''./../etc'')]
     = Inr ([''/bin/cat'', ''/work/../../etc''], demo_env_of_tool, ''/work/box'')"
    by (simp add: prepare_command_def demo_workspace n demo_path flip: demo_env_of_tool_def)
qed

lemma demo_hardened: "hardened_refusal demo_tool_context (demo_tool t) = None"
  by code_simp

lemma demo_executed:
  "prepare_command demo_tool_lib demo_tool_context (demo_tool t) args = Inr c \<Longrightarrow>
    execute_tool demo_tool_lib demo_tool_context [(''cat'', demo_tool t)] ''cat'' args = (process_result demo_tool_lib (demo_tool t) ''cat'' (Completed 0 ''ok'' []), Some c)"
  by (simp add: execute_tool_def demo_hardened) (simp add: demo_tool_context_def)

theorem tool_run_confined_witness:
  "snd (execute_tool demo_tool_lib demo_tool_context [(''cat'', demo_tool [''cat'', ''{file}''])] ''cat'' [(''file'', JStr ''a.txt'')])
     = Some ([''/bin/cat'', ''a.txt''], demo_env_of_tool, ''/work/box'')
   \<and> argument_inside demo_tool_lib ''/work/box/a.txt'' ''/work''"
proof -
  note e = demo_executed [OF demo_tool_prepared(1)]
  have j: "path_join ''/work/box'' (tl_text demo_tool_lib (JStr ''a.txt'')) = ''/work/box/a.txt''" by code_simp
  have "argument_inside demo_tool_lib ''/work/box/a.txt'' ''/work''"
    using tool_run_confined [OF demo_tool_real e] by (auto simp: demo_tool_def Let_def j)
  then show ?thesis by (simp add: e)
qed

text \<open>
  The directories are checked for each argument alone, not for the element that the arguments make
  together: here both arguments are inside \<open>/work\<close>, and the program is given a path outside it.
\<close>

theorem joined_arguments_escape:
  "snd (execute_tool demo_tool_lib demo_tool_context [(''cat'', demo_tool [''cat'', ''{dir}{file}''])] ''cat''
        [(''dir'', JStr ''/work/.''), (''file'', JStr ''./../etc'')]) = Some ([''/bin/cat'', ''/work/../../etc''], demo_env_of_tool, ''/work/box'')
   \<and> tl_realpath demo_tool_lib ''/work/../../etc'' = ''/etc''"
proof (rule conjI)
  show "tl_realpath demo_tool_lib ''/work/../../etc'' = ''/etc''" by code_simp
qed (simp add: demo_executed [OF demo_tool_prepared(2)])

end
