(* ===== verification/Deployment_Profile.thy ===== *)
theory Deployment_Profile
  imports Env_Aliases
begin

text \<open>
  \<open>services/deployment_profile.py\<close> and \<open>services/connector_allowlist_posture.py\<close>: the checks of the
  settings for a local, a LAN and a public deployment. A check is its severity and code; its
  wording is left out.
\<close>

subsection \<open>Settings\<close>

text \<open>
  A setting with its legacy name (empty: none). All legacy names below are in the registry, so the
  lookup does not raise (\<open>setting_value\<close>).
\<close>

definition setting_text :: "env \<Rightarrow> string \<Rightarrow> string \<Rightarrow> string \<Rightarrow> string" where
  "setting_text env primary legacy dflt =
    (case resolve_env False env primary (Some (if legacy = [] then [] else [legacy])) PRESENCE (Some dflt) (Some False) [] of
       Inl _ \<Rightarrow> [] | Inr (res, _) \<Rightarrow> (case er_value res of None \<Rightarrow> [] | Some v \<Rightarrow> v))"

definition TRUTHY :: "string list" where "TRUTHY = [''1'', ''true'', ''yes'', ''on'']"
definition FALSY :: "string list" where "FALSY = [''0'', ''false'', ''no'', ''off'']"

definition is_enabled :: "env \<Rightarrow> string \<Rightarrow> string \<Rightarrow> bool" where
  "is_enabled env primary legacy \<longleftrightarrow> py_lower (py_strip (setting_text env primary legacy [])) \<in> set TRUTHY"

definition is_explicitly_disabled :: "env \<Rightarrow> string \<Rightarrow> string \<Rightarrow> bool" where
  "is_explicitly_disabled env primary legacy \<longleftrightarrow> py_lower (py_strip (setting_text env primary legacy [])) \<in> set FALSY"

definition has_value :: "env \<Rightarrow> string \<Rightarrow> string \<Rightarrow> bool" where
  "has_value env primary legacy \<longleftrightarrow> py_strip (setting_text env primary legacy []) \<noteq> []"

definition has_boundary_ack :: "env \<Rightarrow> bool" where
  "has_boundary_ack env \<longleftrightarrow> py_lower (py_strip (setting_text env ''OPENCLAW_PUBLIC_SHARED_SURFACE_BOUNDARY_ACK''
      ''MOLTBOT_PUBLIC_SHARED_SURFACE_BOUNDARY_ACK'' [])) \<in> set TRUTHY"

lemma setting_value:
  assumes "legacy = [] \<or> (legacy \<in> set SUPPORTED_LEGACY_ENV_KEYS \<and> legacy \<notin> set REJECTED_LEGACY_ENV_KEYS)"
  shows "setting_text env primary legacy dflt = (case env primary of Some v \<Rightarrow> v | None \<Rightarrow>
     (case (if legacy = [] then None else env legacy) of Some v \<Rightarrow> v | None \<Rightarrow> dflt))"
  using assms by (auto simp: setting_text_def resolve_env_def Let_def split: option.split)

subsection \<open>Connectors\<close>

record platform_rules =
  pf_active_value_vars :: "string list"
  pf_active_truthy_vars :: "string list"
  pf_allowlist_vars :: "string list"

definition CONNECTOR_PLATFORM_RULES :: "(string \<times> platform_rules) list" where
  "CONNECTOR_PLATFORM_RULES =
   [(''telegram'', \<lparr>pf_active_value_vars = [''OPENCLAW_CONNECTOR_TELEGRAM_TOKEN''], pf_active_truthy_vars = [],
       pf_allowlist_vars = [''OPENCLAW_CONNECTOR_TELEGRAM_ALLOWED_USERS'', ''OPENCLAW_CONNECTOR_TELEGRAM_ALLOWED_CHATS'']\<rparr>),
    (''discord'', \<lparr>pf_active_value_vars = [''OPENCLAW_CONNECTOR_DISCORD_TOKEN''], pf_active_truthy_vars = [],
       pf_allowlist_vars = [''OPENCLAW_CONNECTOR_DISCORD_ALLOWED_USERS'', ''OPENCLAW_CONNECTOR_DISCORD_ALLOWED_CHANNELS'']\<rparr>),
    (''line'', \<lparr>pf_active_value_vars = [''OPENCLAW_CONNECTOR_LINE_CHANNEL_SECRET'', ''OPENCLAW_CONNECTOR_LINE_CHANNEL_ACCESS_TOKEN''],
       pf_active_truthy_vars = [], pf_allowlist_vars = [''OPENCLAW_CONNECTOR_LINE_ALLOWED_USERS'', ''OPENCLAW_CONNECTOR_LINE_ALLOWED_GROUPS'']\<rparr>),
    (''whatsapp'', \<lparr>pf_active_value_vars = [''OPENCLAW_CONNECTOR_WHATSAPP_ACCESS_TOKEN'', ''OPENCLAW_CONNECTOR_WHATSAPP_APP_SECRET''],
       pf_active_truthy_vars = [], pf_allowlist_vars = [''OPENCLAW_CONNECTOR_WHATSAPP_ALLOWED_USERS'']\<rparr>),
    (''wechat'', \<lparr>pf_active_value_vars = [''OPENCLAW_CONNECTOR_WECHAT_TOKEN'', ''OPENCLAW_CONNECTOR_WECHAT_APP_ID'', ''OPENCLAW_CONNECTOR_WECHAT_APP_SECRET''],
       pf_active_truthy_vars = [], pf_allowlist_vars = [''OPENCLAW_CONNECTOR_WECHAT_ALLOWED_USERS'']\<rparr>),
    (''kakao'', \<lparr>pf_active_value_vars = [], pf_active_truthy_vars = [''OPENCLAW_CONNECTOR_KAKAO_ENABLED''],
       pf_allowlist_vars = [''OPENCLAW_CONNECTOR_KAKAO_ALLOWED_USERS'']\<rparr>),
    (''slack'', \<lparr>pf_active_value_vars = [''OPENCLAW_CONNECTOR_SLACK_BOT_TOKEN'', ''OPENCLAW_CONNECTOR_SLACK_SIGNING_SECRET'', ''OPENCLAW_CONNECTOR_SLACK_APP_TOKEN''],
       pf_active_truthy_vars = [], pf_allowlist_vars = [''OPENCLAW_CONNECTOR_SLACK_ALLOWED_USERS'', ''OPENCLAW_CONNECTOR_SLACK_ALLOWED_CHANNELS'']\<rparr>)]"

definition plain_value :: "env \<Rightarrow> string \<Rightarrow> string" where
  "plain_value env key = py_strip (case env key of None \<Rightarrow> [] | Some v \<Rightarrow> v)"

definition connector_has_value :: "env \<Rightarrow> string \<Rightarrow> bool" where
  "connector_has_value env key \<longleftrightarrow> plain_value env key \<noteq> []"

definition connector_truthy :: "env \<Rightarrow> string \<Rightarrow> bool" where
  "connector_truthy env key \<longleftrightarrow> py_lower (plain_value env key) \<in> set TRUTHY"

fun dedupe_from :: "string list \<Rightarrow> string list \<Rightarrow> string list" where
  "dedupe_from seen [] = []"
| "dedupe_from seen (v # vs) = (if v \<in> set seen then dedupe_from seen vs else v # dedupe_from (v # seen) vs)"

definition dedupe_keep_order :: "string list \<Rightarrow> string list" where
  "dedupe_keep_order = dedupe_from []"

definition active_markers_of :: "env \<Rightarrow> platform_rules \<Rightarrow> string list" where
  "active_markers_of env r = filter (connector_has_value env) (pf_active_value_vars r) @ filter (connector_truthy env) (pf_active_truthy_vars r)"

definition configured_allowlists_of :: "env \<Rightarrow> platform_rules \<Rightarrow> string list" where
  "configured_allowlists_of env r = filter (connector_has_value env) (pf_allowlist_vars r)"

record connector_posture =
  cp_active_platforms :: "string list"
  cp_unguarded_platforms :: "string list"
  cp_active_markers :: "string list"
  cp_configured_allowlists :: "string list"
  cp_recommended_allowlist_vars :: "string list"

definition evaluate_connector_allowlist_posture :: "env \<Rightarrow> connector_posture" where
  "evaluate_connector_allowlist_posture env =
    (let active = filter (\<lambda>(p, r). active_markers_of env r \<noteq> []) CONNECTOR_PLATFORM_RULES
     in \<lparr>cp_active_platforms = dedupe_keep_order (map fst active),
         cp_unguarded_platforms = dedupe_keep_order (map fst (filter (\<lambda>(p, r). configured_allowlists_of env r = []) active)),
         cp_active_markers = dedupe_keep_order (concat (map (\<lambda>(p, r). active_markers_of env r) active)),
         cp_configured_allowlists = dedupe_keep_order (concat (map (\<lambda>(p, r). configured_allowlists_of env r) active)),
         cp_recommended_allowlist_vars = dedupe_keep_order (concat (map (\<lambda>(p, r). pf_allowlist_vars r) CONNECTOR_PLATFORM_RULES))\<rparr>)"

definition is_strict_connector_allowlist_profile :: "env \<Rightarrow> bool" where
  "is_strict_connector_allowlist_profile env \<longleftrightarrow>
    py_lower (plain_value env ''OPENCLAW_DEPLOYMENT_PROFILE'') = ''public'' \<or> py_lower (plain_value env ''OPENCLAW_RUNTIME_PROFILE'') = ''hardened''"

subsection \<open>The checks\<close>

datatype severity = PASS | WARN | FAIL

type_synonym dep_check = "severity \<times> string"

definition fail_count :: "dep_check list \<Rightarrow> nat" where "fail_count cs = length (filter (\<lambda>c. fst c = FAIL) cs)"
definition warn_count :: "dep_check list \<Rightarrow> nat" where "warn_count cs = length (filter (\<lambda>c. fst c = WARN) cs)"
definition pass_count :: "dep_check list \<Rightarrow> nat" where "pass_count cs = length (filter (\<lambda>c. fst c = PASS) cs)"

definition has_failures :: "dep_check list \<Rightarrow> bool" where "has_failures cs \<longleftrightarrow> fail_count cs > 0"

text \<open>A check that fails or passes; one that says nothing when it does not fail.\<close>

definition fail_or_pass :: "string \<Rightarrow> bool \<Rightarrow> dep_check list" where
  "fail_or_pass code bad = [(if bad then FAIL else PASS, code)]"

definition only_if_bad :: "severity \<Rightarrow> string \<Rightarrow> bool \<Rightarrow> dep_check list" where
  "only_if_bad s code bad = (if bad then [(s, code)] else [])"

definition check_webhook_auth :: "env \<Rightarrow> bool \<Rightarrow> dep_check list" where
  "check_webhook_auth env require_replay_protection =
    (let mode = py_lower (py_strip (setting_text env ''OPENCLAW_WEBHOOK_AUTH_MODE'' ''MOLTBOT_WEBHOOK_AUTH_MODE'' []));
         has_bearer = has_value env ''OPENCLAW_WEBHOOK_BEARER_TOKEN'' ''MOLTBOT_WEBHOOK_BEARER_TOKEN'';
         has_hmac = has_value env ''OPENCLAW_WEBHOOK_HMAC_SECRET'' ''MOLTBOT_WEBHOOK_HMAC_SECRET''
     in if mode = [] then [(FAIL, ''DP-WEBHOOK-001'')]
        else (if mode = ''bearer'' \<and> \<not> has_bearer then [(FAIL, ''DP-WEBHOOK-002'')]
           else if mode = ''hmac'' \<and> \<not> has_hmac then [(FAIL, ''DP-WEBHOOK-003'')]
           else if mode = ''bearer_or_hmac'' \<and> \<not> (has_bearer \<or> has_hmac) then [(FAIL, ''DP-WEBHOOK-004'')]
           else if mode \<notin> {''bearer'', ''hmac'', ''bearer_or_hmac''} then [(FAIL, ''DP-WEBHOOK-005'')]
           else [(PASS, ''DP-WEBHOOK-000'')])
         @ (if require_replay_protection \<and> is_explicitly_disabled env ''OPENCLAW_WEBHOOK_REQUIRE_REPLAY_PROTECTION'' ''MOLTBOT_WEBHOOK_REQUIRE_REPLAY_PROTECTION''
            then [(FAIL, ''DP-WEBHOOK-006'')]
            else if require_replay_protection then [(PASS, ''DP-WEBHOOK-007'')] else []))"

definition check_flags_disabled :: "env \<Rightarrow> (string \<times> string) list \<Rightarrow> dep_check list" where
  "check_flags_disabled env flags = concat (map (\<lambda>(code, flag). fail_or_pass code (is_enabled env flag [])) flags)"

definition LOCAL_FLAGS :: "(string \<times> string) list" where
  "LOCAL_FLAGS = [(''DP-LOCAL-003'', ''OPENCLAW_ENABLE_EXTERNAL_TOOLS''), (''DP-LOCAL-004'', ''OPENCLAW_ENABLE_REGISTRY_SYNC''),
     (''DP-LOCAL-005'', ''OPENCLAW_ENABLE_TRANSFORMS'')]"

definition COMMON_FLAGS :: "(string \<times> string) list" where
  "COMMON_FLAGS = [(''DP-COMMON-003'', ''OPENCLAW_ENABLE_EXTERNAL_TOOLS''), (''DP-COMMON-004'', ''OPENCLAW_ENABLE_REGISTRY_SYNC''),
     (''DP-COMMON-005'', ''OPENCLAW_ENABLE_TRANSFORMS''), (''DP-COMMON-006'', ''OPENCLAW_ALLOW_ANY_PUBLIC_LLM_HOST''),
     (''DP-COMMON-007'', ''OPENCLAW_ALLOW_INSECURE_BASE_URL''), (''DP-COMMON-008'', ''OPENCLAW_SECURITY_DANGEROUS_BIND_OVERRIDE'')]"

definition remote_admin :: "env \<Rightarrow> bool" where
  "remote_admin env = is_enabled env ''OPENCLAW_ALLOW_REMOTE_ADMIN'' ''MOLTBOT_ALLOW_REMOTE_ADMIN''"

definition trusts_forwarded :: "env \<Rightarrow> bool" where
  "trusts_forwarded env = is_enabled env ''OPENCLAW_TRUST_X_FORWARDED_FOR'' ''MOLTBOT_TRUST_X_FORWARDED_FOR''"

definition trusted_proxies :: "env \<Rightarrow> bool" where
  "trusted_proxies env = has_value env ''OPENCLAW_TRUSTED_PROXIES'' ''MOLTBOT_TRUSTED_PROXIES''"

definition admin_token :: "env \<Rightarrow> bool" where
  "admin_token env = has_value env ''OPENCLAW_ADMIN_TOKEN'' ''MOLTBOT_ADMIN_TOKEN''"

definition observability_token :: "env \<Rightarrow> bool" where
  "observability_token env = has_value env ''OPENCLAW_OBSERVABILITY_TOKEN'' ''MOLTBOT_OBSERVABILITY_TOKEN''"

definition bridge_on :: "env \<Rightarrow> bool" where
  "bridge_on env = is_enabled env ''OPENCLAW_BRIDGE_ENABLED'' ''MOLTBOT_BRIDGE_ENABLED''"

definition bridge_token :: "env \<Rightarrow> bool" where
  "bridge_token env = has_value env ''OPENCLAW_BRIDGE_DEVICE_TOKEN'' ''MOLTBOT_BRIDGE_DEVICE_TOKEN''"

definition bridge_mtls :: "env \<Rightarrow> bool" where
  "bridge_mtls env = is_enabled env ''OPENCLAW_BRIDGE_MTLS_ENABLED'' []"

definition bridge_certs :: "env \<Rightarrow> bool" where
  "bridge_certs env = has_value env ''OPENCLAW_BRIDGE_DEVICE_CERT_MAP'' []"

definition bridge_devices :: "env \<Rightarrow> bool" where
  "bridge_devices env = has_value env ''OPENCLAW_BRIDGE_ALLOWED_DEVICE_IDS'' ''MOLTBOT_BRIDGE_ALLOWED_DEVICE_IDS''"

definition local_checks :: "env \<Rightarrow> dep_check list" where
  "local_checks env = fail_or_pass ''DP-LOCAL-001'' (remote_admin env) @ fail_or_pass ''DP-LOCAL-002'' (trusts_forwarded env)
     @ concat (map (\<lambda>(code, flag). only_if_bad FAIL code (is_enabled env flag [])) LOCAL_FLAGS)
     @ [(if \<not> admin_token env then WARN else PASS, ''DP-LOCAL-006'')]"

definition common_checks :: "env \<Rightarrow> dep_check list" where
  "common_checks env = fail_or_pass ''DP-COMMON-001'' (\<not> admin_token env) @ fail_or_pass ''DP-COMMON-002'' (\<not> observability_token env)
     @ check_webhook_auth env True @ check_flags_disabled env COMMON_FLAGS
     @ (if bridge_on env then fail_or_pass ''DP-COMMON-009'' (\<not> bridge_token env) else [])"

definition lan_checks :: "env \<Rightarrow> dep_check list" where
  "lan_checks env = fail_or_pass ''DP-LAN-001'' (\<not> remote_admin env)
     @ only_if_bad FAIL ''DP-LAN-002'' (trusts_forwarded env \<and> \<not> trusted_proxies env)
     @ only_if_bad WARN ''DP-LAN-003'' (bridge_on env \<and> \<not> bridge_mtls env)"

definition public_checks :: "env \<Rightarrow> dep_check list" where
  "public_checks env = fail_or_pass ''DP-PUBLIC-001'' (remote_admin env) @ fail_or_pass ''DP-PUBLIC-002'' (\<not> trusts_forwarded env)
     @ fail_or_pass ''DP-PUBLIC-003'' (\<not> trusted_proxies env)
     @ only_if_bad WARN ''DP-PUBLIC-004'' (\<not> has_value env ''OPENCLAW_CALLBACK_ALLOW_HOSTS'' ''MOLTBOT_CALLBACK_ALLOW_HOSTS'')
     @ fail_or_pass ''DP-PUBLIC-009'' (cp_unguarded_platforms (evaluate_connector_allowlist_posture env) \<noteq> [])
     @ (if bridge_on env then only_if_bad FAIL ''DP-PUBLIC-005'' (\<not> bridge_mtls env) @ only_if_bad FAIL ''DP-PUBLIC-006'' (\<not> bridge_certs env)
          @ only_if_bad FAIL ''DP-PUBLIC-007'' (\<not> bridge_devices env) else [])
     @ fail_or_pass ''DP-PUBLIC-008'' (\<not> has_boundary_ack env)"

text \<open>\<open>None\<close>: an unsupported profile, which raises.\<close>

definition evaluate_deployment_profile :: "string \<Rightarrow> env \<Rightarrow> (string \<times> dep_check list) option" where
  "evaluate_deployment_profile profile env =
    (let p = py_lower (py_strip profile) in
     if p = ''local'' then Some (p, local_checks env)
     else if p = ''lan'' then Some (p, common_checks env @ lan_checks env)
     else if p = ''public'' then Some (p, common_checks env @ public_checks env)
     else None)"

subsection \<open>What a deployment without failures has\<close>

lemma no_failures: "\<not> has_failures cs \<longleftrightarrow> (\<forall>c \<in> set cs. fst c \<noteq> FAIL)"
  by (auto simp: has_failures_def fail_count_def filter_empty_conv)

lemma no_failures_append [simp]: "has_failures (cs @ ds) \<longleftrightarrow> has_failures cs \<or> has_failures ds"
  by (auto simp: has_failures_def fail_count_def)

lemma no_failures_simps [simp]:
  "has_failures (fail_or_pass code bad) = bad" "has_failures (only_if_bad s code bad) \<longleftrightarrow> bad \<and> s = FAIL" "\<not> has_failures []"
  "has_failures ((s, code) # cs) \<longleftrightarrow> s = FAIL \<or> has_failures cs"
  by (auto simp: has_failures_def fail_count_def fail_or_pass_def only_if_bad_def)

lemma no_failures_concat: "has_failures (concat css) \<longleftrightarrow> (\<exists>cs \<in> set css. has_failures cs)"
  by (induction css) auto

lemma flags_ok: "has_failures (check_flags_disabled env flags) \<longleftrightarrow> (\<exists>(code, flag) \<in> set flags. is_enabled env flag [])"
  by (simp add: check_flags_disabled_def no_failures_concat split_beta)

definition webhook_credentials :: "env \<Rightarrow> bool" where
  "webhook_credentials env \<longleftrightarrow>
    (let mode = py_lower (py_strip (setting_text env ''OPENCLAW_WEBHOOK_AUTH_MODE'' ''MOLTBOT_WEBHOOK_AUTH_MODE'' []));
         has_bearer = has_value env ''OPENCLAW_WEBHOOK_BEARER_TOKEN'' ''MOLTBOT_WEBHOOK_BEARER_TOKEN'';
         has_hmac = has_value env ''OPENCLAW_WEBHOOK_HMAC_SECRET'' ''MOLTBOT_WEBHOOK_HMAC_SECRET''
     in mode = ''bearer'' \<and> has_bearer \<or> mode = ''hmac'' \<and> has_hmac \<or> mode = ''bearer_or_hmac'' \<and> (has_bearer \<or> has_hmac))"

lemma webhook_ok:
  "has_failures (check_webhook_auth env True) \<longleftrightarrow> \<not> webhook_credentials env
     \<or> is_explicitly_disabled env ''OPENCLAW_WEBHOOK_REQUIRE_REPLAY_PROTECTION'' ''MOLTBOT_WEBHOOK_REQUIRE_REPLAY_PROTECTION''"
  by (auto simp: check_webhook_auth_def webhook_credentials_def Let_def) (auto simp: py_lower_def)

lemma dedupe_Nil: "dedupe_keep_order vs = [] \<longleftrightarrow> vs = []"
  by (cases vs) (simp_all add: dedupe_keep_order_def)

definition connectors_guarded :: "env \<Rightarrow> bool" where
  "connectors_guarded env \<longleftrightarrow> (\<forall>(p, r) \<in> set CONNECTOR_PLATFORM_RULES. active_markers_of env r = [] \<or> configured_allowlists_of env r \<noteq> [])"

lemma unguarded_none: "cp_unguarded_platforms (evaluate_connector_allowlist_posture env) = [] \<longleftrightarrow> connectors_guarded env"
  by (auto simp: evaluate_connector_allowlist_posture_def connectors_guarded_def dedupe_Nil filter_empty_conv Let_def)

text \<open>
  The checks of a public deployment find no failure exactly when the administration and observability
  tokens are set, the webhooks have the credential of their mode and replay protection, none of the
  dangerous switches is on, remote administration is off, the proxy is trusted by explicit addresses,
  every active connector has an allowlist, the shared surface is acknowledged, and the bridge, if it is
  on, has its token, mutual TLS, certificates and devices.
\<close>

theorem public_profile_exact:
  "(\<exists>cs. evaluate_deployment_profile ''public'' env = Some (''public'', cs) \<and> \<not> has_failures cs) \<longleftrightarrow>
     admin_token env \<and> observability_token env \<and> webhook_credentials env
     \<and> \<not> is_explicitly_disabled env ''OPENCLAW_WEBHOOK_REQUIRE_REPLAY_PROTECTION'' ''MOLTBOT_WEBHOOK_REQUIRE_REPLAY_PROTECTION''
     \<and> (\<forall>flag \<in> snd ` set COMMON_FLAGS. \<not> is_enabled env flag [])
     \<and> \<not> remote_admin env \<and> trusts_forwarded env \<and> trusted_proxies env \<and> connectors_guarded env \<and> has_boundary_ack env
     \<and> (bridge_on env \<longrightarrow> bridge_token env \<and> bridge_mtls env \<and> bridge_certs env \<and> bridge_devices env)"
proof -
  have "py_lower (py_strip ''public'') = ''public''" by code_simp
  then have e: "evaluate_deployment_profile ''public'' env = Some (''public'', common_checks env @ public_checks env)"
    by (simp add: evaluate_deployment_profile_def)
  have c: "has_failures (common_checks env) \<longleftrightarrow> \<not> admin_token env \<or> \<not> observability_token env \<or> \<not> webhook_credentials env
     \<or> is_explicitly_disabled env ''OPENCLAW_WEBHOOK_REQUIRE_REPLAY_PROTECTION'' ''MOLTBOT_WEBHOOK_REQUIRE_REPLAY_PROTECTION''
     \<or> (\<exists>flag \<in> snd ` set COMMON_FLAGS. is_enabled env flag []) \<or> bridge_on env \<and> \<not> bridge_token env"
    by (simp add: common_checks_def webhook_ok flags_ok split_beta)
  have p: "has_failures (public_checks env) \<longleftrightarrow> remote_admin env \<or> \<not> trusts_forwarded env \<or> \<not> trusted_proxies env
     \<or> \<not> connectors_guarded env \<or> bridge_on env \<and> (\<not> bridge_mtls env \<or> \<not> bridge_certs env \<or> \<not> bridge_devices env) \<or> \<not> has_boundary_ack env"
    by (simp add: public_checks_def unguarded_none)
  show ?thesis by (simp add: e c p) blast
qed

definition demo_public_env :: env where
  "demo_public_env k = (if k \<in> {''OPENCLAW_ADMIN_TOKEN'', ''OPENCLAW_OBSERVABILITY_TOKEN'', ''OPENCLAW_WEBHOOK_BEARER_TOKEN'', ''OPENCLAW_TRUSTED_PROXIES''} then Some ''x''
     else if k = ''OPENCLAW_WEBHOOK_AUTH_MODE'' then Some ''bearer''
     else if k \<in> {''OPENCLAW_TRUST_X_FORWARDED_FOR'', ''OPENCLAW_PUBLIC_SHARED_SURFACE_BOUNDARY_ACK''} then Some ''1'' else None)"

lemma demo_public_checks: "\<not> has_failures (common_checks demo_public_env @ public_checks demo_public_env)"
  by code_simp

end
