(* ===== verification/Spec2Isabelle.thy ===== *)
theory Spec2Isabelle
  imports Targets Tenant Delivery_Contract Delivery_Outbox Idempotency Rate_Limit Approvals
    Sched_Model Run_History Sched_Runner Bridge_Token Replay_Lifecycle Webhook_Auth Packs
    Registry_Quarantine Execution_Budgets Retry_Partition Ttl_Cache Llm_Failover Audit_Chain Safe_Outbound
    Access_Control Audit_Events Schema_Sanitizer Job_Events Traces Safe_Path Model_Runs Transport Callback_Gate
    Ingress_Gate Bridge_Auth Webhook_Mapping Command_Firewall Job_Schema Webhook_Submit Tool_Runner Deployment_Profile
begin

text \<open>
  Verification of the service layer of ComfyUI-OpenClaw, an automation backend that runs
  beside ComfyUI: schedules, webhooks and chat platforms submit workflow templates to it, and
  it decides who may run what, how often, exactly once, and to whom the results go. The
  Python sources are under \<open>src/services\<close>; every definition that models code keeps the
  name of the function it translates where HOL allows it.

  \<^bold>\<open>The parts and how they interact.\<close> A request arrives with an address, a token and
  headers. \<open>request_ip\<close> finds the client's address, \<open>access_control\<close> decides which tier of
  endpoints it may use, \<open>tenant_context\<close> turns the headers into a tenant and \<open>rate_limit\<close> charges the budgets of
  the endpoint, the day, the token, the tenant and the address, in this order. A submission
  is deduplicated by \<open>idempotency_store\<close>; one that needs a human decision becomes a request
  of \<open>approvals\<close>. The scheduler (\<open>scheduler/runner\<close>) finds the due schedules of
  \<open>scheduler/storage\<close>, submits each tick under an idempotency key of its minute, keeps the
  runs in \<open>scheduler/history\<close>, and records what is to be delivered in
  \<open>scheduler/delivery_outbox\<close>, in the normal form of \<open>scheduler/delivery_contract\<close> with the
  identifiers of \<open>chatops/targets\<close>. A connector process claims deliveries from the outbox
  under a lease and acknowledges them; its own actions are protected against replay by
  \<open>connector_replay_lifecycle\<close>, and it authenticates with a token of
  \<open>bridge_token_lifecycle\<close>. Webhook callers authenticate through \<open>webhook_auth\<close>, whose nonces
  are keys of \<open>idempotency_store\<close>. A pressed button of a chat platform comes in through
  \<open>connector_callback_contract\<close>, which claims the request in the replay table, resolves the
  workspace through \<open>connector_installation_registry\<close> and applies the policy of the action. A workflow that is started takes a permit of
  \<open>execution_budgets\<close>. Calls to language models go through the candidates of \<open>llm_client\<close> in
  the order \<open>failover\<close> gives; calls to a control plane are repeated as \<open>retry_partition\<close> allows,
  behind the circuit breaker of \<open>control_plane_adapter\<close>. Every request that leaves the process
  is validated and pinned by \<open>safe_io\<close>. Packs of workflows are fetched into
  \<open>registry_quarantine\<close>, verified, and installed by \<open>packs\<close>. Models are downloaded by
  the workers of \<open>model_manager\<close>, verified against their SHA-256, and imported below the install
  directory that \<open>safe_io\<close> confines. Jobs and downloads report to the event store of
  \<open>job_events\<close>, which \<open>api/events\<close> serves under a cursor. What was decided becomes an
  event of \<open>audit_events\<close>, cut to its budgets and redacted, and is written to the
  hash chain of \<open>audit_pipeline\<close>. All settings are looked up through \<open>env_aliases\<close>.

  \<^bold>\<open>Theories.\<close>

  \<^item> \<open>Prelude\<close>: Python's dictionaries as association lists in insertion order, string
  methods, \<open>int(str)\<close>, slices; the collection \<open>dict_simps\<close>.
  \<^item> \<open>Contracts\<close>: the interfaces between the components as locales. \<open>machine\<close>: an
  invariant kept by every event. \<open>clocked_gate\<close> and \<open>clocked_once\<close>: a gate that admits a key at
  most once within a time to live, whatever else happens; \<open>sealed_gate\<close> and \<open>once_gate\<close> are the case
  where being live does not depend on the clock. \<open>keyed_store\<close>: lookup after update.
  \<open>metered\<close>: a resource that grants at most what it holds.
  \<^item> \<open>Env_Aliases\<close> (\<open>env_aliases.py\<close>), \<open>Tenant\<close> (\<open>tenant_context.py\<close>), \<open>Targets\<close>
  (\<open>chatops/targets.py\<close>), \<open>Delivery_Contract\<close> (\<open>scheduler/delivery_contract.py\<close>): pure
  functions of their arguments.
  \<^item> \<open>Delivery_Outbox\<close> (\<open>scheduler/delivery_outbox.py\<close>): the record \<open>outbox\<close> is the dict
  of intents, the file and the flag of the lazy load; one definition per method. The life of
  one intent is the relation \<open>intent_step\<close>, which the operations refine.
  \<^item> \<open>Idempotency\<close> (\<open>idempotency_store.py\<close>): the SQLite table as a list of rows under its
  primary key, with the statements of the code as functions on it, and the in-memory dict;
  both implement \<open>check_spec\<close>.
  \<^item> \<open>Rate_Limit\<close> (\<open>rate_limit.py\<close>): buckets, the daily counter and the ordered evaluation.
  \<^item> \<open>Approvals\<close> (\<open>approvals/models.py\<close>, \<open>storage.py\<close>, \<open>service.py\<close>): the life of one request
  is \<open>approval_step\<close>.
  \<^item> \<open>Sched_Model\<close>, \<open>Run_History\<close>, \<open>Sched_Runner\<close> (\<open>scheduler/models.py\<close>, \<open>storage.py\<close>,
  \<open>history.py\<close>, \<open>runner.py\<close>): the record \<open>sched_system\<close> is the schedule store, the run log,
  the outbox and a log of the submissions.
  \<^item> \<open>Bridge_Token\<close> (\<open>bridge_token_lifecycle.py\<close>): the token store with its audit trail; the
  changes of one token are \<open>token_change\<close>.
  \<^item> \<open>Replay_Lifecycle\<close> (\<open>connector_replay_lifecycle.py\<close>): the claims of actions.
  \<^item> \<open>Webhook_Auth\<close> (\<open>webhook_auth.py\<close>, header names of \<open>legacy_compat.py\<close>): bearer and HMAC
  checks; the replay check runs on the state of \<open>Idempotency\<close>.
  \<^item> \<open>Json\<close>: JSON values with Python's truth values and \<open>dict.get\<close>; files of rows.
  \<^item> \<open>Packs\<close> (\<open>packs/pack_manifest.py\<close>, \<open>pack_archive.py\<close>, \<open>pack_registry.py\<close>): directories
  are trees, an archive is the list of its members.
  \<^item> \<open>Registry_Quarantine\<close> (\<open>registry_quarantine.py\<close>): trust roots and the life of a fetched
  pack with its audit trail.
  \<^item> \<open>Execution_Budgets\<close> (\<open>execution_budgets.py\<close>): the semaphores as numbers of free slots.
  \<^item> \<open>Retry_Partition\<close> (\<open>retry_partition.py\<close>, \<open>control_plane_adapter.py\<close>): lanes, breaker and
  the dispatch loop, as bounded recursion and as the unbounded loop \<open>dispatch_forever\<close>.
  \<^item> \<open>Ttl_Cache\<close> (\<open>cache/ttl_cache.py\<close>): the cache with expiry and a cap.
  \<^item> \<open>Failover\<close>, \<open>Llm_Failover\<close> (\<open>retry_after.py\<close>, \<open>failover.py\<close>, the failover loop of
  \<open>llm_client.py\<close>): the record \<open>failover_state\<close> holds cooldowns, health scores and the times of
  the last attempts.
  \<^item> \<open>Audit_Chain\<close> (\<open>audit_pipeline.py\<close>, the writer of \<open>audit.py\<close>): a log is a dict from the
  number of the rotated file to its text.
  \<^item> \<open>Safe_Outbound\<close> (the outbound half of \<open>safe_io.py\<close>): URLs, addresses as machine words, and
  the loop over the hops of a request. \<open>Safe_Path\<close> is the other half: paths under a root, and
  the writing of a file as the list of the disk states after each system call, any of which may fail.
  \<^item> \<open>Addresses\<close>, \<open>Access_Control\<close> (\<open>request_ip.py\<close>, \<open>csrf_protection.py\<close>,
  \<open>access_control.py\<close>, \<open>endpoint_manifest.py\<close>): a request is the record of its peer address and
  its headers; the answer of a check is a denial with its status, or the token.
  \<^item> \<open>Payloads\<close>, \<open>Audit_Events\<close> (\<open>redaction.py\<close>, \<open>internal_content.py\<close>,
  \<open>reasoning_redaction.py\<close>, \<open>audit_events.py\<close>): recursive functions on JSON values.
  \<^item> \<open>Schema_Sanitizer\<close> (\<open>schema_sanitizer.py\<close>): the normal form of tool schemas.
  \<^item> \<open>Management_Query\<close>, \<open>Job_Events\<close>, \<open>Traces\<close> (\<open>management_query.py\<close>,
  \<open>observability/backpressure.py\<close>, \<open>job_events.py\<close>, \<open>api/events.py\<close>, \<open>trace.py\<close>,
  \<open>trace_store.py\<close>): the ring buffer of events with its counter, and its readers.
  \<^item> \<open>Model_Names\<close>, \<open>Model_Tasks\<close>, \<open>Model_Transfer\<close> (\<open>model_manager.py\<close>,
  \<open>model_manager_tasks.py\<close>, \<open>model_manager_transfer.py\<close>): the record \<open>manager\<close> is the dict of
  tasks, the waiting and running workers, the files and the event store. \<open>Model_Lifecycle\<close> holds
  the invariant of the manager and one preservation lemma per operation, \<open>Model_Runs\<close> the
  relation of its runs over every interleaving of operations, workers and restarts.
  \<^item> \<open>Transport\<close> (\<open>connector/transport_contract.py\<close>): sessions, the event stream, callbacks and
  token sources of the connector, one record per class.
  \<^item> \<open>Secret_Store\<close>, \<open>Installations\<close>, \<open>Callback_Gate\<close> (\<open>secret_store.py\<close>,
  \<open>connector_installation_registry.py\<close>, \<open>connector_callback_contract.py\<close>): the record
  \<open>registry\<close> holds the installations, the trail, the secrets and the file; \<open>callback_gate\<close> composes
  the replay table, the callbacks and the registry. What an operation may commit is the relation
  \<open>commits\<close>, what it may do to the replay table \<open>replay_moves\<close>.
  \<^item> \<open>Ingress_Gate\<close>, \<open>Bridge_Auth\<close> (\<open>connector/security_profile.py\<close>, \<open>services/sidecar/auth.py\<close>):
  the checks of a request that comes in, as one decision; the bridge asks the store of \<open>Bridge_Token\<close>.
  \<^item> \<open>Webhook_Mapping\<close>, \<open>Command_Firewall\<close> (\<open>webhook_mapping.py\<close>, \<open>api/webhook_submit.py\<close>,
  \<open>connector/command_firewall.py\<close>): foreign payloads and suggested commands, brought into the
  canonical form or refused.
  \<^item> \<open>Job_Schema\<close>, \<open>Webhook_Submit\<close> (\<open>models/schemas.py\<close>, \<open>request_contracts.py\<close>,
  \<open>api/webhook_submit.py\<close>): the canonical job request and the handler that submits it, over the
  state of \<open>Idempotency\<close> and a log of what went to the queue.
  \<^item> \<open>Tool_Runner\<close> (\<open>tool_runner.py\<close>): definitions of external tools, the check of their
  arguments, and the prepared process (command line, environment, time limit).
  \<^item> \<open>Deployment_Profile\<close> (\<open>deployment_profile.py\<close>, \<open>connector_allowlist_posture.py\<close>): the
  checks of the settings for each way of deployment.

  \<^bold>\<open>What the lemmas show.\<close> In every stateful component a group of lemmas shows that each
  operation keeps the invariant of the store, a group describes each operation's effect on
  every key, and the component is shown to satisfy the contract its clients rely on (the
  interpretations). The properties, numbered \<open>C1\<close> onwards in the text before each, are then
  consequences: at most one submission, recording, acceptance or end per key; leases, final
  decisions and revocations that no sequence of operations undoes; budgets over time windows;
  requests admitted exactly when their checks pass; one queued job per submission key and tools
  started only with the arguments they declare; refinement of the life of an intent and equivalence of the two
  deduplication backends; files that have the hash they were ordered with, under resumption and
  restarts; paths, payloads and schemas confined to what is allowed; round trips of the text and
  file forms; bounds of every table; and
  the timing of the scheduler.

  \<^bold>\<open>Conventions.\<close> Instants are real numbers (the rounding of binary floating point is not
  modelled) and an operation reads the clock once. Whether a file can be written, or a
  backend call returns, is an argument of the operation (\<open>io\<close>, \<open>ok\<close>); exceptions are the left
  values of a sum or \<open>None\<close>. Dicts keep the insertion order. SHA-256, random tokens, JSON text,
  \<open>realpath\<close>, \<open>croniter\<close> and the submit function are arguments; where a property needs something of them
  it is a hypothesis with a witness. The network (answers of the resolver, replies) and the clock
  of a long-running operation are functions of the number of the attempt. No fuel is used: a loop
  over a collection is structural, the redirect loop has a measure, and the retry loop of the
  control plane is \<open>partial_function\<close>, proved to return.

  \<^bold>\<open>Not modelled.\<close> Locks and threads (an operation under its lock is one step), logging,
  HTTP request objects, the ISO text of timestamps, and the components listed in the manifest as
  not modelled: most HTTP routes, the chat platforms, cryptography, the requests of
  the LLM providers and the start-up glue, which are input and output around the services. The
  task file of the model manager is taken to be writable: an error of \<open>_atomic_json_write\<close> and the
  way it takes through a worker are left out, so the properties of the manager hold as long as its
  own file can be written.
\<close>

end
